(* ===== verification/Layout_Prelude.thy ===== *)
theory Layout_Prelude
  imports Complex_Main "HOL-Library.AList" "HOL-Library.Multiset"
begin

text \<open>
  Shared vocabulary of the development.

  JavaScript values are read as follows.  A \<open>string\<close> is a list of characters; ids, paths and
  titles are compared for equality only, so the encoding does not matter except where a theory
  says so.  A property that may be absent is an \<open>option\<close>; one that may be absent or \<open>null\<close>
  is an \<open>'a optnull\<close>.  A \<open>Record<string, T>\<close> is an association list in enumeration order:
  \<open>map_of\<close> reads a key, \<open>AList.update\<close> overwrites a key in place or appends it,
  \<open>AList.delete\<close> removes it, which is what property assignment and \<open>delete\<close> do to the
  enumeration order of a JavaScript object whose keys are not array indices.
  \<open>List.find\<close> is \<open>Array.find\<close>.
\<close>

section \<open>Collections of rewrite rules\<close>

named_theorems tree_ids \<open>what an operation on a split tree does to the ids of its leaves\<close>
named_theorems frame \<open>fields an operation does not write\<close>
named_theorems member_simps \<open>which ids an operation on lists keeps\<close>

section \<open>Absent, null and present values\<close>

datatype 'a optnull = Absent | Null | Value 'a

fun valueOf :: "'a optnull \<Rightarrow> 'a option" where
  "valueOf (Value x) = Some x"
| "valueOf _ = None"

text \<open>JavaScript truthiness of an optional string: present and not empty.\<close>

definition truthy :: "string option \<Rightarrow> bool" where
  "truthy s \<longleftrightarrow> s \<noteq> None \<and> s \<noteq> Some []"

lemma truthy_simps [simp]:
  "\<not> truthy None" "truthy (Some s) \<longleftrightarrow> s \<noteq> []"
  by (auto simp: truthy_def)

lemma truthyE: "truthy s \<Longrightarrow> (\<And>x. s = Some x \<Longrightarrow> x \<noteq> [] \<Longrightarrow> P) \<Longrightarrow> P"
  by (cases s) auto

text \<open>The nullish-coalescing operator \<open>a ?? b\<close>.\<close>

definition orElse :: "'a option \<Rightarrow> 'a \<Rightarrow> 'a" where
  "orElse a b = (case a of None \<Rightarrow> b | Some x \<Rightarrow> x)"

definition orElseOpt :: "'a option \<Rightarrow> 'a option \<Rightarrow> 'a option" where
  "orElseOpt a b = (case a of None \<Rightarrow> b | Some x \<Rightarrow> Some x)"

lemma orElse_simps [simp]: "orElse None b = b" "orElse (Some x) b = x"
  by (simp_all add: orElse_def)

lemma orElseOpt_simps [simp]: "orElseOpt None b = b" "orElseOpt (Some x) b = Some x"
  by (simp_all add: orElseOpt_def)

section \<open>Arrays\<close>

text \<open>\<open>Array.splice(i, 0, x)\<close> and the clamp \<open>Math.max(0, Math.min(i, n))\<close> that guards it.\<close>

definition insertAt :: "nat \<Rightarrow> 'a \<Rightarrow> 'a list \<Rightarrow> 'a list" where
  "insertAt n x xs = take n xs @ x # drop n xs"

definition clampIndex :: "int \<Rightarrow> nat \<Rightarrow> nat" where
  "clampIndex i n = nat (max 0 (min i (int n)))"

lemma clampIndex_le [simp]: "clampIndex i n \<le> n"
  by (auto simp: clampIndex_def)

lemma clampIndex_of_nat [simp]: "k \<le> n \<Longrightarrow> clampIndex (int k) n = k"
  by (auto simp: clampIndex_def)

lemma set_insertAt [simp]: "set (insertAt n x xs) = insert x (set xs)"
proof -
  have "set (take n xs @ drop n xs) = set xs" by simp
  then have "set (take n xs) \<union> set (drop n xs) = set xs"
    by (metis append_take_drop_id set_append)
  then show ?thesis by (auto simp: insertAt_def)
qed

lemma mset_insertAt [simp]: "mset (insertAt n x xs) = add_mset x (mset xs)"
proof -
  have "mset (take n xs) + mset (drop n xs) = mset xs"
    by (metis append_take_drop_id mset_append)
  then show ?thesis by (simp add: insertAt_def)
qed

lemma distinct_insertAt [simp]: "distinct (insertAt n x xs) \<longleftrightarrow> x \<notin> set xs \<and> distinct xs"
proof -
  have "distinct (insertAt n x xs) \<longleftrightarrow> distinct (x # xs)"
    by (rule mset_eq_imp_distinct_iff) simp
  then show ?thesis by simp
qed

lemma length_insertAt [simp]: "length (insertAt n x xs) = Suc (length xs)"
  by (simp add: insertAt_def)

lemma insertAt_not_Nil [simp]: "insertAt n x xs \<noteq> []"
  by (simp add: insertAt_def)

lemma filter_insertAt_neq:
  "filter (\<lambda>y. y \<noteq> x) (insertAt n x xs) = filter (\<lambda>y. y \<noteq> x) xs"
proof -
  have "filter (\<lambda>y. y \<noteq> x) (take n xs) @ filter (\<lambda>y. y \<noteq> x) (drop n xs)
      = filter (\<lambda>y. y \<noteq> x) xs"
    by (metis append_take_drop_id filter_append)
  then show ?thesis by (simp add: insertAt_def)
qed

lemma filter_neq_absent: "t \<notin> set xs \<Longrightarrow> filter (\<lambda>i. i \<noteq> t) xs = xs"
  by (induction xs) auto

lemma mset_filter_same: "mset xs = mset ys \<Longrightarrow> mset (filter P xs) = mset (filter P ys)"
  by (simp add: mset_filter)

lemma distinct_concat_map_filter:
  "distinct (concat (map f xs)) \<Longrightarrow> distinct (concat (map f (filter P xs)))"
  by (induction xs) auto

lemma add_mset_filter_neq:
  assumes "distinct xs" "x \<in> set xs"
  shows "add_mset x (filter_mset (\<lambda>y. y \<noteq> x) (mset xs)) = mset xs"
proof (rule multiset_eqI)
  fix y
  show "count (add_mset x (filter_mset (\<lambda>y. y \<noteq> x) (mset xs))) y = count (mset xs) y"
    using assms by (auto simp: distinct_count_atmost_1)
qed

text \<open>
  The elements of an array in first-occurrence order, as iterating \<open>new Set(xs)\<close> gives them.
\<close>

definition uniq :: "'a list \<Rightarrow> 'a list" where
  "uniq xs = rev (remdups (rev xs))"

lemma set_uniq [simp]: "set (uniq xs) = set xs"
  by (simp add: uniq_def)

lemma distinct_uniq [simp]: "distinct (uniq xs)"
  by (simp add: uniq_def)

lemma uniq_distinct [simp]: "distinct xs \<Longrightarrow> uniq xs = xs"
  by (simp add: uniq_def distinct_remdups_id)

lemma uniq_snoc: "uniq (xs @ [x]) = (if x \<in> set xs then uniq xs else uniq xs @ [x])"
  by (simp add: uniq_def)

lemma uniq_Nil [simp]: "uniq [] = []"
  by (simp add: uniq_def)

text \<open>Every list of a list of lists but the empty ones: \<open>filter (xs => xs.length > 0)\<close>.\<close>

lemma concat_filter_nonempty: "concat (filter (\<lambda>xs. xs \<noteq> []) xss) = concat xss"
  by (induction xss) auto

lemma find_SomeD:
  assumes "List.find P xs = Some x"
  shows "x \<in> set xs" and "P x"
  using assms by (auto simp: find_Some_iff in_set_conv_nth)

lemma find_map_of_key: "List.find (\<lambda>x. f x = k) xs = None \<longleftrightarrow> k \<notin> f ` set xs"
  by (auto simp: find_None_iff)

lemma find_key_unique:
  assumes "distinct (map f xs)" "x \<in> set xs"
  shows "List.find (\<lambda>y. f y = f x) xs = Some x"
  using assms by (induction xs) (auto simp: rev_image_eqI)

text \<open>Replacing every element with a given key, as \<open>xs.map(e => e.id === x.id ? x : e)\<close>.\<close>

definition replaceBy :: "('a \<Rightarrow> 'k) \<Rightarrow> 'k \<Rightarrow> 'a \<Rightarrow> 'a list \<Rightarrow> 'a list" where
  "replaceBy key k x xs = map (\<lambda>e. if key e = k then x else e) xs"

lemma replaceBy_simps [simp]:
  "replaceBy key k x [] = []"
  "replaceBy key k x (e # xs) = (if key e = k then x else e) # replaceBy key k x xs"
  by (simp_all add: replaceBy_def)

lemma map_key_replaceBy [simp]:
  "key x = k \<Longrightarrow> map key (replaceBy key k x xs) = map key xs"
  by (auto simp: replaceBy_def)

lemma replaceBy_absent: "k \<notin> key ` set xs \<Longrightarrow> replaceBy key k x xs = xs"
  by (auto simp: replaceBy_def intro!: map_idI)

lemma set_replaceBy:
  assumes "k \<in> key ` set xs"
  shows "set (replaceBy key k x xs) = insert x {e \<in> set xs. key e \<noteq> k}"
  using assms by (auto simp: replaceBy_def image_iff)

lemma filter_key_absent: "k \<notin> key ` set xs \<Longrightarrow> filter (\<lambda>e. key e \<noteq> k) xs = xs"
  by (metis (mono_tags, lifting) filter_True image_eqI)

lemma replaceBy_append [simp]:
  "replaceBy key k x (xs @ ys) = replaceBy key k x xs @ replaceBy key k x ys"
  by (simp add: replaceBy_def)

lemma concat_map_replaceBy:
  assumes dist: "distinct (map key xs)" and mem: "y \<in> set xs"
  shows "mset (concat (map f (replaceBy key (key y) x xs)))
       = mset (concat (map f (filter (\<lambda>e. key e \<noteq> key y) xs))) + mset (f x)"
proof -
  from mem obtain as bs where xs: "xs = as @ y # bs"
    by (blast dest: split_list)
  with dist have as: "key y \<notin> key ` set as" and bs: "key y \<notin> key ` set bs"
    by auto
  have "replaceBy key (key y) x xs = as @ x # bs"
    using xs replaceBy_absent [OF as] replaceBy_absent [OF bs] by simp
  moreover have "filter (\<lambda>e. key e \<noteq> key y) xs = as @ bs"
    using xs filter_key_absent [OF as] filter_key_absent [OF bs] by simp
  ultimately show ?thesis by simp
qed

section \<open>Objects used as dictionaries\<close>

text \<open>\<open>Object.fromEntries\<close>: a repeated key keeps its first place and its last value.\<close>

definition fromEntries :: "('k \<times> 'v) list \<Rightarrow> ('k \<times> 'v) list" where
  "fromEntries es = fold (\<lambda>(k, v) r. AList.update k v r) es []"

definition keysOf :: "('k \<times> 'v) list option \<Rightarrow> 'k list" where
  "keysOf r = (case r of None \<Rightarrow> [] | Some es \<Rightarrow> map fst es)"

definition lookupOpt :: "('k \<times> 'v) list option \<Rightarrow> 'k \<Rightarrow> 'v option" where
  "lookupOpt r k = (case r of None \<Rightarrow> None | Some es \<Rightarrow> map_of es k)"

lemma lookupOpt_simps [simp]:
  "lookupOpt None k = None" "lookupOpt (Some es) k = map_of es k"
  by (simp_all add: lookupOpt_def)

lemma keysOf_simps [simp]: "keysOf None = []" "keysOf (Some es) = map fst es"
  by (simp_all add: keysOf_def)

lemma lookupOpt_None_iff: "lookupOpt r k = None \<longleftrightarrow> k \<notin> set (keysOf r)"
  by (cases r) (auto simp: map_of_eq_None_iff)

lemma lookupOpt_SomeD: "lookupOpt r k = Some v \<Longrightarrow> k \<in> set (keysOf r)"
  using lookupOpt_None_iff [of r k] by auto

lemma keys_update [simp]:
  "fst ` set (AList.update k v es) = insert k (fst ` set es)"
  by (simp add: dom_update)

lemma keys_delete [simp]: "fst ` set (AList.delete k es) = fst ` set es - {k}"
  by (auto simp: AList.delete_eq image_iff)

lemma distinct_keys_filter: "distinct (map fst es) \<Longrightarrow> distinct (map fst (filter P es))"
  by (rule distinct_map_filter)

lemma map_snd_update_new:
  "k \<notin> fst ` set es \<Longrightarrow> AList.update k v es = es @ [(k, v)]"
  by (induction es) auto

lemma set_AList_update: "set (AList.update k v es) \<subseteq> insert (k, v) (set es)"
  by (induction es) auto

lemma fromEntries_Nil [simp]: "fromEntries [] = []"
  by (simp add: fromEntries_def)

lemma fromEntries_snoc [simp]: "fromEntries (es @ [(k, v)]) = AList.update k v (fromEntries es)"
  by (simp add: fromEntries_def)

lemma set_fromEntries: "set (fromEntries es) \<subseteq> set es"
proof (induction es rule: rev_induct)
  case (snoc e es)
  then show ?case using set_AList_update [of "fst e" "snd e" "fromEntries es"]
    by (cases e) auto
qed simp

lemma keys_fromEntries: "fst ` set (fromEntries es) = fst ` set es"
proof (induction es rule: rev_induct)
  case (snoc e es)
  then show ?case by (cases e) simp
qed simp

lemma distinct_fromEntries [simp]: "distinct (map fst (fromEntries es))"
  by (induction es rule: rev_induct) (auto simp: distinct_update)

lemma map_of_fromEntries: "map_of (fromEntries es) = map_of (rev es)"
  by (induction es rule: rev_induct) (auto simp: update_conv')

lemma fromEntries_distinct: "distinct (map fst es) \<Longrightarrow> fromEntries es = es"
  by (induction es rule: rev_induct) (auto simp: map_snd_update_new)

lemma set_update_distinct:
  "distinct (map fst es) \<Longrightarrow>
     set (AList.update k v es) = insert (k, v) {e \<in> set es. fst e \<noteq> k}"
proof (induction es)
  case (Cons e es)
  then show ?case
    by (auto simp: image_iff)
qed simp

lemma mset_concat_update:
  assumes "distinct (map fst es)" "map_of es k = Some v"
  shows "mset (concat (map (f \<circ> snd) (AList.update k w es))) + mset (f v)
       = mset (concat (map (f \<circ> snd) es)) + mset (f w)"
  using assms by (induction es) (auto split: if_splits)

end
