(* ===== verification/Split_Tree.thy ===== *)
theory Split_Tree
  imports Layout_Prelude
begin

text \<open>
  Split trees.  A terminal tab's panes (\<open>TerminalPaneLayoutNode\<close>) and a workspace's tab groups
  (\<open>TabGroupLayoutNode\<close>) are the same shape of tree: leaves that carry an id, and binary splits
  with a direction and an optional ratio (the union \<open>SplitTree\<close> of \<open>split-ratio-intents.ts\<close>).
  Ratios are JavaScript numbers and are modelled as exact rationals.

  The theory ends with two interfaces that the pane trees and the group trees share: removing an
  id from a tree, and putting an id beside another.  Their laws say what the operation does to
  the list of ids in tree order; the lemmas proved from the laws are what the commands use.
\<close>

datatype direction = Vertical | Horizontal

datatype split_node =
    Leaf string
  | Split direction split_node split_node "rat option"

type_synonym pane_node = split_node
type_synonym group_node = split_node

text \<open>The ids of a tree in order, and of a tree that may be absent.\<close>

primrec leafIds :: "split_node \<Rightarrow> string list" where
  "leafIds (Leaf i) = [i]"
| "leafIds (Split d a b r) = leafIds a @ leafIds b"

definition optIds :: "split_node option \<Rightarrow> string list" where
  "optIds t = (case t of None \<Rightarrow> [] | Some n \<Rightarrow> leafIds n)"

lemma optIds_simps [simp]: "optIds None = []" "optIds (Some n) = leafIds n"
  by (simp_all add: optIds_def)

lemma leafIds_not_Nil [simp]: "leafIds t \<noteq> []"
  by (induction t) auto

lemma optIds_Nil_iff [simp]: "optIds t = [] \<longleftrightarrow> t = None"
  by (cases t) auto

text \<open>The first id of a node: \<open>leadingId\<close>, \<open>findFirstLeaf\<close>, \<open>firstLayoutLeafId\<close>.\<close>

primrec leadingId :: "split_node \<Rightarrow> string" where
  "leadingId (Leaf i) = i"
| "leadingId (Split d a b r) = leadingId a"

lemma leadingId_hd [simp]: "leadingId t = hd (leafIds t)"
  by (induction t) auto

lemma leadingId_in: "hd (leafIds t) \<in> set (leafIds t)"
  by (simp add: hd_in_set)

text \<open>Two trees that differ in their ratios only.\<close>

fun sameIgnoringRatios :: "split_node \<Rightarrow> split_node \<Rightarrow> bool" where
  "sameIgnoringRatios (Leaf i) (Leaf j) \<longleftrightarrow> i = j"
| "sameIgnoringRatios (Split d a b r) (Split e a' b' r') \<longleftrightarrow>
     d = e \<and> sameIgnoringRatios a a' \<and> sameIgnoringRatios b b'"
| "sameIgnoringRatios _ _ \<longleftrightarrow> False"

fun_cases sameIgnoringRatios_LeafE: "sameIgnoringRatios (Leaf i) t"
fun_cases sameIgnoringRatios_toLeafE: "sameIgnoringRatios t (Leaf i)"

lemma sameIgnoringRatios_ids: "sameIgnoringRatios s t \<Longrightarrow> leafIds s = leafIds t"
  by (induction s t rule: sameIgnoringRatios.induct) auto

lemma sameIgnoringRatios_refl [simp]: "sameIgnoringRatios t t"
  by (induction t) auto

lemma sameIgnoringRatios_sym: "sameIgnoringRatios s t \<Longrightarrow> sameIgnoringRatios t s"
  by (induction s t rule: sameIgnoringRatios.induct) auto

lemma sameIgnoringRatios_trans:
  "sameIgnoringRatios s t \<Longrightarrow> sameIgnoringRatios t u \<Longrightarrow> sameIgnoringRatios s u"
proof (induction s t arbitrary: u rule: sameIgnoringRatios.induct)
  case (1 i j)
  then show ?case by simp
next
  case (2 d a b r e a' b' r')
  then show ?case by (cases u) auto
qed auto

section \<open>The interface of removal\<close>

text \<open>
  Removing one id from a tree whose ids are distinct leaves the other ids in order; a tree that
  held nothing else is gone.
\<close>

locale id_removal =
  fixes remove :: "split_node \<Rightarrow> string \<Rightarrow> split_node option"
  assumes ids_remove: "distinct (leafIds t) \<Longrightarrow> optIds (remove t i) = filter (\<lambda>j. j \<noteq> i) (leafIds t)"
begin

lemma distinct_remove: "distinct (leafIds t) \<Longrightarrow> distinct (optIds (remove t i))"
  by (simp add: ids_remove)

lemma set_remove: "distinct (leafIds t) \<Longrightarrow> set (optIds (remove t i)) = set (leafIds t) - {i}"
  by (auto simp: ids_remove)

lemma remove_None_iff:
  assumes "distinct (leafIds t)"
  shows "remove t i = None \<longleftrightarrow> leafIds t = [i]"
proof -
  have "remove t i = None \<longleftrightarrow> filter (\<lambda>j. j \<noteq> i) (leafIds t) = []"
    using ids_remove [OF assms, of i] by (metis optIds_Nil_iff)
  also have "\<dots> \<longleftrightarrow> set (leafIds t) \<subseteq> {i}"
    by (auto simp: filter_empty_conv)
  also have "\<dots> \<longleftrightarrow> leafIds t = [i]"
    using assms leafIds_not_Nil [of t]
    by (cases "leafIds t") (auto simp: subset_singleton_iff)
  finally show ?thesis .
qed

lemma remove_absent:
  assumes "distinct (leafIds t)" "i \<notin> set (leafIds t)"
  shows "optIds (remove t i) = leafIds t"
  using assms by (simp add: ids_remove filter_id_conv) (metis)

lemma remove_Some:
  assumes "distinct (leafIds t)" "j \<in> set (leafIds t)" "j \<noteq> i"
  obtains n where "remove t i = Some n" and "leafIds n = filter (\<lambda>k. k \<noteq> i) (leafIds t)"
proof (cases "remove t i")
  case None
  with assms show thesis by (simp add: remove_None_iff)
next
  case (Some n)
  with ids_remove [OF assms(1), of i] show thesis by (intro that) simp_all
qed

text \<open>Removing a list of ids, as the loops that prune dead groups do.\<close>

definition removeAllIds :: "string list \<Rightarrow> split_node option \<Rightarrow> split_node option" where
  "removeAllIds is t = fold (\<lambda>i t. Option.bind t (\<lambda>n. remove n i)) is t"

lemma ids_removeAllIds:
  "distinct (optIds t) \<Longrightarrow>
     optIds (removeAllIds is t) = filter (\<lambda>j. j \<notin> set is) (optIds t)"
proof (induction "is" arbitrary: t)
  case Nil
  then show ?case by (simp add: removeAllIds_def filter_id_conv)
next
  case (Cons i "is")
  have "optIds (Option.bind t (\<lambda>n. remove n i)) = filter (\<lambda>j. j \<noteq> i) (optIds t)"
    using Cons.prems by (cases t) (simp_all add: ids_remove)
  with Cons show ?case
    by (simp add: removeAllIds_def conj_commute)
qed

end

section \<open>The interface of placement\<close>

text \<open>
  Putting a new id directly beside a target id: on a tree that holds the target once, the new
  tree has the old ids and the new one, and nothing else changes.
\<close>

locale id_placement =
  fixes place :: "split_node \<Rightarrow> string \<Rightarrow> string \<Rightarrow> split_node"
  assumes mset_place: "distinct (leafIds t) \<Longrightarrow> target \<in> set (leafIds t) \<Longrightarrow>
      mset (leafIds (place t target new)) = add_mset new (mset (leafIds t))"
    and place_absent: "target \<notin> set (leafIds t) \<Longrightarrow> place t target new = t"
begin

lemma set_place:
  assumes "distinct (leafIds t)" "target \<in> set (leafIds t)"
  shows "set (leafIds (place t target new)) = insert new (set (leafIds t))"
  using mset_place [OF assms, of new] by (metis set_mset_add_mset_insert set_mset_mset)

lemma distinct_place:
  assumes "distinct (leafIds t)" "target \<in> set (leafIds t)" "new \<notin> set (leafIds t)"
  shows "distinct (leafIds (place t target new))"
  using assms mset_place [OF assms(1,2), of new]
  by (metis distinct.simps(2) mset.simps(2) mset_eq_imp_distinct_iff)

end

text \<open>Moving an id: take it out, then put it beside a target that stays.\<close>

locale id_move = id_removal + id_placement
begin

lemma mset_move:
  assumes "distinct (leafIds t)" "i \<in> set (leafIds t)" "target \<in> set (leafIds t)" "i \<noteq> target"
  obtains n where "remove t i = Some n"
    and "mset (leafIds (place n target i)) = mset (leafIds t)"
proof -
  obtain n where n: "remove t i = Some n" and ids: "leafIds n = filter (\<lambda>k. k \<noteq> i) (leafIds t)"
    using remove_Some [OF assms(1,3)] assms(4) by metis
  have "distinct (leafIds n)" "target \<in> set (leafIds n)"
    using assms ids by auto
  then have "mset (leafIds (place n target i)) = add_mset i (mset (leafIds n))"
    by (rule mset_place)
  also have "\<dots> = mset (leafIds t)"
    using assms(1,2) by (simp add: ids add_mset_filter_neq)
  finally show thesis using n that by blast
qed

end

end
