(* ===== verification/Pane_Tree.thy ===== *)
theory Pane_Tree
  imports Split_Tree
begin

text \<open>
  Terminal pane trees: \<open>src/src/shared/workspace-layout/terminal-pane-tree.ts\<close>.
  A \<open>null\<close> root is \<open>None\<close>.  The removal and insertion of a pane are interpreted as the
  interfaces of \<open>Split_Tree\<close>; ratios are exact rationals, so \<open>Math.round(r * 1000) / 1000\<close>
  is the nearest multiple of one thousandth (ties upward).
\<close>

section \<open>Reading a pane tree\<close>

definition collectLayoutLeafIdsInOrder :: "pane_node option \<Rightarrow> string list" where
  "collectLayoutLeafIdsInOrder node = (case node of None \<Rightarrow> [] | Some n \<Rightarrow> leafIds n)"

lemma collectLayoutLeafIdsInOrder_optIds [simp]: "collectLayoutLeafIdsInOrder = optIds"
  by (simp add: fun_eq_iff collectLayoutLeafIdsInOrder_def optIds_def)

definition firstLayoutLeafId :: "pane_node option \<Rightarrow> string option" where
  "firstLayoutLeafId node = map_option leadingId node"

primrec containsLeaf :: "pane_node \<Rightarrow> string \<Rightarrow> bool" where
  "containsLeaf (Leaf i) l \<longleftrightarrow> i = l"
| "containsLeaf (Split d a b r) l \<longleftrightarrow> containsLeaf a l \<or> containsLeaf b l"

definition layoutContainsLeafId :: "pane_node option \<Rightarrow> string \<Rightarrow> bool" where
  "layoutContainsLeafId node l = (case node of None \<Rightarrow> False | Some n \<Rightarrow> containsLeaf n l)"

lemma containsLeaf_iff [simp]: "containsLeaf t l \<longleftrightarrow> l \<in> set (leafIds t)"
  by (induction t) auto

lemma layoutContainsLeafId_iff [simp]: "layoutContainsLeafId t l \<longleftrightarrow> l \<in> set (optIds t)"
  by (cases t) (auto simp: layoutContainsLeafId_def)

section \<open>Removing a pane\<close>

primrec removeLeaf :: "pane_node \<Rightarrow> string \<Rightarrow> pane_node option" where
  "removeLeaf (Leaf i) l = (if i = l then None else Some (Leaf i))"
| "removeLeaf (Split d a b r) l =
     (case (removeLeaf a l, removeLeaf b l) of
        (Some first, Some second) \<Rightarrow> Some (Split d first second r)
      | (first, second) \<Rightarrow> orElseOpt first second)"

definition removeLayoutLeaf :: "pane_node option \<Rightarrow> string \<Rightarrow> pane_node option" where
  "removeLayoutLeaf node l = Option.bind node (\<lambda>n. removeLeaf n l)"

text \<open>Removal needs no distinctness: every occurrence of the id goes.\<close>

lemma ids_removeLeaf [tree_ids]: "optIds (removeLeaf t l) = filter (\<lambda>j. j \<noteq> l) (leafIds t)"
proof (induction t)
  case (Split d a b r)
  then show ?case
    by (cases "removeLeaf a l"; cases "removeLeaf b l") auto
qed auto

lemma ids_removeLayoutLeaf [tree_ids]:
  "optIds (removeLayoutLeaf t l) = filter (\<lambda>j. j \<noteq> l) (optIds t)"
  by (cases t) (simp_all add: removeLayoutLeaf_def tree_ids)

interpretation pane: id_removal removeLeaf
  by unfold_locales (rule ids_removeLeaf)

section \<open>Inserting a pane beside another\<close>

datatype paneSide = SideLeft | SideRight | SideTop | SideBottom

fun paneSideDirection :: "paneSide \<Rightarrow> direction" where
  "paneSideDirection SideLeft = Vertical"
| "paneSideDirection SideRight = Vertical"
| "paneSideDirection _ = Horizontal"

definition paneSideBefore :: "paneSide \<Rightarrow> bool" where
  "paneSideBefore side \<longleftrightarrow> side = SideLeft \<or> side = SideTop"

primrec insertLeafBeside ::
  "pane_node \<Rightarrow> string \<Rightarrow> string \<Rightarrow> paneSide \<Rightarrow> rat option \<Rightarrow> pane_node" where
  "insertLeafBeside (Leaf i) target new side ratio =
     (if i \<noteq> target then Leaf i
      else Split (paneSideDirection side)
             (if paneSideBefore side then Leaf new else Leaf i)
             (if paneSideBefore side then Leaf i else Leaf new)
             ratio)"
| "insertLeafBeside (Split d a b r) target new side ratio =
     Split d (insertLeafBeside a target new side ratio)
             (insertLeafBeside b target new side ratio) r"

lemma insertLeafBeside_absent:
  "target \<notin> set (leafIds t) \<Longrightarrow> insertLeafBeside t target new side ratio = t"
  by (induction t) auto

lemma mset_insertLeafBeside:
  "distinct (leafIds t) \<Longrightarrow> target \<in> set (leafIds t) \<Longrightarrow>
     mset (leafIds (insertLeafBeside t target new side ratio)) = add_mset new (mset (leafIds t))"
proof (induction t)
  case (Split d a b r)
  then consider "target \<in> set (leafIds a)" "target \<notin> set (leafIds b)"
    | "target \<in> set (leafIds b)" "target \<notin> set (leafIds a)" by auto
  then show ?case
    using Split by cases (simp_all add: insertLeafBeside_absent)
qed auto

interpretation pane: id_move removeLeaf "\<lambda>t target new. insertLeafBeside t target new side ratio"
  for side ratio
  by unfold_locales (simp_all add: mset_insertLeafBeside insertLeafBeside_absent)

text \<open>A split keeps the two panes adjacent, in the order the side asks for.\<close>

lemma ids_insertLeafBeside:
  "leafIds (insertLeafBeside t target new side ratio) =
     concat (map (\<lambda>i. if i = target then (if paneSideBefore side then [new, i] else [i, new])
                      else [i]) (leafIds t))"
  by (induction t) auto

section \<open>Comparing and equalizing\<close>

abbreviation samePanesIgnoringRatios :: "pane_node \<Rightarrow> pane_node \<Rightarrow> bool" where
  "samePanesIgnoringRatios \<equiv> sameIgnoringRatios"

primrec equalizeWeight :: "pane_node \<Rightarrow> direction \<Rightarrow> nat" where
  "equalizeWeight (Leaf i) d = 1"
| "equalizeWeight (Split e a b r) d =
     (if e = d then equalizeWeight a d + equalizeWeight b d else 1)"

definition SPLIT_RATIO_TOLERANCE :: rat where
  "SPLIT_RATIO_TOLERANCE = 5 / 1000"

definition roundThousandth :: "rat \<Rightarrow> rat" where
  "roundThousandth x = of_int \<lfloor>x * 1000 + 1 / 2\<rfloor> / 1000"

definition evenShare :: "nat \<Rightarrow> nat \<Rightarrow> rat" where
  "evenShare a b = of_nat a / of_nat (a + b)"

primrec equalizeLayout :: "pane_node \<Rightarrow> pane_node" where
  "equalizeLayout (Leaf i) = Leaf i"
| "equalizeLayout (Split d a b r) =
     (let ratio = evenShare (equalizeWeight a d) (equalizeWeight b d)
      in Split d (equalizeLayout a) (equalizeLayout b)
           (if \<bar>ratio - 1 / 2\<bar> > SPLIT_RATIO_TOLERANCE
            then Some (roundThousandth ratio) else None))"

lemma equalizeWeight_pos [simp]: "0 < equalizeWeight t d"
  by (induction t) auto

lemma sameIgnoringRatios_equalizeLayout [simp]: "sameIgnoringRatios (equalizeLayout t) t"
  by (induction t) (auto simp: Let_def)

lemma ids_equalizeLayout [tree_ids, simp]: "leafIds (equalizeLayout t) = leafIds t"
  by (induction t) (auto simp: Let_def)

lemma equalizeWeight_equalizeLayout [simp]:
  "equalizeWeight (equalizeLayout t) d = equalizeWeight t d"
  by (induction t) (auto simp: Let_def)

lemma equalizeLayout_idem: "equalizeLayout (equalizeLayout t) = equalizeLayout t"
  by (induction t) (auto simp: Let_def)

text \<open>
  The ratio that a reader of the tree uses: an absent ratio means one half.  The share of each
  leaf along a chain of splits in one direction follows from the ratios; after equalizing, each
  stored ratio is within one two-hundredth of the exact even share.
\<close>

definition effectiveRatio :: "rat option \<Rightarrow> rat" where
  "effectiveRatio r = orElse r (1 / 2)"

lemma roundThousandth_error: "\<bar>roundThousandth x - x\<bar> \<le> 1 / 2000"
proof -
  define y where "y = (of_int \<lfloor>x * 1000 + 1 / 2\<rfloor> :: rat)"
  have "y \<le> x * 1000 + 1 / 2" and "x * 1000 + 1 / 2 < y + 1"
    unfolding y_def by linarith+
  then have "y / 1000 - x \<le> 1 / 2000" and "- (y / 1000 - x) \<le> 1 / 2000"
    by (simp_all add: field_simps)
  then have "\<bar>y / 1000 - x\<bar> \<le> 1 / 2000" by (rule abs_leI)
  then show ?thesis by (simp add: roundThousandth_def y_def)
qed

lemma equalized_ratio_error:
  "\<bar>effectiveRatio (if \<bar>x - 1 / 2\<bar> > SPLIT_RATIO_TOLERANCE then Some (roundThousandth x) else None)
     - x\<bar> \<le> 1 / 200"
proof (cases "\<bar>x - 1 / 2\<bar> > SPLIT_RATIO_TOLERANCE")
  case True
  then show ?thesis using roundThousandth_error [of x] by (simp add: effectiveRatio_def)
next
  case False
  then show ?thesis by (simp add: effectiveRatio_def SPLIT_RATIO_TOLERANCE_def abs_minus_commute)
qed

text \<open>Every split of a tree, as direction, children and ratio.\<close>

primrec splitsOf :: "split_node \<Rightarrow> (direction \<times> split_node \<times> split_node \<times> rat option) list" where
  "splitsOf (Leaf i) = []"
| "splitsOf (Split d a b r) = (d, a, b, r) # splitsOf a @ splitsOf b"

lemma equalizeLayout_ratios:
  "(d, a, b, r) \<in> set (splitsOf (equalizeLayout t)) \<Longrightarrow>
     \<bar>effectiveRatio r - evenShare (equalizeWeight a d) (equalizeWeight b d)\<bar> \<le> 1 / 200"
proof (induction t)
  case (Split e s u q)
  then show ?case
    using equalized_ratio_error by (fastforce simp: Let_def)
qed simp

end
