(* ===== verification/Group_Tree.thy ===== *)
theory Group_Tree
  imports Split_Tree
begin

text \<open>
  Tab-group trees and the group moves shared by the runtime and the renderer:
  \<open>tab-group-layout-tree.ts\<close>, \<open>tab-group-moves.ts\<close> and \<open>pane-column-split-drop-no-op.ts\<close> of
  \<open>src/src/shared/workspace-layout\<close>.  A group is its id and the order of its tabs.
\<close>

record layoutGroup =
  gr_id :: string
  gr_tabOrder :: "string list"

datatype groupSide = GLeft | GRight | GUp | GDown

definition groupSideDirection :: "groupSide \<Rightarrow> direction" where
  "groupSideDirection side = (if side = GLeft \<or> side = GRight then Horizontal else Vertical)"

definition groupSideFirst :: "groupSide \<Rightarrow> bool" where
  "groupSideFirst side \<longleftrightarrow> side = GLeft \<or> side = GUp"

section \<open>Building and replacing\<close>

definition buildSplitNode :: "string \<Rightarrow> string \<Rightarrow> direction \<Rightarrow> bool \<Rightarrow> group_node" where
  "buildSplitNode existing new d newFirst =
     Split d (if newFirst then Leaf new else Leaf existing)
             (if newFirst then Leaf existing else Leaf new) (Some (1 / 2))"

primrec replaceLeaf :: "group_node \<Rightarrow> string \<Rightarrow> group_node \<Rightarrow> group_node" where
  "replaceLeaf (Leaf g) target new = (if g = target then new else Leaf g)"
| "replaceLeaf (Split d a b r) target new =
     Split d (replaceLeaf a target new) (replaceLeaf b target new) r"

fun updateSplitRatio :: "group_node \<Rightarrow> string list \<Rightarrow> rat \<Rightarrow> group_node" where
  "updateSplitRatio (Split d a b r) [] ratio = Split d a b (Some ratio)"
| "updateSplitRatio (Leaf g) path ratio = Leaf g"
| "updateSplitRatio (Split d a b r) (segment # rest) ratio =
     (if segment = ''first'' then Split d (updateSplitRatio a rest ratio) b r
      else if segment = ''second'' then Split d a (updateSplitRatio b rest ratio) r
      else Split d a b r)"

lemma replaceLeaf_absent: "target \<notin> set (leafIds t) \<Longrightarrow> replaceLeaf t target new = t"
  by (induction t) auto

lemma mset_replaceLeaf:
  "distinct (leafIds t) \<Longrightarrow> target \<in> set (leafIds t) \<Longrightarrow>
     add_mset target (mset (leafIds (replaceLeaf t target new)))
       = mset (leafIds t) + mset (leafIds new)"
proof (induction t)
  case (Split d a b r)
  then consider "target \<in> set (leafIds a)" "target \<notin> set (leafIds b)"
    | "target \<in> set (leafIds b)" "target \<notin> set (leafIds a)" by auto
  then show ?case
  proof cases
    case 1
    with Split show ?thesis
      by (simp add: replaceLeaf_absent flip: union_mset_add_mset_left)
  next
    case 2
    with Split show ?thesis
      by (simp add: replaceLeaf_absent flip: union_mset_add_mset_right)
  qed
qed auto

lemma sameIgnoringRatios_updateSplitRatio [simp]:
  "sameIgnoringRatios (updateSplitRatio t path ratio) t"
  by (induction t path ratio rule: updateSplitRatio.induct) auto

section \<open>Siblings\<close>

abbreviation findFirstLeaf :: "group_node \<Rightarrow> string" where
  "findFirstLeaf \<equiv> leadingId"

primrec findSiblingGroupId :: "group_node \<Rightarrow> string \<Rightarrow> string option" where
  "findSiblingGroupId (Leaf g) target = None"
| "findSiblingGroupId (Split d a b r) target =
     (if a = Leaf target then Some (findFirstLeaf b)
      else if b = Leaf target then Some (findFirstLeaf a)
      else orElseOpt (findSiblingGroupId a target) (findSiblingGroupId b target))"

section \<open>Removing a group\<close>

primrec removeGroupLayoutLeaf :: "group_node \<Rightarrow> string \<Rightarrow> group_node option" where
  "removeGroupLayoutLeaf (Leaf g) target = (if g = target then None else Some (Leaf g))"
| "removeGroupLayoutLeaf (Split d a b r) target =
     (if a = Leaf target then Some b
      else if b = Leaf target then Some a
      else case (removeGroupLayoutLeaf a target, removeGroupLayoutLeaf b target) of
          (None, second) \<Rightarrow> second
        | (Some first, None) \<Rightarrow> Some first
        | (Some first, Some second) \<Rightarrow> Some (Split d first second r))"

primrec removeTabGroupLayoutLeaf :: "group_node \<Rightarrow> string \<Rightarrow> group_node option" where
  "removeTabGroupLayoutLeaf (Leaf g) target = (if g = target then None else Some (Leaf g))"
| "removeTabGroupLayoutLeaf (Split d a b r) target =
     (case (removeTabGroupLayoutLeaf a target, removeTabGroupLayoutLeaf b target) of
          (None, second) \<Rightarrow> second
        | (Some first, None) \<Rightarrow> Some first
        | (Some first, Some second) \<Rightarrow> Some (Split d first second r))"

lemma leafIds_singleton: "leafIds t = [g] \<longleftrightarrow> t = Leaf g"
proof
  assume h: "leafIds t = [g]"
  show "t = Leaf g"
  proof (cases t)
    case (Split d a b r)
    with h have "leafIds a @ leafIds b = [g]" by simp
    then show ?thesis by (cases "leafIds a") simp_all
  qed (use h in simp)
qed simp

lemma ids_removeTabGroupLayoutLeaf [tree_ids]:
  "optIds (removeTabGroupLayoutLeaf t g) = filter (\<lambda>j. j \<noteq> g) (leafIds t)"
proof (induction t)
  case (Split d a b r)
  then show ?case
    by (cases "removeTabGroupLayoutLeaf a g"; cases "removeTabGroupLayoutLeaf b g") auto
qed auto

lemma removeGroupLayoutLeaf_absent:
  "g \<notin> set (leafIds t) \<Longrightarrow> removeGroupLayoutLeaf t g = Some t"
proof (induction t)
  case (Split d a b r)
  then have "a \<noteq> Leaf g" "b \<noteq> Leaf g" by auto
  with Split show ?case by simp
qed simp

lemma ids_removeGroupLayoutLeaf [tree_ids]:
  "distinct (leafIds t) \<Longrightarrow> optIds (removeGroupLayoutLeaf t g) = filter (\<lambda>j. j \<noteq> g) (leafIds t)"
proof (induction t)
  case (Split d a b r)
  show ?case
  proof (cases "a = Leaf g \<or> b = Leaf g")
    case True
    have absent: "g \<notin> set xs \<Longrightarrow> filter (\<lambda>j. j \<noteq> g) xs = xs" for xs
      by (rule filter_True) auto
    from True Split.prems show ?thesis by (auto simp: absent)
  next
    case False
    with Split show ?thesis
      by (cases "removeGroupLayoutLeaf a g"; cases "removeGroupLayoutLeaf b g") auto
  qed
qed auto

interpretation grp: id_removal removeGroupLayoutLeaf
  by unfold_locales (rule ids_removeGroupLayoutLeaf)

interpretation tabgrp: id_removal removeTabGroupLayoutLeaf
  by unfold_locales (rule ids_removeTabGroupLayoutLeaf)

text \<open>
  The two removals of the code agree on trees whose ids are distinct, which is what lets the
  runtime use one and the renderer the other.
\<close>

lemma removals_agree:
  "distinct (leafIds t) \<Longrightarrow> removeGroupLayoutLeaf t g = removeTabGroupLayoutLeaf t g"
proof (induction t)
  case (Split d a b r)
  have absent: "removeTabGroupLayoutLeaf s g = Some s" if "g \<notin> set (leafIds s)" for s
    using that by (induction s) auto
  show ?case
  proof (cases "a = Leaf g \<or> b = Leaf g")
    case True
    with Split.prems show ?thesis by (auto simp: absent)
  next
    case False
    with Split show ?thesis by simp
  qed
qed simp

section \<open>Placing a group beside another\<close>

definition placeGroupBeside :: "groupSide \<Rightarrow> group_node \<Rightarrow> string \<Rightarrow> string \<Rightarrow> group_node" where
  "placeGroupBeside side t target new =
     replaceLeaf t target
       (buildSplitNode target new (groupSideDirection side) (groupSideFirst side))"

lemma mset_buildSplitNode [simp]:
  "mset (leafIds (buildSplitNode g new d first)) = {#g, new#}"
  by (simp add: buildSplitNode_def add_mset_commute)

interpretation grp: id_move removeGroupLayoutLeaf "placeGroupBeside side" for side
proof unfold_locales
  fix t target new
  assume "distinct (leafIds t)" "target \<in> set (leafIds t)"
  from mset_replaceLeaf [OF this, of "buildSplitNode target new (groupSideDirection side)
      (groupSideFirst side)"]
  have "add_mset target (mset (leafIds (placeGroupBeside side t target new)))
      = add_mset target (add_mset new (mset (leafIds t)))"
    by (simp add: placeGroupBeside_def add_mset_commute)
  then show "mset (leafIds (placeGroupBeside side t target new)) = add_mset new (mset (leafIds t))"
    by simp
next
  fix t target new
  assume "target \<notin> set (leafIds t)"
  then show "placeGroupBeside side t target new = t"
    by (simp add: placeGroupBeside_def replaceLeaf_absent)
qed

definition moveGroupLeafBeside :: "group_node \<Rightarrow> string \<Rightarrow> string \<Rightarrow> groupSide \<Rightarrow> group_node" where
  "moveGroupLeafBeside tree groupId besideGroupId side =
     placeGroupBeside side
       (orElse (removeGroupLayoutLeaf tree groupId) (Leaf besideGroupId)) besideGroupId groupId"

text \<open>Moving a group keeps the set of groups of the tree.\<close>

lemma mset_moveGroupLeafBeside [tree_ids]:
  assumes "distinct (leafIds t)" "g \<in> set (leafIds t)" "target \<in> set (leafIds t)" "g \<noteq> target"
  shows "mset (leafIds (moveGroupLeafBeside t g target side)) = mset (leafIds t)"
proof -
  obtain n where "removeGroupLayoutLeaf t g = Some n"
    and "mset (leafIds (placeGroupBeside side n target g)) = mset (leafIds t)"
    using grp.mset_move [OF assms] by blast
  then show ?thesis by (simp add: moveGroupLeafBeside_def)
qed

section \<open>Placing a group beside a branch\<close>

primrec holdsGroup :: "group_node \<Rightarrow> string \<Rightarrow> bool" where
  "holdsGroup (Leaf g) groupId \<longleftrightarrow> g = groupId"
| "holdsGroup (Split d a b r) groupId \<longleftrightarrow> holdsGroup a groupId \<or> holdsGroup b groupId"

lemma holdsGroup_iff [simp]: "holdsGroup t g \<longleftrightarrow> g \<in> set (leafIds t)"
  by (induction t) auto

definition wrapBranch :: "groupSide \<Rightarrow> string \<Rightarrow> group_node \<Rightarrow> group_node" where
  "wrapBranch side new node =
     Split (groupSideDirection side)
       (if groupSideFirst side then Leaf new else node)
       (if groupSideFirst side then node else Leaf new) (Some (1 / 2))"

fun besideBranch :: "groupSide \<Rightarrow> string \<Rightarrow> string \<Rightarrow> string \<Rightarrow> group_node \<Rightarrow> group_node option" where
  "besideBranch side new fromId toId (Leaf g) =
     (if \<not> holdsGroup (Leaf g) fromId \<or> \<not> holdsGroup (Leaf g) toId then None
      else Some (wrapBranch side new (Leaf g)))"
| "besideBranch side new fromId toId (Split d a b r) =
     (if \<not> holdsGroup (Split d a b r) fromId \<or> \<not> holdsGroup (Split d a b r) toId then None
      else case besideBranch side new fromId toId a of
          Some first \<Rightarrow> Some (Split d first b r)
        | None \<Rightarrow>
            (case besideBranch side new fromId toId b of
               Some second \<Rightarrow> Some (Split d a second r)
             | None \<Rightarrow> Some (wrapBranch side new (Split d a b r))))"

definition moveGroupLeafBesideBranch ::
  "group_node \<Rightarrow> string \<Rightarrow> string \<Rightarrow> string \<Rightarrow> groupSide \<Rightarrow> group_node option" where
  "moveGroupLeafBesideBranch tree groupId fromGroupId toGroupId side =
     Option.bind (removeGroupLayoutLeaf tree groupId)
       (besideBranch side groupId fromGroupId toGroupId)"

lemma mset_wrapBranch [simp]:
  "mset (leafIds (wrapBranch side new t)) = add_mset new (mset (leafIds t))"
  by (simp add: wrapBranch_def)

lemma besideBranch_None_iff:
  "besideBranch side new f u t = None \<longleftrightarrow> f \<notin> set (leafIds t) \<or> u \<notin> set (leafIds t)"
  by (induction t) (auto split: option.splits)

lemma mset_besideBranch:
  "besideBranch side new f u t = Some t' \<Longrightarrow> mset (leafIds t') = add_mset new (mset (leafIds t))"
proof (induction t arbitrary: t')
  case (Leaf g)
  then show ?case by (auto split: if_splits)
next
  case (Split d a b r)
  then show ?case by (auto split: if_splits option.splits)
qed

text \<open>
  Opening a new group beside a branch: the tree gains exactly the new group, and the operation
  refuses exactly when one of the two ends of the branch is not in the tree.
\<close>

lemma moveGroupLeafBesideBranch_new:
  assumes "g \<notin> set (leafIds t)"
  shows "moveGroupLeafBesideBranch t g f u side = besideBranch side g f u t"
  using assms by (simp add: moveGroupLeafBesideBranch_def removeGroupLayoutLeaf_absent)

section \<open>Collapsing a group\<close>

definition collapseGroupLayout ::
  "(string \<times> group_node) list \<Rightarrow> (string \<times> string) list \<Rightarrow> string \<Rightarrow> string \<Rightarrow> string option
     \<Rightarrow> (string \<times> group_node) list \<times> (string \<times> string option) list" where
  "collapseGroupLayout layouts actives worktreeId groupId fallback =
     (case map_of layouts worktreeId of
        None \<Rightarrow> (layouts, map (\<lambda>(k, g). (k, Some g)) actives)
      | Some current \<Rightarrow>
          (case removeGroupLayoutLeaf current groupId of
             Some collapsed \<Rightarrow> AList.update worktreeId collapsed layouts
           | None \<Rightarrow> AList.delete worktreeId layouts,
           AList.update worktreeId
             (orElseOpt (findSiblingGroupId current groupId)
               (orElseOpt fallback (map_of actives worktreeId)))
             (map (\<lambda>(k, g). (k, Some g)) actives)))"

text \<open>The sibling that takes over the focus is another group that stays in the tree.\<close>

lemma findSiblingGroupId_absent: "g \<notin> set (leafIds t) \<Longrightarrow> findSiblingGroupId t g = None"
proof (induction t)
  case (Split d a b r)
  then have "a \<noteq> Leaf g" "b \<noteq> Leaf g" by auto
  with Split show ?case by simp
qed simp

lemma findSiblingGroupId_Some:
  assumes "distinct (leafIds t)" "findSiblingGroupId t g = Some s"
  shows "s \<in> set (leafIds t) - {g}"
  using assms
proof (induction t)
  case (Split d a b r)
  show ?case
  proof (cases "a = Leaf g \<or> b = Leaf g")
    case True
    with Split.prems leadingId_in [of a] leadingId_in [of b] show ?thesis
      by (auto split: if_splits)
  next
    case False
    with Split show ?thesis
      by (cases "findSiblingGroupId a g") auto
  qed
qed simp

lemma findSiblingGroupId_total:
  assumes "g \<in> set (leafIds t)" "t \<noteq> Leaf g"
  shows "\<exists>s. findSiblingGroupId t g = Some s"
  using assms
proof (induction t)
  case (Split d a b r)
  show ?case
  proof (cases "a = Leaf g \<or> b = Leaf g")
    case False
    with Split show ?thesis
      by (cases "findSiblingGroupId a g") auto
  qed auto
qed auto

section \<open>Moving a tab between groups\<close>

definition collectTabGroupLayoutGroupIds :: "group_node option \<Rightarrow> string list" where
  "collectTabGroupLayoutGroupIds node = uniq (optIds node)"

text \<open>The loop that removes every group of the tree that no longer holds a tab.\<close>

definition pruneGroupLayout :: "string list \<Rightarrow> group_node option \<Rightarrow> group_node option" where
  "pruneGroupLayout live layout =
     fold (\<lambda>g t. if g \<in> set live then t else Option.bind t (\<lambda>n. removeTabGroupLayoutLeaf n g))
       (collectTabGroupLayoutGroupIds layout) layout"

definition placeTabId :: "string \<Rightarrow> int \<Rightarrow> string list \<Rightarrow> string list" where
  "placeTabId tabId index order =
     (let rest = filter (\<lambda>i. i \<noteq> tabId) order
      in insertAt (clampIndex index (length rest)) tabId rest)"

definition dropTab :: "string \<Rightarrow> layoutGroup \<Rightarrow> layoutGroup" where
  "dropTab tabId g = g\<lparr>gr_tabOrder := filter (\<lambda>i. i \<noteq> tabId) (gr_tabOrder g)\<rparr>"

definition findGroupOfTab :: "layoutGroup list \<Rightarrow> string \<Rightarrow> layoutGroup option" where
  "findGroupOfTab groups tabId = List.find (\<lambda>g. tabId \<in> set (gr_tabOrder g)) groups"

definition findGroup :: "layoutGroup list \<Rightarrow> string \<Rightarrow> layoutGroup option" where
  "findGroup groups groupId = List.find (\<lambda>g. gr_id g = groupId) groups"

definition buildHeadlessTabGroupMove ::
  "layoutGroup list \<Rightarrow> group_node option \<Rightarrow> string \<Rightarrow> string \<Rightarrow> int option
     \<Rightarrow> (layoutGroup list \<times> group_node option) option" where
  "buildHeadlessTabGroupMove groups layout tabId targetGroupId index =
     (case (findGroupOfTab groups tabId, findGroup groups targetGroupId) of
        (Some source, Some target) \<Rightarrow>
          if gr_id source = targetGroupId then None
          else
            (let moved = map (\<lambda>g.
                   if gr_id g = gr_id source then dropTab tabId g
                   else if gr_id g = targetGroupId then
                     g\<lparr>gr_tabOrder := placeTabId tabId
                         (orElse index (int (length (filter (\<lambda>i. i \<noteq> tabId) (gr_tabOrder g)))))
                         (gr_tabOrder g)\<rparr>
                   else g) groups;
                 kept = filter (\<lambda>g. gr_tabOrder g \<noteq> []) moved
             in Some (kept, pruneGroupLayout (map gr_id kept) layout))
      | _ \<Rightarrow> None)"

definition buildHeadlessTabGroupSplit ::
  "layoutGroup list \<Rightarrow> group_node option \<Rightarrow> string \<Rightarrow> string \<Rightarrow> groupSide \<Rightarrow> string
     \<Rightarrow> (layoutGroup list \<times> group_node \<times> string) option" where
  "buildHeadlessTabGroupSplit groups layout tabId targetGroupId side newGroupId =
     (case findGroupOfTab groups tabId of
        None \<Rightarrow> None
      | Some source \<Rightarrow>
          if gr_id source = targetGroupId \<and> length (gr_tabOrder source) \<le> 1 then None
          else
            (let split = placeGroupBeside side (orElse layout (Leaf targetGroupId))
                   targetGroupId newGroupId;
                 moved = map (\<lambda>g. if gr_id g = gr_id source then
                     g\<lparr>gr_tabOrder := filter (\<lambda>i. i \<noteq> tabId) (gr_tabOrder source)\<rparr> else g) groups
                   @ [\<lparr>gr_id = newGroupId, gr_tabOrder = [tabId]\<rparr>];
                 kept = filter (\<lambda>g. gr_tabOrder g \<noteq> []) moved
             in Some (kept,
                  orElse (pruneGroupLayout (map gr_id kept) (Some split)) (Leaf newGroupId),
                  newGroupId)))"

lemma pruneGroupLayout_removeAllIds:
  "pruneGroupLayout live layout =
     tabgrp.removeAllIds (filter (\<lambda>g. g \<notin> set live) (uniq (optIds layout))) layout"
proof -
  have "fold (\<lambda>g t. if g \<in> set live then t else Option.bind t (\<lambda>n. removeTabGroupLayoutLeaf n g)) gs t
      = tabgrp.removeAllIds (filter (\<lambda>g. g \<notin> set live) gs) t" for gs t
    by (induction gs arbitrary: t) (auto simp: tabgrp.removeAllIds_def)
  then show ?thesis by (simp add: pruneGroupLayout_def collectTabGroupLayoutGroupIds_def)
qed

text \<open>Pruning leaves exactly the live groups, in tree order.\<close>

lemma ids_pruneGroupLayout [tree_ids]:
  assumes "distinct (optIds layout)"
  shows "optIds (pruneGroupLayout live layout) = filter (\<lambda>g. g \<in> set live) (optIds layout)"
proof -
  have "optIds (pruneGroupLayout live layout)
      = filter (\<lambda>j. j \<notin> set (filter (\<lambda>g. g \<notin> set live) (uniq (optIds layout)))) (optIds layout)"
    unfolding pruneGroupLayout_removeAllIds by (rule tabgrp.ids_removeAllIds [OF assms])
  also have "\<dots> = filter (\<lambda>g. g \<in> set live) (optIds layout)"
    by (rule filter_cong) auto
  finally show ?thesis .
qed

lemma set_placeTabId [member_simps]: "set (placeTabId t i order) = insert t (set order)"
  by (auto simp: placeTabId_def Let_def)

lemma distinct_placeTabId [member_simps]: "distinct order \<Longrightarrow> distinct (placeTabId t i order)"
  by (auto simp: placeTabId_def Let_def)

lemma findGroup_Some: "findGroup gs i = Some g \<Longrightarrow> g \<in> set gs \<and> gr_id g = i"
  unfolding findGroup_def by (auto dest: find_SomeD)

lemma findGroup_None: "findGroup gs i = None \<longleftrightarrow> i \<notin> gr_id ` set gs"
  by (simp add: findGroup_def find_map_of_key)

lemma findGroupOfTab_Some:
  "findGroupOfTab gs t = Some g \<Longrightarrow> g \<in> set gs \<and> t \<in> set (gr_tabOrder g)"
  unfolding findGroupOfTab_def by (auto dest: find_SomeD)

lemma findGroupOfTab_None:
  "findGroupOfTab gs t = None \<longleftrightarrow> t \<notin> set (concat (map gr_tabOrder gs))"
  by (auto simp: findGroupOfTab_def find_None_iff)

section \<open>Drops that change nothing\<close>

definition getDirectLayoutSiblingOnSplitSide ::
  "direction \<Rightarrow> group_node \<Rightarrow> group_node \<Rightarrow> string \<Rightarrow> groupSide \<Rightarrow> string option" where
  "getDirectLayoutSiblingOnSplitSide d first second target side =
     (case (first, second) of
        (Leaf f, Leaf s) \<Rightarrow>
          if f = target \<and> (d = Horizontal \<and> side = GRight \<or> d = Vertical \<and> side = GDown)
          then Some s
          else if s = target \<and> (d = Horizontal \<and> side = GLeft \<or> d = Vertical \<and> side = GUp)
          then Some f
          else None
      | _ \<Rightarrow> None)"

fun findLayoutSiblingOnSplitSide :: "group_node \<Rightarrow> string \<Rightarrow> groupSide \<Rightarrow> string option" where
  "findLayoutSiblingOnSplitSide (Leaf g) target side = None"
| "findLayoutSiblingOnSplitSide (Split d a b r) target side =
     (let direct = getDirectLayoutSiblingOnSplitSide d a b target side
      in if truthy direct then direct
         else orElseOpt (findLayoutSiblingOnSplitSide a target side)
                (findLayoutSiblingOnSplitSide b target side))"

definition isPaneColumnSplitDropNoOp ::
  "string \<Rightarrow> string \<Rightarrow> groupSide \<Rightarrow> nat \<Rightarrow> group_node option \<Rightarrow> bool" where
  "isPaneColumnSplitDropNoOp sourceGroupId targetGroupId side sourceTabCount layout \<longleftrightarrow>
     (if sourceGroupId = targetGroupId \<and> sourceTabCount \<le> 1 then True
      else case layout of
          None \<Rightarrow> False
        | Some t \<Rightarrow> sourceTabCount = 1 \<and>
            findLayoutSiblingOnSplitSide t targetGroupId side = Some sourceGroupId)"

lemma getDirect_Some:
  "getDirectLayoutSiblingOnSplitSide d a b target side = Some s \<Longrightarrow>
     (a = Leaf target \<and> b = Leaf s \<and> groupSideDirection side = d \<and> \<not> groupSideFirst side)
     \<or> (b = Leaf target \<and> a = Leaf s \<and> groupSideDirection side = d \<and> groupSideFirst side)"
  by (auto simp: getDirectLayoutSiblingOnSplitSide_def groupSideDirection_def groupSideFirst_def
      split: split_node.splits if_splits)

lemma sibling_ids:
  "findLayoutSiblingOnSplitSide t target side = Some s \<Longrightarrow>
     s \<in> set (leafIds t) \<and> target \<in> set (leafIds t)"
  by (induction t target side rule: findLayoutSiblingOnSplitSide.induct)
    (auto simp: Let_def orElseOpt_def split: if_splits option.splits dest: getDirect_Some)

lemma sibling_neq:
  "distinct (leafIds t) \<Longrightarrow> findLayoutSiblingOnSplitSide t target side = Some s \<Longrightarrow> s \<noteq> target"
  by (induction t target side rule: findLayoutSiblingOnSplitSide.induct)
    (auto simp: Let_def orElseOpt_def split: if_splits option.splits dest: getDirect_Some)

text \<open>A move inside one branch of a tree leaves the other branch alone.\<close>

lemma moveGroupLeafBeside_branch:
  assumes "distinct (leafIds (Split d a b r))" "s \<noteq> target"
  shows "s \<in> set (leafIds a) \<Longrightarrow> target \<in> set (leafIds a) \<Longrightarrow>
      moveGroupLeafBeside (Split d a b r) s target side
        = Split d (moveGroupLeafBeside a s target side) b r" (is "?sa \<Longrightarrow> ?ta \<Longrightarrow> ?left")
    and "s \<in> set (leafIds b) \<Longrightarrow> target \<in> set (leafIds b) \<Longrightarrow>
      moveGroupLeafBeside (Split d a b r) s target side
        = Split d a (moveGroupLeafBeside b s target side) r" (is "?sb \<Longrightarrow> ?tb \<Longrightarrow> ?right")
proof -
  have not_leaf: "x \<noteq> Leaf s" if "target \<in> set (leafIds x)" for x
    using that assms(2) by auto
  { assume in_a: ?sa ?ta
    obtain n where "removeGroupLayoutLeaf a s = Some n"
      using grp.remove_Some [of a target s] in_a assms by auto
    moreover have "s \<notin> set (leafIds b)" "target \<notin> set (leafIds b)" "b \<noteq> Leaf s"
      using in_a assms by auto
    ultimately show ?left
      using not_leaf [OF in_a(2)]
      by (simp add: moveGroupLeafBeside_def placeGroupBeside_def replaceLeaf_absent
          removeGroupLayoutLeaf_absent) }
  { assume in_b: ?sb ?tb
    obtain n where "removeGroupLayoutLeaf b s = Some n"
      using grp.remove_Some [of b target s] in_b assms by auto
    moreover have "s \<notin> set (leafIds a)" "target \<notin> set (leafIds a)" "a \<noteq> Leaf s"
      using in_b assms by auto
    ultimately show ?right
      using not_leaf [OF in_b(2)]
      by (simp add: moveGroupLeafBeside_def placeGroupBeside_def replaceLeaf_absent
          removeGroupLayoutLeaf_absent) }
qed

lemma move_sibling_same:
  assumes "distinct (leafIds t)" "findLayoutSiblingOnSplitSide t target side = Some s"
  shows "sameIgnoringRatios (moveGroupLeafBeside t s target side) t"
  using assms
proof (induction t)
  case (Split d a b r)
  let ?direct = "getDirectLayoutSiblingOnSplitSide d a b target side"
  have neq: "s \<noteq> target" using Split.prems by (rule sibling_neq)
  show ?case
  proof (cases "truthy ?direct")
    case True
    with Split.prems have "?direct = Some s" by (simp add: Let_def)
    from getDirect_Some [OF this] Split.prems(1) show ?thesis
      by (auto simp: moveGroupLeafBeside_def placeGroupBeside_def buildSplitNode_def)
  next
    case False
    then consider (a) "findLayoutSiblingOnSplitSide a target side = Some s"
      | (b) "findLayoutSiblingOnSplitSide b target side = Some s"
      using Split.prems(2) by (auto simp: Let_def orElseOpt_def split: option.splits)
    then show ?thesis
      using Split.IH Split.prems(1) sibling_ids moveGroupLeafBeside_branch [OF Split.prems(1) neq]
      by cases auto
  qed
qed simp

end
