(* ===== verification/Split_Ratios.thy ===== *)
theory Split_Ratios
  imports Pane_Tree Group_Tree
begin

text \<open>
  Divider intents: \<open>src/src/shared/workspace-layout/split-ratio-intents.ts\<close>.  A window names the
  split it dragged by a dotted path and by the split's identity (direction and the first leaf on
  each side); the layout owner applies the ratio only to that split.
\<close>

section \<open>Paths and identities\<close>

record splitIdentity =
  si_direction :: string
  si_first :: string
  si_second :: string

record splitRatioIntent =
  in_path :: string
  in_ratio :: rat
  in_split :: "splitIdentity option"

fun splitOn :: "char \<Rightarrow> string \<Rightarrow> string list" where
  "splitOn c [] = [[]]"
| "splitOn c (x # xs) =
     (if x = c then [] # splitOn c xs
      else case splitOn c xs of [] \<Rightarrow> [[x]] | y # ys \<Rightarrow> (x # y) # ys)"

definition segmentsOf :: "string \<Rightarrow> string list" where
  "segmentsOf path = (if path \<noteq> [] then splitOn (CHR ''.'') path else [])"

definition childPath :: "string \<Rightarrow> string \<Rightarrow> string" where
  "childPath path segment = (if path \<noteq> [] then path @ ''.'' @ segment else segment)"

fun directionName :: "direction \<Rightarrow> string" where
  "directionName Vertical = ''vertical''"
| "directionName Horizontal = ''horizontal''"

definition identityOf :: "direction \<Rightarrow> split_node \<Rightarrow> split_node \<Rightarrow> splitIdentity" where
  "identityOf d a b =
     \<lparr>si_direction = directionName d, si_first = leadingId a, si_second = leadingId b\<rparr>"

definition isSplitMeant :: "direction \<Rightarrow> split_node \<Rightarrow> split_node \<Rightarrow> splitIdentity option \<Rightarrow> bool" where
  "isSplitMeant d a b meant \<longleftrightarrow>
     (case meant of None \<Rightarrow> True
      | Some m \<Rightarrow> si_direction (identityOf d a b) = si_direction m
          \<and> si_first (identityOf d a b) = si_first m \<and> si_second (identityOf d a b) = si_second m)"

lemma isSplitMeant_Some: "isSplitMeant d a b (Some m) \<longleftrightarrow> identityOf d a b = m"
  by (auto simp: isSplitMeant_def)

lemma isSplitMeant_None [simp]: "isSplitMeant d a b None"
  by (simp add: isSplitMeant_def)

lemma identityOf_cong:
  "sameIgnoringRatios a a' \<Longrightarrow> sameIgnoringRatios b b' \<Longrightarrow> identityOf d a b = identityOf d a' b'"
  by (simp add: identityOf_def sameIgnoringRatios_ids)

lemma isSplitMeant_cong:
  "sameIgnoringRatios a a' \<Longrightarrow> sameIgnoringRatios b b' \<Longrightarrow>
     isSplitMeant d a b m \<longleftrightarrow> isSplitMeant d a' b' m"
  by (cases m) (simp_all add: isSplitMeant_Some identityOf_cong)

section \<open>Collecting intents\<close>

fun changedSplitRatios :: "split_node \<Rightarrow> split_node \<Rightarrow> string \<Rightarrow> splitRatioIntent list" where
  "changedSplitRatios (Split d a b r) (Split d' a' b' r') path =
     (let ratio = orElse r' (1 / 2)
      in (if orElse r (1 / 2) \<noteq> ratio
          then [\<lparr>in_path = path, in_ratio = ratio, in_split = Some (identityOf d' a' b')\<rparr>] else [])
         @ changedSplitRatios a a' (childPath path ''first'')
         @ changedSplitRatios b b' (childPath path ''second''))"
| "changedSplitRatios _ _ path = []"

primrec allSplitRatios :: "split_node \<Rightarrow> string \<Rightarrow> splitRatioIntent list" where
  "allSplitRatios (Leaf i) path = []"
| "allSplitRatios (Split d a b r) path =
     \<lparr>in_path = path, in_ratio = orElse r (1 / 2), in_split = Some (identityOf d a b)\<rparr>
     # allSplitRatios a (childPath path ''first'') @ allSplitRatios b (childPath path ''second'')"

fun nodeAt :: "split_node \<Rightarrow> string list \<Rightarrow> split_node option" where
  "nodeAt t [] = Some t"
| "nodeAt (Leaf i) (s # rest) = None"
| "nodeAt (Split d a b r) (s # rest) =
     (if s = ''first'' then nodeAt a rest else if s = ''second'' then nodeAt b rest else None)"

definition splitRatioIntentAt :: "split_node \<Rightarrow> string \<Rightarrow> rat \<Rightarrow> splitRatioIntent option" where
  "splitRatioIntentAt tree path ratio =
     (case nodeAt tree (segmentsOf path) of
        Some (Split d a b r) \<Rightarrow>
          Some \<lparr>in_path = path, in_ratio = ratio, in_split = Some (identityOf d a b)\<rparr>
      | _ \<Rightarrow> None)"

section \<open>Applying intents\<close>

text \<open>
  \<open>withPaneRatio\<close> and \<open>withGroupRatio\<close> are the same walk; they differ in how a ratio is saved: a
  pane ratio this close to even is saved as none, a group ratio is saved as set.
\<close>

definition savedRatio :: "rat \<Rightarrow> rat option" where
  "savedRatio ratio = (if \<bar>ratio - 1 / 2\<bar> > SPLIT_RATIO_TOLERANCE then Some ratio else None)"

fun withRatio ::
  "(rat \<Rightarrow> rat option) \<Rightarrow> split_node \<Rightarrow> string list \<Rightarrow> splitRatioIntent \<Rightarrow> split_node option" where
  "withRatio save (Leaf i) segments intent = None"
| "withRatio save (Split d a b r) [] intent =
     (if isSplitMeant d a b (in_split intent) then Some (Split d a b (save (in_ratio intent)))
      else None)"
| "withRatio save (Split d a b r) (segment # rest) intent =
     (if segment = ''first''
      then map_option (\<lambda>child. Split d child b r) (withRatio save a rest intent)
      else if segment = ''second''
      then map_option (\<lambda>child. Split d a child r) (withRatio save b rest intent)
      else None)"

definition withPaneRatio :: "pane_node \<Rightarrow> string list \<Rightarrow> splitRatioIntent \<Rightarrow> pane_node option" where
  "withPaneRatio = withRatio savedRatio"

definition withGroupRatio :: "group_node \<Rightarrow> string list \<Rightarrow> splitRatioIntent \<Rightarrow> group_node option" where
  "withGroupRatio = withRatio Some"

fun withPaneSplitRatios :: "pane_node \<Rightarrow> splitRatioIntent list \<Rightarrow> pane_node option" where
  "withPaneSplitRatios tree [] = Some tree"
| "withPaneSplitRatios tree (i # is) =
     (case withPaneRatio tree (segmentsOf (in_path i)) i of
        None \<Rightarrow> None | Some next \<Rightarrow> withPaneSplitRatios next is)"

fun withGroupSplitRatios :: "group_node \<Rightarrow> splitRatioIntent list \<Rightarrow> group_node option" where
  "withGroupSplitRatios tree [] = Some tree"
| "withGroupSplitRatios tree (i # is) =
     (case withGroupRatio tree (segmentsOf (in_path i)) i of
        None \<Rightarrow> None | Some next \<Rightarrow> withGroupSplitRatios next is)"

subsection \<open>Ratios never change the structure\<close>

lemma sameIgnoringRatios_withRatio:
  "withRatio save t segs i = Some t' \<Longrightarrow> sameIgnoringRatios t' t"
  by (induction save t segs i arbitrary: t' rule: withRatio.induct) (auto split: if_splits)

lemma sameIgnoringRatios_withPaneSplitRatios:
  "withPaneSplitRatios t is = Some t' \<Longrightarrow> sameIgnoringRatios t' t"
  by (induction t "is" rule: withPaneSplitRatios.induct)
    (auto simp: withPaneRatio_def split: option.splits
      dest: sameIgnoringRatios_withRatio intro: sameIgnoringRatios_trans)

lemma sameIgnoringRatios_withGroupSplitRatios:
  "withGroupSplitRatios t is = Some t' \<Longrightarrow> sameIgnoringRatios t' t"
  by (induction t "is" rule: withGroupSplitRatios.induct)
    (auto simp: withGroupRatio_def split: option.splits
      dest: sameIgnoringRatios_withRatio intro: sameIgnoringRatios_trans)

lemma nodeAt_Leaf [simp]: "nodeAt (Leaf i) segs \<noteq> Some (Split d a b r)"
  by (cases segs) auto

text \<open>An intent is applied exactly when its path leads to a split with its identity.\<close>

lemma withRatio_defined:
  "withRatio save t segs i \<noteq> None \<longleftrightarrow>
     (\<exists>d a b r. nodeAt t segs = Some (Split d a b r) \<and> isSplitMeant d a b (in_split i))"
  by (induction save t segs i rule: withRatio.induct) auto

text \<open>It changes the ratio of that split and of no other.\<close>

lemma withRatio_nodeAt:
  "withRatio save t segs i = Some t' \<Longrightarrow>
     \<exists>d a b r. nodeAt t segs = Some (Split d a b r)
       \<and> nodeAt t' segs = Some (Split d a b (save (in_ratio i)))"
  by (induction save t segs i arbitrary: t' rule: withRatio.induct) (auto split: if_splits)

subsection \<open>Paths are lists of segments\<close>

lemma splitOn_not_Nil [simp]: "splitOn c s \<noteq> []"
  by (induction c s rule: splitOn.induct) (auto split: list.splits)

lemma splitOn_append:
  "splitOn c (xs @ c # ys) = splitOn c xs @ splitOn c ys"
proof (induction xs)
  case (Cons x xs)
  then show ?case by (cases "splitOn c xs") auto
qed simp

lemma splitOn_plain: "c \<notin> set xs \<Longrightarrow> splitOn c xs = [xs]"
  by (induction xs) auto

lemma segmentsOf_childPath:
  "segment \<noteq> [] \<Longrightarrow> CHR ''.'' \<notin> set segment \<Longrightarrow>
     segmentsOf (childPath path segment) = segmentsOf path @ [segment]"
  using splitOn_append [of "CHR ''.''" path segment]
  by (simp add: segmentsOf_def childPath_def splitOn_plain)

lemma segmentsOf_Nil [simp]: "segmentsOf [] = []"
  by (simp add: segmentsOf_def)

lemma segmentsOf_child [simp]:
  "segmentsOf (childPath path ''first'') = segmentsOf path @ [''first'']"
  "segmentsOf (childPath path ''second'') = segmentsOf path @ [''second'']"
  by (simp_all add: segmentsOf_childPath)

text \<open>Intents below a child, applied to the whole tree.\<close>

definition applyAll ::
  "(rat \<Rightarrow> rat option) \<Rightarrow> split_node \<Rightarrow> (string list \<times> splitRatioIntent) list \<Rightarrow> split_node option" where
  "applyAll save t is = fold (\<lambda>(segs, i) t. Option.bind t (\<lambda>n. withRatio save n segs i)) is (Some t)"

lemma applyAll_simps [simp]:
  "applyAll save t [] = Some t"
  "applyAll save t ((segs, i) # is) =
     (case withRatio save t segs i of None \<Rightarrow> None | Some n \<Rightarrow> applyAll save n is)"
proof -
  have "fold (\<lambda>(segs, i) t. Option.bind t (\<lambda>n. withRatio save n segs i)) js None = None" for js
    by (induction js) auto
  then show "applyAll save t ((segs, i) # is) =
      (case withRatio save t segs i of None \<Rightarrow> None | Some n \<Rightarrow> applyAll save n is)"
    by (simp add: applyAll_def split: option.splits)
qed (simp add: applyAll_def)

lemma applyAll_append:
  "applyAll save t (is @ js) = Option.bind (applyAll save t is) (\<lambda>n. applyAll save n js)"
  by (induction "is" arbitrary: t) (auto split: option.splits)

lemma applyAll_first:
  "applyAll save (Split d a b r) (map (\<lambda>(segs, i). (''first'' # segs, i)) is)
     = map_option (\<lambda>n. Split d n b r) (applyAll save a is)"
  by (induction "is" arbitrary: a) (auto split: option.splits)

lemma applyAll_second:
  "applyAll save (Split d a b r) (map (\<lambda>(segs, i). (''second'' # segs, i)) is)
     = map_option (\<lambda>n. Split d a n r) (applyAll save b is)"
  by (induction "is" arbitrary: b) (auto split: option.splits)

text \<open>The intents of a tree, with their paths relative to the node they were collected from.\<close>

fun relativeChanges ::
  "split_node \<Rightarrow> split_node \<Rightarrow> string \<Rightarrow> (string list \<times> splitRatioIntent) list" where
  "relativeChanges (Split d a b r) (Split d' a' b' r') path =
     (let ratio = orElse r' (1 / 2)
      in (if orElse r (1 / 2) \<noteq> ratio
          then [([], \<lparr>in_path = path, in_ratio = ratio, in_split = Some (identityOf d' a' b')\<rparr>)]
          else [])
         @ map (\<lambda>(segs, i). (''first'' # segs, i)) (relativeChanges a a' (childPath path ''first''))
         @ map (\<lambda>(segs, i). (''second'' # segs, i)) (relativeChanges b b' (childPath path ''second'')))"
| "relativeChanges _ _ path = []"

lemma changedSplitRatios_relative:
  "map (\<lambda>i. (segmentsOf (in_path i), i)) (changedSplitRatios t t' path)
     = map (\<lambda>(segs, i). (segmentsOf path @ segs, i)) (relativeChanges t t' path)"
  by (induction t t' path rule: changedSplitRatios.induct)
    (auto simp: Let_def case_prod_beta comp_def)

text \<open>What a reader of the tree sees: the same shape, and at every split the saved ratio.\<close>

fun showsRatios :: "(rat \<Rightarrow> rat option) \<Rightarrow> split_node \<Rightarrow> split_node \<Rightarrow> bool" where
  "showsRatios save (Leaf i) (Leaf j) \<longleftrightarrow> i = j"
| "showsRatios save (Split d a b r) (Split e a' b' r') \<longleftrightarrow>
     d = e \<and> (effectiveRatio r = effectiveRatio r' \<or> r = save (effectiveRatio r'))
       \<and> showsRatios save a a' \<and> showsRatios save b b'"
| "showsRatios save _ _ \<longleftrightarrow> False"

lemma applyAll_relativeChanges:
  "sameIgnoringRatios t t' \<Longrightarrow>
     \<exists>n. applyAll save t (relativeChanges t t' path) = Some n \<and> showsRatios save n t'"
proof (induction t t' path rule: relativeChanges.induct)
  case (1 d a b r d' a' b' r' path)
  then obtain na nb where
    na: "applyAll save a (relativeChanges a a' (childPath path ''first'')) = Some na"
        "showsRatios save na a'" and
    nb: "applyAll save b (relativeChanges b b' (childPath path ''second'')) = Some nb"
        "showsRatios save nb b'"
    by auto
  from "1.prems" have "isSplitMeant d a b (Some (identityOf d' a' b'))"
    by (simp add: isSplitMeant_Some identityOf_cong)
  with "1.prems" na nb show ?case
    by (auto simp: Let_def applyAll_append applyAll_first applyAll_second effectiveRatio_def)
qed (auto elim: sameIgnoringRatios_LeafE sameIgnoringRatios_toLeafE)

lemma withGroupSplitRatios_applyAll:
  "withGroupSplitRatios t is = applyAll Some t (map (\<lambda>i. (segmentsOf (in_path i), i)) is)"
  by (induction t "is" rule: withGroupSplitRatios.induct)
    (auto simp: withGroupRatio_def split: option.splits)

lemma withPaneSplitRatios_applyAll:
  "withPaneSplitRatios t is = applyAll savedRatio t (map (\<lambda>i. (segmentsOf (in_path i), i)) is)"
  by (induction t "is" rule: withPaneSplitRatios.induct)
    (auto simp: withPaneRatio_def split: option.splits)

lemma applyAll_changed:
  assumes "sameIgnoringRatios t t'"
  shows "\<exists>n. applyAll save t (map (\<lambda>i. (segmentsOf (in_path i), i)) (changedSplitRatios t t' []))
        = Some n \<and> showsRatios save n t'"
  using applyAll_relativeChanges [OF assms, of save "[]"]
  by (simp add: changedSplitRatios_relative case_prod_beta)

lemma effectiveRatio_savedRatio: "\<bar>effectiveRatio (savedRatio x) - x\<bar> \<le> SPLIT_RATIO_TOLERANCE"
  by (auto simp: effectiveRatio_def savedRatio_def SPLIT_RATIO_TOLERANCE_def abs_minus_commute)

text \<open>The ratios a reader sees, in tree order.\<close>

definition ratiosOf :: "split_node \<Rightarrow> rat list" where
  "ratiosOf t = map (\<lambda>(d, a, b, r). effectiveRatio r) (splitsOf t)"

lemma ratiosOf_simps [simp]:
  "ratiosOf (Leaf i) = []" "ratiosOf (Split d a b r) = effectiveRatio r # ratiosOf a @ ratiosOf b"
  by (simp_all add: ratiosOf_def)

lemma showsRatios_near:
  assumes "showsRatios save n t" "\<And>x. \<bar>effectiveRatio (save x) - x\<bar> \<le> e"
  shows "sameIgnoringRatios n t \<and> list_all2 (\<lambda>x y. \<bar>x - y\<bar> \<le> e) (ratiosOf n) (ratiosOf t)"
proof -
  have "0 \<le> e" using order_trans [OF abs_ge_zero assms(2)] .
  with assms show ?thesis
    by (induction save n t rule: showsRatios.induct) (auto intro: list_all2_appendI)
qed

lemma groupRatios_round_trip:
  assumes "sameIgnoringRatios t t'"
  shows "\<exists>n. withGroupSplitRatios t (changedSplitRatios t t' []) = Some n
    \<and> sameIgnoringRatios n t' \<and> ratiosOf n = ratiosOf t'"
proof -
  obtain n where n: "withGroupSplitRatios t (changedSplitRatios t t' []) = Some n" "showsRatios Some n t'"
    using applyAll_changed [OF assms, of Some] by (auto simp: withGroupSplitRatios_applyAll)
  have "sameIgnoringRatios n t' \<and> list_all2 (\<lambda>x y. \<bar>x - y\<bar> \<le> 0) (ratiosOf n) (ratiosOf t')"
    by (rule showsRatios_near [OF n(2)]) (simp add: effectiveRatio_def)
  with n(1) show ?thesis by (auto simp: list_all2_eq [symmetric] list.rel_eq)
qed

lemma paneRatios_round_trip:
  assumes "sameIgnoringRatios t t'"
  shows "\<exists>n. withPaneSplitRatios t (changedSplitRatios t t' []) = Some n \<and> sameIgnoringRatios n t'
    \<and> list_all2 (\<lambda>x y. \<bar>x - y\<bar> \<le> SPLIT_RATIO_TOLERANCE) (ratiosOf n) (ratiosOf t')"
proof -
  obtain n where n: "withPaneSplitRatios t (changedSplitRatios t t' []) = Some n" "showsRatios savedRatio n t'"
    using applyAll_changed [OF assms, of savedRatio] by (auto simp: withPaneSplitRatios_applyAll)
  with showsRatios_near [OF n(2) effectiveRatio_savedRatio] show ?thesis by blast
qed

end
