(* ===== verification/Tab_Order.thy ===== *)
theory Tab_Order
  imports Layout_Prelude "HOL-Library.Char_ord" "HOL-Library.List_Lexorder"
begin

text \<open>
  The order of the tabs of a group: \<open>src/src/shared/workspace-layout/tab-order.ts\<close>.
  A \<open>Map\<close> built from an array keeps the last entry of a repeated key.
\<close>

record pinnedTab =
  pt_id :: string
  pt_isPinned :: "bool option"

definition isPinnedIn :: "pinnedTab list \<Rightarrow> string \<Rightarrow> bool" where
  "isPinnedIn tabs i \<longleftrightarrow>
     map_of (rev (map (\<lambda>t. (pt_id t, pt_isPinned t)) tabs)) i = Some (Some True)"

fun findIndex :: "('a \<Rightarrow> bool) \<Rightarrow> 'a list \<Rightarrow> nat option" where
  "findIndex P [] = None"
| "findIndex P (x # xs) = (if P x then Some 0 else map_option Suc (findIndex P xs))"

abbreviation indexOf :: "'a \<Rightarrow> 'a list \<Rightarrow> nat option" where
  "indexOf x \<equiv> findIndex (\<lambda>y. y = x)"

lemma findIndex_Some:
  "findIndex P xs = Some n \<Longrightarrow> n < length xs \<and> P (xs ! n) \<and> (\<forall>x\<in>set (take n xs). \<not> P x)"
proof (induction xs arbitrary: n)
  case (Cons x xs)
  then show ?case by (auto split: if_splits)
qed simp

lemma findIndex_None: "findIndex P xs = None \<longleftrightarrow> (\<forall>x\<in>set xs. \<not> P x)"
  by (induction xs) auto

section \<open>Deduplication and pinned partitions\<close>

fun dedupeFrom :: "string list \<Rightarrow> string list \<Rightarrow> string list" where
  "dedupeFrom seen [] = []"
| "dedupeFrom seen (x # xs) =
     (if x \<in> set seen then dedupeFrom seen xs else x # dedupeFrom (x # seen) xs)"

definition dedupeTabOrder :: "string list \<Rightarrow> string list" where
  "dedupeTabOrder tabIds = dedupeFrom [] tabIds"

lemma set_dedupeFrom: "set (dedupeFrom seen xs) = set xs - set seen"
  by (induction seen xs rule: dedupeFrom.induct) auto

lemma distinct_dedupeFrom: "distinct (dedupeFrom seen xs)"
  by (induction seen xs rule: dedupeFrom.induct) (auto simp: set_dedupeFrom)

lemma dedupeFrom_id: "distinct xs \<Longrightarrow> set xs \<inter> set seen = {} \<Longrightarrow> dedupeFrom seen xs = xs"
  by (induction seen xs rule: dedupeFrom.induct) auto

lemma set_dedupeTabOrder [member_simps, simp]: "set (dedupeTabOrder xs) = set xs"
  by (simp add: dedupeTabOrder_def set_dedupeFrom)

lemma distinct_dedupeTabOrder [member_simps, simp]: "distinct (dedupeTabOrder xs)"
  by (simp add: dedupeTabOrder_def distinct_dedupeFrom)

lemma dedupeTabOrder_id [member_simps, simp]: "distinct xs \<Longrightarrow> dedupeTabOrder xs = xs"
  by (simp add: dedupeTabOrder_def dedupeFrom_id)

definition partitionPinnedTabOrder ::
  "string list \<Rightarrow> pinnedTab list \<Rightarrow> string \<Rightarrow> string list" where
  "partitionPinnedTabOrder tabOrder tabs movingTabId =
     (let withoutMoving = filter (\<lambda>i. i \<noteq> movingTabId) (dedupeTabOrder tabOrder)
      in filter (isPinnedIn tabs) withoutMoving @ [movingTabId]
         @ filter (\<lambda>i. \<not> isPinnedIn tabs i) withoutMoving)"

definition insertTabIdIntoOrder ::
  "string list \<Rightarrow> pinnedTab list \<Rightarrow> string \<Rightarrow> bool \<Rightarrow> string option \<Rightarrow> string list" where
  "insertTabIdIntoOrder tabOrder tabs tabId isPinned anchorTabId =
     (let order = filter (\<lambda>i. i \<noteq> tabId) (dedupeTabOrder tabOrder);
          pinnedPrefixEnd = orElse (findIndex (\<lambda>i. \<not> isPinnedIn tabs i) order) (length order);
          anchorIndex = (if truthy anchorTabId then indexOf (the anchorTabId) order else None);
          index = (case anchorIndex of
              None \<Rightarrow> (if isPinned then pinnedPrefixEnd else length order)
            | Some k \<Rightarrow> (if isPinnedIn tabs (order ! k) = isPinned then Suc k
                        else pinnedPrefixEnd))
      in insertAt index tabId order)"

text \<open>Pinned tabs come before the others: none follows the first unpinned one.\<close>

definition pinnedFirst :: "pinnedTab list \<Rightarrow> string list \<Rightarrow> bool" where
  "pinnedFirst tabs order \<longleftrightarrow>
     list_all (\<lambda>i. \<not> isPinnedIn tabs i) (dropWhile (isPinnedIn tabs) order)"

lemma pinnedFirstI:
  assumes "\<forall>i\<in>set ps. isPinnedIn tabs i" "\<forall>i\<in>set us. \<not> isPinnedIn tabs i"
  shows "pinnedFirst tabs (ps @ us)"
proof -
  have "dropWhile (isPinnedIn tabs) (ps @ us) = dropWhile (isPinnedIn tabs) us"
    using assms(1) by (induction ps) auto
  also have "\<dots> = us"
    using assms(2) by (cases us) auto
  finally show ?thesis
    using assms(2) by (simp add: pinnedFirst_def list_all_iff)
qed

lemma pinnedFirstE:
  assumes "pinnedFirst tabs xs"
  obtains ps us where "xs = ps @ us"
    "\<forall>i\<in>set ps. isPinnedIn tabs i" "\<forall>i\<in>set us. \<not> isPinnedIn tabs i"
proof
  show "xs = takeWhile (isPinnedIn tabs) xs @ dropWhile (isPinnedIn tabs) xs" by simp
  show "\<forall>i\<in>set (takeWhile (isPinnedIn tabs) xs). isPinnedIn tabs i"
    by (meson set_takeWhileD)
  show "\<forall>i\<in>set (dropWhile (isPinnedIn tabs) xs). \<not> isPinnedIn tabs i"
    using assms by (simp add: pinnedFirst_def list_all_iff)
qed

lemma pinnedFirst_filter: "pinnedFirst tabs xs \<Longrightarrow> pinnedFirst tabs (filter P xs)"
  by (elim pinnedFirstE) (auto simp: intro!: pinnedFirstI)

lemma set_partitionPinnedTabOrder [member_simps]:
  "set (partitionPinnedTabOrder order tabs t) = insert t (set order)"
  by (auto simp: partitionPinnedTabOrder_def Let_def)

lemma distinct_partitionPinnedTabOrder [member_simps]:
  "distinct (partitionPinnedTabOrder order tabs t)"
  by (auto simp: partitionPinnedTabOrder_def Let_def)

lemma pinnedFirst_partition: "pinnedFirst tabs (partitionPinnedTabOrder order tabs t)"
proof (cases "isPinnedIn tabs t")
  case True
  then show ?thesis
    unfolding partitionPinnedTabOrder_def Let_def append_assoc [symmetric]
    by (intro pinnedFirstI) auto
next
  case False
  then show ?thesis
    unfolding partitionPinnedTabOrder_def Let_def
    by (intro pinnedFirstI) auto
qed

lemma set_insertTabIdIntoOrder [member_simps]:
  "set (insertTabIdIntoOrder order tabs t p anchor) = insert t (set order)"
  by (auto simp: insertTabIdIntoOrder_def Let_def)

lemma distinct_insertTabIdIntoOrder [member_simps]:
  "distinct (insertTabIdIntoOrder order tabs t p anchor)"
  by (auto simp: insertTabIdIntoOrder_def Let_def)

lemma insertTabIdIntoOrder_siblings:
  "filter (\<lambda>i. i \<noteq> t) (insertTabIdIntoOrder order tabs t p anchor)
     = filter (\<lambda>i. i \<noteq> t) (dedupeTabOrder order)"
  by (simp add: insertTabIdIntoOrder_def Let_def filter_insertAt_neq)

lemma pinnedFirst_dedupe: "pinnedFirst tabs xs \<Longrightarrow> pinnedFirst tabs (dedupeTabOrder xs)"
proof -
  have app: "\<exists>seen'. dedupeFrom seen (ps @ us) = dedupeFrom seen ps @ dedupeFrom seen' us"
    for seen ps and us :: "string list"
    by (induction seen ps rule: dedupeFrom.induct) auto
  show "pinnedFirst tabs xs \<Longrightarrow> pinnedFirst tabs (dedupeTabOrder xs)"
  proof (elim pinnedFirstE)
    fix ps us
    assume xs: "xs = ps @ us" and p: "\<forall>i\<in>set ps. isPinnedIn tabs i"
      and u: "\<forall>i\<in>set us. \<not> isPinnedIn tabs i"
    from app obtain seen' where "dedupeTabOrder xs = dedupeFrom [] ps @ dedupeFrom seen' us"
      unfolding xs dedupeTabOrder_def by blast
    with p u show ?thesis by (auto simp: set_dedupeFrom intro!: pinnedFirstI)
  qed
qed

lemma pinnedFirst_prefixEnd:
  assumes "\<forall>i\<in>set ps. isPinnedIn tabs i" "\<forall>i\<in>set us. \<not> isPinnedIn tabs i"
  shows "orElse (findIndex (\<lambda>i. \<not> isPinnedIn tabs i) (ps @ us)) (length (ps @ us)) = length ps"
  using assms
proof (induction ps)
  case Nil
  then show ?case by (cases us) auto
next
  case (Cons i ps)
  then show ?case
    by (cases "findIndex (\<lambda>i. \<not> isPinnedIn tabs i) (ps @ us)") auto
qed

lemma pinnedFirst_insertAt:
  assumes p: "\<forall>i\<in>set ps. isPinnedIn tabs i" and u: "\<forall>i\<in>set us. \<not> isPinnedIn tabs i"
    and n: "isPinnedIn tabs t \<and> n \<le> length ps \<or> \<not> isPinnedIn tabs t \<and> length ps \<le> n"
  shows "pinnedFirst tabs (insertAt n t (ps @ us))"
proof (cases "isPinnedIn tabs t")
  case True
  with n have "insertAt n t (ps @ us) = insertAt n t ps @ us" by (simp add: insertAt_def)
  with p u True show ?thesis by (auto intro!: pinnedFirstI)
next
  case False
  with n have "insertAt n t (ps @ us) = ps @ insertAt (n - length ps) t us"
    by (simp add: insertAt_def)
  with p u False show ?thesis by (auto intro!: pinnedFirstI)
qed

lemma pinnedFirst_insertTabIdIntoOrder:
  assumes "pinnedFirst tabs order" "p = isPinnedIn tabs t"
  shows "pinnedFirst tabs (insertTabIdIntoOrder order tabs t p anchor)"
proof -
  let ?xs = "filter (\<lambda>i. i \<noteq> t) (dedupeTabOrder order)"
  have "pinnedFirst tabs ?xs"
    using assms(1) by (intro pinnedFirst_filter pinnedFirst_dedupe)
  then obtain ps us where xs: "?xs = ps @ us"
    and pu: "\<forall>i\<in>set ps. isPinnedIn tabs i" "\<forall>i\<in>set us. \<not> isPinnedIn tabs i"
    by (elim pinnedFirstE)
  note pos = pinnedFirst_prefixEnd [OF pu]
  have anchored: "isPinnedIn tabs (?xs ! k) \<longleftrightarrow> k < length ps" if "k < length ?xs" for k
    using that pu unfolding xs by (auto simp: nth_append)
  show ?thesis
  proof (cases "if truthy anchor then indexOf (the anchor) ?xs else None")
    case None
    then show ?thesis
      using pu assms(2)
      unfolding insertTabIdIntoOrder_def Let_def None [unfolded xs] xs pos
      by (auto intro!: pinnedFirst_insertAt)
  next
    case (Some k)
    then have "k < length ?xs" by (auto dest: findIndex_Some split: if_splits)
    note k = anchored [OF this]
    show ?thesis
      using pu assms(2) k
      unfolding insertTabIdIntoOrder_def Let_def Some [unfolded xs] xs pos
      by (auto intro!: pinnedFirst_insertAt)
  qed
qed

end
