(* ===== verification/Tab_Moves.thy ===== *)
theory Tab_Moves
  imports Tab_Order Group_Tree
begin

text \<open>
  Reordering the tabs of a group (\<open>reorderProjectedTabOrder\<close>) and expressing a reorder as moves
  (\<open>tabOrderMoves\<close>): the second half of \<open>src/src/shared/workspace-layout/tab-order.ts\<close>.
\<close>

section \<open>A requested order of the visible tabs\<close>

text \<open>\<open>new Map(requested.map((id, index) => [id, index]))\<close>: the last index of an id.\<close>

definition positionOf :: "string list \<Rightarrow> string \<Rightarrow> nat option" where
  "positionOf requested = map_of (rev (zip requested [0..<length requested]))"

text \<open>
  The longest increasing chain of positions that starts at each candidate, from the right.
\<close>

fun chainLengths :: "nat list \<Rightarrow> nat list" where
  "chainLengths [] = []"
| "chainLengths (p # ps) =
     (let ls = chainLengths ps
      in fold (\<lambda>(q, l) best. if p < q then max best (Suc l) else best) (zip ps ls) 1 # ls)"

fun pickAnchors :: "((string \<times> nat) \<times> nat) list \<Rightarrow> int \<Rightarrow> nat \<Rightarrow> (string \<times> nat) list" where
  "pickAnchors [] previous remaining = []"
| "pickAnchors (((i, p), l) # cs) previous remaining =
     (if previous < int p \<and> l = remaining
      then (i, p) # pickAnchors cs (int p) (remaining - 1)
      else pickAnchors cs previous remaining)"

text \<open>\<open>splice(indexOf(successor), 0, id)\<close>, where \<open>splice(-1, \<dots>)\<close> counts from the end.\<close>

fun placeBefore :: "string set \<Rightarrow> string list \<Rightarrow> string option \<Rightarrow> string list \<Rightarrow> string list" where
  "placeBefore anchors [] successor result = result"
| "placeBefore anchors (i # is) successor result =
     placeBefore anchors is (Some i)
       (if i \<in> anchors then result
        else insertAt (case successor of
            None \<Rightarrow> length result
          | Some s \<Rightarrow> orElse (indexOf s result) (length result - 1)) i result)"

definition reorderProjectedTabOrder ::
  "string list \<Rightarrow> string list \<Rightarrow> string \<Rightarrow> string list" where
  "reorderProjectedTabOrder order requestedOrder movingTabId =
     (let requested = filter (\<lambda>i. i \<in> set order) requestedOrder;
          visible = filter (\<lambda>i. positionOf requested i \<noteq> None) order
      in if take (length visible) requested = visible then order
         else
           let candidates = concat (map (\<lambda>i. case positionOf requested i of
                   None \<Rightarrow> []
                 | Some p \<Rightarrow> if i = movingTabId then [] else [(i, p)]) visible);
               lengths = chainLengths (map snd candidates);
               anchors = set (map fst (pickAnchors (zip candidates lengths) (-1)
                           (fold max lengths 0)));
               result = filter (\<lambda>i. positionOf requested i = None \<or> i \<in> anchors) order
           in placeBefore anchors (rev requested) None result)"

lemma dom_positionOf: "positionOf xs i = None \<longleftrightarrow> i \<notin> set xs"
proof -
  have "fst ` set (zip xs [0..<length xs]) = set xs"
    by (metis map_fst_zip set_map length_upt minus_nat.diff_0)
  then show ?thesis by (simp add: positionOf_def map_of_eq_None_iff)
qed

lemma positionOf_nth: "distinct xs \<Longrightarrow> k < length xs \<Longrightarrow> positionOf xs (xs ! k) = Some k"
  unfolding positionOf_def
  by (subst map_of_eq_Some_iff) (auto simp: rev_map [symmetric] distinct_rev in_set_zip)

lemma sorted_positionOf:
  "distinct xs \<Longrightarrow> sorted_wrt (\<lambda>a b. the (positionOf xs a) < the (positionOf xs b)) xs"
  by (auto simp: sorted_wrt_iff_nth_less positionOf_nth)

lemma sorted_wrt_less_unique:
  fixes f :: "'a \<Rightarrow> nat"
  assumes "sorted_wrt (\<lambda>a b. f a < f b) xs" "sorted_wrt (\<lambda>a b. f a < f b) ys" "set xs = set ys"
  shows "xs = ys"
  using assms
proof (induction xs arbitrary: ys)
  case (Cons x xs)
  then obtain y zs where ys: "ys = y # zs" by (cases ys) auto
  have "x = y"
    using Cons.prems unfolding ys by (metis less_asym list.set_intros(1) set_ConsD sorted_wrt.simps(2))
  moreover have "x \<notin> set xs" "y \<notin> set zs" using Cons.prems ys by auto
  ultimately have "set xs = set zs" using Cons.prems(3) ys by (metis insert_ident list.simps(15))
  with Cons ys \<open>x = y\<close> show ?case by simp
qed simp

lemma pickAnchors_sorted:
  "sorted_wrt (\<lambda>a b. snd a < snd b) (pickAnchors cs previous remaining)
     \<and> (\<forall>c\<in>set (pickAnchors cs previous remaining). previous < int (snd c))"
proof (induction cs previous remaining rule: pickAnchors.induct)
  case (2 i p l cs previous remaining)
  then show ?case by (cases "previous < int p \<and> l = remaining") force+
qed simp

lemma pickAnchors_subset: "set (pickAnchors cs previous remaining) \<subseteq> fst ` set cs"
  by (induction cs previous remaining rule: pickAnchors.induct) auto

lemma pickAnchors_filter:
  "distinct (map (fst \<circ> fst) cs) \<Longrightarrow>
     map fst (pickAnchors cs previous remaining)
       = filter (\<lambda>i. i \<in> fst ` set (pickAnchors cs previous remaining)) (map (fst \<circ> fst) cs)"
proof (induction cs previous remaining rule: pickAnchors.induct)
  case (2 i p l cs previous remaining)
  let ?t = "pickAnchors cs (int p) (remaining - 1)"
  have i: "i \<notin> fst ` set (pickAnchors cs q r)" for q r
    using "2.prems" pickAnchors_subset [of cs q r] by (auto simp: image_iff) fastforce
  have "filter (\<lambda>j. j = i \<or> j \<in> fst ` set ?t) (map (fst \<circ> fst) cs)
      = filter (\<lambda>j. j \<in> fst ` set ?t) (map (fst \<circ> fst) cs)"
    using "2.prems" by (intro filter_cong) auto
  note same = this
  show ?case
  proof (cases "previous < int p \<and> l = remaining")
    case True
    with 2 same show ?thesis by (simp add: comp_def)
  next
    case False
    with 2 i show ?thesis by auto
  qed
qed simp

text \<open>
  What the reorder needs of its anchors: they are requested ids that already stand in the
  requested order.
\<close>

lemma filter_sorted_same:
  assumes "distinct requested" "distinct order" "A \<subseteq> set requested" "A \<subseteq> set order"
    and "sorted_wrt (\<lambda>a b. the (positionOf requested a) < the (positionOf requested b))
           (filter (\<lambda>i. i \<in> A) order)"
  shows "filter (\<lambda>i. i \<in> A) order = filter (\<lambda>i. i \<in> A) requested"
  using assms sorted_positionOf [OF assms(1)]
  by (intro sorted_wrt_less_unique [where f = "\<lambda>a. the (positionOf requested a)"])
    (auto intro: sorted_wrt_filter)

lemma filter_insertAt_at:
  assumes "distinct xs" "s \<in> set xs"
  shows "\<exists>as bs. xs = as @ s # bs \<and> s \<notin> set as \<and> indexOf s xs = Some (length as)
           \<and> insertAt (length as) i xs = as @ i # s # bs"
proof -
  from assms obtain as bs where xs: "xs = as @ s # bs" "s \<notin> set as"
    by (meson split_list_first)
  have "findIndex (\<lambda>y. y = s) (as @ s # bs) = Some (length as)"
    using xs(2) by (induction as) auto
  then show ?thesis
    using xs by (intro exI [of _ as] exI [of _ bs]) (simp add: insertAt_def)
qed

lemma placeBefore_order:
  assumes "distinct result" "distinct (xs @ S)" "A \<subseteq> set (xs @ S)"
    and "set (xs @ S) \<inter> set result = A \<union> set S"
    and "filter (\<lambda>i. i \<in> set (xs @ S)) result = filter (\<lambda>i. i \<in> A) xs @ S"
    and "successor = (case S of [] \<Rightarrow> None | s # _ \<Rightarrow> Some s)"
  shows "filter (\<lambda>i. i \<in> set (xs @ S)) (placeBefore A (rev xs) successor result) = xs @ S
    \<and> filter (\<lambda>i. i \<notin> set (xs @ S)) (placeBefore A (rev xs) successor result)
        = filter (\<lambda>i. i \<notin> set (xs @ S)) result
    \<and> distinct (placeBefore A (rev xs) successor result)"
  using assms
proof (induction xs arbitrary: S successor result rule: rev_induct)
  case Nil
  then show ?case by auto
next
  case (snoc i xs)
  let ?R = "set (xs @ i # S)"
  let ?pos = "case successor of None \<Rightarrow> length result
      | Some s \<Rightarrow> orElse (indexOf s result) (length result - 1)"
  let ?result = "if i \<in> A then result else insertAt ?pos i result"
  have iS: "i \<notin> set S" and ixs: "i \<notin> set xs" using snoc.prems(2) by auto
  have fresh: "i \<notin> set result" if "i \<notin> A" using snoc.prems(4) that iS by auto
  have dist: "distinct ?result" using snoc.prems(1) fresh by auto
  have kept: "filter (\<lambda>j. j \<in> ?R) ?result = filter (\<lambda>j. j \<in> A) xs @ i # S"
  proof (cases "i \<in> A")
    case True
    with snoc.prems(5) show ?thesis by simp
  next
    case False
    have F: "filter (\<lambda>j. j \<in> ?R) result = filter (\<lambda>j. j \<in> A) xs @ S"
      using snoc.prems(5) False by simp
    show ?thesis
    proof (cases S)
      case Nil
      with snoc.prems(6) have "insertAt ?pos i result = result @ [i]" by (simp add: insertAt_def)
      with False F Nil show ?thesis by simp
    next
      case (Cons s S')
      then have "s \<in> set result" using snoc.prems(4) by auto
      from filter_insertAt_at [OF snoc.prems(1) this] obtain as bs where
        r: "result = as @ s # bs" "s \<notin> set as" "indexOf s result = Some (length as)"
          "insertAt (length as) i result = as @ i # s # bs" by blast
      have "filter (\<lambda>j. j \<in> ?R) as @ s # filter (\<lambda>j. j \<in> ?R) bs
          = filter (\<lambda>j. j \<in> A) xs @ s # S'"
        using F r(1) Cons by simp
      moreover have "s \<notin> set (filter (\<lambda>j. j \<in> A) xs)" using snoc.prems(2) Cons by auto
      ultimately have "filter (\<lambda>j. j \<in> ?R) as = filter (\<lambda>j. j \<in> A) xs
          \<and> filter (\<lambda>j. j \<in> ?R) bs = S'"
        using r(1,2) snoc.prems(1) Cons by (subst (asm) append_Cons_eq_iff) auto
      with False r Cons snoc.prems(6) show ?thesis by simp
    qed
  qed
  have others: "filter (\<lambda>j. j \<notin> ?R) ?result = filter (\<lambda>j. j \<notin> ?R) result"
  proof -
    have "filter (\<lambda>j. j \<notin> ?R) (insertAt n i result) = filter (\<lambda>j. j \<notin> ?R) result" for n
    proof -
      have "filter (\<lambda>j. j \<notin> ?R) (insertAt n i result)
          = filter (\<lambda>j. j \<notin> ?R) (filter (\<lambda>j. j \<noteq> i) (insertAt n i result))"
        by (auto intro: filter_cong)
      also have "\<dots> = filter (\<lambda>j. j \<notin> ?R) result"
        by (auto simp: filter_insertAt_neq intro: filter_cong)
      finally show ?thesis .
    qed
    then show ?thesis by auto
  qed
  have "set (xs @ i # S) \<inter> set ?result = A \<union> set (i # S)"
    using snoc.prems(3,4) by auto
  from snoc.IH [OF dist _ _ this kept, of "Some i"] snoc.prems(2,3) others
  show ?case by auto
qed

text \<open>
  The two arguments of the loop meet its invariant: the anchors are the requested ids of a
  subsequence of the order whose positions increase.
\<close>

lemma requested_positions:
  "distinct requested \<Longrightarrow> positionOf requested i = Some p \<Longrightarrow> p < length requested \<and> requested ! p = i"
  by (auto simp: positionOf_def in_set_zip dest!: map_of_SomeD)

lemma candidates_simps:
  fixes pos :: "string \<Rightarrow> nat option" and t :: string
  defines "cand \<equiv> \<lambda>visible. concat (map (\<lambda>i. case pos i of
                   None \<Rightarrow> [] | Some p \<Rightarrow> if i = t then [] else [(i, p)]) visible)"
  assumes "\<forall>i\<in>set visible. pos i \<noteq> None"
  shows "map fst (cand visible) = filter (\<lambda>i. i \<noteq> t) visible"
    and "\<forall>c\<in>set (cand visible). pos (fst c) = Some (snd c)"
proof -
  show "map fst (cand visible) = filter (\<lambda>i. i \<noteq> t) visible"
    using assms(2) unfolding cand_def
  proof (induction visible)
    case (Cons i rest)
    from Cons.prems obtain p where p: "pos i = Some p" by auto
    from Cons.prems have "\<forall>i\<in>set rest. pos i \<noteq> None" by simp
    from Cons.IH [OF this] p show ?case by simp
  qed simp
  show "\<forall>c\<in>set (cand visible). pos (fst c) = Some (snd c)"
  proof
    fix c assume "c \<in> set (cand visible)"
    then obtain i where
      i: "c \<in> set (case pos i of None \<Rightarrow> [] | Some p \<Rightarrow> if i = t then [] else [(i, p)])"
      unfolding cand_def by auto
    then show "pos (fst c) = Some (snd c)" by (cases "pos i") (auto split: if_splits)
  qed
qed

lemma length_chainLengths [simp]: "length (chainLengths ps) = length ps"
  by (induction ps) (auto simp: Let_def)

lemma anchors_in_order:
  fixes previous :: int and remaining :: nat
  assumes "distinct order" "\<forall>c\<in>set cands. pos (fst c) = Some (snd c)"
    and "map fst cands = filter Q order" "length ls = length cands"
  defines "A \<equiv> set (map fst (pickAnchors (zip cands ls) previous remaining))"
  shows "A \<subseteq> {i \<in> set order. pos i \<noteq> None}"
    and "sorted_wrt (\<lambda>a b. the (pos a) < the (pos b)) (filter (\<lambda>i. i \<in> A) order)"
proof -
  let ?picked = "pickAnchors (zip cands ls) previous remaining"
  have fz: "map fst (zip cands ls) = cands" using assms(4) by (simp add: map_fst_zip)
  then have keys: "map (fst \<circ> fst) (zip cands ls) = filter Q order"
    using assms(3) by (metis map_map)
  have sub: "set ?picked \<subseteq> set cands"
    using pickAnchors_subset [of "zip cands ls" previous remaining] fz by (metis set_map)
  have "fst ` set cands \<subseteq> set order" using assms(3) by (metis filter_is_subset set_map)
  with sub assms(2) show A: "A \<subseteq> {i \<in> set order. pos i \<noteq> None}" unfolding A_def by force
  have "map fst ?picked = filter (\<lambda>i. i \<in> A) (filter Q order)"
  proof -
    have "A = fst ` set ?picked" by (simp add: A_def)
    moreover have "distinct (map (fst \<circ> fst) (zip cands ls))" using keys assms(1) by simp
    ultimately show ?thesis
      using pickAnchors_filter [of "zip cands ls" previous remaining] keys by metis
  qed
  also have "\<dots> = filter (\<lambda>i. i \<in> A) order"
  proof -
    have "A \<subseteq> set (map fst cands)" using sub unfolding A_def by auto
    then show ?thesis unfolding assms(3) by (auto intro!: filter_cong)
  qed
  finally have F: "filter (\<lambda>i. i \<in> A) order = map fst ?picked" by simp
  have "sorted_wrt (\<lambda>a b. the (pos (fst a)) < the (pos (fst b))) ?picked"
    by (rule sorted_wrt_mono_rel [OF _ conjunct1 [OF pickAnchors_sorted]])
      (metis assms(2) option.sel sub subsetD)
  then show "sorted_wrt (\<lambda>a b. the (pos a) < the (pos b)) (filter (\<lambda>i. i \<in> A) order)"
    unfolding F by (simp add: sorted_wrt_map)
qed

lemma reorderProjected:
  fixes t :: string
  assumes "distinct order" "distinct requestedOrder"
  defines "requested \<equiv> filter (\<lambda>i. i \<in> set order) requestedOrder"
    and "result \<equiv> reorderProjectedTabOrder order requestedOrder t"
  shows "filter (\<lambda>i. i \<in> set requested) result = requested"
    and "filter (\<lambda>i. i \<notin> set requested) result = filter (\<lambda>i. i \<notin> set requested) order"
    and "distinct result"
proof -
  let ?visible = "filter (\<lambda>i. positionOf requested i \<noteq> None) order"
  have dr: "distinct requested" and rs: "set requested \<subseteq> set order"
    using assms(2) by (auto simp: requested_def)
  have vis: "?visible = filter (\<lambda>i. i \<in> set requested) order"
    by (simp add: dom_positionOf)
  have "filter (\<lambda>i. i \<in> set requested) result = requested
    \<and> filter (\<lambda>i. i \<notin> set requested) result = filter (\<lambda>i. i \<notin> set requested) order
    \<and> distinct result"
  proof (cases "take (length ?visible) requested = ?visible")
    case True
    have "length ?visible = card (set ?visible)" using assms(1) by (metis distinct_card distinct_filter)
    also have "set ?visible = set requested" using rs by (auto simp: dom_positionOf)
    also have "card \<dots> = length requested" using dr by (rule distinct_card)
    finally have "?visible = requested" using True by simp
    moreover have "result = order"
      using True by (simp add: result_def reorderProjectedTabOrder_def requested_def Let_def)
    ultimately show ?thesis using vis assms(1) by simp
  next
    case False
    define cands where "cands = concat (map (\<lambda>i. case positionOf requested i of
        None \<Rightarrow> [] | Some p \<Rightarrow> if i = t then [] else [(i, p)]) ?visible)"
    define A where "A = set (map fst (pickAnchors (zip cands (chainLengths (map snd cands))) (-1)
        (fold max (chainLengths (map snd cands)) 0)))"
    have res: "result = placeBefore A (rev requested) None
        (filter (\<lambda>i. positionOf requested i = None \<or> i \<in> A) order)"
      using False unfolding result_def reorderProjectedTabOrder_def requested_def [symmetric]
        Let_def cands_def A_def by simp
    have V: "\<forall>i\<in>set ?visible. positionOf requested i \<noteq> None" by auto
    from candidates_simps(1) [OF V, of t]
    have K: "map fst cands = filter (\<lambda>i. positionOf requested i \<noteq> None \<and> i \<noteq> t) order"
      unfolding cands_def filter_filter .
    note P = candidates_simps(2) [OF V, of t, folded cands_def]
    have A: "A \<subseteq> {i \<in> set order. positionOf requested i \<noteq> None}"
      and S: "sorted_wrt (\<lambda>a b. the (positionOf requested a) < the (positionOf requested b))
          (filter (\<lambda>i. i \<in> A) order)"
      unfolding A_def by (rule anchors_in_order [OF assms(1) P K]; simp)+
    from A have AR: "A \<subseteq> set requested" and AO: "A \<subseteq> set order" by (auto simp: dom_positionOf)
    let ?start = "filter (\<lambda>i. positionOf requested i = None \<or> i \<in> A) order"
    have "filter (\<lambda>i. i \<in> set requested) ?start = filter (\<lambda>i. i \<in> A) order"
      using AR by (auto simp: dom_positionOf intro!: filter_cong)
    also have "\<dots> = filter (\<lambda>i. i \<in> A) requested"
      by (rule filter_sorted_same [OF dr assms(1) AR AO S])
    finally have kept: "filter (\<lambda>i. i \<in> set requested) ?start = filter (\<lambda>i. i \<in> A) requested" .
    have others: "filter (\<lambda>i. i \<notin> set requested) ?start = filter (\<lambda>i. i \<notin> set requested) order"
      by (auto simp: dom_positionOf intro!: filter_cong)
    have "distinct ?start" using assms(1) by simp
    moreover have "set requested \<inter> set ?start = A"
      using AR AO rs by (auto simp: dom_positionOf)
    ultimately show ?thesis
      using placeBefore_order [of ?start requested "[]" A None] dr AR kept others res by simp
  qed
  then show "filter (\<lambda>i. i \<in> set requested) result = requested"
    and "filter (\<lambda>i. i \<notin> set requested) result = filter (\<lambda>i. i \<notin> set requested) order"
    and "distinct result" by auto
qed

lemma set_reorderProjected [member_simps]:
  assumes "distinct order" "distinct requestedOrder"
  shows "set (reorderProjectedTabOrder order requestedOrder t) = set order"
proof -
  let ?r = "reorderProjectedTabOrder order requestedOrder t"
  let ?q = "filter (\<lambda>i. i \<in> set order) requestedOrder"
  have "set (filter (\<lambda>i. i \<in> set ?q) ?r) = set ?q"
    and "set (filter (\<lambda>i. i \<notin> set ?q) ?r) = set (filter (\<lambda>i. i \<notin> set ?q) order)"
    using reorderProjected [OF assms, of t] by simp_all
  then show ?thesis by (auto simp: set_eq_iff)
qed

section \<open>The moves that turn one order into another\<close>

record tabOrderMove =
  tm_tabId :: string
  tm_index :: nat

definition sameOrder :: "string list \<Rightarrow> string list \<Rightarrow> bool" where
  "sameOrder a b \<longleftrightarrow> a = b"

text \<open>
  The loop over \<open>to.entries()\<close>; \<open>splice(indexOf(tabId), 1)\<close> removes the first occurrence, which
  exists because both orders hold the same ids.
\<close>

fun slotMoves :: "nat \<Rightarrow> string list \<Rightarrow> string list \<Rightarrow> tabOrderMove list" where
  "slotMoves index [] current = []"
| "slotMoves index (tabId # rest) current =
     (if index < length current \<and> current ! index = tabId
      then slotMoves (Suc index) rest current
      else \<lparr>tm_tabId = tabId, tm_index = index\<rparr>
             # slotMoves (Suc index) rest (insertAt index tabId (remove1 tabId current)))"

definition tabOrderMoves :: "string list \<Rightarrow> string list \<Rightarrow> tabOrderMove list" where
  "tabOrderMoves fromOrder to =
     (let others = \<lambda>tabId. filter (\<lambda>i. i \<noteq> tabId) in
      if length (uniq fromOrder) \<noteq> length fromOrder \<or> \<not> sameOrder (sort (uniq fromOrder)) (sort to) then []
      else if sameOrder fromOrder to then []
      else case List.find (\<lambda>(index, tabId). sameOrder (others tabId fromOrder) (others tabId to))
                  (enumerate 0 to) of
          Some (index, tabId) \<Rightarrow> [\<lparr>tm_tabId = tabId, tm_index = index\<rparr>]
        | None \<Rightarrow> slotMoves 0 to fromOrder)"

text \<open>The moves are carried out by \<open>moveTab\<close>, which places a tab with \<open>placeTabId\<close>.\<close>

definition applyTabOrderMoves :: "string list \<Rightarrow> tabOrderMove list \<Rightarrow> string list" where
  "applyTabOrderMoves order moves =
     foldl (\<lambda>o' m. placeTabId (tm_tabId m) (int (tm_index m)) o') order moves"

lemma applyTabOrderMoves_simps [simp]:
  "applyTabOrderMoves order [] = order"
  "applyTabOrderMoves order (m # ms)
     = applyTabOrderMoves (placeTabId (tm_tabId m) (int (tm_index m)) order) ms"
  by (simp_all add: applyTabOrderMoves_def)

lemma placeTabId_at:
  assumes "distinct (as @ t # bs)"
  shows "placeTabId t (int (length as)) (as @ t # bs) = as @ t # bs"
    and "filter (\<lambda>i. i \<noteq> t) order = as @ bs \<Longrightarrow> placeTabId t (int (length as)) order = as @ t # bs"
proof -
  have *: "placeTabId t (int (length as)) order = as @ t # bs"
    if "filter (\<lambda>i. i \<noteq> t) order = as @ bs" for order
    using that by (simp add: placeTabId_def Let_def insertAt_def)
  have "filter (\<lambda>i. i \<noteq> t) as = as" "filter (\<lambda>i. i \<noteq> t) bs = bs"
    using assms by (auto intro!: filter_True)
  with * show "placeTabId t (int (length as)) (as @ t # bs) = as @ t # bs" by simp
  show "filter (\<lambda>i. i \<noteq> t) order = as @ bs \<Longrightarrow> placeTabId t (int (length as)) order = as @ t # bs"
    by (rule *)
qed

lemma apply_slotMoves:
  assumes "distinct (pre @ rest)" "mset cur = mset rest"
  shows "applyTabOrderMoves (pre @ cur) (slotMoves (length pre) rest (pre @ cur)) = pre @ rest"
  using assms
proof (induction rest arbitrary: pre cur)
  case Nil
  then show ?case by simp
next
  case (Cons t rest)
  have dcur: "distinct cur"
    using mset_eq_imp_distinct_iff [OF Cons.prems(2)] Cons.prems(1) by simp
  have tcur: "t \<in> set cur" using mset_eq_setD [OF Cons.prems(2)] by simp
  have tpre: "t \<notin> set pre" using Cons.prems(1) by simp
  let ?cur = "remove1 t cur"
  have step: "applyTabOrderMoves (pre @ t # ?cur)
      (slotMoves (length (pre @ [t])) rest (pre @ t # ?cur)) = pre @ t # rest"
    using Cons.IH [of "pre @ [t]" ?cur] Cons.prems by simp
  show ?case
  proof (cases "cur ! 0 = t")
    case True
    with tcur have "cur = t # ?cur" by (cases cur) auto
    with True tcur step show ?thesis by (cases cur) (auto simp: nth_append)
  next
    case False
    from tcur have ne: "cur \<noteq> []" by auto
    have slot: "insertAt (length pre) t (remove1 t (pre @ cur)) = pre @ t # ?cur"
      using tpre by (simp add: remove1_append insertAt_def)
    have "filter (\<lambda>i. i \<noteq> t) cur = ?cur" using dcur by (simp add: distinct_remove1_removeAll removeAll_filter_not_eq eq_commute)
    moreover have "filter (\<lambda>i. i \<noteq> t) pre = pre" using tpre by (auto intro!: filter_True)
    ultimately have "placeTabId t (int (length pre)) (pre @ cur) = pre @ t # ?cur"
      by (simp add: placeTabId_def Let_def insertAt_def)
    with step False ne show ?thesis by (simp add: nth_append slot)
  qed
qed

lemma apply_tabOrderMoves:
  assumes "distinct fromOrder" "mset fromOrder = mset to"
  shows "applyTabOrderMoves fromOrder (tabOrderMoves fromOrder to) = to"
proof -
  have dto: "distinct to" using assms mset_eq_imp_distinct_iff by blast
  have srt: "sort fromOrder = sort to" using assms(2) by (metis sorted_list_of_multiset_mset)
  show ?thesis
  proof (cases "fromOrder = to")
    case True
    then show ?thesis by (simp add: tabOrderMoves_def sameOrder_def Let_def)
  next
    case False
    show ?thesis
    proof (cases "List.find (\<lambda>(index, tabId). sameOrder (filter (\<lambda>i. i \<noteq> tabId) fromOrder)
        (filter (\<lambda>i. i \<noteq> tabId) to)) (enumerate 0 to)")
      case None
      with False assms srt show ?thesis
        using apply_slotMoves [of "[]" to fromOrder] dto
        by (simp add: tabOrderMoves_def sameOrder_def Let_def)
    next
      case (Some m)
      obtain k t where m: "m = (k, t)" by force
      from find_SomeD [OF Some] m have k: "k < length to" "to ! k = t"
        and same: "filter (\<lambda>i. i \<noteq> t) fromOrder = filter (\<lambda>i. i \<noteq> t) to"
        by (auto simp: sameOrder_def in_set_enumerate_eq)
      have split: "to = take k to @ t # drop (Suc k) to" using k by (metis id_take_nth_drop)
      have "placeTabId t (int k) fromOrder = to"
        using same placeTabId_at(1) [of "take k to" t "drop (Suc k) to"] dto k split
        by (simp add: placeTabId_def Let_def)
      with Some m False assms(1) srt show ?thesis
        by (simp add: tabOrderMoves_def sameOrder_def Let_def)
    qed
  qed
qed

lemma tabOrderMoves_refuses:
  "distinct fromOrder \<Longrightarrow> mset fromOrder \<noteq> mset to \<Longrightarrow> tabOrderMoves fromOrder to = []"
  by (metis mset_sort sameOrder_def tabOrderMoves_def uniq_distinct)

end
