(* ===== verification/Stable_Ids.thy ===== *)
theory Stable_Ids
  imports Layout_Prelude "HOL-Library.Word" "HOL-Library.Sublist"
begin

unbundle bit_operations_syntax

text \<open>
  Identifiers and the strings that carry them: component encoding, execution hosts
  (\<open>execution-host.ts\<close>), SSH terminal ids (\<open>ssh-pty-id.ts\<close>), pane keys
  (\<open>stable-pane-id.ts\<close>), owned editor file ids (\<open>workspace-session-pane-ownership.ts\<close>) and
  name-based ids (\<open>workspace-layout-minted-ids.ts\<close>).

  Here the encoding of strings matters: a character is a byte of the UTF-8 encoding, which is
  what \<open>encodeURIComponent\<close> escapes.  \<open>trim\<close> removes the ASCII white space, and
  \<open>charCodeAt\<close> is the byte, which is the UTF-16 code unit for ASCII text.  The round trips are
  proved for ASCII text.
\<close>

section \<open>Component encoding\<close>

definition asciiText :: "string \<Rightarrow> bool" where
  "asciiText s \<longleftrightarrow> list_all (\<lambda>c. of_char c < (128 :: nat)) s"

definition uriUnreserved :: "char \<Rightarrow> bool" where
  "uriUnreserved c \<longleftrightarrow>
     (let n = of_char c :: nat in
        65 \<le> n \<and> n \<le> 90 \<or> 97 \<le> n \<and> n \<le> 122 \<or> 48 \<le> n \<and> n \<le> 57)
     \<or> c \<in> set ''-_.!~*()'' \<or> c = CHR 0x27"

definition hexUpper :: "nat \<Rightarrow> char" where
  "hexUpper n = (if n < 10 then char_of (48 + n) else char_of (55 + n))"

definition encodeByte :: "char \<Rightarrow> string" where
  "encodeByte c = (if uriUnreserved c then [c]
     else [CHR ''%'', hexUpper (of_char c div 16), hexUpper (of_char c mod 16)])"

definition encodeURIComponent :: "string \<Rightarrow> string" where
  "encodeURIComponent s = concat (map encodeByte s)"

definition hexValue :: "char \<Rightarrow> nat option" where
  "hexValue c =
     (let n = of_char c :: nat in
      if 48 \<le> n \<and> n \<le> 57 then Some (n - 48)
      else if 65 \<le> n \<and> n \<le> 70 then Some (n - 55)
      else if 97 \<le> n \<and> n \<le> 102 then Some (n - 87)
      else None)"

text \<open>One escape \<open>%hh\<close> at the front of a string, and \<open>n\<close> of them.\<close>

fun escapedByte :: "string \<Rightarrow> (nat \<times> string) option" where
  "escapedByte (p # h # l # rest) =
     (if p = CHR ''%'' then
        (case (hexValue h, hexValue l) of
           (Some a, Some b) \<Rightarrow> Some (16 * a + b, rest) | _ \<Rightarrow> None)
      else None)"
| "escapedByte _ = None"

fun escapedBytes :: "nat \<Rightarrow> string \<Rightarrow> (nat list \<times> string) option" where
  "escapedBytes 0 s = Some ([], s)"
| "escapedBytes (Suc n) s =
     (case escapedByte s of None \<Rightarrow> None
      | Some (a, rest) \<Rightarrow> map_option (\<lambda>(as, r). (a # as, r)) (escapedBytes n rest))"

text \<open>Well-formed UTF-8 sequences and the number of bytes the first one announces.\<close>

definition utf8Length :: "nat \<Rightarrow> nat" where
  "utf8Length a = (if a < 128 then 1 else if 194 \<le> a \<and> a \<le> 223 then 2
     else if 224 \<le> a \<and> a \<le> 239 then 3 else if 240 \<le> a \<and> a \<le> 244 then 4 else 0)"

definition utf8Continues :: "nat \<Rightarrow> nat list \<Rightarrow> bool" where
  "utf8Continues a bs \<longleftrightarrow>
     list_all (\<lambda>b. 128 \<le> b \<and> b \<le> 191) bs
     \<and> (bs \<noteq> [] \<longrightarrow>
          (a = 224 \<longrightarrow> 160 \<le> hd bs) \<and> (a = 237 \<longrightarrow> hd bs \<le> 159)
          \<and> (a = 240 \<longrightarrow> 144 \<le> hd bs) \<and> (a = 244 \<longrightarrow> hd bs \<le> 143))"

lemma escapedByte_length: "escapedByte s = Some (a, rest) \<Longrightarrow> length rest < length s"
  by (induction s rule: escapedByte.induct) (auto split: if_splits option.splits)

lemma escapedBytes_length: "escapedBytes n s = Some (as, rest) \<Longrightarrow> length rest \<le> length s"
  by (induction n arbitrary: s as rest)
    (fastforce split: option.splits dest: escapedByte_length)+

text \<open>\<open>decodeURIComponent\<close>; \<open>None\<close> is the \<open>URIError\<close> it throws.\<close>

function decodeURIComponent :: "string \<Rightarrow> string option" where
  "decodeURIComponent [] = Some []"
| "decodeURIComponent (c # cs) =
     (if c \<noteq> CHR ''%'' then map_option ((#) c) (decodeURIComponent cs)
      else case escapedByte (c # cs) of
          None \<Rightarrow> None
        | Some (a, rest) \<Rightarrow>
            if utf8Length a = 0 then None
            else (case escapedBytes (utf8Length a - 1) rest of
                None \<Rightarrow> None
              | Some (bs, rest') \<Rightarrow>
                  if utf8Continues a bs
                  then map_option (\<lambda>t. map char_of (a # bs) @ t) (decodeURIComponent rest')
                  else None))"
  by pat_completeness auto
termination
  by (relation "measure length") (auto dest!: escapedByte_length escapedBytes_length)

lemma hexUpper_value [simp]: "n < 16 \<Longrightarrow> hexValue (hexUpper n) = Some n"
  by (auto simp: hexValue_def hexUpper_def Let_def)

lemma not_reserved_percent: "\<not> uriUnreserved (CHR ''%'')"
  by (simp add: uriUnreserved_def)

lemma decode_encodeByte:
  assumes "of_char c < (128 :: nat)"
  shows "decodeURIComponent (encodeByte c @ s) = map_option ((#) c) (decodeURIComponent s)"
proof (cases "uriUnreserved c")
  case True
  then have "c \<noteq> CHR ''%''" using not_reserved_percent by auto
  with True show ?thesis by (simp add: encodeByte_def)
next
  case False
  have "(of_char c :: nat) div 16 < 16" using assms by simp
  moreover have "16 * ((of_char c :: nat) div 16) + of_char c mod 16 = of_char c" by simp
  ultimately show ?thesis
    using False assms
    by (simp add: encodeByte_def utf8Length_def utf8Continues_def append_Cons [abs_def])
qed

lemma decode_encode:
  "asciiText s \<Longrightarrow> decodeURIComponent (encodeURIComponent s) = Some s"
  by (induction s) (simp_all add: asciiText_def encodeURIComponent_def decode_encodeByte)

text \<open>The characters an encoded component consists of.\<close>

lemma nibble: "(of_char c :: nat) div 16 < 16" "(of_char c :: nat) mod 16 < 16"
  using nat_of_char_less_256 [of c] by linarith+

lemma hexUpper_unreserved: "n < 16 \<Longrightarrow> uriUnreserved (hexUpper n)"
  by (auto simp: uriUnreserved_def hexUpper_def Let_def)

lemma set_encodeURIComponent:
  "c \<in> set (encodeURIComponent s) \<Longrightarrow> uriUnreserved c \<or> c = CHR ''%''"
proof -
  have "uriUnreserved c \<or> c = CHR ''%''" if "c \<in> set (encodeByte b)" for b
    using that hexUpper_unreserved [OF nibble(1)] hexUpper_unreserved [OF nibble(2)]
    by (auto simp: encodeByte_def split: if_splits)
  then show "c \<in> set (encodeURIComponent s) \<Longrightarrow> uriUnreserved c \<or> c = CHR ''%''"
    by (auto simp: encodeURIComponent_def)
qed

lemma encodeURIComponent_free:
  assumes "\<not> uriUnreserved d" "d \<noteq> CHR ''%''"
  shows "d \<notin> set (encodeURIComponent s)"
  using set_encodeURIComponent [of d s] assms by blast

lemma encoded_no_delimiter [simp]:
  "CHR '':'' \<notin> set (encodeURIComponent s)" "CHR ''|'' \<notin> set (encodeURIComponent s)"
  "CHR ''@'' \<notin> set (encodeURIComponent s)" "CHR 0x20 \<notin> set (encodeURIComponent s)"
  by (rule encodeURIComponent_free; simp add: uriUnreserved_def)+

lemma encodeURIComponent_Nil [simp]: "encodeURIComponent s = [] \<longleftrightarrow> s = []"
  by (cases s) (auto simp: encodeURIComponent_def encodeByte_def)

lemma encodeByte_inj:
  assumes "encodeByte a @ s = encodeByte b @ t"
  shows "a = b \<and> s = t"
proof -
  have whole: "16 * (of_char c div 16) + of_char c mod 16 = (of_char c :: nat)" for c :: char by simp
  have hex: "m = n" if "hexUpper m = hexUpper n" "m < 16" "n < 16" for m n
    using that hexUpper_value [of m] hexUpper_value [of n] by (metis option.inject)
  show ?thesis
  proof (cases "uriUnreserved a \<or> uriUnreserved b")
    case True
    with assms not_reserved_percent show ?thesis by (auto simp: encodeByte_def split: if_splits)
  next
    case False
    with assms have "hexUpper (of_char a div 16) = hexUpper (of_char b div 16)"
      "hexUpper (of_char a mod 16) = hexUpper (of_char b mod 16)" "s = t"
      by (auto simp: encodeByte_def)
    with nibble have "(of_char a :: nat) div 16 = of_char b div 16"
      "(of_char a :: nat) mod 16 = of_char b mod 16" by (auto intro: hex)
    then have "(of_char a :: nat) = of_char b" by (metis whole)
    with \<open>s = t\<close> show ?thesis by (simp add: of_char_eq_iff)
  qed
qed

lemma encodeByte_not_Nil [simp]: "encodeByte c \<noteq> []"
  by (simp add: encodeByte_def)

lemma encodeURIComponent_inj: "encodeURIComponent s = encodeURIComponent t \<Longrightarrow> s = t"
proof (induction s arbitrary: t)
  case Nil
  then show ?case by (metis encodeURIComponent_Nil)
next
  case (Cons a s)
  then obtain b t' where t: "t = b # t'" by (cases t) (auto simp: encodeURIComponent_def)
  with Cons.prems have "encodeByte a @ encodeURIComponent s = encodeByte b @ encodeURIComponent t'"
    by (simp add: encodeURIComponent_def)
  with encodeByte_inj Cons.IH t show ?case by blast
qed

section \<open>Execution hosts\<close>

definition asciiSpace :: "char \<Rightarrow> bool" where
  "asciiSpace c \<longleftrightarrow> (let n = of_char c :: nat in n = 32 \<or> 9 \<le> n \<and> n \<le> 13)"

definition trim :: "string \<Rightarrow> string" where
  "trim s = rev (dropWhile asciiSpace (rev (dropWhile asciiSpace s)))"

text \<open>\<open>value?.trim() || null\<close>.\<close>

definition normalizeHostPart :: "string option \<Rightarrow> string option" where
  "normalizeHostPart value =
     (case value of None \<Rightarrow> None
      | Some s \<Rightarrow> (if trim s = [] then None else Some (trim s)))"

datatype executionHost =
    LocalHost
  | SshHost string string \<comment> \<open>id, target id\<close>
  | RuntimeHost string string \<comment> \<open>id, environment id\<close>

definition toSshExecutionHostId :: "string \<Rightarrow> string" where
  "toSshExecutionHostId targetId = ''ssh:'' @ encodeURIComponent targetId"

definition toRuntimeExecutionHostId :: "string \<Rightarrow> string" where
  "toRuntimeExecutionHostId environmentId = ''runtime:'' @ encodeURIComponent environmentId"

definition decodeHostPart :: "string \<Rightarrow> string option" where
  "decodeHostPart encoded =
     (if encoded = [] \<or> CHR ''|'' \<in> set encoded then None
      else case decodeURIComponent encoded of
          None \<Rightarrow> None
        | Some t \<Rightarrow> (if t = [] then None else Some t))"

definition parseExecutionHostId :: "string option \<Rightarrow> executionHost option" where
  "parseExecutionHostId value =
     (case normalizeHostPart value of
        None \<Rightarrow> None
      | Some s \<Rightarrow>
          if s = ''local'' then Some LocalHost
          else if prefix ''ssh:'' s then map_option (SshHost s) (decodeHostPart (drop 4 s))
          else if prefix ''runtime:'' s then map_option (RuntimeHost s) (decodeHostPart (drop 8 s))
          else None)"

lemma trim_id:
  assumes "s \<noteq> []" "\<not> asciiSpace (hd s)" "\<not> asciiSpace (last s)"
  shows "trim s = s"
proof -
  have "dropWhile asciiSpace s = s" using assms by (cases s) auto
  moreover have "dropWhile asciiSpace (rev s) = rev s"
    using assms by (cases s rule: rev_cases) auto
  ultimately show ?thesis by (simp add: trim_def)
qed

lemma unreserved_above_space:
  assumes "uriUnreserved c \<or> c = CHR ''%''"
  shows "33 \<le> (of_char c :: nat)"
proof -
  have "33 \<le> (of_char d :: nat)" if "d \<in> set ''-_.!~*()''" for d using that by auto
  moreover have "33 \<le> (of_char (CHR 0x27) :: nat)" "33 \<le> (of_char (CHR ''%'') :: nat)" by simp_all
  ultimately show ?thesis using assms unfolding uriUnreserved_def Let_def by (auto simp del: list.set)
qed

lemma encoded_not_space: "c \<in> set (encodeURIComponent s) \<Longrightarrow> \<not> asciiSpace c"
  using unreserved_above_space [OF set_encodeURIComponent]
  by (fastforce simp: asciiSpace_def Let_def)

lemma decodeHostPart_encode:
  "asciiText t \<Longrightarrow> t \<noteq> [] \<Longrightarrow> decodeHostPart (encodeURIComponent t) = Some t"
  by (simp add: decodeHostPart_def decode_encode)

lemma normalize_prefixed:
  assumes "t \<noteq> []" "p \<noteq> []" "\<not> asciiSpace (hd p)"
  shows "normalizeHostPart (Some (p @ encodeURIComponent t)) = Some (p @ encodeURIComponent t)"
proof -
  have "trim (p @ encodeURIComponent t) = p @ encodeURIComponent t"
    using assms encoded_not_space [of _ t] by (intro trim_id) auto
  with assms show ?thesis by (simp add: normalizeHostPart_def)
qed

lemma parse_toSshExecutionHostId:
  assumes "asciiText t" "t \<noteq> []"
  shows "parseExecutionHostId (Some (toSshExecutionHostId t)) = Some (SshHost (toSshExecutionHostId t) t)"
  using decodeHostPart_encode [OF assms] normalize_prefixed [of t "''ssh:''"] assms(2)
  by (simp add: parseExecutionHostId_def toSshExecutionHostId_def asciiSpace_def)

lemma parse_toRuntimeExecutionHostId:
  assumes "asciiText t" "t \<noteq> []"
  shows "parseExecutionHostId (Some (toRuntimeExecutionHostId t))
       = Some (RuntimeHost (toRuntimeExecutionHostId t) t)"
  using decodeHostPart_encode [OF assms] normalize_prefixed [of t "''runtime:''"] assms(2)
  by (simp add: parseExecutionHostId_def toRuntimeExecutionHostId_def asciiSpace_def)

section \<open>Terminal ids of SSH hosts\<close>

text \<open>Splits at the first occurrence of a separator, as \<open>indexOf\<close> and two \<open>slice\<close>s do.\<close>

fun breakOn :: "string \<Rightarrow> string \<Rightarrow> (string \<times> string) option" where
  "breakOn sep [] = (if sep = [] then Some ([], []) else None)"
| "breakOn sep (c # cs) =
     (if prefix sep (c # cs) then Some ([], drop (length sep) (c # cs))
      else map_option (\<lambda>(a, b). (c # a, b)) (breakOn sep cs))"

record sshPtyId =
  sp_connectionId :: string
  sp_relayPtyId :: string

definition normalizeConnectionId :: "string \<Rightarrow> string" where
  "normalizeConnectionId connectionId =
     (case parseExecutionHostId (Some connectionId) of
        Some (SshHost _ targetId) \<Rightarrow> targetId
      | _ \<Rightarrow> connectionId)"

definition parseAppSshPtyId :: "string \<Rightarrow> sshPtyId option" where
  "parseAppSshPtyId ptyId =
     (if \<not> prefix ''ssh:'' ptyId then None
      else case breakOn ''@@'' (drop 4 ptyId) of
          None \<Rightarrow> None
        | Some (encoded, relay) \<Rightarrow>
            if encoded = [] \<or> relay = [] then None
            else map_option (\<lambda>c. \<lparr>sp_connectionId = c, sp_relayPtyId = relay\<rparr>)
                   (decodeURIComponent encoded))"

datatype sshPtyError = BelongsToOtherConnection string string

definition toAppSshPtyId :: "string \<Rightarrow> string \<Rightarrow> sshPtyError + string" where
  "toAppSshPtyId connectionId relayPtyId =
     (let normalized = normalizeConnectionId connectionId in
      case parseAppSshPtyId relayPtyId of
        Some parsed \<Rightarrow>
          if sp_connectionId parsed \<noteq> normalized
          then Inl (BelongsToOtherConnection relayPtyId (sp_connectionId parsed))
          else Inr relayPtyId
      | None \<Rightarrow> Inr (''ssh:'' @ encodeURIComponent normalized @ ''@@'' @ relayPtyId))"

definition toRelaySshPtyId :: "string \<Rightarrow> string \<Rightarrow> sshPtyError + string" where
  "toRelaySshPtyId connectionId ptyId =
     (case parseAppSshPtyId ptyId of
        None \<Rightarrow> Inr ptyId
      | Some parsed \<Rightarrow>
          if sp_connectionId parsed \<noteq> normalizeConnectionId connectionId
          then Inl (BelongsToOtherConnection ptyId (sp_connectionId parsed))
          else Inr (sp_relayPtyId parsed))"

definition toComparableRelaySshPtyId :: "string \<Rightarrow> string \<Rightarrow> string" where
  "toComparableRelaySshPtyId connectionId ptyId =
     (case toRelaySshPtyId connectionId ptyId of Inr relay \<Rightarrow> relay | Inl _ \<Rightarrow> ptyId)"

lemma breakOn_first:
  assumes "CHR ''@'' \<notin> set e"
  shows "breakOn ''@@'' (e @ ''@@'' @ r) = Some (e, r)"
  using assms by (induction e) auto

lemma parse_app_pty:
  assumes "asciiText c" "c \<noteq> []" "r \<noteq> []"
  shows "parseAppSshPtyId (''ssh:'' @ encodeURIComponent c @ ''@@'' @ r)
       = Some \<lparr>sp_connectionId = c, sp_relayPtyId = r\<rparr>"
  using breakOn_first [of "encodeURIComponent c" r] assms
  by (simp add: parseAppSshPtyId_def decode_encode)

lemma toRelay_toApp:
  assumes "asciiText (normalizeConnectionId c)" "normalizeConnectionId c \<noteq> []" "r \<noteq> []"
    and "toAppSshPtyId c r = Inr p"
  shows "toRelaySshPtyId c p = Inr (case parseAppSshPtyId r of
           None \<Rightarrow> r | Some parsed \<Rightarrow> sp_relayPtyId parsed)"
proof (cases "parseAppSshPtyId r")
  case None
  with assms(4) have "p = ''ssh:'' @ encodeURIComponent (normalizeConnectionId c) @ ''@@'' @ r"
    by (simp add: toAppSshPtyId_def)
  with parse_app_pty [OF assms(1-3)] None show ?thesis by (simp add: toRelaySshPtyId_def)
next
  case (Some parsed)
  with assms(4) show ?thesis
    by (auto simp: toAppSshPtyId_def toRelaySshPtyId_def split: if_splits)
qed

end
