(* ===== verification/Pane_Keys.thy ===== *)
theory Pane_Keys
  imports Stable_Ids
begin

text \<open>
  Pane keys \<open>tabId:leafId\<close> (\<open>stable-pane-id.ts\<close>), the ids derived from a name
  (\<open>workspace-layout-minted-ids.ts\<close>), the owned ids of editor files
  (\<open>workspace-session-pane-ownership.ts\<close>) and the ordinal of a new terminal
  (\<open>terminal-tab-ordinal.ts\<close>).
\<close>

section \<open>UUIDs\<close>

definition hexLower :: "char \<Rightarrow> bool" where
  "hexLower c \<longleftrightarrow> c \<in> set ''0123456789abcdef''"

text \<open>\<open>UUID_RE\<close>, one predicate per character.\<close>

definition uuidShape :: "(char \<Rightarrow> bool) list" where
  "uuidShape =
     replicate 8 hexLower @ [(=) (CHR ''-'')] @ replicate 4 hexLower @ [(=) (CHR ''-'')]
     @ (\<lambda>c. c \<in> set ''12345'') # replicate 3 hexLower @ [(=) (CHR ''-'')]
     @ (\<lambda>c. c \<in> set ''89ab'') # replicate 3 hexLower @ [(=) (CHR ''-'')] @ replicate 12 hexLower"

definition isStablePaneId :: "string \<Rightarrow> bool" where
  "isStablePaneId value \<longleftrightarrow> list_all2 (\<lambda>p c. p c) uuidShape value"

abbreviation isTerminalLeafId :: "string \<Rightarrow> bool" where
  "isTerminalLeafId \<equiv> isStablePaneId"

lemma stable_no_colon:
  assumes "isStablePaneId s"
  shows "CHR '':'' \<notin> set s"
proof
  assume "CHR '':'' \<in> set s"
  then obtain k where k: "k < length s" "s ! k = CHR '':''" by (auto simp: in_set_conv_nth)
  from assms have "length s = length uuidShape" "\<forall>i<length s. (uuidShape ! i) (s ! i)"
    unfolding isStablePaneId_def list_all2_conv_all_nth by auto
  with k have "(uuidShape ! k) (CHR '':'')" "uuidShape ! k \<in> set uuidShape" by auto
  then show False by (auto simp: uuidShape_def hexLower_def)
qed

lemma stable_not_Nil: "isStablePaneId s \<Longrightarrow> s \<noteq> []"
  by (auto simp: isStablePaneId_def uuidShape_def)

section \<open>Pane keys\<close>

datatype paneKeyError = BadTabId | LeafIsNotUuid

definition makePaneKey :: "string \<Rightarrow> string \<Rightarrow> paneKeyError + string" where
  "makePaneKey tabId stableLeafId =
     (if tabId = [] \<or> CHR '':'' \<in> set tabId then Inl BadTabId
      else if \<not> isTerminalLeafId stableLeafId then Inl LeafIsNotUuid
      else Inr (tabId @ '':'' @ stableLeafId))"

text \<open>
  \<open>indexOf(':')\<close> and \<open>lastIndexOf(':')\<close> agree when the text after the first colon has none.
\<close>

definition splitAtOnlyColon :: "string \<Rightarrow> (string \<times> string) option" where
  "splitAtOnlyColon s =
     (let before = takeWhile (\<lambda>c. c \<noteq> CHR '':'') s; after = drop (Suc (length before)) s
      in if CHR '':'' \<notin> set s \<or> before = [] \<or> CHR '':'' \<in> set after \<or> after = [] then None
         else Some (before, after))"

definition parsePaneKey :: "string \<Rightarrow> (string \<times> string) option" where
  "parsePaneKey paneKey =
     (case splitAtOnlyColon paneKey of
        Some (tabId, leafId) \<Rightarrow> (if isTerminalLeafId leafId then Some (tabId, leafId) else None)
      | None \<Rightarrow> None)"

text \<open>The argument is \<open>None\<close> when it is not a string.\<close>

definition parseLegacyNumericPaneKey :: "string option \<Rightarrow> (string \<times> string \<times> string) option" where
  "parseLegacyNumericPaneKey paneKey =
     (case paneKey of None \<Rightarrow> None
      | Some s \<Rightarrow>
          if length s > 256 then None
          else case splitAtOnlyColon (trim s) of
              None \<Rightarrow> None
            | Some (tabId, numericPaneId) \<Rightarrow>
                (if list_all (\<lambda>c. c \<in> set ''0123456789'') numericPaneId
                 then Some (tabId, numericPaneId, trim s) else None))"

lemma splitAtOnlyColon_Some:
  "splitAtOnlyColon s = Some (a, b) \<longleftrightarrow>
     s = a @ '':'' @ b \<and> a \<noteq> [] \<and> b \<noteq> [] \<and> CHR '':'' \<notin> set a \<and> CHR '':'' \<notin> set b"
  (is "?L \<longleftrightarrow> ?R")
proof
  let ?P = "\<lambda>c. c \<noteq> CHR '':''"
  assume L: ?L
  then have mem: "CHR '':'' \<in> set s" and ab: "a = takeWhile ?P s" "b = drop (Suc (length a)) s"
    and ne: "a \<noteq> []" "b \<noteq> []" and cb: "CHR '':'' \<notin> set b"
    by (auto simp: splitAtOnlyColon_def Let_def split: if_splits)
  have "s = a @ dropWhile ?P s" unfolding ab(1) by simp
  moreover have "dropWhile ?P s \<noteq> []" using mem by (auto simp: dropWhile_eq_Nil_conv)
  then have "dropWhile ?P s = CHR '':'' # tl (dropWhile ?P s)"
    using hd_dropWhile [of ?P s] by (cases "dropWhile ?P s") auto
  ultimately have s: "s = a @ CHR '':'' # tl (dropWhile ?P s)" by simp
  then have "b = tl (dropWhile ?P s)" using ab(2) by (metis append_Cons append_Nil append_assoc append_eq_conv_conj length_append_singleton)
  with s ne cb show ?R unfolding ab(1) by (auto dest: set_takeWhileD)
next
  assume R: ?R
  have "takeWhile (\<lambda>c. c \<noteq> CHR '':'') (a @ CHR '':'' # b) = a" if "CHR '':'' \<notin> set a"
    using that by (induction a) auto
  with R have "takeWhile (\<lambda>c. c \<noteq> CHR '':'') s = a" by simp
  with R show ?L by (simp add: splitAtOnlyColon_def Let_def)
qed

text \<open>Parsing inverts making, and accepts nothing else.\<close>

lemma parse_makePaneKey:
  "parsePaneKey k = Some (t, l) \<longleftrightarrow> makePaneKey t l = Inr k"
proof -
  have "parsePaneKey k = Some (t, l) \<longleftrightarrow> splitAtOnlyColon k = Some (t, l) \<and> isTerminalLeafId l"
    by (auto simp: parsePaneKey_def split: option.splits if_splits)
  then show ?thesis
    using stable_no_colon [of l] stable_not_Nil [of l]
    by (auto simp: makePaneKey_def splitAtOnlyColon_Some)
qed

section \<open>Ids derived from a name\<close>

text \<open>FNV-1a over the name, four lanes with different offsets; \<open>Math.imul\<close> is the 32-bit product.\<close>

definition fnvStep :: "32 word \<Rightarrow> char \<Rightarrow> 32 word" where
  "fnvStep hash c = (hash XOR of_nat (of_char c)) * 0x01000193"

definition laneOffsets :: "32 word list" where
  "laneOffsets = [0x811c9dc5, 0x01000193, 0x9e3779b9, 0x85ebca6b]"

definition nameBits :: "string \<Rightarrow> 32 word list" where
  "nameBits name =
     map (\<lambda>(lane, offset). foldl fnvStep (offset XOR of_nat lane) name) (enumerate 0 laneOffsets)"

definition hexDigit :: "32 word \<Rightarrow> char" where
  "hexDigit w = ''0123456789abcdef'' ! unat (w AND 15)"

text \<open>\<open>toString(16).padStart(8, '0')\<close>: the eight nibbles, the highest first.\<close>

definition wordHex :: "32 word \<Rightarrow> string" where
  "wordHex w = map (\<lambda>k. hexDigit (drop_bit k w)) [28, 24, 20, 16, 12, 8, 4, 0]"

definition slice :: "nat \<Rightarrow> nat \<Rightarrow> 'a list \<Rightarrow> 'a list" where
  "slice a b xs = take (b - a) (drop a xs)"

text \<open>\<open>parseInt(hex[16], 16)\<close> is the highest nibble of the third word.\<close>

definition nameBasedUuid :: "string \<Rightarrow> string" where
  "nameBasedUuid name =
     (let hex = concat (map wordHex (nameBits name));
          variant = hexDigit ((drop_bit 28 (nameBits name ! 2) AND 0x3) OR 0x8)
      in slice 0 8 hex @ ''-'' @ slice 8 12 hex @ ''-5'' @ slice 13 16 hex @ ''-''
         @ [variant] @ slice 17 20 hex @ ''-'' @ slice 20 32 hex)"

definition rootGroupSeed :: "string \<Rightarrow> string" where
  "rootGroupSeed workspaceKey = ''group:'' @ workspaceKey"

definition workspaceRootGroupId :: "string \<Rightarrow> string" where
  "workspaceRootGroupId workspaceKey = nameBasedUuid (rootGroupSeed workspaceKey)"

lemma hexDigit_lower: "hexLower (hexDigit w)"
proof -
  have "unat (w AND 15) < length ''0123456789abcdef''"
  proof -
    have "w AND 15 \<le> 15" by (rule word_and_le1)
    then have "unat (w AND 15) \<le> unat (15 :: 32 word)" by (simp add: word_le_nat_alt)
    then show ?thesis by simp
  qed
  then show ?thesis unfolding hexLower_def hexDigit_def by (rule nth_mem)
qed

lemma variant_digit: "hexDigit ((n AND 3) OR 8) \<in> set ''89ab''" for n :: "32 word"
proof -
  have "n AND 3 \<in> {0, 1, 2, 3}"
  proof -
    have "n AND 3 \<le> 3" by (rule word_and_le1)
    then have "unat (n AND 3) \<le> 3" by (simp add: word_le_nat_alt)
    then have "unat (n AND 3) = unat (0 :: 32 word) \<or> unat (n AND 3) = unat (1 :: 32 word)
        \<or> unat (n AND 3) = unat (2 :: 32 word) \<or> unat (n AND 3) = unat (3 :: 32 word)" by auto
    then show ?thesis unfolding word_unat_eq_iff [symmetric] by simp
  qed
  then show ?thesis by (auto simp: hexDigit_def)
qed

lemma isStable_nameBasedUuid: "isStablePaneId (nameBasedUuid name)"
proof -
  have len: "length (nameBits name) = 4" by (simp add: nameBits_def laneOffsets_def)
  then obtain a b c d where bits: "nameBits name = [a, b, c, d]"
    by (auto simp: length_Suc_conv numeral_eq_Suc)
  show ?thesis
    using hexDigit_lower variant_digit [of "drop_bit 28 c"]
    by (simp add: isStablePaneId_def uuidShape_def nameBasedUuid_def Let_def bits wordHex_def
        slice_def numeral_eq_Suc hexLower_def)
qed

section \<open>Owned ids of editor files\<close>

definition runtimeKeyOf :: "string option \<Rightarrow> string" where
  "runtimeKeyOf runtimeEnvironmentId =
     (case runtimeEnvironmentId of None \<Rightarrow> ''local''
      | Some e \<Rightarrow> (if trim e = [] then ''local'' else trim e))"

definition ownedEditorFileId :: "string \<Rightarrow> string \<Rightarrow> string option \<Rightarrow> string" where
  "ownedEditorFileId filePath worktreeId runtimeEnvironmentId =
     ''editor:'' @ encodeURIComponent worktreeId @ '':''
     @ encodeURIComponent (runtimeKeyOf runtimeEnvironmentId) @ '':'' @ encodeURIComponent filePath"

lemma append_delim_inj:
  assumes "a @ d # x = b @ d # y" "d \<notin> set a" "d \<notin> set b"
  shows "a = b \<and> x = y"
  using assms
proof (induction a arbitrary: b)
  case Nil
  then show ?case by (cases b) auto
next
  case (Cons e a)
  then show ?case by (cases b) auto
qed

lemma ownedEditorFileId_inj:
  assumes "ownedEditorFileId p w r = ownedEditorFileId p' w' r'"
  shows "p = p'" and "w = w'" and "runtimeKeyOf r = runtimeKeyOf r'"
proof -
  let ?e = encodeURIComponent
  have "?e w @ CHR '':'' # (?e (runtimeKeyOf r) @ CHR '':'' # ?e p)
      = ?e w' @ CHR '':'' # (?e (runtimeKeyOf r') @ CHR '':'' # ?e p')"
    using assms by (simp add: ownedEditorFileId_def)
  from append_delim_inj [OF this]
  have w: "?e w = ?e w'" and rest: "?e (runtimeKeyOf r) @ CHR '':'' # ?e p
      = ?e (runtimeKeyOf r') @ CHR '':'' # ?e p'" by simp_all
  from append_delim_inj [OF rest]
  have "?e (runtimeKeyOf r) = ?e (runtimeKeyOf r')" "?e p = ?e p'" by simp_all
  with w show "p = p'" and "w = w'" and "runtimeKeyOf r = runtimeKeyOf r'"
    by (auto dest: encodeURIComponent_inj)
qed

section \<open>The ordinal of a new terminal\<close>

definition digitValue :: "char \<Rightarrow> nat" where
  "digitValue c = of_char c - 48"

definition terminalOrdinal :: "string \<Rightarrow> nat option" where
  "terminalOrdinal title =
     (let digits = drop 9 title
      in if prefix ''Terminal '' title \<and> digits \<noteq> []
            \<and> list_all (\<lambda>c. c \<in> set ''0123456789'') digits
         then Some (foldl (\<lambda>n c. 10 * n + digitValue c) 0 digits) else None)"

text \<open>
  The \<open>while\<close> loop: the fuel is the number of used ordinals, one of the next that many
  plus one is free.
\<close>

fun freeOrdinal :: "nat set \<Rightarrow> nat \<Rightarrow> nat \<Rightarrow> nat option" where
  "freeOrdinal used 0 n = (if n \<in> used then None else Some n)"
| "freeOrdinal used (Suc fuel) n = (if n \<in> used then freeOrdinal used fuel (Suc n) else Some n)"

definition getNextTerminalOrdinal :: "string list \<Rightarrow> nat option" where
  "getNextTerminalOrdinal titles =
     (let used = concat (map (\<lambda>t. case terminalOrdinal t of None \<Rightarrow> [] | Some n \<Rightarrow> [n]) titles)
      in freeOrdinal (set used) (length used) 1)"

lemma freeOrdinal_least:
  "freeOrdinal used fuel n = Some k \<Longrightarrow> n \<le> k \<and> k \<notin> used \<and> {n..<k} \<subseteq> used"
proof (induction fuel arbitrary: n)
  case (Suc fuel)
  then show ?case
    by (fastforce split: if_splits simp: Suc_le_eq nat_less_le atLeastLessThan_iff subset_iff
        dest: Suc.IH le_antisym)
qed (auto split: if_splits)

lemma freeOrdinal_returns:
  "finite used \<Longrightarrow> card {k \<in> used. n \<le> k} \<le> fuel \<Longrightarrow> freeOrdinal used fuel n \<noteq> None"
proof (induction fuel arbitrary: n)
  case 0
  then have "{k \<in> used. n \<le> k} = {}" by simp
  then show ?case by auto
next
  case (Suc fuel)
  show ?case
  proof (cases "n \<in> used")
    case True
    have "{k \<in> used. n \<le> k} = insert n {k \<in> used. Suc n \<le> k}" using True by auto
    moreover have "n \<notin> {k \<in> used. Suc n \<le> k}" by simp
    ultimately have "card {k \<in> used. Suc n \<le> k} \<le> fuel"
      using Suc.prems by simp
    with Suc True show ?thesis by simp
  qed simp
qed

lemma getNextTerminalOrdinal_least:
  "\<exists>k. getNextTerminalOrdinal titles = Some k \<and> 1 \<le> k
     \<and> (\<forall>t\<in>set titles. terminalOrdinal t \<noteq> Some k)
     \<and> (\<forall>j. 1 \<le> j \<and> j < k \<longrightarrow> (\<exists>t\<in>set titles. terminalOrdinal t = Some j))"
proof -
  let ?used = "concat (map (\<lambda>t. case terminalOrdinal t of None \<Rightarrow> [] | Some n \<Rightarrow> [n]) titles)"
  have used: "n \<in> set ?used \<longleftrightarrow> (\<exists>t\<in>set titles. terminalOrdinal t = Some n)" for n
    by (force split: option.splits)
  have "card {k \<in> set ?used. 1 \<le> k} \<le> card (set ?used)"
    by (rule card_mono [OF finite_set]) blast
  also have "\<dots> \<le> length ?used" by (rule card_length)
  finally have "freeOrdinal (set ?used) (length ?used) 1 \<noteq> None"
    by (rule freeOrdinal_returns [OF finite_set])
  then obtain k where k: "freeOrdinal (set ?used) (length ?used) 1 = Some k" by blast
  from freeOrdinal_least [OF k]
  have "1 \<le> k" "k \<notin> set ?used" "{1..<k} \<subseteq> set ?used" by auto
  moreover have "getNextTerminalOrdinal titles = Some k"
    using k by (simp add: getNextTerminalOrdinal_def Let_def)
  ultimately show ?thesis using used by (intro exI [of _ k]) (auto simp: subset_iff)
qed

text \<open>The decimal digits of a number, as string interpolation writes them.\<close>

fun natText :: "nat \<Rightarrow> string" where
  "natText n = (if n < 10 then [char_of (48 + n)] else natText (n div 10) @ [char_of (48 + n mod 10)])"

declare natText.simps [simp del]

definition terminalTitle :: "nat \<Rightarrow> string" where
  "terminalTitle ordinal = ''Terminal '' @ natText ordinal"

lemma digit_char: "n < 10 \<Longrightarrow> char_of (48 + n) \<in> set ''0123456789'' \<and> digitValue (char_of (48 + n)) = n"
proof -
  assume "n < 10"
  then have "n \<in> set [0, 1, 2, 3, 4, 5, 6, 7, 8, 9]" by auto
  moreover have "list_all (\<lambda>n :: nat. char_of (48 + n) \<in> set ''0123456789''
      \<and> digitValue (char_of (48 + n)) = n) [0, 1, 2, 3, 4, 5, 6, 7, 8, 9]" by code_simp
  ultimately show ?thesis by (simp only: list_all_iff)
qed

lemma natText_digits:
  "natText n \<noteq> [] \<and> list_all (\<lambda>c. c \<in> set ''0123456789'') (natText n)
     \<and> foldl (\<lambda>n c. 10 * n + digitValue c) 0 (natText n) = n"
proof (induction n rule: natText.induct)
  case (1 n)
  show ?case
  proof (cases "n < 10")
    case True
    then have "natText n = [char_of (48 + n)]" by (simp add: natText.simps [of n])
    with digit_char [OF True] show ?thesis by simp
  next
    case False
    have "n mod 10 < 10" by simp
    note d = digit_char [OF this]
    have t: "natText n = natText (n div 10) @ [char_of (48 + n mod 10)]"
      using False by (simp add: natText.simps [of n])
    from 1 [OF False] d show ?thesis unfolding t by simp
  qed
qed

lemma terminalOrdinal_terminalTitle [simp]: "terminalOrdinal (terminalTitle n) = Some n"
  using natText_digits [of n] by (simp add: terminalOrdinal_def terminalTitle_def Let_def)

end
