(* ===== verification/Layout_Model.thy ===== *)
theory Layout_Model
  imports Pane_Tree Group_Tree Tab_Order Pane_Keys
begin

text \<open>
  The layout of one execution host: \<open>workspace-layout-model.ts\<close>, with the dictionary helpers of
  \<open>stored-record-fields.ts\<close> and the well-formedness invariant every command keeps.

  Field names are the source's with a prefix per record.  A tab is the common fields plus a body:
  a terminal's creation parameters and pane tree, or the content kind.  Values the layout only
  carries (what an editor view shows of its file, the payload of a sleeping record, a client-hosted
  browser page) are text.  An object spread \<open>{...a, ...b}\<close> keeps the fields of \<open>a\<close> that \<open>b\<close> does not have: a
  property that is present with the value \<open>undefined\<close> is read as absent.
\<close>

section \<open>Data\<close>

datatype content_kind =
  Editor | Diff | ConflictReview | CheckDetails | AgentSession | Browser | Simulator

datatype view_mode = TerminalMode | ChatMode

datatype close_reason = UserClose | CleanupClose | PtyExitClose

datatype sleep_origin = WorktreeSleep | QuitCapture | LiveCapture

record aiVaultTitle =
  av_agent :: string
  av_sessionId :: string
  av_title :: string

record terminalCreation =
  tc_defaultTitle :: "string option"
  tc_shellOverride :: "string option"
  tc_forceHostRuntime :: "bool option"
  tc_startupCwd :: "string option"
  tc_launchAgent :: "string option"

record terminalPanes =
  tp_root :: "split_node option"
  tp_chatLeafId :: "string option"

datatype tab_body = TerminalBody terminalCreation terminalPanes | ContentBody content_kind

record layoutTab =
  tb_id :: string
  tb_entityId :: string
  tb_createdAt :: int
  tb_customTitle :: "string option"
  tb_generatedTitle :: "string optnull"
  tb_aiVaultTitle :: "aiVaultTitle optnull"
  tb_quickCommandLabel :: "string optnull"
  tb_color :: "string option"
  tb_isPinned :: "bool option"
  tb_viewMode :: "view_mode option"
  tb_isPreview :: "bool option"
  tb_agentSessionAgent :: "string option"
  tb_body :: tab_body

record layoutEditorFile =
  ef_filePath :: string
  ef_relativePath :: string
  ef_language :: string
  ef_runtimeEnvironmentId :: "string optnull"
  ef_mirroredFromRuntimeSession :: "bool option"
  ef_externalSshTargetId :: "string option"
  ef_readOnly :: "bool option"
  ef_liveTail :: "bool option"

record layoutEditorView =
  ev_view :: string
  ev_filePath :: string
  ev_relativePath :: string
  ev_language :: string
  ev_runtimeEnvironmentId :: "string optnull"
  ev_externalSshTargetId :: "string option"
  ev_readOnly :: "bool option"

record layoutBrowserTab =
  bt_id :: string
  bt_label :: "string option"
  bt_sessionProfileId :: "string optnull"
  bt_sessionPartition :: "string optnull"
  bt_pageIds :: "string list option"
  bt_createdAt :: int

record layoutSleepingRecord =
  sr_origin :: "sleep_origin option"
  sr_payload :: string

record layoutClosedTab =
  cl_closedAt :: int
  cl_reason :: "close_reason option"

record layoutLeaf =
  lf_ptyId :: "string option"
  lf_ptyGeneration :: "int option"
  lf_incarnationId :: "string option"
  lf_title :: "string option"
  lf_lastGrid :: "(int \<times> int) option"
  lf_sleeping :: "layoutSleepingRecord option"
  lf_resume :: "layoutSleepingRecord option"

record workspaceLayout =
  ws_worktreeId :: string
  ws_tabs :: "layoutTab list"
  ws_groups :: "layoutGroup list"
  ws_groupLayout :: "split_node option"
  ws_editorFiles :: "layoutEditorFile list option"
  ws_editorViews :: "(string \<times> layoutEditorView) list option"
  ws_browserTabs :: "layoutBrowserTab list option"
  ws_leaves :: "(string \<times> layoutLeaf) list option"
  ws_closedTerminalTabs :: "(string \<times> layoutClosedTab) list option"

record closedTerminalPane =
  cp_ptyId :: string
  cp_incarnationId :: string
  cp_worktreeId :: string
  cp_closedAt :: int

record workspaceLayoutRecords =
  rc_defaultTabsApplied :: "(string \<times> unit) list option"
  rc_clientHostedBrowserPages :: "(string \<times> string list) list option"
  rc_closedTerminalPanes :: "(string \<times> closedTerminalPane) list option"

record legacyLayoutPersistence =
  lg_terminalRowOwners :: "(string \<times> unit) list"
  lg_topologyRevision :: "(string \<times> int) list option"

record workspaceLayoutModel =
  md_hostId :: string
  md_workspaces :: "(string \<times> workspaceLayout) list"
  md_records :: workspaceLayoutRecords
  md_legacy :: legacyLayoutPersistence

definition paneKeyOf :: "string \<Rightarrow> string \<Rightarrow> string" where
  "paneKeyOf terminalTabId leafId = terminalTabId @ '':'' @ leafId"

text \<open>A \<open>Map\<close> from the tabs keeps the last tab of a repeated id.\<close>

definition tabsInOrder :: "workspaceLayout \<Rightarrow> layoutTab list" where
  "tabsInOrder ws =
     (let byId = map_of (rev (map (\<lambda>t. (tb_id t, t)) (ws_tabs ws)))
      in concat (map (\<lambda>g. concat (map (\<lambda>i. case byId i of None \<Rightarrow> [] | Some t \<Rightarrow> [t])
           (gr_tabOrder g))) (ws_groups ws)))"

section \<open>Reading and updating a layout\<close>

abbreviation workspaceAt :: "workspaceLayoutModel \<Rightarrow> string \<Rightarrow> workspaceLayout option" where
  "workspaceAt m key \<equiv> map_of (md_workspaces m) key"

text \<open>\<open>model.workspaces[key]!\<close>: the handlers run on a key the dispatcher has found.\<close>

definition emptyWorkspace :: "string \<Rightarrow> workspaceLayout" where
  "emptyWorkspace key = \<lparr>ws_worktreeId = key, ws_tabs = [], ws_groups = [], ws_groupLayout = None,
     ws_editorFiles = None, ws_editorViews = None, ws_browserTabs = None, ws_leaves = None,
     ws_closedTerminalTabs = None\<rparr>"

definition workspaceOrEmpty :: "workspaceLayoutModel \<Rightarrow> string \<Rightarrow> workspaceLayout" where
  "workspaceOrEmpty m key = orElse (workspaceAt m key) (emptyWorkspace key)"

definition withWorkspace ::
  "workspaceLayoutModel \<Rightarrow> string \<Rightarrow> workspaceLayout \<Rightarrow> workspaceLayoutModel" where
  "withWorkspace m key ws = m\<lparr>md_workspaces := AList.update key ws (md_workspaces m)\<rparr>"

definition withoutKey :: "(string \<times> 'a) list option \<Rightarrow> string \<Rightarrow> (string \<times> 'a) list option" where
  "withoutKey r key = map_option (AList.delete key) r"

definition filterRecord ::
  "(string \<times> 'a) list option \<Rightarrow> (string \<Rightarrow> 'a \<Rightarrow> bool) \<Rightarrow> (string \<times> 'a) list option" where
  "filterRecord r keep = map_option (filter (\<lambda>(k, v). keep k v)) r"

definition isTerminal :: "layoutTab \<Rightarrow> bool" where
  "isTerminal t = (case tb_body t of TerminalBody _ _ \<Rightarrow> True | ContentBody _ \<Rightarrow> False)"

definition isKind :: "content_kind \<Rightarrow> layoutTab \<Rightarrow> bool" where
  "isKind k t \<longleftrightarrow> tb_body t = ContentBody k"

definition panesOf :: "layoutTab \<Rightarrow> terminalPanes option" where
  "panesOf t = (case tb_body t of TerminalBody _ p \<Rightarrow> Some p | ContentBody _ \<Rightarrow> None)"

definition leafIdsOf :: "layoutTab \<Rightarrow> string list" where
  "leafIdsOf t = (case tb_body t of
     TerminalBody _ p \<Rightarrow> collectLayoutLeafIdsInOrder (tp_root p) | ContentBody _ \<Rightarrow> [])"

definition withPanes :: "terminalPanes \<Rightarrow> layoutTab \<Rightarrow> layoutTab" where
  "withPanes p t = (case tb_body t of
     TerminalBody c _ \<Rightarrow> t\<lparr>tb_body := TerminalBody c p\<rparr> | ContentBody _ \<Rightarrow> t)"

definition findTab :: "workspaceLayout \<Rightarrow> string \<Rightarrow> layoutTab option" where
  "findTab ws tabId = List.find (\<lambda>t. tb_id t = tabId) (ws_tabs ws)"

definition findTerminal :: "workspaceLayout \<Rightarrow> string \<Rightarrow> layoutTab option" where
  "findTerminal ws tabId =
     (case findTab ws tabId of
        Some t \<Rightarrow> if isTerminal t then Some t else None
      | None \<Rightarrow> None)"

definition replaceTab :: "workspaceLayout \<Rightarrow> layoutTab \<Rightarrow> workspaceLayout" where
  "replaceTab ws t = ws\<lparr>ws_tabs := replaceBy tb_id (tb_id t) t (ws_tabs ws)\<rparr>"

definition emptyLeaf :: layoutLeaf where
  "emptyLeaf = \<lparr>lf_ptyId = None, lf_ptyGeneration = None, lf_incarnationId = None,
     lf_title = None, lf_lastGrid = None, lf_sleeping = None, lf_resume = None\<rparr>"

abbreviation leafAt :: "workspaceLayout \<Rightarrow> string \<Rightarrow> layoutLeaf option" where
  "leafAt ws leafId \<equiv> lookupOpt (ws_leaves ws) leafId"

text \<open>\<open>workspace.leaves?.[leafId]?.ptyId\<close>.\<close>

definition ptyAt :: "workspaceLayout \<Rightarrow> string \<Rightarrow> string option" where
  "ptyAt ws leafId = Option.bind (leafAt ws leafId) lf_ptyId"

definition boundPtyIds :: "workspaceLayout \<Rightarrow> layoutTab \<Rightarrow> string list" where
  "boundPtyIds ws t =
     concat (map (\<lambda>l. case ptyAt ws l of None \<Rightarrow> [] | Some p \<Rightarrow> [p]) (leafIdsOf t))"

definition setLeaf :: "workspaceLayout \<Rightarrow> string \<Rightarrow> layoutLeaf \<Rightarrow> workspaceLayout" where
  "setLeaf ws leafId leaf =
     (let leaves = AList.update leafId leaf (orElse (ws_leaves ws) [])
      in ws\<lparr>ws_leaves := Some (if leaf = emptyLeaf then AList.delete leafId leaves else leaves)\<rparr>)"

fun locateIn :: "string \<Rightarrow> layoutTab list \<Rightarrow> (layoutTab \<times> string) option" where
  "locateIn paneKey [] = None"
| "locateIn paneKey (t # ts) =
     (case List.find (\<lambda>l. paneKeyOf (tb_entityId t) l = paneKey) (leafIdsOf t) of
        Some l \<Rightarrow> (if l \<noteq> [] then Some (t, l) else locateIn paneKey ts)
      | None \<Rightarrow> locateIn paneKey ts)"

definition locatePane :: "workspaceLayout \<Rightarrow> string \<Rightarrow> (layoutTab \<times> string) option" where
  "locatePane ws paneKey = locateIn paneKey (ws_tabs ws)"

section \<open>Well-formed layouts\<close>

abbreviation tabIds :: "workspaceLayout \<Rightarrow> string list" where
  "tabIds ws \<equiv> map tb_id (ws_tabs ws)"

abbreviation groupIds :: "workspaceLayout \<Rightarrow> string list" where
  "groupIds ws \<equiv> map gr_id (ws_groups ws)"

abbreviation orderedIds :: "workspaceLayout \<Rightarrow> string list" where
  "orderedIds ws \<equiv> concat (map gr_tabOrder (ws_groups ws))"

definition paneIds :: "workspaceLayout \<Rightarrow> string list" where
  "paneIds ws = concat (map leafIdsOf (ws_tabs ws))"

text \<open>
  What a workspace keeps: unique tab ids, every tab in exactly one group and once, unique
  groups that are the leaves of the group tree, no empty group but those of \<open>E\<close>, unique panes,
  and pane data only for panes, never both asleep and resumable.
\<close>

definition wf_tree :: "string list \<Rightarrow> split_node option \<Rightarrow> bool" where
  "wf_tree gs layout = (case layout of
     None \<Rightarrow> length gs \<le> 1 | Some t \<Rightarrow> mset (leafIds t) = mset gs)"

definition wf_leaves :: "string list \<Rightarrow> (string \<times> layoutLeaf) list option \<Rightarrow> bool" where
  "wf_leaves panes leaves \<longleftrightarrow>
     distinct (keysOf leaves) \<and> set (keysOf leaves) \<subseteq> set panes
     \<and> list_all (\<lambda>(k, l). lf_sleeping l = None \<or> lf_resume l = None) (orElse leaves [])"

definition wf_groups :: "string set \<Rightarrow> string list \<Rightarrow> layoutGroup list \<Rightarrow> bool" where
  "wf_groups E tabs gs \<longleftrightarrow>
     distinct (map gr_id gs) \<and> distinct (concat (map gr_tabOrder gs))
     \<and> set (concat (map gr_tabOrder gs)) = set tabs
     \<and> list_all (\<lambda>g. gr_tabOrder g = [] \<longrightarrow> gr_id g \<in> E) gs"

definition wf_workspace :: "string set \<Rightarrow> workspaceLayout \<Rightarrow> bool" where
  "wf_workspace E ws \<longleftrightarrow>
     distinct (tabIds ws) \<and> wf_groups E (tabIds ws) (ws_groups ws)
     \<and> wf_tree (groupIds ws) (ws_groupLayout ws)
     \<and> distinct (paneIds ws) \<and> wf_leaves (paneIds ws) (ws_leaves ws)"

text \<open>A layout of a host: unique keys, and no tab or pane in two workspaces.\<close>

definition apart :: "workspaceLayout \<Rightarrow> workspaceLayout \<Rightarrow> bool" where
  "apart w w' \<longleftrightarrow> set (tabIds w) \<inter> set (tabIds w') = {} \<and> set (paneIds w) \<inter> set (paneIds w') = {}"

definition wf_model :: "(string \<Rightarrow> string set) \<Rightarrow> workspaceLayoutModel \<Rightarrow> bool" where
  "wf_model E m \<longleftrightarrow>
     distinct (map fst (md_workspaces m))
     \<and> (\<forall>(k, w)\<in>set (md_workspaces m). wf_workspace (E k) w)
     \<and> (\<forall>(k, w)\<in>set (md_workspaces m). \<forall>(k', w')\<in>set (md_workspaces m). k \<noteq> k' \<longrightarrow> apart w w')"

text \<open>No group may be empty in a stored layout.\<close>

abbreviation wf_layout :: "workspaceLayoutModel \<Rightarrow> bool" where
  "wf_layout m \<equiv> wf_model (\<lambda>_. {}) m"

definition allTabIds :: "workspaceLayoutModel \<Rightarrow> string list" where
  "allTabIds m = concat (map (tabIds \<circ> snd) (md_workspaces m))"

definition allPaneIds :: "workspaceLayoutModel \<Rightarrow> string list" where
  "allPaneIds m = concat (map (paneIds \<circ> snd) (md_workspaces m))"

section \<open>Lemmas\<close>

lemma leafIdsOf_simps [simp]:
  "tb_body t = TerminalBody c p \<Longrightarrow> leafIdsOf t = optIds (tp_root p)"
  "tb_body t = ContentBody k \<Longrightarrow> leafIdsOf t = []"
  by (simp_all add: leafIdsOf_def)

lemma leafIdsOf_cong: "tb_body t = tb_body u \<Longrightarrow> leafIdsOf t = leafIdsOf u"
  by (simp add: leafIdsOf_def)

lemma findTab_Some: "findTab ws i = Some t \<Longrightarrow> t \<in> set (ws_tabs ws) \<and> tb_id t = i"
  unfolding findTab_def by (auto dest: find_SomeD)

lemma findTab_None: "findTab ws i = None \<longleftrightarrow> i \<notin> set (tabIds ws)"
  by (simp add: findTab_def find_map_of_key)

lemma findTerminal_Some:
  "findTerminal ws i = Some t \<Longrightarrow> t \<in> set (ws_tabs ws) \<and> tb_id t = i
     \<and> (\<exists>c p. tb_body t = TerminalBody c p)"
  by (auto simp: findTerminal_def isTerminal_def dest: findTab_Some
      split: option.splits if_splits tab_body.splits)

lemma locateIn_Some:
  "locateIn k ts = Some (t, l) \<Longrightarrow> t \<in> set ts \<and> l \<in> set (leafIdsOf t)
     \<and> paneKeyOf (tb_entityId t) l = k"
  by (induction ts) (auto split: option.splits if_splits dest: find_SomeD)

lemma locatePane_Some:
  "locatePane ws k = Some (t, l) \<Longrightarrow> t \<in> set (ws_tabs ws) \<and> l \<in> set (leafIdsOf t)
     \<and> paneKeyOf (tb_entityId t) l = k"
  by (simp add: locatePane_def locateIn_Some)

lemma set_paneIds: "set (paneIds ws) = (\<Union>t\<in>set (ws_tabs ws). set (leafIdsOf t))"
  by (auto simp: paneIds_def)

lemma locatePane_pane: "locatePane ws k = Some (t, l) \<Longrightarrow> l \<in> set (paneIds ws)"
  by (auto simp: set_paneIds dest: locatePane_Some)

lemma leafIdsOf_withPanes [simp]:
  "tb_body t = TerminalBody c p \<Longrightarrow> leafIdsOf (withPanes q t) = optIds (tp_root q)"
  by (simp add: withPanes_def)

lemma tb_id_withPanes [simp]: "tb_id (withPanes q t) = tb_id t"
  by (simp add: withPanes_def split: tab_body.split)

text \<open>The fields the invariant reads.\<close>

lemma paneIds_cong [frame]: "ws_tabs v = ws_tabs w \<Longrightarrow> paneIds v = paneIds w"
  by (simp add: paneIds_def)

lemma wf_workspace_cong:
  assumes "ws_tabs v = ws_tabs w" "ws_groups v = ws_groups w"
    "ws_groupLayout v = ws_groupLayout w" "ws_leaves v = ws_leaves w"
  shows "wf_workspace E v = wf_workspace E w"
  using assms paneIds_cong [of v w] by (simp add: wf_workspace_def)

lemma paneIds_update [simp]:
  "paneIds (w\<lparr>ws_groups := g\<rparr>) = paneIds w"
  "paneIds (w\<lparr>ws_groupLayout := l\<rparr>) = paneIds w"
  "paneIds (w\<lparr>ws_editorFiles := f\<rparr>) = paneIds w"
  "paneIds (w\<lparr>ws_editorViews := v\<rparr>) = paneIds w"
  "paneIds (w\<lparr>ws_browserTabs := b\<rparr>) = paneIds w"
  "paneIds (w\<lparr>ws_leaves := ls\<rparr>) = paneIds w"
  "paneIds (w\<lparr>ws_closedTerminalTabs := c\<rparr>) = paneIds w"
  "paneIds (w\<lparr>ws_worktreeId := i\<rparr>) = paneIds w"
  by (simp_all add: paneIds_def)

lemma wf_workspace_content [simp]:
  "wf_workspace E (w\<lparr>ws_editorFiles := f\<rparr>) = wf_workspace E w"
  "wf_workspace E (w\<lparr>ws_editorViews := v\<rparr>) = wf_workspace E w"
  "wf_workspace E (w\<lparr>ws_browserTabs := b\<rparr>) = wf_workspace E w"
  "wf_workspace E (w\<lparr>ws_closedTerminalTabs := c\<rparr>) = wf_workspace E w"
  "wf_workspace E (w\<lparr>ws_worktreeId := i\<rparr>) = wf_workspace E w"
  by (rule wf_workspace_cong; simp)+

lemma wf_groups_mono: "wf_groups E ts gs \<Longrightarrow> E \<subseteq> F \<Longrightarrow> wf_groups F ts gs"
  by (auto simp: wf_groups_def list_all_iff)

lemma wf_workspace_mono: "wf_workspace E w \<Longrightarrow> E \<subseteq> F \<Longrightarrow> wf_workspace F w"
  by (auto simp: wf_workspace_def intro: wf_groups_mono)

lemma wf_emptyWorkspace [simp]: "wf_workspace E (emptyWorkspace key)"
  by (simp add: wf_workspace_def wf_groups_def wf_tree_def wf_leaves_def emptyWorkspace_def paneIds_def)

lemma emptyWorkspace_ids [simp]: "tabIds (emptyWorkspace k) = []" "paneIds (emptyWorkspace k) = []"
  by (simp_all add: emptyWorkspace_def paneIds_def)

lemma wf_workspace_groups:
  assumes "wf_workspace E w" "wf_groups F (tabIds w) gs" "wf_tree (map gr_id gs) l"
  shows "wf_workspace F (w\<lparr>ws_groups := gs, ws_groupLayout := l\<rparr>)"
  using assms by (simp add: wf_workspace_def)

lemma wf_workspace_orders:
  assumes "wf_workspace E w" "wf_groups F (tabIds w) gs" "map gr_id gs = groupIds w"
  shows "wf_workspace F (w\<lparr>ws_groups := gs\<rparr>)"
  using assms by (simp add: wf_workspace_def)

lemma ws_leaves_same: "ws_leaves w = ls \<Longrightarrow> w\<lparr>ws_leaves := ls\<rparr> = w"
  by auto

section \<open>Updating one workspace of a layout\<close>

lemma wf_model_lookup:
  "wf_model E m \<Longrightarrow> workspaceAt m k = Some w \<Longrightarrow> wf_workspace (E k) w"
  by (fastforce simp: wf_model_def dest: map_of_SomeD)

lemma wf_workspaceOrEmpty: "wf_model E m \<Longrightarrow> wf_workspace (E k) (workspaceOrEmpty m k)"
  by (cases "workspaceAt m k") (auto simp: workspaceOrEmpty_def wf_model_lookup)

lemma workspaceAt_withWorkspace [simp]:
  "workspaceAt (withWorkspace m k w) k' = (if k' = k then Some w else workspaceAt m k')"
  by (simp add: withWorkspace_def update_conv')

lemma withWorkspace_frame [simp]:
  "md_hostId (withWorkspace m k w) = md_hostId m"
  "md_records (withWorkspace m k w) = md_records m"
  "md_legacy (withWorkspace m k w) = md_legacy m"
  by (simp_all add: withWorkspace_def)

lemma workspaceOrEmpty_simps [simp]:
  "workspaceAt m k = Some w \<Longrightarrow> workspaceOrEmpty m k = w"
  "workspaceAt m k = None \<Longrightarrow> workspaceOrEmpty m k = emptyWorkspace k"
  "workspaceOrEmpty (withWorkspace m k w) k = w"
  by (simp_all add: workspaceOrEmpty_def)

lemma withWorkspace_withWorkspace [simp]:
  "withWorkspace (withWorkspace m k v) k w = withWorkspace m k w"
proof -
  have "AList.update k w (AList.update k v es) = AList.update k w es" for es
    by (induction es) auto
  then show ?thesis by (simp add: withWorkspace_def)
qed

text \<open>The tabs and panes of the other workspaces.\<close>

definition othersHold :: "workspaceLayoutModel \<Rightarrow> string \<Rightarrow> (workspaceLayout \<Rightarrow> string list) \<Rightarrow> string set" where
  "othersHold m k f = (\<Union>(k', w)\<in>set (md_workspaces m). if k' = k then {} else set (f w))"

lemma othersHoldI:
  "(k', w) \<in> set (md_workspaces m) \<Longrightarrow> k' \<noteq> k \<Longrightarrow> set (f w) \<subseteq> othersHold m k f"
  unfolding othersHold_def by (rule subsetI, rule UN_I) auto

lemma othersHold_all:
  "othersHold m k tabIds \<subseteq> set (allTabIds m)" "othersHold m k paneIds \<subseteq> set (allPaneIds m)"
  by (auto simp: othersHold_def allTabIds_def allPaneIds_def split: if_splits)

lemma othersHold_apart:
  assumes "wf_model E m"
  shows "set (tabIds (workspaceOrEmpty m k)) \<inter> othersHold m k tabIds = {}"
    and "set (paneIds (workspaceOrEmpty m k)) \<inter> othersHold m k paneIds = {}"
proof -
  have "set (tabIds (workspaceOrEmpty m k)) \<inter> othersHold m k tabIds = {}
      \<and> set (paneIds (workspaceOrEmpty m k)) \<inter> othersHold m k paneIds = {}"
  proof (cases "workspaceAt m k")
    case (Some w)
    then have mem: "(k, w) \<in> set (md_workspaces m)" by (rule map_of_SomeD)
    have "apart w w'" if "(k', w') \<in> set (md_workspaces m)" "k' \<noteq> k" for k' w'
      using assms mem that unfolding wf_model_def by fastforce
    with Some show ?thesis by (fastforce simp: othersHold_def apart_def split: if_splits)
  qed simp
  then show "set (tabIds (workspaceOrEmpty m k)) \<inter> othersHold m k tabIds = {}"
    and "set (paneIds (workspaceOrEmpty m k)) \<inter> othersHold m k paneIds = {}" by auto
qed

lemma wf_withWorkspace_at:
  assumes wf: "wf_model E m" and w: "wf_workspace F w"
    and tabs: "set (tabIds w) \<inter> othersHold m k tabIds = {}"
    and panes: "set (paneIds w) \<inter> othersHold m k paneIds = {}"
  shows "wf_model (E(k := F)) (withWorkspace m k w)"
proof -
  have dist: "distinct (map fst (md_workspaces m))" using wf by (simp add: wf_model_def)
  have sets: "set (md_workspaces (withWorkspace m k w))
      = insert (k, w) {e \<in> set (md_workspaces m). fst e \<noteq> k}"
    using set_update_distinct [OF dist] by (simp add: withWorkspace_def)
  have keys: "distinct (map fst (md_workspaces (withWorkspace m k w)))"
    using dist by (simp add: withWorkspace_def distinct_update)
  have new: "apart w w' \<and> apart w' w"
    if "(k', w') \<in> set (md_workspaces m)" "k' \<noteq> k" for k' w'
    using othersHoldI [OF that, of tabIds] othersHoldI [OF that, of paneIds] tabs panes
    unfolding apart_def by blast
  have old: "apart w1 w2"
    if "(k1, w1) \<in> set (md_workspaces m)" "(k2, w2) \<in> set (md_workspaces m)" "k1 \<noteq> k2"
    for k1 w1 k2 w2
    using wf that unfolding wf_model_def by fastforce
  have each: "wf_workspace (E k') w'" if "(k', w') \<in> set (md_workspaces m)" for k' w'
    using wf that unfolding wf_model_def by fastforce
  show ?thesis
    unfolding wf_model_def sets using keys new old each w by auto
qed

lemma wf_withWorkspace:
  assumes "wf_model E m" "wf_workspace (E k) w"
    and "set (tabIds w) \<inter> othersHold m k tabIds = {}" "set (paneIds w) \<inter> othersHold m k paneIds = {}"
  shows "wf_model E (withWorkspace m k w)"
  using wf_withWorkspace_at [OF assms] by simp

text \<open>
  The usual case: the new workspace holds no tab and no pane that its predecessor did not hold,
  but fresh ones.
\<close>

lemma wf_withWorkspace_fresh_at:
  assumes "wf_model E m" "wf_workspace F w"
    and "set (tabIds w) \<subseteq> set (tabIds (workspaceOrEmpty m k)) \<union> T" "T \<inter> set (allTabIds m) = {}"
    and "set (paneIds w) \<subseteq> set (paneIds (workspaceOrEmpty m k)) \<union> P" "P \<inter> set (allPaneIds m) = {}"
  shows "wf_model (E(k := F)) (withWorkspace m k w)"
  using assms othersHold_apart [OF assms(1), of k] othersHold_all [of m k]
  by (intro wf_withWorkspace_at) blast+

lemma wf_withWorkspace_fresh:
  assumes "wf_model E m" "wf_workspace (E k) w"
    and "set (tabIds w) \<subseteq> set (tabIds (workspaceOrEmpty m k)) \<union> T" "T \<inter> set (allTabIds m) = {}"
    and "set (paneIds w) \<subseteq> set (paneIds (workspaceOrEmpty m k)) \<union> P" "P \<inter> set (allPaneIds m) = {}"
  shows "wf_model E (withWorkspace m k w)"
  using assms othersHold_apart [OF assms(1), of k] othersHold_all [of m k]
  by (intro wf_withWorkspace) blast+

lemma wf_withWorkspace_sub:
  assumes "wf_model E m" "wf_workspace (E k) w"
    and "set (tabIds w) \<subseteq> set (tabIds (workspaceOrEmpty m k))"
    and "set (paneIds w) \<subseteq> set (paneIds (workspaceOrEmpty m k))"
  shows "wf_model E (withWorkspace m k w)"
  using wf_withWorkspace_fresh [OF assms(1,2), of "{}" "{}"] assms(3,4) by simp

lemma wf_model_mono:
  assumes "wf_model E m" "\<And>k. E k \<subseteq> F k"
  shows "wf_model F m"
proof -
  have "wf_workspace (F k) w" if "(k, w) \<in> set (md_workspaces m)" for k w
  proof -
    have "wf_workspace (E k) w" using assms(1) that unfolding wf_model_def by fastforce
    then show ?thesis using assms(2) by (rule wf_workspace_mono)
  qed
  with assms(1) show ?thesis unfolding wf_model_def by blast
qed

lemma wf_model_frame:
  "md_workspaces m = md_workspaces n \<Longrightarrow> wf_model E m = wf_model E n"
  unfolding wf_model_def by (rule arg_cong [where f = "\<lambda>ws. distinct (map fst ws)
      \<and> (\<forall>(k, w)\<in>set ws. wf_workspace (E k) w)
      \<and> (\<forall>(k, w)\<in>set ws. \<forall>(k', w')\<in>set ws. k \<noteq> k' \<longrightarrow> apart w w')"])

lemma wf_model_update [simp]:
  "wf_model E (m\<lparr>md_records := r\<rparr>) = wf_model E m"
  "wf_model E (m\<lparr>md_legacy := l\<rparr>) = wf_model E m"
  by (rule wf_model_frame; simp)+

lemma workspaceOrEmpty_sub:
  "set (tabIds (workspaceOrEmpty m k)) \<subseteq> set (allTabIds m)"
  "set (paneIds (workspaceOrEmpty m k)) \<subseteq> set (allPaneIds m)"
proof -
  have "set (tabIds w) \<subseteq> set (allTabIds m) \<and> set (paneIds w) \<subseteq> set (allPaneIds m)"
    if "workspaceAt m k = Some w" for w
    using map_of_SomeD [OF that] by (auto simp: allTabIds_def allPaneIds_def)
  then have "set (tabIds (workspaceOrEmpty m k)) \<subseteq> set (allTabIds m)
      \<and> set (paneIds (workspaceOrEmpty m k)) \<subseteq> set (allPaneIds m)"
    by (cases "workspaceAt m k") simp_all
  then show "set (tabIds (workspaceOrEmpty m k)) \<subseteq> set (allTabIds m)"
    and "set (paneIds (workspaceOrEmpty m k)) \<subseteq> set (allPaneIds m)" by auto
qed

end
