(* ===== verification/Closed_Records.thy ===== *)
theory Closed_Records
  imports Layout_Model
begin

text \<open>
  Records of closed terminal tabs and panes: \<open>closed-terminal-tab-tombstones.ts\<close> and
  \<open>closed-terminal-panes.ts\<close>.  A record lives thirty days; at most the five hundred newest are
  kept.  The map's values are records of either kind, read through the time they were closed.
\<close>

section \<open>Operations\<close>

definition CLOSED_TERMINAL_TAB_TOMBSTONE_TTL_MS :: int where
  "CLOSED_TERMINAL_TAB_TOMBSTONE_TTL_MS = 30 * 24 * 60 * 60 * 1000"

definition MAX_CLOSED_TERMINAL_TAB_TOMBSTONES :: nat where
  "MAX_CLOSED_TERMINAL_TAB_TOMBSTONES = 500"

definition liveRecord :: "int \<Rightarrow> int \<Rightarrow> bool" where
  "liveRecord now closedAt \<longleftrightarrow> now - closedAt \<le> CLOSED_TERMINAL_TAB_TOMBSTONE_TTL_MS"

text \<open>\<open>Array.sort\<close> is stable, as \<open>sort_key\<close> is; newest first.\<close>

definition pruneClosedTerminalTabTombstones ::
  "('v \<Rightarrow> int) \<Rightarrow> (string \<times> 'v) list option \<Rightarrow> int \<Rightarrow> (string \<times> 'v) list" where
  "pruneClosedTerminalTabTombstones closedAt r now =
     (let entries = filter (\<lambda>(k, v). liveRecord now (closedAt v)) (orElse r []);
          sorted = sort_key (\<lambda>(k, v). - closedAt v) entries
      in fromEntries (take MAX_CLOSED_TERMINAL_TAB_TOMBSTONES sorted))"

record closedTerminalTabTombstone =
  tt_closedAt :: int
  tt_worktreeId :: string
  tt_reason :: "close_reason option"

definition recordClosedTerminalTabTombstone ::
  "(string \<times> closedTerminalTabTombstone) list option \<Rightarrow> string \<Rightarrow> string \<Rightarrow> close_reason option \<Rightarrow> int
     \<Rightarrow> (string \<times> closedTerminalTabTombstone) list" where
  "recordClosedTerminalTabTombstone r tabId worktreeId reason now =
     pruneClosedTerminalTabTombstones tt_closedAt
       (Some (AList.update tabId \<lparr>tt_closedAt = now, tt_worktreeId = worktreeId, tt_reason = reason\<rparr>
         (orElse r []))) now"

definition hasClosedTerminalTabRecord ::
  "(string \<times> closedTerminalTabTombstone) list option \<Rightarrow> string \<Rightarrow> string option \<Rightarrow> int \<Rightarrow> bool" where
  "hasClosedTerminalTabRecord r tabId worktreeId now =
     (case lookupOpt r tabId of
        None \<Rightarrow> False
      | Some v \<Rightarrow> liveRecord now (tt_closedAt v)
          \<and> (case worktreeId of None \<Rightarrow> True | Some w \<Rightarrow> tt_worktreeId v = w))"

text \<open>The rows and the records of the stored session; a row of tabs is present or not.\<close>

definition isTerminalWorkspaceEmptiedOnPurpose ::
  "(string \<times> 'row list option) list \<Rightarrow> (string \<times> closedTerminalTabTombstone) list option \<Rightarrow> string \<Rightarrow> int \<Rightarrow> bool" where
  "isTerminalWorkspaceEmptiedOnPurpose rows r worktreeId now =
     (case map_of rows worktreeId of
        None \<Rightarrow> False
      | Some row \<Rightarrow> orElse row [] = []
          \<and> list_ex (\<lambda>(k, v). tt_worktreeId v = worktreeId \<and> liveRecord now (tt_closedAt v)) (orElse r []))"

text \<open>A closed pane before its time is set: \<open>Omit<ClosedTerminalPane, 'closedAt'>\<close>.\<close>

record closedPane =
  cd_ptyId :: string
  cd_incarnationId :: string
  cd_worktreeId :: string

definition closedAtNow :: "int \<Rightarrow> closedPane \<Rightarrow> closedTerminalPane" where
  "closedAtNow now p = \<lparr>cp_ptyId = cd_ptyId p, cp_incarnationId = cd_incarnationId p,
     cp_worktreeId = cd_worktreeId p, cp_closedAt = now\<rparr>"

definition recordClosedTerminalPanes ::
  "(string \<times> closedTerminalPane) list option \<Rightarrow> (string \<times> closedPane) list \<Rightarrow> int
     \<Rightarrow> (string \<times> closedTerminalPane) list" where
  "recordClosedTerminalPanes r closed0 now =
     pruneClosedTerminalTabTombstones cp_closedAt
       (Some (fold (\<lambda>(k, p) acc. AList.update k (closedAtNow now p) acc) closed0 (orElse r []))) now"

definition closedTerminalPaneOf ::
  "(string \<times> closedTerminalPane) list option \<Rightarrow> string \<Rightarrow> string \<Rightarrow> int
     \<Rightarrow> (string \<times> closedTerminalPane) option" where
  "closedTerminalPaneOf r ptyId incarnationId now =
     List.find (\<lambda>(k, p). cp_ptyId p = ptyId \<and> cp_incarnationId p = incarnationId
       \<and> liveRecord now (cp_closedAt p)) (orElse r [])"

section \<open>Pruning\<close>

lemma prune_distinct:
  assumes "distinct (keysOf r)"
  shows "pruneClosedTerminalTabTombstones closedAt r now
    = take MAX_CLOSED_TERMINAL_TAB_TOMBSTONES (sort_key (\<lambda>(k, v). - closedAt v)
        (filter (\<lambda>(k, v). liveRecord now (closedAt v)) (orElse r [])))"
proof -
  let ?s = "sort_key (\<lambda>(k, v). - closedAt v) (filter (\<lambda>(k, v). liveRecord now (closedAt v)) (orElse r []))"
  have "distinct (map fst (filter (\<lambda>(k, v). liveRecord now (closedAt v)) (orElse r [])))"
    using assms by (cases r) (simp_all add: distinct_keys_filter)
  moreover have "mset (map fst ?s) = mset (map fst (filter (\<lambda>(k, v). liveRecord now (closedAt v)) (orElse r [])))"
    by (simp only: mset_map mset_sort)
  ultimately have "distinct (map fst ?s)" using mset_eq_imp_distinct_iff by blast
  then have "distinct (map fst (take MAX_CLOSED_TERMINAL_TAB_TOMBSTONES ?s))"
    by (simp add: take_map [symmetric])
  then show ?thesis by (simp add: pruneClosedTerminalTabTombstones_def Let_def fromEntries_distinct)
qed

text \<open>
  What pruning keeps: at most the cap, only live records, and no live record that is dropped is
  newer than one that is kept.
\<close>

lemma prune_bounds:
  fixes closedAt :: "'v \<Rightarrow> int" and r :: "(string \<times> 'v) list option" and now :: int
  assumes "distinct (keysOf r)"
  defines "kept \<equiv> pruneClosedTerminalTabTombstones closedAt r now"
  shows "length kept \<le> MAX_CLOSED_TERMINAL_TAB_TOMBSTONES" and "distinct (map fst kept)"
    and "set kept \<subseteq> {(k, v) \<in> set (orElse r []). liveRecord now (closedAt v)}"
    and "\<lbrakk>(k, v) \<in> set kept; (k', v') \<in> set (orElse r []); liveRecord now (closedAt v'); (k', v') \<notin> set kept\<rbrakk>
       \<Longrightarrow> closedAt v' \<le> closedAt v"
proof -
  let ?es = "filter (\<lambda>(k, v). liveRecord now (closedAt v)) (orElse r [])"
  let ?s = "sort_key (\<lambda>(k, v). - closedAt v) ?es" and ?n = "MAX_CLOSED_TERMINAL_TAB_TOMBSTONES"
  have kept: "kept = take ?n ?s" unfolding kept_def by (rule prune_distinct [OF assms(1)])
  show "length kept \<le> ?n" by (simp add: kept)
  have "distinct (map fst ?es)" using assms(1) by (cases r) (simp_all add: distinct_keys_filter)
  moreover have "mset (map fst ?s) = mset (map fst ?es)" by (simp only: mset_map mset_sort)
  ultimately have "distinct (map fst ?s)" using mset_eq_imp_distinct_iff by blast
  then show "distinct (map fst kept)" by (simp add: kept take_map [symmetric])
  have sub: "set kept \<subseteq> set ?es" unfolding kept using set_take_subset [of ?n ?s] by simp
  then show "set kept \<subseteq> {(k, v) \<in> set (orElse r []). liveRecord now (closedAt v)}" by auto
  show "closedAt v' \<le> closedAt v"
    if "(k, v) \<in> set kept" "(k', v') \<in> set (orElse r [])" "liveRecord now (closedAt v')" "(k', v') \<notin> set kept"
  proof -
    have "(k', v') \<in> set ?s" using that(2,3) by simp
    then have "(k', v') \<in> set (take ?n ?s) \<union> set (drop ?n ?s)" by (metis append_take_drop_id set_append)
    then have drop: "(k', v') \<in> set (drop ?n ?s)" using that(4) by (simp add: kept)
    have "sorted (map (\<lambda>(k, v). - closedAt v) (take ?n ?s @ drop ?n ?s))" by simp
    then have "\<forall>x\<in>set (take ?n ?s). \<forall>y\<in>set (drop ?n ?s). (case x of (k, v) \<Rightarrow> - closedAt v) \<le> (case y of (k, v) \<Rightarrow> - closedAt v)"
      unfolding map_append sorted_append by auto
    then have "- closedAt v \<le> - closedAt v'" using that(1) drop unfolding kept by fastforce
    then show ?thesis by simp
  qed
qed

text \<open>Below the cap nothing live is dropped.\<close>

lemma prune_below_cap:
  assumes "distinct (keysOf r)" "length (orElse r []) \<le> MAX_CLOSED_TERMINAL_TAB_TOMBSTONES"
  shows "set (pruneClosedTerminalTabTombstones closedAt r now)
    = {(k, v) \<in> set (orElse r []). liveRecord now (closedAt v)}"
proof -
  have "length (filter P (orElse r [])) \<le> MAX_CLOSED_TERMINAL_TAB_TOMBSTONES" for P
    using assms(2) length_filter_le le_trans by blast
  then show ?thesis by (auto simp: prune_distinct [OF assms(1)])
qed

end
