(* ===== verification/Terminal_Owners.thy ===== *)
theory Terminal_Owners
  imports Layout_Model
begin

text \<open>
  Which pane a terminal belongs to: \<open>terminal-owner-invariants.ts\<close>.  A stored session is the part
  of \<open>WorkspaceSessionState\<close> this code reads: the terminal rows of each worktree, the pane layout
  of each row and the incarnation of each pane's terminal.
\<close>

section \<open>Data\<close>

record terminalLayoutSnapshot =
  sn_root :: "split_node option"
  sn_ptyIdsByLeafId :: "(string \<times> string) list option"

record storedTab =
  st_id :: string
  st_entityId :: string
  st_groupId :: string
  st_isTerminal :: bool

record workspaceSession =
  ss_tabsByWorktree :: "(string \<times> string list) list option" \<comment> \<open>the row ids of each worktree\<close>
  ss_terminalLayoutsByTabId :: "(string \<times> terminalLayoutSnapshot) list option"
  ss_incarnationsByPaneKey :: "(string \<times> string) list option"
  ss_unifiedTabs :: "(string \<times> storedTab list) list option"
  ss_tabGroups :: "(string \<times> layoutGroup list) list option"

record terminalSessionPartition =
  sn_hostId :: string
  sn_session :: workspaceSession

record paneOwner =
  po_hostId :: string
  po_worktreeId :: string
  po_tabId :: string
  po_leafId :: string
  po_ptyId :: "string option"
  po_incarnationId :: "string option"

record terminalBinding =
  bd_ptyId :: "string option"
  bd_incarnationId :: "string option"

datatype ownerConflictReason = PtyBoundToOtherLeaf | LeafInOtherTab | LeafInOtherTabOnOtherHost

section \<open>Operations\<close>

definition isTerminalOwnerPartition :: "string \<Rightarrow> bool" where
  "isTerminalOwnerPartition hostId =
     (case parseExecutionHostId (Some hostId) of
        Some LocalHost \<Rightarrow> True | Some (SshHost _ _) \<Rightarrow> True | _ \<Rightarrow> False)"

definition collectTerminalLeafOwners :: "terminalSessionPartition \<Rightarrow> paneOwner list" where
  "collectTerminalLeafOwners p =
     (let s = sn_session p in
      concat (map (\<lambda>(worktreeId, tabs). concat (map (\<lambda>tabId.
        let layout = lookupOpt (ss_terminalLayoutsByTabId s) tabId in
        map (\<lambda>leafId. \<lparr>po_hostId = sn_hostId p, po_worktreeId = worktreeId, po_tabId = tabId,
            po_leafId = leafId,
            po_ptyId = Option.bind layout (\<lambda>l. lookupOpt (sn_ptyIdsByLeafId l) leafId),
            po_incarnationId = lookupOpt (ss_incarnationsByPaneKey s) (tabId @ '':'' @ leafId)\<rparr>)
          (collectLayoutLeafIdsInOrder (Option.bind layout sn_root))) tabs))
        (orElse (ss_tabsByWorktree s) [])))"

text \<open>The pattern \<open>^pty-\d+$\<close>.\<close>

definition isRepeatingRelayPtyId :: "string \<Rightarrow> bool" where
  "isRepeatingRelayPtyId ptyId =
     (case parseAppSshPtyId ptyId of
        None \<Rightarrow> False
      | Some parsed \<Rightarrow>
          let relay = sp_relayPtyId parsed
          in take 4 relay = ''pty-'' \<and> drop 4 relay \<noteq> []
             \<and> list_all (\<lambda>c. c \<in> set ''0123456789'') (drop 4 relay))"

definition isSameTerminal :: "terminalBinding \<Rightarrow> terminalBinding \<Rightarrow> bool" where
  "isSameTerminal left right =
     (case bd_ptyId left of
        None \<Rightarrow> False
      | Some pty \<Rightarrow>
          if bd_ptyId left \<noteq> bd_ptyId right then False
          else if bd_incarnationId left \<noteq> None \<and> bd_incarnationId right \<noteq> None
          then bd_incarnationId left = bd_incarnationId right
          else \<not> isRepeatingRelayPtyId pty)"

definition bindingOfOwner :: "paneOwner \<Rightarrow> terminalBinding" where
  "bindingOfOwner p = \<lparr>bd_ptyId = po_ptyId p, bd_incarnationId = po_incarnationId p\<rparr>"

record bindingRequest =
  br_tabId :: string
  br_leafId :: string
  br_ptyId :: string
  br_incarnationId :: "string option"

fun conflictIn ::
  "bindingRequest \<Rightarrow> bool \<Rightarrow> paneOwner list \<Rightarrow> (ownerConflictReason \<times> paneOwner) option" where
  "conflictIn b sameHost [] = None"
| "conflictIn b sameHost (p # ps) =
     (if po_leafId p = br_leafId b then
        (if po_tabId p \<noteq> br_tabId b
         then Some (if sameHost then LeafInOtherTab else LeafInOtherTabOnOtherHost, p)
         else conflictIn b sameHost ps)
      else if isSameTerminal (bindingOfOwner p)
               \<lparr>bd_ptyId = Some (br_ptyId b), bd_incarnationId = br_incarnationId b\<rparr>
      then Some (PtyBoundToOtherLeaf, p)
      else conflictIn b sameHost ps)"

fun conflictAcross ::
  "bindingRequest \<Rightarrow> string \<Rightarrow> terminalSessionPartition list \<Rightarrow> (ownerConflictReason \<times> paneOwner) option" where
  "conflictAcross b hostId [] = None"
| "conflictAcross b hostId (p # ps) =
     (if \<not> isTerminalOwnerPartition (sn_hostId p) then conflictAcross b hostId ps
      else case conflictIn b (sn_hostId p = hostId) (collectTerminalLeafOwners p) of
          Some c \<Rightarrow> Some c
        | None \<Rightarrow> conflictAcross b hostId ps)"

definition findTerminalBindingConflict ::
  "bindingRequest \<Rightarrow> string \<Rightarrow> terminalSessionPartition list \<Rightarrow> (ownerConflictReason \<times> paneOwner) option" where
  "findTerminalBindingConflict b hostId partitions =
     (if \<not> isStablePaneId (br_leafId b) then None else conflictAcross b hostId partitions)"

section \<open>Terminal identity\<close>

lemma isSameTerminal_sym: "isSameTerminal a b \<longleftrightarrow> isSameTerminal b a"
  by (auto simp: isSameTerminal_def split: option.splits)

lemma isSameTerminal_refl:
  "isSameTerminal a a \<longleftrightarrow>
     (\<exists>p. bd_ptyId a = Some p \<and> (bd_incarnationId a \<noteq> None \<or> \<not> isRepeatingRelayPtyId p))"
  by (auto simp: isSameTerminal_def split: option.splits)

text \<open>Without a conflict the terminal is free: no other pane of an owner partition shows it.\<close>

lemma conflictIn_None:
  "conflictIn b s ps = None \<longleftrightarrow>
     (\<forall>p\<in>set ps. if po_leafId p = br_leafId b then po_tabId p = br_tabId b
        else \<not> isSameTerminal (bindingOfOwner p) \<lparr>bd_ptyId = Some (br_ptyId b), bd_incarnationId = br_incarnationId b\<rparr>)"
  by (induction ps) auto

lemma conflictAcross_None:
  "conflictAcross b h ps = None \<longleftrightarrow>
     (\<forall>p\<in>set ps. isTerminalOwnerPartition (sn_hostId p) \<longrightarrow>
        conflictIn b (sn_hostId p = h) (collectTerminalLeafOwners p) = None)"
  by (induction ps) (auto split: option.split)

end
