(* ===== verification/Layout_Steps.thy ===== *)
theory Layout_Steps
  imports Layout_Model
begin

text \<open>
  What a command gets and returns (\<open>workspace-layout-command-types.ts\<close>) and the steps commands
  share (\<open>workspace-layout-command-steps.ts\<close>).

  The callbacks of \<open>LayoutContext\<close> are values: a command mints at most one id per site, so
  \<open>cx_mint\<close> gives the id each site receives.  \<open>cx_sameObject\<close> tells for which workspace keys the
  command handed back the very object it read (\<open>old === next\<close>), which only the legacy
  bookkeeping looks at.  \<open>own\<close> is the build switch \<open>ORCA_LAYOUT_OWNER_IS_MAIN\<close>.
\<close>

section \<open>Requests and replies\<close>

datatype refusal_code =
    WorkspaceNotFound | TabNotFound | PaneNotFound | GroupNotFound | InvalidParams
  | GroupSetChanged | PaneStructureChanged | SamePane | LastPane | PaneSleeping
  | PaneAlreadyBound | WorkspaceExists | TabExists | TabClosed | GroupExists
  | PaneInOtherTab | PtyMismatch | PageExists | GeneratedTitleKept

datatype close_refusal = TabPinned | EditorTabHasUnsavedDraft

record layoutEffects =
  fx_stopPtyIds :: "string list"
  fx_startPaneKeys :: "string list"

datatype paneOutcome = OutcomeFailed | OutcomeExited

record layoutCommandResult =
  rs_tabId :: "string option"
  rs_leafId :: "string option"
  rs_paneKey :: "string option"
  rs_groupId :: "string option"
  rs_pageId :: "string option"
  rs_ptyId :: "string optnull"
  rs_tabClosed :: "bool option"
  rs_alreadyClosed :: "bool option"
  rs_closed :: "string list option"
  rs_refused :: "(string \<times> close_refusal) list option"
  rs_slept :: "string list option"
  rs_woken :: "string list option"
  rs_renamedTabIds :: "(string \<times> string) list option"
  rs_createdTabs :: "(string \<times> string \<times> string) list option"

definition noResult :: layoutCommandResult where
  "noResult = \<lparr>rs_tabId = None, rs_leafId = None, rs_paneKey = None, rs_groupId = None,
     rs_pageId = None, rs_ptyId = Absent, rs_tabClosed = None, rs_alreadyClosed = None,
     rs_closed = None, rs_refused = None, rs_slept = None, rs_woken = None,
     rs_renamedTabIds = None, rs_createdTabs = None\<rparr>"

definition noEffects :: layoutEffects where
  "noEffects = \<lparr>fx_stopPtyIds = [], fx_startPaneKeys = []\<rparr>"

text \<open>Leaf id to its new last outcome; \<open>None\<close> clears it.\<close>

type_synonym paneOutcomeChanges = "(string \<times> paneOutcome option) list"

datatype applied =
    Refused refusal_code
  | Applied workspaceLayoutModel layoutCommandResult layoutEffects paneOutcomeChanges

abbreviation appliedOnly :: "workspaceLayoutModel \<Rightarrow> applied" where
  "appliedOnly m \<equiv> Applied m noResult noEffects []"

abbreviation appliedWith :: "workspaceLayoutModel \<Rightarrow> layoutCommandResult \<Rightarrow> applied" where
  "appliedWith m r \<equiv> Applied m r noEffects []"

fun okOf :: "applied \<Rightarrow> workspaceLayoutModel option" where
  "okOf (Refused c) = None"
| "okOf (Applied m r e oc) = Some m"

datatype mint_site = MintTab | MintGroup | MintBrowserTab | MintPage

record layoutContext =
  cx_mint :: "mint_site \<Rightarrow> string"
  cx_mintLeafId :: string
  cx_now :: int
  cx_isStarting :: "(string \<Rightarrow> bool) option"
  cx_liveEdit :: bool
  cx_isBindingLive :: "(string \<Rightarrow> string \<Rightarrow> bool) option"
  cx_retiresBinding :: "(string \<Rightarrow> string \<Rightarrow> bool) option"
  cx_sameObject :: "string \<Rightarrow> bool"

text \<open>A property of the layout a command leaves, when it is applied.\<close>

fun ensures :: "(workspaceLayoutModel \<Rightarrow> bool) \<Rightarrow> applied \<Rightarrow> bool" where
  "ensures P (Refused c) \<longleftrightarrow> True"
| "ensures P (Applied m r e oc) \<longleftrightarrow> P m"

section \<open>Shared steps\<close>

definition updateTab ::
  "workspaceLayoutModel \<Rightarrow> string \<Rightarrow> workspaceLayout \<Rightarrow> layoutTab \<Rightarrow> applied" where
  "updateTab m key ws t = appliedOnly (withWorkspace m key (replaceTab ws t))"

record tabPlacement =
  pl_groupId :: "string option"
  pl_afterTabId :: "string option"
  pl_index :: "int option"

definition firstGroupId :: "bool \<Rightarrow> string \<Rightarrow> tabPlacement \<Rightarrow> layoutContext \<Rightarrow> string" where
  "firstGroupId own key placement cx =
     (if own then orElse (pl_groupId placement) (workspaceRootGroupId key) else cx_mint cx MintGroup)"

definition pinnedTabs :: "layoutTab list \<Rightarrow> pinnedTab list" where
  "pinnedTabs tabs = map (\<lambda>t. \<lparr>pt_id = tb_id t, pt_isPinned = tb_isPinned t\<rparr>) tabs"

definition anchorGroupOf :: "workspaceLayout \<Rightarrow> tabPlacement \<Rightarrow> layoutGroup option" where
  "anchorGroupOf ws placement =
     (if truthy (pl_afterTabId placement)
      then findGroupOfTab (ws_groups ws) (the (pl_afterTabId placement)) else None)"

text \<open>The group a new tab goes to: the named one, the anchor's, or the first.\<close>

definition placementGroup :: "workspaceLayout \<Rightarrow> tabPlacement \<Rightarrow> layoutGroup option" where
  "placementGroup ws placement =
     orElseOpt (Option.bind (pl_groupId placement) (findGroup (ws_groups ws)))
       (orElseOpt (anchorGroupOf ws placement)
         (case ws_groups ws of [] \<Rightarrow> None | g # _ \<Rightarrow> Some g))"

definition placedOrder ::
  "workspaceLayout \<Rightarrow> layoutTab \<Rightarrow> tabPlacement \<Rightarrow> layoutGroup \<Rightarrow> string list" where
  "placedOrder ws tab placement target =
     (case pl_index placement of
        Some index \<Rightarrow> placeTabId (tb_id tab) index (gr_tabOrder target)
      | None \<Rightarrow>
          let anchor = (if anchorGroupOf ws placement = Some target
                then pl_afterTabId placement else None)
          in insertTabIdIntoOrder (gr_tabOrder target) (pinnedTabs (ws_tabs ws @ [tab])) (tb_id tab)
               (tb_isPinned tab = Some True) anchor)"

definition placeNewTab ::
  "bool \<Rightarrow> workspaceLayout \<Rightarrow> string \<Rightarrow> layoutTab \<Rightarrow> tabPlacement \<Rightarrow> layoutContext \<Rightarrow> workspaceLayout" where
  "placeNewTab own ws key tab placement cx =
     (let tabs = ws_tabs ws @ [tab];
          (target, groups) = (case placementGroup ws placement of
              Some g \<Rightarrow> (g, ws_groups ws)
            | None \<Rightarrow> let g = \<lparr>gr_id = firstGroupId own key placement cx, gr_tabOrder = []\<rparr>
                      in (g, ws_groups ws @ [g]));
          placed = target\<lparr>gr_tabOrder := placedOrder ws tab placement target\<rparr>
      in ws\<lparr>ws_tabs := tabs, ws_groups := replaceBy gr_id (gr_id placed) placed groups\<rparr>)"

section \<open>Invariants of the groups\<close>

text \<open>The group part of the invariant in terms of multisets.\<close>

lemma wf_groups_mset:
  assumes "distinct tabs"
  shows "wf_groups E tabs gs \<longleftrightarrow>
     distinct (map gr_id gs) \<and> mset (concat (map gr_tabOrder gs)) = mset tabs
     \<and> (\<forall>g\<in>set gs. gr_tabOrder g = [] \<longrightarrow> gr_id g \<in> E)"
  using assms set_eq_iff_mset_eq_distinct [of "concat (map gr_tabOrder gs)" tabs]
  by (auto simp: wf_groups_def list_all_iff dest: mset_eq_imp_distinct_iff mset_eq_setD)

lemma wf_groupsI:
  assumes "distinct tabs" "distinct (map gr_id gs)"
    "mset (concat (map gr_tabOrder gs)) = mset tabs"
    "\<And>g. g \<in> set gs \<Longrightarrow> gr_tabOrder g = [] \<Longrightarrow> gr_id g \<in> E"
  shows "wf_groups E tabs gs"
  using assms by (simp add: wf_groups_mset)

lemma wf_groups_order: "wf_groups E tabs gs \<Longrightarrow> g \<in> set gs \<Longrightarrow> distinct (gr_tabOrder g)"
  by (auto simp: wf_groups_def distinct_concat_iff)

lemma replaceBy_group:
  assumes "distinct (map gr_id gs)" "g \<in> set gs" "gr_id g' = gr_id g"
  shows "map gr_id (replaceBy gr_id (gr_id g) g' gs) = map gr_id gs"
    and "mset (concat (map gr_tabOrder (replaceBy gr_id (gr_id g) g' gs))) + mset (gr_tabOrder g)
       = mset (concat (map gr_tabOrder gs)) + mset (gr_tabOrder g')"
    and "set (replaceBy gr_id (gr_id g) g' gs) = insert g' {h \<in> set gs. gr_id h \<noteq> gr_id g}"
proof -
  show "map gr_id (replaceBy gr_id (gr_id g) g' gs) = map gr_id gs"
    using assms(3) by simp
  have "replaceBy gr_id (gr_id g) g gs = gs"
    unfolding replaceBy_def using assms(1,2)
    by (intro map_idI) (metis find_key_unique option.inject)
  with concat_map_replaceBy [OF assms(1,2), of gr_tabOrder g]
    concat_map_replaceBy [OF assms(1,2), of gr_tabOrder g']
  show "mset (concat (map gr_tabOrder (replaceBy gr_id (gr_id g) g' gs))) + mset (gr_tabOrder g)
       = mset (concat (map gr_tabOrder gs)) + mset (gr_tabOrder g')" by simp
  show "set (replaceBy gr_id (gr_id g) g' gs) = insert g' {h \<in> set gs. gr_id h \<noteq> gr_id g}"
    using assms(2) by (intro set_replaceBy) auto
qed

text \<open>Adding a new tab to a group.\<close>

lemma wf_groups_add:
  assumes wf: "wf_groups E tabs gs" and dist: "distinct tabs" and g: "g \<in> set gs" and t: "t \<notin> set tabs"
    and order: "set order = insert t (set (gr_tabOrder g))" "distinct order"
  shows "wf_groups (E - {gr_id g}) (tabs @ [t])
      (replaceBy gr_id (gr_id g) (g\<lparr>gr_tabOrder := order\<rparr>) gs)"
proof -
  let ?g = "g\<lparr>gr_tabOrder := order\<rparr>"
  from wf dist have ids: "distinct (map gr_id gs)" and M: "mset (concat (map gr_tabOrder gs)) = mset tabs"
    and E: "\<forall>g\<in>set gs. gr_tabOrder g = [] \<longrightarrow> gr_id g \<in> E"
    by (simp_all add: wf_groups_mset)
  have "t \<notin> set (gr_tabOrder g)" using g t mset_eq_setD [OF M] by auto
  moreover have "distinct (gr_tabOrder g)"
    using g wf by (auto simp: wf_groups_def distinct_concat_iff)
  ultimately have "mset order = add_mset t (mset (gr_tabOrder g))"
    using order by (metis distinct.simps(2) list.simps(15) mset.simps(2) set_eq_iff_mset_eq_distinct)
  with replaceBy_group(2) [OF ids g, of ?g] M
  have "mset (concat (map gr_tabOrder (replaceBy gr_id (gr_id g) ?g gs))) = mset (tabs @ [t])"
    by (simp add: union_commute)
  moreover have "order \<noteq> []" using order by auto
  ultimately show ?thesis
    using replaceBy_group(1,3) [OF ids g, of ?g] ids dist t E by (intro wf_groupsI) auto
qed

lemma placementGroup_Some: "placementGroup ws placement = Some g \<Longrightarrow> g \<in> set (ws_groups ws)"
  by (auto simp: placementGroup_def anchorGroupOf_def orElseOpt_def bind_eq_Some_conv
      dest: findGroup_Some findGroupOfTab_Some
      split: option.splits if_splits list.splits)

lemma placementGroup_None: "placementGroup ws placement = None \<Longrightarrow> ws_groups ws = []"
  by (auto simp: placementGroup_def orElseOpt_def split: option.splits list.splits)

lemma placedOrder_set:
  assumes "distinct (gr_tabOrder g)"
  shows "set (placedOrder ws tab placement g) = insert (tb_id tab) (set (gr_tabOrder g))"
    and "distinct (placedOrder ws tab placement g)"
  using assms by (auto simp: placedOrder_def Let_def member_simps split: option.splits)

lemma placeNewTab_tabs [simp]:
  "ws_tabs (placeNewTab own ws key tab placement cx) = ws_tabs ws @ [tab]"
  "ws_leaves (placeNewTab own ws key tab placement cx) = ws_leaves ws"
  "ws_groupLayout (placeNewTab own ws key tab placement cx) = ws_groupLayout ws"
  "ws_editorFiles (placeNewTab own ws key tab placement cx) = ws_editorFiles ws"
  "ws_browserTabs (placeNewTab own ws key tab placement cx) = ws_browserTabs ws"
  "ws_worktreeId (placeNewTab own ws key tab placement cx) = ws_worktreeId ws"
  by (simp_all add: placeNewTab_def Let_def split: option.splits)

lemma paneIds_placeNewTab [simp]:
  "paneIds (placeNewTab own ws key tab placement cx) = paneIds ws @ leafIdsOf tab"
  by (simp add: paneIds_def)

text \<open>Where a new tab lands: the chosen group, or the first group of a workspace without one.\<close>

definition landingGroup :: "bool \<Rightarrow> workspaceLayout \<Rightarrow> string \<Rightarrow> tabPlacement \<Rightarrow> layoutContext \<Rightarrow> string" where
  "landingGroup own ws key placement cx = (case placementGroup ws placement of
     Some g \<Rightarrow> gr_id g | None \<Rightarrow> firstGroupId own key placement cx)"

lemma wf_leaves_more: "wf_leaves ps ls \<Longrightarrow> wf_leaves (ps @ qs) ls"
  by (auto simp: wf_leaves_def)

lemma wf_placeNewTab:
  assumes wf: "wf_workspace E ws" and t: "tb_id tab \<notin> set (tabIds ws)"
    and panes: "distinct (leafIdsOf tab)" "set (leafIdsOf tab) \<inter> set (paneIds ws) = {}"
  shows "wf_workspace (E - {landingGroup own ws key placement cx})
      (placeNewTab own ws key tab placement cx)"
proof -
  from wf have dist: "distinct (tabIds ws)" and gs: "wf_groups E (tabIds ws) (ws_groups ws)"
    and tree: "wf_tree (groupIds ws) (ws_groupLayout ws)"
    and pd: "distinct (paneIds ws)" and lv: "wf_leaves (paneIds ws) (ws_leaves ws)"
    by (simp_all add: wf_workspace_def)
  let ?L = "landingGroup own ws key placement cx"
  let ?ws = "placeNewTab own ws key tab placement cx"
  have "wf_groups (E - {?L}) (tabIds ws @ [tb_id tab]) (ws_groups ?ws)
      \<and> wf_tree (groupIds ?ws) (ws_groupLayout ws)"
  proof (cases "placementGroup ws placement")
    case (Some g)
    then have g: "g \<in> set (ws_groups ws)" by (rule placementGroup_Some)
    then have dg: "distinct (gr_tabOrder g)" by (rule wf_groups_order [OF gs])
    have eq: "ws_groups ?ws = replaceBy gr_id (gr_id g)
        (g\<lparr>gr_tabOrder := placedOrder ws tab placement g\<rparr>) (ws_groups ws)"
      using Some by (simp add: placeNewTab_def Let_def)
    show ?thesis
      using wf_groups_add [OF gs dist g _ placedOrder_set [OF dg]] t tree
      unfolding eq by (simp add: landingGroup_def Some)
  next
    case None
    then have empty: "ws_groups ws = []" by (rule placementGroup_None)
    let ?g = "\<lparr>gr_id = ?L, gr_tabOrder = []\<rparr>"
    have eq: "ws_groups ?ws = [?g\<lparr>gr_tabOrder := placedOrder ws tab placement ?g\<rparr>]"
      using None empty by (simp add: placeNewTab_def Let_def landingGroup_def)
    have "tabIds ws = []" using gs empty by (simp add: wf_groups_def)
    moreover have "mset (placedOrder ws tab placement ?g) = {#tb_id tab#}"
      using placedOrder_set [of ?g ws tab placement]
      by (metis distinct.simps(2) distinct_singleton empty_set layoutGroup.select_convs(2)
          list.simps(15) mset.simps set_eq_iff_mset_eq_distinct)
    moreover have "ws_groupLayout ws = None"
      using tree empty by (auto simp: wf_tree_def split: option.splits)
    ultimately show ?thesis unfolding eq by (auto simp: wf_tree_def intro!: wf_groupsI)
  qed
  then show ?thesis
    using dist t pd panes wf_leaves_more [OF lv] by (auto simp: wf_workspace_def)
qed

section \<open>Replacing a tab, writing pane data\<close>

lemma replaceTab_simps [simp]:
  "ws_tabs (replaceTab ws t) = replaceBy tb_id (tb_id t) t (ws_tabs ws)"
  "ws_groups (replaceTab ws t) = ws_groups ws"
  "ws_groupLayout (replaceTab ws t) = ws_groupLayout ws"
  "ws_leaves (replaceTab ws t) = ws_leaves ws"
  by (simp_all add: replaceTab_def)

lemma paneIds_replaceTab:
  assumes "distinct (tabIds ws)" "t \<in> set (ws_tabs ws)" "tb_id t' = tb_id t"
  shows "mset (paneIds (replaceTab ws t')) + mset (leafIdsOf t) = mset (paneIds ws) + mset (leafIdsOf t')"
proof -
  have "replaceBy tb_id (tb_id t) t (ws_tabs ws) = ws_tabs ws"
    unfolding replaceBy_def using assms(1,2)
    by (intro map_idI) (metis find_key_unique option.inject)
  with concat_map_replaceBy [OF assms(1,2), of leafIdsOf t]
    concat_map_replaceBy [OF assms(1,2), of leafIdsOf t']
  show ?thesis by (simp add: paneIds_def assms(3))
qed

text \<open>A tab whose panes are among its old ones and fresh ones.\<close>

lemma distinct_paneIds_replaceTab:
  assumes wf: "distinct (tabIds ws)" "distinct (paneIds ws)" and t: "t \<in> set (ws_tabs ws)" "tb_id t' = tb_id t"
    and new: "distinct (leafIdsOf t')" "set (leafIdsOf t') \<subseteq> set (leafIdsOf t) \<union> P"
    and P: "P \<inter> set (paneIds ws) = {}"
  shows "distinct (paneIds (replaceTab ws t'))"
    and "set (paneIds (replaceTab ws t')) = (set (paneIds ws) - set (leafIdsOf t)) \<union> set (leafIdsOf t')"
proof -
  note M = paneIds_replaceTab [OF wf(1) t]
  from t(1) obtain as bs where ws: "ws_tabs ws = as @ t # bs" by (blast dest: split_list)
  define rs where "rs = concat (map leafIdsOf (as @ bs))"
  have R: "mset (paneIds ws) = mset (rs @ leafIdsOf t)" by (simp add: paneIds_def ws rs_def)
  have E': "mset (paneIds (replaceTab ws t')) = mset (rs @ leafIdsOf t')" using M R by simp
  have "distinct (rs @ leafIdsOf t)" using mset_eq_imp_distinct_iff [OF R] wf(2) by blast
  then have d: "distinct rs" "set rs \<inter> set (leafIdsOf t) = {}" by auto
  have srs: "set rs = set (paneIds ws) - set (leafIdsOf t)"
    using mset_eq_setD [OF R] d by auto
  then have "set rs \<inter> set (leafIdsOf t') = {}" using d new(2) P by blast
  with d new(1) have "distinct (rs @ leafIdsOf t')" by simp
  then show "distinct (paneIds (replaceTab ws t'))"
    using mset_eq_imp_distinct_iff [OF E'] by blast
  show "set (paneIds (replaceTab ws t')) = (set (paneIds ws) - set (leafIdsOf t)) \<union> set (leafIdsOf t')"
    using mset_eq_setD [OF E'] srs by simp
qed

lemma wf_replaceTab:
  assumes wf: "wf_workspace E ws" and t: "t \<in> set (ws_tabs ws)" "tb_id t' = tb_id t"
    and new: "distinct (leafIdsOf t')" "set (leafIdsOf t') \<subseteq> set (leafIdsOf t) \<union> P"
    and P: "P \<inter> set (paneIds ws) = {}"
    and lv: "wf_leaves (paneIds (replaceTab ws t')) leaves"
  shows "wf_workspace E ((replaceTab ws t')\<lparr>ws_leaves := leaves\<rparr>)"
proof -
  from wf have d: "distinct (tabIds ws)" "distinct (paneIds ws)" by (simp_all add: wf_workspace_def)
  have "distinct (paneIds (replaceTab ws t'))"
    by (rule distinct_paneIds_replaceTab [OF d t new P])
  then show ?thesis
    using wf lv unfolding wf_workspace_def paneIds_update by (simp add: t(2) [symmetric])
qed

lemma paneIds_replaceTab_same:
  assumes "distinct (tabIds ws)" "t \<in> set (ws_tabs ws)" "tb_id t' = tb_id t" "leafIdsOf t' = leafIdsOf t"
  shows "paneIds (replaceTab ws t') = paneIds ws"
proof -
  have "u = t" if "u \<in> set (ws_tabs ws)" "tb_id u = tb_id t" for u
    using assms(1,2) that by (metis find_key_unique option.inject)
  then have "map leafIdsOf (replaceBy tb_id (tb_id t') t' (ws_tabs ws)) = map leafIdsOf (ws_tabs ws)"
    using assms(3,4) by (auto simp: replaceBy_def)
  then show ?thesis by (simp add: paneIds_def)
qed

lemma wf_replaceTab_same:
  assumes "wf_workspace E ws" "t \<in> set (ws_tabs ws)" "tb_id t' = tb_id t" "leafIdsOf t' = leafIdsOf t"
  shows "wf_workspace E (replaceTab ws t')" and "paneIds (replaceTab ws t') = paneIds ws"
proof -
  show same: "paneIds (replaceTab ws t') = paneIds ws"
    using assms by (intro paneIds_replaceTab_same) (simp_all add: wf_workspace_def)
  show "wf_workspace E (replaceTab ws t')"
    using assms(1,3) unfolding wf_workspace_def same by simp
qed

lemma setLeaf_simps [simp]:
  "ws_tabs (setLeaf ws l leaf) = ws_tabs ws" "ws_groups (setLeaf ws l leaf) = ws_groups ws"
  "ws_groupLayout (setLeaf ws l leaf) = ws_groupLayout ws"
  "paneIds (setLeaf ws l leaf) = paneIds ws"
  by (simp_all add: setLeaf_def Let_def)

lemma leafAt_setLeaf [simp]:
  "leafAt (setLeaf ws l leaf) k =
     (if k = l then (if leaf = emptyLeaf then None else Some leaf) else leafAt ws k)"
  by (cases "ws_leaves ws")
    (auto simp: setLeaf_def Let_def update_conv' delete_conv')

lemma wf_leaves_update:
  assumes "wf_leaves panes ls" "l \<in> set panes" "lf_sleeping leaf = None \<or> lf_resume leaf = None"
  shows "wf_leaves panes (Some (AList.update l leaf (orElse ls [])))"
proof -
  let ?ls = "orElse ls []"
  have d: "distinct (map fst ?ls)" and s: "fst ` set ?ls \<subseteq> set panes"
    and b: "\<forall>(k, v)\<in>set ?ls. lf_sleeping v = None \<or> lf_resume v = None"
    using assms(1) by (cases ls; auto simp: wf_leaves_def list_all_iff)+
  have "distinct (map fst (AList.update l leaf ?ls))" using d by (rule distinct_update)
  moreover have "\<forall>(k, v)\<in>set (AList.update l leaf ?ls). lf_sleeping v = None \<or> lf_resume v = None"
    using set_update_distinct [OF d, of l leaf] b assms(3) by auto
  ultimately show ?thesis using s assms(2) by (simp add: wf_leaves_def list_all_iff)
qed

lemma wf_leaves_delete:
  assumes "wf_leaves panes (Some ls)"
  shows "wf_leaves panes (Some (AList.delete l ls))"
proof -
  have sub: "set (AList.delete l ls) \<subseteq> set ls" by (auto simp: AList.delete_eq)
  have "distinct (map fst (AList.delete l ls))"
    using assms by (auto simp: wf_leaves_def intro: distinct_delete)
  with assms sub show ?thesis by (fastforce simp: wf_leaves_def list_all_iff)
qed

lemma wf_leaves_setLeaf:
  assumes "wf_leaves panes (ws_leaves ws)" "l \<in> set panes" "lf_sleeping leaf = None \<or> lf_resume leaf = None"
  shows "wf_leaves panes (ws_leaves (setLeaf ws l leaf))"
  using wf_leaves_update [OF assms] wf_leaves_delete [OF wf_leaves_update [OF assms]]
  by (auto simp: setLeaf_def Let_def)

lemma wf_setLeaf:
  assumes "wf_workspace E ws" "l \<in> set (paneIds ws)" "lf_sleeping leaf = None \<or> lf_resume leaf = None"
  shows "wf_workspace E (setLeaf ws l leaf)"
  using assms wf_leaves_setLeaf [of "paneIds ws" ws l leaf] by (simp add: wf_workspace_def)

lemma wf_leafAt:
  assumes "wf_leaves panes (ws_leaves ws)" "leafAt ws l = Some leaf"
  shows "lf_sleeping leaf = None \<or> lf_resume leaf = None"
  using assms by (cases "ws_leaves ws")
    (auto simp: wf_leaves_def list_all_iff dest!: map_of_SomeD bspec)

text \<open>The data of a pane, or none: \<open>workspace.leaves?.[leafId] ?? {}\<close>.\<close>

definition leafOr :: "workspaceLayout \<Rightarrow> string \<Rightarrow> layoutLeaf" where
  "leafOr ws l = orElse (leafAt ws l) emptyLeaf"

lemma wf_leafOr:
  "wf_workspace E ws \<Longrightarrow> lf_sleeping (leafOr ws l) = None \<or> lf_resume (leafOr ws l) = None"
  unfolding wf_workspace_def leafOr_def
  by (cases "leafAt ws l") (auto simp: emptyLeaf_def dest: wf_leafAt)

section \<open>Handlers that change one workspace\<close>

text \<open>
  The contract of a handler's result: it leaves a well-formed layout.  A new workspace value may
  hold the tabs and panes of its predecessor and fresh ones.
\<close>

lemma ensures_withWorkspace:
  assumes "wf_model E m" "workspaceAt m k = Some ws" "wf_workspace (E k) w"
    and "set (tabIds w) \<subseteq> set (tabIds ws)" "set (paneIds w) \<subseteq> set (paneIds ws)"
  shows "ensures (wf_model E) (Applied (withWorkspace m k w) r e oc)"
  using wf_withWorkspace_sub [OF assms(1,3)] assms(2,4,5) by simp

lemma ensures_updateTab:
  assumes m: "wf_model E m" "workspaceAt m k = Some ws"
    and t: "t \<in> set (ws_tabs ws)" "tb_id t' = tb_id t" "leafIdsOf t' = leafIdsOf t"
  shows "ensures (wf_model E) (updateTab m k ws t')"
proof -
  note ws = wf_model_lookup [OF m]
  note r = wf_replaceTab_same [OF ws t]
  have "map tb_id (ws_tabs (replaceTab ws t')) = tabIds ws" using t(2) by simp
  with r show ?thesis
    unfolding updateTab_def by (intro ensures_withWorkspace [OF m]) simp_all
qed

lemma ensures_setLeaf:
  assumes m: "wf_model E m" "workspaceAt m k = Some ws"
    and "l \<in> set (paneIds ws)" "lf_sleeping leaf = None \<or> lf_resume leaf = None"
  shows "ensures (wf_model E) (Applied (withWorkspace m k (setLeaf ws l leaf)) r e oc)"
  using wf_setLeaf [OF wf_model_lookup [OF m] assms(3,4)] by (intro ensures_withWorkspace [OF m]) simp_all

text \<open>A tab whose panes change: old ones and panes fresh in the whole layout.\<close>

lemma ensures_repane:
  assumes m: "wf_model E m" "workspaceAt m k = Some ws"
    and t: "t \<in> set (ws_tabs ws)" "tb_id t' = tb_id t"
    and new: "distinct (leafIdsOf t')" "set (leafIdsOf t') \<subseteq> set (leafIdsOf t) \<union> P"
    and P: "P \<inter> set (allPaneIds m) = {}"
    and keep: "set (leafIdsOf t) \<subseteq> set (leafIdsOf t')"
  shows "ensures (wf_model E) (Applied (withWorkspace m k (replaceTab ws t')) r e oc)"
proof -
  note ws = wf_model_lookup [OF m]
  then have d: "distinct (tabIds ws)" "distinct (paneIds ws)" and lv: "wf_leaves (paneIds ws) (ws_leaves ws)"
    by (simp_all add: wf_workspace_def)
  have P': "P \<inter> set (paneIds ws) = {}" using P workspaceOrEmpty_sub(2) [of m k] m(2) by auto
  note set = distinct_paneIds_replaceTab(2) [OF d t new P']
  have tsub: "set (leafIdsOf t) \<subseteq> set (paneIds ws)" using t(1) by (auto simp: set_paneIds)
  have "wf_leaves (paneIds (replaceTab ws t')) (ws_leaves ws)"
    using lv keep unfolding wf_leaves_def set by blast
  from wf_replaceTab [OF ws t new P' this]
  have "wf_workspace (E k) (replaceTab ws t')"
    using wf_workspace_cong [of "(replaceTab ws t')\<lparr>ws_leaves := ws_leaves ws\<rparr>" "replaceTab ws t'"] by simp
  moreover have "set (tabIds (replaceTab ws t')) \<subseteq> set (tabIds ws)" using t(2) by simp
  moreover have "set (paneIds (replaceTab ws t')) \<subseteq> set (paneIds ws) \<union> P"
    using set new(2) tsub by blast
  ultimately show ?thesis
    using wf_withWorkspace_fresh [OF m(1), of k "replaceTab ws t'" "{}" P] m(2) P by simp
qed

section \<open>The interface of the handlers that open a tab\<close>

text \<open>
  What opening a tab in a new group relies on: an open command keeps a well-formed layout when
  the ids it makes are fresh in the layout it is given.
\<close>

locale tab_opener =
  fixes opens :: "workspaceLayoutModel \<Rightarrow> applied"
    and fresh :: "string list \<Rightarrow> string list \<Rightarrow> bool"
  assumes keeps: "wf_model E m \<Longrightarrow> fresh (allTabIds m) (allPaneIds m) \<Longrightarrow> ensures (wf_model E) (opens m)"

end
