(* ===== verification/Removal.thy ===== *)
theory Removal
  imports Layout_Steps
begin

text \<open>
  Removing tabs and panes: \<open>workspace-layout-removal.ts\<close>.  A tab leaves its group, an emptied
  group leaves the workspace and its tree, a pane takes its data along and the last pane its tab.
\<close>

section \<open>Operations\<close>

record terminalTabLocation =
  lc_workspaceKey :: string
  lc_tab :: layoutTab

definition findTerminalTab :: "workspaceLayoutModel \<Rightarrow> string \<Rightarrow> terminalTabLocation option" where
  "findTerminalTab m terminalTabId =
     map_option (\<lambda>(key, t). \<lparr>lc_workspaceKey = key, lc_tab = t\<rparr>)
       (List.find (\<lambda>(key, t). isTerminal t \<and> tb_entityId t = terminalTabId)
         (concat (map (\<lambda>(key, ws). map (Pair key) (ws_tabs ws)) (md_workspaces m))))"

text \<open>The loop over the groups, which also takes the emptied ones out of the group tree.\<close>

fun dropFromGroups ::
  "string \<Rightarrow> layoutGroup list \<Rightarrow> split_node option \<Rightarrow> layoutGroup list \<times> split_node option" where
  "dropFromGroups tabId [] layout = ([], layout)"
| "dropFromGroups tabId (g # gs) layout =
     (if tabId \<notin> set (gr_tabOrder g) then
        (let (gs', layout') = dropFromGroups tabId gs layout in (g # gs', layout'))
      else
        let tabOrder = filter (\<lambda>i. i \<noteq> tabId) (gr_tabOrder g)
        in if tabOrder = []
           then dropFromGroups tabId gs
                  (case layout of None \<Rightarrow> None | Some t \<Rightarrow> removeGroupLayoutLeaf t (gr_id g))
           else (let (gs', layout') = dropFromGroups tabId gs layout
                 in (g\<lparr>gr_tabOrder := tabOrder\<rparr> # gs', layout')))"

definition removeTabFromWorkspace :: "workspaceLayout \<Rightarrow> string \<Rightarrow> workspaceLayout" where
  "removeTabFromWorkspace ws tabId =
     (let (groups, layout) = dropFromGroups tabId (ws_groups ws) (ws_groupLayout ws)
      in ws\<lparr>ws_tabs := filter (\<lambda>t. tb_id t \<noteq> tabId) (ws_tabs ws),
            ws_groups := groups, ws_groupLayout := layout\<rparr>)"

definition retirePaneIn :: "workspaceLayout \<Rightarrow> layoutTab \<Rightarrow> string \<Rightarrow> workspaceLayout" where
  "retirePaneIn ws tab leafId =
     (let panes = the (panesOf tab);
          nextWorkspace = (case removeLayoutLeaf (tp_root panes) leafId of
              None \<Rightarrow> removeTabFromWorkspace ws (tb_id tab)
            | Some node \<Rightarrow>
                let chat = (if tp_chatLeafId panes = Some leafId then None else tp_chatLeafId panes)
                in replaceTab ws (withPanes \<lparr>tp_root = Some node, tp_chatLeafId = chat\<rparr> tab))
      in nextWorkspace\<lparr>ws_leaves := withoutKey (ws_leaves nextWorkspace) leafId\<rparr>)"

definition retireTerminalPane ::
  "workspaceLayoutModel \<Rightarrow> terminalTabLocation \<Rightarrow> string \<Rightarrow> workspaceLayoutModel" where
  "retireTerminalPane m location leafId =
     (let key = lc_workspaceKey location
      in withWorkspace m key (retirePaneIn (workspaceOrEmpty m key) (lc_tab location) leafId))"

record exitedSurface =
  es_worktreeId :: string
  es_terminalTabId :: string
  es_leafId :: string
  es_ptyId :: string
  es_incarnationId :: "string option"

datatype surface_location = Gone | Replaced | LocatedAt terminalTabLocation

definition locateExitedSurface :: "workspaceLayoutModel \<Rightarrow> exitedSurface \<Rightarrow> surface_location" where
  "locateExitedSurface m surface =
     (case findTerminalTab m (es_terminalTabId surface) of
        None \<Rightarrow> Gone
      | Some location \<Rightarrow>
          if \<not> layoutContainsLeafId (tp_root (the (panesOf (lc_tab location)))) (es_leafId surface)
          then Gone
          else
            let leaf = leafAt (workspaceOrEmpty m (lc_workspaceKey location)) (es_leafId surface);
                incarnation = Option.bind leaf lf_incarnationId;
                pty = Option.bind leaf lf_ptyId
            in if truthy (es_incarnationId surface) \<and> truthy incarnation
                  \<and> incarnation \<noteq> es_incarnationId surface then Replaced
               else if truthy pty \<and> pty \<noteq> Some (es_ptyId surface) then Replaced
               else LocatedAt location)"

definition retireExitedSurface ::
  "workspaceLayoutModel \<Rightarrow> exitedSurface \<Rightarrow> workspaceLayoutModel option" where
  "retireExitedSurface m surface =
     (case locateExitedSurface m surface of
        Gone \<Rightarrow> Some m
      | Replaced \<Rightarrow> None
      | LocatedAt location \<Rightarrow> Some (retireTerminalPane m location (es_leafId surface)))"

section \<open>Removing a tab keeps the invariant\<close>

lemma dropFromGroups_orders:
  "concat (map gr_tabOrder (fst (dropFromGroups t gs layout)))
     = filter (\<lambda>i. i \<noteq> t) (concat (map gr_tabOrder gs))"
proof (induction t gs layout rule: dropFromGroups.induct)
  case (2 t g gs layout)
  then show ?case
    by (cases "t \<in> set (gr_tabOrder g)")
      (auto simp: Let_def case_prod_beta filter_neq_absent)
qed simp

lemma dropFromGroups_groups:
  "h \<in> set (fst (dropFromGroups t gs layout)) \<Longrightarrow>
     \<exists>g\<in>set gs. gr_id h = gr_id g \<and> (h = g \<or> gr_tabOrder h \<noteq> [])"
proof (induction t gs layout rule: dropFromGroups.induct)
  case (2 t g gs layout)
  then show ?case
    by (cases "t \<in> set (gr_tabOrder g)") (auto simp: Let_def case_prod_beta split: if_splits)
qed simp

lemma dropFromGroups_ids:
  "gr_id ` set (fst (dropFromGroups t gs layout)) \<subseteq> gr_id ` set gs"
  using dropFromGroups_groups [of _ t gs layout] by fastforce

lemma distinct_dropFromGroups:
  "distinct (map gr_id gs) \<Longrightarrow> distinct (map gr_id (fst (dropFromGroups t gs layout)))"
proof (induction t gs layout rule: dropFromGroups.induct)
  case (2 t g gs layout)
  have "gr_id g \<notin> gr_id ` set (fst (dropFromGroups t gs l))" for l
    using "2.prems" dropFromGroups_ids [of t gs l] by auto
  with 2 show ?case
    by (cases "t \<in> set (gr_tabOrder g)") (auto simp: Let_def case_prod_beta)
qed simp

text \<open>The tree loses the groups the list loses.\<close>

lemma wf_tree_remove:
  assumes "wf_tree (g # gs) layout" "distinct (g # gs)"
  shows "wf_tree gs (case layout of None \<Rightarrow> None | Some t \<Rightarrow> removeGroupLayoutLeaf t g)"
proof (cases layout)
  case None
  with assms show ?thesis by (auto simp: wf_tree_def)
next
  case (Some t)
  with assms have M: "mset (leafIds t) = mset (g # gs)" by (simp add: wf_tree_def)
  let ?r = "removeGroupLayoutLeaf t g"
  have "distinct (leafIds t)" using mset_eq_imp_distinct_iff [OF M] assms(2) by blast
  moreover have "filter (\<lambda>j. j \<noteq> g) (g # gs) = gs" using assms(2) by (simp add: filter_neq_absent)
  ultimately have "mset (optIds ?r) = mset gs"
    using mset_filter_same [OF M, of "\<lambda>j. j \<noteq> g"] by (simp add: grp.ids_remove)
  then show ?thesis by (cases ?r) (auto simp: wf_tree_def Some)
qed

lemma wf_tree_perm: "mset gs = mset hs \<Longrightarrow> wf_tree gs layout = wf_tree hs layout"
  by (auto simp: wf_tree_def split: option.splits dest: mset_eq_length)

lemma dropFromGroups_tree:
  assumes "wf_tree (pre @ map gr_id gs) layout" "distinct (pre @ map gr_id gs)"
  shows "wf_tree (pre @ map gr_id (fst (dropFromGroups t gs layout))) (snd (dropFromGroups t gs layout))"
  using assms
proof (induction t gs layout arbitrary: pre rule: dropFromGroups.induct)
  case (2 t g gs layout)
  show ?case
  proof (cases "t \<in> set (gr_tabOrder g) \<and> filter (\<lambda>i. i \<noteq> t) (gr_tabOrder g) = []")
    case True
    have "wf_tree (gr_id g # pre @ map gr_id gs) layout"
      using "2.prems"(1) by (subst wf_tree_perm [of _ "pre @ map gr_id (g # gs)"]) auto
    from wf_tree_remove [OF this] "2.prems"(2)
    have "wf_tree (pre @ map gr_id gs)
        (case layout of None \<Rightarrow> None | Some t \<Rightarrow> removeGroupLayoutLeaf t (gr_id g))" by auto
    with True "2.IH"(2) [of "filter (\<lambda>i. i \<noteq> t) (gr_tabOrder g)" pre] "2.prems"(2)
    show ?thesis by (simp add: Let_def)
  next
    case False
    then consider "t \<notin> set (gr_tabOrder g)"
      | "t \<in> set (gr_tabOrder g)" "filter (\<lambda>i. i \<noteq> t) (gr_tabOrder g) \<noteq> []" by blast
    then show ?thesis
    proof cases
      case 1
      with "2.IH"(1) [of "pre @ [gr_id g]"] "2.prems" show ?thesis
        by (simp add: Let_def case_prod_beta)
    next
      case 2
      with "2.IH"(3) [of "filter (\<lambda>i. i \<noteq> t) (gr_tabOrder g)" "pre @ [gr_id g]"] "2.prems"
      show ?thesis by (simp add: Let_def case_prod_beta)
    qed
  qed
qed simp

lemma removeTab_tabs [simp]:
  "ws_tabs (removeTabFromWorkspace ws t) = filter (\<lambda>u. tb_id u \<noteq> t) (ws_tabs ws)"
  "ws_leaves (removeTabFromWorkspace ws t) = ws_leaves ws"
  "ws_editorFiles (removeTabFromWorkspace ws t) = ws_editorFiles ws"
  "ws_editorViews (removeTabFromWorkspace ws t) = ws_editorViews ws"
  "ws_browserTabs (removeTabFromWorkspace ws t) = ws_browserTabs ws"
  "ws_worktreeId (removeTabFromWorkspace ws t) = ws_worktreeId ws"
  by (simp_all add: removeTabFromWorkspace_def case_prod_beta)

text \<open>A workspace without one of its tabs, and the pane data that stays.\<close>

lemma wf_removeTab:
  assumes wf: "wf_workspace E ws"
    and leaves: "wf_leaves (paneIds (removeTabFromWorkspace ws t)) leaves"
  shows "wf_workspace E ((removeTabFromWorkspace ws t)\<lparr>ws_leaves := leaves\<rparr>)"
proof -
  let ?r = "removeTabFromWorkspace ws t"
  let ?d = "dropFromGroups t (ws_groups ws) (ws_groupLayout ws)"
  from wf have dist: "distinct (tabIds ws)" and gs: "wf_groups E (tabIds ws) (ws_groups ws)"
    and tree: "wf_tree (groupIds ws) (ws_groupLayout ws)" and pd: "distinct (paneIds ws)"
    by (simp_all add: wf_workspace_def)
  from gs dist have ids: "distinct (groupIds ws)" and M: "mset (orderedIds ws) = mset (tabIds ws)"
    and E: "\<forall>g\<in>set (ws_groups ws). gr_tabOrder g = [] \<longrightarrow> gr_id g \<in> E"
    by (simp_all add: wf_groups_mset)
  have rg: "ws_groups ?r = fst ?d" "ws_groupLayout ?r = snd ?d"
    by (simp_all add: removeTabFromWorkspace_def case_prod_beta)
  have tabs: "tabIds ?r = filter (\<lambda>i. i \<noteq> t) (tabIds ws)"
    by (simp add: filter_map comp_def)
  have "wf_groups E (tabIds ?r) (fst ?d)"
  proof (rule wf_groupsI)
    show "distinct (tabIds ?r)" unfolding tabs using dist by simp
    show "distinct (map gr_id (fst ?d))" using distinct_dropFromGroups ids by blast
    show "mset (concat (map gr_tabOrder (fst ?d))) = mset (tabIds ?r)"
      unfolding dropFromGroups_orders tabs using mset_filter_same [OF M] .
    show "gr_id g \<in> E" if "g \<in> set (fst ?d)" "gr_tabOrder g = []" for g
      using dropFromGroups_groups [OF that(1)] that(2) E by metis
  qed
  moreover have "wf_tree (map gr_id (fst ?d)) (snd ?d)"
    using dropFromGroups_tree [of "[]" "ws_groups ws"] tree ids by simp
  moreover have "distinct (paneIds ?r)"
    using pd unfolding paneIds_def removeTab_tabs by (rule distinct_concat_map_filter)
  ultimately show ?thesis
    using leaves dist unfolding wf_workspace_def paneIds_update
    by (simp add: rg distinct_map_filter)
qed

lemma wf_leaves_withoutKey:
  assumes "wf_leaves ps ls" "set ps - {l} \<subseteq> set qs"
  shows "wf_leaves qs (withoutKey ls l)"
proof (cases ls)
  case (Some es)
  have sub: "set (AList.delete l es) \<subseteq> set es" by (auto simp: AList.delete_eq)
  have "distinct (map fst (AList.delete l es))"
    using assms(1) Some by (auto simp: wf_leaves_def intro: distinct_delete)
  with assms sub Some show ?thesis
    by (fastforce simp: wf_leaves_def withoutKey_def list_all_iff)
qed (use assms in \<open>simp add: wf_leaves_def withoutKey_def\<close>)

lemma wf_leaves_filterRecord:
  assumes "wf_leaves ps ls" "set ps - {l. \<not> keep l} \<subseteq> set qs"
  shows "wf_leaves qs (filterRecord ls (\<lambda>l _. keep l))"
proof (cases ls)
  case (Some es)
  have "distinct (map fst (filter (\<lambda>(k, v). keep k) es))"
    using assms(1) Some by (auto simp: wf_leaves_def intro: distinct_keys_filter)
  with assms Some show ?thesis
    by (fastforce simp: wf_leaves_def filterRecord_def list_all_iff)
qed (use assms in \<open>simp add: wf_leaves_def filterRecord_def\<close>)

lemma paneIds_removeTab:
  assumes "distinct (tabIds ws)" "distinct (paneIds ws)" "t \<in> set (ws_tabs ws)"
  shows "set (paneIds (removeTabFromWorkspace ws (tb_id t))) = set (paneIds ws) - set (leafIdsOf t)"
proof -
  from assms(3) obtain as bs where ws: "ws_tabs ws = as @ t # bs" by (blast dest: split_list)
  with assms(1) have "filter (\<lambda>u. tb_id u \<noteq> tb_id t) (ws_tabs ws) = as @ bs"
    using filter_key_absent [of "tb_id t" tb_id as] filter_key_absent [of "tb_id t" tb_id bs] by simp
  then have "set (paneIds (removeTabFromWorkspace ws (tb_id t)))
      = set (concat (map leafIdsOf as)) \<union> set (concat (map leafIdsOf bs))"
    by (simp add: paneIds_def)
  moreover have "set (paneIds ws) = set (concat (map leafIdsOf as)) \<union> set (leafIdsOf t)
      \<union> set (concat (map leafIdsOf bs))"
    by (simp add: paneIds_def ws Un_assoc)
  moreover have "set (leafIdsOf t) \<inter> (set (concat (map leafIdsOf as)) \<union> set (concat (map leafIdsOf bs))) = {}"
    using assms(2) unfolding paneIds_def ws map_append list.map concat_append concat.simps
      distinct_append set_append by blast
  ultimately show ?thesis by blast
qed

lemma paneIds_removeTab_sub: "set (paneIds (removeTabFromWorkspace ws t)) \<subseteq> set (paneIds ws)"
  by (auto simp: set_paneIds)

section \<open>Retiring a pane keeps the invariant\<close>

lemma wf_retirePaneIn:
  assumes wf: "wf_workspace E ws" and t: "t \<in> set (ws_tabs ws)" "tb_body t = TerminalBody c p"
    and l: "l \<in> set (leafIdsOf t)"
  shows "wf_workspace E (retirePaneIn ws t l)"
    and "set (paneIds (retirePaneIn ws t l)) = set (paneIds ws) - {l}"
    and "set (tabIds (retirePaneIn ws t l)) \<subseteq> set (tabIds ws)"
proof -
  from wf have dt: "distinct (tabIds ws)" and dp: "distinct (paneIds ws)"
    and lv: "wf_leaves (paneIds ws) (ws_leaves ws)" by (simp_all add: wf_workspace_def)
  have p: "panesOf t = Some p" "leafIdsOf t = optIds (tp_root p)" using t(2) by (simp_all add: panesOf_def)
  have "distinct (leafIdsOf t)"
    using dp t(1) by (auto simp: paneIds_def distinct_concat_iff)
  then have dr: "distinct (optIds (tp_root p))" using p by simp
  have "wf_workspace E (retirePaneIn ws t l)
    \<and> set (paneIds (retirePaneIn ws t l)) = set (paneIds ws) - {l}
    \<and> set (tabIds (retirePaneIn ws t l)) \<subseteq> set (tabIds ws)"
  proof (cases "removeLayoutLeaf (tp_root p) l")
    case None
    then have "filter (\<lambda>j. j \<noteq> l) (optIds (tp_root p)) = []"
      using ids_removeLayoutLeaf [of "tp_root p" l] dr by simp
    then have "set (leafIdsOf t) \<subseteq> {l}" unfolding filter_empty_conv p(2) by blast
    with l have one: "set (leafIdsOf t) = {l}" by blast
    let ?r = "removeTabFromWorkspace ws (tb_id t)"
    have eq: "retirePaneIn ws t l = ?r\<lparr>ws_leaves := withoutKey (ws_leaves ws) l\<rparr>"
      using None p by (simp add: retirePaneIn_def Let_def)
    have panes: "set (paneIds ?r) = set (paneIds ws) - {l}"
      using paneIds_removeTab [OF dt dp t(1)] one by simp
    then have "wf_leaves (paneIds ?r) (withoutKey (ws_leaves ws) l)"
      by (intro wf_leaves_withoutKey [OF lv]) simp
    from wf_removeTab [OF wf this] show ?thesis
      unfolding eq using panes by auto
  next
    case (Some node)
    let ?q = "\<lparr>tp_root = Some node,
        tp_chatLeafId = (if tp_chatLeafId p = Some l then None else tp_chatLeafId p)\<rparr>"
    let ?t = "withPanes ?q t"
    have eq: "retirePaneIn ws t l = (replaceTab ws ?t)\<lparr>ws_leaves := withoutKey (ws_leaves ws) l\<rparr>"
      using Some p by (simp add: retirePaneIn_def Let_def)
    have ids: "leafIdsOf ?t = filter (\<lambda>j. j \<noteq> l) (leafIdsOf t)"
      using Some ids_removeLayoutLeaf [of "tp_root p" l] dr p t(2) by simp
    then have new: "distinct (leafIdsOf ?t)" "set (leafIdsOf ?t) \<subseteq> set (leafIdsOf t) \<union> {}"
      using dr p by auto
    have set: "set (paneIds (replaceTab ws ?t)) = set (paneIds ws) - {l}"
    proof -
      have "set (leafIdsOf t) \<subseteq> set (paneIds ws)" using t(1) by (auto simp: set_paneIds)
      then show ?thesis
        using distinct_paneIds_replaceTab(2) [OF dt dp t(1) _ new] l by (auto simp: ids)
    qed
    then have "wf_leaves (paneIds (replaceTab ws ?t)) (withoutKey (ws_leaves ws) l)"
      by (intro wf_leaves_withoutKey [OF lv]) simp
    from wf_replaceTab [OF wf t(1) _ new _ this] show ?thesis
      unfolding eq using set by auto
  qed
  then show "wf_workspace E (retirePaneIn ws t l)"
    and "set (paneIds (retirePaneIn ws t l)) = set (paneIds ws) - {l}"
    and "set (tabIds (retirePaneIn ws t l)) \<subseteq> set (tabIds ws)" by auto
qed

lemma findTerminalTab_Some:
  assumes "findTerminalTab m i = Some loc" "distinct (map fst (md_workspaces m))"
  shows "\<exists>ws. workspaceAt m (lc_workspaceKey loc) = Some ws \<and> lc_tab loc \<in> set (ws_tabs ws)"
    and "isTerminal (lc_tab loc)" and "tb_entityId (lc_tab loc) = i"
proof -
  from assms(1) obtain key t where
    f: "List.find (\<lambda>(key, t). isTerminal t \<and> tb_entityId t = i)
         (concat (map (\<lambda>(key, ws). map (Pair key) (ws_tabs ws)) (md_workspaces m))) = Some (key, t)"
    and loc: "loc = \<lparr>lc_workspaceKey = key, lc_tab = t\<rparr>"
    by (auto simp: findTerminalTab_def)
  from find_SomeD [OF f] obtain ws where "(key, ws) \<in> set (md_workspaces m)" "t \<in> set (ws_tabs ws)"
    and t: "isTerminal t" "tb_entityId t = i" by auto
  with assms(2) loc show "\<exists>ws. workspaceAt m (lc_workspaceKey loc) = Some ws \<and> lc_tab loc \<in> set (ws_tabs ws)"
    by auto
  from t loc show "isTerminal (lc_tab loc)" and "tb_entityId (lc_tab loc) = i" by simp_all
qed

lemma isTerminalE:
  assumes "isTerminal t" obtains c p where "tb_body t = TerminalBody c p"
  using assms by (auto simp: isTerminal_def split: tab_body.splits)

lemma wf_retireTerminalPane:
  assumes wf: "wf_model E m" and ws: "workspaceAt m (lc_workspaceKey loc) = Some ws"
    and t: "lc_tab loc \<in> set (ws_tabs ws)" "isTerminal (lc_tab loc)" and l: "l \<in> set (leafIdsOf (lc_tab loc))"
  shows "wf_model E (retireTerminalPane m loc l)"
proof -
  obtain c p where body: "tb_body (lc_tab loc) = TerminalBody c p" using t(2) by (rule isTerminalE)
  note r = wf_retirePaneIn [OF wf_model_lookup [OF wf ws] t(1) body l]
  show ?thesis
    unfolding retireTerminalPane_def Let_def
    using r ws by (intro wf_withWorkspace_sub [OF wf]) auto
qed

lemma locateExitedSurface_at:
  assumes "locateExitedSurface m surface = LocatedAt loc" "wf_model E m"
  shows "\<exists>ws. workspaceAt m (lc_workspaceKey loc) = Some ws \<and> lc_tab loc \<in> set (ws_tabs ws)
      \<and> isTerminal (lc_tab loc) \<and> es_leafId surface \<in> set (leafIdsOf (lc_tab loc))"
proof -
  have d: "distinct (map fst (md_workspaces m))" using assms(2) by (simp add: wf_model_def)
  from assms(1) have f: "findTerminalTab m (es_terminalTabId surface) = Some loc"
    and c: "layoutContainsLeafId (tp_root (the (panesOf (lc_tab loc)))) (es_leafId surface)"
    by (auto simp: locateExitedSurface_def Let_def split: option.splits if_splits)
  from findTerminalTab_Some(2) [OF f d] obtain cr p where "tb_body (lc_tab loc) = TerminalBody cr p"
    by (rule isTerminalE)
  with c have "es_leafId surface \<in> set (leafIdsOf (lc_tab loc))" by (simp add: panesOf_def)
  with findTerminalTab_Some [OF f d] show ?thesis by blast
qed

lemma wf_retireExitedSurface:
  assumes "wf_model E m" "retireExitedSurface m surface = Some m'"
  shows "wf_model E m'"
  using assms locateExitedSurface_at [of m surface _ E]
  by (auto simp: retireExitedSurface_def intro: wf_retireTerminalPane split: surface_location.splits)

end
