(* ===== verification/Editor_Files.thy ===== *)
theory Editor_Files
  imports Layout_Steps
begin

text \<open>
  Which file record an editor tab shows: \<open>workspace-layout-editor-tab-file.ts\<close> and
  \<open>workspace-layout-editor-open-file-id.ts\<close>.  Records are compared by value: two equal records
  are shown by the same tabs.
\<close>

definition ownedIdOf :: "string \<Rightarrow> layoutEditorFile \<Rightarrow> string" where
  "ownedIdOf worktreeId file =
     ownedEditorFileId (ef_filePath file) worktreeId (valueOf (ef_runtimeEnvironmentId file))"

definition editorTabShowsFile :: "bool \<Rightarrow> string \<Rightarrow> layoutEditorFile \<Rightarrow> string \<Rightarrow> bool" where
  "editorTabShowsFile own entityId file worktreeId \<longleftrightarrow>
     entityId = ef_filePath file \<or> own \<and> entityId = ownedIdOf worktreeId file"

definition editorFileKey :: "bool \<Rightarrow> layoutEditorFile \<Rightarrow> string" where
  "editorFileKey own file = (if own then ownedIdOf [] file else ef_filePath file)"

definition sameEditorFile :: "bool \<Rightarrow> layoutEditorFile \<Rightarrow> layoutEditorFile \<Rightarrow> bool" where
  "sameEditorFile own a b \<longleftrightarrow> editorFileKey own a = editorFileKey own b"

definition holdsEditorFileId :: "bool \<Rightarrow> workspaceLayout \<Rightarrow> string \<Rightarrow> bool" where
  "holdsEditorFileId own ws fileId \<longleftrightarrow>
     list_ex (\<lambda>file. editorTabShowsFile own fileId file (ws_worktreeId ws)) (orElse (ws_editorFiles ws) [])"

text \<open>
  A bare path belongs to one owner only: among the matching records, those an owned id's tab
  already claims are skipped.
\<close>

definition editorTabFiles :: "bool \<Rightarrow> workspaceLayout \<Rightarrow> string \<Rightarrow> layoutEditorFile list" where
  "editorTabFiles own ws entityId =
     (let shown = filter (\<lambda>file. editorTabShowsFile own entityId file (ws_worktreeId ws))
            (orElse (ws_editorFiles ws) [])
      in if length shown < 2 then shown
         else
           let ids = map tb_entityId (ws_tabs ws);
               unclaimed = filter (\<lambda>file. ownedIdOf (ws_worktreeId ws) file \<notin> set ids) shown
           in if unclaimed \<noteq> [] then unclaimed else shown)"

definition editorTabFile :: "bool \<Rightarrow> workspaceLayout \<Rightarrow> string \<Rightarrow> layoutEditorFile option" where
  "editorTabFile own ws entityId =
     (if own then (case editorTabFiles own ws entityId of [] \<Rightarrow> None | f # _ \<Rightarrow> Some f)
      else List.find (\<lambda>file. editorTabShowsFile own entityId file (ws_worktreeId ws))
             (orElse (ws_editorFiles ws) []))"

definition editorTabNamesFile :: "bool \<Rightarrow> workspaceLayout \<Rightarrow> string \<Rightarrow> layoutEditorFile \<Rightarrow> bool" where
  "editorTabNamesFile own ws entityId file \<longleftrightarrow>
     (if own then editorTabFile own ws entityId = Some file
      else editorTabShowsFile own entityId file (ws_worktreeId ws))"

text \<open>\<open>after\<close> is the workspace without the closed tab; the records are read in \<open>before\<close>.\<close>

definition keptAfterEditorClose ::
  "bool \<Rightarrow> workspaceLayout \<Rightarrow> layoutTab list \<Rightarrow> string \<Rightarrow> layoutEditorFile \<Rightarrow> bool" where
  "keptAfterEditorClose own before afterTabs entityId file \<longleftrightarrow>
     (let closed = editorTabFiles own before entityId;
          shown = concat (map (\<lambda>t. editorTabFiles own before (tb_entityId t)) afterTabs)
      in file \<notin> set closed \<or> file \<in> set shown)"

definition editorOpenFileId :: "bool \<Rightarrow> workspaceLayout \<Rightarrow> layoutEditorFile \<Rightarrow> string" where
  "editorOpenFileId own ws file =
     (case List.find (\<lambda>t. isKind Editor t \<and>
            (case editorTabFile own ws (tb_entityId t) of
               None \<Rightarrow> False | Some record \<Rightarrow> sameEditorFile own record file)) (ws_tabs ws) of
        Some shown \<Rightarrow> tb_entityId shown
      | None \<Rightarrow> ownedIdOf (ws_worktreeId ws) file)"

lemma sameEditorFile_refl [simp]: "sameEditorFile own f f"
  by (simp add: sameEditorFile_def)

text \<open>In an owner build the key tells apart path and runtime owner, and nothing else.\<close>

lemma sameEditorFile_own:
  "sameEditorFile True a b \<longleftrightarrow> ef_filePath a = ef_filePath b
     \<and> runtimeKeyOf (valueOf (ef_runtimeEnvironmentId a)) = runtimeKeyOf (valueOf (ef_runtimeEnvironmentId b))"
  (is "?L \<longleftrightarrow> ?R")
proof
  assume ?L
  then show ?R
    unfolding sameEditorFile_def editorFileKey_def ownedIdOf_def
    by (auto dest: ownedEditorFileId_inj)
next
  assume ?R
  then show ?L by (simp add: sameEditorFile_def editorFileKey_def ownedIdOf_def ownedEditorFileId_def)
qed

lemma editorTabFiles_shown:
  "f \<in> set (editorTabFiles own ws e) \<Longrightarrow>
     f \<in> set (orElse (ws_editorFiles ws) []) \<and> editorTabShowsFile own e f (ws_worktreeId ws)"
  by (auto simp: editorTabFiles_def Let_def split: if_splits)

text \<open>A tab whose file has a record shows one.\<close>

lemma editorTabFiles_not_Nil:
  "holdsEditorFileId own ws e \<Longrightarrow> editorTabFiles own ws e \<noteq> []"
  by (auto simp: holdsEditorFileId_def editorTabFiles_def Let_def list_ex_iff filter_empty_conv)

lemma editorTabFile_total: "holdsEditorFileId own ws e \<longleftrightarrow> editorTabFile own ws e \<noteq> None"
proof (cases own)
  case True
  have "editorTabFiles own ws e \<noteq> [] \<Longrightarrow> holdsEditorFileId own ws e"
    using editorTabFiles_shown [of "hd (editorTabFiles own ws e)" own ws e]
    by (auto simp: holdsEditorFileId_def list_ex_iff)
  with True editorTabFiles_not_Nil [of own ws e] show ?thesis
    by (auto simp: editorTabFile_def split: list.splits)
next
  case False
  then show ?thesis
    by (auto simp: editorTabFile_def holdsEditorFileId_def list_ex_iff find_None_iff)
qed

text \<open>Closing a tab keeps the record of every file another tab shows.\<close>

lemma keptAfterEditorClose_shown:
  assumes "t \<in> set afterTabs" "editorTabFile own before (tb_entityId t) = Some f" "own"
  shows "keptAfterEditorClose own before afterTabs e f"
proof -
  have "f \<in> set (editorTabFiles own before (tb_entityId t))"
    using assms(2,3) by (auto simp: editorTabFile_def split: list.splits)
  with assms(1) show ?thesis by (auto simp: keptAfterEditorClose_def Let_def)
qed

end
