(* ===== verification/Tab_Commands.thy ===== *)
theory Tab_Commands
  imports Removal Editor_Files
begin

text \<open>
  Commands on tabs: \<open>workspace-layout-tab-commands.ts\<close>, \<open>workspace-layout-tab-rename.ts\<close>,
  \<open>workspace-layout-terminal-adoption.ts\<close>, \<open>workspace-layout-initial-surface.ts\<close> and the content
  types of \<open>tab-order.ts\<close>.

  A command is a record of the fields its handler reads.  Where the source writes
  \<open>model.workspaces[command.workspace]!\<close> the handler is run on \<open>workspaceOrEmpty\<close>: the dispatcher
  has refused a command whose workspace is missing.
\<close>

section \<open>The first surface of a workspace\<close>

datatype initialSurfaceReason = RestoreReason | ActivationReason

definition admitsInitialSurface ::
  "workspaceLayoutModel \<Rightarrow> string \<Rightarrow> initialSurfaceReason \<Rightarrow> bool" where
  "admitsInitialSurface m key reason \<longleftrightarrow>
     (case workspaceAt m key of None \<Rightarrow> True | Some ws \<Rightarrow> ws_tabs ws = [])
     \<and> (reason = ActivationReason \<or> map_of (lg_terminalRowOwners (md_legacy m)) key = None)"

section \<open>Adopting a live terminal\<close>

record liveTerminalAdoption =
  ad_ptyId :: string
  ad_incarnationId :: "string option"
  ad_recordedPaneKey :: "string option"

definition paneResult :: "layoutTab \<Rightarrow> string \<Rightarrow> layoutCommandResult" where
  "paneResult t leafId = noResult\<lparr>rs_tabId := Some (tb_id t), rs_leafId := Some leafId,
     rs_paneKey := Some (paneKeyOf (tb_entityId t) leafId)\<rparr>"

text \<open>The first tab, in storage order, with a pane bound to the terminal.\<close>

fun showingPane :: "workspaceLayout \<Rightarrow> string \<Rightarrow> layoutTab list \<Rightarrow> (layoutTab \<times> string) option" where
  "showingPane ws ptyId [] = None"
| "showingPane ws ptyId (t # ts) =
     (case List.find (\<lambda>l. ptyAt ws l = Some ptyId) (leafIdsOf t) of
        Some l \<Rightarrow> (if l \<noteq> [] then Some (t, l) else showingPane ws ptyId ts)
      | None \<Rightarrow> showingPane ws ptyId ts)"

definition heldPaneOfTerminal ::
  "workspaceLayout \<Rightarrow> liveTerminalAdoption \<Rightarrow> (layoutTab \<times> string) option" where
  "heldPaneOfTerminal ws ad =
     (case showingPane ws (ad_ptyId ad) (ws_tabs ws) of
        Some held \<Rightarrow> Some held
      | None \<Rightarrow>
          (case (if truthy (ad_recordedPaneKey ad)
                 then locatePane ws (the (ad_recordedPaneKey ad)) else None) of
             Some (t, l) \<Rightarrow> (if truthy (ptyAt ws l) then None else Some (t, l))
           | None \<Rightarrow> None))"

text \<open>\<open>{ ...leaf, ...adoptedLeaf(adoption) }\<close>.\<close>

definition withAdopted :: "liveTerminalAdoption \<Rightarrow> layoutLeaf \<Rightarrow> layoutLeaf" where
  "withAdopted ad leaf =
     (let bound = leaf\<lparr>lf_ptyId := Some (ad_ptyId ad)\<rparr>
      in if truthy (ad_incarnationId ad)
         then bound\<lparr>lf_incarnationId := ad_incarnationId ad\<rparr> else bound)"

definition adoptedLeaf :: "liveTerminalAdoption \<Rightarrow> layoutLeaf" where
  "adoptedLeaf ad = withAdopted ad emptyLeaf"

definition appliedHeldAdoption ::
  "workspaceLayoutModel \<Rightarrow> string \<Rightarrow> liveTerminalAdoption \<Rightarrow> applied option" where
  "appliedHeldAdoption m key ad =
     (case workspaceAt m key of None \<Rightarrow> None
      | Some ws \<Rightarrow>
          (case heldPaneOfTerminal ws ad of None \<Rightarrow> None
           | Some (t, l) \<Rightarrow>
               if ptyAt ws l = Some (ad_ptyId ad) then Some (appliedWith m (paneResult t l))
               else Some (appliedWith
                      (withWorkspace m key (setLeaf ws l (withAdopted ad (leafOr ws l))))
                      (paneResult t l))))"

section \<open>Creating a terminal tab\<close>

record newGroupSplit =
  ng_besideGroupId :: string
  ng_besideLastGroupId :: "string option"
  ng_direction :: groupSide

record createTerminalTabCommand =
  ct_workspace :: string
  ct_tabId :: "string option"
  ct_leafId :: "string option"
  ct_placement :: tabPlacement
  ct_title :: "string option"
  ct_color :: "string option"
  ct_viewMode :: "view_mode option"
  ct_createdAt :: "int option"
  ct_quickCommandLabel :: "string option"
  ct_creation :: terminalCreation
  ct_initial :: "initialSurfaceReason option"
  ct_adopt :: "liveTerminalAdoption option"
  ct_split :: "newGroupSplit option"

definition nextTerminalTitle :: "layoutTab list \<Rightarrow> string" where
  "nextTerminalTitle tabs =
     terminalTitle (the (getNextTerminalOrdinal
       (concat (map (\<lambda>t. case tb_body t of
            TerminalBody c _ \<Rightarrow> [orElse (tc_defaultTitle c) []]
          | ContentBody _ \<Rightarrow> []) tabs))))"

text \<open>\<open>{ defaultTitle, ...creation }\<close>.\<close>

definition creationOver :: "string \<Rightarrow> terminalCreation \<Rightarrow> terminalCreation" where
  "creationOver title creation =
     creation\<lparr>tc_defaultTitle := orElseOpt (tc_defaultTitle creation) (Some title)\<rparr>"

definition newTab :: "string \<Rightarrow> string \<Rightarrow> int \<Rightarrow> tab_body \<Rightarrow> layoutTab" where
  "newTab i entityId createdAt body = \<lparr>tb_id = i, tb_entityId = entityId, tb_createdAt = createdAt,
     tb_customTitle = None, tb_generatedTitle = Absent, tb_aiVaultTitle = Absent,
     tb_quickCommandLabel = Absent, tb_color = None, tb_isPinned = None, tb_viewMode = None,
     tb_isPreview = None, tb_agentSessionAgent = None, tb_body = body\<rparr>"

definition createdTerminal ::
  "workspaceLayout \<Rightarrow> createTerminalTabCommand \<Rightarrow> layoutContext \<Rightarrow> layoutTab \<times> string" where
  "createdTerminal ws c cx =
     (let i = orElse (ct_tabId c) (cx_mint cx MintTab);
          leafId = orElse (ct_leafId c) (cx_mintLeafId cx)
      in ((newTab i i (orElse (ct_createdAt c) (cx_now cx))
            (TerminalBody (creationOver (nextTerminalTitle (ws_tabs ws)) (ct_creation c))
              \<lparr>tp_root = Some (Leaf leafId), tp_chatLeafId = None\<rparr>))
            \<lparr>tb_customTitle := ct_title c, tb_color := ct_color c,
             tb_quickCommandLabel := (if truthy (ct_quickCommandLabel c)
               then Value (the (ct_quickCommandLabel c)) else Absent),
             tb_viewMode := ct_viewMode c\<rparr>, leafId))"

definition createTerminalTab ::
  "bool \<Rightarrow> workspaceLayoutModel \<Rightarrow> createTerminalTabCommand \<Rightarrow> layoutContext \<Rightarrow> applied" where
  "createTerminalTab own m c cx =
     (let key = ct_workspace c in
      if ct_initial c \<noteq> None \<and> \<not> admitsInitialSurface m key (the (ct_initial c)) then appliedOnly m
      else case Option.bind (ct_adopt c) (appliedHeldAdoption m key) of
          Some held \<Rightarrow> held
        | None \<Rightarrow>
            let ws = workspaceOrEmpty m key;
                (tab, leafId) = createdTerminal ws c cx;
                placed = placeNewTab own ws key tab (ct_placement c) cx;
                result = paneResult tab leafId
            in (case ct_adopt c of
                  Some ad \<Rightarrow>
                    appliedWith (withWorkspace m key (placed\<lparr>ws_leaves :=
                      Some (AList.update leafId (adoptedLeaf ad) (orElse (ws_leaves placed) []))\<rparr>)) result
                | None \<Rightarrow>
                    Applied (withWorkspace m key placed) result
                      (noEffects\<lparr>fx_startPaneKeys := [paneKeyOf (tb_entityId tab) leafId]\<rparr>) []))"

section \<open>Closing tabs\<close>

definition closeTabIn :: "bool \<Rightarrow> workspaceLayout \<Rightarrow> layoutTab \<Rightarrow> workspaceLayout" where
  "closeTabIn own ws tab =
     (let tabId = tb_id tab;
          n0 = removeTabFromWorkspace ws tabId;
          n1 = (if isTerminal tab \<and> ws_leaves n0 \<noteq> None
                then n0\<lparr>ws_leaves := filterRecord (ws_leaves n0) (\<lambda>l _. l \<notin> set (leafIdsOf tab))\<rparr>
                else n0);
          n2 = (if isKind Editor tab \<and> ws_editorFiles n1 \<noteq> None
                   \<and> \<not> list_ex (\<lambda>t. tb_entityId t = tb_entityId tab) (ws_tabs n1)
                then n1\<lparr>ws_editorFiles := map_option (filter (\<lambda>file.
                       if own then keptAfterEditorClose own ws (ws_tabs n1) (tb_entityId tab) file
                       else \<not> editorTabShowsFile own (tb_entityId tab) file (ws_worktreeId n1)))
                     (ws_editorFiles n1)\<rparr>
                else n1);
          n3 = n2\<lparr>ws_editorViews := withoutKey (ws_editorViews n2) tabId\<rparr>
      in if isKind Browser tab
         then n3\<lparr>ws_browserTabs :=
                map_option (filter (\<lambda>b. bt_id b \<noteq> tb_entityId tab)) (ws_browserTabs n3)\<rparr>
         else n3)"

definition closeTab :: "bool \<Rightarrow> workspaceLayoutModel \<Rightarrow> string \<Rightarrow> string \<Rightarrow> workspaceLayoutModel" where
  "closeTab own m key tabId =
     (let ws = workspaceOrEmpty m key
      in withWorkspace m key (closeTabIn own ws (the (findTab ws tabId))))"

record closeTabsCommand =
  xt_workspace :: string
  xt_tabIds :: "string list"
  xt_force :: bool
  xt_refusePinned :: bool
  xt_dirtyTabIds :: "string list"
  xt_recordClose :: "close_reason option"

record closeProgress =
  cp_model :: workspaceLayoutModel
  cp_closed :: "string list"
  cp_recorded :: "string list"
  cp_refused :: "(string \<times> close_refusal) list"
  cp_stopPtyIds :: "string list"

definition closeStep :: "bool \<Rightarrow> closeTabsCommand \<Rightarrow> closeProgress \<Rightarrow> string \<Rightarrow> closeProgress" where
  "closeStep own c p tabId =
     (let ws = workspaceOrEmpty (cp_model p) (xt_workspace c) in
      case findTab ws tabId of
        None \<Rightarrow> p\<lparr>cp_closed := cp_closed p @ [tabId], cp_recorded := cp_recorded p @ [tabId]\<rparr>
      | Some tab \<Rightarrow>
          if \<not> xt_force c \<and> xt_refusePinned c \<and> tb_isPinned tab = Some True
          then p\<lparr>cp_refused := cp_refused p @ [(tabId, TabPinned)]\<rparr>
          else if \<not> xt_force c \<and> tabId \<in> set (xt_dirtyTabIds c)
          then p\<lparr>cp_refused := cp_refused p @ [(tabId, EditorTabHasUnsavedDraft)]\<rparr>
          else p\<lparr>cp_model := closeTab own (cp_model p) (xt_workspace c) tabId,
                 cp_closed := cp_closed p @ [tabId],
                 cp_recorded := cp_recorded p @ (if isTerminal tab then [tb_entityId tab] else []),
                 cp_stopPtyIds := cp_stopPtyIds p @ boundPtyIds ws tab\<rparr>)"

definition recordClosedTerminalTabs ::
  "workspaceLayoutModel \<Rightarrow> string \<Rightarrow> string list \<Rightarrow> layoutClosedTab \<Rightarrow> workspaceLayoutModel" where
  "recordClosedTerminalTabs m key ids record =
     (let ws = workspaceOrEmpty m key
      in withWorkspace m key (ws\<lparr>ws_closedTerminalTabs :=
           Some (fold (\<lambda>i r. AList.update i record r) ids (orElse (ws_closedTerminalTabs ws) []))\<rparr>))"

definition closeProgressOf :: "bool \<Rightarrow> workspaceLayoutModel \<Rightarrow> closeTabsCommand \<Rightarrow> closeProgress" where
  "closeProgressOf own m c = foldl (closeStep own c)
     \<lparr>cp_model = m, cp_closed = [], cp_recorded = [], cp_refused = [], cp_stopPtyIds = []\<rparr>
     (xt_tabIds c)"

text \<open>\<open>now\<close> is the time of the context, or \<open>None\<close> when the command runs without one.\<close>

definition closeTabs ::
  "bool \<Rightarrow> workspaceLayoutModel \<Rightarrow> closeTabsCommand \<Rightarrow> int option \<Rightarrow> applied" where
  "closeTabs own m c now =
     (let p = closeProgressOf own m c;
          next = (if xt_recordClose c \<noteq> None \<and> now \<noteq> None \<and> cp_recorded p \<noteq> []
                  then recordClosedTerminalTabs (cp_model p) (xt_workspace c) (cp_recorded p)
                         \<lparr>cl_closedAt = the now, cl_reason = xt_recordClose c\<rparr>
                  else cp_model p)
      in Applied next (noResult\<lparr>rs_closed := Some (cp_closed p), rs_refused := Some (cp_refused p)\<rparr>)
           (noEffects\<lparr>fx_stopPtyIds := cp_stopPtyIds p\<rparr>) [])"

section \<open>Titles and properties\<close>

record expectedTitle =
  xp_entityId :: string
  xp_executionHostId :: string
  xp_customTitle :: string

datatype tabTitle =
    CustomTitle "string option" "expectedTitle option"
  | GeneratedTitle "string option" bool
  | AiVaultTitle "aiVaultTitle option"

fun nullable :: "'a option \<Rightarrow> 'a optnull" where
  "nullable None = Null"
| "nullable (Some x) = Value x"

definition renameTab :: "workspaceLayoutModel \<Rightarrow> string \<Rightarrow> string \<Rightarrow> tabTitle \<Rightarrow> applied" where
  "renameTab m key tabId title =
     (let ws = workspaceOrEmpty m key in
      case findTab ws tabId of
        None \<Rightarrow> Refused TabNotFound
      | Some tab \<Rightarrow>
          (case title of
             AiVaultTitle t \<Rightarrow> updateTab m key ws (tab\<lparr>tb_aiVaultTitle := nullable t\<rparr>)
           | CustomTitle t expected \<Rightarrow>
               if (case expected of None \<Rightarrow> False | Some e \<Rightarrow>
                     \<not> isKind AgentSession tab \<or> tb_entityId tab \<noteq> xp_entityId e
                     \<or> md_hostId m \<noteq> xp_executionHostId e
                     \<or> tb_customTitle tab \<noteq> Some (xp_customTitle e))
               then Refused TabNotFound
               else updateTab m key ws (tab\<lparr>tb_customTitle := t\<rparr>)
           | GeneratedTitle t replaceExisting \<Rightarrow>
               if (case valueOf (tb_generatedTitle tab) of None \<Rightarrow> False | Some g \<Rightarrow> trim g \<noteq> [])
                  \<and> \<not> replaceExisting
               then Refused GeneratedTitleKept
               else updateTab m key ws (tab\<lparr>tb_generatedTitle := nullable t\<rparr>)))"

record setTabPropsCommand =
  sp_workspace :: string
  sp_tabId :: string
  sp_color :: "string optnull"
  sp_isPinned :: "bool option"
  sp_viewMode :: "view_mode option"
  sp_clearLaunchAgent :: bool

definition withProps :: "setTabPropsCommand \<Rightarrow> layoutTab \<Rightarrow> layoutTab" where
  "withProps c tab =
     tab\<lparr>tb_color := (case sp_color c of Absent \<Rightarrow> tb_color tab | Null \<Rightarrow> None | Value v \<Rightarrow> Some v),
         tb_isPinned := orElseOpt (sp_isPinned c) (tb_isPinned tab),
         tb_viewMode := orElseOpt (sp_viewMode c) (tb_viewMode tab),
         tb_body := (case tb_body tab of
             TerminalBody cr p \<Rightarrow>
               TerminalBody (if sp_clearLaunchAgent c then cr\<lparr>tc_launchAgent := None\<rparr> else cr) p
           | ContentBody k \<Rightarrow> ContentBody k)\<rparr>"

definition setTabProps :: "workspaceLayoutModel \<Rightarrow> setTabPropsCommand \<Rightarrow> applied" where
  "setTabProps m c =
     (let ws = workspaceOrEmpty m (sp_workspace c) in
      case findTab ws (sp_tabId c) of
        None \<Rightarrow> Refused TabNotFound
      | Some tab \<Rightarrow>
          if sp_clearLaunchAgent c \<and> \<not> isTerminal tab then Refused InvalidParams
          else
            let updated = replaceTab ws (withProps c tab);
                moved = (if sp_isPinned c \<noteq> None \<and> sp_isPinned c \<noteq> Some (tb_isPinned tab = Some True)
                  then updated\<lparr>ws_groups := map (\<lambda>g.
                         if tb_id tab \<in> set (gr_tabOrder g)
                         then g\<lparr>gr_tabOrder := partitionPinnedTabOrder (gr_tabOrder g)
                                 (pinnedTabs (ws_tabs updated)) (tb_id tab)\<rparr>
                         else g) (ws_groups updated)\<rparr>
                  else updated)
            in appliedOnly (withWorkspace m (sp_workspace c) moved))"

definition setChatPane :: "workspaceLayoutModel \<Rightarrow> string \<Rightarrow> string \<Rightarrow> string option \<Rightarrow> applied" where
  "setChatPane m key tabId leafId =
     (let ws = workspaceOrEmpty m key in
      case findTerminal ws tabId of
        None \<Rightarrow> Refused TabNotFound
      | Some tab \<Rightarrow>
          let panes = the (panesOf tab) in
          if leafId \<noteq> None \<and> \<not> layoutContainsLeafId (tp_root panes) (the leafId)
          then Refused PaneNotFound
          else updateTab m key ws (withPanes (panes\<lparr>tp_chatLeafId := leafId\<rparr>) tab))"

definition promotePreviewTab :: "workspaceLayoutModel \<Rightarrow> string \<Rightarrow> string \<Rightarrow> applied" where
  "promotePreviewTab m key tabId =
     (let ws = workspaceOrEmpty m key in
      case findTab ws tabId of
        None \<Rightarrow> Refused TabNotFound
      | Some tab \<Rightarrow> updateTab m key ws (tab\<lparr>tb_isPreview := None\<rparr>))"

section \<open>Placing a content tab\<close>

definition isReplaceablePreviewContentType :: "content_kind \<Rightarrow> bool" where
  "isReplaceablePreviewContentType k \<longleftrightarrow>
     k = Editor \<or> k = Diff \<or> k = ConflictReview \<or> k = CheckDetails"

text \<open>The existing tab's type is \<open>None\<close> for a terminal.\<close>

definition canReplacePreviewContentType :: "content_kind \<Rightarrow> content_kind option \<Rightarrow> bool" where
  "canReplacePreviewContentType incoming existing =
     (if isReplaceablePreviewContentType incoming
      then (case existing of None \<Rightarrow> False | Some k \<Rightarrow> isReplaceablePreviewContentType k)
      else existing = Some incoming)"

definition contentKindOf :: "layoutTab \<Rightarrow> content_kind option" where
  "contentKindOf t = (case tb_body t of ContentBody k \<Rightarrow> Some k | TerminalBody _ _ \<Rightarrow> None)"

definition replacedPreview ::
  "workspaceLayout \<Rightarrow> layoutTab \<Rightarrow> layoutGroup option \<Rightarrow> layoutTab option" where
  "replacedPreview ws tab target =
     (if tb_isPreview tab = Some True
      then List.find (\<lambda>t. tb_isPreview t = Some True
             \<and> (case target of None \<Rightarrow> False | Some g \<Rightarrow> tb_id t \<in> set (gr_tabOrder g))
             \<and> canReplacePreviewContentType (the (contentKindOf tab)) (contentKindOf t)) (ws_tabs ws)
      else None)"

definition placeContentTab ::
  "bool \<Rightarrow> workspaceLayoutModel \<Rightarrow> string \<Rightarrow> layoutTab \<Rightarrow> tabPlacement \<Rightarrow> string list \<Rightarrow> layoutContext
     \<Rightarrow> workspaceLayoutModel \<times> (string \<times> close_refusal) list" where
  "placeContentTab own m key tab placement dirtyTabIds cx =
     (let ws = workspaceOrEmpty m key;
          target = orElseOpt (Option.bind (pl_groupId placement) (findGroup (ws_groups ws)))
            (case ws_groups ws of [] \<Rightarrow> None | g # _ \<Rightarrow> Some g);
          placed = withWorkspace m key (placeNewTab own ws key tab
            (placement\<lparr>pl_groupId := orElseOpt (map_option gr_id target) (pl_groupId placement)\<rparr>) cx)
      in case replacedPreview ws tab target of
           None \<Rightarrow> (placed, [])
         | Some preview \<Rightarrow>
             (case closeTabs own placed \<lparr>xt_workspace = key, xt_tabIds = [tb_id preview],
                   xt_force = False, xt_refusePinned = False, xt_dirtyTabIds = dirtyTabIds,
                   xt_recordClose = None\<rparr> None of
                Applied m' r e oc \<Rightarrow> (m', orElse (rs_refused r) [])
              | Refused _ \<Rightarrow> (placed, [])))"

section \<open>Every command keeps the invariant\<close>

lemma leafIdsOf_update [simp]:
  "leafIdsOf (t\<lparr>tb_customTitle := a\<rparr>) = leafIdsOf t"
  "leafIdsOf (t\<lparr>tb_generatedTitle := b\<rparr>) = leafIdsOf t"
  "leafIdsOf (t\<lparr>tb_aiVaultTitle := v\<rparr>) = leafIdsOf t"
  "leafIdsOf (t\<lparr>tb_isPreview := q\<rparr>) = leafIdsOf t"
  "leafIdsOf (t\<lparr>tb_id := i\<rparr>) = leafIdsOf t"
  "leafIdsOf (t\<lparr>tb_entityId := i\<rparr>) = leafIdsOf t"
  "leafIdsOf (t\<lparr>tb_color := co\<rparr>) = leafIdsOf t"
  "leafIdsOf (t\<lparr>tb_quickCommandLabel := l\<rparr>) = leafIdsOf t"
  "leafIdsOf (t\<lparr>tb_viewMode := vm\<rparr>) = leafIdsOf t"
  "leafIdsOf (t\<lparr>tb_isPinned := p\<rparr>) = leafIdsOf t"
  "leafIdsOf (t\<lparr>tb_createdAt := n\<rparr>) = leafIdsOf t"
  "leafIdsOf (t\<lparr>tb_agentSessionAgent := ag\<rparr>) = leafIdsOf t"
  by (simp_all add: leafIdsOf_def)

lemma leafIdsOf_newTab [simp]:
  "leafIdsOf (newTab i e n (TerminalBody c p)) = optIds (tp_root p)"
  "leafIdsOf (newTab i e n (ContentBody k)) = []" "tb_id (newTab i e n b) = i"
  by (simp_all add: leafIdsOf_def newTab_def)

text \<open>A tab that was found is in a workspace that is there.\<close>

lemma present_tab:
  assumes "t \<in> set (ws_tabs (workspaceOrEmpty m key))"
  shows "workspaceAt m key = Some (workspaceOrEmpty m key)"
  using assms by (cases "workspaceAt m key") (auto simp: emptyWorkspace_def)

lemma ensures_updateFound:
  assumes m: "wf_model E m" and t: "findTab (workspaceOrEmpty m key) i = Some t"
    and t': "tb_id t' = tb_id t" "leafIdsOf t' = leafIdsOf t"
  shows "ensures (wf_model E) (updateTab m key (workspaceOrEmpty m key) t')"
proof -
  have mem: "t \<in> set (ws_tabs (workspaceOrEmpty m key))" using findTab_Some [OF t] by simp
  show ?thesis by (rule ensures_updateTab [OF m present_tab [OF mem] mem t'])
qed

lemma ensures_renameTab: "wf_model E m \<Longrightarrow> ensures (wf_model E) (renameTab m key tabId title)"
  unfolding renameTab_def Let_def
  by (simp add: ensures_updateFound split: option.split tabTitle.split)

lemma ensures_promotePreviewTab: "wf_model E m \<Longrightarrow> ensures (wf_model E) (promotePreviewTab m key tabId)"
  unfolding promotePreviewTab_def Let_def
  by (simp add: ensures_updateFound split: option.split)

lemma findTerminal_findTab: "findTerminal ws i = Some t \<Longrightarrow> findTab ws i = Some t"
  by (auto simp: findTerminal_def split: option.splits if_splits)

lemma ensures_setChatPane: "wf_model E m \<Longrightarrow> ensures (wf_model E) (setChatPane m key tabId leafId)"
proof -
  assume m: "wf_model E m"
  let ?ws = "workspaceOrEmpty m key"
  show ?thesis
  proof (cases "findTerminal ?ws tabId")
    case None
    then show ?thesis by (simp add: setChatPane_def Let_def)
  next
    case (Some t)
    obtain c p where "tb_body t = TerminalBody c p" using findTerminal_Some [OF Some] by blast
    then have "leafIdsOf (withPanes ((the (panesOf t))\<lparr>tp_chatLeafId := leafId\<rparr>) t) = leafIdsOf t"
      by (simp add: panesOf_def)
    from ensures_updateFound [OF m findTerminal_findTab [OF Some] _ this] show ?thesis
      using Some by (simp add: setChatPane_def Let_def)
  qed
qed

text \<open>Orders that hold the same tabs in another order.\<close>

lemma wf_groups_reorder:
  assumes "wf_groups E tabs gs" "distinct tabs"
    and "\<And>g. g \<in> set gs \<Longrightarrow> gr_id (f g) = gr_id g \<and> mset (gr_tabOrder (f g)) = mset (gr_tabOrder g)"
  shows "wf_groups E tabs (map f gs)"
proof -
  have "mset (concat (map gr_tabOrder (map f gs))) = mset (concat (map gr_tabOrder gs))"
    using assms(3) by (induction gs) auto
  moreover have "map (\<lambda>x. gr_id (f x)) gs = map gr_id gs" using assms(3) by simp
  then have "distinct (map (\<lambda>x. gr_id (f x)) gs) = distinct (map gr_id gs)" by (rule arg_cong)
  moreover have "gr_tabOrder (f g) = [] \<longleftrightarrow> gr_tabOrder g = []" if "g \<in> set gs" for g
    using assms(3) [OF that] by (metis mset_zero_iff)
  ultimately show ?thesis
    using assms unfolding wf_groups_mset [OF assms(2)] by (auto simp: comp_def)
qed

lemma mset_partitionPinned:
  assumes "distinct order" "t \<in> set order"
  shows "mset (partitionPinnedTabOrder order tabs t) = mset order"
  using assms by (metis distinct_partitionPinnedTabOrder insert_absorb set_eq_iff_mset_eq_distinct
      set_partitionPinnedTabOrder)

lemma withProps_same [simp]: "tb_id (withProps c t) = tb_id t" "leafIdsOf (withProps c t) = leafIdsOf t"
  by (simp_all add: withProps_def leafIdsOf_def split: tab_body.split)

lemma ensures_setTabProps: "wf_model E m \<Longrightarrow> ensures (wf_model E) (setTabProps m c)"
proof -
  assume m: "wf_model E m"
  let ?ws = "workspaceOrEmpty m (sp_workspace c)"
  show ?thesis
  proof (cases "findTab ?ws (sp_tabId c)")
    case None
    then show ?thesis by (simp add: setTabProps_def Let_def)
  next
    case (Some t)
    then have t: "t \<in> set (ws_tabs ?ws)" by (auto dest: findTab_Some)
    note present = present_tab [OF t]
    note ws = wf_workspaceOrEmpty [OF m, of "sp_workspace c"]
    let ?u = "replaceTab ?ws (withProps c t)"
    let ?f = "\<lambda>g. if tb_id t \<in> set (gr_tabOrder g)
        then g\<lparr>gr_tabOrder := partitionPinnedTabOrder (gr_tabOrder g) (pinnedTabs (ws_tabs ?u)) (tb_id t)\<rparr>
        else g"
    note u = wf_replaceTab_same [OF ws t withProps_same]
    have gs: "wf_groups (E (sp_workspace c)) (tabIds ?u) (ws_groups ?u)" and d: "distinct (tabIds ?u)"
      using u(1) unfolding wf_workspace_def by blast+
    have "distinct (gr_tabOrder g)" if "g \<in> set (ws_groups ?u)" for g
      by (rule wf_groups_order [OF gs that])
    then have gs': "wf_groups (E (sp_workspace c)) (tabIds ?u) (map ?f (ws_groups ?u))"
      by (intro wf_groups_reorder [OF gs d]) (auto simp: mset_partitionPinned)
    have "map gr_id (map ?f (ws_groups ?u)) = groupIds ?u" by simp
    note w = wf_workspace_orders [OF u(1) gs' this]
    have sub: "set (tabIds ?u) \<subseteq> set (tabIds ?ws)" "set (paneIds ?u) \<subseteq> set (paneIds ?ws)"
      using u(2) by simp_all
    have keep: "wf_model E (withWorkspace m (sp_workspace c) v)"
      if "wf_workspace (E (sp_workspace c)) v" "ws_tabs v = ws_tabs ?u" for v
      using that sub by (intro wf_withWorkspace_sub [OF m]) (simp_all add: paneIds_cong [OF that(2)])
    show ?thesis
      using Some keep [OF w] keep [OF u(1)] by (simp add: setTabProps_def Let_def)
  qed
qed

section \<open>Closing tabs keeps the invariant\<close>

lemma closeTabIn_simps:
  "ws_tabs (closeTabIn own ws tab) = filter (\<lambda>u. tb_id u \<noteq> tb_id tab) (ws_tabs ws)"
  "ws_groups (closeTabIn own ws tab) = ws_groups (removeTabFromWorkspace ws (tb_id tab))"
  "ws_groupLayout (closeTabIn own ws tab) = ws_groupLayout (removeTabFromWorkspace ws (tb_id tab))"
  "ws_leaves (closeTabIn own ws tab)
     = (if isTerminal tab then filterRecord (ws_leaves ws) (\<lambda>l _. l \<notin> set (leafIdsOf tab))
        else ws_leaves ws)"
  by (auto simp: closeTabIn_def Let_def filterRecord_def)

lemma paneIds_closeTabIn:
  "paneIds (closeTabIn own ws tab) = paneIds (removeTabFromWorkspace ws (tb_id tab))"
  by (simp add: paneIds_def closeTabIn_simps)

lemma wf_closeTabIn:
  assumes wf: "wf_workspace E ws" and t: "tab \<in> set (ws_tabs ws)"
  shows "wf_workspace E (closeTabIn own ws tab)"
proof -
  from wf have dt: "distinct (tabIds ws)" and dp: "distinct (paneIds ws)"
    and lv: "wf_leaves (paneIds ws) (ws_leaves ws)" by (simp_all add: wf_workspace_def)
  note panes = paneIds_removeTab [OF dt dp t]
  have "wf_leaves (paneIds (removeTabFromWorkspace ws (tb_id tab))) (ws_leaves (closeTabIn own ws tab))"
  proof (cases "isTerminal tab")
    case True
    then show ?thesis
      unfolding closeTabIn_simps using panes by (auto intro!: wf_leaves_filterRecord [OF lv])
  next
    case False
    then have "leafIdsOf tab = []" by (auto simp: isTerminal_def leafIdsOf_def split: tab_body.splits)
    with panes lv False show ?thesis unfolding closeTabIn_simps by (simp add: wf_leaves_def)
  qed
  from wf_removeTab [OF wf this] show ?thesis
    by (rule iffD1 [OF wf_workspace_cong, rotated -1]) (simp_all add: closeTabIn_simps)
qed

lemma wf_closeTab:
  assumes m: "wf_model E m" and t: "findTab (workspaceOrEmpty m key) i = Some t"
  shows "wf_model E (closeTab own m key i)"
proof -
  let ?ws = "workspaceOrEmpty m key"
  have mem: "t \<in> set (ws_tabs ?ws)" using findTab_Some [OF t] by simp
  have "wf_workspace (E key) (closeTabIn own ?ws t)"
    by (rule wf_closeTabIn [OF wf_workspaceOrEmpty [OF m] mem])
  then show ?thesis
    unfolding closeTab_def Let_def t option.sel
    by (intro wf_withWorkspace_sub [OF m])
      (auto simp: closeTabIn_simps paneIds_closeTabIn subsetD [OF paneIds_removeTab_sub])
qed

lemma wf_closeStep: "wf_model E (cp_model p) \<Longrightarrow> wf_model E (cp_model (closeStep own c p i))"
  by (simp add: closeStep_def Let_def wf_closeTab split: option.split)

lemma wf_closeProgress: "wf_model E m \<Longrightarrow> wf_model E (cp_model (closeProgressOf own m c))"
proof -
  have "wf_model E (cp_model p) \<Longrightarrow> wf_model E (cp_model (foldl (closeStep own c) p is))" for p "is"
    by (induction "is" arbitrary: p) (simp_all add: wf_closeStep)
  then show "wf_model E m \<Longrightarrow> wf_model E (cp_model (closeProgressOf own m c))"
    by (simp add: closeProgressOf_def)
qed

lemma wf_recordClosed: "wf_model E m \<Longrightarrow> wf_model E (recordClosedTerminalTabs m key ids r)"
  unfolding recordClosedTerminalTabs_def Let_def
  by (intro wf_withWorkspace_sub) (simp_all add: wf_workspaceOrEmpty)

lemma ensures_closeTabs: "wf_model E m \<Longrightarrow> ensures (wf_model E) (closeTabs own m c now)"
  by (simp add: closeTabs_def Let_def wf_recordClosed wf_closeProgress)

section \<open>New tabs keep the invariant\<close>

text \<open>
  A new tab under an id no tab has, with panes no tab has, goes to a group, which is then not
  empty.
\<close>

lemma wf_placeTab:
  assumes m: "wf_model E m" and fresh: "tb_id tab \<notin> set (allTabIds m)"
    and panes: "distinct (leafIdsOf tab)" "set (leafIdsOf tab) \<inter> set (allPaneIds m) = {}"
    and lv: "wf_leaves (paneIds (workspaceOrEmpty m key) @ leafIdsOf tab) leaves"
  shows "wf_model (E(key := E key - {landingGroup own (workspaceOrEmpty m key) key placement cx}))
     (withWorkspace m key ((placeNewTab own (workspaceOrEmpty m key) key tab placement cx)
        \<lparr>ws_leaves := leaves\<rparr>))"
proof -
  let ?ws = "workspaceOrEmpty m key"
  let ?p = "placeNewTab own ?ws key tab placement cx"
  have "tb_id tab \<notin> set (tabIds ?ws)" "set (leafIdsOf tab) \<inter> set (paneIds ?ws) = {}"
    using fresh panes workspaceOrEmpty_sub [of m key] by blast+
  from wf_placeNewTab [OF wf_workspaceOrEmpty [OF m] this(1) panes(1) this(2)]
  have "wf_workspace (E key - {landingGroup own ?ws key placement cx}) (?p\<lparr>ws_leaves := leaves\<rparr>)"
    using lv unfolding wf_workspace_def paneIds_update by simp
  from wf_withWorkspace_fresh_at [OF m this, where k = key and T = "{tb_id tab}" and P = "set (leafIdsOf tab)"]
  show ?thesis using fresh panes by simp
qed

lemma wf_model_less: "wf_model (E(k := E k - A)) m \<Longrightarrow> wf_model E m"
  by (erule wf_model_mono) auto

lemma ensures_createTerminalTab:
  assumes m: "wf_model E m"
    and fresh: "orElse (ct_tabId c) (cx_mint cx MintTab) \<notin> set (allTabIds m)"
      "orElse (ct_leafId c) (cx_mintLeafId cx) \<notin> set (allPaneIds m)"
  shows "ensures (wf_model E) (createTerminalTab own m c cx)"
proof -
  let ?key = "ct_workspace c"
  let ?ws = "workspaceOrEmpty m ?key"
  obtain tab leaf where tl: "createdTerminal ?ws c cx = (tab, leaf)" by force
  then have t: "tb_id tab \<notin> set (allTabIds m)" "leafIdsOf tab = [leaf]" and l: "leaf \<notin> set (allPaneIds m)"
    using fresh by (auto simp: createdTerminal_def Let_def)
  have held: "ensures (wf_model E) h" if "appliedHeldAdoption m ?key ad = Some h" for ad h
  proof -
    from that obtain ws t k where ws: "workspaceAt m ?key = Some ws"
      and f: "heldPaneOfTerminal ws ad = Some (t, k)"
      and h: "h = (if ptyAt ws k = Some (ad_ptyId ad) then appliedWith m (paneResult t k)
        else appliedWith (withWorkspace m ?key (setLeaf ws k (withAdopted ad (leafOr ws k)))) (paneResult t k))"
      by (auto simp: appliedHeldAdoption_def split: option.splits if_splits)
    have "k \<in> set (paneIds ws)"
    proof -
      have "showingPane ws p ts = Some (t, k) \<Longrightarrow> t \<in> set ts \<and> k \<in> set (leafIdsOf t)" for p ts
        by (induction ts) (auto split: option.splits if_splits dest: find_SomeD)
      with f show ?thesis
        by (fastforce simp: heldPaneOfTerminal_def set_paneIds dest: locatePane_Some
            split: option.splits if_splits)
    qed
    moreover have "lf_sleeping (withAdopted ad (leafOr ws k)) = None
        \<or> lf_resume (withAdopted ad (leafOr ws k)) = None"
      using wf_leafOr [OF wf_model_lookup [OF m ws], of k] by (simp add: withAdopted_def Let_def)
    ultimately show ?thesis using ensures_setLeaf [OF m ws] h m by simp
  qed
  have lv: "wf_leaves (paneIds ?ws) (ws_leaves ?ws)"
    using wf_workspaceOrEmpty [OF m, of ?key] by (simp add: wf_workspace_def)
  let ?p = "placeNewTab own ?ws ?key tab (ct_placement c) cx"
  have place: "wf_model E (withWorkspace m ?key (?p\<lparr>ws_leaves := ls\<rparr>))"
    if "wf_leaves (paneIds ?ws @ [leaf]) ls" for ls
    by (rule wf_model_less, rule wf_placeTab [OF m t(1)]) (use t(2) l that in simp_all)
  have plain: "wf_model E (withWorkspace m ?key ?p)"
    using place [OF wf_leaves_more [OF lv]] by (simp add: ws_leaves_same)
  have "wf_leaves (paneIds ?ws @ [leaf]) (Some (AList.update leaf (adoptedLeaf ad) (orElse (ws_leaves ?ws) [])))"
    for ad
    by (rule wf_leaves_update [OF wf_leaves_more [OF lv]])
      (simp_all add: adoptedLeaf_def withAdopted_def emptyLeaf_def Let_def)
  note bound = place [OF this]
  show ?thesis
    using m tl plain bound held
    by (simp add: createTerminalTab_def Let_def split: option.split)
qed

interpretation terminal_open: tab_opener "\<lambda>m. createTerminalTab own m c cx"
  "\<lambda>tabs panes. orElse (ct_tabId c) (cx_mint cx MintTab) \<notin> set tabs
     \<and> orElse (ct_leafId c) (cx_mintLeafId cx) \<notin> set panes" for own c cx
  by unfold_locales (simp add: ensures_createTerminalTab)

lemma landingGroup_named:
  "pl_groupId placement = Some g \<Longrightarrow> g \<in> set (groupIds ws) \<Longrightarrow>
     landingGroup own ws key placement cx = g"
  by (cases "findGroup (ws_groups ws) g")
    (auto simp: landingGroup_def placementGroup_def findGroup_None dest: findGroup_Some)

text \<open>The group a content tab is placed in.\<close>

definition contentTarget :: "workspaceLayout \<Rightarrow> tabPlacement \<Rightarrow> layoutGroup option" where
  "contentTarget ws placement = orElseOpt (Option.bind (pl_groupId placement) (findGroup (ws_groups ws)))
     (case ws_groups ws of [] \<Rightarrow> None | g # _ \<Rightarrow> Some g)"

abbreviation contentPlacement :: "workspaceLayout \<Rightarrow> tabPlacement \<Rightarrow> tabPlacement" where
  "contentPlacement ws placement \<equiv> placement\<lparr>pl_groupId :=
     orElseOpt (map_option gr_id (contentTarget ws placement)) (pl_groupId placement)\<rparr>"

lemma wf_placeContentTab:
  fixes key :: string
  assumes m: "wf_model E m" and fresh: "tb_id tab \<notin> set (allTabIds m)" and content: "leafIdsOf tab = []"
  defines "ws \<equiv> workspaceOrEmpty m key"
  shows "wf_model (E(key := E key - {landingGroup own ws key (contentPlacement ws placement) cx}))
     (fst (placeContentTab own m key tab placement dirty cx))"
proof -
  let ?pl = "contentPlacement ws placement"
  let ?p = "placeNewTab own ws key tab ?pl cx"
  let ?F = "E(key := E key - {landingGroup own ws key ?pl cx})"
  let ?placed = "withWorkspace m key ?p"
  have lv: "wf_leaves (paneIds ws @ leafIdsOf tab) (ws_leaves ws)"
    using wf_workspaceOrEmpty [OF m, of key] content by (simp add: wf_workspace_def ws_def)
  have placed: "wf_model ?F ?placed"
    using wf_placeTab [OF m fresh, of key "ws_leaves ws" own ?pl cx] content lv
    by (simp add: ws_def ws_leaves_same)
  have closing: "ensures (wf_model ?F) (closeTabs own ?placed c now)" for c now
    by (rule ensures_closeTabs [OF placed])
  have "fst (case closeTabs own ?placed c now of
      Applied m' r e oc \<Rightarrow> (m', orElse (rs_refused r) []) | Refused _ \<Rightarrow> (?placed, []))
      = (case closeTabs own ?placed c now of Applied m' r e oc \<Rightarrow> m' | Refused _ \<Rightarrow> ?placed)" for c now
    by (simp split: applied.split)
  moreover have "wf_model ?F (case closeTabs own ?placed c now of
      Applied m' r e oc \<Rightarrow> m' | Refused _ \<Rightarrow> ?placed)" for c now
    using closing [of c now] placed by (cases "closeTabs own ?placed c now") simp_all
  ultimately show ?thesis
    using placed unfolding placeContentTab_def Let_def ws_def [symmetric] contentTarget_def [symmetric]
    by (simp split: option.split)
qed

end
