(* ===== verification/Content_Commands.thy ===== *)
theory Content_Commands
  imports Tab_Commands
begin

text \<open>
  Commands that open content tabs and change browser records:
  \<open>workspace-layout-content-commands.ts\<close>, \<open>workspace-layout-simulator-tab.ts\<close> and
  \<open>workspace-layout-browser-commands.ts\<close>.
\<close>

section \<open>Shared steps\<close>

text \<open>Tab ids a window drew itself make its open idempotent; \<open>None\<close> goes on to create.\<close>

definition drawnTabOpen ::
  "workspaceLayoutModel \<Rightarrow> string \<Rightarrow> string option \<Rightarrow> (layoutTab \<Rightarrow> bool) \<Rightarrow> bool \<Rightarrow> applied option" where
  "drawnTabOpen m key tabId sameContent refuseTaken =
     (if \<not> truthy tabId then None
      else
        let i = the tabId;
            drawn = Option.bind (workspaceAt m key) (\<lambda>ws. findTab ws i)
        in if (case drawn of None \<Rightarrow> False | Some t \<Rightarrow> sameContent t)
           then Some (appliedWith m (noResult\<lparr>rs_tabId := Some i\<rparr>))
           else if refuseTaken \<and> i \<in> set (allTabIds m) then Some (Refused TabExists)
           else None)"

text \<open>A workspace with no group takes the sender's.\<close>

definition withSendersGroup ::
  "workspaceLayoutModel \<Rightarrow> string \<Rightarrow> string option \<Rightarrow> workspaceLayoutModel" where
  "withSendersGroup m key groupId =
     (if \<not> truthy groupId
         \<or> (case workspaceAt m key of None \<Rightarrow> False | Some ws \<Rightarrow> ws_groups ws \<noteq> []) then m
      else withWorkspace m key ((workspaceOrEmpty m key)
             \<lparr>ws_groups := [\<lparr>gr_id = the groupId, gr_tabOrder = []\<rparr>]\<rparr>))"

definition withEditorFile ::
  "bool \<Rightarrow> workspaceLayoutModel \<Rightarrow> string \<Rightarrow> layoutEditorFile option \<Rightarrow> workspaceLayoutModel" where
  "withEditorFile own m key file = (case file of None \<Rightarrow> m
     | Some f \<Rightarrow>
         let ws = workspaceOrEmpty m key;
             files = filter (\<lambda>e. \<not> sameEditorFile own e f) (orElse (ws_editorFiles ws) [])
         in withWorkspace m key (ws\<lparr>ws_editorFiles := Some (files @ [f])\<rparr>))"

definition withEditorView ::
  "workspaceLayoutModel \<Rightarrow> string \<Rightarrow> string \<Rightarrow> layoutEditorView option \<Rightarrow> workspaceLayoutModel" where
  "withEditorView m key tabId view = (case view of None \<Rightarrow> m
     | Some v \<Rightarrow>
         let ws = workspaceOrEmpty m key
         in withWorkspace m key (ws\<lparr>ws_editorViews :=
              Some (AList.update tabId v (orElse (ws_editorViews ws) []))\<rparr>))"

text \<open>A group the command names that the workspace, which has groups, does not hold.\<close>

definition namesMissingGroup :: "workspaceLayoutModel \<Rightarrow> string \<Rightarrow> string option \<Rightarrow> bool" where
  "namesMissingGroup m key groupId \<longleftrightarrow>
     truthy groupId
     \<and> (case workspaceAt m key of None \<Rightarrow> False
        | Some ws \<Rightarrow> ws_groups ws \<noteq> [] \<and> the groupId \<notin> set (groupIds ws))"

section \<open>Editor tabs\<close>

record openEditorTabCommand =
  oe_workspace :: string
  oe_tabId :: "string option"
  oe_fileId :: "string option"
  oe_contentType :: content_kind
  oe_file :: "layoutEditorFile option"
  oe_view :: "layoutEditorView option"
  oe_placement :: tabPlacement
  oe_preview :: bool
  oe_dirtyTabIds :: "string list"
  oe_createdAt :: "int option"
  oe_split :: "newGroupSplit option"

definition openedFileId :: "bool \<Rightarrow> workspaceLayoutModel \<Rightarrow> openEditorTabCommand \<Rightarrow> string option" where
  "openedFileId own m c =
     orElseOpt (oe_fileId c)
       (map_option (editorOpenFileId own (workspaceOrEmpty m (oe_workspace c))) (oe_file c))"

definition newEditorTab :: "openEditorTabCommand \<Rightarrow> string \<Rightarrow> layoutContext \<Rightarrow> layoutTab" where
  "newEditorTab c fileId cx =
     (newTab (if truthy (oe_tabId c) then the (oe_tabId c) else cx_mint cx MintTab) fileId
        (orElse (oe_createdAt c) (cx_now cx)) (ContentBody (oe_contentType c)))
       \<lparr>tb_isPreview := (if oe_preview c then Some True else None)\<rparr>"

definition shownInGroup ::
  "workspaceLayoutModel \<Rightarrow> workspaceLayoutModel \<Rightarrow> openEditorTabCommand \<Rightarrow> string \<Rightarrow> layoutTab option" where
  "shownInGroup m target c fileId =
     (let key = oe_workspace c;
          groups = (case workspaceAt target key of None \<Rightarrow> [] | Some ws \<Rightarrow> ws_groups ws);
          group0 = orElseOpt (Option.bind (pl_groupId (oe_placement c)) (findGroup groups))
            (case groups of [] \<Rightarrow> None | g # _ \<Rightarrow> Some g)
      in Option.bind (workspaceAt m key) (\<lambda>ws.
           List.find (\<lambda>t. tb_entityId t = fileId \<and> isKind (oe_contentType c) t
             \<and> (case group0 of None \<Rightarrow> False | Some g \<Rightarrow> tb_id t \<in> set (gr_tabOrder g)))
             (ws_tabs ws)))"

definition openEditorTab ::
  "bool \<Rightarrow> workspaceLayoutModel \<Rightarrow> openEditorTabCommand \<Rightarrow> layoutContext \<Rightarrow> applied" where
  "openEditorTab own m c cx =
     (let key = oe_workspace c; fileId = openedFileId own m c in
      if \<not> truthy fileId then Refused InvalidParams
      else
        let fid = the fileId;
            sameFile = (\<lambda>t. tb_entityId t = fid \<and> isKind (oe_contentType c) t);
            gid = pl_groupId (oe_placement c)
        in case drawnTabOpen m key (oe_tabId c) sameFile True of
             Some (Refused code) \<Rightarrow> Refused code
           | Some (Applied m' r e oc) \<Rightarrow>
               if \<not> truthy (oe_tabId c) then Applied m' r e oc
               else appliedWith (withEditorView (withEditorFile own m' key (oe_file c)) key
                      (the (oe_tabId c)) (oe_view c)) r
           | None \<Rightarrow>
               if namesMissingGroup m key gid then Refused GroupNotFound
               else
                 let target = withSendersGroup m key gid in
                 (case shownInGroup m target c fid of
                    Some existing \<Rightarrow>
                      let pinned = (if tb_isPreview existing = Some True \<and> \<not> oe_preview c
                            then orElse (okOf (promotePreviewTab m key (tb_id existing))) m else m)
                      in appliedWith (withEditorView (withEditorFile own pinned key (oe_file c)) key
                           (tb_id existing) (oe_view c))
                           (noResult\<lparr>rs_tabId := Some (tb_id existing)\<rparr>)
                  | None \<Rightarrow>
                      let tab = newEditorTab c fid cx;
                          (placed, refused) = placeContentTab own target key tab (oe_placement c)
                            (oe_dirtyTabIds c) cx
                      in appliedWith (withEditorView (withEditorFile own placed key (oe_file c)) key
                           (tb_id tab) (oe_view c))
                           (noResult\<lparr>rs_tabId := Some (tb_id tab), rs_refused := Some refused\<rparr>)))"

section \<open>Browser tabs\<close>

record openBrowserTabCommand =
  ob_workspace :: string
  ob_profileId :: "string optnull"
  ob_sessionPartition :: "string optnull"
  ob_placement :: tabPlacement
  ob_pageId :: "string option"
  ob_tabId :: "string option"
  ob_browserTabId :: "string option"
  ob_createdAt :: "int option"
  ob_browserCreatedAt :: "int option"
  ob_split :: "newGroupSplit option"

definition holdsBrowserPage :: "workspaceLayoutModel \<Rightarrow> string \<Rightarrow> bool" where
  "holdsBrowserPage m pageId \<longleftrightarrow>
     list_ex (\<lambda>(k, ws). list_ex (\<lambda>b. pageId \<in> set (orElse (bt_pageIds b) []))
       (orElse (ws_browserTabs ws) [])) (md_workspaces m)"

definition takenBrowserTabIds ::
  "workspaceLayoutModel \<Rightarrow> string \<Rightarrow> string \<Rightarrow> string \<Rightarrow> string \<Rightarrow> applied option" where
  "takenBrowserTabIds m key tabId browserTabId pageId =
     (let ownRecord = Option.bind (workspaceAt m key) (\<lambda>ws.
            List.find (\<lambda>b. bt_id b = browserTabId) (orElse (ws_browserTabs ws) []));
          shown = (case workspaceAt m key of None \<Rightarrow> False
            | Some ws \<Rightarrow> list_ex (\<lambda>t. tb_id t = tabId \<and> tb_entityId t = browserTabId) (ws_tabs ws))
      in if (case ownRecord of None \<Rightarrow> False | Some b \<Rightarrow> pageId \<in> set (orElse (bt_pageIds b) [])) \<and> shown
         then Some (appliedWith m (noResult\<lparr>rs_tabId := Some tabId, rs_pageId := Some pageId\<rparr>))
         else if list_ex (\<lambda>(k, ws). list_ex (\<lambda>t. tb_id t \<in> {tabId, browserTabId}
                  \<or> tb_entityId t \<in> {tabId, browserTabId}) (ws_tabs ws)) (md_workspaces m)
         then Some (Refused TabExists)
         else if holdsBrowserPage m pageId then Some (Refused PageExists)
         else None)"

definition browserTabIdOf :: "openBrowserTabCommand \<Rightarrow> layoutContext \<Rightarrow> string" where
  "browserTabIdOf c cx = orElse (ob_browserTabId c) (orElse (ob_pageId c) (cx_mint cx MintBrowserTab))"

definition openBrowserTab ::
  "bool \<Rightarrow> workspaceLayoutModel \<Rightarrow> openBrowserTabCommand \<Rightarrow> layoutContext \<Rightarrow> applied" where
  "openBrowserTab own m c cx =
     (let key = ob_workspace c;
          browserTabId = browserTabIdOf c cx;
          tabId = orElse (ob_tabId c) browserTabId;
          pageId = orElse (ob_pageId c) (cx_mint cx MintPage);
          taken = (if truthy (ob_browserTabId c)
            then takenBrowserTabIds m key tabId browserTabId pageId else None)
      in case taken of Some t \<Rightarrow> t
         | None \<Rightarrow>
             let tab = newTab tabId browserTabId (orElse (ob_createdAt c) (cx_now cx)) (ContentBody Browser);
                 next = fst (placeContentTab own m key tab (ob_placement c) [] cx);
                 ws = workspaceOrEmpty next key;
                 browserTab = \<lparr>bt_id = browserTabId, bt_label = None,
                   bt_sessionProfileId = nullable (valueOf (ob_profileId c)),
                   bt_sessionPartition = (if truthy (valueOf (ob_sessionPartition c))
                     then ob_sessionPartition c else Absent),
                   bt_pageIds = Some [pageId],
                   bt_createdAt = orElse (ob_browserCreatedAt c) (tb_createdAt tab)\<rparr>
             in appliedWith (withWorkspace next key (ws\<lparr>ws_browserTabs :=
                    Some (orElse (ws_browserTabs ws) [] @ [browserTab])\<rparr>))
                  (noResult\<lparr>rs_tabId := Some tabId, rs_pageId := Some pageId\<rparr>))"

section \<open>Agent sessions and simulators\<close>

record openAgentSessionTabCommand =
  oa_workspace :: string
  oa_tabId :: "string option"
  oa_sessionId :: string
  oa_agent :: string
  oa_placement :: tabPlacement
  oa_createdAt :: "int option"
  oa_initial :: "initialSurfaceReason option"
  oa_split :: "newGroupSplit option"

definition openAgentSessionTab ::
  "bool \<Rightarrow> workspaceLayoutModel \<Rightarrow> openAgentSessionTabCommand \<Rightarrow> layoutContext \<Rightarrow> applied" where
  "openAgentSessionTab own m c cx =
     (let key = oa_workspace c in
      if oa_initial c \<noteq> None \<and> \<not> admitsInitialSurface m key (the (oa_initial c)) then appliedOnly m
      else case drawnTabOpen m key (oa_tabId c)
             (\<lambda>t. isKind AgentSession t \<and> tb_entityId t = oa_sessionId c) own of
          Some drawn \<Rightarrow> drawn
        | None \<Rightarrow>
            let tab = (newTab (if truthy (oa_tabId c) then the (oa_tabId c) else cx_mint cx MintTab)
                  (oa_sessionId c) (orElse (oa_createdAt c) (cx_now cx)) (ContentBody AgentSession))
                  \<lparr>tb_agentSessionAgent := Some (oa_agent c)\<rparr>;
                target = withSendersGroup m key (pl_groupId (oa_placement c))
            in appliedWith (fst (placeContentTab own target key tab (oa_placement c) [] cx))
                 (noResult\<lparr>rs_tabId := Some (tb_id tab)\<rparr>))"

record openSimulatorTabCommand =
  os_workspace :: string
  os_tabId :: string
  os_placement :: tabPlacement
  os_createdAt :: "int option"
  os_split :: "newGroupSplit option"

definition openSimulatorTab ::
  "bool \<Rightarrow> workspaceLayoutModel \<Rightarrow> openSimulatorTabCommand \<Rightarrow> layoutContext \<Rightarrow> applied" where
  "openSimulatorTab own m c cx =
     (let key = os_workspace c; gid = pl_groupId (os_placement c) in
      case drawnTabOpen m key (Some (os_tabId c)) (isKind Simulator) True of
        Some drawn \<Rightarrow> drawn
      | None \<Rightarrow>
          if namesMissingGroup m key gid then Refused GroupNotFound
          else
            let tab = newTab (os_tabId c) (os_tabId c) (orElse (os_createdAt c) (cx_now cx))
                  (ContentBody Simulator);
                target = withSendersGroup m key gid
            in appliedWith (fst (placeContentTab own target key tab (os_placement c) [] cx))
                 (noResult\<lparr>rs_tabId := Some (tb_id tab)\<rparr>))"

section \<open>Browser pages\<close>

text \<open>\<open>records.map((entry) => entry === record ? next : entry)\<close> for the first record of an id.\<close>

fun replaceFirst :: "('a \<Rightarrow> bool) \<Rightarrow> 'a \<Rightarrow> 'a list \<Rightarrow> 'a list" where
  "replaceFirst P y [] = []"
| "replaceFirst P y (x # xs) = (if P x then y # xs else x # replaceFirst P y xs)"

text \<open>\<open>change\<close> returns \<open>None\<close> for \<open>'page_exists'\<close>.\<close>

definition withRecord ::
  "workspaceLayoutModel \<Rightarrow> string \<Rightarrow> string \<Rightarrow> (layoutBrowserTab \<Rightarrow> layoutBrowserTab option) \<Rightarrow> applied" where
  "withRecord m key browserTabId change =
     (let ws = workspaceOrEmpty m key; records = orElse (ws_browserTabs ws) [] in
      case List.find (\<lambda>b. bt_id b = browserTabId) records of
        None \<Rightarrow> Refused TabNotFound
      | Some record \<Rightarrow>
          (case change record of
             None \<Rightarrow> Refused PageExists
           | Some next \<Rightarrow>
               appliedWith (withWorkspace m key (ws\<lparr>ws_browserTabs :=
                   Some (replaceFirst (\<lambda>b. bt_id b = browserTabId) next records)\<rparr>))
                 (noResult\<lparr>rs_tabId := Some browserTabId\<rparr>)))"

definition withPageIds ::
  "workspaceLayoutModel \<Rightarrow> string \<Rightarrow> string \<Rightarrow> (string list \<Rightarrow> string list option) \<Rightarrow> applied" where
  "withPageIds m key browserTabId change =
     withRecord m key browserTabId (\<lambda>record.
       map_option (\<lambda>ps. record\<lparr>bt_pageIds := Some ps\<rparr>) (change (orElse (bt_pageIds record) [])))"

definition openBrowserPage :: "workspaceLayoutModel \<Rightarrow> string \<Rightarrow> string \<Rightarrow> string \<Rightarrow> applied" where
  "openBrowserPage m key browserTabId pageId =
     withPageIds m key browserTabId (\<lambda>pageIds.
       if pageId \<in> set pageIds then Some pageIds
       else if holdsBrowserPage m pageId then None
       else Some (pageIds @ [pageId]))"

definition closeBrowserPage :: "workspaceLayoutModel \<Rightarrow> string \<Rightarrow> string \<Rightarrow> string \<Rightarrow> applied" where
  "closeBrowserPage m key browserTabId pageId =
     withPageIds m key browserTabId (\<lambda>pageIds. Some (filter (\<lambda>i. i \<noteq> pageId) pageIds))"

definition replaceBrowserPage ::
  "workspaceLayoutModel \<Rightarrow> string \<Rightarrow> string \<Rightarrow> string \<Rightarrow> string \<Rightarrow> applied" where
  "replaceBrowserPage m key browserTabId pageId newPageId =
     withPageIds m key browserTabId (\<lambda>pageIds.
       if newPageId \<in> set pageIds then Some pageIds
       else if holdsBrowserPage m newPageId then None
       else if pageId \<in> set pageIds
         then Some (map (\<lambda>i. if i = pageId then newPageId else i) pageIds)
         else Some (pageIds @ [newPageId]))"

definition setBrowserTabProfile ::
  "workspaceLayoutModel \<Rightarrow> string \<Rightarrow> string \<Rightarrow> string option \<Rightarrow> string option \<Rightarrow> applied" where
  "setBrowserTabProfile m key browserTabId profileId sessionPartition =
     withRecord m key browserTabId (\<lambda>record.
       Some (record\<lparr>bt_sessionProfileId := nullable profileId,
                    bt_sessionPartition := nullable sessionPartition\<rparr>))"

section \<open>Every command keeps the invariant\<close>

text \<open>Steps that write only content records.\<close>

lemma wf_contentOnly:
  assumes "wf_model E m" "ws_tabs w = ws_tabs (workspaceOrEmpty m key)"
    "ws_groups w = ws_groups (workspaceOrEmpty m key)"
    "ws_groupLayout w = ws_groupLayout (workspaceOrEmpty m key)"
    "ws_leaves w = ws_leaves (workspaceOrEmpty m key)"
  shows "wf_model E (withWorkspace m key w)"
  using wf_workspace_cong [OF assms(2-5), of "E key"] wf_workspaceOrEmpty [OF assms(1), of key]
    assms(2) paneIds_cong [OF assms(2)]
  by (intro wf_withWorkspace_sub [OF assms(1)]) simp_all

lemma wf_withEditorFile: "wf_model E m \<Longrightarrow> wf_model E (withEditorFile own m key f)"
  by (auto simp: withEditorFile_def Let_def intro!: wf_contentOnly split: option.split)

lemma wf_withEditorView: "wf_model E m \<Longrightarrow> wf_model E (withEditorView m key i v)"
  by (auto simp: withEditorView_def Let_def intro!: wf_contentOnly split: option.split)

lemma ensures_withRecord: "wf_model E m \<Longrightarrow> ensures (wf_model E) (withRecord m key b change)"
  by (auto simp: withRecord_def Let_def intro!: wf_contentOnly split: option.split)

lemma ensures_browserPages:
  assumes "wf_model E m"
  shows "ensures (wf_model E) (openBrowserPage m key b p)"
    and "ensures (wf_model E) (closeBrowserPage m key b p)"
    and "ensures (wf_model E) (replaceBrowserPage m key b p q)"
    and "ensures (wf_model E) (setBrowserTabProfile m key b pr pa)"
  using ensures_withRecord [OF assms]
  by (simp_all add: openBrowserPage_def closeBrowserPage_def replaceBrowserPage_def
      setBrowserTabProfile_def withPageIds_def)

lemma drawnTabOpen_ensures:
  "drawnTabOpen m key i same r = Some a \<Longrightarrow> wf_model E m \<Longrightarrow> ensures (wf_model E) a"
  by (auto simp: drawnTabOpen_def Let_def split: if_splits)

lemma drawnTabOpen_fresh:
  "drawnTabOpen m key i same True = None \<Longrightarrow> truthy i \<Longrightarrow> the i \<notin> set (allTabIds m)"
  by (auto simp: drawnTabOpen_def Let_def split: if_splits)

text \<open>The sender's group is empty until the tab is placed in it.\<close>

lemma allTabIds_withWorkspace:
  "map tb_id (ws_tabs w) = tabIds (workspaceOrEmpty m key) \<Longrightarrow>
     allTabIds (withWorkspace m key w) = allTabIds m"
  "paneIds w = paneIds (workspaceOrEmpty m key) \<Longrightarrow>
     allPaneIds (withWorkspace m key w) = allPaneIds m"
proof -
  have same: "concat (map (f \<circ> snd) (AList.update key w es)) = concat (map (f \<circ> snd) es)"
    if "f w = (case map_of es key of None \<Rightarrow> [] | Some v \<Rightarrow> f v)"
    for f :: "workspaceLayout \<Rightarrow> string list" and es
    using that by (induction es) (auto split: if_splits)
  show "map tb_id (ws_tabs w) = tabIds (workspaceOrEmpty m key) \<Longrightarrow>
     allTabIds (withWorkspace m key w) = allTabIds m"
    using same [of tabIds "md_workspaces m"]
    by (simp add: allTabIds_def withWorkspace_def workspaceOrEmpty_def orElse_def split: option.splits)
  show "paneIds w = paneIds (workspaceOrEmpty m key) \<Longrightarrow>
     allPaneIds (withWorkspace m key w) = allPaneIds m"
    using same [of paneIds "md_workspaces m"]
    by (simp add: allPaneIds_def withWorkspace_def workspaceOrEmpty_def orElse_def split: option.splits)
qed

lemma withSendersGroup_ids [simp]:
  "allTabIds (withSendersGroup m key g) = allTabIds m"
  "allPaneIds (withSendersGroup m key g) = allPaneIds m"
  by (simp_all add: withSendersGroup_def allTabIds_withWorkspace)

lemma wf_newGroup:
  assumes wf: "wf_workspace E ws" and g: "g \<notin> set (groupIds ws)"
    and tree: "wf_tree (groupIds ws @ [g]) layout"
  shows "wf_workspace (insert g E)
    (ws\<lparr>ws_groups := ws_groups ws @ [\<lparr>gr_id = g, gr_tabOrder = []\<rparr>], ws_groupLayout := layout\<rparr>)"
proof (rule wf_workspace_groups [OF wf])
  from wf have "wf_groups E (tabIds ws) (ws_groups ws)" by (simp add: wf_workspace_def)
  with g show "wf_groups (insert g E) (tabIds ws) (ws_groups ws @ [\<lparr>gr_id = g, gr_tabOrder = []\<rparr>])"
    by (auto simp: wf_groups_def list_all_iff)
  show "wf_tree (map gr_id (ws_groups ws @ [\<lparr>gr_id = g, gr_tabOrder = []\<rparr>])) layout"
    using tree by simp
qed

lemma wf_placeContent:
  assumes "wf_model E m" "tb_id tab \<notin> set (allTabIds m)" "leafIdsOf tab = []"
  shows "wf_model E (fst (placeContentTab own m key tab placement dirty cx))"
  by (rule wf_model_less, rule wf_placeContentTab [OF assms])

lemma wf_placeSenders:
  assumes m: "wf_model E m" and fresh: "tb_id tab \<notin> set (allTabIds m)" and content: "leafIdsOf tab = []"
    and gid: "pl_groupId placement = gid"
  shows "wf_model E (fst (placeContentTab own (withSendersGroup m key gid) key tab placement dirty cx))"
proof (cases "withSendersGroup m key gid = m")
  case True
  then show ?thesis using wf_placeContent [OF m fresh content] by simp
next
  case False
  let ?ws = "workspaceOrEmpty m key"
  from False have t: "truthy gid" and e: "ws_groups ?ws = []"
    by (cases "workspaceAt m key"; auto simp: withSendersGroup_def emptyWorkspace_def split: if_splits)+
  from t obtain g where g: "gid = Some g" by (rule truthyE)
  let ?w = "?ws\<lparr>ws_groups := [\<lparr>gr_id = g, gr_tabOrder = []\<rparr>]\<rparr>"
  let ?m = "withSendersGroup m key gid"
  let ?E = "E(key := insert g (E key))"
  have sm: "?m = withWorkspace m key ?w" using False g by (auto simp: withSendersGroup_def split: if_splits)
  note ws = wf_workspaceOrEmpty [OF m, of key]
  have l: "ws_groupLayout ?ws = None"
    using ws e by (auto simp: wf_workspace_def wf_tree_def split: option.splits)
  then have same: "?w\<lparr>ws_groupLayout := None\<rparr> = ?w" by simp
  have "wf_workspace (insert g (E key)) (?w\<lparr>ws_groupLayout := None\<rparr>)"
    using wf_newGroup [OF ws, of g None] e by (simp add: wf_tree_def)
  then have "wf_workspace (insert g (E key)) ?w" unfolding same .
  from wf_withWorkspace_fresh_at [OF m this, where k = key and T = "{}" and P = "{}"]
  have wm: "wf_model ?E ?m" unfolding sm by simp
  have "wf_model (?E(key := ?E key - {landingGroup own ?w key (contentPlacement ?w placement) cx}))
     (fst (placeContentTab own ?m key tab placement dirty cx))"
  proof -
    have f: "tb_id tab \<notin> set (allTabIds ?m)" using fresh by simp
    have w: "workspaceOrEmpty ?m key = ?w" using sm by simp
    show ?thesis
      using wf_placeContentTab [OF wm f content, of key own placement cx dirty] unfolding w .
  qed
  moreover have "landingGroup own ?w key (contentPlacement ?w placement) cx = g"
    using gid g by (intro landingGroup_named) (simp_all add: contentTarget_def findGroup_def)
  ultimately show ?thesis by (elim wf_model_mono) auto
qed

text \<open>
  The ids an open must find free.  An editor or simulator open refuses an id that is taken; a
  browser open does when it names its record, an agent session's in an owner build.
\<close>

definition freshEditor :: "openEditorTabCommand \<Rightarrow> layoutContext \<Rightarrow> string list \<Rightarrow> bool" where
  "freshEditor c cx tabs \<longleftrightarrow> truthy (oe_tabId c) \<or> cx_mint cx MintTab \<notin> set tabs"

definition freshBrowser :: "openBrowserTabCommand \<Rightarrow> layoutContext \<Rightarrow> string list \<Rightarrow> bool" where
  "freshBrowser c cx tabs \<longleftrightarrow>
     truthy (ob_browserTabId c) \<or> orElse (ob_tabId c) (browserTabIdOf c cx) \<notin> set tabs"

definition freshAgent :: "bool \<Rightarrow> openAgentSessionTabCommand \<Rightarrow> layoutContext \<Rightarrow> string list \<Rightarrow> bool" where
  "freshAgent own c cx tabs \<longleftrightarrow> own \<and> truthy (oa_tabId c)
     \<or> (if truthy (oa_tabId c) then the (oa_tabId c) else cx_mint cx MintTab) \<notin> set tabs"

definition freshSimulator :: "openSimulatorTabCommand \<Rightarrow> string list \<Rightarrow> bool" where
  "freshSimulator c tabs \<longleftrightarrow> os_tabId c \<noteq> [] \<or> os_tabId c \<notin> set tabs"

lemma leafIdsOf_content [simp]: "leafIdsOf (newEditorTab c f cx) = []"
  by (simp add: newEditorTab_def)

lemma ensures_openEditorTab:
  assumes m: "wf_model E m" and fresh: "freshEditor c cx (allTabIds m)"
  shows "ensures (wf_model E) (openEditorTab own m c cx)"
proof -
  let ?key = "oe_workspace c" and ?gid = "pl_groupId (oe_placement c)"
  have promoted: "wf_model E (orElse (okOf (promotePreviewTab m ?key i)) m)" for i
    using ensures_promotePreviewTab [OF m, of ?key i] m
    by (cases "promotePreviewTab m ?key i") simp_all
  have written: "wf_model E (withEditorView (withEditorFile own n ?key (oe_file c)) ?key i (oe_view c))"
    if "wf_model E n" for n i
    by (intro wf_withEditorView wf_withEditorFile that)
  show ?thesis
  proof (cases "truthy (openedFileId own m c)")
    case True
    let ?fid = "the (openedFileId own m c)"
    let ?same = "\<lambda>t. tb_entityId t = ?fid \<and> isKind (oe_contentType c) t"
    show ?thesis
    proof (cases "drawnTabOpen m ?key (oe_tabId c) ?same True")
      case None
      have "tb_id (newEditorTab c ?fid cx) \<notin> set (allTabIds m)"
        using drawnTabOpen_fresh [OF None] fresh
        by (cases "truthy (oe_tabId c)") (simp_all add: newEditorTab_def freshEditor_def newTab_def)
      from wf_placeSenders [OF m this leafIdsOf_content refl]
      have placed: "wf_model E (fst (placeContentTab own (withSendersGroup m ?key ?gid) ?key
          (newEditorTab c ?fid cx) (oe_placement c) dirty cx))" for dirty .
      show ?thesis
        using True None written [OF placed] written [OF promoted] written [OF m]
        by (simp add: openEditorTab_def Let_def case_prod_beta split: option.split)
    next
      case (Some a)
      from drawnTabOpen_ensures [OF Some m] show ?thesis
        using True Some written by (cases a) (simp_all add: openEditorTab_def Let_def)
    qed
  qed (simp add: openEditorTab_def Let_def)
qed

lemma takenBrowserTabIds_ensures:
  "takenBrowserTabIds m key i b p = Some a \<Longrightarrow> wf_model E m \<Longrightarrow> ensures (wf_model E) a"
  by (auto simp: takenBrowserTabIds_def Let_def split: if_splits)

lemma takenBrowserTabIds_fresh:
  "takenBrowserTabIds m key i b p = None \<Longrightarrow> i \<notin> set (allTabIds m)"
  by (fastforce simp: takenBrowserTabIds_def Let_def allTabIds_def list_ex_iff split: if_splits)

lemma ensures_openBrowserTab:
  assumes m: "wf_model E m" and fresh: "freshBrowser c cx (allTabIds m)"
  shows "ensures (wf_model E) (openBrowserTab own m c cx)"
proof -
  let ?key = "ob_workspace c" and ?b = "browserTabIdOf c cx"
  let ?i = "orElse (ob_tabId c) ?b" and ?p = "orElse (ob_pageId c) (cx_mint cx MintPage)"
  let ?taken = "if truthy (ob_browserTabId c) then takenBrowserTabIds m ?key ?i ?b ?p else None"
  show ?thesis
  proof (cases ?taken)
    case (Some a)
    then have "ensures (wf_model E) a"
      using takenBrowserTabIds_ensures [OF _ m] by (auto split: if_splits)
    with Some show ?thesis by (simp add: openBrowserTab_def Let_def)
  next
    case None
    have "?i \<notin> set (allTabIds m)"
      using None fresh takenBrowserTabIds_fresh by (auto simp: freshBrowser_def split: if_splits)
    then have "wf_model E (fst (placeContentTab own m ?key (newTab ?i ?b n (ContentBody Browser))
        (ob_placement c) [] cx))" for n
      by (intro wf_placeContent [OF m]) simp_all
    with None show ?thesis
      by (auto simp: openBrowserTab_def Let_def intro!: wf_contentOnly)
  qed
qed

lemma ensures_openAgentSessionTab:
  assumes m: "wf_model E m" and fresh: "freshAgent own c cx (allTabIds m)"
  shows "ensures (wf_model E) (openAgentSessionTab own m c cx)"
proof -
  let ?key = "oa_workspace c"
  let ?same = "\<lambda>t. isKind AgentSession t \<and> tb_entityId t = oa_sessionId c"
  show ?thesis
  proof (cases "drawnTabOpen m ?key (oa_tabId c) ?same own")
    case (Some a)
    from drawnTabOpen_ensures [OF Some m] show ?thesis
      using Some m by (simp add: openAgentSessionTab_def Let_def)
  next
    case None
    then have "(if truthy (oa_tabId c) then the (oa_tabId c) else cx_mint cx MintTab) \<notin> set (allTabIds m)"
      using drawnTabOpen_fresh [of m ?key "oa_tabId c" ?same] fresh
      by (auto simp: freshAgent_def)
    with None m show ?thesis
      by (auto simp: openAgentSessionTab_def Let_def intro!: wf_placeSenders)
  qed
qed

lemma ensures_openSimulatorTab:
  assumes m: "wf_model E m" and fresh: "freshSimulator c (allTabIds m)"
  shows "ensures (wf_model E) (openSimulatorTab own m c cx)"
proof -
  let ?key = "os_workspace c"
  show ?thesis
  proof (cases "drawnTabOpen m ?key (Some (os_tabId c)) (isKind Simulator) True")
    case (Some a)
    from drawnTabOpen_ensures [OF Some m] show ?thesis
      using Some by (simp add: openSimulatorTab_def Let_def)
  next
    case None
    then have "os_tabId c \<notin> set (allTabIds m)"
      using drawnTabOpen_fresh [OF None] fresh
      by (cases "os_tabId c = []") (simp_all add: freshSimulator_def)
    with None m show ?thesis
      by (auto simp: openSimulatorTab_def Let_def intro!: wf_placeSenders)
  qed
qed

section \<open>The open commands meet the interface of an opener\<close>

interpretation editor_open: tab_opener "\<lambda>m. openEditorTab own m c cx" "\<lambda>tabs _. freshEditor c cx tabs" for own c cx
  by unfold_locales (rule ensures_openEditorTab)

interpretation browser_open: tab_opener "\<lambda>m. openBrowserTab own m c cx" "\<lambda>tabs _. freshBrowser c cx tabs" for own c cx
  by unfold_locales (rule ensures_openBrowserTab)

interpretation agent_open: tab_opener "\<lambda>m. openAgentSessionTab own m c cx" "\<lambda>tabs _. freshAgent own c cx tabs" for own c cx
  by unfold_locales (rule ensures_openAgentSessionTab)

interpretation simulator_open: tab_opener "\<lambda>m. openSimulatorTab own m c cx" "\<lambda>tabs _. freshSimulator c tabs" for own c cx
  by unfold_locales (rule ensures_openSimulatorTab)

end
