(* ===== verification/Workspace_Move.thy ===== *)
theory Workspace_Move
  imports Tab_Commands
begin

text \<open>
  Moving editor tabs to another workspace of the host: \<open>workspace-layout-workspace-move.ts\<close>.
  \<open>entry !== tab\<close> compares tabs by value, which is by identity when tab ids are unique.
\<close>

section \<open>Operations\<close>

definition isEditorKind :: "layoutTab \<Rightarrow> bool" where
  "isEditorKind t \<longleftrightarrow> (case contentKindOf t of None \<Rightarrow> False
     | Some k \<Rightarrow> k \<in> {Editor, Diff, ConflictReview, CheckDetails})"

text \<open>In an owner build a group shows one tab per file and kind.\<close>

definition groupShowsTabFile :: "bool \<Rightarrow> workspaceLayout \<Rightarrow> string \<Rightarrow> layoutTab \<Rightarrow> bool" where
  "groupShowsTabFile own ws groupId tab \<longleftrightarrow>
     own \<and> isEditorKind tab
     \<and> (case findGroup (ws_groups ws) groupId of None \<Rightarrow> False
        | Some g \<Rightarrow> list_ex (\<lambda>i. i \<noteq> tb_id tab \<and> (case findTab ws i of None \<Rightarrow> False
            | Some other \<Rightarrow> contentKindOf other = contentKindOf tab
                \<and> tb_entityId other = tb_entityId tab)) (gr_tabOrder g))"

record tabMove =
  tv_tabId :: string
  tv_newTabId :: string
  tv_newEntityId :: string
  tv_view :: "layoutEditorView option"

record moveTabToWorkspaceCommand =
  mw_workspace :: string
  mw_toWorkspace :: string
  mw_tabs :: "tabMove list"
  mw_groupId :: string
  mw_file :: "layoutEditorFile option"

type_synonym shownFile = "(content_kind option \<times> string) \<times> string"

definition shownFiles :: "bool \<Rightarrow> workspaceLayout \<Rightarrow> string \<Rightarrow> shownFile list" where
  "shownFiles own ws groupId =
     (if \<not> own then []
      else fold (\<lambda>i r. case findTab ws i of
              Some t \<Rightarrow> if isEditorKind t
                then AList.update (contentKindOf t, tb_entityId t) (tb_id t) r else r
            | None \<Rightarrow> r)
        (case findGroup (ws_groups ws) groupId of None \<Rightarrow> [] | Some g \<Rightarrow> gr_tabOrder g) [])"

record moveProgress =
  mv_shown :: "shownFile list"
  mv_moves :: "(layoutTab \<times> tabMove) list"
  mv_folds :: "layoutTab list"
  mv_landed :: string

fun classifyMoves ::
  "bool \<Rightarrow> workspaceLayoutModel \<Rightarrow> workspaceLayout \<Rightarrow> tabMove list \<Rightarrow> moveProgress
     \<Rightarrow> refusal_code + moveProgress" where
  "classifyMoves own m source [] p = Inr p"
| "classifyMoves own m source (mv # mvs) p =
     (case findTab source (tv_tabId mv) of
        None \<Rightarrow> Inl TabNotFound
      | Some tab \<Rightarrow>
          if \<not> isEditorKind tab then Inl InvalidParams
          else
            let k = (contentKindOf tab, tv_newEntityId mv) in
            (case map_of (mv_shown p) k of
               Some kept \<Rightarrow> classifyMoves own m source mvs
                 (p\<lparr>mv_folds := mv_folds p @ [tab], mv_landed := kept\<rparr>)
             | None \<Rightarrow>
                 if list_ex (\<lambda>(key, ws). list_ex (\<lambda>t. tb_id t = tv_newTabId mv \<and> t \<noteq> tab)
                      (ws_tabs ws)) (md_workspaces m)
                 then Inl TabExists
                 else classifyMoves own m source mvs
                   (p\<lparr>mv_shown := (if own then AList.update k (tv_newTabId mv) (mv_shown p)
                        else mv_shown p),
                      mv_moves := mv_moves p @ [(tab, mv)], mv_landed := tv_newTabId mv\<rparr>)))"

definition withoutTab :: "workspaceLayout \<Rightarrow> string \<Rightarrow> workspaceLayout" where
  "withoutTab ws tabId =
     (let removed = removeTabFromWorkspace ws tabId
      in removed\<lparr>ws_editorViews := withoutKey (ws_editorViews removed) tabId\<rparr>)"

definition moveEditorFile ::
  "bool \<Rightarrow> workspaceLayout \<Rightarrow> workspaceLayout \<Rightarrow> layoutEditorFile \<Rightarrow> workspaceLayout \<times> workspaceLayout" where
  "moveEditorFile own source target file =
     (let others = map_option (filter (\<lambda>e. \<not> sameEditorFile own e file))
      in (source\<lparr>ws_editorFiles := others (ws_editorFiles source)\<rparr>,
          target\<lparr>ws_editorFiles := Some (orElse (others (ws_editorFiles target)) [] @ [file])\<rparr>))"

definition moveStep ::
  "bool \<Rightarrow> moveTabToWorkspaceCommand \<Rightarrow> layoutContext \<Rightarrow> layoutTab \<times> tabMove
     \<Rightarrow> workspaceLayout \<times> workspaceLayout \<Rightarrow> workspaceLayout \<times> workspaceLayout" where
  "moveStep own c cx tm st =
     (let (tab, mv) = tm; (source, target) = st;
          view = orElseOpt (tv_view mv) (lookupOpt (ws_editorViews source) (tb_id tab));
          slot = (case findGroup (ws_groups target) (mw_groupId c) of
              None \<Rightarrow> 0 | Some g \<Rightarrow> length (gr_tabOrder g));
          placed = placeNewTab own target (mw_toWorkspace c)
            (tab\<lparr>tb_id := tv_newTabId mv, tb_entityId := tv_newEntityId mv\<rparr>)
            \<lparr>pl_groupId = Some (mw_groupId c), pl_afterTabId = None, pl_index = Some (int slot)\<rparr> cx
      in (withoutTab source (tb_id tab),
          (case view of None \<Rightarrow> placed
           | Some v \<Rightarrow> placed\<lparr>ws_editorViews :=
               Some (AList.update (tv_newTabId mv) v (orElse (ws_editorViews placed) []))\<rparr>)))"

definition movedWorkspaces ::
  "bool \<Rightarrow> moveTabToWorkspaceCommand \<Rightarrow> layoutContext \<Rightarrow> workspaceLayout \<Rightarrow> workspaceLayout
     \<Rightarrow> moveProgress \<Rightarrow> workspaceLayout \<times> workspaceLayout" where
  "movedWorkspaces own c cx source target p =
     (let folded = fold (\<lambda>t s. withoutTab s (tb_id t)) (mv_folds p) source;
          (source1, target1) = fold (moveStep own c cx) (mv_moves p) (folded, target)
      in case mw_file c of None \<Rightarrow> (source1, target1)
         | Some f \<Rightarrow> moveEditorFile own source1 target1 f)"

definition moveTabToWorkspace ::
  "bool \<Rightarrow> workspaceLayoutModel \<Rightarrow> moveTabToWorkspaceCommand \<Rightarrow> layoutContext \<Rightarrow> applied" where
  "moveTabToWorkspace own m c cx =
     (let fromKey = mw_workspace c; toKey = mw_toWorkspace c; gid = mw_groupId c in
      if fromKey = toKey \<or> mw_tabs c = []
         \<or> \<not> distinct (map tv_tabId (mw_tabs c)) \<or> \<not> distinct (map tv_newTabId (mw_tabs c))
      then Refused InvalidParams
      else case workspaceAt m fromKey of
          None \<Rightarrow> Refused WorkspaceNotFound
        | Some source \<Rightarrow>
            let target = workspaceOrEmpty m toKey in
            (case classifyMoves own m source (mw_tabs c)
                \<lparr>mv_shown = shownFiles own target gid, mv_moves = [], mv_folds = [], mv_landed = gid\<rparr> of
               Inl code \<Rightarrow> Refused code
             | Inr p \<Rightarrow>
                 if gid \<notin> set (groupIds target) \<and> ws_groups target \<noteq> [] then Refused GroupNotFound
                 else
                   let target0 = (if gid \<in> set (groupIds target) then target
                         else target\<lparr>ws_groups := [\<lparr>gr_id = gid, gr_tabOrder = []\<rparr>]\<rparr>);
                       (source1, target1) = movedWorkspaces own c cx source target0 p
                   in appliedWith (withWorkspace (withWorkspace m fromKey source1) toKey target1)
                        (noResult\<lparr>rs_tabId := Some (mv_landed p), rs_groupId := Some gid\<rparr>)))"

section \<open>What the loop over the moved tabs accepts\<close>

text \<open>
  Every accepted move names an editor tab of the source; its new id is free, or the tab's own.
\<close>

definition acceptedMove :: "workspaceLayoutModel \<Rightarrow> workspaceLayout \<Rightarrow> layoutTab \<times> tabMove \<Rightarrow> bool" where
  "acceptedMove m source tm \<longleftrightarrow>
     findTab source (tv_tabId (snd tm)) = Some (fst tm) \<and> isEditorKind (fst tm)
     \<and> (\<forall>(k, ws)\<in>set (md_workspaces m). \<forall>t\<in>set (ws_tabs ws).
          tb_id t = tv_newTabId (snd tm) \<longrightarrow> t = fst tm)"

lemma classifyMoves_moves:
  assumes "classifyMoves own m source mvs p = Inr q"
  shows "\<exists>ms. mv_moves q = mv_moves p @ ms \<and> subseq (map snd ms) mvs
     \<and> (\<forall>tm\<in>set ms. acceptedMove m source tm)"
    and "\<exists>fs. mv_folds q = mv_folds p @ fs \<and> (\<forall>t\<in>set fs. t \<in> set (ws_tabs source) \<and> isEditorKind t)"
proof -
  have "(\<exists>ms. mv_moves q = mv_moves p @ ms \<and> subseq (map snd ms) mvs
     \<and> (\<forall>tm\<in>set ms. acceptedMove m source tm))
     \<and> (\<exists>fs. mv_folds q = mv_folds p @ fs \<and> (\<forall>t\<in>set fs. t \<in> set (ws_tabs source) \<and> isEditorKind t))"
    using assms
  proof (induction mvs arbitrary: p)
    case (Cons mv mvs)
    obtain tab where tab: "findTab source (tv_tabId mv) = Some tab" "isEditorKind tab"
      using Cons.prems by (auto split: option.splits if_splits)
    show ?case
    proof (cases "map_of (mv_shown p) (contentKindOf tab, tv_newEntityId mv)")
      case None
      let ?p = "p\<lparr>mv_shown := (if own then AList.update (contentKindOf tab, tv_newEntityId mv) (tv_newTabId mv) (mv_shown p)
            else mv_shown p), mv_moves := mv_moves p @ [(tab, mv)], mv_landed := tv_newTabId mv\<rparr>"
      have free: "\<not> list_ex (\<lambda>(key, ws). list_ex (\<lambda>t. tb_id t = tv_newTabId mv \<and> t \<noteq> tab) (ws_tabs ws))
            (md_workspaces m)" and rest: "classifyMoves own m source mvs ?p = Inr q"
        using Cons.prems tab None by (auto simp: Let_def split: if_splits)
      have "acceptedMove m source (tab, mv)"
        using tab free by (auto simp: acceptedMove_def list_ex_iff)
      with Cons.IH [OF rest] show ?thesis by (fastforce intro: exI [of _ "(tab, mv) # _"])
    next
      case (Some kept)
      with Cons.prems tab have rest: "classifyMoves own m source mvs
          (p\<lparr>mv_folds := mv_folds p @ [tab], mv_landed := kept\<rparr>) = Inr q" by (simp add: Let_def)
      have "tab \<in> set (ws_tabs source)" using findTab_Some [OF tab(1)] by simp
      with Cons.IH [OF rest] tab(2) show ?thesis by (fastforce intro: exI [of _ "tab # _"])
    qed
  qed simp
  then show "\<exists>ms. mv_moves q = mv_moves p @ ms \<and> subseq (map snd ms) mvs
     \<and> (\<forall>tm\<in>set ms. acceptedMove m source tm)"
    and "\<exists>fs. mv_folds q = mv_folds p @ fs \<and> (\<forall>t\<in>set fs. t \<in> set (ws_tabs source) \<and> isEditorKind t)"
    by auto
qed

text \<open>A destination that shows nothing takes the first tab.\<close>

lemma classifyMoves_first:
  assumes "classifyMoves own m source (mv # mvs) p = Inr q" "mv_shown p = []"
  shows "mv_moves q \<noteq> []"
proof -
  from assms obtain tab p' where "classifyMoves own m source mvs p' = Inr q"
    "mv_moves p' = mv_moves p @ [(tab, mv)]"
    by (auto simp: Let_def split: option.splits if_splits)
  with classifyMoves_moves(1) [of own m source mvs p' q] show ?thesis by auto
qed

lemma shownFiles_absent: "g \<notin> set (groupIds ws) \<Longrightarrow> shownFiles own ws g = []"
  by (simp add: shownFiles_def iffD2 [OF findGroup_None])

section \<open>Moving keeps the invariant\<close>

lemma isEditorKind_leaves: "isEditorKind t \<Longrightarrow> leafIdsOf t = []"
  by (auto simp: isEditorKind_def contentKindOf_def split: tab_body.splits)

definition leafless :: "workspaceLayout \<Rightarrow> string \<Rightarrow> bool" where
  "leafless ws i \<longleftrightarrow> (\<forall>t\<in>set (ws_tabs ws). tb_id t = i \<longrightarrow> leafIdsOf t = [])"

lemma withoutTab_tabs [simp]:
  "ws_tabs (withoutTab ws i) = filter (\<lambda>t. tb_id t \<noteq> i) (ws_tabs ws)"
  by (simp add: withoutTab_def Let_def)

lemma wf_withoutTab:
  assumes "wf_workspace E ws" "leafless ws i"
  shows "wf_workspace E (withoutTab ws i)" and "set (paneIds (withoutTab ws i)) = set (paneIds ws)"
proof -
  show panes: "set (paneIds (withoutTab ws i)) = set (paneIds ws)"
    using assms(2) by (auto simp: set_paneIds leafless_def)
  have "paneIds (removeTabFromWorkspace ws i) = paneIds (withoutTab ws i)"
    by (simp add: paneIds_def)
  with panes assms(1) have "wf_leaves (paneIds (removeTabFromWorkspace ws i)) (ws_leaves ws)"
    by (simp add: wf_workspace_def wf_leaves_def)
  from wf_removeTab [OF assms(1) this]
  show "wf_workspace E (withoutTab ws i)"
    by (simp add: withoutTab_def Let_def ws_leaves_same)
qed

lemma wf_withoutTabs:
  assumes "wf_workspace E ws" "\<forall>i\<in>set is. leafless ws i"
  shows "wf_workspace E (fold (\<lambda>i s. withoutTab s i) is ws)
    \<and> set (paneIds (fold (\<lambda>i s. withoutTab s i) is ws)) = set (paneIds ws)
    \<and> set (ws_tabs (fold (\<lambda>i s. withoutTab s i) is ws)) = {t \<in> set (ws_tabs ws). tb_id t \<notin> set is}"
  using assms
proof (induction "is" arbitrary: ws)
  case (Cons i "is")
  have "\<forall>j\<in>set is. leafless (withoutTab ws i) j" using Cons.prems(2) by (auto simp: leafless_def)
  from Cons.IH [OF wf_withoutTab(1) [OF Cons.prems(1)] this] wf_withoutTab(2) [OF Cons.prems(1)] Cons.prems(2)
  show ?case by auto
qed simp

lemma fst_moveSteps:
  "fst (fold (moveStep own c cx) tms (s, t)) = fold (\<lambda>i s. withoutTab s i) (map (tb_id \<circ> fst) tms) s"
  by (induction tms arbitrary: s t) (simp_all add: moveStep_def Let_def case_prod_beta)

lemma groupIds_placeNewTab_named:
  assumes "pl_groupId placement = Some g" "g \<in> set (groupIds ws)"
  shows "groupIds (placeNewTab own ws key tab placement cx) = groupIds ws"
  using assms by (cases "findGroup (ws_groups ws) g")
    (auto simp: placeNewTab_def placementGroup_def Let_def findGroup_None)

lemma wf_moveSteps:
  assumes "wf_workspace E t" "mw_groupId c \<in> set (groupIds t)"
    and "distinct (map (tv_newTabId \<circ> snd) tms)" "set (map (tv_newTabId \<circ> snd) tms) \<inter> set (tabIds t) = {}"
    and "\<forall>tm\<in>set tms. leafIdsOf (fst tm) = []"
  shows "wf_workspace (if tms = [] then E else E - {mw_groupId c}) (snd (fold (moveStep own c cx) tms (s, t)))
    \<and> set (tabIds (snd (fold (moveStep own c cx) tms (s, t)))) = set (tabIds t) \<union> set (map (tv_newTabId \<circ> snd) tms)
    \<and> set (paneIds (snd (fold (moveStep own c cx) tms (s, t)))) = set (paneIds t)"
  using assms
proof (induction tms arbitrary: E s t)
  case (Cons tm tms)
  obtain s' t' where st: "moveStep own c cx tm (s, t) = (s', t')" by force
  let ?tab = "(fst tm)\<lparr>tb_id := tv_newTabId (snd tm), tb_entityId := tv_newEntityId (snd tm)\<rparr>"
  let ?pl = "\<lparr>pl_groupId = Some (mw_groupId c), pl_afterTabId = None,
      pl_index = Some (int (case findGroup (ws_groups t) (mw_groupId c) of None \<Rightarrow> 0 | Some g \<Rightarrow> length (gr_tabOrder g)))\<rparr>"
  let ?p = "placeNewTab own t (mw_toWorkspace c) ?tab ?pl cx"
  have t': "ws_tabs t' = ws_tabs ?p" "ws_groups t' = ws_groups ?p" "ws_groupLayout t' = ws_groupLayout ?p"
    "ws_leaves t' = ws_leaves ?p"
    using st by (auto simp: moveStep_def Let_def case_prod_beta split: option.splits)
  have "wf_workspace (E - {landingGroup own t (mw_toWorkspace c) ?pl cx}) ?p"
    using Cons.prems by (intro wf_placeNewTab) auto
  moreover have "landingGroup own t (mw_toWorkspace c) ?pl cx = mw_groupId c"
    using Cons.prems(2) by (intro landingGroup_named) simp_all
  ultimately have wf: "wf_workspace (E - {mw_groupId c}) t'"
    using wf_workspace_cong [OF t'] by simp
  have ids: "groupIds t' = groupIds t"
    using groupIds_placeNewTab_named [of ?pl "mw_groupId c" t] Cons.prems(2) by (simp add: t')
  have tabs: "tabIds t' = tabIds t @ [tv_newTabId (snd tm)]" by (simp add: t')
  have panes: "paneIds t' = paneIds t" using Cons.prems(5) paneIds_cong [OF t'(1)] by simp
  have "wf_workspace (if tms = [] then E - {mw_groupId c} else E - {mw_groupId c} - {mw_groupId c})
      (snd (fold (moveStep own c cx) tms (s', t')))
    \<and> set (tabIds (snd (fold (moveStep own c cx) tms (s', t')))) = set (tabIds t') \<union> set (map (tv_newTabId \<circ> snd) tms)
    \<and> set (paneIds (snd (fold (moveStep own c cx) tms (s', t')))) = set (paneIds t')"
    using Cons.prems(2-5) by (intro Cons.IH [OF wf]) (auto simp: ids tabs)
  then show ?case using st by (simp add: tabs panes split: if_splits)
qed simp

text \<open>The two workspaces a move leaves.\<close>

lemma moveEditorFile_frame [simp]:
  "ws_tabs (fst (moveEditorFile own s t f)) = ws_tabs s" "ws_tabs (snd (moveEditorFile own s t f)) = ws_tabs t"
  "wf_workspace E (fst (moveEditorFile own s t f)) = wf_workspace E s"
  "wf_workspace E (snd (moveEditorFile own s t f)) = wf_workspace E t"
  by (simp_all add: moveEditorFile_def Let_def)

lemma wf_movedWorkspaces:
  assumes s: "wf_workspace F source" and t: "wf_workspace E target" "mw_groupId c \<in> set (groupIds target)"
    and leafless: "\<forall>u\<in>set (mv_folds p) \<union> fst ` set (mv_moves p). u \<in> set (ws_tabs source) \<and> leafIdsOf u = []"
    and ids: "distinct (map (tv_newTabId \<circ> snd) (mv_moves p))"
      "set (map (tv_newTabId \<circ> snd) (mv_moves p)) \<inter> set (tabIds target) = {}"
    and st: "movedWorkspaces own c cx source target p = (source', target')"
  shows "wf_workspace F source'"
    and "set (ws_tabs source') \<subseteq> {u \<in> set (ws_tabs source). tb_id u \<notin> tb_id ` fst ` set (mv_moves p)}"
    and "wf_workspace (if mv_moves p = [] then E else E - {mw_groupId c}) target'"
    and "set (tabIds target') = set (tabIds target) \<union> set (map (tv_newTabId \<circ> snd) (mv_moves p))"
    and "set (paneIds target') = set (paneIds target)"
    and "set (paneIds source') = set (paneIds source)"
proof -
  have dt: "distinct (tabIds source)" using s by (simp add: wf_workspace_def)
  have lf: "leafless source (tb_id u)" if "u \<in> set (mv_folds p) \<union> fst ` set (mv_moves p)" for u
    using leafless that dt unfolding leafless_def by (metis find_key_unique option.inject)
  let ?is = "map tb_id (mv_folds p)" and ?js = "map (tb_id \<circ> fst) (mv_moves p)"
  let ?folded = "fold (\<lambda>t s. withoutTab s (tb_id t)) (mv_folds p) source"
  have folded: "?folded = fold (\<lambda>i s. withoutTab s i) ?is source"
    by (simp add: fold_map comp_def)
  let ?st = "fold (moveStep own c cx) (mv_moves p) (?folded, target)"
  have "fst ?st = fold (\<lambda>i s. withoutTab s i) (?is @ ?js) source"
    unfolding fst_moveSteps folded by (simp add: comp_def)
  moreover have "\<forall>i\<in>set (?is @ ?js). leafless source i" using lf by auto
  ultimately have src: "wf_workspace F (fst ?st)"
    "set (ws_tabs (fst ?st)) = {u \<in> set (ws_tabs source). tb_id u \<notin> set (?is @ ?js)}"
    "set (paneIds (fst ?st)) = set (paneIds source)"
    using wf_withoutTabs [OF s, of "?is @ ?js"] by auto
  have "\<forall>tm\<in>set (mv_moves p). leafIdsOf (fst tm) = []" using leafless by auto
  note tgt = wf_moveSteps [OF t ids this, of own cx ?folded]
  have fst_snd: "source' = fst (movedWorkspaces own c cx source target p)"
    "target' = snd (movedWorkspaces own c cx source target p)" using st by simp_all
  have eqs: "ws_tabs source' = ws_tabs (fst ?st)" "wf_workspace F source' = wf_workspace F (fst ?st)"
    "ws_tabs target' = ws_tabs (snd ?st)" "\<And>G. wf_workspace G target' = wf_workspace G (snd ?st)"
    using fst_snd by (simp_all add: movedWorkspaces_def Let_def case_prod_beta split: option.split)
  show "wf_workspace F source'" using src(1) unfolding eqs .
  show "set (ws_tabs source') \<subseteq> {u \<in> set (ws_tabs source). tb_id u \<notin> tb_id ` fst ` set (mv_moves p)}"
    unfolding eqs src(2) by auto
  show "wf_workspace (if mv_moves p = [] then E else E - {mw_groupId c}) target'"
    and "set (tabIds target') = set (tabIds target) \<union> set (map (tv_newTabId \<circ> snd) (mv_moves p))"
    using tgt unfolding eqs by blast+
  show "set (paneIds target') = set (paneIds target)"
    unfolding paneIds_cong [OF eqs(3)] using tgt by blast
  show "set (paneIds source') = set (paneIds source)"
    unfolding paneIds_cong [OF eqs(1)] by (rule src(3))
qed

lemma wf_firstGroup:
  assumes "wf_workspace E ws" "ws_groups ws = []"
  shows "wf_workspace (insert g E) (ws\<lparr>ws_groups := [\<lparr>gr_id = g, gr_tabOrder = []\<rparr>]\<rparr>)"
  using assms by (auto simp: wf_workspace_def wf_groups_def wf_tree_def split: option.splits)

lemma othersHold_withWorkspace:
  assumes "distinct (map fst (md_workspaces m))"
  shows "othersHold (withWorkspace m k w) k' f \<subseteq> set (f w) \<union> (othersHold m k f \<inter> othersHold m k' f)"
proof
  fix x assume "x \<in> othersHold (withWorkspace m k w) k' f"
  then obtain k2 v where v: "(k2, v) \<in> set (md_workspaces (withWorkspace m k w))" "k2 \<noteq> k'" "x \<in> set (f v)"
    by (auto simp: othersHold_def split: if_splits)
  then consider "v = w" | "(k2, v) \<in> set (md_workspaces m)" "k2 \<noteq> k"
    using set_update_distinct [OF assms, of k w] by (auto simp: withWorkspace_def)
  then show "x \<in> set (f w) \<union> (othersHold m k f \<inter> othersHold m k' f)"
  proof cases
    case 2
    then show ?thesis using othersHoldI [OF 2(1), of k f] othersHoldI [OF 2(1), of k' f] v by blast
  qed (use v in simp)
qed

lemma othersHold_other:
  "k \<noteq> k' \<Longrightarrow> f (emptyWorkspace k') = [] \<Longrightarrow> set (f (workspaceOrEmpty m k')) \<subseteq> othersHold m k f"
  by (cases "workspaceAt m k'") (auto dest: map_of_SomeD intro: subsetD [OF othersHoldI])

lemma acceptedMove_elsewhere:
  assumes m: "wf_model E m" "workspaceAt m k = Some source" and a: "acceptedMove m source tm"
  shows "tv_newTabId (snd tm) \<notin> othersHold m k tabIds"
proof
  assume held: "tv_newTabId (snd tm) \<in> othersHold m k tabIds"
  then obtain k' w t where "(k', w) \<in> set (md_workspaces m)" "t \<in> set (ws_tabs w)" "tb_id t = tv_newTabId (snd tm)"
    by (auto simp: othersHold_def split: if_splits)
  then have "t = fst tm" using a unfolding acceptedMove_def by fastforce
  moreover have "fst tm \<in> set (ws_tabs source)" using a findTab_Some [of source] by (auto simp: acceptedMove_def)
  ultimately have "tv_newTabId (snd tm) \<in> set (tabIds source)"
    using \<open>tb_id t = _\<close> by (metis image_eqI image_set)
  with othersHold_apart(1) [OF m(1), of k] m(2) held show False by auto
qed

text \<open>An applied move: the two workspaces it leaves, and the moves \<open>ms\<close> it accepted.\<close>

lemma moveTabToWorkspace_Applied:
  assumes m: "wf_model E m" and Applied: "moveTabToWorkspace own m c cx = Applied m' r e oc"
  obtains source source1 target1 ms where
    "mw_workspace c \<noteq> mw_toWorkspace c" "workspaceAt m (mw_workspace c) = Some source"
    "m' = withWorkspace (withWorkspace m (mw_workspace c) source1) (mw_toWorkspace c) target1"
    "\<forall>tm\<in>set ms. acceptedMove m source tm"
    "wf_workspace (E (mw_workspace c)) source1"
    "set (ws_tabs source1) \<subseteq> {u \<in> set (ws_tabs source). tb_id u \<notin> tb_id ` fst ` set ms}"
    "set (paneIds source1) = set (paneIds source)"
    "wf_workspace (E (mw_toWorkspace c)) target1"
    "set (tabIds target1) = set (tabIds (workspaceOrEmpty m (mw_toWorkspace c))) \<union> set (map (tv_newTabId \<circ> snd) ms)"
    "set (paneIds target1) = set (paneIds (workspaceOrEmpty m (mw_toWorkspace c)))"
proof -
  let ?from = "mw_workspace c" and ?to = "mw_toWorkspace c" and ?g = "mw_groupId c"
  let ?target = "workspaceOrEmpty m ?to"
  let ?base = "if ?g \<in> set (groupIds ?target) then ?target
     else ?target\<lparr>ws_groups := [\<lparr>gr_id = ?g, gr_tabOrder = []\<rparr>]\<rparr>"
  let ?start = "\<lparr>mv_shown = shownFiles own ?target ?g, mv_moves = [], mv_folds = [], mv_landed = ?g\<rparr>"
  have ok: "\<not> (?from = ?to \<or> mw_tabs c = [] \<or> \<not> distinct (map tv_tabId (mw_tabs c))
      \<or> \<not> distinct (map tv_newTabId (mw_tabs c)))"
    using Applied unfolding moveTabToWorkspace_def Let_def by (rule contrapos_pn) simp
  then have keys: "?from \<noteq> ?to" "mw_tabs c \<noteq> []" "distinct (map tv_newTabId (mw_tabs c))" by blast+
  obtain source where source: "workspaceAt m ?from = Some source"
    using Applied ok by (cases "workspaceAt m ?from") (simp_all add: moveTabToWorkspace_def)
  obtain p where p: "classifyMoves own m source (mw_tabs c) ?start = Inr p"
    using Applied ok source
    by (cases "classifyMoves own m source (mw_tabs c) ?start") (simp_all add: moveTabToWorkspace_def Let_def)
  from Applied have grp: "?g \<in> set (groupIds ?target) \<or> ws_groups ?target = []"
    using ok by (auto simp: moveTabToWorkspace_def Let_def source p split: if_splits)
  with Applied ok have m'': "m' = withWorkspace (withWorkspace m ?from (fst (movedWorkspaces own c cx source ?base p)))
        ?to (snd (movedWorkspaces own c cx source ?base p))"
    by (simp add: moveTabToWorkspace_def Let_def source p case_prod_beta split: if_splits)
  obtain source1 target1 where st: "movedWorkspaces own c cx source ?base p = (source1, target1)" by force
  then have m': "m' = withWorkspace (withWorkspace m ?from source1) ?to target1" unfolding m'' by simp
  note wfs = wf_model_lookup [OF m source] and wft = wf_workspaceOrEmpty [OF m, of ?to]
  have keys1: "distinct (map fst (md_workspaces m))" using m by (simp add: wf_model_def)
  from classifyMoves_moves(1) [OF p] obtain ms where ms: "mv_moves p = ms" "subseq (map snd ms) (mw_tabs c)"
    "\<forall>tm\<in>set ms. acceptedMove m source tm" by auto
  from classifyMoves_moves(2) [OF p] have folds: "\<forall>t\<in>set (mv_folds p). t \<in> set (ws_tabs source) \<and> leafIdsOf t = []"
    by (auto simp: isEditorKind_leaves)
  have "\<forall>tm\<in>set ms. fst tm \<in> set (ws_tabs source) \<and> leafIdsOf (fst tm) = []"
    using ms(3) by (auto simp: acceptedMove_def isEditorKind_leaves dest: findTab_Some)
  with folds ms(1) have leafless: "\<forall>u\<in>set (mv_folds p) \<union> fst ` set (mv_moves p). u \<in> set (ws_tabs source) \<and> leafIdsOf u = []"
    by auto
  let ?new = "set (map (tv_newTabId \<circ> snd) ms)"
  have dnew: "distinct (map (tv_newTabId \<circ> snd) ms)"
    using subseq_map [OF ms(2), of tv_newTabId] keys(3) by (auto simp: subseq_conv_nths distinct_nthsI comp_def)
  have elsewhere: "?new \<inter> othersHold m ?from tabIds = {}"
    using acceptedMove_elsewhere [OF m source] ms(3) by auto
  have t_from: "set (tabIds ?target) \<subseteq> othersHold m ?from tabIds"
    "set (paneIds ?target) \<subseteq> othersHold m ?from paneIds"
    using othersHold_other [OF keys(1), of tabIds m] othersHold_other [OF keys(1), of paneIds m] by simp_all
  let ?E = "if ?g \<in> set (groupIds ?target) then E ?to else insert ?g (E ?to)"
  have t0: "wf_workspace ?E ?base" using wft wf_firstGroup [OF wft, of ?g] grp by auto
  have t0': "?g \<in> set (groupIds ?base)" "tabIds ?base = tabIds ?target" "paneIds ?base = paneIds ?target"
    by auto
  have "distinct (map (tv_newTabId \<circ> snd) (mv_moves p))"
    "set (map (tv_newTabId \<circ> snd) (mv_moves p)) \<inter> set (tabIds ?base) = {}"
    unfolding ms(1) t0' using dnew elsewhere t_from by blast+
  note moved = wf_movedWorkspaces [OF wfs t0 t0'(1) leafless this st, unfolded ms(1) t0'(2,3)]
  obtain mv mvs where mvs: "mw_tabs c = mv # mvs" using keys(2) by (cases "mw_tabs c") auto
  have "ms \<noteq> []" if "?g \<notin> set (groupIds ?target)"
    using classifyMoves_first [OF p [unfolded mvs]] shownFiles_absent [OF that] ms(1) by simp
  then have "(if ms = [] then ?E else ?E - {?g}) \<subseteq> E ?to" by auto
  note t1 = wf_workspace_mono [OF moved(3) this]
  show thesis
    by (rule that [OF keys(1) source m' ms(3) moved(1,2,6) t1 moved(4,5)])
qed

theorem ensures_moveTabToWorkspace:
  assumes m: "wf_model E m"
  shows "ensures (wf_model E) (moveTabToWorkspace own m c cx)"
proof (cases "moveTabToWorkspace own m c cx")
  case (Applied m' r e oc)
  let ?from = "mw_workspace c" and ?to = "mw_toWorkspace c"
  let ?target = "workspaceOrEmpty m ?to"
  from moveTabToWorkspace_Applied [OF m Applied] obtain source source1 target1 ms where
    keys: "?from \<noteq> ?to" and source: "workspaceAt m ?from = Some source"
    and m': "m' = withWorkspace (withWorkspace m ?from source1) ?to target1"
    and ms: "\<forall>tm\<in>set ms. acceptedMove m source tm"
    and s1: "wf_workspace (E ?from) source1"
      "set (ws_tabs source1) \<subseteq> {u \<in> set (ws_tabs source). tb_id u \<notin> tb_id ` fst ` set ms}"
    and t1: "wf_workspace (E ?to) target1"
      "set (tabIds target1) = set (tabIds ?target) \<union> set (map (tv_newTabId \<circ> snd) ms)"
      "set (paneIds target1) = set (paneIds ?target)" .
  let ?new = "set (map (tv_newTabId \<circ> snd) ms)"
  have keys1: "distinct (map fst (md_workspaces m))" using m by (simp add: wf_model_def)
  have elsewhere: "?new \<inter> othersHold m ?from tabIds = {}"
    using acceptedMove_elsewhere [OF m source] ms by auto
  have t_from: "set (tabIds ?target) \<subseteq> othersHold m ?from tabIds"
    "set (paneIds ?target) \<subseteq> othersHold m ?from paneIds"
    using othersHold_other [OF keys, of tabIds m] othersHold_other [OF keys, of paneIds m] by simp_all
  have sub: "set (tabIds source1) \<subseteq> set (tabIds source)" "set (paneIds source1) \<subseteq> set (paneIds source)"
    using s1(2) by (auto simp: set_paneIds)
  then have m1: "wf_model E (withWorkspace m ?from source1)"
    using s1(1) source by (intro wf_withWorkspace_sub [OF m]) simp_all
  have "i \<notin> set (tabIds source1)" if i: "i \<in> ?new" for i
  proof
    assume "i \<in> set (tabIds source1)"
    then obtain u where u: "u \<in> set (ws_tabs source1)" "tb_id u = i" by auto
    from i obtain tm where tm: "tm \<in> set ms" "tv_newTabId (snd tm) = i" by auto
    have "u = fst tm"
      using ms tm u s1(2) map_of_SomeD [OF source] unfolding acceptedMove_def by fastforce
    with u tm s1(2) show False by auto
  qed
  then have new_source: "?new \<inter> set (tabIds source1) = {}" by blast
  note apart_to = othersHold_apart [OF m, of ?to]
  note apart_from = othersHold_apart [OF m, of ?from, unfolded workspaceOrEmpty_simps(1) [OF source]]
  have "set (tabIds target1) \<inter> othersHold (withWorkspace m ?from source1) ?to tabIds = {}"
    unfolding t1(2)
    using othersHold_withWorkspace [OF keys1, of ?from source1 ?to tabIds]
      new_source elsewhere t_from(1) sub(1) apart_to(1) apart_from(1) by blast
  moreover have "set (paneIds target1) \<inter> othersHold (withWorkspace m ?from source1) ?to paneIds = {}"
    unfolding t1(3)
    using othersHold_withWorkspace [OF keys1, of ?from source1 ?to paneIds]
      t_from(2) sub(2) apart_to(2) apart_from(2) by blast
  ultimately show ?thesis
    using wf_withWorkspace [OF m1 t1(1)] Applied m' by simp
qed simp

end
