(* ===== verification/Group_Commands.thy ===== *)
theory Group_Commands
  imports Content_Commands Workspace_Move Split_Ratios
begin

text \<open>
  Commands on tab groups: \<open>workspace-layout-group-commands.ts\<close>.  A new group and its first tab are
  one step; an empty group is never stored.
\<close>

section \<open>Operations\<close>

definition sourceGroupOf :: "workspaceLayout \<Rightarrow> string \<Rightarrow> layoutGroup option" where
  "sourceGroupOf ws tabId =
     (case findTab ws tabId of None \<Rightarrow> None | Some _ \<Rightarrow> findGroupOfTab (ws_groups ws) tabId)"

record moveTabCommand =
  mt_workspace :: string
  mt_tabId :: string
  mt_toGroupId :: string
  mt_index :: int
  mt_afterTabId :: "string optnull"
  mt_isPinned :: "bool option"

definition anchoredMoveIndex :: "string list \<Rightarrow> moveTabCommand \<Rightarrow> int" where
  "anchoredMoveIndex targetOrder c =
     (case mt_afterTabId c of
        Null \<Rightarrow> 0
      | Absent \<Rightarrow> mt_index c
      | Value after \<Rightarrow>
          (case findIndex (\<lambda>i. i = after) targetOrder of
             None \<Rightarrow> mt_index c | Some slot \<Rightarrow> int slot + 1))"

definition withMovedPin :: "workspaceLayout \<Rightarrow> moveTabCommand \<Rightarrow> workspaceLayout" where
  "withMovedPin ws c =
     (case mt_isPinned c of None \<Rightarrow> ws
      | Some pin \<Rightarrow> ws\<lparr>ws_tabs := map (\<lambda>t. if tb_id t = mt_tabId c then t\<lparr>tb_isPinned := Some pin\<rparr> else t)
           (ws_tabs ws)\<rparr>)"

definition moveTab :: "bool \<Rightarrow> workspaceLayoutModel \<Rightarrow> moveTabCommand \<Rightarrow> applied" where
  "moveTab own m c =
     (let key = mt_workspace c; ws = workspaceOrEmpty m key; tabId = mt_tabId c; toId = mt_toGroupId c in
      case sourceGroupOf ws tabId of
        None \<Rightarrow> Refused TabNotFound
      | Some source \<Rightarrow>
          (case findGroup (ws_groups ws) toId of
             None \<Rightarrow> Refused GroupNotFound
           | Some target \<Rightarrow>
               let index = anchoredMoveIndex (filter (\<lambda>i. i \<noteq> tabId) (gr_tabOrder target)) c in
               if gr_id source = toId then
                 let rest = filter (\<lambda>i. i \<noteq> tabId) (gr_tabOrder source);
                     order = insertAt (clampIndex index (length rest)) tabId rest;
                     groups = map (\<lambda>g. if gr_id g = gr_id source then g\<lparr>gr_tabOrder := order\<rparr> else g) (ws_groups ws)
                 in appliedOnly (withWorkspace m key (withMovedPin (ws\<lparr>ws_groups := groups\<rparr>) c))
               else if (case findTab ws tabId of None \<Rightarrow> False | Some tab \<Rightarrow> groupShowsTabFile own ws toId tab)
               then Refused TabExists
               else (case buildHeadlessTabGroupMove (ws_groups ws) (ws_groupLayout ws) tabId toId (Some index) of
                   None \<Rightarrow> Refused InvalidParams
                 | Some (groups, layout) \<Rightarrow>
                     appliedOnly (withWorkspace m key
                       (withMovedPin (ws\<lparr>ws_groups := groups, ws_groupLayout := layout\<rparr>) c)))))"

definition splitGroup ::
  "workspaceLayoutModel \<Rightarrow> string \<Rightarrow> string \<Rightarrow> string \<Rightarrow> groupSide \<Rightarrow> layoutContext \<Rightarrow> applied" where
  "splitGroup m key tabId besideGroupId side cx =
     (let ws = workspaceOrEmpty m key in
      case sourceGroupOf ws tabId of
        None \<Rightarrow> Refused TabNotFound
      | Some source \<Rightarrow>
          if besideGroupId \<notin> set (groupIds ws) then Refused GroupNotFound
          else if length (gr_tabOrder source) = 1 \<and> gr_id source \<noteq> besideGroupId then
            Applied (withWorkspace m key (ws\<lparr>ws_groupLayout :=
                Some (moveGroupLeafBeside (orElse (ws_groupLayout ws) (Leaf (gr_id source)))
                  (gr_id source) besideGroupId side)\<rparr>))
              (noResult\<lparr>rs_groupId := Some (gr_id source)\<rparr>) noEffects []
          else (case buildHeadlessTabGroupSplit (ws_groups ws) (ws_groupLayout ws) tabId besideGroupId side
                  (cx_mint cx MintGroup) of
              None \<Rightarrow> Refused InvalidParams
            | Some (groups, layout, newId) \<Rightarrow>
                appliedWith (withWorkspace m key (ws\<lparr>ws_groups := groups, ws_groupLayout := Some layout\<rparr>))
                  (noResult\<lparr>rs_groupId := Some newId\<rparr>)))"

fun sameGroupsIgnoringRatios :: "split_node \<Rightarrow> split_node \<Rightarrow> bool" where
  "sameGroupsIgnoringRatios (Leaf g) right \<longleftrightarrow> right = Leaf g"
| "sameGroupsIgnoringRatios (Split d a b r) (Leaf g) \<longleftrightarrow> False"
| "sameGroupsIgnoringRatios (Split d a b r) (Split e a' b' r') \<longleftrightarrow>
     d = e \<and> sameGroupsIgnoringRatios a a' \<and> sameGroupsIgnoringRatios b b'"

definition setGroupRatios ::
  "workspaceLayoutModel \<Rightarrow> string \<Rightarrow> split_node option \<Rightarrow> splitRatioIntent list option \<Rightarrow> applied" where
  "setGroupRatios m key groupLayout ratios =
     (let ws = workspaceOrEmpty m key;
          current = orElseOpt (ws_groupLayout ws)
            (case ws_groups ws of [] \<Rightarrow> None | g # _ \<Rightarrow> Some (Leaf (gr_id g)));
          found = (case current of None \<Rightarrow> None
            | Some tree \<Rightarrow>
                (case ratios of
                   Some rs \<Rightarrow> withGroupSplitRatios tree rs
                 | None \<Rightarrow>
                     (case groupLayout of
                        Some l \<Rightarrow> if sameGroupsIgnoringRatios tree l then Some l else None
                      | None \<Rightarrow> None)))
      in case found of
           None \<Rightarrow> Refused GroupSetChanged
         | Some l \<Rightarrow> appliedOnly (withWorkspace m key (ws\<lparr>ws_groupLayout := Some l\<rparr>)))"

text \<open>
  Opening a tab in a group that is created with it.  \<open>opens\<close> is the handler of the open command.
\<close>

definition splitLayout ::
  "workspaceLayout \<Rightarrow> newGroupSplit \<Rightarrow> string \<Rightarrow> split_node option" where
  "splitLayout ws split groupId =
     moveGroupLeafBesideBranch (orElse (ws_groupLayout ws) (Leaf (ng_besideGroupId split))) groupId
       (ng_besideGroupId split) (orElse (ng_besideLastGroupId split) (ng_besideGroupId split))
       (ng_direction split)"

definition openInNewGroup ::
  "workspaceLayoutModel \<Rightarrow> string \<Rightarrow> newGroupSplit option \<Rightarrow> string option \<Rightarrow> string option
     \<Rightarrow> (workspaceLayoutModel \<Rightarrow> applied) \<Rightarrow> applied" where
  "openInNewGroup m key split0 tabId groupId0 opens =
     (case split0 of
        None \<Rightarrow> opens m
      | Some split \<Rightarrow>
          if truthy tabId \<and> the tabId \<in> set (allTabIds m) then opens m
          else if \<not> truthy groupId0 then Refused InvalidParams
          else
            let groupId = the groupId0; ws = workspaceOrEmpty m key in
            if groupId \<in> set (groupIds ws) then opens m
            else if list_ex (\<lambda>(k, w). groupId \<in> set (groupIds w)) (md_workspaces m)
            then Refused GroupExists
            else
              let lastId = orElse (ng_besideLastGroupId split) (ng_besideGroupId split);
                  besideHeld = list_all (\<lambda>i. i \<in> set (groupIds ws)) [ng_besideGroupId split, lastId]
              in if \<not> besideHeld \<and> ws_groups ws \<noteq> [] then Refused GroupNotFound
                 else
                   let groupLayout = (if besideHeld then splitLayout ws split groupId else None) in
                   if besideHeld \<and> groupLayout = None then Refused InvalidParams
                   else
                     (case opens (withWorkspace m key (ws\<lparr>
                          ws_groups := ws_groups ws @ [\<lparr>gr_id = groupId, gr_tabOrder = []\<rparr>],
                          ws_groupLayout := orElseOpt groupLayout (ws_groupLayout ws)\<rparr>)) of
                        Refused code \<Rightarrow> Refused code
                      | Applied m' r e oc \<Rightarrow>
                          if (case workspaceAt m' key of None \<Rightarrow> False
                              | Some w \<Rightarrow> list_ex (\<lambda>g. gr_id g = groupId \<and> gr_tabOrder g \<noteq> []) (ws_groups w))
                          then Applied m' r e oc
                          else appliedWith m r))"

section \<open>Moving a tab between groups\<close>

lemma sameGroupsIgnoringRatios_eq: "sameGroupsIgnoringRatios s t = sameIgnoringRatios s t"
  by (induction s t rule: sameGroupsIgnoringRatios.induct) (auto elim: sameIgnoringRatios.elims)

lemma withMovedPin_frame [simp]:
  "map tb_id (ws_tabs (withMovedPin ws c)) = tabIds ws" "paneIds (withMovedPin ws c) = paneIds ws"
  "wf_workspace E (withMovedPin ws c) = wf_workspace E ws"
proof -
  show ids: "map tb_id (ws_tabs (withMovedPin ws c)) = tabIds ws"
    by (auto simp: withMovedPin_def split: option.split)
  show panes: "paneIds (withMovedPin ws c) = paneIds ws"
    by (auto simp: withMovedPin_def paneIds_def comp_def intro!: arg_cong [where f = concat] split: option.split)
  have "ws_groups (withMovedPin ws c) = ws_groups ws" "ws_groupLayout (withMovedPin ws c) = ws_groupLayout ws"
    "ws_leaves (withMovedPin ws c) = ws_leaves ws"
    by (simp_all add: withMovedPin_def split: option.split)
  then show "wf_workspace E (withMovedPin ws c) = wf_workspace E ws"
    unfolding wf_workspace_def ids panes by simp
qed

lemma map_filter_key:
  assumes "distinct (map f xs)"
  shows "map f (filter P xs) = filter (\<lambda>i. i \<in> f ` set (filter P xs)) (map f xs)"
  using assms by (induction xs) (auto intro!: filter_cong [OF refl])

text \<open>Pruning the tree to the groups that still hold a tab.\<close>

lemma wf_tree_prune:
  assumes tree: "wf_tree gs layout" and dist: "distinct gs"
  shows "wf_tree (filter (\<lambda>g. g \<in> set live) gs) (pruneGroupLayout live layout)"
proof (cases layout)
  case None
  then have "pruneGroupLayout live layout = None"
    by (simp add: pruneGroupLayout_def collectTabGroupLayoutGroupIds_def)
  then show ?thesis using tree None le_trans [OF length_filter_le] by (simp add: wf_tree_def)
next
  case (Some t)
  with tree have M: "mset (leafIds t) = mset gs" by (simp add: wf_tree_def)
  then have "distinct (leafIds t)" using dist mset_eq_imp_distinct_iff by blast
  then have "mset (optIds (pruneGroupLayout live layout)) = mset (filter (\<lambda>g. g \<in> set live) gs)"
    using Some by (simp add: ids_pruneGroupLayout mset_filter_same [OF M] del: mset_filter)
  then show ?thesis by (cases "pruneGroupLayout live layout") (auto simp: wf_tree_def)
qed

text \<open>The groups that hold a tab, with the tree pruned to them.\<close>

lemma wf_keptGroups:
  assumes dist: "distinct tabs" "distinct (map gr_id gs)" and M: "mset (concat (map gr_tabOrder gs)) = mset tabs"
    and tree: "wf_tree (map gr_id gs) layout"
  defines "kept \<equiv> filter (\<lambda>g. gr_tabOrder g \<noteq> []) gs"
  shows "wf_groups E tabs kept" and "wf_tree (map gr_id kept) (pruneGroupLayout (map gr_id kept) layout)"
proof -
  have "concat (map gr_tabOrder kept) = concat (map gr_tabOrder gs)"
    unfolding kept_def by (induction gs) auto
  moreover have "distinct (map gr_id kept)" unfolding kept_def using dist(2) by (rule distinct_map_filter)
  ultimately show "wf_groups E tabs kept"
    using M by (intro wf_groupsI dist(1)) (auto simp: kept_def)
  have "filter (\<lambda>g. g \<in> set (map gr_id kept)) (map gr_id gs) = map gr_id kept"
    unfolding kept_def set_map by (rule map_filter_key [OF dist(2), symmetric])
  then show "wf_tree (map gr_id kept) (pruneGroupLayout (map gr_id kept) layout)"
    using wf_tree_prune [OF tree dist(2), of "map gr_id kept"] by (simp only:)
qed

lemma mset_dropTab:
  "distinct order \<Longrightarrow> t \<in> set order \<Longrightarrow> mset order = add_mset t (mset (filter (\<lambda>i. i \<noteq> t) order))"
  by (simp add: add_mset_filter_neq)

text \<open>A tab leaves the one group that lists it.\<close>

lemma source_dropped:
  assumes wf: "wf_groups E tabs gs" "distinct tabs" and s: "findGroupOfTab gs t = Some s"
  defines "dropped \<equiv> replaceBy gr_id (gr_id s) (s\<lparr>gr_tabOrder := filter (\<lambda>i. i \<noteq> t) (gr_tabOrder s)\<rparr>) gs"
  shows "add_mset t (mset (concat (map gr_tabOrder dropped))) = mset tabs"
    and "map gr_id dropped = map gr_id gs"
proof -
  from s have mem: "s \<in> set gs" "t \<in> set (gr_tabOrder s)" by (auto dest: findGroupOfTab_Some)
  from wf have ids: "distinct (map gr_id gs)" and M: "mset (concat (map gr_tabOrder gs)) = mset tabs"
    by (simp_all add: wf_groups_mset)
  let ?s = "s\<lparr>gr_tabOrder := filter (\<lambda>i. i \<noteq> t) (gr_tabOrder s)\<rparr>"
  note r = replaceBy_group [OF ids mem(1), of ?s]
  have "mset (gr_tabOrder s) = add_mset t (mset (gr_tabOrder ?s))"
    using mset_dropTab [OF wf_groups_order [OF wf(1) mem(1)] mem(2)] by (simp del: mset_filter)
  with r(2) M have "add_mset t (mset (concat (map gr_tabOrder dropped))) + mset (gr_tabOrder ?s)
      = mset tabs + mset (gr_tabOrder ?s)"
    unfolding dropped_def by (simp del: mset_filter mset_concat add_right_cancel)
  then show "add_mset t (mset (concat (map gr_tabOrder dropped))) = mset tabs"
    by (rule add_right_imp_eq)
  show "map gr_id dropped = map gr_id gs" unfolding dropped_def using r(1) by simp
qed

lemma map_two_groups:
  assumes "distinct (map gr_id gs)" "s \<in> set gs" "u \<in> set gs" "gr_id s \<noteq> gr_id u"
    and "gr_id s' = gr_id s" "gr_id u' = gr_id u"
  shows "map (\<lambda>g. if gr_id g = gr_id s then s' else if gr_id g = gr_id u then u' else g) gs
    = replaceBy gr_id (gr_id u) u' (replaceBy gr_id (gr_id s) s' gs)"
  using assms by (auto simp: replaceBy_def)

lemma buildMove_groups:
  assumes wf: "wf_groups E tabs gs" "distinct tabs" and tree: "wf_tree (map gr_id gs) layout"
    and move: "buildHeadlessTabGroupMove gs layout t toId index = Some (gs', layout')"
  shows "wf_groups F tabs gs'" and "wf_tree (map gr_id gs') layout'"
proof -
  from move obtain s u where s: "findGroupOfTab gs t = Some s" and u: "findGroup gs toId = Some u"
    and neq: "gr_id s \<noteq> toId"
    by (auto simp: buildHeadlessTabGroupMove_def split: option.splits if_splits)
  from s u have mem: "s \<in> set gs" "t \<in> set (gr_tabOrder s)" "u \<in> set gs" "gr_id u = toId"
    by (auto dest: findGroupOfTab_Some findGroup_Some)
  have ids: "distinct (map gr_id gs)" and dist: "distinct (concat (map gr_tabOrder gs))"
    using wf by (simp_all add: wf_groups_def)
  have same: "g = s" if "g \<in> set gs" "gr_id g = gr_id s" for g
    using ids mem(1) that by (metis find_key_unique option.inject)
  have same': "g = u" if "g \<in> set gs" "gr_id g = toId" for g
    using ids mem(3,4) that by (metis find_key_unique option.inject)
  let ?s = "s\<lparr>gr_tabOrder := filter (\<lambda>i. i \<noteq> t) (gr_tabOrder s)\<rparr>"
  let ?u = "u\<lparr>gr_tabOrder := placeTabId t (orElse index (int (length (filter (\<lambda>i. i \<noteq> t) (gr_tabOrder u))))) (gr_tabOrder u)\<rparr>"
  let ?moved = "replaceBy gr_id (gr_id u) ?u (replaceBy gr_id (gr_id s) ?s gs)"
  have "map (\<lambda>g. if gr_id g = gr_id s then dropTab t g else if gr_id g = toId
       then g\<lparr>gr_tabOrder := placeTabId t (orElse index (int (length (filter (\<lambda>i. i \<noteq> t) (gr_tabOrder g))))) (gr_tabOrder g)\<rparr>
       else g) gs = map (\<lambda>g. if gr_id g = gr_id s then ?s else if gr_id g = gr_id u then ?u else g) gs"
    by (rule map_cong [OF refl]) (use same same' mem(4) in \<open>auto simp: dropTab_def\<close>)
  also have "\<dots> = ?moved" using ids mem neq by (intro map_two_groups) auto
  finally have res: "gs' = filter (\<lambda>g. gr_tabOrder g \<noteq> []) ?moved" "layout' = pruneGroupLayout (map gr_id gs') layout"
    using move by (auto simp: buildHeadlessTabGroupMove_def s u neq Let_def)
  note d = source_dropped [OF wf s]
  have mid: "distinct (map gr_id (replaceBy gr_id (gr_id s) ?s gs))" using d(2) ids by simp
  have umem: "u \<in> set (replaceBy gr_id (gr_id s) ?s gs)"
    using mem neq by (auto simp: replaceBy_def image_iff)
  have "distinct (t # concat (map gr_tabOrder (replaceBy gr_id (gr_id s) ?s gs)))"
    using d(1) wf(2) by (subst mset_eq_imp_distinct_iff [where ys = tabs]) (simp_all del: mset_concat)
  then have "t \<notin> set (gr_tabOrder u)" using umem by auto
  then have "mset (gr_tabOrder ?u) = add_mset t (mset (gr_tabOrder u))"
    by (simp add: placeTabId_def Let_def filter_neq_absent del: mset_filter)
  with replaceBy_group(2) [OF mid umem, of ?u]
  have "mset (concat (map gr_tabOrder ?moved)) + mset (gr_tabOrder u)
      = add_mset t (mset (concat (map gr_tabOrder (replaceBy gr_id (gr_id s) ?s gs)))) + mset (gr_tabOrder u)"
    by (simp del: mset_filter mset_concat add_right_cancel)
  then have M: "mset (concat (map gr_tabOrder ?moved)) = mset tabs"
    unfolding d(1) by (rule add_right_imp_eq)
  have "map gr_id ?moved = map gr_id gs" using replaceBy_group(1) [OF mid umem, of ?u] d(2) by simp
  then show "wf_groups F tabs gs'" and "wf_tree (map gr_id gs') layout'"
    using wf_keptGroups [OF wf(2) _ M, where layout = layout] ids tree unfolding res by simp_all
qed

lemma wf_tree_root:
  assumes "wf_tree gs layout" "g \<in> set gs"
  shows "mset (leafIds (orElse layout (Leaf g))) = mset gs"
  using assms by (cases gs; cases "tl gs") (auto simp: wf_tree_def split: option.splits)

lemma buildSplit_groups:
  assumes wf: "wf_groups E tabs gs" "distinct tabs" and tree: "wf_tree (map gr_id gs) layout"
    and target: "toId \<in> set (map gr_id gs)" and new: "newId \<notin> set (map gr_id gs)"
    and split: "buildHeadlessTabGroupSplit gs layout t toId side newId = Some (gs', layout', i)"
  shows "wf_groups F tabs gs'" and "wf_tree (map gr_id gs') (Some layout')" and "i = newId"
proof -
  from split obtain s where s: "findGroupOfTab gs t = Some s"
    by (auto simp: buildHeadlessTabGroupSplit_def split: option.splits)
  then have mem: "s \<in> set gs" by (auto dest: findGroupOfTab_Some)
  have ids: "distinct (map gr_id gs)" using wf by (simp add: wf_groups_def)
  let ?s = "s\<lparr>gr_tabOrder := filter (\<lambda>i. i \<noteq> t) (gr_tabOrder s)\<rparr>"
  let ?dropped = "replaceBy gr_id (gr_id s) ?s gs"
  let ?moved = "?dropped @ [\<lparr>gr_id = newId, gr_tabOrder = [t]\<rparr>]"
  let ?tree = "placeGroupBeside side (orElse layout (Leaf toId)) toId newId"
  have "g = s" if "g \<in> set gs" "gr_id g = gr_id s" for g
    using ids mem that by (metis find_key_unique option.inject)
  then have "map (\<lambda>g. if gr_id g = gr_id s then g\<lparr>gr_tabOrder := filter (\<lambda>i. i \<noteq> t) (gr_tabOrder s)\<rparr> else g) gs = ?dropped"
    by (auto simp: replaceBy_def)
  with split s have res: "gs' = filter (\<lambda>g. gr_tabOrder g \<noteq> []) ?moved"
    "layout' = orElse (pruneGroupLayout (map gr_id gs') (Some ?tree)) (Leaf newId)" "i = newId"
    by (auto simp: buildHeadlessTabGroupSplit_def Let_def split: if_splits)
  show "i = newId" by (rule res(3))
  note d = source_dropped [OF wf s]
  have M: "mset (concat (map gr_tabOrder ?moved)) = mset tabs"
    using d(1) by (simp del: mset_concat add: union_commute)
  have mids: "map gr_id ?moved = map gr_id gs @ [newId]" using d(2) by simp
  note root = wf_tree_root [OF tree target]
  have "distinct (leafIds (orElse layout (Leaf toId)))" "toId \<in> set (leafIds (orElse layout (Leaf toId)))"
    using mset_eq_imp_distinct_iff [OF root] mset_eq_setD [OF root] ids target by blast+
  then have tree': "wf_tree (map gr_id ?moved) (Some ?tree)"
    unfolding mids using root grp.mset_place by (simp add: wf_tree_def)
  have dids: "distinct (map gr_id ?moved)" unfolding mids using ids new by simp
  note kept = wf_keptGroups [OF wf(2) dids M tree', folded res(1)]
  show "wf_groups F tabs gs'" by (rule kept(1))
  have "newId \<in> set (map gr_id gs')" unfolding res(1) by simp
  then have "length (map gr_id gs') \<le> 1 \<Longrightarrow> map gr_id gs' = [newId]"
    by (cases "map gr_id gs'") simp_all
  then show "wf_tree (map gr_id gs') (Some layout')"
    using kept(2) unfolding res(2)
    by (cases "pruneGroupLayout (map gr_id gs') (Some ?tree)") (simp_all add: wf_tree_def del: mset_map)
qed

section \<open>The group commands keep the invariant\<close>

lemma sourceGroupOf_Some:
  "sourceGroupOf ws t = Some g \<Longrightarrow> findGroupOfTab (ws_groups ws) t = Some g \<and> t \<in> set (tabIds ws)"
  by (auto simp: sourceGroupOf_def dest: findTab_Some split: option.splits)

lemma present_groups:
  "g \<in> set (ws_groups (workspaceOrEmpty m key)) \<Longrightarrow> workspaceAt m key = Some (workspaceOrEmpty m key)"
  by (cases "workspaceAt m key") (auto simp: emptyWorkspace_def)

text \<open>A workspace with other groups for the same tabs.\<close>

lemma ensures_regroup:
  assumes m: "wf_model E m" and w: "wf_workspace (E key) w"
    and same: "ws_tabs w = ws_tabs (workspaceOrEmpty m key)"
  shows "wf_model E (withWorkspace m key w)"
  using paneIds_cong [OF same] same by (intro wf_withWorkspace_sub [OF m w]) simp_all

lemma ensures_pinned:
  assumes m: "wf_model E m" and w: "wf_workspace (E key) w"
    and same: "ws_tabs w = ws_tabs (workspaceOrEmpty m key)"
  shows "wf_model E (withWorkspace m key (withMovedPin w c))"
  using paneIds_cong [OF same] same w by (intro wf_withWorkspace_sub [OF m]) simp_all

lemma ensures_moveTab:
  assumes m: "wf_model E m"
  shows "ensures (wf_model E) (moveTab own m c)"
proof (cases "sourceGroupOf (workspaceOrEmpty m (mt_workspace c)) (mt_tabId c)")
  case None
  then show ?thesis by (simp add: moveTab_def Let_def)
next
  case (Some s)
  let ?key = "mt_workspace c" and ?t = "mt_tabId c"
  let ?ws = "workspaceOrEmpty m ?key"
  have ws: "wf_workspace (E ?key) ?ws" by (rule wf_workspaceOrEmpty [OF m])
  then have gs: "wf_groups (E ?key) (tabIds ?ws) (ws_groups ?ws)" and dist: "distinct (tabIds ?ws)"
    and tree: "wf_tree (groupIds ?ws) (ws_groupLayout ?ws)" by (simp_all add: wf_workspace_def)
  from sourceGroupOf_Some [OF Some] have s: "findGroupOfTab (ws_groups ?ws) ?t = Some s" by simp
  then have mem: "s \<in> set (ws_groups ?ws)" "?t \<in> set (gr_tabOrder s)" by (auto dest: findGroupOfTab_Some)
  have gids: "distinct (groupIds ?ws)" using gs by (simp add: wf_groups_def)
  have "g = s" if "g \<in> set (ws_groups ?ws)" "gr_id g = gr_id s" for g
    using gids mem(1) that by (metis find_key_unique option.inject)
  moreover have "mset (insertAt n ?t (filter (\<lambda>i. i \<noteq> ?t) (gr_tabOrder s))) = mset (gr_tabOrder s)" for n
    using mset_dropTab [OF wf_groups_order [OF gs mem(1)] mem(2)] by (simp del: mset_filter)
  ultimately have reorder: "wf_groups (E ?key) (tabIds ?ws) (map (\<lambda>g. if gr_id g = gr_id s
      then g\<lparr>gr_tabOrder := insertAt n ?t (filter (\<lambda>i. i \<noteq> ?t) (gr_tabOrder s))\<rparr> else g) (ws_groups ?ws))" for n
    by (intro wf_groups_reorder [OF gs dist]) (auto simp del: mset_filter mset_insertAt)
  have same: "wf_model E (withWorkspace m ?key (withMovedPin (?ws\<lparr>ws_groups := map (\<lambda>g. if gr_id g = gr_id s
      then g\<lparr>gr_tabOrder := insertAt n ?t (filter (\<lambda>i. i \<noteq> ?t) (gr_tabOrder s))\<rparr> else g) (ws_groups ?ws)\<rparr>) c))" for n
    by (rule ensures_pinned [OF m wf_workspace_orders [OF ws reorder]]) simp_all
  have other: "wf_model E (withWorkspace m ?key (withMovedPin (?ws\<lparr>ws_groups := gs', ws_groupLayout := l'\<rparr>) c))"
    if "buildHeadlessTabGroupMove (ws_groups ?ws) (ws_groupLayout ?ws) ?t (mt_toGroupId c) i = Some (gs', l')" for i gs' l'
    by (rule ensures_pinned [OF m wf_workspace_groups [OF ws buildMove_groups [OF gs dist tree that]]]) simp
  show ?thesis
  proof (cases "findGroup (ws_groups ?ws) (mt_toGroupId c)")
    case None
    with Some show ?thesis by (simp add: moveTab_def Let_def)
  next
    case u: (Some u)
    show ?thesis
    proof (cases "gr_id s = mt_toGroupId c")
      case True
      then show ?thesis using same unfolding moveTab_def Let_def Some u by simp
    next
      case False
      then show ?thesis using other unfolding moveTab_def Let_def Some u
        by (simp split: option.split)
    qed
  qed
qed

lemma ensures_splitGroup:
  assumes m: "wf_model E m" and fresh: "cx_mint cx MintGroup \<notin> set (groupIds (workspaceOrEmpty m key))"
  shows "ensures (wf_model E) (splitGroup m key tabId besideId side cx)"
proof (cases "sourceGroupOf (workspaceOrEmpty m key) tabId")
  case None
  then show ?thesis by (simp add: splitGroup_def Let_def)
next
  case (Some s)
  let ?ws = "workspaceOrEmpty m key"
  have ws: "wf_workspace (E key) ?ws" by (rule wf_workspaceOrEmpty [OF m])
  then have gs: "wf_groups (E key) (tabIds ?ws) (ws_groups ?ws)" and dist: "distinct (tabIds ?ws)"
    and tree: "wf_tree (groupIds ?ws) (ws_groupLayout ?ws)" by (simp_all add: wf_workspace_def)
  then have ids: "distinct (groupIds ?ws)" by (simp add: wf_groups_def)
  from sourceGroupOf_Some [OF Some] have s: "gr_id s \<in> set (groupIds ?ws)"
    by (auto dest: findGroupOfTab_Some)
  have moved: "wf_model E (withWorkspace m key (?ws\<lparr>ws_groupLayout :=
      Some (moveGroupLeafBeside (orElse (ws_groupLayout ?ws) (Leaf (gr_id s))) (gr_id s) besideId side)\<rparr>))"
    if "besideId \<in> set (groupIds ?ws)" "gr_id s \<noteq> besideId"
  proof -
    note root = wf_tree_root [OF tree s]
    have root_ids: "distinct (leafIds (orElse (ws_groupLayout ?ws) (Leaf (gr_id s))))"
      "set (leafIds (orElse (ws_groupLayout ?ws) (Leaf (gr_id s)))) = set (groupIds ?ws)"
      using mset_eq_imp_distinct_iff [OF root] mset_eq_setD [OF root] ids by blast+
    have "mset (leafIds (moveGroupLeafBeside (orElse (ws_groupLayout ?ws) (Leaf (gr_id s))) (gr_id s) besideId side))
        = mset (groupIds ?ws)"
      using mset_moveGroupLeafBeside [OF root_ids(1) _ _ that(2)] root_ids(2) root that(1) s by metis
    then have "wf_workspace (E key) (?ws\<lparr>ws_groupLayout :=
        Some (moveGroupLeafBeside (orElse (ws_groupLayout ?ws) (Leaf (gr_id s))) (gr_id s) besideId side)\<rparr>)"
      using ws unfolding wf_workspace_def paneIds_update by (simp add: wf_tree_def)
    then show ?thesis by (rule ensures_regroup [OF m]) simp
  qed
  have split: "wf_model E (withWorkspace m key (?ws\<lparr>ws_groups := gs', ws_groupLayout := Some l'\<rparr>))"
    if "besideId \<in> set (groupIds ?ws)"
      "buildHeadlessTabGroupSplit (ws_groups ?ws) (ws_groupLayout ?ws) tabId besideId side (cx_mint cx MintGroup)
         = Some (gs', l', i)" for gs' l' i
    using buildSplit_groups(1,2) [OF gs dist tree that(1) fresh that(2)]
    by (intro ensures_regroup [OF m] wf_workspace_groups [OF ws]) simp_all
  show ?thesis
    using Some moved split by (auto simp: splitGroup_def Let_def simp del: buildHeadlessTabGroupSplit_def split: option.split)
qed

lemma ensures_setGroupRatios:
  assumes m: "wf_model E m"
  shows "ensures (wf_model E) (setGroupRatios m key groupLayout ratios)"
proof -
  let ?ws = "workspaceOrEmpty m key"
  let ?current = "orElseOpt (ws_groupLayout ?ws) (case ws_groups ?ws of [] \<Rightarrow> None | g # _ \<Rightarrow> Some (Leaf (gr_id g)))"
  have ws: "wf_workspace (E key) ?ws" by (rule wf_workspaceOrEmpty [OF m])
  have keep: "wf_model E (withWorkspace m key (?ws\<lparr>ws_groupLayout := Some l\<rparr>))"
    if "?current = Some t" "sameIgnoringRatios t l" for t l
  proof -
    have "wf_tree (groupIds ?ws) (Some t)"
      using ws that(1) by (cases "ws_groups ?ws")
        (auto simp: wf_workspace_def wf_tree_def orElseOpt_def split: option.splits)
    then have "wf_tree (groupIds ?ws) (Some l)"
      using sameIgnoringRatios_ids [OF that(2)] by (simp add: wf_tree_def)
    then have "wf_workspace (E key) (?ws\<lparr>ws_groupLayout := Some l\<rparr>)"
      using ws unfolding wf_workspace_def paneIds_update by simp
    then show ?thesis by (rule ensures_regroup [OF m]) simp
  qed
  show ?thesis
  proof (cases ?current)
    case (Some t)
    then show ?thesis
      using keep [OF Some] keep [OF Some sameIgnoringRatios_sym [OF sameIgnoringRatios_withGroupSplitRatios]]
      by (auto simp: setGroupRatios_def Let_def sameGroupsIgnoringRatios_eq split: option.split)
  qed (simp add: setGroupRatios_def Let_def)
qed

section \<open>Opening a tab in a new group\<close>

text \<open>The new group is the only one that may be empty, and it is not.\<close>

lemma wf_workspace_filled:
  assumes wf: "wf_workspace (insert i E) w" and g: "g \<in> set (ws_groups w)" "gr_id g = i" "gr_tabOrder g \<noteq> []"
  shows "wf_workspace E w"
proof -
  have gs: "wf_groups (insert i E) (tabIds w) (ws_groups w)" using wf by (simp add: wf_workspace_def)
  then have ids: "distinct (groupIds w)" by (simp add: wf_groups_def)
  have "gr_id h \<in> E" if h: "h \<in> set (ws_groups w)" "gr_tabOrder h = []" for h
  proof -
    have "h \<noteq> g" using h(2) g(3) by auto
    then have "gr_id h \<noteq> i" using ids h(1) g(1,2) by (metis find_key_unique option.inject)
    then show ?thesis using gs h by (auto simp: wf_groups_def list_all_iff)
  qed
  with gs have "wf_groups E (tabIds w) (ws_groups w)" by (simp add: wf_groups_def list_all_iff)
  with wf show ?thesis by (simp add: wf_workspace_def)
qed

lemma wf_model_filled:
  assumes wf: "wf_model (E(key := insert i (E key))) m" and w: "workspaceAt m key = Some w"
    and g: "list_ex (\<lambda>g. gr_id g = i \<and> gr_tabOrder g \<noteq> []) (ws_groups w)"
  shows "wf_model E m"
proof -
  have keys: "distinct (map fst (md_workspaces m))" using wf by (simp add: wf_model_def)
  have "wf_workspace (E k) v" if v: "(k, v) \<in> set (md_workspaces m)" for k v
  proof (cases "k = key")
    case True
    then have "v = w" using v w keys by (metis map_of_is_SomeI option.inject)
    moreover have "wf_workspace (insert i (E key)) w" using wf_model_lookup [OF wf w] by simp
    ultimately show ?thesis using g True wf_workspace_filled [of i "E key" w] by (auto simp: list_ex_iff)
  next
    case False
    have "wf_workspace ((E(key := insert i (E key))) k) v" using wf v unfolding wf_model_def by fastforce
    with False show ?thesis by simp
  qed
  with wf show ?thesis unfolding wf_model_def by blast
qed

lemma splitLayout_tree:
  assumes tree: "wf_tree (groupIds ws) (ws_groupLayout ws)" and ids: "distinct (groupIds ws)"
    and new: "g \<notin> set (groupIds ws)" and beside: "ng_besideGroupId split \<in> set (groupIds ws)"
    and l: "splitLayout ws split g = Some l"
  shows "wf_tree (groupIds ws @ [g]) (Some l)"
proof -
  note root = wf_tree_root [OF tree beside]
  have "g \<notin> set (leafIds (orElse (ws_groupLayout ws) (Leaf (ng_besideGroupId split))))"
    using mset_eq_setD [OF root] new by blast
  with l have "besideBranch (ng_direction split) g (ng_besideGroupId split)
      (orElse (ng_besideLastGroupId split) (ng_besideGroupId split))
      (orElse (ws_groupLayout ws) (Leaf (ng_besideGroupId split))) = Some l"
    by (simp add: splitLayout_def moveGroupLeafBesideBranch_new)
  from mset_besideBranch [OF this] root show ?thesis by (simp add: wf_tree_def)
qed

context tab_opener
begin

lemma keeps_openInNewGroup:
  assumes m: "wf_model E m" and fresh: "fresh (allTabIds m) (allPaneIds m)"
  shows "ensures (wf_model E) (openInNewGroup m key split0 tabId groupId opens)"
proof -
  let ?ws = "workspaceOrEmpty m key"
  have ws: "wf_workspace (E key) ?ws" by (rule wf_workspaceOrEmpty [OF m])
  then have tree: "wf_tree (groupIds ?ws) (ws_groupLayout ?ws)" and ids: "distinct (groupIds ?ws)"
    by (simp_all add: wf_workspace_def wf_groups_def)
  have direct: "ensures (wf_model E) (opens m)" by (rule keeps [OF m fresh])
  have new: "ensures (wf_model E) (case opens (withWorkspace m key w) of
        Refused code \<Rightarrow> Refused code
      | Applied m' r e oc \<Rightarrow>
          if (case workspaceAt m' key of None \<Rightarrow> False
              | Some w \<Rightarrow> list_ex (\<lambda>g. gr_id g = i \<and> gr_tabOrder g \<noteq> []) (ws_groups w))
          then Applied m' r e oc else appliedWith m r)"
    if i: "i \<notin> set (groupIds ?ws)" and t: "wf_tree (groupIds ?ws @ [i]) l"
      and w: "w = ?ws\<lparr>ws_groups := ws_groups ?ws @ [\<lparr>gr_id = i, gr_tabOrder = []\<rparr>], ws_groupLayout := l\<rparr>"
    for i l w
  proof -
    have "wf_workspace (insert i (E key)) w" unfolding w by (rule wf_newGroup [OF ws i t])
    from wf_withWorkspace_fresh_at [OF m this, where k = key and T = "{}" and P = "{}"]
    have m1: "wf_model (E(key := insert i (E key))) (withWorkspace m key w)" by (simp add: w)
    have "allTabIds (withWorkspace m key w) = allTabIds m" "allPaneIds (withWorkspace m key w) = allPaneIds m"
      by (simp_all add: allTabIds_withWorkspace w)
    with keeps [OF m1] fresh
    have "ensures (wf_model (E(key := insert i (E key)))) (opens (withWorkspace m key w))" by simp
    then show ?thesis
      using m wf_model_filled [of E key i] by (auto split: applied.split option.split)
  qed
  have alone: "wf_tree (groupIds ?ws @ [i]) (ws_groupLayout ?ws)" if "ws_groups ?ws = []" for i
    using that tree by (auto simp: wf_tree_def split: option.splits)
  show ?thesis
  proof (cases split0)
    case (Some split)
    let ?g = "the groupId"
    let ?held = "list_all (\<lambda>i. i \<in> set (groupIds ?ws))
      [ng_besideGroupId split, orElse (ng_besideLastGroupId split) (ng_besideGroupId split)]"
    have beside: "wf_tree (groupIds ?ws @ [?g]) (splitLayout ?ws split ?g)"
      if "?g \<notin> set (groupIds ?ws)" "?held" "splitLayout ?ws split ?g \<noteq> None"
      using splitLayout_tree [OF tree ids that(1)] that(2,3) by fastforce
    let ?taken = "list_ex (\<lambda>(k, w). ?g \<in> set (groupIds w)) (md_workspaces m)"
    let ?l = "orElseOpt (if ?held then splitLayout ?ws split ?g else None) (ws_groupLayout ?ws)"
    consider "truthy tabId \<and> the tabId \<in> set (allTabIds m)"
      | "\<not> (truthy tabId \<and> the tabId \<in> set (allTabIds m))" "\<not> truthy groupId"
      | "\<not> (truthy tabId \<and> the tabId \<in> set (allTabIds m))" "truthy groupId" "?g \<in> set (groupIds ?ws)"
      | "\<not> (truthy tabId \<and> the tabId \<in> set (allTabIds m))" "truthy groupId" "?g \<notin> set (groupIds ?ws)"
        "?taken \<or> \<not> ?held \<and> ws_groups ?ws \<noteq> [] \<or> ?held \<and> splitLayout ?ws split ?g = None"
      | "\<not> (truthy tabId \<and> the tabId \<in> set (allTabIds m))" "truthy groupId" "?g \<notin> set (groupIds ?ws)"
        "\<not> ?taken" "\<not> (\<not> ?held \<and> ws_groups ?ws \<noteq> [])" "\<not> (?held \<and> splitLayout ?ws split ?g = None)"
      by argo
    then show ?thesis
    proof cases
      case 1
      then show ?thesis unfolding openInNewGroup_def Some by (simp only: option.case if_True direct HOL.simp_thms)
    next
      case 2
      then show ?thesis unfolding openInNewGroup_def Some by (simp only: option.case if_True if_False not_False_eq_True ensures.simps)
    next
      case 3
      then show ?thesis unfolding openInNewGroup_def Some Let_def
        by (simp only: option.case if_True if_False not_True_eq_False direct)
    next
      case 4
      then show ?thesis unfolding openInNewGroup_def Some Let_def
        by (cases ?taken; cases "\<not> ?held \<and> ws_groups ?ws \<noteq> []")
          (simp_all only: option.case if_True if_False not_True_eq_False ensures.simps HOL.simp_thms)
    next
      case 5
      have "wf_tree (groupIds ?ws @ [?g]) ?l"
      proof (cases ?held)
        case True
        with 5 beside show ?thesis by auto
      next
        case False
        with 5 alone show ?thesis by auto
      qed
      moreover have "\<not> (?held \<and> (if ?held then splitLayout ?ws split ?g else None) = None)" using 5(6) by presburger
      ultimately show ?thesis using new [OF 5(3) _ refl] 5(1-5) unfolding openInNewGroup_def Some Let_def
        by (simp only: option.case if_True if_False not_True_eq_False)
    qed
  qed (simp add: openInNewGroup_def direct)
qed

end

end
