(* ===== verification/Pane_Commands.thy ===== *)
theory Pane_Commands
  imports Tab_Commands Split_Ratios
begin

text \<open>
  Commands on panes and their terminals: \<open>workspace-layout-pane-commands.ts\<close>,
  \<open>workspace-layout-process-commands.ts\<close> and \<open>workspace-layout-pane-outcomes.ts\<close>.  Pane ids,
  and the data keyed by them, survive every move.
\<close>

section \<open>Pane trees\<close>

definition paneTab :: "workspaceLayoutModel \<Rightarrow> string \<Rightarrow> string \<Rightarrow> layoutTab option" where
  "paneTab m key tabId =
     (case findTerminal (workspaceOrEmpty m key) tabId of
        None \<Rightarrow> None
      | Some tab \<Rightarrow> if tp_root (the (panesOf tab)) = None then None else Some tab)"

definition rootOf :: "layoutTab \<Rightarrow> split_node option" where
  "rootOf tab = tp_root (the (panesOf tab))"

definition withRoot :: "split_node option \<Rightarrow> layoutTab \<Rightarrow> layoutTab" where
  "withRoot root0 tab = withPanes ((the (panesOf tab))\<lparr>tp_root := root0\<rparr>) tab"

definition splitPane ::
  "workspaceLayoutModel \<Rightarrow> string \<Rightarrow> string \<Rightarrow> string \<Rightarrow> direction \<Rightarrow> rat option \<Rightarrow> string option
     \<Rightarrow> layoutContext \<Rightarrow> applied" where
  "splitPane m key tabId leafId dir ratio newLeafId cx =
     (case paneTab m key tabId of
        None \<Rightarrow> Refused TabNotFound
      | Some tab \<Rightarrow>
          if \<not> layoutContainsLeafId (rootOf tab) leafId then Refused PaneNotFound
          else
            let added = orElse newLeafId (cx_mintLeafId cx);
                side = (if dir = Vertical then SideRight else SideBottom);
                root0 = insertLeafBeside (the (rootOf tab)) leafId added side ratio;
                paneKey = paneKeyOf (tb_entityId tab) added
            in Applied (withWorkspace m key (replaceTab (workspaceOrEmpty m key) (withRoot (Some root0) tab)))
                 (noResult\<lparr>rs_leafId := Some added, rs_paneKey := Some paneKey\<rparr>)
                 (noEffects\<lparr>fx_startPaneKeys := [paneKey]\<rparr>) [])"

definition closePane :: "workspaceLayoutModel \<Rightarrow> string \<Rightarrow> string \<Rightarrow> string \<Rightarrow> bool \<Rightarrow> applied" where
  "closePane m key tabId leafId userPaneClose =
     (let ws = workspaceOrEmpty m key;
          alreadyClosed = appliedWith m (noResult\<lparr>rs_alreadyClosed := Some True\<rparr>) in
      case findTerminal ws tabId of
        None \<Rightarrow> alreadyClosed
      | Some tab \<Rightarrow>
          if \<not> layoutContainsLeafId (rootOf tab) leafId then alreadyClosed
          else if userPaneClose \<and> (case rootOf tab of Some (Leaf _) \<Rightarrow> True | _ \<Rightarrow> False)
          then Refused LastPane
          else
            let ptyId = ptyAt ws leafId;
                retired = retireTerminalPane m \<lparr>lc_workspaceKey = key, lc_tab = tab\<rparr> leafId;
                tabClosed = (findTab (workspaceOrEmpty retired key) (tb_id tab) = None)
            in Applied retired (noResult\<lparr>rs_tabClosed := Some tabClosed\<rparr>)
                 (noEffects\<lparr>fx_stopPtyIds := (if truthy ptyId then [the ptyId] else [])\<rparr>) [])"

definition movePane ::
  "workspaceLayoutModel \<Rightarrow> string \<Rightarrow> string \<Rightarrow> string \<Rightarrow> string \<Rightarrow> paneSide \<Rightarrow> applied" where
  "movePane m key tabId leafId targetLeafId side =
     (if leafId = targetLeafId then Refused SamePane
      else case paneTab m key tabId of
          None \<Rightarrow> Refused TabNotFound
        | Some tab \<Rightarrow>
            if \<not> layoutContainsLeafId (rootOf tab) leafId
               \<or> \<not> layoutContainsLeafId (rootOf tab) targetLeafId then Refused PaneNotFound
            else
              let without = the (removeLayoutLeaf (rootOf tab) leafId);
                  moved = insertLeafBeside without targetLeafId leafId side None
              in updateTab m key (workspaceOrEmpty m key) (withRoot (Some moved) tab))"

text \<open>Divider ratios are accepted only while tree and panes still match.\<close>

definition setPaneRatios ::
  "workspaceLayoutModel \<Rightarrow> string \<Rightarrow> string \<Rightarrow> split_node option \<Rightarrow> splitRatioIntent list option \<Rightarrow> applied" where
  "setPaneRatios m key tabId newRoot ratios =
     (case paneTab m key tabId of
        None \<Rightarrow> Refused TabNotFound
      | Some tab \<Rightarrow>
          let current = the (rootOf tab);
              result = (case ratios of
                  Some is \<Rightarrow> withPaneSplitRatios current is
                | None \<Rightarrow> (case newRoot of None \<Rightarrow> None
                    | Some r \<Rightarrow> if samePanesIgnoringRatios current r then Some r else None))
          in (case result of None \<Rightarrow> Refused PaneStructureChanged
              | Some r \<Rightarrow> updateTab m key (workspaceOrEmpty m key) (withRoot (Some r) tab)))"

definition equalizePanes :: "workspaceLayoutModel \<Rightarrow> string \<Rightarrow> string \<Rightarrow> applied" where
  "equalizePanes m key tabId =
     (case paneTab m key tabId of
        None \<Rightarrow> Refused TabNotFound
      | Some tab \<Rightarrow> updateTab m key (workspaceOrEmpty m key)
          (withRoot (Some (equalizeLayout (the (rootOf tab)))) tab))"

section \<open>Pane data\<close>

definition renamePane :: "workspaceLayoutModel \<Rightarrow> string \<Rightarrow> string \<Rightarrow> string \<Rightarrow> string option \<Rightarrow> applied" where
  "renamePane m key tabId leafId title =
     (case paneTab m key tabId of
        None \<Rightarrow> Refused TabNotFound
      | Some tab \<Rightarrow>
          if \<not> layoutContainsLeafId (rootOf tab) leafId then Refused PaneNotFound
          else
            let ws = workspaceOrEmpty m key
            in appliedOnly (withWorkspace m key (setLeaf ws leafId ((leafOr ws leafId)\<lparr>lf_title := title\<rparr>))))"

definition setPaneGrid :: "workspaceLayoutModel \<Rightarrow> string \<Rightarrow> string \<Rightarrow> string \<Rightarrow> int \<times> int \<Rightarrow> applied" where
  "setPaneGrid m key tabId leafId grid =
     (case paneTab m key tabId of
        None \<Rightarrow> Refused TabNotFound
      | Some tab \<Rightarrow>
          if \<not> layoutContainsLeafId (rootOf tab) leafId then Refused PaneNotFound
          else
            let ws = workspaceOrEmpty m key in
            if Option.bind (leafAt ws leafId) lf_lastGrid = Some grid then appliedOnly m
            else appliedOnly (withWorkspace m key
              (setLeaf ws leafId ((leafOr ws leafId)\<lparr>lf_lastGrid := Some grid\<rparr>))))"

definition unbound :: "layoutLeaf \<Rightarrow> layoutLeaf" where
  "unbound leaf = leaf\<lparr>lf_ptyId := None, lf_incarnationId := None\<rparr>"

definition releasePaneTerminal ::
  "workspaceLayoutModel \<Rightarrow> string \<Rightarrow> string \<Rightarrow> string \<Rightarrow> string \<Rightarrow> applied" where
  "releasePaneTerminal m key tabId leafId ptyId =
     (case paneTab m key tabId of
        None \<Rightarrow> Refused PaneNotFound
      | Some tab \<Rightarrow>
          if \<not> layoutContainsLeafId (rootOf tab) leafId then Refused PaneNotFound
          else
            let ws = workspaceOrEmpty m key in
            if ptyAt ws leafId \<noteq> Some ptyId then appliedOnly m
            else appliedOnly (withWorkspace m key (setLeaf ws leafId (unbound (leafOr ws leafId)))))"

section \<open>Dragging a pane out into a tab of its own\<close>

record windowPaneDetach =
  wd_ptyId :: "string option"
  wd_tabId :: "string option"
  wd_startupCwd :: "string option"

record movePaneToNewTabCommand =
  mp_workspace :: string
  mp_tabId :: string
  mp_leafId :: string
  mp_groupId :: "string option"
  mp_index :: "int option"
  mp_windowDetach :: "windowPaneDetach option"

text \<open>The window's terminal outranks a stale binding; a stale copy's incarnation is dropped.\<close>

definition bindDetachedLeaf ::
  "workspaceLayout \<Rightarrow> string \<Rightarrow> windowPaneDetach option \<Rightarrow> workspaceLayout" where
  "bindDetachedLeaf ws leafId detach =
     (let pty = Option.bind detach wd_ptyId in
      if \<not> truthy pty \<or> ptyAt ws leafId = pty then ws
      else if \<not> truthy (ptyAt ws leafId)
        then setLeaf ws leafId ((leafOr ws leafId)\<lparr>lf_ptyId := pty\<rparr>)
      else setLeaf ws leafId ((leafOr ws leafId)\<lparr>lf_incarnationId := None, lf_ptyId := pty\<rparr>))"

definition detachedStartupCwd ::
  "workspaceLayout \<Rightarrow> string \<Rightarrow> windowPaneDetach option \<Rightarrow> string option \<Rightarrow> string option" where
  "detachedStartupCwd ws leafId detach inherited =
     (let given = Option.bind detach wd_startupCwd;
          chosen = (if \<not> truthy (ptyAt ws leafId) \<and> truthy given then given else inherited)
      in if truthy chosen then chosen else None)"

definition creationOf :: "layoutTab \<Rightarrow> terminalCreation option" where
  "creationOf tab = (case tb_body tab of TerminalBody cr _ \<Rightarrow> Some cr | ContentBody _ \<Rightarrow> None)"

definition detachedTab ::
  "workspaceLayout \<Rightarrow> layoutTab \<Rightarrow> movePaneToNewTabCommand \<Rightarrow> layoutContext \<Rightarrow> layoutTab" where
  "detachedTab ws tab c cx =
     (let leafId = mp_leafId c; detach = mp_windowDetach c;
          creation = the (creationOf tab);
          i = orElse (Option.bind detach wd_tabId) (cx_mint cx MintTab);
          chat = tp_chatLeafId (the (panesOf tab)) = Some leafId
      in (newTab i i (cx_now cx)
            (TerminalBody
              \<lparr>tc_defaultTitle = Some (nextTerminalTitle (ws_tabs ws)),
               tc_shellOverride = (if truthy (tc_shellOverride creation)
                 then tc_shellOverride creation else None),
               tc_forceHostRuntime = None,
               tc_startupCwd = detachedStartupCwd ws leafId detach (tc_startupCwd creation),
               tc_launchAgent = None\<rparr>
              \<lparr>tp_root = Some (Leaf leafId), tp_chatLeafId = (if chat then Some leafId else None)\<rparr>))
           \<lparr>tb_viewMode := (if chat then Some ChatMode else None)\<rparr>)"

definition withoutPane :: "layoutTab \<Rightarrow> string \<Rightarrow> layoutTab" where
  "withoutPane tab leafId =
     (let panes = the (panesOf tab)
      in withPanes \<lparr>tp_root = removeLayoutLeaf (tp_root panes) leafId,
           tp_chatLeafId = (if tp_chatLeafId panes = Some leafId then None else tp_chatLeafId panes)\<rparr> tab)"

definition movePaneToNewTab ::
  "bool \<Rightarrow> workspaceLayoutModel \<Rightarrow> movePaneToNewTabCommand \<Rightarrow> layoutContext \<Rightarrow> applied" where
  "movePaneToNewTab own m c cx =
     (let key = mp_workspace c; leafId = mp_leafId c; detach = mp_windowDetach c in
      case paneTab m key (mp_tabId c) of
        None \<Rightarrow> Refused TabNotFound
      | Some tab \<Rightarrow>
          if \<not> layoutContainsLeafId (rootOf tab) leafId then Refused PaneNotFound
          else if detach = None \<and> length (leafIdsOf tab) < 2 then Refused LastPane
          else
            let ws = bindDetachedLeaf (workspaceOrEmpty m key) leafId detach;
                moved = detachedTab ws tab c cx;
                sourceGroup = findGroupOfTab (ws_groups ws) (tb_id tab);
                placed = placeNewTab own (replaceTab ws (withoutPane tab leafId)) key moved
                  \<lparr>pl_groupId = orElseOpt (mp_groupId c) (map_option gr_id sourceGroup),
                   pl_afterTabId = (if mp_index c = None then Some (tb_id tab) else None),
                   pl_index = mp_index c\<rparr> cx
            in appliedWith (withWorkspace m key placed)
                 (noResult\<lparr>rs_tabId := Some (tb_id moved),
                   rs_ptyId := (if detach \<noteq> None then nullable (ptyAt placed leafId) else Absent)\<rparr>))"

section \<open>Starting, sleeping and waking\<close>

definition applyPaneOutcomeChanges ::
  "(string \<times> paneOutcome) list \<Rightarrow> paneOutcomeChanges option \<Rightarrow> (string \<times> paneOutcome) list" where
  "applyPaneOutcomeChanges outcomes changes =
     fold (\<lambda>(l, oc) r. case oc of Some v \<Rightarrow> AList.update l v r | None \<Rightarrow> AList.delete l r)
       (orElse changes []) outcomes"

definition workspacePanes :: "workspaceLayout \<Rightarrow> (string \<times> string) list" where
  "workspacePanes ws =
     concat (map (\<lambda>t. map (\<lambda>l. (paneKeyOf (tb_entityId t) l, l)) (leafIdsOf t)) (ws_tabs ws))"

definition hasResumeRecord :: "layoutLeaf option \<Rightarrow> bool" where
  "hasResumeRecord leaf \<longleftrightarrow>
     (case leaf of None \<Rightarrow> False | Some l \<Rightarrow> lf_sleeping l \<noteq> None \<or> lf_resume l \<noteq> None)"

definition restartPane :: "workspaceLayoutModel \<Rightarrow> string \<Rightarrow> string \<Rightarrow> applied" where
  "restartPane m key paneKey =
     (let ws = workspaceOrEmpty m key in
      case locatePane ws paneKey of
        None \<Rightarrow> Refused PaneNotFound
      | Some (t, leafId) \<Rightarrow>
          let leaf = leafOr ws leafId
          in Applied (withWorkspace m key (setLeaf ws leafId (unbound leaf))) noResult
               \<lparr>fx_stopPtyIds = (if truthy (lf_ptyId leaf) then [the (lf_ptyId leaf)] else []),
                fx_startPaneKeys = [paneKey]\<rparr> [(leafId, None)])"

definition startPane :: "workspaceLayoutModel \<Rightarrow> string \<Rightarrow> string \<Rightarrow> layoutContext \<Rightarrow> applied" where
  "startPane m key paneKey cx =
     (let ws = workspaceOrEmpty m key in
      case locatePane ws paneKey of
        None \<Rightarrow> Refused PaneNotFound
      | Some (t, leafId) \<Rightarrow>
          let pty = ptyAt ws leafId;
              holds = (\<lambda>f dflt. truthy pty \<and> (case f cx of None \<Rightarrow> dflt | Some g \<Rightarrow> g paneKey (the pty)))
          in if holds cx_retiresBinding False then restartPane m key paneKey
             else if holds cx_isBindingLive True
                  \<or> (case cx_isStarting cx of None \<Rightarrow> False | Some f \<Rightarrow> f leafId) then appliedOnly m
             else Applied m noResult (noEffects\<lparr>fx_startPaneKeys := [paneKey]\<rparr>) [(leafId, None)])"

record sleepingAgentRecord =
  sl_paneKey :: string
  sl_tabId :: "string option"
  sl_worktreeId :: string
  sl_record :: layoutSleepingRecord

definition isPaneSleepRecord :: "layoutSleepingRecord \<Rightarrow> bool" where
  "isPaneSleepRecord r \<longleftrightarrow> sr_origin r = None \<or> sr_origin r = Some WorktreeSleep"

text \<open>A capture of a running agent is a resume record, not a sleep.\<close>

definition recordedLeaf :: "layoutSleepingRecord \<Rightarrow> layoutLeaf \<Rightarrow> layoutLeaf" where
  "recordedLeaf r leaf =
     (if isPaneSleepRecord r then leaf\<lparr>lf_sleeping := Some r, lf_resume := None\<rparr>
      else leaf\<lparr>lf_sleeping := None, lf_resume := Some r\<rparr>)"

definition sleepStep ::
  "sleepingAgentRecord list \<Rightarrow> string \<times> string \<Rightarrow> workspaceLayout \<Rightarrow> workspaceLayout" where
  "sleepStep records pane ws =
     (case List.find (\<lambda>r. sl_paneKey r = fst pane) records of
        None \<Rightarrow> ws
      | Some r \<Rightarrow> setLeaf ws (snd pane) (recordedLeaf (sl_record r) (leafOr ws (snd pane))))"

definition sleep ::
  "workspaceLayoutModel \<Rightarrow> string \<Rightarrow> string list option \<Rightarrow> sleepingAgentRecord list \<Rightarrow> bool \<Rightarrow> applied" where
  "sleep m key paneKeys records recordOnly =
     (let ws = workspaceOrEmpty m key;
          targets = (case paneKeys of None \<Rightarrow> workspacePanes ws
            | Some ks \<Rightarrow> filter (\<lambda>p. fst p \<in> set ks) (workspacePanes ws));
          stopPtyIds = (if recordOnly then []
            else concat (map (\<lambda>p. case ptyAt ws (snd p) of None \<Rightarrow> [] | Some q \<Rightarrow> [q]) targets))
      in Applied (withWorkspace m key (fold (sleepStep records) targets ws))
           (noResult\<lparr>rs_slept := Some (map fst targets)\<rparr>)
           (noEffects\<lparr>fx_stopPtyIds := stopPtyIds\<rparr>) [])"

definition wakeStep :: "string \<times> string \<Rightarrow> workspaceLayout \<Rightarrow> workspaceLayout" where
  "wakeStep pane ws =
     setLeaf ws (snd pane) ((leafOr ws (snd pane))\<lparr>lf_sleeping := None, lf_resume := None\<rparr>)"

definition wake :: "workspaceLayoutModel \<Rightarrow> string \<Rightarrow> string list option \<Rightarrow> bool \<Rightarrow> applied" where
  "wake m key paneKeys recordOnly =
     (let ws = workspaceOrEmpty m key;
          woken = filter (\<lambda>p. (case paneKeys of None \<Rightarrow> True | Some ks \<Rightarrow> fst p \<in> set ks)
            \<and> (if recordOnly then hasResumeRecord (leafAt ws (snd p))
               else (case leafAt ws (snd p) of None \<Rightarrow> False | Some l \<Rightarrow> lf_sleeping l \<noteq> None)))
            (workspacePanes ws);
          result = noResult\<lparr>rs_woken := Some (map fst woken)\<rparr>
      in if \<not> recordOnly
         then Applied m result (noEffects\<lparr>fx_startPaneKeys := map fst woken\<rparr>) []
         else appliedWith (withWorkspace m key (fold wakeStep woken ws)) result)"

section \<open>Every command keeps the invariant\<close>

lemma paneTab_Some:
  assumes "paneTab m key i = Some tab"
  shows "tab \<in> set (ws_tabs (workspaceOrEmpty m key))" and "findTab (workspaceOrEmpty m key) i = Some tab"
    and "\<exists>c p n. tb_body tab = TerminalBody c p \<and> tp_root p = Some n \<and> rootOf tab = Some n
           \<and> leafIdsOf tab = leafIds n"
proof -
  from assms have f: "findTerminal (workspaceOrEmpty m key) i = Some tab"
    and r: "tp_root (the (panesOf tab)) \<noteq> None"
    by (auto simp: paneTab_def split: option.splits if_splits)
  from findTerminal_Some [OF f] show "tab \<in> set (ws_tabs (workspaceOrEmpty m key))" by simp
  from findTerminal_findTab [OF f] show "findTab (workspaceOrEmpty m key) i = Some tab" .
  from findTerminal_Some [OF f] obtain c p where "tb_body tab = TerminalBody c p" by blast
  with r show "\<exists>c p n. tb_body tab = TerminalBody c p \<and> tp_root p = Some n \<and> rootOf tab = Some n
           \<and> leafIdsOf tab = leafIds n"
    by (auto simp: rootOf_def panesOf_def)
qed

lemma paneTabE:
  assumes "paneTab m key i = Some tab"
  obtains n where "rootOf tab = Some n" "leafIdsOf tab = leafIds n"
    "tab \<in> set (ws_tabs (workspaceOrEmpty m key))" "workspaceAt m key = Some (workspaceOrEmpty m key)"
    "isTerminal tab"
proof -
  note t = paneTab_Some [OF assms]
  from t(3) obtain c p n where "tb_body tab = TerminalBody c p" "rootOf tab = Some n"
    "leafIdsOf tab = leafIds n" by blast
  then show thesis by (intro that [of n] t(1) present_tab [OF t(1)]) (simp_all add: isTerminal_def)
qed

lemma withRoot_simps [simp]:
  "tb_id (withRoot r tab) = tb_id tab"
  "isTerminal tab \<Longrightarrow> leafIdsOf (withRoot r tab) = optIds r"
  by (auto simp: withRoot_def elim: isTerminalE)

lemma pane_of_tab:
  "t \<in> set (ws_tabs ws) \<Longrightarrow> l \<in> set (leafIdsOf t) \<Longrightarrow> l \<in> set (paneIds ws)"
  by (auto simp: set_paneIds)

lemma distinct_leafIdsOf:
  "wf_workspace E ws \<Longrightarrow> t \<in> set (ws_tabs ws) \<Longrightarrow> distinct (leafIdsOf t)"
  by (auto simp: wf_workspace_def paneIds_def distinct_concat_iff)

text \<open>The panes of a tab in another arrangement.\<close>

lemma ensures_rearranged:
  assumes m: "wf_model E m" and tab: "paneTab m key i = Some tab"
    and ids: "mset (optIds r) = mset (leafIdsOf tab)"
  shows "ensures (wf_model E) (updateTab m key (workspaceOrEmpty m key) (withRoot r tab))"
proof -
  from tab obtain n where t: "tab \<in> set (ws_tabs (workspaceOrEmpty m key))"
    "workspaceAt m key = Some (workspaceOrEmpty m key)" "isTerminal tab" by (rule paneTabE)
  have d: "distinct (leafIdsOf (withRoot r tab))"
    using mset_eq_imp_distinct_iff [OF ids] distinct_leafIdsOf [OF wf_workspaceOrEmpty [OF m] t(1)] t(3)
    by simp
  have s: "set (leafIdsOf (withRoot r tab)) = set (leafIdsOf tab)"
    using mset_eq_setD [OF ids] t(3) by simp
  show ?thesis
    unfolding updateTab_def
    by (rule ensures_repane [OF m t(2,1) withRoot_simps(1) d, of "{}"]) (simp_all add: s)
qed

lemma ensures_splitPane:
  assumes m: "wf_model E m" and fresh: "orElse newLeafId (cx_mintLeafId cx) \<notin> set (allPaneIds m)"
  shows "ensures (wf_model E) (splitPane m key tabId leafId dir ratio newLeafId cx)"
proof (cases "paneTab m key tabId")
  case None
  then show ?thesis by (simp add: splitPane_def)
next
  case (Some tab)
  then obtain n where n: "rootOf tab = Some n" "leafIdsOf tab = leafIds n"
    and t: "tab \<in> set (ws_tabs (workspaceOrEmpty m key))"
    and w: "workspaceAt m key = Some (workspaceOrEmpty m key)" and tt: "isTerminal tab" by (rule paneTabE)
  let ?new = "orElse newLeafId (cx_mintLeafId cx)"
  let ?side = "if dir = Vertical then SideRight else SideBottom"
  let ?r = "insertLeafBeside n leafId ?new ?side ratio"
  show ?thesis
  proof (cases "leafId \<in> set (leafIds n)")
    case False
    with Some n show ?thesis by (simp add: splitPane_def)
  next
    case True
    have d: "distinct (leafIds n)"
      using distinct_leafIdsOf [OF wf_workspaceOrEmpty [OF m] t] n by simp
    have "?new \<notin> set (leafIds n)"
      using fresh workspaceOrEmpty_sub(2) [of m key] pane_of_tab [OF t] n by auto
    moreover have M: "mset (leafIds ?r) = add_mset ?new (mset (leafIds n))"
      using mset_insertLeafBeside [OF d True] .
    ultimately have "distinct (leafIds ?r)"
      using d mset_eq_imp_distinct_iff [of "leafIds ?r" "?new # leafIds n"] by simp
    moreover have "set (leafIds ?r) = insert ?new (set (leafIds n))"
      using mset_eq_setD [of "leafIds ?r" "?new # leafIds n"] M by simp
    ultimately have "ensures (wf_model E) (Applied (withWorkspace m key
        (replaceTab (workspaceOrEmpty m key) (withRoot (Some ?r) tab))) res e oc)" for res e oc
      using tt n fresh
      by (intro ensures_repane [OF m w t withRoot_simps(1), of _ "{?new}"]) auto
    with Some n True show ?thesis by (simp add: splitPane_def Let_def)
  qed
qed

lemma mset_movedPane:
  assumes d: "distinct (leafIds n)" and l: "l \<noteq> t" "l \<in> set (leafIds n)" "t \<in> set (leafIds n)"
  obtains q where "removeLeaf n l = Some q"
    "\<And>side r. mset (leafIds (insertLeafBeside q t l side r)) = mset (leafIds n)"
proof -
  from pane.remove_Some [OF d l(3) l(1) [symmetric]] obtain q where
    q: "removeLeaf n l = Some q" "leafIds q = filter (\<lambda>k. k \<noteq> l) (leafIds n)" .
  have "mset (leafIds (insertLeafBeside q t l side r)) = mset (leafIds n)" for side r
  proof -
    have "mset (leafIds (insertLeafBeside q t l side r)) = add_mset l (mset (leafIds q))"
      using l d q(2) by (intro mset_insertLeafBeside) auto
    also have "\<dots> = mset (leafIds n)" using add_mset_filter_neq [OF d] l q(2) by simp
    finally show ?thesis .
  qed
  with q(1) show thesis by (rule that)
qed

lemma ensures_movePane:
  assumes m: "wf_model E m"
  shows "ensures (wf_model E) (movePane m key tabId leafId targetLeafId side)"
proof (cases "paneTab m key tabId")
  case None
  then show ?thesis by (simp add: movePane_def)
next
  case (Some tab)
  then obtain n where n: "rootOf tab = Some n" "leafIdsOf tab = leafIds n"
    and t: "tab \<in> set (ws_tabs (workspaceOrEmpty m key))" by (rule paneTabE)
  show ?thesis
  proof (cases "leafId \<noteq> targetLeafId \<and> leafId \<in> set (leafIds n) \<and> targetLeafId \<in> set (leafIds n)")
    case False
    with Some n show ?thesis by (auto simp: movePane_def)
  next
    case True
    have d: "distinct (leafIds n)"
      using distinct_leafIdsOf [OF wf_workspaceOrEmpty [OF m] t] n by simp
    from True have "leafId \<noteq> targetLeafId" "leafId \<in> set (leafIds n)" "targetLeafId \<in> set (leafIds n)"
      by auto
    from mset_movedPane [OF d this] obtain q where q: "removeLeaf n leafId = Some q"
      "\<And>side r. mset (leafIds (insertLeafBeside q targetLeafId leafId side r)) = mset (leafIds n)" by blast
    then have "mset (optIds (Some (insertLeafBeside q targetLeafId leafId side None))) = mset (leafIdsOf tab)"
      using n by simp
    from ensures_rearranged [OF m Some this] show ?thesis
      using Some n q True by (simp add: movePane_def removeLayoutLeaf_def)
  qed
qed

lemma ensures_setPaneRatios:
  assumes m: "wf_model E m"
  shows "ensures (wf_model E) (setPaneRatios m key tabId newRoot ratios)"
proof (cases "paneTab m key tabId")
  case None
  then show ?thesis by (simp add: setPaneRatios_def)
next
  case (Some tab)
  then obtain n where n: "rootOf tab = Some n" "leafIdsOf tab = leafIds n" by (rule paneTabE)
  have ok: "ensures (wf_model E) (updateTab m key (workspaceOrEmpty m key) (withRoot (Some r) tab))"
    if "sameIgnoringRatios r n \<or> sameIgnoringRatios n r" for r
    using that sameIgnoringRatios_ids n by (intro ensures_rearranged [OF m Some]) auto
  show ?thesis
    using Some n ok sameIgnoringRatios_withPaneSplitRatios
    by (auto simp: setPaneRatios_def Let_def split: option.split)
qed

lemma ensures_equalizePanes:
  assumes m: "wf_model E m"
  shows "ensures (wf_model E) (equalizePanes m key tabId)"
proof (cases "paneTab m key tabId")
  case None
  then show ?thesis by (simp add: equalizePanes_def)
next
  case (Some tab)
  then obtain n where "rootOf tab = Some n" "leafIdsOf tab = leafIds n" by (rule paneTabE)
  with Some show ?thesis
    by (auto simp: equalizePanes_def intro!: ensures_rearranged [OF m])
qed

lemma ensures_closePane:
  assumes m: "wf_model E m"
  shows "ensures (wf_model E) (closePane m key tabId leafId user)"
proof (cases "findTerminal (workspaceOrEmpty m key) tabId")
  case None
  with m show ?thesis by (simp add: closePane_def Let_def)
next
  case (Some tab)
  then have t: "tab \<in> set (ws_tabs (workspaceOrEmpty m key))" and tt: "isTerminal tab"
    by (auto dest: findTerminal_Some simp: isTerminal_def)
  have "wf_model E (retireTerminalPane m \<lparr>lc_workspaceKey = key, lc_tab = tab\<rparr> leafId)"
    if "leafId \<in> set (leafIdsOf tab)"
  proof (rule wf_retireTerminalPane [OF m])
    show "workspaceAt m (lc_workspaceKey \<lparr>lc_workspaceKey = key, lc_tab = tab\<rparr>)
        = Some (workspaceOrEmpty m key)"
      unfolding terminalTabLocation.simps by (rule present_tab [OF t])
  qed (use t tt that in simp_all)
  moreover obtain c p where body: "tb_body tab = TerminalBody c p" using tt by (rule isTerminalE)
  then have "optIds (rootOf tab) = leafIdsOf tab" by (simp add: rootOf_def panesOf_def)
  ultimately show ?thesis using Some m by (simp add: closePane_def Let_def)
qed

text \<open>Commands on the data of a pane.\<close>

lemma ensures_leafOf:
  assumes m: "wf_model E m" and tab: "paneTab m key i = Some tab"
    and l: "layoutContainsLeafId (rootOf tab) l" and leaf: "lf_sleeping leaf = None \<or> lf_resume leaf = None"
  shows "ensures (wf_model E) (Applied (withWorkspace m key (setLeaf (workspaceOrEmpty m key) l leaf)) r e oc)"
proof -
  from tab obtain n where n: "rootOf tab = Some n" "leafIdsOf tab = leafIds n"
    and t: "tab \<in> set (ws_tabs (workspaceOrEmpty m key))"
    and w: "workspaceAt m key = Some (workspaceOrEmpty m key)" by (rule paneTabE)
  from l n have "l \<in> set (leafIdsOf tab)" by simp
  from pane_of_tab [OF t this] have "l \<in> set (paneIds (workspaceOrEmpty m key))" .
  from ensures_setLeaf [OF m w this leaf] show ?thesis .
qed

lemma ensures_leafCommands:
  assumes m: "wf_model E m"
  shows "ensures (wf_model E) (renamePane m key i l title)"
    and "ensures (wf_model E) (setPaneGrid m key i l grid)"
    and "ensures (wf_model E) (releasePaneTerminal m key i l pty)"
proof -
  note leaf = wf_leafOr [OF wf_workspaceOrEmpty [OF m], of key l]
  show "ensures (wf_model E) (renamePane m key i l title)"
    using m leaf ensures_leafOf [OF m]
    by (simp add: renamePane_def Let_def split: option.split)
  show "ensures (wf_model E) (setPaneGrid m key i l grid)"
    using m leaf ensures_leafOf [OF m]
    by (simp add: setPaneGrid_def Let_def split: option.split)
  show "ensures (wf_model E) (releasePaneTerminal m key i l pty)"
    using m leaf ensures_leafOf [OF m]
    by (simp add: releasePaneTerminal_def unbound_def Let_def split: option.split)
qed

section \<open>Processes keep the invariant\<close>

lemma locatePane_present:
  assumes "locatePane (workspaceOrEmpty m key) k = Some (t, l)"
  shows "workspaceAt m key = Some (workspaceOrEmpty m key)"
    and "l \<in> set (paneIds (workspaceOrEmpty m key))"
proof -
  from locatePane_Some [OF assms] have t: "t \<in> set (ws_tabs (workspaceOrEmpty m key))" by simp
  show "workspaceAt m key = Some (workspaceOrEmpty m key)" by (rule present_tab [OF t])
  show "l \<in> set (paneIds (workspaceOrEmpty m key))" by (rule locatePane_pane [OF assms])
qed

lemma ensures_restartPane:
  assumes m: "wf_model E m"
  shows "ensures (wf_model E) (restartPane m key paneKey)"
proof (cases "locatePane (workspaceOrEmpty m key) paneKey")
  case (Some tl)
  obtain t l where tl: "tl = (t, l)" by force
  note p = locatePane_present [OF Some [unfolded tl]]
  have "lf_sleeping (unbound (leafOr (workspaceOrEmpty m key) l)) = None
      \<or> lf_resume (unbound (leafOr (workspaceOrEmpty m key) l)) = None"
    using wf_leafOr [OF wf_workspaceOrEmpty [OF m]] by (simp add: unbound_def)
  from ensures_setLeaf [OF m p this] show ?thesis
    unfolding restartPane_def Let_def Some tl option.case prod.case .
qed (simp add: restartPane_def Let_def)

lemma ensures_startPane: "wf_model E m \<Longrightarrow> ensures (wf_model E) (startPane m key paneKey cx)"
  by (simp add: startPane_def Let_def ensures_restartPane split: option.split)

lemma workspacePanes_ids: "p \<in> set (workspacePanes ws) \<Longrightarrow> snd p \<in> set (paneIds ws)"
  by (auto simp: workspacePanes_def set_paneIds)

text \<open>A loop over panes that only writes their data.\<close>

lemma wf_leafLoop:
  assumes step: "\<And>p v. wf_workspace E v \<Longrightarrow> snd p \<in> set (paneIds v) \<Longrightarrow>
      wf_workspace E (f p v) \<and> ws_tabs (f p v) = ws_tabs v"
    and "wf_workspace E ws" "\<forall>p\<in>set ps. snd p \<in> set (paneIds ws)"
  shows "wf_workspace E (fold f ps ws) \<and> ws_tabs (fold f ps ws) = ws_tabs ws"
  using assms(2,3)
proof (induction ps arbitrary: ws)
  case (Cons p ps)
  from Cons.prems step [of ws p] have w: "wf_workspace E (f p ws)" and t: "ws_tabs (f p ws) = ws_tabs ws"
    by simp_all
  from Cons.IH [OF w] Cons.prems(2) t paneIds_cong [OF t] show ?case by simp
qed simp

lemma recordedLeaf_ok: "lf_sleeping (recordedLeaf r l) = None \<or> lf_resume (recordedLeaf r l) = None"
  by (simp add: recordedLeaf_def)

lemma wf_sleepStep:
  "wf_workspace E v \<Longrightarrow> snd p \<in> set (paneIds v) \<Longrightarrow>
     wf_workspace E (sleepStep rs p v) \<and> ws_tabs (sleepStep rs p v) = ws_tabs v"
  by (auto simp: sleepStep_def intro!: wf_setLeaf recordedLeaf_ok split: option.split)

lemma wf_wakeStep:
  "wf_workspace E v \<Longrightarrow> snd p \<in> set (paneIds v) \<Longrightarrow>
     wf_workspace E (wakeStep p v) \<and> ws_tabs (wakeStep p v) = ws_tabs v"
  by (auto simp: wakeStep_def intro!: wf_setLeaf)

lemma wf_leafLoop_model:
  assumes m: "wf_model E m"
    and w: "wf_workspace (E key) w \<and> ws_tabs w = ws_tabs (workspaceOrEmpty m key)"
  shows "wf_model E (withWorkspace m key w)"
  using w paneIds_cong [of w "workspaceOrEmpty m key"] by (intro wf_withWorkspace_sub [OF m]) auto

lemma ensures_sleep:
  assumes m: "wf_model E m"
  shows "ensures (wf_model E) (sleep m key paneKeys records recordOnly)"
proof -
  have "wf_model E (withWorkspace m key (fold (sleepStep records) ps (workspaceOrEmpty m key)))"
    if "set ps \<subseteq> set (workspacePanes (workspaceOrEmpty m key))" for ps
    using that workspacePanes_ids
    by (intro wf_leafLoop_model [OF m] wf_leafLoop wf_sleepStep wf_workspaceOrEmpty [OF m]) auto
  then show ?thesis by (auto simp: sleep_def Let_def split: option.split)
qed

lemma ensures_wake:
  assumes m: "wf_model E m"
  shows "ensures (wf_model E) (wake m key paneKeys recordOnly)"
proof -
  have "wf_model E (withWorkspace m key (fold wakeStep ps (workspaceOrEmpty m key)))"
    if "set ps \<subseteq> set (workspacePanes (workspaceOrEmpty m key))" for ps
    using that workspacePanes_ids
    by (intro wf_leafLoop_model [OF m] wf_leafLoop wf_wakeStep wf_workspaceOrEmpty [OF m]) auto
  then show ?thesis using m by (auto simp: wake_def Let_def)
qed

section \<open>Dragging a pane out keeps the invariant\<close>

lemma bindDetachedLeaf_simps [simp]:
  "ws_tabs (bindDetachedLeaf ws l d) = ws_tabs ws"
  by (simp add: bindDetachedLeaf_def Let_def)

lemma wf_bindDetachedLeaf:
  assumes "wf_workspace E ws" "l \<in> set (paneIds ws)"
  shows "wf_workspace E (bindDetachedLeaf ws l d)"
  using assms wf_leafOr [OF assms(1), of l]
  by (auto simp: bindDetachedLeaf_def Let_def intro!: wf_setLeaf)

lemma placeNewTab_leaves:
  "placeNewTab own (ws\<lparr>ws_leaves := ls\<rparr>) key tab pl cx = (placeNewTab own ws key tab pl cx)\<lparr>ws_leaves := ls\<rparr>"
  by (simp add: placeNewTab_def placementGroup_def placedOrder_def anchorGroupOf_def Let_def
      split: option.split)

lemma detachedTab_ids [simp]:
  "leafIdsOf (detachedTab ws tab c cx) = [mp_leafId c]"
  "tb_id (detachedTab ws tab c cx) = orElse (Option.bind (mp_windowDetach c) wd_tabId) (cx_mint cx MintTab)"
  by (simp_all add: detachedTab_def Let_def)

lemma withoutPane_ids:
  assumes "isTerminal tab"
  shows "leafIdsOf (withoutPane tab l) = filter (\<lambda>j. j \<noteq> l) (leafIdsOf tab)"
    and "tb_id (withoutPane tab l) = tb_id tab"
proof -
  obtain c p where "tb_body tab = TerminalBody c p" using assms by (rule isTerminalE)
  then show "leafIdsOf (withoutPane tab l) = filter (\<lambda>j. j \<noteq> l) (leafIdsOf tab)"
    and "tb_id (withoutPane tab l) = tb_id tab"
    by (simp_all add: withoutPane_def panesOf_def ids_removeLayoutLeaf Let_def)
qed

lemma wf_detach:
  assumes wf: "wf_workspace E ws" and t: "tab \<in> set (ws_tabs ws)" "isTerminal tab"
    and l: "l \<in> set (leafIdsOf tab)" and new: "tb_id moved \<notin> set (tabIds ws)" "leafIdsOf moved = [l]"
  shows "wf_workspace E (placeNewTab own (replaceTab ws (withoutPane tab l)) key moved pl cx)"
    and "set (paneIds (placeNewTab own (replaceTab ws (withoutPane tab l)) key moved pl cx))
         = set (paneIds ws)"
proof -
  let ?s = "withoutPane tab l"
  let ?r = "replaceTab ws ?s"
  let ?p = "placeNewTab own ?r key moved pl cx"
  from wf have dt: "distinct (tabIds ws)" and dp: "distinct (paneIds ws)"
    and lv: "wf_leaves (paneIds ws) (ws_leaves ws)" by (simp_all add: wf_workspace_def)
  note ids = withoutPane_ids [OF t(2), of l]
  have ns: "distinct (leafIdsOf ?s)" "set (leafIdsOf ?s) \<subseteq> set (leafIdsOf tab) \<union> {}"
    using distinct_leafIdsOf [OF wf t(1)] by (auto simp: ids)
  have rp: "set (paneIds ?r) = set (paneIds ws) - {l}"
    using distinct_paneIds_replaceTab(2) [OF dt dp t(1) ids(2) ns] l pane_of_tab [OF t(1)]
    by (auto simp: ids)
  then have lvr: "wf_leaves (paneIds ?r) (withoutKey (ws_leaves ws) l)"
    by (intro wf_leaves_withoutKey [OF lv]) simp
  from wf_replaceTab [OF wf t(1) ids(2) ns _ this]
  have "wf_workspace E (?r\<lparr>ws_leaves := withoutKey (ws_leaves ws) l\<rparr>)" by simp
  moreover have "tb_id moved \<notin> set (tabIds (?r\<lparr>ws_leaves := withoutKey (ws_leaves ws) l\<rparr>))"
    using new(1) by (simp add: ids(2))
  ultimately have "wf_workspace (E - {landingGroup own (?r\<lparr>ws_leaves := withoutKey (ws_leaves ws) l\<rparr>) key pl cx})
      (?p\<lparr>ws_leaves := withoutKey (ws_leaves ws) l\<rparr>)"
    unfolding placeNewTab_leaves [symmetric]
    by (rule wf_placeNewTab) (simp_all add: new(2) rp)
  then have pw: "wf_workspace E (?p\<lparr>ws_leaves := withoutKey (ws_leaves ws) l\<rparr>)"
    by (rule wf_workspace_mono) auto
  show panes: "set (paneIds ?p) = set (paneIds ws)"
    using rp l pane_of_tab [OF t(1) l] by (auto simp: new(2))
  have "ws_leaves ?p = ws_leaves ws" by simp
  with lv panes have "wf_leaves (paneIds ?p) (ws_leaves ?p)" by (simp add: wf_leaves_def)
  with pw show "wf_workspace E ?p" unfolding wf_workspace_def paneIds_update by simp
qed

lemma ensures_movePaneToNewTab:
  assumes m: "wf_model E m"
    and fresh: "orElse (Option.bind (mp_windowDetach c) wd_tabId) (cx_mint cx MintTab) \<notin> set (allTabIds m)"
  shows "ensures (wf_model E) (movePaneToNewTab own m c cx)"
proof (cases "paneTab m (mp_workspace c) (mp_tabId c)")
  case None
  then show ?thesis by (simp add: movePaneToNewTab_def Let_def)
next
  case (Some tab)
  let ?key = "mp_workspace c"
  let ?ws = "workspaceOrEmpty m ?key"
  from Some obtain n where n: "rootOf tab = Some n" "leafIdsOf tab = leafIds n"
    and t: "tab \<in> set (ws_tabs ?ws)" and tt: "isTerminal tab" by (rule paneTabE)
  show ?thesis
  proof (cases "mp_leafId c \<in> set (leafIds n)")
    case False
    with Some n show ?thesis by (simp add: movePaneToNewTab_def Let_def)
  next
    case True
    let ?b = "bindDetachedLeaf ?ws (mp_leafId c) (mp_windowDetach c)"
    let ?moved = "detachedTab ?b tab c cx"
    have l: "mp_leafId c \<in> set (leafIdsOf tab)" using True n by simp
    have wb: "wf_workspace (E ?key) ?b"
      by (rule wf_bindDetachedLeaf [OF wf_workspaceOrEmpty [OF m] pane_of_tab [OF t l]])
    have tb: "tab \<in> set (ws_tabs ?b)" using t by simp
    have nb: "tb_id ?moved \<notin> set (tabIds ?b)"
      using fresh workspaceOrEmpty_sub(1) [of m ?key] by auto
    note d = wf_detach [OF wb tb tt l nb detachedTab_ids(1)]
    have "wf_model E (withWorkspace m ?key
        (placeNewTab own (replaceTab ?b (withoutPane tab (mp_leafId c))) ?key ?moved pl cx))" for pl
    proof (rule wf_withWorkspace_fresh [OF m d(1), where T = "{tb_id ?moved}" and P = "{}"])
      show "set (paneIds (placeNewTab own (replaceTab ?b (withoutPane tab (mp_leafId c))) ?key ?moved pl cx))
          \<subseteq> set (paneIds ?ws) \<union> {}"
        using d(2) paneIds_cong [of ?b ?ws] by simp
    qed (use fresh withoutPane_ids(2) [OF tt] in auto)
    with Some n True show ?thesis
      by (simp add: movePaneToNewTab_def Let_def)
  qed
qed

end
