(* ===== verification/Editor_Rekey.thy ===== *)
theory Editor_Rekey
  imports Workspace_Move
begin

text \<open>
  Renaming the files of editor tabs, under ids the window chose:
  \<open>workspace-layout-editor-rekey.ts\<close>.
\<close>

record fileRename =
  fr_fileId :: string
  fr_newFileId :: string
  fr_record :: "(string \<times> layoutEditorFile) option" \<comment> \<open>\<open>fromFilePath\<close> and the record\<close>
  fr_view :: "layoutEditorView option"

text \<open>A \<open>Map\<close> built from entries: the last entry of a key wins.\<close>

definition mapOf :: "('k \<times> 'v) list \<Rightarrow> 'k \<Rightarrow> 'v option" where
  "mapOf es = map_of (rev es)"

definition renamedId :: "(string \<times> string) list \<Rightarrow> string \<Rightarrow> string" where
  "renamedId ids i = orElse (mapOf ids i) i"

definition renamedTabIdsOf :: "workspaceLayout \<Rightarrow> (string \<times> string) list \<Rightarrow> (string \<times> string) list" where
  "renamedTabIdsOf ws ids =
     fromEntries (concat (map (\<lambda>t. if isEditorKind t \<and> renamedId ids (tb_id t) \<noteq> tb_id t
        then [(tb_id t, renamedId ids (tb_id t))] else []) (ws_tabs ws)))"

text \<open>Each renamed record in its old place; a new one only for a tab the workspace holds.\<close>

definition renamedEditorFiles ::
  "layoutEditorFile list option \<Rightarrow> fileRename list \<Rightarrow> string list \<Rightarrow> layoutEditorFile list option" where
  "renamedEditorFiles files renames heldEntityIds =
     (let moves = concat (map (\<lambda>r. case fr_record r of None \<Rightarrow> []
            | Some (fromPath, file) \<Rightarrow> [(fromPath, file, fr_newFileId r)]) renames) in
      if moves = [] then files
      else
        let byOldPath = mapOf (map (\<lambda>(fromPath, file, newId). (fromPath, file)) moves);
            kept = map (\<lambda>file. orElse (byOldPath (ef_filePath file)) file) (orElse files []);
            missing = filter (\<lambda>(fromPath, file, newId). newId \<in> set heldEntityIds
              \<and> \<not> list_ex (\<lambda>f. ef_filePath f = fromPath) (orElse files [])) moves
        in if files = None \<and> missing = [] then None
           else Some (kept @ map (\<lambda>(fromPath, file, newId). file) missing))"

definition rekeyedTab :: "(string \<times> string) list \<Rightarrow> (string \<times> string) list \<Rightarrow> layoutTab \<Rightarrow> layoutTab" where
  "rekeyedTab ids tabIds0 t =
     (if isEditorKind t \<and> (mapOf ids (tb_entityId t) \<noteq> None \<or> mapOf tabIds0 (tb_id t) \<noteq> None)
      then t\<lparr>tb_id := renamedId tabIds0 (tb_id t), tb_entityId := renamedId ids (tb_entityId t)\<rparr>
      else t)"

definition rekeyedWorkspace ::
  "workspaceLayout \<Rightarrow> fileRename list \<Rightarrow> (string \<times> string) list \<Rightarrow> (string \<times> string) list \<Rightarrow> workspaceLayout" where
  "rekeyedWorkspace ws renames ids tabIds0 =
     (let tabs = map (rekeyedTab ids tabIds0) (ws_tabs ws);
          groups = map (\<lambda>g. if list_ex (\<lambda>i. mapOf tabIds0 i \<noteq> None) (gr_tabOrder g)
            then g\<lparr>gr_tabOrder := map (renamedId tabIds0) (gr_tabOrder g)\<rparr> else g) (ws_groups ws);
          views = mapOf (concat (map (\<lambda>r. case fr_view r of None \<Rightarrow> []
            | Some v \<Rightarrow> [(fr_newFileId r, v)]) renames));
          entityOf = mapOf (map (\<lambda>t. (tb_id t, tb_entityId t)) tabs);
          editorViews = map_option (\<lambda>vs. fromEntries (map (\<lambda>(i, v).
            (renamedId tabIds0 i, orElse (views (orElse (entityOf (renamedId tabIds0 i)) [])) v)) vs))
            (ws_editorViews ws)
      in ws\<lparr>ws_tabs := tabs, ws_groups := groups, ws_editorViews := editorViews,
            ws_editorFiles := renamedEditorFiles (ws_editorFiles ws) renames (map tb_entityId tabs)\<rparr>)"

definition renameInWorkspace ::
  "workspaceLayoutModel \<Rightarrow> string \<Rightarrow> fileRename list \<Rightarrow> applied" where
  "renameInWorkspace m key renames =
     (case workspaceAt m key of
        None \<Rightarrow> Refused WorkspaceNotFound
      | Some ws \<Rightarrow>
          let ids = map (\<lambda>r. (fr_fileId r, fr_newFileId r)) renames in
          if \<not> distinct (map fst ids) \<or> \<not> distinct (map snd ids) then Refused InvalidParams
          else if list_ex (\<lambda>t. isEditorKind t \<and> tb_entityId t \<in> set (map snd ids)
                 \<and> mapOf ids (tb_entityId t) = None) (ws_tabs ws)
          then Refused InvalidParams
          else
            let tabIds0 = renamedTabIdsOf ws ids in
            if list_ex (\<lambda>i. i \<in> set (map snd tabIds0) \<and> mapOf tabIds0 i = None) (allTabIds m)
            then Refused TabExists
            else appliedWith (withWorkspace m key (rekeyedWorkspace ws renames ids tabIds0))
                   (noResult\<lparr>rs_renamedTabIds := Some tabIds0\<rparr>))"

fun renameParts ::
  "workspaceLayoutModel \<Rightarrow> (string \<times> fileRename list) list \<Rightarrow> (string \<times> string) list \<Rightarrow> applied" where
  "renameParts m [] acc = appliedWith m (noResult\<lparr>rs_renamedTabIds := Some acc\<rparr>)"
| "renameParts m ((key, renames) # parts) acc =
     (case workspaceAt m key of
        None \<Rightarrow> Refused WorkspaceNotFound
      | Some _ \<Rightarrow>
          (case renameInWorkspace m key renames of
             Refused code \<Rightarrow> Refused code
           | Applied m' r e oc \<Rightarrow>
               renameParts m' parts
                 (fold (\<lambda>(i, j) acc. AList.update i j acc) (orElse (rs_renamedTabIds r) []) acc)))"

definition renameEditorFiles ::
  "workspaceLayoutModel \<Rightarrow> string \<Rightarrow> fileRename list \<Rightarrow> (string \<times> fileRename list) list \<Rightarrow> applied" where
  "renameEditorFiles m key renames alsoIn =
     (let parts = (key, renames) # alsoIn in
      if \<not> distinct (map fst parts) then Refused InvalidParams else renameParts m parts [])"

section \<open>The renaming of tab ids\<close>

lemma mapOf_SomeD: "mapOf es k = Some v \<Longrightarrow> (k, v) \<in> set es"
  by (auto simp: mapOf_def dest: map_of_SomeD)

lemma mapOf_None: "mapOf es k = None \<longleftrightarrow> k \<notin> fst ` set es"
  by (simp add: mapOf_def map_of_eq_None_iff)

lemma renamedTabIdsOf_mem:
  "(i, j) \<in> set (renamedTabIdsOf ws ids) \<Longrightarrow>
     mapOf ids i = Some j \<and> (\<exists>t\<in>set (ws_tabs ws). isEditorKind t \<and> tb_id t = i)"
  unfolding renamedTabIdsOf_def by (drule subsetD [OF set_fromEntries])
    (auto simp: renamedId_def orElse_def split: if_splits option.splits)

lemma mapOf_inj:
  assumes "distinct (map snd ids)" "mapOf ids i = Some k" "mapOf ids j = Some k"
  shows "i = j"
  using assms(1) mapOf_SomeD [OF assms(2)] mapOf_SomeD [OF assms(3)]
  by (metis eq_key_imp_eq_value distinct_map inj_onD prod.inject snd_conv)

text \<open>
  Renamed ids differ from each other, and the guard on taken ids keeps them apart from every id
  that stays.
\<close>

lemma renamedId_inj:
  assumes ids: "distinct (map snd ids)" and R: "R = renamedTabIdsOf ws ids"
    and free: "\<forall>i\<in>A. i \<in> set (map snd R) \<longrightarrow> mapOf R i \<noteq> None"
    and i: "i \<in> A" and j: "j \<in> A" and eq: "renamedId R i = renamedId R j"
  shows "i = j"
proof -
  have val: "mapOf ids k = Some v \<and> v \<in> set (map snd R)" if "mapOf R k = Some v" for k v
    using mapOf_SomeD [OF that] renamedTabIdsOf_mem [of k v ws ids] R by force
  show ?thesis
  proof (cases "mapOf R i"; cases "mapOf R j")
    fix u v assume "mapOf R i = Some u" "mapOf R j = Some v"
    then show ?thesis using eq val mapOf_inj [OF ids] by (simp add: renamedId_def)
  next
    fix v assume a: "mapOf R i = None" "mapOf R j = Some v"
    then have "i = v" using eq by (simp add: renamedId_def)
    then show ?thesis using a free i val [OF a(2)] by auto
  next
    fix v assume a: "mapOf R i = Some v" "mapOf R j = None"
    then have "j = v" using eq by (simp add: renamedId_def)
    then show ?thesis using a free j val [OF a(1)] by auto
  next
    assume "mapOf R i = None" "mapOf R j = None"
    then show ?thesis using eq by (simp add: renamedId_def)
  qed
qed

section \<open>Renaming keeps the invariant\<close>

lemma rekeyedTab_id:
  assumes "distinct (tabIds ws)" "t \<in> set (ws_tabs ws)" "R = renamedTabIdsOf ws ids"
  shows "tb_id (rekeyedTab ids R t) = renamedId R (tb_id t)"
proof -
  have "isEditorKind t" if "mapOf R (tb_id t) \<noteq> None"
  proof -
    from that obtain v where "mapOf R (tb_id t) = Some v" by blast
    then obtain u where "u \<in> set (ws_tabs ws)" "isEditorKind u" "tb_id u = tb_id t"
      using mapOf_SomeD [of R "tb_id t" v] renamedTabIdsOf_mem assms(3) by blast
    then show ?thesis using assms(1,2) by (metis find_key_unique option.inject)
  qed
  then show ?thesis
    by (cases "mapOf R (tb_id t)") (auto simp: rekeyedTab_def renamedId_def)
qed

lemma rekeyedTab_leaves [simp]: "leafIdsOf (rekeyedTab ids R t) = leafIdsOf t"
  by (simp add: rekeyedTab_def)

lemma rekeyed_frame:
  "ws_tabs (rekeyedWorkspace ws renames ids R) = map (rekeyedTab ids R) (ws_tabs ws)"
  "ws_groupLayout (rekeyedWorkspace ws renames ids R) = ws_groupLayout ws"
  "ws_leaves (rekeyedWorkspace ws renames ids R) = ws_leaves ws"
  "paneIds (rekeyedWorkspace ws renames ids R) = paneIds ws"
  by (simp_all add: rekeyedWorkspace_def Let_def paneIds_def comp_def)

lemma rekeyed_groups:
  "ws_groups (rekeyedWorkspace ws renames ids R)
     = map (\<lambda>g. g\<lparr>gr_tabOrder := map (renamedId R) (gr_tabOrder g)\<rparr>) (ws_groups ws)"
proof -
  have "map (renamedId R) is = is" if "\<not> list_ex (\<lambda>i. mapOf R i \<noteq> None) is" for "is"
    using that by (intro map_idI) (auto simp: list_ex_iff renamedId_def)
  then show ?thesis by (auto simp: rekeyedWorkspace_def Let_def)
qed

lemma wf_rekeyedWorkspace:
  assumes wf: "wf_workspace E ws" and R: "R = renamedTabIdsOf ws ids"
    and inj: "inj_on (renamedId R) (set (tabIds ws))"
  shows "wf_workspace E (rekeyedWorkspace ws renames ids R)"
    and "tabIds (rekeyedWorkspace ws renames ids R) = map (renamedId R) (tabIds ws)"
proof -
  from wf have dist: "distinct (tabIds ws)" and gs: "wf_groups E (tabIds ws) (ws_groups ws)"
    by (simp_all add: wf_workspace_def)
  show tabs: "tabIds (rekeyedWorkspace ws renames ids R) = map (renamedId R) (tabIds ws)"
    using rekeyedTab_id [OF dist _ R] by (simp add: rekeyed_frame)
  have ids: "groupIds (rekeyedWorkspace ws renames ids R) = groupIds ws"
    by (simp add: rekeyed_groups comp_def)
  have orders: "orderedIds (rekeyedWorkspace ws renames ids R) = map (renamedId R) (orderedIds ws)"
    by (simp add: rekeyed_groups comp_def map_concat)
  have "inj_on (renamedId R) (set (orderedIds ws))" using inj gs by (simp add: wf_groups_def)
  then have d: "distinct (orderedIds (rekeyedWorkspace ws renames ids R))"
    unfolding orders using gs by (simp only: distinct_map wf_groups_def)
  have s: "set (orderedIds (rekeyedWorkspace ws renames ids R)) = set (map (renamedId R) (tabIds ws))"
    unfolding orders using gs by (simp only: wf_groups_def set_map)
  have "list_all (\<lambda>g. gr_tabOrder g = [] \<longrightarrow> gr_id g \<in> E) (ws_groups (rekeyedWorkspace ws renames ids R))"
    using gs by (auto simp: rekeyed_groups wf_groups_def list_all_iff)
  with d s gs have "wf_groups E (map (renamedId R) (tabIds ws)) (ws_groups (rekeyedWorkspace ws renames ids R))"
    unfolding wf_groups_def ids by blast
  moreover have "distinct (map (renamedId R) (tabIds ws))" using dist inj by (simp only: distinct_map)
  ultimately show "wf_workspace E (rekeyedWorkspace ws renames ids R)"
    using wf unfolding wf_workspace_def tabs ids rekeyed_frame(2-4) by blast
qed

lemma ensures_renameInWorkspace:
  assumes m: "wf_model E m"
  shows "ensures (wf_model E) (renameInWorkspace m key renames)"
proof (cases "renameInWorkspace m key renames")
  case (Applied m' r e oc)
  let ?ids = "map (\<lambda>r. (fr_fileId r, fr_newFileId r)) renames"
  obtain ws where ws: "workspaceAt m key = Some ws"
    using Applied by (cases "workspaceAt m key") (simp_all add: renameInWorkspace_def)
  define R where "R = renamedTabIdsOf ws ?ids"
  have ids: "distinct (map snd ?ids)"
    and free: "\<forall>i\<in>set (allTabIds m). i \<in> set (map snd R) \<longrightarrow> mapOf R i \<noteq> None"
    and m': "m' = withWorkspace m key (rekeyedWorkspace ws renames ?ids R)"
    using Applied by (auto simp: renameInWorkspace_def Let_def ws R_def list_ex_iff simp del: map_map split: if_splits)
  have all: "set (tabIds ws) \<subseteq> set (allTabIds m)" using workspaceOrEmpty_sub(1) [of m key] ws by simp
  have inj: "inj_on (renamedId R) (set (allTabIds m))"
    by (rule inj_onI) (rule renamedId_inj [OF ids R_def free])
  note w = wf_rekeyedWorkspace [OF wf_model_lookup [OF m ws] R_def inj_on_subset [OF inj all], of renames]
  have others: "othersHold m key tabIds \<subseteq> set (allTabIds m)" by (rule othersHold_all)
  have apart: "set (tabIds ws) \<inter> othersHold m key tabIds = {}" "set (paneIds ws) \<inter> othersHold m key paneIds = {}"
    using othersHold_apart [OF m, of key] unfolding workspaceOrEmpty_simps(1) [OF ws] .
  have "i \<notin> othersHold m key tabIds" if "i \<in> set (tabIds (rekeyedWorkspace ws renames ?ids R))" for i
  proof
    assume held: "i \<in> othersHold m key tabIds"
    from that obtain k where k: "k \<in> set (tabIds ws)" "i = renamedId R k" unfolding w(2) by auto
    have "mapOf R i = None"
    proof (rule ccontr)
      assume "mapOf R i \<noteq> None"
      then have "i \<in> set (tabIds ws)" using mapOf_SomeD [of R i] renamedTabIdsOf_mem unfolding R_def by fastforce
      with held apart show False by blast
    qed
    then have "renamedId R i = renamedId R k" using k by (simp add: renamedId_def)
    with inj have "i = k" using held others k(1) all by (auto dest: inj_onD)
    with held k(1) apart show False by blast
  qed
  then have "set (tabIds (rekeyedWorkspace ws renames ?ids R)) \<inter> othersHold m key tabIds = {}" by blast
  moreover have "set (paneIds (rekeyedWorkspace ws renames ?ids R)) \<inter> othersHold m key paneIds = {}"
    unfolding rekeyed_frame by (rule apart)
  ultimately show ?thesis
    using wf_withWorkspace [OF m w(1)] Applied m' by simp
qed simp

lemma ensures_renameParts: "wf_model E m \<Longrightarrow> ensures (wf_model E) (renameParts m parts acc)"
proof (induction m parts acc rule: renameParts.induct)
  case (2 m key renames parts acc)
  show ?case
    using "2.IH" "2.prems" ensures_renameInWorkspace [of E m key renames]
    by (auto split: option.split applied.split)
qed simp

theorem ensures_renameEditorFiles: "wf_model E m \<Longrightarrow> ensures (wf_model E) (renameEditorFiles m key renames alsoIn)"
  by (simp add: renameEditorFiles_def Let_def ensures_renameParts del: renameParts.simps)

end
