(* ===== verification/Legacy_Persistence.thy ===== *)
theory Legacy_Persistence
  imports Layout_Steps
begin

text \<open>
  What older builds read beside the layout: \<open>workspace-layout-legacy-persistence.ts\<close>.  A workspace
  that showed a terminal keeps its row, and a repository's topology revision grows by one with
  every commit that adds or removes one of its panes.  \<open>same key\<close> says that the command handed back
  the workspace object it read (\<open>old === next\<close>).
\<close>

section \<open>Operations\<close>

definition getRepoIdFromWorktreeId :: "string \<Rightarrow> string" where
  "getRepoIdFromWorktreeId worktreeId =
     (case breakOn ''::'' worktreeId of None \<Rightarrow> worktreeId | Some (repo, path) \<Rightarrow> repo)"

definition paneKeys :: "workspaceLayout \<Rightarrow> string list" where
  "paneKeys ws = concat (map (\<lambda>t. map (paneKeyOf (tb_entityId t)) (leafIdsOf t)) (ws_tabs ws))"

text \<open>The loop over the keys of both layouts.  A \<open>Map\<close> is an association list.\<close>

record topologyScan =
  tc_owners :: "(string \<times> unit) list"
  tc_left :: "(string \<times> string) list"
  tc_arrived :: "(string \<times> string) list"
  tc_departed :: "string list"

definition putAll :: "string list \<Rightarrow> 'v \<Rightarrow> (string \<times> 'v) list \<Rightarrow> (string \<times> 'v) list" where
  "putAll ks v r = fold (\<lambda>k r. AList.update k v r) ks r"

definition scanKey ::
  "(string \<Rightarrow> bool) \<Rightarrow> workspaceLayoutModel \<Rightarrow> workspaceLayoutModel \<Rightarrow> topologyScan \<Rightarrow> string \<Rightarrow> topologyScan" where
  "scanKey same before after s key =
     (if same key then s
      else case workspaceAt after key of
          None \<Rightarrow> s\<lparr>tc_owners := AList.delete key (tc_owners s),
             tc_departed := tc_departed s @ (case workspaceAt before key of None \<Rightarrow> [] | Some old \<Rightarrow> paneKeys old)\<rparr>
        | Some w \<Rightarrow>
            s\<lparr>tc_owners := (if list_ex isTerminal (ws_tabs w) then AList.update key () (tc_owners s)
                else tc_owners s),
              tc_left := (case workspaceAt before key of None \<Rightarrow> tc_left s
                | Some old \<Rightarrow> putAll (paneKeys old) (ws_worktreeId old) (tc_left s)),
              tc_arrived := putAll (paneKeys w) (ws_worktreeId w) (tc_arrived s)\<rparr>)"

definition topologyScanOf ::
  "(string \<Rightarrow> bool) \<Rightarrow> workspaceLayoutModel \<Rightarrow> workspaceLayoutModel \<Rightarrow> topologyScan" where
  "topologyScanOf same before after =
     foldl (scanKey same before after)
       \<lparr>tc_owners = lg_terminalRowOwners (md_legacy after), tc_left = [], tc_arrived = [], tc_departed = []\<rparr>
       (uniq (map fst (md_workspaces before) @ map fst (md_workspaces after)))"

definition changedWorktrees :: "string list \<Rightarrow> topologyScan \<Rightarrow> string list" where
  "changedWorktrees retired s =
     uniq (retired
       @ map snd (filter (\<lambda>(k, w). map_of (tc_left s) k = None \<and> k \<notin> set (tc_departed s)) (tc_arrived s))
       @ map snd (filter (\<lambda>(k, w). map_of (tc_arrived s) k = None) (tc_left s)))"

definition bumpRevisions :: "string list \<Rightarrow> (string \<times> int) list \<Rightarrow> (string \<times> int) list" where
  "bumpRevisions repos r = fold (\<lambda>repo r. AList.update repo (orElse (map_of r repo) 0 + 1) r) repos r"

definition updateLegacyPersistence ::
  "(string \<Rightarrow> bool) \<Rightarrow> workspaceLayoutModel \<Rightarrow> workspaceLayoutModel \<Rightarrow> string list \<Rightarrow> workspaceLayoutModel" where
  "updateLegacyPersistence same before after retired =
     (let s = topologyScanOf same before after;
          changed = changedWorktrees retired s;
          legacy = (md_legacy after)\<lparr>lg_terminalRowOwners := tc_owners s\<rparr>
      in after\<lparr>md_legacy :=
           (if changed = [] then legacy
            else legacy\<lparr>lg_topologyRevision :=
              Some (bumpRevisions (uniq (map getRepoIdFromWorktreeId changed))
                (orElse (lg_topologyRevision (md_legacy after)) []))\<rparr>)\<rparr>)"

section \<open>What it leaves alone\<close>

lemma updateLegacy_frame [simp]:
  "md_workspaces (updateLegacyPersistence same m n rs) = md_workspaces n"
  "md_records (updateLegacyPersistence same m n rs) = md_records n"
  "md_hostId (updateLegacyPersistence same m n rs) = md_hostId n"
  by (simp_all add: updateLegacyPersistence_def Let_def)

lemma wf_updateLegacy [simp]: "wf_model E (updateLegacyPersistence same m n rs) = wf_model E n"
  by (rule wf_model_frame) simp

section \<open>Topology revisions\<close>

text \<open>The revision of a repository in the stored layout; a repository without one is at 0.\<close>

definition revisionOf :: "workspaceLayoutModel \<Rightarrow> string \<Rightarrow> int" where
  "revisionOf m repo = orElse (lookupOpt (lg_topologyRevision (md_legacy m)) repo) 0"

lemma bumpRevisions_lookup:
  "distinct repos \<Longrightarrow> map_of (bumpRevisions repos r) repo
     = (if repo \<in> set repos then Some (orElse (map_of r repo) 0 + 1) else map_of r repo)"
proof (induction repos arbitrary: r)
  case (Cons x xs)
  then show ?case by (auto simp: bumpRevisions_def update_conv')
qed (simp add: bumpRevisions_def)

lemma putAll_lookup: "map_of (putAll ks v r) k = (if k \<in> set ks then Some v else map_of r k)"
proof (induction ks arbitrary: r)
  case (Cons x xs)
  then show ?case by (auto simp: putAll_def update_conv')
qed (simp add: putAll_def)

lemma keys_putAll: "fst ` set (putAll ks v r) = fst ` set r \<union> set ks"
proof (induction ks arbitrary: r)
  case (Cons x xs)
  have "fst ` set (AList.update x v r) = insert x (fst ` set r)" by simp
  then show ?case using Cons.IH [of "AList.update x v r"] by (simp add: putAll_def)
qed (simp add: putAll_def)

text \<open>The worktrees whose panes changed.\<close>

definition changedOf ::
  "(string \<Rightarrow> bool) \<Rightarrow> workspaceLayoutModel \<Rightarrow> workspaceLayoutModel \<Rightarrow> string list \<Rightarrow> string list" where
  "changedOf same before after retired = changedWorktrees retired (topologyScanOf same before after)"

lemma revision_bumped:
  "revisionOf (updateLegacyPersistence same before after retired) repo
     = revisionOf after repo
       + (if repo \<in> getRepoIdFromWorktreeId ` set (changedOf same before after retired) then 1 else 0)"
proof (cases "changedOf same before after retired = []")
  case True
  then show ?thesis
    by (simp add: revisionOf_def updateLegacyPersistence_def Let_def changedOf_def)
next
  case False
  then show ?thesis
    using bumpRevisions_lookup [of "uniq (map getRepoIdFromWorktreeId (changedOf same before after retired))"
        "orElse (lg_topologyRevision (md_legacy after)) []" repo]
    by (cases "lg_topologyRevision (md_legacy after)")
      (simp_all add: revisionOf_def updateLegacyPersistence_def Let_def changedOf_def)
qed

text \<open>
  What the scan collects: the pane keys of the workspaces that changed and stay, before and after,
  and those of the workspaces that go.
\<close>

definition keysAcross :: "(string \<Rightarrow> bool) \<Rightarrow> workspaceLayoutModel \<Rightarrow> workspaceLayoutModel \<Rightarrow> string set" where
  "keysAcross P m n = (\<Union>k\<in>{k. P k \<and> workspaceAt n k \<noteq> None}.
     case workspaceAt m k of None \<Rightarrow> {} | Some w \<Rightarrow> set (paneKeys w))"

lemma scan_keys:
  assumes "s' = foldl (scanKey same before after) s keys"
  shows "fst ` set (tc_arrived s') = fst ` set (tc_arrived s) \<union> keysAcross (\<lambda>k. k \<in> set keys \<and> \<not> same k) after after"
    and "fst ` set (tc_left s') = fst ` set (tc_left s) \<union> keysAcross (\<lambda>k. k \<in> set keys \<and> \<not> same k) before after"
    and "set (tc_departed s') = set (tc_departed s) \<union> (\<Union>k\<in>{k\<in>set keys. \<not> same k \<and> workspaceAt after k = None}.
       case workspaceAt before k of None \<Rightarrow> {} | Some w \<Rightarrow> set (paneKeys w))"
proof -
  have "fst ` set (tc_arrived s') = fst ` set (tc_arrived s) \<union> keysAcross (\<lambda>k. k \<in> set keys \<and> \<not> same k) after after
    \<and> fst ` set (tc_left s') = fst ` set (tc_left s) \<union> keysAcross (\<lambda>k. k \<in> set keys \<and> \<not> same k) before after
    \<and> set (tc_departed s') = set (tc_departed s) \<union> (\<Union>k\<in>{k\<in>set keys. \<not> same k \<and> workspaceAt after k = None}.
       case workspaceAt before k of None \<Rightarrow> {} | Some w \<Rightarrow> set (paneKeys w))"
    using assms
  proof (induction keys arbitrary: s)
    case (Cons key keys)
    have split: "keysAcross (\<lambda>k. k \<in> set (key # keys) \<and> \<not> same k) m after
      = keysAcross (\<lambda>k. k \<in> set keys \<and> \<not> same k) m after
        \<union> (if \<not> same key \<and> workspaceAt after key \<noteq> None
           then (case workspaceAt m key of None \<Rightarrow> {} | Some w \<Rightarrow> set (paneKeys w)) else {})" for m
      by (auto simp: keysAcross_def)
    have gone: "(\<Union>k\<in>{k\<in>set (key # keys). \<not> same k \<and> workspaceAt after k = None}.
         case workspaceAt before k of None \<Rightarrow> {} | Some w \<Rightarrow> set (paneKeys w))
      = (\<Union>k\<in>{k\<in>set keys. \<not> same k \<and> workspaceAt after k = None}.
         case workspaceAt before k of None \<Rightarrow> {} | Some w \<Rightarrow> set (paneKeys w))
        \<union> (if \<not> same key \<and> workspaceAt after key = None
           then (case workspaceAt before key of None \<Rightarrow> {} | Some w \<Rightarrow> set (paneKeys w)) else {})"
      by auto
    show ?case
      unfolding split gone using Cons.IH [of "scanKey same before after s key"] Cons.prems
      by (cases "workspaceAt after key"; cases "workspaceAt before key")
        (auto simp: scanKey_def keys_putAll simp del: Un_iff)
  qed (simp add: keysAcross_def)
  then show "fst ` set (tc_arrived s') = fst ` set (tc_arrived s) \<union> keysAcross (\<lambda>k. k \<in> set keys \<and> \<not> same k) after after"
    and "fst ` set (tc_left s') = fst ` set (tc_left s) \<union> keysAcross (\<lambda>k. k \<in> set keys \<and> \<not> same k) before after"
    and "set (tc_departed s') = set (tc_departed s) \<union> (\<Union>k\<in>{k\<in>set keys. \<not> same k \<and> workspaceAt after k = None}.
       case workspaceAt before k of None \<Rightarrow> {} | Some w \<Rightarrow> set (paneKeys w))" by auto
qed

text \<open>A commit that neither adds nor removes a pane leaves every revision as it is.\<close>

lemma changedOf_none:
  assumes "set (map fst (md_workspaces before)) = set (map fst (md_workspaces after))"
    and "\<And>k w. workspaceAt after k = Some w \<Longrightarrow>
       set (paneKeys w) = set (paneKeys (workspaceOrEmpty before k))"
  shows "changedOf same before after [] = []"
proof -
  let ?s = "topologyScanOf same before after"
  let ?keys = "uniq (map fst (md_workspaces before) @ map fst (md_workspaces after))"
  have present: "\<exists>v. workspaceAt before k = Some v" if "workspaceAt after k = Some w" for k w
  proof -
    have "k \<in> set (map fst (md_workspaces before))"
      unfolding assms(1) using that by (force dest: map_of_SomeD)
    then show ?thesis by (metis map_of_eq_None_iff not_None_eq set_map)
  qed
  have same_keys: "(case workspaceAt before k of None \<Rightarrow> {} | Some w \<Rightarrow> set (paneKeys w)) = set (paneKeys w)"
    if w: "workspaceAt after k = Some w" for k w
  proof -
    obtain v where "workspaceAt before k = Some v" using present [OF w] by blast
    with assms(2) [OF w] show ?thesis by simp
  qed
  have "keysAcross P after after = keysAcross P before after" for P
    unfolding keysAcross_def by (rule SUP_cong [OF refl]) (auto simp: same_keys)
  then have eq: "fst ` set (tc_arrived ?s) = fst ` set (tc_left ?s)"
    using scan_keys(1,2) [OF topologyScanOf_def] by simp
  have "filter (\<lambda>(k, w). map_of (tc_left ?s) k = None \<and> k \<notin> set (tc_departed ?s)) (tc_arrived ?s) = []"
    using eq by (force simp: filter_empty_conv map_of_eq_None_iff)
  moreover have "filter (\<lambda>(k, w). map_of (tc_arrived ?s) k = None) (tc_left ?s) = []"
    using eq by (force simp: filter_empty_conv map_of_eq_None_iff)
  ultimately show ?thesis by (simp add: changedOf_def changedWorktrees_def)
qed

end
