(* ===== verification/Dropped_Leaves.thy ===== *)
theory Dropped_Leaves
  imports Layout_Steps Closed_Records
begin

text \<open>
  Panes a commit dropped: \<open>workspace-layout-dropped-leaves.ts\<close>.  \<open>===\<close> on workspaces is equality of
  their values: a workspace that did not change by value drops no pane either.  The key
  \<open>ptyId\0incarnation\<close> is the pair.
\<close>

section \<open>Operations\<close>

record droppedLeaf =
  dl_hostId :: string
  dl_worktreeId :: string
  dl_tabId :: string
  dl_leafId :: string
  dl_ptyId :: string
  dl_incarnationId :: "string option"

definition boundLeaves :: "string \<Rightarrow> workspaceLayout \<Rightarrow> droppedLeaf list" where
  "boundLeaves hostId ws =
     concat (map (\<lambda>t. concat (map (\<lambda>l. case leafAt ws l of
          None \<Rightarrow> []
        | Some leaf \<Rightarrow>
            if truthy (lf_ptyId leaf)
            then [\<lparr>dl_hostId = hostId, dl_worktreeId = ws_worktreeId ws, dl_tabId = tb_entityId t, dl_leafId = l,
                   dl_ptyId = the (lf_ptyId leaf),
                   dl_incarnationId = (if truthy (lf_incarnationId leaf) then lf_incarnationId leaf else None)\<rparr>]
            else []) (leafIdsOf t))) (ws_tabs ws))"

definition terminalKey :: "string \<Rightarrow> string option \<Rightarrow> string \<times> string" where
  "terminalKey ptyId incarnationId = (ptyId, orElse incarnationId [])"

definition heldTerminals :: "workspaceLayoutModel \<Rightarrow> (string \<times> string) set" where
  "heldTerminals m = set (concat (map (\<lambda>(k, ws).
     map (\<lambda>l. terminalKey (dl_ptyId l) (dl_incarnationId l)) (boundLeaves (md_hostId m) ws)) (md_workspaces m)))"

definition droppedLeavesOf :: "workspaceLayoutModel \<Rightarrow> workspaceLayoutModel \<Rightarrow> droppedLeaf list" where
  "droppedLeavesOf before after =
     concat (map (\<lambda>(key, ws).
       if workspaceAt after key = Some ws then []
       else filter (\<lambda>l. Option.bind (workspaceAt after key) (\<lambda>w. leafAt w (dl_leafId l)) = None
           \<and> terminalKey (dl_ptyId l) (dl_incarnationId l) \<notin> heldTerminals after)
         (boundLeaves (md_hostId before) ws)) (md_workspaces before))"

definition closedPanesOf :: "workspaceLayoutModel \<Rightarrow> droppedLeaf list \<Rightarrow> (string \<times> closedPane) list" where
  "closedPanesOf m dropped =
     (let recorded = map (\<lambda>(k, p). terminalKey (cp_ptyId p) (Some (cp_incarnationId p)))
            (orElse (rc_closedTerminalPanes (md_records m)) [])
      in fold (\<lambda>l acc.
           if truthy (dl_incarnationId l) \<and> terminalKey (dl_ptyId l) (dl_incarnationId l) \<notin> set recorded
           then AList.update (paneKeyOf (dl_tabId l) (dl_leafId l))
             \<lparr>cd_ptyId = dl_ptyId l, cd_incarnationId = the (dl_incarnationId l), cd_worktreeId = dl_worktreeId l\<rparr> acc
           else acc) dropped [])"

definition onDroppedLeaves :: "workspaceLayoutModel \<Rightarrow> droppedLeaf list \<Rightarrow> int \<Rightarrow> workspaceLayoutModel" where
  "onDroppedLeaves m dropped now =
     (let closed0 = closedPanesOf m dropped in
      if closed0 = [] then m
      else m\<lparr>md_records := (md_records m)\<lparr>rc_closedTerminalPanes :=
        Some (recordClosedTerminalPanes (rc_closedTerminalPanes (md_records m)) closed0 now)\<rparr>\<rparr>)"

definition runDroppedLeafStep ::
  "bool \<Rightarrow> workspaceLayoutModel \<Rightarrow> workspaceLayoutModel \<Rightarrow> int \<Rightarrow> workspaceLayoutModel" where
  "runDroppedLeafStep own before after now =
     (if \<not> own \<or> md_workspaces before = md_workspaces after then after
      else onDroppedLeaves after (droppedLeavesOf before after) now)"

section \<open>Which panes are dropped\<close>

lemma runDroppedLeafStep_frame [simp]:
  "md_workspaces (runDroppedLeafStep own m n now) = md_workspaces n"
  "md_legacy (runDroppedLeafStep own m n now) = md_legacy n"
  by (simp_all add: runDroppedLeafStep_def onDroppedLeaves_def Let_def)

lemma wf_runDroppedLeafStep [simp]: "wf_model E (runDroppedLeafStep own m n now) = wf_model E n"
  by (rule wf_model_frame) simp

lemma boundLeaves_mem:
  "l \<in> set (boundLeaves h ws) \<Longrightarrow>
     \<exists>t leaf. t \<in> set (ws_tabs ws) \<and> dl_leafId l \<in> set (leafIdsOf t) \<and> dl_tabId l = tb_entityId t
       \<and> leafAt ws (dl_leafId l) = Some leaf \<and> lf_ptyId leaf = Some (dl_ptyId l)"
  by (auto simp: boundLeaves_def split: option.splits if_splits) (metis option.collapse truthy_simps(1))+

text \<open>
  A dropped pane was bound, its workspace no longer has its data, and no pane of the new layout
  shows its terminal, so the terminal may be stopped.
\<close>

lemma droppedLeavesOf_iff:
  assumes "distinct (map fst (md_workspaces before))"
  shows "l \<in> set (droppedLeavesOf before after) \<longleftrightarrow>
     (\<exists>key ws. workspaceAt before key = Some ws \<and> l \<in> set (boundLeaves (md_hostId before) ws)
        \<and> Option.bind (workspaceAt after key) (\<lambda>w. leafAt w (dl_leafId l)) = None
        \<and> terminalKey (dl_ptyId l) (dl_incarnationId l) \<notin> heldTerminals after)"
  (is "?lhs \<longleftrightarrow> ?rhs")
proof
  assume ?lhs
  then obtain key ws where "(key, ws) \<in> set (md_workspaces before)" "l \<in> set (boundLeaves (md_hostId before) ws)"
    "Option.bind (workspaceAt after key) (\<lambda>w. leafAt w (dl_leafId l)) = None"
    "terminalKey (dl_ptyId l) (dl_incarnationId l) \<notin> heldTerminals after"
    by (auto simp: droppedLeavesOf_def split: if_splits)
  with assms show ?rhs by (metis map_of_is_SomeI)
next
  assume ?rhs
  then obtain key ws where w: "workspaceAt before key = Some ws" "l \<in> set (boundLeaves (md_hostId before) ws)"
    "Option.bind (workspaceAt after key) (\<lambda>w. leafAt w (dl_leafId l)) = None"
    "terminalKey (dl_ptyId l) (dl_incarnationId l) \<notin> heldTerminals after" by blast
  have "workspaceAt after key \<noteq> Some ws"
    using w(3) boundLeaves_mem [OF w(2)] by auto
  with w map_of_SomeD [OF w(1)] show ?lhs by (force simp: droppedLeavesOf_def)
qed

text \<open>The same of the single panes: what is written down of a pane, and which terminals are held.\<close>

lemma boundLeaves_iff:
  "l \<in> set (boundLeaves h ws) \<longleftrightarrow>
     (\<exists>t i data p. t \<in> set (ws_tabs ws) \<and> i \<in> set (leafIdsOf t) \<and> leafAt ws i = Some data
        \<and> lf_ptyId data = Some p \<and> p \<noteq> []
        \<and> l = \<lparr>dl_hostId = h, dl_worktreeId = ws_worktreeId ws, dl_tabId = tb_entityId t, dl_leafId = i, dl_ptyId = p,
               dl_incarnationId = (if lf_incarnationId data = Some [] then None else lf_incarnationId data)\<rparr>)"
    (is "?lhs \<longleftrightarrow> ?rhs")
proof
  assume ?lhs
  then obtain t i where ti: "t \<in> set (ws_tabs ws)" "i \<in> set (leafIdsOf t)"
    and "l \<in> set (case leafAt ws i of None \<Rightarrow> [] | Some leaf \<Rightarrow>
      if truthy (lf_ptyId leaf)
      then [\<lparr>dl_hostId = h, dl_worktreeId = ws_worktreeId ws, dl_tabId = tb_entityId t, dl_leafId = i,
             dl_ptyId = the (lf_ptyId leaf),
             dl_incarnationId = (if truthy (lf_incarnationId leaf) then lf_incarnationId leaf else None)\<rparr>]
      else [])"
    by (auto simp: boundLeaves_def)
  then obtain data where "leafAt ws i = Some data" "truthy (lf_ptyId data)"
    and l: "l = \<lparr>dl_hostId = h, dl_worktreeId = ws_worktreeId ws, dl_tabId = tb_entityId t, dl_leafId = i,
       dl_ptyId = the (lf_ptyId data),
       dl_incarnationId = (if truthy (lf_incarnationId data) then lf_incarnationId data else None)\<rparr>"
    by (cases "leafAt ws i") (simp_all split: if_splits)
  with ti show ?rhs by (intro exI [of _ t] exI [of _ i] exI [of _ data] exI [of _ "the (lf_ptyId data)"])
    (auto simp: truthy_def)
next
  assume ?rhs
  then obtain t i data p where t: "t \<in> set (ws_tabs ws)" "i \<in> set (leafIdsOf t)" "leafAt ws i = Some data"
    "lf_ptyId data = Some p" "p \<noteq> []"
    "l = \<lparr>dl_hostId = h, dl_worktreeId = ws_worktreeId ws, dl_tabId = tb_entityId t, dl_leafId = i, dl_ptyId = p,
       dl_incarnationId = (if lf_incarnationId data = Some [] then None else lf_incarnationId data)\<rparr>" by blast
  then show ?lhs
    by (auto simp: boundLeaves_def truthy_def intro!: bexI [of _ t] bexI [of _ i])
qed

text \<open>Pane \<open>i\<close> of tab \<open>t\<close> shows the terminal \<open>p\<close> under the incarnation \<open>n\<close>, or under none.\<close>

definition paneShows :: "workspaceLayout \<Rightarrow> layoutTab \<Rightarrow> string \<Rightarrow> string \<Rightarrow> string option \<Rightarrow> bool" where
  "paneShows ws t i p n \<longleftrightarrow> t \<in> set (ws_tabs ws) \<and> i \<in> set (leafIdsOf t) \<and> p \<noteq> []
     \<and> (\<exists>data. leafAt ws i = Some data \<and> lf_ptyId data = Some p
          \<and> n = (if lf_incarnationId data = Some [] then None else lf_incarnationId data))"

lemma boundLeaves_shows:
  "l \<in> set (boundLeaves h ws) \<longleftrightarrow>
     (\<exists>t. paneShows ws t (dl_leafId l) (dl_ptyId l) (dl_incarnationId l) \<and> dl_hostId l = h
        \<and> dl_worktreeId l = ws_worktreeId ws \<and> dl_tabId l = tb_entityId t)"
proof -
  have "l = \<lparr>dl_hostId = h, dl_worktreeId = a, dl_tabId = b, dl_leafId = i, dl_ptyId = p, dl_incarnationId = n\<rparr>
    \<longleftrightarrow> dl_hostId l = h \<and> dl_worktreeId l = a \<and> dl_tabId l = b \<and> dl_leafId l = i \<and> dl_ptyId l = p
      \<and> dl_incarnationId l = n" for a b i p n
    by (cases l) auto
  then show ?thesis unfolding boundLeaves_iff paneShows_def by (simp only:) blast
qed

lemma terminalKey_eq:
  assumes "n \<noteq> Some []" "n' \<noteq> Some []"
  shows "terminalKey p n = terminalKey p' n' \<longleftrightarrow> p = p' \<and> n = n'"
  using assms by (cases n; cases n') (auto simp: terminalKey_def)

lemma paneShows_plain: "paneShows ws t i p n \<Longrightarrow> n \<noteq> Some []"
  by (auto simp: paneShows_def split: if_splits)

lemma heldTerminals_iff:
  assumes "distinct (map fst (md_workspaces m))" "n \<noteq> Some []"
  shows "terminalKey p n \<in> heldTerminals m \<longleftrightarrow> (\<exists>k w t i. workspaceAt m k = Some w \<and> paneShows w t i p n)"
proof
  assume "terminalKey p n \<in> heldTerminals m"
  then obtain k w l where w: "(k, w) \<in> set (md_workspaces m)" and l: "l \<in> set (boundLeaves (md_hostId m) w)"
    and key: "terminalKey p n = terminalKey (dl_ptyId l) (dl_incarnationId l)"
    by (auto simp: heldTerminals_def)
  from l obtain t where t: "paneShows w t (dl_leafId l) (dl_ptyId l) (dl_incarnationId l)"
    unfolding boundLeaves_shows by blast
  then have "p = dl_ptyId l" "n = dl_incarnationId l"
    using key terminalKey_eq [OF assms(2) paneShows_plain] by blast+
  with w t assms(1) show "\<exists>k w t i. workspaceAt m k = Some w \<and> paneShows w t i p n"
    by (metis map_of_is_SomeI)
next
  assume "\<exists>k w t i. workspaceAt m k = Some w \<and> paneShows w t i p n"
  then obtain k w t i where w: "workspaceAt m k = Some w" and t: "paneShows w t i p n" by blast
  let ?l = "\<lparr>dl_hostId = md_hostId m, dl_worktreeId = ws_worktreeId w, dl_tabId = tb_entityId t, dl_leafId = i,
    dl_ptyId = p, dl_incarnationId = n\<rparr>"
  have "?l \<in> set (boundLeaves (md_hostId m) w)" unfolding boundLeaves_shows using t by auto
  with map_of_SomeD [OF w] have "terminalKey (dl_ptyId ?l) (dl_incarnationId ?l) \<in> heldTerminals m"
    unfolding heldTerminals_def by force
  then show "terminalKey p n \<in> heldTerminals m" by simp
qed

lemma droppedLeavesOf_panes:
  assumes keys: "distinct (map fst (md_workspaces before))" "distinct (map fst (md_workspaces after))"
  shows "l \<in> set (droppedLeavesOf before after) \<longleftrightarrow>
     (\<exists>key ws t. workspaceAt before key = Some ws \<and> paneShows ws t (dl_leafId l) (dl_ptyId l) (dl_incarnationId l)
        \<and> dl_hostId l = md_hostId before \<and> dl_worktreeId l = ws_worktreeId ws \<and> dl_tabId l = tb_entityId t
        \<and> (\<forall>w. workspaceAt after key = Some w \<longrightarrow> leafAt w (dl_leafId l) = None)
        \<and> (\<nexists>k w u i. workspaceAt after k = Some w \<and> paneShows w u i (dl_ptyId l) (dl_incarnationId l)))"
proof -
  have gone: "Option.bind (workspaceAt after key) (\<lambda>w. leafAt w i) = None
      \<longleftrightarrow> (\<forall>w. workspaceAt after key = Some w \<longrightarrow> leafAt w i = None)" for key i
    by (cases "workspaceAt after key") simp_all
  have held: "terminalKey (dl_ptyId l) (dl_incarnationId l) \<in> heldTerminals after
      \<longleftrightarrow> (\<exists>k w u i. workspaceAt after k = Some w \<and> paneShows w u i (dl_ptyId l) (dl_incarnationId l))"
    if "paneShows ws t (dl_leafId l) (dl_ptyId l) (dl_incarnationId l)" for ws t
    by (rule heldTerminals_iff [OF keys(2) paneShows_plain [OF that]])
  show ?thesis
    unfolding droppedLeavesOf_iff [OF keys(1)] boundLeaves_shows gone using held by blast
qed

section \<open>The record that the exit finds\<close>

text \<open>A loop that assigns properties under distinct keys.\<close>

lemma fold_assign:
  fixes key :: "'a \<Rightarrow> 'k" and val :: "'a \<Rightarrow> 'v" and acc :: "('k \<times> 'v) list"
  defines "assign \<equiv> \<lambda>C xs. fold (\<lambda>x acc. if C x then AList.update (key x) (val x) acc else acc) xs"
  shows "distinct (map key xs) \<Longrightarrow> x \<in> set xs \<Longrightarrow> C x \<Longrightarrow> map_of (assign C xs acc) (key x) = Some (val x)"
    and "distinct (map fst acc) \<Longrightarrow> distinct (map fst (assign C xs acc))"
    and "length (assign C xs acc) \<le> length acc + length xs"
proof -
  have other: "map_of (assign C xs acc) k = map_of acc k" if "k \<notin> key ` set xs" for k xs and acc :: "('k \<times> 'v) list"
    using that unfolding assign_def by (induction xs arbitrary: acc) (auto simp: update_conv')
  show "distinct (map key xs) \<Longrightarrow> x \<in> set xs \<Longrightarrow> C x \<Longrightarrow> map_of (assign C xs acc) (key x) = Some (val x)"
  proof (induction xs arbitrary: acc)
    case (Cons y ys)
    show ?case
    proof (cases "x \<in> set ys")
      case True
      with Cons show ?thesis by (simp add: assign_def)
    next
      case False
      then have "x = y" "key x \<notin> key ` set ys" using Cons.prems by auto
      with Cons.prems(3) other [of "key x" ys "AList.update (key x) (val x) acc"] show ?thesis
        by (simp add: assign_def update_conv')
    qed
  qed simp
  show "distinct (map fst acc) \<Longrightarrow> distinct (map fst (assign C xs acc))"
    unfolding assign_def by (induction xs arbitrary: acc) (auto simp: distinct_update)
  have len: "length (AList.update k v r) \<le> Suc (length r)" for k v and r :: "('k \<times> 'v) list"
    by (induction r) auto
  show "length (assign C xs acc) \<le> length acc + length xs"
    unfolding assign_def
  proof (induction xs arbitrary: acc)
    case (Cons y ys)
    show ?case
      using Cons [of "AList.update (key y) (val y) acc"] Cons [of acc] len [of "key y" "val y" acc] by simp
  qed simp
qed

text \<open>
  A live edit records the pane of every terminal it dropped: below the cap, the terminal's exit
  finds the record.
\<close>

lemma dropped_recorded:
  assumes keys: "distinct (map (\<lambda>l. paneKeyOf (dl_tabId l) (dl_leafId l)) dropped)"
    and l: "l \<in> set dropped" "dl_incarnationId l = Some inc" "inc \<noteq> []"
    and new: "terminalKey (dl_ptyId l) (Some inc)
      \<notin> (\<lambda>(k, p). terminalKey (cp_ptyId p) (Some (cp_incarnationId p))) ` set (orElse r [])"
    and r: "r = rc_closedTerminalPanes (md_records m)" "distinct (keysOf r)"
    and cap: "length (orElse r []) + length dropped \<le> MAX_CLOSED_TERMINAL_TAB_TOMBSTONES"
  shows "closedTerminalPaneOf (rc_closedTerminalPanes (md_records (onDroppedLeaves m dropped now)))
      (dl_ptyId l) inc now \<noteq> None"
proof -
  let ?key = "\<lambda>l. paneKeyOf (dl_tabId l) (dl_leafId l)"
  let ?val = "\<lambda>l. \<lparr>cd_ptyId = dl_ptyId l, cd_incarnationId = the (dl_incarnationId l), cd_worktreeId = dl_worktreeId l\<rparr>"
  let ?C = "\<lambda>l. truthy (dl_incarnationId l) \<and> terminalKey (dl_ptyId l) (dl_incarnationId l)
    \<notin> set (map (\<lambda>(k, p). terminalKey (cp_ptyId p) (Some (cp_incarnationId p))) (orElse r []))"
  define closed0 where "closed0 = closedPanesOf m dropped"
  have c0: "closed0 = fold (\<lambda>x acc. if ?C x then AList.update (?key x) (?val x) acc else acc) dropped []"
    by (simp add: closed0_def closedPanesOf_def Let_def r(1))
  have "?C l" using l(2,3) new by (simp add: set_map)
  from fold_assign(1) [where C = ?C and val = ?val and acc = "[]", OF keys l(1) this]
  have look0: "map_of closed0 (?key l) = Some (?val l)" unfolding c0 .
  have d0: "distinct (map fst closed0)"
    unfolding c0 by (rule fold_assign(2) [where C = ?C and val = ?val and key = ?key]) simp
  have len0: "length closed0 \<le> length dropped"
    unfolding c0 using fold_assign(3) [where C = ?C and val = ?val and key = ?key and acc = "[]" and xs = dropped] by simp
  let ?merged = "fold (\<lambda>(k, p) acc. AList.update k (closedAtNow now p) acc) closed0 (orElse r [])"
  have merged: "?merged = fold (\<lambda>x acc. if True then AList.update (fst x) (closedAtNow now (snd x)) acc else acc) closed0 (orElse r [])"
    by (intro fold_cong) auto
  have mem0: "(?key l, ?val l) \<in> set closed0" by (rule map_of_SomeD [OF look0])
  have "map_of ?merged (?key l) = Some (closedAtNow now (?val l))"
    unfolding merged using fold_assign(1) [OF d0 mem0, where C = "\<lambda>_. True" and val = "\<lambda>x. closedAtNow now (snd x)" and acc = "orElse r []"]
    by simp
  then have mem: "(?key l, closedAtNow now (?val l)) \<in> set ?merged" by (rule map_of_SomeD)
  have dist: "distinct (keysOf (Some ?merged))"
    unfolding merged keysOf_simps using r(2)
    by (intro fold_assign(2) [where C = "\<lambda>_. True"]) (cases r; simp)
  have "length ?merged \<le> length (orElse r []) + length closed0"
    unfolding merged by (rule fold_assign(3) [where C = "\<lambda>_. True"])
  then have cap': "length (orElse (Some ?merged) []) \<le> MAX_CLOSED_TERMINAL_TAB_TOMBSTONES"
    using len0 cap by simp
  have "liveRecord now now" by (simp add: liveRecord_def CLOSED_TERMINAL_TAB_TOMBSTONE_TTL_MS_def)
  then have "(?key l, closedAtNow now (?val l)) \<in> set (recordClosedTerminalPanes r closed0 now)"
    using mem unfolding recordClosedTerminalPanes_def prune_below_cap [OF dist cap']
    by (simp add: closedAtNow_def)
  moreover have "closed0 \<noteq> []" using mem0 by auto
  then have "rc_closedTerminalPanes (md_records (onDroppedLeaves m dropped now))
      = Some (recordClosedTerminalPanes r closed0 now)"
    by (simp add: onDroppedLeaves_def closed0_def [symmetric] r(1))
  ultimately show ?thesis
    unfolding closedTerminalPaneOf_def find_None_iff
    using \<open>liveRecord now now\<close> l(2) by (force simp: closedAtNow_def)
qed

end
