(* ===== verification/Layout_Commands.thy ===== *)
theory Layout_Commands
  imports Group_Commands Pane_Commands Editor_Rekey Legacy_Persistence Dropped_Leaves
begin

text \<open>
  The command dispatcher: \<open>workspace-layout-commands.ts\<close> and \<open>workspace-layout-default-tabs.ts\<close>.
  A command is checked against the workspace it names, run by its handler, and the result is
  completed with the bookkeeping of older builds and, on a live edit, with the dropped panes.
\<close>

section \<open>Commands\<close>

record defaultTerminalTab =
  df_tabId :: string
  df_leafId :: string
  df_title :: "string option"
  df_color :: "string option"
  df_creation :: "terminalCreation option"

datatype layoutCommand =
    CreateTerminalTab createTerminalTabCommand
  | SplitPane string string string direction "rat option" "string option"
      \<comment> \<open>workspace, tab, pane, direction, ratio, new pane\<close>
  | ClosePane string string string bool \<comment> \<open>workspace, tab, pane, userPaneClose\<close>
  | CloseTabs closeTabsCommand
  | MoveTab moveTabCommand
  | SplitGroup string string string groupSide \<comment> \<open>workspace, tab, beside, side\<close>
  | SetGroupRatios string "split_node option" "splitRatioIntent list option"
  | SetPaneRatios string string "split_node option" "splitRatioIntent list option"
  | MovePane string string string string paneSide \<comment> \<open>workspace, tab, pane, target, side\<close>
  | EqualizePanes string string
  | MovePaneToNewTab movePaneToNewTabCommand
  | RenameTab string string tabTitle
  | RenamePane string string string "string option"
  | SetPaneGrid string string string "int \<times> int"
  | ReleasePaneTerminal string string string string
  | SetTabProps setTabPropsCommand
  | SetChatPane string string "string option"
  | OpenEditorTab openEditorTabCommand
  | PromotePreviewTab string string
  | OpenSimulatorTab openSimulatorTabCommand
  | MoveTabToWorkspace moveTabToWorkspaceCommand
  | RenameEditorFiles string "fileRename list" "(string \<times> fileRename list) list"
  | OpenBrowserTab openBrowserTabCommand
  | OpenBrowserPage string string string
  | CloseBrowserPage string string string
  | ReplaceBrowserPage string string string string
  | SetBrowserTabProfile string string "string option" "string option"
  | OpenAgentSessionTab openAgentSessionTabCommand
  | StartPane string string
  | RestartPane string string
  | Sleep string "string list option" "sleepingAgentRecord list" bool
  | Wake string "string list option" bool
  | SetDefaultTabsApplied string
  | ApplyDefaultTabs string "defaultTerminalTab list"

fun commandWorkspace :: "layoutCommand \<Rightarrow> string" where
  "commandWorkspace (CreateTerminalTab c) = ct_workspace c"
| "commandWorkspace (SplitPane w t l d r n) = w"
| "commandWorkspace (ClosePane w t l u) = w"
| "commandWorkspace (CloseTabs c) = xt_workspace c"
| "commandWorkspace (MoveTab c) = mt_workspace c"
| "commandWorkspace (SplitGroup w t b s) = w"
| "commandWorkspace (SetGroupRatios w l r) = w"
| "commandWorkspace (SetPaneRatios w t l r) = w"
| "commandWorkspace (MovePane w t l g s) = w"
| "commandWorkspace (EqualizePanes w t) = w"
| "commandWorkspace (MovePaneToNewTab c) = mp_workspace c"
| "commandWorkspace (RenameTab w t x) = w"
| "commandWorkspace (RenamePane w t l x) = w"
| "commandWorkspace (SetPaneGrid w t l g) = w"
| "commandWorkspace (ReleasePaneTerminal w t l p) = w"
| "commandWorkspace (SetTabProps c) = sp_workspace c"
| "commandWorkspace (SetChatPane w t l) = w"
| "commandWorkspace (OpenEditorTab c) = oe_workspace c"
| "commandWorkspace (PromotePreviewTab w t) = w"
| "commandWorkspace (OpenSimulatorTab c) = os_workspace c"
| "commandWorkspace (MoveTabToWorkspace c) = mw_workspace c"
| "commandWorkspace (RenameEditorFiles w r a) = w"
| "commandWorkspace (OpenBrowserTab c) = ob_workspace c"
| "commandWorkspace (OpenBrowserPage w b p) = w"
| "commandWorkspace (CloseBrowserPage w b p) = w"
| "commandWorkspace (ReplaceBrowserPage w b p q) = w"
| "commandWorkspace (SetBrowserTabProfile w b p s) = w"
| "commandWorkspace (OpenAgentSessionTab c) = oa_workspace c"
| "commandWorkspace (StartPane w p) = w"
| "commandWorkspace (RestartPane w p) = w"
| "commandWorkspace (Sleep w p r ro) = w"
| "commandWorkspace (Wake w p ro) = w"
| "commandWorkspace (SetDefaultTabsApplied w) = w"
| "commandWorkspace (ApplyDefaultTabs w ts) = w"

text \<open>The set \<open>CREATES_WORKSPACE\<close>.\<close>

definition createsWorkspace :: "layoutCommand \<Rightarrow> bool" where
  "createsWorkspace c = (case c of
     CreateTerminalTab _ \<Rightarrow> True | OpenEditorTab _ \<Rightarrow> True | OpenBrowserTab _ \<Rightarrow> True
   | OpenAgentSessionTab _ \<Rightarrow> True | OpenSimulatorTab _ \<Rightarrow> True | _ \<Rightarrow> False)"

record generatedTabTitle =
  gt_workspace :: string
  gt_tabId :: string
  gt_title :: "string option"
  gt_replaceExisting :: bool

definition renameTabCommandsOf :: "generatedTabTitle list \<Rightarrow> layoutCommand list" where
  "renameTabCommandsOf renames =
     map (\<lambda>r. RenameTab (gt_workspace r) (gt_tabId r) (GeneratedTitle (gt_title r) (gt_replaceExisting r))) renames"

section \<open>Default tabs\<close>

definition defaultTabsMarked :: "workspaceLayoutModel \<Rightarrow> string \<Rightarrow> bool" where
  "defaultTabsMarked m key \<longleftrightarrow> lookupOpt (rc_defaultTabsApplied (md_records m)) key \<noteq> None"

definition setDefaultTabsApplied :: "workspaceLayoutModel \<Rightarrow> string \<Rightarrow> applied" where
  "setDefaultTabsApplied m key =
     (if defaultTabsMarked m key then appliedOnly m
      else appliedOnly (m\<lparr>md_records := (md_records m)\<lparr>rc_defaultTabsApplied :=
        Some (AList.update key () (orElse (rc_defaultTabsApplied (md_records m)) []))\<rparr>\<rparr>))"

text \<open>An empty title or color of a template is absent.\<close>

definition noCreation :: terminalCreation where
  "noCreation = \<lparr>tc_defaultTitle = None, tc_shellOverride = None, tc_forceHostRuntime = None,
     tc_startupCwd = None, tc_launchAgent = None\<rparr>"

definition defaultTabCommand :: "string \<Rightarrow> defaultTerminalTab \<Rightarrow> createTerminalTabCommand" where
  "defaultTabCommand key t =
     \<lparr>ct_workspace = key, ct_tabId = Some (df_tabId t), ct_leafId = Some (df_leafId t),
      ct_placement = \<lparr>pl_groupId = None, pl_afterTabId = None, pl_index = None\<rparr>,
      ct_title = (if truthy (df_title t) then df_title t else None),
      ct_color = (if truthy (df_color t) then df_color t else None),
      ct_viewMode = None, ct_createdAt = None, ct_quickCommandLabel = None,
      ct_creation = orElse (df_creation t) noCreation, ct_initial = None, ct_adopt = None, ct_split = None\<rparr>"

fun applyTemplates ::
  "bool \<Rightarrow> string \<Rightarrow> layoutContext \<Rightarrow> defaultTerminalTab list \<Rightarrow> workspaceLayoutModel
     \<Rightarrow> (string \<times> string \<times> string) list \<Rightarrow> string list \<Rightarrow> applied" where
  "applyTemplates own key cx [] m created starts =
     (case setDefaultTabsApplied m key of
        Refused code \<Rightarrow> Refused code
      | Applied m' r e oc \<Rightarrow>
          Applied m' (noResult\<lparr>rs_createdTabs := Some created\<rparr>) (noEffects\<lparr>fx_startPaneKeys := starts\<rparr>) [])"
| "applyTemplates own key cx (t # ts) m created starts =
     (case createTerminalTab own m (defaultTabCommand key t) cx of
        Refused code \<Rightarrow> Refused code
      | Applied m' r e oc \<Rightarrow>
          applyTemplates own key cx ts m'
            (created @ [(df_tabId t, df_leafId t, paneKeyOf (df_tabId t) (df_leafId t))])
            (starts @ fx_startPaneKeys e))"

definition applyDefaultTabs ::
  "bool \<Rightarrow> workspaceLayoutModel \<Rightarrow> string \<Rightarrow> defaultTerminalTab list \<Rightarrow> layoutContext \<Rightarrow> applied" where
  "applyDefaultTabs own m key ts cx =
     (if defaultTabsMarked m key then appliedWith m (noResult\<lparr>rs_createdTabs := Some []\<rparr>)
      else applyTemplates own key cx ts m [] [])"

section \<open>Dispatch\<close>

fun runCommand :: "bool \<Rightarrow> workspaceLayoutModel \<Rightarrow> layoutContext \<Rightarrow> layoutCommand \<Rightarrow> applied" where
  "runCommand own m cx (CreateTerminalTab c) =
     openInNewGroup m (ct_workspace c) (ct_split c) (ct_tabId c) (pl_groupId (ct_placement c))
       (\<lambda>n. createTerminalTab own n c cx)"
| "runCommand own m cx (SplitPane w t l d r n) = splitPane m w t l d r n cx"
| "runCommand own m cx (ClosePane w t l u) = closePane m w t l u"
| "runCommand own m cx (CloseTabs c) = closeTabs own m c (Some (cx_now cx))"
| "runCommand own m cx (MoveTab c) = moveTab own m c"
| "runCommand own m cx (SplitGroup w t b s) = splitGroup m w t b s cx"
| "runCommand own m cx (SetGroupRatios w l r) = setGroupRatios m w l r"
| "runCommand own m cx (SetPaneRatios w t l r) = setPaneRatios m w t l r"
| "runCommand own m cx (MovePane w t l g s) = movePane m w t l g s"
| "runCommand own m cx (EqualizePanes w t) = equalizePanes m w t"
| "runCommand own m cx (MovePaneToNewTab c) = movePaneToNewTab own m c cx"
| "runCommand own m cx (RenameTab w t x) = renameTab m w t x"
| "runCommand own m cx (RenamePane w t l x) = renamePane m w t l x"
| "runCommand own m cx (SetPaneGrid w t l g) = setPaneGrid m w t l g"
| "runCommand own m cx (ReleasePaneTerminal w t l p) = releasePaneTerminal m w t l p"
| "runCommand own m cx (SetTabProps c) = setTabProps m c"
| "runCommand own m cx (SetChatPane w t l) = setChatPane m w t l"
| "runCommand own m cx (OpenEditorTab c) =
     openInNewGroup m (oe_workspace c) (oe_split c) (oe_tabId c) (pl_groupId (oe_placement c))
       (\<lambda>n. openEditorTab own n c cx)"
| "runCommand own m cx (PromotePreviewTab w t) = promotePreviewTab m w t"
| "runCommand own m cx (OpenSimulatorTab c) =
     openInNewGroup m (os_workspace c) (os_split c) (Some (os_tabId c)) (pl_groupId (os_placement c))
       (\<lambda>n. openSimulatorTab own n c cx)"
| "runCommand own m cx (MoveTabToWorkspace c) = moveTabToWorkspace own m c cx"
| "runCommand own m cx (RenameEditorFiles w r a) = renameEditorFiles m w r a"
| "runCommand own m cx (OpenBrowserTab c) =
     openInNewGroup m (ob_workspace c) (ob_split c) (ob_tabId c) (pl_groupId (ob_placement c))
       (\<lambda>n. openBrowserTab own n c cx)"
| "runCommand own m cx (OpenBrowserPage w b p) = openBrowserPage m w b p"
| "runCommand own m cx (CloseBrowserPage w b p) = closeBrowserPage m w b p"
| "runCommand own m cx (ReplaceBrowserPage w b p q) = replaceBrowserPage m w b p q"
| "runCommand own m cx (SetBrowserTabProfile w b p s) = setBrowserTabProfile m w b p s"
| "runCommand own m cx (OpenAgentSessionTab c) =
     openInNewGroup m (oa_workspace c) (oa_split c) (oa_tabId c) (pl_groupId (oa_placement c))
       (\<lambda>n. openAgentSessionTab own n c cx)"
| "runCommand own m cx (StartPane w p) = startPane m w p cx"
| "runCommand own m cx (RestartPane w p) = restartPane m w p"
| "runCommand own m cx (Sleep w p r ro) = sleep m w p r ro"
| "runCommand own m cx (Wake w p ro) = wake m w p ro"
| "runCommand own m cx (SetDefaultTabsApplied w) = setDefaultTabsApplied m w"
| "runCommand own m cx (ApplyDefaultTabs w ts) = applyDefaultTabs own m w ts cx"

definition isDefaultTabsCommand :: "layoutCommand \<Rightarrow> bool" where
  "isDefaultTabsCommand c = (case c of
     SetDefaultTabsApplied _ \<Rightarrow> True | ApplyDefaultTabs _ _ \<Rightarrow> True | _ \<Rightarrow> False)"

text \<open>A command on a workspace that is not there: closing is not an error.\<close>

definition absentReply :: "workspaceLayoutModel \<Rightarrow> layoutCommand \<Rightarrow> applied" where
  "absentReply m c = (case c of
     CloseTabs x \<Rightarrow> appliedWith m (noResult\<lparr>rs_alreadyClosed := Some True,
        rs_closed := Some (xt_tabIds x), rs_refused := Some []\<rparr>)
   | ClosePane _ _ _ _ \<Rightarrow> appliedWith m (noResult\<lparr>rs_alreadyClosed := Some True\<rparr>)
   | _ \<Rightarrow> Refused WorkspaceNotFound)"

definition applyCommand :: "bool \<Rightarrow> workspaceLayoutModel \<Rightarrow> layoutCommand \<Rightarrow> layoutContext \<Rightarrow> applied" where
  "applyCommand own m c cx =
     (if \<not> isDefaultTabsCommand c \<and> workspaceAt m (commandWorkspace c) = None \<and> \<not> createsWorkspace c
      then absentReply m c
      else runCommand own m cx c)"

definition applyLayoutCommand :: "bool \<Rightarrow> workspaceLayoutModel \<Rightarrow> layoutCommand \<Rightarrow> layoutContext \<Rightarrow> applied" where
  "applyLayoutCommand own m c cx =
     (case applyCommand own m c cx of
        Refused code \<Rightarrow> Refused code
      | Applied m' r e oc \<Rightarrow>
          let next = updateLegacyPersistence (cx_sameObject cx) m m' []
          in Applied (if cx_liveEdit cx then runDroppedLeafStep own m next (cx_now cx) else next) r e oc)"

section \<open>Fresh ids\<close>

text \<open>
  Ids a command makes are fresh: minted ids are unique, and the callers choose an id they have not
  used.  Where the code refuses a taken id itself nothing is assumed.
\<close>

definition freshTemplates :: "workspaceLayoutModel \<Rightarrow> defaultTerminalTab list \<Rightarrow> bool" where
  "freshTemplates m ts \<longleftrightarrow> distinct (map df_tabId ts) \<and> distinct (map df_leafId ts)
     \<and> set (map df_tabId ts) \<inter> set (allTabIds m) = {} \<and> set (map df_leafId ts) \<inter> set (allPaneIds m) = {}"

fun freshFor :: "bool \<Rightarrow> workspaceLayoutModel \<Rightarrow> layoutContext \<Rightarrow> layoutCommand \<Rightarrow> bool" where
  "freshFor own m cx (CreateTerminalTab c) \<longleftrightarrow>
     orElse (ct_tabId c) (cx_mint cx MintTab) \<notin> set (allTabIds m)
     \<and> orElse (ct_leafId c) (cx_mintLeafId cx) \<notin> set (allPaneIds m)"
| "freshFor own m cx (SplitPane w t l d r n) \<longleftrightarrow> orElse n (cx_mintLeafId cx) \<notin> set (allPaneIds m)"
| "freshFor own m cx (SplitGroup w t b s) \<longleftrightarrow> cx_mint cx MintGroup \<notin> set (groupIds (workspaceOrEmpty m w))"
| "freshFor own m cx (MovePaneToNewTab c) \<longleftrightarrow>
     orElse (Option.bind (mp_windowDetach c) wd_tabId) (cx_mint cx MintTab) \<notin> set (allTabIds m)"
| "freshFor own m cx (OpenEditorTab c) \<longleftrightarrow> freshEditor c cx (allTabIds m)"
| "freshFor own m cx (OpenBrowserTab c) \<longleftrightarrow> freshBrowser c cx (allTabIds m)"
| "freshFor own m cx (OpenAgentSessionTab c) \<longleftrightarrow> freshAgent own c cx (allTabIds m)"
| "freshFor own m cx (OpenSimulatorTab c) \<longleftrightarrow> freshSimulator c (allTabIds m)"
| "freshFor own m cx (ApplyDefaultTabs w ts) \<longleftrightarrow> defaultTabsMarked m w \<or> freshTemplates m ts"
| "freshFor own m cx _ \<longleftrightarrow> True"

section \<open>Every command keeps a well-formed layout\<close>

lemma ensures_setDefaultTabsApplied: "wf_model E m \<Longrightarrow> ensures (wf_model E) (setDefaultTabsApplied m key)"
  by (simp add: setDefaultTabsApplied_def)

lemma ids_withWorkspace:
  "set (allTabIds (withWorkspace m k w)) \<subseteq> set (allTabIds m) \<union> set (tabIds w)"
  "set (allPaneIds (withWorkspace m k w)) \<subseteq> set (allPaneIds m) \<union> set (paneIds w)"
proof -
  have "set (AList.update k w es) \<subseteq> insert (k, w) (set es)" for es
    by (induction es) auto
  then have "set (md_workspaces (withWorkspace m k w)) \<subseteq> insert (k, w) (set (md_workspaces m))"
    by (simp add: withWorkspace_def)
  then show "set (allTabIds (withWorkspace m k w)) \<subseteq> set (allTabIds m) \<union> set (tabIds w)"
    and "set (allPaneIds (withWorkspace m k w)) \<subseteq> set (allPaneIds m) \<union> set (paneIds w)"
    by (fastforce simp: allTabIds_def allPaneIds_def)+
qed

text \<open>Creating a default tab adds the template's ids.\<close>

lemma createDefaultTab:
  assumes "createTerminalTab own m (defaultTabCommand key t) cx = Applied m' r e oc"
  shows "set (allTabIds m') \<subseteq> insert (df_tabId t) (set (allTabIds m))"
    and "set (allPaneIds m') \<subseteq> insert (df_leafId t) (set (allPaneIds m))"
proof -
  let ?ws = "workspaceOrEmpty m key"
  let ?c = "defaultTabCommand key t"
  obtain tab leafId where made: "createdTerminal ?ws ?c cx = (tab, leafId)"
    by force
  then have tab: "tb_id tab = df_tabId t" "leafIdsOf tab = [df_leafId t]"
    by (auto simp: createdTerminal_def defaultTabCommand_def Let_def)
  have m': "m' = withWorkspace m key (placeNewTab own ?ws key tab (ct_placement ?c) cx)"
    using assms made by (simp add: createTerminalTab_def defaultTabCommand_def Let_def)
  let ?w = "placeNewTab own ?ws key tab (ct_placement (defaultTabCommand key t)) cx"
  have "set (tabIds ?w) \<subseteq> insert (df_tabId t) (set (allTabIds m))"
    "set (paneIds ?w) \<subseteq> insert (df_leafId t) (set (allPaneIds m))"
    using workspaceOrEmpty_sub [of m key] tab by auto
  with ids_withWorkspace [of m key ?w] show "set (allTabIds m') \<subseteq> insert (df_tabId t) (set (allTabIds m))"
    and "set (allPaneIds m') \<subseteq> insert (df_leafId t) (set (allPaneIds m))"
    unfolding m' by blast+
qed

lemma disjoint_from_insert: "A \<subseteq> insert x B \<Longrightarrow> x \<notin> X \<Longrightarrow> X \<inter> B = {} \<Longrightarrow> X \<inter> A = {}"
  by blast

lemma ensures_applyTemplates:
  "wf_model E m \<Longrightarrow> freshTemplates m ts \<Longrightarrow> ensures (wf_model E) (applyTemplates own key cx ts m created starts)"
proof (induction own key cx ts m created starts rule: applyTemplates.induct)
  case (1 own key cx m created starts)
  then show ?case
    using ensures_setDefaultTabsApplied [of E m key]
    by (cases "setDefaultTabsApplied m key") simp_all
next
  case (2 own key cx t ts m created starts)
  show ?case
  proof (cases "createTerminalTab own m (defaultTabCommand key t) cx")
    case (Applied m' r e oc)
    have "ensures (wf_model E) (createTerminalTab own m (defaultTabCommand key t) cx)"
      using 2(3) by (intro ensures_createTerminalTab [OF 2(2)])
        (simp_all add: freshTemplates_def defaultTabCommand_def)
    with Applied have m': "wf_model E m'" by simp
    have "freshTemplates m' ts"
      using 2(3) createDefaultTab [OF Applied, THEN disjoint_from_insert]
      by (simp add: freshTemplates_def)
    with "2.IH" [OF Applied m'] Applied show ?thesis by simp
  qed simp
qed

lemma ensures_applyDefaultTabs:
  "wf_model E m \<Longrightarrow> defaultTabsMarked m key \<or> freshTemplates m ts \<Longrightarrow>
     ensures (wf_model E) (applyDefaultTabs own m key ts cx)"
  by (auto simp: applyDefaultTabs_def intro: ensures_applyTemplates)

lemmas ensures_commands =
  ensures_splitPane ensures_closePane ensures_closeTabs ensures_moveTab ensures_splitGroup
  ensures_setGroupRatios ensures_setPaneRatios ensures_movePane ensures_equalizePanes
  ensures_movePaneToNewTab ensures_renameTab ensures_leafCommands ensures_setTabProps
  ensures_setChatPane ensures_promotePreviewTab ensures_moveTabToWorkspace ensures_renameEditorFiles
  ensures_browserPages ensures_startPane ensures_restartPane ensures_sleep ensures_wake
  ensures_setDefaultTabsApplied ensures_applyDefaultTabs

lemmas ensures_opens =
  terminal_open.keeps_openInNewGroup editor_open.keeps_openInNewGroup browser_open.keeps_openInNewGroup
  agent_open.keeps_openInNewGroup simulator_open.keeps_openInNewGroup

lemma ensures_runCommand:
  assumes "wf_model E m" "freshFor own m cx c"
  shows "ensures (wf_model E) (runCommand own m cx c)"
  using assms by (cases c) (simp_all add: ensures_commands ensures_opens)

lemma ensures_absentReply: "wf_model E m \<Longrightarrow> ensures (wf_model E) (absentReply m c)"
  by (simp add: absentReply_def split: layoutCommand.split)

lemma ensures_applyCommand:
  assumes "wf_model E m" "freshFor own m cx c"
  shows "ensures (wf_model E) (applyCommand own m c cx)"
  using ensures_runCommand [OF assms] ensures_absentReply [OF assms(1), of c]
  by (simp add: applyCommand_def)

lemma ensures_applyLayoutCommand:
  assumes "wf_model E m" "freshFor own m cx c"
  shows "ensures (wf_model E) (applyLayoutCommand own m c cx)"
  using ensures_applyCommand [OF assms]
  by (cases "applyCommand own m c cx") (simp_all add: applyLayoutCommand_def Let_def)

end
