(* ===== verification/Transitions.thy ===== *)
theory Transitions
  imports Removal Terminal_Owners Legacy_Persistence
begin

text \<open>
  What the runtime tells the layout and no client can: \<open>workspace-layout-transitions.ts\<close>,
  \<open>workspace-layout-process-exit.ts\<close>, \<open>workspace-layout-owner-transitions.ts\<close> and the exit
  causes of \<open>terminal-exit-cause.ts\<close>.  \<open>same\<close> is as in \<open>Legacy_Persistence\<close>: the workspaces
  whose object the transition handed back.
\<close>

section \<open>Exit causes\<close>

datatype terminalExitUnknownReason = StopUnverified | HostStatusUnavailable | CauseUnreported

datatype terminalExitCause =
    OperatorClose
  | Signaled int
  | ExitedWith int
  | UnknownCause terminalExitUnknownReason

definition resolveProcessExitCause :: "int \<Rightarrow> int option \<Rightarrow> bool option \<Rightarrow> terminalExitCause" where
  "resolveProcessExitCause exitCode signal hostReports =
     (if hostReports = Some False then UnknownCause HostStatusUnavailable
      else case signal of
          Some s \<Rightarrow> if s > 0 then Signaled s
            else if exitCode < 0 then UnknownCause StopUnverified else ExitedWith exitCode
        | None \<Rightarrow> if exitCode < 0 then UnknownCause StopUnverified else ExitedWith exitCode)"

definition resolveUnreportedExitCause :: "int \<Rightarrow> terminalExitCause" where
  "resolveUnreportedExitCause exitCode =
     (if exitCode < 0 then UnknownCause StopUnverified
      else if exitCode = 0 then UnknownCause CauseUnreported else ExitedWith exitCode)"

definition isProvenProcessExit :: "int \<Rightarrow> bool" where
  "isProvenProcessExit exitCode =
     (case resolveProcessExitCause exitCode None None of UnknownCause _ \<Rightarrow> False | _ \<Rightarrow> True)"

section \<open>Process exits\<close>

record processExitFacts =
  pe_exitCode :: int
  pe_local :: bool
  pe_spawnedFresh :: bool
  pe_tabHadPaneAtConnect :: bool
  pe_restored :: bool
  pe_inputWritten :: bool
  pe_outputReceived :: bool
  pe_attachAbsent :: "bool option"

datatype exitVerdict = Retire | Keep | Unbind

definition exitVerdict :: "processExitFacts \<Rightarrow> nat \<Rightarrow> exitVerdict" where
  "exitVerdict facts paneCount =
     (if pe_attachAbsent facts = Some True \<or> \<not> isProvenProcessExit (pe_exitCode facts) then Unbind
      else if pe_local facts \<and> pe_exitCode facts \<noteq> 0 then Keep
      else if pe_inputWritten facts then Retire
      else if paneCount \<le> 1 then (if pe_spawnedFresh facts then Keep else Retire)
      else if pe_tabHadPaneAtConnect facts \<and> \<not> pe_restored facts \<and> \<not> pe_outputReceived facts
      then Keep else Retire)"

definition unboundLeaf :: "layoutLeaf \<Rightarrow> layoutLeaf" where
  "unboundLeaf leaf = leaf\<lparr>lf_ptyId := None, lf_incarnationId := None\<rparr>"

definition applyProcessExit ::
  "(string \<Rightarrow> bool) \<Rightarrow> workspaceLayoutModel \<Rightarrow> exitedSurface \<Rightarrow> processExitFacts \<Rightarrow> applied" where
  "applyProcessExit same m surface facts =
     (case locateExitedSurface m surface of
        Replaced \<Rightarrow> appliedOnly m
      | Gone \<Rightarrow>
          if exitVerdict facts 1 = Unbind then appliedOnly m
          else appliedOnly (updateLegacyPersistence (\<lambda>_. True) m m [es_worktreeId surface])
      | LocatedAt location \<Rightarrow>
          let leafId = es_leafId surface; key = lc_workspaceKey location in
          (case exitVerdict facts (length (leafIdsOf (lc_tab location))) of
             Keep \<Rightarrow> Applied m noResult noEffects [(leafId, Some OutcomeExited)]
           | Unbind \<Rightarrow>
               let ws = workspaceOrEmpty m key;
                   next = withWorkspace m key
                     (setLeaf ws leafId (unboundLeaf (leafOr ws leafId)))
               in Applied (updateLegacyPersistence same m next []) noResult noEffects [(leafId, None)]
           | Retire \<Rightarrow>
               let retired = retireTerminalPane m location leafId
               in Applied (updateLegacyPersistence same m retired [es_worktreeId surface])
                    noResult noEffects [(leafId, None)]))"

section \<open>Owners\<close>

definition removeWorkspaces :: "workspaceLayoutModel \<Rightarrow> string list \<Rightarrow> workspaceLayoutModel" where
  "removeWorkspaces m keys =
     (let records = md_records m in
      m\<lparr>md_workspaces := fold AList.delete keys (md_workspaces m),
        md_records := records\<lparr>
          rc_defaultTabsApplied := filterRecord (rc_defaultTabsApplied records) (\<lambda>key _. key \<notin> set keys),
          rc_clientHostedBrowserPages :=
            filterRecord (rc_clientHostedBrowserPages records) (\<lambda>key _. key \<notin> set keys)\<rparr>\<rparr>)"

definition renamed :: "string \<Rightarrow> string \<Rightarrow> string \<Rightarrow> string" where
  "renamed value frm to = (if value = frm then to else value)"

definition rekey :: "string \<Rightarrow> string \<Rightarrow> (string \<times> 'a) list \<Rightarrow> (string \<times> 'a) list" where
  "rekey frm to r = fromEntries (map (\<lambda>(key, v). (renamed key frm to, v)) r)"

definition renameWorkspace ::
  "workspaceLayoutModel \<Rightarrow> string \<Rightarrow> string \<Rightarrow> workspaceLayoutModel option" where
  "renameWorkspace m frm to =
     (case workspaceAt m frm of
        None \<Rightarrow> Some m
      | Some ws \<Rightarrow>
          if frm = to then Some m
          else if workspaceAt m to \<noteq> None then None
          else
            let moved = ws\<lparr>ws_worktreeId := renamed (ws_worktreeId ws) frm to\<rparr>;
                records = md_records m
            in Some (m\<lparr>md_workspaces := AList.delete frm (AList.update to moved (md_workspaces m)),
                 md_records := records\<lparr>
                   rc_defaultTabsApplied := map_option (rekey frm to) (rc_defaultTabsApplied records),
                   rc_clientHostedBrowserPages :=
                     map_option (rekey frm to) (rc_clientHostedBrowserPages records)\<rparr>,
                 md_legacy := (md_legacy m)\<lparr>lg_terminalRowOwners :=
                   rekey frm to (lg_terminalRowOwners (md_legacy m))\<rparr>\<rparr>))"

section \<open>Transitions\<close>

record processStart =
  ps_workspace :: string
  ps_paneKey :: string
  ps_ptyId :: string
  ps_incarnationId :: "string option"

datatype layoutTransition =
    ProcessStarted processStart
  | ProcessExited exitedSurface processExitFacts
  | SshLeaseTerminated "string list"
  | OwnerRemoved "string list"
  | IdentityRenamed string string

definition bindingOfLeaf :: "layoutLeaf \<Rightarrow> terminalBinding" where
  "bindingOfLeaf leaf = \<lparr>bd_ptyId = lf_ptyId leaf, bd_incarnationId = lf_incarnationId leaf\<rparr>"

definition boundElsewhere :: "workspaceLayoutModel \<Rightarrow> string \<Rightarrow> terminalBinding \<Rightarrow> bool" where
  "boundElsewhere m leafId binding =
     list_ex (\<lambda>(key, ws). list_ex (\<lambda>(otherId, leaf).
         otherId \<noteq> leafId \<and> isSameTerminal (bindingOfLeaf leaf) binding)
       (orElse (ws_leaves ws) [])) (md_workspaces m)"

definition processStarted :: "workspaceLayoutModel \<Rightarrow> processStart \<Rightarrow> applied" where
  "processStarted m t =
     (let ws = workspaceOrEmpty m (ps_workspace t) in
      case locatePane ws (ps_paneKey t) of
        None \<Rightarrow> Refused PaneNotFound
      | Some (tab, leafId) \<Rightarrow>
          if boundElsewhere m leafId \<lparr>bd_ptyId = Some (ps_ptyId t), bd_incarnationId = ps_incarnationId t\<rparr>
          then Refused PaneAlreadyBound
          else
            let leaf = (leafOr ws leafId)\<lparr>lf_ptyId := Some (ps_ptyId t)\<rparr>;
                leaf = (case ps_incarnationId t of None \<Rightarrow> leaf | Some i \<Rightarrow> leaf\<lparr>lf_incarnationId := Some i\<rparr>)
            in appliedOnly (withWorkspace m (ps_workspace t) (setLeaf ws leafId leaf)))"

text \<open>A workspace none of whose leaves is bound to a lost terminal is left as it is.\<close>

definition unbindLost :: "string list \<Rightarrow> workspaceLayout \<Rightarrow> workspaceLayout" where
  "unbindLost ptyIds ws =
     foldl (\<lambda>updated (leafId, leaf).
        case lf_ptyId leaf of
          None \<Rightarrow> updated
        | Some p \<Rightarrow> if p \<in> set ptyIds then setLeaf updated leafId (leaf\<lparr>lf_ptyId := None\<rparr>) else updated)
       ws (orElse (ws_leaves ws) [])"

definition sshLeaseTerminated :: "workspaceLayoutModel \<Rightarrow> string list \<Rightarrow> applied" where
  "sshLeaseTerminated m ptyIds =
     appliedOnly (foldl (\<lambda>next (key, ws).
        let updated = unbindLost ptyIds ws
        in if updated = ws then next else withWorkspace next key updated) m (md_workspaces m))"

fun applyTransition :: "(string \<Rightarrow> bool) \<Rightarrow> workspaceLayoutModel \<Rightarrow> layoutTransition \<Rightarrow> applied" where
  "applyTransition same m (ProcessStarted t) = processStarted m t"
| "applyTransition same m (ProcessExited surface facts) = applyProcessExit same m surface facts"
| "applyTransition same m (SshLeaseTerminated ptyIds) = sshLeaseTerminated m ptyIds"
| "applyTransition same m (OwnerRemoved keys) = appliedOnly (removeWorkspaces m keys)"
| "applyTransition same m (IdentityRenamed frm to) =
     (case renameWorkspace m frm to of
        None \<Rightarrow> Refused WorkspaceExists | Some m' \<Rightarrow> appliedOnly m')"

text \<open>A process exit does the legacy bookkeeping itself.\<close>

definition applyLayoutTransition ::
  "(string \<Rightarrow> bool) \<Rightarrow> workspaceLayoutModel \<Rightarrow> layoutTransition \<Rightarrow> applied" where
  "applyLayoutTransition same m t =
     (case applyTransition same m t of
        Refused code \<Rightarrow> Refused code
      | Applied m' r e oc \<Rightarrow>
          (case t of
             ProcessExited _ _ \<Rightarrow> Applied m' r e oc
           | _ \<Rightarrow> Applied (updateLegacyPersistence same m m' []) r e oc))"

section \<open>Exit verdicts\<close>

lemma isProvenProcessExit_iff: "isProvenProcessExit c \<longleftrightarrow> 0 \<le> c"
  by (simp add: isProvenProcessExit_def resolveProcessExitCause_def)

text \<open>Only an observed end of the process retires its pane.\<close>

lemma exitVerdict_Retire:
  "exitVerdict facts n = Retire \<Longrightarrow> 0 \<le> pe_exitCode facts \<and> pe_attachAbsent facts \<noteq> Some True
     \<and> (pe_local facts \<longrightarrow> pe_exitCode facts = 0)"
  by (auto simp: exitVerdict_def isProvenProcessExit_iff split: if_splits)

section \<open>Every transition keeps a well-formed layout\<close>

lemma wf_model_subset:
  assumes "wf_model E m" "set (md_workspaces n) \<subseteq> set (md_workspaces m)" "distinct (map fst (md_workspaces n))"
  shows "wf_model E n"
  using assms unfolding wf_model_def by blast

lemma fold_delete:
  "distinct (map fst es) \<Longrightarrow> distinct (map fst (fold AList.delete keys es))"
  "set (fold AList.delete keys es) = {e \<in> set es. fst e \<notin> set keys}"
  by (induction keys arbitrary: es) (auto simp: AList.delete_eq distinct_map_filter)

lemma wf_removeWorkspaces: "wf_model E m \<Longrightarrow> wf_model E (removeWorkspaces m keys)"
  by (rule wf_model_subset)
    (auto simp: removeWorkspaces_def Let_def fold_delete wf_model_def)

lemma wf_renameWorkspace:
  assumes wf: "wf_layout m" and r: "renameWorkspace m frm to = Some m'"
  shows "wf_layout m'"
proof (cases "m' = m")
  case False
  with r obtain ws where ws: "workspaceAt m frm = Some ws" and ne: "frm \<noteq> to" and free: "workspaceAt m to = None"
    and m': "md_workspaces m' = AList.delete frm (AList.update to
        (ws\<lparr>ws_worktreeId := renamed (ws_worktreeId ws) frm to\<rparr>) (md_workspaces m))"
    by (auto simp: renameWorkspace_def Let_def split: option.splits if_splits)
  let ?w = "ws\<lparr>ws_worktreeId := renamed (ws_worktreeId ws) frm to\<rparr>"
  have dist: "distinct (map fst (md_workspaces m))" using wf by (simp add: wf_model_def)
  have mem: "(frm, ws) \<in> set (md_workspaces m)" using ws by (rule map_of_SomeD)
  have notin: "to \<notin> fst ` set (md_workspaces m)" using free by (simp add: map_of_eq_None_iff)
  have sets: "set (md_workspaces m') = insert (to, ?w) {e \<in> set (md_workspaces m). fst e \<noteq> frm}"
    unfolding m' map_snd_update_new [OF notin] AList.delete_eq using ne by auto
  have keys: "distinct (map fst (md_workspaces m'))"
    unfolding m' using dist by (intro distinct_delete distinct_update)
  have each: "wf_workspace {} w" if "(k, w) \<in> set (md_workspaces m)" for k w
    using wf that unfolding wf_model_def by fastforce
  have other: "apart w1 w2" if "(k1, w1) \<in> set (md_workspaces m)" "(k2, w2) \<in> set (md_workspaces m)" "k1 \<noteq> k2"
    for k1 w1 k2 w2
    using wf that unfolding wf_model_def by fastforce
  have same: "apart ?w w = apart ws w" "apart w ?w = apart w ws" for w by (simp_all add: apart_def)
  have w: "wf_workspace {} ?w" using each [OF mem] by simp
  show ?thesis
    unfolding wf_model_def sets
    using keys w each other [OF mem] other [OF _ mem] other by (auto simp: same)
qed (use wf in simp)

lemma ensures_processStarted:
  assumes "wf_model E m" shows "ensures (wf_model E) (processStarted m t)"
proof (cases "locatePane (workspaceOrEmpty m (ps_workspace t)) (ps_paneKey t)")
  case None
  then show ?thesis by (simp add: processStarted_def Let_def)
next
  case (Some tl)
  let ?ws = "workspaceOrEmpty m (ps_workspace t)"
  obtain tab l where tl: "tl = (tab, l)" by force
  have set: "wf_model E (withWorkspace m (ps_workspace t) (setLeaf ?ws l leaf))"
    if "lf_sleeping leaf = None \<or> lf_resume leaf = None" for leaf
    using assms that Some tl by (intro wf_withWorkspace_sub wf_setLeaf wf_workspaceOrEmpty)
      (auto dest: locatePane_pane)
  show ?thesis
    using wf_leafOr [OF wf_workspaceOrEmpty [OF assms], of "ps_workspace t" l]
    by (simp add: processStarted_def Let_def Some tl set split: option.split)
qed

text \<open>Unbinding touches no pane, only the data of panes that have some.\<close>

lemma wf_unbindLost:
  assumes wf: "wf_workspace E ws"
  shows "wf_workspace E (unbindLost ptyIds ws)" "ws_tabs (unbindLost ptyIds ws) = ws_tabs ws"
proof -
  let ?step = "\<lambda>updated (leafId, leaf). case lf_ptyId leaf of None \<Rightarrow> updated
      | Some p \<Rightarrow> if p \<in> set ptyIds then setLeaf updated leafId (leaf\<lparr>lf_ptyId := None\<rparr>) else updated"
  have "wf_workspace E (foldl ?step v es) \<and> ws_tabs (foldl ?step v es) = ws_tabs ws"
    if "set es \<subseteq> set (orElse (ws_leaves ws) [])" "wf_workspace E v" "ws_tabs v = ws_tabs ws" for es v
    using that
  proof (induction es arbitrary: v)
    case (Cons e es)
    obtain l leaf where e: "e = (l, leaf)" by force
    from Cons.prems(1) e have in_leaves: "(l, leaf) \<in> set (orElse (ws_leaves ws) [])" by simp
    with wf have one: "lf_sleeping leaf = None \<or> lf_resume leaf = None"
      by (fastforce simp: wf_workspace_def wf_leaves_def list_all_iff)
    have "l \<in> set (keysOf (ws_leaves ws))" using in_leaves by (cases "ws_leaves ws") force+
    with wf have "l \<in> set (paneIds ws)" by (auto simp: wf_workspace_def wf_leaves_def)
    then have "l \<in> set (paneIds v)" using Cons.prems(3) by (simp add: paneIds_def)
    with one have "wf_workspace E (setLeaf v l (leaf\<lparr>lf_ptyId := None\<rparr>))"
      using Cons.prems(2) by (intro wf_setLeaf) auto
    with Cons show ?case by (simp add: e split: option.split)
  qed simp
  from this [of "orElse (ws_leaves ws) []" ws] wf
  show "wf_workspace E (unbindLost ptyIds ws)" "ws_tabs (unbindLost ptyIds ws) = ws_tabs ws"
    by (simp_all add: unbindLost_def)
qed

lemma ensures_sshLeaseTerminated:
  assumes wf: "wf_model E m" shows "ensures (wf_model E) (sshLeaseTerminated m ptyIds)"
proof -
  let ?step = "\<lambda>next (key, ws). let updated = unbindLost ptyIds ws
      in if updated = ws then next else withWorkspace next key updated"
  have sameIds: "paneIds (unbindLost ptyIds w) = paneIds w" if "wf_workspace F w" for w F
    using wf_unbindLost(2) [OF that] by (rule paneIds_cong)
  have "wf_model E (foldl ?step n es)"
    if "distinct (map fst es)" "wf_model E n" "\<And>k w. (k, w) \<in> set es \<Longrightarrow> workspaceAt n k = Some w" for n es
    using that
  proof (induction es arbitrary: n)
    case (Cons e es)
    obtain k w where e: "e = (k, w)" by force
    from Cons.prems(3) e have at_k: "workspaceAt n k = Some w" by simp
    note w = wf_model_lookup [OF Cons.prems(2) at_k]
    have "wf_model E (withWorkspace n k (unbindLost ptyIds w))"
      using wf_unbindLost [OF w] sameIds [OF w] at_k by (intro wf_withWorkspace_sub [OF Cons.prems(2)]) simp_all
    then have "wf_model E (?step n e)" using Cons.prems(2) e by (simp add: Let_def)
    moreover have "workspaceAt (?step n e) k' = Some w'" if "(k', w') \<in> set es" for k' w'
    proof -
      have "k' \<noteq> k" using Cons.prems(1) e that by force
      with Cons.prems(3) that show ?thesis by (simp add: e Let_def)
    qed
    ultimately show ?case using Cons.IH [of "?step n e"] Cons.prems(1) by simp
  qed simp
  moreover have "distinct (map fst (md_workspaces m))" using wf by (simp add: wf_model_def)
  ultimately show ?thesis using wf by (simp add: sshLeaseTerminated_def)
qed

lemma ensures_applyProcessExit:
  assumes wf: "wf_model E m" shows "ensures (wf_model E) (applyProcessExit same m surface facts)"
proof (cases "locateExitedSurface m surface")
  case (LocatedAt loc)
  from locateExitedSurface_at [OF LocatedAt wf] obtain ws where
    ws: "workspaceAt m (lc_workspaceKey loc) = Some ws" "lc_tab loc \<in> set (ws_tabs ws)"
      "isTerminal (lc_tab loc)" and l: "es_leafId surface \<in> set (leafIdsOf (lc_tab loc))" by blast
  have "es_leafId surface \<in> set (paneIds ws)" using ws(2) l by (auto simp: set_paneIds)
  moreover have "lf_sleeping (unboundLeaf (leafOr ws k)) = None \<or> lf_resume (unboundLeaf (leafOr ws k)) = None" for k
    using wf_leafOr [OF wf_model_lookup [OF wf ws(1)]] by (simp add: unboundLeaf_def)
  ultimately have "wf_model E (withWorkspace m (lc_workspaceKey loc)
      (setLeaf ws (es_leafId surface) (unboundLeaf (leafOr ws (es_leafId surface)))))"
    using wf_setLeaf [OF wf_model_lookup [OF wf ws(1)]] ws(1)
    by (intro wf_withWorkspace_sub [OF wf]) simp_all
  then show ?thesis
    using wf_retireTerminalPane [OF wf ws l] wf
    by (simp add: applyProcessExit_def LocatedAt Let_def ws(1) split: exitVerdict.split)
qed (use wf in \<open>simp_all add: applyProcessExit_def\<close>)

lemma ensures_applyTransition:
  "wf_layout m \<Longrightarrow> ensures wf_layout (applyTransition same m t)"
  by (cases t) (auto simp: ensures_processStarted ensures_applyProcessExit ensures_sshLeaseTerminated
      wf_removeWorkspaces intro: wf_renameWorkspace split: option.split)

lemma ensures_applyLayoutTransition:
  "wf_layout m \<Longrightarrow> ensures wf_layout (applyLayoutTransition same m t)"
  using ensures_applyTransition [of m same t]
  by (cases "applyTransition same m t")
    (simp_all add: applyLayoutTransition_def split: layoutTransition.split)

end
