(* ===== verification/Layout_Rules.thy ===== *)
theory Layout_Rules
  imports Terminal_Owners
begin

text \<open>
  The structural rules the program checks its layouts against: \<open>workspace-layout-model-rules.ts\<close>
  on the model, \<open>workspace-layout-rules.ts\<close> on stored sessions.  A violation has its rule, host,
  worktree and ids; its text for the log is not modelled.  A \<open>Map\<close> from an id to the places that
  list it is an association list.
\<close>

section \<open>Violations\<close>

datatype workspaceLayoutRule =
    TerminalInTwoPanes | PaneInTwoTabs | PaneTwiceInOneTab | PaneWithoutTab | BindingWithoutPane
  | TabInTwoPlaces | TabBarMissing | TabWithoutGroup | GroupEmpty | GroupTreeMismatch
  | LeafWithoutPane | LeafSleepingAndResume | TabInTwoGroups | TabGroupMismatch
  | GroupListsMissingTab | TabListsDisagree | TabOrderDisagrees | PaneIdChanged | TabIdChanged
  | GroupIdChanged

record workspaceLayoutViolation =
  vi_rule :: workspaceLayoutRule
  vi_hostId :: string
  vi_worktreeId :: "string option"
  vi_ids :: "string list"

abbreviation breach :: "workspaceLayoutRule \<Rightarrow> string \<Rightarrow> string option \<Rightarrow> string list \<Rightarrow> workspaceLayoutViolation" where
  "breach rule host worktree ids \<equiv>
     \<lparr>vi_rule = rule, vi_hostId = host, vi_worktreeId = worktree, vi_ids = ids\<rparr>"

section \<open>Pane owners\<close>

definition paneOwnerGroups ::
  "('p \<Rightarrow> string) \<Rightarrow> 'p list \<Rightarrow> ('p \<Rightarrow> paneOwner list) \<Rightarrow> paneOwner list list" where
  "paneOwnerGroups hostOf partitions collect =
     concat (map collect (filter (\<lambda>p. isTerminalOwnerPartition (hostOf p)) partitions))
     # map collect (filter (\<lambda>p. \<not> isTerminalOwnerPartition (hostOf p)) partitions)"

definition checkOwnerPair :: "paneOwner \<Rightarrow> paneOwner \<Rightarrow> workspaceLayoutViolation list" where
  "checkOwnerPair left right =
     (if po_leafId left = po_leafId right then
        [breach (if po_tabId left = po_tabId right \<and> po_hostId left = po_hostId right
            then PaneTwiceInOneTab else PaneInTwoTabs)
          (po_hostId left) (Some (po_worktreeId left)) [po_leafId left, po_tabId left, po_tabId right]]
      else if isSameTerminal (bindingOfOwner left) (bindingOfOwner right) then
        [breach TerminalInTwoPanes (po_hostId left) (Some (po_worktreeId left))
          [orElse (po_ptyId left) [], po_leafId left, po_leafId right]]
      else [])"

text \<open>The two nested loops: every owner against the later ones.\<close>

fun checkOwnerList :: "paneOwner list \<Rightarrow> workspaceLayoutViolation list" where
  "checkOwnerList [] = []"
| "checkOwnerList (left # rest) = concat (map (checkOwnerPair left) rest) @ checkOwnerList rest"

definition checkPaneOwners :: "paneOwner list list \<Rightarrow> workspaceLayoutViolation list" where
  "checkPaneOwners groups = concat (map checkOwnerList groups)"

section \<open>The model's rules\<close>

definition groupTreeIds :: "split_node option \<Rightarrow> string list" where
  "groupTreeIds node = (case node of None \<Rightarrow> [] | Some n \<Rightarrow> leafIds n)"

definition paneOwners :: "workspaceLayoutModel \<Rightarrow> paneOwner list" where
  "paneOwners m =
     concat (map (\<lambda>(key, ws). concat (map (\<lambda>t. map (\<lambda>leafId.
         \<lparr>po_hostId = md_hostId m, po_worktreeId = ws_worktreeId ws, po_tabId = tb_entityId t,
          po_leafId = leafId, po_ptyId = ptyAt ws leafId,
          po_incarnationId = Option.bind (leafAt ws leafId) lf_incarnationId\<rparr>) (leafIdsOf t))
       (ws_tabs ws))) (md_workspaces m))"

text \<open>The loop that collects under each key the places that list it.\<close>

definition addPlace :: "(string \<times> string) \<Rightarrow> (string \<times> string list) list \<Rightarrow> (string \<times> string list) list" where
  "addPlace = (\<lambda>(k, place) r. AList.update k (orElse (map_of r k) [] @ [place]) r)"

definition placesOf :: "(string \<times> string) list \<Rightarrow> (string \<times> string list) list" where
  "placesOf entries = fold addPlace entries []"

definition listings :: "layoutGroup list \<Rightarrow> (string \<times> string) list" where
  "listings groups = concat (map (\<lambda>g. map (\<lambda>i. (i, gr_id g)) (gr_tabOrder g)) groups)"

definition treeMatches :: "workspaceLayout \<Rightarrow> bool" where
  "treeMatches ws =
     (let treeIds = groupTreeIds (ws_groupLayout ws); ids = groupIds ws
      in if ws_groupLayout ws \<noteq> None
         then length treeIds = length ids \<and> length (remdups (treeIds @ ids)) = length ids
         else length ids \<le> 1)"

definition checkGroupTabs :: "string \<Rightarrow> workspaceLayout \<Rightarrow> workspaceLayoutViolation list" where
  "checkGroupTabs host ws =
     concat (map (\<lambda>g.
         (if gr_tabOrder g = [] then [breach GroupEmpty host (Some (ws_worktreeId ws)) [gr_id g]] else [])
         @ map (\<lambda>i. breach GroupListsMissingTab host (Some (ws_worktreeId ws)) [gr_id g, i])
             (filter (\<lambda>i. i \<notin> set (tabIds ws)) (gr_tabOrder g))) (ws_groups ws))"

definition checkTabGroups :: "string \<Rightarrow> workspaceLayout \<Rightarrow> workspaceLayoutViolation list" where
  "checkTabGroups host ws =
     (let groupsByTab = placesOf (listings (ws_groups ws)) in
      concat (map (\<lambda>t.
        let owners = orElse (map_of groupsByTab (tb_id t)) []
        in if owners = [] then [breach TabWithoutGroup host (Some (ws_worktreeId ws)) [tb_id t]]
           else if length owners > 1
           then [breach TabInTwoGroups host (Some (ws_worktreeId ws)) (tb_id t # owners)]
           else []) (ws_tabs ws)))"

definition strayLeaves :: "workspaceLayout \<Rightarrow> string list" where
  "strayLeaves ws = filter (\<lambda>l. l \<notin> set (paneIds ws)) (keysOf (ws_leaves ws))"

definition doubledLeaves :: "workspaceLayout \<Rightarrow> string list" where
  "doubledLeaves ws =
     map fst (filter (\<lambda>(l, leaf). lf_sleeping leaf \<noteq> None \<and> lf_resume leaf \<noteq> None) (orElse (ws_leaves ws) []))"

definition checkLeaves :: "string \<Rightarrow> workspaceLayout \<Rightarrow> workspaceLayoutViolation list" where
  "checkLeaves host ws =
     (let strays = strayLeaves ws; doubled = doubledLeaves ws
      in (if strays \<noteq> [] then [breach LeafWithoutPane host (Some (ws_worktreeId ws)) strays] else [])
         @ (if doubled \<noteq> [] then [breach LeafSleepingAndResume host (Some (ws_worktreeId ws)) doubled] else []))"

definition checkWorkspace :: "string \<Rightarrow> workspaceLayout \<Rightarrow> workspaceLayoutViolation list" where
  "checkWorkspace host ws =
     checkGroupTabs host ws @ checkTabGroups host ws
     @ (if treeMatches ws then []
        else [breach GroupTreeMismatch host (Some (ws_worktreeId ws)) (groupTreeIds (ws_groupLayout ws))])
     @ checkLeaves host ws"

definition checkTabIds :: "workspaceLayoutModel \<Rightarrow> workspaceLayoutViolation list" where
  "checkTabIds m =
     concat (map (\<lambda>(tabId, keys).
         if length keys > 1 then [breach TabInTwoPlaces (md_hostId m) None [tabId]] else [])
       (placesOf (concat (map (\<lambda>(key, ws). map (\<lambda>i. (i, key)) (tabIds ws)) (md_workspaces m)))))"

section \<open>Whole layouts\<close>

record layoutEntities =
  en_owners :: "paneOwner list"
  en_groups :: "layoutGroup list"

definition entities :: "workspaceLayoutModel \<Rightarrow> layoutEntities" where
  "entities m = \<lparr>en_owners = paneOwners m, en_groups = concat (map (ws_groups \<circ> snd) (md_workspaces m))\<rparr>"

text \<open>
  \<open>workspace-layout-id-stability.ts\<close>: a pane, tab or group that comes back under another id is
  mounted again.  A \<open>Set\<close> of members is a list.
\<close>

definition addMember :: "(string \<times> string) \<Rightarrow> (string \<times> string list) list \<Rightarrow> (string \<times> string list) list" where
  "addMember = (\<lambda>(k, x) r. AList.update k (List.insert x (orElse (map_of r k) [])) r)"

definition leavesByTab :: "layoutEntities \<Rightarrow> (string \<times> string list) list" where
  "leavesByTab e = fold addMember (map (\<lambda>p. (po_tabId p, po_leafId p)) (en_owners e)) []"

definition tabsByGroup :: "layoutEntities \<Rightarrow> (string \<times> string list) list" where
  "tabsByGroup e = fold (\<lambda>g r. AList.update (gr_id g) (uniq (gr_tabOrder g)) r) (en_groups e) []"

definition sameSet :: "string list \<Rightarrow> string list \<Rightarrow> bool" where
  "sameSet left right \<longleftrightarrow> length left = length right \<and> list_all (\<lambda>x. x \<in> set right) left"

definition replacedIds ::
  "(string \<times> string list) list \<Rightarrow> (string \<times> string list) list \<Rightarrow> (string \<times> string) list" where
  "replacedIds before after =
     concat (map (\<lambda>(oldId, members).
        if map_of after oldId \<noteq> None \<or> members = [] then []
        else map (\<lambda>(newId, _). (oldId, newId))
          (filter (\<lambda>(newId, newMembers). map_of before newId = None \<and> sameSet members newMembers) after))
       before)"

definition checkLayoutIdStability ::
  "string \<Rightarrow> layoutEntities \<Rightarrow> layoutEntities \<Rightarrow> workspaceLayoutViolation list" where
  "checkLayoutIdStability host previous next =
     concat (map (\<lambda>p.
       case List.find (\<lambda>q. po_ptyId q \<noteq> None \<and> isSameTerminal (bindingOfOwner q) (bindingOfOwner p))
              (en_owners previous) of
         None \<Rightarrow> []
       | Some q \<Rightarrow> if po_leafId q \<noteq> po_leafId p
           then [breach PaneIdChanged host (Some (po_worktreeId p))
                  [orElse (po_ptyId p) [], po_leafId q, po_leafId p]] else []) (en_owners next))
     @ map (\<lambda>(a, b). breach TabIdChanged host None [a, b]) (replacedIds (leavesByTab previous) (leavesByTab next))
     @ map (\<lambda>(a, b). breach GroupIdChanged host None [a, b]) (replacedIds (tabsByGroup previous) (tabsByGroup next))"

definition checkWorkspaceLayoutModelRules ::
  "workspaceLayoutModel list \<Rightarrow> workspaceLayoutModel list option \<Rightarrow> workspaceLayoutViolation list" where
  "checkWorkspaceLayoutModelRules models previous =
     checkPaneOwners (paneOwnerGroups md_hostId models paneOwners)
     @ concat (map checkTabIds models)
     @ concat (map (\<lambda>m. concat (map (checkWorkspace (md_hostId m) \<circ> snd) (md_workspaces m))) models)
     @ concat (map (\<lambda>m.
         case Option.bind previous (List.find (\<lambda>c. md_hostId c = md_hostId m)) of
           None \<Rightarrow> []
         | Some earlier \<Rightarrow> checkLayoutIdStability (md_hostId m) (entities earlier) (entities m)) models)"

section \<open>Places\<close>

lemma placesOf_acc:
  "map_of (fold addPlace es r) k
     = (let ps = map snd (filter (\<lambda>(k', _). k' = k) es)
        in if ps = [] then map_of r k else Some (orElse (map_of r k) [] @ ps))"
proof (induction es arbitrary: r)
  case (Cons e es)
  obtain k' p where e: "e = (k', p)" by force
  have "map_of (addPlace e r) k = (if k' = k then Some (orElse (map_of r k) [] @ [p]) else map_of r k)"
    by (auto simp: addPlace_def e update_conv')
  then show ?case using Cons.IH [of "addPlace e r"] by (simp add: e Let_def)
qed simp

lemma map_of_placesOf:
  "orElse (map_of (placesOf es) k) [] = map snd (filter (\<lambda>(k', _). k' = k) es)"
  using placesOf_acc [of es "[]" k] by (simp add: placesOf_def Let_def)

lemma distinct_placesOf: "distinct (map fst (placesOf es))"
proof -
  have "distinct (map fst r) \<Longrightarrow> distinct (map fst (fold addPlace es r))" for r
    by (induction es arbitrary: r) (auto simp: addPlace_def distinct_update)
  then show ?thesis by (simp add: placesOf_def)
qed

lemma distinct_count_le: "distinct xs \<longleftrightarrow> (\<forall>k. count (mset xs) k \<le> 1)"
proof
  assume "\<forall>k. count (mset xs) k \<le> 1"
  then have "count (mset xs) k = (if k \<in> set xs then 1 else 0)" for k
    using count_greater_zero_iff [of "mset xs" k] by (auto simp: le_Suc_eq dest: spec [of _ k])
  then show "distinct xs" by (simp add: distinct_count_atmost_1)
qed (simp add: distinct_count_atmost_1)

lemma placesOf_single:
  "(\<forall>(k, ps)\<in>set (placesOf es). length ps \<le> 1) \<longleftrightarrow> distinct (map fst es)"
proof -
  have count: "length (filter (\<lambda>(k', _). k' = k) es) = count (mset (map fst es)) k" for k
    by (induction es) auto
  have "(\<forall>(k, ps)\<in>set (placesOf es). length ps \<le> 1)
      \<longleftrightarrow> (\<forall>k. length (orElse (map_of (placesOf es) k) []) \<le> 1)"
  proof
    assume all: "\<forall>(k, ps)\<in>set (placesOf es). length ps \<le> 1"
    show "\<forall>k. length (orElse (map_of (placesOf es) k) []) \<le> 1"
    proof
      fix k show "length (orElse (map_of (placesOf es) k) []) \<le> 1"
        using all by (cases "map_of (placesOf es) k") (auto dest: map_of_SomeD)
    qed
  next
    assume each: "\<forall>k. length (orElse (map_of (placesOf es) k) []) \<le> 1"
    show "\<forall>(k, ps)\<in>set (placesOf es). length ps \<le> 1"
    proof clarify
      fix k ps assume "(k, ps) \<in> set (placesOf es)"
      then have "map_of (placesOf es) k = Some ps" using distinct_placesOf by simp
      with each [rule_format, of k] show "length ps \<le> 1" by simp
    qed
  qed
  then show ?thesis
    by (simp add: map_of_placesOf count distinct_count_le)
qed

section \<open>What the rules accept\<close>

text \<open>The rule that looks at terminals, which a layout cannot decide from its structure.\<close>

abbreviation structural :: "workspaceLayoutViolation list \<Rightarrow> workspaceLayoutViolation list" where
  "structural vs \<equiv> filter (\<lambda>v. vi_rule v \<noteq> TerminalInTwoPanes) vs"

lemma structural_pair: "structural (checkOwnerPair a b) = [] \<longleftrightarrow> po_leafId a \<noteq> po_leafId b"
  by (simp add: checkOwnerPair_def)

lemma structural_concat: "structural (concat vss) = [] \<longleftrightarrow> (\<forall>vs\<in>set vss. structural vs = [])"
  by (auto simp: filter_empty_conv)

lemma structural_owners: "structural (checkOwnerList ps) = [] \<longleftrightarrow> distinct (map po_leafId ps)"
proof (induction ps)
  case (Cons p ps)
  have "structural (concat (map (checkOwnerPair p) ps)) = [] \<longleftrightarrow> po_leafId p \<notin> po_leafId ` set ps"
    unfolding structural_concat by (auto simp: structural_pair)
  then show ?case using Cons.IH by simp
qed simp

lemma leafIds_paneOwners: "map po_leafId (paneOwners m) = allPaneIds m"
  by (simp add: paneOwners_def allPaneIds_def paneIds_def map_concat comp_def case_prod_beta)

lemma structural_paneOwners:
  "structural (checkPaneOwners (paneOwnerGroups md_hostId [m] paneOwners)) = [] \<longleftrightarrow> distinct (allPaneIds m)"
  by (simp add: checkPaneOwners_def paneOwnerGroups_def structural_owners leafIds_paneOwners)

lemma checkTabIds_none: "checkTabIds m = [] \<longleftrightarrow> distinct (allTabIds m)"
proof -
  have "map fst (concat (map (\<lambda>(key, ws). map (\<lambda>i. (i, key)) (tabIds ws)) (md_workspaces m))) = allTabIds m"
    by (simp add: allTabIds_def map_concat comp_def case_prod_beta)
  then show ?thesis
    using placesOf_single [of "concat (map (\<lambda>(key, ws). map (\<lambda>i. (i, key)) (tabIds ws)) (md_workspaces m))"]
    by (fastforce simp: checkTabIds_def split: if_splits)
qed

lemma listed_count:
  "length (orElse (map_of (placesOf (listings gs)) k) []) = count (mset (concat (map gr_tabOrder gs))) k"
proof -
  have "length (filter (\<lambda>(k', _). k' = k) es) = count (mset (map fst es)) k" for es :: "(string \<times> string) list"
    by (induction es) auto
  moreover have "map fst (listings gs) = concat (map gr_tabOrder gs)"
    by (simp add: listings_def map_concat comp_def)
  ultimately show ?thesis by (simp only: map_of_placesOf length_map)
qed

lemma checkTabGroups_none:
  "checkTabGroups host ws = [] \<longleftrightarrow> (\<forall>i\<in>set (tabIds ws). count (mset (orderedIds ws)) i = 1)"
proof -
  let ?owners = "\<lambda>t. orElse (map_of (placesOf (listings (ws_groups ws))) (tb_id t)) []"
  have one: "(if xs = [] then [a] else if length xs > 1 then [b] else []) = [] \<longleftrightarrow> length xs = 1"
    for xs :: "string list" and a b :: workspaceLayoutViolation
    by (cases xs) auto
  have "checkTabGroups host ws = [] \<longleftrightarrow> (\<forall>t\<in>set (ws_tabs ws). length (?owners t) = 1)"
    by (simp only: checkTabGroups_def Let_def concat_eq_Nil_conv set_map ball_simps one)
  then show ?thesis by (simp only: listed_count) simp
qed

lemma checkGroupTabs_none:
  "checkGroupTabs host ws = [] \<longleftrightarrow>
     (\<forall>g\<in>set (ws_groups ws). gr_tabOrder g \<noteq> []) \<and> set (orderedIds ws) \<subseteq> set (tabIds ws)"
  by (auto simp: checkGroupTabs_def filter_empty_conv)

lemma checkGroups_none:
  assumes "distinct (tabIds ws)" "distinct (groupIds ws)"
  shows "checkGroupTabs host ws = [] \<and> checkTabGroups host ws = [] \<longleftrightarrow> wf_groups {} (tabIds ws) (ws_groups ws)"
proof
  assume l: "checkGroupTabs host ws = [] \<and> checkTabGroups host ws = []"
  then have ne: "\<forall>g\<in>set (ws_groups ws). gr_tabOrder g \<noteq> []" and sub: "set (orderedIds ws) \<subseteq> set (tabIds ws)"
    and one: "\<forall>i\<in>set (tabIds ws). count (mset (orderedIds ws)) i = 1"
    unfolding checkGroupTabs_none checkTabGroups_none by blast+
  have sup: "set (tabIds ws) \<subseteq> set (orderedIds ws)"
  proof
    fix i assume "i \<in> set (tabIds ws)"
    with one have "count (mset (orderedIds ws)) i = 1" by blast
    then show "i \<in> set (orderedIds ws)" by (metis count_eq_zero_iff set_mset_mset zero_neq_one)
  qed
  have "count (mset (orderedIds ws)) i \<le> 1" for i
  proof (cases "i \<in> set (orderedIds ws)")
    case True
    with sub one have "count (mset (orderedIds ws)) i = 1" by blast
    then show ?thesis by linarith
  next
    case False
    then have "count (mset (orderedIds ws)) i = 0" unfolding count_eq_zero_iff set_mset_mset .
    then show ?thesis by linarith
  qed
  then have "distinct (orderedIds ws)" unfolding distinct_count_le by blast
  with ne sub sup assms(2) show "wf_groups {} (tabIds ws) (ws_groups ws)"
    unfolding wf_groups_def list_all_iff by blast
next
  assume r: "wf_groups {} (tabIds ws) (ws_groups ws)"
  then have d: "distinct (orderedIds ws)" and eq: "set (orderedIds ws) = set (tabIds ws)"
    and ne: "\<forall>g\<in>set (ws_groups ws). gr_tabOrder g \<noteq> []"
    unfolding wf_groups_def list_all_iff by blast+
  have "count (mset (orderedIds ws)) i = 1" if "i \<in> set (tabIds ws)" for i
    using d that unfolding eq [symmetric] distinct_count_atmost_1 by presburger
  with ne eq show "checkGroupTabs host ws = [] \<and> checkTabGroups host ws = []"
    unfolding checkGroupTabs_none checkTabGroups_none by blast
qed

text \<open>With no repeated group the tree test is the equality of the groups.\<close>

lemma treeMatches_iff:
  assumes "distinct (groupIds ws)" "distinct (groupTreeIds (ws_groupLayout ws))"
  shows "treeMatches ws \<longleftrightarrow> wf_tree (groupIds ws) (ws_groupLayout ws)"
proof (cases "ws_groupLayout ws")
  case (Some t)
  have d: "distinct (leafIds t)" using assms(2) Some by (simp add: groupTreeIds_def)
  have card: "length (remdups (leafIds t @ groupIds ws)) = card (set (leafIds t) \<union> set (groupIds ws))"
    unfolding length_remdups_card_conv set_append ..
  have n: "length (leafIds t) = card (set (leafIds t))" "length (groupIds ws) = card (set (groupIds ws))"
    using distinct_card [OF d] distinct_card [OF assms(1)] by simp_all
  have "length (leafIds t) = length (groupIds ws) \<and> card (set (leafIds t) \<union> set (groupIds ws)) = length (groupIds ws)
      \<longleftrightarrow> set (leafIds t) = set (groupIds ws)"
  proof
    assume eq: "length (leafIds t) = length (groupIds ws) \<and> card (set (leafIds t) \<union> set (groupIds ws)) = length (groupIds ws)"
    have fin: "finite (set (leafIds t) \<union> set (groupIds ws))" by simp
    have "set (leafIds t) \<union> set (groupIds ws) = set (groupIds ws)"
      using eq n(2) by (intro card_subset_eq [OF fin, symmetric]) auto
    moreover have "set (leafIds t) \<union> set (groupIds ws) = set (leafIds t)"
      using eq n by (intro card_subset_eq [OF fin, symmetric]) auto
    ultimately show "set (leafIds t) = set (groupIds ws)" by blast
  qed (use n in auto)
  also have "\<dots> \<longleftrightarrow> mset (leafIds t) = mset (groupIds ws)"
    by (rule set_eq_iff_mset_eq_distinct [OF d assms(1)])
  finally show ?thesis by (simp add: treeMatches_def wf_tree_def groupTreeIds_def Some card Let_def del: remdups.simps)
qed (simp add: treeMatches_def wf_tree_def groupTreeIds_def Let_def)

lemma checkLeaves_none:
  assumes "distinct (keysOf (ws_leaves ws))"
  shows "checkLeaves host ws = [] \<longleftrightarrow> wf_leaves (paneIds ws) (ws_leaves ws)"
proof -
  have "map fst (filter (\<lambda>(l, leaf). lf_sleeping leaf \<noteq> None \<and> lf_resume leaf \<noteq> None) es) = []
      \<longleftrightarrow> list_all (\<lambda>(k, l). lf_sleeping l = None \<or> lf_resume l = None) es" for es
    by (induction es) auto
  then have doubled: "doubledLeaves ws = [] \<longleftrightarrow>
      list_all (\<lambda>(k, l). lf_sleeping l = None \<or> lf_resume l = None) (orElse (ws_leaves ws) [])"
    unfolding doubledLeaves_def .
  have stray: "strayLeaves ws = [] \<longleftrightarrow> set (keysOf (ws_leaves ws)) \<subseteq> set (paneIds ws)"
    by (auto simp: strayLeaves_def filter_empty_conv)
  have "checkLeaves host ws = [] \<longleftrightarrow> strayLeaves ws = [] \<and> doubledLeaves ws = []"
    by (simp add: checkLeaves_def Let_def)
  with assms show ?thesis unfolding doubled stray wf_leaves_def by blast
qed

lemma checkWorkspace_none:
  assumes "distinct (tabIds ws)" "distinct (paneIds ws)" "distinct (groupIds ws)"
    "distinct (groupTreeIds (ws_groupLayout ws))" "distinct (keysOf (ws_leaves ws))"
  shows "checkWorkspace host ws = [] \<longleftrightarrow> wf_workspace {} ws"
  using assms checkGroups_none [OF assms(1,3), of host] treeMatches_iff [OF assms(3,4)]
    checkLeaves_none [OF assms(5), of host]
  by (auto simp: checkWorkspace_def wf_workspace_def)

lemma structural_workspace: "structural (checkWorkspace host ws) = [] \<longleftrightarrow> checkWorkspace host ws = []"
proof -
  have "v \<in> set (checkWorkspace host ws) \<Longrightarrow> vi_rule v \<noteq> TerminalInTwoPanes" for v
    by (auto simp: checkWorkspace_def checkGroupTabs_def checkTabGroups_def checkLeaves_def Let_def
        split: if_splits)
  then show ?thesis by (auto simp: filter_empty_conv)
qed

lemma structural_tabIds: "structural (checkTabIds m) = [] \<longleftrightarrow> checkTabIds m = []"
  by (auto simp: checkTabIds_def filter_empty_conv split: if_splits)

lemma distinct_across:
  assumes "distinct (map fst es)"
  shows "distinct (concat (map (f \<circ> snd) es)) \<longleftrightarrow>
     (\<forall>(k, w)\<in>set es. distinct (f w))
     \<and> (\<forall>(k, w)\<in>set es. \<forall>(k', w')\<in>set es. k \<noteq> k' \<longrightarrow> set (f w) \<inter> set (f w') = {})"
  using assms
proof (induction es)
  case (Cons e es)
  obtain k w where e: "e = (k, w)" by force
  from Cons.prems have new: "k \<noteq> k'" if "(k', w') \<in> set es" for k' w' using e that by force
  have head: "distinct (concat (map (f \<circ> snd) (e # es))) \<longleftrightarrow> distinct (f w)
      \<and> (\<forall>(k', w')\<in>set es. set (f w) \<inter> set (f w') = {}) \<and> distinct (concat (map (f \<circ> snd) es))"
  proof -
    have "set (f w) \<inter> set (concat (map (f \<circ> snd) es)) = {}
        \<longleftrightarrow> (\<forall>(k', w')\<in>set es. set (f w) \<inter> set (f w') = {})"
      by (induction es) auto
    then show ?thesis by (auto simp: e)
  qed
  have pairs: "(\<forall>(k, w)\<in>set (e # es). \<forall>(k', w')\<in>set (e # es). k \<noteq> k' \<longrightarrow> set (f w) \<inter> set (f w') = {})
      \<longleftrightarrow> (\<forall>(k', w')\<in>set es. set (f w) \<inter> set (f w') = {})
        \<and> (\<forall>(k, w)\<in>set es. \<forall>(k', w')\<in>set es. k \<noteq> k' \<longrightarrow> set (f w) \<inter> set (f w') = {})"
    unfolding e set_simps using new by blast
  have each: "(\<forall>(k, w)\<in>set (e # es). distinct (f w))
      \<longleftrightarrow> distinct (f w) \<and> (\<forall>(k, w)\<in>set es. distinct (f w))" by (simp add: e)
  have d: "distinct (map fst es)" using Cons.prems by simp
  show ?case unfolding head pairs each Cons.IH [OF d] by (simp only: conj_ac)
qed simp

text \<open>
  A layout is a record of workspaces, so its keys are unique.  What the rules do not look at is
  that no group is repeated, in a workspace or in its tree.
\<close>

definition groupsOnce :: "workspaceLayoutModel \<Rightarrow> bool" where
  "groupsOnce m \<longleftrightarrow> distinct (map fst (md_workspaces m))
     \<and> (\<forall>(k, w)\<in>set (md_workspaces m). distinct (keysOf (ws_leaves w)) \<and> distinct (groupIds w)
          \<and> distinct (groupTreeIds (ws_groupLayout w)))"

lemma groupsOnce_wf: "wf_layout m \<Longrightarrow> groupsOnce m"
proof -
  assume wf: "wf_layout m"
  have "distinct (keysOf (ws_leaves w)) \<and> distinct (groupIds w) \<and> distinct (groupTreeIds (ws_groupLayout w))"
    if "(k, w) \<in> set (md_workspaces m)" for k w
  proof -
    have w: "wf_workspace {} w" using wf that unfolding wf_model_def by fastforce
    then have g: "distinct (groupIds w)" by (simp add: wf_workspace_def wf_groups_def)
    have "distinct (leafIds t)" if "ws_groupLayout w = Some t" for t
      using w that mset_eq_imp_distinct_iff [of "leafIds t" "groupIds w"] g
      by (simp add: wf_workspace_def wf_tree_def)
    with w g show ?thesis
      by (auto simp: wf_workspace_def wf_leaves_def groupTreeIds_def split: option.split)
  qed
  with wf show ?thesis by (auto simp: groupsOnce_def wf_model_def)
qed

lemma rules_characterised:
  assumes "groupsOnce m"
  shows "structural (checkWorkspaceLayoutModelRules [m] None) = [] \<longleftrightarrow> wf_layout m"
proof -
  let ?es = "md_workspaces m"
  from assms have keys: "distinct (map fst ?es)" by (simp add: groupsOnce_def)
  have parts: "structural (checkWorkspaceLayoutModelRules [m] None) = [] \<longleftrightarrow>
      distinct (allPaneIds m) \<and> distinct (allTabIds m)
      \<and> (\<forall>(k, w)\<in>set ?es. checkWorkspace (md_hostId m) w = [])"
    unfolding checkWorkspaceLayoutModelRules_def filter_append append_is_Nil_conv structural_paneOwners
      structural_concat
    by (simp add: structural_tabIds checkTabIds_none structural_workspace structural_concat case_prod_beta)
  note across = distinct_across [OF keys, of tabIds, folded allTabIds_def]
    distinct_across [OF keys, of paneIds, folded allPaneIds_def]
  have each: "checkWorkspace (md_hostId m) w = [] \<longleftrightarrow> wf_workspace {} w"
    if "(k, w) \<in> set ?es" "distinct (tabIds w)" "distinct (paneIds w)" for k w
    using assms that by (intro checkWorkspace_none) (fastforce simp: groupsOnce_def)+
  have ids: "distinct (tabIds w)" "distinct (paneIds w)" if "wf_workspace {} w" for w
    using that by (simp_all add: wf_workspace_def)
  show ?thesis
  proof
    assume "structural (checkWorkspaceLayoutModelRules [m] None) = []"
    then have "distinct (allPaneIds m)" "distinct (allTabIds m)"
      and ok: "\<forall>(k, w)\<in>set ?es. checkWorkspace (md_hostId m) w = []" unfolding parts by blast+
    then have t: "\<forall>(k, w)\<in>set ?es. distinct (tabIds w)" "\<forall>(k, w)\<in>set ?es. distinct (paneIds w)"
      and a: "\<forall>(k, w)\<in>set ?es. \<forall>(k', w')\<in>set ?es. k \<noteq> k' \<longrightarrow> apart w w'"
      unfolding across apart_def by blast+
    with ok each keys show "wf_layout m" unfolding wf_model_def by blast
  next
    assume wf: "wf_layout m"
    then have w: "wf_workspace {} w" if "(k, w) \<in> set ?es" for k w
      using that unfolding wf_model_def by fastforce
    have "checkWorkspace (md_hostId m) w = []" if "(k, w) \<in> set ?es" for k w
      using each [OF that ids [OF w [OF that]]] w [OF that] by blast
    moreover have "distinct (allPaneIds m)" "distinct (allTabIds m)"
      unfolding across using wf ids w unfolding wf_model_def apart_def by fast+
    ultimately show "structural (checkWorkspaceLayoutModelRules [m] None) = []"
      unfolding parts by blast
  qed
qed

end
