(* ===== verification/Layout_Runs.thy ===== *)
theory Layout_Runs
  imports Layout_Commands Transitions Layout_Rules
begin

text \<open>
  Runs of a host: commands of the clients and transitions of the runtime in any order, from the
  empty layout.  A step carries its fresh ids as hypotheses; a refused command is no step, it
  leaves the layout as it is.
\<close>

definition emptyLayout :: "string \<Rightarrow> workspaceLayoutModel" where
  "emptyLayout host = \<lparr>md_hostId = host, md_workspaces = [],
     md_records = \<lparr>rc_defaultTabsApplied = None, rc_clientHostedBrowserPages = None, rc_closedTerminalPanes = None\<rparr>,
     md_legacy = \<lparr>lg_terminalRowOwners = [], lg_topologyRevision = None\<rparr>\<rparr>"

datatype layoutEvent =
    ClientCommand layoutCommand layoutContext
  | RuntimeTransition layoutTransition "string \<Rightarrow> bool"

inductive layoutStep :: "bool \<Rightarrow> workspaceLayoutModel \<Rightarrow> layoutEvent \<Rightarrow> workspaceLayoutModel \<Rightarrow> bool"
  for own where
  commanded: "applyLayoutCommand own m c cx = Applied m' r e oc \<Longrightarrow> freshFor own m cx c \<Longrightarrow>
      layoutStep own m (ClientCommand c cx) m'"
| refused: "applyLayoutCommand own m c cx = Refused code \<Longrightarrow> layoutStep own m (ClientCommand c cx) m"
| told: "applyLayoutTransition same m t = Applied m' r e oc \<Longrightarrow>
      layoutStep own m (RuntimeTransition t same) m'"
| kept: "applyLayoutTransition same m t = Refused code \<Longrightarrow> layoutStep own m (RuntimeTransition t same) m"

inductive_cases commandStepE: "layoutStep own m (ClientCommand c cx) m'"
inductive_cases transitionStepE: "layoutStep own m (RuntimeTransition t same) m'"
inductive_simps commandStep_iff: "layoutStep own m (ClientCommand c cx) m'"
inductive_simps transitionStep_iff: "layoutStep own m (RuntimeTransition t same) m'"

inductive reachable :: "bool \<Rightarrow> string \<Rightarrow> workspaceLayoutModel \<Rightarrow> bool" for own host where
  start: "reachable own host (emptyLayout host)"
| step: "reachable own host m \<Longrightarrow> layoutStep own m ev m' \<Longrightarrow> reachable own host m'"

lemma wf_emptyLayout [simp]: "wf_layout (emptyLayout host)"
  by (simp add: emptyLayout_def wf_model_def)

lemma step_keeps_wf: "layoutStep own m ev m' \<Longrightarrow> wf_layout m \<Longrightarrow> wf_layout m'"
proof (induction rule: layoutStep.induct)
  case (commanded m c cx m' r e oc)
  then show ?case using ensures_applyLayoutCommand [of "\<lambda>_. {}" m own cx c] by simp
next
  case (told same m t m' r e oc)
  then show ?case using ensures_applyLayoutTransition [of m same t] by simp
qed simp_all

lemma reachable_wf: "reachable own host m \<Longrightarrow> wf_layout m"
  by (induction rule: reachable.induct) (simp_all add: step_keeps_wf)

text \<open>A step exists for every transition and for every command with fresh ids: no event is stuck.\<close>

lemma command_progress:
  "freshFor own m cx c \<Longrightarrow> \<exists>m'. layoutStep own m (ClientCommand c cx) m'"
  by (cases "applyLayoutCommand own m c cx") (auto simp: commandStep_iff)

lemma transition_progress: "\<exists>m'. layoutStep own m (RuntimeTransition t same) m'"
  by (cases "applyLayoutTransition same m t") (auto simp: transitionStep_iff)

end
