(* ===== verification/Panes_Survive.thy ===== *)
theory Panes_Survive
  imports Layout_Runs
begin

text \<open>
  Only closing removes panes.  Every other command leaves each pane of a workspace in that
  workspace, so no terminal loses the pane that shows it; of the runtime's transitions only the
  exit of a process and the removal of a workspace take panes away.
\<close>

definition keepsPanes :: "workspaceLayoutModel \<Rightarrow> workspaceLayoutModel \<Rightarrow> bool" where
  "keepsPanes m m' \<longleftrightarrow>
     (\<forall>k. set (paneIds (workspaceOrEmpty m k)) \<subseteq> set (paneIds (workspaceOrEmpty m' k)))"

named_theorems keeps \<open>handlers that keep the panes\<close>

lemma workspaceOrEmpty_withWorkspace:
  "workspaceOrEmpty (withWorkspace m k w) k' = (if k' = k then w else workspaceOrEmpty m k')"
  by (simp add: workspaceOrEmpty_def)

lemma keepsPanes_refl [simp]: "keepsPanes m m"
  by (simp add: keepsPanes_def)

lemma keepsPanes_trans: "keepsPanes m n \<Longrightarrow> keepsPanes n p \<Longrightarrow> keepsPanes m p"
  by (auto simp: keepsPanes_def)

lemma keepsPanes_withWorkspace:
  "set (paneIds (workspaceOrEmpty n k)) \<subseteq> set (paneIds w) \<Longrightarrow> keepsPanes m n \<Longrightarrow>
     keepsPanes m (withWorkspace n k w)"
  by (auto simp: keepsPanes_def workspaceOrEmpty_withWorkspace)

lemma keepsPanes_same:
  "paneIds w = paneIds (workspaceOrEmpty m k) \<Longrightarrow> keepsPanes m (withWorkspace m k w)"
  by (rule keepsPanes_withWorkspace) simp_all

lemma keepsPanes_frame:
  "md_workspaces n' = md_workspaces n \<Longrightarrow> keepsPanes m n' = keepsPanes m n"
  by (simp add: keepsPanes_def workspaceOrEmpty_def)

lemma keepsPanes_bookkeeping [simp]:
  "keepsPanes m (n\<lparr>md_records := r\<rparr>) = keepsPanes m n"
  "keepsPanes m (updateLegacyPersistence same a n rs) = keepsPanes m n"
  "keepsPanes m (runDroppedLeafStep own a n now) = keepsPanes m n"
  by (rule keepsPanes_frame; simp)+

text \<open>What these proofs need of a layout: no workspace repeats a tab or a pane.\<close>

definition idsOnce :: "workspaceLayoutModel \<Rightarrow> bool" where
  "idsOnce m \<longleftrightarrow> (\<forall>k. distinct (tabIds (workspaceOrEmpty m k)) \<and> distinct (paneIds (workspaceOrEmpty m k)))"

lemma wf_idsOnce: "wf_model E m \<Longrightarrow> idsOnce m"
  using wf_workspaceOrEmpty [of E m] by (auto simp: idsOnce_def wf_workspace_def)

lemma idsOnceD:
  "idsOnce m \<Longrightarrow> distinct (tabIds (workspaceOrEmpty m k))"
  "idsOnce m \<Longrightarrow> distinct (paneIds (workspaceOrEmpty m k))"
  by (simp_all add: idsOnce_def)

section \<open>Commands on tabs and panes\<close>

lemma keeps_updateOnce:
  assumes "idsOnce m" "findTab (workspaceOrEmpty m k) i = Some t" "tb_id t' = tb_id t"
    "leafIdsOf t' = leafIdsOf t"
  shows "ensures (keepsPanes m) (updateTab m k (workspaceOrEmpty m k) t')"
  using paneIds_replaceTab_same [OF idsOnceD(1) [OF assms(1)] _ assms(3,4)] assms(2)
  by (simp add: updateTab_def keepsPanes_same findTab_Some)

lemmas keeps_updateFound = keeps_updateOnce [OF wf_idsOnce]

lemma keeps_renameTab [keeps]: "wf_model E m \<Longrightarrow> ensures (keepsPanes m) (renameTab m k i title)"
  unfolding renameTab_def Let_def
  by (simp add: keeps_updateFound split: option.split tabTitle.split)

lemma keeps_promotePreviewTab [keeps]:
  "wf_model E m \<Longrightarrow> ensures (keepsPanes m) (promotePreviewTab m k i)"
  unfolding promotePreviewTab_def Let_def
  by (simp add: keeps_updateFound split: option.split)

lemma keeps_setChatPane [keeps]:
  assumes m: "wf_model E m" shows "ensures (keepsPanes m) (setChatPane m k i l)"
proof (cases "findTerminal (workspaceOrEmpty m k) i")
  case (Some t)
  obtain c p where "tb_body t = TerminalBody c p" using findTerminal_Some [OF Some] by blast
  then have "leafIdsOf (withPanes ((the (panesOf t))\<lparr>tp_chatLeafId := l\<rparr>) t) = leafIdsOf t"
    by (simp add: panesOf_def)
  from keeps_updateFound [OF m findTerminal_findTab [OF Some] _ this] show ?thesis
    using Some by (simp add: setChatPane_def Let_def)
qed (simp add: setChatPane_def Let_def)

lemma keeps_setTabProps [keeps]:
  assumes m: "wf_model E m" shows "ensures (keepsPanes m) (setTabProps m c)"
proof (cases "findTab (workspaceOrEmpty m (sp_workspace c)) (sp_tabId c)")
  case (Some t)
  then have t: "t \<in> set (ws_tabs (workspaceOrEmpty m (sp_workspace c)))" by (auto dest: findTab_Some)
  note u = wf_replaceTab_same(2) [OF wf_workspaceOrEmpty [OF m] t withProps_same]
  show ?thesis using Some by (simp add: setTabProps_def Let_def keepsPanes_same u)
qed (simp add: setTabProps_def Let_def)

lemma keeps_createTerminalTab [keeps]:
  "ensures (keepsPanes m) (createTerminalTab own m c cx)"
proof -
  have held: "ensures (keepsPanes m) h" if "appliedHeldAdoption m k ad = Some h" for k ad h
    using that by (auto simp: appliedHeldAdoption_def keepsPanes_same split: option.splits if_splits)
  have new: "keepsPanes m (withWorkspace m k ((placeNewTab own (workspaceOrEmpty m k) k t pl cx)\<lparr>ws_leaves := ls\<rparr>))"
    "keepsPanes m (withWorkspace m k (placeNewTab own (workspaceOrEmpty m k) k t pl cx))" for k t pl ls
    by (rule keepsPanes_withWorkspace; simp)+
  show ?thesis
    using held by (cases "ct_adopt c") (auto simp: createTerminalTab_def Let_def case_prod_beta new split: option.split)
qed

text \<open>The panes of a tab in another arrangement, or with one more.\<close>

lemma keeps_repaned:
  assumes m: "wf_model E m" and tab: "paneTab m k i = Some tab"
    and new: "distinct (leafIds r)" "set (leafIdsOf tab) \<subseteq> set (leafIds r)"
    and P: "set (leafIds r) \<subseteq> set (leafIdsOf tab) \<union> P" "P \<inter> set (allPaneIds m) = {}"
  shows "keepsPanes m (withWorkspace m k (replaceTab (workspaceOrEmpty m k) (withRoot (Some r) tab)))"
proof -
  let ?ws = "workspaceOrEmpty m k"
  from tab have t: "tab \<in> set (ws_tabs ?ws)" "isTerminal tab" by (blast elim: paneTabE)+
  from wf_workspaceOrEmpty [OF m, of k] have d: "distinct (tabIds ?ws)" "distinct (paneIds ?ws)"
    by (simp_all add: wf_workspace_def)
  have P': "P \<inter> set (paneIds ?ws) = {}" using P(2) workspaceOrEmpty_sub(2) [of m k] by blast
  from distinct_paneIds_replaceTab(2) [OF d t(1) withRoot_simps(1) _ _ P', of "Some r"] new P(1) t(2)
  show ?thesis by (intro keepsPanes_withWorkspace) auto
qed

lemma keeps_rearranged:
  assumes m: "wf_model E m" and tab: "paneTab m k i = Some tab"
    and ids: "mset (leafIds r) = mset (leafIdsOf tab)"
  shows "ensures (keepsPanes m) (updateTab m k (workspaceOrEmpty m k) (withRoot (Some r) tab))"
proof -
  from tab have t: "tab \<in> set (ws_tabs (workspaceOrEmpty m k))" by (blast elim: paneTabE)
  have "distinct (leafIds r)"
    using mset_eq_imp_distinct_iff [OF ids] distinct_leafIdsOf [OF wf_workspaceOrEmpty [OF m] t] by simp
  then show ?thesis
    using keeps_repaned [OF m tab, of r "{}"] mset_eq_setD [OF ids] by (simp add: updateTab_def)
qed

lemma keeps_splitPane [keeps]:
  assumes m: "wf_model E m" and fresh: "orElse n (cx_mintLeafId cx) \<notin> set (allPaneIds m)"
  shows "ensures (keepsPanes m) (splitPane m k i l d ratio n cx)"
proof (cases "paneTab m k i")
  case (Some tab)
  then obtain r where r: "rootOf tab = Some r" "leafIdsOf tab = leafIds r"
    and t: "tab \<in> set (ws_tabs (workspaceOrEmpty m k))" by (rule paneTabE)
  let ?new = "orElse n (cx_mintLeafId cx)"
  let ?r = "insertLeafBeside r l ?new (if d = Vertical then SideRight else SideBottom) ratio"
  have d: "distinct (leafIds r)" using distinct_leafIdsOf [OF wf_workspaceOrEmpty [OF m] t] r by simp
  have nw: "?new \<notin> set (leafIds r)"
    using fresh workspaceOrEmpty_sub(2) [of m k] pane_of_tab [OF t] r by auto
  have "keepsPanes m (withWorkspace m k (replaceTab (workspaceOrEmpty m k) (withRoot (Some ?r) tab)))"
    if "l \<in> set (leafIds r)"
  proof -
    from mset_insertLeafBeside [OF d that] have M: "mset (leafIds ?r) = mset (?new # leafIds r)" by simp
    have "distinct (leafIds ?r)" using mset_eq_imp_distinct_iff [OF M] d nw by simp
    with mset_eq_setD [OF M] r fresh show ?thesis by (intro keeps_repaned [OF m Some, of _ "{?new}"]) auto
  qed
  with Some r show ?thesis by (simp add: splitPane_def Let_def)
qed (simp add: splitPane_def)

lemma keeps_movePane [keeps]:
  assumes m: "wf_model E m" shows "ensures (keepsPanes m) (movePane m k i l t side)"
proof (cases "paneTab m k i")
  case (Some tab)
  then obtain n where n: "rootOf tab = Some n" "leafIdsOf tab = leafIds n"
    and mem: "tab \<in> set (ws_tabs (workspaceOrEmpty m k))" by (rule paneTabE)
  have d: "distinct (leafIds n)" using distinct_leafIdsOf [OF wf_workspaceOrEmpty [OF m] mem] n by simp
  show ?thesis
  proof (cases "l \<noteq> t \<and> l \<in> set (leafIds n) \<and> t \<in> set (leafIds n)")
    case True
    then have "l \<noteq> t" "l \<in> set (leafIds n)" "t \<in> set (leafIds n)" by auto
    from mset_movedPane [OF d this] obtain q where "removeLeaf n l = Some q"
      "\<And>side r. mset (leafIds (insertLeafBeside q t l side r)) = mset (leafIds n)" by blast
    with keeps_rearranged [OF m Some] n True Some show ?thesis
      by (simp add: movePane_def removeLayoutLeaf_def)
  qed (use Some n in \<open>auto simp: movePane_def\<close>)
qed (simp add: movePane_def)

lemma keeps_setPaneRatios [keeps]:
  assumes m: "wf_model E m" shows "ensures (keepsPanes m) (setPaneRatios m k i newRoot ratios)"
proof (cases "paneTab m k i")
  case (Some tab)
  then obtain n where n: "rootOf tab = Some n" "leafIdsOf tab = leafIds n" by (rule paneTabE)
  have "ensures (keepsPanes m) (updateTab m k (workspaceOrEmpty m k) (withRoot (Some r) tab))"
    if "sameIgnoringRatios r n \<or> sameIgnoringRatios n r" for r
    using that sameIgnoringRatios_ids n by (intro keeps_rearranged [OF m Some]) auto
  then show ?thesis
    using Some n sameIgnoringRatios_withPaneSplitRatios
    by (auto simp: setPaneRatios_def Let_def split: option.split)
qed (simp add: setPaneRatios_def)

lemma keeps_equalizePanes [keeps]:
  assumes m: "wf_model E m" shows "ensures (keepsPanes m) (equalizePanes m k i)"
proof (cases "paneTab m k i")
  case (Some tab)
  then obtain n where "rootOf tab = Some n" "leafIdsOf tab = leafIds n" by (rule paneTabE)
  with Some show ?thesis by (auto simp: equalizePanes_def intro!: keeps_rearranged [OF m])
qed (simp add: equalizePanes_def)

lemma keeps_setLeaf [simp]: "keepsPanes m (withWorkspace m k (setLeaf (workspaceOrEmpty m k) l leaf))"
  by (rule keepsPanes_same) simp

lemma keeps_leafCommands [keeps]:
  "ensures (keepsPanes m) (renamePane m k i l title)"
  "ensures (keepsPanes m) (setPaneGrid m k i l grid)"
  "ensures (keepsPanes m) (releasePaneTerminal m k i l pty)"
  "ensures (keepsPanes m) (restartPane m k paneKey)"
  by (simp_all add: renamePane_def setPaneGrid_def releasePaneTerminal_def restartPane_def Let_def
      split: option.split)

lemma keeps_startPane [keeps]: "ensures (keepsPanes m) (startPane m k paneKey cx)"
  by (simp add: startPane_def Let_def keeps split: option.split)

lemma paneIds_fold:
  assumes "\<And>p v. paneIds (f p v) = paneIds v"
  shows "paneIds (fold f ps ws) = paneIds ws"
  by (induction ps arbitrary: ws) (simp_all add: assms)

lemma keeps_sleep [keeps]: "ensures (keepsPanes m) (sleep m k keys records recordOnly)"
  by (simp add: sleep_def Let_def)
    (auto intro!: keepsPanes_same paneIds_fold simp: sleepStep_def split: option.split)

lemma keeps_wake [keeps]: "ensures (keepsPanes m) (wake m k keys recordOnly)"
  by (auto simp: wake_def Let_def wakeStep_def intro!: keepsPanes_same paneIds_fold)

lemma keeps_movePaneToNewTab [keeps]:
  assumes m: "wf_model E m"
    and fresh: "orElse (Option.bind (mp_windowDetach c) wd_tabId) (cx_mint cx MintTab) \<notin> set (allTabIds m)"
  shows "ensures (keepsPanes m) (movePaneToNewTab own m c cx)"
proof (cases "paneTab m (mp_workspace c) (mp_tabId c)")
  case (Some tab)
  let ?k = "mp_workspace c"
  let ?ws = "workspaceOrEmpty m ?k"
  from Some obtain n where n: "rootOf tab = Some n" "leafIdsOf tab = leafIds n"
    and t: "tab \<in> set (ws_tabs ?ws)" and tt: "isTerminal tab" by (rule paneTabE)
  let ?b = "bindDetachedLeaf ?ws (mp_leafId c) (mp_windowDetach c)"
  let ?moved = "detachedTab ?b tab c cx"
  have "keepsPanes m (withWorkspace m ?k
      (placeNewTab own (replaceTab ?b (withoutPane tab (mp_leafId c))) ?k ?moved pl cx))"
    if l: "mp_leafId c \<in> set (leafIdsOf tab)" for pl
  proof -
    have wb: "wf_workspace (E ?k) ?b"
      by (rule wf_bindDetachedLeaf [OF wf_workspaceOrEmpty [OF m] pane_of_tab [OF t l]])
    have "tb_id ?moved \<notin> set (tabIds ?b)" using fresh workspaceOrEmpty_sub(1) [of m ?k] by auto
    from wf_detach(2) [OF wb _ tt l this detachedTab_ids(1)] t paneIds_cong [of ?b ?ws]
    show ?thesis by (intro keepsPanes_withWorkspace) simp_all
  qed
  with Some n show ?thesis by (simp add: movePaneToNewTab_def Let_def)
qed (simp add: movePaneToNewTab_def Let_def)

section \<open>Commands on groups\<close>

lemma keeps_groups:
  "ws_tabs w = ws_tabs (workspaceOrEmpty m k) \<Longrightarrow> keepsPanes m (withWorkspace m k w)"
  by (rule keepsPanes_same) (rule paneIds_cong)

lemma paneIds_withMovedPin: "paneIds (withMovedPin ws c) = paneIds ws"
  by (simp add: withMovedPin_def paneIds_def comp_def if_distrib cong: if_cong split: option.split)

lemma keeps_moveTab [keeps]: "ensures (keepsPanes m) (moveTab own m c)"
  by (simp add: moveTab_def Let_def keepsPanes_same paneIds_withMovedPin split: option.split)

lemma keeps_splitGroup [keeps]: "ensures (keepsPanes m) (splitGroup m k i b s cx)"
  by (simp add: splitGroup_def Let_def keeps_groups split: option.split)

lemma keeps_setGroupRatios [keeps]: "ensures (keepsPanes m) (setGroupRatios m k l r)"
  by (simp add: setGroupRatios_def Let_def keeps_groups split: option.split)

section \<open>Commands on content\<close>

lemma keeps_withRecord [simp]: "ensures (keepsPanes m) (withRecord m k b change)"
  by (simp add: withRecord_def Let_def keepsPanes_same split: option.split)

lemma keeps_browserPages [keeps]:
  "ensures (keepsPanes m) (openBrowserPage m k b p)"
  "ensures (keepsPanes m) (closeBrowserPage m k b p)"
  "ensures (keepsPanes m) (replaceBrowserPage m k b p q)"
  "ensures (keepsPanes m) (setBrowserTabProfile m k b pr pa)"
  by (simp_all add: openBrowserPage_def closeBrowserPage_def replaceBrowserPage_def
      setBrowserTabProfile_def withPageIds_def)

lemma keeps_withEditor:
  "keepsPanes m n \<Longrightarrow> keepsPanes m (withEditorView (withEditorFile own n k f) k i v)"
  by (auto simp: withEditorView_def withEditorFile_def Let_def split: option.split
      intro!: keepsPanes_withWorkspace)

lemma keeps_withSendersGroup: "keepsPanes m (withSendersGroup m k g)"
  by (simp add: withSendersGroup_def keepsPanes_same)

text \<open>The preview tab a content tab replaces shows no terminal.\<close>

lemma replacedPreview_content:
  assumes "replacedPreview ws tab target = Some t"
  shows "t \<in> set (ws_tabs ws)" and "leafIdsOf t = []"
proof -
  from assms have f: "t \<in> set (ws_tabs ws)"
      "canReplacePreviewContentType (the (contentKindOf tab)) (contentKindOf t)"
    by (auto simp: replacedPreview_def split: if_splits dest: find_SomeD)
  then have "contentKindOf t \<noteq> None" by (auto simp: canReplacePreviewContentType_def split: if_splits option.splits)
  with f(1) show "t \<in> set (ws_tabs ws)" and "leafIdsOf t = []"
    by (auto simp: contentKindOf_def split: tab_body.splits)
qed

lemma paneIds_closeContent:
  assumes "distinct (tabIds ws)" "distinct (paneIds ws)" "t \<in> set (ws_tabs ws)" "leafIdsOf t = []"
  shows "set (paneIds (closeTabIn own ws t)) = set (paneIds ws)"
  using paneIds_removeTab [OF assms(1-3)] assms(4) by (simp add: paneIds_closeTabIn)

lemma keeps_placeContentTab:
  assumes ids: "idsOnce n" and fresh: "tb_id tab \<notin> set (allTabIds n)" and content: "leafIdsOf tab = []"
    and m: "keepsPanes m n"
  shows "keepsPanes m (fst (placeContentTab own n k tab pl dirty cx))"
proof -
  let ?ws = "workspaceOrEmpty n k"
  let ?target = "contentTarget ?ws pl"
  let ?p = "placeNewTab own ?ws k tab (contentPlacement ?ws pl) cx"
  let ?placed = "withWorkspace n k ?p"
  have placed: "keepsPanes m ?placed" using m by (intro keepsPanes_withWorkspace) simp_all
  have fr: "tb_id tab \<notin> set (tabIds ?ws)" using fresh workspaceOrEmpty_sub(1) [of n k] by blast
  show ?thesis
  proof (cases "replacedPreview ?ws tab ?target")
    case None
    then show ?thesis using placed by (simp add: placeContentTab_def contentTarget_def Let_def)
  next
    case (Some t)
    note t = replacedPreview_content [OF Some]
    have d: "distinct (tabIds ?p)" "distinct (paneIds ?p)" "t \<in> set (ws_tabs ?p)"
      using idsOnceD [OF ids, of k] fr t content by simp_all
    then have "findTab ?p (tb_id t) = Some t" unfolding findTab_def by (intro find_key_unique)
    then have closed: "keepsPanes m (closeTab own ?placed k (tb_id t))"
      using paneIds_closeContent [OF d t(2), of own] placed
      by (simp add: closeTab_def Let_def) (intro keepsPanes_withWorkspace; simp add: content m)
    have "keepsPanes m (case closeTabs own ?placed \<lparr>xt_workspace = k, xt_tabIds = [tb_id t], xt_force = False,
          xt_refusePinned = False, xt_dirtyTabIds = dirty, xt_recordClose = None\<rparr> None of
        Applied m' r e oc \<Rightarrow> m' | Refused _ \<Rightarrow> ?placed)"
      using closed placed \<open>findTab ?p (tb_id t) = Some t\<close>
      by (simp add: closeTabs_def closeProgressOf_def closeStep_def Let_def)
    moreover have "fst (case a of Applied m' r e oc \<Rightarrow> (m', orElse (rs_refused r) []) | Refused _ \<Rightarrow> (?placed, []))
        = (case a of Applied m' r e oc \<Rightarrow> m' | Refused _ \<Rightarrow> ?placed)" for a
      by (cases a) simp_all
    ultimately show ?thesis
      using Some unfolding placeContentTab_def Let_def contentTarget_def [symmetric] by simp
  qed
qed

text \<open>The open commands; \<open>fresh\<close> is what each needs of the ids it makes.\<close>

lemma idsOnce_cong: "(\<And>k. tabIds (workspaceOrEmpty n k) = tabIds (workspaceOrEmpty m k)) \<Longrightarrow>
    (\<And>k. paneIds (workspaceOrEmpty n k) = paneIds (workspaceOrEmpty m k)) \<Longrightarrow> idsOnce n = idsOnce m"
  by (simp add: idsOnce_def)

lemma idsOnce_withWorkspace:
  assumes "ws_tabs w = ws_tabs (workspaceOrEmpty m k)"
  shows "idsOnce (withWorkspace m k w) = idsOnce m"
proof (rule idsOnce_cong)
  have "paneIds w = paneIds (workspaceOrEmpty m k)" using assms by (rule paneIds_cong)
  with assms show "tabIds (workspaceOrEmpty (withWorkspace m k w) k') = tabIds (workspaceOrEmpty m k')"
    and "paneIds (workspaceOrEmpty (withWorkspace m k w) k') = paneIds (workspaceOrEmpty m k')" for k'
    unfolding workspaceOrEmpty_withWorkspace by simp_all
qed

lemma idsOnce_withSendersGroup [simp]: "idsOnce (withSendersGroup m k g) = idsOnce m"
  by (simp add: withSendersGroup_def idsOnce_withWorkspace)

lemma keeps_openEditorTab:
  assumes m: "idsOnce m" and fresh: "freshEditor c cx (allTabIds m)"
  shows "ensures (keepsPanes m) (openEditorTab own m c cx)"
proof -
  let ?key = "oe_workspace c" and ?gid = "pl_groupId (oe_placement c)"
  let ?fid = "the (openedFileId own m c)"
  let ?same = "\<lambda>t. tb_entityId t = ?fid \<and> isKind (oe_contentType c) t"
  have promoted: "keepsPanes m (orElse (okOf (promotePreviewTab m ?key i)) m)" for i
  proof -
    have "ensures (keepsPanes m) (promotePreviewTab m ?key i)"
      unfolding promotePreviewTab_def Let_def by (simp add: keeps_updateOnce m split: option.split)
    then show ?thesis by (cases "promotePreviewTab m ?key i") simp_all
  qed
  show ?thesis
  proof (cases "truthy (openedFileId own m c)")
    case True
    show ?thesis
    proof (cases "drawnTabOpen m ?key (oe_tabId c) ?same True")
      case None
      have "tb_id (newEditorTab c ?fid cx) \<notin> set (allTabIds m)"
        using drawnTabOpen_fresh [OF None] fresh
        by (cases "truthy (oe_tabId c)") (simp_all add: newEditorTab_def freshEditor_def newTab_def)
      then have placed: "keepsPanes m (fst (placeContentTab own (withSendersGroup m ?key ?gid) ?key
          (newEditorTab c ?fid cx) (oe_placement c) dirty cx))" for dirty
        using m by (intro keeps_placeContentTab keeps_withSendersGroup) simp_all
      show ?thesis
        using True None keeps_withEditor [OF placed] keeps_withEditor [OF promoted] keeps_withEditor [of m m]
        by (simp add: openEditorTab_def Let_def case_prod_beta split: option.split)
    next
      case (Some a)
      then have "ensures (keepsPanes m) a" by (auto simp: drawnTabOpen_def Let_def split: if_splits)
      then show ?thesis
        using True Some by (cases a) (simp_all add: openEditorTab_def Let_def keeps_withEditor)
    qed
  qed (simp add: openEditorTab_def Let_def)
qed

lemma keeps_openBrowserTab:
  assumes m: "idsOnce m" and fresh: "freshBrowser c cx (allTabIds m)"
  shows "ensures (keepsPanes m) (openBrowserTab own m c cx)"
proof -
  let ?key = "ob_workspace c" and ?b = "browserTabIdOf c cx"
  let ?i = "orElse (ob_tabId c) ?b" and ?p = "orElse (ob_pageId c) (cx_mint cx MintPage)"
  let ?taken = "if truthy (ob_browserTabId c) then takenBrowserTabIds m ?key ?i ?b ?p else None"
  show ?thesis
  proof (cases ?taken)
    case (Some a)
    then have "ensures (keepsPanes m) a"
      by (auto simp: takenBrowserTabIds_def Let_def split: if_splits)
    with Some show ?thesis by (simp add: openBrowserTab_def Let_def)
  next
    case None
    have "?i \<notin> set (allTabIds m)"
      using None fresh takenBrowserTabIds_fresh by (auto simp: freshBrowser_def split: if_splits)
    then have "keepsPanes m (fst (placeContentTab own m ?key (newTab ?i ?b n (ContentBody Browser))
        (ob_placement c) [] cx))" for n
      by (intro keeps_placeContentTab [OF m]) simp_all
    with None show ?thesis
      by (auto simp: openBrowserTab_def Let_def intro!: keepsPanes_withWorkspace)
  qed
qed

lemma keeps_openAgentSessionTab:
  assumes m: "idsOnce m" and fresh: "freshAgent own c cx (allTabIds m)"
  shows "ensures (keepsPanes m) (openAgentSessionTab own m c cx)"
proof -
  let ?same = "\<lambda>t. isKind AgentSession t \<and> tb_entityId t = oa_sessionId c"
  show ?thesis
  proof (cases "drawnTabOpen m (oa_workspace c) (oa_tabId c) ?same own")
    case (Some a)
    then have "ensures (keepsPanes m) a" by (auto simp: drawnTabOpen_def Let_def split: if_splits)
    with Some show ?thesis by (simp add: openAgentSessionTab_def Let_def)
  next
    case None
    then have "(if truthy (oa_tabId c) then the (oa_tabId c) else cx_mint cx MintTab) \<notin> set (allTabIds m)"
      using drawnTabOpen_fresh [of m "oa_workspace c" "oa_tabId c" ?same] fresh
      by (auto simp: freshAgent_def)
    with None m show ?thesis
      by (auto simp: openAgentSessionTab_def Let_def intro!: keeps_placeContentTab keeps_withSendersGroup)
  qed
qed

lemma keeps_openSimulatorTab:
  assumes m: "idsOnce m" and fresh: "freshSimulator c (allTabIds m)"
  shows "ensures (keepsPanes m) (openSimulatorTab own m c cx)"
proof (cases "drawnTabOpen m (os_workspace c) (Some (os_tabId c)) (isKind Simulator) True")
  case (Some a)
  then have "ensures (keepsPanes m) a" by (auto simp: drawnTabOpen_def Let_def split: if_splits)
  with Some show ?thesis by (simp add: openSimulatorTab_def Let_def)
next
  case None
  then have "os_tabId c \<notin> set (allTabIds m)"
    using drawnTabOpen_fresh [OF None] fresh
    by (cases "os_tabId c = []") (simp_all add: freshSimulator_def)
  with None m show ?thesis
    by (auto simp: openSimulatorTab_def Let_def intro!: keeps_placeContentTab keeps_withSendersGroup)
qed

text \<open>An open in a group that is created with it.\<close>

lemma ensures_if: "(b \<Longrightarrow> ensures P x) \<Longrightarrow> (\<not> b \<Longrightarrow> ensures P y) \<Longrightarrow> ensures P (if b then x else y)"
  by simp

lemma keeps_panes_openInNewGroup:
  assumes m: "idsOnce m"
    and opens: "\<And>n. idsOnce n \<Longrightarrow> allTabIds n = allTabIds m \<Longrightarrow> ensures (keepsPanes n) (opens n)"
  shows "ensures (keepsPanes m) (openInNewGroup m key split0 i g opens)"
proof -
  have direct: "ensures (keepsPanes m) (opens m)" by (rule opens [OF m refl])
  have new: "ensures (keepsPanes m) (case opens (withWorkspace m key w) of
        Refused code \<Rightarrow> Refused code
      | Applied m' r e oc \<Rightarrow> if P m' then Applied m' r e oc else appliedWith m r)"
    if "ws_tabs w = ws_tabs (workspaceOrEmpty m key)" for w P
  proof -
    have "ensures (keepsPanes (withWorkspace m key w)) (opens (withWorkspace m key w))"
      using m that by (intro opens) (simp_all add: idsOnce_withWorkspace allTabIds_withWorkspace)
    moreover have "keepsPanes m (withWorkspace m key w)" using that by (rule keeps_groups)
    ultimately show ?thesis
      by (cases "opens (withWorkspace m key w)") (auto intro: keepsPanes_trans)
  qed
  show ?thesis
  proof (cases split0)
    case (Some split)
    show ?thesis
      unfolding openInNewGroup_def Some Let_def option.case
      by (intro ensures_if direct new) simp_all
  qed (simp add: openInNewGroup_def direct)
qed

section \<open>Moves between workspaces, file renames and default tabs\<close>

lemma keeps_moveTabToWorkspace [keeps]:
  assumes m: "wf_model E m" shows "ensures (keepsPanes m) (moveTabToWorkspace own m c cx)"
proof (cases "moveTabToWorkspace own m c cx")
  case (Applied m' r e oc)
  let ?from = "mw_workspace c" and ?to = "mw_toWorkspace c"
  from moveTabToWorkspace_Applied [OF m Applied] obtain source source1 target1 ms where
    ne: "?from \<noteq> ?to" and source: "workspaceAt m ?from = Some source"
    and m': "m' = withWorkspace (withWorkspace m ?from source1) ?to target1"
    and p: "set (paneIds source1) = set (paneIds source)"
      "set (paneIds target1) = set (paneIds (workspaceOrEmpty m ?to))" .
  have "keepsPanes m (withWorkspace m ?from source1)"
    using p(1) source by (intro keepsPanes_withWorkspace) simp_all
  moreover have "workspaceOrEmpty (withWorkspace m ?from source1) ?to = workspaceOrEmpty m ?to"
    using ne by (simp add: workspaceOrEmpty_withWorkspace)
  then have "set (paneIds (workspaceOrEmpty (withWorkspace m ?from source1) ?to)) \<subseteq> set (paneIds target1)"
    using p(2) by simp
  ultimately have "keepsPanes m m'"
    unfolding m' by (intro keepsPanes_withWorkspace [where n = "withWorkspace m ?from source1"])
  with Applied show ?thesis by simp
qed simp

lemma keeps_renameInWorkspace: "ensures (keepsPanes m) (renameInWorkspace m k renames)"
  by (auto simp: renameInWorkspace_def Let_def rekeyed_frame intro!: keepsPanes_same split: option.split)

lemma keeps_renameParts: "ensures (keepsPanes m) (renameParts m parts acc)"
proof (induction m parts acc rule: renameParts.induct)
  case (2 m k renames parts acc)
  show ?case
  proof (cases "renameInWorkspace m k renames")
    case (Applied m' r e oc)
    let ?acc = "fold (\<lambda>(i, j) acc. AList.update i j acc) (orElse (rs_renamedTabIds r) []) acc"
    have "keepsPanes m m'" using keeps_renameInWorkspace [of m k renames] Applied by simp
    moreover have "ensures (keepsPanes m') (renameParts m' parts ?acc)" if "workspaceAt m k \<noteq> None"
      using 2 [OF _ Applied] that by auto
    ultimately show ?thesis
      using Applied by (cases "renameParts m' parts ?acc")
        (auto intro: keepsPanes_trans split: option.split)
  qed (simp split: option.split)
qed simp

lemma keeps_renameEditorFiles [keeps]: "ensures (keepsPanes m) (renameEditorFiles m k renames alsoIn)"
  by (simp add: renameEditorFiles_def Let_def keeps_renameParts del: renameParts.simps)

lemma keeps_setDefaultTabsApplied [keeps]: "ensures (keepsPanes m) (setDefaultTabsApplied m k)"
  by (simp add: setDefaultTabsApplied_def)

lemma keeps_applyTemplates: "ensures (keepsPanes m) (applyTemplates own k cx ts m created starts)"
proof (induction own k cx ts m created starts rule: applyTemplates.induct)
  case (1 own k cx m created starts)
  then show ?case
    using keeps_setDefaultTabsApplied [of m k] by (cases "setDefaultTabsApplied m k") simp_all
next
  case (2 own k cx t ts m created starts)
  show ?case
  proof (cases "createTerminalTab own m (defaultTabCommand k t) cx")
    case (Applied m' r e oc)
    let ?rest = "applyTemplates own k cx ts m'
        (created @ [(df_tabId t, df_leafId t, paneKeyOf (df_tabId t) (df_leafId t))]) (starts @ fx_startPaneKeys e)"
    have "keepsPanes m m'" using keeps_createTerminalTab [of m own "defaultTabCommand k t" cx] Applied by simp
    moreover have "ensures (keepsPanes m') ?rest" by (rule 2 [OF Applied])
    ultimately show ?thesis using Applied by (cases ?rest) (auto intro: keepsPanes_trans)
  qed simp
qed

lemma keeps_applyDefaultTabs [keeps]: "ensures (keepsPanes m) (applyDefaultTabs own m k ts cx)"
  by (simp add: applyDefaultTabs_def keeps_applyTemplates)

section \<open>All commands\<close>

definition closesPanes :: "layoutCommand \<Rightarrow> bool" where
  "closesPanes c \<longleftrightarrow> (case c of ClosePane _ _ _ _ \<Rightarrow> True | CloseTabs _ \<Rightarrow> True | _ \<Rightarrow> False)"

lemma closesPanes_simps [simp]: "closesPanes (ClosePane w t l u)" "closesPanes (CloseTabs x)"
  by (simp_all add: closesPanes_def)

lemma keeps_runCommand:
  assumes m: "wf_model E m" and fresh: "freshFor own m cx c" and c: "\<not> closesPanes c"
  shows "ensures (keepsPanes m) (runCommand own m cx c)"
proof -
  have once: "idsOnce m" by (rule wf_idsOnce [OF m])
  show ?thesis
    using fresh c
    by (cases c)
      (auto intro!: keeps keeps_panes_openInNewGroup once keeps_openEditorTab
        keeps_openBrowserTab keeps_openAgentSessionTab keeps_openSimulatorTab intro: m)
qed

lemma keeps_applyLayoutCommand:
  assumes "wf_model E m" "freshFor own m cx c" "\<not> closesPanes c"
  shows "ensures (keepsPanes m) (applyLayoutCommand own m c cx)"
proof -
  have "ensures (keepsPanes m) (absentReply m c)"
    by (simp add: absentReply_def split: layoutCommand.split)
  then have "ensures (keepsPanes m) (applyCommand own m c cx)"
    using keeps_runCommand [OF assms] by (simp add: applyCommand_def)
  then show ?thesis
    by (cases "applyCommand own m c cx")
      (simp_all add: applyLayoutCommand_def Let_def)
qed

section \<open>Transitions\<close>

text \<open>The end of a process takes its pane only when it was observed; losing contact never does.\<close>

lemma keeps_processStarted: "ensures (keepsPanes m) (processStarted m t)"
  by (simp add: processStarted_def Let_def split: option.split)

lemma keeps_sshLeaseTerminated:
  assumes wf: "wf_model E m" shows "ensures (keepsPanes m) (sshLeaseTerminated m ptyIds)"
proof -
  let ?step = "\<lambda>next (key, ws). let updated = unbindLost ptyIds ws
      in if updated = ws then next else withWorkspace next key updated"
  have "keepsPanes m (foldl ?step n es)" if "keepsPanes m n" "set es \<subseteq> set (md_workspaces m)"
    "distinct (map fst es)" "\<And>k w. (k, w) \<in> set es \<Longrightarrow> workspaceAt n k = Some w" for n es
    using that
  proof (induction es arbitrary: n)
    case (Cons e es)
    obtain k w where e: "e = (k, w)" by force
    have "workspaceAt m k = Some w"
      using Cons.prems(2) e wf by (auto simp: wf_model_def)
    from wf_unbindLost(2) [OF wf_model_lookup [OF wf this]]
    have "paneIds (unbindLost ptyIds w) = paneIds w" by (rule paneIds_cong)
    moreover have "workspaceOrEmpty n k = w" using Cons.prems(4) e by simp
    ultimately have "keepsPanes m (?step n e)"
      using Cons.prems(1) by (auto simp: e Let_def intro!: keepsPanes_withWorkspace)
    moreover have "workspaceAt (?step n e) k' = Some w'" if "(k', w') \<in> set es" for k' w'
    proof -
      have "k' \<noteq> k" using Cons.prems(3) e that by force
      with Cons.prems(4) that show ?thesis by (simp add: e Let_def)
    qed
    ultimately show ?case using Cons.IH [of "?step n e"] Cons.prems(2,3) by simp
  qed simp
  from this [of m "md_workspaces m"] wf show ?thesis
    by (simp add: sshLeaseTerminated_def wf_model_def)
qed

lemma keeps_unprovenExit:
  assumes wf: "wf_model E m" and unproven: "pe_exitCode facts < 0 \<or> pe_attachAbsent facts = Some True"
  shows "ensures (keepsPanes m) (applyProcessExit same m surface facts)"
proof -
  have "exitVerdict facts n = Unbind" for n
    using unproven by (auto simp: exitVerdict_def isProvenProcessExit_iff)
  then show ?thesis
    by (cases "locateExitedSurface m surface")
      (simp_all add: applyProcessExit_def Let_def)
qed

lemma keeps_failedExit:
  assumes "pe_local facts" "pe_exitCode facts \<noteq> 0"
  shows "ensures (keepsPanes m) (applyProcessExit same m surface facts)"
proof -
  have "exitVerdict facts n \<noteq> Retire" for n
    using exitVerdict_Retire [of facts n] assms by auto
  then show ?thesis
    by (cases "locateExitedSurface m surface")
      (auto simp: applyProcessExit_def Let_def split: exitVerdict.split)
qed

end
