(* ===== verification/Terminals_Once.thy ===== *)
theory Terminals_Once
  imports Panes_Survive
begin

text \<open>
  No terminal is shown twice.  A layout shows the terminals its pane data is bound to; a handler
  either shows no terminal a pane did not show before, or binds one pane to a terminal no other
  pane shows.  Only three events bind: the adoption of a live terminal, a pane dragged out with
  the window's terminal, and a started process.
\<close>

section \<open>The terminals a layout shows\<close>

definition showsIn :: "workspaceLayout \<Rightarrow> string \<Rightarrow> terminalBinding \<Rightarrow> bool" where
  "showsIn ws l b \<longleftrightarrow>
     (\<exists>leaf. leafAt ws l = Some leaf \<and> lf_ptyId leaf \<noteq> None \<and> b = bindingOfLeaf leaf)"

definition showsAt :: "workspaceLayoutModel \<Rightarrow> string \<Rightarrow> terminalBinding \<Rightarrow> bool" where
  "showsAt m l b \<longleftrightarrow> (\<exists>k. showsIn (workspaceOrEmpty m k) l b)"

definition showsLess :: "workspaceLayoutModel \<Rightarrow> workspaceLayoutModel \<Rightarrow> bool" where
  "showsLess m m' \<longleftrightarrow> (\<forall>l b. showsAt m' l b \<longrightarrow> showsAt m l b)"

definition termsOnce :: "workspaceLayoutModel \<Rightarrow> bool" where
  "termsOnce m \<longleftrightarrow> (\<forall>l b l' b'. showsAt m l b \<longrightarrow> showsAt m l' b' \<longrightarrow> l \<noteq> l' \<longrightarrow> \<not> isSameTerminal b b')"

named_theorems less \<open>handlers that bind no pane\<close>

lemma shows_In: "showsIn (workspaceOrEmpty m k) l b \<Longrightarrow> showsAt m l b"
  by (auto simp: showsAt_def)

lemma showsIn_leaves: "ws_leaves v = ws_leaves w \<Longrightarrow> showsIn v = showsIn w"
  by (simp add: showsIn_def fun_eq_iff)

lemma showsLess_refl [simp]: "showsLess m m"
  by (simp add: showsLess_def)

lemma showsLess_trans: "showsLess m n \<Longrightarrow> showsLess n p \<Longrightarrow> showsLess m p"
  by (simp add: showsLess_def)

lemma showsLessD: "showsLess m m' \<Longrightarrow> showsAt m' l b \<Longrightarrow> showsAt m l b"
  by (simp add: showsLess_def)

lemma shows_withWorkspace:
  "showsAt (withWorkspace m k w) l b \<Longrightarrow> showsIn w l b \<or> showsAt m l b"
  by (auto simp: showsAt_def workspaceOrEmpty_withWorkspace split: if_splits)

lemma showsLess_withWorkspace:
  assumes "\<And>l b. showsIn w l b \<Longrightarrow> showsAt m l b" "showsLess m n"
  shows "showsLess m (withWorkspace n k w)"
  using assms by (auto simp: showsLess_def dest!: shows_withWorkspace)

lemma showsLess_same:
  assumes "ws_leaves w = ws_leaves (workspaceOrEmpty n k)" "showsLess m n"
  shows "showsLess m (withWorkspace n k w)"
proof (rule showsLess_withWorkspace [OF _ assms(2)])
  fix l b assume "showsIn w l b"
  then have "showsAt n l b" using showsIn_leaves [OF assms(1)] by (auto intro: shows_In)
  with assms(2) show "showsAt m l b" by (rule showsLessD)
qed

lemma showsLess_frame: "md_workspaces n' = md_workspaces n \<Longrightarrow> showsLess m n' = showsLess m n"
  by (simp add: showsLess_def showsAt_def workspaceOrEmpty_def)

lemma showsLess_bookkeeping [simp]:
  "showsLess m (n\<lparr>md_records := r\<rparr>) = showsLess m n"
  "showsLess m (updateLegacyPersistence same a n rs) = showsLess m n"
  "showsLess m (runDroppedLeafStep own a n now) = showsLess m n"
  by (rule showsLess_frame; simp)+

lemma termsOnce_less: "termsOnce m \<Longrightarrow> showsLess m m' \<Longrightarrow> termsOnce m'"
  unfolding termsOnce_def showsLess_def by blast

text \<open>Writing the data of one pane: it keeps its terminal, or has none any more.\<close>

lemma showsIn_setLeaf:
  "showsIn (setLeaf ws l leaf) l' b \<longleftrightarrow>
     (if l' = l then lf_ptyId leaf \<noteq> None \<and> b = bindingOfLeaf leaf else showsIn ws l' b)"
  by (auto simp: showsIn_def emptyLeaf_def)

lemma showsIn_leafOr:
  "lf_ptyId (leafOr ws l) \<noteq> None \<Longrightarrow> showsIn ws l (bindingOfLeaf (leafOr ws l))"
  by (cases "leafAt ws l") (auto simp: showsIn_def emptyLeaf_def leafOr_def)

lemma showsIn_setLeaf_less:
  assumes "lf_ptyId leaf = None \<or> bindingOfLeaf leaf = bindingOfLeaf (leafOr ws l)"
    and "showsIn (setLeaf ws l leaf) l' b"
  shows "showsIn ws l' b"
proof (cases "l' = l")
  case True
  with assms have "lf_ptyId leaf \<noteq> None" "b = bindingOfLeaf (leafOr ws l)" by (auto simp: showsIn_setLeaf)
  moreover from this assms(1) have "lf_ptyId (leafOr ws l) \<noteq> None"
    by (metis bindingOfLeaf_def terminalBinding.select_convs(1))
  ultimately show ?thesis using True showsIn_leafOr by simp
qed (use assms(2) in \<open>simp add: showsIn_setLeaf\<close>)

lemma showsLess_setLeaf:
  assumes "lf_ptyId leaf = None \<or> bindingOfLeaf leaf = bindingOfLeaf (leafOr (workspaceOrEmpty m k) l)"
  shows "showsLess m (withWorkspace m k (setLeaf (workspaceOrEmpty m k) l leaf))"
  by (rule showsLess_withWorkspace) (auto intro: shows_In dest: showsIn_setLeaf_less [OF assms])

text \<open>Pane data that is taken out.\<close>

lemma leafAt_withoutKey:
  "lookupOpt (withoutKey ls l) l' = (if l' = l then None else lookupOpt ls l')"
  by (cases ls) (simp_all add: withoutKey_def delete_conv')

lemma leafAt_filterRecord:
  "lookupOpt (filterRecord ls (\<lambda>l _. P l)) l' = (if P l' then lookupOpt ls l' else None)"
proof (cases ls)
  case (Some es)
  have "map_of (filter (\<lambda>(k, v). P k) es) l' = (if P l' then map_of es l' else None)"
    by (induction es) auto
  with Some show ?thesis by (simp add: filterRecord_def)
qed (simp add: filterRecord_def)

lemma showsIn_sub:
  assumes "\<And>l. leafAt v l = None \<or> leafAt v l = leafAt w l" "showsIn v l b"
  shows "showsIn w l b"
  using assms(1) [of l] assms(2) by (auto simp: showsIn_def)

section \<open>Commands on tabs and panes\<close>

lemma less_updateTab [simp]: "ensures (showsLess m) (updateTab m k (workspaceOrEmpty m k) t)"
  by (simp add: updateTab_def showsLess_same)

lemma less_tabCommands [less]:
  "ensures (showsLess m) (renameTab m k i title)"
  "ensures (showsLess m) (promotePreviewTab m k i)"
  "ensures (showsLess m) (setChatPane m k i leaf0)"
  "ensures (showsLess m) (setTabProps m p)"
  "ensures (showsLess m) (splitPane m k i l d ratio n cx)"
  "ensures (showsLess m) (movePane m k i l t side)"
  "ensures (showsLess m) (setPaneRatios m k i newRoot ratios)"
  "ensures (showsLess m) (equalizePanes m k i)"
  by (simp_all add: renameTab_def promotePreviewTab_def setChatPane_def setTabProps_def splitPane_def
      movePane_def setPaneRatios_def equalizePanes_def Let_def showsLess_same split: option.split tabTitle.split)

lemma less_leafCommands [less]:
  "ensures (showsLess m) (renamePane m k i l title)"
  "ensures (showsLess m) (setPaneGrid m k i l grid)"
  "ensures (showsLess m) (releasePaneTerminal m k i l pty)"
  "ensures (showsLess m) (restartPane m k paneKey)"
  by (simp_all add: renamePane_def setPaneGrid_def releasePaneTerminal_def restartPane_def Let_def
      unbound_def bindingOfLeaf_def showsLess_setLeaf split: option.split)

lemma less_startPane [less]: "ensures (showsLess m) (startPane m k paneKey cx)"
  by (simp add: startPane_def Let_def less split: option.split)

lemma showsIn_fold:
  assumes "\<And>p v l b. showsIn (f p v) l b \<Longrightarrow> showsIn v l b"
  shows "showsIn (fold f ps ws) l b \<Longrightarrow> showsIn ws l b"
  by (induction ps arbitrary: ws) (auto dest: assms)

lemma less_fold:
  assumes "\<And>p v l b. showsIn (f p v) l b \<Longrightarrow> showsIn v l b"
  shows "showsLess m (withWorkspace m k (fold f ps (workspaceOrEmpty m k)))"
  by (rule showsLess_withWorkspace [OF _ showsLess_refl]) (rule shows_In [OF showsIn_fold [OF assms]])

lemma recordedLeaf_binding: "bindingOfLeaf (recordedLeaf r leaf) = bindingOfLeaf leaf"
  by (simp add: recordedLeaf_def bindingOfLeaf_def)

lemma showsIn_sleepStep: "showsIn (sleepStep records p v) l b \<Longrightarrow> showsIn v l b"
  unfolding sleepStep_def
  by (cases "List.find (\<lambda>r. sl_paneKey r = fst p) records")
    (auto intro: showsIn_setLeaf_less [OF disjI2 [OF recordedLeaf_binding]])

lemma showsIn_wakeStep: "showsIn (wakeStep p v) l b \<Longrightarrow> showsIn v l b"
  unfolding wakeStep_def by (rule showsIn_setLeaf_less) (simp_all add: bindingOfLeaf_def)

lemma less_sleep [less]: "ensures (showsLess m) (sleep m k keys records recordOnly)"
  by (simp add: sleep_def Let_def less_fold [OF showsIn_sleepStep])

lemma less_wake [less]: "ensures (showsLess m) (wake m k keys recordOnly)"
  by (simp add: wake_def Let_def less_fold [OF showsIn_wakeStep])

lemma showsIn_retirePaneIn: "showsIn (retirePaneIn ws t l) l' b \<Longrightarrow> showsIn ws l' b"
  by (rule showsIn_sub)
    (auto simp: retirePaneIn_def Let_def leafAt_withoutKey split: option.split)

lemma less_retireTerminalPane: "showsLess m (retireTerminalPane m location l)"
  unfolding retireTerminalPane_def Let_def
  by (rule showsLess_withWorkspace) (auto dest: showsIn_retirePaneIn intro: shows_In)

lemma less_closePane [less]: "ensures (showsLess m) (closePane m k i l user)"
  by (simp add: closePane_def Let_def less_retireTerminalPane split: option.split)

section \<open>Closing tabs\<close>

lemma showsIn_closeTabIn: "showsIn (closeTabIn own ws t) l b \<Longrightarrow> showsIn ws l b"
  by (rule showsIn_sub) (auto simp: closeTabIn_simps leafAt_filterRecord)

lemma less_closeTab: "showsLess m n \<Longrightarrow> showsLess m (closeTab own n k i)"
  unfolding closeTab_def Let_def
  by (rule showsLess_withWorkspace) (auto dest!: showsIn_closeTabIn intro: shows_In showsLessD)

lemma less_closeProgress:
  assumes "showsLess m n" shows "showsLess m (cp_model (closeProgressOf own n c))"
proof -
  have step: "showsLess m (cp_model (closeStep own c p i))" if "showsLess m (cp_model p)" for p i
    using that by (simp add: closeStep_def Let_def less_closeTab split: option.split)
  have "showsLess m (cp_model p) \<Longrightarrow> showsLess m (cp_model (foldl (closeStep own c) p is))" for p "is"
    by (induction "is" arbitrary: p) (simp_all add: step)
  with assms show ?thesis by (simp add: closeProgressOf_def)
qed

lemma less_closeTabs: "showsLess m n \<Longrightarrow> ensures (showsLess m) (closeTabs own n c now)"
  by (simp add: closeTabs_def Let_def recordClosedTerminalTabs_def less_closeProgress showsLess_same)

section \<open>Commands on groups and content\<close>

lemma ws_leaves_withMovedPin [simp]: "ws_leaves (withMovedPin ws c) = ws_leaves ws"
  by (simp add: withMovedPin_def split: option.split)

lemma less_groupCommands [less]:
  "ensures (showsLess m) (moveTab own m c)"
  "ensures (showsLess m) (splitGroup m k i b s cx)"
  "ensures (showsLess m) (setGroupRatios m k l r)"
  by (simp_all add: moveTab_def splitGroup_def setGroupRatios_def Let_def showsLess_same split: option.split)

lemma less_withRecord [simp]: "ensures (showsLess m) (withRecord m k b change)"
  by (simp add: withRecord_def Let_def showsLess_same split: option.split)

lemma less_browserPages [less]:
  "ensures (showsLess m) (openBrowserPage m k b p)"
  "ensures (showsLess m) (closeBrowserPage m k b p)"
  "ensures (showsLess m) (replaceBrowserPage m k b p q)"
  "ensures (showsLess m) (setBrowserTabProfile m k b pr pa)"
  by (simp_all add: openBrowserPage_def closeBrowserPage_def replaceBrowserPage_def
      setBrowserTabProfile_def withPageIds_def)

lemma less_withEditor:
  "showsLess m n \<Longrightarrow> showsLess m (withEditorView (withEditorFile own n k f) k i v)"
  by (auto simp: withEditorView_def withEditorFile_def Let_def split: option.split intro!: showsLess_same)

lemma less_withSendersGroup: "showsLess m n \<Longrightarrow> showsLess m (withSendersGroup n k g)"
  by (simp add: withSendersGroup_def showsLess_same)

lemma less_placeContentTab:
  assumes "showsLess m n" shows "showsLess m (fst (placeContentTab own n k tab pl dirty cx))"
proof -
  have placed: "showsLess m (withWorkspace n k (placeNewTab own (workspaceOrEmpty n k) k tab p cx))" for p
    using assms by (intro showsLess_same) simp_all
  have "showsLess m (fst (case a of Applied m' r e oc \<Rightarrow> (m', orElse (rs_refused r) []) | Refused _ \<Rightarrow> (q, [])))"
    if "ensures (showsLess m) a" "showsLess m q" for a q
    using that by (cases a) simp_all
  with placed less_closeTabs [OF placed] show ?thesis
    unfolding placeContentTab_def Let_def by (simp split: option.split)
qed

lemma drawnTabOpen_less: "drawnTabOpen m k i same refuse = Some a \<Longrightarrow> ensures (showsLess m) a"
  by (auto simp: drawnTabOpen_def Let_def split: if_splits)

lemma less_openEditorTab: "ensures (showsLess m) (openEditorTab own m c cx)"
proof -
  have pinned: "showsLess m (orElse (okOf (promotePreviewTab m k i)) m)" for k i
    using less_tabCommands(2) [of m k i] by (cases "promotePreviewTab m k i") simp_all
  note placed = less_withEditor [OF less_placeContentTab [OF less_withSendersGroup [OF showsLess_refl]]]
  show ?thesis
    using less_withEditor [OF pinned] placed
    by (auto simp: openEditorTab_def Let_def case_prod_beta less_withEditor dest: drawnTabOpen_less
        split: option.split applied.split)
qed

lemma less_openBrowserTab: "ensures (showsLess m) (openBrowserTab own m c cx)"
proof -
  have taken: "ensures (showsLess m) a" if "takenBrowserTabIds m k i b p = Some a" for k i b p a
    using that by (auto simp: takenBrowserTabIds_def Let_def split: if_splits)
  show ?thesis
    by (auto simp: openBrowserTab_def Let_def intro: taken intro!: showsLess_same less_placeContentTab
        split: option.split if_splits)
qed

lemma less_openAgentSessionTab: "ensures (showsLess m) (openAgentSessionTab own m c cx)"
  by (auto simp: openAgentSessionTab_def Let_def intro: drawnTabOpen_less
      intro!: less_placeContentTab less_withSendersGroup split: option.split)

lemma less_openSimulatorTab: "ensures (showsLess m) (openSimulatorTab own m c cx)"
  by (auto simp: openSimulatorTab_def Let_def intro: drawnTabOpen_less
      intro!: less_placeContentTab less_withSendersGroup split: option.split)


lemma showsLess_step: "showsLess m n \<Longrightarrow> ensures (showsLess n) a \<Longrightarrow> ensures (showsLess m) a"
  by (cases a) (auto intro: showsLess_trans)

lemma less_renameInWorkspace: "ensures (showsLess m) (renameInWorkspace m k renames)"
  by (auto simp: renameInWorkspace_def Let_def rekeyed_frame intro!: showsLess_same split: option.split)

lemma less_renameParts: "ensures (showsLess m) (renameParts m parts acc)"
proof (induction m parts acc rule: renameParts.induct)
  case (2 m k renames parts acc)
  show ?case
  proof (cases "renameInWorkspace m k renames")
    case (Applied m' r e oc)
    have "showsLess m m'" using less_renameInWorkspace [of m k renames] Applied by simp
    moreover have "ensures (showsLess m') (renameParts m' parts
        (fold (\<lambda>(i, j) acc. AList.update i j acc) (orElse (rs_renamedTabIds r) []) acc))"
      if "workspaceAt m k \<noteq> None"
      using 2 [OF _ Applied] that by auto
    ultimately show ?thesis
      using Applied by (auto intro: showsLess_step split: option.split)
  qed (simp split: option.split)
qed simp

lemma less_renameEditorFiles [less]: "ensures (showsLess m) (renameEditorFiles m k renames alsoIn)"
  by (simp add: renameEditorFiles_def Let_def less_renameParts del: renameParts.simps)

lemma ws_leaves_withoutTab [simp]: "ws_leaves (withoutTab ws i) = ws_leaves ws"
  by (simp add: withoutTab_def Let_def)

lemma ws_leaves_movedWorkspaces:
  "ws_leaves (fst (movedWorkspaces own c cx source target p)) = ws_leaves source"
  "ws_leaves (snd (movedWorkspaces own c cx source target p)) = ws_leaves target"
proof -
  have folds: "ws_leaves (fold (\<lambda>t s. withoutTab s (tb_id t)) ts s) = ws_leaves s" for ts s
    by (induction ts arbitrary: s) simp_all
  have moves: "ws_leaves (fst (fold (moveStep own c cx) ms st)) = ws_leaves (fst st)
      \<and> ws_leaves (snd (fold (moveStep own c cx) ms st)) = ws_leaves (snd st)" for ms st
    by (induction ms arbitrary: st) (simp_all add: moveStep_def Let_def case_prod_beta split: option.split)
  show "ws_leaves (fst (movedWorkspaces own c cx source target p)) = ws_leaves source"
    and "ws_leaves (snd (movedWorkspaces own c cx source target p)) = ws_leaves target"
    by (simp_all add: movedWorkspaces_def Let_def case_prod_beta moveEditorFile_def folds moves split: option.split)
qed

lemma less_moveTabToWorkspace [less]: "ensures (showsLess m) (moveTabToWorkspace own m c cx)"
proof (cases "workspaceAt m (mw_workspace c)")
  case (Some source)
  have "showsLess m (withWorkspace (withWorkspace m (mw_workspace c) s) (mw_toWorkspace c) t)"
    if "mw_workspace c \<noteq> mw_toWorkspace c" "ws_leaves s = ws_leaves source"
      "ws_leaves t = ws_leaves (workspaceOrEmpty m (mw_toWorkspace c))" for s t
    using that Some by (intro showsLess_same showsLess_refl) (simp_all add: workspaceOrEmpty_withWorkspace)
  then show ?thesis
    by (auto simp: moveTabToWorkspace_def Let_def Some case_prod_beta ws_leaves_movedWorkspaces
        split: sum.split)
qed (simp add: moveTabToWorkspace_def Let_def)

section \<open>Creating a terminal tab\<close>

lemma createdTerminal_new:
  assumes "ct_adopt c = None" shows "ensures (showsLess m) (createTerminalTab own m c cx)"
  using assms by (auto simp: createTerminalTab_def Let_def case_prod_beta intro!: showsLess_same)

lemma less_setDefaultTabsApplied [less]: "ensures (showsLess m) (setDefaultTabsApplied m k)"
  by (simp add: setDefaultTabsApplied_def)

lemma less_applyTemplates: "ensures (showsLess m) (applyTemplates own k cx ts m created starts)"
proof (induction own k cx ts m created starts rule: applyTemplates.induct)
  case (1 own k cx m created starts)
  then show ?case
    using less_setDefaultTabsApplied [of m k] by (cases "setDefaultTabsApplied m k") simp_all
next
  case (2 own k cx t ts m created starts)
  show ?case
  proof (cases "createTerminalTab own m (defaultTabCommand k t) cx")
    case (Applied m' r e oc)
    have "ensures (showsLess m) (createTerminalTab own m (defaultTabCommand k t) cx)"
      by (rule createdTerminal_new) (simp add: defaultTabCommand_def)
    with Applied 2 [OF Applied] show ?thesis by (auto intro: showsLess_step)
  qed simp
qed

lemma less_applyDefaultTabs [less]: "ensures (showsLess m) (applyDefaultTabs own m k ts cx)"
  by (simp add: applyDefaultTabs_def less_applyTemplates)

text \<open>An open in a group that is created with it: the open runs on the same tabs and pane data.\<close>

definition sameShown :: "workspaceLayoutModel \<Rightarrow> workspaceLayoutModel \<Rightarrow> bool" where
  "sameShown m n \<longleftrightarrow> (\<forall>k. ws_leaves (workspaceOrEmpty n k) = ws_leaves (workspaceOrEmpty m k)
     \<and> ws_tabs (workspaceOrEmpty n k) = ws_tabs (workspaceOrEmpty m k))"

lemma sameShown_less: "sameShown m n \<Longrightarrow> showsLess m n"
  by (auto simp: sameShown_def showsLess_def showsAt_def showsIn_def)

lemma openInNewGroup_ensures:
  assumes P: "P m" and opens: "\<And>n. sameShown m n \<Longrightarrow> ensures P (opens n)"
  shows "ensures P (openInNewGroup m key split0 i g opens)"
proof -
  have direct: "ensures P (opens m)" by (rule opens) (simp add: sameShown_def)
  have new: "ensures P (case opens (withWorkspace m key w) of
        Refused code \<Rightarrow> Refused code
      | Applied m' r e oc \<Rightarrow> if Q m' then Applied m' r e oc else appliedWith m r)"
    if "ws_tabs w = ws_tabs (workspaceOrEmpty m key)" "ws_leaves w = ws_leaves (workspaceOrEmpty m key)" for w Q
  proof -
    have "ensures P (opens (withWorkspace m key w))"
      using that by (intro opens) (simp add: sameShown_def workspaceOrEmpty_withWorkspace)
    with P show ?thesis by (cases "opens (withWorkspace m key w)") auto
  qed
  show ?thesis
  proof (cases split0)
    case (Some split)
    show ?thesis
      unfolding openInNewGroup_def Some Let_def option.case
      by (intro ensures_if direct new) simp_all
  qed (simp add: openInNewGroup_def direct)
qed

lemma less_openInNewGroup:
  assumes "\<And>n. ensures (showsLess n) (opens n)"
  shows "ensures (showsLess m) (openInNewGroup m key split0 i g opens)"
  by (rule openInNewGroup_ensures) (auto intro: showsLess_step [OF sameShown_less assms])

section \<open>Binding one pane\<close>

text \<open>The step that binds: pane \<open>l\<close> is bound anew, to a terminal that no other pane shows.\<close>

lemma termsOnce_bind:
  assumes once: "termsOnce m"
    and step: "\<And>l' b'. showsAt m' l' b' \<Longrightarrow> showsAt m l' b' \<or> l' = l \<and> b' = b"
    and free: "\<And>l' b'. showsAt m l' b' \<Longrightarrow> l' \<noteq> l \<Longrightarrow> \<not> isSameTerminal b' b"
  shows "termsOnce m'"
  unfolding termsOnce_def
proof (intro allI impI)
  fix l1 b1 l2 b2 assume s: "showsAt m' l1 b1" "showsAt m' l2 b2" "l1 \<noteq> l2"
  from step [OF s(1)] step [OF s(2)] show "\<not> isSameTerminal b1 b2"
  proof (elim disjE)
    assume "showsAt m l1 b1" "showsAt m l2 b2"
    with once s(3) show ?thesis unfolding termsOnce_def by blast
  next
    assume "showsAt m l1 b1" "l2 = l \<and> b2 = b"
    with free [of l1 b1] s(3) show ?thesis by simp
  next
    assume "l1 = l \<and> b1 = b" "showsAt m l2 b2"
    with free [of l2 b2] s(3) show ?thesis by (simp add: isSameTerminal_sym [of b])
  next
    assume "l1 = l \<and> b1 = b" "l2 = l \<and> b2 = b"
    with s(3) show ?thesis by simp
  qed
qed

text \<open>No pane but \<open>l\<close> is bound to the terminal \<open>p\<close>.\<close>

definition heldOnlyBy :: "workspaceLayoutModel \<Rightarrow> string \<Rightarrow> string \<Rightarrow> bool" where
  "heldOnlyBy m p l \<longleftrightarrow> (\<forall>k l'. ptyAt (workspaceOrEmpty m k) l' = Some p \<longrightarrow> l' = l)"

lemma isSameTerminal_pty: "isSameTerminal a b \<Longrightarrow> bd_ptyId a = bd_ptyId b \<and> bd_ptyId b \<noteq> None"
  by (cases "bd_ptyId a"; cases "bd_ptyId b") (simp_all add: isSameTerminal_def split: if_splits)

lemma heldOnlyBy_free:
  assumes "heldOnlyBy m p l" "bd_ptyId b = Some p" "showsAt m l' b'" "l' \<noteq> l"
  shows "\<not> isSameTerminal b' b"
proof
  assume "isSameTerminal b' b"
  then have "bd_ptyId b' = Some p" using isSameTerminal_pty assms(2) by fastforce
  moreover obtain k where "showsIn (workspaceOrEmpty m k) l' b'" using assms(3) by (auto simp: showsAt_def)
  ultimately have "ptyAt (workspaceOrEmpty m k) l' = Some p"
    by (auto simp: showsIn_def ptyAt_def bindingOfLeaf_def)
  with assms(1,4) show False by (auto simp: heldOnlyBy_def)
qed

lemma termsOnce_bound:
  assumes "termsOnce m" "heldOnlyBy m p l" "lf_ptyId leaf = Some p"
    and w: "\<And>l' b'. showsIn w l' b' \<Longrightarrow> showsAt m l' b' \<or> l' = l \<and> b' = bindingOfLeaf leaf"
  shows "termsOnce (withWorkspace m k w)"
proof (rule termsOnce_bind [OF assms(1), of _ l "bindingOfLeaf leaf"])
  show "showsAt m l' b' \<or> l' = l \<and> b' = bindingOfLeaf leaf" if "showsAt (withWorkspace m k w) l' b'" for l' b'
    using shows_withWorkspace [OF that] w by blast
  show "\<not> isSameTerminal b' (bindingOfLeaf leaf)" if "showsAt m l' b'" "l' \<noteq> l" for l' b'
    using heldOnlyBy_free [OF assms(2) _ that] assms(3) by (simp add: bindingOfLeaf_def)
qed

lemma showsIn_bindLeaf:
  "showsIn (setLeaf (workspaceOrEmpty m k) l leaf) l' b' \<Longrightarrow>
     showsAt m l' b' \<or> l' = l \<and> b' = bindingOfLeaf leaf"
  by (auto simp: showsIn_setLeaf split: if_splits intro: shows_In)

text \<open>A pane that is not in a tab has no data.\<close>

definition dataHeld :: "workspaceLayoutModel \<Rightarrow> bool" where
  "dataHeld m \<longleftrightarrow> (\<forall>k. set (keysOf (ws_leaves (workspaceOrEmpty m k))) \<subseteq> set (paneIds (workspaceOrEmpty m k)))"

lemma wf_dataHeld: "wf_model E m \<Longrightarrow> dataHeld m"
  using wf_workspaceOrEmpty [of E m] by (simp add: dataHeld_def wf_workspace_def wf_leaves_def)

lemma dataHeld_cong: "sameShown m n \<Longrightarrow> dataHeld n = dataHeld m"
  by (simp add: dataHeld_def sameShown_def paneIds_def)

lemma ptyAt_pane:
  assumes "dataHeld m" "ptyAt (workspaceOrEmpty m k) l = Some p"
  shows "l \<in> set (paneIds (workspaceOrEmpty m k))"
proof -
  from assms(2) obtain leaf where "leafAt (workspaceOrEmpty m k) l = Some leaf"
    by (auto simp: ptyAt_def bind_eq_Some_conv)
  then have "l \<in> set (keysOf (ws_leaves (workspaceOrEmpty m k)))"
    by (cases "ws_leaves (workspaceOrEmpty m k)") (auto dest: map_of_SomeD intro: rev_image_eqI)
  with assms(1) show ?thesis by (auto simp: dataHeld_def)
qed

lemma showingPane_None:
  "showingPane ws p ts = None \<Longrightarrow> t \<in> set ts \<Longrightarrow> l \<in> set (leafIdsOf t) \<Longrightarrow> ptyAt ws l = Some p \<Longrightarrow>
     \<exists>t\<in>set ts. [] \<in> set (leafIdsOf t) \<and> ptyAt ws [] = Some p"
proof (induction ws p ts rule: showingPane.induct)
  case (2 ws p u ts)
  show ?case
  proof (cases "List.find (\<lambda>l. ptyAt ws l = Some p) (leafIdsOf u)")
    case None
    then have "u \<noteq> t" using 2(5,6) by (auto simp: find_None_iff)
    with 2 None show ?thesis by auto
  next
    case (Some l0)
    with 2(3) have "l0 = []" by (auto split: if_splits)
    with Some show ?thesis by (auto dest: find_SomeD)
  qed
qed simp

lemma heldPane_free:
  assumes held: "dataHeld m"
    and free: "\<forall>k' l. ptyAt (workspaceOrEmpty m k') l = Some (ad_ptyId ad) \<longrightarrow> k' = k \<and> l \<noteq> []"
    and none: "showingPane (workspaceOrEmpty m k) (ad_ptyId ad) (ws_tabs (workspaceOrEmpty m k)) = None"
  shows "heldOnlyBy m (ad_ptyId ad) l"
proof -
  have False if p: "ptyAt (workspaceOrEmpty m k') l' = Some (ad_ptyId ad)" for k' l'
  proof -
    from free p have k: "k' = k" by blast
    with ptyAt_pane [OF held p] obtain t where
      "t \<in> set (ws_tabs (workspaceOrEmpty m k))" "l' \<in> set (leafIdsOf t)" by (auto simp: set_paneIds)
    from showingPane_None [OF none this] p k free show False by blast
  qed
  then show ?thesis by (auto simp: heldOnlyBy_def)
qed

text \<open>The client adopts a terminal only into the workspace that shows it, if one does.\<close>

definition adoptsFree :: "workspaceLayoutModel \<Rightarrow> string \<Rightarrow> liveTerminalAdoption option \<Rightarrow> bool" where
  "adoptsFree m k adopt \<longleftrightarrow> (case adopt of None \<Rightarrow> True
     | Some ad \<Rightarrow> \<forall>k' l. ptyAt (workspaceOrEmpty m k') l = Some (ad_ptyId ad) \<longrightarrow> k' = k \<and> l \<noteq> [])"

lemma sameShown_ptyAt: "sameShown m n \<Longrightarrow> ptyAt (workspaceOrEmpty n k) l = ptyAt (workspaceOrEmpty m k) l"
  by (simp add: sameShown_def ptyAt_def)

lemma adoptsFree_cong: "sameShown m n \<Longrightarrow> adoptsFree n k a = adoptsFree m k a"
  by (simp only: adoptsFree_def sameShown_ptyAt)

lemma withAdopted_pty [simp]: "lf_ptyId (withAdopted ad leaf) = Some (ad_ptyId ad)"
  by (simp add: withAdopted_def Let_def)

lemma once_heldAdoption:
  assumes once: "termsOnce m" and held: "dataHeld m" and free: "adoptsFree m k (Some ad)"
    and h: "appliedHeldAdoption m k ad = Some h"
  shows "ensures termsOnce h"
proof -
  from h obtain ws t l where ws: "workspaceAt m k = Some ws" and f: "heldPaneOfTerminal ws ad = Some (t, l)"
    and h': "h = (if ptyAt ws l = Some (ad_ptyId ad) then appliedWith m (paneResult t l)
      else appliedWith (withWorkspace m k (setLeaf ws l (withAdopted ad (leafOr ws l)))) (paneResult t l))"
    by (auto simp: appliedHeldAdoption_def split: option.splits if_splits)
  show ?thesis
  proof (cases "ptyAt ws l = Some (ad_ptyId ad)")
    case False
    have "ptyAt ws l = Some p" if "showingPane ws p ts = Some (t, l)" for p ts
      using that by (induction ws p ts rule: showingPane.induct)
        (auto split: option.splits if_splits dest: find_SomeD)
    with f False have "showingPane ws (ad_ptyId ad) (ws_tabs ws) = None"
      by (auto simp: heldPaneOfTerminal_def split: option.splits)
    then have "heldOnlyBy m (ad_ptyId ad) l"
      using heldPane_free [OF held, of ad k] free ws by (simp add: adoptsFree_def)
    from termsOnce_bound [OF once this withAdopted_pty [of ad "leafOr ws l"]]
      showsIn_bindLeaf [of m k l "withAdopted ad (leafOr ws l)"]
    show ?thesis using h' False ws by simp
  qed (use h' once in simp)
qed

lemma once_createTerminalTab:
  assumes once: "termsOnce m" and held: "dataHeld m" and free: "adoptsFree m (ct_workspace c) (ct_adopt c)"
  shows "ensures termsOnce (createTerminalTab own m c cx)"
proof (cases "ct_adopt c")
  case None
  from createdTerminal_new [OF this, of m own cx] once show ?thesis
    by (cases "createTerminalTab own m c cx") (auto intro: termsOnce_less)
next
  case (Some ad)
  let ?k = "ct_workspace c" let ?ws = "workspaceOrEmpty m ?k"
  let ?t = "fst (createdTerminal ?ws c cx)" and ?l = "snd (createdTerminal ?ws c cx)"
  let ?p = "placeNewTab own ?ws ?k ?t (ct_placement c) cx"
  have new: "termsOnce (withWorkspace m ?k
      (?p\<lparr>ws_leaves := Some (AList.update ?l (adoptedLeaf ad) (orElse (ws_leaves ?p) []))\<rparr>))"
    if "appliedHeldAdoption m ?k ad = None"
  proof (rule termsOnce_bound [OF once _ withAdopted_pty])
    have "showingPane ?ws (ad_ptyId ad) (ws_tabs ?ws) = None"
    proof (cases "workspaceAt m ?k")
      case (Some ws)
      with that have "heldPaneOfTerminal ws ad = None"
        by (auto simp: appliedHeldAdoption_def split: option.splits if_splits)
      with Some show ?thesis by (simp add: heldPaneOfTerminal_def split: option.splits)
    qed (simp add: emptyWorkspace_def)
    with heldPane_free [OF held] free Some show "heldOnlyBy m (ad_ptyId ad) ?l" by (simp add: adoptsFree_def)
    show "showsAt m l' b' \<or> l' = ?l \<and> b' = bindingOfLeaf (withAdopted ad emptyLeaf)"
      if "showsIn (?p\<lparr>ws_leaves := Some (AList.update ?l (adoptedLeaf ad) (orElse (ws_leaves ?p) []))\<rparr>) l' b'" for l' b'
    proof (cases "l' = ?l")
      case False
      with that have "showsIn ?ws l' b'"
        by (cases "ws_leaves ?ws") (auto simp: showsIn_def update_conv')
      then show ?thesis by (auto intro: shows_In)
    qed (use that in \<open>auto simp: showsIn_def update_conv' adoptedLeaf_def\<close>)
  qed
  show ?thesis
    using Some once new once_heldAdoption [OF once held, of ?k ad] free
    by (auto simp: createTerminalTab_def Let_def case_prod_beta split: option.split)
qed

lemma bindDetachedLeaf_binds:
  assumes "bindDetachedLeaf ws l d \<noteq> ws"
  obtains leaf p where "bindDetachedLeaf ws l d = setLeaf ws l leaf" "lf_ptyId leaf = Some p"
    "Option.bind d wd_ptyId = Some p"
proof (cases "Option.bind d wd_ptyId")
  case (Some p)
  let ?bound = "(leafOr ws l)\<lparr>lf_ptyId := Some p\<rparr>"
    and ?fresh = "(leafOr ws l)\<lparr>lf_incarnationId := None, lf_ptyId := Some p\<rparr>"
  from assms Some have "bindDetachedLeaf ws l d = setLeaf ws l ?bound
      \<or> bindDetachedLeaf ws l d = setLeaf ws l ?fresh"
    by (auto simp: bindDetachedLeaf_def Let_def)
  with that [OF _ _ Some, of ?bound] that [OF _ _ Some, of ?fresh]
  show ?thesis by auto
qed (use assms in \<open>simp add: bindDetachedLeaf_def\<close>)

lemma once_movePaneToNewTab:
  assumes once: "termsOnce m"
    and free: "\<And>p. Option.bind (mp_windowDetach c) wd_ptyId = Some p \<Longrightarrow> heldOnlyBy m p (mp_leafId c)"
  shows "ensures termsOnce (movePaneToNewTab own m c cx)"
proof -
  let ?ws = "workspaceOrEmpty m (mp_workspace c)"
  let ?b = "bindDetachedLeaf ?ws (mp_leafId c) (mp_windowDetach c)"
  have "termsOnce (withWorkspace m (mp_workspace c) w)" if w: "ws_leaves w = ws_leaves ?b" for w
  proof (cases "?b = ?ws")
    case True
    with w have "showsLess m (withWorkspace m (mp_workspace c) w)" by (intro showsLess_same) simp_all
    with once show ?thesis by (rule termsOnce_less)
  next
    case False
    then obtain leaf p where b: "?b = setLeaf ?ws (mp_leafId c) leaf" "lf_ptyId leaf = Some p"
      "Option.bind (mp_windowDetach c) wd_ptyId = Some p" by (rule bindDetachedLeaf_binds)
    show ?thesis
    proof (rule termsOnce_bound [OF once free [OF b(3)] b(2)])
      fix l' b' assume "showsIn w l' b'"
      then have "showsIn ?b l' b'" unfolding showsIn_leaves [OF w] .
      then show "showsAt m l' b' \<or> l' = mp_leafId c \<and> b' = bindingOfLeaf leaf"
        unfolding b(1) by (rule showsIn_bindLeaf)
    qed
  qed
  then show ?thesis by (simp add: movePaneToNewTab_def Let_def split: option.split)
qed

section \<open>All commands\<close>

definition bindsPane :: "layoutCommand \<Rightarrow> bool" where
  "bindsPane c \<longleftrightarrow> (case c of CreateTerminalTab _ \<Rightarrow> True | MovePaneToNewTab _ \<Rightarrow> True | _ \<Rightarrow> False)"

lemma less_runCommand: "\<not> bindsPane c \<Longrightarrow> ensures (showsLess m) (runCommand own m cx c)"
  by (cases c) (simp_all add: bindsPane_def less less_closeTabs less_openInNewGroup less_openEditorTab
      less_openBrowserTab less_openAgentSessionTab less_openSimulatorTab)

text \<open>
  The terminals clients and runtime bind are free: an adopted terminal is not shown in another
  workspace, a dragged pane brings a terminal no other pane shows, and a started process whose
  terminal id the relay may give out again has an incarnation.
\<close>

definition bindsFree :: "workspaceLayoutModel \<Rightarrow> layoutEvent \<Rightarrow> bool" where
  "bindsFree m ev \<longleftrightarrow> (case ev of
     ClientCommand (CreateTerminalTab c) _ \<Rightarrow> adoptsFree m (ct_workspace c) (ct_adopt c)
   | ClientCommand (MovePaneToNewTab c) _ \<Rightarrow>
       (case Option.bind (mp_windowDetach c) wd_ptyId of None \<Rightarrow> True | Some p \<Rightarrow> heldOnlyBy m p (mp_leafId c))
   | RuntimeTransition (ProcessStarted t) _ \<Rightarrow>
       ps_incarnationId t \<noteq> None \<or> \<not> isRepeatingRelayPtyId (ps_ptyId t)
   | _ \<Rightarrow> True)"

lemma once_runCommand:
  assumes once: "termsOnce m" and held: "dataHeld m" and free: "bindsFree m (ClientCommand c cx)"
  shows "ensures termsOnce (runCommand own m cx c)"
proof (cases "bindsPane c")
  case False
  from less_runCommand [OF this, of m own cx] once show ?thesis
    by (cases "runCommand own m cx c") (auto intro: termsOnce_less)
next
  case True
  then consider (create) x where "c = CreateTerminalTab x" | (move) x where "c = MovePaneToNewTab x"
    by (auto simp: bindsPane_def split: layoutCommand.splits)
  then show ?thesis
  proof cases
    case create
    have "ensures termsOnce (createTerminalTab own n x cx)" if n: "sameShown m n" for n
    proof (rule once_createTerminalTab)
      show "termsOnce n" by (rule termsOnce_less [OF once sameShown_less [OF n]])
      show "dataHeld n" using held dataHeld_cong [OF n] by simp
      show "adoptsFree n (ct_workspace x) (ct_adopt x)"
        using free create adoptsFree_cong [OF n] by (simp add: bindsFree_def)
    qed
    then show ?thesis unfolding create runCommand.simps by (rule openInNewGroup_ensures [of termsOnce, OF once])
  next
    case move
    have "heldOnlyBy m p (mp_leafId x)" if "Option.bind (mp_windowDetach x) wd_ptyId = Some p" for p
      using free that by (simp add: move bindsFree_def)
    then show ?thesis unfolding move runCommand.simps by (rule once_movePaneToNewTab [OF once])
  qed
qed

lemma once_applyLayoutCommand:
  assumes "termsOnce m" "dataHeld m" "bindsFree m (ClientCommand c cx)"
  shows "ensures termsOnce (applyLayoutCommand own m c cx)"
proof -
  have "ensures termsOnce (absentReply m c)"
    using assms(1) by (simp add: absentReply_def split: layoutCommand.split)
  then have "ensures termsOnce (applyCommand own m c cx)"
    using once_runCommand [OF assms] by (simp add: applyCommand_def)
  then show ?thesis
    by (cases "applyCommand own m c cx") (auto simp: applyLayoutCommand_def Let_def elim: termsOnce_less)
qed

section \<open>Transitions\<close>

lemma showsAt_iff: "showsAt m l b \<longleftrightarrow> (\<exists>k w. workspaceAt m k = Some w \<and> showsIn w l b)"
proof
  assume "showsAt m l b"
  then obtain k where k: "showsIn (workspaceOrEmpty m k) l b" by (auto simp: showsAt_def)
  then obtain w where "workspaceAt m k = Some w"
    by (cases "workspaceAt m k") (auto simp: showsIn_def emptyWorkspace_def)
  with k show "\<exists>k w. workspaceAt m k = Some w \<and> showsIn w l b" by (intro exI) simp
next
  assume "\<exists>k w. workspaceAt m k = Some w \<and> showsIn w l b"
  then obtain k w where "workspaceAt m k = Some w" "showsIn w l b" by blast
  then show "showsAt m l b" by (intro shows_In [of m k]) simp
qed

lemma showsIn_unbindLost: "showsIn (unbindLost ptyIds ws) l b \<Longrightarrow> showsIn ws l b"
proof -
  let ?step = "\<lambda>updated (leafId, leaf). case lf_ptyId leaf of None \<Rightarrow> updated
      | Some p \<Rightarrow> if p \<in> set ptyIds then setLeaf updated leafId (leaf\<lparr>lf_ptyId := None\<rparr>) else updated"
  have one: "showsIn v l b" if "showsIn (?step v e) l b" for v e
    using that by (cases e) (auto split: option.splits if_splits intro: showsIn_setLeaf_less [rotated])
  have "showsIn (foldl ?step v es) l b \<Longrightarrow> showsIn v l b" for v es
  proof (induction es arbitrary: v)
    case (Cons e es)
    then have "showsIn (?step v e) l b" by simp
    then show ?case by (rule one)
  qed simp
  then show "showsIn (unbindLost ptyIds ws) l b \<Longrightarrow> showsIn ws l b" by (simp add: unbindLost_def)
qed

lemma less_sshLeaseTerminated:
  assumes "distinct (map fst (md_workspaces m))"
  shows "ensures (showsLess m) (sshLeaseTerminated m ptyIds)"
proof -
  let ?step = "\<lambda>next (key, ws). let updated = unbindLost ptyIds ws
      in if updated = ws then next else withWorkspace next key updated"
  have "showsLess m (foldl ?step n es)" if "set es \<subseteq> set (md_workspaces m)" "showsLess m n" for n es
    using that
  proof (induction es arbitrary: n)
    case (Cons e es)
    obtain k w where e: "e = (k, w)" by force
    have "workspaceAt m k = Some w" using Cons.prems(1) assms by (simp add: e)
    then have "showsIn (unbindLost ptyIds w) l b \<Longrightarrow> showsAt m l b" for l b
      using showsIn_unbindLost [of ptyIds w l b] by (auto simp: showsAt_iff)
    then have "showsLess m (?step n e)"
      using Cons.prems(2) by (auto simp: e Let_def intro!: showsLess_withWorkspace)
    with Cons.IH [of "?step n e"] Cons.prems(1) show ?case by simp
  qed simp
  then show ?thesis by (simp add: sshLeaseTerminated_def)
qed

lemma less_applyProcessExit: "ensures (showsLess m) (applyProcessExit same m surface facts)"
  by (simp add: applyProcessExit_def Let_def less_retireTerminalPane showsLess_setLeaf unboundLeaf_def
      split: surface_location.split exitVerdict.split)

lemma less_removeWorkspaces: "showsLess m (removeWorkspaces m keys)"
proof -
  have "map_of (fold AList.delete keys es) k = (if k \<in> set keys then None else map_of es k)"
    for es :: "(string \<times> workspaceLayout) list" and k
    by (induction keys arbitrary: es) (auto simp: delete_conv')
  then show ?thesis
    by (auto simp: showsLess_def showsAt_iff removeWorkspaces_def Let_def split: if_splits)
qed

lemma less_renameWorkspace: "renameWorkspace m frm to = Some m' \<Longrightarrow> showsLess m m'"
proof (cases "m' = m")
  case False
  assume "renameWorkspace m frm to = Some m'"
  with False obtain ws where ws: "workspaceAt m frm = Some ws"
    and m': "md_workspaces m' = AList.delete frm (AList.update to
        (ws\<lparr>ws_worktreeId := renamed (ws_worktreeId ws) frm to\<rparr>) (md_workspaces m))"
    by (auto simp: renameWorkspace_def Let_def split: option.splits if_splits)
  have "showsIn (ws\<lparr>ws_worktreeId := i\<rparr>) = showsIn ws" for i by (rule showsIn_leaves) simp
  with ws show ?thesis
    by (auto simp: showsLess_def showsAt_iff m' delete_conv' update_conv' split: if_splits)
qed simp

lemma once_processStarted:
  assumes once: "termsOnce m" and relay: "ps_incarnationId t \<noteq> None \<or> \<not> isRepeatingRelayPtyId (ps_ptyId t)"
  shows "ensures termsOnce (processStarted m t)"
proof -
  let ?ws = "workspaceOrEmpty m (ps_workspace t)"
  let ?b = "\<lparr>bd_ptyId = Some (ps_ptyId t), bd_incarnationId = ps_incarnationId t\<rparr>"
  have "termsOnce (withWorkspace m (ps_workspace t) (setLeaf ?ws l leaf))"
    if free: "\<not> boundElsewhere m l ?b" and pty: "lf_ptyId leaf = Some (ps_ptyId t)"
      and inc: "ps_incarnationId t \<noteq> None \<Longrightarrow> lf_incarnationId leaf = ps_incarnationId t" for l leaf
  proof (rule termsOnce_bind [OF once, where l = l and b = "bindingOfLeaf leaf"])
    show "showsAt m l' b' \<or> l' = l \<and> b' = bindingOfLeaf leaf"
      if "showsAt (withWorkspace m (ps_workspace t) (setLeaf ?ws l leaf)) l' b'" for l' b'
      using shows_withWorkspace [OF that] showsIn_bindLeaf by blast
    fix l' b' assume "showsAt m l' b'" and ne: "l' \<noteq> l"
    then obtain k w leaf' where w: "workspaceAt m k = Some w" "leafAt w l' = Some leaf'" "b' = bindingOfLeaf leaf'"
      by (auto simp: showsAt_iff showsIn_def)
    have "(l', leaf') \<in> set (orElse (ws_leaves w) [])"
      using w(2) by (cases "ws_leaves w") (auto dest: map_of_SomeD)
    with free ne map_of_SomeD [OF w(1)] have "\<not> isSameTerminal b' ?b"
      unfolding boundElsewhere_def list_ex_iff w(3) by fastforce
    then show "\<not> isSameTerminal b' (bindingOfLeaf leaf)"
      using relay pty inc by (cases "ps_incarnationId t")
        (auto simp: isSameTerminal_def bindingOfLeaf_def split: option.splits if_splits)
  qed
  then show ?thesis
    by (cases "ps_incarnationId t") (simp_all add: processStarted_def Let_def split: option.split)
qed

lemma once_applyLayoutTransition:
  assumes once: "termsOnce m" and keys: "distinct (map fst (md_workspaces m))"
    and free: "bindsFree m (RuntimeTransition t same)"
  shows "ensures termsOnce (applyLayoutTransition same m t)"
proof -
  have less: "ensures termsOnce a" if "ensures (showsLess m) a" for a
    using that once by (cases a) (auto intro: termsOnce_less)
  have renames: "ensures (showsLess m) (case renameWorkspace m frm to of
      None \<Rightarrow> Refused WorkspaceExists | Some m' \<Rightarrow> appliedOnly m')" for frm to
    using less_renameWorkspace [of m frm to] by (cases "renameWorkspace m frm to") simp_all
  have "ensures termsOnce (applyTransition same m t)"
    using free once_processStarted [OF once] less_sshLeaseTerminated [OF keys] less_removeWorkspaces
      less_applyProcessExit renames
    by (cases t) (simp_all add: bindsFree_def less termsOnce_less [OF once])
  then show ?thesis
    by (cases "applyTransition same m t")
      (auto simp: applyLayoutTransition_def elim: termsOnce_less split: layoutTransition.split)
qed

section \<open>Runs\<close>

inductive reachableOnce :: "bool \<Rightarrow> string \<Rightarrow> workspaceLayoutModel \<Rightarrow> bool" for own host where
  start: "reachableOnce own host (emptyLayout host)"
| step: "reachableOnce own host m \<Longrightarrow> layoutStep own m ev m' \<Longrightarrow> bindsFree m ev \<Longrightarrow> reachableOnce own host m'"

lemma reachableOnce_reachable: "reachableOnce own host m \<Longrightarrow> reachable own host m"
  by (induction rule: reachableOnce.induct) (auto intro: reachable.intros)

lemma step_keeps_once:
  assumes "layoutStep own m ev m'" "termsOnce m" "wf_layout m" "bindsFree m ev"
  shows "termsOnce m'"
  using assms
proof (induction rule: layoutStep.induct)
  case (commanded m c cx m' r e oc)
  from once_applyLayoutCommand [OF commanded(3) wf_dataHeld [OF commanded(4)] commanded(5), of own] commanded(1)
  show ?case by simp
next
  case (told same m t m' r e oc)
  then have "distinct (map fst (md_workspaces m))" by (simp add: wf_model_def)
  with told once_applyLayoutTransition [of m t same] show ?case by simp
qed simp_all

lemma reachableOnce_once: "reachableOnce own host m \<Longrightarrow> termsOnce m"
proof (induction rule: reachableOnce.induct)
  case start
  show ?case by (simp add: termsOnce_def showsAt_iff emptyLayout_def)
next
  case (step m ev m')
  with step_keeps_once reachable_wf reachableOnce_reachable show ?case by blast
qed

section \<open>The rule on terminals\<close>

lemma checkOwnerList_none:
  assumes "distinct (map po_leafId ps)"
    and "\<And>a b. a \<in> set ps \<Longrightarrow> b \<in> set ps \<Longrightarrow> po_leafId a \<noteq> po_leafId b \<Longrightarrow>
      \<not> isSameTerminal (bindingOfOwner a) (bindingOfOwner b)"
  shows "checkOwnerList ps = []"
  using assms
proof (induction ps)
  case (Cons p ps)
  have "checkOwnerPair p q = []" if q: "q \<in> set ps" for q
  proof -
    have "po_leafId p \<noteq> po_leafId q" using Cons.prems(1) q by force
    with Cons.prems(2) [of p q] q show ?thesis by (simp add: checkOwnerPair_def)
  qed
  moreover have "checkOwnerList ps = []" using Cons by simp
  ultimately show ?case by simp
qed simp

lemma paneOwners_shows:
  assumes keys: "distinct (map fst (md_workspaces m))" and p: "p \<in> set (paneOwners m)" "po_ptyId p \<noteq> None"
  shows "showsAt m (po_leafId p) (bindingOfOwner p)"
proof -
  from p obtain k w l where w: "(k, w) \<in> set (md_workspaces m)"
    and l: "po_leafId p = l" "po_ptyId p = ptyAt w l"
      "po_incarnationId p = Option.bind (leafAt w l) lf_incarnationId"
    by (auto simp: paneOwners_def)
  from p(2) l obtain leaf where leaf: "leafAt w l = Some leaf" "lf_ptyId leaf \<noteq> None"
    by (auto simp: ptyAt_def bind_eq_Some_conv)
  have "workspaceAt m k = Some w" using keys w by simp
  moreover have "showsIn w l (bindingOfOwner p)"
    using leaf l by (simp add: showsIn_def bindingOfOwner_def bindingOfLeaf_def ptyAt_def)
  ultimately show ?thesis using l(1) by (auto simp: showsAt_iff)
qed

lemma rules_pass:
  assumes wf: "wf_layout m" and once: "termsOnce m"
  shows "checkWorkspaceLayoutModelRules [m] None = []"
proof -
  have keys: "distinct (map fst (md_workspaces m))" using wf by (simp add: wf_model_def)
  have none: "structural (checkWorkspaceLayoutModelRules [m] None) = []"
    using rules_characterised [OF groupsOnce_wf [OF wf]] wf by blast
  have same: "\<not> isSameTerminal (bindingOfOwner a) (bindingOfOwner b)"
    if "a \<in> set (paneOwners m)" "b \<in> set (paneOwners m)" "po_leafId a \<noteq> po_leafId b" for a b
  proof
    assume s: "isSameTerminal (bindingOfOwner a) (bindingOfOwner b)"
    from isSameTerminal_pty [OF s] have "po_ptyId a \<noteq> None" "po_ptyId b \<noteq> None"
      by (auto simp: bindingOfOwner_def)
    with s that once paneOwners_shows [OF keys] show False unfolding termsOnce_def by blast
  qed
  have "structural (checkPaneOwners (paneOwnerGroups md_hostId [m] paneOwners)) = []"
    using none unfolding checkWorkspaceLayoutModelRules_def filter_append append_is_Nil_conv by blast
  then have "distinct (map po_leafId (paneOwners m))"
    unfolding structural_paneOwners leafIds_paneOwners .
  from checkOwnerList_none [OF this same]
  have owners: "checkPaneOwners (paneOwnerGroups md_hostId [m] paneOwners) = []"
    by (simp add: checkPaneOwners_def paneOwnerGroups_def)
  show ?thesis
    using none owners
    unfolding checkWorkspaceLayoutModelRules_def filter_append append_is_Nil_conv structural_concat
    by (simp add: structural_tabIds structural_workspace structural_concat case_prod_beta comp_def)
qed

end
