(* ===== verification/Command_Effects.thy ===== *)
theory Command_Effects
  imports Terminals_Once
begin

text \<open>
  What single commands and transitions do, stated without the loops and trees of their
  handlers: which tabs a close takes, where a moved tab lands and that the others stay, which
  title a new terminal gets, and which panes a transition binds or unbinds.
\<close>

section \<open>Closing\<close>

text \<open>Why a tab that is there is not closed.\<close>

definition closeRefusal :: "closeTabsCommand \<Rightarrow> workspaceLayout \<Rightarrow> string \<Rightarrow> close_refusal option" where
  "closeRefusal c ws i =
     (case findTab ws i of
        None \<Rightarrow> None
      | Some t \<Rightarrow>
          if xt_force c then None
          else if xt_refusePinned c \<and> tb_isPinned t = Some True then Some TabPinned
          else if i \<in> set (xt_dirtyTabIds c) then Some EditorTabHasUnsavedDraft
          else None)"

lemma findTab_filter:
  "findTab (ws\<lparr>ws_tabs := filter (\<lambda>t. tb_id t \<notin> A) ts\<rparr>) i
     = (if i \<in> A then None else findTab (ws\<lparr>ws_tabs := ts\<rparr>) i)"
  by (induction ts) (auto simp: findTab_def)

lemma findTab_tabs: "ws_tabs v = ws_tabs w \<Longrightarrow> findTab v i = findTab w i"
  by (simp add: findTab_def)

lemma closeStep_parts:
  fixes c m
  defines "ws \<equiv> workspaceOrEmpty m (xt_workspace c)"
  assumes tabs: "ws_tabs (workspaceOrEmpty (cp_model p) (xt_workspace c))
      = filter (\<lambda>t. tb_id t \<notin> set (cp_closed p)) (ws_tabs ws)"
    and closed: "\<forall>j\<in>set (cp_closed p). closeRefusal c ws j = None"
  shows "case closeRefusal c ws i of
      Some why \<Rightarrow> cp_closed (closeStep own c p i) = cp_closed p
        \<and> cp_refused (closeStep own c p i) = cp_refused p @ [(i, why)]
    | None \<Rightarrow> cp_closed (closeStep own c p i) = cp_closed p @ [i]
        \<and> cp_refused (closeStep own c p i) = cp_refused p"
    and "ws_tabs (workspaceOrEmpty (cp_model (closeStep own c p i)) (xt_workspace c))
      = filter (\<lambda>t. tb_id t \<notin> set (cp_closed (closeStep own c p i))) (ws_tabs ws)"
proof -
  let ?now = "workspaceOrEmpty (cp_model p) (xt_workspace c)"
  have "findTab ?now i = findTab (ws\<lparr>ws_tabs := filter (\<lambda>t. tb_id t \<notin> set (cp_closed p)) (ws_tabs ws)\<rparr>) i"
    by (rule findTab_tabs) (simp add: tabs)
  then have now: "findTab ?now i = (if i \<in> set (cp_closed p) then None else findTab ws i)"
    by (simp add: findTab_filter)
  show "case closeRefusal c ws i of
      Some why \<Rightarrow> cp_closed (closeStep own c p i) = cp_closed p
        \<and> cp_refused (closeStep own c p i) = cp_refused p @ [(i, why)]
    | None \<Rightarrow> cp_closed (closeStep own c p i) = cp_closed p @ [i]
        \<and> cp_refused (closeStep own c p i) = cp_refused p"
    using closed now
    by (cases "findTab ws i") (auto simp: closeStep_def closeRefusal_def Let_def split: if_splits)
  show "ws_tabs (workspaceOrEmpty (cp_model (closeStep own c p i)) (xt_workspace c))
      = filter (\<lambda>t. tb_id t \<notin> set (cp_closed (closeStep own c p i))) (ws_tabs ws)"
  proof (cases "findTab ?now i")
    case None
    have "tb_id t \<noteq> i" if "t \<in> set (ws_tabs ws)" "tb_id t \<notin> set (cp_closed p)" for t
      using that now None findTab_None [of ws i] by (auto split: if_splits)
    then show ?thesis using None tabs
      by (auto simp: closeStep_def Let_def intro!: filter_cong)
  next
    case (Some t)
    then have "tb_id t = i" by (simp add: findTab_Some)
    with Some show ?thesis
      by (simp add: closeStep_def closeTab_def closeTabIn_simps Let_def tabs conj_commute)
  qed
qed

lemma closeTabs_effect:
  fixes own m c now
  defines "ws \<equiv> workspaceOrEmpty m (xt_workspace c)"
  assumes "closeTabs own m c now = Applied m' r e oc"
  shows "rs_closed r = Some (filter (\<lambda>i. closeRefusal c ws i = None) (xt_tabIds c))"
    and "rs_refused r = Some (concat (map (\<lambda>i. case closeRefusal c ws i of
           None \<Rightarrow> [] | Some why \<Rightarrow> [(i, why)]) (xt_tabIds c)))"
    and "ws_tabs (workspaceOrEmpty m' (xt_workspace c))
           = filter (\<lambda>t. tb_id t \<notin> set (xt_tabIds c) \<or> closeRefusal c ws (tb_id t) \<noteq> None) (ws_tabs ws)"
proof -
  let ?start = "\<lparr>cp_model = m, cp_closed = [], cp_recorded = [], cp_refused = [], cp_stopPtyIds = []\<rparr>"
  have loop: "cp_closed (foldl (closeStep own c) ?start is) = filter (\<lambda>i. closeRefusal c ws i = None) is
    \<and> cp_refused (foldl (closeStep own c) ?start is) = concat (map (\<lambda>i. case closeRefusal c ws i of
           None \<Rightarrow> [] | Some why \<Rightarrow> [(i, why)]) is)
    \<and> ws_tabs (workspaceOrEmpty (cp_model (foldl (closeStep own c) ?start is)) (xt_workspace c))
      = filter (\<lambda>t. tb_id t \<notin> set (cp_closed (foldl (closeStep own c) ?start is))) (ws_tabs ws)" for "is"
  proof (induction "is" rule: rev_induct)
    case (snoc i "is")
    let ?p = "foldl (closeStep own c) ?start is"
    have "\<forall>j\<in>set (cp_closed ?p). closeRefusal c ws j = None" using snoc by auto
    note step = closeStep_parts [where p = ?p and c = c and m = m, folded ws_def, OF _ this]
    show ?case
      using snoc step(1) [where i = i and own = own] step(2) [where i = i and own = own] by (auto split: option.splits)
  qed (simp add: ws_def)
  have m': "ws_tabs (workspaceOrEmpty m' (xt_workspace c))
      = ws_tabs (workspaceOrEmpty (cp_model (closeProgressOf own m c)) (xt_workspace c))"
    and r: "rs_closed r = Some (cp_closed (closeProgressOf own m c))"
      "rs_refused r = Some (cp_refused (closeProgressOf own m c))"
    using assms(2) by (auto simp: closeTabs_def recordClosedTerminalTabs_def Let_def split: if_splits)
  show "rs_closed r = Some (filter (\<lambda>i. closeRefusal c ws i = None) (xt_tabIds c))"
    and "rs_refused r = Some (concat (map (\<lambda>i. case closeRefusal c ws i of
           None \<Rightarrow> [] | Some why \<Rightarrow> [(i, why)]) (xt_tabIds c)))"
    using r loop by (simp_all add: closeProgressOf_def)
  show "ws_tabs (workspaceOrEmpty m' (xt_workspace c))
      = filter (\<lambda>t. tb_id t \<notin> set (xt_tabIds c) \<or> closeRefusal c ws (tb_id t) \<noteq> None) (ws_tabs ws)"
    unfolding m' using loop [of "xt_tabIds c"] by (auto simp: closeProgressOf_def intro!: filter_cong)
qed

section \<open>The title of a new terminal\<close>

definition defaultTitles :: "layoutTab list \<Rightarrow> string list" where
  "defaultTitles tabs = concat (map (\<lambda>t. case tb_body t of
     TerminalBody c _ \<Rightarrow> [orElse (tc_defaultTitle c) []] | ContentBody _ \<Rightarrow> []) tabs)"

text \<open>No terminal has the title, and every lower ordinal is taken.\<close>

lemma nextTerminalTitle_least:
  "\<exists>k\<ge>1. nextTerminalTitle tabs = terminalTitle k \<and> terminalTitle k \<notin> set (defaultTitles tabs)
     \<and> (\<forall>j. 1 \<le> j \<and> j < k \<longrightarrow> (\<exists>t\<in>set (defaultTitles tabs). terminalOrdinal t = Some j))"
proof -
  from getNextTerminalOrdinal_least [of "defaultTitles tabs"] obtain k where
    k: "getNextTerminalOrdinal (defaultTitles tabs) = Some k" "1 \<le> k"
      "\<forall>t\<in>set (defaultTitles tabs). terminalOrdinal t \<noteq> Some k"
      "\<forall>j. 1 \<le> j \<and> j < k \<longrightarrow> (\<exists>t\<in>set (defaultTitles tabs). terminalOrdinal t = Some j)" by blast
  have "nextTerminalTitle tabs = terminalTitle k"
    using k(1) by (simp add: nextTerminalTitle_def defaultTitles_def)
  moreover have "terminalTitle k \<notin> set (defaultTitles tabs)"
    using k(3) terminalOrdinal_terminalTitle by blast
  ultimately show ?thesis using k by blast
qed

section \<open>Moving a tab\<close>

text \<open>The moved tab lands at its place in the target group; every other tab keeps its group and order.\<close>

lemma ws_groups_withMovedPin [simp]: "ws_groups (withMovedPin ws c) = ws_groups ws"
  by (simp add: withMovedPin_def split: option.split)

text \<open>The groups a move leaves, in one shape for both of its cases.\<close>

definition movedGroup :: "string \<Rightarrow> string \<Rightarrow> nat \<Rightarrow> layoutGroup \<Rightarrow> layoutGroup" where
  "movedGroup t to n g =
     (let rest = filter (\<lambda>i. i \<noteq> t) (gr_tabOrder g)
      in g\<lparr>gr_tabOrder := (if gr_id g = to then take n rest @ t # drop n rest else rest)\<rparr>)"

lemma movedGroup_id [simp]: "gr_id (movedGroup t to n g) = gr_id g"
  by (simp add: movedGroup_def Let_def)

text \<open>The place a move names: an anchor, the front, or a clamped index.\<close>

definition movePlace :: "moveTabCommand \<Rightarrow> string list \<Rightarrow> nat \<Rightarrow> bool" where
  "movePlace c rest n \<longleftrightarrow>
     (case mt_afterTabId c of
        Null \<Rightarrow> n = 0
      | Absent \<Rightarrow> int n = max 0 (min (mt_index c) (int (length rest)))
      | Value a \<Rightarrow>
          if a \<in> set rest then 0 < n \<and> n \<le> length rest \<and> rest ! (n - 1) = a
          else int n = max 0 (min (mt_index c) (int (length rest))))"

lemma movePlace_index: "movePlace c rest (clampIndex (anchoredMoveIndex rest c) (length rest))"
proof -
  have "movePlace c rest (clampIndex (anchoredMoveIndex rest c) (length rest))"
    if v: "mt_afterTabId c = Value a" for a
  proof (cases "findIndex (\<lambda>i. i = a) rest")
    case None
    then have "a \<notin> set rest" by (auto simp: findIndex_None)
    with v None show ?thesis by (simp add: movePlace_def anchoredMoveIndex_def clampIndex_def)
  next
    case (Some k)
    from findIndex_Some [OF this] have k: "k < length rest" "rest ! k = a" by simp_all
    then have "clampIndex (int k + 1) (length rest) = Suc k" by (simp add: clampIndex_def)
    moreover have "a \<in> set rest" using k nth_mem by fastforce
    ultimately show ?thesis using v Some k by (simp add: movePlace_def anchoredMoveIndex_def)
  qed
  then show ?thesis
    by (cases "mt_afterTabId c") (auto simp: movePlace_def anchoredMoveIndex_def clampIndex_def)
qed

lemma moveTab_exact:
  assumes wf: "wf_layout m" and ok: "moveTab own m c = Applied m' r e oc"
  defines "ws \<equiv> workspaceOrEmpty m (mt_workspace c)" and "ws' \<equiv> workspaceOrEmpty m' (mt_workspace c)"
  obtains u n where "findGroup (ws_groups ws) (mt_toGroupId c) = Some u"
    "movePlace c (filter (\<lambda>i. i \<noteq> mt_tabId c) (gr_tabOrder u)) n"
    "ws_groups ws' = filter (\<lambda>g. gr_tabOrder g \<noteq> []) (map (movedGroup (mt_tabId c) (mt_toGroupId c) n) (ws_groups ws))"
    "tabIds ws' = tabIds ws" "ws_leaves ws' = ws_leaves ws"
    "\<And>k. k \<noteq> mt_workspace c \<Longrightarrow> workspaceAt m' k = workspaceAt m k"
proof -
  let ?t = "mt_tabId c" and ?to = "mt_toGroupId c"
  have w: "wf_workspace {} ws" unfolding ws_def by (rule wf_workspaceOrEmpty [OF wf])
  then have gs: "wf_groups {} (tabIds ws) (ws_groups ws)" by (simp add: wf_workspace_def)
  then have ids: "distinct (groupIds ws)" and once: "distinct (orderedIds ws)"
    and ne: "\<And>g. g \<in> set (ws_groups ws) \<Longrightarrow> gr_tabOrder g \<noteq> []" by (auto simp: wf_groups_def list_all_iff)
  note body = ok [unfolded moveTab_def Let_def, folded ws_def]
  from body obtain s where s: "sourceGroupOf ws ?t = Some s" by (cases "sourceGroupOf ws ?t") simp_all
  from body s obtain u where u: "findGroup (ws_groups ws) ?to = Some u"
    by (cases "findGroup (ws_groups ws) ?to") simp_all
  have src: "findGroupOfTab (ws_groups ws) ?t = Some s" using sourceGroupOf_Some [OF s] by simp
  then have smem: "s \<in> set (ws_groups ws)" "?t \<in> set (gr_tabOrder s)" by (auto dest: findGroupOfTab_Some)
  have umem: "u \<in> set (ws_groups ws)" "gr_id u = ?to" using u by (auto dest: findGroup_Some)
  have uniq: "g = h" if "g \<in> set (ws_groups ws)" "h \<in> set (ws_groups ws)" "gr_id g = gr_id h" for g h
    using ids that by (metis find_key_unique option.inject)
  have only: "?t \<notin> set (gr_tabOrder g)" if "g \<in> set (ws_groups ws)" "gr_id g \<noteq> gr_id s" for g
  proof -
    from smem(1) obtain as bs where "ws_groups ws = as @ s # bs" by (blast dest: split_list)
    with once that smem(2) show ?thesis by auto
  qed
  let ?rest = "filter (\<lambda>i. i \<noteq> ?t) (gr_tabOrder u)"
  let ?n = "clampIndex (anchoredMoveIndex ?rest c) (length ?rest)"
  let ?moved = "movedGroup ?t ?to ?n"
  let ?place = "placeTabId ?t (anchoredMoveIndex ?rest c)"
  have "ws_groups ws' = filter (\<lambda>g. gr_tabOrder g \<noteq> []) (map ?moved (ws_groups ws))
      \<and> (\<exists>v. ws_tabs v = ws_tabs ws \<and> ws_leaves v = ws_leaves ws \<and> m' = withWorkspace m (mt_workspace c) (withMovedPin v c))"
  proof (cases "gr_id s = ?to")
    case True
    then have su: "s = u" using uniq smem umem by metis
    let ?gs = "map (\<lambda>g. if gr_id g = gr_id u then g\<lparr>gr_tabOrder := insertAt ?n ?t ?rest\<rparr> else g) (ws_groups ws)"
    have m': "m' = withWorkspace m (mt_workspace c) (withMovedPin (ws\<lparr>ws_groups := ?gs\<rparr>) c)"
      using body s u umem(2) unfolding su by auto
    have eq: "(if gr_id g = gr_id u then g\<lparr>gr_tabOrder := insertAt ?n ?t ?rest\<rparr> else g) = ?moved g"
      "gr_tabOrder (?moved g) \<noteq> []" if "g \<in> set (ws_groups ws)" for g
      using uniq [OF that umem(1)] umem(2) only [OF that] ne [OF that] su
      by (auto simp: movedGroup_def Let_def insertAt_def filter_neq_absent)
    have "?gs = map ?moved (ws_groups ws)" using eq(1) by (rule map_cong [OF refl])
    moreover have "filter (\<lambda>g. gr_tabOrder g \<noteq> []) (map ?moved (ws_groups ws)) = map ?moved (ws_groups ws)"
      using eq(2) by (auto simp: filter_id_conv)
    ultimately show ?thesis unfolding ws'_def m' by (intro conjI exI [of _ "ws\<lparr>ws_groups := ?gs\<rparr>"]) simp_all
  next
    case False
    obtain gs layout where
      built: "buildHeadlessTabGroupMove (ws_groups ws) (ws_groupLayout ws) ?t ?to (Some (anchoredMoveIndex ?rest c)) = Some (gs, layout)"
      and m': "m' = withWorkspace m (mt_workspace c) (withMovedPin (ws\<lparr>ws_groups := gs, ws_groupLayout := layout\<rparr>) c)"
      using body s u False by (auto split: option.splits if_splits)
    have eq: "(if gr_id g = gr_id s then dropTab ?t g
        else if gr_id g = ?to then g\<lparr>gr_tabOrder := ?place (gr_tabOrder g)\<rparr> else g) = ?moved g"
      if "g \<in> set (ws_groups ws)" for g
      using uniq [OF that umem(1)] umem(2) only [OF that] False
      by (auto simp: movedGroup_def dropTab_def placeTabId_def insertAt_def Let_def filter_neq_absent)
    have "gs = filter (\<lambda>g. gr_tabOrder g \<noteq> []) (map (\<lambda>g. if gr_id g = gr_id s then dropTab ?t g
        else if gr_id g = ?to then g\<lparr>gr_tabOrder := ?place (gr_tabOrder g)\<rparr> else g) (ws_groups ws))"
      using built by (auto simp: buildHeadlessTabGroupMove_def src u False Let_def cong: if_cong)
    also have "\<dots> = filter (\<lambda>g. gr_tabOrder g \<noteq> []) (map ?moved (ws_groups ws))"
      using eq by (intro arg_cong [where f = "filter _"] map_cong [OF refl])
    finally have "gs = filter (\<lambda>g. gr_tabOrder g \<noteq> []) (map ?moved (ws_groups ws))" .
    then show ?thesis unfolding ws'_def m'
      by (intro conjI exI [of _ "ws\<lparr>ws_groups := gs, ws_groupLayout := layout\<rparr>"]) simp_all
  qed
  then obtain v where groups: "ws_groups ws' = filter (\<lambda>g. gr_tabOrder g \<noteq> []) (map ?moved (ws_groups ws))"
    and v: "ws_tabs v = ws_tabs ws" "ws_leaves v = ws_leaves ws"
      "m' = withWorkspace m (mt_workspace c) (withMovedPin v c)" by blast
  show thesis
  proof (rule that [OF u movePlace_index groups])
    show "tabIds ws' = tabIds ws" "ws_leaves ws' = ws_leaves ws"
      using v by (simp_all add: ws'_def ws_leaves_withMovedPin)
    show "workspaceAt m' k = workspaceAt m k" if "k \<noteq> mt_workspace c" for k using v(3) that by simp
  qed
qed

section \<open>Binding and unbinding\<close>

text \<open>A started terminal shows in its pane and in no other.\<close>

lemma processStarted_effect:
  assumes ok: "processStarted m t = Applied m' r e oc"
  defines "binding \<equiv> \<lparr>bd_ptyId = Some (ps_ptyId t), bd_incarnationId = ps_incarnationId t\<rparr>"
  shows "\<exists>tab l. locatePane (workspaceOrEmpty m (ps_workspace t)) (ps_paneKey t) = Some (tab, l)
      \<and> ptyAt (workspaceOrEmpty m' (ps_workspace t)) l = Some (ps_ptyId t)
      \<and> (\<forall>k w l' leaf. workspaceAt m' k = Some w \<and> leafAt w l' = Some leaf \<and> l' \<noteq> l
           \<longrightarrow> \<not> isSameTerminal (bindingOfLeaf leaf) binding)"
proof -
  let ?ws = "workspaceOrEmpty m (ps_workspace t)"
  from ok obtain tab l where loc: "locatePane ?ws (ps_paneKey t) = Some (tab, l)"
    by (auto simp: processStarted_def Let_def split: option.splits)
  let ?bound = "(leafOr ?ws l)\<lparr>lf_ptyId := Some (ps_ptyId t)\<rparr>"
  let ?leaf = "case ps_incarnationId t of None \<Rightarrow> ?bound | Some i \<Rightarrow> ?bound\<lparr>lf_incarnationId := Some i\<rparr>"
  have free: "\<not> boundElsewhere m l binding"
    using ok loc unfolding binding_def processStarted_def by (auto simp: Let_def split: if_splits)
  have m': "m' = withWorkspace m (ps_workspace t) (setLeaf ?ws l ?leaf)"
    using ok loc unfolding processStarted_def by (auto simp: Let_def split: if_splits)
  have leaf: "lf_ptyId ?leaf = Some (ps_ptyId t)" by (simp split: option.split)
  have present: "workspaceAt m (ps_workspace t) = Some ?ws" by (rule locatePane_present(1) [OF loc])
  have "?leaf \<noteq> emptyLeaf" using leaf by (auto simp: emptyLeaf_def)
  then have "ptyAt (workspaceOrEmpty m' (ps_workspace t)) l = Some (ps_ptyId t)"
    using leaf by (simp add: m' ptyAt_def)
  moreover have "\<not> isSameTerminal (bindingOfLeaf lf) binding"
    if w: "workspaceAt m' k = Some w" "leafAt w l' = Some lf" "l' \<noteq> l" for k w l' lf
  proof -
    obtain v where v: "workspaceAt m k = Some v" "leafAt v l' = Some lf"
    proof (cases "k = ps_workspace t")
      case True
      then have "w = setLeaf ?ws l ?leaf" using w(1) by (simp add: m')
      then have "leafAt ?ws l' = Some lf" using w(2,3) by simp
      with present True show ?thesis using that by blast
    next
      case False
      then show ?thesis using w that by (simp add: m')
    qed
    from v(2) have "(l', lf) \<in> set (orElse (ws_leaves v) [])"
      by (cases "ws_leaves v") (auto dest: map_of_SomeD)
    with free map_of_SomeD [OF v(1)] w(3) show ?thesis
      by (force simp: boundElsewhere_def list_ex_iff)
  qed
  ultimately show ?thesis using loc by blast
qed

text \<open>A lost SSH lease unbinds exactly the panes bound to its terminals.\<close>

lemma unbindLost_ptyAt:
  assumes "distinct (keysOf (ws_leaves ws))"
  shows "ptyAt (unbindLost ptyIds ws) l
    = (case ptyAt ws l of None \<Rightarrow> None | Some p \<Rightarrow> if p \<in> set ptyIds then None else Some p)"
proof -
  let ?step = "\<lambda>updated (leafId, leaf). case lf_ptyId leaf of None \<Rightarrow> updated
      | Some p \<Rightarrow> if p \<in> set ptyIds then setLeaf updated leafId (leaf\<lparr>lf_ptyId := None\<rparr>) else updated"
  have loop: "ptyAt (foldl ?step v es) l = (case Option.bind (map_of es l) lf_ptyId of
      None \<Rightarrow> ptyAt v l | Some p \<Rightarrow> if p \<in> set ptyIds then None else ptyAt v l)"
    if "distinct (map fst es)" for es v
    using that
  proof (induction es arbitrary: v)
    case (Cons e es)
    obtain k leaf where e: "e = (k, leaf)" by force
    have "map_of es k = None" using Cons.prems e by (simp add: map_of_eq_None_iff)
    moreover have "ptyAt (setLeaf v k (leaf\<lparr>lf_ptyId := None\<rparr>)) l = (if l = k then None else ptyAt v l)"
      by (simp add: ptyAt_def)
    ultimately show ?case
      using Cons by (auto simp: e split: option.splits)
  qed simp
  have "ptyAt ws l = Option.bind (map_of (orElse (ws_leaves ws) []) l) lf_ptyId"
    by (cases "ws_leaves ws") (simp_all add: ptyAt_def)
  moreover have "distinct (map fst (orElse (ws_leaves ws) []))"
    using assms by (cases "ws_leaves ws") simp_all
  ultimately show ?thesis by (auto simp: unbindLost_def loop split: option.split)
qed

lemma sshLeaseTerminated_effect:
  assumes wf: "wf_model E m" and ok: "sshLeaseTerminated m ptyIds = Applied m' r e oc"
  shows "ptyAt (workspaceOrEmpty m' k) l = (case ptyAt (workspaceOrEmpty m k) l of
      None \<Rightarrow> None | Some p \<Rightarrow> if p \<in> set ptyIds then None else Some p)"
    and "ws_tabs (workspaceOrEmpty m' k) = ws_tabs (workspaceOrEmpty m k)"
proof -
  let ?step = "\<lambda>next (key, ws). let updated = unbindLost ptyIds ws
      in if updated = ws then next else withWorkspace next key updated"
  have keys: "distinct (map fst (md_workspaces m))" using wf by (simp add: wf_model_def)
  have loop: "workspaceAt (foldl ?step n es) k = (case map_of es k of
      None \<Rightarrow> workspaceAt n k | Some w \<Rightarrow> Some (unbindLost ptyIds w))"
    if "distinct (map fst es)" "\<And>k w. (k, w) \<in> set es \<Longrightarrow> workspaceAt n k = Some w" for n es
    using that
  proof (induction es arbitrary: n)
    case (Cons e es)
    obtain key w where e: "e = (key, w)" by force
    have new: "map_of es key = None" using Cons.prems e by (simp add: map_of_eq_None_iff)
    have at_key: "workspaceAt (?step n e) k' = (if k' = key then Some (unbindLost ptyIds w) else workspaceAt n k')" for k'
      using Cons.prems(2) [of key w] by (simp add: e Let_def)
    have "workspaceAt (?step n e) k' = Some w'" if "(k', w') \<in> set es" for k' w'
    proof -
      have "k' \<noteq> key" using Cons.prems(1) e that by force
      with Cons.prems(2) that show ?thesis by (simp add: e Let_def)
    qed
    with Cons.IH [of "?step n e"] Cons.prems(1) e
    have "workspaceAt (foldl ?step (?step n e) es) k = (case map_of es k of
        None \<Rightarrow> workspaceAt (?step n e) k | Some w \<Rightarrow> Some (unbindLost ptyIds w))" by simp
    with at_key [of k] new show ?case by (auto simp: e split: option.splits)
  qed simp
  have at_k: "workspaceAt m' k = map_option (unbindLost ptyIds) (workspaceAt m k)"
    using ok loop [OF keys, of m] keys
    by (auto simp: sshLeaseTerminated_def map_of_is_SomeI split: option.split)
  have each: "wf_workspace (E k) w" if "workspaceAt m k = Some w" for w
    by (rule wf_model_lookup [OF wf that])
  then have dist: "distinct (keysOf (ws_leaves w))" if "workspaceAt m k = Some w" for w
    using that by (auto simp: wf_workspace_def wf_leaves_def)
  show "ptyAt (workspaceOrEmpty m' k) l = (case ptyAt (workspaceOrEmpty m k) l of
      None \<Rightarrow> None | Some p \<Rightarrow> if p \<in> set ptyIds then None else Some p)"
  proof (cases "workspaceAt m k")
    case None
    then show ?thesis using at_k by (simp add: ptyAt_def emptyWorkspace_def)
  next
    case (Some w)
    then show ?thesis using at_k by (simp add: unbindLost_ptyAt [OF dist])
  qed
  show "ws_tabs (workspaceOrEmpty m' k) = ws_tabs (workspaceOrEmpty m k)"
    using at_k wf_unbindLost(2) [OF each] by (cases "workspaceAt m k") simp_all
qed

section \<open>Retiring a pane\<close>

lemma Applied_parts:
  assumes "Applied n r' e' oc' = Applied m r e oc"
  shows "n = m" and "r' = r" and "e' = e"
  using assms by simp_all

lemma retireTerminalPane_panes:
  assumes wf: "wf_model E m" and ws: "workspaceAt m (lc_workspaceKey loc) = Some ws"
    and t: "lc_tab loc \<in> set (ws_tabs ws)" "isTerminal (lc_tab loc)" and l: "l \<in> set (leafIdsOf (lc_tab loc))"
  shows "set (paneIds (workspaceOrEmpty (retireTerminalPane m loc l) k))
    = set (paneIds (workspaceOrEmpty m k)) - {l}"
proof (cases "k = lc_workspaceKey loc")
  case True
  obtain c p where body: "tb_body (lc_tab loc) = TerminalBody c p" using t(2) by (rule isTerminalE)
  show ?thesis
    using wf_retirePaneIn(2) [OF wf_model_lookup [OF wf ws] t(1) body l] True ws
    by (simp add: retireTerminalPane_def Let_def workspaceOrEmpty_def)
next
  case False
  have "l \<in> set (paneIds ws)" using t(1) l by (auto simp: set_paneIds)
  moreover have "set (paneIds ws) \<inter> set (paneIds w) = {}" if "workspaceAt m k = Some w" for w
    using wf map_of_SomeD [OF ws] map_of_SomeD [OF that] False
    unfolding wf_model_def apart_def by fastforce
  ultimately have "l \<notin> set (paneIds (workspaceOrEmpty m k))"
    by (cases "workspaceAt m k") (auto simp: workspaceOrEmpty_def)
  then show ?thesis
    using False by (simp add: retireTerminalPane_def Let_def workspaceOrEmpty_withWorkspace)
qed

text \<open>A close takes the one pane, stops its terminal, and says whether its tab went with it.\<close>

lemma closePane_effect:
  assumes wf: "wf_model E m" and ok: "closePane m key tabId leafId user = Applied m' r e oc"
    and there: "rs_alreadyClosed r = None"
  shows "set (paneIds (workspaceOrEmpty m' k)) = set (paneIds (workspaceOrEmpty m k)) - {leafId}"
    and "fx_stopPtyIds e = (case ptyAt (workspaceOrEmpty m key) leafId of
           Some p \<Rightarrow> if p \<noteq> [] then [p] else [] | None \<Rightarrow> [])"
    and "rs_tabClosed r = Some (findTab (workspaceOrEmpty m' key) tabId = None)"
proof -
  let ?ws = "workspaceOrEmpty m key"
  from ok there obtain tab where tab: "findTerminal ?ws tabId = Some tab"
    by (cases "findTerminal ?ws tabId") (auto simp: closePane_def Let_def)
  then have t: "tab \<in> set (ws_tabs ?ws)" "isTerminal tab" "tb_id tab = tabId"
    by (auto dest: findTerminal_Some simp: isTerminal_def)
  obtain c p where body: "tb_body tab = TerminalBody c p" using t(2) by (rule isTerminalE)
  let ?loc = "\<lparr>lc_workspaceKey = key, lc_tab = tab\<rparr>"
  have ids: "layoutContainsLeafId (rootOf tab) leafId \<longleftrightarrow> leafId \<in> set (leafIdsOf tab)"
    using body by (simp add: rootOf_def panesOf_def)
  have l: "leafId \<in> set (leafIdsOf tab)"
  proof (rule ccontr)
    assume "leafId \<notin> set (leafIdsOf tab)"
    with ok tab ids have "r = noResult\<lparr>rs_alreadyClosed := Some True\<rparr>"
      by (simp add: closePane_def Let_def)
    with there show False by simp
  qed
  let ?single = "case rootOf tab of Some (Leaf _) \<Rightarrow> True | _ \<Rightarrow> False"
  have contains: "layoutContainsLeafId (rootOf tab) leafId" using ids l by blast
  note body = ok [unfolded closePane_def Let_def tab option.case]
  have "\<not> (user \<and> ?single)"
  proof
    assume "user \<and> ?single"
    with body contains show False by (simp only: if_True if_False not_not simp_thms applied.distinct)
  qed
  with body contains have applied: "Applied (retireTerminalPane m ?loc leafId)
      (noResult\<lparr>rs_tabClosed := Some (findTab (workspaceOrEmpty (retireTerminalPane m ?loc leafId) key) (tb_id tab) = None)\<rparr>)
      (noEffects\<lparr>fx_stopPtyIds := (if truthy (ptyAt ?ws leafId) then [the (ptyAt ?ws leafId)] else [])\<rparr>) []
    = Applied m' r e oc"
    by (simp only: if_True if_False not_not simp_thms)
  note parts = Applied_parts [OF applied]
  note m' = parts(1) [symmetric]
  have rest: "fx_stopPtyIds e = (if truthy (ptyAt ?ws leafId) then [the (ptyAt ?ws leafId)] else [])"
      "rs_tabClosed r = Some (findTab (workspaceOrEmpty m' key) tabId = None)"
    by (simp_all add: parts(2,3) [symmetric] m' t(3))
  have present: "workspaceAt m (lc_workspaceKey ?loc) = Some ?ws"
    unfolding terminalTabLocation.simps by (rule present_tab [OF t(1)])
  show "set (paneIds (workspaceOrEmpty m' k)) = set (paneIds (workspaceOrEmpty m k)) - {leafId}"
    unfolding m' by (rule retireTerminalPane_panes [OF wf present]) (use t l in simp_all)
  show "fx_stopPtyIds e = (case ptyAt ?ws leafId of Some p \<Rightarrow> if p \<noteq> [] then [p] else [] | None \<Rightarrow> [])"
    using rest(1) by (auto split: option.split)
  show "rs_tabClosed r = Some (findTab (workspaceOrEmpty m' key) tabId = None)" by (rule rest(2))
qed

text \<open>The pane a process exit takes, when it takes one.\<close>

definition exitRetires :: "workspaceLayoutModel \<Rightarrow> exitedSurface \<Rightarrow> processExitFacts \<Rightarrow> bool" where
  "exitRetires m surface facts \<longleftrightarrow>
     (case locateExitedSurface m surface of
        LocatedAt loc \<Rightarrow> exitVerdict facts (length (leafIdsOf (lc_tab loc))) = Retire
      | _ \<Rightarrow> False)"

lemma paneIds_bookkeeping [simp]:
  "paneIds (workspaceOrEmpty (updateLegacyPersistence same before m retired) k) = paneIds (workspaceOrEmpty m k)"
  by (simp add: workspaceOrEmpty_def)

lemma processExit_panes:
  assumes wf: "wf_model E m" and ok: "applyProcessExit same m surface facts = Applied m' r e oc"
  shows "set (paneIds (workspaceOrEmpty m' k)) = set (paneIds (workspaceOrEmpty m k))
    - (if exitRetires m surface facts then {es_leafId surface} else {})"
proof (cases "locateExitedSurface m surface")
  case Gone
  with ok show ?thesis by (auto simp: applyProcessExit_def exitRetires_def split: if_splits)
next
  case Replaced
  with ok show ?thesis by (auto simp: applyProcessExit_def exitRetires_def)
next
  case (LocatedAt loc)
  note at = locateExitedSurface_at [OF LocatedAt wf]
  then obtain ws where ws: "workspaceAt m (lc_workspaceKey loc) = Some ws" "lc_tab loc \<in> set (ws_tabs ws)"
    "isTerminal (lc_tab loc)" "es_leafId surface \<in> set (leafIdsOf (lc_tab loc))" by blast
  show ?thesis
  proof (cases "exitVerdict facts (length (leafIdsOf (lc_tab loc)))")
    case Retire
    then have "m' = updateLegacyPersistence same m (retireTerminalPane m loc (es_leafId surface)) [es_worktreeId surface]"
      using ok LocatedAt by (auto simp: applyProcessExit_def Let_def)
    then show ?thesis
      using retireTerminalPane_panes [OF wf ws] Retire LocatedAt by (simp add: exitRetires_def)
  next
    case Keep
    then show ?thesis using ok LocatedAt by (auto simp: applyProcessExit_def Let_def exitRetires_def)
  next
    case Unbind
    then show ?thesis
      using ok LocatedAt
      by (cases "k = lc_workspaceKey loc") (auto simp: applyProcessExit_def Let_def exitRetires_def
          workspaceOrEmpty_withWorkspace)
  qed
qed

section \<open>Forced closes\<close>

text \<open>Closing a tab leaves the terminals of the other tabs bound.\<close>

lemma boundPtyIds_leaves:
  "(\<And>l. l \<in> set (leafIdsOf t) \<Longrightarrow> leafAt v l = leafAt w l) \<Longrightarrow> boundPtyIds v t = boundPtyIds w t"
  by (auto simp: boundPtyIds_def ptyAt_def intro!: arg_cong [where f = concat])

lemma boundPtyIds_closeTabIn:
  assumes panes: "distinct (paneIds ws)" and t: "t \<in> set (ws_tabs ws)" and u: "u \<in> set (ws_tabs ws)"
    and ne: "tb_id u \<noteq> tb_id t"
  shows "boundPtyIds (closeTabIn own ws t) u = boundPtyIds ws u"
proof (rule boundPtyIds_leaves)
  fix l assume l: "l \<in> set (leafIdsOf u)"
  have "l \<notin> set (leafIdsOf t)"
  proof
    assume lt: "l \<in> set (leafIdsOf t)"
    from t obtain as bs where ws: "ws_tabs ws = as @ t # bs" by (blast dest: split_list)
    have "u \<in> set as \<or> u \<in> set bs" using u ne unfolding ws by auto
    with panes l lt show False unfolding paneIds_def ws by auto
  qed
  then show "leafAt (closeTabIn own ws t) l = leafAt ws l"
    by (auto simp: closeTabIn_simps leafAt_filterRecord)
qed

lemma forced_closeStep:
  fixes c m
  defines "ws \<equiv> workspaceOrEmpty m (xt_workspace c)"
  assumes force: "xt_force c" and wf: "wf_model E (cp_model p)"
    and tabs: "ws_tabs (workspaceOrEmpty (cp_model p) (xt_workspace c)) = filter (\<lambda>t. tb_id t \<notin> set (cp_closed p)) (ws_tabs ws)"
    and bound: "\<And>t. t \<in> set (ws_tabs ws) \<Longrightarrow> tb_id t \<notin> set (cp_closed p) \<Longrightarrow>
      boundPtyIds (workspaceOrEmpty (cp_model p) (xt_workspace c)) t = boundPtyIds ws t"
    and ids: "distinct (tabIds ws)"
  shows "set (cp_stopPtyIds (closeStep own c p i)) = set (cp_stopPtyIds p)
      \<union> (if i \<in> set (cp_closed p) then {} else \<Union>t\<in>{t\<in>set (ws_tabs ws). tb_id t = i}. set (boundPtyIds ws t))"
    and "t \<in> set (ws_tabs ws) \<Longrightarrow> tb_id t \<notin> set (cp_closed p) \<Longrightarrow> tb_id t \<noteq> i \<Longrightarrow>
      boundPtyIds (workspaceOrEmpty (cp_model (closeStep own c p i)) (xt_workspace c)) t = boundPtyIds ws t"
    and "workspaceAt (cp_model (closeStep own c p i)) k = (if k = xt_workspace c \<and> findTab (workspaceOrEmpty (cp_model p) k) i \<noteq> None
      then Some (workspaceOrEmpty (cp_model (closeStep own c p i)) k) else workspaceAt (cp_model p) k)"
proof -
  let ?now = "workspaceOrEmpty (cp_model p) (xt_workspace c)"
  have same: "t = u" if "t \<in> set (ws_tabs ws)" "u \<in> set (ws_tabs ws)" "tb_id t = tb_id u" for t u
    using ids that by (metis find_key_unique option.inject)
  show "set (cp_stopPtyIds (closeStep own c p i)) = set (cp_stopPtyIds p)
      \<union> (if i \<in> set (cp_closed p) then {} else \<Union>t\<in>{t\<in>set (ws_tabs ws). tb_id t = i}. set (boundPtyIds ws t))"
  proof (cases "findTab ?now i")
    case None
    then have "i \<in> set (cp_closed p) \<or> {t\<in>set (ws_tabs ws). tb_id t = i} = {}"
      unfolding findTab_None tabs by auto
    then show ?thesis using None by (auto simp: closeStep_def Let_def)
  next
    case (Some u)
    from findTab_Some [OF this] have u: "u \<in> set (ws_tabs ws)" "tb_id u = i" "i \<notin> set (cp_closed p)"
      unfolding tabs by auto
    then have "{t\<in>set (ws_tabs ws). tb_id t = i} = {u}" using same by auto
    then show ?thesis using Some u bound [OF u(1)] force by (simp add: closeStep_def Let_def)
  qed
  show "boundPtyIds (workspaceOrEmpty (cp_model (closeStep own c p i)) (xt_workspace c)) t = boundPtyIds ws t"
    if t: "t \<in> set (ws_tabs ws)" "tb_id t \<notin> set (cp_closed p)" "tb_id t \<noteq> i"
  proof (cases "findTab ?now i")
    case None
    then show ?thesis using bound [OF t(1,2)] by (simp add: closeStep_def Let_def)
  next
    case (Some u)
    from findTab_Some [OF this] have u: "u \<in> set (ws_tabs ?now)" "tb_id u = i" by simp_all
    have now: "distinct (paneIds ?now)" using wf_workspaceOrEmpty [OF wf] by (simp add: wf_workspace_def)
    have "t \<in> set (ws_tabs ?now)" using t by (simp add: tabs)
    from boundPtyIds_closeTabIn [OF now u(1) this] show ?thesis
      using Some u(2) t force bound [OF t(1,2)] by (simp add: closeStep_def closeTab_def Let_def)
  qed
  show "workspaceAt (cp_model (closeStep own c p i)) k = (if k = xt_workspace c \<and> findTab (workspaceOrEmpty (cp_model p) k) i \<noteq> None
      then Some (workspaceOrEmpty (cp_model (closeStep own c p i)) k) else workspaceAt (cp_model p) k)"
    using force by (auto simp: closeStep_def closeTab_def Let_def split: option.split)
qed

lemma forced_close_stops:
  fixes own m c now
  defines "ws \<equiv> workspaceOrEmpty m (xt_workspace c)"
  assumes force: "xt_force c" and wf: "wf_model E m" and ok: "closeTabs own m c now = Applied m' r e oc"
  shows "set (fx_stopPtyIds e) = (\<Union>t\<in>{t\<in>set (ws_tabs ws). tb_id t \<in> set (xt_tabIds c)}. set (boundPtyIds ws t))"
    and "k \<noteq> xt_workspace c \<Longrightarrow> workspaceAt m' k = workspaceAt m k"
proof -
  let ?start = "\<lparr>cp_model = m, cp_closed = [], cp_recorded = [], cp_refused = [], cp_stopPtyIds = []\<rparr>"
  have ids: "distinct (tabIds ws)"
    unfolding ws_def using wf_workspaceOrEmpty [OF wf] by (simp add: wf_workspace_def)
  have none: "closeRefusal c ws i = None" for i using force by (simp add: closeRefusal_def split: option.split)
  have loop: "let p = foldl (closeStep own c) ?start is in
      wf_model E (cp_model p) \<and> cp_closed p = is
      \<and> ws_tabs (workspaceOrEmpty (cp_model p) (xt_workspace c)) = filter (\<lambda>t. tb_id t \<notin> set is) (ws_tabs ws)
      \<and> (\<forall>t\<in>set (ws_tabs ws). tb_id t \<notin> set is \<longrightarrow>
           boundPtyIds (workspaceOrEmpty (cp_model p) (xt_workspace c)) t = boundPtyIds ws t)
      \<and> set (cp_stopPtyIds p) = (\<Union>t\<in>{t\<in>set (ws_tabs ws). tb_id t \<in> set is}. set (boundPtyIds ws t))
      \<and> (\<forall>k. k \<noteq> xt_workspace c \<longrightarrow> workspaceAt (cp_model p) k = workspaceAt m k)" for "is"
  proof (induction "is" rule: rev_induct)
    case Nil
    show ?case using wf by (simp add: ws_def)
  next
    case (snoc i "is")
    define p where "p = foldl (closeStep own c) ?start is"
    from snoc have p: "wf_model E (cp_model p)" "cp_closed p = is"
      "ws_tabs (workspaceOrEmpty (cp_model p) (xt_workspace c)) = filter (\<lambda>t. tb_id t \<notin> set is) (ws_tabs ws)"
      "\<And>t. t \<in> set (ws_tabs ws) \<Longrightarrow> tb_id t \<notin> set is \<Longrightarrow>
         boundPtyIds (workspaceOrEmpty (cp_model p) (xt_workspace c)) t = boundPtyIds ws t"
      "set (cp_stopPtyIds p) = (\<Union>t\<in>{t\<in>set (ws_tabs ws). tb_id t \<in> set is}. set (boundPtyIds ws t))"
      "\<And>k. k \<noteq> xt_workspace c \<Longrightarrow> workspaceAt (cp_model p) k = workspaceAt m k"
      unfolding p_def Let_def by blast+
    have closed: "\<forall>j\<in>set (cp_closed p). closeRefusal c ws j = None" by (simp add: none)
    note parts = closeStep_parts [where p = p and c = c and m = m and i = i and own = own, folded ws_def,
        unfolded p(2), OF p(3) closed [unfolded p(2)]]
    note step = forced_closeStep [where c = c and m = m and p = p and i = i and own = own, folded ws_def,
        unfolded p(2), OF force p(1) p(3) p(4) ids]
    have c1: "cp_closed (closeStep own c p i) = is @ [i]" using parts(1) p(2) by (simp add: none)
    have s1: "set (cp_stopPtyIds (closeStep own c p i))
        = (\<Union>t\<in>{t\<in>set (ws_tabs ws). tb_id t \<in> set (is @ [i])}. set (boundPtyIds ws t))"
      using step(1) p(5) by (auto split: if_splits)
    have k1: "workspaceAt (cp_model (closeStep own c p i)) k = workspaceAt m k" if "k \<noteq> xt_workspace c" for k
      using step(3) [of k] p(6) that by simp
    have run: "foldl (closeStep own c) ?start (is @ [i]) = closeStep own c p i" by (simp add: p_def)
    show ?case
      unfolding run Let_def
      by (intro conjI wf_closeStep [OF p(1)] c1 s1 parts(2) [unfolded c1]) (use step(2) k1 in auto)
  qed
  define p where "p = closeProgressOf own m c"
  have e: "fx_stopPtyIds e = cp_stopPtyIds p"
    and m': "k \<noteq> xt_workspace c \<Longrightarrow> workspaceAt m' k = workspaceAt (cp_model p) k" for k
    using ok by (auto simp: closeTabs_def recordClosedTerminalTabs_def p_def Let_def split: if_splits)
  note all = loop [of "xt_tabIds c", folded closeProgressOf_def p_def, unfolded Let_def]
  show "set (fx_stopPtyIds e) = (\<Union>t\<in>{t\<in>set (ws_tabs ws). tb_id t \<in> set (xt_tabIds c)}. set (boundPtyIds ws t))"
    using all e by simp
  show "workspaceAt m' k = workspaceAt m k" if "k \<noteq> xt_workspace c" using all m' [OF that] that by simp
qed

text \<open>A forced close is always a step, and it closes what it names.\<close>

lemma forced_close_step:
  assumes m: "reachable own host m" and force: "xt_force c" and ws: "workspaceAt m (xt_workspace c) = Some ws"
  obtains m' r e oc where "applyLayoutCommand own m (CloseTabs c) cx = Applied m' r e oc" "reachable own host m'"
    "rs_closed r = Some (xt_tabIds c)" "rs_refused r = Some []"
    "ws_tabs (workspaceOrEmpty m' (xt_workspace c)) = filter (\<lambda>t. tb_id t \<notin> set (xt_tabIds c)) (ws_tabs ws)"
    "set (fx_stopPtyIds e) = (\<Union>t\<in>{t\<in>set (ws_tabs ws). tb_id t \<in> set (xt_tabIds c)}. set (boundPtyIds ws t))"
    "\<And>k. k \<noteq> xt_workspace c \<Longrightarrow> workspaceAt m' k = workspaceAt m k"
proof -
  obtain n r e oc where n: "closeTabs own m c (Some (cx_now cx)) = Applied n r e oc"
    by (simp add: closeTabs_def Let_def)
  have none: "closeRefusal c ws i = None" for i using force by (simp add: closeRefusal_def split: option.split)
  note effect = closeTabs_effect [OF n, unfolded workspaceOrEmpty_simps(1) [OF ws]]
  note stops = forced_close_stops [OF force reachable_wf [OF m] n, unfolded workspaceOrEmpty_simps(1) [OF ws]]
  have "applyCommand own m (CloseTabs c) cx = Applied n r e oc" using ws n by (simp add: applyCommand_def)
  then obtain m' where m': "applyLayoutCommand own m (CloseTabs c) cx = Applied m' r e oc"
      "md_workspaces m' = md_workspaces n"
    by (simp add: applyLayoutCommand_def Let_def)
  show thesis
  proof (rule that [OF m'(1)])
    show "reachable own host m'" by (rule reachable.step [OF m layoutStep.commanded [OF m'(1)]]) simp
    show "rs_closed r = Some (xt_tabIds c)" using effect(1) by (simp add: none)
    show "rs_refused r = Some []" using effect(2) by (simp add: none)
    show "ws_tabs (workspaceOrEmpty m' (xt_workspace c)) = filter (\<lambda>t. tb_id t \<notin> set (xt_tabIds c)) (ws_tabs ws)"
      using effect(3) by (simp add: none workspaceOrEmpty_def m'(2))
    show "workspaceAt m' k = workspaceAt m k" if "k \<noteq> xt_workspace c" for k
      using stops(2) [OF that] by (simp add: m'(2))
  qed (rule stops(1))
qed

end
