(* ===== verification/Absent_Workspace.thy ===== *)
theory Absent_Workspace
  imports Command_Effects
begin

text \<open>
  Commands on a workspace the host does not have: what the dispatcher answers, and the one tab in
  one group that a creating command makes the workspace with.
\<close>

section \<open>The first tab of a workspace\<close>

definition noTabs :: "workspaceLayout \<Rightarrow> bool" where
  "noTabs ws \<longleftrightarrow> ws_tabs ws = [] \<and> (ws_groups ws = [] \<or> (\<exists>g. ws_groups ws = [\<lparr>gr_id = g, gr_tabOrder = []\<rparr>]))"

text \<open>The workspace shows exactly the tab, in its only group.\<close>

definition showsOnly :: "workspaceLayout \<Rightarrow> string \<Rightarrow> bool" where
  "showsOnly ws i \<longleftrightarrow> tabIds ws = [i] \<and> map gr_tabOrder (ws_groups ws) = [[i]]"

lemma placedOrder_first: "placedOrder ws tab pl \<lparr>gr_id = g, gr_tabOrder = []\<rparr> = [tb_id tab]"
proof -
  let ?o = "placedOrder ws tab pl \<lparr>gr_id = g, gr_tabOrder = []\<rparr>"
  have "set ?o = {tb_id tab}" "distinct ?o" using placedOrder_set [of "\<lparr>gr_id = g, gr_tabOrder = []\<rparr>" ws tab pl] by simp_all
  then have "mset ?o = {#tb_id tab#}" using set_eq_iff_mset_eq_distinct [of ?o "[tb_id tab]"] by simp
  then show ?thesis by simp
qed

lemma placed_first:
  assumes "noTabs ws" shows "showsOnly (placeNewTab own ws key tab pl cx) (tb_id tab)"
proof (cases "placementGroup ws pl")
  case None
  then have "ws_groups ws = []" by (rule placementGroup_None)
  with None assms show ?thesis
    by (simp add: showsOnly_def noTabs_def placeNewTab_def Let_def placedOrder_first replaceBy_def)
next
  case (Some g)
  with placementGroup_Some [OF Some] assms obtain i where
    "ws_groups ws = [\<lparr>gr_id = i, gr_tabOrder = []\<rparr>]" "g = \<lparr>gr_id = i, gr_tabOrder = []\<rparr>"
    by (auto simp: noTabs_def)
  with Some assms show ?thesis
    by (simp add: showsOnly_def noTabs_def placeNewTab_def Let_def placedOrder_first replaceBy_def)
qed

lemma showsOnly_cong:
  "ws_tabs v = ws_tabs w \<Longrightarrow> ws_groups v = ws_groups w \<Longrightarrow> showsOnly v i = showsOnly w i"
  by (simp add: showsOnly_def)

lemma noTabs_emptyWorkspace [simp]: "noTabs (emptyWorkspace k)"
  by (simp add: noTabs_def emptyWorkspace_def)

lemma placeContentTab_first:
  assumes "noTabs (workspaceOrEmpty n key)"
  shows "\<exists>w. fst (placeContentTab own n key tab pl dirty cx) = withWorkspace n key w \<and> showsOnly w (tb_id tab)"
proof -
  have "replacedPreview (workspaceOrEmpty n key) tab target = None" for target
    using assms by (simp add: replacedPreview_def noTabs_def)
  then show ?thesis
    using placed_first [OF assms] by (auto simp: placeContentTab_def Let_def)
qed

lemma withSendersGroup_first:
  assumes "workspaceAt m key = None"
  shows "noTabs (workspaceOrEmpty (withSendersGroup m key g) key)"
    and "k \<noteq> key \<Longrightarrow> workspaceAt (withSendersGroup m key g) k = workspaceAt m k"
  using assms by (auto simp: withSendersGroup_def noTabs_def emptyWorkspace_def)

lemma withEditor_first:
  assumes "showsOnly (workspaceOrEmpty n key) i"
  shows "showsOnly (workspaceOrEmpty (withEditorView (withEditorFile own n key f) key t v) key) i"
    and "k \<noteq> key \<Longrightarrow> workspaceAt (withEditorView (withEditorFile own n key f) key t v) k = workspaceAt n k"
  using assms by (auto simp: withEditorView_def withEditorFile_def Let_def showsOnly_def split: option.split)

section \<open>Creating commands\<close>

text \<open>
  What the handler of each creating command asks for: that the surface is admitted, that an id the
  client drew is not a tab's, and that an editor names its file.
\<close>

definition opensFirst :: "workspaceLayoutModel \<Rightarrow> layoutCommand \<Rightarrow> bool" where
  "opensFirst m c \<longleftrightarrow> (case c of
     CreateTerminalTab x \<Rightarrow> ct_split x = None
       \<and> (\<forall>why. ct_initial x = Some why \<longrightarrow> admitsInitialSurface m (ct_workspace x) why)
   | OpenEditorTab x \<Rightarrow> oe_split x = None \<and> truthy (oe_fileId x)
       \<and> (\<forall>i. oe_tabId x = Some i \<longrightarrow> i \<notin> set (allTabIds m))
   | OpenBrowserTab x \<Rightarrow> ob_split x = None \<and> ob_browserTabId x = None
   | OpenAgentSessionTab x \<Rightarrow> oa_split x = None
       \<and> (\<forall>why. oa_initial x = Some why \<longrightarrow> admitsInitialSurface m (oa_workspace x) why)
       \<and> (\<forall>i. oa_tabId x = Some i \<longrightarrow> i \<notin> set (allTabIds m))
   | OpenSimulatorTab x \<Rightarrow> os_split x = None \<and> os_tabId x \<notin> set (allTabIds m)
   | _ \<Rightarrow> False)"

definition makesWorkspace :: "workspaceLayoutModel \<Rightarrow> string \<Rightarrow> applied \<Rightarrow> bool" where
  "makesWorkspace m key a \<longleftrightarrow> (case a of
     Refused code \<Rightarrow> False
   | Applied m' r e oc \<Rightarrow> (\<exists>i. rs_tabId r = Some i \<and> showsOnly (workspaceOrEmpty m' key) i)
       \<and> (\<forall>k. k \<noteq> key \<longrightarrow> workspaceAt m' k = workspaceAt m k))"

lemma makesWorkspaceI:
  "showsOnly (workspaceOrEmpty m' key) i \<Longrightarrow> rs_tabId r = Some i \<Longrightarrow>
     (\<And>k. k \<noteq> key \<Longrightarrow> workspaceAt m' k = workspaceAt m k) \<Longrightarrow> makesWorkspace m key (Applied m' r e oc)"
  by (simp add: makesWorkspace_def)

lemma drawnTabOpen_absent:
  "workspaceAt m key = None \<Longrightarrow> (\<And>j. i = Some j \<Longrightarrow> j \<notin> set (allTabIds m)) \<Longrightarrow>
     drawnTabOpen m key i same refuse = None"
  by (cases i) (auto simp: drawnTabOpen_def Let_def)

lemma createTerminalTab_first:
  assumes "workspaceAt m (ct_workspace x) = None"
    and "\<And>why. ct_initial x = Some why \<Longrightarrow> admitsInitialSurface m (ct_workspace x) why"
  shows "makesWorkspace m (ct_workspace x) (createTerminalTab own m x cx)"
proof -
  let ?k = "ct_workspace x" let ?ws = "workspaceOrEmpty m ?k"
  let ?t = "fst (createdTerminal ?ws x cx)"
  have first: "showsOnly ((placeNewTab own ?ws ?k ?t pl cx)\<lparr>ws_leaves := ls\<rparr>) (tb_id ?t)"
    "showsOnly (placeNewTab own ?ws ?k ?t pl cx) (tb_id ?t)" for pl ls
    using placed_first [of ?ws own ?k ?t pl cx] assms(1) by (simp_all add: showsOnly_def)
  have none: "Option.bind (ct_adopt x) (appliedHeldAdoption m ?k) = None"
    using assms(1) by (cases "ct_adopt x") (simp_all add: appliedHeldAdoption_def)
  have "\<not> (ct_initial x \<noteq> None \<and> \<not> admitsInitialSurface m ?k (the (ct_initial x)))"
    using assms(2) by (cases "ct_initial x") auto
  then show ?thesis
    using none first
    by (auto simp: createTerminalTab_def Let_def case_prod_beta paneResult_def
        intro!: makesWorkspaceI [where i = "tb_id ?t"] split: option.split)
qed

lemma openEditorTab_first:
  assumes "workspaceAt m (oe_workspace x) = None" "truthy (oe_fileId x)"
    and "\<And>i. oe_tabId x = Some i \<Longrightarrow> i \<notin> set (allTabIds m)"
  shows "makesWorkspace m (oe_workspace x) (openEditorTab own m x cx)"
proof -
  let ?k = "oe_workspace x" let ?g = "pl_groupId (oe_placement x)"
  obtain f where f: "oe_fileId x = Some f" "f \<noteq> []" using assms(2) by (cases "oe_fileId x") auto
  let ?tab = "newEditorTab x f cx"
  let ?n = "withSendersGroup m ?k ?g"
  obtain w refused where w: "placeContentTab own ?n ?k ?tab (oe_placement x) (oe_dirtyTabIds x) cx
      = (withWorkspace ?n ?k w, refused)" "showsOnly w (tb_id ?tab)"
    using placeContentTab_first [OF withSendersGroup_first(1) [OF assms(1)]] by (metis prod.collapse)
  have "showsOnly (workspaceOrEmpty (withWorkspace ?n ?k w) ?k) (tb_id ?tab)" using w(2) by simp
  note e = withEditor_first [OF this]
  have "shownInGroup m ?n x f = None" using assms(1) by (simp add: shownInGroup_def Let_def)
  moreover have "\<not> namesMissingGroup m ?k ?g" using assms(1) by (simp add: namesMissingGroup_def)
  moreover have "drawnTabOpen m ?k (oe_tabId x) same True = None" for same
    by (rule drawnTabOpen_absent [OF assms(1,3)])
  ultimately show ?thesis
    using f w(1) e withSendersGroup_first(2) [OF assms(1)]
    by (auto simp: openEditorTab_def openedFileId_def orElseOpt_def Let_def intro!: makesWorkspaceI)
qed

lemma openBrowserTab_first:
  assumes "workspaceAt m (ob_workspace x) = None" "ob_browserTabId x = None"
  shows "makesWorkspace m (ob_workspace x) (openBrowserTab own m x cx)"
proof -
  let ?k = "ob_workspace x"
  have "noTabs (workspaceOrEmpty m ?k)" using assms(1) by simp
  note first = placeContentTab_first [OF this, of own]
  show ?thesis
    unfolding openBrowserTab_def Let_def using assms first
      [of "newTab (orElse (ob_tabId x) (browserTabIdOf x cx)) (browserTabIdOf x cx) (orElse (ob_createdAt x) (cx_now cx)) (ContentBody Browser)"
        "ob_placement x" "[]" cx]
    by (auto intro!: makesWorkspaceI simp: showsOnly_def)
qed

lemma openAgentSessionTab_first:
  assumes "workspaceAt m (oa_workspace x) = None"
    and "\<And>why. oa_initial x = Some why \<Longrightarrow> admitsInitialSurface m (oa_workspace x) why"
    and "\<And>i. oa_tabId x = Some i \<Longrightarrow> i \<notin> set (allTabIds m)"
  shows "makesWorkspace m (oa_workspace x) (openAgentSessionTab own m x cx)"
proof -
  let ?k = "oa_workspace x"
  let ?n = "withSendersGroup m ?k (pl_groupId (oa_placement x))"
  note first = placeContentTab_first [OF withSendersGroup_first(1) [OF assms(1)], of own]
  have "drawnTabOpen m ?k (oa_tabId x) same own = None" for same
    by (rule drawnTabOpen_absent [OF assms(1,3)])
  moreover define tab where "tab = (newTab (if truthy (oa_tabId x) then the (oa_tabId x) else cx_mint cx MintTab)
      (oa_sessionId x) (orElse (oa_createdAt x) (cx_now cx)) (ContentBody AgentSession))
      \<lparr>tb_agentSessionAgent := Some (oa_agent x)\<rparr>"
  ultimately have run: "openAgentSessionTab own m x cx
      = appliedWith (fst (placeContentTab own ?n ?k tab (oa_placement x) [] cx)) (noResult\<lparr>rs_tabId := Some (tb_id tab)\<rparr>)"
    using assms(2) unfolding openAgentSessionTab_def Let_def
    by (cases "oa_initial x") (simp_all only: tab_def option.sel option.case option.distinct simp_thms if_False not_False_eq_True refl)
  show ?thesis
    unfolding run using first [of "pl_groupId (oa_placement x)" tab "oa_placement x" "[]" cx]
      withSendersGroup_first(2) [OF assms(1)]
    by (auto intro!: makesWorkspaceI)
qed

lemma openSimulatorTab_first:
  assumes "workspaceAt m (os_workspace x) = None" "os_tabId x \<notin> set (allTabIds m)"
  shows "makesWorkspace m (os_workspace x) (openSimulatorTab own m x cx)"
proof -
  let ?k = "os_workspace x" let ?g = "pl_groupId (os_placement x)"
  let ?n = "withSendersGroup m ?k ?g"
  note first = placeContentTab_first [OF withSendersGroup_first(1) [OF assms(1)], of own]
  have "drawnTabOpen m ?k (Some (os_tabId x)) same True = None" for same
    using assms(2) by (intro drawnTabOpen_absent [OF assms(1)]) simp
  moreover have "\<not> namesMissingGroup m ?k ?g" using assms(1) by (simp add: namesMissingGroup_def)
  moreover have "makesWorkspace m ?k (appliedWith (fst (placeContentTab own ?n ?k tab pl [] cx)) (noResult\<lparr>rs_tabId := Some i\<rparr>))"
    if "tb_id tab = i" for tab pl i
    using first [of ?g tab pl "[]" cx] withSendersGroup_first(2) [OF assms(1)]
    by (auto simp: that [symmetric] intro!: makesWorkspaceI)
  ultimately show ?thesis by (simp add: openSimulatorTab_def Let_def)
qed

lemma runCommand_first:
  assumes "workspaceAt m (commandWorkspace c) = None" "opensFirst m c"
  shows "makesWorkspace m (commandWorkspace c) (runCommand own m cx c)"
  using assms
  by (cases c) (auto simp: opensFirst_def openInNewGroup_def intro!: createTerminalTab_first openEditorTab_first
      openBrowserTab_first openAgentSessionTab_first openSimulatorTab_first)

text \<open>The bookkeeping of a commit leaves the workspaces as the command made them.\<close>

lemma commit_workspaces:
  "applyCommand own m c cx = Applied n r e oc \<Longrightarrow>
     \<exists>m'. applyLayoutCommand own m c cx = Applied m' r e oc \<and> md_workspaces m' = md_workspaces n
       \<and> rc_defaultTabsApplied (md_records m') = rc_defaultTabsApplied (md_records n)"
  by (simp add: applyLayoutCommand_def Let_def runDroppedLeafStep_def onDroppedLeaves_def
      updateLegacyPersistence_def)

lemma makesWorkspace_commit:
  assumes "makesWorkspace m key (applyCommand own m c cx)"
  shows "makesWorkspace m key (applyLayoutCommand own m c cx)"
proof (cases "applyCommand own m c cx")
  case (Applied n r e oc)
  with commit_workspaces [OF Applied] assms show ?thesis by (auto simp: makesWorkspace_def workspaceOrEmpty_def)
qed (use assms in \<open>simp add: makesWorkspace_def\<close>)

lemma creates_absent:
  assumes "workspaceAt m (commandWorkspace c) = None" "opensFirst m c"
  shows "makesWorkspace m (commandWorkspace c) (applyLayoutCommand own m c cx)"
proof -
  have "createsWorkspace c"
    using assms(2) by (auto simp: opensFirst_def createsWorkspace_def split: layoutCommand.splits)
  then show ?thesis
    using runCommand_first [OF assms] by (intro makesWorkspace_commit) (simp add: applyCommand_def)
qed

section \<open>Default tabs\<close>

lemma applyTemplates_tabs:
  "\<exists>m' r e. applyTemplates own k cx ts m created starts = Applied m' r e []
     \<and> tabIds (workspaceOrEmpty m' k) = tabIds (workspaceOrEmpty m k) @ map df_tabId ts
     \<and> defaultTabsMarked m' k"
proof (induction own k cx ts m created starts rule: applyTemplates.induct)
  case (1 own k cx m created starts)
  show ?case
    by (cases "rc_defaultTabsApplied (md_records m)")
      (auto simp: setDefaultTabsApplied_def defaultTabsMarked_def workspaceOrEmpty_def update_conv')
next
  case (2 own k cx t ts m created starts)
  let ?c = "defaultTabCommand k t"
  let ?tab = "fst (createdTerminal (workspaceOrEmpty m k) ?c cx)"
  have id: "tb_id ?tab = df_tabId t" by (simp add: createdTerminal_def defaultTabCommand_def Let_def)
  obtain m' r e where made: "createTerminalTab own m ?c cx = Applied m' r e []"
    and m': "m' = withWorkspace m k (placeNewTab own (workspaceOrEmpty m k) k ?tab (ct_placement ?c) cx)"
    by (simp add: createTerminalTab_def defaultTabCommand_def Let_def case_prod_beta)
  have "tabIds (workspaceOrEmpty m' k) = tabIds (workspaceOrEmpty m k) @ [df_tabId t]"
    by (simp add: m' id)
  with 2 [OF made] made show ?case by auto
qed

section \<open>What the dispatcher answers\<close>

lemma absent_reply:
  assumes absent: "workspaceAt m (commandWorkspace c) = None"
  shows "case c of
     CloseTabs x \<Rightarrow> (\<exists>m' r. applyLayoutCommand own m c cx = Applied m' r noEffects []
        \<and> rs_closed r = Some (xt_tabIds x) \<and> rs_refused r = Some [] \<and> rs_alreadyClosed r = Some True
        \<and> md_workspaces m' = md_workspaces m)
   | ClosePane w t l u \<Rightarrow> (\<exists>m' r. applyLayoutCommand own m c cx = Applied m' r noEffects []
        \<and> rs_alreadyClosed r = Some True \<and> md_workspaces m' = md_workspaces m)
   | SetDefaultTabsApplied w \<Rightarrow> (\<exists>m' r e oc. applyLayoutCommand own m c cx = Applied m' r e oc
        \<and> md_workspaces m' = md_workspaces m \<and> defaultTabsMarked m' w)
   | ApplyDefaultTabs w ts \<Rightarrow> (\<exists>m' r e oc. applyLayoutCommand own m c cx = Applied m' r e oc
        \<and> (if defaultTabsMarked m w then md_workspaces m' = md_workspaces m
           else tabIds (workspaceOrEmpty m' w) = map df_tabId ts \<and> defaultTabsMarked m' w))
   | CreateTerminalTab x \<Rightarrow> True | OpenEditorTab x \<Rightarrow> True | OpenBrowserTab x \<Rightarrow> True
   | OpenAgentSessionTab x \<Rightarrow> True | OpenSimulatorTab x \<Rightarrow> True
   | _ \<Rightarrow> applyLayoutCommand own m c cx = Refused WorkspaceNotFound"
proof (cases c)
  case (CloseTabs x)
  with absent have "\<exists>r. applyCommand own m c cx = Applied m r noEffects []
      \<and> rs_closed r = Some (xt_tabIds x) \<and> rs_refused r = Some [] \<and> rs_alreadyClosed r = Some True"
    by (simp add: applyCommand_def absentReply_def createsWorkspace_def isDefaultTabsCommand_def)
  with CloseTabs show ?thesis by (auto dest!: commit_workspaces)
next
  case (ClosePane w t l u)
  with absent have "\<exists>r. applyCommand own m c cx = Applied m r noEffects [] \<and> rs_alreadyClosed r = Some True"
    by (simp add: applyCommand_def absentReply_def createsWorkspace_def isDefaultTabsCommand_def)
  with ClosePane show ?thesis by (auto dest!: commit_workspaces)
next
  case (SetDefaultTabsApplied w)
  have "\<exists>n r e oc. applyCommand own m c cx = Applied n r e oc \<and> md_workspaces n = md_workspaces m \<and> defaultTabsMarked n w"
    using SetDefaultTabsApplied
    by (cases "rc_defaultTabsApplied (md_records m)")
      (auto simp: applyCommand_def isDefaultTabsCommand_def setDefaultTabsApplied_def defaultTabsMarked_def update_conv')
  with SetDefaultTabsApplied show ?thesis by (auto simp: defaultTabsMarked_def dest!: commit_workspaces)
next
  case (ApplyDefaultTabs w ts)
  have run: "applyCommand own m c cx = applyDefaultTabs own m w ts cx"
    using ApplyDefaultTabs by (simp add: applyCommand_def isDefaultTabsCommand_def)
  have "tabIds (workspaceOrEmpty m w) = []"
    using absent ApplyDefaultTabs by (simp add: emptyWorkspace_def)
  with applyTemplates_tabs [of own w cx ts m "[]" "[]"]
  have "\<exists>n r e oc. applyCommand own m c cx = Applied n r e oc \<and> (if defaultTabsMarked m w
      then md_workspaces n = md_workspaces m
      else tabIds (workspaceOrEmpty n w) = map df_tabId ts \<and> defaultTabsMarked n w)"
    unfolding run applyDefaultTabs_def by auto
  with ApplyDefaultTabs show ?thesis
    by (auto simp: defaultTabsMarked_def workspaceOrEmpty_def dest!: commit_workspaces split: if_splits)
qed (use absent in
  \<open>simp_all add: applyLayoutCommand_def applyCommand_def absentReply_def createsWorkspace_def isDefaultTabsCommand_def\<close>)

end
