(* ===== verification/Layout_Samples.thy ===== *)
theory Layout_Samples
  imports Layout_Runs Panes_Survive Absent_Workspace
begin

text \<open>
  A host with two workspaces, on which the properties are run: the first has a terminal tab split
  into two panes, one bound to a process, a second terminal tab and an editor tab in a group of its
  own; the second has one terminal.
\<close>

definition sampleTab :: "string \<Rightarrow> tab_body \<Rightarrow> layoutTab" where
  "sampleTab i body = \<lparr>tb_id = i, tb_entityId = i, tb_createdAt = 0, tb_customTitle = None,
     tb_generatedTitle = Absent, tb_aiVaultTitle = Absent, tb_quickCommandLabel = Absent,
     tb_color = None, tb_isPinned = None, tb_viewMode = None, tb_isPreview = None,
     tb_agentSessionAgent = None, tb_body = body\<rparr>"

definition sampleTerminal :: "string \<Rightarrow> split_node \<Rightarrow> layoutTab" where
  "sampleTerminal i panes =
     sampleTab i (TerminalBody noCreation \<lparr>tp_root = Some panes, tp_chatLeafId = None\<rparr>)"

definition sampleMain :: workspaceLayout where
  "sampleMain = (emptyWorkspace ''repo::main'')\<lparr>
     ws_tabs := [sampleTerminal ''t1'' (Split Vertical (Leaf ''a'') (Leaf ''b'') None),
       sampleTerminal ''t2'' (Leaf ''c''), sampleTab ''e1'' (ContentBody Editor)],
     ws_groups := [\<lparr>gr_id = ''g1'', gr_tabOrder = [''t1'', ''t2'']\<rparr>,
       \<lparr>gr_id = ''g2'', gr_tabOrder = [''e1'']\<rparr>],
     ws_groupLayout := Some (Split Horizontal (Leaf ''g1'') (Leaf ''g2'') None),
     ws_leaves := Some [(''a'', emptyLeaf\<lparr>lf_ptyId := Some ''p1'', lf_incarnationId := Some ''i1''\<rparr>)]\<rparr>"

definition sampleTopic :: workspaceLayout where
  "sampleTopic = (emptyWorkspace ''repo::topic'')\<lparr>
     ws_tabs := [sampleTerminal ''t3'' (Leaf ''d'')],
     ws_groups := [\<lparr>gr_id = ''g1'', gr_tabOrder = [''t3'']\<rparr>],
     ws_groupLayout := Some (Leaf ''g1''),
     ws_leaves := Some [(''d'', emptyLeaf\<lparr>lf_ptyId := Some ''p2''\<rparr>)]\<rparr>"

definition sampleLayout :: workspaceLayoutModel where
  "sampleLayout = (emptyLayout ''local'')\<lparr>
     md_workspaces := [(''repo::main'', sampleMain), (''repo::topic'', sampleTopic)]\<rparr>"

definition sampleCreate :: layoutCommand where
  "sampleCreate = CreateTerminalTab \<lparr>ct_workspace = ''repo::main'', ct_tabId = Some ''t1'', ct_leafId = Some ''a'',
     ct_placement = \<lparr>pl_groupId = None, pl_afterTabId = None, pl_index = None\<rparr>, ct_title = None,
     ct_color = None, ct_viewMode = None, ct_createdAt = None, ct_quickCommandLabel = None,
     ct_creation = noCreation, ct_initial = None, ct_adopt = None, ct_split = None\<rparr>"

definition sampleContext :: layoutContext where
  "sampleContext = \<lparr>cx_mint = (\<lambda>_. ''n1''), cx_mintLeafId = ''n2'', cx_now = 0, cx_isStarting = None,
     cx_liveEdit = True, cx_isBindingLive = None, cx_retiresBinding = None, cx_sameObject = (\<lambda>_. False)\<rparr>"

definition sampleExit :: exitedSurface where
  "sampleExit = \<lparr>es_worktreeId = ''repo::main'', es_terminalTabId = ''t1'', es_leafId = ''a'', es_ptyId = ''p1'',
     es_incarnationId = Some ''i1''\<rparr>"

definition sampleFacts :: processExitFacts where
  "sampleFacts = \<lparr>pe_exitCode = 0, pe_local = True, pe_spawnedFresh = True, pe_tabHadPaneAtConnect = False,
     pe_restored = False, pe_inputWritten = True, pe_outputReceived = True, pe_attachAbsent = None\<rparr>"

definition sampleClose :: closeTabsCommand where
  "sampleClose = \<lparr>xt_workspace = ''repo::main'', xt_tabIds = [''t2'', ''e1''], xt_force = False,
     xt_refusePinned = True, xt_dirtyTabIds = [''e1''], xt_recordClose = Some UserClose\<rparr>"

definition sampleForced :: closeTabsCommand where
  "sampleForced = \<lparr>xt_workspace = ''repo::main'', xt_tabIds = [''t1''], xt_force = True,
     xt_refusePinned = True, xt_dirtyTabIds = [''t1''], xt_recordClose = None\<rparr>"

definition sampleMove :: moveTabCommand where
  "sampleMove = \<lparr>mt_workspace = ''repo::main'', mt_tabId = ''t2'', mt_toGroupId = ''g2'', mt_index = 0,
     mt_afterTabId = Absent, mt_isPinned = None\<rparr>"

definition sampleStart :: processStart where
  "sampleStart = \<lparr>ps_workspace = ''repo::main'', ps_paneKey = ''t1:b'', ps_ptyId = ''p9'', ps_incarnationId = None\<rparr>"

lemmas sample_defs = sampleTab_def sampleTerminal_def sampleMain_def sampleTopic_def
  sampleLayout_def sampleContext_def emptyLayout_def emptyWorkspace_def emptyLeaf_def

text \<open>A command that is applied, with a property of what it gives.\<close>

fun yields :: "(workspaceLayoutModel \<Rightarrow> layoutCommandResult \<Rightarrow> layoutEffects \<Rightarrow> bool) \<Rightarrow> applied \<Rightarrow> bool" where
  "yields P (Refused c) \<longleftrightarrow> False"
| "yields P (Applied m r e oc) \<longleftrightarrow> P m r e"

lemma yieldsE:
  assumes "yields P x" obtains m r e oc where "x = Applied m r e oc" "P m r e"
  using assms by (cases x) auto

lemma sampleCreate_runs:
  "yields (\<lambda>m r e. tabIds (workspaceOrEmpty m ''repo::main'') = [''t1''])
     (applyLayoutCommand False (emptyLayout ''local'') sampleCreate sampleContext)"
  by code_simp

lemma sampleExit_runs:
  "yields (\<lambda>m r e. True) (applyProcessExit (\<lambda>_. False) sampleLayout sampleExit sampleFacts)"
  by code_simp

lemma wf_sampleMain: "wf_workspace {} sampleMain"
  by (simp add: sample_defs wf_workspace_def wf_groups_def wf_tree_def wf_leaves_def paneIds_def
      leafIdsOf_def)

lemma wf_sampleTopic: "wf_workspace {} sampleTopic"
  by (simp add: sample_defs wf_workspace_def wf_groups_def wf_tree_def wf_leaves_def paneIds_def
      leafIdsOf_def)

lemma sampleLayout_workspaces:
  "md_workspaces sampleLayout = [(''repo::main'', sampleMain), (''repo::topic'', sampleTopic)]"
  by (simp add: sampleLayout_def)

lemma apart_samples: "apart sampleMain sampleTopic" "apart sampleTopic sampleMain"
  by (simp_all add: apart_def sample_defs paneIds_def leafIdsOf_def)

lemma wf_sampleLayout: "wf_layout sampleLayout"
  using wf_sampleMain wf_sampleTopic apart_samples by (simp add: wf_model_def sampleLayout_workspaces)

section \<open>A layout the checker should refuse\<close>

text \<open>The group tree of the first workspace names its first group twice and its second not at all.\<close>

definition doubledTree :: workspaceLayoutModel where
  "doubledTree = withWorkspace sampleLayout ''repo::main''
     (sampleMain\<lparr>ws_groupLayout := Some (Split Horizontal (Leaf ''g1'') (Leaf ''g1'') None)\<rparr>)"

lemma doubledTree_passes: "checkWorkspaceLayoutModelRules [doubledTree] None = []"
  by code_simp

lemma doubledTree_tree:
  "groupIds (workspaceOrEmpty doubledTree ''repo::main'') = [''g1'', ''g2'']"
  "groupTreeIds (ws_groupLayout (workspaceOrEmpty doubledTree ''repo::main'')) = [''g1'', ''g1'']"
  by (simp_all add: doubledTree_def groupTreeIds_def sampleMain_def)

lemma doubledTree_broken: "\<not> wf_layout doubledTree"
proof
  assume wf: "wf_layout doubledTree"
  have "workspaceAt doubledTree ''repo::main''
      = Some (sampleMain\<lparr>ws_groupLayout := Some (Split Horizontal (Leaf ''g1'') (Leaf ''g1'') None)\<rparr>)"
    by (simp add: doubledTree_def)
  from wf_model_lookup [OF wf this] show False
    by (simp add: wf_workspace_def wf_tree_def sampleMain_def)
qed

section \<open>A binding that is dropped\<close>

text \<open>Showing the running terminal \<open>p7\<close>, last recorded in the unbound pane \<open>t2:c\<close>.\<close>

definition sampleAdopt :: "bool \<Rightarrow> layoutCommand" where
  "sampleAdopt split = CreateTerminalTab \<lparr>ct_workspace = ''repo::main'', ct_tabId = None, ct_leafId = None,
     ct_placement = \<lparr>pl_groupId = (if split then Some ''g9'' else None), pl_afterTabId = None, pl_index = None\<rparr>,
     ct_title = None, ct_color = None, ct_viewMode = None, ct_createdAt = None, ct_quickCommandLabel = None,
     ct_creation = noCreation, ct_initial = None,
     ct_adopt = Some \<lparr>ad_ptyId = ''p7'', ad_incarnationId = None, ad_recordedPaneKey = Some ''t2:c''\<rparr>,
     ct_split = (if split then Some \<lparr>ng_besideGroupId = ''g1'', ng_besideLastGroupId = None, ng_direction = GRight\<rparr>
       else None)\<rparr>"

lemma sampleAdopt_dropped:
  "yields (\<lambda>m r e. rs_paneKey r = Some ''t2:c'' \<and> ptyAt (workspaceOrEmpty m ''repo::main'') ''c'' = None)
     (applyLayoutCommand False sampleLayout (sampleAdopt True) sampleContext)"
  by code_simp

lemma sampleAdopt_bound:
  "yields (\<lambda>m r e. rs_paneKey r = Some ''t2:c'' \<and> ptyAt (workspaceOrEmpty m ''repo::main'') ''c'' = Some ''p7'')
     (applyLayoutCommand False sampleLayout (sampleAdopt False) sampleContext)"
  by code_simp

section \<open>A terminal that is adopted twice\<close>

text \<open>A new tab of a workspace for the running terminal \<open>p7\<close>, with ids of its own.\<close>

definition adoptInto :: "string \<Rightarrow> string \<Rightarrow> string \<Rightarrow> layoutCommand" where
  "adoptInto w t l = CreateTerminalTab \<lparr>ct_workspace = w, ct_tabId = Some t, ct_leafId = Some l,
     ct_placement = \<lparr>pl_groupId = None, pl_afterTabId = None, pl_index = None\<rparr>,
     ct_title = None, ct_color = None, ct_viewMode = None, ct_createdAt = None, ct_quickCommandLabel = None,
     ct_creation = noCreation, ct_initial = None,
     ct_adopt = Some \<lparr>ad_ptyId = ''p7'', ad_incarnationId = None, ad_recordedPaneKey = None\<rparr>, ct_split = None\<rparr>"

lemma adoptInto_runs:
  "yields (\<lambda>m r e. tabIds (workspaceOrEmpty m ''repo::main'') = [''t1'']
       \<and> ptyAt (workspaceOrEmpty m ''repo::main'') ''a'' = Some ''p7'')
     (applyLayoutCommand False (emptyLayout ''local'') (adoptInto ''repo::main'' ''t1'' ''a'') sampleContext)"
  by code_simp

lemma adopted_twice:
  "yields (\<lambda>m r e. yields (\<lambda>n r e. map vi_rule (checkWorkspaceLayoutModelRules [n] None) = [TerminalInTwoPanes])
       (applyLayoutCommand False m (adoptInto ''repo::topic'' ''t2'' ''b'') sampleContext))
     (applyLayoutCommand False (emptyLayout ''local'') (adoptInto ''repo::main'' ''t1'' ''a'') sampleContext)"
  by code_simp

end
