(* ===== verification/Published_Layout.thy ===== *)
theory Published_Layout
  imports Editor_Files Stable_Ids
begin

text \<open>
  What a host publishes of a workspace, and the layout a window rebuilds from it:
  \<open>workspace-layout-published.ts\<close>, \<open>workspace-layout-tab-host.ts\<close> and
  \<open>workspace-layout-from-published.ts\<close>.

  A published terminal keeps the creation parameters of its tab as one record.  The rebuilt layout
  has the tabs, groups, group tree, pane trees and bindings of the published one; what a window
  does not need (process generations and incarnations, sizes, sleeping sessions, closed tabs,
  mirrored-from marks of files) is absent from it.
\<close>

section \<open>Data\<close>

datatype tabContentType = KindTerminal | KindContent content_kind

datatype paneResumeOutcome = Restored | ResumeUnavailable

datatype paneStartStatus = Starting | FailedStart | Sleeping | Resuming | Held

record publishedPane =
  pp_leafId :: string
  pp_ptyId :: "string option"
  pp_ptyGeneration :: "int option"
  pp_title :: "string option"
  pp_liveTitle :: "string option"
  pp_status :: "paneStartStatus option"
  pp_statusReason :: "string option"
  pp_resumeOutcome :: "paneResumeOutcome option"

record publishedTerminal =
  pt_root :: "split_node option"
  pt_panes :: "publishedPane list"
  pt_chatLeafId :: "string option"
  pt_creation :: terminalCreation

text \<open>The fields of a published tab but its terminal, which the streamed rows share.\<close>

record publishedTabFields =
  pb_id :: string
  pb_kind :: tabContentType
  pb_entityId :: string
  pb_executionHostId :: string
  pb_createdAt :: int
  pb_customTitle :: "string option"
  pb_generatedTitle :: "string optnull"
  pb_aiVaultTitle :: "aiVaultTitle optnull"
  pb_quickCommandLabel :: "string optnull"
  pb_color :: "string option"
  pb_isPinned :: "bool option"
  pb_viewMode :: "view_mode option"
  pb_isPreview :: "bool option"
  pb_agentSessionAgent :: "string option"
  pb_editorView :: "layoutEditorView option"

record publishedTab = publishedTabFields +
  pb_terminal :: "publishedTerminal option"

record publishedEditorFile =
  pf_filePath :: string
  pf_relativePath :: string
  pf_language :: string
  pf_readOnly :: "bool option"
  pf_liveTail :: "bool option"
  pf_runtimeEnvironmentId :: "string optnull"
  pf_externalSshTargetId :: "string option"

record publishedBrowserTab =
  pw_id :: string
  pw_label :: "string option"
  pw_sessionProfileId :: "string optnull"
  pw_sessionPartition :: "string optnull"
  pw_pageIds :: "string list option"
  pw_createdAt :: "int option"

record publishedGroup =
  pg_id :: string
  pg_tabIds :: "string list"

record publishedWorkspaceLayout =
  pl_worktreeId :: string
  pl_groups :: "publishedGroup list"
  pl_groupLayout :: "split_node option"
  pl_tabs :: "publishedTab list"
  pl_editorFiles :: "publishedEditorFile list"
  pl_browserTabs :: "publishedBrowserTab list"

section \<open>Publishing\<close>

text \<open>Editor tabs follow the owner of their file, all others their partition.\<close>

definition tabExecutionHostId :: "bool \<Rightarrow> layoutTab \<Rightarrow> workspaceLayout \<Rightarrow> string \<Rightarrow> string" where
  "tabExecutionHostId own tab ws hostId =
     (case if isKind Editor tab then editorTabFile own ws (tb_entityId tab) else None of
        None \<Rightarrow> hostId
      | Some file \<Rightarrow>
          if truthy (ef_externalSshTargetId file)
          then toSshExecutionHostId (orElse (ef_externalSshTargetId file) [])
          else if truthy (valueOf (ef_runtimeEnvironmentId file))
          then toRuntimeExecutionHostId (orElse (valueOf (ef_runtimeEnvironmentId file)) [])
          else hostId)"

definition publishEditorView :: "layoutEditorView \<Rightarrow> layoutEditorView" where
  "publishEditorView v = \<lparr>ev_view = ev_view v, ev_filePath = ev_filePath v,
     ev_relativePath = ev_relativePath v, ev_language = ev_language v,
     ev_runtimeEnvironmentId = ev_runtimeEnvironmentId v,
     ev_externalSshTargetId = ev_externalSshTargetId v, ev_readOnly = ev_readOnly v\<rparr>"

definition publishEditorFile :: "layoutEditorFile \<Rightarrow> publishedEditorFile" where
  "publishEditorFile file = \<lparr>pf_filePath = ef_filePath file, pf_relativePath = ef_relativePath file,
     pf_language = ef_language file, pf_readOnly = ef_readOnly file, pf_liveTail = ef_liveTail file,
     pf_runtimeEnvironmentId = ef_runtimeEnvironmentId file,
     pf_externalSshTargetId = ef_externalSshTargetId file\<rparr>"

definition publishPane :: "workspaceLayout \<Rightarrow> string \<Rightarrow> publishedPane" where
  "publishPane ws leafId = \<lparr>pp_leafId = leafId, pp_ptyId = ptyAt ws leafId,
     pp_ptyGeneration = Option.bind (leafAt ws leafId) lf_ptyGeneration,
     pp_title = Option.bind (leafAt ws leafId) lf_title, pp_liveTitle = None, pp_status = None,
     pp_statusReason = None, pp_resumeOutcome = None\<rparr>"

definition publishTerminal ::
  "workspaceLayout \<Rightarrow> terminalCreation \<Rightarrow> terminalPanes \<Rightarrow> publishedTerminal" where
  "publishTerminal ws creation panes = \<lparr>pt_root = tp_root panes,
     pt_panes = map (publishPane ws) (collectLayoutLeafIdsInOrder (tp_root panes)),
     pt_chatLeafId = tp_chatLeafId panes, pt_creation = creation\<rparr>"

definition publishTab :: "bool \<Rightarrow> workspaceLayout \<Rightarrow> string \<Rightarrow> layoutTab \<Rightarrow> publishedTab" where
  "publishTab own ws hostId tab = \<lparr>pb_id = tb_id tab,
     pb_kind = (case tb_body tab of TerminalBody _ _ \<Rightarrow> KindTerminal | ContentBody k \<Rightarrow> KindContent k),
     pb_entityId = tb_entityId tab,
     pb_executionHostId = tabExecutionHostId own tab ws hostId,
     pb_createdAt = tb_createdAt tab, pb_customTitle = tb_customTitle tab,
     pb_generatedTitle = tb_generatedTitle tab, pb_aiVaultTitle = tb_aiVaultTitle tab,
     pb_quickCommandLabel = tb_quickCommandLabel tab, pb_color = tb_color tab,
     pb_isPinned = tb_isPinned tab, pb_viewMode = tb_viewMode tab, pb_isPreview = tb_isPreview tab,
     pb_agentSessionAgent = tb_agentSessionAgent tab,
     pb_editorView = map_option publishEditorView (lookupOpt (ws_editorViews ws) (tb_id tab)),
     pb_terminal = (case tb_body tab of
        TerminalBody creation panes \<Rightarrow> Some (publishTerminal ws creation panes)
      | ContentBody _ \<Rightarrow> None)\<rparr>"

definition publishBrowserTab :: "layoutBrowserTab \<Rightarrow> publishedBrowserTab" where
  "publishBrowserTab tab = \<lparr>pw_id = bt_id tab, pw_label = bt_label tab,
     pw_sessionProfileId = bt_sessionProfileId tab, pw_sessionPartition = bt_sessionPartition tab,
     pw_pageIds = bt_pageIds tab, pw_createdAt = Some (bt_createdAt tab)\<rparr>"

definition publishWorkspaceLayout ::
  "bool \<Rightarrow> workspaceLayout \<Rightarrow> string \<Rightarrow> publishedWorkspaceLayout" where
  "publishWorkspaceLayout own ws hostId = \<lparr>pl_worktreeId = ws_worktreeId ws,
     pl_groups = map (\<lambda>g. \<lparr>pg_id = gr_id g, pg_tabIds = gr_tabOrder g\<rparr>) (ws_groups ws),
     pl_groupLayout = ws_groupLayout ws,
     pl_tabs = map (publishTab own ws hostId) (tabsInOrder ws),
     pl_editorFiles = map publishEditorFile (orElse (ws_editorFiles ws) []),
     pl_browserTabs = map publishBrowserTab (orElse (ws_browserTabs ws) [])\<rparr>"

section \<open>Rebuilding\<close>

definition emptyCreation :: terminalCreation where
  "emptyCreation = \<lparr>tc_defaultTitle = None, tc_shellOverride = None, tc_forceHostRuntime = None,
     tc_startupCwd = None, tc_launchAgent = None\<rparr>"

text \<open>A terminal tab whose frame has no terminal is rebuilt with no panes.\<close>

definition layoutTabBody :: "publishedTab \<Rightarrow> tab_body" where
  "layoutTabBody tab = (case pb_kind tab of
     KindContent k \<Rightarrow> ContentBody k
   | KindTerminal \<Rightarrow> (case pb_terminal tab of
       None \<Rightarrow> TerminalBody emptyCreation \<lparr>tp_root = None, tp_chatLeafId = None\<rparr>
     | Some t \<Rightarrow> TerminalBody (pt_creation t) \<lparr>tp_root = pt_root t, tp_chatLeafId = pt_chatLeafId t\<rparr>))"

definition layoutTabFrom :: "publishedTab \<Rightarrow> layoutTab" where
  "layoutTabFrom tab = \<lparr>tb_id = pb_id tab, tb_entityId = pb_entityId tab,
     tb_createdAt = pb_createdAt tab, tb_customTitle = pb_customTitle tab,
     tb_generatedTitle = pb_generatedTitle tab, tb_aiVaultTitle = pb_aiVaultTitle tab,
     tb_quickCommandLabel = pb_quickCommandLabel tab, tb_color = pb_color tab,
     tb_isPinned = pb_isPinned tab, tb_viewMode = pb_viewMode tab, tb_isPreview = pb_isPreview tab,
     tb_agentSessionAgent = pb_agentSessionAgent tab, tb_body = layoutTabBody tab\<rparr>"

definition panesOfPublished :: "publishedTab \<Rightarrow> publishedPane list" where
  "panesOfPublished tab = (case pb_terminal tab of None \<Rightarrow> [] | Some t \<Rightarrow> pt_panes t)"

definition publishedPanes :: "publishedWorkspaceLayout \<Rightarrow> publishedPane list" where
  "publishedPanes l = concat (map panesOfPublished (pl_tabs l))"

definition leafOfPublished :: "publishedPane \<Rightarrow> layoutLeaf" where
  "leafOfPublished pane = emptyLeaf\<lparr>lf_ptyId := pp_ptyId pane, lf_title := pp_title pane\<rparr>"

definition editorFileFromPublished :: "publishedEditorFile \<Rightarrow> layoutEditorFile" where
  "editorFileFromPublished f = \<lparr>ef_filePath = pf_filePath f, ef_relativePath = pf_relativePath f,
     ef_language = pf_language f, ef_runtimeEnvironmentId = pf_runtimeEnvironmentId f,
     ef_mirroredFromRuntimeSession = None, ef_externalSshTargetId = pf_externalSshTargetId f,
     ef_readOnly = pf_readOnly f, ef_liveTail = pf_liveTail f\<rparr>"

text \<open>A frame from an older host has no creation time: the tab that shows the page has it.\<close>

definition browserTabFromPublished :: "publishedTab list \<Rightarrow> publishedBrowserTab \<Rightarrow> layoutBrowserTab" where
  "browserTabFromPublished tabs tab = \<lparr>bt_id = pw_id tab, bt_label = pw_label tab,
     bt_sessionProfileId = pw_sessionProfileId tab, bt_sessionPartition = pw_sessionPartition tab,
     bt_pageIds = pw_pageIds tab,
     bt_createdAt = orElse (orElseOpt (pw_createdAt tab) (map_option pb_createdAt
        (List.find (\<lambda>t. pb_kind t = KindContent Browser \<and> pb_entityId t = pw_id tab) tabs))) 0\<rparr>"

definition workspaceLayoutFromPublished :: "publishedWorkspaceLayout \<Rightarrow> workspaceLayout" where
  "workspaceLayoutFromPublished l =
     (let views = fold (\<lambda>t r. case pb_editorView t of None \<Rightarrow> r | Some v \<Rightarrow> AList.update (pb_id t) v r)
            (pl_tabs l) []
      in \<lparr>ws_worktreeId = pl_worktreeId l, ws_tabs = map layoutTabFrom (pl_tabs l),
          ws_groups = map (\<lambda>g. \<lparr>gr_id = pg_id g, gr_tabOrder = pg_tabIds g\<rparr>) (pl_groups l),
          ws_groupLayout = pl_groupLayout l,
          ws_editorFiles = Some (map editorFileFromPublished (pl_editorFiles l)),
          ws_editorViews = (if views \<noteq> [] then Some views else None),
          ws_browserTabs = Some (map (browserTabFromPublished (pl_tabs l)) (pl_browserTabs l)),
          ws_leaves = Some (fromEntries (map (\<lambda>p. (pp_leafId p, leafOfPublished p)) (publishedPanes l))),
          ws_closedTerminalTabs = None\<rparr>)"

definition workspaceLayoutModelFromPublished ::
  "string \<Rightarrow> (string \<times> publishedWorkspaceLayout) list \<Rightarrow> workspaceLayoutModel" where
  "workspaceLayoutModelFromPublished hostId layouts =
     \<lparr>md_hostId = hostId,
      md_workspaces = map (\<lambda>(k, l). (k, workspaceLayoutFromPublished l)) layouts,
      md_records = \<lparr>rc_defaultTabsApplied = None, rc_clientHostedBrowserPages = None,
        rc_closedTerminalPanes = None\<rparr>,
      md_legacy = \<lparr>lg_terminalRowOwners = map (\<lambda>(k, _). (k, ())) layouts, lg_topologyRevision = None\<rparr>\<rparr>"

section \<open>The tabs of a well-formed workspace in order\<close>

definition tabById :: "workspaceLayout \<Rightarrow> string \<Rightarrow> layoutTab option" where
  "tabById ws = map_of (rev (map (\<lambda>t. (tb_id t, t)) (ws_tabs ws)))"

lemma tabById_Some:
  "distinct (tabIds ws) \<Longrightarrow> tabById ws i = Some t \<longleftrightarrow> t \<in> set (ws_tabs ws) \<and> tb_id t = i"
  by (subst tabById_def, subst map_of_eq_Some_iff) (auto simp: rev_map [symmetric] comp_def)

lemma tabById_total:
  assumes "distinct (tabIds ws)" "i \<in> set (tabIds ws)"
  shows "\<exists>t. tabById ws i = Some t"
proof -
  from assms(2) obtain t where "t \<in> set (ws_tabs ws)" "tb_id t = i" by auto
  with tabById_Some [OF assms(1)] have "tabById ws i = Some t" by blast
  then show ?thesis ..
qed

lemma tabsInOrder_tabById:
  "tabsInOrder ws = concat (map (\<lambda>i. case tabById ws i of None \<Rightarrow> [] | Some t \<Rightarrow> [t]) (orderedIds ws))"
proof -
  have "concat (map (\<lambda>g. concat (map f (gr_tabOrder g))) gs) = concat (map f (concat (map gr_tabOrder gs)))"
    for f :: "string \<Rightarrow> layoutTab list" and gs by (induction gs) auto
  then show ?thesis by (simp add: tabsInOrder_def tabById_def)
qed

lemma tabsInOrder_map:
  assumes "set (orderedIds ws) \<subseteq> set (tabIds ws)" "distinct (tabIds ws)"
  shows "tabsInOrder ws = map (\<lambda>i. the (tabById ws i)) (orderedIds ws)"
proof -
  have at: "\<exists>t. tabById ws i = Some t" if "i \<in> set (orderedIds ws)" for i
    using tabById_total [OF assms(2)] that assms(1) by blast
  have "concat (map (\<lambda>i. case tabById ws i of None \<Rightarrow> [] | Some t \<Rightarrow> [t]) is)
      = map (\<lambda>i. the (tabById ws i)) is" if "set is \<subseteq> set (orderedIds ws)" for "is"
    using that
  proof (induction "is")
    case (Cons i js)
    then obtain t where "tabById ws i = Some t" using at [of i] by auto
    with Cons show ?case by simp
  qed simp
  from this [OF order_refl] show ?thesis by (simp add: tabsInOrder_tabById)
qed

lemma tabsInOrder_grouped:
  assumes d: "distinct (tabIds ws)" and groups: "wf_groups E (tabIds ws) (ws_groups ws)"
  shows "map tb_id (tabsInOrder ws) = orderedIds ws" "mset (tabsInOrder ws) = mset (ws_tabs ws)"
proof -
  from groups have o: "distinct (orderedIds ws)"
    and s: "set (orderedIds ws) = set (tabIds ws)" by (auto simp: wf_groups_def)
  have eq: "tabsInOrder ws = map (\<lambda>i. the (tabById ws i)) (orderedIds ws)"
    using tabsInOrder_map s d by blast
  have at: "\<exists>t. tabById ws i = Some t \<and> t \<in> set (ws_tabs ws) \<and> tb_id t = i" if "i \<in> set (orderedIds ws)" for i
    using tabById_total [OF d, of i] that s tabById_Some [OF d] by blast
  have "tb_id (the (tabById ws i)) = i" if "i \<in> set (orderedIds ws)" for i
    using at [OF that] by auto
  then show ids: "map tb_id (tabsInOrder ws) = orderedIds ws"
    unfolding eq map_map by (intro map_idI) simp
  have "set (tabsInOrder ws) = set (ws_tabs ws)"
  proof (intro equalityI subsetI)
    fix t assume "t \<in> set (tabsInOrder ws)"
    then obtain i where "i \<in> set (orderedIds ws)" "t = the (tabById ws i)" unfolding eq set_map by blast
    with at [of i] show "t \<in> set (ws_tabs ws)" by auto
  next
    fix t assume "t \<in> set (ws_tabs ws)"
    then have "tb_id t \<in> set (orderedIds ws)" "tabById ws (tb_id t) = Some t"
      using s tabById_Some [OF d] by auto
    then show "t \<in> set (tabsInOrder ws)" unfolding eq by force
  qed
  moreover have "distinct (tabsInOrder ws)" using ids o by (metis distinct_map)
  moreover have "distinct (ws_tabs ws)" using d by (simp add: distinct_map)
  ultimately show "mset (tabsInOrder ws) = mset (ws_tabs ws)"
    by (simp add: set_eq_iff_mset_eq_distinct [symmetric])
qed

text \<open>The order of the tabs of a workspace does not matter to their order in its groups.\<close>

lemma tabsInOrder_wf:
  assumes "wf_workspace E ws"
  shows tabsInOrder_ids: "map tb_id (tabsInOrder ws) = orderedIds ws"
    and tabsInOrder_mset: "mset (tabsInOrder ws) = mset (ws_tabs ws)"
  using assms tabsInOrder_grouped [of ws E] by (simp_all add: wf_workspace_def)

lemma tabsInOrder_perm:
  assumes "distinct (tabIds v)" "mset (ws_tabs v) = mset (ws_tabs w)" "orderedIds v = orderedIds w"
  shows "tabsInOrder v = tabsInOrder w"
proof -
  have "distinct (tabIds w)" using assms(1,2) by (metis mset_eq_imp_distinct_iff mset_map)
  moreover have "set (ws_tabs v) = set (ws_tabs w)" using assms(2) by (rule mset_eq_setD)
  ultimately have "tabById v i = tabById w i" for i
    using assms(1) by (cases "tabById v i"; cases "tabById w i") (auto simp: tabById_Some, (metis option.distinct(1) tabById_Some)+)
  then show ?thesis by (simp add: tabsInOrder_tabById assms(3))
qed

section \<open>Rebuilding a published layout\<close>

lemma publishTab_fields [simp]:
  "pb_id (publishTab own ws h t) = tb_id t" "pb_entityId (publishTab own ws h t) = tb_entityId t"
  by (simp_all add: publishTab_def)

lemma layoutTabFrom_publishTab [simp]: "layoutTabFrom (publishTab own ws h t) = t"
  by (rule layoutTab.equality)
    (simp_all add: layoutTabFrom_def layoutTabBody_def publishTab_def publishTerminal_def
      split: tab_body.split)

lemma map_layoutTabFrom [simp]: "map (layoutTabFrom \<circ> publishTab own ws h) ts = ts"
  by (simp add: comp_def)

lemma panesOfPublished_publishTab:
  "panesOfPublished (publishTab own ws h t) = map (publishPane ws) (leafIdsOf t)"
  by (simp add: panesOfPublished_def publishTab_def publishTerminal_def leafIdsOf_def split: tab_body.split)

lemma publishedPanes_publish:
  "publishedPanes (publishWorkspaceLayout own ws h)
     = map (publishPane ws) (concat (map leafIdsOf (tabsInOrder ws)))"
  by (simp add: publishedPanes_def publishWorkspaceLayout_def panesOfPublished_publishTab comp_def map_concat)

lemma pp_leafId_publishPane [simp]: "pp_leafId (publishPane ws l) = l"
  by (simp add: publishPane_def)

text \<open>What the rebuilt layout has.\<close>

definition rebuilt :: "bool \<Rightarrow> workspaceLayout \<Rightarrow> string \<Rightarrow> workspaceLayout" where
  "rebuilt own ws h = workspaceLayoutFromPublished (publishWorkspaceLayout own ws h)"

lemma rebuilt_fields:
  shows ws_tabs_rebuilt: "ws_tabs (rebuilt own ws h) = tabsInOrder ws"
    and ws_groups_rebuilt: "ws_groups (rebuilt own ws h) = ws_groups ws"
    and ws_groupLayout_rebuilt: "ws_groupLayout (rebuilt own ws h) = ws_groupLayout ws"
    and ws_worktreeId_rebuilt: "ws_worktreeId (rebuilt own ws h) = ws_worktreeId ws"
    and ws_browserTabs_rebuilt: "ws_browserTabs (rebuilt own ws h) = Some (orElse (ws_browserTabs ws) [])"
    and ws_editorFiles_rebuilt: "ws_editorFiles (rebuilt own ws h)
       = Some (map (\<lambda>f. f\<lparr>ef_mirroredFromRuntimeSession := None\<rparr>) (orElse (ws_editorFiles ws) []))"
proof -
  have bt: "browserTabFromPublished ts (publishBrowserTab b) = b" for ts b
    by (rule layoutBrowserTab.equality) (simp_all add: browserTabFromPublished_def publishBrowserTab_def)
  have ef: "editorFileFromPublished (publishEditorFile f) = f\<lparr>ef_mirroredFromRuntimeSession := None\<rparr>" for f
    by (rule layoutEditorFile.equality) (simp_all add: editorFileFromPublished_def publishEditorFile_def)
  have g: "\<lparr>gr_id = gr_id g, gr_tabOrder = gr_tabOrder g\<rparr> = g" for g :: layoutGroup by simp
  show "ws_tabs (rebuilt own ws h) = tabsInOrder ws" "ws_groups (rebuilt own ws h) = ws_groups ws"
    "ws_groupLayout (rebuilt own ws h) = ws_groupLayout ws"
    "ws_worktreeId (rebuilt own ws h) = ws_worktreeId ws"
    "ws_browserTabs (rebuilt own ws h) = Some (orElse (ws_browserTabs ws) [])"
    "ws_editorFiles (rebuilt own ws h)
       = Some (map (\<lambda>f. f\<lparr>ef_mirroredFromRuntimeSession := None\<rparr>) (orElse (ws_editorFiles ws) []))"
    by (simp_all add: rebuilt_def workspaceLayoutFromPublished_def publishWorkspaceLayout_def Let_def
        comp_def bt ef g)
qed

lemma mset_concat_map: "mset (concat (map f xs)) = (\<Sum>x\<in>#mset xs. mset (f x))"
  by (induction xs) auto

lemma map_of_keyed: "k \<in> set ks \<Longrightarrow> map_of (map (\<lambda>k. (k, f k)) ks) k = Some (f k)"
  by (induction ks) auto

lemma ws_leaves_rebuilt:
  assumes "wf_workspace E ws"
  shows "ws_leaves (rebuilt own ws h) = Some (map (\<lambda>l. (l, leafOfPublished (publishPane ws l)))
           (concat (map leafIdsOf (tabsInOrder ws))))"
    and "distinct (concat (map leafIdsOf (tabsInOrder ws)))"
    and "set (concat (map leafIdsOf (tabsInOrder ws))) = set (paneIds ws)"
proof -
  have M: "mset (concat (map leafIdsOf (tabsInOrder ws))) = mset (paneIds ws)"
    using tabsInOrder_mset [OF assms] by (simp add: paneIds_def mset_concat_map)
  moreover have "distinct (paneIds ws)" using assms by (simp add: wf_workspace_def)
  ultimately show d: "distinct (concat (map leafIdsOf (tabsInOrder ws)))"
    using mset_eq_imp_distinct_iff [OF M] by blast
  show "set (concat (map leafIdsOf (tabsInOrder ws))) = set (paneIds ws)" using M by (rule mset_eq_setD)
  show "ws_leaves (rebuilt own ws h) = Some (map (\<lambda>l. (l, leafOfPublished (publishPane ws l)))
           (concat (map leafIdsOf (tabsInOrder ws))))"
    using d by (simp add: rebuilt_def workspaceLayoutFromPublished_def publishedPanes_publish
        Let_def comp_def fromEntries_distinct)
qed

lemma leafAt_rebuilt:
  assumes "wf_workspace E ws" "l \<in> set (paneIds ws)"
  shows "leafAt (rebuilt own ws h) l = Some (leafOfPublished (publishPane ws l))"
  using map_of_keyed [of l "concat (map leafIdsOf (tabsInOrder ws))"
      "\<lambda>l. leafOfPublished (publishPane ws l)"] assms(2)
    ws_leaves_rebuilt [OF assms(1)] by (simp only: lookupOpt_simps)

lemma rebuilt_wf:
  assumes wf: "wf_workspace E ws"
  shows "wf_workspace E (rebuilt own ws h)"
proof -
  note leaves = ws_leaves_rebuilt [OF wf]
  have panes: "paneIds (rebuilt own ws h) = concat (map leafIdsOf (tabsInOrder ws))"
    by (simp add: paneIds_def rebuilt_fields)
  have ids: "tabIds (rebuilt own ws h) = orderedIds ws"
    by (simp add: rebuilt_fields tabsInOrder_ids [OF wf])
  from wf have "distinct (orderedIds ws)" "set (orderedIds ws) = set (tabIds ws)"
    by (auto simp: wf_workspace_def wf_groups_def)
  with wf have "wf_groups E (orderedIds ws) (ws_groups ws)" "distinct (orderedIds ws)"
    "wf_tree (groupIds ws) (ws_groupLayout ws)"
    by (simp_all add: wf_workspace_def wf_groups_def)
  moreover have "wf_leaves (paneIds (rebuilt own ws h)) (ws_leaves (rebuilt own ws h))"
    using leaves(2) unfolding panes leaves(1)
    by (auto simp: wf_leaves_def list_all_iff comp_def leafOfPublished_def emptyLeaf_def)
  ultimately show ?thesis
    unfolding wf_workspace_def ids panes
    using leaves(2) by (simp add: rebuilt_fields panes)
qed

text \<open>Publishing the rebuilt layout: process generations are gone, everything else is the same.\<close>

definition withoutGeneration :: "publishedPane \<Rightarrow> publishedPane" where
  "withoutGeneration p = p\<lparr>pp_ptyGeneration := None\<rparr>"

definition mapPanesOfTab :: "(publishedPane \<Rightarrow> publishedPane) \<Rightarrow> publishedTab \<Rightarrow> publishedTab" where
  "mapPanesOfTab f t = t\<lparr>pb_terminal := map_option (\<lambda>tm. tm\<lparr>pt_panes := map f (pt_panes tm)\<rparr>) (pb_terminal t)\<rparr>"

definition mapPanes ::
  "(publishedPane \<Rightarrow> publishedPane) \<Rightarrow> publishedWorkspaceLayout \<Rightarrow> publishedWorkspaceLayout" where
  "mapPanes f l = l\<lparr>pl_tabs := map (mapPanesOfTab f) (pl_tabs l)\<rparr>"

lemma publish_mirror [simp]:
  "publishEditorFile (f\<lparr>ef_mirroredFromRuntimeSession := None\<rparr>) = publishEditorFile f"
  by (simp add: publishEditorFile_def)

lemma publishEditorView_id [simp]: "publishEditorView v = v"
  by (rule layoutEditorView.equality) (simp_all add: publishEditorView_def)

lemma publishEditorViews_id [simp]: "map_option publishEditorView v = v"
  by (cases v) simp_all

lemma editorTabFiles_rebuilt:
  assumes "wf_workspace E ws"
  shows "editorTabFiles own (rebuilt o2 ws h) e
     = map (\<lambda>f. f\<lparr>ef_mirroredFromRuntimeSession := None\<rparr>) (editorTabFiles own ws e)"
proof -
  have shows_eq: "editorTabShowsFile own e (f\<lparr>ef_mirroredFromRuntimeSession := None\<rparr>) w
      = editorTabShowsFile own e f w" for f w
    by (simp add: editorTabShowsFile_def ownedIdOf_def)
  have owned: "ownedIdOf w (f\<lparr>ef_mirroredFromRuntimeSession := None\<rparr>) = ownedIdOf w f" for f w
    by (simp add: ownedIdOf_def)
  have ents: "set (map tb_entityId (tabsInOrder ws)) = set (map tb_entityId (ws_tabs ws))"
    using mset_eq_setD [OF tabsInOrder_mset [OF assms]] by simp
  show ?thesis
    unfolding editorTabFiles_def rebuilt_fields Let_def orElse_simps ents
    by (simp add: filter_map comp_def shows_eq owned)
qed

lemma editorTabFile_rebuilt:
  assumes "wf_workspace E ws"
  shows "editorTabFile own (rebuilt o2 ws h) e
     = map_option (\<lambda>f. f\<lparr>ef_mirroredFromRuntimeSession := None\<rparr>) (editorTabFile own ws e)"
proof -
  have "List.find P (map f xs) = map_option f (List.find (P \<circ> f) xs)" for P :: "layoutEditorFile \<Rightarrow> bool" and f and xs :: "layoutEditorFile list"
    by (induction xs) auto
  moreover have "editorTabShowsFile o1 e (f\<lparr>ef_mirroredFromRuntimeSession := None\<rparr>) w
      = editorTabShowsFile o1 e f w" for o1 f w
    by (simp add: editorTabShowsFile_def ownedIdOf_def)
  ultimately show ?thesis
    unfolding editorTabFile_def editorTabFiles_rebuilt [OF assms] rebuilt_fields
    by (simp add: comp_def split: list.split)
qed

lemma tabExecutionHostId_rebuilt:
  "wf_workspace E ws \<Longrightarrow> tabExecutionHostId own t (rebuilt o2 ws h2) h = tabExecutionHostId own t ws h"
  by (simp add: tabExecutionHostId_def editorTabFile_rebuilt split: option.split)

lemma views_fold:
  assumes "distinct (map pb_id ts)"
  defines "views \<equiv> fold (\<lambda>t r. case pb_editorView t of None \<Rightarrow> r | Some v \<Rightarrow> AList.update (pb_id t) v r) ts []"
  shows "t \<in> set ts \<Longrightarrow> map_of views (pb_id t) = pb_editorView t"
proof -
  have "(\<forall>t\<in>set ts. map_of (fold (\<lambda>t r. case pb_editorView t of None \<Rightarrow> r | Some v \<Rightarrow> AList.update (pb_id t) v r) ts [])
            (pb_id t) = pb_editorView t)
      \<and> (\<forall>i. i \<notin> pb_id ` set ts \<longrightarrow> map_of (fold (\<lambda>t r. case pb_editorView t of None \<Rightarrow> r
            | Some v \<Rightarrow> AList.update (pb_id t) v r) ts []) i = None)"
    using assms(1) by (induction ts rule: rev_induct) (auto simp: update_conv' image_iff split: option.split)
  then show "t \<in> set ts \<Longrightarrow> map_of views (pb_id t) = pb_editorView t" by (simp add: views_def)
qed

lemma lookup_views_rebuilt:
  assumes "wf_workspace E ws" "t \<in> set (tabsInOrder ws)"
  shows "lookupOpt (ws_editorViews (rebuilt own ws h)) (tb_id t) = lookupOpt (ws_editorViews ws) (tb_id t)"
proof -
  let ?ts = "map (publishTab own ws h) (tabsInOrder ws)"
  have "distinct (map pb_id ?ts)"
    using assms(1) tabsInOrder_ids [OF assms(1)] by (simp add: comp_def wf_workspace_def wf_groups_def)
  from views_fold [OF this, of "publishTab own ws h t"] assms(2)
  show ?thesis
    by (auto simp: rebuilt_def workspaceLayoutFromPublished_def publishWorkspaceLayout_def Let_def
        publishTab_def lookupOpt_def)
qed

lemma publishPane_rebuilt:
  assumes "wf_workspace E ws" "l \<in> set (paneIds ws)"
  shows "publishPane (rebuilt own ws h) l = withoutGeneration (publishPane ws l)"
  using leafAt_rebuilt [OF assms]
  by (simp add: publishPane_def ptyAt_def withoutGeneration_def leafOfPublished_def emptyLeaf_def)

lemma publishTab_rebuilt:
  assumes wf: "wf_workspace E ws" and t: "t \<in> set (tabsInOrder ws)"
  shows "publishTab own (rebuilt own ws h) h t = mapPanesOfTab withoutGeneration (publishTab own ws h t)"
proof -
  have "t \<in> set (ws_tabs ws)" using mset_eq_setD [OF tabsInOrder_mset [OF wf]] t by simp
  then have "set (leafIdsOf t) \<subseteq> set (paneIds ws)" by (auto simp: set_paneIds)
  then have panes: "publishPane (rebuilt own ws h) l = withoutGeneration (publishPane ws l)"
    if "l \<in> set (leafIdsOf t)" for l
    using publishPane_rebuilt [OF wf] that by auto
  show ?thesis
    by (rule publishedTab.equality)
      (simp_all add: publishTab_def mapPanesOfTab_def tabExecutionHostId_rebuilt [OF wf]
        lookup_views_rebuilt [OF wf t] publishTerminal_def panes [unfolded leafIdsOf_def]
        split: tab_body.split)
qed

lemma publish_rebuilt:
  assumes wf: "wf_workspace E ws"
  shows "publishWorkspaceLayout own (rebuilt own ws h) h
     = mapPanes withoutGeneration (publishWorkspaceLayout own ws h)"
proof -
  have "tabsInOrder (rebuilt own ws h) = tabsInOrder ws"
  proof (rule tabsInOrder_perm)
    show "distinct (tabIds (rebuilt own ws h))" using rebuilt_wf [OF wf] by (simp add: wf_workspace_def)
    show "mset (ws_tabs (rebuilt own ws h)) = mset (ws_tabs ws)"
      by (simp add: rebuilt_fields tabsInOrder_mset [OF wf])
    show "orderedIds (rebuilt own ws h) = orderedIds ws" by (simp add: rebuilt_fields)
  qed
  then show ?thesis
    using publishTab_rebuilt [OF wf, of _ own h]
    by (simp add: publishWorkspaceLayout_def mapPanes_def rebuilt_fields comp_def)
qed

lemma mset_rebuilt:
  "wf_workspace E ws \<Longrightarrow> mset (ws_tabs (rebuilt own ws h)) = mset (ws_tabs ws)"
  by (simp add: rebuilt_fields tabsInOrder_mset)

lemma ptyAt_rebuilt:
  assumes wf: "wf_workspace E ws"
  shows "ptyAt (rebuilt own ws h) l = (if l \<in> set (paneIds ws) then ptyAt ws l else None)"
proof (cases "l \<in> set (paneIds ws)")
  case True
  then show ?thesis using leafAt_rebuilt [OF wf True, of own h]
    by (simp add: ptyAt_def leafOfPublished_def emptyLeaf_def publishPane_def)
next
  case False
  then have "l \<notin> set (keysOf (ws_leaves (rebuilt own ws h)))"
    unfolding ws_leaves_rebuilt(1) [OF wf] using ws_leaves_rebuilt(3) [OF wf] by (simp add: image_image)
  with False show ?thesis by (simp add: ptyAt_def lookupOpt_None_iff [symmetric])
qed

end
