(* ===== verification/Layout_Projection.thy ===== *)
theory Layout_Projection
  imports Published_Layout
begin

text \<open>
  The cached projection of the stored partitions to published layouts:
  \<open>src/main/runtime/workspace-layout-projection.ts\<close>.

  A partition is one execution host's stored session.  The store is a parameter: which partitions
  it has, and the layout the loader reads from each (\<open>None\<close>: no session).  So is the routing of a
  workspace to the host that owns it, which may fail.  The published layout stands for itself and
  for its \<open>stableJson\<close> text, and the layouts a partition keeps once computed are recomputed, which
  is the same value.  The warnings are not modelled.
\<close>

section \<open>State\<close>

datatype dirtyPartitions = AllPartitions | Partitions "string list"

datatype routingError = RoutingFailed string

record projectionEnv =
  en_hostIds :: "string list"
  en_load :: "string \<Rightarrow> workspaceLayoutModel option"
  en_homeHostId :: "string \<Rightarrow> routingError + string option"

record projectedPartition =
  pq_hostId :: string
  pq_loaded :: "workspaceLayoutModel option"

record layoutProjection =
  pj_published :: "(string \<times> publishedWorkspaceLayout) list"
  pj_partitions :: "(string \<times> projectedPartition) list"
  pj_stale :: dirtyPartitions

definition freshProjection :: layoutProjection where
  "freshProjection = \<lparr>pj_published = [], pj_partitions = [], pj_stale = AllPartitions\<rparr>"

section \<open>Operations\<close>

text \<open>Includes stray copies of workspaces owned by other partitions.\<close>

definition partitionWorkspaces ::
  "bool \<Rightarrow> projectedPartition \<Rightarrow> (string \<times> publishedWorkspaceLayout) list" where
  "partitionWorkspaces own p = (case pq_loaded p of
     None \<Rightarrow> []
   | Some m \<Rightarrow> fromEntries (map (\<lambda>(key, ws). (key, publishWorkspaceLayout own ws (pq_hostId p)))
       (md_workspaces m)))"

definition forgetPartitions :: "layoutProjection \<Rightarrow> layoutProjection" where
  "forgetPartitions pj = pj\<lparr>pj_partitions := [], pj_stale := AllPartitions\<rparr>"

definition clearProjection :: "layoutProjection \<Rightarrow> layoutProjection" where
  "clearProjection pj = forgetPartitions (pj\<lparr>pj_published := []\<rparr>)"

definition invalidate :: "string option \<Rightarrow> layoutProjection \<Rightarrow> layoutProjection" where
  "invalidate hostId pj = (case (hostId, pj_stale pj) of
     (Some h, Partitions s) \<Rightarrow> pj\<lparr>pj_stale := Partitions (if h \<in> set s then s else s @ [h])\<rparr>
   | _ \<Rightarrow> pj\<lparr>pj_stale := AllPartitions\<rparr>)"

definition loadPartition :: "projectionEnv \<Rightarrow> string \<Rightarrow> projectedPartition" where
  "loadPartition env hostId = \<lparr>pq_hostId = hostId, pq_loaded = en_load env hostId\<rparr>"

definition startStale :: "projectionEnv \<Rightarrow> layoutProjection \<Rightarrow> layoutProjection" where
  "startStale env pj = (case pj_stale pj of
     AllPartitions \<Rightarrow> pj\<lparr>pj_stale := Partitions (uniq (en_hostIds env)), pj_partitions := []\<rparr>
   | Partitions _ \<Rightarrow> pj)"

definition isStale :: "string \<Rightarrow> layoutProjection \<Rightarrow> bool" where
  "isStale hostId pj = (case pj_stale pj of AllPartitions \<Rightarrow> True | Partitions s \<Rightarrow> hostId \<in> set s)"

definition settle :: "string \<Rightarrow> layoutProjection \<Rightarrow> layoutProjection" where
  "settle hostId pj = (case pj_stale pj of
     AllPartitions \<Rightarrow> pj
   | Partitions s \<Rightarrow> pj\<lparr>pj_stale := Partitions (filter (\<lambda>h. h \<noteq> hostId) s)\<rparr>)"

definition cachedPartition ::
  "projectionEnv \<Rightarrow> string \<Rightarrow> layoutProjection \<Rightarrow> projectedPartition \<times> layoutProjection" where
  "cachedPartition env hostId pj =
     (let pj1 = startStale env pj
      in case (if isStale hostId pj1 then None else map_of (pj_partitions pj1) hostId) of
           Some p \<Rightarrow> (p, pj1)
         | None \<Rightarrow>
             (let p = loadPartition env hostId
              in (p, settle hostId (pj1\<lparr>pj_partitions := AList.update hostId p (pj_partitions pj1)\<rparr>))))"

definition loadedPartition ::
  "projectionEnv \<Rightarrow> string \<Rightarrow> bool \<Rightarrow> layoutProjection \<Rightarrow> workspaceLayoutModel option \<times> layoutProjection" where
  "loadedPartition env hostId keep pj =
     (if keep then (let (p, pj') = cachedPartition env hostId pj in (pq_loaded p, pj'))
      else (pq_loaded (loadPartition env hostId), pj))"

text \<open>
  Routing: each workspace is published from the partition that owns it.  In a layout-owner build
  a workspace whose routing fails keeps its last publication; otherwise the failure is thrown.
\<close>

fun routeWorkspaces ::
  "bool \<Rightarrow> projectionEnv \<Rightarrow> string \<Rightarrow> (string \<times> publishedWorkspaceLayout) list
     \<Rightarrow> (string \<times> publishedWorkspaceLayout) list \<times> string list
     \<Rightarrow> routingError + (string \<times> publishedWorkspaceLayout) list \<times> string list" where
  "routeWorkspaces own env hostId [] acc = Inr acc"
| "routeWorkspaces own env hostId ((key, ws) # rest) (projected, unroutable) =
     (case en_homeHostId env key of
        Inl e \<Rightarrow> if own then routeWorkspaces own env hostId rest
                   (projected, if key \<in> set unroutable then unroutable else unroutable @ [key])
                 else Inl e
      | Inr home \<Rightarrow> routeWorkspaces own env hostId rest
          (if home = Some hostId then AList.update key ws projected else projected, unroutable))"

fun routePartitions ::
  "bool \<Rightarrow> projectionEnv \<Rightarrow> (string \<times> projectedPartition) list
     \<Rightarrow> (string \<times> publishedWorkspaceLayout) list \<times> string list
     \<Rightarrow> routingError + (string \<times> publishedWorkspaceLayout) list \<times> string list" where
  "routePartitions own env [] acc = Inr acc"
| "routePartitions own env ((hostId, p) # rest) acc =
     (case routeWorkspaces own env hostId (partitionWorkspaces own p) acc of
        Inl e \<Rightarrow> Inl e
      | Inr acc' \<Rightarrow> routePartitions own env rest acc')"

definition keepUnroutable ::
  "(string \<times> publishedWorkspaceLayout) list \<Rightarrow> string
     \<Rightarrow> (string \<times> publishedWorkspaceLayout) list \<Rightarrow> (string \<times> publishedWorkspaceLayout) list" where
  "keepUnroutable published key projected = (case map_of published key of
     Some kept \<Rightarrow> if map_of projected key = None then AList.update key kept projected else projected
   | None \<Rightarrow> projected)"

definition route ::
  "bool \<Rightarrow> projectionEnv \<Rightarrow> (string \<times> projectedPartition) list
     \<Rightarrow> (string \<times> publishedWorkspaceLayout) list
     \<Rightarrow> routingError + (string \<times> publishedWorkspaceLayout) list" where
  "route own env partitions published =
     (case routePartitions own env partitions ([], []) of
        Inl e \<Rightarrow> Inl e
      | Inr (projected, unroutable) \<Rightarrow> Inr (fold (keepUnroutable published) unroutable projected))"

primrec cachedPartitions ::
  "projectionEnv \<Rightarrow> string list \<Rightarrow> layoutProjection \<Rightarrow> (string \<times> projectedPartition) list \<times> layoutProjection" where
  "cachedPartitions env [] pj = ([], pj)"
| "cachedPartitions env (h # hs) pj =
     (let (p, pj1) = cachedPartition env h pj;
          (ps, pj2) = cachedPartitions env hs pj1
      in ((h, p) # ps, pj2))"

text \<open>A failed routing leaves the new partitions and the old publication.\<close>

definition project ::
  "bool \<Rightarrow> projectionEnv \<Rightarrow> layoutProjection
     \<Rightarrow> (routingError + (string \<times> publishedWorkspaceLayout) list) \<times> layoutProjection" where
  "project own env pj =
     (let (entries, pj1) = cachedPartitions env (en_hostIds env) pj;
          pj2 = pj1\<lparr>pj_partitions := fromEntries entries\<rparr>
      in case route own env (pj_partitions pj2) (pj_published pj2) of
           Inl e \<Rightarrow> (Inl e, pj2)
         | Inr published \<Rightarrow> (Inr published, pj2\<lparr>pj_published := published\<rparr>))"

definition projectFresh ::
  "bool \<Rightarrow> projectionEnv \<Rightarrow> layoutProjection
     \<Rightarrow> routingError + (string \<times> publishedWorkspaceLayout) list" where
  "projectFresh own env pj =
     route own env (fromEntries (map (\<lambda>h. (h, loadPartition env h)) (en_hostIds env))) (pj_published pj)"

section \<open>The cache is coherent\<close>

text \<open>What is cached and not stale is what a load would give now.\<close>

definition coherentCache :: "projectionEnv \<Rightarrow> layoutProjection \<Rightarrow> bool" where
  "coherentCache env pj \<longleftrightarrow> list_all (\<lambda>h. \<not> isStale h pj \<longrightarrow>
     map_of (pj_partitions pj) h = Some (loadPartition env h)) (map fst (pj_partitions pj))"

lemma coherentCache_iff:
  "coherentCache env pj \<longleftrightarrow> (\<forall>h p. \<not> isStale h pj \<longrightarrow> map_of (pj_partitions pj) h = Some p
     \<longrightarrow> p = loadPartition env h)"
proof
  assume co: "coherentCache env pj"
  show "\<forall>h p. \<not> isStale h pj \<longrightarrow> map_of (pj_partitions pj) h = Some p \<longrightarrow> p = loadPartition env h"
  proof (intro allI impI)
    fix h p assume "\<not> isStale h pj" "map_of (pj_partitions pj) h = Some p"
    moreover from this(2) have "h \<in> fst ` set (pj_partitions pj)" by (metis map_of_eq_None_iff option.distinct(1))
    ultimately show "p = loadPartition env h" using co by (auto simp: coherentCache_def list_all_iff)
  qed
next
  assume all: "\<forall>h p. \<not> isStale h pj \<longrightarrow> map_of (pj_partitions pj) h = Some p \<longrightarrow> p = loadPartition env h"
  have "map_of (pj_partitions pj) h = Some (loadPartition env h)"
    if "h \<in> fst ` set (pj_partitions pj)" "\<not> isStale h pj" for h
  proof -
    from that(1) obtain p where "map_of (pj_partitions pj) h = Some p" by (metis map_of_eq_None_iff not_None_eq)
    with all that(2) show ?thesis by blast
  qed
  then show "coherentCache env pj" unfolding coherentCache_def list_all_iff set_map by blast
qed

lemma coherent_fresh [simp]: "coherentCache env freshProjection"
  by (simp add: coherentCache_def freshProjection_def)

lemma coherent_forget [simp]: "coherentCache env (forgetPartitions pj)" "coherentCache env (clearProjection pj)"
  by (simp_all add: coherentCache_def forgetPartitions_def clearProjection_def)

lemma coherent_startStale: "coherentCache env pj \<Longrightarrow> coherentCache env (startStale env pj)"
  by (cases "pj_stale pj") (simp_all add: coherentCache_def startStale_def)

text \<open>A write drops what it changes from the cache.\<close>

lemma coherent_invalidate:
  assumes "coherentCache env pj" "\<And>h. hostId \<noteq> None \<Longrightarrow> h \<noteq> the hostId \<Longrightarrow> en_load env' h = en_load env h"
  shows "coherentCache env' (invalidate hostId pj)"
proof (cases "hostId = None \<or> pj_stale pj = AllPartitions")
  case True
  then have "isStale h (invalidate hostId pj)" for h
    by (auto simp: invalidate_def isStale_def split: option.split dirtyPartitions.split)
  then show ?thesis by (simp add: coherentCache_iff)
next
  case False
  then obtain k s where k: "hostId = Some k" and s: "pj_stale pj = Partitions s"
    by (cases "pj_stale pj") auto
  have "isStale h (invalidate hostId pj) \<longleftrightarrow> h = k \<or> isStale h pj" for h
    by (auto simp: invalidate_def isStale_def k s)
  moreover have "pj_partitions (invalidate hostId pj) = pj_partitions pj" by (simp add: invalidate_def k s)
  ultimately show ?thesis
    using assms by (auto simp: coherentCache_iff loadPartition_def k)
qed

lemma cachedPartition_coherent:
  assumes "coherentCache env pj" "cachedPartition env h pj = (p, pj')"
  shows "p = loadPartition env h" "coherentCache env pj'" "pj_published pj' = pj_published pj"
    "\<not> isStale h pj'" "map_of (pj_partitions pj') h = Some p"
    "\<And>k. k \<noteq> h \<Longrightarrow> isStale k pj' = isStale k (startStale env pj)"
proof -
  let ?s = "startStale env pj"
  have pub: "pj_published ?s = pj_published pj" by (simp add: startStale_def split: dirtyPartitions.split)
  have co: "coherentCache env ?s" by (rule coherent_startStale [OF assms(1)])
  have "p = loadPartition env h \<and> coherentCache env pj' \<and> pj_published pj' = pj_published pj
      \<and> \<not> isStale h pj' \<and> map_of (pj_partitions pj') h = Some p \<and> (\<forall>k. k \<noteq> h \<longrightarrow> isStale k pj' = isStale k ?s)"
  proof (cases "\<not> isStale h ?s \<and> map_of (pj_partitions ?s) h \<noteq> None")
    case True
    then obtain q where q: "map_of (pj_partitions ?s) h = Some q" by blast
    with True co have "q = loadPartition env h" by (auto simp: coherentCache_iff)
    with True q assms(2) co pub show ?thesis by (simp add: cachedPartition_def Let_def)
  next
    case False
    then have none: "(if isStale h ?s then None else map_of (pj_partitions ?s) h) = None" by auto
    with assms(2) have pj': "p = loadPartition env h"
      "pj' = settle h (?s\<lparr>pj_partitions := AList.update h p (pj_partitions ?s)\<rparr>)"
      by (auto simp: cachedPartition_def Let_def)
    have "pj_stale ?s \<noteq> AllPartitions" by (simp add: startStale_def split: dirtyPartitions.split)
    then obtain s where s: "pj_stale ?s = Partitions s" by (cases "pj_stale ?s") auto
    have st: "isStale k pj' \<longleftrightarrow> k \<noteq> h \<and> isStale k ?s" for k
      by (auto simp: pj'(2) settle_def s isStale_def)
    have parts: "map_of (pj_partitions pj') k = (if k = h then Some p else map_of (pj_partitions ?s) k)" for k
      by (simp add: pj'(2) settle_def s update_conv')
    have "pj_published pj' = pj_published pj" by (simp add: pj'(2) settle_def s pub)
    with st parts co pj'(1) show ?thesis by (auto simp: coherentCache_iff split: if_splits)
  qed
  then show "p = loadPartition env h" "coherentCache env pj'" "pj_published pj' = pj_published pj"
    "\<not> isStale h pj'" "map_of (pj_partitions pj') h = Some p"
    "\<And>k. k \<noteq> h \<Longrightarrow> isStale k pj' = isStale k (startStale env pj)" by blast+
qed

lemma cachedPartitions_coherent:
  assumes "coherentCache env pj" "cachedPartitions env hs pj = (entries, pj')"
  shows "entries = map (\<lambda>h. (h, loadPartition env h)) hs" "coherentCache env pj'"
    "pj_published pj' = pj_published pj"
proof -
  have "entries = map (\<lambda>h. (h, loadPartition env h)) hs \<and> coherentCache env pj'
      \<and> pj_published pj' = pj_published pj"
    using assms
  proof (induction hs arbitrary: pj entries)
    case (Cons h hs)
    obtain p pj1 where 1: "cachedPartition env h pj = (p, pj1)" by force
    obtain ps pj2 where 2: "cachedPartitions env hs pj1 = (ps, pj2)" by force
    from Cons.prems(2) 1 2 have e: "entries = (h, p) # ps" "pj' = pj2" by (simp_all add: Let_def)
    note c1 = cachedPartition_coherent [OF Cons.prems(1) 1]
    from Cons.IH [OF c1(2), of ps] 2 e c1 show ?case by simp
  qed auto
  then show "entries = map (\<lambda>h. (h, loadPartition env h)) hs" "coherentCache env pj'"
    "pj_published pj' = pj_published pj" by blast+
qed

text \<open>The projection from the cache is the projection from a fresh load of every partition.\<close>

lemma project_fresh:
  assumes "coherentCache env pj" "project own env pj = (r, pj')"
  shows "r = projectFresh own env pj" "coherentCache env pj'"
    "pj_published pj' = (case r of Inl _ \<Rightarrow> pj_published pj | Inr l \<Rightarrow> l)"
proof -
  obtain entries pj1 where c: "cachedPartitions env (en_hostIds env) pj = (entries, pj1)" by force
  note co = cachedPartitions_coherent [OF assms(1) c]
  have look: "map_of (fromEntries entries) h = Some p \<Longrightarrow> p = loadPartition env h" for h p
    unfolding co(1) map_of_fromEntries by (auto dest!: map_of_SomeD)
  have pj2: "coherentCache env (pj1\<lparr>pj_partitions := fromEntries entries\<rparr>)"
    using look by (simp add: coherentCache_iff)
  from assms(2) co have "r = projectFresh own env pj"
    by (simp add: project_def c Let_def projectFresh_def split: sum.splits)
  moreover have "coherentCache env pj' \<and> pj_published pj' = (case r of Inl _ \<Rightarrow> pj_published pj | Inr l \<Rightarrow> l)"
  proof (cases r)
    case (Inl e)
    with assms(2) co(3) pj2 show ?thesis by (auto simp: project_def c Let_def split: sum.splits)
  next
    case (Inr l)
    with assms(2) have "pj' = pj1\<lparr>pj_partitions := fromEntries entries, pj_published := l\<rparr>"
      by (auto simp: project_def c Let_def split: sum.splits)
    with pj2 Inr show ?thesis by (simp add: coherentCache_iff isStale_def)
  qed
  ultimately show "r = projectFresh own env pj" "coherentCache env pj'"
    "pj_published pj' = (case r of Inl _ \<Rightarrow> pj_published pj | Inr l \<Rightarrow> l)" by blast+
qed

lemma loadedPartition_fresh:
  assumes "coherentCache env pj" "loadedPartition env h keep pj = (m, pj')"
  shows "m = en_load env h" "coherentCache env pj'" "pj_published pj' = pj_published pj"
proof -
  obtain p pj1 where c: "cachedPartition env h pj = (p, pj1)" by force
  note co = cachedPartition_coherent [OF assms(1) c]
  show "m = en_load env h" "coherentCache env pj'" "pj_published pj' = pj_published pj"
    using assms co by (auto simp: loadedPartition_def c loadPartition_def split: if_splits)
qed

section \<open>Every workspace is published from its home\<close>

definition homedIn ::
  "bool \<Rightarrow> projectionEnv \<Rightarrow> (string \<times> projectedPartition) list \<Rightarrow> string \<Rightarrow> publishedWorkspaceLayout \<Rightarrow> bool" where
  "homedIn own env partitions key l \<longleftrightarrow> (\<exists>(h, p)\<in>set partitions.
     en_homeHostId env key = Inr (Some h) \<and> map_of (partitionWorkspaces own p) key = Some l)"

definition routedTo ::
  "bool \<Rightarrow> projectionEnv \<Rightarrow> (string \<times> projectedPartition) list
     \<Rightarrow> (string \<times> publishedWorkspaceLayout) list \<times> string list \<Rightarrow> bool" where
  "routedTo own env ps acc \<longleftrightarrow>
     (\<forall>key l. map_of (fst acc) key = Some l \<longrightarrow> homedIn own env ps key l)
     \<and> (\<forall>key\<in>set (snd acc). \<exists>e. en_homeHostId env key = Inl e)"

lemma routeWorkspaces_routed:
  assumes "routeWorkspaces own env h ws acc = Inr acc'" "routedTo own env ps acc" "(h, p) \<in> set ps"
    "\<And>key l. (key, l) \<in> set ws \<Longrightarrow> map_of (partitionWorkspaces own p) key = Some l"
  shows "routedTo own env ps acc'"
  using assms
proof (induction own env h ws acc rule: routeWorkspaces.induct)
  case (2 own env h key w rest projected unroutable)
  show ?case
  proof (cases "en_homeHostId env key")
    case (Inl e)
    with "2.prems"(1) have "own" by (auto split: if_splits)
    with Inl "2.prems"(1) have step: "routeWorkspaces own env h rest
       (projected, if key \<in> set unroutable then unroutable else unroutable @ [key]) = Inr acc'" by simp
    show ?thesis
    proof (rule "2.IH"(1) [OF Inl \<open>own\<close> step])
      show "routedTo own env ps (projected, if key \<in> set unroutable then unroutable else unroutable @ [key])"
        using "2.prems"(2) Inl by (auto simp: routedTo_def)
    qed (use "2.prems"(3,4) in auto)
  next
    case (Inr home)
    with "2.prems"(1) have step: "routeWorkspaces own env h rest
       (if home = Some h then AList.update key w projected else projected, unroutable) = Inr acc'" by simp
    show ?thesis
    proof (rule "2.IH"(2) [OF Inr step])
      have "homedIn own env ps key w" if "home = Some h"
        unfolding homedIn_def using that Inr "2.prems"(3,4) by auto
      with "2.prems"(2) show "routedTo own env ps
          (if home = Some h then AList.update key w projected else projected, unroutable)"
        by (auto simp: routedTo_def update_conv')
    qed (use "2.prems"(3,4) in auto)
  qed
qed simp

lemma routePartitions_routed:
  assumes "routePartitions own env qs acc = Inr acc'" "routedTo own env ps acc" "set qs \<subseteq> set ps"
  shows "routedTo own env ps acc'"
  using assms
proof (induction own env qs acc rule: routePartitions.induct)
  case (2 own env h p rest acc)
  from "2.prems"(1) obtain acc1 where 1: "routeWorkspaces own env h (partitionWorkspaces own p) acc = Inr acc1"
    and rest: "routePartitions own env rest acc1 = Inr acc'" by (auto split: sum.splits)
  have "distinct (map fst (partitionWorkspaces own p))"
    by (simp add: partitionWorkspaces_def split: option.split)
  then have "(key, l) \<in> set (partitionWorkspaces own p) \<Longrightarrow> map_of (partitionWorkspaces own p) key = Some l"
    for key l by (rule map_of_is_SomeI)
  with routeWorkspaces_routed [OF 1 "2.prems"(2), of p] "2.prems"(3) have "routedTo own env ps acc1" by simp
  with "2.IH" [OF 1 rest] "2.prems"(3) show ?case by simp
qed simp

lemma map_of_keepUnroutables:
  "map_of (fold (keepUnroutable published) ks projected) key = Some l \<Longrightarrow>
     map_of projected key = Some l \<or> key \<in> set ks \<and> map_of published key = Some l"
proof (induction ks arbitrary: projected)
  case (Cons k ks)
  from Cons.prems have "map_of (fold (keepUnroutable published) ks (keepUnroutable published k projected)) key = Some l"
    by simp
  from Cons.IH [OF this] show ?case
    by (auto simp: keepUnroutable_def update_conv' split: option.splits if_splits)
qed simp

lemma route_published:
  assumes "route own env ps published = Inr l" "map_of l key = Some w"
  shows "homedIn own env ps key w \<or> (\<exists>e. en_homeHostId env key = Inl e) \<and> map_of published key = Some w"
proof -
  from assms(1) obtain projected unroutable where
    r: "routePartitions own env ps ([], []) = Inr (projected, unroutable)"
    and l: "l = fold (keepUnroutable published) unroutable projected"
    by (auto simp: route_def split: sum.splits)
  have "routedTo own env ps (projected, unroutable)"
    by (rule routePartitions_routed [OF r]) (simp_all add: routedTo_def)
  with map_of_keepUnroutables [OF assms(2) [unfolded l]] show ?thesis by (auto simp: routedTo_def)
qed

text \<open>What the projection publishes is its home's load, or what it published before.\<close>

lemma projectFresh_homed:
  assumes "projectFresh own env pj = Inr layouts" "map_of layouts key = Some w"
  shows "(\<exists>h m ws. h \<in> set (en_hostIds env) \<and> en_homeHostId env key = Inr (Some h) \<and> en_load env h = Some m
       \<and> (key, ws) \<in> set (md_workspaces m) \<and> w = publishWorkspaceLayout own ws h)
     \<or> (\<exists>e. en_homeHostId env key = Inl e) \<and> map_of (pj_published pj) key = Some w"
proof -
  let ?ps = "fromEntries (map (\<lambda>h. (h, loadPartition env h)) (en_hostIds env))"
  have load: "h \<in> set (en_hostIds env) \<and> p = loadPartition env h" if "(h, p) \<in> set ?ps" for h p
    using that set_fromEntries by fastforce
  from route_published [OF assms(1) [unfolded projectFresh_def] assms(2)] show ?thesis
  proof
    assume "homedIn own env ?ps key w"
    then obtain h p where hp: "(h, p) \<in> set ?ps" "en_homeHostId env key = Inr (Some h)"
      "map_of (partitionWorkspaces own p) key = Some w" by (auto simp: homedIn_def)
    note l = load [OF hp(1)]
    with hp(3) obtain m where m: "en_load env h = Some m"
      by (cases "en_load env h") (auto simp: partitionWorkspaces_def loadPartition_def)
    from hp(3) l m have "(key, w) \<in> set (map (\<lambda>(key, ws). (key, publishWorkspaceLayout own ws h)) (md_workspaces m))"
      by (auto simp: partitionWorkspaces_def loadPartition_def map_of_fromEntries dest!: map_of_SomeD)
    then obtain ws where "(key, ws) \<in> set (md_workspaces m)" "w = publishWorkspaceLayout own ws h" by auto
    with hp(2) l m show ?thesis by blast
  qed blast
qed

lemma keepUnroutables_distinct:
  "distinct (map fst projected) \<Longrightarrow> distinct (map fst (fold (keepUnroutable published) ks projected))"
  by (induction ks arbitrary: projected) (simp_all add: keepUnroutable_def distinct_update split: option.split)

text \<open>A failing route never drops a workspace that was published.\<close>

lemma keepUnroutables_keeps:
  assumes "key \<in> set ks" "map_of published key \<noteq> None"
  shows "map_of (fold (keepUnroutable published) ks projected) key \<noteq> None"
proof -
  have mono: "map_of projected key \<noteq> None \<Longrightarrow>
      map_of (fold (keepUnroutable published) ks projected) key \<noteq> None" for ks projected
    by (induction ks arbitrary: projected) (auto simp: keepUnroutable_def update_conv' split: option.split)
  show ?thesis using assms
  proof (induction ks arbitrary: projected)
    case (Cons k ks)
    show ?case
    proof (cases "k = key")
      case True
      with Cons.prems have "map_of (keepUnroutable published k projected) key \<noteq> None"
        by (auto simp: keepUnroutable_def update_conv' split: option.split)
      then show ?thesis using mono [of "keepUnroutable published k projected" ks] by simp
    next
      case False
      with Cons show ?thesis by simp
    qed
  qed simp
qed

lemma route_distinct:
  assumes "route own env ps published = Inr l"
  shows "distinct (map fst l)"
proof -
  have ws: "routeWorkspaces own env h ws acc = Inr acc' \<Longrightarrow> distinct (map fst (fst acc)) \<Longrightarrow>
      distinct (map fst (fst acc'))" for own env h ws acc acc'
    by (induction own env h ws acc rule: routeWorkspaces.induct)
      (auto simp: distinct_update split: sum.splits if_splits)
  have "routePartitions own env ps acc = Inr acc' \<Longrightarrow> distinct (map fst (fst acc)) \<Longrightarrow>
      distinct (map fst (fst acc'))" for acc acc'
  proof (induction own env ps acc rule: routePartitions.induct)
    case (2 own env h p rest acc)
    then obtain acc1 where 1: "routeWorkspaces own env h (partitionWorkspaces own p) acc = Inr acc1"
      and rest: "routePartitions own env rest acc1 = Inr acc'" by (auto split: sum.splits)
    from "2.IH" [OF 1 rest ws [OF 1 "2.prems"(2)]] show ?case .
  qed simp
  from this [of "([], [])"] assms show ?thesis
    by (force simp: route_def split: sum.splits intro: keepUnroutables_distinct)
qed

end
