(* ===== verification/Layout_Records.thy ===== *)
theory Layout_Records
  imports Published_Layout
begin

text \<open>
  Published layouts as keyed records, and the changes a host streams between two layouts of a
  workspace: \<open>workspace-layout-records.ts\<close>.

  A \<open>Map\<close> is an association list in insertion order.  \<open>stableJson\<close> writes equal text for equal
  values only, so the index keeps the record where the source keeps its text beside it and compares
  records.  Fields of a newer host that this build does not know are not in the records modelled
  here.  A thrown error is a left value.
\<close>

section \<open>Data\<close>

record publishedWorkspaceFields =
  pk_worktreeId :: string
  pk_groups :: "publishedGroup list"
  pk_groupLayout :: "split_node option"

record publishedTabRow = publishedTabFields +
  pr_terminal :: "terminalCreation option"

record publishedTreePane =
  px_leafId :: string
  px_title :: "string option"
  px_liveTitle :: "string option"

record publishedPaneTree =
  py_tabId :: string
  py_root :: "split_node option"
  py_chatLeafId :: "string option"
  py_panes :: "publishedTreePane list"

record publishedPaneBinding =
  pn_leafId :: string
  pn_ptyId :: "string option"
  pn_ptyGeneration :: "int option"
  pn_status :: "paneStartStatus option"
  pn_statusReason :: "string option"
  pn_resumeOutcome :: "paneResumeOutcome option"

record publishedLayoutRecords =
  lr_workspace :: publishedWorkspaceFields
  lr_tabs :: "publishedTabRow list"
  lr_paneTrees :: "publishedPaneTree list"
  lr_bindings :: "publishedPaneBinding list"
  lr_editorFiles :: "publishedEditorFile list"
  lr_browserTabs :: "publishedBrowserTab list"

record 'a layoutRecordChanges =
  ch_set :: "'a list option"
  ch_removed :: "string list option"
  ch_order :: "string list option"

record workspaceLayoutRecordChanges =
  rx_workspace :: "publishedWorkspaceFields option"
  rx_tabs :: "publishedTabRow layoutRecordChanges option"
  rx_paneTrees :: "publishedPaneTree layoutRecordChanges option"
  rx_bindings :: "publishedPaneBinding layoutRecordChanges option"
  rx_editorFiles :: "publishedEditorFile layoutRecordChanges option"
  rx_browserTabs :: "publishedBrowserTab layoutRecordChanges option"

datatype workspaceLayoutRecordChange =
  ChangeRemoved string
| ChangeLayout string publishedWorkspaceLayout
| ChangeRecords string workspaceLayoutRecordChanges

datatype recordsError =
  NoPaneTree string
| MissingFromOrder
| OrderNamesMissing string
| UnknownWorkspace string

fun changeKey :: "workspaceLayoutRecordChange \<Rightarrow> string" where
  "changeKey (ChangeRemoved k) = k"
| "changeKey (ChangeLayout k _) = k"
| "changeKey (ChangeRecords k _) = k"

definition editorFileRecordKey :: "publishedEditorFile \<Rightarrow> string" where
  "editorFileRecordKey f =
     ownedEditorFileId (pf_filePath f) [] (valueOf (pf_runtimeEnvironmentId f))"

section \<open>Splitting and joining\<close>

definition tabRowOf :: "publishedTab \<Rightarrow> publishedTabRow" where
  "tabRowOf t = publishedTabFields.extend (publishedTabFields.truncate t)
     (publishedTabRow.fields (map_option pt_creation (pb_terminal t)))"

definition treePaneOf :: "publishedPane \<Rightarrow> publishedTreePane" where
  "treePaneOf p = \<lparr>px_leafId = pp_leafId p, px_title = pp_title p, px_liveTitle = pp_liveTitle p\<rparr>"

definition paneBindingOf :: "publishedPane \<Rightarrow> publishedPaneBinding option" where
  "paneBindingOf p =
     (if pp_ptyId p \<noteq> None \<or> pp_ptyGeneration p \<noteq> None \<or> pp_status p \<noteq> None
         \<or> pp_statusReason p \<noteq> None \<or> pp_resumeOutcome p \<noteq> None
      then Some \<lparr>pn_leafId = pp_leafId p, pn_ptyId = pp_ptyId p, pn_ptyGeneration = pp_ptyGeneration p,
        pn_status = pp_status p, pn_statusReason = pp_statusReason p,
        pn_resumeOutcome = pp_resumeOutcome p\<rparr>
      else None)"

definition paneTreeOf :: "publishedTab \<Rightarrow> publishedTerminal \<Rightarrow> publishedPaneTree" where
  "paneTreeOf t tm = \<lparr>py_tabId = pb_id t, py_root = pt_root tm, py_chatLeafId = pt_chatLeafId tm,
     py_panes = map treePaneOf (pt_panes tm)\<rparr>"

definition splitPublishedLayout :: "publishedWorkspaceLayout \<Rightarrow> publishedLayoutRecords" where
  "splitPublishedLayout l =
     \<lparr>lr_workspace = \<lparr>pk_worktreeId = pl_worktreeId l, pk_groups = pl_groups l,
        pk_groupLayout = pl_groupLayout l\<rparr>,
      lr_tabs = map tabRowOf (pl_tabs l),
      lr_paneTrees = concat (map (\<lambda>t. case pb_terminal t of None \<Rightarrow> [] | Some tm \<Rightarrow> [paneTreeOf t tm])
        (pl_tabs l)),
      lr_bindings = concat (map (\<lambda>p. case paneBindingOf p of None \<Rightarrow> [] | Some b \<Rightarrow> [b])
        (publishedPanes l)),
      lr_editorFiles = pl_editorFiles l, lr_browserTabs = pl_browserTabs l\<rparr>"

definition keyed :: "('a \<Rightarrow> string) \<Rightarrow> 'a list \<Rightarrow> (string \<times> 'a) list" where
  "keyed keyOf rs = fromEntries (map (\<lambda>r. (keyOf r, r)) rs)"

text \<open>\<open>records.map(...)\<close> with a callback that may throw: the first error ends it.\<close>

primrec mapResult :: "('a \<Rightarrow> 'e + 'b) \<Rightarrow> 'a list \<Rightarrow> 'e + 'b list" where
  "mapResult f [] = Inr []"
| "mapResult f (x # xs) = (case f x of
     Inl e \<Rightarrow> Inl e
   | Inr y \<Rightarrow> (case mapResult f xs of Inl e \<Rightarrow> Inl e | Inr ys \<Rightarrow> Inr (y # ys)))"

definition boundPane :: "(string \<times> publishedPaneBinding) list \<Rightarrow> publishedTreePane \<Rightarrow> publishedPane" where
  "boundPane bindings p = (case map_of bindings (px_leafId p) of
     None \<Rightarrow> \<lparr>pp_leafId = px_leafId p, pp_ptyId = None, pp_ptyGeneration = None, pp_title = px_title p,
       pp_liveTitle = px_liveTitle p, pp_status = None, pp_statusReason = None,
       pp_resumeOutcome = None\<rparr>
   | Some b \<Rightarrow> \<lparr>pp_leafId = px_leafId p, pp_ptyId = pn_ptyId b, pp_ptyGeneration = pn_ptyGeneration b,
       pp_title = px_title p, pp_liveTitle = px_liveTitle p, pp_status = pn_status b,
       pp_statusReason = pn_statusReason b, pp_resumeOutcome = pn_resumeOutcome b\<rparr>)"

definition joinRow ::
  "(string \<times> publishedPaneTree) list \<Rightarrow> (string \<times> publishedPaneBinding) list
     \<Rightarrow> publishedTabRow \<Rightarrow> recordsError + publishedTab" where
  "joinRow trees bindings row =
     (let joined = (\<lambda>terminal. publishedTabFields.extend (publishedTabFields.truncate row)
                      (publishedTab.fields terminal))
      in case pr_terminal row of
           None \<Rightarrow> Inr (joined None)
         | Some creation \<Rightarrow> (case map_of trees (pb_id row) of
             None \<Rightarrow> Inl (NoPaneTree (pb_id row))
           | Some tree \<Rightarrow> Inr (joined (Some \<lparr>pt_root = py_root tree,
               pt_panes = map (boundPane bindings) (py_panes tree),
               pt_chatLeafId = py_chatLeafId tree, pt_creation = creation\<rparr>))))"

definition joinPublishedLayout ::
  "publishedLayoutRecords \<Rightarrow> recordsError + publishedWorkspaceLayout" where
  "joinPublishedLayout rs =
     (let trees = keyed py_tabId (lr_paneTrees rs);
          bindings = keyed pn_leafId (lr_bindings rs)
      in case mapResult (joinRow trees bindings) (lr_tabs rs) of
           Inl e \<Rightarrow> Inl e
         | Inr tabs \<Rightarrow> Inr \<lparr>pl_worktreeId = pk_worktreeId (lr_workspace rs),
             pl_groups = pk_groups (lr_workspace rs), pl_groupLayout = pk_groupLayout (lr_workspace rs),
             pl_tabs = tabs, pl_editorFiles = lr_editorFiles rs, pl_browserTabs = lr_browserTabs rs\<rparr>)"

section \<open>Differences\<close>

record 'a indexedKind =
  ik_order :: "string list"
  ik_byKey :: "(string \<times> 'a) list"

primrec indexFrom ::
  "('a \<Rightarrow> string) \<Rightarrow> 'a list \<Rightarrow> (string \<times> 'a) list \<Rightarrow> (string \<times> 'a) list option" where
  "indexFrom keyOf [] byKey = Some byKey"
| "indexFrom keyOf (r # rs) byKey = (case map_of byKey (keyOf r) of
     Some seen \<Rightarrow> if seen \<noteq> r then None else indexFrom keyOf rs (AList.update (keyOf r) r byKey)
   | None \<Rightarrow> indexFrom keyOf rs (AList.update (keyOf r) r byKey))"

definition indexKind :: "('a \<Rightarrow> string) \<Rightarrow> 'a list \<Rightarrow> 'a indexedKind option" where
  "indexKind keyOf rs =
     map_option (\<lambda>byKey. \<lparr>ik_order = map keyOf rs, ik_byKey = byKey\<rparr>) (indexFrom keyOf rs [])"

record indexedLayoutRecords =
  ix_workspace :: publishedWorkspaceFields
  ix_tabs :: "publishedTabRow indexedKind"
  ix_paneTrees :: "publishedPaneTree indexedKind"
  ix_bindings :: "publishedPaneBinding indexedKind"
  ix_editorFiles :: "publishedEditorFile indexedKind"
  ix_browserTabs :: "publishedBrowserTab indexedKind"

definition indexPublishedLayout :: "publishedWorkspaceLayout \<Rightarrow> indexedLayoutRecords option" where
  "indexPublishedLayout l =
     (let rs = splitPublishedLayout l
      in case (indexKind pb_id (lr_tabs rs), indexKind py_tabId (lr_paneTrees rs),
               indexKind pn_leafId (lr_bindings rs), indexKind editorFileRecordKey (lr_editorFiles rs),
               indexKind pw_id (lr_browserTabs rs)) of
           (Some tabs, Some trees, Some bindings, Some files, Some browserTabs) \<Rightarrow>
             Some \<lparr>ix_workspace = lr_workspace rs, ix_tabs = tabs, ix_paneTrees = trees,
               ix_bindings = bindings, ix_editorFiles = files, ix_browserTabs = browserTabs\<rparr>
         | _ \<Rightarrow> None)"

definition diffKind ::
  "'a indexedKind \<Rightarrow> 'a indexedKind \<Rightarrow> bool \<Rightarrow> 'a layoutRecordChanges option" where
  "diffKind before after ordered =
     (let changed = map snd (filter (\<lambda>(k, r). map_of (ik_byKey before) k \<noteq> Some r) (ik_byKey after));
          removed = filter (\<lambda>k. map_of (ik_byKey after) k = None) (map fst (ik_byKey before));
          order = (if ordered \<and> ik_order before \<noteq> ik_order after then Some (ik_order after) else None)
      in if changed = [] \<and> removed = [] \<and> order = None then None
         else Some \<lparr>ch_set = (if changed \<noteq> [] then Some changed else None),
           ch_removed = (if removed \<noteq> [] then Some removed else None), ch_order = order\<rparr>)"

definition diffRecords ::
  "indexedLayoutRecords \<Rightarrow> indexedLayoutRecords \<Rightarrow> workspaceLayoutRecordChanges" where
  "diffRecords before after =
     \<lparr>rx_workspace = (if ix_workspace before \<noteq> ix_workspace after then Some (ix_workspace after) else None),
      rx_tabs = diffKind (ix_tabs before) (ix_tabs after) True,
      rx_paneTrees = diffKind (ix_paneTrees before) (ix_paneTrees after) False,
      rx_bindings = diffKind (ix_bindings before) (ix_bindings after) False,
      rx_editorFiles = diffKind (ix_editorFiles before) (ix_editorFiles after) True,
      rx_browserTabs = diffKind (ix_browserTabs before) (ix_browserTabs after) True\<rparr>"

definition noRecordChanges :: workspaceLayoutRecordChanges where
  "noRecordChanges = \<lparr>rx_workspace = None, rx_tabs = None, rx_paneTrees = None, rx_bindings = None,
     rx_editorFiles = None, rx_browserTabs = None\<rparr>"

definition diffPublishedLayouts ::
  "string \<Rightarrow> indexedLayoutRecords option \<Rightarrow> indexedLayoutRecords option \<Rightarrow> publishedWorkspaceLayout
     \<Rightarrow> workspaceLayoutRecordChange option" where
  "diffPublishedLayouts key before after layout =
     (case (before, after) of
        (Some b, Some a) \<Rightarrow>
          (let changes = diffRecords b a
           in if changes \<noteq> noRecordChanges then Some (ChangeRecords key changes) else None)
      | _ \<Rightarrow> Some (ChangeLayout key layout))"

section \<open>Applying changes\<close>

definition changedRecords ::
  "'a list \<Rightarrow> 'a layoutRecordChanges \<Rightarrow> ('a \<Rightarrow> string) \<Rightarrow> (string \<times> 'a) list" where
  "changedRecords rs changes keyOf =
     fold (\<lambda>r. AList.update (keyOf r) r) (orElse (ch_set changes) [])
       (fold AList.delete (orElse (ch_removed changes) []) (keyed keyOf rs))"

definition applyKind ::
  "'a list \<Rightarrow> 'a layoutRecordChanges option \<Rightarrow> ('a \<Rightarrow> string) \<Rightarrow> bool \<Rightarrow> recordsError + 'a list" where
  "applyKind rs changes keyOf ordered =
     (case changes of
        None \<Rightarrow> Inr rs
      | Some c \<Rightarrow>
          (let byKey = changedRecords rs c keyOf;
               order = orElse (ch_order c) (map keyOf rs)
           in if \<not> ordered then Inr (map snd byKey)
              else if list_ex (\<lambda>k. k \<notin> set order) (map fst byKey) then Inl MissingFromOrder
              else mapResult (\<lambda>k. case map_of byKey k of
                     None \<Rightarrow> Inl (OrderNamesMissing k) | Some r \<Rightarrow> Inr r) order))"

definition applyRecords ::
  "publishedLayoutRecords \<Rightarrow> workspaceLayoutRecordChanges \<Rightarrow> recordsError + publishedLayoutRecords" where
  "applyRecords rs c =
     (case applyKind (lr_tabs rs) (rx_tabs c) pb_id True of
        Inl e \<Rightarrow> Inl e
      | Inr tabs \<Rightarrow>
     (case applyKind (lr_paneTrees rs) (rx_paneTrees c) py_tabId False of
        Inl e \<Rightarrow> Inl e
      | Inr trees \<Rightarrow>
     (case applyKind (lr_bindings rs) (rx_bindings c) pn_leafId False of
        Inl e \<Rightarrow> Inl e
      | Inr bindings \<Rightarrow>
     (case applyKind (lr_editorFiles rs) (rx_editorFiles c) editorFileRecordKey True of
        Inl e \<Rightarrow> Inl e
      | Inr files \<Rightarrow>
     (case applyKind (lr_browserTabs rs) (rx_browserTabs c) pw_id True of
        Inl e \<Rightarrow> Inl e
      | Inr browserTabs \<Rightarrow>
          Inr \<lparr>lr_workspace = orElse (rx_workspace c) (lr_workspace rs), lr_tabs = tabs,
            lr_paneTrees = trees, lr_bindings = bindings, lr_editorFiles = files,
            lr_browserTabs = browserTabs\<rparr>)))))"

definition applyWorkspaceLayoutRecordChange ::
  "publishedWorkspaceLayout option \<Rightarrow> workspaceLayoutRecordChange
     \<Rightarrow> recordsError + publishedWorkspaceLayout option" where
  "applyWorkspaceLayoutRecordChange before change =
     (case change of
        ChangeRemoved _ \<Rightarrow> Inr None
      | ChangeLayout _ layout \<Rightarrow> Inr (Some layout)
      | ChangeRecords key changes \<Rightarrow> (case before of
          None \<Rightarrow> Inl (UnknownWorkspace key)
        | Some l \<Rightarrow> (case applyRecords (splitPublishedLayout l) changes of
            Inl e \<Rightarrow> Inl e
          | Inr rs \<Rightarrow> (case joinPublishedLayout rs of Inl e \<Rightarrow> Inl e | Inr l' \<Rightarrow> Inr (Some l')))))"

section \<open>Keyed lists\<close>

text \<open>A list in which a key stands for one record: what \<open>indexKind\<close> accepts.\<close>

definition functional :: "('a \<Rightarrow> string) \<Rightarrow> 'a list \<Rightarrow> bool" where
  "functional keyOf rs \<longleftrightarrow> (\<forall>r\<in>set rs. \<forall>s\<in>set rs. keyOf r = keyOf s \<longrightarrow> r = s)"

lemma keyed_SomeD: "map_of (keyed keyOf rs) k = Some r \<Longrightarrow> r \<in> set rs \<and> keyOf r = k"
  by (auto simp: keyed_def map_of_fromEntries dest!: map_of_SomeD)

lemma keyed_total: "r \<in> set rs \<Longrightarrow> \<exists>s. map_of (keyed keyOf rs) (keyOf r) = Some s"
proof -
  assume "r \<in> set rs"
  then have "keyOf r \<in> fst ` set (keyed keyOf rs)"
    by (auto simp: keyed_def keys_fromEntries image_image)
  then show ?thesis by (metis map_of_eq_None_iff not_None_eq)
qed

lemma keyed_functional:
  assumes "functional keyOf rs" "r \<in> set rs"
  shows "map_of (keyed keyOf rs) (keyOf r) = Some r"
  using keyed_total [OF assms(2), of keyOf] keyed_SomeD [of keyOf rs] assms
  unfolding functional_def by metis

lemma keyed_None: "map_of (keyed keyOf rs) k = None \<longleftrightarrow> k \<notin> keyOf ` set rs"
  by (auto simp: keyed_def map_of_eq_None_iff keys_fromEntries image_image)

lemma distinct_functional: "distinct (map keyOf rs) \<Longrightarrow> functional keyOf rs"
  by (auto simp: functional_def distinct_map inj_on_def)

text \<open>Equal lookups and equal key orders make equal lists.\<close>

lemma functional_list_eq:
  assumes "functional keyOf as" "functional keyOf bs" "map keyOf as = map keyOf bs"
    and "\<And>k. map_of (keyed keyOf as) k = map_of (keyed keyOf bs) k"
  shows "as = bs"
proof (rule nth_equalityI)
  show len: "length as = length bs" using assms(3) by (metis length_map)
  fix i assume i: "i < length as"
  then have k: "keyOf (as ! i) = keyOf (bs ! i)" using assms(3) len by (metis nth_map)
  have "Some (as ! i) = map_of (keyed keyOf as) (keyOf (as ! i))"
    using keyed_functional [OF assms(1) nth_mem [OF i]] by simp
  also have "\<dots> = Some (bs ! i)"
    unfolding assms(4) k using keyed_functional [OF assms(2)] i len by simp
  finally show "as ! i = bs ! i" by simp
qed

lemma mapResult_Inr: "(\<And>x. x \<in> set xs \<Longrightarrow> f x = Inr (g x)) \<Longrightarrow> mapResult f xs = Inr (map g xs)"
  by (induction xs) auto

lemma mapResult_lookup:
  assumes "functional keyOf rs" "\<And>k. map_of m k = map_of (keyed keyOf rs) k"
  shows "mapResult (\<lambda>k. case map_of m k of None \<Rightarrow> Inl (err k) | Some r \<Rightarrow> Inr r) (map keyOf rs) = Inr rs"
proof -
  have "mapResult (\<lambda>k. case map_of m k of None \<Rightarrow> Inl (err k) | Some r \<Rightarrow> Inr r) (map keyOf rs)
      = Inr (map (\<lambda>k. the (map_of (keyed keyOf rs) k)) (map keyOf rs))"
    by (rule mapResult_Inr) (auto simp: assms(2) keyed_functional [OF assms(1)])
  also have "map (\<lambda>k. the (map_of (keyed keyOf rs) k)) (map keyOf rs) = rs"
    using keyed_functional [OF assms(1)] by (simp add: map_idI)
  finally show ?thesis .
qed

section \<open>The index of a kind\<close>

lemma indexFrom_Some:
  assumes "indexFrom keyOf rs m = Some m'"
  shows "m' = fold (\<lambda>(k, v) m. AList.update k v m) (map (\<lambda>r. (keyOf r, r)) rs) m"
    and "\<And>r. r \<in> set rs \<Longrightarrow> map_of m' (keyOf r) = Some r"
    and "\<And>k v. map_of m k = Some v \<Longrightarrow> map_of m' k = Some v"
proof -
  have "m' = fold (\<lambda>(k, v) m. AList.update k v m) (map (\<lambda>r. (keyOf r, r)) rs) m
      \<and> (\<forall>r\<in>set rs. map_of m' (keyOf r) = Some r)
      \<and> (\<forall>k v. map_of m k = Some v \<longrightarrow> map_of m' k = Some v)"
    using assms
  proof (induction rs arbitrary: m)
    case (Cons r rs)
    from Cons.prems have step: "indexFrom keyOf rs (AList.update (keyOf r) r m) = Some m'"
      and seen: "map_of m (keyOf r) = None \<or> map_of m (keyOf r) = Some r"
      by (auto split: option.splits if_splits)
    from Cons.IH [OF step] have IH:
      "m' = fold (\<lambda>(k, v) m. AList.update k v m) (map (\<lambda>r. (keyOf r, r)) rs) (AList.update (keyOf r) r m)"
      "\<forall>s\<in>set rs. map_of m' (keyOf s) = Some s"
      "\<forall>k v. map_of (AList.update (keyOf r) r m) k = Some v \<longrightarrow> map_of m' k = Some v" by blast+
    have "map_of m' (keyOf r) = Some r" using IH(3) by (simp add: update_conv')
    moreover have "map_of m' k = Some v" if "map_of m k = Some v" for k v
      using IH(3) seen that by (cases "k = keyOf r") (auto simp: update_conv')
    ultimately show ?case using IH(1,2) by simp
  qed simp
  then show "m' = fold (\<lambda>(k, v) m. AList.update k v m) (map (\<lambda>r. (keyOf r, r)) rs) m"
    "\<And>r. r \<in> set rs \<Longrightarrow> map_of m' (keyOf r) = Some r"
    "\<And>k v. map_of m k = Some v \<Longrightarrow> map_of m' k = Some v" by blast+
qed

lemma indexKind_Some:
  assumes "indexKind keyOf rs = Some i"
  shows ik_order_index: "ik_order i = map keyOf rs"
    and ik_byKey_index: "ik_byKey i = keyed keyOf rs"
    and functional_index: "functional keyOf rs"
proof -
  from assms obtain m where m: "indexFrom keyOf rs [] = Some m"
    and i: "i = \<lparr>ik_order = map keyOf rs, ik_byKey = m\<rparr>" by (auto simp: indexKind_def)
  show "ik_order i = map keyOf rs" "ik_byKey i = keyed keyOf rs"
    using indexFrom_Some(1) [OF m] by (simp_all add: i keyed_def fromEntries_def)
  show "functional keyOf rs" unfolding functional_def
    using indexFrom_Some(2) [OF m] by (metis option.inject)
qed

lemma indexKind_functional: "functional keyOf rs \<Longrightarrow> indexKind keyOf rs \<noteq> None"
proof -
  assume f: "functional keyOf rs"
  have "\<exists>m'. indexFrom keyOf ss m = Some m'"
    if "set ss \<subseteq> set rs" "\<And>k v. map_of m k = Some v \<Longrightarrow> v \<in> set rs \<and> keyOf v = k" for ss m
    using that
  proof (induction ss arbitrary: m)
    case (Cons r ss)
    have seen: "map_of m (keyOf r) = None \<or> map_of m (keyOf r) = Some r"
      using Cons.prems f unfolding functional_def by (cases "map_of m (keyOf r)") auto
    have "\<exists>m'. indexFrom keyOf ss (AList.update (keyOf r) r m) = Some m'"
      using Cons.prems by (intro Cons.IH) (auto simp: update_conv' split: if_splits)
    with seen show ?case by auto
  qed simp
  from this [of rs "[]"] show ?thesis by (auto simp: indexKind_def)
qed

section \<open>Applying a difference\<close>

lemma map_of_fold_delete: "map_of (fold AList.delete ks m) k = (if k \<in> set ks then None else map_of m k)"
  by (induction ks arbitrary: m) (auto simp: delete_conv')

lemma map_of_fold_update:
  "map_of (fold (\<lambda>r. AList.update (keyOf r) r) rs m) k
     = (case map_of (keyed keyOf rs) k of None \<Rightarrow> map_of m k | Some r \<Rightarrow> Some r)"
  by (induction rs rule: rev_induct) (auto simp: keyed_def update_conv')

lemma keyed_changed:
  assumes "functional keyOf as"
  shows "map_of (keyed keyOf (map snd (filter (\<lambda>(k, r). map_of before k \<noteq> Some r) (keyed keyOf as)))) k
     = (case map_of (keyed keyOf as) k of
          None \<Rightarrow> None | Some r \<Rightarrow> if map_of before k = Some r then None else Some r)"
proof -
  let ?S = "map snd (filter (\<lambda>(k, r). map_of before k \<noteq> Some r) (keyed keyOf as))"
  have entry: "(k, r) \<in> set (keyed keyOf as) \<longleftrightarrow> map_of (keyed keyOf as) k = Some r" for k r
    by (simp add: keyed_def)
  have mem: "r \<in> set ?S \<longleftrightarrow> map_of (keyed keyOf as) (keyOf r) = Some r \<and> map_of before (keyOf r) \<noteq> Some r" for r
  proof -
    have "r \<in> set ?S \<longleftrightarrow> (\<exists>k. (k, r) \<in> set (keyed keyOf as) \<and> map_of before k \<noteq> Some r)" by force
    also have "\<dots> \<longleftrightarrow> (\<exists>k. map_of (keyed keyOf as) k = Some r \<and> map_of before k \<noteq> Some r)"
      unfolding entry ..
    also have "\<dots> \<longleftrightarrow> map_of (keyed keyOf as) (keyOf r) = Some r \<and> map_of before (keyOf r) \<noteq> Some r"
      using keyed_SomeD [of keyOf as _ r] by blast
    finally show ?thesis .
  qed
  have "functional keyOf ?S" unfolding functional_def using mem by (metis option.inject)
  note at = keyed_functional [OF this]
  show ?thesis
  proof (cases "map_of (keyed keyOf ?S) k")
    case None
    have "map_of before k = Some r" if r: "map_of (keyed keyOf as) k = Some r" for r
    proof (rule ccontr)
      assume "map_of before k \<noteq> Some r"
      moreover have "keyOf r = k" using keyed_SomeD [OF r] by simp
      ultimately have "r \<in> set ?S" using r mem by blast
      from at [OF this] None \<open>keyOf r = k\<close> show False by simp
    qed
    with None show ?thesis by (simp split: option.split)
  next
    case (Some r)
    from keyed_SomeD [OF Some] have "r \<in> set ?S" "keyOf r = k" by blast+
    with mem have "map_of (keyed keyOf as) k = Some r" "map_of before k \<noteq> Some r" by blast+
    with Some show ?thesis by simp
  qed
qed

text \<open>The two sides of a difference of one kind.\<close>

definition kindDiff :: "('a \<Rightarrow> string) \<Rightarrow> 'a list \<Rightarrow> 'a list \<Rightarrow> bool \<Rightarrow> 'a layoutRecordChanges option" where
  "kindDiff keyOf bs as ordered =
     diffKind \<lparr>ik_order = map keyOf bs, ik_byKey = keyed keyOf bs\<rparr>
       \<lparr>ik_order = map keyOf as, ik_byKey = keyed keyOf as\<rparr> ordered"

lemma kindDiff_None:
  assumes "functional keyOf as" "kindDiff keyOf bs as ordered = None"
  shows "map_of (keyed keyOf bs) k = map_of (keyed keyOf as) k"
    and "ordered \<Longrightarrow> map keyOf bs = map keyOf as"
proof -
  from assms(2) have S: "map snd (filter (\<lambda>(k, r). map_of (keyed keyOf bs) k \<noteq> Some r) (keyed keyOf as)) = []"
    and R: "filter (\<lambda>k. map_of (keyed keyOf as) k = None) (map fst (keyed keyOf bs)) = []"
    and o: "ordered \<Longrightarrow> map keyOf bs = map keyOf as"
    by (auto simp: kindDiff_def diffKind_def Let_def split: if_splits)
  show "ordered \<Longrightarrow> map keyOf bs = map keyOf as" by (rule o)
  show "map_of (keyed keyOf bs) k = map_of (keyed keyOf as) k"
  proof (cases "map_of (keyed keyOf as) k")
    case None
    then have "k \<notin> fst ` set (keyed keyOf bs)" using R by (auto simp: filter_empty_conv)
    with None show ?thesis by (metis map_of_eq_None_iff)
  next
    case (Some r)
    then show ?thesis using keyed_changed [OF assms(1), of "keyed keyOf bs" k] unfolding S
      by (auto simp: keyed_def split: if_splits)
  qed
qed

lemma kindDiff_Some:
  assumes "functional keyOf as" "kindDiff keyOf bs as ordered = Some c"
  shows "map_of (changedRecords bs c keyOf) k = map_of (keyed keyOf as) k"
    and "ordered \<Longrightarrow> orElse (ch_order c) (map keyOf bs) = map keyOf as"
proof -
  let ?S = "map snd (filter (\<lambda>(k, r). map_of (keyed keyOf bs) k \<noteq> Some r) (keyed keyOf as))"
  let ?R = "filter (\<lambda>k. map_of (keyed keyOf as) k = None) (map fst (keyed keyOf bs))"
  from assms(2) have S: "orElse (ch_set c) [] = ?S" and R: "orElse (ch_removed c) [] = ?R"
    and O: "ch_order c = (if ordered \<and> map keyOf bs \<noteq> map keyOf as then Some (map keyOf as) else None)"
    by (auto simp: kindDiff_def diffKind_def Let_def split: if_splits)
  show "ordered \<Longrightarrow> orElse (ch_order c) (map keyOf bs) = map keyOf as" by (simp add: O)
  have removed: "k \<in> set ?R \<longleftrightarrow> map_of (keyed keyOf as) k = None \<and> map_of (keyed keyOf bs) k \<noteq> None"
    by (auto simp: map_of_eq_None_iff)
  show "map_of (changedRecords bs c keyOf) k = map_of (keyed keyOf as) k"
    unfolding changedRecords_def S R map_of_fold_update map_of_fold_delete keyed_changed [OF assms(1)] removed
    by (auto split: option.split)
qed

lemma applyKind_ordered:
  assumes "functional keyOf bs" "functional keyOf as"
  shows "applyKind bs (kindDiff keyOf bs as True) keyOf True = Inr as"
proof (cases "kindDiff keyOf bs as True")
  case None
  with functional_list_eq [OF assms] kindDiff_None [OF assms(2) None] show ?thesis
    by (simp add: applyKind_def)
next
  case (Some c)
  note look = kindDiff_Some [OF assms(2) Some]
  have "fst ` set (changedRecords bs c keyOf) \<subseteq> keyOf ` set as"
    using look(1) keyed_None [of keyOf as] map_of_eq_None_iff [of "changedRecords bs c keyOf"]
    by (metis subsetI)
  then have "\<not> list_ex (\<lambda>k. k \<notin> set (map keyOf as)) (map fst (changedRecords bs c keyOf))"
    by (auto simp: list_ex_iff)
  with mapResult_lookup [OF assms(2) look(1), of OrderNamesMissing] show ?thesis
    by (simp add: applyKind_def Some Let_def look(2))
qed

lemma applyKind_unordered:
  assumes "functional keyOf bs" "functional keyOf as"
  shows "\<exists>xs. applyKind bs (kindDiff keyOf bs as False) keyOf False = Inr xs
     \<and> (\<forall>k. map_of (keyed keyOf xs) k = map_of (keyed keyOf as) k)"
proof (cases "kindDiff keyOf bs as False")
  case None
  with kindDiff_None [OF assms(2) None] show ?thesis by (simp add: applyKind_def)
next
  case (Some c)
  note look = kindDiff_Some(1) [OF assms(2) Some]
  let ?m = "changedRecords bs c keyOf"
  have d: "distinct (map fst ?m)"
  proof -
    have "distinct (map fst (fold AList.delete ks m))" if "distinct (map fst m)" for ks and m :: "(string \<times> 'a) list"
      using that by (induction ks arbitrary: m) (simp_all add: distinct_delete)
    moreover have "distinct (map fst (fold (\<lambda>r. AList.update (keyOf r) r) rs m))" if "distinct (map fst m)"
      for rs m using that by (induction rs arbitrary: m) (simp_all add: distinct_update)
    ultimately show ?thesis by (simp add: changedRecords_def keyed_def)
  qed
  have "keyOf r = k" if "(k, r) \<in> set ?m" for k r
    using look [of k] map_of_is_SomeI [OF d that] keyed_SomeD [of keyOf as k r] by simp
  then have "map (\<lambda>r. (keyOf r, r)) (map snd ?m) = ?m" by (auto intro!: map_idI)
  then have "keyed keyOf (map snd ?m) = ?m" using fromEntries_distinct [OF d] by (simp add: keyed_def)
  then show ?thesis by (simp add: applyKind_def Some look)
qed

section \<open>Joining\<close>

text \<open>
  Two panes of a layout with one id have one binding; a layout whose pane ids are unique does.
\<close>

definition panesAgree :: "publishedWorkspaceLayout \<Rightarrow> bool" where
  "panesAgree l \<longleftrightarrow> list_all (\<lambda>p. list_all (\<lambda>q. pp_leafId p = pp_leafId q \<longrightarrow>
     paneBindingOf p = paneBindingOf q) (publishedPanes l)) (publishedPanes l)"

lemma distinct_panesAgree: "distinct (map pp_leafId (publishedPanes l)) \<Longrightarrow> panesAgree l"
  by (auto simp: panesAgree_def list_all_iff distinct_map inj_on_def)

lemma truncate_tabRowOf [simp]: "publishedTabFields.truncate (tabRowOf t) = publishedTabFields.truncate t"
  by (simp add: tabRowOf_def publishedTabFields.defs publishedTabRow.defs)

lemma tabRowOf_fields [simp]:
  "pb_id (tabRowOf t) = pb_id t" "pr_terminal (tabRowOf t) = map_option pt_creation (pb_terminal t)"
  by (simp_all add: tabRowOf_def publishedTabFields.defs publishedTabRow.defs)

lemma extend_terminal:
  "publishedTabFields.extend (publishedTabFields.truncate t) (publishedTab.fields (pb_terminal t)) = t"
  by (simp add: publishedTabFields.defs publishedTab.defs)

lemma set_present:
  "y \<in> set (concat (map (\<lambda>x. case f x of None \<Rightarrow> [] | Some z \<Rightarrow> [g x z]) xs))
     \<longleftrightarrow> (\<exists>x\<in>set xs. \<exists>z. f x = Some z \<and> y = g x z)"
proof (induction xs)
  case (Cons a xs)
  then show ?case by (cases "f a") auto
qed simp

lemma boundPane_tree:
  assumes f: "functional pn_leafId (lr_bindings (splitPublishedLayout l))" and agree: "panesAgree l"
    and look: "\<And>k. map_of bindings k = map_of (keyed pn_leafId (lr_bindings (splitPublishedLayout l))) k"
    and p: "p \<in> set (publishedPanes l)"
  shows "boundPane bindings (treePaneOf p) = p"
proof -
  let ?bs = "lr_bindings (splitPublishedLayout l)"
  have mem: "b \<in> set ?bs \<longleftrightarrow> (\<exists>q\<in>set (publishedPanes l). paneBindingOf q = Some b)" for b
    by (simp add: splitPublishedLayout_def set_present) metis
  have leaf: "paneBindingOf q = Some b \<Longrightarrow> pn_leafId b = pp_leafId q" for q b
    by (auto simp: paneBindingOf_def split: if_splits)
  have bound: "map_of bindings (pp_leafId p) = paneBindingOf p"
  proof (cases "paneBindingOf p")
    case (Some b)
    with mem p have "b \<in> set ?bs" by blast
    from keyed_functional [OF f this] leaf [OF Some] Some look show ?thesis by simp
  next
    case None
    have False if b: "map_of bindings (pp_leafId p) = Some b" for b
    proof -
      from b have "map_of (keyed pn_leafId ?bs) (pp_leafId p) = Some b" unfolding look .
      from keyed_SomeD [OF this] have "b \<in> set ?bs" and k: "pn_leafId b = pp_leafId p" by blast+
      with mem obtain q where q: "q \<in> set (publishedPanes l)" "paneBindingOf q = Some b" by blast
      from leaf [OF q(2)] k have "pp_leafId q = pp_leafId p" by simp
      with agree p q(1) have "paneBindingOf q = paneBindingOf p"
        unfolding panesAgree_def list_all_iff by blast
      with q(2) None show False by simp
    qed
    with None show ?thesis by (cases "map_of bindings (pp_leafId p)") auto
  qed
  show ?thesis
    by (rule publishedPane.equality)
      (use bound in \<open>auto simp: boundPane_def treePaneOf_def paneBindingOf_def split: if_splits\<close>)
qed

lemma join_same_lookups:
  assumes trees: "functional py_tabId (lr_paneTrees (splitPublishedLayout l))"
    and bindings: "functional pn_leafId (lr_bindings (splitPublishedLayout l))"
    and agree: "panesAgree l"
    and lt: "\<And>k. map_of (keyed py_tabId ts) k
        = map_of (keyed py_tabId (lr_paneTrees (splitPublishedLayout l))) k"
    and lb: "\<And>k. map_of (keyed pn_leafId bs) k
        = map_of (keyed pn_leafId (lr_bindings (splitPublishedLayout l))) k"
  shows "joinPublishedLayout ((splitPublishedLayout l)\<lparr>lr_paneTrees := ts, lr_bindings := bs\<rparr>) = Inr l"
proof -
  have row: "joinRow (keyed py_tabId ts) (keyed pn_leafId bs) (tabRowOf t) = Inr t"
    if t: "t \<in> set (pl_tabs l)" for t
  proof (cases "pb_terminal t")
    case None
    then show ?thesis using extend_terminal [of t] by (simp add: joinRow_def)
  next
    case (Some tm)
    from t Some have "paneTreeOf t tm \<in> set (lr_paneTrees (splitPublishedLayout l))"
      by (simp add: splitPublishedLayout_def set_present) metis
    from keyed_functional [OF trees this] lt
    have tree: "map_of (keyed py_tabId ts) (pb_id t) = Some (paneTreeOf t tm)"
      by (simp add: paneTreeOf_def)
    have "set (pt_panes tm) \<subseteq> set (publishedPanes l)"
      using t Some by (force simp: publishedPanes_def panesOfPublished_def)
    then have "map (boundPane (keyed pn_leafId bs) \<circ> treePaneOf) (pt_panes tm) = pt_panes tm"
      using boundPane_tree [OF bindings agree lb] by (intro map_idI) auto
    then have "\<lparr>pt_root = py_root (paneTreeOf t tm),
        pt_panes = map (boundPane (keyed pn_leafId bs)) (py_panes (paneTreeOf t tm)),
        pt_chatLeafId = py_chatLeafId (paneTreeOf t tm), pt_creation = pt_creation tm\<rparr> = tm"
      by (simp add: paneTreeOf_def)
    then show ?thesis using extend_terminal [of t] Some tree by (simp add: joinRow_def)
  qed
  have "mapResult (joinRow (keyed py_tabId ts) (keyed pn_leafId bs)) (map tabRowOf (pl_tabs l)) = Inr (pl_tabs l)"
  proof -
    have "mapResult (joinRow (keyed py_tabId ts) (keyed pn_leafId bs)) (map tabRowOf us) = Inr us"
      if "set us \<subseteq> set (pl_tabs l)" for us using that by (induction us) (auto simp: row)
    then show ?thesis by simp
  qed
  then show ?thesis by (simp add: joinPublishedLayout_def splitPublishedLayout_def Let_def)
qed

section \<open>The changes between two layouts\<close>

lemma indexPublishedLayout_Some:
  assumes "indexPublishedLayout l = Some i"
  defines "rs \<equiv> splitPublishedLayout l"
  shows "functional pb_id (lr_tabs rs)" "functional py_tabId (lr_paneTrees rs)"
    "functional pn_leafId (lr_bindings rs)" "functional editorFileRecordKey (lr_editorFiles rs)"
    "functional pw_id (lr_browserTabs rs)"
    and "ix_workspace i = lr_workspace rs"
    and "ix_tabs i = \<lparr>ik_order = map pb_id (lr_tabs rs), ik_byKey = keyed pb_id (lr_tabs rs)\<rparr>"
    and "ix_paneTrees i = \<lparr>ik_order = map py_tabId (lr_paneTrees rs), ik_byKey = keyed py_tabId (lr_paneTrees rs)\<rparr>"
    and "ix_bindings i = \<lparr>ik_order = map pn_leafId (lr_bindings rs), ik_byKey = keyed pn_leafId (lr_bindings rs)\<rparr>"
    and "ix_editorFiles i = \<lparr>ik_order = map editorFileRecordKey (lr_editorFiles rs),
       ik_byKey = keyed editorFileRecordKey (lr_editorFiles rs)\<rparr>"
    and "ix_browserTabs i = \<lparr>ik_order = map pw_id (lr_browserTabs rs), ik_byKey = keyed pw_id (lr_browserTabs rs)\<rparr>"
proof -
  from assms(1) obtain t p b f w where
    k: "indexKind pb_id (lr_tabs rs) = Some t" "indexKind py_tabId (lr_paneTrees rs) = Some p"
      "indexKind pn_leafId (lr_bindings rs) = Some b"
      "indexKind editorFileRecordKey (lr_editorFiles rs) = Some f"
      "indexKind pw_id (lr_browserTabs rs) = Some w"
    and i: "i = \<lparr>ix_workspace = lr_workspace rs, ix_tabs = t, ix_paneTrees = p, ix_bindings = b,
      ix_editorFiles = f, ix_browserTabs = w\<rparr>"
    by (auto simp: indexPublishedLayout_def rs_def Let_def split: option.splits)
  show "functional pb_id (lr_tabs rs)" "functional py_tabId (lr_paneTrees rs)"
    "functional pn_leafId (lr_bindings rs)" "functional editorFileRecordKey (lr_editorFiles rs)"
    "functional pw_id (lr_browserTabs rs)" using k by (blast intro: functional_index)+
  have "x = \<lparr>ik_order = map g zs, ik_byKey = keyed g zs\<rparr>" if "indexKind g zs = Some x" for g :: "'z \<Rightarrow> string" and zs x
    using ik_order_index [OF that] ik_byKey_index [OF that] by (cases x) simp
  show "ix_workspace i = lr_workspace rs"
    "ix_tabs i = \<lparr>ik_order = map pb_id (lr_tabs rs), ik_byKey = keyed pb_id (lr_tabs rs)\<rparr>"
    "ix_paneTrees i = \<lparr>ik_order = map py_tabId (lr_paneTrees rs), ik_byKey = keyed py_tabId (lr_paneTrees rs)\<rparr>"
    "ix_bindings i = \<lparr>ik_order = map pn_leafId (lr_bindings rs), ik_byKey = keyed pn_leafId (lr_bindings rs)\<rparr>"
    "ix_editorFiles i = \<lparr>ik_order = map editorFileRecordKey (lr_editorFiles rs),
       ik_byKey = keyed editorFileRecordKey (lr_editorFiles rs)\<rparr>"
    "ix_browserTabs i = \<lparr>ik_order = map pw_id (lr_browserTabs rs), ik_byKey = keyed pw_id (lr_browserTabs rs)\<rparr>"
    using k unfolding i by (auto intro!: indexedKind.equality simp: indexKind_Some)
qed

lemma applyRecords_diff:
  assumes a: "indexPublishedLayout a = Some ia" and b: "indexPublishedLayout b = Some ib"
    and agree: "panesAgree b"
  shows "\<exists>rs. applyRecords (splitPublishedLayout a) (diffRecords ia ib) = Inr rs
     \<and> joinPublishedLayout rs = Inr b"
proof -
  note A = indexPublishedLayout_Some [OF a] and B = indexPublishedLayout_Some [OF b]
  let ?a = "splitPublishedLayout a" and ?b = "splitPublishedLayout b"
  from applyKind_unordered [OF A(2) B(2)] obtain ts where
    ts: "applyKind (lr_paneTrees ?a) (kindDiff py_tabId (lr_paneTrees ?a) (lr_paneTrees ?b) False) py_tabId False = Inr ts"
      "\<And>k. map_of (keyed py_tabId ts) k = map_of (keyed py_tabId (lr_paneTrees ?b)) k" by blast
  from applyKind_unordered [OF A(3) B(3)] obtain bs where
    bs: "applyKind (lr_bindings ?a) (kindDiff pn_leafId (lr_bindings ?a) (lr_bindings ?b) False) pn_leafId False = Inr bs"
      "\<And>k. map_of (keyed pn_leafId bs) k = map_of (keyed pn_leafId (lr_bindings ?b)) k" by blast
  have d: "diffRecords ia ib =
     \<lparr>rx_workspace = (if lr_workspace ?a \<noteq> lr_workspace ?b then Some (lr_workspace ?b) else None),
      rx_tabs = kindDiff pb_id (lr_tabs ?a) (lr_tabs ?b) True,
      rx_paneTrees = kindDiff py_tabId (lr_paneTrees ?a) (lr_paneTrees ?b) False,
      rx_bindings = kindDiff pn_leafId (lr_bindings ?a) (lr_bindings ?b) False,
      rx_editorFiles = kindDiff editorFileRecordKey (lr_editorFiles ?a) (lr_editorFiles ?b) True,
      rx_browserTabs = kindDiff pw_id (lr_browserTabs ?a) (lr_browserTabs ?b) True\<rparr>"
    unfolding diffRecords_def kindDiff_def A B ..
  have ws: "orElse (if lr_workspace ?a \<noteq> lr_workspace ?b then Some (lr_workspace ?b) else None) (lr_workspace ?a)
      = lr_workspace ?b" by simp
  have "applyRecords ?a (diffRecords ia ib) = Inr (?b\<lparr>lr_paneTrees := ts, lr_bindings := bs\<rparr>)"
    unfolding applyRecords_def d
    using applyKind_ordered [OF A(1) B(1)] applyKind_ordered [OF A(4) B(4)]
      applyKind_ordered [OF A(5) B(5)] ts(1) bs(1) ws by simp
  with join_same_lookups [OF B(2,3) agree ts(2) bs(2)] show ?thesis by blast
qed

text \<open>A whole layout splits and joins back.\<close>

lemma join_split:
  assumes "indexPublishedLayout l \<noteq> None" "panesAgree l"
  shows "joinPublishedLayout (splitPublishedLayout l) = Inr l"
proof -
  from assms(1) obtain i where "indexPublishedLayout l = Some i" by blast
  from join_same_lookups [OF indexPublishedLayout_Some(2,3) [OF this] assms(2), of
      "lr_paneTrees (splitPublishedLayout l)" "lr_bindings (splitPublishedLayout l)"]
  show ?thesis by simp
qed

lemma diffKind_same: "distinct (map fst (ik_byKey i)) \<Longrightarrow> diffKind i i ordered = None"
  by (auto simp: diffKind_def Let_def filter_empty_conv map_of_eq_None_iff)

lemma applyRecords_none: "applyRecords rs noRecordChanges = Inr rs"
  by (simp add: applyRecords_def noRecordChanges_def applyKind_def)

lemma diff_None_same:
  assumes "diffPublishedLayouts key (indexPublishedLayout a) (indexPublishedLayout b) b = None"
    and "panesAgree a" "panesAgree b"
  shows "a = b"
proof -
  from assms(1) obtain ia ib where ia: "indexPublishedLayout a = Some ia"
    and ib: "indexPublishedLayout b = Some ib" and no: "diffRecords ia ib = noRecordChanges"
    by (auto simp: diffPublishedLayouts_def Let_def split: option.splits if_splits)
  from applyRecords_diff [OF ia ib assms(3)] applyRecords_none [of "splitPublishedLayout a"]
  have "joinPublishedLayout (splitPublishedLayout a) = Inr b" unfolding no by auto
  with join_split [OF _ assms(2)] ia show ?thesis by simp
qed

lemma diff_same:
  assumes "indexPublishedLayout a \<noteq> None"
  shows "diffPublishedLayouts key (indexPublishedLayout a) (indexPublishedLayout a) a = None"
proof -
  from assms obtain i where i: "indexPublishedLayout a = Some i" by blast
  then have "distinct (map fst (ik_byKey (ix_tabs i)))" "distinct (map fst (ik_byKey (ix_paneTrees i)))"
    "distinct (map fst (ik_byKey (ix_bindings i)))" "distinct (map fst (ik_byKey (ix_editorFiles i)))"
    "distinct (map fst (ik_byKey (ix_browserTabs i)))"
    by (auto simp: indexPublishedLayout_def Let_def ik_byKey_index keyed_def split: option.splits)
  then have "diffRecords i i = noRecordChanges" by (simp add: diffRecords_def noRecordChanges_def diffKind_same)
  then show ?thesis by (simp add: diffPublishedLayouts_def i)
qed

lemma apply_diff:
  assumes "diffPublishedLayouts key (indexPublishedLayout a) (indexPublishedLayout b) b = Some c"
    and "panesAgree b"
  shows "applyWorkspaceLayoutRecordChange (Some a) c = Inr (Some b)" and "changeKey c = key"
proof -
  have "applyWorkspaceLayoutRecordChange (Some a) c = Inr (Some b) \<and> changeKey c = key"
  proof (cases "indexPublishedLayout a = None \<or> indexPublishedLayout b = None")
    case True
    with assms(1) have "c = ChangeLayout key b"
      by (auto simp: diffPublishedLayouts_def split: option.splits)
    then show ?thesis by (simp add: applyWorkspaceLayoutRecordChange_def)
  next
    case False
    then obtain ia ib where ia: "indexPublishedLayout a = Some ia" and ib: "indexPublishedLayout b = Some ib"
      by auto
    with assms(1) have "c = ChangeRecords key (diffRecords ia ib)"
      by (auto simp: diffPublishedLayouts_def Let_def split: if_splits)
    with applyRecords_diff [OF ia ib assms(2)] show ?thesis
      by (auto simp: applyWorkspaceLayoutRecordChange_def)
  qed
  then show "applyWorkspaceLayoutRecordChange (Some a) c = Inr (Some b)" "changeKey c = key" by blast+
qed

end
