(* ===== verification/Layout_Frames.thy ===== *)
theory Layout_Frames
  imports Layout_Records
begin

text \<open>
  The frames of a layout stream and the reader's copy of the layouts:
  \<open>workspace-layout-stream-frames.ts\<close> (the frame types) and
  \<open>src/renderer/src/store/workspace-layout-cache.ts\<close>.

  The checks of a frame's shape as untyped JSON are not modelled: a frame here is a value of its
  type.
\<close>

datatype layoutFrame =
  SnapshotFrame "(string \<times> publishedWorkspaceLayout) list" "string option" "int option"
| WorkspaceFrame string publishedWorkspaceLayout "int option"
| RemovedFrame string "int option"
| RecordsFrame string int "workspaceLayoutRecordChange list"

fun framePosition :: "layoutFrame \<Rightarrow> int option" where
  "framePosition (SnapshotFrame _ _ seq) = seq"
| "framePosition (WorkspaceFrame _ _ seq) = seq"
| "framePosition (RemovedFrame _ seq) = seq"
| "framePosition (RecordsFrame _ seq _) = Some seq"

type_synonym layoutCache = "(string \<times> publishedWorkspaceLayout) list"

definition setOrDelete ::
  "string \<Rightarrow> publishedWorkspaceLayout option \<Rightarrow> layoutCache \<Rightarrow> layoutCache" where
  "setOrDelete key layout cache =
     (case layout of Some l \<Rightarrow> AList.update key l cache | None \<Rightarrow> AList.delete key cache)"

primrec applyRecordChanges ::
  "workspaceLayoutRecordChange list \<Rightarrow> layoutCache \<Rightarrow> recordsError + layoutCache" where
  "applyRecordChanges [] cache = Inr cache"
| "applyRecordChanges (c # cs) cache =
     (case applyWorkspaceLayoutRecordChange (map_of cache (changeKey c)) c of
        Inl e \<Rightarrow> Inl e
      | Inr layout \<Rightarrow> applyRecordChanges cs (setOrDelete (changeKey c) layout cache))"

definition applySnapshot ::
  "(string \<times> publishedWorkspaceLayout) list \<Rightarrow> layoutCache \<Rightarrow> layoutCache" where
  "applySnapshot workspaces cache =
     (let next = fromEntries workspaces;
          changed = list_ex (\<lambda>(key, layout). map_of cache key \<noteq> Some layout) workspaces
      in if changed \<or> length next \<noteq> length cache then next else cache)"

fun applyLayoutFrame :: "layoutCache \<Rightarrow> layoutFrame \<Rightarrow> recordsError + layoutCache" where
  "applyLayoutFrame cache (WorkspaceFrame key layout _) = Inr (AList.update key layout cache)"
| "applyLayoutFrame cache (RemovedFrame key _) = Inr (AList.delete key cache)"
| "applyLayoutFrame cache (RecordsFrame _ _ changes) = applyRecordChanges changes cache"
| "applyLayoutFrame cache (SnapshotFrame workspaces _ _) = Inr (applySnapshot workspaces cache)"

section \<open>What the frames do to a copy\<close>

text \<open>The copy of a reader shows a set of layouts: the same layout under every key.\<close>

definition showsLayouts :: "layoutCache \<Rightarrow> (string \<Rightarrow> publishedWorkspaceLayout option) \<Rightarrow> bool" where
  "showsLayouts cache layouts \<longleftrightarrow> distinct (map fst cache) \<and> (\<forall>k. map_of cache k = layouts k)"

lemma showsLayouts_setOrDelete:
  "showsLayouts cache f \<Longrightarrow> showsLayouts (setOrDelete k l cache) (f(k := l))"
  by (auto simp: showsLayouts_def setOrDelete_def update_conv' delete_conv' distinct_update
      distinct_delete split: option.split)

lemma applyRecordChanges_shows:
  assumes "showsLayouts cache f" "distinct (map changeKey cs)"
    and "\<And>c. c \<in> set cs \<Longrightarrow> applyWorkspaceLayoutRecordChange (f (changeKey c)) c = Inr (g (changeKey c))"
  shows "\<exists>cache'. applyRecordChanges cs cache = Inr cache'
     \<and> showsLayouts cache' (\<lambda>k. if k \<in> changeKey ` set cs then g k else f k)"
  using assms
proof (induction cs arbitrary: cache f)
  case (Cons c cs)
  let ?k = "changeKey c"
  have at: "map_of cache ?k = f ?k" using Cons.prems(1) by (simp add: showsLayouts_def)
  have step: "applyWorkspaceLayoutRecordChange (map_of cache ?k) c = Inr (g ?k)"
    using Cons.prems(3) [of c] at by simp
  have "applyWorkspaceLayoutRecordChange ((f(?k := g ?k)) (changeKey d)) d = Inr (g (changeKey d))"
    if "d \<in> set cs" for d
  proof -
    from Cons.prems(2) that have "changeKey d \<noteq> ?k" by (auto simp: rev_image_eqI)
    with that Cons.prems(3) [of d] show ?thesis by simp
  qed
  from Cons.IH [OF showsLayouts_setOrDelete [OF Cons.prems(1)] _ this] Cons.prems(2)
  obtain cache' where "applyRecordChanges cs (setOrDelete ?k (g ?k) cache) = Inr cache'"
    and "showsLayouts cache' (\<lambda>k. if k \<in> changeKey ` set cs then g k else (f(?k := g ?k)) k)" by auto
  moreover from this(2) have "showsLayouts cache' (\<lambda>k. if k \<in> changeKey ` set (c # cs) then g k else f k)"
    by (auto simp: showsLayouts_def)
  ultimately show ?case using step by auto
qed auto

lemma applySnapshot_shows:
  assumes "distinct (map fst workspaces)" "distinct (map fst cache)"
  shows "showsLayouts (applySnapshot workspaces cache) (map_of workspaces)"
proof (cases "list_ex (\<lambda>(key, layout). map_of cache key \<noteq> Some layout) workspaces
    \<or> length workspaces \<noteq> length cache")
  case True
  then show ?thesis using assms(1)
    by (auto simp: applySnapshot_def fromEntries_distinct showsLayouts_def)
next
  case False
  then have sub: "\<And>k l. (k, l) \<in> set workspaces \<Longrightarrow> map_of cache k = Some l"
    and len: "length workspaces = length cache" by (auto simp: list_ex_iff)
  have "set workspaces \<subseteq> set cache" using sub by (auto dest: map_of_SomeD)
  moreover have "card (set workspaces) = card (set cache)"
    using assms len by (metis distinct_card distinct_map)
  ultimately have "set workspaces = set cache" by (simp add: card_subset_eq)
  then have "map_of workspaces = map_of cache" using assms by (simp add: map_of_inject_set)
  with False assms show ?thesis by (simp add: applySnapshot_def fromEntries_distinct showsLayouts_def)
qed

end
