(* ===== verification/Live_Facts.thy ===== *)
theory Live_Facts
  imports Published_Layout
begin

text \<open>
  Live facts of panes, laid over the published layout and never stored:
  \<open>src/main/runtime/pane-live-facts.ts\<close>, \<open>pane-start-statuses.ts\<close> and
  \<open>published-pane-live-titles.ts\<close>.

  A fact belongs to the binding of a pane (its terminal and that terminal's bind generation) and
  ends when the pane is bound again.  \<open>Number(text)\<close> is read for the texts an integer is written
  as, and the empty text; any other text is not a number here.
\<close>

section \<open>Bindings as text\<close>

definition intText :: "int \<Rightarrow> string" where
  "intText n = (if n < 0 then CHR ''-'' # natText (nat (- n)) else natText (nat n))"

definition bindingOf :: "publishedPane \<Rightarrow> string" where
  "bindingOf pane = orElse (pp_ptyId pane) [] @ ''#''
     @ (case pp_ptyGeneration pane of None \<Rightarrow> [] | Some g \<Rightarrow> intText g)"

definition digitsValue :: "string \<Rightarrow> int option" where
  "digitsValue s = (if s \<noteq> [] \<and> list_all (\<lambda>c. c \<in> set ''0123456789'') s
     then Some (int (foldl (\<lambda>n c. 10 * n + digitValue c) 0 s)) else None)"

definition numberOf :: "string \<Rightarrow> int option" where
  "numberOf s = (case s of
     [] \<Rightarrow> Some 0
   | c # cs \<Rightarrow> if c = CHR ''-'' then map_option uminus (digitsValue cs) else digitsValue s)"

record awaitedBind =
  aw_ptyId :: string
  aw_afterGeneration :: "int option"

definition isAwaitedBind :: "string \<Rightarrow> awaitedBind \<Rightarrow> bool" where
  "isAwaitedBind binding awaits =
     (let pre = aw_ptyId awaits @ ''#''
      in prefix pre binding \<and> (case aw_afterGeneration awaits of
           None \<Rightarrow> True
         | Some after \<Rightarrow> (case numberOf (drop (length pre) binding) of
             None \<Rightarrow> False | Some n \<Rightarrow> after < n)))"

lemma natText_value: "digitsValue (natText n) = Some (int n)"
  using natText_digits [of n] by (simp add: digitsValue_def)

lemma natText_not_minus: "hd (natText n) \<noteq> CHR ''-''"
proof -
  have "natText n \<noteq> []" "list_all (\<lambda>c. c \<in> set ''0123456789'') (natText n)"
    using natText_digits [of n] by simp_all
  then show ?thesis by (cases "natText n") auto
qed

lemma numberOf_intText [simp]: "numberOf (intText n) = Some n"
proof (cases "n < 0")
  case True
  then show ?thesis by (simp add: numberOf_def intText_def natText_value)
next
  case False
  obtain c cs where "natText (nat n) = c # cs" using natText_digits [of "nat n"] by (cases "natText (nat n)") auto
  with False natText_not_minus [of "nat n"] natText_value [of "nat n"] show ?thesis
    by (simp add: numberOf_def intText_def)
qed

text \<open>A start that waits for a bind sees the binds of its terminal above the generation it names.\<close>

lemma isAwaitedBind_bindingOf:
  assumes "pp_ptyId pane = Some p" "pp_ptyGeneration pane = Some g"
  shows "isAwaitedBind (bindingOf pane) \<lparr>aw_ptyId = p, aw_afterGeneration = Some after\<rparr> \<longleftrightarrow> after < g"
  using assms by (simp add: isAwaitedBind_def bindingOf_def Let_def)

section \<open>Facts\<close>

record 'a liveFact =
  fa_fact :: 'a
  fa_awaits :: "awaitedBind option"
  fa_binding :: "string option"

text \<open>Each operation also says whether it notifies the stream of a change.\<close>

definition setFact ::
  "string \<Rightarrow> 'a \<Rightarrow> awaitedBind option \<Rightarrow> (string \<times> 'a liveFact) list \<Rightarrow> (string \<times> 'a liveFact) list \<times> bool" where
  "setFact paneKey datum awaits facts =
     (AList.update paneKey \<lparr>fa_fact = datum, fa_awaits = awaits, fa_binding = None\<rparr> facts, True)"

definition clearFact ::
  "string \<Rightarrow> (string \<times> 'a liveFact) list \<Rightarrow> (string \<times> 'a liveFact) list \<times> bool" where
  "clearFact paneKey facts = (AList.delete paneKey facts, map_of facts paneKey \<noteq> None)"

definition peekFact :: "string \<Rightarrow> (string \<times> 'a liveFact) list \<Rightarrow> 'a option" where
  "peekFact paneKey facts = map_option fa_fact (map_of facts paneKey)"

definition getFact ::
  "string \<Rightarrow> string \<Rightarrow> (string \<times> 'a liveFact) list \<Rightarrow> 'a option \<times> (string \<times> 'a liveFact) list" where
  "getFact paneKey binding facts = (case map_of facts paneKey of
     None \<Rightarrow> (None, facts)
   | Some entry \<Rightarrow>
       if fa_binding entry = None
          \<and> (case fa_awaits entry of None \<Rightarrow> False | Some a \<Rightarrow> \<not> isAwaitedBind binding a)
       then (None, facts)
       else
         let pinned = entry\<lparr>fa_binding := Some (orElse (fa_binding entry) binding)\<rparr>
         in if fa_binding pinned \<noteq> Some binding then (None, AList.delete paneKey facts)
            else (Some (fa_fact entry), AList.update paneKey pinned facts))"

text \<open>What the stream sees of a pane's fact while the pane goes through a list of bindings.\<close>

primrec factsSeen ::
  "string \<Rightarrow> string list \<Rightarrow> (string \<times> 'a liveFact) list \<Rightarrow> 'a option list" where
  "factsSeen paneKey [] facts = []"
| "factsSeen paneKey (b # bs) facts =
     (let (f, facts') = getFact paneKey b facts in f # factsSeen paneKey bs facts')"

lemma factsSeen_absent: "map_of facts paneKey = None \<Longrightarrow> factsSeen paneKey bs facts = map (\<lambda>_. None) bs"
  by (induction bs) (simp_all add: getFact_def)

lemma factsSeen_pinned:
  assumes "map_of facts paneKey = Some \<lparr>fa_fact = datum, fa_awaits = awaits, fa_binding = Some b\<rparr>"
  shows "factsSeen paneKey bs facts
     = map (\<lambda>_. Some datum) (takeWhile (\<lambda>x. x = b) bs) @ map (\<lambda>_. None) (dropWhile (\<lambda>x. x = b) bs)"
  using assms
proof (induction bs arbitrary: facts)
  case (Cons x bs)
  show ?case
  proof (cases "x = b")
    case True
    with Cons.prems Cons.IH [of "AList.update paneKey \<lparr>fa_fact = datum, fa_awaits = awaits, fa_binding = Some b\<rparr> facts"]
    show ?thesis by (simp add: getFact_def Let_def update_conv')
  next
    case False
    with Cons.prems factsSeen_absent [of "AList.delete paneKey facts" paneKey bs]
    show ?thesis by (simp add: getFact_def Let_def delete_conv')
  qed
qed simp

lemma factsSeen_awaiting:
  assumes "map_of facts paneKey = Some \<lparr>fa_fact = datum, fa_awaits = awaits, fa_binding = None\<rparr>"
  defines "waits \<equiv> \<lambda>b. case awaits of None \<Rightarrow> False | Some a \<Rightarrow> \<not> isAwaitedBind b a"
  shows "factsSeen paneKey bs facts
     = map (\<lambda>_. None) (takeWhile waits bs)
       @ (case dropWhile waits bs of [] \<Rightarrow> [] | b # rest \<Rightarrow>
            map (\<lambda>_. Some datum) (takeWhile (\<lambda>x. x = b) (b # rest))
            @ map (\<lambda>_. None) (dropWhile (\<lambda>x. x = b) (b # rest)))"
  using assms(1)
proof (induction bs arbitrary: facts)
  case (Cons x bs)
  show ?case
  proof (cases "waits x")
    case True
    then have "getFact paneKey x facts = (None, facts)"
      using Cons.prems by (simp add: getFact_def waits_def)
    with Cons True show ?thesis by simp
  next
    case False
    then have "getFact paneKey x facts = (Some datum, AList.update paneKey
        \<lparr>fa_fact = datum, fa_awaits = awaits, fa_binding = Some x\<rparr> facts)"
      using Cons.prems by (simp add: getFact_def waits_def Let_def)
    with False factsSeen_pinned [of "AList.update paneKey \<lparr>fa_fact = datum, fa_awaits = awaits,
          fa_binding = Some x\<rparr> facts" paneKey datum awaits x bs]
    show ?thesis by (simp add: update_conv')
  qed
qed simp

section \<open>Start facts and live titles over a layout\<close>

record paneStartFact =
  sf_status :: paneStartStatus
  sf_reason :: "string option"

record paneLaidFact =
  la_status :: "paneStartStatus option"
  la_reason :: "string option"
  la_resumeOutcome :: "paneResumeOutcome option"

text \<open>Where start facts come from; absent in a window-owned build.\<close>

record paneFactSources =
  ps_startFact :: "(string \<Rightarrow> string \<Rightarrow> paneStartFact option) option"
  ps_resumeOutcome :: "(string \<Rightarrow> string \<Rightarrow> paneResumeOutcome option) option"

definition laidFactOf :: "paneFactSources \<Rightarrow> string \<Rightarrow> publishedPane \<Rightarrow> paneLaidFact option" where
  "laidFactOf sources entityId pane =
     (let paneKey = paneKeyOf entityId (pp_leafId pane);
          binding = bindingOf pane;
          start = (case ps_startFact sources of None \<Rightarrow> None | Some f \<Rightarrow> f paneKey binding);
          outcome = (case ps_resumeOutcome sources of None \<Rightarrow> None | Some f \<Rightarrow> f paneKey binding)
      in case outcome of
           Some r \<Rightarrow> Some \<lparr>la_status = map_option sf_status start, la_reason = Option.bind start sf_reason,
             la_resumeOutcome = Some r\<rparr>
         | None \<Rightarrow> map_option (\<lambda>s. \<lparr>la_status = Some (sf_status s), la_reason = sf_reason s,
             la_resumeOutcome = None\<rparr>) start)"

definition paneStartFactsOf ::
  "publishedWorkspaceLayout \<Rightarrow> paneFactSources \<Rightarrow> paneLaidFact option list" where
  "paneStartFactsOf layout sources =
     (if ps_startFact sources = None \<and> ps_resumeOutcome sources = None then []
      else concat (map (\<lambda>t. map (laidFactOf sources (pb_entityId t)) (panesOfPublished t)) (pl_tabs layout)))"

text \<open>
  Values laid over the panes in tab and pane order, one index running through all of them.
\<close>

fun layOverPanes :: "('v option \<Rightarrow> publishedPane \<Rightarrow> publishedPane) \<Rightarrow> publishedPane list \<Rightarrow> 'v list
     \<Rightarrow> publishedPane list \<times> 'v list" where
  "layOverPanes lay [] vs = ([], vs)"
| "layOverPanes lay (p # ps) vs =
     (let (ps', rest) = layOverPanes lay ps (drop 1 vs)
      in (lay (case vs of [] \<Rightarrow> None | v # _ \<Rightarrow> Some v) p # ps', rest))"

fun layOverTabs :: "('v option \<Rightarrow> publishedPane \<Rightarrow> publishedPane) \<Rightarrow> publishedTab list \<Rightarrow> 'v list
     \<Rightarrow> publishedTab list" where
  "layOverTabs lay [] vs = []"
| "layOverTabs lay (t # ts) vs = (case pb_terminal t of
     None \<Rightarrow> t # layOverTabs lay ts vs
   | Some tm \<Rightarrow>
       (let (ps, rest) = layOverPanes lay (pt_panes tm) vs
        in t\<lparr>pb_terminal := Some (tm\<lparr>pt_panes := ps\<rparr>)\<rparr> # layOverTabs lay ts rest))"

text \<open>Beyond the titles the array reads \<open>undefined\<close>, which is written as an absent title.\<close>

definition layTitle :: "string option option \<Rightarrow> publishedPane \<Rightarrow> publishedPane" where
  "layTitle v pane = (case v of
     Some None \<Rightarrow> pane
   | Some (Some title) \<Rightarrow> pane\<lparr>pp_liveTitle := Some title\<rparr>
   | None \<Rightarrow> pane\<lparr>pp_liveTitle := None\<rparr>)"

definition withLiveTitles ::
  "publishedWorkspaceLayout \<Rightarrow> string option list \<Rightarrow> publishedWorkspaceLayout" where
  "withLiveTitles layout titles =
     (if list_all (\<lambda>t. t = None) titles then layout
      else layout\<lparr>pl_tabs := layOverTabs layTitle (pl_tabs layout) titles\<rparr>)"

definition layFact :: "paneLaidFact option option \<Rightarrow> publishedPane \<Rightarrow> publishedPane" where
  "layFact v pane = (case v of
     Some (Some datum) \<Rightarrow> pane\<lparr>
       pp_status := orElseOpt (la_status datum) (pp_status pane),
       pp_statusReason := (if truthy (la_reason datum) then la_reason datum else pp_statusReason pane),
       pp_resumeOutcome := orElseOpt (la_resumeOutcome datum) (pp_resumeOutcome pane)\<rparr>
   | _ \<Rightarrow> pane)"

definition withPaneStartFacts ::
  "publishedWorkspaceLayout \<Rightarrow> paneLaidFact option list \<Rightarrow> publishedWorkspaceLayout" where
  "withPaneStartFacts layout facts =
     (if list_all (\<lambda>f. f = None) facts then layout
      else layout\<lparr>pl_tabs := layOverTabs layFact (pl_tabs layout) facts\<rparr>)"

text \<open>The reason of a start that threw: held when a newer build's terminal service may run it.\<close>

definition NEWER_DAEMON_HOLD_ERROR :: string where
  "NEWER_DAEMON_HOLD_ERROR = ''terminal_held_by_newer_daemon''"

definition paneStartFailure :: "string \<Rightarrow> paneStartFact" where
  "paneStartFailure reason =
     \<lparr>sf_status = (if reason = NEWER_DAEMON_HOLD_ERROR then Held else FailedStart), sf_reason = Some reason\<rparr>"

section \<open>Laying over keeps the panes\<close>

definition paneIdsOfPublished :: "publishedWorkspaceLayout \<Rightarrow> string list" where
  "paneIdsOfPublished l = map pp_leafId (publishedPanes l)"

lemma layOverPanes_ids:
  "(\<And>v p. pp_leafId (lay v p) = pp_leafId p) \<Longrightarrow>
     map pp_leafId (fst (layOverPanes lay ps vs)) = map pp_leafId ps"
  by (induction lay ps vs rule: layOverPanes.induct) (auto simp: case_prod_unfold Let_def)

lemma layOverTabs_ids:
  "(\<And>v p. pp_leafId (lay v p) = pp_leafId p) \<Longrightarrow>
     map pp_leafId (concat (map panesOfPublished (layOverTabs lay ts vs)))
       = map pp_leafId (concat (map panesOfPublished ts))"
proof (induction lay ts vs rule: layOverTabs.induct)
  case (2 lay t ts vs)
  show ?case
  proof (cases "pb_terminal t")
    case None
    with 2 show ?thesis by (simp add: panesOfPublished_def)
  next
    case (Some tm)
    obtain ps rest where l: "layOverPanes lay (pt_panes tm) vs = (ps, rest)" by force
    from layOverPanes_ids [of lay "pt_panes tm" vs] 2(3) l have "map pp_leafId ps = map pp_leafId (pt_panes tm)"
      by simp
    with 2(2) [OF Some l [symmetric] refl 2(3)] Some l show ?thesis by (simp add: panesOfPublished_def)
  qed
qed simp

lemma layTitle_id [simp]: "pp_leafId (layTitle v p) = pp_leafId p"
  by (simp add: layTitle_def split: option.split)

lemma layFact_id [simp]: "pp_leafId (layFact v p) = pp_leafId p"
  by (simp add: layFact_def split: option.split)

lemma paneIds_laid [simp]:
  "paneIdsOfPublished (withLiveTitles l titles) = paneIdsOfPublished l"
  "paneIdsOfPublished (withPaneStartFacts l facts) = paneIdsOfPublished l"
  using layOverTabs_ids [of layTitle "pl_tabs l" titles] layOverTabs_ids [of layFact "pl_tabs l" facts]
  by (simp_all add: paneIdsOfPublished_def publishedPanes_def withLiveTitles_def withPaneStartFacts_def)

end
