(* ===== verification/Layout_Stream.thy ===== *)
theory Layout_Stream
  imports Layout_Projection Layout_Frames Live_Facts
begin

text \<open>
  The layout stream of a host: \<open>src/main/runtime/workspace-layout-stream.ts\<close>.

  The stream's state is a record, listeners are names in the order they were added, and what it
  does to the outside is a list of outputs: an event handed to a listener, a commit told to a
  commit listener.  The environment (the store and its routing, live titles, start facts) is an
  argument.  A JSON text the stream compares stands for the value it is written from, and a
  workspace's record index, which the stream computes when it needs it, is computed where it is
  used.  A listener that throws does not disturb the others; logging is not modelled.
  \<open>own\<close> is the layout-owner build; it has an epoch.
\<close>

section \<open>State\<close>

record streamEnv =
  se_projection :: projectionEnv
  se_liveTitle :: "string \<Rightarrow> string option"
  se_sources :: paneFactSources

record shownLayout =
  sw_projected :: publishedWorkspaceLayout
  sw_liveTitles :: "string option list \<times> paneLaidFact option list option"
  sw_layout :: publishedWorkspaceLayout

record layoutStream =
  ls_listeners :: "string list"
  ls_commitListeners :: "string list"
  ls_projection :: layoutProjection
  ls_shown :: "(string \<times> shownLayout) list"
  ls_watching :: bool
  ls_projecting :: bool
  ls_dirty :: bool
  ls_touched :: "dirtyPartitions option"
  ls_liveTitlesDirty :: bool
  ls_flushQueued :: bool
  ls_seq :: int
  ls_epoch :: "string option"

datatype streamOutput =
  Sent string layoutFrame
| Committed string "string list option"

definition newStream :: "bool \<Rightarrow> string \<Rightarrow> layoutStream" where
  "newStream own uuid = \<lparr>ls_listeners = [], ls_commitListeners = [], ls_projection = freshProjection,
     ls_shown = [], ls_watching = False, ls_projecting = False, ls_dirty = False, ls_touched = None,
     ls_liveTitlesDirty = False, ls_flushQueued = False, ls_seq = 0,
     ls_epoch = (if own then Some uuid else None)\<rparr>"

definition addDirty :: "dirtyPartitions option \<Rightarrow> string option \<Rightarrow> dirtyPartitions" where
  "addDirty dirty hostId = (case (hostId, dirty) of
     (Some h, None) \<Rightarrow> Partitions [h]
   | (Some h, Some (Partitions s)) \<Rightarrow> Partitions (uniq (s @ [h]))
   | _ \<Rightarrow> AllPartitions)"

section \<open>Reconciling\<close>

definition liveTitlesOf :: "streamEnv \<Rightarrow> publishedWorkspaceLayout \<Rightarrow> string option list" where
  "liveTitlesOf env layout = map (\<lambda>pane. if truthy (pp_ptyId pane)
     then se_liveTitle env (orElse (pp_ptyId pane) []) else None) (publishedPanes layout)"

definition startsOf :: "bool \<Rightarrow> streamEnv \<Rightarrow> publishedWorkspaceLayout \<Rightarrow> paneLaidFact option list option" where
  "startsOf own env layout = (if own then Some (paneStartFactsOf layout (se_sources env)) else None)"

definition laidLayout ::
  "publishedWorkspaceLayout \<Rightarrow> string option list \<times> paneLaidFact option list option \<Rightarrow> publishedWorkspaceLayout" where
  "laidLayout layout facts = (case facts of (titles, starts) \<Rightarrow>
     (let shownLayout = withLiveTitles layout titles
      in case starts of None \<Rightarrow> shownLayout | Some s \<Rightarrow> withPaneStartFacts shownLayout s))"

definition factsNow ::
  "bool \<Rightarrow> streamEnv \<Rightarrow> publishedWorkspaceLayout \<Rightarrow> string option list \<times> paneLaidFact option list option" where
  "factsNow own env layout = (liveTitlesOf env layout, startsOf own env layout)"

definition unchangedShown ::
  "bool \<Rightarrow> streamEnv \<Rightarrow> (string \<times> shownLayout) list \<Rightarrow> string \<Rightarrow> publishedWorkspaceLayout \<Rightarrow> bool" where
  "unchangedShown own env before key layout = (case map_of before key of
     None \<Rightarrow> False
   | Some previous \<Rightarrow> sw_projected previous = layout \<and> sw_liveTitles previous = factsNow own env layout)"

definition showLayout ::
  "bool \<Rightarrow> streamEnv \<Rightarrow> (string \<times> shownLayout) list \<Rightarrow> string \<Rightarrow> publishedWorkspaceLayout \<Rightarrow> shownLayout" where
  "showLayout own env before key layout = (case map_of before key of
     Some previous \<Rightarrow> if unchangedShown own env before key layout then previous
       else \<lparr>sw_projected = layout, sw_liveTitles = factsNow own env layout,
         sw_layout = laidLayout layout (factsNow own env layout)\<rparr>
   | None \<Rightarrow> \<lparr>sw_projected = layout, sw_liveTitles = factsNow own env layout,
       sw_layout = laidLayout layout (factsNow own env layout)\<rparr>)"

definition deliver :: "layoutFrame \<Rightarrow> layoutStream \<Rightarrow> streamOutput list" where
  "deliver event s = map (\<lambda>listener. Sent listener event) (ls_listeners s)"

text \<open>Sequence numbers are assigned when an event is sent.\<close>

fun deliverEach :: "(int \<Rightarrow> layoutFrame) list \<Rightarrow> layoutStream \<Rightarrow> layoutStream \<times> streamOutput list" where
  "deliverEach [] s = (s, [])"
| "deliverEach (event # events) s =
     (let s1 = s\<lparr>ls_seq := ls_seq s + 1\<rparr>;
          (s2, outs) = deliverEach events s1
      in (s2, deliver (event (ls_seq s1)) s1 @ outs))"

definition recordChangeOf ::
  "(string \<times> shownLayout) list \<Rightarrow> (string \<times> shownLayout) list \<Rightarrow> string \<Rightarrow> workspaceLayoutRecordChange option" where
  "recordChangeOf before shown key = (case map_of shown key of
     None \<Rightarrow> None
   | Some current \<Rightarrow> (case map_of before key of
       Some previous \<Rightarrow> diffPublishedLayouts key (indexPublishedLayout (sw_layout previous))
         (indexPublishedLayout (sw_layout current)) (sw_layout current)
     | None \<Rightarrow> Some (ChangeLayout key (sw_layout current))))"

definition publishChanges ::
  "(string \<times> shownLayout) list \<Rightarrow> string list \<Rightarrow> string list \<Rightarrow> layoutStream \<Rightarrow> layoutStream \<times> streamOutput list" where
  "publishChanges before removed changed s =
     (case ls_epoch s of
        None \<Rightarrow> deliverEach (map (\<lambda>key seq. RemovedFrame key (Some seq)) removed
          @ concat (map (\<lambda>key. case map_of (ls_shown s) key of None \<Rightarrow> []
              | Some current \<Rightarrow> [\<lambda>seq. WorkspaceFrame key (sw_layout current) (Some seq)]) changed)) s
      | Some epoch \<Rightarrow>
          if ls_listeners s = [] then (s, [])
          else
            let workspaces = map ChangeRemoved removed
                  @ concat (map (\<lambda>key. case recordChangeOf before (ls_shown s) key of
                      None \<Rightarrow> [] | Some c \<Rightarrow> [c]) changed)
            in if workspaces = [] then (s, [])
               else let s1 = s\<lparr>ls_seq := ls_seq s + 1\<rparr>
                    in (s1, deliver (RecordsFrame epoch (ls_seq s1) workspaces) s1))"

definition reconcileWith ::
  "bool \<Rightarrow> streamEnv \<Rightarrow> (string \<times> publishedWorkspaceLayout) list \<Rightarrow> layoutStream
     \<Rightarrow> layoutStream \<times> streamOutput list" where
  "reconcileWith own env next s =
     (let before = ls_shown s;
          removed = filter (\<lambda>key. map_of next key = None) (map fst before);
          shown = map (\<lambda>(key, layout). (key, showLayout own env before key layout)) next;
          changed = map fst (filter (\<lambda>(key, layout). \<not> unchangedShown own env before key layout) next)
      in publishChanges before removed changed (s\<lparr>ls_shown := shown\<rparr>))"

definition reconcile ::
  "bool \<Rightarrow> streamEnv \<Rightarrow> bool \<Rightarrow> layoutStream \<Rightarrow> routingError option \<times> layoutStream \<times> streamOutput list" where
  "reconcile own env reproject s =
     (if reproject then
        (case project own (se_projection env) (ls_projection s) of
           (Inl e, pj) \<Rightarrow> (Some e, s\<lparr>ls_projection := pj\<rparr>, [])
         | (Inr next, pj) \<Rightarrow> (None, reconcileWith own env next (s\<lparr>ls_projection := pj\<rparr>)))
      else (None, reconcileWith own env (pj_published (ls_projection s)) s))"

section \<open>Operations\<close>

definition commitOutputs :: "dirtyPartitions option \<Rightarrow> layoutStream \<Rightarrow> streamOutput list" where
  "commitOutputs touched s = (case touched of
     None \<Rightarrow> []
   | Some t \<Rightarrow> map (\<lambda>listener. Committed listener
       (case t of AllPartitions \<Rightarrow> None | Partitions hosts \<Rightarrow> Some hosts)) (ls_commitListeners s))"

text \<open>A failed projection is dropped: every partition is read again on the next write.\<close>

definition flush :: "bool \<Rightarrow> streamEnv \<Rightarrow> layoutStream \<Rightarrow> layoutStream \<times> streamOutput list" where
  "flush own env s =
     (let s0 = s\<lparr>ls_touched := None\<rparr>
      in if ls_dirty s \<or> ls_liveTitlesDirty s then
           (let s1 = s0\<lparr>ls_dirty := False, ls_liveTitlesDirty := False\<rparr>
            in case reconcile own env (ls_dirty s) s1 of
                 (Some e, s2, outs) \<Rightarrow>
                   (let s3 = s2\<lparr>ls_projection := forgetPartitions (ls_projection s2)\<rparr>
                    in (s3, outs @ commitOutputs (ls_touched s) s3))
               | (None, s2, outs) \<Rightarrow> (s2, outs @ commitOutputs (ls_touched s) s2))
         else (s0, commitOutputs (ls_touched s) s0))"

definition watch :: "layoutStream \<Rightarrow> layoutStream" where
  "watch s =
     (let wanted = ls_listeners s \<noteq> [] \<or> ls_commitListeners s \<noteq> []
      in if wanted \<and> \<not> ls_watching s then s\<lparr>ls_watching := True\<rparr>
         else if \<not> wanted \<and> ls_watching s
         then s\<lparr>ls_watching := False, ls_projection := clearProjection (ls_projection s)\<rparr>
         else s)"

definition startProjecting :: "layoutStream \<Rightarrow> layoutStream" where
  "startProjecting s = (if ls_projecting s then s
     else s\<lparr>ls_projecting := True, ls_projection := clearProjection (ls_projection s), ls_shown := [],
       ls_dirty := True\<rparr>)"

definition addListener :: "string \<Rightarrow> layoutStream \<Rightarrow> layoutStream" where
  "addListener listener s = s\<lparr>ls_listeners :=
     (if listener \<in> set (ls_listeners s) then ls_listeners s else ls_listeners s @ [listener])\<rparr>"

definition snapshotOf :: "layoutStream \<Rightarrow> layoutFrame" where
  "snapshotOf s = SnapshotFrame (map (\<lambda>(key, sh). (key, sw_layout sh)) (ls_shown s)) (ls_epoch s) (Some (ls_seq s))"

text \<open>The subscriber's own snapshot, and what the flush before it sends to the others.\<close>

definition subscribe ::
  "bool \<Rightarrow> streamEnv \<Rightarrow> string \<Rightarrow> layoutStream \<Rightarrow> layoutStream \<times> streamOutput list \<times> layoutFrame" where
  "subscribe own env listener s =
     (let (s1, outs) = flush own env (startProjecting s);
          s2 = watch (addListener listener s1)
      in (s2, outs, snapshotOf s2))"

definition unsubscribe :: "string \<Rightarrow> layoutStream \<Rightarrow> layoutStream" where
  "unsubscribe listener s =
     (if listener \<notin> set (ls_listeners s) then s
      else
        let s1 = s\<lparr>ls_listeners := filter (\<lambda>l. l \<noteq> listener) (ls_listeners s)\<rparr>
        in if ls_listeners s1 \<noteq> [] then s1
           else watch (s1\<lparr>ls_projecting := False, ls_dirty := False, ls_liveTitlesDirty := False,
             ls_shown := []\<rparr>))"

definition onLayoutOperationCommitted :: "string \<Rightarrow> layoutStream \<Rightarrow> layoutStream" where
  "onLayoutOperationCommitted listener s = watch (s\<lparr>ls_commitListeners :=
     (if listener \<in> set (ls_commitListeners s) then ls_commitListeners s
      else ls_commitListeners s @ [listener])\<rparr>)"

definition offLayoutOperationCommitted :: "string \<Rightarrow> layoutStream \<Rightarrow> layoutStream" where
  "offLayoutOperationCommitted listener s =
     watch (s\<lparr>ls_commitListeners := filter (\<lambda>l. l \<noteq> listener) (ls_commitListeners s)\<rparr>)"

definition readPartition ::
  "streamEnv \<Rightarrow> string \<Rightarrow> layoutStream \<Rightarrow> workspaceLayoutModel option \<times> layoutStream" where
  "readPartition env hostId s =
     (let (loaded, pj) = loadedPartition (se_projection env) hostId (ls_watching s) (ls_projection s)
      in (loaded, s\<lparr>ls_projection := pj\<rparr>))"

text \<open>Whether a flush is queued: at most one microtask is outstanding.\<close>

definition schedule :: "layoutStream \<Rightarrow> layoutStream" where
  "schedule s = s\<lparr>ls_flushQueued := True\<rparr>"

definition queuedFlush :: "bool \<Rightarrow> streamEnv \<Rightarrow> layoutStream \<Rightarrow> layoutStream \<times> streamOutput list" where
  "queuedFlush own env s = (if ls_flushQueued s then flush own env (s\<lparr>ls_flushQueued := False\<rparr>) else (s, []))"

definition markLiveTitlesDirty :: "layoutStream \<Rightarrow> layoutStream" where
  "markLiveTitlesDirty s = (if \<not> ls_projecting s then s else schedule (s\<lparr>ls_liveTitlesDirty := True\<rparr>))"

definition settledSeq :: "bool \<Rightarrow> streamEnv \<Rightarrow> layoutStream \<Rightarrow> int \<times> layoutStream \<times> streamOutput list" where
  "settledSeq own env s = (let (s', outs) = flush own env s in (ls_seq s', s', outs))"

definition markDirty :: "string option \<Rightarrow> layoutStream \<Rightarrow> layoutStream" where
  "markDirty hostId s = schedule (s\<lparr>
     ls_projection := invalidate hostId (ls_projection s),
     ls_dirty := (ls_dirty s \<or> ls_projecting s),
     ls_touched := (if ls_commitListeners s \<noteq> [] then Some (addDirty (ls_touched s) hostId)
       else ls_touched s)\<rparr>)"

text \<open>The layouts of a fresh load, with what is laid over them: what the frame observer checks.\<close>

definition freshLayouts ::
  "bool \<Rightarrow> streamEnv \<Rightarrow> layoutStream \<Rightarrow> routingError + (string \<times> publishedWorkspaceLayout) list" where
  "freshLayouts own env s =
     (case projectFresh own (se_projection env) (ls_projection s) of
        Inl e \<Rightarrow> Inl e
      | Inr layouts \<Rightarrow> Inr (map (\<lambda>(key, layout). (key, laidLayout layout (factsNow own env layout))) layouts))"

end
