(* ===== verification/Stream_Readers.thy ===== *)
theory Stream_Readers
  imports Layout_Stream
begin

text \<open>
  Readers of a host's layout stream.  A reader starts from its snapshot and applies every event it
  is handed, in order, at consecutive positions.  The theory shows that a reader's copy is, after
  every step of the stream, what the stream shows, and what the stream shows after a flush is what
  a fresh load of the store would publish.
\<close>

section \<open>Readers\<close>

datatype readerError = BrokenRecords recordsError | PositionGap

type_synonym streamReader = "readerError + layoutCache \<times> int"

definition readFrame :: "layoutFrame \<Rightarrow> streamReader \<Rightarrow> streamReader" where
  "readFrame frame r = (case r of
     Inl e \<Rightarrow> Inl e
   | Inr (cache, pos) \<Rightarrow>
       if framePosition frame \<noteq> Some (pos + 1) then Inl PositionGap
       else (case applyLayoutFrame cache frame of
               Inl e \<Rightarrow> Inl (BrokenRecords e)
             | Inr cache' \<Rightarrow> Inr (cache', pos + 1)))"

definition handOut :: "streamOutput \<Rightarrow> (string \<times> streamReader) list \<Rightarrow> (string \<times> streamReader) list" where
  "handOut out readers = (case out of
     Sent l frame \<Rightarrow> (case map_of readers l of
         Some r \<Rightarrow> AList.update l (readFrame frame r) readers
       | None \<Rightarrow> readers)
   | Committed _ _ \<Rightarrow> readers)"

lemma map_of_handOut_deliver:
  assumes "distinct ls"
  shows "map_of (fold handOut (map (\<lambda>l. Sent l frame) ls) readers) l
     = (if l \<in> set ls then map_option (readFrame frame) (map_of readers l) else map_of readers l)"
  using assms
proof (induction ls arbitrary: readers)
  case (Cons k ls)
  then show ?case by (cases "map_of readers k") (auto simp: handOut_def update_conv')
qed simp

lemma map_of_handOut_frames:
  assumes "distinct (ls_listeners s)" "l \<in> set (ls_listeners s)"
  shows "map_of (fold handOut (concat (map (\<lambda>f. deliver f s) frames)) readers) l
     = map_option (fold readFrame frames) (map_of readers l)"
proof (induction frames arbitrary: readers)
  case (Cons f fs)
  show ?case
    using Cons [of "fold handOut (deliver f s) readers"] map_of_handOut_deliver [OF assms(1), of f readers l] assms(2)
    by (cases "map_of readers l") (simp_all add: deliver_def)
qed (simp add: option.map_ident_strong)

lemma handOut_commits: "fold handOut (commitOutputs touched s) readers = readers"
proof -
  have "fold handOut (map (\<lambda>l. Committed l hosts) ls) readers = readers" for hosts ls
    by (induction ls) (simp_all add: handOut_def)
  then show ?thesis by (simp add: commitOutputs_def split: option.split)
qed

section \<open>Frames of a reconciliation\<close>

definition shownMap :: "(string \<times> shownLayout) list \<Rightarrow> string \<Rightarrow> publishedWorkspaceLayout option" where
  "shownMap shown k = map_option sw_layout (map_of shown k)"

text \<open>Frames that take a copy from what was shown to what is shown, one position each.\<close>

definition leadsTo ::
  "layoutFrame list \<Rightarrow> (string \<times> shownLayout) list \<times> int \<Rightarrow> (string \<times> shownLayout) list \<times> int \<Rightarrow> bool" where
  "leadsTo frames from to \<longleftrightarrow> (\<forall>cache. showsLayouts cache (shownMap (fst from)) \<longrightarrow>
     (\<exists>cache'. fold readFrame frames (Inr (cache, snd from)) = Inr (cache', snd to)
        \<and> showsLayouts cache' (shownMap (fst to))))"

primrec stamped :: "int \<Rightarrow> (int \<Rightarrow> layoutFrame) list \<Rightarrow> layoutFrame list" where
  "stamped n [] = []"
| "stamped n (e # es) = e (n + 1) # stamped (n + 1) es"

lemma deliverEach_stamped:
  "deliverEach es s = (s\<lparr>ls_seq := ls_seq s + int (length es)\<rparr>,
     concat (map (\<lambda>f. deliver f s) (stamped (ls_seq s) es)))"
proof (induction es arbitrary: s)
  case (Cons e es)
  have "deliver f (s\<lparr>ls_seq := n\<rparr>) = deliver f s" for f n by (simp add: deliver_def)
  with Cons [of "s\<lparr>ls_seq := ls_seq s + 1\<rparr>"] show ?case by (simp add: Let_def algebra_simps)
qed simp

definition wholeFrame :: "string \<times> publishedWorkspaceLayout option \<Rightarrow> int \<Rightarrow> layoutFrame" where
  "wholeFrame kl seq = (case kl of
     (k, None) \<Rightarrow> RemovedFrame k (Some seq) | (k, Some l) \<Rightarrow> WorkspaceFrame k l (Some seq))"

lemma wholeFrame_removed: "(\<lambda>k. wholeFrame (k, None)) = (\<lambda>k seq. RemovedFrame k (Some seq))"
  by (simp add: fun_eq_iff wholeFrame_def)

lemma wholeFrames_lead:
  assumes "showsLayouts cache f" "\<And>k l. (k, l) \<in> set kls \<Longrightarrow> l = g k"
  shows "\<exists>cache'. fold readFrame (stamped n (map wholeFrame kls)) (Inr (cache, n))
       = Inr (cache', n + int (length kls))
     \<and> showsLayouts cache' (\<lambda>k. if k \<in> fst ` set kls then g k else f k)"
  using assms
proof (induction kls arbitrary: n cache f)
  case (Cons kl kls)
  obtain k l where kl: "kl = (k, l)" by force
  have l: "l = g k" using Cons.prems(2) [of k l] kl by simp
  have step: "readFrame (wholeFrame kl (n + 1)) (Inr (cache, n)) = Inr (setOrDelete k l cache, n + 1)"
    by (cases l) (simp_all add: kl wholeFrame_def readFrame_def setOrDelete_def)
  from Cons.IH [OF showsLayouts_setOrDelete [OF Cons.prems(1)], of "n + 1" k l] Cons.prems(2)
  obtain cache' where "fold readFrame (stamped (n + 1) (map wholeFrame kls)) (Inr (setOrDelete k l cache, n + 1))
      = Inr (cache', n + 1 + int (length kls))"
    and sh: "showsLayouts cache' (\<lambda>j. if j \<in> fst ` set kls then g j else (f(k := l)) j)" by auto
  moreover from sh have "showsLayouts cache' (\<lambda>j. if j \<in> fst ` set (kl # kls) then g j else f j)"
    by (auto simp: showsLayouts_def kl l)
  ultimately show ?case using step by (auto simp: algebra_simps)
qed auto

lemma readFrame_records:
  assumes "showsLayouts cache f" "distinct (map changeKey cs)"
    and "\<And>c. c \<in> set cs \<Longrightarrow> applyWorkspaceLayoutRecordChange (f (changeKey c)) c = Inr (g (changeKey c))"
  shows "\<exists>cache'. readFrame (RecordsFrame epoch (n + 1) cs) (Inr (cache, n)) = Inr (cache', n + 1)
     \<and> showsLayouts cache' (\<lambda>k. if k \<in> changeKey ` set cs then g k else f k)"
  using applyRecordChanges_shows [OF assms] by (auto simp: readFrame_def)

section \<open>What a reconciliation sends\<close>

text \<open>Layouts whose panes are unique; changes between them are exact.\<close>

definition paneWise :: "publishedWorkspaceLayout \<Rightarrow> bool" where
  "paneWise l \<longleftrightarrow> distinct (paneIdsOfPublished l)"

lemma paneWise_agree: "paneWise l \<Longrightarrow> panesAgree l"
  by (simp add: paneWise_def paneIdsOfPublished_def distinct_panesAgree)

lemma paneWise_laid: "paneWise (laidLayout l facts) \<longleftrightarrow> paneWise l"
  by (simp add: laidLayout_def paneWise_def Let_def split: prod.split option.split)

definition shownWf :: "(string \<times> shownLayout) list \<Rightarrow> bool" where
  "shownWf shown \<longleftrightarrow> distinct (map fst shown) \<and> list_all (\<lambda>(k, sh).
     paneWise (sw_projected sh) \<and> sw_layout sh = laidLayout (sw_projected sh) (sw_liveTitles sh)) shown"

lemma shownWf_layout: "shownWf shown \<Longrightarrow> map_of shown k = Some sh \<Longrightarrow> panesAgree (sw_layout sh)"
proof -
  assume wf: "shownWf shown" and "map_of shown k = Some sh"
  then have "(k, sh) \<in> set shown" by (simp add: map_of_SomeD)
  with wf have "paneWise (sw_projected sh)" "sw_layout sh = laidLayout (sw_projected sh) (sw_liveTitles sh)"
    unfolding shownWf_def list_all_iff by fastforce+
  then show ?thesis by (simp add: paneWise_agree paneWise_laid)
qed

definition publishedWf :: "(string \<times> publishedWorkspaceLayout) list \<Rightarrow> bool" where
  "publishedWf next \<longleftrightarrow> distinct (map fst next) \<and> list_all (\<lambda>(k, l). paneWise l) next"

definition shownOf ::
  "bool \<Rightarrow> streamEnv \<Rightarrow> (string \<times> shownLayout) list \<Rightarrow> (string \<times> publishedWorkspaceLayout) list
     \<Rightarrow> (string \<times> shownLayout) list" where
  "shownOf own env before next = map (\<lambda>(key, layout). (key, showLayout own env before key layout)) next"

lemma map_of_shownOf:
  "map_of (shownOf own env before next) k = map_option (showLayout own env before k) (map_of next k)"
  unfolding shownOf_def by (induction "next") auto

lemma shownOf_wf:
  assumes "shownWf before" "publishedWf next"
  shows "shownWf (shownOf own env before next)"
proof -
  have "paneWise (sw_projected (showLayout own env before k l))
      \<and> sw_layout (showLayout own env before k l)
        = laidLayout (sw_projected (showLayout own env before k l)) (sw_liveTitles (showLayout own env before k l))"
    if "paneWise l" for k l
    using that assms(1) unfolding showLayout_def
    by (auto simp: shownWf_def list_all_iff split: option.split dest!: map_of_SomeD)
  moreover have "map fst (shownOf own env before next) = map fst next"
    by (simp add: shownOf_def comp_def case_prod_unfold)
  moreover have "\<exists>l. (k, l) \<in> set next \<and> sh = showLayout own env before k l"
    if "(k, sh) \<in> set (shownOf own env before next)" for k sh
    using that by (auto simp: shownOf_def)
  ultimately show ?thesis using assms(2) unfolding shownWf_def publishedWf_def list_all_iff by fastforce
qed

lemma showLayout_projected: "sw_projected (showLayout own env before k l) = l"
  and showLayout_titles: "sw_liveTitles (showLayout own env before k l) = factsNow own env l"
  by (auto simp: showLayout_def unchangedShown_def split: option.splits)

lemma recordChangeOf_key: "recordChangeOf before shown k = Some c \<Longrightarrow> changeKey c = k"
  by (auto simp: recordChangeOf_def diffPublishedLayouts_def Let_def split: option.splits if_splits)

lemma recordChangeOf_applies:
  assumes "shownWf before" "shownWf shown" "recordChangeOf before shown k = Some c"
  shows "applyWorkspaceLayoutRecordChange (shownMap before k) c = Inr (shownMap shown k)"
proof -
  from assms(3) obtain current where cur: "map_of shown k = Some current"
    by (auto simp: recordChangeOf_def split: option.splits)
  note ok = shownWf_layout [OF assms(2) cur]
  show ?thesis
  proof (cases "map_of before k")
    case None
    with assms(3) cur show ?thesis
      by (auto simp: recordChangeOf_def shownMap_def applyWorkspaceLayoutRecordChange_def)
  next
    case (Some previous)
    with assms(3) cur have "diffPublishedLayouts k (indexPublishedLayout (sw_layout previous))
        (indexPublishedLayout (sw_layout current)) (sw_layout current) = Some c"
      by (simp add: recordChangeOf_def)
    from apply_diff(1) [OF this ok] show ?thesis by (simp add: shownMap_def Some cur)
  qed
qed

lemma recordChangeOf_None:
  assumes "shownWf before" "shownWf shown" "map_of shown k \<noteq> None" "recordChangeOf before shown k = None"
  shows "shownMap before k = shownMap shown k"
proof -
  from assms(3) obtain current where cur: "map_of shown k = Some current" by blast
  with assms(4) obtain previous where prev: "map_of before k = Some previous"
    by (auto simp: recordChangeOf_def split: option.splits)
  with assms(4) cur have "diffPublishedLayouts k (indexPublishedLayout (sw_layout previous))
      (indexPublishedLayout (sw_layout current)) (sw_layout current) = None"
    by (simp add: recordChangeOf_def)
  from diff_None_same [OF this shownWf_layout [OF assms(1) prev] shownWf_layout [OF assms(2) cur]]
  show ?thesis by (simp add: shownMap_def prev cur)
qed

lemma unchangedShown_same:
  assumes "unchangedShown own env before k l" "map_of next k = Some l"
  shows "shownMap (shownOf own env before next) k = shownMap before k"
  using assms by (auto simp: shownMap_def map_of_shownOf showLayout_def unchangedShown_def split: option.splits)

lemma not_removed_same:
  assumes "k \<notin> set (filter (\<lambda>k. map_of next k = None) (map fst before))" "map_of next k = None"
  shows "shownMap (shownOf own env before next) k = shownMap before k"
proof -
  from assms have "k \<notin> fst ` set before" by auto
  then have "map_of before k = None" by (simp add: map_of_eq_None_iff)
  with assms(2) show ?thesis by (simp add: shownMap_def map_of_shownOf)
qed

definition changedKeys ::
  "bool \<Rightarrow> streamEnv \<Rightarrow> (string \<times> shownLayout) list \<Rightarrow> (string \<times> publishedWorkspaceLayout) list \<Rightarrow> string list" where
  "changedKeys own env before next =
     map fst (filter (\<lambda>(key, layout). \<not> unchangedShown own env before key layout) next)"

lemma changedKeys_mem:
  "distinct (map fst next) \<Longrightarrow> k \<in> set (changedKeys own env before next) \<longleftrightarrow>
     (\<exists>l. map_of next k = Some l \<and> \<not> unchangedShown own env before k l)"
  by (auto simp: changedKeys_def image_iff Bex_def)

lemma distinct_changedKeys: "distinct (map fst next) \<Longrightarrow> distinct (changedKeys own env before next)"
  unfolding changedKeys_def by (rule distinct_map_filter)

lemma records_lead:
  fixes before "next" own env
  defines "removed \<equiv> filter (\<lambda>k. map_of next k = None) (map fst before)"
    and "shown \<equiv> shownOf own env before next" and "changed \<equiv> changedKeys own env before next"
  defines "cs \<equiv> map ChangeRemoved removed
      @ concat (map (\<lambda>k. case recordChangeOf before shown k of None \<Rightarrow> [] | Some c \<Rightarrow> [c]) changed)"
  assumes before: "shownWf before" and pub: "publishedWf next"
  shows "cs = [] \<Longrightarrow> shownMap shown = shownMap before"
    and "leadsTo [RecordsFrame epoch (n + 1) cs] (before, n) (shown, n + 1)"
proof -
  have d: "distinct (map fst next)" "distinct (map fst before)"
    using before pub by (simp_all add: shownWf_def publishedWf_def)
  have shown: "shownWf shown" unfolding shown_def by (rule shownOf_wf [OF before pub])
  have mem: "c \<in> set cs \<longleftrightarrow> (\<exists>k\<in>set removed. c = ChangeRemoved k)
      \<or> (\<exists>k\<in>set changed. recordChangeOf before shown k = Some c)" for c
    unfolding cs_def set_append set_map Un_iff set_present by (auto intro: sym)
  have gone: "map_of next k = None" if "k \<in> set removed" for k using that by (simp add: removed_def)
  have in_next: "map_of next k \<noteq> None" if "k \<in> set changed" for k
    using that changedKeys_mem [OF d(1)] by (auto simp: changed_def)
  have applies: "applyWorkspaceLayoutRecordChange (shownMap before (changeKey c)) c = Inr (shownMap shown (changeKey c))"
    if c: "c \<in> set cs" for c
  proof (cases "\<exists>k\<in>set removed. c = ChangeRemoved k")
    case True
    then obtain k where "k \<in> set removed" "c = ChangeRemoved k" by blast
    with gone [of k] show ?thesis
      by (simp add: shown_def shownMap_def map_of_shownOf applyWorkspaceLayoutRecordChange_def)
  next
    case False
    with c mem obtain k where k: "recordChangeOf before shown k = Some c" by blast
    with recordChangeOf_applies [OF before shown k] recordChangeOf_key [OF k] show ?thesis by simp
  qed
  have keys: "distinct (map changeKey cs)"
  proof -
    have "map changeKey (concat (map (\<lambda>k. case recordChangeOf before shown k of None \<Rightarrow> [] | Some c \<Rightarrow> [c]) ks))
        = filter (\<lambda>k. recordChangeOf before shown k \<noteq> None) ks" for ks
    proof (induction ks)
      case (Cons k ks)
      then show ?case using recordChangeOf_key [of before shown k] by (cases "recordChangeOf before shown k") auto
    qed simp
    moreover have "set removed \<inter> set changed = {}" using gone in_next by blast
    ultimately show ?thesis
      using d distinct_changedKeys [OF d(1), of own env before] by (auto simp: cs_def removed_def changed_def comp_def)
  qed
  have same: "shownMap shown k = shownMap before k" if k: "k \<notin> changeKey ` set cs" for k
  proof (cases "map_of next k")
    case None
    have "k \<notin> set removed"
    proof
      assume "k \<in> set removed"
      with mem have "ChangeRemoved k \<in> set cs" by blast
      with k show False by force
    qed
    then show ?thesis unfolding shown_def removed_def by (rule not_removed_same [OF _ None])
  next
    case (Some l)
    show ?thesis
    proof (cases "unchangedShown own env before k l")
      case True
      then show ?thesis unfolding shown_def by (rule unchangedShown_same [OF _ Some])
    next
      case False
      with Some have ch: "k \<in> set changed" using changedKeys_mem [OF d(1)] by (auto simp: changed_def)
      have "recordChangeOf before shown k = None"
      proof (rule ccontr)
        assume "recordChangeOf before shown k \<noteq> None"
        then obtain c where c: "recordChangeOf before shown k = Some c" by blast
        with mem ch have "c \<in> set cs" by blast
        with k recordChangeOf_key [OF c] show False by blast
      qed
      from recordChangeOf_None [OF before shown _ this] Some show ?thesis
        by (simp add: shown_def map_of_shownOf)
    qed
  qed
  show "cs = [] \<Longrightarrow> shownMap shown = shownMap before" using same by auto
  show "leadsTo [RecordsFrame epoch (n + 1) cs] (before, n) (shown, n + 1)"
    unfolding leadsTo_def
  proof (intro allI impI)
    fix cache assume "showsLayouts cache (shownMap (fst (before, n)))"
    then have "showsLayouts cache (shownMap before)" by simp
    from readFrame_records [OF this keys, of "shownMap shown" epoch n] applies obtain cache' where
      "readFrame (RecordsFrame epoch (n + 1) cs) (Inr (cache, n)) = Inr (cache', n + 1)"
      and sh: "showsLayouts cache' (\<lambda>k. if k \<in> changeKey ` set cs then shownMap shown k else shownMap before k)"
      by auto
    moreover from sh same have "showsLayouts cache' (shownMap shown)" by (auto simp: showsLayouts_def)
    ultimately show "\<exists>cache'. fold readFrame [RecordsFrame epoch (n + 1) cs] (Inr (cache, snd (before, n)))
        = Inr (cache', snd (shown, n + 1)) \<and> showsLayouts cache' (shownMap (fst (shown, n + 1)))" by simp
  qed
qed

lemma whole_lead:
  fixes before "next" own env
  defines "removed \<equiv> filter (\<lambda>k. map_of next k = None) (map fst before)"
    and "shown \<equiv> shownOf own env before next" and "changed \<equiv> changedKeys own env before next"
  defines "kls \<equiv> map (\<lambda>k. (k, None)) removed @ map (\<lambda>k. (k, shownMap shown k)) changed"
  assumes pub: "publishedWf next"
  shows "leadsTo (stamped n (map wholeFrame kls)) (before, n) (shown, n + int (length kls))"
  unfolding leadsTo_def
proof (intro allI impI)
  fix cache assume "showsLayouts cache (shownMap (fst (before, n)))"
  then have cache: "showsLayouts cache (shownMap before)" by simp
  have d: "distinct (map fst next)" using pub by (simp add: publishedWf_def)
  have at: "l = shownMap shown k" if "(k, l) \<in> set kls" for k l
    using that by (auto simp: kls_def removed_def shown_def shownMap_def map_of_shownOf)
  have keys: "fst ` set kls = set removed \<union> set changed"
    by (auto simp: kls_def image_image image_Un)
  have same: "shownMap shown k = shownMap before k" if k: "k \<notin> fst ` set kls" for k
  proof (cases "map_of next k")
    case None
    with k keys not_removed_same [OF _ None, of before own env] show ?thesis by (auto simp: shown_def removed_def)
  next
    case (Some l)
    with k keys changedKeys_mem [OF d, of k own env before] have "unchangedShown own env before k l"
      by (auto simp: changed_def)
    then show ?thesis unfolding shown_def by (rule unchangedShown_same [OF _ Some])
  qed
  from wholeFrames_lead [OF cache, of kls "shownMap shown" n] at obtain cache' where
    "fold readFrame (stamped n (map wholeFrame kls)) (Inr (cache, n)) = Inr (cache', n + int (length kls))"
    and sh: "showsLayouts cache' (\<lambda>k. if k \<in> fst ` set kls then shownMap shown k else shownMap before k)" by auto
  moreover from sh same have "showsLayouts cache' (shownMap shown)" by (auto simp: showsLayouts_def)
  ultimately show "\<exists>cache'. fold readFrame (stamped n (map wholeFrame kls)) (Inr (cache, snd (before, n)))
        = Inr (cache', snd (shown, n + int (length kls)))
      \<and> showsLayouts cache' (shownMap (fst (shown, n + int (length kls))))" by simp
qed

text \<open>
  Every reconciliation sends each listener the same frames, and they lead to what is shown; a
  layout-owner build sends one records frame at most.
\<close>

definition recordsOnly :: "layoutStream \<Rightarrow> layoutFrame list \<Rightarrow> bool" where
  "recordsOnly s frames \<longleftrightarrow> (case ls_epoch s of
     None \<Rightarrow> True
   | Some epoch \<Rightarrow> frames = [] \<or> (\<exists>cs. frames = [RecordsFrame epoch (ls_seq s + 1) cs]))"

lemma recordsOnly_Nil [simp]: "recordsOnly s []"
  by (simp add: recordsOnly_def split: option.split)

lemma recordsOnly_cong:
  "ls_epoch s = ls_epoch t \<Longrightarrow> ls_seq s = ls_seq t \<Longrightarrow> recordsOnly s frames = recordsOnly t frames"
  by (simp add: recordsOnly_def split: option.split)

lemma recordsOnly_projection [simp]: "recordsOnly (s\<lparr>ls_projection := pj\<rparr>) frames = recordsOnly s frames"
  by (rule recordsOnly_cong) simp_all

lemma leadsTo_Nil [simp]: "leadsTo [] x x"
  by (simp add: leadsTo_def)

lemma reconcileWith_lead:
  assumes before: "shownWf (ls_shown s)" and pub: "publishedWf next"
  shows "\<exists>frames n. reconcileWith own env next s =
       (s\<lparr>ls_shown := shownOf own env (ls_shown s) next, ls_seq := n\<rparr>, concat (map (\<lambda>f. deliver f s) frames))
     \<and> (ls_listeners s \<noteq> [] \<longrightarrow> leadsTo frames (ls_shown s, ls_seq s) (shownOf own env (ls_shown s) next, n))
     \<and> recordsOnly s frames"
proof -
  let ?shown = "shownOf own env (ls_shown s) next"
  let ?removed = "filter (\<lambda>k. map_of next k = None) (map fst (ls_shown s))"
  let ?changed = "changedKeys own env (ls_shown s) next"
  have eq: "reconcileWith own env next s
      = publishChanges (ls_shown s) ?removed ?changed (s\<lparr>ls_shown := ?shown\<rparr>)"
    by (simp add: reconcileWith_def shownOf_def changedKeys_def Let_def)
  have del: "deliver f (s\<lparr>ls_shown := x\<rparr>) = deliver f s" "deliver f (s\<lparr>ls_shown := x, ls_seq := n\<rparr>) = deliver f s"
    for f x n by (simp_all add: deliver_def)
  have same_seq: "s\<lparr>ls_shown := x, ls_seq := ls_seq s\<rparr> = s\<lparr>ls_shown := x\<rparr>" for x by simp
  show ?thesis
  proof (cases "ls_epoch s")
    case None
    let ?kls = "map (\<lambda>k. (k, None)) ?removed @ map (\<lambda>k. (k, shownMap ?shown k)) ?changed"
    have d: "distinct (map fst next)" using pub by (simp add: publishedWf_def)
    have "concat (map (\<lambda>key. case map_of ?shown key of None \<Rightarrow> []
        | Some current \<Rightarrow> [\<lambda>seq. WorkspaceFrame key (sw_layout current) (Some seq)]) ks)
      = map wholeFrame (map (\<lambda>k. (k, shownMap ?shown k)) ks)" if "set ks \<subseteq> set ?changed" for ks
      using that
    proof (induction ks)
      case (Cons k ks)
      then obtain l where "map_of next k = Some l" using changedKeys_mem [OF d] by auto
      then show ?case using Cons by (auto simp: map_of_shownOf shownMap_def wholeFrame_def fun_eq_iff)
    qed simp
    from this [OF order_refl] have "publishChanges (ls_shown s) ?removed ?changed (s\<lparr>ls_shown := ?shown\<rparr>)
        = deliverEach (map wholeFrame ?kls) (s\<lparr>ls_shown := ?shown\<rparr>)"
      by (simp add: publishChanges_def None comp_def wholeFrame_removed)
    with whole_lead [OF pub, where own = own and env = env and before = "ls_shown s" and n = "ls_seq s"] show ?thesis
      unfolding eq deliverEach_stamped by (intro exI conjI) (auto simp: del recordsOnly_def None)
  next
    case (Some epoch)
    let ?cs = "map ChangeRemoved ?removed
      @ concat (map (\<lambda>k. case recordChangeOf (ls_shown s) ?shown k of None \<Rightarrow> [] | Some c \<Rightarrow> [c]) ?changed)"
    note lead = records_lead [OF before pub, where own = own and env = env]
    show ?thesis
    proof (cases "ls_listeners s = [] \<or> ?cs = []")
      case True
      then have "publishChanges (ls_shown s) ?removed ?changed (s\<lparr>ls_shown := ?shown\<rparr>) = (s\<lparr>ls_shown := ?shown\<rparr>, [])"
        by (auto simp: publishChanges_def Some Let_def)
      moreover have "ls_listeners s \<noteq> [] \<longrightarrow> leadsTo [] (ls_shown s, ls_seq s) (?shown, ls_seq s)"
        using True lead(1) by (auto simp: leadsTo_def)
      ultimately show ?thesis unfolding eq
        by (intro exI [of _ "[]"] exI [of _ "ls_seq s"]) (simp add: recordsOnly_def Some)
    next
      case False
      then have "publishChanges (ls_shown s) ?removed ?changed (s\<lparr>ls_shown := ?shown\<rparr>)
          = (s\<lparr>ls_shown := ?shown, ls_seq := ls_seq s + 1\<rparr>, deliver (RecordsFrame epoch (ls_seq s + 1) ?cs) s)"
        by (auto simp: publishChanges_def Some Let_def del)
      with lead(2) [where epoch = epoch and n = "ls_seq s"] show ?thesis unfolding eq
        by (intro exI [of _ "[RecordsFrame epoch (ls_seq s + 1) ?cs]"] exI [of _ "ls_seq s + 1"])
          (simp add: recordsOnly_def Some)
    qed
  qed
qed

section \<open>Flushing\<close>

text \<open>The stored layouts the store can load are well-formed.\<close>

definition envWf :: "projectionEnv \<Rightarrow> bool" where
  "envWf env \<longleftrightarrow> list_all (\<lambda>h. case en_load env h of None \<Rightarrow> True | Some m \<Rightarrow> wf_layout m) (en_hostIds env)"

lemma publish_paneWise:
  assumes "wf_workspace E ws"
  shows "paneWise (publishWorkspaceLayout own ws h)"
  using ws_leaves_rebuilt(2) [OF assms]
  by (simp add: paneWise_def paneIdsOfPublished_def publishedPanes_publish comp_def)

lemma partition_paneWise:
  assumes "case pq_loaded p of None \<Rightarrow> True | Some m \<Rightarrow> wf_layout m"
    and "map_of (partitionWorkspaces own p) k = Some l"
  shows "paneWise l"
proof -
  from assms(2) obtain m where m: "pq_loaded p = Some m"
    by (cases "pq_loaded p") (simp_all add: partitionWorkspaces_def)
  with assms(2) have at: "map_of (fromEntries (map (\<lambda>(key, ws). (key, publishWorkspaceLayout own ws (pq_hostId p)))
      (md_workspaces m))) k = Some l" by (simp add: partitionWorkspaces_def)
  from map_of_SomeD [OF at] set_fromEntries have
    "(k, l) \<in> set (map (\<lambda>(key, ws). (key, publishWorkspaceLayout own ws (pq_hostId p))) (md_workspaces m))" by blast
  then obtain ws where ws: "(k, ws) \<in> set (md_workspaces m)" "l = publishWorkspaceLayout own ws (pq_hostId p)" by auto
  from assms(1) m ws(1) have "wf_workspace {} ws" by (fastforce simp: wf_model_def)
  then show ?thesis unfolding ws(2) by (rule publish_paneWise)
qed

lemma projectFresh_wf:
  assumes env: "envWf env" and pub: "publishedWf (pj_published pj)" and fresh: "projectFresh own env pj = Inr next"
  shows "publishedWf next"
proof -
  let ?ps = "fromEntries (map (\<lambda>h. (h, loadPartition env h)) (en_hostIds env))"
  from fresh have r: "route own env ?ps (pj_published pj) = Inr next" by (simp add: projectFresh_def)
  note d = route_distinct [OF r]
  have part: "p = loadPartition env h \<and> h \<in> set (en_hostIds env)" if "(h, p) \<in> set ?ps" for h p
  proof -
    from that set_fromEntries have "(h, p) \<in> set (map (\<lambda>h. (h, loadPartition env h)) (en_hostIds env))" by blast
    then show ?thesis by auto
  qed
  have "paneWise l" if kl: "(k, l) \<in> set next" for k l
    using route_published [OF r map_of_is_SomeI [OF d kl]]
  proof (elim disjE conjE)
    assume "homedIn own env ?ps k l"
    then obtain h p where "(h, p) \<in> set ?ps" "map_of (partitionWorkspaces own p) k = Some l"
      by (auto simp: homedIn_def)
    with part [of h p] env show ?thesis
      by (intro partition_paneWise) (auto simp: envWf_def list_all_iff loadPartition_def)
  next
    assume "map_of (pj_published pj) k = Some l"
    with pub show ?thesis by (auto simp: publishedWf_def list_all_iff dest!: map_of_SomeD)
  qed
  with d show ?thesis by (auto simp: publishedWf_def list_all_iff)
qed

text \<open>What holds of a stream in an environment whatever its listeners are.\<close>

definition streamWf :: "streamEnv \<Rightarrow> layoutStream \<Rightarrow> bool" where
  "streamWf env s \<longleftrightarrow> coherentCache (se_projection env) (ls_projection s)
     \<and> publishedWf (pj_published (ls_projection s)) \<and> shownWf (ls_shown s) \<and> distinct (ls_listeners s)"

definition sameWatchers :: "layoutStream \<Rightarrow> layoutStream \<Rightarrow> bool" where
  "sameWatchers s s' \<longleftrightarrow> ls_listeners s' = ls_listeners s \<and> ls_commitListeners s' = ls_commitListeners s
     \<and> ls_watching s' = ls_watching s \<and> ls_projecting s' = ls_projecting s \<and> ls_epoch s' = ls_epoch s"

text \<open>A step of the stream that keeps its watchers and sends frames that lead to what it shows.\<close>

definition reconciled :: "streamEnv \<Rightarrow> layoutStream \<Rightarrow> layoutStream \<Rightarrow> streamOutput list \<Rightarrow> bool" where
  "reconciled env s s' outs \<longleftrightarrow> streamWf env s' \<and> sameWatchers s s'
     \<and> ls_dirty s' = ls_dirty s \<and> ls_liveTitlesDirty s' = ls_liveTitlesDirty s
     \<and> (\<exists>frames. outs = concat (map (\<lambda>f. deliver f s) frames)
        \<and> (ls_listeners s \<noteq> [] \<longrightarrow> leadsTo frames (ls_shown s, ls_seq s) (ls_shown s', ls_seq s'))
        \<and> recordsOnly s frames)"

lemma reconciled_projection:
  assumes "streamWf env s" "coherentCache (se_projection env) pj" "publishedWf (pj_published pj)"
  shows "reconciled env s (s\<lparr>ls_projection := pj\<rparr>) []"
proof -
  have "streamWf env (s\<lparr>ls_projection := pj\<rparr>)" using assms by (simp add: streamWf_def)
  then show ?thesis by (auto simp: reconciled_def sameWatchers_def intro: exI [of _ "[]"])
qed

lemma reconciled_with:
  assumes wf: "streamWf env s" and co: "coherentCache (se_projection env) pj"
    and pub: "publishedWf (pj_published pj)"
    and w: "reconcileWith own env (pj_published pj) (s\<lparr>ls_projection := pj\<rparr>) = (s', outs)"
  shows "reconciled env s s' outs" "ls_shown s' = shownOf own env (ls_shown s) (pj_published pj)"
    "ls_projection s' = pj"
proof -
  from wf have shown: "shownWf (ls_shown s)" by (simp add: streamWf_def)
  from reconcileWith_lead [of "s\<lparr>ls_projection := pj\<rparr>" "pj_published pj" own env] shown pub w obtain frames n where
    s': "s' = s\<lparr>ls_projection := pj, ls_shown := shownOf own env (ls_shown s) (pj_published pj), ls_seq := n\<rparr>"
    and outs: "outs = concat (map (\<lambda>f. deliver f (s\<lparr>ls_projection := pj\<rparr>)) frames)"
    and lead: "ls_listeners s \<noteq> [] \<longrightarrow>
      leadsTo frames (ls_shown s, ls_seq s) (shownOf own env (ls_shown s) (pj_published pj), n)"
    and only: "recordsOnly s frames" by auto
  show "ls_shown s' = shownOf own env (ls_shown s) (pj_published pj)" "ls_projection s' = pj" by (simp_all add: s')
  have "deliver f (s\<lparr>ls_projection := pj\<rparr>) = deliver f s" for f by (simp add: deliver_def)
  moreover have "streamWf env s'" using wf co pub shownOf_wf [OF shown pub, of own env]
    by (simp add: streamWf_def s')
  ultimately show "reconciled env s s' outs" using lead only
    by (auto simp: reconciled_def sameWatchers_def s' outs)
qed

lemma reconcile_steps:
  assumes wf: "streamWf env s" and env: "envWf (se_projection env)"
    and r: "reconcile own env reproject s = (failed, s', outs)"
  shows "reconciled env s s' outs"
    and "failed = None \<Longrightarrow> ls_shown s' = shownOf own env (ls_shown s) (pj_published (ls_projection s'))"
    and "failed \<noteq> None \<Longrightarrow> ls_shown s' = ls_shown s \<and> pj_published (ls_projection s') = pj_published (ls_projection s)"
    and "reproject \<Longrightarrow> projectFresh own (se_projection env) (ls_projection s) =
       (case failed of Some e \<Rightarrow> Inl e | None \<Rightarrow> Inr (pj_published (ls_projection s')))"
    and "\<not> reproject \<Longrightarrow> failed = None \<and> ls_projection s' = ls_projection s"
proof -
  from wf have co: "coherentCache (se_projection env) (ls_projection s)"
    and pub: "publishedWf (pj_published (ls_projection s))" by (simp_all add: streamWf_def)
  obtain res pj where p: "project own (se_projection env) (ls_projection s) = (res, pj)" by force
  note fresh = project_fresh [OF co p]
  have pub': "publishedWf (pj_published pj)"
    using projectFresh_wf [OF env pub, of own] fresh pub by (auto split: sum.splits)
  consider (failed) e where "reproject" "res = Inl e" "failed = Some e" "s' = s\<lparr>ls_projection := pj\<rparr>" "outs = []"
    | (projected) "reproject" "res = Inr (pj_published pj)" "failed = None"
        "reconcileWith own env (pj_published pj) (s\<lparr>ls_projection := pj\<rparr>) = (s', outs)"
    | (kept) "\<not> reproject" "failed = None"
        "reconcileWith own env (pj_published (ls_projection s)) (s\<lparr>ls_projection := ls_projection s\<rparr>) = (s', outs)"
    using r p fresh(3) by (auto simp: reconcile_def split: sum.splits if_splits)
  then have "reconciled env s s' outs
    \<and> (failed = None \<longrightarrow> ls_shown s' = shownOf own env (ls_shown s) (pj_published (ls_projection s')))
    \<and> (failed \<noteq> None \<longrightarrow> ls_shown s' = ls_shown s \<and> pj_published (ls_projection s') = pj_published (ls_projection s))
    \<and> (reproject \<longrightarrow> projectFresh own (se_projection env) (ls_projection s) =
       (case failed of Some e \<Rightarrow> Inl e | None \<Rightarrow> Inr (pj_published (ls_projection s'))))
    \<and> (\<not> reproject \<longrightarrow> failed = None \<and> ls_projection s' = ls_projection s)"
  proof cases
    case failed
    from fresh(1) failed(2) have "projectFresh own (se_projection env) (ls_projection s) = Inl e" by simp
    moreover from fresh(3) failed(2) have "pj_published pj = pj_published (ls_projection s)"
      by (simp only: sum.case)
    ultimately have "projectFresh own (se_projection env) (ls_projection s) = Inl e"
      "pj_published pj = pj_published (ls_projection s)" by blast+
    with reconciled_projection [OF wf fresh(2) pub'] failed show ?thesis by simp
  next
    case projected
    from fresh(1) projected(2) have pf: "projectFresh own (se_projection env) (ls_projection s) = Inr (pj_published pj)"
      by (rule subst)
    note w = reconciled_with [OF wf fresh(2) pub' projected(4)]
    show ?thesis unfolding w(3) pf projected(3) using w(1,2) projected(1) by simp
  next
    case kept
    with reconciled_with [OF wf co pub kept(3)] show ?thesis by simp
  qed
  then show "reconciled env s s' outs"
    "failed = None \<Longrightarrow> ls_shown s' = shownOf own env (ls_shown s) (pj_published (ls_projection s'))"
    "failed \<noteq> None \<Longrightarrow> ls_shown s' = ls_shown s \<and> pj_published (ls_projection s') = pj_published (ls_projection s)"
    "reproject \<Longrightarrow> projectFresh own (se_projection env) (ls_projection s) =
       (case failed of Some e \<Rightarrow> Inl e | None \<Rightarrow> Inr (pj_published (ls_projection s')))"
    "\<not> reproject \<Longrightarrow> failed = None \<and> ls_projection s' = ls_projection s" by blast+
qed

text \<open>The published layouts are those shown, under the live facts.\<close>

definition inSync :: "layoutStream \<Rightarrow> bool" where
  "inSync s \<longleftrightarrow> map (\<lambda>(k, sh). (k, sw_projected sh)) (ls_shown s) = pj_published (ls_projection s)"

lemma projected_shownOf: "map (\<lambda>(k, sh). (k, sw_projected sh)) (shownOf own env before next) = next"
  by (simp add: shownOf_def comp_def case_prod_unfold showLayout_projected)

lemma flush_steps:
  assumes wf: "streamWf env s" and env: "envWf (se_projection env)" and f: "flush own env s = (s', outs)"
  shows "streamWf env s'" and "sameWatchers s s'" and "\<not> ls_dirty s'" and "\<not> ls_liveTitlesDirty s'"
    and "inSync s \<Longrightarrow> inSync s'"
    and "\<exists>frames t u. outs = concat (map (\<lambda>f. deliver f s) frames) @ commitOutputs t u \<and> recordsOnly s frames
       \<and> (ls_listeners s \<noteq> [] \<longrightarrow> leadsTo frames (ls_shown s, ls_seq s) (ls_shown s', ls_seq s'))"
    and "ls_dirty s \<Longrightarrow> projectFresh own (se_projection env) (ls_projection s) = Inr next \<Longrightarrow>
       ls_shown s' = shownOf own env (ls_shown s) next"
proof -
  let ?s = "s\<lparr>ls_touched := None, ls_dirty := False, ls_liveTitlesDirty := False\<rparr>"
  have del: "deliver f ?s = deliver f s" for f by (simp add: deliver_def)
  have only_eq: "recordsOnly ?s frames = recordsOnly s frames" for frames by (rule recordsOnly_cong) simp_all
  have "streamWf env s' \<and> sameWatchers s s' \<and> \<not> ls_dirty s' \<and> \<not> ls_liveTitlesDirty s'
    \<and> (inSync s \<longrightarrow> inSync s')
    \<and> (\<exists>frames t u. outs = concat (map (\<lambda>f. deliver f s) frames) @ commitOutputs t u \<and> recordsOnly s frames
       \<and> (ls_listeners s \<noteq> [] \<longrightarrow> leadsTo frames (ls_shown s, ls_seq s) (ls_shown s', ls_seq s')))
    \<and> (ls_dirty s \<longrightarrow> projectFresh own (se_projection env) (ls_projection s) = Inr next \<longrightarrow>
       ls_shown s' = shownOf own env (ls_shown s) next)"
  proof (cases "ls_dirty s \<or> ls_liveTitlesDirty s")
    case False
    with f have s': "s' = s\<lparr>ls_touched := None\<rparr>"
      and outs: "outs = concat (map (\<lambda>f. deliver f s) []) @ commitOutputs (ls_touched s) (s\<lparr>ls_touched := None\<rparr>)"
      by (auto simp: flush_def Let_def)
    have "leadsTo [] (ls_shown s, ls_seq s) (ls_shown s', ls_seq s')" by (simp add: s')
    with outs recordsOnly_Nil [of s] have "\<exists>frames t u.
        outs = concat (map (\<lambda>f. deliver f s) frames) @ commitOutputs t u \<and> recordsOnly s frames
       \<and> (ls_listeners s \<noteq> [] \<longrightarrow> leadsTo frames (ls_shown s, ls_seq s) (ls_shown s', ls_seq s'))" by blast
    with wf False show ?thesis by (simp add: s' streamWf_def sameWatchers_def inSync_def)
  next
    case True
    obtain failed s2 outs2 where r: "reconcile own env (ls_dirty s) ?s = (failed, s2, outs2)" by (metis prod_cases3)
    have "streamWf env ?s" using wf by (simp add: streamWf_def)
    note steps = reconcile_steps [OF this env r]
    let ?s3 = "s2\<lparr>ls_projection := (if failed = None then ls_projection s2 else forgetPartitions (ls_projection s2))\<rparr>"
    from f True r have s': "s' = ?s3" and outs: "outs = outs2 @ commitOutputs (ls_touched s) ?s3"
      by (auto simp: flush_def Let_def split: option.splits)
    have pub: "pj_published (ls_projection s') = pj_published (ls_projection s2)" "ls_shown s' = ls_shown s2"
      "ls_seq s' = ls_seq s2"
      by (simp_all add: s' forgetPartitions_def)
    from steps(1) obtain frames where frames: "outs2 = concat (map (\<lambda>f. deliver f s) frames)"
      and lead: "ls_listeners s \<noteq> [] \<longrightarrow> leadsTo frames (ls_shown s, ls_seq s) (ls_shown s2, ls_seq s2)"
      and only: "recordsOnly s frames"
      by (auto simp: reconciled_def del only_eq)
    have "streamWf env s'" using steps(1) unfolding reconciled_def s' by (simp add: streamWf_def forgetPartitions_def coherentCache_def)
    moreover have "sameWatchers s s' \<and> \<not> ls_dirty s' \<and> \<not> ls_liveTitlesDirty s'"
      using steps(1) unfolding reconciled_def s' by (simp add: sameWatchers_def)
    moreover have "inSync s'" if "inSync s"
      using that steps(2,3) by (cases failed) (simp_all add: inSync_def pub projected_shownOf)
    moreover have "outs = concat (map (\<lambda>f. deliver f s) frames) @ commitOutputs (ls_touched s) ?s3"
      by (simp add: outs frames)
    moreover have "ls_shown s' = shownOf own env (ls_shown s) next"
      if "ls_dirty s" "projectFresh own (se_projection env) (ls_projection s) = Inr next"
      using that steps(2,4) by (cases failed) (simp_all add: pub)
    ultimately show ?thesis using lead only unfolding pub by blast
  qed
  then show "streamWf env s'" "sameWatchers s s'" "\<not> ls_dirty s'" "\<not> ls_liveTitlesDirty s'"
    "inSync s \<Longrightarrow> inSync s'"
    "\<exists>frames t u. outs = concat (map (\<lambda>f. deliver f s) frames) @ commitOutputs t u \<and> recordsOnly s frames
       \<and> (ls_listeners s \<noteq> [] \<longrightarrow> leadsTo frames (ls_shown s, ls_seq s) (ls_shown s', ls_seq s'))"
    "ls_dirty s \<Longrightarrow> projectFresh own (se_projection env) (ls_projection s) = Inr next \<Longrightarrow>
       ls_shown s' = shownOf own env (ls_shown s) next" by blast+
qed

section \<open>The stream with its readers\<close>

record streamWorld =
  wd_env :: streamEnv
  wd_stream :: layoutStream
  wd_readers :: "(string \<times> streamReader) list"

datatype streamAction =
  Written "string option" streamEnv
| TitlesChanged streamEnv
| QueuedFlush
| OperationEnded
| Subscribed string
| Unsubscribed string
| CommitsObserved string
| CommitsIgnored string
| PartitionRead string
| SeqSettled

definition startReader :: "layoutFrame \<Rightarrow> streamReader" where
  "startReader frame = (case applyLayoutFrame [] frame of
     Inl e \<Rightarrow> Inl (BrokenRecords e)
   | Inr cache \<Rightarrow> Inr (cache, orElse (framePosition frame) 0))"

definition handedOut :: "layoutStream \<times> streamOutput list \<Rightarrow> streamWorld \<Rightarrow> streamWorld" where
  "handedOut res w = w\<lparr>wd_stream := fst res, wd_readers := fold handOut (snd res) (wd_readers w)\<rparr>"

text \<open>The store tells the stream of a write, and of the end of an operation, while it watches.\<close>

fun worldStep :: "bool \<Rightarrow> streamAction \<Rightarrow> streamWorld \<Rightarrow> streamWorld" where
  "worldStep own (Written hostId env) w = w\<lparr>wd_env := env, wd_stream :=
     (if ls_watching (wd_stream w) then markDirty hostId (wd_stream w) else wd_stream w)\<rparr>"
| "worldStep own (TitlesChanged env) w = w\<lparr>wd_env := env, wd_stream := markLiveTitlesDirty (wd_stream w)\<rparr>"
| "worldStep own QueuedFlush w = handedOut (queuedFlush own (wd_env w) (wd_stream w)) w"
| "worldStep own OperationEnded w =
     (if own \<and> ls_watching (wd_stream w) then handedOut (flush own (wd_env w) (wd_stream w)) w else w)"
| "worldStep own (Subscribed l) w =
     (let (s, outs, snapshot) = subscribe own (wd_env w) l (wd_stream w)
      in w\<lparr>wd_stream := s, wd_readers := AList.update l (startReader snapshot) (fold handOut outs (wd_readers w))\<rparr>)"
| "worldStep own (Unsubscribed l) w = w\<lparr>wd_stream := unsubscribe l (wd_stream w)\<rparr>"
| "worldStep own (CommitsObserved l) w = w\<lparr>wd_stream := onLayoutOperationCommitted l (wd_stream w)\<rparr>"
| "worldStep own (CommitsIgnored l) w = w\<lparr>wd_stream := offLayoutOperationCommitted l (wd_stream w)\<rparr>"
| "worldStep own (PartitionRead h) w = w\<lparr>wd_stream := snd (readPartition (wd_env w) h (wd_stream w))\<rparr>"
| "worldStep own SeqSettled w = handedOut (snd (settledSeq own (wd_env w) (wd_stream w))) w"

text \<open>A write touches one partition or is unscoped; a listener subscribes once.\<close>

fun legalAction :: "streamAction \<Rightarrow> streamWorld \<Rightarrow> bool" where
  "legalAction (Written hostId env) w \<longleftrightarrow> envWf (se_projection env)
     \<and> (case hostId of None \<Rightarrow> True | Some h \<Rightarrow>
          (\<forall>k. k \<noteq> h \<longrightarrow> en_load (se_projection env) k = en_load (se_projection (wd_env w)) k))"
| "legalAction (TitlesChanged env) w \<longleftrightarrow> se_projection env = se_projection (wd_env w)"
| "legalAction (Subscribed l) w \<longleftrightarrow> l \<notin> set (ls_listeners (wd_stream w))"
| "legalAction _ w \<longleftrightarrow> True"

inductive reachableWorld :: "bool \<Rightarrow> string \<Rightarrow> streamWorld \<Rightarrow> bool" for own uuid where
  start: "envWf (se_projection env) \<Longrightarrow>
    reachableWorld own uuid \<lparr>wd_env = env, wd_stream = newStream own uuid, wd_readers = []\<rparr>"
| step: "reachableWorld own uuid w \<Longrightarrow> legalAction a w \<Longrightarrow> reachableWorld own uuid (worldStep own a w)"

section \<open>The invariant\<close>

definition readerFollows :: "layoutStream \<Rightarrow> streamReader option \<Rightarrow> bool" where
  "readerFollows s r \<longleftrightarrow> (\<exists>cache. r = Some (Inr (cache, ls_seq s)) \<and> showsLayouts cache (shownMap (ls_shown s)))"

definition watchesOk :: "layoutStream \<Rightarrow> bool" where
  "watchesOk s \<longleftrightarrow>
     (ls_watching s \<longleftrightarrow> ls_listeners s \<noteq> [] \<or> ls_commitListeners s \<noteq> [])
     \<and> (ls_watching s \<or> pj_partitions (ls_projection s) = [])
     \<and> (ls_projecting s \<longleftrightarrow> ls_listeners s \<noteq> [])
     \<and> (ls_projecting s \<or> \<not> ls_dirty s \<and> \<not> ls_liveTitlesDirty s)
     \<and> (\<not> ls_projecting s \<or> inSync s)"

definition worldOk :: "streamWorld \<Rightarrow> bool" where
  "worldOk w \<longleftrightarrow> envWf (se_projection (wd_env w)) \<and> streamWf (wd_env w) (wd_stream w)
     \<and> watchesOk (wd_stream w)
     \<and> (\<forall>l\<in>set (ls_listeners (wd_stream w)). readerFollows (wd_stream w) (map_of (wd_readers w) l))"

text \<open>Steps that send nothing and show the same.\<close>

lemma silent_ok:
  assumes "worldOk w" "envWf (se_projection env)" "streamWf env s'" "watchesOk s'"
    and "set (ls_listeners s') \<subseteq> set (ls_listeners (wd_stream w))"
    and "ls_listeners s' \<noteq> [] \<Longrightarrow> ls_shown s' = ls_shown (wd_stream w) \<and> ls_seq s' = ls_seq (wd_stream w)"
  shows "worldOk (w\<lparr>wd_env := env, wd_stream := s'\<rparr>)"
proof -
  have "readerFollows s' (map_of (wd_readers w) l)" if l: "l \<in> set (ls_listeners s')" for l
  proof -
    from l have "ls_listeners s' \<noteq> []" by auto
    from assms(6) [OF this] have "readerFollows s' r = readerFollows (wd_stream w) r" for r
      by (simp add: readerFollows_def)
    with assms(1,5) l show ?thesis by (auto simp: worldOk_def)
  qed
  with assms(2-4) show ?thesis by (simp add: worldOk_def)
qed

lemma streamWf_empty: "streamWf env s \<Longrightarrow> pj_partitions (ls_projection s) = [] \<Longrightarrow> streamWf env' s"
  by (simp add: streamWf_def coherentCache_def)

lemma flush_follows:
  assumes wf: "streamWf env s" and env: "envWf (se_projection env)" and f: "flush own env s = (s', outs)"
    and l: "l \<in> set (ls_listeners s)" and r: "readerFollows s (map_of readers l)"
  shows "readerFollows s' (map_of (fold handOut outs readers) l)"
proof -
  from flush_steps(6) [OF wf env f] obtain frames t u where
    outs: "outs = concat (map (\<lambda>f. deliver f s) frames) @ commitOutputs t u"
    and lead: "ls_listeners s \<noteq> [] \<longrightarrow> leadsTo frames (ls_shown s, ls_seq s) (ls_shown s', ls_seq s')" by blast
  have out: "fold handOut outs readers = fold handOut (concat (map (\<lambda>f. deliver f s) frames)) readers"
    by (simp add: outs handOut_commits)
  from r obtain cache where
    at: "map_of readers l = Some (Inr (cache, ls_seq s))" "showsLayouts cache (shownMap (ls_shown s))"
    by (auto simp: readerFollows_def)
  have "map_of (fold handOut outs readers) l = map_option (fold readFrame frames) (map_of readers l)"
    unfolding out by (rule map_of_handOut_frames) (use wf l in \<open>auto simp: streamWf_def\<close>)
  moreover have "ls_listeners s \<noteq> []" using l by auto
  ultimately show ?thesis using lead at by (auto simp: leadsTo_def readerFollows_def)
qed

lemma watched_flush_ok:
  assumes ok: "worldOk w"
  shows "worldOk (handedOut (flush own (wd_env w) (wd_stream w)) w)"
proof -
  let ?s = "wd_stream w"
  obtain s' outs where f: "flush own (wd_env w) ?s = (s', outs)" by force
  from ok have env: "envWf (se_projection (wd_env w))" and wf: "streamWf (wd_env w) ?s" and wat: "watchesOk ?s"
    by (simp_all add: worldOk_def)
  note st = flush_steps [OF wf env f]
  have same: "ls_listeners s' = ls_listeners ?s" using st(2) by (simp add: sameWatchers_def)
  have "pj_partitions (ls_projection s') = []" if "\<not> ls_watching s'"
  proof -
    from that st(2) wat have "\<not> ls_dirty ?s" "\<not> ls_liveTitlesDirty ?s" "pj_partitions (ls_projection ?s) = []"
      by (auto simp: sameWatchers_def watchesOk_def)
    with f show ?thesis by (auto simp: flush_def Let_def)
  qed
  then have "watchesOk s'" using wat st(2-5) by (auto simp: sameWatchers_def watchesOk_def)
  with env st(1) same ok flush_follows [OF wf env f] show ?thesis
    by (auto simp: worldOk_def handedOut_def f)
qed

lemma written_ok:
  assumes ok: "worldOk w" and legal: "legalAction (Written hostId env) w"
  shows "worldOk (worldStep own (Written hostId env) w)"
proof -
  let ?s = "wd_stream w"
  let ?s' = "if ls_watching ?s then markDirty hostId ?s else ?s"
  from ok have wf: "streamWf (wd_env w) ?s" and wat: "watchesOk ?s" by (simp_all add: worldOk_def)
  from legal have env: "envWf (se_projection env)" by simp
  have pub: "pj_published (invalidate hostId pj) = pj_published pj" "pj_partitions (invalidate hostId pj) = pj_partitions pj"
    for pj by (simp_all add: invalidate_def split: option.split dirtyPartitions.split)
  have "streamWf env ?s'"
  proof (cases "ls_watching ?s")
    case True
    have "coherentCache (se_projection env) (invalidate hostId (ls_projection ?s))"
      by (rule coherent_invalidate [where env = "se_projection (wd_env w)"])
        (use wf legal in \<open>auto simp: streamWf_def\<close>)
    with True wf show ?thesis by (simp add: streamWf_def markDirty_def schedule_def pub)
  next
    case False
    with wat have "pj_partitions (ls_projection ?s) = []" by (simp add: watchesOk_def)
    from streamWf_empty [OF wf this] False show ?thesis by simp
  qed
  moreover have "watchesOk ?s'"
    using wat by (auto simp: watchesOk_def markDirty_def schedule_def inSync_def pub)
  ultimately show ?thesis using silent_ok [OF ok env, of ?s'] by (auto simp: markDirty_def schedule_def)
qed

lemma quiet_ok:
  assumes ok: "worldOk w" and wf: "streamWf (wd_env w) s'" and wat: "watchesOk s'"
    and "set (ls_listeners s') \<subseteq> set (ls_listeners (wd_stream w))"
    and "ls_listeners s' \<noteq> [] \<Longrightarrow> ls_shown s' = ls_shown (wd_stream w) \<and> ls_seq s' = ls_seq (wd_stream w)"
  shows "worldOk (w\<lparr>wd_stream := s'\<rparr>)"
proof -
  have "envWf (se_projection (wd_env w))" using ok by (simp add: worldOk_def)
  from silent_ok [OF ok this wf wat assms(4,5)] show ?thesis by simp
qed

lemma queuedFlush_ok:
  assumes ok: "worldOk w"
  shows "worldOk (worldStep own QueuedFlush w)"
proof (cases "ls_flushQueued (wd_stream w)")
  case True
  let ?w = "w\<lparr>wd_stream := (wd_stream w)\<lparr>ls_flushQueued := False\<rparr>\<rparr>"
  have "worldOk ?w" using ok by (intro quiet_ok) (auto simp: worldOk_def streamWf_def watchesOk_def inSync_def)
  from watched_flush_ok [OF this, of own] True show ?thesis by (simp add: queuedFlush_def handedOut_def)
next
  case False
  with ok show ?thesis by (simp add: queuedFlush_def handedOut_def)
qed

lemma watch_wf:
  assumes "streamWf env s"
  shows "streamWf env (watch s)"
  using assms by (auto simp: watch_def Let_def streamWf_def clearProjection_def forgetPartitions_def
      coherentCache_def publishedWf_def)

lemma watch_fields [simp]:
  "ls_listeners (watch s) = ls_listeners s" "ls_commitListeners (watch s) = ls_commitListeners s"
  "ls_shown (watch s) = ls_shown s" "ls_seq (watch s) = ls_seq s" "ls_projecting (watch s) = ls_projecting s"
  "ls_dirty (watch s) = ls_dirty s" "ls_liveTitlesDirty (watch s) = ls_liveTitlesDirty s"
  "ls_epoch (watch s) = ls_epoch s"
  by (simp_all add: watch_def Let_def)

lemma watch_ok:
  assumes "ls_projecting s \<longleftrightarrow> ls_listeners s \<noteq> []"
    "ls_projecting s \<or> \<not> ls_dirty s \<and> \<not> ls_liveTitlesDirty s" "\<not> ls_projecting s \<or> inSync s"
    "ls_watching s \<or> pj_partitions (ls_projection s) = [] \<or> ls_listeners s \<noteq> [] \<or> ls_commitListeners s \<noteq> []"
  shows "watchesOk (watch s)"
  using assms by (auto simp: watch_def Let_def watchesOk_def clearProjection_def forgetPartitions_def inSync_def)

lemma unsubscribed_ok:
  assumes ok: "worldOk w"
  shows "worldOk (worldStep own (Unsubscribed l) w)"
proof -
  let ?s = "wd_stream w"
  let ?rest = "filter (\<lambda>x. x \<noteq> l) (ls_listeners ?s)"
  from ok have wf: "streamWf (wd_env w) ?s" and wat: "watchesOk ?s" by (simp_all add: worldOk_def)
  show ?thesis
  proof (cases "l \<in> set (ls_listeners ?s)")
    case False
    with ok show ?thesis by (simp add: unsubscribe_def)
  next
    case True
    then have ne: "ls_listeners ?s \<noteq> []" by auto
    show ?thesis
    proof (cases "?rest = []")
      case False
      with True have "worldStep own (Unsubscribed l) w = w\<lparr>wd_stream := ?s\<lparr>ls_listeners := ?rest\<rparr>\<rparr>"
        by (simp add: unsubscribe_def)
      moreover have "worldOk (w\<lparr>wd_stream := ?s\<lparr>ls_listeners := ?rest\<rparr>\<rparr>)"
        using wf wat ne False by (intro quiet_ok [OF ok]) (auto simp: streamWf_def watchesOk_def inSync_def)
      ultimately show ?thesis by simp
    next
      case rest: True
      let ?s1 = "?s\<lparr>ls_listeners := [], ls_projecting := False, ls_dirty := False,
        ls_liveTitlesDirty := False, ls_shown := []\<rparr>"
      have "worldStep own (Unsubscribed l) w = w\<lparr>wd_stream := watch ?s1\<rparr>"
        using True rest by (simp add: unsubscribe_def)
      moreover have "worldOk (w\<lparr>wd_stream := watch ?s1\<rparr>)"
      proof (rule quiet_ok [OF ok])
        show "streamWf (wd_env w) (watch ?s1)"
          by (rule watch_wf) (use wf in \<open>simp add: streamWf_def shownWf_def\<close>)
        show "watchesOk (watch ?s1)"
          by (rule watch_ok) (use wat ne in \<open>auto simp: watchesOk_def\<close>)
      qed simp_all
      ultimately show ?thesis by simp
    qed
  qed
qed

lemma commits_ok:
  assumes ok: "worldOk w"
  shows "worldOk (worldStep own (CommitsObserved l) w)" "worldOk (worldStep own (CommitsIgnored l) w)"
proof -
  let ?s = "wd_stream w"
  from ok have wf: "streamWf (wd_env w) ?s" and wat: "watchesOk ?s" by (simp_all add: worldOk_def)
  have "worldOk (w\<lparr>wd_stream := watch (?s\<lparr>ls_commitListeners := cs\<rparr>)\<rparr>)" for cs
  proof (rule quiet_ok [OF ok])
    show "streamWf (wd_env w) (watch (?s\<lparr>ls_commitListeners := cs\<rparr>))"
      by (rule watch_wf) (use wf in \<open>simp add: streamWf_def\<close>)
    show "watchesOk (watch (?s\<lparr>ls_commitListeners := cs\<rparr>))"
      by (rule watch_ok) (use wat in \<open>auto simp: watchesOk_def inSync_def\<close>)
  qed simp_all
  then show "worldOk (worldStep own (CommitsObserved l) w)" "worldOk (worldStep own (CommitsIgnored l) w)"
    by (simp_all add: onLayoutOperationCommitted_def offLayoutOperationCommitted_def)
qed

lemma partitionRead_ok:
  assumes ok: "worldOk w"
  shows "worldOk (worldStep own (PartitionRead h) w)"
proof -
  let ?s = "wd_stream w"
  from ok have wf: "streamWf (wd_env w) ?s" and wat: "watchesOk ?s" by (simp_all add: worldOk_def)
  obtain m pj where l: "loadedPartition (se_projection (wd_env w)) h (ls_watching ?s) (ls_projection ?s) = (m, pj)" by force
  note fresh = loadedPartition_fresh [OF _ l]
  have pj: "coherentCache (se_projection (wd_env w)) pj" "pj_published pj = pj_published (ls_projection ?s)"
    using fresh wf by (simp_all add: streamWf_def)
  have same: "\<not> ls_watching ?s \<Longrightarrow> pj = ls_projection ?s" using l by (simp add: loadedPartition_def)
  have "worldOk (w\<lparr>wd_stream := ?s\<lparr>ls_projection := pj\<rparr>\<rparr>)"
    using wf wat same by (intro quiet_ok [OF ok]) (auto simp: streamWf_def pj watchesOk_def inSync_def)
  then show ?thesis by (simp add: readPartition_def l)
qed

lemma titlesChanged_ok:
  assumes ok: "worldOk w" and legal: "legalAction (TitlesChanged env) w"
  shows "worldOk (worldStep own (TitlesChanged env) w)"
proof -
  let ?s = "wd_stream w"
  from ok legal have env: "envWf (se_projection env)" by (simp add: worldOk_def)
  have "worldOk (w\<lparr>wd_env := env, wd_stream := markLiveTitlesDirty ?s\<rparr>)"
    by (rule silent_ok [OF ok env])
      (use ok legal in \<open>auto simp: worldOk_def streamWf_def watchesOk_def inSync_def markLiveTitlesDirty_def schedule_def\<close>)
  then show ?thesis by simp
qed

lemma startProjecting_ok:
  assumes "worldOk w"
  shows "streamWf (wd_env w) (startProjecting (wd_stream w))" "inSync (startProjecting (wd_stream w))"
    "ls_projecting (startProjecting (wd_stream w))"
    "ls_listeners (startProjecting (wd_stream w)) = ls_listeners (wd_stream w)"
    "l \<in> set (ls_listeners (wd_stream w)) \<Longrightarrow>
       readerFollows (startProjecting (wd_stream w)) (map_of (wd_readers w) l)"
  using assms
  by (auto simp: worldOk_def watchesOk_def startProjecting_def streamWf_def inSync_def shownWf_def
      publishedWf_def clearProjection_def forgetPartitions_def coherentCache_def)

lemma snapshot_follows:
  assumes "streamWf env s"
  shows "readerFollows s (Some (startReader (snapshotOf s)))"
proof -
  let ?ws = "map (\<lambda>(key, sh). (key, sw_layout sh)) (ls_shown s)"
  have "map fst ?ws = map fst (ls_shown s)" by (simp add: comp_def case_prod_unfold)
  then have "distinct (map fst ?ws)" using assms by (simp only: streamWf_def shownWf_def)
  from applySnapshot_shows [OF this, of "[]"] have "showsLayouts (applySnapshot ?ws []) (map_of ?ws)" by simp
  moreover have "map_of (map (\<lambda>(key, sh). (key, sw_layout sh)) xs) k = shownMap xs k" for xs k
    unfolding shownMap_def by (induction xs) auto
  then have "map_of ?ws = shownMap (ls_shown s)" by blast
  ultimately show ?thesis by (simp add: readerFollows_def startReader_def snapshotOf_def)
qed

lemma subscribed_ok:
  assumes ok: "worldOk w" and legal: "legalAction (Subscribed l) w"
  shows "worldOk (worldStep own (Subscribed l) w)"
proof -
  let ?s0 = "startProjecting (wd_stream w)"
  obtain s1 outs where f: "flush own (wd_env w) ?s0 = (s1, outs)" by force
  let ?s2 = "watch (addListener l s1)"
  from ok have env: "envWf (se_projection (wd_env w))" by (simp add: worldOk_def)
  note start = startProjecting_ok [OF ok]
  note st = flush_steps [OF start(1) env f]
  have ls: "ls_listeners s1 = ls_listeners (wd_stream w)" "ls_projecting s1"
    using st(2) start(3,4) by (simp_all add: sameWatchers_def)
  have l: "l \<notin> set (ls_listeners s1)" using legal ls(1) by simp
  then have ls2: "ls_listeners (addListener l s1) = ls_listeners s1 @ [l]" by (simp add: addListener_def)
  have wf2: "streamWf (wd_env w) ?s2"
    by (rule watch_wf) (use st(1) l in \<open>simp add: streamWf_def addListener_def\<close>)
  have wat2: "watchesOk ?s2"
    by (rule watch_ok) (use st(3-5) start(2) ls(2) l in \<open>simp_all add: addListener_def inSync_def\<close>)
  have same: "readerFollows ?s2 r = readerFollows s1 r" for r
    by (simp add: readerFollows_def addListener_def)
  have "readerFollows ?s2 (map_of (AList.update l (startReader (snapshotOf ?s2)) (fold handOut outs (wd_readers w))) k)"
    if "k \<in> set (ls_listeners ?s2)" for k
  proof (cases "k = l")
    case True
    with snapshot_follows [OF wf2] show ?thesis by (simp add: update_conv')
  next
    case False
    with that ls2 ls(1) have k: "k \<in> set (ls_listeners (wd_stream w))" by simp
    with start(4) have "k \<in> set (ls_listeners ?s0)" by simp
    from flush_follows [OF start(1) env f this start(5) [OF k]] False same show ?thesis
      by (simp add: update_conv')
  qed
  with env wf2 wat2 show ?thesis by (simp add: subscribe_def f worldOk_def Let_def)
qed

theorem world_ok: "reachableWorld own uuid w \<Longrightarrow> worldOk w"
proof (induction rule: reachableWorld.induct)
  case (start env)
  then show ?case
    by (simp add: worldOk_def streamWf_def newStream_def freshProjection_def coherentCache_def publishedWf_def
        shownWf_def watchesOk_def)
next
  case (step w a)
  show ?case
  proof (cases a)
    case OperationEnded
    then show ?thesis using step.IH watched_flush_ok [OF step.IH, of True] by simp
  next
    case SeqSettled
    then show ?thesis using watched_flush_ok [OF step.IH, of own]
      by (simp add: settledSeq_def case_prod_unfold handedOut_def Let_def)
  qed (use step in \<open>simp_all only: written_ok titlesChanged_ok queuedFlush_ok subscribed_ok
      unsubscribed_ok commits_ok partitionRead_ok\<close>)
qed

text \<open>What a reader has after every step, and what it has once the stream has flushed.\<close>

lemma reader_shows:
  assumes "reachableWorld own uuid w" "l \<in> set (ls_listeners (wd_stream w))"
  shows "\<exists>cache. map_of (wd_readers w) l = Some (Inr (cache, ls_seq (wd_stream w)))
     \<and> (\<forall>k. map_of cache k = map_option sw_layout (map_of (ls_shown (wd_stream w)) k))"
  using world_ok [OF assms(1)] assms(2)
  by (fastforce simp: worldOk_def readerFollows_def showsLayouts_def shownMap_def)

lemma flushed_shows_fresh:
  assumes reach: "reachableWorld own uuid w" and dirty: "ls_dirty (wd_stream w)"
    and fresh: "freshLayouts own (wd_env w) (wd_stream w) = Inr layouts"
    and l: "l \<in> set (ls_listeners (wd_stream w))"
  defines "w' \<equiv> handedOut (flush own (wd_env w) (wd_stream w)) w"
  shows "\<exists>cache. map_of (wd_readers w') l = Some (Inr (cache, ls_seq (wd_stream w')))
     \<and> (\<forall>k. map_of cache k = map_of layouts k)"
proof -
  let ?s = "wd_stream w"
  from world_ok [OF reach] have env: "envWf (se_projection (wd_env w))" and wf: "streamWf (wd_env w) ?s"
    by (simp_all add: worldOk_def)
  obtain s' outs where f: "flush own (wd_env w) ?s = (s', outs)" by force
  note st = flush_steps [OF wf env f]
  from fresh obtain "next" where n: "projectFresh own (se_projection (wd_env w)) (ls_projection ?s) = Inr next"
    and lay: "layouts = map (\<lambda>(key, layout). (key, laidLayout layout (factsNow own (wd_env w) layout))) next"
    by (auto simp: freshLayouts_def split: sum.splits)
  have shown: "ls_shown s' = shownOf own (wd_env w) (ls_shown ?s) next" by (rule st(7) [OF dirty n])
  have laid: "sw_layout (showLayout own (wd_env w) (ls_shown ?s) k layout)
      = laidLayout layout (factsNow own (wd_env w) layout)" for k layout
    using wf showLayout_titles [of own "wd_env w" "ls_shown ?s" k layout]
      showLayout_projected [of own "wd_env w" "ls_shown ?s" k layout]
    by (auto simp: showLayout_def streamWf_def shownWf_def list_all_iff unchangedShown_def
        split: option.splits dest!: map_of_SomeD)
  have "map_option sw_layout (map_of (ls_shown s') k) = map_of layouts k" for k
    unfolding shown map_of_shownOf lay by (induction "next") (auto simp: laid)
  moreover have "worldOk w'" unfolding w'_def by (rule watched_flush_ok [OF world_ok [OF reach]])
  moreover have "l \<in> set (ls_listeners (wd_stream w'))" "wd_stream w' = s'"
    using l st(2) by (simp_all add: w'_def handedOut_def f sameWatchers_def)
  ultimately show ?thesis
    by (fastforce simp: worldOk_def readerFollows_def showsLayouts_def shownMap_def)
qed

end
