(* ===== verification/Stream_Client.thy ===== *)
theory Stream_Client
  imports Layout_Frames
begin

text \<open>
  The window's end of a layout stream: \<open>src/renderer/src/runtime/runtime-layout-client.ts\<close>, the
  copy its frames are applied to (\<open>receive\<close> of \<open>workspace-layout-frame-sync.ts\<close>), and the replies
  that wait for a frame (\<open>layout-frame-position.ts\<close>).

  A value from the network is what the frame reader makes of it: a frame, the end of the stream, a
  malformed frame of a known type, or a type this build does not know.  Calls that start something
  outside (opening a subscription, closing one, a status or a position told to the caller) are
  outputs.  An armed timer is the delay it was armed with.
\<close>

section \<open>State\<close>

datatype clientState = Connecting | Live | Lost | Closed | StreamRefused string

definition REOPEN_DELAY_MS :: int where "REOPEN_DELAY_MS = 1000"

definition REOPEN_DELAY_CAP_MS :: int where "REOPEN_DELAY_CAP_MS = 30000"

definition RESYNC_BUDGET :: nat where "RESYNC_BUDGET = 3"

record layoutClient =
  lc_generation :: int
  lc_subscribed :: bool
  lc_state :: clientState
  lc_reopenTimer :: "int option"
  lc_reopenDelay :: int
  lc_epoch :: "string option"
  lc_lastSeq :: "int option"
  lc_resyncs :: nat
  lc_storm :: bool
  lc_cache :: layoutCache

datatype clientOutput =
  StatusTold clientState
| PositionTold int
| SubscribeRequested int
| Unsubscribe

datatype receivedValue =
  FrameRead layoutFrame
| StreamEnd "int option"
| Malformed "int option"
| UnknownType "int option"

fun valuePosition :: "receivedValue \<Rightarrow> int option" where
  "valuePosition (FrameRead frame) = framePosition frame"
| "valuePosition (StreamEnd seq) = seq"
| "valuePosition (Malformed seq) = seq"
| "valuePosition (UnknownType seq) = seq"

text \<open>Why a stream was lost: the host's answer that it will never serve it, or anything else.\<close>

datatype lossReason = RefusalCode string | OtherLoss

section \<open>Operations\<close>

definition setStatus :: "clientState \<Rightarrow> layoutClient \<Rightarrow> layoutClient \<times> clientOutput list" where
  "setStatus st c = (c\<lparr>lc_state := st\<rparr>, [StatusTold st])"

definition releaseStream :: "layoutClient \<Rightarrow> layoutClient \<times> clientOutput list" where
  "releaseStream c = (c\<lparr>lc_generation := lc_generation c + 1, lc_subscribed := False\<rparr>,
     if lc_subscribed c then [Unsubscribe] else [])"

definition stopStream :: "clientState \<Rightarrow> layoutClient \<Rightarrow> layoutClient \<times> clientOutput list" where
  "stopStream st c =
     (let (c1, outs1) = releaseStream c; (c2, outs2) = setStatus st c1 in (c2, outs1 @ outs2))"

definition openStream :: "layoutClient \<Rightarrow> layoutClient \<times> clientOutput list" where
  "openStream c =
     (let c1 = c\<lparr>lc_generation := lc_generation c + 1\<rparr>;
          (c2, outs) = setStatus Connecting c1
      in (c2, outs @ [SubscribeRequested (lc_generation c1)]))"

definition loseStream :: "int \<Rightarrow> lossReason \<Rightarrow> layoutClient \<Rightarrow> layoutClient \<times> clientOutput list" where
  "loseStream generation reason c =
     (if generation \<noteq> lc_generation c then (c, [])
      else case reason of
        RefusalCode code \<Rightarrow> stopStream (StreamRefused code) c
      | OtherLoss \<Rightarrow>
          (let (c1, outs) = stopStream Lost c
           in (c1\<lparr>lc_reopenTimer := Some (lc_reopenDelay c1),
                 lc_reopenDelay := min (lc_reopenDelay c1 * 2) REOPEN_DELAY_CAP_MS\<rparr>, outs)))"

definition resyncStream :: "int \<Rightarrow> layoutClient \<Rightarrow> layoutClient \<times> clientOutput list" where
  "resyncStream generation c =
     (if generation \<noteq> lc_generation c then (c, [])
      else if lc_state c \<noteq> Live \<or> RESYNC_BUDGET \<le> lc_resyncs c
      then loseStream generation OtherLoss
             (c\<lparr>lc_storm := (lc_storm c \<or> RESYNC_BUDGET \<le> lc_resyncs c)\<rparr>)
      else
        (let (c1, outs1) = releaseStream (c\<lparr>lc_resyncs := lc_resyncs c + 1\<rparr>);
             (c2, outs2) = openStream c1
         in (c2, outs1 @ outs2)))"

text \<open>
  A frame of another kind than records is handed on outside the \<open>try\<close>: were it to fail, the copy
  would stay as it is.
\<close>

definition handOn :: "layoutFrame \<Rightarrow> layoutClient \<Rightarrow> layoutClient" where
  "handOn frame c = (case applyLayoutFrame (lc_cache c) frame of
     Inl _ \<Rightarrow> c | Inr cache \<Rightarrow> c\<lparr>lc_cache := cache\<rparr>)"

definition deliverFrame :: "int \<Rightarrow> layoutFrame \<Rightarrow> layoutClient \<Rightarrow> layoutClient \<times> clientOutput list" where
  "deliverFrame generation frame c = (case frame of
     SnapshotFrame _ epoch seq \<Rightarrow>
       (let c1 = (if lc_storm c then c else c\<lparr>lc_reopenDelay := REOPEN_DELAY_MS\<rparr>);
            (c2, outs) = setStatus Live (c1\<lparr>lc_epoch := epoch, lc_lastSeq := seq\<rparr>)
        in (handOn frame c2, outs))
   | RecordsFrame epoch seq _ \<Rightarrow>
       if lc_state c \<noteq> Live then (c, [])
       else if Some epoch \<noteq> lc_epoch c \<or> lc_lastSeq c = None \<or> Some seq \<noteq> map_option (\<lambda>n. n + 1) (lc_lastSeq c)
       then resyncStream generation c
       else
         (let c1 = c\<lparr>lc_lastSeq := Some seq\<rparr>
          in case applyLayoutFrame (lc_cache c1) frame of
               Inl _ \<Rightarrow> resyncStream generation c1
             | Inr cache \<Rightarrow>
                 (let c2 = c1\<lparr>lc_cache := cache, lc_resyncs := 0\<rparr>
                  in (if lc_storm c2 then c2\<lparr>lc_storm := False, lc_reopenDelay := REOPEN_DELAY_MS\<rparr> else c2, [])))
   | _ \<Rightarrow> if lc_state c \<noteq> Live then (c, []) else (handOn frame c, []))"

definition deliverValue :: "int \<Rightarrow> receivedValue \<Rightarrow> layoutClient \<Rightarrow> layoutClient \<times> clientOutput list" where
  "deliverValue generation value c = (case value of
     FrameRead frame \<Rightarrow> deliverFrame generation frame c
   | StreamEnd _ \<Rightarrow> loseStream generation OtherLoss c
   | Malformed _ \<Rightarrow> resyncStream generation c
   | UnknownType seq \<Rightarrow>
       (case (seq, lc_lastSeq c) of
          (Some n, Some previous) \<Rightarrow>
            if lc_state c = Live \<and> n = previous + 1 then (c\<lparr>lc_lastSeq := Some n\<rparr>, []) else (c, [])
        | _ \<Rightarrow> (c, [])))"

definition receiveValue :: "int \<Rightarrow> receivedValue \<Rightarrow> layoutClient \<Rightarrow> layoutClient \<times> clientOutput list" where
  "receiveValue generation value c =
     (if generation \<noteq> lc_generation c then (c, [])
      else
        (let (c1, outs) = deliverValue generation value c
         in (c1, outs @ (case valuePosition value of
               Some seq \<Rightarrow> if generation = lc_generation c1 then [PositionTold seq] else []
             | None \<Rightarrow> []))))"

definition subscriptionOpened :: "int \<Rightarrow> layoutClient \<Rightarrow> layoutClient \<times> clientOutput list" where
  "subscriptionOpened generation c =
     (if generation \<noteq> lc_generation c then (c, [Unsubscribe]) else (c\<lparr>lc_subscribed := True\<rparr>, []))"

definition reopenTimerFired :: "layoutClient \<Rightarrow> layoutClient \<times> clientOutput list" where
  "reopenTimerFired c = (case lc_reopenTimer c of
     None \<Rightarrow> (c, []) | Some _ \<Rightarrow> openStream (c\<lparr>lc_reopenTimer := None\<rparr>))"

definition closeClient :: "layoutClient \<Rightarrow> layoutClient \<times> clientOutput list" where
  "closeClient c =
     (if lc_reopenTimer c \<noteq> None then stopStream Closed (c\<lparr>lc_reopenTimer := None\<rparr>)
      else if lc_state c = Connecting \<or> lc_state c = Live then stopStream Closed c
      else (c, []))"

definition subscribeRuntimeLayout :: "layoutClient \<times> clientOutput list" where
  "subscribeRuntimeLayout = openStream \<lparr>lc_generation = 0, lc_subscribed = False, lc_state = Connecting,
     lc_reopenTimer = None, lc_reopenDelay = REOPEN_DELAY_MS, lc_epoch = None, lc_lastSeq = None,
     lc_resyncs = 0, lc_storm = False, lc_cache = []\<rparr>"

section \<open>Runs of a client\<close>

datatype clientEvent =
  Received int receivedValue
| StreamLost int lossReason
| Opened int
| TimerFired
| CloseAsked

fun clientStep :: "clientEvent \<Rightarrow> layoutClient \<Rightarrow> layoutClient \<times> clientOutput list" where
  "clientStep (Received generation value) c = receiveValue generation value c"
| "clientStep (StreamLost generation reason) c = loseStream generation reason c"
| "clientStep (Opened generation) c = subscriptionOpened generation c"
| "clientStep TimerFired c = reopenTimerFired c"
| "clientStep CloseAsked c = closeClient c"

definition clientRun :: "clientEvent list \<Rightarrow> layoutClient" where
  "clientRun events = fold (\<lambda>e c. fst (clientStep e c)) events (fst subscribeRuntimeLayout)"

lemma clientRun_snoc: "clientRun (es @ [e]) = fst (clientStep e (clientRun es))"
  by (simp add: clientRun_def)

lemma clientRun_induct [case_names start step]:
  assumes "P (fst subscribeRuntimeLayout)" "\<And>e c. e \<in> set es \<Longrightarrow> P c \<Longrightarrow> P (fst (clientStep e c))"
  shows "P (clientRun es)"
  using assms
proof (induction es rule: rev_induct)
  case Nil
  then show ?case by (simp add: clientRun_def)
next
  case (snoc e es)
  then show ?case by (simp add: clientRun_snoc)
qed

section \<open>What a live client shows\<close>

text \<open>
  The network loses, repeats and reorders: a client receives what was sent to some subscription,
  in any order, or values it cannot read.  A host of its own build sends no frame of an unknown
  type that takes a position.
\<close>

fun possibleEvent :: "(int \<Rightarrow> layoutFrame \<Rightarrow> bool) \<Rightarrow> clientEvent \<Rightarrow> bool" where
  "possibleEvent sent (Received g (FrameRead frame)) = sent g frame"
| "possibleEvent sent (Received g (UnknownType seq)) = (seq = None)"
| "possibleEvent sent _ = True"

definition showsItsPosition ::
  "(int \<Rightarrow> int \<Rightarrow> string \<Rightarrow> publishedWorkspaceLayout option) \<Rightarrow> layoutClient \<Rightarrow> bool" where
  "showsItsPosition layoutsAt c \<longleftrightarrow> distinct (map fst (lc_cache c)) \<and> (lc_state c = Live \<longrightarrow>
     (\<exists>n. lc_lastSeq c = Some n \<and> showsLayouts (lc_cache c) (layoutsAt (lc_generation c) n)))"

lemma stopped_shows:
  "showsItsPosition h c \<Longrightarrow> st \<noteq> Live \<Longrightarrow> showsItsPosition h (fst (stopStream st c))"
  by (simp add: showsItsPosition_def stopStream_def releaseStream_def setStatus_def Let_def)

lemma opened_shows: "showsItsPosition h c \<Longrightarrow> showsItsPosition h (fst (openStream c))"
  by (simp add: showsItsPosition_def openStream_def setStatus_def Let_def)

lemma lost_shows: "showsItsPosition h c \<Longrightarrow> showsItsPosition h (fst (loseStream g reason c))"
  using stopped_shows [of h c Lost] stopped_shows [of h c "StreamRefused r" for r]
  by (auto simp: loseStream_def Let_def case_prod_unfold showsItsPosition_def split: lossReason.split)

lemma resync_shows: "distinct (map fst (lc_cache c)) \<Longrightarrow> g = lc_generation c \<Longrightarrow>
    showsItsPosition h (fst (resyncStream g c))"
  by (auto simp: resyncStream_def loseStream_def stopStream_def releaseStream_def setStatus_def openStream_def
      Let_def case_prod_unfold showsItsPosition_def)

text \<open>
  A source of frames: for each subscription, the layouts it publishes at each position.  A snapshot
  shows the layouts of its position, and a records frame leads from one position to the next.
\<close>

locale frame_source =
  fixes layoutsAt :: "int \<Rightarrow> int \<Rightarrow> string \<Rightarrow> publishedWorkspaceLayout option"
    and sent :: "int \<Rightarrow> layoutFrame \<Rightarrow> bool"
  assumes snapshot_shows: "sent g (SnapshotFrame ws stamp seq) \<Longrightarrow>
      distinct (map fst ws) \<and> (\<exists>n. seq = Some n \<and> map_of ws = layoutsAt g n)"
    and records_lead: "sent g (RecordsFrame epoch n cs) \<Longrightarrow> showsLayouts cache (layoutsAt g (n - 1)) \<Longrightarrow>
      \<exists>cache'. applyRecordChanges cs cache = Inr cache' \<and> showsLayouts cache' (layoutsAt g n)"
    and only_records: "\<not> sent g (WorkspaceFrame k l s)" "\<not> sent g (RemovedFrame k s)"
begin

lemma receive_shows:
  assumes ok: "showsItsPosition layoutsAt c" and ev: "possibleEvent sent (Received g v)"
  shows "showsItsPosition layoutsAt (fst (receiveValue g v c))"
proof (cases "g = lc_generation c")
  case False
  with ok show ?thesis by (simp add: receiveValue_def)
next
  case True
  have d: "distinct (map fst (lc_cache c))" using ok by (simp add: showsItsPosition_def)
  have "showsItsPosition layoutsAt (fst (deliverValue g v c))"
  proof (cases v)
    case (StreamEnd s)
    with lost_shows [OF ok] show ?thesis by (simp add: deliverValue_def)
  next
    case (Malformed s)
    with resync_shows [OF d True] show ?thesis by (simp add: deliverValue_def)
  next
    case (UnknownType s)
    with ev ok show ?thesis by (simp add: deliverValue_def)
  next
    case (FrameRead f)
    with ev have sent: "sent g f" by simp
    have "showsItsPosition layoutsAt (fst (deliverFrame g f c))"
    proof (cases f)
      case (SnapshotFrame ws epoch seq)
      from snapshot_shows [OF sent [unfolded this]] obtain n where
        ws: "distinct (map fst ws)" "seq = Some n" "map_of ws = layoutsAt g n" by blast
      from applySnapshot_shows [OF ws(1) d] True ws SnapshotFrame show ?thesis
        by (auto simp: deliverFrame_def setStatus_def handOn_def Let_def showsItsPosition_def
            intro: showsLayouts_def [THEN iffD1, THEN conjunct1])
    next
      case (RecordsFrame epoch m cs)
      show ?thesis
      proof (cases "lc_state c = Live \<and> Some epoch = lc_epoch c \<and> lc_lastSeq c = Some (m - 1)")
        case False
        with RecordsFrame ok resync_shows [OF d True] show ?thesis
          by (auto simp: deliverFrame_def)
      next
        case good: True
        with ok True have "showsLayouts (lc_cache c) (layoutsAt g (m - 1))" by (auto simp: showsItsPosition_def)
        from records_lead [OF sent [unfolded RecordsFrame] this] obtain cache' where
          "applyRecordChanges cs (lc_cache c) = Inr cache'" "showsLayouts cache' (layoutsAt g m)" by blast
        with good RecordsFrame True show ?thesis
          by (auto simp: deliverFrame_def Let_def showsItsPosition_def showsLayouts_def)
      qed
    qed (use only_records sent in auto)
    with FrameRead show ?thesis by (simp add: deliverValue_def)
  qed
  with True show ?thesis by (simp add: receiveValue_def case_prod_unfold Let_def)
qed

lemma client_shows:
  assumes "list_all (possibleEvent sent) events"
  shows "showsItsPosition layoutsAt (clientRun events)"
proof (induction rule: clientRun_induct)
  case start
  show ?case by (simp add: showsItsPosition_def subscribeRuntimeLayout_def openStream_def setStatus_def Let_def)
next
  case (step e c)
  show ?case
  proof (cases e)
    case (Received g v)
    with receive_shows [OF step(2)] step(1) assms show ?thesis by (simp add: list_all_iff)
  next
    case (StreamLost g r)
    with lost_shows [OF step(2)] show ?thesis by simp
  next
    case (Opened g)
    with step(2) show ?thesis by (simp add: subscriptionOpened_def showsItsPosition_def)
  next
    case TimerFired
    with step(2) opened_shows show ?thesis
      by (auto simp: reopenTimerFired_def showsItsPosition_def openStream_def setStatus_def Let_def split: option.split)
  next
    case CloseAsked
    with step(2) show ?thesis
      by (auto simp: closeClient_def showsItsPosition_def stopStream_def releaseStream_def setStatus_def Let_def)
  qed
qed

text \<open>Without loss a live client follows every frame and never resubscribes.\<close>

lemma receive_next:
  assumes "showsItsPosition layoutsAt c" "lc_state c = Live" "lc_lastSeq c = Some n" "lc_epoch c = Some epoch"
    and "sent (lc_generation c) (RecordsFrame epoch (n + 1) cs)"
  defines "c' \<equiv> fst (receiveValue (lc_generation c) (FrameRead (RecordsFrame epoch (n + 1) cs)) c)"
  shows "showsItsPosition layoutsAt c'" "lc_state c' = Live" "lc_lastSeq c' = Some (n + 1)"
    "lc_epoch c' = Some epoch" "lc_generation c' = lc_generation c"
proof -
  show "showsItsPosition layoutsAt c'"
    unfolding c'_def by (rule receive_shows [OF assms(1)]) (simp add: assms(5))
  from assms(1-3) have "showsLayouts (lc_cache c) (layoutsAt (lc_generation c) (n + 1 - 1))"
    by (simp add: showsItsPosition_def)
  from records_lead [OF assms(5) this] obtain cache' where "applyRecordChanges cs (lc_cache c) = Inr cache'" by blast
  with assms(2-4) show "lc_state c' = Live" "lc_lastSeq c' = Some (n + 1)"
    "lc_epoch c' = Some epoch" "lc_generation c' = lc_generation c"
    by (simp_all add: c'_def receiveValue_def deliverValue_def deliverFrame_def Let_def case_prod_unfold)
qed

lemma follows_in_order:
  assumes "showsItsPosition layoutsAt c" "lc_state c = Live" "lc_lastSeq c = Some n" "lc_epoch c = Some epoch"
    and "\<And>i cs. i < length css \<Longrightarrow> cs = css ! i \<Longrightarrow>
       sent (lc_generation c) (RecordsFrame epoch (n + 1 + int i) cs)"
  defines "c' \<equiv> fold (\<lambda>(m, cs) d. fst (receiveValue (lc_generation c) (FrameRead (RecordsFrame epoch m cs)) d))
       (zip (map (\<lambda>i. n + 1 + int i) [0..<length css]) css) c"
  shows "lc_state c' = Live \<and> lc_lastSeq c' = Some (n + int (length css)) \<and> showsItsPosition layoutsAt c'
     \<and> lc_generation c' = lc_generation c"
  using assms(1-5) unfolding c'_def
proof (induction css arbitrary: c n)
  case (Cons cs css)
  have "sent (lc_generation c) (RecordsFrame epoch (n + 1) cs)" using Cons.prems(5) [of 0] by simp
  note r = receive_next [OF Cons.prems(1-4) this]
  let ?c = "fst (receiveValue (lc_generation c) (FrameRead (RecordsFrame epoch (n + 1) cs)) c)"
  have idx: "map (\<lambda>i. n + 1 + int i) [0..<length (cs # css)]
      = (n + 1) # map (\<lambda>i. (n + 1) + 1 + int i) [0..<length css]"
    by (simp add: map_upt_Suc del: upt_Suc) 
  have "sent (lc_generation ?c) (RecordsFrame epoch (n + 1 + 1 + int i) ds)"
    if "i < length css" "ds = css ! i" for i ds
    using Cons.prems(5) [of "Suc i" ds] that r(5) by (simp add: algebra_simps)
  from Cons.IH [OF r(1-4) this] r(5) show ?case unfolding idx by (simp add: algebra_simps)
qed auto

end

section \<open>Waits and resubscriptions are bounded\<close>

definition clientBounded :: "layoutClient \<Rightarrow> bool" where
  "clientBounded c \<longleftrightarrow> REOPEN_DELAY_MS \<le> lc_reopenDelay c \<and> lc_reopenDelay c \<le> REOPEN_DELAY_CAP_MS
     \<and> (case lc_reopenTimer c of None \<Rightarrow> True | Some d \<Rightarrow> REOPEN_DELAY_MS \<le> d \<and> d \<le> REOPEN_DELAY_CAP_MS)
     \<and> lc_resyncs c \<le> RESYNC_BUDGET"

lemmas client_defs = setStatus_def releaseStream_def stopStream_def openStream_def loseStream_def
  resyncStream_def handOn_def deliverFrame_def deliverValue_def receiveValue_def subscriptionOpened_def
  reopenTimerFired_def closeClient_def

lemma bounded_lost: "clientBounded c \<Longrightarrow> clientBounded (fst (loseStream g r c))"
  by (auto simp: client_defs clientBounded_def Let_def REOPEN_DELAY_MS_def REOPEN_DELAY_CAP_MS_def
      split: lossReason.split)

lemma bounded_resync: "clientBounded c \<Longrightarrow> clientBounded (fst (resyncStream g c))"
  using bounded_lost [of "c\<lparr>lc_storm := b\<rparr>" for b]
  by (auto simp: resyncStream_def releaseStream_def openStream_def setStatus_def clientBounded_def Let_def)

lemma bounded_frame: "clientBounded c \<Longrightarrow> clientBounded (fst (deliverFrame g f c))"
proof -
  assume ok: "clientBounded c"
  have hand: "clientBounded (handOn f d) = clientBounded d" for f d
    by (simp add: handOn_def clientBounded_def split: sum.split)
  have resync: "clientBounded (fst (resyncStream g (c\<lparr>lc_lastSeq := x\<rparr>)))" for x
    by (rule bounded_resync) (use ok in \<open>simp add: clientBounded_def\<close>)
  have resync': "clientBounded (fst (resyncStream g c))" by (rule bounded_resync [OF ok])
  have upd: "clientBounded (c\<lparr>lc_epoch := x, lc_lastSeq := y, lc_state := z\<rparr>)"
    "clientBounded (c\<lparr>lc_reopenDelay := REOPEN_DELAY_MS, lc_epoch := x, lc_lastSeq := y, lc_state := z\<rparr>)"
    "clientBounded (c\<lparr>lc_lastSeq := y, lc_cache := w, lc_resyncs := 0\<rparr>)"
    "clientBounded (c\<lparr>lc_lastSeq := y, lc_cache := w, lc_resyncs := 0, lc_storm := False,
       lc_reopenDelay := REOPEN_DELAY_MS\<rparr>)" for x y z w
    using ok by (simp_all add: clientBounded_def REOPEN_DELAY_MS_def REOPEN_DELAY_CAP_MS_def)
  show ?thesis
  proof (cases f)
    case (SnapshotFrame ws epoch seq)
    with upd show ?thesis by (simp add: deliverFrame_def hand Let_def setStatus_def)
  next
    case (RecordsFrame epoch seq cs)
    with upd ok resync resync' show ?thesis by (simp add: deliverFrame_def Let_def split: sum.split)
  qed (use ok in \<open>simp_all add: deliverFrame_def hand\<close>)
qed

lemma client_bounded: "clientBounded (clientRun events)"
proof (induction rule: clientRun_induct)
  case start
  show ?case
    by (simp add: clientBounded_def subscribeRuntimeLayout_def openStream_def setStatus_def Let_def
        REOPEN_DELAY_MS_def REOPEN_DELAY_CAP_MS_def)
next
  case (step e c)
  show ?case
  proof (cases e)
    case (Received g v)
    have "clientBounded (fst (deliverValue g v c))"
      using bounded_frame [OF step(2)] bounded_lost [OF step(2)] bounded_resync [OF step(2)] step(2)
      by (auto simp: deliverValue_def clientBounded_def split: receivedValue.split option.split)
    with step(2) Received show ?thesis by (auto simp: receiveValue_def case_prod_unfold Let_def)
  qed (use step(2) bounded_lost in \<open>auto simp: subscriptionOpened_def reopenTimerFired_def closeClient_def openStream_def
      stopStream_def releaseStream_def setStatus_def clientBounded_def Let_def split: option.splits\<close>)
qed

text \<open>
  The subscriptions a run opens at once: all but those of the reopen timer.  A records frame
  applies when it is the next of the live stream and its changes fit the copy.
\<close>

fun isSubscribe :: "clientOutput \<Rightarrow> bool" where
  "isSubscribe (SubscribeRequested k) = True"
| "isSubscribe out = False"

fun openedAtOnce :: "clientEvent list \<Rightarrow> layoutClient \<Rightarrow> nat" where
  "openedAtOnce [] c = 0"
| "openedAtOnce (e # es) c =
     (let (c', outs) = clientStep e c
      in (if e = TimerFired then 0 else length (filter isSubscribe outs)) + openedAtOnce es c')"

fun recordsApply :: "clientEvent \<Rightarrow> layoutClient \<Rightarrow> bool" where
  "recordsApply (Received g (FrameRead (RecordsFrame epoch seq cs))) c \<longleftrightarrow>
     g = lc_generation c \<and> lc_state c = Live \<and> lc_epoch c = Some epoch \<and> lc_lastSeq c = Some (seq - 1)
     \<and> (case applyRecordChanges cs (lc_cache c) of Inl _ \<Rightarrow> False | Inr _ \<Rightarrow> True)"
| "recordsApply e c \<longleftrightarrow> False"

fun noneApply :: "clientEvent list \<Rightarrow> layoutClient \<Rightarrow> bool" where
  "noneApply [] c \<longleftrightarrow> True"
| "noneApply (e # es) c \<longleftrightarrow> \<not> recordsApply e c \<and> noneApply es (fst (clientStep e c))"

definition countsIn :: "layoutClient \<Rightarrow> layoutClient \<times> clientOutput list \<Rightarrow> bool" where
  "countsIn c res \<longleftrightarrow> lc_resyncs (fst res) = lc_resyncs c + length (filter isSubscribe (snd res))"

lemma countsIn_simps [simp]:
  "countsIn c (d, []) \<longleftrightarrow> lc_resyncs d = lc_resyncs c"
  "countsIn (d\<lparr>lc_lastSeq := n\<rparr>) res = countsIn d res"
  "countsIn (d\<lparr>lc_storm := b\<rparr>) res = countsIn d res"
  by (simp_all add: countsIn_def)

lemma countsIn_lose: "countsIn c (loseStream g r c)"
  by (simp add: countsIn_def loseStream_def stopStream_def releaseStream_def setStatus_def Let_def split: lossReason.split)

lemma countsIn_resync: "countsIn c (resyncStream g c)"
  using countsIn_lose [of "c\<lparr>lc_storm := b\<rparr>" g OtherLoss for b]
  by (auto simp: resyncStream_def openStream_def releaseStream_def setStatus_def Let_def)
    (simp_all add: countsIn_def)

lemma countsIn_frame:
  assumes "\<not> recordsApply (Received g (FrameRead f)) c" "g = lc_generation c"
  shows "countsIn c (deliverFrame g f c)"
proof -
  have hand: "lc_resyncs (handOn f d) = lc_resyncs d" for f d by (simp add: handOn_def split: sum.split)
  show ?thesis
  proof (cases f)
    case (RecordsFrame epoch seq cs)
    with assms countsIn_resync [of c g] countsIn_resync [of "c\<lparr>lc_lastSeq := Some seq\<rparr>" g] show ?thesis
      by (auto simp: deliverFrame_def Let_def split: sum.split)
  qed (simp_all add: deliverFrame_def setStatus_def Let_def hand countsIn_def)
qed

lemma countsIn_step:
  assumes "\<not> recordsApply e c" "e \<noteq> TimerFired"
  shows "countsIn c (clientStep e c)"
proof (cases e)
  case (Received g v)
  show ?thesis
  proof (cases "g = lc_generation c")
    case True
    have "countsIn c (deliverValue g v c)"
      using assms(1) Received countsIn_frame [OF _ True] countsIn_lose countsIn_resync
      by (cases v) (auto simp: deliverValue_def split: option.split)
    then show ?thesis
      using Received True by (auto simp: receiveValue_def countsIn_def case_prod_unfold Let_def split: option.split)
  qed (simp add: Received receiveValue_def)
qed (use assms(2) countsIn_lose in \<open>auto simp: subscriptionOpened_def closeClient_def stopStream_def
    releaseStream_def setStatus_def countsIn_def Let_def\<close>)

lemma resyncs_timer: "lc_resyncs (fst (clientStep TimerFired c)) = lc_resyncs c"
  by (simp add: reopenTimerFired_def openStream_def setStatus_def Let_def split: option.split)

lemma openedAtOnce_counts:
  "noneApply es c \<Longrightarrow> lc_resyncs (fold (\<lambda>e c. fst (clientStep e c)) es c) = lc_resyncs c + openedAtOnce es c"
proof (induction es arbitrary: c)
  case (Cons e es)
  then have "lc_resyncs (fst (clientStep e c))
      = lc_resyncs c + (if e = TimerFired then 0 else length (filter isSubscribe (snd (clientStep e c))))"
    using countsIn_step [of e c] resyncs_timer by (simp add: countsIn_def)
  with Cons show ?case by (simp add: case_prod_unfold Let_def del: clientStep.simps)
qed simp

lemma openedAtOnce_bounded:
  assumes "noneApply later (clientRun earlier)"
  shows "openedAtOnce later (clientRun earlier) \<le> RESYNC_BUDGET"
proof -
  have "clientRun (earlier @ later) = fold (\<lambda>e c. fst (clientStep e c)) later (clientRun earlier)"
    by (simp add: clientRun_def)
  with openedAtOnce_counts [OF assms] client_bounded [of "earlier @ later"] show ?thesis
    by (simp add: clientBounded_def)
qed

end
