(* ===== verification/Stream_Delivery.thy ===== *)
theory Stream_Delivery
  imports Stream_Readers Stream_Client
begin

text \<open>
  The host's stream and a window's client together.  The host of a layout-owner build goes through
  any list of actions; every frame it hands to a subscription is kept, and so are the layouts it
  showed at each position of each subscription.  These frames are a \<open>frame_source\<close>, so a client
  that receives them through a network that loses, repeats and reorders them shows, whenever it is
  live, the layouts of the position it stands at.
\<close>

section \<open>What a host serves\<close>

fun stepOutputs :: "bool \<Rightarrow> streamAction \<Rightarrow> streamWorld \<Rightarrow> streamOutput list" where
  "stepOutputs own QueuedFlush w = snd (queuedFlush own (wd_env w) (wd_stream w))"
| "stepOutputs own OperationEnded w =
     (if own \<and> ls_watching (wd_stream w) then snd (flush own (wd_env w) (wd_stream w)) else [])"
| "stepOutputs own SeqSettled w = snd (flush own (wd_env w) (wd_stream w))"
| "stepOutputs own (Subscribed l) w =
     (let (s, outs, snapshot) = subscribe own (wd_env w) l (wd_stream w) in outs @ [Sent l snapshot])"
| "stepOutputs own _ w = []"

definition sentBy :: "streamOutput list \<Rightarrow> (string \<times> layoutFrame) list" where
  "sentBy outs = concat (map (\<lambda>out. case out of Sent l f \<Rightarrow> [(l, f)] | Committed _ _ \<Rightarrow> []) outs)"

record servedStream =
  sv_world :: streamWorld
  sv_layoutsAt :: "string \<Rightarrow> int \<Rightarrow> string \<Rightarrow> publishedWorkspaceLayout option"
  sv_sent :: "(string \<times> layoutFrame) list"

definition emptyEnv :: streamEnv where
  "emptyEnv = \<lparr>se_projection = \<lparr>en_hostIds = [], en_load = (\<lambda>_. None), en_homeHostId = (\<lambda>_. Inr None)\<rparr>,
     se_liveTitle = (\<lambda>_. None), se_sources = \<lparr>ps_startFact = None, ps_resumeOutcome = None\<rparr>\<rparr>"

definition servedStart :: "string \<Rightarrow> servedStream" where
  "servedStart uuid = \<lparr>sv_world = \<lparr>wd_env = emptyEnv, wd_stream = newStream True uuid, wd_readers = []\<rparr>,
     sv_layoutsAt = (\<lambda>_ _ _. None), sv_sent = []\<rparr>"

text \<open>A subscription has a name of its own.  An action that cannot happen does nothing.\<close>

definition servedStep :: "streamAction \<Rightarrow> servedStream \<Rightarrow> servedStream" where
  "servedStep a sv =
     (if legalAction a (sv_world sv)
         \<and> (case a of Subscribed l \<Rightarrow> l \<notin> fst ` set (sv_sent sv) | _ \<Rightarrow> True)
      then
        let w' = worldStep True a (sv_world sv); s' = wd_stream w'
        in \<lparr>sv_world = w',
            sv_layoutsAt = (\<lambda>l. if l \<in> set (ls_listeners s')
               then (sv_layoutsAt sv l)(ls_seq s' := shownMap (ls_shown s')) else sv_layoutsAt sv l),
            sv_sent = sv_sent sv @ sentBy (stepOutputs True a (sv_world sv))\<rparr>
      else sv)"

definition servedRun :: "string \<Rightarrow> streamAction list \<Rightarrow> servedStream" where
  "servedRun uuid actions = fold servedStep actions (servedStart uuid)"

section \<open>Genuine frames\<close>

definition genuineFrame :: "(int \<Rightarrow> string \<Rightarrow> publishedWorkspaceLayout option) \<Rightarrow> int \<Rightarrow> layoutFrame \<Rightarrow> bool" where
  "genuineFrame h pos frame = (case frame of
     SnapshotFrame ws _ seq \<Rightarrow> distinct (map fst ws) \<and> (\<exists>n. seq = Some n \<and> n \<le> pos \<and> map_of ws = h n)
   | RecordsFrame _ n cs \<Rightarrow> n \<le> pos \<and> (\<forall>cache. showsLayouts cache (h (n - 1)) \<longrightarrow>
       (\<exists>cache'. applyRecordChanges cs cache = Inr cache' \<and> showsLayouts cache' (h n)))
   | _ \<Rightarrow> False)"

lemma genuine_later:
  assumes "genuineFrame h pos f" "pos < n"
  shows "genuineFrame (h(n := x)) n f"
  using assms by (cases f) (auto simp: genuineFrame_def)

lemma genuine_mono: "genuineFrame h pos f \<Longrightarrow> pos \<le> n \<Longrightarrow> genuineFrame h n f"
  by (cases f) (auto simp: genuineFrame_def)

definition cacheOf :: "(string \<times> shownLayout) list \<Rightarrow> layoutCache" where
  "cacheOf shown = map (\<lambda>(k, sh). (k, sw_layout sh)) shown"

lemma cacheOf_shows: "shownWf shown \<Longrightarrow> showsLayouts (cacheOf shown) (shownMap shown)"
proof -
  assume "shownWf shown"
  moreover have "map fst (cacheOf shown) = map fst shown" by (simp add: cacheOf_def comp_def case_prod_unfold)
  moreover have "map_of (cacheOf shown) k = shownMap shown k" for k
    unfolding cacheOf_def shownMap_def by (induction shown) auto
  ultimately show ?thesis by (simp add: showsLayouts_def shownWf_def)
qed

text \<open>A stream, the layouts kept for its subscriptions, and what was sent to them.\<close>

definition keptOk ::
  "layoutStream \<Rightarrow> (string \<Rightarrow> int \<Rightarrow> string \<Rightarrow> publishedWorkspaceLayout option) \<Rightarrow> (string \<times> layoutFrame) list \<Rightarrow> bool" where
  "keptOk s h sent \<longleftrightarrow>
     (\<forall>l\<in>set (ls_listeners s). h l (ls_seq s) = shownMap (ls_shown s) \<and> l \<in> fst ` set sent)
     \<and> (\<forall>(l, f)\<in>set sent. genuineFrame (h l) (ls_seq s) f)"

definition keptLayouts ::
  "layoutStream \<Rightarrow> (string \<Rightarrow> int \<Rightarrow> string \<Rightarrow> publishedWorkspaceLayout option)
     \<Rightarrow> string \<Rightarrow> int \<Rightarrow> string \<Rightarrow> publishedWorkspaceLayout option" where
  "keptLayouts s h = (\<lambda>l. if l \<in> set (ls_listeners s) then (h l)(ls_seq s := shownMap (ls_shown s)) else h l)"

text \<open>A step that sends nothing.\<close>

lemma kept_silent:
  assumes "keptOk s h sent" "set (ls_listeners s') \<subseteq> set (ls_listeners s)" "ls_seq s' = ls_seq s"
    and "ls_listeners s' \<noteq> [] \<Longrightarrow> shownMap (ls_shown s') = shownMap (ls_shown s)"
  shows "keptOk s' (keptLayouts s' h) sent"
proof -
  have "keptLayouts s' h = h"
  proof (rule ext)
    fix l
    show "keptLayouts s' h l = h l"
    proof (cases "l \<in> set (ls_listeners s')")
      case True
      then have "ls_listeners s' \<noteq> []" "l \<in> set (ls_listeners s)" using assms(2) by auto
      with assms(1,4) have "shownMap (ls_shown s') = h l (ls_seq s)" by (simp add: keptOk_def)
      with True assms(3) show ?thesis by (simp add: keptLayouts_def fun_upd_idem)
    qed (simp add: keptLayouts_def)
  qed
  moreover have "h l (ls_seq s') = shownMap (ls_shown s') \<and> l \<in> fst ` set sent" if l: "l \<in> set (ls_listeners s')" for l
  proof -
    from l assms(2) have "ls_listeners s' \<noteq> []" "l \<in> set (ls_listeners s)" by auto
    with assms(1,3,4) show ?thesis by (simp add: keptOk_def)
  qed
  ultimately show ?thesis using assms(1,3) by (simp add: keptOk_def)
qed

text \<open>A step that sends one records frame to every listener.\<close>

lemma kept_records:
  assumes ok: "keptOk s h sent" and ls: "ls_listeners s' = ls_listeners s"
    and lead: "leadsTo [RecordsFrame epoch (ls_seq s + 1) cs] (ls_shown s, ls_seq s) (ls_shown s', ls_seq s')"
    and wf: "shownWf (ls_shown s)"
  shows "keptOk s' (keptLayouts s' h) (sent @ map (\<lambda>l. (l, RecordsFrame epoch (ls_seq s + 1) cs)) (ls_listeners s))"
proof -
  have frame: "\<exists>cache'. applyRecordChanges cs cache = Inr cache' \<and> showsLayouts cache' (shownMap (ls_shown s'))
      \<and> ls_seq s' = ls_seq s + 1" if "showsLayouts cache (shownMap (ls_shown s))" for cache
    using lead [unfolded leadsTo_def, rule_format, of cache] that
    by (auto simp: readFrame_def split: sum.splits)
  then have seq: "ls_seq s' = ls_seq s + 1" using cacheOf_shows [OF wf] by blast
  have old: "genuineFrame (keptLayouts s' h l) (ls_seq s') f" if "(l, f) \<in> set sent" for l f
  proof -
    from ok that have "genuineFrame (h l) (ls_seq s) f" by (auto simp: keptOk_def)
    with genuine_later [of "h l" "ls_seq s" f "ls_seq s'"] genuine_mono [of "h l" "ls_seq s" f "ls_seq s'"] seq
    show ?thesis by (simp add: keptLayouts_def)
  qed
  have new: "genuineFrame (keptLayouts s' h l) (ls_seq s') (RecordsFrame epoch (ls_seq s + 1) cs)"
    if "l \<in> set (ls_listeners s)" for l
  proof -
    from ok that have "h l (ls_seq s) = shownMap (ls_shown s)" by (simp add: keptOk_def)
    with that frame seq ls show ?thesis by (auto simp: genuineFrame_def keptLayouts_def)
  qed
  have "keptLayouts s' h l (ls_seq s') = shownMap (ls_shown s')" if "l \<in> set (ls_listeners s')" for l
    using that by (simp add: keptLayouts_def)
  with old new ls ok show ?thesis by (auto simp: keptOk_def)
qed

lemma sentBy_append [simp]: "sentBy (xs @ ys) = sentBy xs @ sentBy ys"
  by (simp add: sentBy_def)

lemma sentBy_commits [simp]: "sentBy (commitOutputs t s) = []"
proof -
  have "sentBy (map (\<lambda>l. Committed l hosts) ls) = []" for hosts ls by (simp add: sentBy_def comp_def)
  then show ?thesis by (cases t) (simp_all add: commitOutputs_def sentBy_def)
qed

lemma sentBy_deliver [simp]: "sentBy (deliver f s) = map (\<lambda>l. (l, f)) (ls_listeners s)"
proof -
  have "concat (map (\<lambda>out. case out of Sent l f \<Rightarrow> [(l, f)] | Committed _ _ \<Rightarrow> []) (map (\<lambda>l. Sent l f) ls))
      = map (\<lambda>l. (l, f)) ls" for ls by (induction ls) auto
  then show ?thesis by (simp add: sentBy_def deliver_def)
qed

lemma kept_flush:
  assumes ok: "keptOk s h sent" and wf: "streamWf env s" and env: "envWf (se_projection env)"
    and epoch: "ls_epoch s = Some uuid" and f: "flush True env s = (s', outs)"
  shows "keptOk s' (keptLayouts s' h) (sent @ sentBy outs)"
proof (cases "ls_listeners s = []")
  case True
  note st = flush_steps [OF wf env f]
  from st(6) obtain frames t u where outs: "outs = concat (map (\<lambda>f. deliver f s) frames) @ commitOutputs t u" by blast
  have "concat (map (\<lambda>f. deliver f s) frames) = []" using True by (simp add: deliver_def)
  then have none: "sentBy outs = []" by (simp add: outs) (simp add: sentBy_def)
  have ls: "ls_listeners s' = []" using st(2) True by (simp add: sameWatchers_def)
  have "ls_seq s \<le> ls_seq s'"
  proof -
    from epoch f True show ?thesis
      by (auto simp: flush_def reconcile_def reconcileWith_def publishChanges_def Let_def
          split: if_splits prod.splits sum.splits option.splits)
  qed
  with ok none ls show ?thesis by (auto simp: keptOk_def keptLayouts_def intro: genuine_mono)
next
  case False
  note st = flush_steps [OF wf env f]
  from st(6) False obtain frames t u where outs: "outs = concat (map (\<lambda>f. deliver f s) frames) @ commitOutputs t u"
    and only: "recordsOnly s frames" and lead: "leadsTo frames (ls_shown s, ls_seq s) (ls_shown s', ls_seq s')" by blast
  have ls: "ls_listeners s' = ls_listeners s" using st(2) by (simp add: sameWatchers_def)
  have shown: "shownWf (ls_shown s)" using wf by (simp add: streamWf_def)
  from only epoch consider "frames = []" | cs where "frames = [RecordsFrame uuid (ls_seq s + 1) cs]"
    by (auto simp: recordsOnly_def)
  then show ?thesis
  proof cases
    case 1
    from lead cacheOf_shows [OF shown] have "ls_seq s' = ls_seq s" "shownMap (ls_shown s') = shownMap (ls_shown s)"
      by (auto simp: leadsTo_def 1 showsLayouts_def fun_eq_iff)
    with kept_silent [OF ok, of s'] ls 1 outs show ?thesis by simp
  next
    case (2 cs)
    with kept_records [OF ok ls _ shown] lead outs show ?thesis by simp
  qed
qed

text \<open>A new subscription: what was flushed before it, and its snapshot.\<close>

lemma kept_snapshot:
  assumes ok: "keptOk s (keptLayouts s h) sent" and new: "l \<notin> fst ` set sent" "l \<notin> set (ls_listeners s)"
    and wf: "streamWf env s2" and s2: "ls_listeners s2 = ls_listeners s @ [l]"
      "ls_seq s2 = ls_seq s" "ls_shown s2 = ls_shown s"
  shows "keptOk s2 (keptLayouts s2 h) (sent @ [(l, snapshotOf s2)])"
proof -
  have same: "keptLayouts s2 h k = keptLayouts s h k" if "k \<noteq> l" for k
    using that by (simp add: keptLayouts_def s2)
  have old: "genuineFrame (keptLayouts s2 h k) (ls_seq s2) f" if "(k, f) \<in> set sent" for k f
  proof -
    have "k \<noteq> l" using that new(1) by force
    with that ok same show ?thesis by (auto simp: keptOk_def s2)
  qed
  have "genuineFrame (keptLayouts s2 h l) (ls_seq s2) (snapshotOf s2)"
    using cacheOf_shows [of "ls_shown s2"] wf
    by (auto simp: genuineFrame_def snapshotOf_def keptLayouts_def s2 streamWf_def showsLayouts_def cacheOf_def)
  moreover have "keptLayouts s2 h k (ls_seq s2) = shownMap (ls_shown s2)" if "k \<in> set (ls_listeners s2)" for k
    using that by (simp add: keptLayouts_def)
  ultimately show ?thesis using ok old by (auto simp: keptOk_def s2)
qed

lemma flush_sent_to:
  assumes "streamWf env s" "envWf (se_projection env)" "flush own env s = (s', outs)"
  shows "fst ` set (sentBy outs) \<subseteq> set (ls_listeners s)"
proof -
  from flush_steps(6) [OF assms] obtain frames t u where
    "outs = concat (map (\<lambda>f. deliver f s) frames) @ commitOutputs t u" by blast
  moreover have "fst ` set (sentBy (concat (map (\<lambda>f. deliver f s) frames))) \<subseteq> set (ls_listeners s)" for frames
    by (induction frames) (auto simp: sentBy_def [of "[]"])
  ultimately show ?thesis by simp
qed

definition servedOk :: "string \<Rightarrow> servedStream \<Rightarrow> bool" where
  "servedOk uuid sv \<longleftrightarrow> reachableWorld True uuid (sv_world sv)
     \<and> ls_epoch (wd_stream (sv_world sv)) = Some uuid
     \<and> keptOk (wd_stream (sv_world sv)) (sv_layoutsAt sv) (sv_sent sv)"

lemma epoch_kept: 
  assumes "worldOk w" "legalAction a w"
  shows "ls_epoch (wd_stream (worldStep own a w)) = ls_epoch (wd_stream w)"
proof -
  from assms(1) have env: "envWf (se_projection (wd_env w))" and wf: "streamWf (wd_env w) (wd_stream w)"
    by (simp_all add: worldOk_def)
  have fl: "ls_epoch (fst (flush own (wd_env w) t)) = ls_epoch t" if "streamWf (wd_env w) t" for t
    using flush_steps(2) [OF that env, of own] by (cases "flush own (wd_env w) t") (auto simp: sameWatchers_def)
  have q: "streamWf (wd_env w) (wd_stream w\<lparr>ls_flushQueued := False\<rparr>)" using wf by (simp add: streamWf_def)
  have sp: "ls_epoch (startProjecting (wd_stream w)) = ls_epoch (wd_stream w)" by (simp add: startProjecting_def)
  show ?thesis
    using fl [OF wf] fl [OF q] fl [OF startProjecting_ok(1) [OF assms(1)]] sp
    by (cases a) (auto simp: handedOut_def queuedFlush_def settledSeq_def markDirty_def schedule_def
        markLiveTitlesDirty_def subscribe_def addListener_def unsubscribe_def onLayoutOperationCommitted_def
        offLayoutOperationCommitted_def readPartition_def case_prod_unfold Let_def)
qed

lemma kept_subscribed:
  assumes ok: "worldOk w" and epoch: "ls_epoch (wd_stream w) = Some uuid"
    and kept: "keptOk (wd_stream w) h sent" and new: "l \<notin> set (ls_listeners (wd_stream w))" "l \<notin> fst ` set sent"
  defines "w' \<equiv> worldStep True (Subscribed l) w"
  shows "keptOk (wd_stream w') (keptLayouts (wd_stream w') h) (sent @ sentBy (stepOutputs True (Subscribed l) w))"
proof -
  let ?s0 = "startProjecting (wd_stream w)"
  obtain s1 outs where f: "flush True (wd_env w) ?s0 = (s1, outs)" by force
  let ?s2 = "watch (addListener l s1)"
  from ok have env: "envWf (se_projection (wd_env w))" by (simp add: worldOk_def)
  note start = startProjecting_ok [OF ok]
  note st = flush_steps [OF start(1) env f]
  have ls: "ls_listeners s1 = ls_listeners (wd_stream w)" using st(2) start(4) by (simp add: sameWatchers_def)
  have "keptOk ?s0 h sent" using kept ok
    by (auto simp: startProjecting_def keptOk_def worldOk_def watchesOk_def)
  from kept_flush [OF this start(1) env _ f, of uuid] epoch
  have 1: "keptOk s1 (keptLayouts s1 h) (sent @ sentBy outs)" by (simp add: startProjecting_def)
  have fresh: "l \<notin> fst ` set (sent @ sentBy outs)"
    using new flush_sent_to [OF start(1) env f] start(4) by auto
  have wf2: "streamWf (wd_env w) ?s2"
    by (rule watch_wf) (use st(1) ls new(1) in \<open>simp add: streamWf_def addListener_def\<close>)
  have ls2: "ls_listeners ?s2 = ls_listeners s1 @ [l]" using ls new(1) by (simp add: addListener_def)
  from kept_snapshot [OF 1 fresh _ wf2 ls2] ls new(1)
  have "keptOk ?s2 (keptLayouts ?s2 h) ((sent @ sentBy outs) @ [(l, snapshotOf ?s2)])"
    by (simp add: addListener_def)
  then show ?thesis by (simp add: w'_def subscribe_def f Let_def) (simp add: sentBy_def)
qed

lemma kept_step:
  assumes ok: "worldOk w" and legal: "legalAction a w" and epoch: "ls_epoch (wd_stream w) = Some uuid"
    and kept: "keptOk (wd_stream w) h sent"
    and new: "case a of Subscribed l \<Rightarrow> l \<notin> fst ` set sent | _ \<Rightarrow> True"
  defines "w' \<equiv> worldStep True a w"
  shows "keptOk (wd_stream w') (keptLayouts (wd_stream w') h) (sent @ sentBy (stepOutputs True a w))"
proof -
  let ?s = "wd_stream w"
  from ok have env: "envWf (se_projection (wd_env w))" and wf: "streamWf (wd_env w) ?s" by (simp_all add: worldOk_def)
  have quiet: ?thesis if "stepOutputs True a w = []" "set (ls_listeners (wd_stream w')) \<subseteq> set (ls_listeners ?s)"
    "ls_seq (wd_stream w') = ls_seq ?s" "ls_listeners (wd_stream w') \<noteq> [] \<Longrightarrow> ls_shown (wd_stream w') = ls_shown ?s"
    using kept_silent [OF kept that(2,3)] that(1,4) by (simp add: sentBy_def)
  have flushed: "keptOk (fst (flush True (wd_env w) t)) (keptLayouts (fst (flush True (wd_env w) t)) h)
      (sent @ sentBy (snd (flush True (wd_env w) t)))"
    if "keptOk t h sent" "streamWf (wd_env w) t" "ls_epoch t = Some uuid" for t
    using kept_flush [OF that(1,2) env that(3), of "fst (flush True (wd_env w) t)" "snd (flush True (wd_env w) t)"] by simp
  show ?thesis
  proof (cases a)
    case (Subscribed l)
    with kept_subscribed [OF ok epoch kept, of l] legal new show ?thesis by (simp add: w'_def)
  next
    case QueuedFlush
    let ?t = "?s\<lparr>ls_flushQueued := False\<rparr>"
    have "keptOk ?t h sent" "streamWf (wd_env w) ?t" "ls_epoch ?t = Some uuid"
      using kept wf epoch by (simp_all add: keptOk_def streamWf_def)
    from flushed [OF this] show ?thesis
      using quiet QueuedFlush by (auto simp: w'_def queuedFlush_def handedOut_def)
  next
    case OperationEnded
    with flushed [OF kept wf epoch] quiet show ?thesis by (auto simp: w'_def handedOut_def)
  next
    case SeqSettled
    with flushed [OF kept wf epoch] show ?thesis
      by (simp add: w'_def handedOut_def settledSeq_def case_prod_unfold Let_def)
  qed (rule quiet; auto simp: w'_def markDirty_def schedule_def markLiveTitlesDirty_def unsubscribe_def
      onLayoutOperationCommitted_def offLayoutOperationCommitted_def readPartition_def case_prod_unfold Let_def)+
qed

lemma served_ok: "servedOk uuid (servedRun uuid actions)"
proof (induction actions rule: rev_induct)
  case Nil
  have "envWf (se_projection emptyEnv)" by (simp add: envWf_def emptyEnv_def)
  then have "reachableWorld True uuid \<lparr>wd_env = emptyEnv, wd_stream = newStream True uuid, wd_readers = []\<rparr>"
    by (rule reachableWorld.start)
  then show ?case by (simp add: servedRun_def servedOk_def servedStart_def newStream_def keptOk_def)
next
  case (snoc a actions)
  let ?sv = "servedRun uuid actions"
  have run: "servedRun uuid (actions @ [a]) = servedStep a ?sv" by (simp add: servedRun_def)
  from snoc have ok: "worldOk (sv_world ?sv)" by (auto simp: servedOk_def intro: world_ok)
  show ?case
  proof (cases "legalAction a (sv_world ?sv) \<and> (case a of Subscribed l \<Rightarrow> l \<notin> fst ` set (sv_sent ?sv) | _ \<Rightarrow> True)")
    case True
    with snoc ok kept_step [OF ok, of a uuid "sv_layoutsAt ?sv" "sv_sent ?sv"] epoch_kept [OF ok, of a True]
    show ?thesis
      by (auto simp: run servedStep_def servedOk_def Let_def keptLayouts_def intro: reachableWorld.step)
  next
    case False
    with snoc show ?thesis by (simp only: run servedStep_def if_False)
  qed
qed

section \<open>The host is a source of frames for its clients\<close>

definition hostLayouts :: "string \<Rightarrow> streamAction list \<Rightarrow> (int \<Rightarrow> string) \<Rightarrow> int \<Rightarrow> int \<Rightarrow> string \<Rightarrow> publishedWorkspaceLayout option" where
  "hostLayouts uuid actions name g = sv_layoutsAt (servedRun uuid actions) (name g)"

definition hostSent :: "string \<Rightarrow> streamAction list \<Rightarrow> (int \<Rightarrow> string) \<Rightarrow> int \<Rightarrow> layoutFrame \<Rightarrow> bool" where
  "hostSent uuid actions name g frame \<longleftrightarrow> (name g, frame) \<in> set (sv_sent (servedRun uuid actions))"

lemma hostSent_genuine:
  "hostSent uuid actions name g f \<Longrightarrow>
     genuineFrame (hostLayouts uuid actions name g) (ls_seq (wd_stream (sv_world (servedRun uuid actions)))) f"
  using served_ok [of uuid actions] by (auto simp: servedOk_def keptOk_def hostSent_def hostLayouts_def)

interpretation hosted: frame_source "hostLayouts uuid actions name" "hostSent uuid actions name" for uuid actions name
  by unfold_locales (auto dest!: hostSent_genuine simp: genuineFrame_def)

text \<open>The layouts kept for a subscription at the stream's position are those the stream shows.\<close>

lemma hostLayouts_now:
  assumes "name g \<in> set (ls_listeners (wd_stream (sv_world (servedRun uuid actions))))"
  shows "hostLayouts uuid actions name g (ls_seq (wd_stream (sv_world (servedRun uuid actions)))) k
     = map_option sw_layout (map_of (ls_shown (wd_stream (sv_world (servedRun uuid actions)))) k)"
  using served_ok [of uuid actions] assms by (auto simp: servedOk_def keptOk_def hostLayouts_def shownMap_def)

end
