(* ===== verification/Frame_Positions.thy ===== *)
theory Frame_Positions
  imports Layout_Prelude
begin

text \<open>
  Replies that wait for the frame that shows their effect:
  \<open>src/renderer/src/runtime/layout-frame-position.ts\<close>.

  The table of streams is an association list from a stream's key to its entry; each operation
  returns the new table and the waiters that ran, in the order they ran.  A waiter is a value that
  stands for its callback; a callback that throws does not disturb the others.
\<close>

section \<open>State\<close>

datatype streamPhase = NoStream | Coming | Ended

record 'w streamPosition =
  sp_position :: "int option"
  sp_stream :: streamPhase
  sp_epoch :: "string option"
  sp_waiters :: "(int \<times> 'w) list"

definition newPosition :: "'w streamPosition" where
  "newPosition = \<lparr>sp_position = None, sp_stream = NoStream, sp_epoch = None, sp_waiters = []\<rparr>"

type_synonym 'w positionTable = "(string \<times> 'w streamPosition) list"

section \<open>Operations\<close>

definition releaseWaiters :: "(int \<Rightarrow> bool) \<Rightarrow> 'w streamPosition \<Rightarrow> 'w streamPosition \<times> 'w list" where
  "releaseWaiters ready entry =
     (entry\<lparr>sp_waiters := filter (\<lambda>w. \<not> ready (fst w)) (sp_waiters entry)\<rparr>,
      map snd (filter (\<lambda>w. ready (fst w)) (sp_waiters entry)))"

text \<open>\<open>streamOf\<close>: the entry of a key, made when it is first asked for.\<close>

definition withEntry ::
  "string \<Rightarrow> ('w streamPosition \<Rightarrow> 'w streamPosition \<times> 'w list) \<Rightarrow> 'w positionTable \<Rightarrow> 'w positionTable \<times> 'w list" where
  "withEntry key f table =
     (let (entry, fired) = f (orElse (map_of table key) newPosition)
      in (AList.update key entry table, fired))"

definition reachPosition :: "int \<Rightarrow> 'w streamPosition \<Rightarrow> 'w streamPosition \<times> 'w list" where
  "reachPosition n entry =
     (let reached = (case sp_position entry of None \<Rightarrow> n | Some p \<Rightarrow> max p n)
      in releaseWaiters (\<lambda>s. s \<le> reached) (entry\<lparr>sp_stream := Coming, sp_position := Some reached\<rparr>))"

definition noteLayoutFramePosition :: "int option \<Rightarrow> string \<Rightarrow> 'w positionTable \<Rightarrow> 'w positionTable \<times> 'w list" where
  "noteLayoutFramePosition seq key table = (case seq of
     None \<Rightarrow> (table, []) | Some n \<Rightarrow> withEntry key (reachPosition n) table)"

definition enterEpoch :: "string \<Rightarrow> 'w streamPosition \<Rightarrow> 'w streamPosition \<times> 'w list" where
  "enterEpoch epoch entry =
     (if sp_epoch entry \<noteq> None \<and> sp_epoch entry \<noteq> Some epoch
      then releaseWaiters (\<lambda>_. True) (entry\<lparr>sp_position := None, sp_epoch := Some epoch\<rparr>)
      else (entry\<lparr>sp_epoch := Some epoch\<rparr>, []))"

definition noteLayoutFrameEpoch :: "string option \<Rightarrow> string \<Rightarrow> 'w positionTable \<Rightarrow> 'w positionTable \<times> 'w list" where
  "noteLayoutFrameEpoch epoch key table = (case epoch of
     None \<Rightarrow> (table, []) | Some e \<Rightarrow> withEntry key (enterEpoch e) table)"

definition beginEntry :: "'w streamPosition \<Rightarrow> 'w streamPosition \<times> 'w list" where
  "beginEntry entry = (entry\<lparr>sp_stream := Coming\<rparr>, [])"

definition endEntry :: "'w streamPosition \<Rightarrow> 'w streamPosition \<times> 'w list" where
  "endEntry entry = releaseWaiters (\<lambda>_. True) (entry\<lparr>sp_position := None, sp_stream := Ended\<rparr>)"

definition layoutFramesFlowing :: "string \<Rightarrow> 'w positionTable \<Rightarrow> bool" where
  "layoutFramesFlowing key table = (case map_of table key of
     None \<Rightarrow> False | Some entry \<Rightarrow> sp_stream entry = Coming)"

definition beginLayoutFramePositions :: "string \<Rightarrow> 'w positionTable \<Rightarrow> 'w positionTable \<times> 'w list" where
  "beginLayoutFramePositions key = withEntry key beginEntry"

definition endLayoutFramePositions :: "string \<Rightarrow> 'w positionTable \<Rightarrow> 'w positionTable \<times> 'w list" where
  "endLayoutFramePositions key = withEntry key endEntry"

definition runsNow :: "int option \<Rightarrow> 'w streamPosition option \<Rightarrow> bool" where
  "runsNow seq entry = (case (seq, entry) of
     (Some n, Some e) \<Rightarrow> sp_stream e \<noteq> Coming
       \<or> (case sp_position e of None \<Rightarrow> False | Some p \<Rightarrow> n \<le> p)
   | _ \<Rightarrow> True)"

definition afterLayoutFrame :: "int option \<Rightarrow> 'w \<Rightarrow> string \<Rightarrow> 'w positionTable \<Rightarrow> 'w positionTable \<times> 'w list" where
  "afterLayoutFrame seq run key table = (case (seq, map_of table key) of
     (Some n, Some entry) \<Rightarrow>
       if runsNow seq (Some entry) then (table, [run])
       else (AList.update key (entry\<lparr>sp_waiters := sp_waiters entry @ [(n, run)]\<rparr>) table, [])
   | _ \<Rightarrow> (table, [run]))"

datatype 'w positionEvent =
  PositionNoted "int option" string
| EpochNoted "string option" string
| StreamBegun string
| StreamEnded string
| ReplyWaits "int option" 'w string

fun positionStep :: "'w positionEvent \<Rightarrow> 'w positionTable \<Rightarrow> 'w positionTable \<times> 'w list" where
  "positionStep (PositionNoted seq key) table = noteLayoutFramePosition seq key table"
| "positionStep (EpochNoted epoch key) table = noteLayoutFrameEpoch epoch key table"
| "positionStep (StreamBegun key) table = beginLayoutFramePositions key table"
| "positionStep (StreamEnded key) table = endLayoutFramePositions key table"
| "positionStep (ReplyWaits seq run key) table = afterLayoutFrame seq run key table"

fun repliesAsked :: "'w positionEvent \<Rightarrow> 'w list" where
  "repliesAsked (ReplyWaits _ run _) = [run]"
| "repliesAsked _ = []"

text \<open>The table after a list of events, and all that ran.\<close>

primrec positionRun :: "'w positionEvent list \<Rightarrow> 'w positionTable \<Rightarrow> 'w positionTable \<times> 'w list" where
  "positionRun [] table = (table, [])"
| "positionRun (e # es) table =
     (let (table1, fired1) = positionStep e table;
          (table2, fired2) = positionRun es table1
      in (table2, fired1 @ fired2))"

definition waiting :: "'w positionTable \<Rightarrow> 'w list" where
  "waiting table = concat (map ((\<lambda>entry. map snd (sp_waiters entry)) \<circ> snd) table)"

section \<open>No waiter is lost, none waits for a frame that came\<close>

text \<open>An entry waits only on a stream that is coming, and only for frames beyond its position.\<close>

definition entryOk :: "'w streamPosition \<Rightarrow> bool" where
  "entryOk e \<longleftrightarrow> (sp_stream e = Coming \<or> sp_waiters e = [])
     \<and> (case sp_position e of None \<Rightarrow> True | Some p \<Rightarrow> list_all (\<lambda>(s, _). p < s) (sp_waiters e))"

definition tableOk :: "'w positionTable \<Rightarrow> bool" where
  "tableOk table \<longleftrightarrow> distinct (map fst table) \<and> list_all (\<lambda>(_, e). entryOk e) table"

lemma releaseWaiters_mset:
  "mset (snd (releaseWaiters ready e)) + mset (map snd (sp_waiters (fst (releaseWaiters ready e))))
     = mset (map snd (sp_waiters e))"
proof -
  have "mset (filter P xs) + mset (filter (\<lambda>x. \<not> P x) xs) = mset xs" for P and xs :: "(int \<times> 'a) list"
    by (induction xs) auto
  then have "image_mset snd (mset (filter (\<lambda>w. ready (fst w)) (sp_waiters e)))
      + image_mset snd (mset (filter (\<lambda>w. \<not> ready (fst w)) (sp_waiters e))) = image_mset snd (mset (sp_waiters e))"
    by (metis image_mset_union)
  then show ?thesis by (simp add: releaseWaiters_def)
qed

lemma update_mset:
  assumes "distinct (map fst table)"
  shows "mset (waiting (AList.update key e table)) + mset (map snd (sp_waiters (orElse (map_of table key) newPosition)))
     = mset (waiting table) + mset (map snd (sp_waiters e))"
proof (cases "map_of table key")
  case None
  then have "key \<notin> fst ` set table" by (simp add: map_of_eq_None_iff)
  from map_snd_update_new [OF this, of e] None show ?thesis by (simp add: waiting_def newPosition_def)
next
  case (Some v)
  from mset_concat_update [OF assms Some, of "\<lambda>entry. map snd (sp_waiters entry)" e] show ?thesis
    by (simp add: waiting_def Some)
qed

lemma tableOk_update: "tableOk table \<Longrightarrow> entryOk e \<Longrightarrow> tableOk (AList.update key e table)"
  using set_AList_update [of key e table]
  by (auto simp: tableOk_def distinct_update list_all_iff)

lemma tableOk_entry: "tableOk table \<Longrightarrow> entryOk (orElse (map_of table key) newPosition)"
  by (cases "map_of table key")
    (auto simp: tableOk_def list_all_iff entryOk_def newPosition_def dest!: map_of_SomeD)

text \<open>An operation on an entry keeps it in order, and every waiter waits on or runs.\<close>

definition keepsWaiters :: "('w streamPosition \<Rightarrow> 'w streamPosition \<times> 'w list) \<Rightarrow> bool" where
  "keepsWaiters f \<longleftrightarrow> (\<forall>e. entryOk e \<longrightarrow> entryOk (fst (f e))
     \<and> mset (snd (f e)) + mset (map snd (sp_waiters (fst (f e)))) = mset (map snd (sp_waiters e)))"

lemma withEntry_ok:
  assumes "tableOk table" "keepsWaiters f"
  shows "tableOk (fst (withEntry key f table))
     \<and> mset (snd (withEntry key f table)) + mset (waiting (fst (withEntry key f table))) = mset (waiting table)"
proof -
  let ?e = "orElse (map_of table key) newPosition"
  obtain e fired where f: "f ?e = (e, fired)" by force
  from assms(2) tableOk_entry [OF assms(1), of key] f have e: "entryOk e"
    and fired: "mset fired + mset (map snd (sp_waiters e)) = mset (map snd (sp_waiters ?e))"
    by (auto simp: keepsWaiters_def)
  have "distinct (map fst table)" using assms(1) by (simp add: tableOk_def)
  from update_mset [OF this, of key e] have
    "mset (waiting (AList.update key e table)) + (mset fired + mset (map snd (sp_waiters e)))
      = mset (waiting table) + mset (map snd (sp_waiters e))" unfolding fired .
  then have "mset fired + mset (waiting (AList.update key e table)) = mset (waiting table)"
    by (simp add: ac_simps)
  with tableOk_update [OF assms(1) e] show ?thesis by (simp add: withEntry_def f)
qed

lemma keeps_reach: "keepsWaiters (reachPosition n)"
  unfolding keepsWaiters_def reachPosition_def Let_def
proof (intro allI impI conjI)
  fix e :: "'a streamPosition"
  let ?r = "case sp_position e of None \<Rightarrow> n | Some p \<Rightarrow> max p n"
  let ?e = "e\<lparr>sp_stream := Coming, sp_position := Some ?r\<rparr>"
  show "entryOk (fst (releaseWaiters (\<lambda>s. s \<le> ?r) ?e))"
    by (auto simp: entryOk_def releaseWaiters_def list_all_iff)
  show "mset (snd (releaseWaiters (\<lambda>s. s \<le> ?r) ?e))
      + mset (map snd (sp_waiters (fst (releaseWaiters (\<lambda>s. s \<le> ?r) ?e)))) = mset (map snd (sp_waiters e))"
    using releaseWaiters_mset [of "\<lambda>s. s \<le> ?r" ?e] by simp
qed

lemma keeps_epoch: "keepsWaiters (enterEpoch epoch)"
  by (auto simp: keepsWaiters_def enterEpoch_def entryOk_def releaseWaiters_def split: option.splits)

lemma keeps_begin: "keepsWaiters beginEntry"
  by (auto simp: keepsWaiters_def beginEntry_def entryOk_def split: option.splits)

lemma keeps_end: "keepsWaiters endEntry"
  by (auto simp: keepsWaiters_def endEntry_def entryOk_def releaseWaiters_def split: option.splits)

lemma after_ok:
  assumes "tableOk table"
  shows "tableOk (fst (afterLayoutFrame seq run key table))
     \<and> mset (snd (afterLayoutFrame seq run key table)) + mset (waiting (fst (afterLayoutFrame seq run key table)))
       = mset (waiting table) + {#run#}"
proof (cases "\<exists>n e. seq = Some n \<and> map_of table key = Some e \<and> \<not> runsNow seq (Some e)")
  case True
  then obtain n e where n: "seq = Some n" and e: "map_of table key = Some e" and now: "\<not> runsNow seq (Some e)" by blast
  let ?e = "e\<lparr>sp_waiters := sp_waiters e @ [(n, run)]\<rparr>"
  have "entryOk e" using tableOk_entry [OF assms, of key] e by simp
  with now have ok: "entryOk ?e" by (auto simp: entryOk_def runsNow_def n split: option.splits)
  have "mset (waiting (AList.update key ?e table)) + mset (map snd (sp_waiters e))
      = mset (waiting table) + {#run#} + mset (map snd (sp_waiters e))"
    using update_mset [of table key ?e] assms e by (simp add: tableOk_def)
  then have "mset (waiting (AList.update key ?e table)) = mset (waiting table) + {#run#}" by (rule add_right_imp_eq)
  moreover have "afterLayoutFrame seq run key table = (AList.update key ?e table, [])"
    using now by (simp add: afterLayoutFrame_def n e)
  ultimately show ?thesis using tableOk_update [OF assms ok, of key] by simp
next
  case False
  then have "afterLayoutFrame seq run key table = (table, [run])"
    by (auto simp: afterLayoutFrame_def split: option.split)
  with assms show ?thesis by simp
qed

lemma positionStep_ok:
  assumes ok: "tableOk table" and step: "positionStep ev table = (table', fired)"
  shows "tableOk table'" "mset fired + mset (waiting table') = mset (waiting table) + mset (repliesAsked ev)"
proof -
  have "tableOk (fst (positionStep ev table)) \<and> mset (snd (positionStep ev table))
      + mset (waiting (fst (positionStep ev table))) = mset (waiting table) + mset (repliesAsked ev)"
    using ok withEntry_ok [OF ok keeps_reach] withEntry_ok [OF ok keeps_epoch] withEntry_ok [OF ok keeps_begin]
      withEntry_ok [OF ok keeps_end] after_ok [OF ok]
    by (cases ev) (simp_all add: noteLayoutFramePosition_def noteLayoutFrameEpoch_def
        beginLayoutFramePositions_def endLayoutFramePositions_def split: option.split)
  with step show "tableOk table'" "mset fired + mset (waiting table') = mset (waiting table) + mset (repliesAsked ev)"
    by simp_all
qed

lemma positionRun_ok:
  assumes "tableOk table" "positionRun events table = (table', fired)"
  shows "tableOk table' \<and> mset fired + mset (waiting table') = mset (waiting table) + mset (concat (map repliesAsked events))"
  using assms
proof (induction events arbitrary: table table' fired)
  case (Cons e es)
  obtain t1 r1 where 1: "positionStep e table = (t1, r1)" by force
  obtain t2 r2 where 2: "positionRun es t1 = (t2, r2)" by force
  note s = positionStep_ok [OF Cons.prems(1) 1]
  from Cons.IH [OF s(1) 2] have t2: "tableOk t2"
    and c: "mset r2 + mset (waiting t2) = mset (waiting t1) + mset (concat (map repliesAsked es))" by blast+
  from Cons.prems(2) 1 2 have "table' = t2" "fired = r1 @ r2" by auto
  moreover have "mset (r1 @ r2) + mset (waiting t2) = mset (waiting table) + mset (repliesAsked e)
      + mset (concat (map repliesAsked es))"
    unfolding s(2) [symmetric] using c by (simp add: ac_simps)
  ultimately show ?case using t2 by (simp add: ac_simps)
qed simp

text \<open>No waiter is left behind a position its stream has reached.\<close>

lemma waiter_ahead:
  assumes "tableOk table" "map_of table key = Some e" "(n, w) \<in> set (sp_waiters e)"
  shows "sp_stream e = Coming" "sp_position e = Some p \<Longrightarrow> p < n"
proof -
  have "entryOk e" using tableOk_entry [OF assms(1), of key] assms(2) by simp
  with assms(3) show "sp_stream e = Coming" "sp_position e = Some p \<Longrightarrow> p < n"
    by (auto simp: entryOk_def list_all_iff)
qed

end
