(* ===== verification/Stream_Samples.thy ===== *)
theory Stream_Samples
  imports Layout_Samples Stream_Delivery Frame_Positions
begin

text \<open>
  Runs of the layout stream on the sample host: a window subscribes while the host shows its two
  workspaces, and sees them go.
\<close>

section \<open>A host and its writes\<close>

definition sampleEnv :: "workspaceLayoutModel \<Rightarrow> streamEnv" where
  "sampleEnv m = \<lparr>se_projection = \<lparr>en_hostIds = [''local''], en_load = (\<lambda>h. if h = ''local'' then Some m else None),
       en_homeHostId = (\<lambda>_. Inr (Some ''local''))\<rparr>,
     se_liveTitle = (\<lambda>_. None), se_sources = \<lparr>ps_startFact = None, ps_resumeOutcome = None\<rparr>\<rparr>"

definition startWorld :: streamWorld where
  "startWorld = \<lparr>wd_env = emptyEnv, wd_stream = newStream True ''u'', wd_readers = []\<rparr>"

definition sampleActions :: "streamAction list" where
  "sampleActions = [Written None (sampleEnv sampleLayout), Subscribed ''w'',
     Written None (sampleEnv (emptyLayout ''local'')), QueuedFlush]"

definition sampleWorld :: "nat \<Rightarrow> streamWorld" where
  "sampleWorld n = fold (worldStep True) (take n sampleActions) startWorld"

lemma sampleActions_length [simp]: "length sampleActions = 4"
  by (simp add: sampleActions_def)

lemma sample_subscribed:
  "ls_listeners (wd_stream (sampleWorld 1)) = []" "ls_listeners (wd_stream (sampleWorld 2)) = [''w'']"
  "map fst (ls_shown (wd_stream (sampleWorld 2))) = [''repo::main'', ''repo::topic'']"
  "ls_listeners (wd_stream (sampleWorld 4)) = [''w'']"
  by code_simp+

lemma sample_dirty: "ls_dirty (wd_stream (sampleWorld 3))" "ls_listeners (wd_stream (sampleWorld 3)) = [''w'']"
  by code_simp+

lemma sample_fresh: "freshLayouts True (wd_env (sampleWorld 3)) (wd_stream (sampleWorld 3)) = Inr []"
  by code_simp

lemma sampleActions_legal: "n < 4 \<Longrightarrow> legalAction (sampleActions ! n) (sampleWorld n)"
proof -
  have "envWf (se_projection (sampleEnv m))" if "wf_layout m" for m
    using that by (simp add: sampleEnv_def envWf_def)
  with wf_sampleLayout sample_subscribed
  show "n < 4 \<Longrightarrow> legalAction (sampleActions ! n) (sampleWorld n)"
    by (auto simp: less_Suc_eq numeral_eq_Suc sampleActions_def)
qed

lemma sampleWorld_step: "n < 4 \<Longrightarrow> sampleWorld (Suc n) = worldStep True (sampleActions ! n) (sampleWorld n)"
  by (simp add: sampleWorld_def take_Suc_conv_app_nth)

lemma sampleWorld_reachable: "n \<le> 4 \<Longrightarrow> reachableWorld True ''u'' (sampleWorld n)"
proof (induction n)
  case 0
  have "envWf (se_projection emptyEnv)" by (simp add: emptyEnv_def envWf_def)
  from reachableWorld.start [OF this] show ?case by (simp add: sampleWorld_def startWorld_def)
next
  case (Suc n)
  with reachableWorld.step [OF _ sampleActions_legal] show ?case by (simp add: sampleWorld_step)
qed

section \<open>What the window is sent\<close>

definition sampleSent :: "nat \<Rightarrow> (string \<times> layoutFrame) list" where
  "sampleSent n = concat (map (\<lambda>i. sentBy (stepOutputs True (sampleActions ! i) (sampleWorld i))) [0..<n])"

lemma sampleSent_none: "sampleSent 1 = []" by code_simp

text \<open>What the window's copy should be after the first frame.\<close>

definition sampleShown :: "(string \<times> publishedWorkspaceLayout) list" where
  "sampleShown = map (\<lambda>(k, ws). (k, publishWorkspaceLayout True ws ''local'')) (md_workspaces sampleLayout)"

lemma sampleShown_keys: "map fst sampleShown = [''repo::main'', ''repo::topic'']" by code_simp

lemma sampleSent_frames:
  "sampleSent 2 = [(''w'', SnapshotFrame sampleShown (Some ''u'') (Some 0))]"
  "sampleSent 4 = [(''w'', SnapshotFrame sampleShown (Some ''u'') (Some 0)),
     (''w'', RecordsFrame ''u'' 1 [ChangeRemoved ''repo::main'', ChangeRemoved ''repo::topic''])]"
  by code_simp+

lemma sample_projected:
  "projectFresh True (se_projection (sampleEnv sampleLayout)) freshProjection = Inr sampleShown" by code_simp

lemma sampleShown_main: "map_of sampleShown ''repo::main'' = Some (publishWorkspaceLayout True sampleMain ''local'')"
  by code_simp

text \<open>The first workspace before and after its split terminal is closed.\<close>

definition shownBefore :: publishedWorkspaceLayout where
  "shownBefore = publishWorkspaceLayout True sampleMain ''local''"

definition shownAfter :: publishedWorkspaceLayout where
  "shownAfter = publishWorkspaceLayout True (removeTabFromWorkspace sampleMain ''t1'') ''local''"

lemma shown_differ:
  "panesAgree shownBefore" "panesAgree shownAfter"
  "diffPublishedLayouts ''repo::main'' (indexPublishedLayout shownBefore) (indexPublishedLayout shownAfter) shownAfter \<noteq> None"
  by code_simp+

lemma sample_served:
  "n \<le> 4 \<Longrightarrow> sv_world (servedRun ''u'' (take n sampleActions)) = sampleWorld n
     \<and> sv_sent (servedRun ''u'' (take n sampleActions)) = sampleSent n"
proof (induction n)
  case 0
  show ?case by (simp add: servedRun_def servedStart_def sampleWorld_def startWorld_def sampleSent_def)
next
  case (Suc n)
  let ?sv = "servedRun ''u'' (take n sampleActions)"
  from Suc have n: "n < 4" and ih: "sv_world ?sv = sampleWorld n" "sv_sent ?sv = sampleSent n" by simp_all
  have run: "servedRun ''u'' (take (Suc n) sampleActions) = servedStep (sampleActions ! n) ?sv"
    using n by (simp add: servedRun_def take_Suc_conv_app_nth)
  have "case sampleActions ! n of Subscribed l \<Rightarrow> l \<notin> fst ` set (sv_sent ?sv) | _ \<Rightarrow> True"
    unfolding ih using n sampleSent_none by (auto simp: less_Suc_eq numeral_eq_Suc sampleActions_def)
  moreover have "sampleSent (Suc n) = sampleSent n @ sentBy (stepOutputs True (sampleActions ! n) (sampleWorld n))"
    by (simp add: sampleSent_def)
  ultimately show ?case using ih sampleActions_legal [OF n] sampleWorld_step [OF n]
    by (simp add: run servedStep_def Let_def)
qed

section \<open>A window that received the snapshot\<close>

lemma sample_live:
  defines "c \<equiv> clientRun [Received 1 (FrameRead (SnapshotFrame sampleShown (Some ''u'') (Some 0)))]"
  shows "lc_state c = Live" "lc_generation c = 1" "lc_lastSeq c = Some 0" "lc_epoch c = Some ''u''"
  unfolding c_def
  by (simp_all add: clientRun_def subscribeRuntimeLayout_def client_defs Let_def split: sum.split)

section \<open>A client and a broken stream\<close>

definition sampleSnapshot :: clientEvent where
  "sampleSnapshot = Received 1 (FrameRead (SnapshotFrame [] (Some ''e'') (Some 1)))"

definition brokenValue :: "int \<Rightarrow> clientEvent" where
  "brokenValue g = Received g (Malformed None)"

lemma broken_run:
  "noneApply [brokenValue 1, brokenValue 3] (clientRun [sampleSnapshot])"
  "openedAtOnce [brokenValue 1, brokenValue 3] (clientRun [sampleSnapshot]) = 1"
  "lc_reopenTimer (clientRun ([sampleSnapshot] @ [brokenValue 1, brokenValue 3])) = Some 1000"
  by code_simp+

end
