(* ===== verification/Layout_Views.thy ===== *)
theory Layout_Views
  imports Editor_Files Stable_Ids
begin

text \<open>
  What a view (the desktop window, a phone) has selected in each workspace:
  \<open>workspace-layout-views.ts\<close> and \<open>workspace-layout-view-prune.ts\<close>, with the record of
  \<open>workspace-layout-beside.ts\<close> and the host-qualified workspace ids of
  \<open>worktree/host-qualified-identity.ts\<close>.

  A view's ids may be stale: reading falls back, saving prunes.  The theory shows that pruning
  changes nothing a view resolves to.
\<close>

section \<open>Records\<close>

record groupSelection =
  gl_activeTabId :: "string option"
  gl_recentTabIds :: "string list option"

record paneSelection =
  pz_activeLeafId :: "string option"
  pz_expandedLeafId :: "string option"

record editorDraft =
  dr_dirtyDraftContent :: "string option"
  dr_lastKnownDiskSignature :: "string option"

record layoutViewRecord =
  lv_activeRepoId :: "string option"
  lv_activeWorkspaceKey :: "string optnull"
  lv_activeWorkspaceExecutionHostId :: "string optnull"
  lv_activeWorktreeId :: "string option"
  lv_activeTabId :: "string option"
  lv_activeFileIdByWorktree :: "(string \<times> string option) list option"
  lv_markdownFrontmatterVisible :: "(string \<times> bool) list option"
  lv_activeBrowserTabIdByWorktree :: "(string \<times> string option) list option"
  lv_activeTabTypeByWorktree :: "(string \<times> string) list option"
  lv_activeTabIdByWorktree :: "(string \<times> string option) list option"
  lv_activeGroupIdByWorktree :: "(string \<times> string) list option"
  lv_lastVisitedAtByWorktreeId :: "(string \<times> int) list option"
  lv_groups :: "(string \<times> (string \<times> groupSelection) list) list"
  lv_lastFocusedAt :: "(string \<times> (string \<times> int) list) list"
  lv_panes :: "(string \<times> paneSelection) list"
  lv_editorDrafts :: "(string \<times> (string \<times> editorDraft) list) list"

text \<open>The views of an app instance, by view id.\<close>

type_synonym layoutViewStore = "(string \<times> layoutViewRecord) list"

definition DESKTOP_VIEW_ID :: string where "DESKTOP_VIEW_ID = ''desktop''"

definition deviceViewId :: "string \<Rightarrow> string" where
  "deviceViewId pairedDeviceId = ''device:'' @ pairedDeviceId"

definition emptyLayoutViewRecord :: layoutViewRecord where
  "emptyLayoutViewRecord = \<lparr>lv_activeRepoId = None, lv_activeWorkspaceKey = Absent,
     lv_activeWorkspaceExecutionHostId = Absent, lv_activeWorktreeId = None, lv_activeTabId = None,
     lv_activeFileIdByWorktree = None, lv_markdownFrontmatterVisible = None,
     lv_activeBrowserTabIdByWorktree = None, lv_activeTabTypeByWorktree = None,
     lv_activeTabIdByWorktree = None, lv_activeGroupIdByWorktree = None,
     lv_lastVisitedAtByWorktreeId = None, lv_groups = [], lv_lastFocusedAt = [], lv_panes = [],
     lv_editorDrafts = []\<rparr>"

definition viewRecordOf :: "layoutViewStore \<Rightarrow> string \<Rightarrow> layoutViewRecord" where
  "viewRecordOf store viewId = orElse (map_of store viewId) emptyLayoutViewRecord"

definition setViewRecord :: "layoutViewStore \<Rightarrow> string \<Rightarrow> layoutViewRecord \<Rightarrow> layoutViewStore" where
  "setViewRecord store viewId r =
     AList.update viewId (if viewId = DESKTOP_VIEW_ID then r else r\<lparr>lv_editorDrafts := []\<rparr>) store"

definition forgetView :: "layoutViewStore \<Rightarrow> string \<Rightarrow> layoutViewStore" where
  "forgetView store viewId = AList.delete viewId store"

section \<open>What a view shows\<close>

record resolvedSelection =
  rv_activeGroupId :: "string option"
  rv_groups :: "(string \<times> string option \<times> string list) list"
  rv_panes :: "(string \<times> paneSelection) list"
  rv_activeFileId :: "string option"
  rv_activeBrowserTabId :: "string option"

text \<open>\<open>id && ids.includes(id) ? id : fallback\<close>.\<close>

definition heldOr :: "string list \<Rightarrow> string option \<Rightarrow> string option \<Rightarrow> string option" where
  "heldOr ids i fallback = (if truthy i \<and> the i \<in> set ids then i else fallback)"

definition firstOf :: "'a list \<Rightarrow> 'a option" where
  "firstOf xs = (case xs of [] \<Rightarrow> None | x # _ \<Rightarrow> Some x)"

definition lastOf :: "'a list \<Rightarrow> 'a option" where
  "lastOf xs = firstOf (rev xs)"

definition recentOf :: "groupSelection option \<Rightarrow> string list option" where
  "recentOf selection = Option.bind selection gl_recentTabIds"

definition resolveGroupTab :: "string list \<Rightarrow> groupSelection option \<Rightarrow> string option \<times> string list" where
  "resolveGroupTab tabOrder selection =
     (let recentTabIds = filter (\<lambda>i. i \<in> set tabOrder) (orElse (recentOf selection) []);
          recorded = Option.bind selection gl_activeTabId
      in (heldOr tabOrder recorded (orElseOpt (lastOf recentTabIds) (firstOf tabOrder)), recentTabIds))"

definition resolvePanes :: "(string \<times> paneSelection) list \<Rightarrow> layoutTab \<Rightarrow> paneSelection" where
  "resolvePanes panes t =
     (let held = leafIdsOf t; recorded = map_of panes (tb_entityId t)
      in \<lparr>pz_activeLeafId = heldOr held (Option.bind recorded pz_activeLeafId) (firstOf held),
          pz_expandedLeafId = heldOr held (Option.bind recorded pz_expandedLeafId) None\<rparr>)"

definition terminalTabs :: "workspaceLayout \<Rightarrow> layoutTab list" where
  "terminalTabs ws = filter isTerminal (ws_tabs ws)"

definition selectionsIn :: "layoutViewRecord \<Rightarrow> string \<Rightarrow> (string \<times> groupSelection) list" where
  "selectionsIn r key = orElse (map_of (lv_groups r) key) []"

definition resolveWorkspaceSelection ::
  "bool \<Rightarrow> layoutViewRecord \<Rightarrow> string \<Rightarrow> workspaceLayout \<Rightarrow> resolvedSelection" where
  "resolveWorkspaceSelection own r key ws =
     (let groups = fromEntries (map (\<lambda>g. (gr_id g,
            resolveGroupTab (gr_tabOrder g) (map_of (selectionsIn r key) (gr_id g)))) (ws_groups ws));
          panes = fromEntries (map (\<lambda>t. (tb_entityId t, resolvePanes (lv_panes r) t)) (terminalTabs ws));
          recordedGroup = lookupOpt (lv_activeGroupIdByWorktree r) key;
          activeFileId = Option.bind (lookupOpt (lv_activeFileIdByWorktree r) key) id;
          activeBrowserTabId = Option.bind (lookupOpt (lv_activeBrowserTabIdByWorktree r) key) id
      in \<lparr>rv_activeGroupId = heldOr (map fst groups) recordedGroup (map_option gr_id (firstOf (ws_groups ws))),
          rv_groups = groups, rv_panes = panes,
          rv_activeFileId = (if truthy activeFileId \<and> holdsEditorFileId own ws (the activeFileId)
            then activeFileId else None),
          rv_activeBrowserTabId = (if list_ex (\<lambda>t. Some (bt_id t) = activeBrowserTabId) (orElse (ws_browserTabs ws) [])
            then activeBrowserTabId else None)\<rparr>)"

section \<open>Pruning\<close>

definition clearMissingIds ::
  "(string \<times> string option) list option \<Rightarrow> (string \<times> workspaceLayout) list
     \<Rightarrow> (workspaceLayout \<Rightarrow> string \<Rightarrow> bool) \<Rightarrow> (string \<times> string option) list option" where
  "clearMissingIds byWorkspace workspaces holds =
     map_option (map (\<lambda>(key, i). (key, case (i, map_of workspaces key) of
        (Some x, Some ws) \<Rightarrow> if holds ws x then i else None
      | _ \<Rightarrow> i))) byWorkspace"

definition holdsId :: "(workspaceLayout \<Rightarrow> string list) \<Rightarrow> workspaceLayout \<Rightarrow> string \<Rightarrow> bool" where
  "holdsId ids ws i \<longleftrightarrow> i \<in> set (ids ws)"

definition keepHeldIds ::
  "(string \<times> (string \<times> 'a) list) list \<Rightarrow> (string \<times> workspaceLayout) list
     \<Rightarrow> (workspaceLayout \<Rightarrow> string list) \<Rightarrow> (string \<times> (string \<times> 'a) list) list" where
  "keepHeldIds byWorkspace workspaces ids =
     map (\<lambda>(key, byId). (key, case map_of workspaces key of
        None \<Rightarrow> byId | Some ws \<Rightarrow> filter (\<lambda>(i, _). i \<in> set (ids ws)) byId)) byWorkspace"

definition fileKeys :: "bool \<Rightarrow> workspaceLayout \<Rightarrow> string list" where
  "fileKeys own ws = map (editorFileKey own) (orElse (ws_editorFiles ws) [])"

definition browserTabIds :: "workspaceLayout \<Rightarrow> string list" where
  "browserTabIds ws = map bt_id (orElse (ws_browserTabs ws) [])"

definition terminalTabIds :: "workspaceLayout \<Rightarrow> string list" where
  "terminalTabIds ws = map tb_entityId (terminalTabs ws)"

definition pruneSelection :: "string list \<Rightarrow> groupSelection \<Rightarrow> groupSelection" where
  "pruneSelection tabOrder selection =
     \<lparr>gl_activeTabId = heldOr tabOrder (gl_activeTabId selection) None,
      gl_recentTabIds = map_option (filter (\<lambda>i. i \<in> set tabOrder)) (gl_recentTabIds selection)\<rparr>"

definition pruneGroup :: "layoutGroup \<Rightarrow> (string \<times> groupSelection) list \<Rightarrow> (string \<times> groupSelection) list" where
  "pruneGroup g byGroup = (case map_of byGroup (gr_id g) of
     None \<Rightarrow> byGroup
   | Some selection \<Rightarrow> AList.update (gr_id g) (pruneSelection (gr_tabOrder g) selection) byGroup)"

definition pruneGroups ::
  "(string \<times> workspaceLayout) list \<Rightarrow> (string \<times> (string \<times> groupSelection) list) list
     \<Rightarrow> (string \<times> (string \<times> groupSelection) list) list" where
  "pruneGroups workspaces groups =
     map (\<lambda>(key, byGroup). (key, fold pruneGroup
       (case map_of workspaces key of None \<Rightarrow> [] | Some ws \<Rightarrow> ws_groups ws) byGroup))
       (keepHeldIds groups workspaces groupIds)"

text \<open>\<open>leafIdsByTab\<close>: the last terminal tab of an id.\<close>

definition leafIdsByTab :: "(string \<times> workspaceLayout) list \<Rightarrow> string \<Rightarrow> string list option" where
  "leafIdsByTab workspaces =
     map_of (rev (concat (map (\<lambda>(_, ws). map (\<lambda>t. (tb_entityId t, leafIdsOf t)) (terminalTabs ws)) workspaces)))"

definition prunePanes ::
  "(string \<times> workspaceLayout) list \<Rightarrow> (string \<times> paneSelection) list \<Rightarrow> (string \<times> paneSelection) list" where
  "prunePanes workspaces panes =
     concat (map (\<lambda>(tabId, p). case leafIdsByTab workspaces tabId of
        None \<Rightarrow> []
      | Some held \<Rightarrow> [(tabId, \<lparr>pz_activeLeafId = (case pz_activeLeafId p of
            None \<Rightarrow> None | Some l \<Rightarrow> if l \<in> set held then Some l else firstOf held),
          pz_expandedLeafId = heldOr held (pz_expandedLeafId p) None\<rparr>)]) panes)"

definition pruneViewRecord :: "bool \<Rightarrow> layoutViewRecord \<Rightarrow> workspaceLayoutModel \<Rightarrow> layoutViewRecord" where
  "pruneViewRecord own r layout =
     (let workspaces = md_workspaces layout
      in r\<lparr>lv_groups := pruneGroups workspaces (lv_groups r),
           lv_lastFocusedAt := keepHeldIds (lv_lastFocusedAt r) workspaces tabIds,
           lv_panes := prunePanes workspaces (lv_panes r),
           lv_editorDrafts := keepHeldIds (lv_editorDrafts r) workspaces (fileKeys own),
           lv_activeGroupIdByWorktree := filterRecord (lv_activeGroupIdByWorktree r) (\<lambda>key g.
             case map_of workspaces key of None \<Rightarrow> True | Some ws \<Rightarrow> g \<in> set (groupIds ws)),
           lv_activeTabIdByWorktree := clearMissingIds (lv_activeTabIdByWorktree r) workspaces (holdsId terminalTabIds),
           lv_activeFileIdByWorktree := clearMissingIds (lv_activeFileIdByWorktree r) workspaces (holdsEditorFileId own),
           lv_activeBrowserTabIdByWorktree :=
             clearMissingIds (lv_activeBrowserTabIdByWorktree r) workspaces (holdsId browserTabIds)\<rparr>)"

section \<open>Removing a workspace\<close>

definition isWorktreeHostIdentity :: "string \<Rightarrow> bool" where
  "isWorktreeHostIdentity identity = (case breakOn ''|'' identity of
     None \<Rightarrow> False
   | Some (host, _) \<Rightarrow> host = [] \<or> parseExecutionHostId (Some host) \<noteq> None)"

definition getWorktreeIdFromHostIdentity :: "string \<Rightarrow> string" where
  "getWorktreeIdFromHostIdentity identity = (case breakOn ''|'' identity of
     None \<Rightarrow> identity | Some (_, rest) \<Rightarrow> rest)"

definition removeWorkspaceFromView ::
  "layoutViewRecord \<Rightarrow> string \<Rightarrow> workspaceLayout option \<Rightarrow> layoutViewRecord" where
  "removeWorkspaceFromView r key workspace =
     (let removed = (case workspace of None \<Rightarrow> [] | Some ws \<Rightarrow> terminalTabIds ws)
      in r\<lparr>lv_groups := AList.delete key (lv_groups r),
           lv_lastFocusedAt := AList.delete key (lv_lastFocusedAt r),
           lv_panes := filter (\<lambda>(tabId, _). tabId \<notin> set removed) (lv_panes r),
           lv_editorDrafts := AList.delete key (lv_editorDrafts r),
           lv_activeFileIdByWorktree := withoutKey (lv_activeFileIdByWorktree r) key,
           lv_activeBrowserTabIdByWorktree := withoutKey (lv_activeBrowserTabIdByWorktree r) key,
           lv_activeTabTypeByWorktree := withoutKey (lv_activeTabTypeByWorktree r) key,
           lv_activeTabIdByWorktree := withoutKey (lv_activeTabIdByWorktree r) key,
           lv_activeGroupIdByWorktree := withoutKey (lv_activeGroupIdByWorktree r) key,
           lv_lastVisitedAtByWorktreeId := filterRecord (lv_lastVisitedAtByWorktreeId r) (\<lambda>k _.
             let rawId = (if isWorktreeHostIdentity k then getWorktreeIdFromHostIdentity k else k)
             in k \<noteq> key \<and> rawId \<noteq> key),
           lv_activeWorkspaceKey := (if lv_activeWorkspaceKey r = Value key then Null else lv_activeWorkspaceKey r),
           lv_activeWorktreeId := (if lv_activeWorktreeId r = Some key then None else lv_activeWorktreeId r),
           lv_activeTabId := (case lv_activeTabId r of None \<Rightarrow> None
             | Some t \<Rightarrow> if t \<in> set removed then None else Some t)\<rparr>)"

section \<open>Pruning changes nothing a view shows\<close>

lemma heldOr_held [simp]: "heldOr ids (heldOr ids i None) fallback = heldOr ids i fallback"
  by (auto simp: heldOr_def)

lemma resolveGroupTab_prune:
  "resolveGroupTab order (map_option (pruneSelection order) selection) = resolveGroupTab order selection"
  by (cases selection) (simp_all add: resolveGroupTab_def pruneSelection_def recentOf_def Let_def
      orElse_def split: option.split)

lemma map_of_map_keyed: "map_of (map (\<lambda>(k, v). (k, f k v)) xs) key = map_option (f key) (map_of xs key)"
  by (induction xs) auto

lemma map_of_filter_key: "P k \<Longrightarrow> map_of (filter (\<lambda>(i, _). P i) xs) k = map_of xs k"
  by (induction xs) auto

lemma pruneGroup_other: "gr_id g \<noteq> i \<Longrightarrow> map_of (pruneGroup g byGroup) i = map_of byGroup i"
  by (simp add: pruneGroup_def update_conv' split: option.split)

lemma pruneGroup_same:
  "map_of (pruneGroup g byGroup) (gr_id g) = map_option (pruneSelection (gr_tabOrder g)) (map_of byGroup (gr_id g))"
  by (simp add: pruneGroup_def update_conv' split: option.split)

lemma pruneGroups_other: "i \<notin> gr_id ` set gs \<Longrightarrow> map_of (fold pruneGroup gs byGroup) i = map_of byGroup i"
  by (induction gs arbitrary: byGroup) (auto simp: pruneGroup_other)

lemma pruneGroups_in:
  assumes "distinct (map gr_id gs)" "g \<in> set gs"
  shows "map_of (fold pruneGroup gs byGroup) (gr_id g)
     = map_option (pruneSelection (gr_tabOrder g)) (map_of byGroup (gr_id g))"
  using assms
proof (induction gs arbitrary: byGroup)
  case (Cons h gs)
  show ?case
  proof (cases "g = h")
    case True
    with Cons.prems have "gr_id h \<notin> gr_id ` set gs" by simp
    with True show ?thesis by (simp add: pruneGroups_other pruneGroup_same)
  next
    case False
    with Cons have "map_of (fold pruneGroup gs (pruneGroup h byGroup)) (gr_id g)
        = map_option (pruneSelection (gr_tabOrder g)) (map_of (pruneGroup h byGroup) (gr_id g))" by simp
    moreover have "gr_id h \<noteq> gr_id g" using False Cons.prems by (auto simp: image_iff)
    ultimately show ?thesis by (simp add: pruneGroup_other)
  qed
qed simp

lemma selectionsIn_prune:
  assumes "map_of (md_workspaces m) key = Some ws"
  shows "selectionsIn (pruneViewRecord own r m) key
     = (if map_of (lv_groups r) key = None then []
        else fold pruneGroup (ws_groups ws) (filter (\<lambda>(i, _). i \<in> set (groupIds ws)) (selectionsIn r key)))"
proof -
  have "map_of (pruneGroups (md_workspaces m) (lv_groups r)) key
      = map_option (\<lambda>byGroup. fold pruneGroup (ws_groups ws) (filter (\<lambda>(i, _). i \<in> set (groupIds ws)) byGroup))
          (map_of (lv_groups r) key)"
    unfolding pruneGroups_def map_of_map_keyed keepHeldIds_def option.map_comp by (simp add: assms comp_def)
  then show ?thesis
    by (auto simp: selectionsIn_def pruneViewRecord_def Let_def orElse_def split: option.split)
qed

lemma selection_prune:
  assumes "map_of (md_workspaces m) key = Some ws" "distinct (groupIds ws)" "g \<in> set (ws_groups ws)"
  shows "map_of (selectionsIn (pruneViewRecord own r m) key) (gr_id g)
     = map_option (pruneSelection (gr_tabOrder g)) (map_of (selectionsIn r key) (gr_id g))"
proof (cases "map_of (lv_groups r) key")
  case None
  then show ?thesis by (simp add: selectionsIn_prune [OF assms(1)]) (simp add: selectionsIn_def)
next
  case (Some byGroup)
  have "gr_id g \<in> set (groupIds ws)" using assms(3) by simp
  with Some show ?thesis
    by (simp add: selectionsIn_prune [OF assms(1)] pruneGroups_in [OF assms(2,3)] map_of_filter_key)
qed

lemma map_of_prunePanes:
  "map_of (prunePanes workspaces panes) tabId = (case leafIdsByTab workspaces tabId of
     None \<Rightarrow> None
   | Some held \<Rightarrow> map_option (\<lambda>p. \<lparr>pz_activeLeafId = (case pz_activeLeafId p of
         None \<Rightarrow> None | Some l \<Rightarrow> if l \<in> set held then Some l else firstOf held),
       pz_expandedLeafId = heldOr held (pz_expandedLeafId p) None\<rparr>) (map_of panes tabId))"
  by (induction panes) (auto simp: prunePanes_def split: option.split)

lemma firstOf_in: "firstOf xs = Some x \<Longrightarrow> x \<in> set xs"
  by (cases xs) (auto simp: firstOf_def)

lemma resolvePanes_prune:
  assumes "leafIdsByTab workspaces (tb_entityId t) = Some (leafIdsOf t)"
  shows "resolvePanes (prunePanes workspaces panes) t = resolvePanes panes t"
proof (cases "map_of panes (tb_entityId t)")
  case (Some p)
  have "heldOr ids (case a of None \<Rightarrow> None | Some l \<Rightarrow> if l \<in> set ids then Some l else firstOf ids) (firstOf ids)
      = heldOr ids a (firstOf ids)" for ids a
    by (cases a; cases "firstOf ids") (auto simp: heldOr_def dest: firstOf_in)
  with Some assms show ?thesis by (simp add: resolvePanes_def Let_def map_of_prunePanes)
qed (simp add: resolvePanes_def Let_def map_of_prunePanes assms)

text \<open>Every terminal has its own tab.\<close>

definition terminalsOnce :: "workspaceLayoutModel \<Rightarrow> bool" where
  "terminalsOnce m \<longleftrightarrow> distinct (concat (map (terminalTabIds \<circ> snd) (md_workspaces m)))"

lemma leafIdsByTab_once:
  assumes "terminalsOnce m" "map_of (md_workspaces m) key = Some ws" "t \<in> set (terminalTabs ws)"
  shows "leafIdsByTab (md_workspaces m) (tb_entityId t) = Some (leafIdsOf t)"
proof -
  let ?es = "concat (map (\<lambda>(_, ws). map (\<lambda>t. (tb_entityId t, leafIdsOf t)) (terminalTabs ws)) (md_workspaces m))"
  have "map fst ?es = concat (map (terminalTabIds \<circ> snd) (md_workspaces m))"
    by (simp add: map_concat comp_def case_prod_unfold terminalTabIds_def)
  with assms(1) have "distinct (map fst (rev ?es))" by (simp add: terminalsOnce_def rev_map [symmetric])
  moreover have "(tb_entityId t, leafIdsOf t) \<in> set (rev ?es)"
    using map_of_SomeD [OF assms(2)] assms(3) by force
  ultimately show ?thesis unfolding leafIdsByTab_def by (simp only: map_of_eq_Some_iff)
qed

lemma lookup_clearMissingIds:
  "lookupOpt (clearMissingIds byWorkspace workspaces holds) key
     = map_option (\<lambda>i. case (i, map_of workspaces key) of
         (Some x, Some ws) \<Rightarrow> if holds ws x then i else None | _ \<Rightarrow> i) (lookupOpt byWorkspace key)"
  by (cases byWorkspace) (simp_all add: clearMissingIds_def map_of_map_keyed)

lemma cleared:
  assumes "map_of workspaces key = Some ws"
  shows "Option.bind (lookupOpt (clearMissingIds byWorkspace workspaces holds) key) id
     = (case Option.bind (lookupOpt byWorkspace key) id of None \<Rightarrow> None | Some x \<Rightarrow> if holds ws x then Some x else None)"
proof (cases "lookupOpt byWorkspace key")
  case (Some i)
  then show ?thesis by (cases i) (simp_all add: lookup_clearMissingIds assms)
qed (simp add: lookup_clearMissingIds)

lemma lookup_filterRecord:
  assumes "distinct (keysOf rc)"
  shows "lookupOpt (filterRecord rc keep) key
     = (case lookupOpt rc key of None \<Rightarrow> None | Some v \<Rightarrow> if keep key v then Some v else None)"
proof (cases rc)
  case (Some es)
  have "distinct (map fst es) \<Longrightarrow> map_of (filter (\<lambda>(k, v). keep k v) es) key
      = (case map_of es key of None \<Rightarrow> None | Some v \<Rightarrow> if keep key v then Some v else None)"
    by (induction es) (auto simp: map_of_eq_None_iff image_iff split: option.split)
  with Some assms show ?thesis by (simp add: filterRecord_def)
qed (simp add: filterRecord_def)

lemma resolve_prune:
  assumes wf: "wf_layout m" and once: "terminalsOnce m" and at: "workspaceAt m key = Some ws"
    and keyed: "distinct (keysOf (lv_activeGroupIdByWorktree r))"
  shows "resolveWorkspaceSelection own (pruneViewRecord own r m) key ws = resolveWorkspaceSelection own r key ws"
proof -
  let ?r = "pruneViewRecord own r m"
  have dist: "distinct (groupIds ws)" using wf_model_lookup [OF wf at] by (simp add: wf_workspace_def wf_groups_def)
  have groups: "map (\<lambda>g. (gr_id g, resolveGroupTab (gr_tabOrder g) (map_of (selectionsIn ?r key) (gr_id g)))) (ws_groups ws)
      = map (\<lambda>g. (gr_id g, resolveGroupTab (gr_tabOrder g) (map_of (selectionsIn r key) (gr_id g)))) (ws_groups ws)"
    by (simp add: selection_prune [OF at dist] resolveGroupTab_prune)
  have panes: "map (\<lambda>t. (tb_entityId t, resolvePanes (lv_panes ?r) t)) (terminalTabs ws)
      = map (\<lambda>t. (tb_entityId t, resolvePanes (lv_panes r) t)) (terminalTabs ws)"
    using leafIdsByTab_once [OF once at] by (simp add: pruneViewRecord_def Let_def resolvePanes_prune)
  have active: "heldOr ids (lookupOpt (lv_activeGroupIdByWorktree ?r) key) d
      = heldOr ids (lookupOpt (lv_activeGroupIdByWorktree r) key) d" if "set ids = set (groupIds ws)" for ids d
    using that lookup_filterRecord [OF keyed] at
    by (auto simp: pruneViewRecord_def Let_def heldOr_def truthy_def split: option.split)
  have keys: "set (map fst (fromEntries (map (\<lambda>g. (gr_id g, F g)) (ws_groups ws)))) = set (groupIds ws)"
    for F :: "layoutGroup \<Rightarrow> string option \<times> string list"
    by (simp add: keys_fromEntries image_image)
  have r: "lv_activeFileIdByWorktree ?r = clearMissingIds (lv_activeFileIdByWorktree r) (md_workspaces m) (holdsEditorFileId own)"
    "lv_activeBrowserTabIdByWorktree ?r
       = clearMissingIds (lv_activeBrowserTabIdByWorktree r) (md_workspaces m) (holdsId browserTabIds)"
    by (simp_all add: pruneViewRecord_def Let_def)
  show ?thesis
    unfolding resolveWorkspaceSelection_def groups panes Let_def active [OF keys] r cleared [OF at]
    by (auto simp: holdsId_def browserTabIds_def list_ex_iff split: option.split)
qed

text \<open>The entry of an id in the record of a workspace.\<close>

definition entryIn :: "(string \<times> (string \<times> 'a) list) list \<Rightarrow> string \<Rightarrow> string \<Rightarrow> 'a option" where
  "entryIn byWorkspace key i = Option.bind (map_of byWorkspace key) (\<lambda>byId. map_of byId i)"

text \<open>
  A view refers only to what a workspace holds: its groups and their tabs, its terminals, files and
  browser tabs, the tabs it remembers a focus of, the files it keeps a draft of; and its pane
  selections are of terminals the layout has, and of their panes.
\<close>

definition refersOnlyTo :: "bool \<Rightarrow> layoutViewRecord \<Rightarrow> workspaceLayoutModel \<Rightarrow> string \<Rightarrow> workspaceLayout \<Rightarrow> bool" where
  "refersOnlyTo own r m key ws \<longleftrightarrow>
     (\<forall>i selection. map_of (selectionsIn r key) i = Some selection \<longrightarrow> (\<exists>g\<in>set (ws_groups ws). gr_id g = i
        \<and> set_option (gl_activeTabId selection) \<subseteq> set (gr_tabOrder g)
        \<and> set (orElse (gl_recentTabIds selection) []) \<subseteq> set (gr_tabOrder g)))
     \<and> set_option (lookupOpt (lv_activeGroupIdByWorktree r) key) \<subseteq> set (groupIds ws)
     \<and> set_option (Option.bind (lookupOpt (lv_activeTabIdByWorktree r) key) id) \<subseteq> set (terminalTabIds ws)
     \<and> set_option (Option.bind (lookupOpt (lv_activeFileIdByWorktree r) key) id) \<subseteq> Collect (holdsEditorFileId own ws)
     \<and> set_option (Option.bind (lookupOpt (lv_activeBrowserTabIdByWorktree r) key) id) \<subseteq> set (browserTabIds ws)
     \<and> (\<forall>i. entryIn (lv_lastFocusedAt r) key i \<noteq> None \<longrightarrow> i \<in> set (tabIds ws))
     \<and> (\<forall>i. entryIn (lv_editorDrafts r) key i \<noteq> None \<longrightarrow> i \<in> set (fileKeys own ws))
     \<and> (\<forall>i p. (i, p) \<in> set (lv_panes r) \<longrightarrow> (\<exists>k w t. workspaceAt m k = Some w \<and> t \<in> set (terminalTabs w)
          \<and> tb_entityId t = i \<and> set_option (pz_activeLeafId p) \<union> set_option (pz_expandedLeafId p) \<subseteq> set (leafIdsOf t)))"

lemma entryIn_keepHeldIds:
  assumes "map_of workspaces key = Some ws"
  shows "entryIn (keepHeldIds byWorkspace workspaces ids) key i
     = (if i \<in> set (ids ws) then entryIn byWorkspace key i else None)"
proof -
  have "map_of (filter (\<lambda>(j, _). j \<in> A) xs) i = (if i \<in> A then map_of xs i else None)" for A and xs :: "(string \<times> 'a) list"
    by (induction xs) auto
  then show ?thesis
    by (cases "map_of byWorkspace key") (simp_all add: entryIn_def keepHeldIds_def map_of_map_keyed assms)
qed

lemma leafIdsByTab_Some:
  assumes "distinct (map fst workspaces)" "leafIdsByTab workspaces i = Some held"
  obtains k w t where "map_of workspaces k = Some w" "t \<in> set (terminalTabs w)" "tb_entityId t = i" "leafIdsOf t = held"
proof -
  from map_of_SomeD [OF assms(2) [unfolded leafIdsByTab_def]] obtain k w t where
    "(k, w) \<in> set workspaces" "t \<in> set (terminalTabs w)" "tb_entityId t = i" "leafIdsOf t = held" by auto
  with assms(1) show thesis by (intro that) simp_all
qed

lemma prunePanes_held:
  assumes keys: "distinct (map fst workspaces)" and p: "(i, p) \<in> set (prunePanes workspaces panes)"
  shows "\<exists>k w t. map_of workspaces k = Some w \<and> t \<in> set (terminalTabs w) \<and> tb_entityId t = i
     \<and> set_option (pz_activeLeafId p) \<union> set_option (pz_expandedLeafId p) \<subseteq> set (leafIdsOf t)"
proof -
  let ?pruned = "\<lambda>held q. \<lparr>pz_activeLeafId = (case pz_activeLeafId q of None \<Rightarrow> None
        | Some l \<Rightarrow> if l \<in> set held then Some l else firstOf held),
      pz_expandedLeafId = heldOr held (pz_expandedLeafId q) None\<rparr>"
  from p obtain e where "e \<in> set panes" and e: "(i, p) \<in> set (case e of (j, q) \<Rightarrow> case leafIdsByTab workspaces j of
      None \<Rightarrow> [] | Some held \<Rightarrow> [(j, ?pruned held q)])"
    unfolding prunePanes_def set_concat set_map by blast
  obtain j q where "e = (j, q)" by force
  with e have "(i, p) \<in> set (case leafIdsByTab workspaces j of None \<Rightarrow> [] | Some held \<Rightarrow> [(j, ?pruned held q)])"
    by simp
  then obtain held where held: "leafIdsByTab workspaces i = Some held" and p: "p = ?pruned held q"
    by (cases "leafIdsByTab workspaces j") auto
  have "set_option (pz_activeLeafId p) \<union> set_option (pz_expandedLeafId p) \<subseteq> set held"
    by (auto simp: p heldOr_def truthy_def dest: firstOf_in split: option.splits if_splits)
  moreover obtain k w t where "map_of workspaces k = Some w" "t \<in> set (terminalTabs w)" "tb_entityId t = i" "leafIdsOf t = held"
    using leafIdsByTab_Some [OF keys held] .
  ultimately show ?thesis by blast
qed

text \<open>What is remembered of a tab and a file that are there stays.\<close>

lemma prune_keepsEntries:
  assumes "workspaceAt m key = Some ws"
  shows "entryIn (lv_lastFocusedAt (pruneViewRecord own r m)) key i
       = (if i \<in> set (tabIds ws) then entryIn (lv_lastFocusedAt r) key i else None)"
    and "entryIn (lv_editorDrafts (pruneViewRecord own r m)) key i
       = (if i \<in> set (fileKeys own ws) then entryIn (lv_editorDrafts r) key i else None)"
  by (simp_all add: pruneViewRecord_def Let_def entryIn_keepHeldIds [OF assms])

lemma prune_refersOnlyTo:
  assumes wf: "wf_layout m" and at: "workspaceAt m key = Some ws"
    and keyed: "distinct (keysOf (lv_activeGroupIdByWorktree r))"
  shows "refersOnlyTo own (pruneViewRecord own r m) m key ws"
proof -
  let ?r = "pruneViewRecord own r m"
  have dist: "distinct (groupIds ws)" using wf_model_lookup [OF wf at] by (simp add: wf_workspace_def wf_groups_def)
  have "\<exists>g\<in>set (ws_groups ws). gr_id g = i
      \<and> set_option (gl_activeTabId selection) \<subseteq> set (gr_tabOrder g)
      \<and> set (orElse (gl_recentTabIds selection) []) \<subseteq> set (gr_tabOrder g)"
    if sel: "map_of (selectionsIn ?r key) i = Some selection" for i selection
  proof -
    have "i \<in> gr_id ` set (ws_groups ws)"
    proof (rule ccontr)
      assume i: "i \<notin> gr_id ` set (ws_groups ws)"
      then have "map_of (filter (\<lambda>(j, _). j \<in> set (groupIds ws)) xs) i = None" for xs :: "(string \<times> groupSelection) list"
        by (auto simp: map_of_eq_None_iff)
      with sel i show False
        by (simp add: selectionsIn_prune [OF at] pruneGroups_other split: if_splits)
    qed
    then obtain g where g: "g \<in> set (ws_groups ws)" "gr_id g = i" by auto
    from sel selection_prune [OF at dist g(1), of own r] g(2) obtain before where
      "selection = pruneSelection (gr_tabOrder g) before"
      by (cases "map_of (selectionsIn r key) (gr_id g)") auto
    then have "set_option (gl_activeTabId selection) \<subseteq> set (gr_tabOrder g)
        \<and> set (orElse (gl_recentTabIds selection) []) \<subseteq> set (gr_tabOrder g)"
      by (auto simp: pruneSelection_def heldOr_def truthy_def orElse_def split: option.splits if_splits)
    with g show ?thesis by blast
  qed
  moreover have "set_option (lookupOpt (lv_activeGroupIdByWorktree ?r) key) \<subseteq> set (groupIds ws)"
    using lookup_filterRecord [OF keyed] at by (auto simp: pruneViewRecord_def Let_def split: option.splits if_splits)
  moreover have r: "lv_activeTabIdByWorktree ?r
        = clearMissingIds (lv_activeTabIdByWorktree r) (md_workspaces m) (holdsId terminalTabIds)"
    "lv_activeFileIdByWorktree ?r = clearMissingIds (lv_activeFileIdByWorktree r) (md_workspaces m) (holdsEditorFileId own)"
    "lv_activeBrowserTabIdByWorktree ?r
       = clearMissingIds (lv_activeBrowserTabIdByWorktree r) (md_workspaces m) (holdsId browserTabIds)"
    by (simp_all add: pruneViewRecord_def Let_def)
  moreover have "\<exists>k w t. workspaceAt m k = Some w \<and> t \<in> set (terminalTabs w) \<and> tb_entityId t = i
      \<and> set_option (pz_activeLeafId p) \<union> set_option (pz_expandedLeafId p) \<subseteq> set (leafIdsOf t)"
    if "(i, p) \<in> set (lv_panes ?r)" for i p
    using wf that by (intro prunePanes_held [where panes = "lv_panes r"])
      (simp_all add: wf_model_def pruneViewRecord_def Let_def)
  moreover have "entryIn (lv_lastFocusedAt ?r) key i \<noteq> None \<Longrightarrow> i \<in> set (tabIds ws)"
    "entryIn (lv_editorDrafts ?r) key i \<noteq> None \<Longrightarrow> i \<in> set (fileKeys own ws)" for i
    by (simp_all add: prune_keepsEntries [OF at] split: if_splits)
  moreover have "set_option (Option.bind (lookupOpt (lv_activeTabIdByWorktree ?r) key) id) \<subseteq> set (terminalTabIds ws)"
    "set_option (Option.bind (lookupOpt (lv_activeFileIdByWorktree ?r) key) id) \<subseteq> Collect (holdsEditorFileId own ws)"
    "set_option (Option.bind (lookupOpt (lv_activeBrowserTabIdByWorktree ?r) key) id) \<subseteq> set (browserTabIds ws)"
    unfolding r cleared [OF at] by (auto simp: holdsId_def split: option.splits)
  ultimately show ?thesis unfolding refersOnlyTo_def by blast
qed

end
