(* ===== verification/View_Closes.thy ===== *)
theory View_Closes
  imports Layout_Views
begin

text \<open>
  What a view selects when tabs and groups it shows are closed:
  \<open>workspace-layout-view-tab-closes.ts\<close>, with \<open>pickNextActiveTabAfterClose\<close> of
  \<open>workspace-session-terminal-tab-close.ts\<close>.
\<close>

section \<open>The next tab\<close>

text \<open>\<open>indexOf\<close> and \<open>findIndex\<close> answer -1 when nothing is found.\<close>

definition indexOr :: "nat option \<Rightarrow> int" where
  "indexOr n = (case n of None \<Rightarrow> -1 | Some k \<Rightarrow> int k)"

definition pickNextActiveTabAfterClose ::
  "string list \<Rightarrow> string list option \<Rightarrow> string list \<Rightarrow> string list \<Rightarrow> string option" where
  "pickNextActiveTabAfterClose tabOrder recentTabIds closing remaining =
     (case List.find (\<lambda>i. i \<in> set remaining) (rev (orElse recentTabIds [])) of
        Some i \<Rightarrow> Some i
      | None \<Rightarrow>
          let closingIndex = indexOr (findIndex (\<lambda>i. i \<in> set closing) tabOrder)
          in orElseOpt (List.find (\<lambda>i. indexOr (indexOf i tabOrder) > closingIndex) remaining) (lastOf remaining))"

definition followedSelection :: "string list \<Rightarrow> string list \<Rightarrow> groupSelection \<Rightarrow> groupSelection" where
  "followedSelection was now selection =
     (let remaining = filter (\<lambda>i. i \<in> set now) was;
          closing = filter (\<lambda>i. i \<notin> set now) was
      in \<lparr>gl_activeTabId = orElseOpt
            (pickNextActiveTabAfterClose was (gl_recentTabIds selection) closing remaining) (firstOf now),
          gl_recentTabIds = map_option (filter (\<lambda>i. i \<in> set now)) (gl_recentTabIds selection)\<rparr>)"

definition groupAt :: "workspaceLayoutModel \<Rightarrow> string \<Rightarrow> string \<Rightarrow> layoutGroup option" where
  "groupAt m key groupId =
     Option.bind (workspaceAt m key) (\<lambda>ws. List.find (\<lambda>g. gr_id g = groupId) (ws_groups ws))"

text \<open>One selection; the loops go over the record's entries and update a copy.\<close>

definition followSelection ::
  "workspaceLayoutModel \<Rightarrow> workspaceLayoutModel \<Rightarrow> string \<Rightarrow> string \<times> groupSelection
     \<Rightarrow> (string \<times> (string \<times> groupSelection) list) list \<Rightarrow> (string \<times> (string \<times> groupSelection) list) list" where
  "followSelection before after key entry groups = (case entry of (groupId, selection) \<Rightarrow>
     (case (groupAt before key groupId, groupAt after key groupId) of
        (Some was, Some now) \<Rightarrow>
          if truthy (gl_activeTabId selection) \<and> the (gl_activeTabId selection) \<notin> set (gr_tabOrder now)
          then AList.update key
            (AList.update groupId (followedSelection (gr_tabOrder was) (gr_tabOrder now) selection)
              (orElse (map_of groups key) [])) groups
          else groups
      | _ \<Rightarrow> groups))"

definition followSelections ::
  "workspaceLayoutModel \<Rightarrow> workspaceLayoutModel \<Rightarrow> (string \<times> (string \<times> groupSelection) list) list
     \<Rightarrow> (string \<times> (string \<times> groupSelection) list) list" where
  "followSelections before after groups =
     fold (\<lambda>(key, byGroup). fold (followSelection before after key) byGroup) groups groups"

section \<open>The next group\<close>

text \<open>
  One group of the workspace as it was.  The state is the group tree still standing and the active
  groups.
\<close>

definition followGroup ::
  "string \<Rightarrow> layoutGroup list \<Rightarrow> layoutGroup \<Rightarrow> split_node option \<times> (string \<times> string) list option
     \<Rightarrow> split_node option \<times> (string \<times> string) list option" where
  "followGroup key now g acc = (case acc of (layout, activeGroups) \<Rightarrow>
     (case layout of
        None \<Rightarrow> acc
      | Some tree \<Rightarrow>
          if list_ex (\<lambda>candidate. gr_id candidate = gr_id g) now then acc
          else
            let sibling = findSiblingGroupId tree (gr_id g);
                current = lookupOpt activeGroups key;
                next' = orElseOpt sibling (orElseOpt (map_option gr_id (firstOf now)) current)
            in (removeGroupLayoutLeaf tree (gr_id g),
                if next' \<noteq> None \<and> next' \<noteq> current
                then Some (AList.update key (the next') (orElse activeGroups [])) else activeGroups)))"

definition followWorkspace ::
  "workspaceLayoutModel \<Rightarrow> string \<times> workspaceLayout \<Rightarrow> (string \<times> string) list option \<Rightarrow> (string \<times> string) list option" where
  "followWorkspace after entry activeGroups = (case entry of (key, was) \<Rightarrow>
     (let now = (case workspaceAt after key of None \<Rightarrow> [] | Some ws \<Rightarrow> ws_groups ws)
      in if now = [] then activeGroups
         else snd (fold (followGroup key now) (ws_groups was) (ws_groupLayout was, activeGroups))))"

definition followGroupClosesInView ::
  "layoutViewRecord \<Rightarrow> workspaceLayoutModel \<Rightarrow> workspaceLayoutModel \<Rightarrow> (string \<times> string) list option" where
  "followGroupClosesInView r before after =
     fold (followWorkspace after) (md_workspaces before) (lv_activeGroupIdByWorktree r)"

text \<open>A record that nothing changes is returned itself, which is the same value.\<close>

definition followTabClosesInView ::
  "layoutViewRecord \<Rightarrow> workspaceLayoutModel \<Rightarrow> workspaceLayoutModel \<Rightarrow> layoutViewRecord" where
  "followTabClosesInView r before after =
     r\<lparr>lv_groups := followSelections before after (lv_groups r),
       lv_activeGroupIdByWorktree := followGroupClosesInView r before after\<rparr>"

section \<open>A shown tab that was closed is followed by one that is there\<close>

lemma lastOf_in: "lastOf xs = Some x \<Longrightarrow> x \<in> set xs"
  using firstOf_in [of "rev xs" x] by (simp add: lastOf_def)

lemma firstOf_None [simp]: "firstOf xs = None \<longleftrightarrow> xs = []"
  by (cases xs) (simp_all add: firstOf_def)

lemma pick_remaining: "pickNextActiveTabAfterClose was recents closing remaining = Some t \<Longrightarrow> t \<in> set remaining"
  by (auto simp: pickNextActiveTabAfterClose_def Let_def orElseOpt_def dest: find_SomeD lastOf_in split: option.splits)

lemma followedSelection_shown:
  assumes "now \<noteq> []"
  shows "\<exists>t\<in>set now. gl_activeTabId (followedSelection was now selection) = Some t"
proof -
  obtain f where f: "firstOf now = Some f" using assms by (cases now) (simp_all add: firstOf_def)
  let ?p = "pickNextActiveTabAfterClose was (gl_recentTabIds selection)
      (filter (\<lambda>i. i \<notin> set now) was) (filter (\<lambda>i. i \<in> set now) was)"
  show ?thesis
  proof (cases ?p)
    case None
    with f firstOf_in [OF f] show ?thesis by (simp add: followedSelection_def Let_def)
  next
    case (Some t)
    from pick_remaining [OF this] Some show ?thesis by (simp add: followedSelection_def Let_def)
  qed
qed

text \<open>The most recent of the view's tabs that is left takes over.\<close>

lemma followedSelection_recent:
  assumes "gl_recentTabIds selection = Some (older @ t # newer)" "t \<in> set was" "t \<in> set now"
    and "\<forall>i\<in>set newer. i \<notin> set was \<or> i \<notin> set now"
  shows "gl_activeTabId (followedSelection was now selection) = Some t"
proof -
  have "List.find (\<lambda>i. i \<in> set (filter (\<lambda>i. i \<in> set now) was)) (rev newer @ t # rev older) = Some t"
    using assms(2-4) by (induction newer rule: rev_induct) auto
  then show ?thesis
    by (simp add: followedSelection_def pickNextActiveTabAfterClose_def assms(1) Let_def)
qed

text \<open>The loops change the selections of exactly the groups that lost the tab they showed.\<close>

definition followedIn ::
  "workspaceLayoutModel \<Rightarrow> workspaceLayoutModel \<Rightarrow> string \<Rightarrow> string \<Rightarrow> groupSelection \<Rightarrow> groupSelection" where
  "followedIn before after key groupId selection = (case (groupAt before key groupId, groupAt after key groupId) of
     (Some was, Some now) \<Rightarrow>
       if truthy (gl_activeTabId selection) \<and> the (gl_activeTabId selection) \<notin> set (gr_tabOrder now)
       then followedSelection (gr_tabOrder was) (gr_tabOrder now) selection else selection
   | _ \<Rightarrow> selection)"

definition selectionAt :: "(string \<times> (string \<times> groupSelection) list) list \<Rightarrow> string \<Rightarrow> string \<Rightarrow> groupSelection option" where
  "selectionAt groups key groupId = map_of (orElse (map_of groups key) []) groupId"

lemma selectionAt_followSelection:
  assumes "selectionAt groups key g = Some selection"
  shows "selectionAt (followSelection before after key (g, selection) groups) k i
     = (if k = key \<and> i = g then Some (followedIn before after key g selection) else selectionAt groups k i)"
  using assms by (auto simp: followSelection_def followedIn_def selectionAt_def update_conv' split: option.split)

lemma selectionAt_followGroupList:
  assumes "distinct (map fst byGroup)" "\<And>i s. (i, s) \<in> set byGroup \<Longrightarrow> selectionAt groups key i = Some s"
  shows "selectionAt (fold (followSelection before after key) byGroup groups) k i
     = (if k = key \<and> i \<in> fst ` set byGroup then map_option (followedIn before after key i) (map_of byGroup i)
        else selectionAt groups k i)"
  using assms
proof (induction byGroup arbitrary: groups)
  case (Cons e es)
  obtain g s where e: "e = (g, s)" by force
  have s: "selectionAt groups key g = Some s" using Cons.prems(2) e by simp
  note one = selectionAt_followSelection [OF s, of before after]
  have "selectionAt (followSelection before after key (g, s) groups) key j = Some t" if "(j, t) \<in> set es" for j t
    using that Cons.prems e by (force simp: one)
  from Cons.IH [OF _ this] Cons.prems(1) show ?case
    by (auto simp: e one)
qed simp

lemma selectionAt_followKeys:
  assumes "distinct (map fst gs)" "\<And>k b. (k, b) \<in> set gs \<Longrightarrow> distinct (map fst b)"
    and "\<And>k b j s. (k, b) \<in> set gs \<Longrightarrow> (j, s) \<in> set b \<Longrightarrow> selectionAt acc k j = Some s"
  shows "selectionAt (fold (\<lambda>(key, byGroup). fold (followSelection before after key) byGroup) gs acc) key i
     = (case map_of (orElse (map_of gs key) []) i of
          None \<Rightarrow> selectionAt acc key i | Some s \<Rightarrow> Some (followedIn before after key i s))"
  using assms
proof (induction gs arbitrary: acc)
  case (Cons e gs)
  obtain k b where e: "e = (k, b)" by force
  let ?acc = "fold (followSelection before after k) b acc"
  have b: "distinct (map fst b)" "\<And>j s. (j, s) \<in> set b \<Longrightarrow> selectionAt acc k j = Some s"
    using Cons.prems(2) [of k b] Cons.prems(3) [of k b] e by simp_all
  note one = selectionAt_followGroupList [OF b, of before after]
  have k: "map_of gs k = None" using Cons.prems(1) e by (simp add: map_of_eq_None_iff)
  have "selectionAt ?acc k' j = Some s" if kb: "(k', b') \<in> set gs" "(j, s) \<in> set b'" for k' b' j s
  proof -
    have "k' \<noteq> k" using Cons.prems(1) kb(1) e by force
    with Cons.prems(3) [of k' b' j s] kb show ?thesis by (simp add: one)
  qed
  with Cons.IH [of ?acc] Cons.prems(1,2) have "selectionAt (fold (\<lambda>(key, byGroup). fold (followSelection before after key) byGroup) gs ?acc) key i
      = (case map_of (orElse (map_of gs key) []) i of
          None \<Rightarrow> selectionAt ?acc key i | Some s \<Rightarrow> Some (followedIn before after key i s))" by force
  then have rest: "selectionAt (fold (\<lambda>(key, byGroup). fold (followSelection before after key) byGroup) (e # gs) acc) key i
      = (case map_of (orElse (map_of gs key) []) i of
          None \<Rightarrow> selectionAt ?acc key i | Some s \<Rightarrow> Some (followedIn before after key i s))" by (simp add: e)
  show ?case
  proof (cases "key = k")
    case True
    show ?thesis
    proof (cases "map_of b i")
      case None
      then have "i \<notin> fst ` set b" by (simp add: map_of_eq_None_iff)
      with None True show ?thesis unfolding rest by (simp add: one k e)
    next
      case (Some s)
      then have "i \<in> fst ` set b" by (metis map_of_eq_None_iff option.distinct(1))
      with Some True show ?thesis unfolding rest by (simp add: one k e)
    qed
  next
    case False
    then show ?thesis unfolding rest by (simp add: one e split: option.split)
  qed
qed simp

lemma selectionAt_followSelections:
  assumes "distinct (map fst groups)" "\<And>key byGroup. (key, byGroup) \<in> set groups \<Longrightarrow> distinct (map fst byGroup)"
  shows "selectionAt (followSelections before after groups) key i
     = map_option (followedIn before after key i) (selectionAt groups key i)"
proof -
  have "selectionAt groups k j = Some s" if "(k, b) \<in> set groups" "(j, s) \<in> set b" for k b j s
    using that assms by (simp add: selectionAt_def)
  from selectionAt_followKeys [OF assms this] show ?thesis
    by (simp add: followSelections_def split: option.split) (simp add: selectionAt_def)
qed

section \<open>The active group survives\<close>

lemma followGroup_present:
  "gr_id g \<in> gr_id ` set now \<Longrightarrow> followGroup key now g acc = acc"
  by (auto simp: followGroup_def list_ex_iff split: prod.split option.split)

lemma followGroup_gone:
  assumes "gr_id g \<notin> gr_id ` set now" "now \<noteq> []"
  obtains n where "followGroup key now g (Some t, active)
       = (removeGroupLayoutLeaf t (gr_id g), snd (followGroup key now g (Some t, active)))"
    and "lookupOpt (snd (followGroup key now g (Some t, active))) key = Some n"
    and "findSiblingGroupId t (gr_id g) = Some n \<or> n \<in> gr_id ` set now"
    and "\<And>k. k \<noteq> key \<Longrightarrow> lookupOpt (snd (followGroup key now g (Some t, active))) k = lookupOpt active k"
proof -
  obtain h where h: "firstOf now = Some h" using assms(2) by (cases now) (simp_all add: firstOf_def)
  define n where "n = orElse (findSiblingGroupId t (gr_id g)) (gr_id h)"
  have gone: "\<not> list_ex (\<lambda>candidate. gr_id candidate = gr_id g) now" using assms(1) by (auto simp: list_ex_iff image_iff)
  have n: "orElseOpt (findSiblingGroupId t (gr_id g)) (orElseOpt (map_option gr_id (firstOf now)) c) = Some n" for c
    by (cases "findSiblingGroupId t (gr_id g)") (simp_all add: n_def h)
  have step: "followGroup key now g (Some t, active) = (removeGroupLayoutLeaf t (gr_id g),
      if Some n \<noteq> lookupOpt active key then Some (AList.update key n (orElse active [])) else active)"
    by (simp add: followGroup_def gone n Let_def)
  show thesis
  proof (rule that)
    show "followGroup key now g (Some t, active)
       = (removeGroupLayoutLeaf t (gr_id g), snd (followGroup key now g (Some t, active)))" by (simp add: step)
    show "lookupOpt (snd (followGroup key now g (Some t, active))) key = Some n"
      by (simp add: step update_conv')
    show "findSiblingGroupId t (gr_id g) = Some n \<or> n \<in> gr_id ` set now"
      using firstOf_in [OF h] by (cases "findSiblingGroupId t (gr_id g)") (simp_all add: n_def)
    show "lookupOpt (snd (followGroup key now g (Some t, active))) k = lookupOpt active k" if "k \<noteq> key" for k
      using that unfolding step by (cases active) (simp_all add: update_conv')
  qed
qed

lemma followGroups:
  fixes key :: string and active :: "(string \<times> string) list option"
  assumes "distinct (optIds layout)" "set (optIds layout) = A \<union> gr_id ` set gs" "A \<subseteq> gr_id ` set now"
    and "A \<inter> gr_id ` set gs = {}" "distinct (map gr_id gs)" "now \<noteq> []"
  defines "result \<equiv> snd (fold (followGroup key now) gs (layout, active))"
  shows "gr_id ` set gs \<subseteq> gr_id ` set now \<Longrightarrow> result = active"
    and "\<not> gr_id ` set gs \<subseteq> gr_id ` set now \<Longrightarrow> \<exists>s\<in>gr_id ` set now. lookupOpt result key = Some s"
    and "k \<noteq> key \<Longrightarrow> lookupOpt result k = lookupOpt active k"
proof -
  have "(gr_id ` set gs \<subseteq> gr_id ` set now \<longrightarrow> result = active)
     \<and> (\<not> gr_id ` set gs \<subseteq> gr_id ` set now \<longrightarrow> (\<exists>s\<in>gr_id ` set now. lookupOpt result key = Some s))
     \<and> (k \<noteq> key \<longrightarrow> lookupOpt result k = lookupOpt active k)"
    using assms(1-6) unfolding result_def
  proof (induction gs arbitrary: A layout active)
    case (Cons g gs)
    show ?case
    proof (cases "gr_id g \<in> gr_id ` set now")
      case True
      from Cons.IH [of layout "insert (gr_id g) A" active] Cons.prems True
      show ?thesis by (simp add: followGroup_present)
    next
      case False
      from Cons.prems(2) obtain t where t: "layout = Some t" by (cases layout) auto
      with Cons.prems(1) have dist: "distinct (leafIds t)" by simp
      obtain n where n: "followGroup key now g (Some t, active)
           = (removeGroupLayoutLeaf t (gr_id g), snd (followGroup key now g (Some t, active)))"
        "lookupOpt (snd (followGroup key now g (Some t, active))) key = Some n"
        "findSiblingGroupId t (gr_id g) = Some n \<or> n \<in> gr_id ` set now"
        "\<And>k. k \<noteq> key \<Longrightarrow> lookupOpt (snd (followGroup key now g (Some t, active))) k = lookupOpt active k"
        using followGroup_gone [OF False Cons.prems(6), of key t active] by blast
      let ?active = "snd (followGroup key now g (Some t, active))"
      have ids: "optIds (removeGroupLayoutLeaf t (gr_id g)) = filter (\<lambda>j. j \<noteq> gr_id g) (leafIds t)"
        by (rule ids_removeGroupLayoutLeaf [OF dist])
      have rest: "set (filter (\<lambda>j. j \<noteq> gr_id g) (leafIds t)) = A \<union> gr_id ` set gs"
        using Cons.prems(2,4,5) t by (auto simp: image_iff)
      have fold: "fold (followGroup key now) (g # gs) (layout, active)
          = fold (followGroup key now) gs (removeGroupLayoutLeaf t (gr_id g), ?active)"
        using n(1) t by simp
      have IH: "(gr_id ` set gs \<subseteq> gr_id ` set now \<longrightarrow> snd (fold (followGroup key now) (g # gs) (layout, active)) = ?active)
        \<and> (\<not> gr_id ` set gs \<subseteq> gr_id ` set now \<longrightarrow>
             (\<exists>s\<in>gr_id ` set now. lookupOpt (snd (fold (followGroup key now) (g # gs) (layout, active))) key = Some s))
        \<and> (k \<noteq> key \<longrightarrow> lookupOpt (snd (fold (followGroup key now) (g # gs) (layout, active))) k = lookupOpt ?active k)"
        unfolding fold
        by (rule Cons.IH [of "removeGroupLayoutLeaf t (gr_id g)" A ?active])
          (use Cons.prems dist rest in \<open>simp_all add: ids\<close>)
      show ?thesis
      proof (cases "gr_id ` set gs \<subseteq> gr_id ` set now")
        case True
        have "n \<in> gr_id ` set now"
        proof (cases "findSiblingGroupId t (gr_id g) = Some n")
          case sib: True
          from findSiblingGroupId_Some [OF dist sib] have "n \<in> set (filter (\<lambda>j. j \<noteq> gr_id g) (leafIds t))" by simp
          then show ?thesis unfolding rest using True Cons.prems(3) by blast
        qed (use n(3) in blast)
        with IH True n(2,4) False show ?thesis by auto
      next
        case False
        with IH n(4) show ?thesis by auto
      qed
    qed
  qed simp
  then show "gr_id ` set gs \<subseteq> gr_id ` set now \<Longrightarrow> result = active"
    "\<not> gr_id ` set gs \<subseteq> gr_id ` set now \<Longrightarrow> \<exists>s\<in>gr_id ` set now. lookupOpt result key = Some s"
    "k \<noteq> key \<Longrightarrow> lookupOpt result k = lookupOpt active k" by blast+
qed

text \<open>The loop over the workspaces: each works on its own entry.\<close>

lemma wf_group_tree:
  assumes "wf_workspace E ws" "ws_groupLayout ws = Some t"
  shows "distinct (leafIds t)" "set (leafIds t) = gr_id ` set (ws_groups ws)" "distinct (groupIds ws)"
proof -
  from assms have m: "mset (leafIds t) = mset (groupIds ws)" and d: "distinct (groupIds ws)"
    by (auto simp: wf_workspace_def wf_tree_def wf_groups_def)
  from d show "distinct (groupIds ws)" .
  from m d show "distinct (leafIds t)" by (metis mset_eq_imp_distinct_iff)
  from mset_eq_setD [OF m] show "set (leafIds t) = gr_id ` set (ws_groups ws)" by simp
qed

lemma followWorkspace_other:
  assumes "wf_workspace E was" "k \<noteq> key"
  shows "lookupOpt (followWorkspace after (key, was) active) k = lookupOpt active k"
proof (cases "case workspaceAt after key of None \<Rightarrow> [] | Some ws \<Rightarrow> ws_groups ws")
  case (Cons g gs)
  show ?thesis
  proof (cases "ws_groupLayout was")
    case None
    have "fold (followGroup key now) hs (None, active) = (None, active)" for now hs
      by (induction hs) (simp_all add: followGroup_def)
    with None Cons show ?thesis by (simp add: followWorkspace_def Let_def)
  next
    case (Some t)
    from wf_group_tree [OF assms(1) this] Some have "distinct (optIds (ws_groupLayout was))"
      "set (optIds (ws_groupLayout was)) = {} \<union> gr_id ` set (ws_groups was)" "distinct (groupIds was)" by simp_all
    from followGroups(3) [where now = "g # gs" and active = active, OF this(1,2) _ _ this(3) _ assms(2)] Cons
    show ?thesis by (simp add: followWorkspace_def Let_def)
  qed
qed (simp add: followWorkspace_def)

lemma followWorkspace_own:
  assumes "wf_workspace E was" "ws_groupLayout was \<noteq> None" "workspaceAt after key = Some now" "ws_groups now \<noteq> []"
  shows "set (groupIds was) \<subseteq> set (groupIds now) \<Longrightarrow> followWorkspace after (key, was) active = active"
    and "\<not> set (groupIds was) \<subseteq> set (groupIds now) \<Longrightarrow>
      \<exists>s\<in>set (groupIds now). lookupOpt (followWorkspace after (key, was) active) key = Some s"
proof -
  from assms(2) obtain t where t: "ws_groupLayout was = Some t" by blast
  from wf_group_tree [OF assms(1) t] t have "distinct (optIds (ws_groupLayout was))"
    "set (optIds (ws_groupLayout was)) = {} \<union> gr_id ` set (ws_groups was)" "distinct (groupIds was)" by simp_all
  note f = followGroups [where key = key and active = active, OF this(1,2) _ _ this(3) assms(4)]
  show "set (groupIds was) \<subseteq> set (groupIds now) \<Longrightarrow> followWorkspace after (key, was) active = active"
    using f(1) assms(3,4) by (simp add: followWorkspace_def Let_def)
  show "\<not> set (groupIds was) \<subseteq> set (groupIds now) \<Longrightarrow>
      \<exists>s\<in>set (groupIds now). lookupOpt (followWorkspace after (key, was) active) key = Some s"
    using f(2) assms(3,4) by (simp add: followWorkspace_def Let_def)
qed

lemma followWorkspaces_at:
  assumes "distinct (map fst ws)" "list_all (\<lambda>(k, w). wf_workspace E w) ws" "map_of ws key = Some was"
  shows "\<exists>active'. lookupOpt active' key = lookupOpt active key
     \<and> lookupOpt (fold (followWorkspace after) ws active) key = lookupOpt (followWorkspace after (key, was) active') key"
  using assms
proof (induction ws arbitrary: active)
  case (Cons e ws)
  obtain k w where e: "e = (k, w)" by force
  have other: "lookupOpt (fold (followWorkspace after) us a) key = lookupOpt a key"
    if "key \<notin> fst ` set us" "list_all (\<lambda>(k, w). wf_workspace E w) us" for us a
    using that
  proof (induction us arbitrary: a)
    case (Cons u us)
    obtain k' w' where u: "u = (k', w')" by force
    with Cons.prems have "lookupOpt (followWorkspace after (k', w') a) key = lookupOpt a key"
      by (intro followWorkspace_other [of E]) auto
    with Cons.IH [of "followWorkspace after (k', w') a"] Cons.prems u show ?case by simp
  qed simp
  show ?case
  proof (cases "k = key")
    case True
    with Cons.prems(3) e have "w = was" by simp
    moreover have "key \<notin> fst ` set ws" using Cons.prems(1) e True by simp
    ultimately show ?thesis using other [of ws] Cons.prems(2) e True by (intro exI [of _ active]) auto
  next
    case False
    with Cons.IH [of "followWorkspace after (k, w) active"] Cons.prems e obtain a where
      a: "lookupOpt a key = lookupOpt (followWorkspace after (k, w) active) key"
      "lookupOpt (fold (followWorkspace after) ws (followWorkspace after (k, w) active)) key
         = lookupOpt (followWorkspace after (key, was) a) key" by auto
    have "wf_workspace E w" using Cons.prems(2) e by simp
    from followWorkspace_other [OF this, of key k after active] False a e show ?thesis by auto
  qed
qed simp

lemma followed_group_survives:
  assumes wf: "wf_layout before" and was: "workspaceAt before key = Some was" and now: "workspaceAt after key = Some now"
    and g: "g \<in> set (groupIds was)" "g \<notin> set (groupIds now)" and some: "ws_groups now \<noteq> []" and tree: "ws_groupLayout was \<noteq> None"
  shows "\<exists>s\<in>set (groupIds now). lookupOpt (lv_activeGroupIdByWorktree (followTabClosesInView r before after)) key = Some s"
proof -
  from wf have "distinct (map fst (md_workspaces before))" "list_all (\<lambda>(k, w). wf_workspace {} w) (md_workspaces before)"
    by (auto simp: wf_model_def list_all_iff)
  from followWorkspaces_at [where active = "lv_activeGroupIdByWorktree r" and after = after, OF this was] obtain a where
    "lookupOpt (followGroupClosesInView r before after) key = lookupOpt (followWorkspace after (key, was) a) key"
    by (auto simp: followGroupClosesInView_def)
  moreover have "wf_workspace {} was" using wf_model_lookup [OF wf was] by simp
  ultimately show ?thesis using followWorkspace_own(2) [OF _ tree now some, of "{}" a] g
    by (auto simp: followTabClosesInView_def)
qed

end
