(* ===== verification/View_Samples.thy ===== *)
theory View_Samples
  imports Layout_Samples View_Closes
begin

text \<open>Views of the sample host: one whose first group shows a given tab.\<close>

definition viewShowing :: "string \<Rightarrow> layoutViewRecord" where
  "viewShowing t = emptyLayoutViewRecord\<lparr>
     lv_groups := [(''repo::main'', [(''g1'', \<lparr>gl_activeTabId = Some t, gl_recentTabIds = Some [''t2'', ''t1'']\<rparr>)])],
     lv_activeGroupIdByWorktree := Some [(''repo::main'', ''g1'')]\<rparr>"

definition closing :: "string list \<Rightarrow> workspaceLayoutModel" where
  "closing tabs = withWorkspace sampleLayout ''repo::main'' (foldl removeTabFromWorkspace sampleMain tabs)"

lemma sample_terminalsOnce: "terminalsOnce sampleLayout" by code_simp

lemma viewShowing_keys:
  "distinct (keysOf (lv_activeGroupIdByWorktree (viewShowing t)))" "distinct (map fst (lv_groups (viewShowing t)))"
  "\<forall>(k, byGroup)\<in>set (lv_groups (viewShowing t)). distinct (map fst byGroup)"
  by (simp_all add: viewShowing_def emptyLayoutViewRecord_def)

lemma viewShowing_selection:
  "selectionAt (lv_groups (viewShowing t)) ''repo::main'' ''g1''
     = Some \<lparr>gl_activeTabId = Some t, gl_recentTabIds = Some [''t2'', ''t1'']\<rparr>"
  by (simp add: viewShowing_def selectionAt_def emptyLayoutViewRecord_def)

lemma closing_groups:
  "map gr_id (ws_groups (foldl removeTabFromWorkspace sampleMain [''t1'', ''t2''])) = [''g2'']"
  "groupAt (closing [''t1'']) ''repo::main'' ''g1'' = Some \<lparr>gr_id = ''g1'', gr_tabOrder = [''t2'']\<rparr>"
  "groupAt sampleLayout ''repo::main'' ''g1'' = Some \<lparr>gr_id = ''g1'', gr_tabOrder = [''t1'', ''t2'']\<rparr>"
  by code_simp+

lemma closing_left: "ws_groups (foldl removeTabFromWorkspace sampleMain [''t1'', ''t2'']) \<noteq> []"
  using closing_groups(1) by auto

end
