(* ===== verification/Stored_Session.thy ===== *)
theory Stored_Session
  imports Layout_Views Published_Layout Closed_Records Terminal_Owners Transitions
begin

text \<open>
  The session document of a partition, as the store keeps it for this and older builds
  (\<open>workspace-session-state-types.ts\<close>, \<open>terminal-tab-types.ts\<close>, \<open>tab-types.ts\<close>,
  \<open>browser-workspace-types.ts\<close>), and what the loader keeps beside the layout
  (\<open>workspace-layout-beside.ts\<close>, \<open>workspace-layout-load-types.ts\<close>).

  A stored file, browser tab and sleeping record extends the layout's record by the fields the
  layout does not hold.  Fields that the loader and the serializer only move (history, close
  intents, page state, recovery ledgers) are text; the fields of one owner that are only moved
  together are grouped in one record.
\<close>

section \<open>Terminal rows and tab-bar entries\<close>

record terminalRow =
  rw_id :: string
  rw_ptyId :: "string option"
  rw_worktreeId :: string
  rw_title :: string
  rw_defaultTitle :: "string option"
  rw_generatedTitle :: "string optnull"
  rw_aiVaultTitle :: "aiVaultTitle optnull"
  rw_quickCommandLabel :: "string optnull"
  rw_customTitle :: "string option"
  rw_color :: "string option"
  rw_isPinned :: "bool option"
  rw_viewMode :: "view_mode option"
  rw_sortOrder :: int
  rw_createdAt :: int
  rw_generation :: "int option"
  rw_shellOverride :: "string option"
  rw_forceHostRuntime :: "bool option"
  rw_startupCwd :: "string option"
  rw_launchAgent :: "string option"
  rw_agentLaunchPane :: "string option"
  rw_pendingActivationSpawn :: "string option"
  rw_restoredFromSession :: "unit option"
  rw_recovery :: "string option"

record tabEntry =
  te_id :: string
  te_entityId :: string
  te_groupId :: string
  te_worktreeId :: string
  te_executionHostId :: "string option"
  te_contentType :: tabContentType
  te_label :: string
  te_generatedLabel :: "string optnull"
  te_aiVaultTitle :: "aiVaultTitle optnull"
  te_quickCommandLabel :: "string optnull"
  te_customLabel :: "string option"
  te_color :: "string option"
  te_sortOrder :: int
  te_createdAt :: int
  te_isPreview :: "bool option"
  te_isPinned :: "bool option"
  te_agentSessionAgent :: "string option"
  te_viewMode :: "view_mode option"
  te_lastFocusedAt :: "int option"

record tabGroup =
  sg_id :: string
  sg_worktreeId :: string
  sg_activeTabId :: "string option"
  sg_tabOrder :: "string list"
  sg_recentTabIds :: "string list option"

text \<open>The pane layout of a terminal tab.\<close>

record layoutSnapshot =
  sl_root :: "split_node option"
  sl_activeLeafId :: "string option"
  sl_expandedLeafId :: "string option"
  sl_chatLeafId :: "string option"
  sl_ptyIdsByLeafId :: "(string \<times> string) list option"
  sl_buffersByLeafId :: "(string \<times> string) list option"
  sl_scrollbackRefsByLeafId :: "(string \<times> string) list option"
  sl_titlesByLeafId :: "(string \<times> string) list option"
  sl_lastGridsByLeafId :: "(string \<times> int \<times> int) list option"

section \<open>Files, browser tabs and pane records\<close>

record persistedOpenFile = layoutEditorFile +
  fl_worktreeId :: string
  fl_isPreview :: "bool option"
  fl_dirtyDraftContent :: "string option"
  fl_lastKnownDiskSignature :: "string option"

record browserTabLiveState =
  bl_activePageId :: "string optnull"
  bl_url :: string
  bl_title :: string
  bl_loading :: bool
  bl_faviconUrl :: "string option"
  bl_canGoBack :: bool
  bl_canGoForward :: bool
  bl_loadError :: "string option"
  bl_docLocation :: "string optnull"

record browserWorkspace = layoutBrowserTab +
  bw_worktreeId :: string
  bw_live :: browserTabLiveState

definition BLANK_BROWSER_TAB_STATE :: browserTabLiveState where
  "BLANK_BROWSER_TAB_STATE = \<lparr>bl_activePageId = Absent, bl_url = [], bl_title = [], bl_loading = False,
     bl_faviconUrl = None, bl_canGoBack = False, bl_canGoForward = False, bl_loadError = None,
     bl_docLocation = Absent\<rparr>"

record sleepingAgentSession = layoutSleepingRecord +
  sa_paneKey :: string
  sa_tabId :: "string option"
  sa_worktreeId :: string

record surfaceTombstone =
  sf_worktreeId :: string
  sf_parentTabId :: string
  sf_leafId :: string
  sf_ptyId :: string
  sf_incarnationId :: string
  sf_retiredAt :: int

section \<open>The session\<close>

record factFields =
  fc_localOnlyScrollbackByTabId :: "string option"
  fc_browserPagesByWorkspace :: "string option"

record carriedFields =
  ca_activeWorktreeIdsOnShutdown :: "string list option"
  ca_browserCloseIntents :: "string option"
  ca_terminalCloseIntents :: "string option"
  ca_browserUrlHistory :: "string option"
  ca_workspaceDocHistory :: "string option"
  ca_activeConnectionIdsAtShutdown :: "string list option"
  ca_remoteSessionIdsByTabId :: "(string \<times> string) list option"

record viewFields =
  vf_activeRepoId :: "string option"
  vf_activeWorkspaceKey :: "string optnull"
  vf_activeWorkspaceExecutionHostId :: "string optnull"
  vf_activeWorktreeId :: "string option"
  vf_activeTabId :: "string option"
  vf_activeFileIdByWorktree :: "(string \<times> string option) list option"
  vf_markdownFrontmatterVisible :: "(string \<times> bool) list option"
  vf_activeBrowserTabIdByWorktree :: "(string \<times> string option) list option"
  vf_activeTabTypeByWorktree :: "(string \<times> string) list option"
  vf_activeTabIdByWorktree :: "(string \<times> string option) list option"
  vf_activeGroupIdByWorktree :: "(string \<times> string) list option"
  vf_lastVisitedAtByWorktreeId :: "(string \<times> int) list option"

record sessionState =
  sx_view :: viewFields
  sx_facts :: factFields
  sx_carried :: carriedFields
  sx_tabsByWorktree :: "(string \<times> terminalRow list) list"
  sx_terminalLayoutsByTabId :: "(string \<times> layoutSnapshot) list"
  sx_unifiedTabs :: "(string \<times> tabEntry list) list option"
  sx_tabGroups :: "(string \<times> tabGroup list) list option"
  sx_tabGroupLayouts :: "(string \<times> split_node) list option"
  sx_openFilesByWorktree :: "(string \<times> persistedOpenFile list) list option"
  sx_browserTabsByWorktree :: "(string \<times> browserWorkspace list) list option"
  sx_clientHostedBrowserPages :: "(string \<times> string list) list option"
  sx_defaultTerminalTabsApplied :: "(string \<times> unit) list option"
  sx_sleepingAgentSessions :: "(string \<times> sleepingAgentSession) list option"
  sx_terminalPtyIncarnations :: "(string \<times> string) list option"
  sx_terminalTopologyRevision :: "(string \<times> int) list option"
  sx_terminalSurfaceTombstones :: "(string \<times> surfaceTombstone) list option"
  sx_closedTerminalTabTombstones :: "(string \<times> closedTerminalTabTombstone) list option"
  sx_closedTerminalPanes :: "(string \<times> closedTerminalPane) list option"

section \<open>What is kept beside the layout\<close>

record terminalRowFacts =
  rf_title :: string
  rf_generation :: "int option"

record paneScrollback =
  sb_buffer :: "string option"
  sb_scrollbackRef :: "string option"

record layoutContentFacts = factFields +
  fc_tabLabels :: "(string \<times> (string \<times> string) list) list"
  fc_terminalRows :: "(string \<times> terminalRowFacts) list"
  fc_scrollback :: "(string \<times> paneScrollback) list"
  fc_browserTabs :: "(string \<times> (string \<times> browserTabLiveState) list) list"

record carriedSessionFields = carriedFields +
  ca_unownedTerminalLayouts :: "(string \<times> layoutSnapshot) list"
  ca_unplacedSleepingRecords :: "(string \<times> sleepingAgentSession) list"
  ca_unplacedIncarnations :: "(string \<times> string) list"
  ca_unplacedClosedTabs :: "(string \<times> closedTerminalTabTombstone) list"

text \<open>
  What a loader is given beside the session: names for missing ids, the binding generations of live
  panes and the views of editor tabs that main holds in memory.
\<close>

record loadContext =
  lx_mintId :: "string \<Rightarrow> string"
  lx_mintLeafId :: "string \<Rightarrow> string"
  lx_ptyGenerationOf :: "string \<Rightarrow> int option"
  lx_editorViewsOf :: "(string \<Rightarrow> (string \<times> layoutEditorView) list option) option"

definition nameBasedLoadContext :: loadContext where
  "nameBasedLoadContext = \<lparr>lx_mintId = nameBasedUuid, lx_mintLeafId = nameBasedUuid,
     lx_ptyGenerationOf = (\<lambda>_. None), lx_editorViewsOf = None\<rparr>"

record loadedLayout =
  ld_layout :: workspaceLayoutModel
  ld_desktopView :: layoutViewRecord
  ld_facts :: layoutContentFacts
  ld_carried :: carriedSessionFields

section \<open>Dictionaries of dictionaries\<close>

text \<open>\<open>childRecord(record, key)[k] = v\<close>, and the same with \<open>??=\<close>.\<close>

definition childRecord :: "(string \<times> (string \<times> 'a) list) list \<Rightarrow> string \<Rightarrow> (string \<times> 'a) list" where
  "childRecord r key = orElse (map_of r key) []"

definition putChild ::
  "string \<Rightarrow> string \<Rightarrow> 'a \<Rightarrow> (string \<times> (string \<times> 'a) list) list \<Rightarrow> (string \<times> (string \<times> 'a) list) list" where
  "putChild key k v r = AList.update key (AList.update k v (childRecord r key)) r"

definition putChildOnce ::
  "string \<Rightarrow> string \<Rightarrow> 'a \<Rightarrow> (string \<times> (string \<times> 'a) list) list \<Rightarrow> (string \<times> (string \<times> 'a) list) list" where
  "putChildOnce key k v r = (if map_of (childRecord r key) k = None then putChild key k v r else r)"

definition childAt :: "(string \<times> (string \<times> 'a) list) list \<Rightarrow> string \<Rightarrow> string \<Rightarrow> 'a option" where
  "childAt r key k = Option.bind (map_of r key) (\<lambda>c. map_of c k)"

lemma childAt_putChild [simp]:
  "childAt (putChild key k v r) key' k' = (if key' = key \<and> k' = k then Some v else childAt r key' k')"
  by (cases "map_of r key") (auto simp: childAt_def putChild_def childRecord_def update_conv')

lemma childAt_putChildOnce:
  "childAt (putChildOnce key k v r) key' k'
     = (if key' = key \<and> k' = k then Some (orElse (childAt r key k) v) else childAt r key' k')"
proof (cases "map_of (childRecord r key) k")
  case (Some u)
  then have "childAt r key k = Some u"
    by (cases "map_of r key") (auto simp: childAt_def childRecord_def)
  with Some show ?thesis by (simp add: putChildOnce_def)
next
  case None
  then have "childAt r key k = None"
    by (cases "map_of r key") (auto simp: childAt_def childRecord_def)
  with None show ?thesis by (simp add: putChildOnce_def)
qed

end
