(* ===== verification/Load_Order.thy ===== *)
theory Load_Order
  imports Stored_Session "HOL-Library.Product_Lexorder"
begin

text \<open>
  The order of a loaded workspace's tabs: \<open>workspace-layout-load-order.ts\<close> and
  \<open>tab-group-owners.ts\<close>.  A stored tab order comes first, then the order fields of the tab bar and
  the terminal rows, then the time of creation.  A tab without an order field sorts last, as
  \<open>Number.POSITIVE_INFINITY\<close> does; the difference of two infinite orders is no number, which the
  comparison reads as equal.
\<close>

section \<open>Places in an order\<close>

datatype sortPlace = PlacedAt int | Unordered

instantiation sortPlace :: linorder
begin

fun less_eq_sortPlace :: "sortPlace \<Rightarrow> sortPlace \<Rightarrow> bool" where
  "less_eq_sortPlace (PlacedAt i) (PlacedAt j) \<longleftrightarrow> i \<le> j"
| "less_eq_sortPlace _ Unordered \<longleftrightarrow> True"
| "less_eq_sortPlace Unordered (PlacedAt _) \<longleftrightarrow> False"

definition less_sortPlace :: "sortPlace \<Rightarrow> sortPlace \<Rightarrow> bool" where
  "less_sortPlace a b \<longleftrightarrow> a \<le> b \<and> \<not> b \<le> a"

instance
proof
  fix a b c :: sortPlace
  show "a < b \<longleftrightarrow> a \<le> b \<and> \<not> b \<le> a" by (rule less_sortPlace_def)
  show "a \<le> a" by (cases a) simp_all
  show "a \<le> b \<Longrightarrow> b \<le> c \<Longrightarrow> a \<le> c" by (cases a; cases b; cases c) auto
  show "a \<le> b \<Longrightarrow> b \<le> a \<Longrightarrow> a = b" by (cases a; cases b) auto
  show "a \<le> b \<or> b \<le> a" by (cases a; cases b) auto
qed

end

record orderCandidate =
  oc_id :: string
  oc_groupId :: "string option"
  oc_tabBarSortOrder :: "int option"
  oc_rowSortOrder :: "int option"
  oc_createdAt :: int

definition unplacedKey :: "orderCandidate \<Rightarrow> sortPlace \<times> int" where
  "unplacedKey c =
     (case orElseOpt (oc_tabBarSortOrder c) (oc_rowSortOrder c) of
        None \<Rightarrow> Unordered | Some i \<Rightarrow> PlacedAt i, oc_createdAt c)"

section \<open>The group of each tab\<close>

definition ownTab ::
  "string list \<Rightarrow> string \<Rightarrow> (string \<times> string) list \<Rightarrow> string \<Rightarrow> (string \<times> string) list \<Rightarrow> (string \<times> string) list" where
  "ownTab known groupId aliases persistedTabId owners =
     (let tabId = orElse (map_of aliases persistedTabId) persistedTabId
      in if tabId \<in> set known \<and> map_of owners tabId = None then AList.update tabId groupId owners else owners)"

definition resolveTabGroupOwners ::
  "(string \<times> string option) list \<Rightarrow> tabGroup list \<Rightarrow> (string \<times> (string \<times> string) list) list \<Rightarrow> (string \<times> string) list" where
  "resolveTabGroupOwners tabs groups tabIdAliasesByGroup =
     (let persisted = map sg_id groups;
          named = fold (\<lambda>(i, groupId) owners. case groupId of
              None \<Rightarrow> owners
            | Some g \<Rightarrow> if g \<in> set persisted then AList.update i g owners else owners) tabs []
      in fold (\<lambda>g. fold (ownTab (map fst tabs) (sg_id g) (childRecord tabIdAliasesByGroup (sg_id g)))
           (sg_tabOrder g)) groups named)"

section \<open>The groups\<close>

definition placeStoredTab ::
  "(string \<times> string) list \<Rightarrow> string \<Rightarrow> string list \<times> string list \<Rightarrow> string \<Rightarrow> string list \<times> string list" where
  "placeStoredTab owners groupId = (\<lambda>(placed, order) tabId.
     if map_of owners tabId = Some groupId \<and> tabId \<notin> set placed
     then (placed @ [tabId], order @ [tabId]) else (placed, order))"

definition placeStoredGroup ::
  "(string \<times> string) list \<Rightarrow> string list \<times> layoutGroup list \<Rightarrow> tabGroup \<Rightarrow> string list \<times> layoutGroup list" where
  "placeStoredGroup owners = (\<lambda>(placed, groups) stored.
     if sg_id stored \<in> set (map gr_id groups) then (placed, groups)
     else
       let (placed', order) = foldl (placeStoredTab owners (sg_id stored)) (placed, []) (sg_tabOrder stored)
       in (placed', groups @ [\<lparr>gr_id = sg_id stored, gr_tabOrder = order\<rparr>]))"

definition placeUnplaced ::
  "(string \<Rightarrow> string) \<Rightarrow> string \<Rightarrow> layoutGroup list \<Rightarrow> orderCandidate \<Rightarrow> layoutGroup list" where
  "placeUnplaced mintId workspaceKey groups c =
     (case orElseOpt (List.find (\<lambda>g. Some (gr_id g) = oc_groupId c) groups) (firstOf groups) of
        None \<Rightarrow> groups @ [\<lparr>gr_id = mintId (rootGroupSeed workspaceKey), gr_tabOrder = [oc_id c]\<rparr>]
      | Some g \<Rightarrow> replaceBy gr_id (gr_id g) (g\<lparr>gr_tabOrder := gr_tabOrder g @ [oc_id c]\<rparr>) groups)"

definition resolveGroupOrder ::
  "tabGroup list \<Rightarrow> orderCandidate list \<Rightarrow> string \<Rightarrow> (string \<Rightarrow> string) \<Rightarrow> layoutGroup list" where
  "resolveGroupOrder storedGroups candidates workspaceKey mintId =
     (let owners = resolveTabGroupOwners (map (\<lambda>c. (oc_id c, oc_groupId c)) candidates) storedGroups [];
          (placed, groups) = foldl (placeStoredGroup owners) ([], []) storedGroups;
          unplaced = filter (\<lambda>c. oc_id c \<notin> set placed) candidates
      in filter (\<lambda>g. gr_tabOrder g \<noteq> [])
           (foldl (placeUnplaced mintId workspaceKey) groups (sort_key unplacedKey unplaced)))"

section \<open>Every tab is in one group, once\<close>

lemma keys_fold:
  assumes "\<And>x r. x \<in> set xs \<Longrightarrow> fst ` set (f x r) \<subseteq> fst ` set r \<union> K"
  shows "fst ` set (fold f xs r) \<subseteq> fst ` set r \<union> K"
  using assms
proof (induction xs arbitrary: r)
  case (Cons x xs)
  have "fst ` set (fold f xs (f x r)) \<subseteq> fst ` set (f x r) \<union> K" by (rule Cons.IH) (simp add: Cons.prems)
  moreover have "fst ` set (f x r) \<subseteq> fst ` set r \<union> K" by (rule Cons.prems) simp
  ultimately show ?case by auto
qed simp

lemma owners_known:
  "fst ` set (resolveTabGroupOwners tabs groups aliases) \<subseteq> fst ` set tabs"
proof -
  let ?known = "fst ` set tabs"
  let ?name = "\<lambda>(i, groupId) owners. case groupId of None \<Rightarrow> owners
      | Some g \<Rightarrow> if g \<in> set (map sg_id groups) then AList.update i g owners else owners"
  have "fst ` set (fold ?name tabs []) \<subseteq> fst ` set ([] :: (string \<times> string) list) \<union> ?known"
  proof (rule keys_fold)
    fix e :: "string \<times> string option" and r :: "(string \<times> string) list" assume e: "e \<in> set tabs"
    obtain i g where "e = (i, g)" by force
    moreover from this e have "i \<in> ?known" by (auto intro: rev_image_eqI)
    ultimately show "fst ` set (?name e r) \<subseteq> fst ` set r \<union> ?known" by (cases g) auto
  qed
  then have named: "fst ` set (fold ?name tabs []) \<subseteq> ?known" by simp
  have "fst ` set (fold (\<lambda>g. fold (ownTab (map fst tabs) (sg_id g) (childRecord aliases (sg_id g)))
      (sg_tabOrder g)) groups r) \<subseteq> fst ` set r \<union> ?known" for r
  proof (rule keys_fold, rule keys_fold)
    fix g t r
    show "fst ` set (ownTab (map fst tabs) (sg_id g) (childRecord aliases (sg_id g)) t r) \<subseteq> fst ` set r \<union> ?known"
      by (auto simp: ownTab_def Let_def)
  qed
  from this [of "fold ?name tabs []"] named show ?thesis
    unfolding resolveTabGroupOwners_def Let_def by blast
qed

lemma replaceBy_same: "distinct (map key xs) \<Longrightarrow> x \<in> set xs \<Longrightarrow> replaceBy key (key x) x xs = xs"
  by (induction xs) (auto simp: replaceBy_absent rev_image_eqI)

lemma placeStoredTabs:
  assumes "foldl (placeStoredTab owners g) (placed, order) ts = (placed', order')" "distinct placed"
  shows "\<exists>new. placed' = placed @ new \<and> order' = order @ new \<and> distinct placed'
     \<and> set new \<subseteq> set ts \<inter> {t. map_of owners t = Some g}"
  using assms
proof (induction ts arbitrary: placed order)
  case (Cons t ts)
  show ?case
  proof (cases "map_of owners t = Some g \<and> t \<notin> set placed")
    case True
    with Cons.prems Cons.IH [of "placed @ [t]" "order @ [t]"] show ?thesis
      by (fastforce simp: placeStoredTab_def)
  next
    case False
    with Cons.prems Cons.IH [of placed order] show ?thesis by (fastforce simp: placeStoredTab_def)
  qed
qed simp

lemma placeStoredGroups:
  assumes "foldl (placeStoredGroup owners) (placed, groups) stored = (placed', groups')"
    and "distinct placed" "concat (map gr_tabOrder groups) = placed" "distinct (map gr_id groups)"
    and "set placed \<subseteq> set (map fst owners)"
  shows "distinct placed' \<and> concat (map gr_tabOrder groups') = placed' \<and> distinct (map gr_id groups')
     \<and> set placed' \<subseteq> set (map fst owners)
     \<and> set (map gr_id groups') = set (map gr_id groups) \<union> set (map sg_id stored)"
  using assms
proof (induction stored arbitrary: placed groups)
  case (Cons s stored)
  show ?case
  proof (cases "sg_id s \<in> set (map gr_id groups)")
    case True
    with Cons.prems Cons.IH [of placed groups] show ?thesis by (auto simp: placeStoredGroup_def)
  next
    case False
    obtain p o' where p: "foldl (placeStoredTab owners (sg_id s)) (placed, []) (sg_tabOrder s) = (p, o')" by force
    from placeStoredTabs [OF p Cons.prems(2)] obtain new where new: "p = placed @ new" "o' = new" "distinct p"
      "set new \<subseteq> {t. map_of owners t = Some (sg_id s)}" by auto
    have "set new \<subseteq> set (map fst owners)"
    proof
      fix t assume "t \<in> set new"
      with new(4) have "(t, sg_id s) \<in> set owners" by (auto dest: map_of_SomeD)
      then show "t \<in> set (map fst owners)" by (auto intro: rev_image_eqI)
    qed
    with Cons.IH [of p "groups @ [\<lparr>gr_id = sg_id s, gr_tabOrder = o'\<rparr>]"] Cons.prems new False p show ?thesis
      by (auto simp: placeStoredGroup_def)
  qed
qed simp

lemma placeUnplaced_step:
  assumes "distinct (map gr_id groups)"
  shows "distinct (map gr_id (placeUnplaced mintId key groups c))"
    and "mset (concat (map gr_tabOrder (placeUnplaced mintId key groups c)))
      = add_mset (oc_id c) (mset (concat (map gr_tabOrder groups)))"
    and "groups \<noteq> [] \<Longrightarrow> set (map gr_id (placeUnplaced mintId key groups c)) = set (map gr_id groups)"
    and "placeUnplaced mintId key groups c \<noteq> []"
proof -
  let ?found = "orElseOpt (List.find (\<lambda>g. Some (gr_id g) = oc_groupId c) groups) (firstOf groups)"
  have "distinct (map gr_id (placeUnplaced mintId key groups c))
     \<and> mset (concat (map gr_tabOrder (placeUnplaced mintId key groups c)))
         = add_mset (oc_id c) (mset (concat (map gr_tabOrder groups)))
     \<and> (groups \<noteq> [] \<longrightarrow> set (map gr_id (placeUnplaced mintId key groups c)) = set (map gr_id groups))
     \<and> placeUnplaced mintId key groups c \<noteq> []"
  proof (cases ?found)
    case None
    then have "groups = []"
      by (cases groups; cases "List.find (\<lambda>g. Some (gr_id g) = oc_groupId c) groups") (auto simp: firstOf_def)
    with None show ?thesis by (simp add: placeUnplaced_def)
  next
    case (Some g)
    then have g: "g \<in> set groups"
    proof (cases "List.find (\<lambda>g. Some (gr_id g) = oc_groupId c) groups")
      case None
      with Some show ?thesis by (cases groups) (simp_all add: firstOf_def)
    next
      case (Some g')
      with \<open>?found = Some g\<close> find_SomeD(1) [OF Some] show ?thesis by simp
    qed
    let ?g = "g\<lparr>gr_tabOrder := gr_tabOrder g @ [oc_id c]\<rparr>"
    have ids: "map gr_id (replaceBy gr_id (gr_id g) ?g groups) = map gr_id groups" by simp
    have "mset (concat (map gr_tabOrder (replaceBy gr_id (gr_id g) ?g groups)))
      = mset (concat (map gr_tabOrder (filter (\<lambda>e. gr_id e \<noteq> gr_id g) groups))) + mset (gr_tabOrder ?g)"
      by (rule concat_map_replaceBy [OF assms g])
    moreover have "mset (concat (map gr_tabOrder groups))
      = mset (concat (map gr_tabOrder (filter (\<lambda>e. gr_id e \<noteq> gr_id g) groups))) + mset (gr_tabOrder g)"
      using concat_map_replaceBy [OF assms g, of gr_tabOrder g] replaceBy_same [OF assms g] by simp
    ultimately show ?thesis using Some g ids assms
      by (auto simp: placeUnplaced_def simp del: map_key_replaceBy) 
  qed
  then show "distinct (map gr_id (placeUnplaced mintId key groups c))"
    and "mset (concat (map gr_tabOrder (placeUnplaced mintId key groups c)))
      = add_mset (oc_id c) (mset (concat (map gr_tabOrder groups)))"
    and "groups \<noteq> [] \<Longrightarrow> set (map gr_id (placeUnplaced mintId key groups c)) = set (map gr_id groups)"
    and "placeUnplaced mintId key groups c \<noteq> []" by blast+
qed

lemma placeUnplaced_all:
  assumes "distinct (map gr_id groups)"
  shows "distinct (map gr_id (foldl (placeUnplaced mintId key) groups cs))
     \<and> mset (concat (map gr_tabOrder (foldl (placeUnplaced mintId key) groups cs)))
        = mset (concat (map gr_tabOrder groups)) + mset (map oc_id cs)
     \<and> (groups \<noteq> [] \<longrightarrow> set (map gr_id (foldl (placeUnplaced mintId key) groups cs)) = set (map gr_id groups))"
  using assms
proof (induction cs arbitrary: groups)
  case (Cons c cs)
  with Cons.IH [OF placeUnplaced_step(1) [OF Cons.prems, of mintId key c]]
    placeUnplaced_step(2-4) [OF Cons.prems, of mintId key c] show ?case by simp
qed simp

lemma concat_kept_orders:
  "concat (map gr_tabOrder (filter (\<lambda>g. gr_tabOrder g \<noteq> []) gs)) = concat (map gr_tabOrder gs)"
  by (induction gs) auto

lemma resolveGroupOrder_wf:
  assumes dist: "distinct (map oc_id candidates)"
  shows "wf_groups {} (map oc_id candidates) (resolveGroupOrder stored candidates key mintId)"
proof -
  let ?owners = "resolveTabGroupOwners (map (\<lambda>c. (oc_id c, oc_groupId c)) candidates) stored []"
  obtain placed groups where pg: "foldl (placeStoredGroup ?owners) ([], []) stored = (placed, groups)" by force
  from placeStoredGroups [OF pg] have p: "distinct placed" "concat (map gr_tabOrder groups) = placed"
    "distinct (map gr_id groups)" "set placed \<subseteq> fst ` set ?owners" by simp_all
  have known: "set placed \<subseteq> set (map oc_id candidates)"
    using p(4) owners_known [of "map (\<lambda>c. (oc_id c, oc_groupId c)) candidates" stored "[]"] by force
  let ?unplaced = "filter (\<lambda>c. oc_id c \<notin> set placed) candidates"
  let ?all = "foldl (placeUnplaced mintId key) groups (sort_key unplacedKey ?unplaced)"
  from placeUnplaced_all [OF p(3), of mintId key "sort_key unplacedKey ?unplaced"] p(2) have
    a: "distinct (map gr_id ?all)"
    "mset (concat (map gr_tabOrder ?all)) = mset placed + mset (map oc_id ?unplaced)"
    by (simp_all add: mset_map)
  have "mset (map oc_id candidates) = mset (filter (\<lambda>i. i \<in> set placed) (map oc_id candidates)) + mset (map oc_id ?unplaced)"
    by (induction candidates) auto
  moreover have "mset (filter (\<lambda>i. i \<in> set placed) (map oc_id candidates)) = mset placed"
    using p(1) known dist by (intro set_eq_iff_mset_eq_distinct [THEN iffD1]) auto
  ultimately have all: "mset (concat (map gr_tabOrder ?all)) = mset (map oc_id candidates)" using a(2) by simp
  let ?kept = "filter (\<lambda>g. gr_tabOrder g \<noteq> []) ?all"
  have same: "concat (map gr_tabOrder ?kept) = concat (map gr_tabOrder ?all)" by (rule concat_kept_orders)
  have "distinct (concat (map gr_tabOrder ?kept))" "set (concat (map gr_tabOrder ?kept)) = set (map oc_id candidates)"
    using all dist by (metis same mset_eq_imp_distinct_iff, metis same mset_eq_setD)
  moreover have "distinct (map gr_id ?kept)" using a(1) by (rule distinct_map_filter)
  ultimately show ?thesis using pg
    by (simp add: wf_groups_def resolveGroupOrder_def list_all_iff)
qed

text \<open>The groups of the result are stored ones, or the one root group.\<close>

lemma resolveGroupOrder_ids:
  "set (map gr_id (resolveGroupOrder stored candidates key mintId))
     \<subseteq> (if stored = [] then {mintId (rootGroupSeed key)} else set (map sg_id stored))"
proof -
  let ?owners = "resolveTabGroupOwners (map (\<lambda>c. (oc_id c, oc_groupId c)) candidates) stored []"
  obtain placed groups where pg: "foldl (placeStoredGroup ?owners) ([], []) stored = (placed, groups)" by force
  from placeStoredGroups [OF pg] have p: "distinct (map gr_id groups)" "set (map gr_id groups) = set (map sg_id stored)"
    by simp_all
  let ?all = "foldl (placeUnplaced mintId key) groups"
  have "set (map gr_id (?all cs)) \<subseteq> (if stored = [] then {mintId (rootGroupSeed key)} else set (map sg_id stored))" for cs
  proof (cases "stored = []")
    case False
    then have "groups \<noteq> []" using p(2) by auto
    with placeUnplaced_all [OF p(1), of mintId key cs] p(2) False show ?thesis by simp
  next
    case True
    then have g: "groups = []" using p(2) by simp
    show ?thesis
    proof (cases cs)
      case (Cons c cs')
      let ?g = "[\<lparr>gr_id = mintId (rootGroupSeed key), gr_tabOrder = [oc_id c]\<rparr>]"
      have "placeUnplaced mintId key [] c = ?g" by (simp add: placeUnplaced_def firstOf_def)
      with placeUnplaced_all [of ?g mintId key cs'] Cons g True show ?thesis by simp
    qed (simp add: g)
  qed
  with pg show ?thesis by (force simp: resolveGroupOrder_def)
qed

section \<open>Saved groups load as they are\<close>

definition savedGroups :: "tabGroup list \<Rightarrow> orderCandidate list \<Rightarrow> bool" where
  "savedGroups stored cs \<longleftrightarrow>
     distinct (map sg_id stored) \<and> distinct (concat (map sg_tabOrder stored))
     \<and> set (concat (map sg_tabOrder stored)) = set (map oc_id cs)
     \<and> (\<forall>s\<in>set stored. sg_tabOrder s \<noteq> [])
     \<and> (\<forall>c\<in>set cs. \<forall>g. oc_groupId c = Some g \<longrightarrow> (\<exists>s\<in>set stored. sg_id s = g \<and> oc_id c \<in> set (sg_tabOrder s)))"

lemma disjoint_orders:
  "distinct (concat (map f xs)) \<Longrightarrow> x \<in> set xs \<Longrightarrow> y \<in> set xs \<Longrightarrow> t \<in> set (f x) \<Longrightarrow> t \<in> set (f y) \<Longrightarrow> x = y"
  by (induction xs) auto

lemma saved_owner_unique:
  assumes "savedGroups stored cs" "s \<in> set stored" "s' \<in> set stored" "t \<in> set (sg_tabOrder s)" "t \<in> set (sg_tabOrder s')"
  shows "s = s'"
  using disjoint_orders [of sg_tabOrder stored s s' t] assms by (simp add: savedGroups_def)

definition ownersIn :: "tabGroup list \<Rightarrow> (string \<times> string) list \<Rightarrow> bool" where
  "ownersIn stored owners \<longleftrightarrow>
     (\<forall>t g. map_of owners t = Some g \<longrightarrow> (\<exists>s\<in>set stored. sg_id s = g \<and> t \<in> set (sg_tabOrder s)))"

lemma ownTab_owners:
  "ownersIn stored owners \<Longrightarrow> s \<in> set stored \<Longrightarrow> t \<in> set (sg_tabOrder s) \<Longrightarrow>
     ownersIn stored (ownTab known (sg_id s) [] t owners)"
  by (auto simp: ownersIn_def ownTab_def update_conv' Let_def)

lemma ownTabs_owners:
  "ownersIn stored owners \<Longrightarrow> s \<in> set stored \<Longrightarrow> set ts \<subseteq> set (sg_tabOrder s) \<Longrightarrow>
     ownersIn stored (fold (ownTab known (sg_id s) []) ts owners)"
  by (induction ts arbitrary: owners) (simp_all add: ownTab_owners)

lemma ownTabs_cover:
  "(t \<in> set ts \<and> t \<in> set known \<or> map_of owners t \<noteq> None) \<Longrightarrow>
     map_of (fold (ownTab known g []) ts owners) t \<noteq> None"
proof (induction ts arbitrary: owners)
  case (Cons u us)
  have "t \<in> set us \<and> t \<in> set known \<or> map_of (ownTab known g [] u owners) t \<noteq> None"
    using Cons.prems by (auto simp: ownTab_def update_conv' Let_def)
  then show ?case using Cons.IH by simp
qed simp

lemma saved_owners:
  assumes saved: "savedGroups stored cs" and s: "s \<in> set stored" "t \<in> set (sg_tabOrder s)"
  shows "map_of (resolveTabGroupOwners (map (\<lambda>c. (oc_id c, oc_groupId c)) cs) stored []) t = Some (sg_id s)"
proof -
  let ?tabs = "map (\<lambda>c. (oc_id c, oc_groupId c)) cs"
  let ?known = "map fst ?tabs"
  let ?name = "\<lambda>(i, groupId) owners. case groupId of None \<Rightarrow> owners
      | Some g \<Rightarrow> if g \<in> set (map sg_id stored) then AList.update i g owners else owners"
  let ?fill = "\<lambda>g. fold (ownTab ?known (sg_id g) []) (sg_tabOrder g)"
  have "ownersIn stored (fold ?name ?tabs [])"
  proof (rule fold_invariant [where Q = "\<lambda>e. e \<in> set ?tabs"])
    fix e r assume e: "e \<in> set ?tabs" and r: "ownersIn stored r"
    then obtain c where c: "c \<in> set cs" "e = (oc_id c, oc_groupId c)" by auto
    show "ownersIn stored (?name e r)"
    proof (cases "oc_groupId c")
      case (Some g)
      with saved c(1) have "\<exists>s\<in>set stored. sg_id s = g \<and> oc_id c \<in> set (sg_tabOrder s)"
        unfolding savedGroups_def by blast
      with r have "ownersIn stored (AList.update (oc_id c) g r)" by (auto simp: ownersIn_def update_conv')
      with r Some c(2) show ?thesis by simp
    qed (simp add: c(2) r)
  qed (simp_all add: ownersIn_def)
  then have "ownersIn stored (fold ?fill stored (fold ?name ?tabs []))"
    by (rule fold_invariant [where Q = "\<lambda>g. g \<in> set stored", rotated])
      (simp_all only: ownTabs_owners subset_refl)
  moreover have "t \<in> set ?known" using saved s by (fastforce simp: savedGroups_def)
  have "map_of (fold ?fill gs r) t \<noteq> None" if "s \<in> set gs \<or> map_of r t \<noteq> None" for gs r
    using that
  proof (induction gs arbitrary: r)
    case (Cons g gs)
    have "s \<in> set gs \<or> map_of (?fill g r) t \<noteq> None"
      using Cons.prems ownTabs_cover [of t "sg_tabOrder g" ?known r "sg_id g"] s(2) \<open>t \<in> set ?known\<close> by auto
    then show ?case using Cons.IH by simp
  qed simp
  with s(1) have "map_of (fold ?fill stored (fold ?name ?tabs [])) t \<noteq> None" by blast
  ultimately obtain s' where "s' \<in> set stored" "t \<in> set (sg_tabOrder s')"
    "map_of (fold ?fill stored (fold ?name ?tabs [])) t = Some (sg_id s')" unfolding ownersIn_def by blast
  moreover from this saved_owner_unique [OF saved s(1) _ s(2)] have "s' = s" by simp
  ultimately show ?thesis by (simp add: resolveTabGroupOwners_def Let_def childRecord_def)
qed

lemma placeStoredTabs_all:
  "(\<And>t. t \<in> set ts \<Longrightarrow> map_of owners t = Some g) \<Longrightarrow> distinct ts \<Longrightarrow> set ts \<inter> set placed = {} \<Longrightarrow>
     foldl (placeStoredTab owners g) (placed, order) ts = (placed @ ts, order @ ts)"
proof (induction ts arbitrary: placed order)
  case (Cons t ts)
  from Cons.IH [of "placed @ [t]" "order @ [t]"] Cons.prems show ?case by (auto simp: placeStoredTab_def)
qed simp

definition groupOfStored :: "tabGroup \<Rightarrow> layoutGroup" where
  "groupOfStored s = \<lparr>gr_id = sg_id s, gr_tabOrder = sg_tabOrder s\<rparr>"

lemma placeStoredGroups_all:
  assumes "\<And>s t. s \<in> set stored \<Longrightarrow> t \<in> set (sg_tabOrder s) \<Longrightarrow> map_of owners t = Some (sg_id s)"
    and "distinct (concat (map sg_tabOrder stored))" "distinct (map sg_id stored)"
    and "set (concat (map sg_tabOrder stored)) \<inter> set placed = {}" "set (map sg_id stored) \<inter> set (map gr_id groups) = {}"
  shows "foldl (placeStoredGroup owners) (placed, groups) stored
     = (placed @ concat (map sg_tabOrder stored), groups @ map groupOfStored stored)"
  using assms
proof (induction stored arbitrary: placed groups)
  case (Cons s stored)
  have "foldl (placeStoredTab owners (sg_id s)) (placed, []) (sg_tabOrder s) = (placed @ sg_tabOrder s, [] @ sg_tabOrder s)"
    using Cons.prems by (intro placeStoredTabs_all) auto
  moreover have "sg_id s \<notin> gr_id ` set groups" using Cons.prems(5) by auto
  ultimately have step: "placeStoredGroup owners (placed, groups) s = (placed @ sg_tabOrder s, groups @ [groupOfStored s])"
    by (simp add: placeStoredGroup_def groupOfStored_def)
  have "foldl (placeStoredGroup owners) (placed @ sg_tabOrder s, groups @ [groupOfStored s]) stored
     = ((placed @ sg_tabOrder s) @ concat (map sg_tabOrder stored), (groups @ [groupOfStored s]) @ map groupOfStored stored)"
    using Cons.prems by (intro Cons.IH) (auto simp: groupOfStored_def)
  with step show ?case by simp
qed simp

lemma resolveGroupOrder_saved:
  assumes saved: "savedGroups stored cs"
  shows "resolveGroupOrder stored cs key mintId = map groupOfStored stored"
proof -
  let ?owners = "resolveTabGroupOwners (map (\<lambda>c. (oc_id c, oc_groupId c)) cs) stored []"
  have "foldl (placeStoredGroup ?owners) ([], []) stored
      = ([] @ concat (map sg_tabOrder stored), [] @ map groupOfStored stored)"
    using saved saved_owners [OF saved] by (intro placeStoredGroups_all) (auto simp: savedGroups_def)
  moreover have "filter (\<lambda>c. oc_id c \<notin> set (concat (map sg_tabOrder stored))) cs = []"
    using saved by (auto simp: savedGroups_def filter_empty_conv)
  moreover have "filter (\<lambda>g. gr_tabOrder g \<noteq> []) (map groupOfStored stored) = map groupOfStored stored"
    using saved by (auto simp: savedGroups_def groupOfStored_def)
  ultimately show ?thesis by (simp add: resolveGroupOrder_def del: set_concat)
qed

end
