(* ===== verification/Pty_Ownership.thy ===== *)
theory Pty_Ownership
  imports Stored_Session
begin

text \<open>
  One pane for each terminal of a stored pane layout: \<open>terminal-layout-pty-ownership.ts\<close> with
  \<open>pruneLeaves\<close> of \<open>terminal-pane-layout-tree.ts\<close>, and the pane titles that only repeat the name
  of their tab (\<open>terminal-pane-title-sanitization.ts\<close>).

  Of the panes that hold one terminal the active one stays, or else the first.  The walk from a
  removed pane to the one that stays is a loop in the code; its fuel here is the number of
  removed panes plus one, and the walk is shown to end before the fuel does.  The explicit stack
  of \<open>pruneLeaves\<close> visits a node's children left to right and then the node, as the recursion does.
\<close>

section \<open>Which pane stays\<close>

fun retainedWithin :: "nat \<Rightarrow> (string \<times> string) list \<Rightarrow> string \<Rightarrow> string" where
  "retainedWithin 0 retained leafId = leafId"
| "retainedWithin (Suc fuel) retained leafId =
     (case map_of retained leafId of
        None \<Rightarrow> leafId
      | Some next' \<Rightarrow> if next' = [] \<or> next' = leafId then leafId else retainedWithin fuel retained next')"

definition resolveRetainedLeafId :: "(string \<times> string) list \<Rightarrow> string \<Rightarrow> string" where
  "resolveRetainedLeafId retained leafId = retainedWithin (Suc (length retained)) retained leafId"

record retainedScan =
  rs_byPtyId :: "(string \<times> string) list"
  rs_byRemoved :: "(string \<times> string) list"

definition scanLeaf :: "(string \<times> string) list \<Rightarrow> string option \<Rightarrow> retainedScan \<Rightarrow> string \<Rightarrow> retainedScan" where
  "scanLeaf ptyIdsByLeafId activeLeafId s leafId =
     (case map_of ptyIdsByLeafId leafId of
        None \<Rightarrow> s
      | Some ptyId \<Rightarrow>
          if ptyId = [] then s
          else
            let retained = map_of (rs_byPtyId s) ptyId
            in if \<not> truthy retained then s\<lparr>rs_byPtyId := AList.update ptyId leafId (rs_byPtyId s)\<rparr>
               else if Some leafId = activeLeafId
               then s\<lparr>rs_byRemoved := AList.update (the retained) leafId (rs_byRemoved s),
                      rs_byPtyId := AList.update ptyId leafId (rs_byPtyId s)\<rparr>
               else s\<lparr>rs_byRemoved := AList.update leafId (the retained) (rs_byRemoved s)\<rparr>)"

definition orderedLeafIds :: "layoutSnapshot \<Rightarrow> string list" where
  "orderedLeafIds snapshot =
     (let rootLeafIds = optIds (sl_root snapshot)
      in rootLeafIds @ filter (\<lambda>l. l \<notin> set rootLeafIds) (keysOf (sl_ptyIdsByLeafId snapshot)))"

definition activeForOwnership :: "layoutSnapshot \<Rightarrow> string option" where
  "activeForOwnership snapshot =
     (if sl_root snapshot = None
         \<or> truthy (sl_activeLeafId snapshot) \<and> the (sl_activeLeafId snapshot) \<in> set (optIds (sl_root snapshot))
      then sl_activeLeafId snapshot else None)"

definition findDuplicatePtyLeafReplacements :: "layoutSnapshot \<Rightarrow> (string \<times> string) list" where
  "findDuplicatePtyLeafReplacements snapshot =
     rs_byRemoved (foldl (scanLeaf (orElse (sl_ptyIdsByLeafId snapshot) []) (activeForOwnership snapshot))
       \<lparr>rs_byPtyId = [], rs_byRemoved = []\<rparr> (orderedLeafIds snapshot))"

section \<open>Records of the panes\<close>

definition nonEmptyRecord :: "(string \<times> 'a) list \<Rightarrow> (string \<times> 'a) list option" where
  "nonEmptyRecord r = (if r = [] then None else Some r)"

definition coalesceLeafRecord ::
  "(string \<times> string) list option \<Rightarrow> (string \<times> string) list \<Rightarrow> (string \<times> string) list option" where
  "coalesceLeafRecord source retainedBy =
     Option.bind source (\<lambda>entries.
       nonEmptyRecord (fold (\<lambda>(removed, value) r.
           if map_of retainedBy removed = None then r
           else
             let kept = resolveRetainedLeafId retainedBy removed
             in if map_of r kept = None then AList.update kept value r else r) entries
         (filter (\<lambda>(l, v). map_of retainedBy l = None \<or> map_of retainedBy l = Some l) entries)))"

text \<open>
  A pane's buffer and its scrollback reference come from one pane: the one that stays if it has
  either, else the first of its duplicates in order that has.
\<close>

definition hasLeafRecordValue :: "(string \<times> string) list option \<Rightarrow> string \<Rightarrow> bool" where
  "hasLeafRecordValue source leafId \<longleftrightarrow> lookupOpt source leafId \<noteq> None"

definition scrollbackSources ::
  "(string \<times> string) list option \<Rightarrow> (string \<times> string) list option \<Rightarrow> (string \<times> string) list \<Rightarrow> string list
     \<Rightarrow> (string \<times> string) list" where
  "scrollbackSources buffers refs retainedBy ordered =
     (let affected = uniq (map (\<lambda>(l, _). resolveRetainedLeafId retainedBy l) retainedBy);
          has = (\<lambda>l. hasLeafRecordValue buffers l \<or> hasLeafRecordValue refs l)
      in fold (\<lambda>leafId sources.
           let kept = resolveRetainedLeafId retainedBy leafId
           in if kept \<notin> set affected \<or> map_of sources kept \<noteq> None then sources
              else if has leafId then AList.update kept leafId sources else sources) ordered
           (map (\<lambda>l. (l, l)) (filter has affected)))"

definition coalesceScrollback ::
  "(string \<times> string) list option \<Rightarrow> (string \<times> string) list \<Rightarrow> (string \<times> string) list \<Rightarrow> (string \<times> string) list option" where
  "coalesceScrollback source retainedBy sources =
     Option.bind source (\<lambda>entries.
       let affected = map (\<lambda>(l, _). resolveRetainedLeafId retainedBy l) retainedBy
       in nonEmptyRecord (fold (\<lambda>(kept, from) r.
            case map_of entries from of None \<Rightarrow> r | Some value \<Rightarrow> AList.update kept value r) sources
          (filter (\<lambda>(l, v). resolveRetainedLeafId retainedBy l \<notin> set affected) entries)))"

definition resolveOwnedActiveLeafId ::
  "string list \<Rightarrow> string option \<Rightarrow> (string \<times> string) list option \<Rightarrow> string option" where
  "resolveOwnedActiveLeafId rootLeafIds activeLeafId ptyIdsByLeafId =
     (let bound = (\<lambda>l. lookupOpt ptyIdsByLeafId l \<noteq> None)
      in if rootLeafIds = [] then
           (if truthy activeLeafId then activeLeafId
            else case keysOf ptyIdsByLeafId of [only] \<Rightarrow> Some only | _ \<Rightarrow> None)
         else if truthy activeLeafId \<and> the activeLeafId \<in> set rootLeafIds then activeLeafId
         else if list_ex bound rootLeafIds then List.find bound rootLeafIds
         else firstOf rootLeafIds)"

section \<open>Pruning the tree\<close>

primrec pruneLeaves ::
  "pane_node \<Rightarrow> (string \<times> string) list \<Rightarrow> string list \<Rightarrow> pane_node option \<times> string list" where
  "pruneLeaves (Leaf i) retainedBy selves =
     (case map_of retainedBy i of
        None \<Rightarrow> (Some (Leaf i), selves)
      | Some kept \<Rightarrow>
          if kept = [] then (Some (Leaf i), selves)
          else if kept = i \<and> i \<notin> set selves then (Some (Leaf i), selves @ [i])
          else (None, selves))"
| "pruneLeaves (Split d a b r) retainedBy selves =
     (let (first, selves1) = pruneLeaves a retainedBy selves;
          (second, selves2) = pruneLeaves b retainedBy selves1
      in (case (first, second) of
            (Some a', Some b') \<Rightarrow> Some (Split d a' b' r)
          | _ \<Rightarrow> orElseOpt first second, selves2))"

definition normalizeTerminalLayoutPtyOwnership :: "layoutSnapshot \<Rightarrow> layoutSnapshot" where
  "normalizeTerminalLayoutPtyOwnership snapshot =
     (let retainedBy = findDuplicatePtyLeafReplacements snapshot;
          ordered = orderedLeafIds snapshot
      in if retainedBy = [] then snapshot
         else
           let removed = map fst (filter (\<lambda>(l, kept). l \<noteq> kept) retainedBy);
               rootNode = Option.bind (sl_root snapshot) (\<lambda>n. fst (pruneLeaves n retainedBy []));
               mappedActive = (if truthy (sl_activeLeafId snapshot)
                 then map_option (resolveRetainedLeafId retainedBy) (sl_activeLeafId snapshot)
                 else sl_activeLeafId snapshot);
               ptyIds = coalesceLeafRecord (sl_ptyIdsByLeafId snapshot) retainedBy;
               rootLeafIds = optIds rootNode;
               remappedChat = (if truthy (sl_chatLeafId snapshot)
                 then map_option (resolveRetainedLeafId retainedBy) (sl_chatLeafId snapshot) else None);
               sources = scrollbackSources (sl_buffersByLeafId snapshot) (sl_scrollbackRefsByLeafId snapshot)
                 retainedBy ordered
           in snapshot\<lparr>
                sl_root := rootNode,
                sl_activeLeafId := resolveOwnedActiveLeafId rootLeafIds mappedActive ptyIds,
                sl_expandedLeafId := (if truthy (sl_expandedLeafId snapshot)
                    \<and> the (sl_expandedLeafId snapshot) \<notin> set removed
                    \<and> the (sl_expandedLeafId snapshot) \<in> set rootLeafIds
                  then sl_expandedLeafId snapshot else None),
                sl_chatLeafId := (if truthy remappedChat \<and> the remappedChat \<in> set rootLeafIds
                  then remappedChat else None),
                sl_ptyIdsByLeafId := ptyIds,
                sl_buffersByLeafId := coalesceScrollback (sl_buffersByLeafId snapshot) retainedBy sources,
                sl_scrollbackRefsByLeafId := coalesceScrollback (sl_scrollbackRefsByLeafId snapshot) retainedBy sources,
                sl_titlesByLeafId := coalesceLeafRecord (sl_titlesByLeafId snapshot) retainedBy\<rparr>)"

section \<open>Titles that repeat the name of the tab\<close>

text \<open>The pattern \<open>^Terminal \d+$\<close> is that of \<open>terminalOrdinal\<close>.\<close>

definition normalizeTitle :: "string option \<Rightarrow> string option" where
  "normalizeTitle value = (case value of None \<Rightarrow> None | Some s \<Rightarrow> (if trim s = [] then None else Some (trim s)))"

definition isSyntheticSinglePaneTitleForLabels :: "string option \<Rightarrow> string option list \<Rightarrow> bool" where
  "isSyntheticSinglePaneTitleForLabels title labels =
     (case normalizeTitle title of
        None \<Rightarrow> True
      | Some normalized \<Rightarrow>
          terminalOrdinal normalized \<noteq> None \<or> Some normalized \<in> set (map normalizeTitle labels))"

definition sanitizeTerminalLayoutPaneTitlesForLabels :: "layoutSnapshot \<Rightarrow> string option list \<Rightarrow> layoutSnapshot" where
  "sanitizeTerminalLayoutPaneTitlesForLabels layout labels =
     (case sl_titlesByLeafId layout of
        None \<Rightarrow> layout
      | Some entries \<Rightarrow>
          let leaves = optIds (sl_root layout);
              isSinglePane = length leaves \<le> 1 \<and> length entries \<le> 1
                \<and> (leaves = [] \<or> entries = [] \<or> fst (hd entries) \<in> set leaves);
              kept = filter (\<lambda>(_, title). \<not> isSyntheticSinglePaneTitleForLabels (Some title) labels) entries
          in if \<not> isSinglePane \<or> length kept = length entries then layout
             else layout\<lparr>sl_titlesByLeafId := (if kept \<noteq> [] then Some kept else None)\<rparr>)"

definition sanitizeTerminalLayoutPaneTitles :: "layoutSnapshot \<Rightarrow> terminalRow \<Rightarrow> layoutSnapshot" where
  "sanitizeTerminalLayoutPaneTitles layout row = sanitizeTerminalLayoutPaneTitlesForLabels layout
     [Some (rw_title row), rw_defaultTitle row, valueOf (rw_quickCommandLabel row), rw_customTitle row]"

section \<open>Each terminal keeps one pane\<close>

text \<open>
  What the scan knows after some panes, \<open>owner\<close> being the pane that stays for a terminal and \<open>gone\<close>
  where a removed pane leads: the pane that stays is bound to the terminal and is not removed, every
  other pane of the terminal is removed, and a removed pane leads to the one that stays in one step,
  or in two if the active pane took over.
\<close>

definition ownerOk :: "(string \<rightharpoonup> string) \<Rightarrow> string list \<Rightarrow> (string \<rightharpoonup> string) \<Rightarrow> (string \<rightharpoonup> string) \<Rightarrow> bool" where
  "ownerOk bound seen owner gone \<longleftrightarrow>
     (\<forall>p l. owner p = Some l \<longrightarrow> l \<in> set seen \<and> bound l = Some p \<and> p \<noteq> [] \<and> gone l = None)
   \<and> (\<forall>l\<in>set seen. \<forall>p. bound l = Some p \<longrightarrow> p \<noteq> [] \<longrightarrow>
        (\<exists>kept. owner p = Some kept \<and> (l = kept \<or> gone l \<noteq> None)))"

definition walksTo ::
  "(string \<rightharpoonup> string) \<Rightarrow> string option \<Rightarrow> (string \<rightharpoonup> string) \<Rightarrow> (string \<rightharpoonup> string) \<Rightarrow> string \<Rightarrow> string \<Rightarrow> bool" where
  "walksTo bound active owner gone l y \<longleftrightarrow>
     (\<exists>p kept. bound l = Some p \<and> p \<noteq> [] \<and> owner p = Some kept
        \<and> (y = kept \<or> y \<noteq> kept \<and> bound y = Some p \<and> gone y = Some kept \<and> active = Some kept))"

definition goneOk ::
  "(string \<rightharpoonup> string) \<Rightarrow> string option \<Rightarrow> string list \<Rightarrow> (string \<rightharpoonup> string) \<Rightarrow> (string \<rightharpoonup> string) \<Rightarrow> bool" where
  "goneOk bound active seen owner gone \<longleftrightarrow>
     (\<forall>l y. gone l = Some y \<longrightarrow> l \<in> set seen \<and> walksTo bound active owner gone l y)"

lemma ownerOkD:
  "ownerOk bound seen owner gone \<Longrightarrow> owner p = Some l \<Longrightarrow>
     l \<in> set seen \<and> bound l = Some p \<and> p \<noteq> [] \<and> gone l = None"
  by (simp add: ownerOk_def)

lemma goneOkD:
  assumes "goneOk bound active seen owner gone" "gone l = Some y"
  obtains p kept where "l \<in> set seen" "bound l = Some p" "p \<noteq> []" "owner p = Some kept"
    "y = kept \<or> y \<noteq> kept \<and> bound y = Some p \<and> gone y = Some kept \<and> active = Some kept"
proof -
  from assms have "l \<in> set seen" "walksTo bound active owner gone l y" unfolding goneOk_def by simp_all
  with that show thesis unfolding walksTo_def by blast
qed

lemma scan_new:
  assumes "ownerOk bound seen owner gone" "goneOk bound active seen owner gone"
    and "l \<notin> set seen" "bound l = Some p" "p \<noteq> []" "owner p = None"
  shows "ownerOk bound (seen @ [l]) (owner(p \<mapsto> l)) gone" "goneOk bound active (seen @ [l]) (owner(p \<mapsto> l)) gone"
proof -
  have "gone l = None" using assms(2,3) unfolding goneOk_def by (cases "gone l") auto
  with assms show "ownerOk bound (seen @ [l]) (owner(p \<mapsto> l)) gone"
    unfolding ownerOk_def by auto
  have "walksTo bound active (owner(p \<mapsto> l)) gone m y" if "walksTo bound active owner gone m y" for m y
  proof -
    from that obtain q kept where "bound m = Some q" "q \<noteq> []" "owner q = Some kept"
      "y = kept \<or> y \<noteq> kept \<and> bound y = Some q \<and> gone y = Some kept \<and> active = Some kept"
      unfolding walksTo_def by blast
    moreover have "q \<noteq> p" using calculation(3) assms(6) by auto
    ultimately show ?thesis unfolding walksTo_def by auto
  qed
  with assms(2) show "goneOk bound active (seen @ [l]) (owner(p \<mapsto> l)) gone"
    unfolding goneOk_def by auto
qed

lemma scan_duplicate:
  assumes "ownerOk bound seen owner gone" "goneOk bound active seen owner gone"
    and "l \<notin> set seen" "bound l = Some p" "p \<noteq> []" "owner p = Some kept"
  shows "ownerOk bound (seen @ [l]) owner (gone(l \<mapsto> kept))"
    "goneOk bound active (seen @ [l]) owner (gone(l \<mapsto> kept))"
proof -
  have not: "owner q \<noteq> Some l" for q using assms(1,3) unfolding ownerOk_def by blast
  with assms(1,4-6) show "ownerOk bound (seen @ [l]) owner (gone(l \<mapsto> kept))"
    unfolding ownerOk_def by auto
  have "walksTo bound active owner (gone(l \<mapsto> kept)) m y" if "walksTo bound active owner gone m y" "gone m = Some y" for m y
  proof -
    from that obtain q k where "bound m = Some q" "q \<noteq> []" "owner q = Some k"
      "y = k \<or> y \<noteq> k \<and> bound y = Some q \<and> gone y = Some k \<and> active = Some k"
      unfolding walksTo_def by blast
    moreover have "gone l = None" using assms(2,3) unfolding goneOk_def by (cases "gone l") auto
    ultimately show ?thesis unfolding walksTo_def by auto
  qed
  moreover have "walksTo bound active owner (gone(l \<mapsto> kept)) l kept"
    using assms(4-6) by (auto simp: walksTo_def)
  ultimately show "goneOk bound active (seen @ [l]) owner (gone(l \<mapsto> kept))"
    using assms(2) unfolding goneOk_def by auto
qed

lemma scan_active:
  assumes "ownerOk bound seen owner gone" "goneOk bound (Some l) seen owner gone"
    and "l \<notin> set seen" "bound l = Some p" "p \<noteq> []" "owner p = Some kept"
  shows "ownerOk bound (seen @ [l]) (owner(p \<mapsto> l)) (gone(kept \<mapsto> l))"
    "goneOk bound (Some l) (seen @ [l]) (owner(p \<mapsto> l)) (gone(kept \<mapsto> l))"
proof -
  have k: "kept \<in> set seen" "bound kept = Some p" "gone kept = None"
    using assms(1,6) unfolding ownerOk_def by blast+
  have l: "gone l = None" using assms(2,3) unfolding goneOk_def by (cases "gone l") auto
  have other: "q = p" if "owner q = Some kept" for q using assms(1) that k(2) unfolding ownerOk_def by fastforce
  show "ownerOk bound (seen @ [l]) (owner(p \<mapsto> l)) (gone(kept \<mapsto> l))"
    unfolding ownerOk_def
  proof (intro conjI allI ballI impI, goal_cases)
    case (1 q m) then show ?case using assms(1,4) unfolding ownerOk_def by (auto split: if_splits)
  next
    case (2 q m) then show ?case using assms(1,4) unfolding ownerOk_def by (auto split: if_splits)
  next
    case (3 q m) then show ?case using assms(1,5) unfolding ownerOk_def by (auto split: if_splits)
  next
    case (4 q m) then show ?case using assms(1,3) k(1) l other unfolding ownerOk_def by (auto split: if_splits)
  next
    case (5 m q) then show ?case using assms(1,4,6) unfolding ownerOk_def
      by (cases "m = l"; cases "q = p") fastforce+
  qed
  have "walksTo bound (Some l) (owner(p \<mapsto> l)) (gone(kept \<mapsto> l)) m y"
    if m: "gone m = Some y" and lead: "walksTo bound (Some l) owner gone m y" for m y
  proof -
    from lead obtain q k where q: "bound m = Some q" "q \<noteq> []" "owner q = Some k"
      "y = k \<or> y \<noteq> k \<and> bound y = Some q \<and> gone y = Some k \<and> Some l = Some k"
      unfolding walksTo_def by blast
    have "k \<in> set seen" using assms(1) q(3) unfolding ownerOk_def by blast
    with q(4) assms(3) have "y = k" by auto
    with q assms(3,4,6) k(2) \<open>k \<in> set seen\<close> show ?thesis unfolding walksTo_def by (cases "q = p") auto
  qed
  moreover have "walksTo bound (Some l) (owner(p \<mapsto> l)) (gone(kept \<mapsto> l)) kept l"
    using k(2) assms(5) by (auto simp: walksTo_def)
  ultimately show "goneOk bound (Some l) (seen @ [l]) (owner(p \<mapsto> l)) (gone(kept \<mapsto> l))"
    using assms(2) k(1) unfolding goneOk_def by auto
qed

abbreviation scanMaps :: "(string \<times> string) list \<Rightarrow> string option \<Rightarrow> string list \<Rightarrow> retainedScan \<Rightarrow> bool" where
  "scanMaps ptys active seen s \<equiv> ownerOk (map_of ptys) seen (map_of (rs_byPtyId s)) (map_of (rs_byRemoved s))
     \<and> goneOk (map_of ptys) active seen (map_of (rs_byPtyId s)) (map_of (rs_byRemoved s))"

lemma scan_unbound:
  "ownerOk bound seen owner gone \<Longrightarrow> \<not> (\<exists>p. bound l = Some p \<and> p \<noteq> []) \<Longrightarrow> ownerOk bound (seen @ [l]) owner gone"
  "goneOk bound active seen owner gone \<Longrightarrow> goneOk bound active (seen @ [l]) owner gone"
  unfolding ownerOk_def goneOk_def by auto

lemma scanLeaf_ok:
  assumes ok: "scanMaps ptys active seen s" and l: "l \<notin> set seen" "[] \<notin> set seen"
  shows "scanMaps ptys active (seen @ [l]) (scanLeaf ptys active s l)"
proof -
  from ok have ok1: "ownerOk (map_of ptys) seen (map_of (rs_byPtyId s)) (map_of (rs_byRemoved s))"
    and ok2: "goneOk (map_of ptys) active seen (map_of (rs_byPtyId s)) (map_of (rs_byRemoved s))" by simp_all
  show ?thesis
proof (cases "\<exists>p. map_of ptys l = Some p \<and> p \<noteq> []")
  case False
  then have "scanLeaf ptys active s l = s" by (auto simp: scanLeaf_def split: option.split)
  with scan_unbound ok False show ?thesis by auto
next
  case True
  then obtain p where p: "map_of ptys l = Some p" "p \<noteq> []" by blast
  show ?thesis
  proof (cases "map_of (rs_byPtyId s) p")
    case None
    with p scan_new [OF ok1 ok2 l(1) p(1,2) None] show ?thesis by (simp add: scanLeaf_def update_conv')
  next
    case (Some kept)
    then have "kept \<noteq> []" using ok l(2) unfolding ownerOk_def by blast
    show ?thesis
    proof (cases "active = Some l")
      case True
      note ok2' = ok2 [unfolded True]
      from p Some True \<open>kept \<noteq> []\<close> scan_active [OF ok1 ok2' l(1) p(1,2) Some] show ?thesis
        by (simp add: scanLeaf_def update_conv')
    next
      case False
      with p Some \<open>kept \<noteq> []\<close> scan_duplicate [OF ok1 ok2 l(1) p(1,2) Some] show ?thesis
        by (auto simp: scanLeaf_def update_conv')
    qed
  qed
qed
qed

lemma scanLeaves_ok:
  assumes "scanMaps ptys active seen s" "distinct (seen @ ls)" "[] \<notin> set (seen @ ls)"
  shows "scanMaps ptys active (seen @ ls) (foldl (scanLeaf ptys active) s ls)"
  using assms
proof (induction ls arbitrary: s seen)
  case (Cons l ls)
  then have "scanMaps ptys active (seen @ [l]) (scanLeaf ptys active s l)" by (intro scanLeaf_ok) auto
  from Cons.IH [OF this] Cons.prems show ?case by simp
qed simp

text \<open>The end of the walk, which the fuel is enough for.\<close>

lemma retained_owner:
  assumes "goneOk bound active seen owner (map_of m)" "ownerOk bound seen owner (map_of m)"
    and "[] \<notin> set seen" "map_of m l = Some y" "bound l = Some p"
  shows "owner p \<noteq> None" "resolveRetainedLeafId m l = the (owner p)"
proof -
  from assms(1,4) have "walksTo bound active owner (map_of m) l y" by (auto simp: goneOk_def)
  with assms(5) obtain kept where k: "owner p = Some kept" "p \<noteq> []"
    "y = kept \<or> y \<noteq> kept \<and> bound y = Some p \<and> map_of m y = Some kept" by (auto simp: walksTo_def)
  then show "owner p \<noteq> None" by simp
  have stop: "map_of m kept = None" "kept \<noteq> []" using assms(2,3) k(1) unfolding ownerOk_def by blast+
  have "y \<in> set seen" using k(3) assms(1,2) k(1) unfolding goneOk_def ownerOk_def by metis
  with assms(3) have y: "y \<noteq> []" by blast
  have yl: "y \<noteq> l" using k(3) stop assms(4) by auto
  have len: "length m \<ge> 2" if "map_of m y = Some kept"
  proof -
    have "{(l, y), (y, kept)} \<subseteq> set m" using assms(4) that by (auto dest: map_of_SomeD)
    then have "card {(l, y), (y, kept)} \<le> length m" by (metis card_length card_mono finite_set le_trans)
    with yl show ?thesis by auto
  qed
  have "length m \<ge> 1" using assms(4) by (cases m) auto
  then obtain n where n: "length m = Suc n" by (cases "length m") auto
  show "resolveRetainedLeafId m l = the (owner p)"
  proof (cases "y = kept")
    case True
    with k(1) y yl stop assms(4) n show ?thesis by (simp add: resolveRetainedLeafId_def)
  next
    case False
    with k(3) have my: "map_of m y = Some kept" by simp
    with len n obtain n' where "n = Suc n'" by (cases n) auto
    with False k(1) y yl stop assms(4) n my show ?thesis by (simp add: resolveRetainedLeafId_def)
  qed
qed

text \<open>The whole scan of a pane layout.\<close>

definition plainIds :: "layoutSnapshot \<Rightarrow> bool" where
  "plainIds snapshot \<longleftrightarrow> distinct (optIds (sl_root snapshot)) \<and> distinct (keysOf (sl_ptyIdsByLeafId snapshot))
     \<and> [] \<notin> set (optIds (sl_root snapshot)) \<and> [] \<notin> set (keysOf (sl_ptyIdsByLeafId snapshot))"

lemma ordered_plain:
  assumes "plainIds snapshot"
  shows "distinct (orderedLeafIds snapshot)" "[] \<notin> set (orderedLeafIds snapshot)"
    "set (keysOf (sl_ptyIdsByLeafId snapshot)) \<subseteq> set (orderedLeafIds snapshot)"
  using assms by (auto simp: plainIds_def orderedLeafIds_def Let_def)

lemma replacements_ok:
  assumes "plainIds snapshot"
  obtains owner where
    "ownerOk (lookupOpt (sl_ptyIdsByLeafId snapshot)) (orderedLeafIds snapshot) owner
       (map_of (findDuplicatePtyLeafReplacements snapshot))"
    "goneOk (lookupOpt (sl_ptyIdsByLeafId snapshot)) (activeForOwnership snapshot) (orderedLeafIds snapshot) owner
       (map_of (findDuplicatePtyLeafReplacements snapshot))"
proof -
  let ?ptys = "orElse (sl_ptyIdsByLeafId snapshot) []"
  have start: "scanMaps ?ptys (activeForOwnership snapshot) [] \<lparr>rs_byPtyId = [], rs_byRemoved = []\<rparr>"
    by (simp add: ownerOk_def goneOk_def)
  have ptys: "lookupOpt (sl_ptyIdsByLeafId snapshot) = map_of ?ptys"
    by (cases "sl_ptyIdsByLeafId snapshot") (simp_all add: fun_eq_iff)
  from scanLeaves_ok [OF start, of "orderedLeafIds snapshot"] ordered_plain [OF assms]
  have "scanMaps ?ptys (activeForOwnership snapshot) (orderedLeafIds snapshot)
      (foldl (scanLeaf ?ptys (activeForOwnership snapshot)) \<lparr>rs_byPtyId = [], rs_byRemoved = []\<rparr> (orderedLeafIds snapshot))"
    by simp
  then have "ownerOk (map_of ?ptys) (orderedLeafIds snapshot) (map_of (rs_byPtyId (foldl (scanLeaf ?ptys (activeForOwnership snapshot))
        \<lparr>rs_byPtyId = [], rs_byRemoved = []\<rparr> (orderedLeafIds snapshot)))) (map_of (findDuplicatePtyLeafReplacements snapshot))
      \<and> goneOk (map_of ?ptys) (activeForOwnership snapshot) (orderedLeafIds snapshot)
        (map_of (rs_byPtyId (foldl (scanLeaf ?ptys (activeForOwnership snapshot))
        \<lparr>rs_byPtyId = [], rs_byRemoved = []\<rparr> (orderedLeafIds snapshot)))) (map_of (findDuplicatePtyLeafReplacements snapshot))"
    by (simp only: findDuplicatePtyLeafReplacements_def)
  with that show thesis unfolding ptys by blast
qed

lemma gone_not_self:
  assumes "ownerOk bound seen owner gone" "goneOk bound active seen owner gone" "gone l = Some y"
  shows "y \<noteq> l"
proof
  assume "y = l"
  from goneOkD [OF assms(2,3)] obtain p kept where k: "owner p = Some kept" "y = kept \<or> y \<noteq> kept \<and> gone y = Some kept"
    by blast
  moreover have "gone kept = None" using ownerOkD [OF assms(1) k(1)] by simp
  ultimately show False using assms(3) \<open>y = l\<close> by (cases "y = kept") simp_all
qed

lemma gone_bound:
  "goneOk bound active seen owner gone \<Longrightarrow> gone l = Some y \<Longrightarrow> \<exists>p. bound l = Some p \<and> p \<noteq> []"
  by (erule goneOkD) auto

lemma fold_same: "(\<And>x. x \<in> set xs \<Longrightarrow> f x r = r) \<Longrightarrow> fold f xs r = r"
  by (induction xs) auto

lemma coalesced_ptys:
  assumes plain: "plainIds snapshot"
  defines "R \<equiv> findDuplicatePtyLeafReplacements snapshot"
  shows "coalesceLeafRecord (sl_ptyIdsByLeafId snapshot) R
    = Option.bind (sl_ptyIdsByLeafId snapshot) (\<lambda>es. nonEmptyRecord (filter (\<lambda>(l, _). map_of R l = None) es))"
proof (cases "sl_ptyIdsByLeafId snapshot")
  case (Some es)
  obtain owner where ok: "ownerOk (map_of es) (orderedLeafIds snapshot) owner (map_of R)"
    "goneOk (map_of es) (activeForOwnership snapshot) (orderedLeafIds snapshot) owner (map_of R)"
    using replacements_ok [OF plain] Some unfolding R_def by (metis lookupOpt_simps(2) ext)
  let ?r = "filter (\<lambda>(l, v). map_of R l = None) es"
  have "filter (\<lambda>(l, v). map_of R l = None \<or> map_of R l = Some l) es = ?r"
    using gone_not_self [OF ok] by (intro filter_cong) auto
  moreover have "fold (\<lambda>(removed, value). \<lambda>r. if map_of R removed = None then r
      else let kept = resolveRetainedLeafId R removed
           in if map_of r kept = None then AList.update kept value r else r) es ?r = ?r"
  proof (rule fold_same)
    fix e :: "string \<times> string"
    obtain removed v where e: "e = (removed, v)" by force
    have "map_of ?r (resolveRetainedLeafId R removed) \<noteq> None" if y: "map_of R removed = Some y" for y
    proof -
      from gone_bound [OF ok(2) y] obtain p where p: "map_of es removed = Some p" by blast
      from retained_owner [OF ok(2,1) ordered_plain(2) [OF plain] y p] obtain kept where
        kept: "owner p = Some kept" "resolveRetainedLeafId R removed = kept" by auto
      from ownerOkD [OF ok(1) kept(1)] have "map_of es kept = Some p" "map_of R kept = None" by simp_all
      then have "(kept, p) \<in> set ?r" by (auto dest: map_of_SomeD)
      then have "kept \<in> fst ` set ?r" by (rule rev_image_eqI) simp
      with kept(2) show ?thesis by (simp add: map_of_eq_None_iff)
    qed
    then show "(case e of (removed, value) \<Rightarrow> \<lambda>r. if map_of R removed = None then r
      else let kept = resolveRetainedLeafId R removed
           in if map_of r kept = None then AList.update kept value r else r) ?r = ?r"
      by (auto simp: e Let_def)
  qed
  ultimately show ?thesis using Some by (simp add: coalesceLeafRecord_def)
qed (simp add: coalesceLeafRecord_def)

lemma lookup_filter_key: "map_of (filter (\<lambda>(l, _). P l) es) l = (if P l then map_of es l else None)"
  by (induction es) auto

lemma lookup_coalesced:
  assumes "plainIds snapshot"
  defines "R \<equiv> findDuplicatePtyLeafReplacements snapshot"
  shows "lookupOpt (coalesceLeafRecord (sl_ptyIdsByLeafId snapshot) R) l
    = (if map_of R l = None then lookupOpt (sl_ptyIdsByLeafId snapshot) l else None)"
proof (cases "sl_ptyIdsByLeafId snapshot")
  case (Some es)
  have "lookupOpt (nonEmptyRecord r) l = map_of r l" for r :: "(string \<times> string) list"
    by (simp add: nonEmptyRecord_def)
  with Some show ?thesis using coalesced_ptys [OF assms(1)] by (simp add: R_def lookup_filter_key)
qed (simp add: coalesceLeafRecord_def)

lemma ids_pruneLeaves:
  assumes "\<And>i y. i \<in> set (leafIds t) \<Longrightarrow> map_of R i = Some y \<Longrightarrow> y \<noteq> i \<and> y \<noteq> []"
  shows "optIds (fst (pruneLeaves t R selves)) = filter (\<lambda>i. map_of R i = None) (leafIds t)
     \<and> snd (pruneLeaves t R selves) = selves"
  using assms
proof (induction t arbitrary: selves)
  case (Leaf i)
  then show ?case by (cases "map_of R i") auto
next
  case (Split d a b r)
  obtain a' sa where a: "pruneLeaves a R selves = (a', sa)" by force
  obtain b' sb where b: "pruneLeaves b R sa = (b', sb)" by force
  from Split.IH(1) [of selves] Split.prems a have "optIds a' = filter (\<lambda>i. map_of R i = None) (leafIds a)" "sa = selves"
    by auto
  moreover from Split.IH(2) [of sa] Split.prems b have
    "optIds b' = filter (\<lambda>i. map_of R i = None) (leafIds b)" "sb = sa" by auto
  ultimately show ?case using a b by (cases a'; cases b') auto
qed

lemma normalized_ownership:
  assumes plain: "plainIds snapshot"
  defines "before \<equiv> lookupOpt (sl_ptyIdsByLeafId snapshot)"
  defines "after \<equiv> lookupOpt (sl_ptyIdsByLeafId (normalizeTerminalLayoutPtyOwnership snapshot))"
  shows "\<And>l p. after l = Some p \<Longrightarrow> before l = Some p"
    and "\<And>l p. before l = Some p \<Longrightarrow> p \<noteq> [] \<Longrightarrow> \<exists>!kept. after kept = Some p"
    and "optIds (sl_root (normalizeTerminalLayoutPtyOwnership snapshot))
      = filter (\<lambda>l. after l = before l) (optIds (sl_root snapshot))"
proof -
  let ?R = "findDuplicatePtyLeafReplacements snapshot"
  obtain owner where ok: "ownerOk before (orderedLeafIds snapshot) owner (map_of ?R)"
    "goneOk before (activeForOwnership snapshot) (orderedLeafIds snapshot) owner (map_of ?R)"
    using replacements_ok [OF plain] unfolding before_def by blast
  have after: "after l = (if map_of ?R l = None then before l else None)" for l
    using lookup_coalesced [OF plain, of l]
    by (cases "?R = []") (simp_all add: after_def before_def normalizeTerminalLayoutPtyOwnership_def Let_def)
  show "after l = Some p \<Longrightarrow> before l = Some p" for l p by (simp add: after split: if_splits)
  show "\<exists>!kept. after kept = Some p" if p: "before l = Some p" "p \<noteq> []" for l p
  proof -
    have held: "\<exists>kept. owner p = Some kept \<and> (m = kept \<or> map_of ?R m \<noteq> None)" if "before m = Some p" for m
    proof -
      have "m \<in> set (orderedLeafIds snapshot)" using ordered_plain(3) [OF plain] lookupOpt_SomeD that
        unfolding before_def by fastforce
      with ok(1) that p(2) show ?thesis unfolding ownerOk_def by blast
    qed
    from held [OF p(1)] obtain kept where kept: "owner p = Some kept" by blast
    then have "after kept = Some p" using ok(1) by (simp add: after ownerOk_def)
    moreover have "m = kept" if "after m = Some p" for m
      using held [of m] kept that by (auto simp: after split: if_splits)
    ultimately show ?thesis by blast
  qed
  have same: "after l = before l \<longleftrightarrow> map_of ?R l = None" for l
  proof (cases "map_of ?R l")
    case (Some y)
    from gone_bound [OF ok(2) Some] Some show ?thesis by (auto simp: after)
  qed (simp add: after)
  show "optIds (sl_root (normalizeTerminalLayoutPtyOwnership snapshot))
      = filter (\<lambda>l. after l = before l) (optIds (sl_root snapshot))"
  proof (cases "?R = []")
    case True
    then show ?thesis by (simp add: normalizeTerminalLayoutPtyOwnership_def same)
  next
    case False
    have "y \<noteq> i \<and> y \<noteq> []" if "map_of ?R i = Some y" for i y
    proof -
      from goneOkD [OF ok(2) that] obtain p kept where
        k: "owner p = Some kept" "y = kept \<or> map_of ?R y = Some kept" by blast
      then have "y \<in> set (orderedLeafIds snapshot)" using ownerOkD [OF ok(1) k(1)] goneOkD [OF ok(2)] by blast
      with ordered_plain(2) [OF plain] gone_not_self [OF ok that] show ?thesis by auto
    qed
    with ids_pruneLeaves [of _ ?R "[]"] False show ?thesis
      by (cases "sl_root snapshot") (simp_all add: normalizeTerminalLayoutPtyOwnership_def Let_def same)
  qed
qed

lemma normalized_same:
  assumes plain: "plainIds snapshot"
    and inj: "\<And>l m p. lookupOpt (sl_ptyIdsByLeafId snapshot) l = Some p \<Longrightarrow>
      lookupOpt (sl_ptyIdsByLeafId snapshot) m = Some p \<Longrightarrow> p \<noteq> [] \<Longrightarrow> l = m"
  shows "normalizeTerminalLayoutPtyOwnership snapshot = snapshot"
proof -
  let ?R = "findDuplicatePtyLeafReplacements snapshot"
  obtain owner where ok: "ownerOk (lookupOpt (sl_ptyIdsByLeafId snapshot)) (orderedLeafIds snapshot) owner (map_of ?R)"
    "goneOk (lookupOpt (sl_ptyIdsByLeafId snapshot)) (activeForOwnership snapshot) (orderedLeafIds snapshot) owner (map_of ?R)"
    by (rule replacements_ok [OF plain])
  have "map_of ?R l = None" for l
  proof (rule ccontr)
    assume "map_of ?R l \<noteq> None"
    then obtain y where y: "map_of ?R l = Some y" by blast
    from goneOkD [OF ok(2) y] obtain p kept where
      "lookupOpt (sl_ptyIdsByLeafId snapshot) l = Some p" "p \<noteq> []" "owner p = Some kept" by blast
    with ownerOkD [OF ok(1), of p kept] inj [of l p kept] y show False by auto
  qed
  then have "?R = []" by (metis list.set_intros(1) map_of_eq_None_iff neq_Nil_conv image_eqI)
  then show ?thesis by (simp add: normalizeTerminalLayoutPtyOwnership_def)
qed

end
