(* ===== verification/Row_Claims.thy ===== *)
theory Row_Claims
  imports Stored_Session
begin

text \<open>
  Which stored terminal row owns a terminal when several rows name it:
  \<open>legacy-terminal-row-claims.ts\<close>.  A workspace's terminals are stored twice, in the tab bar and
  in the rows of older builds; a row outside the tab bar whose every terminal a tab-bar row claims
  is a stale copy.
\<close>

definition isValidTerminalTabId :: "string \<Rightarrow> bool" where
  "isValidTerminalTabId v \<longleftrightarrow> v \<noteq> [] \<and> CHR '':'' \<notin> set v"

section \<open>The terminals of a row\<close>

record persistedPtyIds =
  pi_owned :: "string list"
  pi_claimable :: "string list"
  pi_mountedByPrimacy :: "string list"
  pi_orphaned :: "string list"

definition readPersistedTerminalPtyIds :: "sessionState \<Rightarrow> terminalRow \<Rightarrow> persistedPtyIds" where
  "readPersistedTerminalPtyIds session row =
     (let layout = map_of (sx_terminalLayoutsByTabId session) (rw_id row);
          rootNode = Option.bind layout sl_root;
          isMounted = (\<lambda>l. rootNode = None \<or> l \<in> set (optIds rootNode));
          bindings = filter (\<lambda>(_, p). p \<noteq> []) (orElse (Option.bind layout sl_ptyIdsByLeafId) []);
          mounted = map snd (filter (\<lambda>(l, _). isMounted l) bindings);
          unmounted = map snd (filter (\<lambda>(l, _). \<not> isMounted l) bindings);
          tabLevel = map the (filter truthy
            [rw_ptyId row, lookupOpt (ca_remoteSessionIdsByTabId (sx_carried session)) (rw_id row)]);
          owned = uniq (tabLevel @ mounted);
          activeLeafId = Option.bind layout sl_activeLeafId;
          provenLeafId = (case bindings of [(l, _)] \<Rightarrow> Some l | _ \<Rightarrow> activeLeafId);
          claimableLeaf = (if rootNode \<noteq> None then mounted
            else map snd (filter (\<lambda>(l, _). Some l = provenLeafId) bindings));
          activeLeafPtyId = (if truthy activeLeafId
            then lookupOpt (Option.bind layout sl_ptyIdsByLeafId) (the activeLeafId) else None);
          byPrimacy = (if truthy activeLeafPtyId \<and> the activeLeafPtyId \<in> set mounted
            then the activeLeafPtyId # filter (\<lambda>p. Some p \<noteq> activeLeafPtyId) mounted else mounted)
      in \<lparr>pi_owned = owned, pi_claimable = uniq (tabLevel @ claimableLeaf),
          pi_mountedByPrimacy = uniq byPrimacy,
          pi_orphaned = filter (\<lambda>p. p \<notin> set owned) (uniq unmounted)\<rparr>)"

section \<open>Canonical owners and claims\<close>

record canonicalPtyOwners =
  co_tabIds :: "string list"
  co_tabIdByPtyId :: "(string \<times> string) list"

definition readCanonicalPtyOwners :: "sessionState \<Rightarrow> string \<Rightarrow> terminalRow list \<Rightarrow> canonicalPtyOwners" where
  "readCanonicalPtyOwners session workspaceKey rows =
     (let tabIds = uniq (map te_entityId (filter (\<lambda>e. te_contentType e = KindTerminal)
            (orElse (lookupOpt (sx_unifiedTabs session) workspaceKey) [])))
      in \<lparr>co_tabIds = tabIds,
          co_tabIdByPtyId = fromEntries (concat (map (\<lambda>row.
            map (\<lambda>ptyId. (ptyId, rw_id row)) (pi_claimable (readPersistedTerminalPtyIds session row)))
            (filter (\<lambda>row. rw_id row \<in> set tabIds \<and> isValidTerminalTabId (rw_id row)) rows)))\<rparr>)"

datatype canonicalPtyClaim =
    Subsumed string
  | Retained "string list" "string option"

definition resolveCanonicalPtyClaim :: "sessionState \<Rightarrow> terminalRow \<Rightarrow> canonicalPtyOwners \<Rightarrow> canonicalPtyClaim" where
  "resolveCanonicalPtyClaim session row canonical =
     (if rw_id row \<in> set (co_tabIds canonical) then Retained [] None
      else
        let ids = readPersistedTerminalPtyIds session row;
            owner = map_of (co_tabIdByPtyId canonical);
            claimed = filter (\<lambda>p. owner p \<noteq> None) (pi_owned ids);
            canonicalTabId = Option.bind (firstOf claimed) owner;
            released = uniq (claimed @ filter (\<lambda>p. owner p \<noteq> None) (pi_orphaned ids))
        in if truthy canonicalTabId \<and> length claimed = length (pi_owned ids) then Subsumed (the canonicalTabId)
           else Retained released (if released \<noteq> []
             then List.find (\<lambda>p. p \<notin> set released) (pi_mountedByPrimacy ids) else None))"

section \<open>A subsumed row loses no terminal\<close>

lemma canonical_owner:
  assumes "map_of (co_tabIdByPtyId (readCanonicalPtyOwners session key rows)) p = Some t"
  shows "\<exists>row\<in>set rows. rw_id row = t \<and> t \<in> set (co_tabIds (readCanonicalPtyOwners session key rows))
    \<and> isValidTerminalTabId t \<and> p \<in> set (pi_claimable (readPersistedTerminalPtyIds session row))"
proof -
  let ?c = "readCanonicalPtyOwners session key rows"
  let ?es = "concat (map (\<lambda>row. map (\<lambda>ptyId. (ptyId, rw_id row)) (pi_claimable (readPersistedTerminalPtyIds session row)))
      (filter (\<lambda>row. rw_id row \<in> set (co_tabIds ?c) \<and> isValidTerminalTabId (rw_id row)) rows))"
  have "co_tabIdByPtyId ?c = fromEntries ?es" by (simp add: readCanonicalPtyOwners_def Let_def)
  with map_of_SomeD [OF assms] have "(p, t) \<in> set (fromEntries ?es)" by (simp only:)
  with set_fromEntries [of ?es] have "(p, t) \<in> set ?es" by (rule subsetD)
  then show ?thesis by auto
qed

lemma subsumed_claimed:
  assumes "resolveCanonicalPtyClaim session row (readCanonicalPtyOwners session key rows) = Subsumed t"
  shows "rw_id row \<notin> set (co_tabIds (readCanonicalPtyOwners session key rows))"
    and "\<forall>p\<in>set (pi_owned (readPersistedTerminalPtyIds session row)).
      \<exists>r\<in>set rows. rw_id r \<in> set (co_tabIds (readCanonicalPtyOwners session key rows))
        \<and> p \<in> set (pi_claimable (readPersistedTerminalPtyIds session r))"
    and "\<exists>r\<in>set rows. rw_id r = t" "pi_owned (readPersistedTerminalPtyIds session row) \<noteq> []"
proof -
  let ?c = "readCanonicalPtyOwners session key rows" and ?o = "pi_owned (readPersistedTerminalPtyIds session row)"
  let ?claimed = "filter (\<lambda>p. map_of (co_tabIdByPtyId ?c) p \<noteq> None) ?o"
  show no: "rw_id row \<notin> set (co_tabIds ?c)"
    using assms by (auto simp: resolveCanonicalPtyClaim_def split: if_splits)
  with assms have s: "truthy (Option.bind (firstOf ?claimed) (map_of (co_tabIdByPtyId ?c)))"
    "length ?claimed = length ?o" "t = the (Option.bind (firstOf ?claimed) (map_of (co_tabIdByPtyId ?c)))"
    by (simp_all add: resolveCanonicalPtyClaim_def Let_def split: if_splits)
  have all: "\<forall>p\<in>set ?o. map_of (co_tabIdByPtyId ?c) p \<noteq> None"
  proof (rule ccontr)
    assume "\<not> ?thesis"
    then obtain p where "p \<in> set ?o" "\<not> map_of (co_tabIdByPtyId ?c) p \<noteq> None" by blast
    then have "length ?claimed < length ?o" by (rule length_filter_less)
    with s(2) show False by (simp only: less_irrefl)
  qed
  then show "\<forall>p\<in>set ?o. \<exists>r\<in>set rows. rw_id r \<in> set (co_tabIds ?c)
        \<and> p \<in> set (pi_claimable (readPersistedTerminalPtyIds session r))"
    using canonical_owner [of session key rows] by blast
  from s(1,3) obtain p where "firstOf ?claimed = Some p" "map_of (co_tabIdByPtyId ?c) p = Some t"
    by (cases "firstOf ?claimed") (auto elim: truthyE)
  with canonical_owner [of session key rows p t] show "\<exists>r\<in>set rows. rw_id r = t" "?o \<noteq> []"
    by (auto simp: firstOf_def)
qed

end
