(* ===== verification/Load_Tabs.thy ===== *)
theory Load_Tabs
  imports Load_Order Pty_Ownership Row_Claims
begin

text \<open>
  Layout tabs from stored rows and tab-bar entries: \<open>workspace-layout-load-tabs.ts\<close>, with the filter
  of \<open>saved-editor-tab-restore.ts\<close>.  A key that joins two ids with a zero character is the pair.
\<close>

text \<open>\<open>...pickStoredFields(a, [field])\<close> over a field that may be null.\<close>

definition overOptnull :: "'a optnull \<Rightarrow> 'a optnull \<Rightarrow> 'a optnull" where
  "overOptnull a b = (case a of Absent \<Rightarrow> b | _ \<Rightarrow> a)"

lemma overOptnull_simps [simp]: "overOptnull Absent b = b" "overOptnull Null b = Null" "overOptnull (Value x) b = Value x"
  by (simp_all add: overOptnull_def)

lemma overOptnull_same [simp]: "overOptnull a a = a"
  by (cases a) simp_all

definition terminalCreationOf :: "terminalRow \<Rightarrow> terminalCreation" where
  "terminalCreationOf row = \<lparr>tc_defaultTitle = rw_defaultTitle row, tc_shellOverride = rw_shellOverride row,
     tc_forceHostRuntime = rw_forceHostRuntime row, tc_startupCwd = rw_startupCwd row,
     tc_launchAgent = rw_launchAgent row\<rparr>"

definition contentFields :: "tabEntry \<Rightarrow> tab_body \<Rightarrow> layoutTab" where
  "contentFields entry body = \<lparr>tb_id = te_id entry, tb_entityId = te_entityId entry,
     tb_createdAt = te_createdAt entry, tb_customTitle = te_customLabel entry,
     tb_generatedTitle = te_generatedLabel entry, tb_aiVaultTitle = te_aiVaultTitle entry,
     tb_quickCommandLabel = te_quickCommandLabel entry, tb_color = te_color entry,
     tb_isPinned = te_isPinned entry, tb_viewMode = te_viewMode entry, tb_isPreview = te_isPreview entry,
     tb_agentSessionAgent = te_agentSessionAgent entry, tb_body = body\<rparr>"

definition loadContentTab :: "tabEntry \<Rightarrow> content_kind \<Rightarrow> layoutTab" where
  "loadContentTab entry kind = contentFields entry (ContentBody kind)"

text \<open>Where both records name a field, the row wins.\<close>

definition loadTerminalTab :: "terminalRow \<Rightarrow> tabEntry option \<Rightarrow> terminalPanes \<Rightarrow> layoutTab" where
  "loadTerminalTab row entry panes =
     (let body = TerminalBody (terminalCreationOf row) panes;
          base = (case entry of
              Some e \<Rightarrow> contentFields e body
            | None \<Rightarrow> \<lparr>tb_id = rw_id row, tb_entityId = rw_id row, tb_createdAt = rw_createdAt row,
                tb_customTitle = None, tb_generatedTitle = Absent, tb_aiVaultTitle = Absent,
                tb_quickCommandLabel = Absent, tb_color = None, tb_isPinned = None, tb_viewMode = None,
                tb_isPreview = None, tb_agentSessionAgent = None, tb_body = body\<rparr>)
      in base\<lparr>
           tb_aiVaultTitle := overOptnull (rw_aiVaultTitle row) (tb_aiVaultTitle base),
           tb_quickCommandLabel := overOptnull (rw_quickCommandLabel row) (tb_quickCommandLabel base),
           tb_isPinned := orElseOpt (rw_isPinned row) (tb_isPinned base),
           tb_viewMode := orElseOpt (rw_viewMode row) (tb_viewMode base),
           tb_generatedTitle := overOptnull (rw_generatedTitle row) (tb_generatedTitle base),
           tb_createdAt := rw_createdAt row,
           tb_customTitle := rw_customTitle row,
           tb_color := rw_color row\<rparr>)"

lemma loadTerminalTab_simps [simp]:
  "tb_body (loadTerminalTab row entry panes) = TerminalBody (terminalCreationOf row) panes"
  "tb_entityId (loadTerminalTab row entry panes) = (case entry of None \<Rightarrow> rw_id row | Some e \<Rightarrow> te_entityId e)"
  "tb_id (loadTerminalTab row entry panes) = (case entry of None \<Rightarrow> rw_id row | Some e \<Rightarrow> te_id e)"
  "tb_createdAt (loadTerminalTab row entry panes) = rw_createdAt row"
  by (auto simp: loadTerminalTab_def Let_def contentFields_def split: option.split)

lemma loadContentTab_simps [simp]:
  "tb_body (loadContentTab entry kind) = ContentBody kind"
  "tb_id (loadContentTab entry kind) = te_id entry" "tb_entityId (loadContentTab entry kind) = te_entityId entry"
  by (simp_all add: loadContentTab_def contentFields_def)

section \<open>Duplicates of an editor tab\<close>

definition aliasStep ::
  "((string \<times> string) \<times> string) list \<times> (string \<times> string) list \<Rightarrow> tabEntry
     \<Rightarrow> ((string \<times> string) \<times> string) list \<times> (string \<times> string) list" where
  "aliasStep = (\<lambda>(kept, aliases) entry.
     case map_of kept (te_groupId entry, te_entityId entry) of
       None \<Rightarrow> (AList.update (te_groupId entry, te_entityId entry) (te_id entry) kept, aliases)
     | Some first \<Rightarrow>
         (kept, if first \<noteq> te_id entry then AList.update (te_id entry) first aliases else aliases))"

definition duplicateEditorTabAliases :: "bool \<Rightarrow> tabEntry list \<Rightarrow> (string \<times> string) list" where
  "duplicateEditorTabAliases own entries =
     (if \<not> own then []
      else snd (foldl aliasStep ([], [])
        (sort_key (\<lambda>e. (te_sortOrder e, te_createdAt e))
          (filter (\<lambda>e. te_contentType e = KindContent Editor) entries))))"

section \<open>Which content tabs come back\<close>

definition isTransientEditorContentType :: "content_kind \<Rightarrow> bool" where
  "isTransientEditorContentType k \<longleftrightarrow> k = Diff \<or> k = ConflictReview \<or> k = CheckDetails"

definition restoresSavedContentTab :: "content_kind \<Rightarrow> string \<Rightarrow> string list \<Rightarrow> bool \<Rightarrow> bool" where
  "restoresSavedContentTab contentType entityId savedEditFilePaths keepsView \<longleftrightarrow>
     (if contentType = Editor \<and> take 14 entityId = ''html-preview::'' then False
      else \<not> isTransientEditorContentType contentType \<or> entityId \<in> set savedEditFilePaths \<or> keepsView)"

end
