(* ===== verification/Load_Workspace.thy ===== *)
theory Load_Workspace
  imports Load_Tabs
begin

text \<open>
  Loading one workspace of a session: \<open>workspace-layout-load-workspace.ts\<close>,
  \<open>workspace-layout-load-records.ts\<close> and \<open>pruneGroupLayout\<close> of
  \<open>workspace-session-terminal-tab-close.ts\<close>.  The view, the facts, the pane layouts and the dropped
  rows that the code fills in as it goes are a record that the steps hand on; so are the tabs found
  so far.  Two stored files that agree in all that the layout keeps of them count as one.
\<close>

record loadState =
  lo_view :: layoutViewRecord
  lo_facts :: layoutContentFacts
  lo_layouts :: "(string \<times> layoutSnapshot) list"
  lo_canonical :: "(string \<times> string) list"

record tabsProgress =
  lt_tabs :: "layoutTab list"
  lt_candidates :: "orderCandidate list"
  lt_tabIds :: "string list"
  lt_merged :: "string list"
  lt_state :: loadState

definition rowsOf :: "sessionState \<Rightarrow> string \<Rightarrow> terminalRow list" where
  "rowsOf session key = orElse (map_of (sx_tabsByWorktree session) key) []"

definition entriesOf :: "sessionState \<Rightarrow> string \<Rightarrow> tabEntry list" where
  "entriesOf session key = orElse (lookupOpt (sx_unifiedTabs session) key) []"

definition groupsOf :: "sessionState \<Rightarrow> string \<Rightarrow> tabGroup list" where
  "groupsOf session key = orElse (lookupOpt (sx_tabGroups session) key) []"

section \<open>Terminal rows and their panes\<close>

definition takeRow :: "(string \<times> string) list \<Rightarrow> string \<Rightarrow> terminalRow list \<Rightarrow> terminalRow \<Rightarrow> terminalRow list" where
  "takeRow terminalHomes key rows row =
     (if rw_id row \<in> set (map rw_id rows) \<or> map_of terminalHomes (rw_id row) \<noteq> Some key then rows
      else rows @ [row])"

definition takeRows :: "sessionState \<Rightarrow> string \<Rightarrow> (string \<times> string) list \<Rightarrow> terminalRow list" where
  "takeRows session key terminalHomes = foldl (takeRow terminalHomes key) [] (rowsOf session key)"

text \<open>The leaf that the records keyed by pane name for a tab, if they name one only.\<close>

definition recordedLeafId :: "sessionState \<Rightarrow> string \<Rightarrow> string option" where
  "recordedLeafId session tabId =
     (let prefix' = tabId @ '':'';
          leaves = uniq (map (drop (length prefix')) (filter (\<lambda>k. take (length prefix') k = prefix')
            (uniq (keysOf (sx_terminalPtyIncarnations session) @ keysOf (sx_sleepingAgentSessions session)
               @ keysOf (sx_terminalSurfaceTombstones session)))))
      in case leaves of [l] \<Rightarrow> Some l | _ \<Rightarrow> None)"

definition legacyLayout :: "sessionState \<Rightarrow> terminalRow \<Rightarrow> loadContext \<Rightarrow> layoutSnapshot" where
  "legacyLayout session row context =
     (let leafId = orElse (recordedLeafId session (rw_id row)) (lx_mintLeafId context (''leaf:'' @ rw_id row))
      in \<lparr>sl_root = Some (Leaf leafId), sl_activeLeafId = Some leafId, sl_expandedLeafId = None,
          sl_chatLeafId = None,
          sl_ptyIdsByLeafId = (if truthy (rw_ptyId row) then Some [(leafId, the (rw_ptyId row))] else None),
          sl_buffersByLeafId = None, sl_scrollbackRefsByLeafId = None, sl_titlesByLeafId = None,
          sl_lastGridsByLeafId = None\<rparr>)"

text \<open>\<open>row.quickCommandLabel?.trim() || entry?.quickCommandLabel?.trim()\<close>.\<close>

definition labelOf :: "terminalRow \<Rightarrow> tabEntry option \<Rightarrow> string option" where
  "labelOf row entry =
     (let own' = map_option trim (valueOf (rw_quickCommandLabel row))
      in if truthy own' then own' else Option.bind entry (\<lambda>e. map_option trim (valueOf (te_quickCommandLabel e))))"

definition loadedPanes ::
  "bool \<Rightarrow> sessionState \<Rightarrow> terminalRow \<Rightarrow> tabEntry option \<Rightarrow> loadContext \<Rightarrow> layoutSnapshot" where
  "loadedPanes own session row entry context =
     (let tabId = (case entry of None \<Rightarrow> rw_id row | Some e \<Rightarrow> te_entityId e);
          stored = orElse (map_of (sx_terminalLayoutsByTabId session) tabId) (legacyLayout session row context)
      in if own
         then sanitizeTerminalLayoutPaneTitles (normalizeTerminalLayoutPtyOwnership stored)
           (row\<lparr>rw_title := (case entry of None \<Rightarrow> rw_title row | Some e \<Rightarrow> te_label e),
                rw_quickCommandLabel := (case labelOf row entry of None \<Rightarrow> Absent | Some s \<Rightarrow> Value s)\<rparr>)
         else stored)"

definition panesOfSnapshot :: "layoutSnapshot \<Rightarrow> terminalPanes" where
  "panesOfSnapshot layout = \<lparr>tp_root = sl_root layout, tp_chatLeafId = sl_chatLeafId layout\<rparr>"

definition addTerminal ::
  "bool \<Rightarrow> sessionState \<Rightarrow> loadContext \<Rightarrow> terminalRow \<Rightarrow> tabEntry option \<Rightarrow> tabsProgress \<Rightarrow> tabsProgress" where
  "addTerminal own session context row entry p =
     (let layout = loadedPanes own session row entry context;
          loaded = loadTerminalTab row entry (panesOfSnapshot layout);
          tab = (if tb_id loaded \<in> set (lt_tabIds p)
                 then loaded\<lparr>tb_id := lx_mintId context (''tab:'' @ rw_id row)\<rparr> else loaded);
          s = lt_state p;
          facts = lo_facts s
      in p\<lparr>lt_tabs := lt_tabs p @ [tab],
           lt_candidates := lt_candidates p @ [\<lparr>oc_id = tb_id tab, oc_groupId = map_option te_groupId entry,
             oc_tabBarSortOrder = map_option te_sortOrder entry, oc_rowSortOrder = Some (rw_sortOrder row),
             oc_createdAt = tb_createdAt tab\<rparr>],
           lt_tabIds := lt_tabIds p @ [tb_id tab],
           lt_merged := lt_merged p @ [rw_id row],
           lt_state := s\<lparr>
             lo_layouts := AList.update (tb_entityId tab) layout (lo_layouts s),
             lo_facts := facts\<lparr>fc_terminalRows := AList.update (rw_id row)
               \<lparr>rf_title = (case entry of None \<Rightarrow> rw_title row | Some e \<Rightarrow> te_label e),
                rf_generation = rw_generation row\<rparr> (fc_terminalRows facts)\<rparr>\<rparr>\<rparr>)"

section \<open>Tab-bar entries\<close>

definition heldViews :: "bool \<Rightarrow> loadContext \<Rightarrow> string \<Rightarrow> (string \<times> layoutEditorView) list option" where
  "heldViews own context key =
     (if own then map_option (\<lambda>viewsOf. orElse (viewsOf key) []) (lx_editorViewsOf context) else None)"

definition leftOut :: "bool \<Rightarrow> sessionState \<Rightarrow> loadContext \<Rightarrow> string \<Rightarrow> tabEntry \<Rightarrow> bool" where
  "leftOut own session context key entry =
     (case (heldViews own context key, te_contentType entry) of
        (Some held, KindContent kind) \<Rightarrow>
          \<not> restoresSavedContentTab kind (te_entityId entry)
              (map ef_filePath (orElse (lookupOpt (sx_openFilesByWorktree session) key) []))
              (te_entityId entry \<in> set (map te_entityId
                 (filter (\<lambda>e. map_of held (te_id e) \<noteq> None) (entriesOf session key))))
      | _ \<Rightarrow> False)"

definition focusEntry :: "string \<Rightarrow> tabEntry \<Rightarrow> loadState \<Rightarrow> loadState" where
  "focusEntry key entry s =
     (case te_lastFocusedAt entry of
        None \<Rightarrow> s
      | Some time \<Rightarrow> s\<lparr>lo_view := (lo_view s)\<lparr>
          lv_lastFocusedAt := putChild key (te_id entry) time (lv_lastFocusedAt (lo_view s))\<rparr>\<rparr>)"

definition labelTab :: "string \<Rightarrow> string \<Rightarrow> string \<Rightarrow> loadState \<Rightarrow> loadState" where
  "labelTab key tabId label s =
     s\<lparr>lo_facts := (lo_facts s)\<lparr>fc_tabLabels := putChild key tabId label (fc_tabLabels (lo_facts s))\<rparr>\<rparr>"

definition addContentTab :: "string \<Rightarrow> tabEntry \<Rightarrow> content_kind \<Rightarrow> tabsProgress \<Rightarrow> tabsProgress" where
  "addContentTab key entry kind p =
     p\<lparr>lt_tabs := lt_tabs p @ [loadContentTab entry kind],
       lt_tabIds := lt_tabIds p @ [te_id entry],
       lt_candidates := lt_candidates p @ [\<lparr>oc_id = te_id entry, oc_groupId = Some (te_groupId entry),
         oc_tabBarSortOrder = Some (te_sortOrder entry), oc_rowSortOrder = None,
         oc_createdAt = te_createdAt entry\<rparr>],
       lt_state := focusEntry key entry (labelTab key (te_id entry) (te_label entry) (lt_state p))\<rparr>"

definition loadEntry ::
  "bool \<Rightarrow> sessionState \<Rightarrow> loadContext \<Rightarrow> string \<Rightarrow> terminalRow list \<Rightarrow> (string \<times> string) list
     \<Rightarrow> tabsProgress \<Rightarrow> tabEntry \<Rightarrow> tabsProgress" where
  "loadEntry own session context key rows aliases p entry =
     (if te_id entry \<in> set (lt_tabIds p) \<or> map_of aliases (te_id entry) \<noteq> None
         \<or> leftOut own session context key entry then p
      else case te_contentType entry of
          KindContent kind \<Rightarrow> addContentTab key entry kind p
        | KindTerminal \<Rightarrow>
            (case List.find (\<lambda>row. rw_id row = te_entityId entry) rows of
               None \<Rightarrow> p
             | Some row \<Rightarrow>
                 if rw_id row \<in> set (lt_merged p) then p
                 else
                   let q = addTerminal own session context row (Some entry) p
                   in q\<lparr>lt_state := focusEntry key entry (lt_state q)\<rparr>))"

section \<open>Browser records without a tab\<close>

definition addBrowserTab ::
  "loadContext \<Rightarrow> string \<Rightarrow> string option \<Rightarrow> tabsProgress \<Rightarrow> browserWorkspace \<Rightarrow> tabsProgress" where
  "addBrowserTab context key activeGroupId p record' =
     (if list_ex (\<lambda>t. isKind Browser t \<and> tb_entityId t = bt_id record') (lt_tabs p) then p
      else
        let tabId = lx_mintId context (''browser-tab:'' @ bt_id record');
            tab = \<lparr>tb_id = tabId, tb_entityId = bt_id record', tb_createdAt = bt_createdAt record',
              tb_customTitle = None, tb_generatedTitle = Absent, tb_aiVaultTitle = Absent,
              tb_quickCommandLabel = Absent, tb_color = None, tb_isPinned = None, tb_viewMode = None,
              tb_isPreview = None, tb_agentSessionAgent = None, tb_body = ContentBody Browser\<rparr>
        in p\<lparr>lt_tabs := lt_tabs p @ [tab],
             lt_tabIds := lt_tabIds p @ [tabId],
             lt_candidates := lt_candidates p @ [\<lparr>oc_id = tabId, oc_groupId = activeGroupId,
               oc_tabBarSortOrder = None, oc_rowSortOrder = None, oc_createdAt = bt_createdAt record'\<rparr>],
             lt_state := labelTab key tabId (bl_title (bw_live record')) (lt_state p)\<rparr>)"

definition retainedGroupId :: "sessionState \<Rightarrow> string \<Rightarrow> orderCandidate list \<Rightarrow> string option" where
  "retainedGroupId session key candidates =
     (let storedGroups = groupsOf session key;
          held = map snd (resolveTabGroupOwners (map (\<lambda>c. (oc_id c, oc_groupId c)) candidates) storedGroups []);
          savedActive = lookupOpt (vf_activeGroupIdByWorktree (sx_view session)) key
      in if truthy savedActive \<and> the savedActive \<in> set held then savedActive
         else map_option sg_id (List.find (\<lambda>g. sg_id g \<in> set held) storedGroups))"

definition addBrowserTabs :: "bool \<Rightarrow> sessionState \<Rightarrow> loadContext \<Rightarrow> string \<Rightarrow> tabsProgress \<Rightarrow> tabsProgress" where
  "addBrowserTabs own session context key p =
     (if own then foldl (addBrowserTab context key (retainedGroupId session key (lt_candidates p))) p
        (orElse (lookupOpt (sx_browserTabsByWorktree session) key) [])
      else p)"

section \<open>The tabs of a workspace\<close>

definition addLeftRow ::
  "bool \<Rightarrow> sessionState \<Rightarrow> loadContext \<Rightarrow> canonicalPtyOwners \<Rightarrow> tabsProgress \<Rightarrow> terminalRow \<Rightarrow> tabsProgress" where
  "addLeftRow own session context canonical p row =
     (if rw_id row \<in> set (lt_merged p) then p
      else case resolveCanonicalPtyClaim session row canonical of
          Subsumed tabId \<Rightarrow> p\<lparr>lt_state := (lt_state p)\<lparr>
            lo_canonical := AList.update (rw_id row) tabId (lo_canonical (lt_state p))\<rparr>\<rparr>
        | Retained _ _ \<Rightarrow> addTerminal own session context row None p)"

definition loadTabs ::
  "bool \<Rightarrow> sessionState \<Rightarrow> loadContext \<Rightarrow> string \<Rightarrow> (string \<times> string) list \<Rightarrow> loadState \<Rightarrow> tabsProgress" where
  "loadTabs own session context key terminalHomes s =
     (let aliases = duplicateEditorTabAliases own (entriesOf session key);
          rows = takeRows session key terminalHomes;
          entered = foldl (loadEntry own session context key rows aliases)
            \<lparr>lt_tabs = [], lt_candidates = [], lt_tabIds = [], lt_merged = [], lt_state = s\<rparr>
            (entriesOf session key);
          browsed = addBrowserTabs own session context key entered
      in foldl (addLeftRow own session context (readCanonicalPtyOwners session key rows)) browsed rows)"

section \<open>The records of a workspace\<close>

definition countIds :: "string list \<Rightarrow> (string \<times> nat) list" where
  "countIds ids = fold (\<lambda>i counts. AList.update i (orElse (map_of counts i) 0 + 1) counts) ids []"

definition resolveWorktreeId :: "sessionState \<Rightarrow> string \<Rightarrow> string" where
  "resolveWorktreeId session key =
     (let named = map rw_worktreeId (rowsOf session key) @ map te_worktreeId (entriesOf session key)
            @ map sg_worktreeId (groupsOf session key)
            @ map fl_worktreeId (orElse (lookupOpt (sx_openFilesByWorktree session) key) [])
            @ map bw_worktreeId (orElse (lookupOpt (sx_browserTabsByWorktree session) key) [])
      in fst (foldl (\<lambda>(worktreeId, most) (candidate, count).
            if most < count then (candidate, count) else (worktreeId, most)) (key, 0) (countIds named)))"

definition draftOf :: "persistedOpenFile \<Rightarrow> editorDraft" where
  "draftOf file = \<lparr>dr_dirtyDraftContent = fl_dirtyDraftContent file,
     dr_lastKnownDiskSignature = fl_lastKnownDiskSignature file\<rparr>"

definition withDraft :: "bool \<Rightarrow> string \<Rightarrow> layoutViewRecord \<Rightarrow> persistedOpenFile \<Rightarrow> layoutViewRecord" where
  "withDraft own key view file =
     (if fl_dirtyDraftContent file = None \<and> fl_lastKnownDiskSignature file = None then view
      else view\<lparr>lv_editorDrafts := putChild key (editorFileKey own (layoutEditorFile.truncate file)) (draftOf file)
        (lv_editorDrafts view)\<rparr>)"

text \<open>A tab keeps its preview mark only if every file it names has one.\<close>

definition demotePreviews ::
  "bool \<Rightarrow> workspaceLayout \<Rightarrow> layoutTab list \<Rightarrow> persistedOpenFile \<Rightarrow> layoutTab list" where
  "demotePreviews own ws tabs file =
     (if fl_isPreview file = Some True then tabs
      else map (\<lambda>t. if isKind Editor t \<and> editorTabNamesFile own ws (tb_entityId t) (layoutEditorFile.truncate file)
                       \<and> tb_isPreview t = Some True
                    then t\<lparr>tb_isPreview := None\<rparr> else t) tabs)"

text \<open>The workspace that the code builds to read which file a tab names.\<close>

definition filesWorkspace :: "string \<Rightarrow> layoutTab list \<Rightarrow> persistedOpenFile list \<Rightarrow> workspaceLayout" where
  "filesWorkspace worktreeId tabs files =
     (emptyWorkspace worktreeId)\<lparr>ws_tabs := tabs, ws_editorFiles := Some (map layoutEditorFile.truncate files)\<rparr>"

definition loadEditorFiles ::
  "bool \<Rightarrow> string \<Rightarrow> persistedOpenFile list option \<Rightarrow> string \<Rightarrow> layoutTab list \<Rightarrow> layoutViewRecord
     \<Rightarrow> layoutEditorFile list option \<times> layoutTab list \<times> layoutViewRecord" where
  "loadEditorFiles own key stored worktreeId tabs view =
     (case stored of
        None \<Rightarrow> (None, tabs, view)
      | Some files \<Rightarrow>
          (Some (map layoutEditorFile.truncate files),
           foldl (demotePreviews own (filesWorkspace worktreeId tabs files)) tabs files,
           foldl (withDraft own key) view files))"

definition loadBrowserTabs ::
  "string \<Rightarrow> browserWorkspace list option \<Rightarrow> layoutContentFacts \<Rightarrow> layoutBrowserTab list option \<times> layoutContentFacts" where
  "loadBrowserTabs key stored facts =
     (case stored of
        None \<Rightarrow> (None, facts)
      | Some tabs \<Rightarrow>
          (Some (map layoutBrowserTab.truncate tabs),
           foldl (\<lambda>f t. f\<lparr>fc_browserTabs := putChild key (bt_id t) (bw_live t) (fc_browserTabs f)\<rparr>) facts tabs))"

definition loadEditorViews ::
  "loadContext \<Rightarrow> string \<Rightarrow> layoutTab list \<Rightarrow> (string \<times> layoutEditorView) list option" where
  "loadEditorViews context key tabs =
     Option.bind (Option.bind (lx_editorViewsOf context) (\<lambda>viewsOf. viewsOf key)) (\<lambda>held.
       nonEmptyRecord (fromEntries (concat (map (\<lambda>t.
         case if isTerminal t then None else map_of held (tb_id t) of
           None \<Rightarrow> [] | Some view \<Rightarrow> [(tb_id t, view)]) tabs))))"

section \<open>A workspace\<close>

primrec pruneGroupTree :: "group_node \<Rightarrow> string list \<Rightarrow> group_node option" where
  "pruneGroupTree (Leaf g) valid = (if g \<in> set valid then Some (Leaf g) else None)"
| "pruneGroupTree (Split d a b r) valid =
     (case (pruneGroupTree a valid, pruneGroupTree b valid) of
        (Some first, Some second) \<Rightarrow> Some (Split d first second r)
      | (first, second) \<Rightarrow> orElseOpt first second)"

definition viewGroup :: "(string \<times> string) list \<Rightarrow> string \<Rightarrow> layoutViewRecord \<Rightarrow> tabGroup \<Rightarrow> layoutViewRecord" where
  "viewGroup aliases key view group' =
     (let kept = (\<lambda>tabId. orElse (map_of aliases tabId) tabId)
      in view\<lparr>lv_groups := putChildOnce key (sg_id group')
           \<lparr>gl_activeTabId = (if truthy (sg_activeTabId group')
              then map_option kept (sg_activeTabId group') else sg_activeTabId group'),
            gl_recentTabIds = (if aliases \<noteq> [] then map_option (map kept) (sg_recentTabIds group')
              else sg_recentTabIds group')\<rparr> (lv_groups view)\<rparr>)"

definition loadWorkspace ::
  "bool \<Rightarrow> sessionState \<Rightarrow> loadContext \<Rightarrow> (string \<times> string) list \<Rightarrow> loadState \<Rightarrow> string
     \<Rightarrow> workspaceLayout \<times> loadState" where
  "loadWorkspace own session context terminalHomes s key =
     (let worktreeId = resolveWorktreeId session key;
          p = loadTabs own session context key terminalHomes s;
          aliases = duplicateEditorTabAliases own (entriesOf session key);
          storedGroups = groupsOf session key;
          s1 = lt_state p;
          view1 = foldl (viewGroup aliases key) (lo_view s1) storedGroups;
          groups = resolveGroupOrder storedGroups (lt_candidates p) key (lx_mintId context);
          (files, tabs, view2) = loadEditorFiles own key (lookupOpt (sx_openFilesByWorktree session) key)
            worktreeId (lt_tabs p) view1;
          (browserTabs, facts) = loadBrowserTabs key (lookupOpt (sx_browserTabsByWorktree session) key) (lo_facts s1)
      in (\<lparr>ws_worktreeId = worktreeId, ws_tabs = tabs, ws_groups = groups,
            ws_groupLayout = Option.bind (lookupOpt (sx_tabGroupLayouts session) key)
              (\<lambda>n. pruneGroupTree n (map gr_id groups)),
            ws_editorFiles = files, ws_editorViews = loadEditorViews context key tabs,
            ws_browserTabs = browserTabs, ws_leaves = None, ws_closedTerminalTabs = None\<rparr>,
          s1\<lparr>lo_view := view2, lo_facts := facts\<rparr>))"

end
