(* ===== verification/Load_Bindings.thy ===== *)
theory Load_Bindings
  imports Load_Workspace Pane_Commands Legacy_Persistence
begin

text \<open>
  The panes of a loaded layout: \<open>workspace-layout-load-bindings.ts\<close>.  Stored layouts name panes
  within a tab; the layout names them across the partition, so a repeated id is made up anew, in tab
  order.  Then no two panes keep one terminal, and the tombstones of older builds are applied.

  The code walks the terminal tabs by reference; here a tab is named by its workspace and its id.
\<close>

definition terminalTabsInOrder :: "workspaceLayoutModel \<Rightarrow> (string \<times> layoutTab) list" where
  "terminalTabsInOrder m =
     concat (map (\<lambda>(key, ws). map (Pair key) (filter isTerminal (tabsInOrder ws))) (md_workspaces m))"

section \<open>New ids for repeated panes\<close>

record remint =
  rm_seen :: "string list"
  rm_renamed :: "(string \<times> string) list"
  rm_position :: nat

definition leafSeed :: "string \<Rightarrow> nat \<Rightarrow> string" where
  "leafSeed tabId position = ''leaf:'' @ tabId @ '':'' @ natText position"

definition remintLeaf :: "loadContext \<Rightarrow> string \<Rightarrow> remint \<Rightarrow> string \<Rightarrow> string \<times> remint" where
  "remintLeaf ctx tabId rm leafId =
     (let new = (if leafId \<in> set (rm_seen rm) then lx_mintLeafId ctx (leafSeed tabId (rm_position rm)) else leafId)
      in (new, \<lparr>rm_seen = rm_seen rm @ [new],
          rm_renamed = (if map_of (rm_renamed rm) leafId = None
            then AList.update leafId new (rm_renamed rm) else rm_renamed rm),
          rm_position = Suc (rm_position rm)\<rparr>))"

primrec remintRepeatedLeaves :: "pane_node \<Rightarrow> loadContext \<Rightarrow> string \<Rightarrow> remint \<Rightarrow> pane_node \<times> remint" where
  "remintRepeatedLeaves (Leaf i) ctx tabId rm =
     (let (new, rm') = remintLeaf ctx tabId rm i in (Leaf new, rm'))"
| "remintRepeatedLeaves (Split d a b r) ctx tabId rm =
     (let (first, rm1) = remintRepeatedLeaves a ctx tabId rm;
          (second, rm2) = remintRepeatedLeaves b ctx tabId rm1
      in (Split d first second r, rm2))"

section \<open>The data of a pane\<close>

record paneRecords =
  pr_sleeping :: "(string \<times> sleepingAgentSession) list"
  pr_incarnations :: "(string \<times> string) list"

definition loadLeaf :: "layoutSnapshot \<Rightarrow> string \<Rightarrow> string \<Rightarrow> paneRecords \<Rightarrow> layoutLeaf \<times> paneRecords" where
  "loadLeaf stored leafId paneKey records =
     (let record' = map_option layoutSleepingRecord.truncate (map_of (pr_sleeping records) paneKey);
          asleep = (case record' of None \<Rightarrow> False | Some r \<Rightarrow> isPaneSleepRecord r)
      in (\<lparr>lf_ptyId = lookupOpt (sl_ptyIdsByLeafId stored) leafId, lf_ptyGeneration = None,
           lf_incarnationId = map_of (pr_incarnations records) paneKey,
           lf_title = lookupOpt (sl_titlesByLeafId stored) leafId,
           lf_lastGrid = lookupOpt (sl_lastGridsByLeafId stored) leafId,
           lf_sleeping = (if asleep then record' else None),
           lf_resume = (if asleep then None else record')\<rparr>,
          \<lparr>pr_sleeping = AList.delete paneKey (pr_sleeping records),
           pr_incarnations = AList.delete paneKey (pr_incarnations records)\<rparr>))"

record leavesProgress =
  lz_layout :: workspaceLayoutModel
  lz_view :: layoutViewRecord
  lz_facts :: layoutContentFacts
  lz_records :: paneRecords
  lz_seen :: "string list"

definition placeLeaf ::
  "loadContext \<Rightarrow> layoutSnapshot \<Rightarrow> string \<Rightarrow> string \<Rightarrow> leavesProgress \<Rightarrow> string \<times> string \<Rightarrow> leavesProgress" where
  "placeLeaf ctx layout key tabId z = (\<lambda>(storedId, leafId).
     let (loaded, records) = loadLeaf layout storedId (paneKeyOf tabId storedId) (lz_records z);
         leaf = (if leafId \<noteq> storedId then loaded\<lparr>lf_ptyId := None\<rparr>
           else loaded\<lparr>lf_ptyGeneration := lx_ptyGenerationOf ctx leafId\<rparr>);
         ws = workspaceOrEmpty (lz_layout z) key;
         scrollback = \<lparr>sb_buffer = lookupOpt (sl_buffersByLeafId layout) storedId,
           sb_scrollbackRef = lookupOpt (sl_scrollbackRefsByLeafId layout) storedId\<rparr>
     in z\<lparr>lz_records := records,
          lz_layout := (if leaf = emptyLeaf then lz_layout z
            else withWorkspace (lz_layout z) key
              (ws\<lparr>ws_leaves := Some (AList.update leafId leaf (orElse (ws_leaves ws) []))\<rparr>)),
          lz_facts := (if sb_buffer scrollback = None \<and> sb_scrollbackRef scrollback = None then lz_facts z
            else (lz_facts z)\<lparr>fc_scrollback := AList.update leafId scrollback (fc_scrollback (lz_facts z))\<rparr>)\<rparr>)"

text \<open>\<open>stored.layouts.get(tab.entityId)!\<close>: the layout of every loaded terminal tab is there.\<close>

definition loadTabLeaves ::
  "loadContext \<Rightarrow> (string \<times> layoutSnapshot) list \<Rightarrow> leavesProgress \<Rightarrow> string \<times> layoutTab \<Rightarrow> leavesProgress" where
  "loadTabLeaves ctx layouts z = (\<lambda>(key, tab).
     case (map_of layouts (tb_entityId tab), panesOf tab) of
       (Some layout, Some panes) \<Rightarrow>
         let tabId = tb_entityId tab;
             start = \<lparr>rm_seen = lz_seen z, rm_renamed = [], rm_position = 0\<rparr>;
             (rootNode, rm) = (case tp_root panes of
                 None \<Rightarrow> (None, start)
               | Some n \<Rightarrow> let (n', rm') = remintRepeatedLeaves n ctx tabId start in (Some n', rm'));
             modelId = (\<lambda>l. orElse (map_of (rm_renamed rm) l) l);
             ws = workspaceOrEmpty (lz_layout z) key;
             z1 = z\<lparr>lz_seen := rm_seen rm,
               lz_layout := withWorkspace (lz_layout z) key (replaceTab ws (withPanes
                 \<lparr>tp_root = rootNode, tp_chatLeafId = map_option modelId (tp_chatLeafId panes)\<rparr> tab)),
               lz_view := (lz_view z)\<lparr>lv_panes := AList.update tabId
                 \<lparr>pz_activeLeafId = map_option modelId (sl_activeLeafId layout),
                  pz_expandedLeafId = map_option modelId (sl_expandedLeafId layout)\<rparr> (lv_panes (lz_view z))\<rparr>\<rparr>
         in foldl (placeLeaf ctx layout key tabId) z1 (rm_renamed rm)
     | _ \<Rightarrow> z)"

definition loadLeaves ::
  "loadContext \<Rightarrow> (string \<times> layoutSnapshot) list \<Rightarrow> sessionState \<Rightarrow> workspaceLayoutModel \<Rightarrow> layoutViewRecord
     \<Rightarrow> layoutContentFacts \<Rightarrow> leavesProgress" where
  "loadLeaves ctx layouts session m view facts =
     foldl (loadTabLeaves ctx layouts)
       \<lparr>lz_layout = m, lz_view = view, lz_facts = facts,
        lz_records = \<lparr>pr_sleeping = orElse (sx_sleepingAgentSessions session) [],
          pr_incarnations = orElse (sx_terminalPtyIncarnations session) []\<rparr>, lz_seen = []\<rparr>
       (terminalTabsInOrder m)"

section \<open>One pane for each terminal of the partition\<close>

definition unbindIfOwned ::
  "terminalBinding list \<times> workspaceLayoutModel \<Rightarrow> string \<times> string \<Rightarrow> terminalBinding list \<times> workspaceLayoutModel" where
  "unbindIfOwned = (\<lambda>(owners, m) (key, leafId).
     let ws = workspaceOrEmpty m key
     in case leafAt ws leafId of
          None \<Rightarrow> (owners, m)
        | Some leaf \<Rightarrow>
            if lf_ptyId leaf = None then (owners, m)
            else
              let binding = \<lparr>bd_ptyId = lf_ptyId leaf, bd_incarnationId = lf_incarnationId leaf\<rparr>
              in if list_ex (\<lambda>o'. isSameTerminal o' binding) owners
                 then (owners, withWorkspace m key (ws\<lparr>ws_leaves :=
                   Some (AList.update leafId (leaf\<lparr>lf_ptyId := None\<rparr>) (orElse (ws_leaves ws) []))\<rparr>))
                 else (owners @ [binding], m))"

definition panesInOrder :: "workspaceLayoutModel \<Rightarrow> (string \<times> string) list" where
  "panesInOrder m = concat (map (\<lambda>(key, tab). map (Pair key) (leafIdsOf tab)) (terminalTabsInOrder m))"

definition unbindDuplicateTerminals :: "workspaceLayoutModel \<Rightarrow> workspaceLayoutModel" where
  "unbindDuplicateTerminals m = snd (foldl unbindIfOwned ([], m) (panesInOrder m))"

section \<open>Tombstones of older builds\<close>

definition surfaceOf :: "surfaceTombstone \<Rightarrow> exitedSurface" where
  "surfaceOf t = \<lparr>es_worktreeId = sf_worktreeId t, es_terminalTabId = sf_parentTabId t, es_leafId = sf_leafId t,
     es_ptyId = sf_ptyId t, es_incarnationId = Some (sf_incarnationId t)\<rparr>"

definition applyTombstone ::
  "workspaceLayoutModel \<times> carriedSessionFields \<Rightarrow> surfaceTombstone \<Rightarrow> workspaceLayoutModel \<times> carriedSessionFields" where
  "applyTombstone = (\<lambda>(next', carried) t.
     let retired = retireExitedSurface next' (surfaceOf t)
     in (orElse retired next',
         if retired = Some next'
         then carried\<lparr>ca_unplacedIncarnations :=
           AList.delete (paneKeyOf (sf_parentTabId t) (sf_leafId t)) (ca_unplacedIncarnations carried)\<rparr>
         else carried))"

definition applyLegacySurfaceTombstones ::
  "workspaceLayoutModel \<Rightarrow> sessionState \<Rightarrow> carriedSessionFields \<Rightarrow> workspaceLayoutModel \<times> carriedSessionFields" where
  "applyLegacySurfaceTombstones m session carried =
     (let tombstones = map snd (orElse (sx_terminalSurfaceTombstones session) []);
          (next', carried') = foldl applyTombstone (m, carried) tombstones
      in (updateLegacyPersistence (\<lambda>k. workspaceAt m k = workspaceAt next' k) m next' (map sf_worktreeId tombstones),
          carried'))"

end
