(* ===== verification/Load_Layout.thy ===== *)
theory Load_Layout
  imports Load_Bindings
begin

text \<open>
  Loading a whole session: \<open>workspace-layout-load.ts\<close>.  The loader works on a clone of the stored
  session; values are not shared here, so the clone is the session.  The report of what the next save
  will write differently is not part of this theory.
\<close>

definition workspaceKeys :: "sessionState \<Rightarrow> string list" where
  "workspaceKeys session =
     uniq (map fst (sx_tabsByWorktree session) @ keysOf (sx_unifiedTabs session) @ keysOf (sx_tabGroups session)
       @ keysOf (sx_tabGroupLayouts session) @ keysOf (sx_openFilesByWorktree session)
       @ keysOf (sx_browserTabsByWorktree session))"

definition namedByTabBar :: "sessionState \<Rightarrow> string \<Rightarrow> string \<Rightarrow> bool" where
  "namedByTabBar session key tabId \<longleftrightarrow>
     list_ex (\<lambda>e. te_contentType e = KindTerminal \<and> te_entityId e = tabId) (entriesOf session key)
     \<or> list_ex (\<lambda>g. tabId \<in> set (sg_tabOrder g)) (groupsOf session key)"

definition homeStep :: "sessionState \<Rightarrow> string \<Rightarrow> (string \<times> string) list \<Rightarrow> terminalRow \<Rightarrow> (string \<times> string) list" where
  "homeStep session key homes row =
     (case map_of homes (rw_id row) of
        None \<Rightarrow> AList.update (rw_id row) key homes
      | Some home \<Rightarrow>
          if \<not> namedByTabBar session home (rw_id row) \<and> namedByTabBar session key (rw_id row)
          then AList.update (rw_id row) key homes else homes)"

definition resolveTerminalHomes :: "sessionState \<Rightarrow> (string \<times> string) list" where
  "resolveTerminalHomes session =
     foldl (\<lambda>homes (key, rows). foldl (homeStep session key) homes rows) [] (sx_tabsByWorktree session)"

definition loadRecords :: "sessionState \<Rightarrow> workspaceLayoutRecords" where
  "loadRecords session = \<lparr>rc_defaultTabsApplied = sx_defaultTerminalTabsApplied session,
     rc_clientHostedBrowserPages = sx_clientHostedBrowserPages session,
     rc_closedTerminalPanes = sx_closedTerminalPanes session\<rparr>"

definition loadLegacy :: "sessionState \<Rightarrow> legacyLayoutPersistence" where
  "loadLegacy session = \<lparr>lg_terminalRowOwners = fromEntries (map (\<lambda>(key, _). (key, ())) (sx_tabsByWorktree session)),
     lg_topologyRevision = sx_terminalTopologyRevision session\<rparr>"

section \<open>Closed tabs\<close>

definition placeClosedTab ::
  "(string \<times> string) list \<Rightarrow> workspaceLayoutModel \<times> carriedSessionFields \<Rightarrow> string \<times> closedTerminalTabTombstone
     \<Rightarrow> workspaceLayoutModel \<times> carriedSessionFields" where
  "placeClosedTab byWorktree = (\<lambda>(m, carried) (tabId, record').
     case map_of byWorktree (tt_worktreeId record') of
       None \<Rightarrow> (m, carried\<lparr>ca_unplacedClosedTabs := AList.update tabId record' (ca_unplacedClosedTabs carried)\<rparr>)
     | Some key \<Rightarrow>
         let ws = workspaceOrEmpty m key
         in (withWorkspace m key (ws\<lparr>ws_closedTerminalTabs := Some (AList.update tabId
               \<lparr>cl_closedAt = tt_closedAt record', cl_reason = tt_reason record'\<rparr>
               (orElse (ws_closedTerminalTabs ws) []))\<rparr>), carried))"

definition keyByWorktree :: "workspaceLayoutModel \<Rightarrow> (string \<times> string) list" where
  "keyByWorktree m =
     foldl (\<lambda>r (key, ws). if map_of r (ws_worktreeId ws) = None then AList.update (ws_worktreeId ws) key r else r)
       [] (md_workspaces m)"

definition placeClosedTabs ::
  "sessionState \<Rightarrow> workspaceLayoutModel \<Rightarrow> carriedSessionFields \<Rightarrow> workspaceLayoutModel \<times> carriedSessionFields" where
  "placeClosedTabs session m carried =
     foldl (placeClosedTab (keyByWorktree m)) (m, carried) (orElse (sx_closedTerminalTabTombstones session) [])"

section \<open>The view\<close>

definition viewOfSession :: "sessionState \<Rightarrow> layoutViewRecord" where
  "viewOfSession session = (let v = sx_view session in
     \<lparr>lv_activeRepoId = vf_activeRepoId v, lv_activeWorkspaceKey = vf_activeWorkspaceKey v,
      lv_activeWorkspaceExecutionHostId = vf_activeWorkspaceExecutionHostId v,
      lv_activeWorktreeId = vf_activeWorktreeId v, lv_activeTabId = vf_activeTabId v,
      lv_activeFileIdByWorktree = vf_activeFileIdByWorktree v,
      lv_markdownFrontmatterVisible = vf_markdownFrontmatterVisible v,
      lv_activeBrowserTabIdByWorktree = vf_activeBrowserTabIdByWorktree v,
      lv_activeTabTypeByWorktree = vf_activeTabTypeByWorktree v,
      lv_activeTabIdByWorktree = vf_activeTabIdByWorktree v,
      lv_activeGroupIdByWorktree = vf_activeGroupIdByWorktree v,
      lv_lastVisitedAtByWorktreeId = vf_lastVisitedAtByWorktreeId v,
      lv_groups = [], lv_lastFocusedAt = [], lv_panes = [], lv_editorDrafts = []\<rparr>)"

definition followSubsumedTabSelections :: "layoutViewRecord \<Rightarrow> (string \<times> string) list \<Rightarrow> layoutViewRecord" where
  "followSubsumedTabSelections view canonical =
     (let follow = (\<lambda>tabId. orElse (map_of canonical tabId) tabId);
          follow' = (\<lambda>tab. if truthy tab then map_option follow tab else tab)
      in view\<lparr>lv_activeTabId := follow' (lv_activeTabId view),
              lv_activeTabIdByWorktree := map_option (map (\<lambda>(key, tab). (key, follow' tab)))
                (lv_activeTabIdByWorktree view)\<rparr>)"

section \<open>The session\<close>

definition loadedWorkspaces ::
  "bool \<Rightarrow> sessionState \<Rightarrow> loadContext \<Rightarrow> loadState \<Rightarrow> (string \<times> workspaceLayout) list \<times> loadState" where
  "loadedWorkspaces own session ctx s =
     foldl (\<lambda>(workspaces, s) key.
         let (ws, s') = loadWorkspace own session ctx (resolveTerminalHomes session) s key
         in (AList.update key ws workspaces, s'))
       ([], s) (workspaceKeys session)"

definition loadWorkspaceLayoutWithoutReport ::
  "bool \<Rightarrow> string \<Rightarrow> sessionState \<Rightarrow> loadContext \<Rightarrow> loadedLayout" where
  "loadWorkspaceLayoutWithoutReport own hostId session ctx =
     (let facts = factFields.extend (sx_facts session) (layoutContentFacts.fields [] [] [] []);
          (workspaces, s) = loadedWorkspaces own session ctx
            \<lparr>lo_view = viewOfSession session, lo_facts = facts, lo_layouts = [], lo_canonical = []\<rparr>;
          m = \<lparr>md_hostId = hostId, md_workspaces = workspaces, md_records = loadRecords session,
               md_legacy = loadLegacy session\<rparr>;
          view = followSubsumedTabSelections (lo_view s) (lo_canonical s);
          carried = carriedFields.extend (sx_carried session)
            (carriedSessionFields.fields (filter (\<lambda>(tabId, _). map_of (resolveTerminalHomes session) tabId = None)
              (sx_terminalLayoutsByTabId session)) [] [] []);
          (m1, carried1) = placeClosedTabs session m carried;
          z = loadLeaves ctx (lo_layouts s) session m1 view (lo_facts s);
          carried2 = carried1\<lparr>ca_unplacedSleepingRecords := pr_sleeping (lz_records z),
            ca_unplacedIncarnations := pr_incarnations (lz_records z)\<rparr>;
          (m3, carried3) = applyLegacySurfaceTombstones (unbindDuplicateTerminals (lz_layout z)) session carried2
      in \<lparr>ld_layout = m3, ld_desktopView = lz_view z, ld_facts = lz_facts z, ld_carried = carried3\<rparr>)"

end
