(* ===== verification/Save_Layout.thy ===== *)
theory Save_Layout
  imports Load_Layout
begin

text \<open>
  The session document that is written for a layout: \<open>workspace-layout-save-tabs.ts\<close> and
  \<open>workspace-layout-save.ts\<close>.  Rows, tab-bar entries and all order fields come from the layout's one
  order, so older builds read what this build holds.
\<close>

section \<open>Rows, entries and pane layouts\<close>

record workspaceSaveScope =
  sc_workspaceKey :: string
  sc_worktreeId :: string
  sc_hostId :: string
  sc_workspace :: workspaceLayout
  sc_leaves :: "(string \<times> layoutLeaf) list"
  sc_facts :: layoutContentFacts
  sc_view :: layoutViewRecord

definition scopePtyId :: "workspaceSaveScope \<Rightarrow> string \<Rightarrow> string option" where
  "scopePtyId scope leafId = Option.bind (map_of (sc_leaves scope) leafId) lf_ptyId"

definition rowPtyId :: "layoutTab \<Rightarrow> terminalPanes \<Rightarrow> workspaceSaveScope \<Rightarrow> string option" where
  "rowPtyId tab panes scope =
     (let ids = collectLayoutLeafIdsInOrder (tp_root panes);
          focused = Option.bind (map_of (lv_panes (sc_view scope)) (tb_entityId tab)) pz_activeLeafId;
          candidates = (case focused of
              Some f \<Rightarrow> if truthy focused \<and> f \<in> set ids then f # ids else ids
            | None \<Rightarrow> ids)
      in Option.bind (List.find (\<lambda>l. scopePtyId scope l \<noteq> None) candidates) (scopePtyId scope))"

definition liveTerminalTitle :: "layoutTab \<Rightarrow> terminalCreation \<Rightarrow> layoutContentFacts \<Rightarrow> string" where
  "liveTerminalTitle tab creation facts =
     (case map_of (fc_terminalRows facts) (tb_entityId tab) of
        Some row \<Rightarrow> rf_title row
      | None \<Rightarrow> orElse (orElseOpt (tb_customTitle tab) (tc_defaultTitle creation)) [])"

definition saveTerminalRow ::
  "layoutTab \<Rightarrow> terminalCreation \<Rightarrow> terminalPanes \<Rightarrow> int \<Rightarrow> workspaceSaveScope \<Rightarrow> terminalRow" where
  "saveTerminalRow tab creation panes sortOrder scope =
     \<lparr>rw_id = tb_entityId tab, rw_ptyId = rowPtyId tab panes scope,
      rw_worktreeId = sc_worktreeId scope, rw_title = liveTerminalTitle tab creation (sc_facts scope),
      rw_defaultTitle = tc_defaultTitle creation, rw_generatedTitle = tb_generatedTitle tab,
      rw_aiVaultTitle = tb_aiVaultTitle tab, rw_quickCommandLabel = tb_quickCommandLabel tab,
      rw_customTitle = tb_customTitle tab, rw_color = tb_color tab, rw_isPinned = tb_isPinned tab,
      rw_viewMode = tb_viewMode tab, rw_sortOrder = sortOrder, rw_createdAt = tb_createdAt tab,
      rw_generation = Option.bind (map_of (fc_terminalRows (sc_facts scope)) (tb_entityId tab)) rf_generation,
      rw_shellOverride = tc_shellOverride creation, rw_forceHostRuntime = tc_forceHostRuntime creation,
      rw_startupCwd = tc_startupCwd creation, rw_launchAgent = tc_launchAgent creation,
      rw_agentLaunchPane = None, rw_pendingActivationSpawn = None, rw_restoredFromSession = None,
      rw_recovery = None\<rparr>"

definition saveTabBarEntry ::
  "bool \<Rightarrow> layoutTab \<Rightarrow> string \<Rightarrow> int \<Rightarrow> workspaceSaveScope \<Rightarrow> tabEntry" where
  "saveTabBarEntry own tab groupId sortOrder scope =
     \<lparr>te_id = tb_id tab, te_entityId = tb_entityId tab, te_groupId = groupId,
      te_worktreeId = sc_worktreeId scope,
      te_executionHostId = Some (tabExecutionHostId own tab (sc_workspace scope) (sc_hostId scope)),
      te_contentType = (case tb_body tab of TerminalBody _ _ \<Rightarrow> KindTerminal | ContentBody k \<Rightarrow> KindContent k),
      te_label = (case tb_body tab of
          TerminalBody creation _ \<Rightarrow> liveTerminalTitle tab creation (sc_facts scope)
        | ContentBody _ \<Rightarrow> orElse (childAt (fc_tabLabels (sc_facts scope)) (sc_workspaceKey scope) (tb_id tab)) []),
      te_generatedLabel = tb_generatedTitle tab, te_aiVaultTitle = tb_aiVaultTitle tab,
      te_quickCommandLabel = tb_quickCommandLabel tab, te_customLabel = tb_customTitle tab,
      te_color = tb_color tab, te_sortOrder = sortOrder, te_createdAt = tb_createdAt tab,
      te_isPreview = tb_isPreview tab, te_isPinned = tb_isPinned tab,
      te_agentSessionAgent = tb_agentSessionAgent tab, te_viewMode = tb_viewMode tab,
      te_lastFocusedAt = childAt (lv_lastFocusedAt (sc_view scope)) (sc_workspaceKey scope) (tb_id tab)\<rparr>"

definition byLeaf :: "string list \<Rightarrow> (string \<Rightarrow> 'a option) \<Rightarrow> (string \<times> 'a) list" where
  "byLeaf ids val =
     fromEntries (concat (map (\<lambda>l. case val l of None \<Rightarrow> [] | Some v \<Rightarrow> [(l, v)]) ids))"

definition saveTerminalLayout :: "layoutTab \<Rightarrow> terminalPanes \<Rightarrow> workspaceSaveScope \<Rightarrow> layoutSnapshot" where
  "saveTerminalLayout tab panes scope =
     (let ids = collectLayoutLeafIdsInOrder (tp_root panes);
          leafOf = map_of (sc_leaves scope);
          scrollbackOf = map_of (fc_scrollback (sc_facts scope));
          selection = map_of (lv_panes (sc_view scope)) (tb_entityId tab);
          leading = (case ids of [] \<Rightarrow> None | l # _ \<Rightarrow> Some l)
      in \<lparr>sl_root = tp_root panes,
          sl_activeLeafId = (case selection of
              None \<Rightarrow> leading
            | Some s \<Rightarrow> (case pz_activeLeafId s of
                None \<Rightarrow> None
              | Some l \<Rightarrow> if l \<in> set ids then Some l else leading)),
          sl_expandedLeafId = (case Option.bind selection pz_expandedLeafId of
              Some l \<Rightarrow> if l \<noteq> [] \<and> l \<in> set ids then Some l else None
            | None \<Rightarrow> None),
          sl_chatLeafId = tp_chatLeafId panes,
          sl_ptyIdsByLeafId = Some (byLeaf ids (\<lambda>l. Option.bind (leafOf l) lf_ptyId)),
          sl_buffersByLeafId = nonEmptyRecord (byLeaf ids (\<lambda>l. Option.bind (scrollbackOf l) sb_buffer)),
          sl_scrollbackRefsByLeafId = nonEmptyRecord (byLeaf ids (\<lambda>l. Option.bind (scrollbackOf l) sb_scrollbackRef)),
          sl_titlesByLeafId = nonEmptyRecord (byLeaf ids (\<lambda>l. Option.bind (leafOf l) lf_title)),
          sl_lastGridsByLeafId = nonEmptyRecord (byLeaf ids (\<lambda>l. Option.bind (leafOf l) lf_lastGrid))\<rparr>)"

section \<open>A workspace\<close>

definition scopeOf :: "string \<Rightarrow> workspaceLayout \<Rightarrow> loadedLayout \<Rightarrow> workspaceSaveScope" where
  "scopeOf key ws loaded =
     \<lparr>sc_workspaceKey = key, sc_worktreeId = ws_worktreeId ws, sc_hostId = md_hostId (ld_layout loaded),
      sc_workspace = ws, sc_leaves = orElse (ws_leaves ws) [], sc_facts = ld_facts loaded,
      sc_view = ld_desktopView loaded\<rparr>"

definition savedTabs :: "workspaceLayout \<Rightarrow> layoutTab list" where
  "savedTabs ws = tabsInOrder ws @ filter (\<lambda>t. t \<notin> set (tabsInOrder ws)) (ws_tabs ws)"

text \<open>The terminal tabs with their creation records and panes, in order.\<close>

definition terminalParts :: "layoutTab list \<Rightarrow> (layoutTab \<times> terminalCreation \<times> terminalPanes) list" where
  "terminalParts tabs = concat (map (\<lambda>t. case tb_body t of
     TerminalBody creation panes \<Rightarrow> [(t, creation, panes)] | ContentBody _ \<Rightarrow> []) tabs)"

definition savedRows :: "layoutTab list \<Rightarrow> workspaceSaveScope \<Rightarrow> terminalRow list" where
  "savedRows tabs scope =
     map (\<lambda>(i, t, creation, panes). saveTerminalRow t creation panes (int i) scope)
       (enumerate 0 (terminalParts tabs))"

definition placementOf :: "layoutGroup list \<Rightarrow> (string \<times> string \<times> int) list" where
  "placementOf groups =
     fold (\<lambda>g. fold (\<lambda>(i, tabId). AList.update tabId (gr_id g, int i)) (enumerate 0 (gr_tabOrder g))) groups []"

definition savedEntries :: "bool \<Rightarrow> layoutTab list \<Rightarrow> layoutGroup list \<Rightarrow> workspaceSaveScope \<Rightarrow> tabEntry list" where
  "savedEntries own tabs groups scope =
     concat (map (\<lambda>t. case map_of (placementOf groups) (tb_id t) of
        None \<Rightarrow> [] | Some (groupId, i) \<Rightarrow> [saveTabBarEntry own t groupId i scope]) tabs)"

definition savedGroup :: "string \<Rightarrow> layoutViewRecord \<Rightarrow> string \<Rightarrow> layoutGroup \<Rightarrow> tabGroup" where
  "savedGroup key view worktreeId g =
     (let selection = childAt (lv_groups view) key (gr_id g);
          activeTabId = Option.bind selection gl_activeTabId
      in \<lparr>sg_id = gr_id g, sg_worktreeId = worktreeId,
          sg_activeTabId = (if truthy activeTabId \<and> the activeTabId \<in> set (gr_tabOrder g) then activeTabId else None),
          sg_tabOrder = gr_tabOrder g,
          sg_recentTabIds = map_option (filter (\<lambda>t. t \<in> set (gr_tabOrder g)))
            (Option.bind selection gl_recentTabIds)\<rparr>)"

definition savedFile :: "bool \<Rightarrow> string \<Rightarrow> workspaceLayout \<Rightarrow> layoutViewRecord \<Rightarrow> layoutEditorFile \<Rightarrow> persistedOpenFile" where
  "savedFile own key ws view file =
     (let previewTabs = filter (\<lambda>t. isKind Editor t \<and> tb_isPreview t = Some True) (ws_tabs ws);
          draft = childAt (lv_editorDrafts view) key (editorFileKey own file)
      in layoutEditorFile.extend file (persistedOpenFile.fields (ws_worktreeId ws)
           (if list_ex (\<lambda>t. editorTabNamesFile own ws (tb_entityId t) file) previewTabs then Some True else None)
           (Option.bind draft dr_dirtyDraftContent) (Option.bind draft dr_lastKnownDiskSignature)))"

definition savedBrowserTab :: "string \<Rightarrow> string \<Rightarrow> layoutContentFacts \<Rightarrow> layoutBrowserTab \<Rightarrow> browserWorkspace" where
  "savedBrowserTab key worktreeId facts tab =
     layoutBrowserTab.extend tab (browserWorkspace.fields worktreeId
       (orElse (childAt (fc_browserTabs facts) key (bt_id tab)) BLANK_BROWSER_TAB_STATE))"

record workspaceMaps =
  wm_tabsByWorktree :: "(string \<times> terminalRow list) list"
  wm_terminalLayoutsByTabId :: "(string \<times> layoutSnapshot) list"
  wm_unifiedTabs :: "(string \<times> tabEntry list) list"
  wm_tabGroups :: "(string \<times> tabGroup list) list"
  wm_tabGroupLayouts :: "(string \<times> split_node) list"
  wm_openFilesByWorktree :: "(string \<times> persistedOpenFile list) list"
  wm_browserTabsByWorktree :: "(string \<times> browserWorkspace list) list"

definition saveWorkspace ::
  "bool \<Rightarrow> loadedLayout \<Rightarrow> workspaceMaps \<Rightarrow> string \<times> workspaceLayout \<Rightarrow> workspaceMaps" where
  "saveWorkspace own loaded session = (\<lambda>(key, ws).
     let scope = scopeOf key ws loaded;
         view = ld_desktopView loaded;
         tabs = savedTabs ws;
         rows = savedRows tabs scope;
         groups = map (savedGroup key view (ws_worktreeId ws)) (filter (\<lambda>g. gr_tabOrder g \<noteq> []) (ws_groups ws));
         m1 = session\<lparr>
           wm_terminalLayoutsByTabId := fold (\<lambda>(t, creation, panes). AList.update (tb_entityId t)
             (saveTerminalLayout t panes scope)) (terminalParts tabs) (wm_terminalLayoutsByTabId session),
           wm_tabsByWorktree := (if rows \<noteq> [] \<or> map_of (lg_terminalRowOwners (md_legacy (ld_layout loaded))) key \<noteq> None
             then AList.update key rows (wm_tabsByWorktree session) else wm_tabsByWorktree session)\<rparr>;
         m2 = (if groups = [] then m1 else m1\<lparr>
           wm_unifiedTabs := AList.update key (savedEntries own tabs (ws_groups ws) scope) (wm_unifiedTabs m1),
           wm_tabGroups := AList.update key groups (wm_tabGroups m1),
           wm_tabGroupLayouts := AList.update key
             (orElse (Option.bind (ws_groupLayout ws) (\<lambda>n. pruneGroupTree n (map sg_id groups)))
               (Leaf (sg_id (hd groups)))) (wm_tabGroupLayouts m1)\<rparr>);
         m3 = (case ws_editorFiles ws of
             None \<Rightarrow> m2
           | Some files \<Rightarrow> m2\<lparr>wm_openFilesByWorktree := AList.update key
               (map (savedFile own key ws view) files) (wm_openFilesByWorktree m2)\<rparr>)
     in case ws_browserTabs ws of
          None \<Rightarrow> m3
        | Some tabs \<Rightarrow> m3\<lparr>wm_browserTabsByWorktree := AList.update key
            (map (savedBrowserTab key (ws_worktreeId ws) (ld_facts loaded)) tabs) (wm_browserTabsByWorktree m3)\<rparr>)"

section \<open>Records of panes\<close>

record savedRecords =
  sv_sleeping :: "(string \<times> sleepingAgentSession) list"
  sv_incarnations :: "(string \<times> string) list"
  sv_closed :: "(string \<times> closedTerminalTabTombstone) list"

definition saveLeafRecords :: "workspaceLayout \<Rightarrow> string \<Rightarrow> savedRecords \<Rightarrow> string \<Rightarrow> savedRecords" where
  "saveLeafRecords ws entityId sv leafId =
     (let leaf = leafAt ws leafId;
          paneKey = paneKeyOf entityId leafId;
          sv1 = (case Option.bind leaf lf_incarnationId of
              None \<Rightarrow> sv
            | Some i \<Rightarrow> sv\<lparr>sv_incarnations := AList.update paneKey i (sv_incarnations sv)\<rparr>)
      in case Option.bind leaf (\<lambda>l. orElseOpt (lf_sleeping l) (lf_resume l)) of
           None \<Rightarrow> sv1
         | Some record' \<Rightarrow> sv1\<lparr>sv_sleeping := AList.update paneKey
             (layoutSleepingRecord.extend record' (sleepingAgentSession.fields paneKey (Some entityId) (ws_worktreeId ws)))
             (sv_sleeping sv1)\<rparr>)"

definition saveRecordsOf :: "savedRecords \<Rightarrow> workspaceLayout \<Rightarrow> savedRecords" where
  "saveRecordsOf sv ws =
     (let sv1 = foldl (\<lambda>s t. foldl (saveLeafRecords ws (tb_entityId t)) s (leafIdsOf t)) sv (ws_tabs ws)
      in sv1\<lparr>sv_closed := fold (\<lambda>(tabId, entry). AList.update tabId
           \<lparr>tt_closedAt = cl_closedAt entry, tt_worktreeId = ws_worktreeId ws, tt_reason = cl_reason entry\<rparr>)
           (orElse (ws_closedTerminalTabs ws) []) (sv_closed sv1)\<rparr>)"

definition saveWorkspaceRecords :: "loadedLayout \<Rightarrow> savedRecords" where
  "saveWorkspaceRecords loaded =
     foldl saveRecordsOf
       \<lparr>sv_sleeping = ca_unplacedSleepingRecords (ld_carried loaded),
        sv_incarnations = ca_unplacedIncarnations (ld_carried loaded),
        sv_closed = ca_unplacedClosedTabs (ld_carried loaded)\<rparr>
       (map snd (md_workspaces (ld_layout loaded)))"

section \<open>The session\<close>

definition viewFieldsOf :: "layoutViewRecord \<Rightarrow> viewFields" where
  "viewFieldsOf v = \<lparr>vf_activeRepoId = lv_activeRepoId v, vf_activeWorkspaceKey = lv_activeWorkspaceKey v,
     vf_activeWorkspaceExecutionHostId = lv_activeWorkspaceExecutionHostId v,
     vf_activeWorktreeId = lv_activeWorktreeId v, vf_activeTabId = lv_activeTabId v,
     vf_activeFileIdByWorktree = lv_activeFileIdByWorktree v,
     vf_markdownFrontmatterVisible = lv_markdownFrontmatterVisible v,
     vf_activeBrowserTabIdByWorktree = lv_activeBrowserTabIdByWorktree v,
     vf_activeTabTypeByWorktree = lv_activeTabTypeByWorktree v,
     vf_activeTabIdByWorktree = lv_activeTabIdByWorktree v,
     vf_activeGroupIdByWorktree = lv_activeGroupIdByWorktree v,
     vf_lastVisitedAtByWorktreeId = lv_lastVisitedAtByWorktreeId v\<rparr>"

definition emptyMaps :: "carriedSessionFields \<Rightarrow> workspaceMaps" where
  "emptyMaps carried = \<lparr>wm_tabsByWorktree = [], wm_terminalLayoutsByTabId = ca_unownedTerminalLayouts carried,
     wm_unifiedTabs = [], wm_tabGroups = [], wm_tabGroupLayouts = [], wm_openFilesByWorktree = [],
     wm_browserTabsByWorktree = []\<rparr>"

definition saveWorkspaceLayout :: "bool \<Rightarrow> loadedLayout \<Rightarrow> sessionState" where
  "saveWorkspaceLayout own loaded =
     (let m = ld_layout loaded;
          maps = foldl (saveWorkspace own loaded) (emptyMaps (ld_carried loaded)) (md_workspaces m);
          sv = saveWorkspaceRecords loaded
      in \<lparr>sx_view = viewFieldsOf (ld_desktopView loaded),
          sx_facts = factFields.truncate (ld_facts loaded),
          sx_carried = carriedFields.truncate (ld_carried loaded),
          sx_tabsByWorktree = wm_tabsByWorktree maps,
          sx_terminalLayoutsByTabId = wm_terminalLayoutsByTabId maps,
          sx_unifiedTabs = Some (wm_unifiedTabs maps),
          sx_tabGroups = Some (wm_tabGroups maps),
          sx_tabGroupLayouts = Some (wm_tabGroupLayouts maps),
          sx_openFilesByWorktree = Some (wm_openFilesByWorktree maps),
          sx_browserTabsByWorktree = Some (wm_browserTabsByWorktree maps),
          sx_clientHostedBrowserPages = rc_clientHostedBrowserPages (md_records m),
          sx_defaultTerminalTabsApplied = rc_defaultTabsApplied (md_records m),
          sx_sleepingAgentSessions = nonEmptyRecord (sv_sleeping sv),
          sx_terminalPtyIncarnations = nonEmptyRecord (sv_incarnations sv),
          sx_terminalTopologyRevision = lg_topologyRevision (md_legacy m),
          sx_terminalSurfaceTombstones = None,
          sx_closedTerminalTabTombstones = nonEmptyRecord (sv_closed sv),
          sx_closedTerminalPanes = rc_closedTerminalPanes (md_records m)\<rparr>)"

end
