(* ===== verification/Loaded_Panes.thy ===== *)
theory Loaded_Panes
  imports Load_Bindings
begin

text \<open>
  What loading the panes keeps: every pane of the partition has an id of its own, pane data belongs
  to panes, and nothing else of a workspace changes.
\<close>

section \<open>New pane ids\<close>

text \<open>
  \<open>stored\<close> are the pane ids of the loaded tabs, \<open>tabs\<close> the terminal tabs: ids made up for one of
  their panes are new, and differ.
\<close>

definition mintsNewLeaves :: "loadContext \<Rightarrow> string set \<Rightarrow> string set \<Rightarrow> bool" where
  "mintsNewLeaves ctx tabs stored \<longleftrightarrow>
     inj_on (lx_mintLeafId ctx) {leafSeed t n | t n. t \<in> tabs}
     \<and> lx_mintLeafId ctx ` {leafSeed t n | t n. t \<in> tabs} \<inter> stored = {}"

lemma natText_inj: "natText n = natText m \<Longrightarrow> n = m"
  using natText_digits [of n] natText_digits [of m] by metis

lemma colon_not_digit: "CHR '':'' \<notin> set (natText n)"
proof
  assume "CHR '':'' \<in> set (natText n)"
  moreover have "list_all (\<lambda>c. c \<in> set ''0123456789'') (natText n)" using natText_digits [of n] by simp
  ultimately have "CHR '':'' \<in> set ''0123456789''" unfolding list_all_iff by (rule bspec [rotated])
  then show False by simp
qed

lemma leafSeed_inj: "leafSeed t n = leafSeed u m \<Longrightarrow> t = u \<and> n = m"
proof -
  assume "leafSeed t n = leafSeed u m"
  then have "t @ '':'' @ natText n = u @ '':'' @ natText m" by (simp add: leafSeed_def)
  then have "rev (natText n) @ '':'' @ rev t = rev (natText m) @ '':'' @ rev u"
    by (metis (no_types, lifting) append.assoc rev_append rev_rev_ident rev_singleton_conv)
  then have "rev (natText n) = rev (natText m) \<and> rev t = rev u"
    using colon_not_digit [of n] colon_not_digit [of m]
    by (auto dest!: append_delim_inj)
  then show ?thesis using natText_inj by auto
qed

text \<open>Where a pane id that was seen comes from: stored, or made up for a tab walked before.\<close>

definition seenOk ::
  "loadContext \<Rightarrow> string set \<Rightarrow> string set \<Rightarrow> string \<Rightarrow> nat \<Rightarrow> string list \<Rightarrow> bool" where
  "seenOk ctx stored walked tab position seen \<longleftrightarrow>
     distinct seen \<and> (\<forall>l\<in>set seen. l \<in> stored
       \<or> (\<exists>t n. l = lx_mintLeafId ctx (leafSeed t n) \<and> (t \<in> walked \<or> t = tab \<and> n < position)))"

lemma seenOk_step:
  assumes mint: "mintsNewLeaves ctx tabs stored" and tab: "tab \<in> tabs" "walked \<subseteq> tabs" "tab \<notin> walked"
    and ok: "seenOk ctx stored walked tab position seen" and l: "l \<in> stored"
  defines "new \<equiv> if l \<in> set seen then lx_mintLeafId ctx (leafSeed tab position) else l"
  shows "seenOk ctx stored walked tab (Suc position) (seen @ [new])"
proof -
  have "lx_mintLeafId ctx (leafSeed tab position) \<notin> set seen"
  proof
    let ?new = "lx_mintLeafId ctx (leafSeed tab position)"
    assume "?new \<in> set seen"
    moreover have "?new \<notin> stored" using mint tab(1) unfolding mintsNewLeaves_def by blast
    ultimately obtain t n where t: "?new = lx_mintLeafId ctx (leafSeed t n)" "t \<in> walked \<or> t = tab \<and> n < position"
      using ok unfolding seenOk_def by blast
    then have "t \<in> tabs" using tab by blast
    with mint t(1) tab(1) have "leafSeed tab position = leafSeed t n"
      unfolding mintsNewLeaves_def by (blast dest: inj_onD)
    from leafSeed_inj [OF this] t(2) tab(3) show False by auto
  qed
  then have "new \<notin> set seen" by (simp add: new_def)
  moreover have "new \<in> stored \<or> (\<exists>t n. new = lx_mintLeafId ctx (leafSeed t n) \<and> (t \<in> walked \<or> t = tab \<and> n < Suc position))"
    using l by (auto simp: new_def)
  ultimately show ?thesis using ok unfolding seenOk_def by (fastforce intro: less_SucI)
qed

lemma remint_seen:
  assumes mint: "mintsNewLeaves ctx tabs stored" and tab: "tab \<in> tabs" "walked \<subseteq> tabs" "tab \<notin> walked"
    and ok: "seenOk ctx stored walked tab (rm_position rm) (rm_seen rm)" and t: "set (leafIds t) \<subseteq> stored"
    and r: "remintRepeatedLeaves t ctx tab rm = (t', rm')"
  shows "seenOk ctx stored walked tab (rm_position rm') (rm_seen rm') \<and> rm_seen rm' = rm_seen rm @ leafIds t'
     \<and> snd ` set (rm_renamed rm') \<subseteq> snd ` set (rm_renamed rm) \<union> set (leafIds t')"
  using ok t r
proof (induction t arbitrary: rm t' rm')
  case (Leaf i)
  let ?new = "if i \<in> set (rm_seen rm) then lx_mintLeafId ctx (leafSeed tab (rm_position rm)) else i"
  have "t' = Leaf ?new" "rm_seen rm' = rm_seen rm @ [?new]" "rm_position rm' = Suc (rm_position rm)"
    and ren: "rm_renamed rm' = (if map_of (rm_renamed rm) i = None then AList.update i ?new (rm_renamed rm) else rm_renamed rm)"
    using Leaf.prems(3) by (auto simp: remintLeaf_def Let_def)
  moreover have "snd ` set (AList.update i ?new (rm_renamed rm)) \<subseteq> insert ?new (snd ` set (rm_renamed rm))"
    using set_AList_update [of i ?new "rm_renamed rm"] by auto
  then have "snd ` set (rm_renamed rm') \<subseteq> insert ?new (snd ` set (rm_renamed rm))"
    unfolding ren by (cases "map_of (rm_renamed rm) i = None") (simp_all only: if_True if_False simp_thms subset_insertI)
  ultimately show ?case using seenOk_step [OF mint tab Leaf.prems(1), of i] Leaf.prems(2) by simp
next
  case (Split d a b r)
  obtain a' rm1 where a: "remintRepeatedLeaves a ctx tab rm = (a', rm1)" by force
  obtain b' rm2 where b: "remintRepeatedLeaves b ctx tab rm1 = (b', rm2)" by force
  from Split.prems(3) a b have t': "t' = Split d a' b' r" "rm' = rm2" by simp_all
  have A: "seenOk ctx stored walked tab (rm_position rm1) (rm_seen rm1)" "rm_seen rm1 = rm_seen rm @ leafIds a'"
    "snd ` set (rm_renamed rm1) \<subseteq> snd ` set (rm_renamed rm) \<union> set (leafIds a')"
    using Split.IH(1) [OF Split.prems(1) _ a] Split.prems(2) by auto
  have B: "seenOk ctx stored walked tab (rm_position rm2) (rm_seen rm2)" "rm_seen rm2 = rm_seen rm1 @ leafIds b'"
    "snd ` set (rm_renamed rm2) \<subseteq> snd ` set (rm_renamed rm1) \<union> set (leafIds b')"
    using Split.IH(2) [OF A(1) _ b] Split.prems(2) by auto
  from A(3) B(3) have "snd ` set (rm_renamed rm2) \<subseteq> snd ` set (rm_renamed rm) \<union> (set (leafIds a') \<union> set (leafIds b'))"
    by blast
  with A B t' show ?case by simp
qed

text \<open>The first pane of an id keeps it; no id that is new to the partition is changed.\<close>

lemma remint_same:
  assumes "distinct (rm_seen rm @ leafIds t)" "remintRepeatedLeaves t ctx tab rm = (t', rm')"
    and "map fst (rm_renamed rm) = map snd (rm_renamed rm)" "fst ` set (rm_renamed rm) \<subseteq> set (rm_seen rm)"
  shows "t' = t \<and> rm_seen rm' = rm_seen rm @ leafIds t
     \<and> rm_renamed rm' = rm_renamed rm @ map (\<lambda>l. (l, l)) (leafIds t)"
  using assms
proof (induction t arbitrary: rm t' rm')
  case (Leaf i)
  then have "i \<notin> set (rm_seen rm)" by simp
  with Leaf.prems(4) have "map_of (rm_renamed rm) i = None" "i \<notin> fst ` set (rm_renamed rm)"
    by (auto simp: map_of_eq_None_iff)
  with Leaf.prems \<open>i \<notin> set (rm_seen rm)\<close> show ?case by (auto simp: remintLeaf_def Let_def map_snd_update_new)
next
  case (Split d a b r)
  obtain a' rm1 where a: "remintRepeatedLeaves a ctx tab rm = (a', rm1)" by force
  obtain b' rm2 where b: "remintRepeatedLeaves b ctx tab rm1 = (b', rm2)" by force
  from Split.prems(2) a b have t': "t' = Split d a' b' r" "rm' = rm2" by simp_all
  from Split.prems(1) have "distinct (rm_seen rm @ leafIds a)" by auto
  from Split.IH(1) [OF this a Split.prems(3,4)] have A: "a' = a" "rm_seen rm1 = rm_seen rm @ leafIds a"
    "rm_renamed rm1 = rm_renamed rm @ map (\<lambda>l. (l, l)) (leafIds a)" by simp_all
  have "distinct (rm_seen rm1 @ leafIds b)" using Split.prems(1) A(2) by simp
  moreover have "map fst (rm_renamed rm1) = map snd (rm_renamed rm1)" "fst ` set (rm_renamed rm1) \<subseteq> set (rm_seen rm1)"
    using A(2,3) Split.prems(3,4) by auto
  ultimately have "b' = b \<and> rm_seen rm2 = rm_seen rm1 @ leafIds b
     \<and> rm_renamed rm2 = rm_renamed rm1 @ map (\<lambda>l. (l, l)) (leafIds b)" by (rule Split.IH(2) [OF _ b])
  with A t' show ?case by simp
qed

section \<open>The panes walked so far\<close>

lemma update_at:
  assumes "distinct (map fst es)" "map_of es k = Some v"
  obtains as bs where "es = as @ (k, v) # bs" "k \<notin> fst ` set as" "k \<notin> fst ` set bs"
    "\<And>v'. AList.update k v' es = as @ (k, v') # bs"
proof -
  from map_of_SomeD [OF assms(2)] obtain as bs where es: "es = as @ (k, v) # bs" by (meson split_list)
  with assms(1) have n: "k \<notin> fst ` set as" "k \<notin> fst ` set bs" by auto
  have "AList.update k v' (as @ (k, v) # bs) = as @ (k, v') # bs" for v'
    using n(1) by (induction as) auto
  with es n that show thesis by blast
qed

definition doneIn :: "(string \<times> string) set \<Rightarrow> string \<times> workspaceLayout \<Rightarrow> string list" where
  "doneIn left = (\<lambda>(k, w). concat (map leafIdsOf (filter (\<lambda>t. (k, tb_id t) \<notin> left) (ws_tabs w))))"

abbreviation leftIds :: "(string \<times> layoutTab) list \<Rightarrow> (string \<times> string) set" where
  "leftIds rest \<equiv> (\<lambda>(k, t). (k, tb_id t)) ` set rest"

definition leavesInv :: "loadContext \<Rightarrow> string set \<Rightarrow> string set \<Rightarrow> (string \<times> layoutTab) list \<Rightarrow> leavesProgress \<Rightarrow> bool" where
  "leavesInv ctx stored walked rest z \<longleftrightarrow> (let W = md_workspaces (lz_layout z) in
     distinct (map fst W) \<and> (\<forall>(k, w)\<in>set W. distinct (tabIds w))
     \<and> (\<forall>(k, t)\<in>set rest. \<exists>w. map_of W k = Some w \<and> t \<in> set (ws_tabs w))
     \<and> distinct (map (\<lambda>(k, t). (k, tb_id t)) rest)
     \<and> mset (concat (map (doneIn (leftIds rest)) W)) = mset (lz_seen z)
     \<and> seenOk ctx stored walked [] 0 (lz_seen z)
     \<and> (\<forall>(k, w)\<in>set W. wf_leaves (doneIn (leftIds rest) (k, w)) (ws_leaves w)))"

definition shapeOf :: "string \<times> workspaceLayout \<Rightarrow> string \<times> string list \<times> layoutGroup list \<times> split_node option" where
  "shapeOf = (\<lambda>(k, w). (k, tabIds w, ws_groups w, ws_groupLayout w))"

lemma wf_leaves_sub: "wf_leaves panes ls \<Longrightarrow> set panes \<subseteq> set panes' \<Longrightarrow> wf_leaves panes' ls"
  by (auto simp: wf_leaves_def)

lemma loadLeaf_exclusive: "loadLeaf layout l key records = (leaf, records') \<Longrightarrow> lf_sleeping leaf = None \<or> lf_resume leaf = None"
  by (auto simp: loadLeaf_def Let_def)

text \<open>Placing the data of some panes of a workspace writes pane data there and nothing else.\<close>

lemma placeLeaves_ok:
  assumes "workspaceAt (lz_layout z) k = Some w" "wf_leaves panes (ws_leaves w)" "snd ` set xs \<subseteq> set panes"
  shows "lz_seen (foldl (placeLeaf ctx layout k tabId) z xs) = lz_seen z
     \<and> (\<exists>ls. lz_layout (foldl (placeLeaf ctx layout k tabId) z xs) = withWorkspace (lz_layout z) k (w\<lparr>ws_leaves := ls\<rparr>)
          \<and> wf_leaves panes ls)"
  using assms
proof (induction xs arbitrary: z w)
  case Nil
  then have "withWorkspace (lz_layout z) k (w\<lparr>ws_leaves := ws_leaves w\<rparr>) = lz_layout z"
    by (simp add: withWorkspace_def update_triv)
  with Nil show ?case by (metis foldl_Nil)
next
  case (Cons x xs)
  obtain storedId leafId where x: "x = (storedId, leafId)" by force
  obtain loaded records where l: "loadLeaf layout storedId (paneKeyOf tabId storedId) (lz_records z) = (loaded, records)" by force
  let ?z = "placeLeaf ctx layout k tabId z x"
  let ?leaf = "if leafId \<noteq> storedId then loaded\<lparr>lf_ptyId := None\<rparr>
           else loaded\<lparr>lf_ptyGeneration := lx_ptyGenerationOf ctx leafId\<rparr>"
  have excl: "lf_sleeping ?leaf = None \<or> lf_resume ?leaf = None" using loadLeaf_exclusive [OF l] by simp
  have seen: "lz_seen ?z = lz_seen z" using x l by (simp add: placeLeaf_def Let_def)
  have lay: "lz_layout ?z = (if ?leaf = emptyLeaf then lz_layout z
      else withWorkspace (lz_layout z) k (w\<lparr>ws_leaves := Some (AList.update leafId ?leaf (orElse (ws_leaves w) []))\<rparr>))"
    using x l Cons.prems(1) unfolding placeLeaf_def Let_def by simp
  show ?case
  proof (cases "?leaf = emptyLeaf")
    case True
    with lay have "lz_layout ?z = lz_layout z" by simp
    with Cons.IH [of ?z w] Cons.prems seen show ?thesis by simp
  next
    case False
    let ?w = "w\<lparr>ws_leaves := Some (AList.update leafId ?leaf (orElse (ws_leaves w) []))\<rparr>"
    from False lay have L: "lz_layout ?z = withWorkspace (lz_layout z) k ?w" by simp
    have "wf_leaves panes (Some (AList.update leafId ?leaf (orElse (ws_leaves w) [])))"
      using Cons.prems(2,3) x excl by (intro wf_leaves_update) auto
    then have "wf_leaves panes (ws_leaves ?w)" by simp
    with Cons.IH [of ?z ?w] Cons.prems(3) L seen show ?thesis by simp
  qed
qed

lemma seenOk_start: "seenOk ctx stored walked tab 0 seen = seenOk ctx stored walked [] 0 seen"
  by (simp add: seenOk_def)

lemma seenOk_end: "seenOk ctx stored walked tab position seen \<Longrightarrow> seenOk ctx stored (insert tab walked) [] 0 seen"
  unfolding seenOk_def by blast

text \<open>The new tree of a tab, with the ids seen and the renamings.\<close>

definition remintRoot :: "loadContext \<Rightarrow> string \<Rightarrow> string list \<Rightarrow> split_node option \<Rightarrow> split_node option \<times> remint" where
  "remintRoot ctx tabId seen rootNode =
     (let start = \<lparr>rm_seen = seen, rm_renamed = [], rm_position = 0\<rparr>
      in case rootNode of
           None \<Rightarrow> (None, start)
         | Some n \<Rightarrow> let (n', rm') = remintRepeatedLeaves n ctx tabId start in (Some n', rm'))"

lemma remintRoot_seen:
  assumes "mintsNewLeaves ctx tabs stored" "tab \<in> tabs" "walked \<subseteq> tabs" "tab \<notin> walked"
    and "seenOk ctx stored walked [] 0 seen" "set (optIds rootNode) \<subseteq> stored"
    and r: "remintRoot ctx tab seen rootNode = (rootNode', rm)"
  shows "seenOk ctx stored (insert tab walked) [] 0 (rm_seen rm) \<and> rm_seen rm = seen @ optIds rootNode'
     \<and> snd ` set (rm_renamed rm) \<subseteq> set (optIds rootNode')"
proof (cases rootNode)
  case None
  with r have "rootNode' = None" "rm = \<lparr>rm_seen = seen, rm_renamed = [], rm_position = 0\<rparr>"
    by (simp_all add: remintRoot_def)
  moreover have "seenOk ctx stored (insert tab walked) [] 0 seen"
    using assms(5) seenOk_start [of ctx stored walked tab seen] seenOk_end [of ctx stored walked tab 0 seen] by simp
  ultimately show ?thesis by simp
next
  case (Some n)
  let ?start = "\<lparr>rm_seen = seen, rm_renamed = [], rm_position = 0\<rparr>"
  obtain n' rm' where n: "remintRepeatedLeaves n ctx tab ?start = (n', rm')" by force
  with Some r have r': "rootNode' = Some n'" "rm = rm'" by (simp_all add: remintRoot_def)
  have start: "seenOk ctx stored walked tab (rm_position ?start) (rm_seen ?start)"
    using assms(5) seenOk_start [of ctx stored walked tab seen] by simp
  have sub: "set (leafIds n) \<subseteq> stored" using assms(6) Some by simp
  note R0 = remint_seen [OF assms(1-4) start sub n]
  have R: "seenOk ctx stored walked tab (rm_position rm') (rm_seen rm')" "rm_seen rm' = seen @ leafIds n'"
    "snd ` set (rm_renamed rm') \<subseteq> set (leafIds n')"
    using conjunct1 [OF R0] conjunct1 [OF conjunct2 [OF R0]] conjunct2 [OF conjunct2 [OF R0]] by simp_all
  from seenOk_end [OF R(1)] R(2,3) r' show ?thesis by (metis optIds_simps(2))
qed

definition mapIds :: "(string \<times> string) list \<Rightarrow> string \<Rightarrow> string" where
  "mapIds ids l = orElse (map_of ids l) l"

lemma loadTabLeaves_eq:
  assumes "map_of layouts (tb_entityId t) = Some layout" "panesOf t = Some panes"
    and "remintRoot ctx (tb_entityId t) (lz_seen z) (tp_root panes) = (rootNode, rm)"
  shows "loadTabLeaves ctx layouts z (k, t) = foldl (placeLeaf ctx layout k (tb_entityId t))
     (z\<lparr>lz_seen := rm_seen rm,
        lz_layout := withWorkspace (lz_layout z) k (replaceTab (workspaceOrEmpty (lz_layout z) k) (withPanes
          \<lparr>tp_root = rootNode, tp_chatLeafId = map_option (mapIds (rm_renamed rm)) (tp_chatLeafId panes)\<rparr> t)),
        lz_view := (lz_view z)\<lparr>lv_panes := AList.update (tb_entityId t)
          \<lparr>pz_activeLeafId = map_option (mapIds (rm_renamed rm)) (sl_activeLeafId layout),
           pz_expandedLeafId = map_option (mapIds (rm_renamed rm)) (sl_expandedLeafId layout)\<rparr> (lv_panes (lz_view z))\<rparr>\<rparr>)
     (rm_renamed rm)"
  using assms by (simp add: loadTabLeaves_def remintRoot_def Let_def mapIds_def [abs_def] split: option.splits prod.splits)

lemma doneIn_other: "k' \<noteq> k \<Longrightarrow> doneIn (insert (k, i) left) (k', w) = doneIn left (k', w)"
  by (simp add: doneIn_def)

lemma doneIn_walked:
  assumes "distinct (tabIds w)" "t \<in> set (ws_tabs w)" "tb_id t' = tb_id t" "(k, tb_id t) \<notin> left"
  shows "mset (doneIn left (k, (replaceTab w t')\<lparr>ws_leaves := ls\<rparr>))
     = mset (doneIn (insert (k, tb_id t) left) (k, w)) + mset (leafIdsOf t')"
proof -
  from assms(2) obtain as bs where w: "ws_tabs w = as @ t # bs" by (meson split_list)
  with assms(1) have n: "tb_id t \<notin> tb_id ` set as" "tb_id t \<notin> tb_id ` set bs" by auto
  have "replaceBy tb_id (tb_id t') t' (ws_tabs w) = as @ t' # bs"
    using w assms(3) replaceBy_absent [OF n(1), of t'] replaceBy_absent [OF n(2), of t'] by simp
  moreover have F: "filter (\<lambda>u. (k, tb_id u) \<notin> insert (k, tb_id t) left) us = filter (\<lambda>u. (k, tb_id u) \<notin> left) us"
    if "tb_id t \<notin> tb_id ` set us" for us using that by (intro filter_cong refl) (metis image_eqI insert_iff prod.inject)
  ultimately show ?thesis using w n assms(3,4) F [OF n(1)] F [OF n(2)] by (simp add: doneIn_def)
qed

lemma loadTabLeaves_ok:
  assumes mint: "mintsNewLeaves ctx tabs stored" and inv: "leavesInv ctx stored walked ((k, t) # rest) z"
    and e: "tb_entityId t \<in> tabs" "walked \<subseteq> tabs" "tb_entityId t \<notin> walked" and sub: "set (leafIdsOf t) \<subseteq> stored"
    and lay: "map_of layouts (tb_entityId t) = Some layout" and panes: "panesOf t = Some panes"
  shows "leavesInv ctx stored (insert (tb_entityId t) walked) rest (loadTabLeaves ctx layouts z (k, t))
     \<and> map shapeOf (md_workspaces (lz_layout (loadTabLeaves ctx layouts z (k, t)))) = map shapeOf (md_workspaces (lz_layout z))"
proof -
  let ?W = "md_workspaces (lz_layout z)" and ?L = "leftIds ((k, t) # rest)" and ?L' = "leftIds rest"
  let ?z = "loadTabLeaves ctx layouts z (k, t)"
  from inv have d: "distinct (map fst ?W)" "\<forall>(k, w)\<in>set ?W. distinct (tabIds w)"
    "\<forall>(k, t)\<in>set ((k, t) # rest). \<exists>w. map_of ?W k = Some w \<and> t \<in> set (ws_tabs w)"
    "distinct (map (\<lambda>(k, t). (k, tb_id t)) ((k, t) # rest))"
    "mset (concat (map (doneIn ?L) ?W)) = mset (lz_seen z)" "seenOk ctx stored walked [] 0 (lz_seen z)"
    "\<forall>(k, w)\<in>set ?W. wf_leaves (doneIn ?L (k, w)) (ws_leaves w)" unfolding leavesInv_def Let_def by blast+
  from d(3) obtain w where w: "map_of ?W k = Some w" "t \<in> set (ws_tabs w)" by auto
  have L: "?L = insert (k, tb_id t) ?L'" by simp
  have notin: "(k, tb_id t) \<notin> ?L'" using d(4) by auto
  obtain as bs where W: "?W = as @ (k, w) # bs" "k \<notin> fst ` set as" "k \<notin> fst ` set bs"
    and upd: "\<And>v. AList.update k v ?W = as @ (k, v) # bs" by (rule update_at [OF d(1) w(1)]) blast
  have dw: "distinct (tabIds w)" using d(2) W(1) by auto
  obtain rootNode rm where rm: "remintRoot ctx (tb_entityId t) (lz_seen z) (tp_root panes) = (rootNode, rm)" by force
  obtain c where body: "tb_body t = TerminalBody c panes" using panes by (auto simp: panesOf_def split: tab_body.splits)
  with sub have "set (optIds (tp_root panes)) \<subseteq> stored" by simp
  from remintRoot_seen [OF mint e d(6) this rm] have seen:
    "seenOk ctx stored (insert (tb_entityId t) walked) [] 0 (rm_seen rm)" "rm_seen rm = lz_seen z @ optIds rootNode"
    "snd ` set (rm_renamed rm) \<subseteq> set (optIds rootNode)" by blast+
  define t' where "t' = withPanes \<lparr>tp_root = rootNode,
    tp_chatLeafId = map_option (mapIds (rm_renamed rm)) (tp_chatLeafId panes)\<rparr> t"
  have t': "tb_id t' = tb_id t" "leafIdsOf t' = optIds rootNode" using body by (simp_all add: t'_def)
  define z1 where "z1 = z\<lparr>lz_seen := rm_seen rm, lz_layout := withWorkspace (lz_layout z) k (replaceTab w t'),
    lz_view := (lz_view z)\<lparr>lv_panes := AList.update (tb_entityId t)
          \<lparr>pz_activeLeafId = map_option (mapIds (rm_renamed rm)) (sl_activeLeafId layout),
           pz_expandedLeafId = map_option (mapIds (rm_renamed rm)) (sl_expandedLeafId layout)\<rparr> (lv_panes (lz_view z))\<rparr>\<rparr>"
  have z: "?z = foldl (placeLeaf ctx layout k (tb_entityId t)) z1 (rm_renamed rm)"
    using loadTabLeaves_eq [OF lay panes rm, of k] w(1) by (simp add: z1_def t'_def workspaceOrEmpty_def)
  let ?w1 = "replaceTab w t'"
  have doneM: "mset (doneIn ?L' (k, ?w1\<lparr>ws_leaves := ls\<rparr>)) = mset (doneIn ?L (k, w)) + mset (optIds rootNode)" for ls
    using doneIn_walked [OF dw w(2) t'(1) notin, of ls] t'(2) unfolding L by simp
  have at1: "workspaceAt (lz_layout z1) k = Some ?w1" by (simp add: z1_def)
  define panes1 where "panes1 = doneIn ?L' (k, ?w1\<lparr>ws_leaves := None\<rparr>)"
  have p1: "set panes1 = set (doneIn ?L (k, w)) \<union> set (optIds rootNode)"
    using mset_eq_setD [of panes1 "doneIn ?L (k, w) @ optIds rootNode"] doneM [of None] by (simp add: panes1_def)
  have "wf_leaves (doneIn ?L (k, w)) (ws_leaves w)" using d(7) W(1) by auto
  then have wl: "wf_leaves panes1 (ws_leaves ?w1)" using p1 by (auto intro: wf_leaves_sub)
  have sub1: "snd ` set (rm_renamed rm) \<subseteq> set panes1" using seen(3) p1 by blast
  have "lz_seen z1 = rm_seen rm" by (simp add: z1_def)
  note P = placeLeaves_ok [OF at1 wl sub1, of ctx layout "tb_entityId t", folded z]
  from conjunct1 [OF P] \<open>lz_seen z1 = rm_seen rm\<close> have seenz: "lz_seen ?z = rm_seen rm" by (rule trans)
  with conjunct2 [OF P] obtain ls where
    ls: "lz_seen ?z = rm_seen rm" "lz_layout ?z = withWorkspace (lz_layout z1) k (?w1\<lparr>ws_leaves := ls\<rparr>)" "wf_leaves panes1 ls"
    by blast
  let ?w' = "?w1\<lparr>ws_leaves := ls\<rparr>"
  have W': "md_workspaces (lz_layout ?z) = as @ (k, ?w') # bs"
    using ls(2) upd by (simp add: z1_def) (simp add: withWorkspace_def)
  have same: "doneIn ?L' (k', v) = doneIn ?L (k', v)" if "(k', v) \<in> set as \<union> set bs" for k' v
    using that W(2,3) doneIn_other [of k' k "tb_id t" ?L' v] unfolding L by force
  have eqs: "map (doneIn ?L') as = map (doneIn ?L) as" "map (doneIn ?L') bs = map (doneIn ?L) bs"
    using same by (auto simp del: doneIn_def)
  have panes': "doneIn ?L' (k, ?w') = panes1" by (simp add: panes1_def doneIn_def)
  have "mset (concat (map (doneIn ?L') (as @ (k, ?w') # bs))) = mset (lz_seen ?z)"
  proof -
    have "mset (concat (map (doneIn ?L') (as @ (k, ?w') # bs)))
        = mset (concat (map (doneIn ?L) (as @ (k, w) # bs))) + mset (optIds rootNode)"
      using doneM [of ls] by (simp add: eqs)
    then show ?thesis using d(5) W(1) ls(1) seen(2) by simp
  qed
  moreover have "\<forall>(k', v)\<in>set (as @ (k, ?w') # bs). wf_leaves (doneIn ?L' (k', v)) (ws_leaves v)"
  proof clarify
    fix k' v assume v: "(k', v) \<in> set (as @ (k, ?w') # bs)"
    show "wf_leaves (doneIn ?L' (k', v)) (ws_leaves v)"
    proof (cases "(k', v) = (k, ?w')")
      case True
      then have "k' = k" "v = ?w'" by simp_all
      with ls(3) panes' show ?thesis by simp
    next
      case False
      with v have v': "(k', v) \<in> set as \<union> set bs" by auto
      then have "(k', v) \<in> set ?W" using W(1) by auto
      from bspec [OF d(7) this] same [OF v'] show ?thesis by simp
    qed
  qed
  moreover have "\<forall>(k', u)\<in>set rest. \<exists>v. map_of (as @ (k, ?w') # bs) k' = Some v \<and> u \<in> set (ws_tabs v)"
  proof clarify
    fix k' u assume u: "(k', u) \<in> set rest"
    with d(3) obtain v where v: "map_of ?W k' = Some v" "u \<in> set (ws_tabs v)" by auto
    show "\<exists>v. map_of (as @ (k, ?w') # bs) k' = Some v \<and> u \<in> set (ws_tabs v)"
    proof (cases "k' = k")
      case True
      with v w(1) have "u \<in> set (ws_tabs w)" by simp
      moreover have "tb_id u \<noteq> tb_id t" using notin u True by force
      ultimately have "u \<in> set (ws_tabs ?w')" by (auto simp: replaceBy_def t'(1) image_iff)
      moreover have "map_of (as @ (k, ?w') # bs) k = Some ?w'"
        using W(2) by (simp add: map_add_def map_of_eq_None_iff [THEN iffD2])
      ultimately show ?thesis using True by auto
    next
      case False
      with v W(1) show ?thesis by (simp add: map_add_def split: option.splits)
    qed
  qed
  moreover have "distinct (map fst (as @ (k, ?w') # bs))" using d(1) W(1) by simp
  moreover have "\<forall>(k, w)\<in>set (as @ (k, ?w') # bs). distinct (tabIds w)" using d(2) W(1) t'(1) by auto
  moreover have "distinct (map (\<lambda>(k, t). (k, tb_id t)) rest)" using d(4) by simp
  moreover have "seenOk ctx stored (insert (tb_entityId t) walked) [] 0 (lz_seen ?z)" using seen(1) ls(1) by simp
  moreover have "map shapeOf (as @ (k, ?w') # bs) = map shapeOf ?W" using W(1) t'(1) by (simp add: shapeOf_def)
  ultimately show ?thesis unfolding leavesInv_def Let_def W' by blast
qed

text \<open>The whole walk.\<close>

lemma loadLeaves_walk:
  assumes mint: "mintsNewLeaves ctx tabs stored"
  shows "leavesInv ctx stored walked xs z \<Longrightarrow> walked \<subseteq> tabs \<Longrightarrow> distinct (map (tb_entityId \<circ> snd) xs)
     \<Longrightarrow> walked \<inter> set (map (tb_entityId \<circ> snd) xs) = {}
     \<Longrightarrow> \<forall>(k, t)\<in>set xs. tb_entityId t \<in> tabs \<and> set (leafIdsOf t) \<subseteq> stored
          \<and> map_of layouts (tb_entityId t) \<noteq> None \<and> panesOf t \<noteq> None
     \<Longrightarrow> leavesInv ctx stored (walked \<union> set (map (tb_entityId \<circ> snd) xs)) [] (foldl (loadTabLeaves ctx layouts) z xs)
       \<and> map shapeOf (md_workspaces (lz_layout (foldl (loadTabLeaves ctx layouts) z xs))) = map shapeOf (md_workspaces (lz_layout z))"
proof (induction xs arbitrary: walked z)
  case (Cons x xs)
  obtain k t where x: "x = (k, t)" by force
  from Cons.prems(5) x obtain layout panes where
    t: "tb_entityId t \<in> tabs" "set (leafIdsOf t) \<subseteq> stored" "map_of layouts (tb_entityId t) = Some layout" "panesOf t = Some panes"
    by auto
  have n: "tb_entityId t \<notin> walked" using Cons.prems(4) x by simp
  note S = loadTabLeaves_ok [OF mint Cons.prems(1) [unfolded x] t(1) Cons.prems(2) n t(2,3,4)]
  have n': "insert (tb_entityId t) walked \<inter> set (map (tb_entityId \<circ> snd) xs) = {}"
    using Cons.prems(3,4) x by simp
  have w: "insert (tb_entityId t) walked \<subseteq> tabs" using t(1) Cons.prems(2) by simp
  have d: "distinct (map (tb_entityId \<circ> snd) xs)" using Cons.prems(3) by (simp add: comp_def)
  have r: "\<forall>(k, t)\<in>set xs. tb_entityId t \<in> tabs \<and> set (leafIdsOf t) \<subseteq> stored
          \<and> map_of layouts (tb_entityId t) \<noteq> None \<and> panesOf t \<noteq> None"
    using Cons.prems(5) by simp
  note R = Cons.IH [OF conjunct1 [OF S] w d n' r]
  have sets: "walked \<union> set (map (tb_entityId \<circ> snd) (x # xs)) = insert (tb_entityId t) walked \<union> set (map (tb_entityId \<circ> snd) xs)"
    using x by simp
  show ?case unfolding foldl_Cons x
    using conjunct1 [OF R] trans [OF conjunct2 [OF R] conjunct2 [OF S]] sets [unfolded x] by (simp only: simp_thms)
qed simp

section \<open>A loaded partition\<close>

text \<open>
  The partition before its panes are loaded: tabs and groups as the workspaces were loaded, no pane
  data, and no terminal row shown by two tabs.
\<close>

definition loadedShape :: "(string \<times> workspaceLayout) list \<Rightarrow> bool" where
  "loadedShape W \<longleftrightarrow> distinct (map fst W)
     \<and> (\<forall>(k, w)\<in>set W. distinct (tabIds w) \<and> wf_groups {} (tabIds w) (ws_groups w) \<and> ws_leaves w = None)
     \<and> distinct (concat (map (\<lambda>(k, w). map tb_entityId (filter isTerminal (ws_tabs w))) W))"

lemma filter_mset_cong: "mset xs = mset ys \<Longrightarrow> mset (filter P xs) = mset (filter P ys)"
  by (metis mset_filter)

lemma terminalTabs_mset:
  assumes "loadedShape W" "md_workspaces m = W"
  shows "mset (terminalTabsInOrder m) = mset (concat (map (\<lambda>(k, w). map (Pair k) (filter isTerminal (ws_tabs w))) W))"
proof -
  have "mset (map (Pair k) (filter isTerminal (tabsInOrder w))) = mset (map (Pair k) (filter isTerminal (ws_tabs w)))"
    if "(k, w) \<in> set W" for k w
  proof -
    from that assms(1) have "distinct (tabIds w)" "wf_groups {} (tabIds w) (ws_groups w)" by (auto simp: loadedShape_def)
    from tabsInOrder_grouped(2) [OF this] have "mset (filter isTerminal (tabsInOrder w)) = mset (filter isTerminal (ws_tabs w))"
      by (rule filter_mset_cong)
    then show ?thesis by (simp only: mset_map)
  qed
  then have "map (\<lambda>x. mset (case x of (k, w) \<Rightarrow> map (Pair k) (filter isTerminal (tabsInOrder w)))) W
     = map (\<lambda>x. mset (case x of (k, w) \<Rightarrow> map (Pair k) (filter isTerminal (ws_tabs w)))) W"
    by (intro map_cong refl) auto
  then show ?thesis unfolding terminalTabsInOrder_def assms(2) mset_concat map_map comp_def by (rule arg_cong)
qed

lemma distinct_pairs:
  assumes "distinct (map fst W)" "\<forall>(k, w)\<in>set W. distinct (map f (g w))"
  shows "distinct (concat (map (\<lambda>(k, w). map (\<lambda>t. (k, f t)) (g w)) W))"
  using assms
proof (induction W)
  case (Cons x W)
  obtain k w where x: "x = (k, w)" by force
  have "distinct (map (\<lambda>t. (k, f t)) (g w))"
    using Cons.prems(2) x by (auto simp: distinct_map inj_on_def)
  with Cons x show ?case by (auto simp: image_iff)
qed simp

lemma leavesInv_start:
  assumes "loadedShape W" "md_workspaces m = W"
  shows "leavesInv ctx stored {} (terminalTabsInOrder m)
     \<lparr>lz_layout = m, lz_view = view, lz_facts = facts, lz_records = records, lz_seen = []\<rparr>"
proof -
  let ?xs = "terminalTabsInOrder m"
  have ids: "mset ?xs = mset (concat (map (\<lambda>(k, w). map (Pair k) (filter isTerminal (ws_tabs w))) W))"
    by (rule terminalTabs_mset [OF assms])
  from mset_eq_setD [OF ids] have set: "set ?xs = {(k, t) | k w t. (k, w) \<in> set W \<and> t \<in> set (ws_tabs w) \<and> isTerminal t}"
    by (auto 4 4)
  have nil: "doneIn (leftIds ?xs) (k, w) = []" if "(k, w) \<in> set W" for k w
  proof -
    have "leafIdsOf t = []" if "t \<in> set (ws_tabs w)" "(k, tb_id t) \<notin> leftIds ?xs" for t
    proof -
      have "\<not> isTerminal t" using that \<open>(k, w) \<in> set W\<close> set by force
      then show ?thesis by (simp add: isTerminal_def split: tab_body.splits)
    qed
    then show ?thesis by (auto simp: doneIn_def)
  qed
  have dW: "distinct (map fst W)" using assms(1) by (simp add: loadedShape_def)
  have "distinct (concat (map (\<lambda>(k, w). map (\<lambda>t. (k, tb_id t)) (filter isTerminal (ws_tabs w))) W))"
    using assms(1) by (intro distinct_pairs [OF dW]) (auto simp: loadedShape_def distinct_map intro: inj_on_subset)
  moreover have "mset (map (\<lambda>(k, t). (k, tb_id t)) ?xs)
     = mset (concat (map (\<lambda>(k, w). map (\<lambda>t. (k, tb_id t)) (filter isTerminal (ws_tabs w))) W))"
    using arg_cong [OF ids, of "image_mset (\<lambda>(k, t). (k, tb_id t))"] unfolding mset_map [symmetric]
    by (simp add: map_concat comp_def case_prod_unfold)
  ultimately have "distinct (map (\<lambda>(k, t). (k, tb_id t)) ?xs)" by (metis mset_eq_imp_distinct_iff)
  moreover have "\<forall>(k, t)\<in>set ?xs. \<exists>w. map_of W k = Some w \<and> t \<in> set (ws_tabs w)"
    using set dW by auto
  moreover have "\<forall>(k, w)\<in>set W. distinct (tabIds w)" "\<forall>(k, w)\<in>set W. wf_leaves (doneIn (leftIds ?xs) (k, w)) (ws_leaves w)"
    using assms(1) by (auto simp: loadedShape_def wf_leaves_def)
  moreover have "concat (map (doneIn (leftIds ?xs)) W) = []" using nil by auto
  ultimately show ?thesis using dW assms(2) by (simp add: leavesInv_def Let_def seenOk_def)
qed

text \<open>
  Once every pane is loaded, no two panes of the partition have one id, and pane data is that of
  panes; tabs and groups are as they were.
\<close>

lemma loadLeaves_ok:
  assumes mint: "mintsNewLeaves ctx tabs stored" and shape: "loadedShape (md_workspaces m)"
    and tabs: "\<And>k w t. (k, w) \<in> set (md_workspaces m) \<Longrightarrow> t \<in> set (ws_tabs w) \<Longrightarrow> isTerminal t
      \<Longrightarrow> tb_entityId t \<in> tabs \<and> set (leafIdsOf t) \<subseteq> stored \<and> map_of layouts (tb_entityId t) \<noteq> None"
    and m'_def: "m' = lz_layout (loadLeaves ctx layouts session m view facts)"
  shows "distinct (allPaneIds m')" "map shapeOf (md_workspaces m') = map shapeOf (md_workspaces m)"
    and "\<forall>(k, w)\<in>set (md_workspaces m'). wf_leaves (paneIds w) (ws_leaves w)"
proof -
  let ?xs = "terminalTabsInOrder m"
  have ids: "mset ?xs = mset (concat (map (\<lambda>(k, w). map (Pair k) (filter isTerminal (ws_tabs w))) (md_workspaces m)))"
    by (rule terminalTabs_mset [OF shape refl])
  from mset_eq_setD [OF ids] have set: "set ?xs = {(k, t) | k w t. (k, w) \<in> set (md_workspaces m) \<and> t \<in> set (ws_tabs w) \<and> isTerminal t}"
    by (auto 4 4)
  have "mset (map (tb_entityId \<circ> snd) ?xs) = mset (concat (map (\<lambda>(k, w). map tb_entityId (filter isTerminal (ws_tabs w))) (md_workspaces m)))"
    using arg_cong [OF ids, of "image_mset (tb_entityId \<circ> snd)"] unfolding mset_map [symmetric]
    by (simp add: map_concat comp_def case_prod_unfold)
  then have d: "distinct (map (tb_entityId \<circ> snd) ?xs)"
    using shape unfolding loadedShape_def by (metis mset_eq_imp_distinct_iff)
  have each: "\<forall>(k, t)\<in>set ?xs. tb_entityId t \<in> tabs \<and> set (leafIdsOf t) \<subseteq> stored
    \<and> map_of layouts (tb_entityId t) \<noteq> None \<and> panesOf t \<noteq> None"
  proof clarify
    fix k t assume "(k, t) \<in> set ?xs"
    with set obtain w where "(k, w) \<in> set (md_workspaces m)" "t \<in> set (ws_tabs w)" "isTerminal t" by blast
    then show "tb_entityId t \<in> tabs \<and> set (leafIdsOf t) \<subseteq> stored
      \<and> map_of layouts (tb_entityId t) \<noteq> None \<and> panesOf t \<noteq> None"
      using tabs [of k w t] by (auto simp: isTerminal_def panesOf_def split: tab_body.splits)
  qed
  have none: "{} \<inter> set (map (tb_entityId \<circ> snd) ?xs) = {}" by simp
  show "map shapeOf (md_workspaces m') = map shapeOf (md_workspaces m)"
    unfolding m'_def loadLeaves_def
    by (rule conjunct2 [OF loadLeaves_walk [OF mint leavesInv_start [OF shape refl] empty_subsetI d none each], THEN trans]) simp
  have I: "leavesInv ctx stored ({} \<union> set (map (tb_entityId \<circ> snd) ?xs)) [] (loadLeaves ctx layouts session m view facts)"
    unfolding loadLeaves_def by (rule loadLeaves_walk [OF mint leavesInv_start [OF shape refl] empty_subsetI d none each, THEN conjunct1])
  have doneAll: "doneIn {} = paneIds \<circ> snd" by (auto simp: doneIn_def paneIds_def fun_eq_iff)
  from I have "mset (allPaneIds m') = mset (lz_seen (loadLeaves ctx layouts session m view facts))"
    and "distinct (lz_seen (loadLeaves ctx layouts session m view facts))"
    and W: "\<forall>(k, w)\<in>set (md_workspaces m'). wf_leaves (doneIn {} (k, w)) (ws_leaves w)"
    unfolding leavesInv_def Let_def allPaneIds_def m'_def seenOk_def by (simp_all add: doneAll)
  then show "distinct (allPaneIds m')" by (metis mset_eq_imp_distinct_iff)
  show "\<forall>(k, w)\<in>set (md_workspaces m'). wf_leaves (paneIds w) (ws_leaves w)" using W by (simp add: doneAll)
qed

end
