(* ===== verification/Loaded_Tabs.thy ===== *)
theory Loaded_Tabs
  imports Load_Workspace
begin

text \<open>
  What the loaded tabs of a workspace keep: every tab has an id of its own, every terminal tab the
  row it came from, and every row at most one tab.  Ids that the loader makes up are new as long as
  different seeds give different ids that nothing stored has.
\<close>

section \<open>New ids\<close>

definition storedTabIds :: "sessionState \<Rightarrow> string \<Rightarrow> string set" where
  "storedTabIds session key = te_id ` set (entriesOf session key) \<union> rw_id ` set (rowsOf session key)"

definition browserIds :: "sessionState \<Rightarrow> string \<Rightarrow> string set" where
  "browserIds session key = bt_id ` set (orElse (lookupOpt (sx_browserTabsByWorktree session) key) [])"

definition tabSeeds :: "sessionState \<Rightarrow> string \<Rightarrow> string set" where
  "tabSeeds session key = (\<lambda>r. ''tab:'' @ rw_id r) ` set (rowsOf session key)
     \<union> (\<lambda>b. ''browser-tab:'' @ b) ` browserIds session key"

definition mintsNewTabs :: "loadContext \<Rightarrow> sessionState \<Rightarrow> string \<Rightarrow> bool" where
  "mintsNewTabs ctx session key \<longleftrightarrow> inj_on (lx_mintId ctx) (tabSeeds session key)
     \<and> lx_mintId ctx ` tabSeeds session key \<inter> storedTabIds session key = {}"

section \<open>The invariant of the loop\<close>

definition tabOrigin :: "loadContext \<Rightarrow> sessionState \<Rightarrow> string \<Rightarrow> tabsProgress \<Rightarrow> string \<Rightarrow> bool" where
  "tabOrigin ctx session key p i \<longleftrightarrow>
     i \<in> storedTabIds session key
     \<or> (\<exists>t\<in>set (lt_tabs p). isKind Browser t \<and> tb_entityId t \<in> browserIds session key
          \<and> i = lx_mintId ctx (''browser-tab:'' @ tb_entityId t))
     \<or> (\<exists>r\<in>set (lt_merged p). i = lx_mintId ctx (''tab:'' @ r))"

definition idsOk :: "loadContext \<Rightarrow> sessionState \<Rightarrow> string \<Rightarrow> tabsProgress \<Rightarrow> bool" where
  "idsOk ctx session key p \<longleftrightarrow>
     map tb_id (lt_tabs p) = lt_tabIds p \<and> map oc_id (lt_candidates p) = lt_tabIds p \<and> distinct (lt_tabIds p)
     \<and> list_all (tabOrigin ctx session key p) (lt_tabIds p)"

text \<open>Each terminal tab is that of a row, with the pane layout kept for it.\<close>

definition panesKept :: "(string \<times> layoutSnapshot) list \<Rightarrow> layoutTab \<Rightarrow> bool" where
  "panesKept layouts t \<longleftrightarrow> (case panesOf t of
     None \<Rightarrow> True
   | Some panes \<Rightarrow> map_option panesOfSnapshot (map_of layouts (tb_entityId t)) = Some panes)"

definition rowsOk :: "(string \<times> layoutSnapshot) list \<Rightarrow> string set \<Rightarrow> tabsProgress \<Rightarrow> bool" where
  "rowsOk earlier ids p \<longleftrightarrow> map tb_entityId (filter isTerminal (lt_tabs p)) = lt_merged p \<and> distinct (lt_merged p)
     \<and> set (lt_merged p) \<subseteq> ids \<and> list_all (panesKept (lo_layouts (lt_state p))) (lt_tabs p)
     \<and> (\<forall>e. e \<notin> set (lt_merged p) \<longrightarrow> map_of (lo_layouts (lt_state p)) e = map_of earlier e)"

lemma isTerminal_body [simp]:
  "isTerminal (loadTerminalTab row entry panes)" "\<not> isTerminal (loadContentTab e kind)"
  by (simp_all add: isTerminal_def)

lemma panesOf_loaded [simp]:
  "panesOf (loadTerminalTab row entry panes) = Some panes" "panesOf (loadContentTab e kind) = None"
  by (simp_all add: panesOf_def)

lemma tabOrigin_mono:
  "tabOrigin ctx session key p i \<Longrightarrow> set (lt_tabs p) \<subseteq> set (lt_tabs q) \<Longrightarrow> set (lt_merged p) \<subseteq> set (lt_merged q)
     \<Longrightarrow> tabOrigin ctx session key q i"
  unfolding tabOrigin_def by blast

lemma idsOk_snoc:
  assumes "idsOk ctx session key p"
    and "lt_tabs q = lt_tabs p @ [t]" "lt_tabIds q = lt_tabIds p @ [tb_id t]"
    and "lt_candidates q = lt_candidates p @ [c]" "oc_id c = tb_id t" "set (lt_merged p) \<subseteq> set (lt_merged q)"
    and "tb_id t \<notin> set (lt_tabIds p)" "tabOrigin ctx session key q (tb_id t)"
  shows "idsOk ctx session key q"
  using assms tabOrigin_mono [of ctx session key p _ q] by (auto simp: idsOk_def list_all_iff)

lemma rowsOk_content:
  assumes "rowsOk earlier ids p" "\<not> isTerminal t"
    and "lt_tabs q = lt_tabs p @ [t]" "lt_merged q = lt_merged p" "lo_layouts (lt_state q) = lo_layouts (lt_state p)"
  shows "rowsOk earlier ids q"
proof -
  have "panesOf t = None" using assms(2) by (simp add: isTerminal_def panesOf_def split: tab_body.splits)
  then show ?thesis using assms by (simp add: rowsOk_def list_all_iff panesKept_def)
qed

lemma panesKept_other:
  assumes "panesKept layouts t" "isTerminal t \<Longrightarrow> tb_entityId t \<noteq> e"
  shows "panesKept (AList.update e layout layouts) t"
proof (cases "panesOf t")
  case (Some panes)
  then have "tb_entityId t \<noteq> e" using assms(2) by (simp add: isTerminal_def panesOf_def split: tab_body.splits)
  with Some assms(1) show ?thesis by (simp add: panesKept_def update_conv')
qed (simp add: panesKept_def)

lemma rowsOk_terminal:
  assumes "rowsOk earlier ids p" "e \<notin> set (lt_merged p)" "e \<in> ids"
    and "isTerminal t" "tb_entityId t = e" "panesOf t = Some (panesOfSnapshot layout)"
    and "lt_tabs q = lt_tabs p @ [t]" "lt_merged q = lt_merged p @ [e]"
    and "lo_layouts (lt_state q) = AList.update e layout (lo_layouts (lt_state p))"
  shows "rowsOk earlier ids q"
proof -
  have "panesKept (lo_layouts (lt_state q)) u" if "u \<in> set (lt_tabs p)" for u
    unfolding assms(9)
  proof (rule panesKept_other)
    show "panesKept (lo_layouts (lt_state p)) u" using assms(1) that by (simp add: rowsOk_def list_all_iff)
    show "tb_entityId u \<noteq> e" if "isTerminal u"
    proof -
      have "tb_entityId u \<in> set (map tb_entityId (filter isTerminal (lt_tabs p)))" using \<open>u \<in> set (lt_tabs p)\<close> that by auto
      then show ?thesis using assms(1,2) unfolding rowsOk_def by metis
    qed
  qed
  moreover have "panesKept (lo_layouts (lt_state q)) t" using assms(5,6,9) by (simp add: panesKept_def update_conv')
  ultimately show ?thesis using assms by (simp add: rowsOk_def list_all_iff update_conv')
qed

section \<open>The steps keep it\<close>

lemma focusEntry_layouts [simp]:
  "lo_layouts (focusEntry key entry s) = lo_layouts s" "lo_canonical (focusEntry key entry s) = lo_canonical s"
  "lo_layouts (labelTab key tabId label s) = lo_layouts s" "lo_canonical (labelTab key tabId label s) = lo_canonical s"
  by (simp_all add: focusEntry_def labelTab_def split: option.split)

lemma idsOk_state [simp]:
  "idsOk ctx session key (p\<lparr>lt_state := s\<rparr>) = idsOk ctx session key p"
  by (simp add: idsOk_def tabOrigin_def cong: list.pred_cong)

lemma rowsOk_state:
  "lo_layouts s = lo_layouts (lt_state p) \<Longrightarrow> rowsOk earlier ids (p\<lparr>lt_state := s\<rparr>) = rowsOk earlier ids p"
  by (simp add: rowsOk_def panesKept_def)

lemma takeRows_ids:
  "distinct (map rw_id (takeRows session key homes))"
  "row \<in> set (takeRows session key homes) \<Longrightarrow> row \<in> set (rowsOf session key) \<and> map_of homes (rw_id row) = Some key"
proof -
  have "distinct (map rw_id (foldl (takeRow homes key) acc rows))
     \<and> (\<forall>row\<in>set (foldl (takeRow homes key) acc rows). row \<in> set acc \<or> row \<in> set rows \<and> map_of homes (rw_id row) = Some key)"
    if "distinct (map rw_id acc)" for rows acc
    using that
  proof (induction rows arbitrary: acc)
    case (Cons r rows)
    then have "distinct (map rw_id (takeRow homes key acc r))" by (simp add: takeRow_def)
    from Cons.IH [OF this] show ?case by (auto simp: takeRow_def split: if_splits)
  qed simp
  from this [of "[]" "rowsOf session key"] show "distinct (map rw_id (takeRows session key homes))"
    "row \<in> set (takeRows session key homes) \<Longrightarrow> row \<in> set (rowsOf session key) \<and> map_of homes (rw_id row) = Some key"
    by (auto simp: takeRows_def)
qed

lemma addTerminal_ok:
  assumes mint: "mintsNewTabs ctx session key"
    and ok: "idsOk ctx session key p" "rowsOk earlier ids p"
    and row: "row \<in> set (rowsOf session key)" "rw_id row \<in> ids" "rw_id row \<notin> set (lt_merged p)"
    and ent: "\<And>e. entry = Some e \<Longrightarrow> te_entityId e = rw_id row \<and> e \<in> set (entriesOf session key)"
    and merged: "set (lt_merged p) \<subseteq> rw_id ` set (rowsOf session key)"
  shows "idsOk ctx session key (addTerminal own session ctx row entry p)"
    and "rowsOk earlier ids (addTerminal own session ctx row entry p)"
    and "lt_merged (addTerminal own session ctx row entry p) = lt_merged p @ [rw_id row]"
proof -
  let ?q = "addTerminal own session ctx row entry p"
  let ?layout = "loadedPanes own session row entry ctx"
  let ?loaded = "loadTerminalTab row entry (panesOfSnapshot ?layout)"
  define tab where "tab = (if tb_id ?loaded \<in> set (lt_tabIds p)
    then ?loaded\<lparr>tb_id := lx_mintId ctx (''tab:'' @ rw_id row)\<rparr> else ?loaded)"
  have ent_id: "tb_entityId ?loaded = rw_id row" using ent by (cases entry) simp_all
  then have ent_tab: "tb_entityId tab = rw_id row" by (simp add: tab_def)
  have body: "isTerminal tab" "panesOf tab = Some (panesOfSnapshot ?layout)"
    by (simp_all add: tab_def isTerminal_def panesOf_def)
  have q: "lt_tabs ?q = lt_tabs p @ [tab]" "lt_tabIds ?q = lt_tabIds p @ [tb_id tab]" "lt_merged ?q = lt_merged p @ [rw_id row]"
    "lo_layouts (lt_state ?q) = AList.update (rw_id row) ?layout (lo_layouts (lt_state p))"
    and c: "\<exists>c. lt_candidates ?q = lt_candidates p @ [c] \<and> oc_id c = tb_id tab"
    using ent_tab unfolding addTerminal_def tab_def Let_def by simp_all
  show "lt_merged ?q = lt_merged p @ [rw_id row]" by (rule q(3))
  show "rowsOk earlier ids ?q" by (rule rowsOk_terminal [OF ok(2) row(3,2) body(1) ent_tab body(2) q(1,3,4)])
  have seed: "''tab:'' @ rw_id r \<in> tabSeeds session key" if "r \<in> set (rowsOf session key)" for r
    using that by (auto simp: tabSeeds_def)
  have inj: "s = s'" if "lx_mintId ctx s = lx_mintId ctx s'" "s \<in> tabSeeds session key" "s' \<in> tabSeeds session key" for s s'
    using mint that unfolding mintsNewTabs_def by (auto dest: inj_onD)
  have new: "lx_mintId ctx (''tab:'' @ rw_id row) \<notin> set (lt_tabIds p)"
  proof
    assume "lx_mintId ctx (''tab:'' @ rw_id row) \<in> set (lt_tabIds p)"
    then have "tabOrigin ctx session key p (lx_mintId ctx (''tab:'' @ rw_id row))"
      using ok(1) by (simp add: idsOk_def list_all_iff)
    moreover have "lx_mintId ctx (''tab:'' @ rw_id row) \<notin> storedTabIds session key"
      using mint seed [OF row(1)] by (auto simp: mintsNewTabs_def)
    ultimately consider b where "b \<in> browserIds session key"
        "lx_mintId ctx (''tab:'' @ rw_id row) = lx_mintId ctx (''browser-tab:'' @ b)"
      | r where "r \<in> set (lt_merged p)" "lx_mintId ctx (''tab:'' @ rw_id row) = lx_mintId ctx (''tab:'' @ r)"
      unfolding tabOrigin_def by blast
    then show False
    proof cases
      case 1
      then have "''browser-tab:'' @ b \<in> tabSeeds session key" by (auto simp: tabSeeds_def)
      from inj [OF 1(2) seed [OF row(1)] this] show False by simp
    next
      case 2
      then obtain r' where "r' \<in> set (rowsOf session key)" "r = rw_id r'" using merged by auto
      with inj [OF 2(2) seed [OF row(1)]] seed have "rw_id row = r" by simp
      with 2(1) row(3) show False by simp
    qed
  qed
  have fresh: "tb_id tab \<notin> set (lt_tabIds p)" using new by (simp add: tab_def)
  have "tabOrigin ctx session key ?q (tb_id tab)"
  proof (cases "tb_id ?loaded \<in> set (lt_tabIds p)")
    case True
    then show ?thesis using q(3) by (auto simp: tab_def tabOrigin_def)
  next
    case False
    have "tb_id ?loaded \<in> storedTabIds session key"
      using ent row(1) by (cases entry) (auto simp: storedTabIds_def)
    with False show ?thesis by (simp add: tab_def tabOrigin_def)
  qed
  with c fresh show "idsOk ctx session key ?q"
    by (elim exE conjE) (rule idsOk_snoc [OF ok(1) q(1,2)]; auto simp: q(3))
qed

text \<open>Both invariants, with the rows of the workspace that are taken.\<close>

definition loadingOk :: "(string \<times> layoutSnapshot) list \<Rightarrow> loadContext \<Rightarrow> sessionState \<Rightarrow> string \<Rightarrow> terminalRow list \<Rightarrow> tabsProgress \<Rightarrow> bool" where
  "loadingOk earlier ctx session key rows p \<longleftrightarrow>
     idsOk ctx session key p \<and> rowsOk earlier (rw_id ` set rows) p \<and> set rows \<subseteq> set (rowsOf session key)"

lemma loadingOk_merged: "loadingOk earlier ctx session key rows p \<Longrightarrow> set (lt_merged p) \<subseteq> rw_id ` set (rowsOf session key)"
  unfolding loadingOk_def rowsOk_def by blast

lemma addTerminal_loading:
  assumes "mintsNewTabs ctx session key" "loadingOk earlier ctx session key rows p" "row \<in> set rows"
    and "rw_id row \<notin> set (lt_merged p)"
    and "\<And>e. entry = Some e \<Longrightarrow> te_entityId e = rw_id row \<and> e \<in> set (entriesOf session key)"
  shows "loadingOk earlier ctx session key rows (addTerminal own session ctx row entry p)"
  using assms addTerminal_ok [OF assms(1) _ _ _ _ assms(4,5) loadingOk_merged [OF assms(2)]]
  by (auto simp: loadingOk_def)

lemma loadingOk_state:
  "lo_layouts s = lo_layouts (lt_state p) \<Longrightarrow> loadingOk earlier ctx session key rows (p\<lparr>lt_state := s\<rparr>) = loadingOk earlier ctx session key rows p"
  by (simp add: loadingOk_def rowsOk_state)

lemma loadEntry_loading:
  assumes mint: "mintsNewTabs ctx session key" and ok: "loadingOk earlier ctx session key rows p"
    and e: "entry \<in> set (entriesOf session key)"
  shows "loadingOk earlier ctx session key rows (loadEntry own session ctx key rows aliases p entry)"
proof (cases "te_id entry \<in> set (lt_tabIds p) \<or> map_of aliases (te_id entry) \<noteq> None \<or> leftOut own session ctx key entry")
  case True
  with ok show ?thesis unfolding loadEntry_def by simp
next
  case go: False
  show ?thesis
  proof (cases "te_contentType entry")
    case KindTerminal
    show ?thesis
    proof (cases "List.find (\<lambda>row. rw_id row = te_entityId entry) rows")
      case None
      with go ok KindTerminal show ?thesis by (simp add: loadEntry_def)
    next
      case (Some row)
      from find_SomeD [OF Some] have row: "row \<in> set rows" "rw_id row = te_entityId entry" by simp_all
      show ?thesis
      proof (cases "rw_id row \<in> set (lt_merged p)")
        case True
        with go ok KindTerminal Some show ?thesis by (simp add: loadEntry_def)
      next
        case False
        have "loadingOk earlier ctx session key rows (addTerminal own session ctx row (Some entry) p)"
          using row(2) e by (intro addTerminal_loading [OF mint ok row(1) False]) auto
        with go KindTerminal Some False show ?thesis by (simp add: loadEntry_def Let_def loadingOk_state)
      qed
    qed
  next
    case (KindContent kind)
    let ?q = "addContentTab key entry kind p"
    have q: "lt_tabs ?q = lt_tabs p @ [loadContentTab entry kind]" "lt_tabIds ?q = lt_tabIds p @ [tb_id (loadContentTab entry kind)]"
      "lt_merged ?q = lt_merged p" "lo_layouts (lt_state ?q) = lo_layouts (lt_state p)"
      by (simp_all add: addContentTab_def)
    have "idsOk ctx session key ?q"
      by (rule idsOk_snoc [OF _ q(1,2)])
        (use ok go e in \<open>auto simp: loadingOk_def addContentTab_def tabOrigin_def storedTabIds_def\<close>)
    moreover have "rowsOk earlier (rw_id ` set rows) ?q"
      by (rule rowsOk_content [OF _ _ q(1,3,4)]) (use ok in \<open>simp_all add: loadingOk_def\<close>)
    ultimately show ?thesis using go KindContent ok by (simp add: loadEntry_def loadingOk_def)
  qed
qed

lemma addBrowserTab_loading:
  assumes mint: "mintsNewTabs ctx session key" and ok: "loadingOk earlier ctx session key rows p"
    and b: "bt_id b \<in> browserIds session key"
  shows "loadingOk earlier ctx session key rows (addBrowserTab ctx key grp p b)"
proof -
  have m: "lt_merged (addBrowserTab ctx key grp p b) = lt_merged p" by (simp add: addBrowserTab_def Let_def)
  have none: "lx_mintId ctx (''tab:'' @ r) \<noteq> lx_mintId ctx (''browser-tab:'' @ bt_id b)" if "r \<in> set (lt_merged p)" for r
  proof -
    have "''tab:'' @ r \<in> tabSeeds session key" using that loadingOk_merged [OF ok] by (auto simp: tabSeeds_def)
    moreover have "''browser-tab:'' @ bt_id b \<in> tabSeeds session key" using b by (simp add: tabSeeds_def)
    moreover have "''tab:'' @ r \<noteq> ''browser-tab:'' @ bt_id b" by simp
    ultimately show ?thesis using mint inj_on_eq_iff [of "lx_mintId ctx" "tabSeeds session key"]
      unfolding mintsNewTabs_def by blast
  qed
  show "loadingOk earlier ctx session key rows (addBrowserTab ctx key grp p b)"
  proof (cases "list_ex (\<lambda>t. isKind Browser t \<and> tb_entityId t = bt_id b) (lt_tabs p)")
    case True
    with ok show ?thesis by (simp add: addBrowserTab_def)
  next
    case new: False
    let ?q = "addBrowserTab ctx key grp p b" and ?i = "lx_mintId ctx (''browser-tab:'' @ bt_id b)"
    define t where "t = last (lt_tabs ?q)"
    have t: "tb_id t = ?i" "tb_entityId t = bt_id b" "isKind Browser t" "\<not> isTerminal t"
      "lt_tabs ?q = lt_tabs p @ [t]" "lt_tabIds ?q = lt_tabIds p @ [tb_id t]"
      and c: "\<exists>c. lt_candidates ?q = lt_candidates p @ [c] \<and> oc_id c = tb_id t"
      and l: "lo_layouts (lt_state ?q) = lo_layouts (lt_state p)"
      using new by (simp_all add: t_def addBrowserTab_def Let_def isKind_def isTerminal_def)
    have seed: "''browser-tab:'' @ x \<in> tabSeeds session key" if "x \<in> browserIds session key" for x
      using that by (auto simp: tabSeeds_def)
    have "?i \<notin> set (lt_tabIds p)"
    proof
      assume "?i \<in> set (lt_tabIds p)"
      then have "tabOrigin ctx session key p ?i" using ok by (simp add: loadingOk_def idsOk_def list_all_iff)
      moreover have "?i \<notin> storedTabIds session key" using mint seed [OF b] by (auto simp: mintsNewTabs_def)
      ultimately obtain u where u: "u \<in> set (lt_tabs p)" "isKind Browser u" "tb_entityId u \<in> browserIds session key"
        "?i = lx_mintId ctx (''browser-tab:'' @ tb_entityId u)"
        using none unfolding tabOrigin_def by metis
      with mint seed b have "bt_id b = tb_entityId u" by (auto simp: mintsNewTabs_def dest: inj_onD)
      with new u(1,2) show False by (auto simp: list_ex_iff)
    qed
    moreover have "tabOrigin ctx session key ?q (tb_id t)"
      unfolding tabOrigin_def using t b by (intro disjI2 disjI1 bexI [of _ t]) simp_all
    ultimately have "idsOk ctx session key ?q"
      using c t(1) ok m by (elim exE conjE) (rule idsOk_snoc [OF _ t(5,6)]; simp add: loadingOk_def)
    moreover have "rowsOk earlier (rw_id ` set rows) ?q"
      by (rule rowsOk_content [OF _ t(4,5) _ l]) (use ok m in \<open>simp_all add: loadingOk_def\<close>)
    ultimately show ?thesis using ok by (simp add: loadingOk_def)
  qed
qed

lemma loadTabs_loading:
  assumes mint: "mintsNewTabs ctx session key"
  shows "loadingOk (lo_layouts s) ctx session key (takeRows session key homes) (loadTabs own session ctx key homes s)"
proof -
  let ?earlier = "lo_layouts s"
  let ?rows = "takeRows session key homes" and ?aliases = "duplicateEditorTabAliases own (entriesOf session key)"
  let ?canonical = "readCanonicalPtyOwners session key (takeRows session key homes)"
  let ?start = "\<lparr>lt_tabs = [], lt_candidates = [], lt_tabIds = [], lt_merged = [], lt_state = s\<rparr>"
  have start: "loadingOk ?earlier ctx session key ?rows ?start"
    using takeRows_ids(2) by (fastforce simp: loadingOk_def idsOk_def rowsOk_def)
  have entries: "loadingOk ?earlier ctx session key ?rows (foldl (loadEntry own session ctx key ?rows ?aliases) p es)"
    if "loadingOk ?earlier ctx session key ?rows p" "set es \<subseteq> set (entriesOf session key)" for p es
    using that by (induction es arbitrary: p) (simp_all add: loadEntry_loading [OF mint])
  have browsers: "loadingOk ?earlier ctx session key ?rows (foldl (addBrowserTab ctx key g) p bs)"
    if "loadingOk ?earlier ctx session key ?rows p" "bt_id ` set bs \<subseteq> browserIds session key" for p bs g
    using that by (induction bs arbitrary: p) (simp_all add: addBrowserTab_loading [OF mint])
  have left: "loadingOk ?earlier ctx session key ?rows (foldl (addLeftRow own session ctx ?canonical) p rs)"
    if "loadingOk ?earlier ctx session key ?rows p" "set rs \<subseteq> set ?rows" for p rs
    using that
  proof (induction rs arbitrary: p)
    case (Cons r rs)
    have "loadingOk ?earlier ctx session key ?rows (addLeftRow own session ctx ?canonical p r)"
    proof (cases "rw_id r \<in> set (lt_merged p)")
      case True
      with Cons.prems show ?thesis by (simp add: addLeftRow_def)
    next
      case False
      have "loadingOk ?earlier ctx session key ?rows (addTerminal own session ctx r None p)"
        using Cons.prems by (intro addTerminal_loading [OF mint _ _ False]) auto
      with False Cons.prems show ?thesis
        by (cases "resolveCanonicalPtyClaim session r ?canonical") (simp_all add: addLeftRow_def loadingOk_state)
    qed
    with Cons.IH Cons.prems show ?case by simp
  qed simp
  let ?entered = "foldl (loadEntry own session ctx key ?rows ?aliases) ?start (entriesOf session key)"
  have e: "loadingOk ?earlier ctx session key ?rows ?entered" by (rule entries [OF start]) simp
  have "loadingOk ?earlier ctx session key ?rows (addBrowserTabs own session ctx key ?entered)"
    by (cases own) (use browsers [OF e] e in \<open>simp_all add: addBrowserTabs_def browserIds_def\<close>)
  from left [OF this] show ?thesis by (simp add: loadTabs_def Let_def)
qed

lemma loadTabs_facts:
  assumes "mintsNewTabs ctx session key" "p = loadTabs own session ctx key homes s"
  shows "distinct (map tb_id (lt_tabs p))" "map oc_id (lt_candidates p) = map tb_id (lt_tabs p)"
    and "distinct (map tb_entityId (filter isTerminal (lt_tabs p)))"
    and "set (map tb_entityId (filter isTerminal (lt_tabs p))) \<subseteq> rw_id ` set (takeRows session key homes)"
    and "list_all (panesKept (lo_layouts (lt_state p))) (lt_tabs p)"
    and "e \<notin> set (map tb_entityId (filter isTerminal (lt_tabs p))) \<Longrightarrow> map_of (lo_layouts (lt_state p)) e = map_of (lo_layouts s) e"
    and "i \<in> set (map tb_id (lt_tabs p)) \<Longrightarrow> i \<in> storedTabIds session key \<union> lx_mintId ctx ` tabSeeds session key"
proof -
  from loadTabs_loading [OF assms(1), of s homes own] have ok: "loadingOk (lo_layouts s) ctx session key (takeRows session key homes) p"
    by (simp add: assms(2))
  then show "distinct (map tb_id (lt_tabs p))" "map oc_id (lt_candidates p) = map tb_id (lt_tabs p)"
    "distinct (map tb_entityId (filter isTerminal (lt_tabs p)))"
    "set (map tb_entityId (filter isTerminal (lt_tabs p))) \<subseteq> rw_id ` set (takeRows session key homes)"
    "list_all (panesKept (lo_layouts (lt_state p))) (lt_tabs p)"
    by (simp_all add: loadingOk_def idsOk_def rowsOk_def)
  show "map_of (lo_layouts (lt_state p)) e = map_of (lo_layouts s) e"
    if "e \<notin> set (map tb_entityId (filter isTerminal (lt_tabs p)))"
    using that ok unfolding loadingOk_def rowsOk_def by metis
  show "i \<in> storedTabIds session key \<union> lx_mintId ctx ` tabSeeds session key" if "i \<in> set (map tb_id (lt_tabs p))"
  proof -
    from ok that have "tabOrigin ctx session key p i" by (simp add: loadingOk_def idsOk_def list_all_iff)
    with loadingOk_merged [OF ok] show ?thesis unfolding tabOrigin_def tabSeeds_def by blast
  qed
qed

end
