(* ===== verification/Loaded_Bindings.thy ===== *)
theory Loaded_Bindings
  imports Loaded_Panes Loaded_Tabs Load_Layout
begin

text \<open>
  What loading a session keeps: no two panes of the partition show one terminal, and the loaded
  layout satisfies the structure every operation of the layout relies on.
\<close>

section \<open>One pane for each terminal\<close>

definition paneAt :: "workspaceLayoutModel \<Rightarrow> string \<times> string \<Rightarrow> layoutLeaf option" where
  "paneAt m = (\<lambda>(key, leafId). leafAt (workspaceOrEmpty m key) leafId)"

definition bindingAt :: "workspaceLayoutModel \<Rightarrow> string \<times> string \<Rightarrow> terminalBinding" where
  "bindingAt m x = (case paneAt m x of
     None \<Rightarrow> \<lparr>bd_ptyId = None, bd_incarnationId = None\<rparr>
   | Some leaf \<Rightarrow> \<lparr>bd_ptyId = lf_ptyId leaf, bd_incarnationId = lf_incarnationId leaf\<rparr>)"

definition withoutPty :: "layoutLeaf \<Rightarrow> layoutLeaf" where
  "withoutPty leaf = leaf\<lparr>lf_ptyId := None\<rparr>"

definition writePane :: "workspaceLayoutModel \<Rightarrow> string \<times> string \<Rightarrow> layoutLeaf \<Rightarrow> workspaceLayoutModel" where
  "writePane m = (\<lambda>(key, leafId) leaf. withWorkspace m key ((workspaceOrEmpty m key)\<lparr>ws_leaves :=
     Some (AList.update leafId leaf (orElse (ws_leaves (workspaceOrEmpty m key)) []))\<rparr>))"

lemma leafAt_updated:
  "leafAt (w\<lparr>ws_leaves := Some (AList.update l leaf (orElse (ws_leaves w) []))\<rparr>) l' = (if l' = l then Some leaf else leafAt w l')"
  by (cases "ws_leaves w") (simp_all add: lookupOpt_def update_conv')

lemma paneAt_write [simp]: "paneAt (writePane m x leaf) y = (if y = x then Some leaf else paneAt m y)"
  by (cases x; cases y) (auto simp: paneAt_def writePane_def update_conv' lookupOpt_def workspaceOrEmpty_def split: option.split)

lemma unbindIfOwned_eq:
  "unbindIfOwned (owners, m) x =
     (case paneAt m x of
        None \<Rightarrow> (owners, m)
      | Some leaf \<Rightarrow>
          if lf_ptyId leaf = None then (owners, m)
          else if list_ex (\<lambda>o'. isSameTerminal o' (bindingAt m x)) owners
               then (owners, writePane m x (withoutPty leaf))
               else (owners @ [bindingAt m x], m))"
  by (cases x) (simp add: unbindIfOwned_def paneAt_def bindingAt_def writePane_def withoutPty_def Let_def split: option.split)

lemma isSameTerminal_bound: "isSameTerminal a b \<Longrightarrow> bd_ptyId a \<noteq> None \<and> bd_ptyId b \<noteq> None"
  by (cases "bd_ptyId a"; cases "bd_ptyId b") (simp_all add: isSameTerminal_def)

text \<open>
  \<open>owners\<close> are the terminals of the panes before: of the panes walked, no two show one terminal, and
  a pane that lost its terminal lost it to one of them.
\<close>

lemma unbind_walk:
  assumes "distinct xs" "foldl unbindIfOwned (owners, m) xs = (owners', m')"
  shows "(\<forall>y. y \<notin> set xs \<longrightarrow> paneAt m' y = paneAt m y)
    \<and> (\<exists>new. owners' = owners @ new \<and> (\<forall>b\<in>set new. \<exists>y\<in>set xs. b = bindingAt m y \<and> b = bindingAt m' y)
        \<and> (\<forall>x\<in>set xs. paneAt m' x = paneAt m x \<and> (bd_ptyId (bindingAt m x) \<noteq> None \<longrightarrow> bindingAt m x \<in> set new)
             \<or> paneAt m' x = map_option withoutPty (paneAt m x) \<and> (\<exists>b\<in>set owners'. isSameTerminal b (bindingAt m x))))
    \<and> sorted_wrt (\<lambda>x y. \<not> isSameTerminal (bindingAt m' x) (bindingAt m' y)) xs
    \<and> (\<forall>b\<in>set owners. \<forall>x\<in>set xs. \<not> isSameTerminal b (bindingAt m' x))"
  using assms
proof (induction xs arbitrary: owners m)
  case (Cons x xs)
  obtain owners1 m1 where s: "unbindIfOwned (owners, m) x = (owners1, m1)" by force
  from Cons.prems have x: "x \<notin> set xs" "distinct xs" and r: "foldl unbindIfOwned (owners1, m1) xs = (owners', m')"
    using s by simp_all
  from Cons.IH [OF x(2) r] obtain new where
    from1: "\<And>b. b \<in> set new \<Longrightarrow> \<exists>y\<in>set xs. b = bindingAt m1 y \<and> b = bindingAt m' y" and
    ih: "\<And>y. y \<notin> set xs \<Longrightarrow> paneAt m' y = paneAt m1 y" "owners' = owners1 @ new"
    "\<And>y. y \<in> set xs \<Longrightarrow> paneAt m' y = paneAt m1 y \<and> (bd_ptyId (bindingAt m1 y) \<noteq> None \<longrightarrow> bindingAt m1 y \<in> set new)
             \<or> paneAt m' y = map_option withoutPty (paneAt m1 y) \<and> (\<exists>b\<in>set owners'. isSameTerminal b (bindingAt m1 y))"
    "sorted_wrt (\<lambda>x y. \<not> isSameTerminal (bindingAt m' x) (bindingAt m' y)) xs"
    "\<And>b y. b \<in> set owners1 \<Longrightarrow> y \<in> set xs \<Longrightarrow> \<not> isSameTerminal b (bindingAt m' y)" by blast
  have other: "paneAt m1 y = paneAt m y" if "y \<noteq> x" for y
    using s that by (auto simp: unbindIfOwned_eq split: option.splits if_splits)
  then have otherB: "bindingAt m1 y = bindingAt m y" if "y \<noteq> x" for y using that by (simp add: bindingAt_def)
  have x': "paneAt m' x = paneAt m1 x" "bindingAt m' x = bindingAt m1 x" using ih(1) [OF x(1)] by (simp_all add: bindingAt_def)
  have step: "owners1 = owners \<and> paneAt m1 x = paneAt m x \<and> bd_ptyId (bindingAt m x) = None
    \<or> owners1 = owners \<and> paneAt m1 x = map_option withoutPty (paneAt m x) \<and> (\<exists>b\<in>set owners. isSameTerminal b (bindingAt m x))
    \<or> owners1 = owners @ [bindingAt m x] \<and> paneAt m1 x = paneAt m x \<and> (\<forall>b\<in>set owners. \<not> isSameTerminal b (bindingAt m x))"
    using s by (auto simp: unbindIfOwned_eq bindingAt_def list_ex_iff split: option.splits if_splits)
  have free: "\<not> isSameTerminal (bindingAt m' x) (bindingAt m' y)" if "y \<in> set xs" for y
  proof
    assume same: "isSameTerminal (bindingAt m' x) (bindingAt m' y)"
    then have "bd_ptyId (bindingAt m1 x) \<noteq> None" using isSameTerminal_bound x'(2) by metis
    with step have "owners1 = owners @ [bindingAt m1 x]"
      by (auto simp: bindingAt_def withoutPty_def split: option.splits)
    then have "\<not> isSameTerminal (bindingAt m1 x) (bindingAt m' y)" using ih(5) [OF _ that] by simp
    with same x'(2) show False by simp
  qed
  have owned: "\<not> isSameTerminal b (bindingAt m' x)" if "b \<in> set owners" for b
    using step that isSameTerminal_bound [of b "bindingAt m1 x"] x'(2)
    by (auto simp: bindingAt_def withoutPty_def split: option.splits)
  obtain new1 where new1: "owners1 = owners @ new1" "\<And>b. b \<in> set new1 \<Longrightarrow> b = bindingAt m x \<and> b = bindingAt m' x"
    using step x'(2) by (auto simp: bindingAt_def)
  have from2: "\<exists>y\<in>set (x # xs). b = bindingAt m y \<and> b = bindingAt m' y" if "b \<in> set (new1 @ new)" for b
    using that new1(2) from1 otherB x(1) by (metis Un_iff list.set_intros set_append)
  have walked: "paneAt m' y = paneAt m y \<and> (bd_ptyId (bindingAt m y) \<noteq> None \<longrightarrow> bindingAt m y \<in> set (new1 @ new))
             \<or> paneAt m' y = map_option withoutPty (paneAt m y) \<and> (\<exists>b\<in>set owners'. isSameTerminal b (bindingAt m y))"
    if "y \<in> set (x # xs)" for y
  proof (cases "y = x")
    case True
    with step x'(1) new1(1) ih(2) show ?thesis by auto
  next
    case False
    with that have "y \<in> set xs" by simp
    from ih(3) [OF this] other [OF False] otherB [OF False] show ?thesis by auto
  qed
  show ?case
  proof (intro conjI)
    show "\<forall>y. y \<notin> set (x # xs) \<longrightarrow> paneAt m' y = paneAt m y" using ih(1) other by simp
    show "\<exists>new. owners' = owners @ new \<and> (\<forall>b\<in>set new. \<exists>y\<in>set (x # xs). b = bindingAt m y \<and> b = bindingAt m' y)
       \<and> (\<forall>y\<in>set (x # xs). paneAt m' y = paneAt m y \<and> (bd_ptyId (bindingAt m y) \<noteq> None \<longrightarrow> bindingAt m y \<in> set new)
             \<or> paneAt m' y = map_option withoutPty (paneAt m y) \<and> (\<exists>b\<in>set owners'. isSameTerminal b (bindingAt m y)))"
      by (rule exI [of _ "new1 @ new"], intro conjI ballI walked from2) (simp_all only: ih(2) new1(1) append_assoc)
    show "sorted_wrt (\<lambda>x y. \<not> isSameTerminal (bindingAt m' x) (bindingAt m' y)) (x # xs)" using ih(4) free by simp
    show "\<forall>b\<in>set owners. \<forall>y\<in>set (x # xs). \<not> isSameTerminal b (bindingAt m' y)"
      using ih(5) owned new1(1) by auto
  qed
qed simp

text \<open>The step writes the pane data of a workspace and nothing else.\<close>

lemma wf_unbindIfOwned:
  assumes "wf_model E m"
  shows "wf_model E (snd (unbindIfOwned (owners, m) x))"
proof (cases x)
  case (Pair k l)
  let ?w = "workspaceOrEmpty m k"
  have w: "wf_workspace (E k) ?w" by (rule wf_workspaceOrEmpty [OF assms])
  show ?thesis
  proof (cases "leafAt ?w l")
    case (Some leaf)
    then have mem: "(l, leaf) \<in> set (orElse (ws_leaves ?w) [])"
      by (auto simp: lookupOpt_def split: option.splits dest: map_of_SomeD)
    with w have "l \<in> set (paneIds ?w)" "lf_sleeping leaf = None \<or> lf_resume leaf = None"
      by (force simp: wf_workspace_def wf_leaves_def keysOf_def list_all_iff split: option.splits)+
    then have "wf_leaves (paneIds ?w) (Some (AList.update l (withoutPty leaf) (orElse (ws_leaves ?w) [])))"
      using w by (intro wf_leaves_update) (auto simp: wf_workspace_def withoutPty_def)
    then have "wf_workspace (E k) (?w\<lparr>ws_leaves := Some (AList.update l (withoutPty leaf) (orElse (ws_leaves ?w) []))\<rparr>)"
      using w by (simp add: wf_workspace_def)
    from wf_withWorkspace_sub [OF assms this] have "wf_model E (writePane m x (withoutPty leaf))"
      by (simp add: writePane_def Pair)
    with assms Some Pair show ?thesis by (simp add: unbindIfOwned_eq paneAt_def)
  qed (use assms Pair in \<open>simp add: unbindIfOwned_eq paneAt_def\<close>)
qed

lemma wf_unbind_walk: "wf_model E m \<Longrightarrow> wf_model E (snd (foldl unbindIfOwned (owners, m) xs))"
proof (induction xs arbitrary: owners m)
  case (Cons x xs)
  obtain owners1 m1 where s: "unbindIfOwned (owners, m) x = (owners1, m1)" by force
  with wf_unbindIfOwned [OF Cons.prems, of owners x] Cons.IH [of m1 owners1] show ?case by simp
qed simp

lemma wf_unbindDuplicateTerminals: "wf_model E m \<Longrightarrow> wf_model E (unbindDuplicateTerminals m)"
  unfolding unbindDuplicateTerminals_def by (rule wf_unbind_walk)

lemma distinct_concat_perm: "mset xs = mset ys \<Longrightarrow> distinct (concat (map f xs)) = distinct (concat (map f ys))"
proof -
  assume "mset xs = mset ys"
  moreover have "mset (concat (map f zs)) = sum_mset (image_mset (mset \<circ> f) (mset zs))" for zs
    by (induction zs) simp_all
  ultimately have "mset (concat (map f xs)) = mset (concat (map f ys))" by simp
  then show ?thesis by (rule mset_eq_imp_distinct_iff)
qed

lemma concat_pairs:
  "concat (map (\<lambda>(k, t). map (Pair k) (f t)) (concat (map (\<lambda>(k, w). map (Pair k) (g w)) W)))
     = concat (map (\<lambda>(k, w). map (Pair k) (concat (map f (g w)))) W)"
  by (induction W) (auto simp: map_concat comp_def)

lemma distinct_panesInOrder:
  assumes wf: "wf_model E m"
  shows "distinct (panesInOrder m)"
proof -
  have keys: "distinct (map fst (md_workspaces m))"
    and each: "\<And>k w. (k, w) \<in> set (md_workspaces m) \<Longrightarrow> wf_workspace (E k) w"
    using wf by (auto simp: wf_model_def)
  have eq: "panesInOrder m = concat (map (\<lambda>(k, w). map (\<lambda>l. (k, l))
      (concat (map leafIdsOf (filter isTerminal (tabsInOrder w))))) (md_workspaces m))"
    by (simp only: panesInOrder_def terminalTabsInOrder_def concat_pairs)
  have "distinct (concat (map leafIdsOf (filter isTerminal (tabsInOrder w))))" if "(k, w) \<in> set (md_workspaces m)" for k w
  proof -
    have "mset (filter isTerminal (tabsInOrder w)) = mset (filter isTerminal (ws_tabs w))"
      by (rule filter_mset_cong [OF tabsInOrder_mset [OF each [OF that]]])
    moreover have "distinct (concat (map leafIdsOf (filter isTerminal (ws_tabs w))))"
    proof -
      have "concat (map leafIdsOf ts) = concat (map leafIdsOf (filter isTerminal ts))" for ts
        by (induction ts) (auto simp: isTerminal_def split: tab_body.splits)
      with each [OF that] show ?thesis by (metis paneIds_def wf_workspace_def)
    qed
    ultimately show ?thesis using distinct_concat_perm by blast
  qed
  then have "\<forall>(k, w)\<in>set (md_workspaces m). distinct (map id (concat (map leafIdsOf (filter isTerminal (tabsInOrder w)))))"
    by auto
  from distinct_pairs [OF keys this] show ?thesis unfolding eq by simp
qed

text \<open>
  A loaded layout shows each terminal in one pane: the first in tab order keeps it, and a pane that
  loses its binding loses nothing else and only to such a pane.
\<close>

lemma unbind_unique:
  assumes panes: "distinct (panesInOrder m)" and m'_def: "m' = unbindDuplicateTerminals m"
  shows "sorted_wrt (\<lambda>x y. \<not> isSameTerminal (bindingAt m' x) (bindingAt m' y)) (panesInOrder m)"
    and "\<forall>x. paneAt m' x = paneAt m x
       \<or> paneAt m' x = map_option withoutPty (paneAt m x)
         \<and> (\<exists>y\<in>set (panesInOrder m). bindingAt m' y = bindingAt m y \<and> isSameTerminal (bindingAt m' y) (bindingAt m x))"
proof -
  obtain owners where r: "foldl unbindIfOwned ([], m) (panesInOrder m) = (owners, m')"
    by (metis m'_def unbindDuplicateTerminals_def prod.collapse)
  note U = unbind_walk [OF panes r]
  show "sorted_wrt (\<lambda>x y. \<not> isSameTerminal (bindingAt m' x) (bindingAt m' y)) (panesInOrder m)"
    using U by blast
  have each: "paneAt m' x = paneAt m x
       \<or> paneAt m' x = map_option withoutPty (paneAt m x)
         \<and> (\<exists>y\<in>set (panesInOrder m). bindingAt m' y = bindingAt m y \<and> isSameTerminal (bindingAt m' y) (bindingAt m x))" for x
    using U by (cases "x \<in> set (panesInOrder m)") (simp, metis, blast)
  then show "\<forall>x. paneAt m' x = paneAt m x
       \<or> paneAt m' x = map_option withoutPty (paneAt m x)
         \<and> (\<exists>y\<in>set (panesInOrder m). bindingAt m' y = bindingAt m y \<and> isSameTerminal (bindingAt m' y) (bindingAt m x))"
    by (rule allI)
qed

lemma unbind_apart:
  assumes panes: "distinct (panesInOrder m)" and x: "x \<in> set (panesInOrder m)"
  shows "y \<in> set (panesInOrder m) \<Longrightarrow> x \<noteq> y
      \<Longrightarrow> \<not> isSameTerminal (bindingAt (unbindDuplicateTerminals m) x) (bindingAt (unbindDuplicateTerminals m) y)"
    and "paneAt (unbindDuplicateTerminals m) x = paneAt m x
      \<or> paneAt (unbindDuplicateTerminals m) x = map_option (\<lambda>leaf. leaf\<lparr>lf_ptyId := None\<rparr>) (paneAt m x)
        \<and> (\<exists>z\<in>set (panesInOrder m). bindingAt (unbindDuplicateTerminals m) z = bindingAt m z
             \<and> isSameTerminal (bindingAt m z) (bindingAt m x))"
proof -
  note U = unbind_unique [OF panes refl]
  show "\<not> isSameTerminal (bindingAt (unbindDuplicateTerminals m) x) (bindingAt (unbindDuplicateTerminals m) y)"
    if y: "y \<in> set (panesInOrder m)" "x \<noteq> y"
  proof -
    from x y(1) obtain i j where ij: "i < length (panesInOrder m)" "panesInOrder m ! i = x" "j < length (panesInOrder m)" "panesInOrder m ! j = y"
      by (metis in_set_conv_nth)
    with y(2) have "i < j \<or> j < i" by (metis linorder_neqE_nat)
    with U(1) ij show ?thesis unfolding sorted_wrt_iff_nth_less by (metis isSameTerminal_sym)
  qed
  show "paneAt (unbindDuplicateTerminals m) x = paneAt m x
      \<or> paneAt (unbindDuplicateTerminals m) x = map_option (\<lambda>leaf. leaf\<lparr>lf_ptyId := None\<rparr>) (paneAt m x)
        \<and> (\<exists>z\<in>set (panesInOrder m). bindingAt (unbindDuplicateTerminals m) z = bindingAt m z
             \<and> isSameTerminal (bindingAt m z) (bindingAt m x))"
  proof -
    have "withoutPty = (\<lambda>leaf. leaf\<lparr>lf_ptyId := None\<rparr>)" by (simp add: withoutPty_def fun_eq_iff)
    with spec [OF U(2), of x] show ?thesis by auto
  qed
qed

section \<open>Loaded workspaces\<close>

text \<open>What the stored group tree must be: distinct leaves that name every stored group.\<close>

definition treeNamesGroups :: "sessionState \<Rightarrow> string \<Rightarrow> bool" where
  "treeNamesGroups session key \<longleftrightarrow> (case lookupOpt (sx_tabGroupLayouts session) key of
     None \<Rightarrow> card (set (map sg_id (groupsOf session key))) \<le> 1
   | Some n \<Rightarrow> distinct (leafIds n) \<and> set (map sg_id (groupsOf session key)) \<subseteq> set (leafIds n))"

lemma pruneGroupTree_leafIds:
  "optIds (pruneGroupTree n valid) = filter (\<lambda>g. g \<in> set valid) (leafIds n)"
  by (induction n) (auto split: option.splits simp: orElseOpt_def)

lemma pruned_tree_wf:
  assumes tree: "treeNamesGroups session key" and d: "distinct gs"
    and sub: "set gs \<subseteq> (if groupsOf session key = [] then {r} else set (map sg_id (groupsOf session key)))"
  shows "wf_tree gs (Option.bind (lookupOpt (sx_tabGroupLayouts session) key) (\<lambda>n. pruneGroupTree n gs))"
proof (cases "lookupOpt (sx_tabGroupLayouts session) key")
  case None
  have "card (set gs) \<le> 1"
  proof (cases "groupsOf session key = []")
    case True
    with sub card_mono [of "{r}" "set gs"] show ?thesis by simp
  next
    case False
    with sub card_mono [of "set (map sg_id (groupsOf session key))" "set gs"] tree None show ?thesis
      by (simp add: treeNamesGroups_def)
  qed
  with d None show ?thesis by (simp add: wf_tree_def distinct_card)
next
  case (Some n)
  let ?ids = "filter (\<lambda>g. g \<in> set gs) (leafIds n)"
  from tree Some have t: "distinct (leafIds n)" "set (map sg_id (groupsOf session key)) \<subseteq> set (leafIds n)"
    by (simp_all add: treeNamesGroups_def)
  show ?thesis
  proof (cases "pruneGroupTree n gs")
    case none: None
    then have "?ids = []" using pruneGroupTree_leafIds [of n gs] by simp
    then have e: "set gs \<inter> set (leafIds n) = {}" by (auto simp: filter_empty_conv)
    have "length gs \<le> 1"
    proof (cases "groupsOf session key = []")
      case True
      with sub card_mono [of "{r}" "set gs"] d show ?thesis by (simp add: distinct_card)
    next
      case False
      with sub have "set gs \<subseteq> set (map sg_id (groupsOf session key))" by simp
      from subset_trans [OF this t(2)] have "set gs \<subseteq> set (leafIds n)" .
      then have "set gs \<inter> set (leafIds n) = set gs" by (rule inf.absorb1)
      then show ?thesis unfolding e by simp
    qed
    with Some none show ?thesis by (simp add: wf_tree_def)
  next
    case (Some n')
    then have ids: "leafIds n' = ?ids" using pruneGroupTree_leafIds [of n gs] by simp
    have "set ?ids = set gs"
    proof (cases "groupsOf session key = []")
      case False
      with sub have "set gs \<subseteq> set (map sg_id (groupsOf session key))" by simp
      from subset_trans [OF this t(2)] show ?thesis by auto
    next
      case True
      moreover have "?ids \<noteq> []" using ids leafIds_not_Nil [of n'] by simp
      ultimately show ?thesis using sub by (auto simp: filter_empty_conv)
    qed
    moreover have "distinct ?ids" using t(1) by simp
    ultimately have "mset ?ids = mset gs" using d set_eq_iff_mset_eq_distinct by blast
    with ids Some \<open>lookupOpt (sx_tabGroupLayouts session) key = Some n\<close> show ?thesis by (simp add: wf_tree_def)
  qed
qed

text \<open>Reading the files of a workspace changes preview marks only.\<close>

definition tabCore :: "layoutTab \<Rightarrow> string \<times> string \<times> tab_body" where
  "tabCore t = (tb_id t, tb_entityId t, tb_body t)"

lemma demotePreviews_core: "map tabCore (foldl (demotePreviews own ws) tabs files) = map tabCore tabs"
proof (induction files arbitrary: tabs)
  case (Cons f files)
  have "map tabCore (demotePreviews own ws tabs f) = map tabCore tabs"
    by (auto simp: demotePreviews_def tabCore_def)
  with Cons show ?case by simp
qed simp

lemma loadEditorFiles_core:
  "loadEditorFiles own key stored worktreeId tabs view = (files, tabs', view') \<Longrightarrow> map tabCore tabs' = map tabCore tabs"
  by (auto simp: loadEditorFiles_def demotePreviews_core split: option.splits)

lemma tabCore_cong:
  "tabCore t = tabCore u \<Longrightarrow> tb_id t = tb_id u \<and> tb_entityId t = tb_entityId u \<and> isTerminal t = isTerminal u
     \<and> panesKept layouts t = panesKept layouts u"
proof -
  assume "tabCore t = tabCore u"
  then have c: "tb_id t = tb_id u" "tb_entityId t = tb_entityId u" "tb_body t = tb_body u" by (simp_all add: tabCore_def)
  have "panesOf t = panesOf u" using c(3) by (simp add: panesOf_def)
  then have "panesKept layouts t = panesKept layouts u"
    using c(2) by (cases "panesOf u") (simp_all add: panesKept_def)
  with c show ?thesis by (simp add: isTerminal_def)
qed

lemma core_facts:
  assumes "map tabCore ts = map tabCore us"
  shows "map tb_id ts = map tb_id us" "map tb_entityId (filter isTerminal ts) = map tb_entityId (filter isTerminal us)"
    "list_all (panesKept layouts) ts = list_all (panesKept layouts) us"
proof -
  have "length ts = length us" using assms by (metis length_map)
  then have "map tb_id ts = map tb_id us \<and> map tb_entityId (filter isTerminal ts) = map tb_entityId (filter isTerminal us)
    \<and> list_all (panesKept layouts) ts = list_all (panesKept layouts) us" using assms
  proof (induction ts us rule: list_induct2)
    case (Cons t ts u us)
    then have "tabCore t = tabCore u" by simp
    from tabCore_cong [OF this] Cons show ?case by simp
  qed simp
  then show "map tb_id ts = map tb_id us" "map tb_entityId (filter isTerminal ts) = map tb_entityId (filter isTerminal us)"
    "list_all (panesKept layouts) ts = list_all (panesKept layouts) us" by blast+
qed

text \<open>A workspace as it is loaded, before its panes.\<close>

lemma loadWorkspace_facts:
  assumes mint: "mintsNewTabs ctx session key" and tree: "treeNamesGroups session key"
    and l: "loadWorkspace own session ctx homes s key = (w, s')"
  shows "distinct (tabIds w)" "wf_groups {} (tabIds w) (ws_groups w)" "ws_leaves w = None"
    and "wf_tree (groupIds w) (ws_groupLayout w)"
    and "distinct (map tb_entityId (filter isTerminal (ws_tabs w)))"
    and "set (map tb_entityId (filter isTerminal (ws_tabs w))) \<subseteq> rw_id ` set (takeRows session key homes)"
    and "list_all (panesKept (lo_layouts s')) (ws_tabs w)"
    and "e \<notin> set (map tb_entityId (filter isTerminal (ws_tabs w))) \<Longrightarrow> map_of (lo_layouts s') e = map_of (lo_layouts s) e"
    and "set (tabIds w) \<subseteq> storedTabIds session key \<union> lx_mintId ctx ` tabSeeds session key"
proof -
  define p where "p = loadTabs own session ctx key homes s"
  define gs where "gs = resolveGroupOrder (groupsOf session key) (lt_candidates p) key (lx_mintId ctx)"
  define view1 where "view1 = foldl (viewGroup (duplicateEditorTabAliases own (entriesOf session key)) key)
    (lo_view (lt_state p)) (groupsOf session key)"
  obtain files tabs view2 where f: "loadEditorFiles own key (lookupOpt (sx_openFilesByWorktree session) key)
    (resolveWorktreeId session key) (lt_tabs p) view1 = (files, tabs, view2)" by (metis prod_cases3)
  have w: "ws_tabs w = tabs" "ws_groups w = gs" "ws_leaves w = None" "lo_layouts s' = lo_layouts (lt_state p)"
    "ws_groupLayout w = Option.bind (lookupOpt (sx_tabGroupLayouts session) key) (\<lambda>n. pruneGroupTree n (map gr_id gs))"
    using l f unfolding loadWorkspace_def Let_def p_def [symmetric] view1_def [symmetric] gs_def [symmetric]
    by (auto split: prod.splits)
  note core = core_facts [OF loadEditorFiles_core [OF f]]
  note facts = loadTabs_facts [OF mint p_def]
  have ids: "tabIds w = map tb_id (lt_tabs p)" using core(1) w(1) by simp
  show "distinct (tabIds w)" using facts(1) ids by simp
  have "distinct (map oc_id (lt_candidates p))" using facts(1,2) by simp
  from resolveGroupOrder_wf [OF this, of "groupsOf session key" key "lx_mintId ctx"]
  show g: "wf_groups {} (tabIds w) (ws_groups w)" using facts(2) ids w(2) by (simp add: gs_def)
  show "ws_leaves w = None" by (rule w(3))
  have "distinct (map gr_id gs)" using g w(2) by (simp add: wf_groups_def)
  from pruned_tree_wf [OF tree this] resolveGroupOrder_ids [of "groupsOf session key" "lt_candidates p" key "lx_mintId ctx"]
  show "wf_tree (groupIds w) (ws_groupLayout w)" using w(2,5) by (simp add: gs_def)
  show "distinct (map tb_entityId (filter isTerminal (ws_tabs w)))" using facts(3) core(2) w(1) by simp
  show "set (map tb_entityId (filter isTerminal (ws_tabs w))) \<subseteq> rw_id ` set (takeRows session key homes)"
    using facts(4) unfolding w(1) core(2) .
  show "list_all (panesKept (lo_layouts s')) (ws_tabs w)" using facts(5) core(3) w(1,4) by simp
  show "map_of (lo_layouts s') e = map_of (lo_layouts s) e"
    if "e \<notin> set (map tb_entityId (filter isTerminal (ws_tabs w)))"
    using facts(6) that unfolding w(1,4) core(2) .
  show "set (tabIds w) \<subseteq> storedTabIds session key \<union> lx_mintId ctx ` tabSeeds session key"
    using facts(7) unfolding ids by blast
qed

section \<open>The workspaces of a session\<close>

text \<open>Workspaces loaded one by one: each under its key, its panes kept by those loaded later.\<close>

definition workspaceLoaded ::
  "loadContext \<Rightarrow> sessionState \<Rightarrow> (string \<times> layoutSnapshot) list \<Rightarrow> string \<Rightarrow> workspaceLayout \<Rightarrow> bool" where
  "workspaceLoaded ctx session layouts k w \<longleftrightarrow>
     distinct (tabIds w) \<and> wf_groups {} (tabIds w) (ws_groups w) \<and> ws_leaves w = None
     \<and> wf_tree (groupIds w) (ws_groupLayout w)
     \<and> distinct (map tb_entityId (filter isTerminal (ws_tabs w)))
     \<and> set (map tb_entityId (filter isTerminal (ws_tabs w))) \<subseteq> rw_id ` set (takeRows session k (resolveTerminalHomes session))
     \<and> list_all (panesKept layouts) (ws_tabs w)
     \<and> set (tabIds w) \<subseteq> storedTabIds session k \<union> lx_mintId ctx ` tabSeeds session k"

lemma workspaceLoadedD:
  assumes "workspaceLoaded ctx session layouts k w"
  shows "distinct (tabIds w)" "wf_groups {} (tabIds w) (ws_groups w)" "ws_leaves w = None"
    "wf_tree (groupIds w) (ws_groupLayout w)" "distinct (map tb_entityId (filter isTerminal (ws_tabs w)))"
    "t \<in> set (ws_tabs w) \<Longrightarrow> isTerminal t \<Longrightarrow> map_of (resolveTerminalHomes session) (tb_entityId t) = Some k"
    "t \<in> set (ws_tabs w) \<Longrightarrow> panesKept layouts t"
    "set (tabIds w) \<subseteq> storedTabIds session k \<union> lx_mintId ctx ` tabSeeds session k"
proof -
  note c = assms [unfolded workspaceLoaded_def]
  show "distinct (tabIds w)" "wf_groups {} (tabIds w) (ws_groups w)" "ws_leaves w = None"
    "wf_tree (groupIds w) (ws_groupLayout w)" "distinct (map tb_entityId (filter isTerminal (ws_tabs w)))"
    "set (tabIds w) \<subseteq> storedTabIds session k \<union> lx_mintId ctx ` tabSeeds session k" using c by blast+
  show "panesKept layouts t" if "t \<in> set (ws_tabs w)" using c that by (simp add: list_all_iff)
  show "map_of (resolveTerminalHomes session) (tb_entityId t) = Some k" if t: "t \<in> set (ws_tabs w)" "isTerminal t"
  proof -
    have "tb_entityId t \<in> set (map tb_entityId (filter isTerminal (ws_tabs w)))" using t by simp
    then have "tb_entityId t \<in> rw_id ` set (takeRows session k (resolveTerminalHomes session))" using c by blast
    with takeRows_ids(2) show ?thesis by auto
  qed
qed

definition loadedOk ::
  "loadContext \<Rightarrow> sessionState \<Rightarrow> string list \<Rightarrow> (string \<times> workspaceLayout) list \<Rightarrow> (string \<times> layoutSnapshot) list \<Rightarrow> bool" where
  "loadedOk ctx session keys W layouts \<longleftrightarrow> map fst W = keys
     \<and> list_all (\<lambda>(k, w). workspaceLoaded ctx session layouts k w) W"

lemma loadedOkD:
  "loadedOk ctx session keys W layouts \<Longrightarrow> map fst W = keys"
  "loadedOk ctx session keys W layouts \<Longrightarrow> (k, w) \<in> set W \<Longrightarrow> workspaceLoaded ctx session layouts k w"
  by (auto simp: loadedOk_def list_all_iff)

lemma panesKept_same:
  "panesKept layouts t \<Longrightarrow> (isTerminal t \<Longrightarrow> map_of layouts' (tb_entityId t) = map_of layouts (tb_entityId t)) \<Longrightarrow> panesKept layouts' t"
  by (cases "isTerminal t") (auto simp: panesKept_def isTerminal_def panesOf_def split: tab_body.splits)

lemma loadedOk_step:
  assumes ok: "loadedOk ctx session keys W (lo_layouts s)" and key: "key \<notin> set keys"
    and mint: "mintsNewTabs ctx session key" and tree: "treeNamesGroups session key"
    and l: "loadWorkspace own session ctx (resolveTerminalHomes session) s key = (w, s')"
  shows "loadedOk ctx session (keys @ [key]) (AList.update key w W) (lo_layouts s')"
proof -
  note facts = loadWorkspace_facts [OF mint tree l]
  have keys: "map fst W = keys" by (rule loadedOkD(1) [OF ok])
  then have ks: "fst ` set W = set keys" by (metis list.set_map)
  with key have "key \<notin> fst ` set W" by simp
  then have new: "AList.update key w W = W @ [(key, w)]" by (rule map_snd_update_new)
  have w: "workspaceLoaded ctx session (lo_layouts s') key w" unfolding workspaceLoaded_def by (intro conjI facts)
  have "workspaceLoaded ctx session (lo_layouts s') k v" if v: "(k, v) \<in> set W" for k v
  proof -
    note old = loadedOkD(2) [OF ok v]
    have ne: "k \<noteq> key" using v key ks by (metis fst_conv image_eqI)
    have "panesKept (lo_layouts s') t" if t: "t \<in> set (ws_tabs v)" for t
    proof (rule panesKept_same [OF workspaceLoadedD(7) [OF old t]])
      assume "isTerminal t"
      have "tb_entityId t \<notin> set (map tb_entityId (filter isTerminal (ws_tabs w)))"
      proof
        assume "tb_entityId t \<in> set (map tb_entityId (filter isTerminal (ws_tabs w)))"
        then obtain u where u: "u \<in> set (ws_tabs w)" "isTerminal u" "tb_entityId u = tb_entityId t" by auto
        from workspaceLoadedD(6) [OF w u(1,2)] workspaceLoadedD(6) [OF old t \<open>isTerminal t\<close>] u(3) ne show False by simp
      qed
      then show "map_of (lo_layouts s') (tb_entityId t) = map_of (lo_layouts s) (tb_entityId t)" by (rule facts(8))
    qed
    then have "list_all (panesKept (lo_layouts s')) (ws_tabs v)" by (simp add: list_all_iff)
    with old show ?thesis unfolding workspaceLoaded_def by blast
  qed
  with w keys show ?thesis unfolding loadedOk_def new by (auto simp: list_all_iff)
qed

lemma loadedWorkspaces_ok:
  assumes each: "\<forall>k\<in>set (workspaceKeys session). mintsNewTabs ctx session k \<and> treeNamesGroups session k"
    and l: "loadedWorkspaces own session ctx s = (W, s')"
  shows "loadedOk ctx session (workspaceKeys session) W (lo_layouts s')"
proof -
  let ?step = "\<lambda>(workspaces, s) key. let (ws, s') = loadWorkspace own session ctx (resolveTerminalHomes session) s key
         in (AList.update key ws workspaces, s')"
  have "loadedOk ctx session (done' @ keys) W (lo_layouts s')"
    if "loadedOk ctx session done' W0 (lo_layouts s0)" "distinct (done' @ keys)"
      "\<forall>k\<in>set keys. mintsNewTabs ctx session k \<and> treeNamesGroups session k"
      "foldl ?step (W0, s0) keys = (W, s')" for done' keys W0 s0
    using that
  proof (induction keys arbitrary: done' W0 s0)
    case (Cons key keys)
    obtain w s1 where w: "loadWorkspace own session ctx (resolveTerminalHomes session) s0 key = (w, s1)" by force
    have "loadedOk ctx session (done' @ [key]) (AList.update key w W0) (lo_layouts s1)"
      using Cons.prems by (intro loadedOk_step [OF Cons.prems(1) _ _ _ w]) simp_all
    from Cons.IH [OF this] Cons.prems w show ?case by simp
  qed simp
  from this [of "[]" "[]" s "workspaceKeys session"] each l show ?thesis
    by (simp add: loadedWorkspaces_def loadedOk_def workspaceKeys_def)
qed

section \<open>Closed tabs\<close>

text \<open>Placing the closed tabs of a session writes the closed tabs of workspaces that exist.\<close>

definition withoutClosed :: "string \<times> workspaceLayout \<Rightarrow> string \<times> workspaceLayout" where
  "withoutClosed = (\<lambda>(k, w). (k, w\<lparr>ws_closedTerminalTabs := None\<rparr>))"

lemma map_update_at:
  "map_of es k = Some v \<Longrightarrow> f (k, v') = f (k, v) \<Longrightarrow> map f (AList.update k v' es) = map f es"
  by (induction es) (auto split: if_splits)

lemma keyByWorktree_keys: "map_of (keyByWorktree m) i = Some k \<Longrightarrow> workspaceAt m k \<noteq> None"
proof -
  let ?step = "\<lambda>r (key, ws). if map_of r (ws_worktreeId ws) = None then AList.update (ws_worktreeId ws) key r else r"
  have "map_of (foldl ?step r W) i = Some k \<Longrightarrow> map_of r i = Some k \<or> k \<in> fst ` set W" for r W
  proof (induction W arbitrary: r)
    case (Cons x W)
    obtain key ws where x: "x = (key, ws)" by force
    from Cons.IH [of "?step r x"] Cons.prems show ?case by (auto simp: x update_conv' split: if_splits)
  qed simp
  from this [of "[]" "md_workspaces m"] show "map_of (keyByWorktree m) i = Some k \<Longrightarrow> workspaceAt m k \<noteq> None"
    by (simp add: keyByWorktree_def map_of_eq_None_iff)
qed

lemma placeClosedTabs_frame: "map withoutClosed (md_workspaces (fst (placeClosedTabs session m carried))) = map withoutClosed (md_workspaces m)"
proof -
  let ?by = "keyByWorktree m"
  have "map withoutClosed (md_workspaces (fst (foldl (placeClosedTab ?by) (m', c) xs))) = map withoutClosed (md_workspaces m)"
    if "map withoutClosed (md_workspaces m') = map withoutClosed (md_workspaces m)" for m' c xs
    using that
  proof (induction xs arbitrary: m' c)
    case (Cons x xs)
    obtain tabId record' where x: "x = (tabId, record')" by force
    obtain m1 c1 where s: "placeClosedTab ?by (m', c) x = (m1, c1)" by force
    have "map withoutClosed (md_workspaces m1) = map withoutClosed (md_workspaces m')"
    proof (cases "map_of ?by (tt_worktreeId record')")
      case None
      with s x show ?thesis by (simp add: placeClosedTab_def)
    next
      case (Some key)
      have "map fst (md_workspaces m') = map fst (map withoutClosed (md_workspaces m'))"
        "map fst (map withoutClosed (md_workspaces m)) = map fst (md_workspaces m)"
        by (simp_all add: withoutClosed_def case_prod_unfold comp_def)
      with Cons.prems have "map fst (md_workspaces m') = map fst (md_workspaces m)" by simp
      then have "fst ` set (md_workspaces m') = fst ` set (md_workspaces m)" by (metis list.set_map)
      with keyByWorktree_keys [OF Some] obtain w where w: "workspaceAt m' key = Some w"
        by (cases "workspaceAt m' key") (auto simp: map_of_eq_None_iff)
      define cs where "cs = Some (AList.update tabId \<lparr>cl_closedAt = tt_closedAt record', cl_reason = tt_reason record'\<rparr>
               (orElse (ws_closedTerminalTabs w) []))"
      from w s x Some have "md_workspaces m1 = AList.update key (w\<lparr>ws_closedTerminalTabs := cs\<rparr>) (md_workspaces m')"
        by (auto simp: placeClosedTab_def Let_def withWorkspace_def cs_def)
      moreover have "withoutClosed (key, w\<lparr>ws_closedTerminalTabs := cs\<rparr>) = withoutClosed (key, w)" by (simp add: withoutClosed_def)
      ultimately show ?thesis by (simp add: map_update_at [OF w])
    qed
    with Cons.prems have "map withoutClosed (md_workspaces m1) = map withoutClosed (md_workspaces m)" by simp
    from Cons.IH [OF this, of c1] s show ?case by simp
  qed simp
  from this [OF refl] show ?thesis by (simp add: placeClosedTabs_def)
qed

section \<open>The loaded layout\<close>

text \<open>The workspaces of a session as they are loaded, before their panes.\<close>

definition loadStart :: "sessionState \<Rightarrow> loadState" where
  "loadStart session = \<lparr>lo_view = viewOfSession session,
     lo_facts = factFields.extend (sx_facts session) (layoutContentFacts.fields [] [] [] []),
     lo_layouts = [], lo_canonical = []\<rparr>"

definition loadedTerminals :: "(string \<times> workspaceLayout) list \<Rightarrow> string set" where
  "loadedTerminals W = {tb_entityId t | k w t. (k, w) \<in> set W \<and> t \<in> set (ws_tabs w) \<and> isTerminal t}"

definition loadedPaneIds :: "(string \<times> workspaceLayout) list \<Rightarrow> string set" where
  "loadedPaneIds W = {l | k w l. (k, w) \<in> set W \<and> l \<in> set (paneIds w)}"

definition tabIdSource :: "loadContext \<Rightarrow> sessionState \<Rightarrow> string \<Rightarrow> string set" where
  "tabIdSource ctx session key = storedTabIds session key \<union> lx_mintId ctx ` tabSeeds session key"

text \<open>
  What a stored session must be: no tab id of two workspaces, group trees that name the groups, and
  ids made up for tabs and panes that are new.
\<close>

definition loadable :: "bool \<Rightarrow> sessionState \<Rightarrow> loadContext \<Rightarrow> bool" where
  "loadable own session ctx \<longleftrightarrow>
     (\<forall>k\<in>set (workspaceKeys session). mintsNewTabs ctx session k \<and> treeNamesGroups session k
        \<and> (\<forall>k'\<in>set (workspaceKeys session). k \<noteq> k' \<longrightarrow> tabIdSource ctx session k \<inter> tabIdSource ctx session k' = {}))
     \<and> (let W = fst (loadedWorkspaces own session ctx (loadStart session))
        in mintsNewLeaves ctx (loadedTerminals W) (loadedPaneIds W))"

lemma loadableD:
  assumes "loadable own session ctx"
  shows "\<forall>k\<in>set (workspaceKeys session). mintsNewTabs ctx session k \<and> treeNamesGroups session k"
    and "k \<in> set (workspaceKeys session) \<Longrightarrow> k' \<in> set (workspaceKeys session) \<Longrightarrow> k \<noteq> k' \<Longrightarrow> tabIdSource ctx session k \<inter> tabIdSource ctx session k' = {}"
    and "W = fst (loadedWorkspaces own session ctx (loadStart session)) \<Longrightarrow> mintsNewLeaves ctx (loadedTerminals W) (loadedPaneIds W)"
proof -
  note c = assms [unfolded loadable_def Let_def]
  show "\<forall>k\<in>set (workspaceKeys session). mintsNewTabs ctx session k \<and> treeNamesGroups session k" using conjunct1 [OF c] by simp
  show "tabIdSource ctx session k \<inter> tabIdSource ctx session k' = {}"
    if "k \<in> set (workspaceKeys session)" "k' \<in> set (workspaceKeys session)" "k \<noteq> k'" using conjunct1 [OF c] that by simp
  show "mintsNewLeaves ctx (loadedTerminals W) (loadedPaneIds W)"
    if "W = fst (loadedWorkspaces own session ctx (loadStart session))" unfolding that by (rule conjunct2 [OF c])
qed

lemma loadedOk_shape:
  assumes ok: "loadedOk ctx session (workspaceKeys session) W layouts"
  shows "loadedShape W"
proof -
  have keys: "distinct (map fst W)" using loadedOkD(1) [OF ok] by (simp add: workspaceKeys_def)
  have each: "distinct (tabIds w)" "wf_groups {} (tabIds w) (ws_groups w)" "ws_leaves w = None"
    "distinct (map tb_entityId (filter isTerminal (ws_tabs w)))" if "(k, w) \<in> set W" for k w
    by (rule workspaceLoadedD [OF loadedOkD(2) [OF ok that]])+
  have "distinct (concat (map (\<lambda>(k, w). map tb_entityId (filter isTerminal (ws_tabs w))) V))"
    if "set V \<subseteq> set W" "distinct (map fst V)" for V
    using that
  proof (induction V)
    case (Cons x V)
    obtain k w where x: "x = (k, w)" by force
    with Cons.prems have w: "(k, w) \<in> set W" by simp
    have "False" if t: "t \<in> set (ws_tabs w)" "isTerminal t" and u: "(k', v) \<in> set V" "u \<in> set (ws_tabs v)" "isTerminal u"
      "tb_entityId t = tb_entityId u" for t u k' v
    proof -
      have "(k', v) \<in> set W" using Cons.prems(1) u(1) by auto
      from workspaceLoadedD(6) [OF loadedOkD(2) [OF ok this] u(2,3)] workspaceLoadedD(6) [OF loadedOkD(2) [OF ok w] t] u(4)
      have "k = k'" by simp
      with Cons.prems(2) x u(1) show False by force
    qed
    then have "set (map tb_entityId (filter isTerminal (ws_tabs w)))
        \<inter> set (concat (map (\<lambda>(k, w). map tb_entityId (filter isTerminal (ws_tabs w))) V)) = {}" by fastforce
    with Cons each(4) [OF w] x show ?case by simp
  qed simp
  from this [of W] keys have "distinct (concat (map (\<lambda>(k, w). map tb_entityId (filter isTerminal (ws_tabs w))) W))" by simp
  with keys each show ?thesis unfolding loadedShape_def by blast
qed

lemma map_eq_at: "map f xs = map g ys \<Longrightarrow> x \<in> set xs \<Longrightarrow> \<exists>y\<in>set ys. f x = g y"
  by (metis image_iff list.set_map)

lemma closed_at:
  assumes "map withoutClosed V = map withoutClosed W" "(k, v) \<in> set V"
  obtains w where "(k, w) \<in> set W" "ws_tabs v = ws_tabs w" "ws_groups v = ws_groups w" "ws_leaves v = ws_leaves w"
proof -
  from map_eq_at [OF assms] obtain k' w where w: "(k', w) \<in> set W" "withoutClosed (k, v) = withoutClosed (k', w)" by auto
  then have "k' = k" "v\<lparr>ws_closedTerminalTabs := None\<rparr> = w\<lparr>ws_closedTerminalTabs := None\<rparr>" by (simp_all add: withoutClosed_def)
  with w(1) that [of w] show thesis
    by (cases v; cases w) simp
qed

lemma loadedShape_closed:
  assumes e: "map withoutClosed V = map withoutClosed W" and W: "loadedShape W"
  shows "loadedShape V"
proof -
  have "map fst V = map fst W"
    using arg_cong [OF e, of "map fst"] by (simp add: withoutClosed_def case_prod_unfold comp_def)
  moreover have "map (\<lambda>(k, w). map tb_entityId (filter isTerminal (ws_tabs w))) V = map (\<lambda>(k, w). map tb_entityId (filter isTerminal (ws_tabs w))) W"
    using arg_cong [OF e, of "map (\<lambda>(k, w). map tb_entityId (filter isTerminal (ws_tabs w)))"]
    by (simp add: withoutClosed_def case_prod_unfold comp_def)
  moreover have "distinct (tabIds v) \<and> wf_groups {} (tabIds v) (ws_groups v) \<and> ws_leaves v = None" if v: "(k, v) \<in> set V" for k v
  proof -
    obtain w where w: "(k, w) \<in> set W" "ws_tabs v = ws_tabs w" "ws_groups v = ws_groups w" "ws_leaves v = ws_leaves w"
      by (rule closed_at [OF e v])
    with W show ?thesis unfolding loadedShape_def by fastforce
  qed
  ultimately show ?thesis using W unfolding loadedShape_def by auto
qed

lemma distinct_concat_apart:
  "distinct (concat (map f xs)) \<Longrightarrow> x \<in> set xs \<Longrightarrow> y \<in> set xs \<Longrightarrow> x \<noteq> y \<Longrightarrow> set (f x) \<inter> set (f y) = {}"
  by (induction xs) auto

lemma loaded_wf:
  assumes shape: "map shapeOf (md_workspaces m) = map shapeOf W" and panes: "distinct (allPaneIds m)"
    and leaves: "\<forall>(k, w)\<in>set (md_workspaces m). wf_leaves (paneIds w) (ws_leaves w)"
    and ok: "loadedOk ctx session (workspaceKeys session) W layouts" and load: "loadable own session ctx"
  shows "wf_layout m"
proof -
  have at: "\<exists>v. (k, v) \<in> set W \<and> tabIds w = tabIds v \<and> ws_groups w = ws_groups v \<and> ws_groupLayout w = ws_groupLayout v"
    if "(k, w) \<in> set (md_workspaces m)" for k w
    using map_eq_at [OF shape that] by (auto simp: shapeOf_def)
  have "map fst (md_workspaces m) = map fst W"
    using arg_cong [OF shape, of "map fst"] by (simp add: shapeOf_def case_prod_unfold comp_def)
  then have keys: "map fst (md_workspaces m) = workspaceKeys session" using loadedOkD(1) [OF ok] by simp
  have d: "distinct (map fst (md_workspaces m))" unfolding keys workspaceKeys_def by simp
  have each: "wf_workspace {} w" if w: "(k, w) \<in> set (md_workspaces m)" for k w
  proof -
    from at [OF w] obtain v where v: "(k, v) \<in> set W" "tabIds w = tabIds v" "ws_groups w = ws_groups v" "ws_groupLayout w = ws_groupLayout v"
      by blast
    note facts = workspaceLoadedD [OF loadedOkD(2) [OF ok v(1)]]
    have "distinct (paneIds w)" using panes split_list [OF w] unfolding allPaneIds_def by auto
    moreover have "wf_leaves (paneIds w) (ws_leaves w)" using bspec [OF leaves w] by simp
    ultimately show ?thesis unfolding wf_workspace_def v(2,3,4) using facts(1,2,4) by simp
  qed
  have sep: "apart w w'" if w: "(k, w) \<in> set (md_workspaces m)" "(k', w') \<in> set (md_workspaces m)" "k \<noteq> k'" for k w k' w'
  proof -
    have src: "set (tabIds v) \<subseteq> tabIdSource ctx session i \<and> i \<in> set (workspaceKeys session)" if v: "(i, v) \<in> set (md_workspaces m)" for i v
    proof -
      from at [OF v] obtain u where u: "(i, u) \<in> set W" "tabIds v = tabIds u" by blast
      have "i \<in> set (workspaceKeys session)" unfolding keys [symmetric] using v by force
      with workspaceLoadedD(8) [OF loadedOkD(2) [OF ok u(1)]] u(2) show ?thesis by (simp add: tabIdSource_def)
    qed
    have "set (tabIds w) \<inter> set (tabIds w') = {}"
      using src [OF w(1)] src [OF w(2)] loadableD(2) [OF load _ _ w(3)] by blast
    moreover have "set (paneIds w) \<inter> set (paneIds w') = {}"
      using distinct_concat_apart [OF panes [unfolded allPaneIds_def] w(1,2)] w(3) by simp
    ultimately show ?thesis by (simp add: apart_def)
  qed
  show ?thesis unfolding wf_model_def using d each sep by blast
qed

lemma wf_applyTombstones: "wf_model E m \<Longrightarrow> wf_model E (fst (foldl applyTombstone (m, carried) ts))"
proof (induction ts arbitrary: m carried)
  case (Cons t ts)
  obtain m1 c1 where s: "applyTombstone (m, carried) t = (m1, c1)" by force
  then have "m1 = orElse (retireExitedSurface m (surfaceOf t)) m" by (simp add: applyTombstone_def Let_def)
  then have "wf_model E m1"
    using Cons.prems wf_retireExitedSurface [of E m "surfaceOf t"] by (cases "retireExitedSurface m (surfaceOf t)") auto
  from Cons.IH [OF this] s show ?case by simp
qed simp

lemma wf_applyLegacySurfaceTombstones:
  "wf_model E m \<Longrightarrow> wf_model E (fst (applyLegacySurfaceTombstones m session carried))"
  using wf_applyTombstones [of E m carried "map snd (orElse (sx_terminalSurfaceTombstones session) [])"]
  by (simp add: applyLegacySurfaceTombstones_def Let_def case_prod_unfold)

text \<open>
  A stored session loads as a layout that satisfies the structure: unique tab ids in each group
  order, group trees naming the groups, unique pane ids with pane data only for panes.
\<close>

lemma wf_loadedLayout:
  assumes load: "loadable own session ctx"
  shows "wf_layout (ld_layout (loadWorkspaceLayoutWithoutReport own hostId session ctx))"
proof -
  obtain W s where W: "loadedWorkspaces own session ctx (loadStart session) = (W, s)" by force
  let ?m = "\<lparr>md_hostId = hostId, md_workspaces = W, md_records = loadRecords session, md_legacy = loadLegacy session\<rparr>"
  let ?carried = "carriedFields.extend (sx_carried session)
            (carriedSessionFields.fields (filter (\<lambda>(tabId, _). map_of (resolveTerminalHomes session) tabId = None)
              (sx_terminalLayoutsByTabId session)) [] [] [])"
  obtain m1 c1 where c: "placeClosedTabs session ?m ?carried = (m1, c1)" by force
  let ?z = "loadLeaves ctx (lo_layouts s) session m1 (followSubsumedTabSelections (lo_view s) (lo_canonical s)) (lo_facts s)"
  have ok: "loadedOk ctx session (workspaceKeys session) W (lo_layouts s)"
    by (rule loadedWorkspaces_ok [OF loadableD(1) [OF load] W])
  have "map withoutClosed (md_workspaces m1) = map withoutClosed W"
    using placeClosedTabs_frame [of session ?m ?carried] c by simp
  note e = this
  have "map shapeOf V = map shapeOf (map withoutClosed V)" for V
    by (simp add: shapeOf_def withoutClosed_def case_prod_unfold comp_def)
  then have s1: "map shapeOf (md_workspaces m1) = map shapeOf W" using e by metis
  have mint: "mintsNewLeaves ctx (loadedTerminals W) (loadedPaneIds W)"
    by (rule loadableD(3) [OF load]) (simp add: W)
  have tabs: "tb_entityId t \<in> loadedTerminals W \<and> set (leafIdsOf t) \<subseteq> loadedPaneIds W \<and> map_of (lo_layouts s) (tb_entityId t) \<noteq> None"
    if t: "(k, v) \<in> set (md_workspaces m1)" "t \<in> set (ws_tabs v)" "isTerminal t" for k v t
  proof -
    obtain w where w: "(k, w) \<in> set W" "ws_tabs v = ws_tabs w" by (rule closed_at [OF e t(1)])
    with t(2) have tw: "t \<in> set (ws_tabs w)" by simp
    obtain panes where p: "panesOf t = Some panes" using t(3) by (auto simp: isTerminal_def panesOf_def split: tab_body.splits)
    from workspaceLoadedD(7) [OF loadedOkD(2) [OF ok w(1)] tw] p have "map_of (lo_layouts s) (tb_entityId t) \<noteq> None"
      by (auto simp: panesKept_def)
    moreover have "tb_entityId t \<in> loadedTerminals W" unfolding loadedTerminals_def using w(1) tw t(3) by blast
    moreover have "set (leafIdsOf t) \<subseteq> set (paneIds w)" using tw by (auto simp: set_paneIds)
    then have "set (leafIdsOf t) \<subseteq> loadedPaneIds W" unfolding loadedPaneIds_def using w(1) by blast
    ultimately show ?thesis by blast
  qed
  note L = loadLeaves_ok [OF mint loadedShape_closed [OF e loadedOk_shape [OF ok]] tabs refl]
  have "wf_layout (lz_layout ?z)"
    by (rule loaded_wf [OF trans [OF L(2) s1] L(1) L(3) ok load])
  then have "wf_layout (fst (applyLegacySurfaceTombstones (unbindDuplicateTerminals (lz_layout ?z)) session c'))" for c'
    by (intro wf_applyLegacySurfaceTombstones wf_unbindDuplicateTerminals)
  then show ?thesis
    using W c by (simp add: loadWorkspaceLayoutWithoutReport_def Let_def loadStart_def case_prod_unfold)
qed

end
