(* ===== verification/Saved_Layout.thy ===== *)
theory Saved_Layout
  imports Save_Layout Loaded_Bindings
begin

text \<open>
  What is written comes back: tabs, panes, pane data and groups of a saved workspace load as they
  were.
\<close>

section \<open>Tabs\<close>

lemma loadContentTab_saved:
  "tb_body t = ContentBody kind \<Longrightarrow> loadContentTab (saveTabBarEntry own t g i scope) kind = t"
  by (cases t) (simp add: loadContentTab_def contentFields_def saveTabBarEntry_def)

lemma orElseOpt_same [simp]: "orElseOpt a a = a"
  by (cases a) (simp_all add: orElseOpt_def)

lemma loadTerminalTab_saved:
  "tb_body t = TerminalBody creation panes
     \<Longrightarrow> loadTerminalTab (saveTerminalRow t creation panes i scope) (Some (saveTabBarEntry own t g j scope)) panes = t"
  by (cases t; cases creation)
    (simp add: loadTerminalTab_def contentFields_def saveTabBarEntry_def saveTerminalRow_def terminalCreationOf_def)

lemma panesOfSnapshot_saved: "panesOfSnapshot (saveTerminalLayout t panes scope) = panes"
  by (cases panes) (simp add: panesOfSnapshot_def saveTerminalLayout_def Let_def)

section \<open>Pane data\<close>

lemma map_of_byLeaf: "map_of (byLeaf ids f) l = (if l \<in> set ids then f l else None)"
proof -
  have "map_of (rev (concat (map (\<lambda>l. case f l of None \<Rightarrow> [] | Some v \<Rightarrow> [(l, v)]) ids))) l
     = (if l \<in> set ids then f l else None)"
    by (induction ids) (auto simp: map_add_def split: option.splits)
  then show ?thesis by (simp add: byLeaf_def map_of_fromEntries)
qed

lemma lookup_nonEmptyRecord [simp]: "lookupOpt (nonEmptyRecord r) l = map_of r l"
  by (simp add: nonEmptyRecord_def)

lemma saved_lookups:
  "lookupOpt (sl_ptyIdsByLeafId (saveTerminalLayout t panes scope)) l
     = (if l \<in> set (optIds (tp_root panes)) then Option.bind (map_of (sc_leaves scope) l) lf_ptyId else None)"
  "lookupOpt (sl_titlesByLeafId (saveTerminalLayout t panes scope)) l
     = (if l \<in> set (optIds (tp_root panes)) then Option.bind (map_of (sc_leaves scope) l) lf_title else None)"
  "lookupOpt (sl_lastGridsByLeafId (saveTerminalLayout t panes scope)) l
     = (if l \<in> set (optIds (tp_root panes)) then Option.bind (map_of (sc_leaves scope) l) lf_lastGrid else None)"
  by (simp_all add: saveTerminalLayout_def Let_def map_of_byLeaf)

text \<open>A leaf as it can be stored: at most one record, of its own kind, and no live generation.\<close>

definition storableLeaf :: "layoutLeaf \<Rightarrow> bool" where
  "storableLeaf leaf \<longleftrightarrow> lf_ptyGeneration leaf = None
     \<and> (case lf_sleeping leaf of Some r \<Rightarrow> isPaneSleepRecord r \<and> lf_resume leaf = None | None \<Rightarrow> True)
     \<and> (case lf_resume leaf of Some r \<Rightarrow> \<not> isPaneSleepRecord r | None \<Rightarrow> True)"

lemma loadLeaf_saved:
  assumes leaf: "storableLeaf leaf" "leaf = orElse (map_of (sc_leaves scope) l) emptyLeaf" "l \<in> set (optIds (tp_root panes))"
    and inc: "map_of (pr_incarnations records) key = lf_incarnationId leaf"
    and sleep: "map_option layoutSleepingRecord.truncate (map_of (pr_sleeping records) key) = orElseOpt (lf_sleeping leaf) (lf_resume leaf)"
  shows "fst (loadLeaf (saveTerminalLayout t panes scope) l key records) = leaf"
proof -
  define record' where "record' = orElseOpt (lf_sleeping leaf) (lf_resume leaf)"
  define asleep where "asleep = (case record' of None \<Rightarrow> False | Some r \<Rightarrow> isPaneSleepRecord r)"
  have b: "Option.bind (map_of (sc_leaves scope) l) lf_ptyId = lf_ptyId leaf"
    "Option.bind (map_of (sc_leaves scope) l) lf_title = lf_title leaf"
    "Option.bind (map_of (sc_leaves scope) l) lf_lastGrid = lf_lastGrid leaf"
    unfolding leaf(2) by (cases "map_of (sc_leaves scope) l"; simp add: emptyLeaf_def)+
  have "fst (loadLeaf (saveTerminalLayout t panes scope) l key records)
     = \<lparr>lf_ptyId = lf_ptyId leaf, lf_ptyGeneration = None, lf_incarnationId = lf_incarnationId leaf,
        lf_title = lf_title leaf, lf_lastGrid = lf_lastGrid leaf,
        lf_sleeping = (if asleep then record' else None), lf_resume = (if asleep then None else record')\<rparr>"
    using leaf(3) by (simp add: loadLeaf_def Let_def saved_lookups b inc sleep record'_def [symmetric] asleep_def [symmetric])
  moreover have "(if asleep then record' else None) = lf_sleeping leaf" "(if asleep then None else record') = lf_resume leaf"
    "lf_ptyGeneration leaf = None"
    using leaf(1) unfolding storableLeaf_def asleep_def record'_def
    by (cases "lf_sleeping leaf"; cases "lf_resume leaf"; simp add: orElseOpt_def)+
  ultimately show ?thesis by (cases leaf) simp
qed

section \<open>Groups\<close>

lemma groupOfStored_saved: "groupOfStored (savedGroup key view worktreeId g) = g"
  by (simp add: groupOfStored_def savedGroup_def Let_def)

section \<open>The parts of a saved workspace\<close>

lemma savedTabs_wf: "wf_workspace E w \<Longrightarrow> savedTabs w = tabsInOrder w"
  using mset_eq_setD [OF tabsInOrder_mset [of E w]] by (simp add: savedTabs_def)

lemma terminalParts_tabs: "map fst (terminalParts ts) = filter isTerminal ts"
  by (induction ts) (auto simp: terminalParts_def isTerminal_def split: tab_body.split)

lemma terminalParts_body: "(t, creation, panes) \<in> set (terminalParts ts) \<longleftrightarrow> t \<in> set ts \<and> tb_body t = TerminalBody creation panes"
  by (auto simp: terminalParts_def split: tab_body.splits)

lemma savedRows_ids: "map rw_id (savedRows ts scope) = map tb_entityId (filter isTerminal ts)"
proof -
  have "map rw_id (savedRows ts scope) = map (tb_entityId \<circ> fst) (map snd (enumerate 0 (terminalParts ts)))"
    unfolding savedRows_def map_map by (intro map_cong refl) (auto simp: saveTerminalRow_def)
  then show ?thesis by (simp only: map_snd_enumerate map_map [symmetric] terminalParts_tabs)
qed

lemma savedRows_in: "row \<in> set (savedRows ts scope) \<Longrightarrow>
    \<exists>t creation panes i. t \<in> set ts \<and> tb_body t = TerminalBody creation panes \<and> row = saveTerminalRow t creation panes i scope"
proof -
  assume "row \<in> set (savedRows ts scope)"
  then obtain i t creation panes where r: "(i, t, creation, panes) \<in> set (enumerate 0 (terminalParts ts))"
    "row = saveTerminalRow t creation panes (int i) scope" by (auto simp: savedRows_def)
  then have "(t, creation, panes) \<in> set (terminalParts ts)" by (auto simp: in_set_enumerate_eq dest: nth_mem)
  with r(2) show ?thesis unfolding terminalParts_body by blast
qed

lemma find_savedRow:
  assumes t: "t \<in> set ts" "tb_body t = TerminalBody creation panes"
    and d: "distinct (map tb_entityId (filter isTerminal ts))"
  shows "\<exists>i. List.find (\<lambda>row. rw_id row = tb_entityId t) (savedRows ts scope) = Some (saveTerminalRow t creation panes i scope)"
proof -
  have "t \<in> set (filter isTerminal ts)" using t by (simp add: isTerminal_def)
  then have "tb_entityId t \<in> set (map rw_id (savedRows ts scope))" unfolding savedRows_ids by simp
  then obtain row where "List.find (\<lambda>row. rw_id row = tb_entityId t) (savedRows ts scope) = Some row"
    by (cases "List.find (\<lambda>row. rw_id row = tb_entityId t) (savedRows ts scope)") (auto simp: find_None_iff)
  moreover from find_SomeD [OF this] have row: "row \<in> set (savedRows ts scope)" "rw_id row = tb_entityId t" by simp_all
  from savedRows_in [OF row(1)] obtain u creation' panes' i where
    u: "u \<in> set ts" "tb_body u = TerminalBody creation' panes'" "row = saveTerminalRow u creation' panes' i scope" by blast
  have "u \<in> set (filter isTerminal ts)" "t \<in> set (filter isTerminal ts)" "tb_entityId u = tb_entityId t"
    using u t row(2) by (simp_all add: isTerminal_def saveTerminalRow_def)
  with d have "u = t" by (auto simp: distinct_map dest: inj_onD)
  with u t have "row = saveTerminalRow t creation panes i scope" by simp
  ultimately show ?thesis by blast
qed

lemma fold_placement: "map_of (fold (\<lambda>(i, tabId). AList.update tabId (g, int i)) es r) t
     = (if t \<in> snd ` set es then Some (g, int (fst (last (filter (\<lambda>e. snd e = t) es)))) else map_of r t)"
proof (induction es rule: rev_induct)
  case (snoc e es)
  obtain i u where e: "e = (i, u)" by force
  show ?case using snoc by (auto simp: e update_conv')
qed simp

lemma placementOf_in:
  assumes "t \<in> set (concat (map gr_tabOrder gs))"
  shows "\<exists>g i. g \<in> set gs \<and> t \<in> set (gr_tabOrder g) \<and> map_of (placementOf gs) t = Some (gr_id g, i)"
  using assms unfolding placementOf_def
proof (induction gs rule: rev_induct)
  case (snoc g gs)
  show ?case
  proof (cases "t \<in> set (gr_tabOrder g)")
    case True
    then have "t \<in> snd ` set (enumerate 0 (gr_tabOrder g))" by (metis list.set_map map_snd_enumerate)
    with True show ?thesis by (auto simp: fold_placement)
  next
    case False
    then have n: "t \<notin> snd ` set (enumerate 0 (gr_tabOrder g))" by (metis list.set_map map_snd_enumerate)
    from False snoc.prems have "t \<in> set (concat (map gr_tabOrder gs))" by simp
    from snoc.IH [OF this] n show ?thesis by (auto simp: fold_placement)
  qed
qed simp

text \<open>The entry of a placed tab.\<close>

definition entryOf :: "bool \<Rightarrow> layoutGroup list \<Rightarrow> workspaceSaveScope \<Rightarrow> layoutTab \<Rightarrow> tabEntry" where
  "entryOf own groups scope t = (case map_of (placementOf groups) (tb_id t) of
     None \<Rightarrow> saveTabBarEntry own t [] 0 scope | Some (g, i) \<Rightarrow> saveTabBarEntry own t g i scope)"

lemma entryOf_saved: "\<exists>g i. entryOf own groups scope t = saveTabBarEntry own t g i scope"
  by (auto simp: entryOf_def split: option.split)

lemma savedEntries_placed:
  assumes "set (map tb_id ts) \<subseteq> set (concat (map gr_tabOrder gs))"
  shows "savedEntries own ts gs scope = map (entryOf own gs scope) ts"
proof -
  have "(case map_of (placementOf gs) (tb_id t) of
        None \<Rightarrow> [] | Some (groupId, i) \<Rightarrow> [saveTabBarEntry own t groupId i scope]) = [entryOf own gs scope t]" if "t \<in> set ts" for t
  proof -
    have "tb_id t \<in> set (concat (map gr_tabOrder gs))" using assms that by auto
    from placementOf_in [OF this] show ?thesis by (auto simp: entryOf_def)
  qed
  then have "concat (map (\<lambda>t. case map_of (placementOf gs) (tb_id t) of
        None \<Rightarrow> [] | Some (groupId, i) \<Rightarrow> [saveTabBarEntry own t groupId i scope]) ts) = concat (map (\<lambda>t. [entryOf own gs scope t]) ts)"
    by (intro arg_cong [of _ _ concat] map_cong refl)
  then show ?thesis by (simp add: savedEntries_def)
qed

lemma entryOf_group:
  assumes "tb_id t \<in> set (concat (map gr_tabOrder gs))"
  shows "\<exists>g\<in>set gs. tb_id t \<in> set (gr_tabOrder g) \<and> te_groupId (entryOf own gs scope t) = gr_id g"
  using placementOf_in [OF assms] by (auto simp: entryOf_def saveTabBarEntry_def)

section \<open>The saved session\<close>

text \<open>Writing workspaces with different keys adds an entry each.\<close>

definition rowsKept :: "loadedLayout \<Rightarrow> string \<times> workspaceLayout \<Rightarrow> bool" where
  "rowsKept loaded = (\<lambda>(k, w). savedRows (savedTabs w) (scopeOf k w loaded) \<noteq> []
     \<or> map_of (lg_terminalRowOwners (md_legacy (ld_layout loaded))) k \<noteq> None)"

definition savedGroupsOf :: "loadedLayout \<Rightarrow> string \<Rightarrow> workspaceLayout \<Rightarrow> tabGroup list" where
  "savedGroupsOf loaded k w = map (savedGroup k (ld_desktopView loaded) (ws_worktreeId w)) (filter (\<lambda>g. gr_tabOrder g \<noteq> []) (ws_groups w))"

lemma saveWorkspace_maps:
  fixes own loaded s k w
  defines "s' \<equiv> saveWorkspace own loaded s (k, w)"
  shows "wm_tabsByWorktree s' = (if rowsKept loaded (k, w) then AList.update k (savedRows (savedTabs w) (scopeOf k w loaded)) (wm_tabsByWorktree s) else wm_tabsByWorktree s)"
    and "map_of (wm_unifiedTabs s') k' = (if k' = k \<and> savedGroupsOf loaded k w \<noteq> []
      then Some (savedEntries own (savedTabs w) (ws_groups w) (scopeOf k w loaded)) else map_of (wm_unifiedTabs s) k')"
    and "map_of (wm_tabGroups s') k' = (if k' = k \<and> savedGroupsOf loaded k w \<noteq> []
      then Some (savedGroupsOf loaded k w) else map_of (wm_tabGroups s) k')"
    and "map_of (wm_tabGroupLayouts s') k' = (if k' = k \<and> savedGroupsOf loaded k w \<noteq> []
      then Some (orElse (Option.bind (ws_groupLayout w) (\<lambda>n. pruneGroupTree n (map sg_id (savedGroupsOf loaded k w))))
               (Leaf (sg_id (hd (savedGroupsOf loaded k w))))) else map_of (wm_tabGroupLayouts s) k')"
    and "map_of (wm_openFilesByWorktree s') k' = (if k' = k \<and> ws_editorFiles w \<noteq> None
      then map_option (map (savedFile own k w (ld_desktopView loaded))) (ws_editorFiles w) else map_of (wm_openFilesByWorktree s) k')"
    and "map_of (wm_browserTabsByWorktree s') k' = (if k' = k \<and> ws_browserTabs w \<noteq> None
      then map_option (map (savedBrowserTab k (ws_worktreeId w) (ld_facts loaded))) (ws_browserTabs w) else map_of (wm_browserTabsByWorktree s) k')"
    and "wm_terminalLayoutsByTabId s' = fold (\<lambda>(t, creation, panes). AList.update (tb_entityId t)
             (saveTerminalLayout t panes (scopeOf k w loaded))) (terminalParts (savedTabs w)) (wm_terminalLayoutsByTabId s)"
  unfolding s'_def saveWorkspace_def rowsKept_def savedGroupsOf_def Let_def
  by (auto simp: update_conv' split: option.split)

section \<open>Loading the tabs again\<close>

text \<open>
  What the loader reads for one workspace of a saved session, in builds whose window owns the layout:
  \<open>ts\<close> are its tabs in order.
\<close>

definition savedWorkspaceAt ::
  "sessionState \<Rightarrow> string \<Rightarrow> (string \<times> string) list \<Rightarrow> layoutGroup list \<Rightarrow> workspaceSaveScope \<Rightarrow> layoutTab list \<Rightarrow> bool" where
  "savedWorkspaceAt session k homes gs scope ts \<longleftrightarrow>
     entriesOf session k = map (entryOf False gs scope) ts \<and> takeRows session k homes = savedRows ts scope
     \<and> distinct (map tb_id ts) \<and> distinct (map tb_entityId (filter isTerminal ts))
     \<and> (\<forall>t\<in>set ts. \<forall>creation panes. tb_body t = TerminalBody creation panes
          \<longrightarrow> map_of (sx_terminalLayoutsByTabId session) (tb_entityId t) = Some (saveTerminalLayout t panes scope))"

definition snapshotsOf :: "workspaceSaveScope \<Rightarrow> layoutTab list \<Rightarrow> (string \<times> layoutSnapshot) list" where
  "snapshotsOf scope ts = map (\<lambda>(t, creation, panes). (tb_entityId t, saveTerminalLayout t panes scope)) (terminalParts ts)"

lemma no_aliases [simp]: "duplicateEditorTabAliases False es = []"
  by (simp add: duplicateEditorTabAliases_def)

lemma not_leftOut [simp]: "\<not> leftOut False session ctx key entry"
  by (simp add: leftOut_def heldViews_def)

lemma loadEntry_saved:
  assumes saved: "savedWorkspaceAt session k homes gs scope ts" and t: "t \<in> set ts"
    and new: "tb_id t \<notin> set (lt_tabIds p)" "isTerminal t \<Longrightarrow> tb_entityId t \<notin> set (lt_merged p)"
    and q_def: "q = loadEntry False session ctx k (savedRows ts scope) [] p (entryOf False gs scope t)"
  shows "lt_tabs q = lt_tabs p @ [t]" "lt_tabIds q = lt_tabIds p @ [tb_id t]"
    and "lt_merged q = lt_merged p @ map tb_entityId (filter isTerminal [t])"
    and "\<exists>c. lt_candidates q = lt_candidates p @ [c] \<and> oc_id c = tb_id t \<and> oc_groupId c = Some (te_groupId (entryOf False gs scope t))"
    and "map_of (lo_layouts (lt_state q)) e = map_of (snapshotsOf scope [t] @ lo_layouts (lt_state p)) e"
proof -
  obtain g i where e: "entryOf False gs scope t = saveTabBarEntry False t g i scope" using entryOf_saved by blast
  have "lt_tabs q = lt_tabs p @ [t] \<and> lt_tabIds q = lt_tabIds p @ [tb_id t]
    \<and> lt_merged q = lt_merged p @ map tb_entityId (filter isTerminal [t])
    \<and> (\<exists>c. lt_candidates q = lt_candidates p @ [c] \<and> oc_id c = tb_id t \<and> oc_groupId c = Some g)
    \<and> map_of (lo_layouts (lt_state q)) e = map_of (snapshotsOf scope [t] @ lo_layouts (lt_state p)) e"
  proof (cases "tb_body t")
    case (ContentBody kind)
    have "q = addContentTab k (entryOf False gs scope t) kind p"
      using new(1) ContentBody unfolding q_def e by (simp add: loadEntry_def saveTabBarEntry_def)
    then show ?thesis using loadContentTab_saved [OF ContentBody, of False g i scope] ContentBody unfolding e
      by (simp add: addContentTab_def isTerminal_def snapshotsOf_def terminalParts_def) (simp add: saveTabBarEntry_def)
  next
    case (TerminalBody creation panes)
    then have isT: "isTerminal t" by (simp add: isTerminal_def)
    have sw: "distinct (map tb_entityId (filter isTerminal ts))"
      "map_of (sx_terminalLayoutsByTabId session) (tb_entityId t) = Some (saveTerminalLayout t panes scope)"
      using saved t TerminalBody unfolding savedWorkspaceAt_def by blast+
    from find_savedRow [OF t TerminalBody sw(1)] obtain j where
      row: "List.find (\<lambda>row. rw_id row = tb_entityId t) (savedRows ts scope) = Some (saveTerminalRow t creation panes j scope)" by blast
    have ids: "te_id (entryOf False gs scope t) = tb_id t" "te_entityId (entryOf False gs scope t) = tb_entityId t"
      "te_contentType (entryOf False gs scope t) = KindTerminal" "rw_id (saveTerminalRow t creation panes j scope) = tb_entityId t"
      "te_groupId (entryOf False gs scope t) = g"
      using TerminalBody unfolding e by (simp_all add: saveTabBarEntry_def saveTerminalRow_def)
    have lp: "loadedPanes False session (saveTerminalRow t creation panes j scope) (Some (entryOf False gs scope t)) ctx = saveTerminalLayout t panes scope"
      using sw(2) ids(2) by (simp add: loadedPanes_def Let_def)
    have lt: "loadTerminalTab (saveTerminalRow t creation panes j scope) (Some (entryOf False gs scope t)) panes = t"
      unfolding e by (rule loadTerminalTab_saved [OF TerminalBody])
    have "q = (let q = addTerminal False session ctx (saveTerminalRow t creation panes j scope) (Some (entryOf False gs scope t)) p
               in q\<lparr>lt_state := focusEntry k (entryOf False gs scope t) (lt_state q)\<rparr>)"
      using new isT row ids unfolding q_def by (simp add: loadEntry_def)
    then show ?thesis using new(1) isT ids TerminalBody
      by (simp add: addTerminal_def Let_def lp panesOfSnapshot_saved lt snapshotsOf_def terminalParts_def update_conv')
  qed
  moreover have "te_groupId (entryOf False gs scope t) = g" unfolding e by (simp add: saveTabBarEntry_def)
  ultimately show "lt_tabs q = lt_tabs p @ [t]" "lt_tabIds q = lt_tabIds p @ [tb_id t]"
    "lt_merged q = lt_merged p @ map tb_entityId (filter isTerminal [t])"
    "\<exists>c. lt_candidates q = lt_candidates p @ [c] \<and> oc_id c = tb_id t \<and> oc_groupId c = Some (te_groupId (entryOf False gs scope t))"
    "map_of (lo_layouts (lt_state q)) e = map_of (snapshotsOf scope [t] @ lo_layouts (lt_state p)) e" by blast+
qed

text \<open>The walk over the entries, with the tabs walked and those that are left.\<close>

definition walkedOk :: "layoutGroup list \<Rightarrow> workspaceSaveScope \<Rightarrow> loadState \<Rightarrow> layoutTab list \<Rightarrow> tabsProgress \<Rightarrow> bool" where
  "walkedOk gs scope s ts p \<longleftrightarrow> lt_tabs p = ts \<and> lt_tabIds p = map tb_id ts
     \<and> lt_merged p = map tb_entityId (filter isTerminal ts)
     \<and> map oc_id (lt_candidates p) = map tb_id ts
     \<and> (\<forall>c\<in>set (lt_candidates p). \<exists>t\<in>set ts. oc_id c = tb_id t \<and> oc_groupId c = Some (te_groupId (entryOf False gs scope t)))
     \<and> (\<forall>t\<in>set ts. \<forall>creation panes. tb_body t = TerminalBody creation panes
          \<longrightarrow> map_of (lo_layouts (lt_state p)) (tb_entityId t) = Some (saveTerminalLayout t panes scope))
     \<and> (\<forall>e. e \<notin> set (map tb_entityId (filter isTerminal ts)) \<longrightarrow> map_of (lo_layouts (lt_state p)) e = map_of (lo_layouts s) e)"

lemma walkedOkD:
  assumes "walkedOk gs scope s ts p"
  shows "lt_tabs p = ts" "lt_tabIds p = map tb_id ts" "lt_merged p = map tb_entityId (filter isTerminal ts)"
    "map oc_id (lt_candidates p) = map tb_id ts"
    "c \<in> set (lt_candidates p) \<Longrightarrow> \<exists>t\<in>set ts. oc_id c = tb_id t \<and> oc_groupId c = Some (te_groupId (entryOf False gs scope t))"
    "t \<in> set ts \<Longrightarrow> tb_body t = TerminalBody creation panes
       \<Longrightarrow> map_of (lo_layouts (lt_state p)) (tb_entityId t) = Some (saveTerminalLayout t panes scope)"
    "e \<notin> set (map tb_entityId (filter isTerminal ts)) \<Longrightarrow> map_of (lo_layouts (lt_state p)) e = map_of (lo_layouts s) e"
  using assms unfolding walkedOk_def by blast+

lemma walkedOk_step:
  assumes saved: "savedWorkspaceAt session k homes gs scope (ts @ t # rest)" and ok: "walkedOk gs scope s ts p"
  shows "walkedOk gs scope s (ts @ [t]) (loadEntry False session ctx k (savedRows (ts @ t # rest) scope) [] p (entryOf False gs scope t))"
proof -
  let ?all = "ts @ t # rest"
  let ?q = "loadEntry False session ctx k (savedRows ?all scope) [] p (entryOf False gs scope t)"
  note p = walkedOkD [OF ok]
  have d: "distinct (map tb_id ?all)" "distinct (map tb_entityId (filter isTerminal ?all))"
    using saved unfolding savedWorkspaceAt_def by blast+
  have new: "tb_id t \<notin> set (lt_tabIds p)" using d(1) p(2) by auto
  have new': "tb_entityId t \<notin> set (map tb_entityId (filter isTerminal ts))" if "isTerminal t" using d(2) that by auto
  then have new'': "isTerminal t \<Longrightarrow> tb_entityId t \<notin> set (lt_merged p)" using p(3) by simp
  have mem: "t \<in> set ?all" by simp
  note E = loadEntry_saved [OF saved mem new new'' refl, of ctx]
  from E(4) obtain c where c: "lt_candidates ?q = lt_candidates p @ [c]" "oc_id c = tb_id t"
    "oc_groupId c = Some (te_groupId (entryOf False gs scope t))" by blast
  have snap: "map_of (snapshotsOf scope [t]) e = (case tb_body t of
      TerminalBody creation panes \<Rightarrow> if e = tb_entityId t then Some (saveTerminalLayout t panes scope) else None
    | ContentBody _ \<Rightarrow> None)" for e
    by (simp add: snapshotsOf_def terminalParts_def split: tab_body.split)
  have lay: "map_of (lo_layouts (lt_state ?q)) e = (case tb_body t of
      TerminalBody creation panes \<Rightarrow> if e = tb_entityId t then Some (saveTerminalLayout t panes scope) else map_of (lo_layouts (lt_state p)) e
    | ContentBody _ \<Rightarrow> map_of (lo_layouts (lt_state p)) e)" for e
    using E(5) [of e] by (simp add: map_add_def snap split: tab_body.splits)
  have cands: "\<forall>c\<in>set (lt_candidates ?q). \<exists>u\<in>set (ts @ [t]). oc_id c = tb_id u \<and> oc_groupId c = Some (te_groupId (entryOf False gs scope u))"
    using p(5) c by auto
  have lays: "\<forall>u\<in>set (ts @ [t]). \<forall>creation panes. tb_body u = TerminalBody creation panes
          \<longrightarrow> map_of (lo_layouts (lt_state ?q)) (tb_entityId u) = Some (saveTerminalLayout u panes scope)"
  proof (intro ballI allI impI)
    fix u creation panes assume u: "u \<in> set (ts @ [t])" "tb_body u = TerminalBody creation panes"
    show "map_of (lo_layouts (lt_state ?q)) (tb_entityId u) = Some (saveTerminalLayout u panes scope)"
    proof (cases "u = t")
      case True
      with u(2) show ?thesis unfolding lay by simp
    next
      case False
      with u(1) have m: "u \<in> set ts" by simp
      have "tb_entityId u \<in> set (map tb_entityId (filter isTerminal ts))" using m u(2) by (auto simp: isTerminal_def)
      then have "tb_entityId u \<noteq> tb_entityId t" if "isTerminal t" using new' [OF that] by auto
      then show ?thesis using p(6) [OF m u(2)] unfolding lay by (auto simp: isTerminal_def split: tab_body.split)
    qed
  qed
  have others: "map_of (lo_layouts (lt_state ?q)) e = map_of (lo_layouts s) e"
    if "e \<notin> set (map tb_entityId (filter isTerminal (ts @ [t])))" for e
    using that p(7) [of e] unfolding lay by (auto simp: isTerminal_def split: tab_body.split)
  show ?thesis unfolding walkedOk_def using E(1-3) p(1-4) c(1,2) cands lays others by simp
qed

lemma walkedOk_walk:
  "savedWorkspaceAt session k homes gs scope (ts @ rest) \<Longrightarrow> walkedOk gs scope s ts p
     \<Longrightarrow> walkedOk gs scope s (ts @ rest)
       (foldl (loadEntry False session ctx k (savedRows (ts @ rest) scope) []) p (map (entryOf False gs scope) rest))"
proof (induction rest arbitrary: ts p)
  case (Cons t rest)
  note step = walkedOk_step [OF Cons.prems, of ctx]
  have e: "ts @ t # rest = (ts @ [t]) @ rest" by simp
  from Cons.IH [of "ts @ [t]"] Cons.prems(1) step show ?case unfolding e by simp
qed simp

lemma loadTabs_saved:
  assumes saved: "savedWorkspaceAt session k homes gs scope ts"
  shows "walkedOk gs scope s ts (loadTabs False session ctx k homes s)"
proof -
  let ?start = "\<lparr>lt_tabs = [], lt_candidates = [], lt_tabIds = [], lt_merged = [], lt_state = s\<rparr>"
  let ?p = "foldl (loadEntry False session ctx k (savedRows ts scope) []) ?start (map (entryOf False gs scope) ts)"
  have "walkedOk gs scope s [] ?start" by (simp add: walkedOk_def)
  from walkedOk_walk [of session k homes gs scope "[]" ts s, OF _ this, of ctx] saved
  have ok: "walkedOk gs scope s ts ?p" by simp
  have "foldl (addLeftRow False session ctx canonical) ?p rows = ?p"
    if "set (map rw_id rows) \<subseteq> set (lt_merged ?p)" for rows canonical
    using that by (induction rows) (simp_all add: addLeftRow_def)
  moreover have "set (map rw_id (savedRows ts scope)) \<subseteq> set (lt_merged ?p)"
    unfolding savedRows_ids walkedOkD(3) [OF ok] by simp
  moreover have "entriesOf session k = map (entryOf False gs scope) ts" "takeRows session k homes = savedRows ts scope"
    using saved unfolding savedWorkspaceAt_def by blast+
  ultimately show ?thesis using ok by (simp add: loadTabs_def addBrowserTabs_def Let_def)
qed

section \<open>Loading the workspace again\<close>

lemma resolveWorktreeId_all:
  assumes "named \<noteq> []" "set named \<subseteq> {c}"
  shows "fst (foldl (\<lambda>(worktreeId, most) (candidate, count).
            if most < count then (candidate, count) else (worktreeId, most)) (key, 0) (countIds named)) = c"
proof -
  have "fold (\<lambda>i counts. AList.update i (orElse (map_of counts i) 0 + 1) counts) xs [(c, m)] = [(c, length xs + m)]"
    if "set xs \<subseteq> {c}" for xs and m :: nat
    using that by (induction xs arbitrary: m) auto
  from this [of "tl named" 1] assms have "countIds named = [(c, length named)]"
    by (cases named) (auto simp: countIds_def)
  then show ?thesis using assms(1) by simp
qed

lemma pruneGroupTree_all: "set (leafIds n) \<subseteq> set valid \<Longrightarrow> pruneGroupTree n valid = Some n"
  by (induction n) auto

lemma savedFile_truncate: "layoutEditorFile.truncate (savedFile own k w view file) = file"
  by (simp add: savedFile_def layoutEditorFile.defs persistedOpenFile.defs Let_def)

lemma savedBrowserTab_truncate: "layoutBrowserTab.truncate (savedBrowserTab k i facts tab) = tab"
  by (simp add: savedBrowserTab_def layoutBrowserTab.defs browserWorkspace.defs)

text \<open>A file is stored as a preview if a preview tab names it, so no tab loses its mark.\<close>

lemma demotePreviews_saved:
  assumes "ts \<subseteq> set (ws_tabs w)" "ws_worktreeId v = ws_worktreeId w" "set tabs = ts"
  shows "foldl (demotePreviews False v) tabs (map (savedFile False k w view) files) = tabs"
proof -
  have "demotePreviews False v tabs (savedFile False k w view f) = tabs" for f
  proof -
    have "map (\<lambda>t. if isKind Editor t \<and> editorTabNamesFile False v (tb_entityId t) f \<and> tb_isPreview t = Some True
                    then t\<lparr>tb_isPreview := None\<rparr> else t) tabs = tabs"
      if "fl_isPreview (savedFile False k w view f) \<noteq> Some True"
    proof (rule map_idI)
      fix t assume t: "t \<in> set tabs"
      have "\<not> list_ex (\<lambda>t. editorTabNamesFile False w (tb_entityId t) f) (filter (\<lambda>t. isKind Editor t \<and> tb_isPreview t = Some True) (ws_tabs w))"
        using that by (simp add: savedFile_def layoutEditorFile.defs persistedOpenFile.defs Let_def split: if_splits)
      then have "\<not> (isKind Editor t \<and> editorTabNamesFile False w (tb_entityId t) f \<and> tb_isPreview t = Some True)"
        using t assms(1,3) by (auto simp: list_ex_iff)
      then show "(if isKind Editor t \<and> editorTabNamesFile False v (tb_entityId t) f \<and> tb_isPreview t = Some True
                    then t\<lparr>tb_isPreview := None\<rparr> else t) = t"
        using assms(2) by (simp add: editorTabNamesFile_def)
    qed
    then show ?thesis by (simp add: demotePreviews_def savedFile_truncate)
  qed
  then show ?thesis by (induction files) simp_all
qed

text \<open>A workspace as it comes back, before its pane data: in one order, with its group tree spelt out.\<close>

definition reloaded :: "workspaceLayout \<Rightarrow> workspaceLayout" where
  "reloaded w = w\<lparr>ws_tabs := tabsInOrder w,
     ws_groupLayout := Some (orElse (ws_groupLayout w) (Leaf (gr_id (hd (ws_groups w))))),
     ws_editorViews := None, ws_leaves := None, ws_closedTerminalTabs := None\<rparr>"

text \<open>The stored document of a workspace with tabs.\<close>

definition savedAt :: "loadedLayout \<Rightarrow> sessionState \<Rightarrow> (string \<times> string) list \<Rightarrow> string \<Rightarrow> workspaceLayout \<Rightarrow> bool" where
  "savedAt loaded session homes k w \<longleftrightarrow>
     savedWorkspaceAt session k homes (ws_groups w) (scopeOf k w loaded) (tabsInOrder w)
     \<and> rowsOf session k = savedRows (tabsInOrder w) (scopeOf k w loaded)
     \<and> groupsOf session k = savedGroupsOf loaded k w
     \<and> lookupOpt (sx_tabGroupLayouts session) k = Some (orElse (Option.bind (ws_groupLayout w)
         (\<lambda>n. pruneGroupTree n (map sg_id (savedGroupsOf loaded k w)))) (Leaf (sg_id (hd (savedGroupsOf loaded k w)))))
     \<and> lookupOpt (sx_openFilesByWorktree session) k
         = map_option (map (savedFile False k w (ld_desktopView loaded))) (ws_editorFiles w)
     \<and> lookupOpt (sx_browserTabsByWorktree session) k
         = map_option (map (savedBrowserTab k (ws_worktreeId w) (ld_facts loaded))) (ws_browserTabs w)"

lemma savedGroupsOf_wf:
  assumes "wf_workspace {} w"
  shows "savedGroupsOf loaded k w = map (savedGroup k (ld_desktopView loaded) (ws_worktreeId w)) (ws_groups w)"
    "map sg_id (savedGroupsOf loaded k w) = groupIds w" "map sg_tabOrder (savedGroupsOf loaded k w) = map gr_tabOrder (ws_groups w)"
    "map groupOfStored (savedGroupsOf loaded k w) = ws_groups w"
proof -
  have "filter (\<lambda>g. gr_tabOrder g \<noteq> []) (ws_groups w) = ws_groups w"
    using assms by (intro filter_True) (auto simp: wf_workspace_def wf_groups_def list_all_iff)
  then show e: "savedGroupsOf loaded k w = map (savedGroup k (ld_desktopView loaded) (ws_worktreeId w)) (ws_groups w)"
    by (simp add: savedGroupsOf_def)
  show "map sg_id (savedGroupsOf loaded k w) = groupIds w" "map sg_tabOrder (savedGroupsOf loaded k w) = map gr_tabOrder (ws_groups w)"
    unfolding e by (simp_all add: savedGroup_def Let_def comp_def)
  show "map groupOfStored (savedGroupsOf loaded k w) = ws_groups w"
    unfolding e map_map by (rule map_idI) (simp add: groupOfStored_saved)
qed

lemma loadWorkspace_saved:
  assumes wf: "wf_workspace {} w" and some: "ws_tabs w \<noteq> []" and at: "savedAt loaded session homes k w"
    and views: "lx_editorViewsOf ctx = None" and l: "loadWorkspace False session ctx homes s k = (w', s')"
  shows "w' = reloaded w"
    and "t \<in> set (ws_tabs w) \<Longrightarrow> tb_body t = TerminalBody creation panes
      \<Longrightarrow> map_of (lo_layouts s') (tb_entityId t) = Some (saveTerminalLayout t panes (scopeOf k w loaded))"
    and "e \<notin> set (map tb_entityId (filter isTerminal (ws_tabs w))) \<Longrightarrow> map_of (lo_layouts s') e = map_of (lo_layouts s) e"
proof -
  let ?ts = "tabsInOrder w" and ?scope = "scopeOf k w loaded" and ?gs = "savedGroupsOf loaded k w"
  have a: "savedWorkspaceAt session k homes (ws_groups w) ?scope ?ts" "rowsOf session k = savedRows ?ts ?scope"
    "groupsOf session k = ?gs"
    "lookupOpt (sx_tabGroupLayouts session) k = Some (orElse (Option.bind (ws_groupLayout w)
         (\<lambda>n. pruneGroupTree n (map sg_id ?gs))) (Leaf (sg_id (hd ?gs))))"
    "lookupOpt (sx_openFilesByWorktree session) k = map_option (map (savedFile False k w (ld_desktopView loaded))) (ws_editorFiles w)"
    "lookupOpt (sx_browserTabsByWorktree session) k
         = map_option (map (savedBrowserTab k (ws_worktreeId w) (ld_facts loaded))) (ws_browserTabs w)"
    using at unfolding savedAt_def by blast+
  have mset: "mset ?ts = mset (ws_tabs w)" by (rule tabsInOrder_mset [OF wf])
  from mset_eq_setD [OF this] have set: "set ?ts = set (ws_tabs w)" .
  note g = savedGroupsOf_wf [OF wf, of loaded k]
  note ids = tabsInOrder_ids [OF wf]
  note p = walkedOkD [OF loadTabs_saved [OF a(1), of s ctx]]
  let ?p = "loadTabs False session ctx k homes s"
  have ne: "?ts \<noteq> []" using some mset by auto
  have "ws_groups w \<noteq> []"
  proof
    assume "ws_groups w = []"
    then have "?ts = []" by (simp add: tabsInOrder_def)
    with ne show False by simp
  qed
  then have gne: "?gs \<noteq> []" using g(1) by simp
  have wid: "resolveWorktreeId session k = ws_worktreeId w"
  proof -
    let ?named = "map rw_worktreeId (rowsOf session k) @ map te_worktreeId (entriesOf session k) @ map sg_worktreeId (groupsOf session k)
            @ map fl_worktreeId (orElse (lookupOpt (sx_openFilesByWorktree session) k) [])
            @ map bw_worktreeId (orElse (lookupOpt (sx_browserTabsByWorktree session) k) [])"
    have "rw_worktreeId r = ws_worktreeId w" if "r \<in> set (rowsOf session k)" for r
      using savedRows_in [OF that [unfolded a(2)]] by (auto simp: saveTerminalRow_def scopeOf_def)
    moreover have "te_worktreeId e = ws_worktreeId w" if "e \<in> set (entriesOf session k)" for e
    proof -
      have "entriesOf session k = map (entryOf False (ws_groups w) ?scope) ?ts" using a(1) unfolding savedWorkspaceAt_def by blast
      with that obtain t where "e = entryOf False (ws_groups w) ?scope t" by auto
      with entryOf_saved [of False "ws_groups w" ?scope t] show ?thesis by (auto simp: saveTabBarEntry_def scopeOf_def)
    qed
    moreover have "sg_worktreeId s = ws_worktreeId w" if "s \<in> set (groupsOf session k)" for s
      using that unfolding a(3) g(1) by (auto simp: savedGroup_def Let_def)
    moreover have "fl_worktreeId f = ws_worktreeId w" if "f \<in> set (orElse (lookupOpt (sx_openFilesByWorktree session) k) [])" for f
      using that unfolding a(5) by (cases "ws_editorFiles w") (auto simp: savedFile_def Let_def layoutEditorFile.defs persistedOpenFile.defs)
    moreover have "bw_worktreeId b = ws_worktreeId w" if "b \<in> set (orElse (lookupOpt (sx_browserTabsByWorktree session) k) [])" for b
      using that unfolding a(6) by (cases "ws_browserTabs w") (auto simp: savedBrowserTab_def layoutBrowserTab.defs browserWorkspace.defs)
    ultimately have sub: "set ?named \<subseteq> {ws_worktreeId w}" by auto
    have "?named \<noteq> []" using gne a(3) by simp
    from resolveWorktreeId_all [OF this sub] show ?thesis by (simp add: resolveWorktreeId_def)
  qed
  have groups: "resolveGroupOrder (groupsOf session k) (lt_candidates ?p) k (lx_mintId ctx) = ws_groups w"
  proof -
    have wg: "wf_groups {} (tabIds w) (ws_groups w)" using wf by (simp add: wf_workspace_def)
    have "savedGroups ?gs (lt_candidates ?p)"
      unfolding savedGroups_def g(2,3)
    proof (intro conjI ballI allI impI)
      show "distinct (groupIds w)" "distinct (concat (map gr_tabOrder (ws_groups w)))" using wg by (simp_all add: wf_groups_def)
      show "set (concat (map gr_tabOrder (ws_groups w))) = set (map oc_id (lt_candidates ?p))"
        unfolding p(4) ids by simp
      show "sg_tabOrder s \<noteq> []" if "s \<in> set ?gs" for s
        using that wg unfolding g(1) by (auto simp: savedGroup_def Let_def wf_groups_def list_all_iff)
      fix c g' assume c: "c \<in> set (lt_candidates ?p)" "oc_groupId c = Some g'"
      from p(5) [OF c(1)] obtain t where t: "t \<in> set ?ts" "oc_id c = tb_id t"
        "oc_groupId c = Some (te_groupId (entryOf False (ws_groups w) ?scope t))" by blast
      have "tb_id t \<in> set (map tb_id ?ts)" using t(1) by simp
      then have "tb_id t \<in> set (concat (map gr_tabOrder (ws_groups w)))" unfolding ids .
      from entryOf_group [OF this, of False ?scope] obtain gr where gr: "gr \<in> set (ws_groups w)" "tb_id t \<in> set (gr_tabOrder gr)"
        "te_groupId (entryOf False (ws_groups w) ?scope t) = gr_id gr" by blast
      show "\<exists>s\<in>set ?gs. sg_id s = g' \<and> oc_id c \<in> set (sg_tabOrder s)"
        using gr t(2,3) c(2) unfolding g(1) by (auto simp: savedGroup_def Let_def)
    qed
    from resolveGroupOrder_saved [OF this] show ?thesis unfolding a(3) g(4) .
  qed
  have tree: "Option.bind (lookupOpt (sx_tabGroupLayouts session) k) (\<lambda>n. pruneGroupTree n (groupIds w))
      = Some (orElse (ws_groupLayout w) (Leaf (gr_id (hd (ws_groups w)))))"
  proof (cases "ws_groupLayout w")
    case None
    have hd: "sg_id (hd ?gs) = gr_id (hd (ws_groups w))" using gne unfolding g(1) by (simp add: hd_map savedGroup_def Let_def)
    then show ?thesis using None \<open>ws_groups w \<noteq> []\<close> unfolding a(4) by simp
  next
    case (Some n)
    then have "mset (leafIds n) = mset (groupIds w)" using wf by (simp add: wf_workspace_def wf_tree_def)
    from mset_eq_setD [OF this] have "pruneGroupTree n (groupIds w) = Some n" by (intro pruneGroupTree_all) simp
    then show ?thesis using Some unfolding a(4) g(2) by simp
  qed
  define view1 where "view1 = foldl (viewGroup (duplicateEditorTabAliases False (entriesOf session k)) k) (lo_view (lt_state ?p)) (groupsOf session k)"
  obtain files tabs view2 where f: "loadEditorFiles False k (lookupOpt (sx_openFilesByWorktree session) k) (ws_worktreeId w) (lt_tabs ?p) view1
     = (files, tabs, view2)" by (metis prod_cases3)
  obtain browsers facts where b: "loadBrowserTabs k (lookupOpt (sx_browserTabsByWorktree session) k) (lo_facts (lt_state ?p)) = (browsers, facts)"
    by force
  have ft: "files = ws_editorFiles w \<and> tabs = ?ts"
  proof (cases "ws_editorFiles w")
    case None
    with f p(1) show ?thesis unfolding a(5) by (simp add: loadEditorFiles_def)
  next
    case (Some fs)
    have "foldl (demotePreviews False (filesWorkspace (ws_worktreeId w) ?ts (map (savedFile False k w (ld_desktopView loaded)) fs))) ?ts
         (map (savedFile False k w (ld_desktopView loaded)) fs) = ?ts"
      by (rule demotePreviews_saved [of "set ?ts"]) (simp_all add: set filesWorkspace_def emptyWorkspace_def)
    with f p(1) Some show ?thesis unfolding a(5) by (auto simp: loadEditorFiles_def savedFile_truncate comp_def)
  qed
  have bt: "browsers = ws_browserTabs w"
    using b unfolding a(6) by (cases "ws_browserTabs w") (auto simp: loadBrowserTabs_def savedBrowserTab_truncate comp_def)
  have ev: "loadEditorViews ctx k tabs = None" using views by (simp add: loadEditorViews_def)
  have R: "w' = \<lparr>ws_worktreeId = ws_worktreeId w, ws_tabs = ?ts, ws_groups = ws_groups w,
       ws_groupLayout = Some (orElse (ws_groupLayout w) (Leaf (gr_id (hd (ws_groups w))))),
       ws_editorFiles = ws_editorFiles w, ws_editorViews = None, ws_browserTabs = ws_browserTabs w, ws_leaves = None,
       ws_closedTerminalTabs = None\<rparr> \<and> lo_layouts s' = lo_layouts (lt_state ?p)"
    using l f b ft bt ev tree
    unfolding loadWorkspace_def Let_def wid groups view1_def [symmetric] by auto
  then show "w' = reloaded w" by (cases w) (simp add: reloaded_def)
  show "map_of (lo_layouts s') (tb_entityId t) = Some (saveTerminalLayout t panes ?scope)"
    if "t \<in> set (ws_tabs w)" "tb_body t = TerminalBody creation panes"
    using p(6) that R set by simp
  show "map_of (lo_layouts s') e = map_of (lo_layouts s) e"
    if "e \<notin> set (map tb_entityId (filter isTerminal (ws_tabs w)))"
    using p(7) that R set by auto
qed

end
