(* ===== verification/Saved_Panes.thy ===== *)
theory Saved_Panes
  imports Saved_Layout
begin

text \<open>
  The data of panes is read back as it was written: each pane takes its own records, and no pane
  touches those of another.
\<close>

section \<open>Pane data is read back\<close>

definition paneOr :: "workspaceLayoutModel \<Rightarrow> string \<times> string \<Rightarrow> layoutLeaf" where
  "paneOr m x = orElse (paneAt m x) emptyLeaf"

definition withoutLeaves :: "string \<times> workspaceLayout \<Rightarrow> string \<times> workspaceLayout" where
  "withoutLeaves = (\<lambda>(k, w). (k, w\<lparr>ws_leaves := None\<rparr>))"

text \<open>The records of a pane in the stored maps are those of its leaf.\<close>

definition recordsAt :: "paneRecords \<Rightarrow> string \<Rightarrow> layoutLeaf \<Rightarrow> bool" where
  "recordsAt records key leaf \<longleftrightarrow> map_of (pr_incarnations records) key = lf_incarnationId leaf
     \<and> map_option layoutSleepingRecord.truncate (map_of (pr_sleeping records) key) = orElseOpt (lf_sleeping leaf) (lf_resume leaf)"

lemma withoutLeaves_write:
  "workspaceAt m k \<noteq> None \<Longrightarrow> map withoutLeaves (md_workspaces (writePane m (k, l) leaf)) = map withoutLeaves (md_workspaces m)"
proof -
  assume "workspaceAt m k \<noteq> None"
  then obtain w where w: "workspaceAt m k = Some w" by blast
  then show ?thesis
    by (simp add: writePane_def withWorkspace_def withoutLeaves_def) (rule map_update_at; simp)
qed

lemma withoutLeaves_keys: "map withoutLeaves V = map withoutLeaves W \<Longrightarrow> map fst V = map fst W"
proof -
  have "map fst (map withoutLeaves V) = map fst V" for V :: "(string \<times> workspaceLayout) list"
    by (simp add: withoutLeaves_def case_prod_unfold comp_def)
  then show "map withoutLeaves V = map withoutLeaves W \<Longrightarrow> map fst V = map fst W" by metis
qed

lemma placeLeaf_saved:
  assumes leaf: "storableLeaf leaf" "leaf = orElse (map_of (sc_leaves scope) l) emptyLeaf" "l \<in> set (optIds (tp_root panes))"
    and recs: "recordsAt (lz_records z) (paneKeyOf e l) leaf" and gen: "lx_ptyGenerationOf ctx l = None"
    and at: "workspaceAt (lz_layout z) k \<noteq> None" and none: "paneAt (lz_layout z) (k, l) = None"
    and q: "q = placeLeaf ctx (saveTerminalLayout t panes scope) k e z (l, l)"
  shows "paneOr (lz_layout q) (k, l) = leaf" "x \<noteq> (k, l) \<Longrightarrow> paneAt (lz_layout q) x = paneAt (lz_layout z) x"
    and "map withoutLeaves (md_workspaces (lz_layout q)) = map withoutLeaves (md_workspaces (lz_layout z))"
    and "lz_seen q = lz_seen z"
    and "key \<noteq> paneKeyOf e l \<Longrightarrow> recordsAt (lz_records q) key leaf' = recordsAt (lz_records z) key leaf'"
proof -
  obtain loaded records where L: "loadLeaf (saveTerminalLayout t panes scope) l (paneKeyOf e l) (lz_records z) = (loaded, records)" by force
  have "fst (loadLeaf (saveTerminalLayout t panes scope) l (paneKeyOf e l) (lz_records z)) = leaf"
    using recs unfolding recordsAt_def by (elim conjE) (rule loadLeaf_saved [OF leaf])
  then have loaded: "loaded = leaf" using L by simp
  have records: "records = \<lparr>pr_sleeping = AList.delete (paneKeyOf e l) (pr_sleeping (lz_records z)),
      pr_incarnations = AList.delete (paneKeyOf e l) (pr_incarnations (lz_records z))\<rparr>"
    using L by (simp add: loadLeaf_def Let_def)
  have same: "leaf\<lparr>lf_ptyGeneration := None\<rparr> = leaf" using leaf(1) by (cases leaf) (simp add: storableLeaf_def)
  have lay: "lz_layout q = (if leaf = emptyLeaf then lz_layout z else writePane (lz_layout z) (k, l) leaf)"
    and rest: "lz_seen q = lz_seen z" "lz_records q = records"
    using L loaded gen same unfolding q by (simp_all add: placeLeaf_def Let_def writePane_def)
  show "paneOr (lz_layout q) (k, l) = leaf" using lay none by (simp add: paneOr_def)
  show "paneAt (lz_layout q) x = paneAt (lz_layout z) x" if "x \<noteq> (k, l)" using lay that by simp
  show "map withoutLeaves (md_workspaces (lz_layout q)) = map withoutLeaves (md_workspaces (lz_layout z))"
    using lay withoutLeaves_write [OF at] by simp
  show "lz_seen q = lz_seen z" by (rule rest(1))
  show "recordsAt (lz_records q) key leaf' = recordsAt (lz_records z) key leaf'" if "key \<noteq> paneKeyOf e l"
    using that unfolding rest(2) records by (simp add: recordsAt_def delete_conv')
qed

lemma placeLeaves_saved:
  assumes d: "distinct ids" "set ids \<subseteq> set (optIds (tp_root panes))"
    and leaf: "\<And>l. l \<in> set ids \<Longrightarrow> storableLeaf (orElse (map_of (sc_leaves scope) l) emptyLeaf)"
    and recs: "\<And>l. l \<in> set ids \<Longrightarrow> recordsAt (lz_records z) (paneKeyOf e l) (orElse (map_of (sc_leaves scope) l) emptyLeaf)"
    and gen: "\<And>l. lx_ptyGenerationOf ctx l = None"
    and at: "workspaceAt (lz_layout z) k \<noteq> None" and none: "\<And>l. l \<in> set ids \<Longrightarrow> paneAt (lz_layout z) (k, l) = None"
    and q: "q = foldl (placeLeaf ctx (saveTerminalLayout t panes scope) k e) z (map (\<lambda>l. (l, l)) ids)"
  shows "(\<forall>l\<in>set ids. paneOr (lz_layout q) (k, l) = orElse (map_of (sc_leaves scope) l) emptyLeaf)
    \<and> (\<forall>x. x \<notin> Pair k ` set ids \<longrightarrow> paneAt (lz_layout q) x = paneAt (lz_layout z) x)
    \<and> map withoutLeaves (md_workspaces (lz_layout q)) = map withoutLeaves (md_workspaces (lz_layout z))
    \<and> lz_seen q = lz_seen z
    \<and> (\<forall>key leaf'. key \<notin> paneKeyOf e ` set ids \<longrightarrow> recordsAt (lz_records q) key leaf' = recordsAt (lz_records z) key leaf')"
  using d leaf recs at none q
proof (induction ids arbitrary: z)
  case (Cons l ids)
  let ?leaf = "\<lambda>l. orElse (map_of (sc_leaves scope) l) emptyLeaf"
  let ?z = "placeLeaf ctx (saveTerminalLayout t panes scope) k e z (l, l)"
  have mem: "l \<in> set (l # ids)" by simp
  have in': "l \<in> set (optIds (tp_root panes))" using Cons.prems(2) by simp
  note P = placeLeaf_saved [OF Cons.prems(3) [OF mem] refl in' Cons.prems(4) [OF mem] gen Cons.prems(5) Cons.prems(6) [OF mem] refl]
  have key: "paneKeyOf e l' \<noteq> paneKeyOf e l" if "l' \<in> set ids" for l' using that Cons.prems(1) by (auto simp: paneKeyOf_def)
  have ne: "l' \<noteq> l" if "l' \<in> set ids" for l' using that Cons.prems(1) by auto
  have at': "workspaceAt (lz_layout ?z) k \<noteq> None"
    using Cons.prems(5) withoutLeaves_keys [OF P(3)] unfolding map_of_eq_None_iff by (metis list.set_map)
  have "(\<forall>l\<in>set ids. paneOr (lz_layout q) (k, l) = ?leaf l)
    \<and> (\<forall>x. x \<notin> Pair k ` set ids \<longrightarrow> paneAt (lz_layout q) x = paneAt (lz_layout ?z) x)
    \<and> map withoutLeaves (md_workspaces (lz_layout q)) = map withoutLeaves (md_workspaces (lz_layout ?z))
    \<and> lz_seen q = lz_seen ?z
    \<and> (\<forall>key leaf'. key \<notin> paneKeyOf e ` set ids \<longrightarrow> recordsAt (lz_records q) key leaf' = recordsAt (lz_records ?z) key leaf')"
  proof (rule Cons.IH)
    show "distinct ids" "set ids \<subseteq> set (optIds (tp_root panes))" using Cons.prems(1,2) by simp_all
    show "storableLeaf (?leaf l')" if "l' \<in> set ids" for l' using Cons.prems(3) that by simp
    show "recordsAt (lz_records ?z) (paneKeyOf e l') (?leaf l')" if "l' \<in> set ids" for l'
      using Cons.prems(4) [of l'] P(5) [OF key [OF that]] that by simp
    show "workspaceAt (lz_layout ?z) k \<noteq> None" by (rule at')
    show "paneAt (lz_layout ?z) (k, l') = None" if "l' \<in> set ids" for l'
      using P(2) [of "(k, l')"] ne [OF that] Cons.prems(6) [of l'] that by simp
    show "q = foldl (placeLeaf ctx (saveTerminalLayout t panes scope) k e) ?z (map (\<lambda>l. (l, l)) ids)"
      using Cons.prems(7) by simp
  qed
  then have R: "\<And>l. l \<in> set ids \<Longrightarrow> paneOr (lz_layout q) (k, l) = ?leaf l"
    "\<And>x. x \<notin> Pair k ` set ids \<Longrightarrow> paneAt (lz_layout q) x = paneAt (lz_layout ?z) x"
    "map withoutLeaves (md_workspaces (lz_layout q)) = map withoutLeaves (md_workspaces (lz_layout ?z))"
    "lz_seen q = lz_seen ?z"
    "\<And>key leaf'. key \<notin> paneKeyOf e ` set ids \<Longrightarrow> recordsAt (lz_records q) key leaf' = recordsAt (lz_records ?z) key leaf'" by blast+
  have "paneAt (lz_layout q) (k, l) = paneAt (lz_layout ?z) (k, l)" using R(2) [of "(k, l)"] Cons.prems(1) by auto
  then have "paneOr (lz_layout q) (k, l) = ?leaf l" using P(1) by (simp add: paneOr_def)
  then show ?case using R P by auto
qed simp

text \<open>A tab none of whose panes was seen before keeps its tree.\<close>

lemma mapIds_same [simp]: "mapIds (map (\<lambda>l. (l, l)) ls) l = l"
  by (induction ls) (auto simp: mapIds_def)

lemma replaceTab_same: "distinct (tabIds w) \<Longrightarrow> t \<in> set (ws_tabs w) \<Longrightarrow> replaceTab w t = w"
proof -
  assume "distinct (tabIds w)" "t \<in> set (ws_tabs w)"
  then have "replaceBy tb_id (tb_id t) t (ws_tabs w) = ws_tabs w"
    by (induction "ws_tabs w") (auto simp: replaceBy_def intro!: map_idI dest: inj_onD simp: distinct_map)
  then show ?thesis by (simp add: replaceTab_def)
qed

lemma withWorkspace_same: "workspaceAt m k = Some w \<Longrightarrow> withWorkspace m k w = m"
  by (simp add: withWorkspace_def update_triv)

lemma loadTabLeaves_same:
  assumes lay: "map_of layouts (tb_entityId t) = Some layout" and body: "tb_body t = TerminalBody creation panes"
    and seen: "distinct (lz_seen z @ leafIdsOf t)"
    and w: "workspaceAt (lz_layout z) k = Some w" "t \<in> set (ws_tabs w)" "distinct (tabIds w)"
  shows "\<exists>view. loadTabLeaves ctx layouts z (k, t) = foldl (placeLeaf ctx layout k (tb_entityId t))
     (z\<lparr>lz_seen := lz_seen z @ leafIdsOf t, lz_view := view\<rparr>) (map (\<lambda>l. (l, l)) (leafIdsOf t))"
proof -
  obtain rootNode rm where rm: "remintRoot ctx (tb_entityId t) (lz_seen z) (tp_root panes) = (rootNode, rm)" by force
  have "rootNode = tp_root panes \<and> rm_seen rm = lz_seen z @ leafIdsOf t \<and> rm_renamed rm = map (\<lambda>l. (l, l)) (leafIdsOf t)"
  proof (cases "tp_root panes")
    case None
    with rm body show ?thesis by (auto simp: remintRoot_def Let_def)
  next
    case (Some n)
    obtain n' rm' where n: "remintRepeatedLeaves n ctx (tb_entityId t) \<lparr>rm_seen = lz_seen z, rm_renamed = [], rm_position = 0\<rparr> = (n', rm')"
      by force
    have "distinct (rm_seen \<lparr>rm_seen = lz_seen z, rm_renamed = [], rm_position = 0\<rparr> @ leafIds n)" using seen body Some by simp
    from remint_same [OF this n] have "n' = n" "rm_seen rm' = lz_seen z @ leafIds n" "rm_renamed rm' = map (\<lambda>l. (l, l)) (leafIds n)"
      by simp_all
    moreover have "rootNode = Some n'" "rm = rm'" using rm n Some by (simp_all add: remintRoot_def)
    ultimately show ?thesis using Some body by simp
  qed
  then have r: "rootNode = tp_root panes" "rm_seen rm = lz_seen z @ leafIdsOf t" "rm_renamed rm = map (\<lambda>l. (l, l)) (leafIdsOf t)" by simp_all
  have p: "panesOf t = Some panes" using body by (simp add: panesOf_def)
  have "withPanes \<lparr>tp_root = rootNode, tp_chatLeafId = map_option (mapIds (rm_renamed rm)) (tp_chatLeafId panes)\<rparr> t = t"
  proof -
    have "map_option (mapIds (rm_renamed rm)) (tp_chatLeafId panes) = tp_chatLeafId panes"
      unfolding r by (cases "tp_chatLeafId panes") simp_all
    with body r(1) show ?thesis by (cases t; cases panes) (simp add: withPanes_def)
  qed
  then show ?thesis
    using loadTabLeaves_eq [OF lay p rm, of k] w withWorkspace_same [OF w(1)] unfolding r
    by (intro exI) (simp add: replaceTab_same)
qed

lemma withoutLeaves_at:
  assumes "map withoutLeaves V = map withoutLeaves W"
  shows "map_option (\<lambda>w. w\<lparr>ws_leaves := None\<rparr>) (map_of V k) = map_option (\<lambda>w. w\<lparr>ws_leaves := None\<rparr>) (map_of W k)"
proof -
  have e: "map_option (\<lambda>w. w\<lparr>ws_leaves := None\<rparr>) (map_of V k) = map_of (map withoutLeaves V) k" for V
    by (induction V) (auto simp: withoutLeaves_def)
  show ?thesis unfolding e assms ..
qed

lemma withoutLeaves_some:
  assumes "map withoutLeaves V = map withoutLeaves W" "map_of W k = Some w"
  obtains v where "map_of V k = Some v" "v\<lparr>ws_leaves := None\<rparr> = w\<lparr>ws_leaves := None\<rparr>"
  using withoutLeaves_at [OF assms(1), of k] assms(2) by auto

lemma without_tabs: "v\<lparr>ws_leaves := None\<rparr> = w\<lparr>ws_leaves := None\<rparr> \<Longrightarrow> ws_tabs v = ws_tabs w \<and> ws_groups v = ws_groups w"
  by (cases v; cases w) simp

section \<open>The walk over the tabs\<close>

definition pendingPanes :: "(string \<times> layoutTab) list \<Rightarrow> (string \<times> string) set" where
  "pendingPanes rest = {(k, l) | k t l. (k, t) \<in> set rest \<and> l \<in> set (leafIdsOf t)}"

definition pendingKeys :: "(string \<times> layoutTab) list \<Rightarrow> string list" where
  "pendingKeys rest = concat (map (\<lambda>(k, t). map (paneKeyOf (tb_entityId t)) (leafIdsOf t)) rest)"

definition readBack ::
  "workspaceLayoutModel \<Rightarrow> (string \<times> workspaceLayout) list \<Rightarrow> (string \<times> layoutTab) list \<Rightarrow> leavesProgress \<Rightarrow> bool" where
  "readBack m W rest z \<longleftrightarrow>
     map withoutLeaves (md_workspaces (lz_layout z)) = map withoutLeaves W
     \<and> distinct (lz_seen z @ concat (map (leafIdsOf \<circ> snd) rest))
     \<and> distinct (pendingKeys rest)
     \<and> (\<forall>(k, t)\<in>set rest. \<forall>l\<in>set (leafIdsOf t). paneAt (lz_layout z) (k, l) = None
          \<and> recordsAt (lz_records z) (paneKeyOf (tb_entityId t) l) (paneOr m (k, l)))
     \<and> (\<forall>x. x \<notin> pendingPanes rest \<longrightarrow> paneOr (lz_layout z) x = paneOr m x)"

lemma readBackD:
  assumes "readBack m W rest z"
  shows "map withoutLeaves (md_workspaces (lz_layout z)) = map withoutLeaves W"
    "distinct (lz_seen z @ concat (map (leafIdsOf \<circ> snd) rest))" "distinct (pendingKeys rest)"
    "(k, t) \<in> set rest \<Longrightarrow> l \<in> set (leafIdsOf t) \<Longrightarrow> paneAt (lz_layout z) (k, l) = None"
    "(k, t) \<in> set rest \<Longrightarrow> l \<in> set (leafIdsOf t) \<Longrightarrow> recordsAt (lz_records z) (paneKeyOf (tb_entityId t) l) (paneOr m (k, l))"
    "x \<notin> pendingPanes rest \<Longrightarrow> paneOr (lz_layout z) x = paneOr m x"
  using assms unfolding readBack_def by blast+

text \<open>What is known of a tab of the saved session.\<close>

definition storedTabAt :: "loadedLayout \<Rightarrow> (string \<times> layoutSnapshot) list \<Rightarrow> (string \<times> workspaceLayout) list \<Rightarrow> string \<Rightarrow> layoutTab \<Rightarrow> bool" where
  "storedTabAt loaded layouts W k t \<longleftrightarrow>
     (\<exists>w v creation panes. workspaceAt (ld_layout loaded) k = Some w \<and> tb_body t = TerminalBody creation panes
        \<and> map_of layouts (tb_entityId t) = Some (saveTerminalLayout t panes (scopeOf k w loaded))
        \<and> map_of W k = Some v \<and> t \<in> set (ws_tabs v) \<and> distinct (tabIds v))
     \<and> (\<forall>l\<in>set (leafIdsOf t). storableLeaf (paneOr (ld_layout loaded) (k, l)))"

lemma scope_leaf:
  "workspaceAt (ld_layout loaded) k = Some w
     \<Longrightarrow> orElse (map_of (sc_leaves (scopeOf k w loaded)) l) emptyLeaf = paneOr (ld_layout loaded) (k, l)"
  by (cases "ws_leaves w") (simp_all add: scopeOf_def paneOr_def paneAt_def)

lemma readBack_step:
  assumes ok: "readBack (ld_layout loaded) W ((k, t) # rest) z" and tab: "storedTabAt loaded layouts W k t"
    and gen: "\<And>l. lx_ptyGenerationOf ctx l = None"
  shows "readBack (ld_layout loaded) W rest (loadTabLeaves ctx layouts z (k, t))"
proof -
  let ?m = "ld_layout loaded"
  note p = readBackD [OF ok]
  from tab obtain w v creation panes where w: "workspaceAt ?m k = Some w" and body: "tb_body t = TerminalBody creation panes"
    and lay: "map_of layouts (tb_entityId t) = Some (saveTerminalLayout t panes (scopeOf k w loaded))"
    and v: "map_of W k = Some v" "t \<in> set (ws_tabs v)" "distinct (tabIds v)"
    and leaf: "\<And>l. l \<in> set (leafIdsOf t) \<Longrightarrow> storableLeaf (paneOr ?m (k, l))"
    unfolding storedTabAt_def by blast
  obtain u where u: "workspaceAt (lz_layout z) k = Some u" "u\<lparr>ws_leaves := None\<rparr> = v\<lparr>ws_leaves := None\<rparr>"
    by (rule withoutLeaves_some [OF p(1) v(1)])
  have u': "t \<in> set (ws_tabs u)" "distinct (tabIds u)" using without_tabs [OF u(2)] v by simp_all
  have dist: "distinct (lz_seen z @ leafIdsOf t)" using p(2) by auto
  obtain view where L: "loadTabLeaves ctx layouts z (k, t) = foldl (placeLeaf ctx (saveTerminalLayout t panes (scopeOf k w loaded)) k (tb_entityId t))
     (z\<lparr>lz_seen := lz_seen z @ leafIdsOf t, lz_view := view\<rparr>) (map (\<lambda>l. (l, l)) (leafIdsOf t))"
    using loadTabLeaves_same [OF lay body dist u(1) u'] by blast
  let ?z0 = "z\<lparr>lz_seen := lz_seen z @ leafIdsOf t, lz_view := view\<rparr>" and ?q = "loadTabLeaves ctx layouts z (k, t)"
  have mem: "(k, t) \<in> set ((k, t) # rest)" by simp
  have d: "distinct (leafIdsOf t)" "set (leafIdsOf t) \<subseteq> set (optIds (tp_root panes))" using dist body by simp_all
  have leaf': "storableLeaf (orElse (map_of (sc_leaves (scopeOf k w loaded)) l) emptyLeaf)" if "l \<in> set (leafIdsOf t)" for l
    using leaf [OF that] unfolding scope_leaf [OF w] .
  have recs: "recordsAt (lz_records ?z0) (paneKeyOf (tb_entityId t) l) (orElse (map_of (sc_leaves (scopeOf k w loaded)) l) emptyLeaf)"
    if "l \<in> set (leafIdsOf t)" for l
    using p(5) [OF mem that] unfolding scope_leaf [OF w] by simp
  have at0: "workspaceAt (lz_layout ?z0) k \<noteq> None" using u(1) by simp
  have none: "paneAt (lz_layout ?z0) (k, l) = None" if "l \<in> set (leafIdsOf t)" for l using p(4) [OF mem that] by simp
  have z0: "lz_layout ?z0 = lz_layout z" "lz_records ?z0 = lz_records z" "lz_seen ?z0 = lz_seen z @ leafIdsOf t" by simp_all
  note P0 = placeLeaves_saved [OF d leaf' recs gen at0 none L]
  have P: "\<And>l. l \<in> set (leafIdsOf t) \<Longrightarrow> paneOr (lz_layout ?q) (k, l) = paneOr ?m (k, l)"
    "\<And>x. x \<notin> Pair k ` set (leafIdsOf t) \<Longrightarrow> paneAt (lz_layout ?q) x = paneAt (lz_layout z) x"
    "map withoutLeaves (md_workspaces (lz_layout ?q)) = map withoutLeaves (md_workspaces (lz_layout z))"
    "lz_seen ?q = lz_seen z @ leafIdsOf t"
    "\<And>key leaf'. key \<notin> paneKeyOf (tb_entityId t) ` set (leafIdsOf t) \<Longrightarrow> recordsAt (lz_records ?q) key leaf' = recordsAt (lz_records z) key leaf'"
    using P0 unfolding scope_leaf [OF w] z0 by blast+
  have keys: "set (pendingKeys rest) \<inter> paneKeyOf (tb_entityId t) ` set (leafIdsOf t) = {}"
    using p(3) by (auto simp: pendingKeys_def)
  have later: "paneAt (lz_layout ?q) (k', l) = None \<and> recordsAt (lz_records ?q) (paneKeyOf (tb_entityId t') l) (paneOr ?m (k', l))"
    if r: "(k', t') \<in> set rest" "l \<in> set (leafIdsOf t')" for k' t' l
  proof -
    have mem': "(k', t') \<in> set ((k, t) # rest)" using r(1) by simp
    have "l \<in> set (concat (map (leafIdsOf \<circ> snd) rest))" using r by force
    then have "l \<notin> set (leafIdsOf t)" using p(2) by auto
    then have "(k', l) \<notin> Pair k ` set (leafIdsOf t)" by blast
    from P(2) [OF this] p(4) [OF mem' r(2)] have "paneAt (lz_layout ?q) (k', l) = None" by simp
    moreover have "paneKeyOf (tb_entityId t') l \<in> set (pendingKeys rest)" using r by (force simp: pendingKeys_def)
    then have "paneKeyOf (tb_entityId t') l \<notin> paneKeyOf (tb_entityId t) ` set (leafIdsOf t)" using keys by blast
    from P(5) [OF this] p(5) [OF mem' r(2)] have "recordsAt (lz_records ?q) (paneKeyOf (tb_entityId t') l) (paneOr ?m (k', l))" by simp
    ultimately show ?thesis ..
  qed
  have walked: "paneOr (lz_layout ?q) x = paneOr ?m x" if "x \<notin> pendingPanes rest" for x
  proof (cases "x \<in> Pair k ` set (leafIdsOf t)")
    case True
    with P(1) show ?thesis by auto
  next
    case False
    with that have "x \<notin> pendingPanes ((k, t) # rest)" by (auto simp: pendingPanes_def)
    from p(6) [OF this] P(2) [OF False] show ?thesis by (simp add: paneOr_def)
  qed
  have "distinct (pendingKeys rest)" using p(3) by (simp add: pendingKeys_def)
  then show ?thesis unfolding readBack_def
    using p(1,2) P(3,4) later walked by auto
qed

lemma readBack_walk:
  "readBack (ld_layout loaded) W rest z \<Longrightarrow> (\<And>k t. (k, t) \<in> set rest \<Longrightarrow> storedTabAt loaded layouts W k t)
     \<Longrightarrow> (\<And>l. lx_ptyGenerationOf ctx l = None) \<Longrightarrow> readBack (ld_layout loaded) W [] (foldl (loadTabLeaves ctx layouts) z rest)"
proof (induction rest arbitrary: z)
  case (Cons x rest)
  obtain k t where x: "x = (k, t)" by force
  have tab: "storedTabAt loaded layouts W k t" using Cons.prems(2) x by simp
  from Cons.IH [OF readBack_step [OF Cons.prems(1) [unfolded x] tab Cons.prems(3)]] Cons.prems(2,3) x show ?case by simp
qed simp

section \<open>The records of the panes are stored\<close>

definition terminalsOf :: "(string \<times> workspaceLayout) list \<Rightarrow> (string \<times> layoutTab) list" where
  "terminalsOf W = concat (map (\<lambda>(k, w). map (Pair k) (filter isTerminal (ws_tabs w))) W)"

lemma set_terminalsOf: "set (terminalsOf W) = {(k, t) | k w t. (k, w) \<in> set W \<and> t \<in> set (ws_tabs w) \<and> isTerminal t}"
  by (auto 4 4 simp: terminalsOf_def)

definition stored :: "savedRecords \<Rightarrow> paneRecords" where
  "stored sv = \<lparr>pr_sleeping = sv_sleeping sv, pr_incarnations = sv_incarnations sv\<rparr>"

definition freeAt :: "paneRecords \<Rightarrow> string \<Rightarrow> bool" where
  "freeAt r key \<longleftrightarrow> map_of (pr_sleeping r) key = None \<and> map_of (pr_incarnations r) key = None"

lemma extend_truncate: "layoutSleepingRecord.truncate (layoutSleepingRecord.extend r x) = r"
  by (simp add: layoutSleepingRecord.defs)

lemma saveLeafRecords_at:
  assumes "freeAt (stored sv) (paneKeyOf e l)"
  shows "recordsAt (stored (saveLeafRecords w e sv l)) (paneKeyOf e l) (orElse (leafAt w l) emptyLeaf)"
proof (cases "leafAt w l")
  case None
  with assms show ?thesis by (simp add: saveLeafRecords_def recordsAt_def stored_def freeAt_def emptyLeaf_def orElseOpt_def)
next
  case (Some leaf)
  with assms show ?thesis
    by (cases "lf_incarnationId leaf"; cases "orElseOpt (lf_sleeping leaf) (lf_resume leaf)")
      (simp_all add: saveLeafRecords_def Let_def recordsAt_def stored_def freeAt_def extend_truncate update_conv')
qed

lemma saveLeafRecords_other:
  "key \<noteq> paneKeyOf e l \<Longrightarrow> map_of (sv_sleeping (saveLeafRecords w e sv l)) key = map_of (sv_sleeping sv) key
     \<and> map_of (sv_incarnations (saveLeafRecords w e sv l)) key = map_of (sv_incarnations sv) key"
  by (simp add: saveLeafRecords_def Let_def update_conv' split: option.split)

text \<open>Panes are written one by one: those before and after do not touch the records of one.\<close>

definition sameAt :: "savedRecords \<Rightarrow> savedRecords \<Rightarrow> string \<Rightarrow> bool" where
  "sameAt a b key \<longleftrightarrow> map_of (sv_sleeping a) key = map_of (sv_sleeping b) key \<and> map_of (sv_incarnations a) key = map_of (sv_incarnations b) key"

lemma sameAt_trans: "sameAt a b key \<Longrightarrow> sameAt b c key \<Longrightarrow> sameAt a c key"
  by (simp add: sameAt_def)

lemma sameAt_records: "sameAt a b key \<Longrightarrow> recordsAt (stored a) key leaf = recordsAt (stored b) key leaf"
  "sameAt a b key \<Longrightarrow> freeAt (stored a) key = freeAt (stored b) key"
  by (simp_all add: sameAt_def recordsAt_def stored_def freeAt_def)

definition tabKeys :: "layoutTab \<Rightarrow> string list" where
  "tabKeys t = map (paneKeyOf (tb_entityId t)) (leafIdsOf t)"

lemma saveLeaves_other:
  "key \<notin> paneKeyOf e ` set ls \<Longrightarrow> sameAt (foldl (saveLeafRecords w e) sv ls) sv key"
proof (induction ls arbitrary: sv)
  case (Cons l ls)
  then have "sameAt (saveLeafRecords w e sv l) sv key" by (simp add: sameAt_def saveLeafRecords_other)
  with Cons.IH [of "saveLeafRecords w e sv l"] Cons.prems show ?case by (auto intro: sameAt_trans)
qed (simp add: sameAt_def)

lemma saveTabs_other:
  "key \<notin> set (concat (map tabKeys ts)) \<Longrightarrow> sameAt (foldl (\<lambda>s t. foldl (saveLeafRecords w (tb_entityId t)) s (leafIdsOf t)) sv ts) sv key"
proof (induction ts arbitrary: sv)
  case (Cons t ts)
  then have "sameAt (foldl (saveLeafRecords w (tb_entityId t)) sv (leafIdsOf t)) sv key"
    by (intro saveLeaves_other) (auto simp: tabKeys_def)
  with Cons.IH [of "foldl (saveLeafRecords w (tb_entityId t)) sv (leafIdsOf t)"] Cons.prems show ?case by (auto intro: sameAt_trans)
qed (simp add: sameAt_def)

lemma saveWorkspace_other:
  "key \<notin> set (concat (map tabKeys (ws_tabs w))) \<Longrightarrow> sameAt (saveRecordsOf sv w) sv key"
  using saveTabs_other [of key "ws_tabs w" w sv] by (simp add: saveRecordsOf_def Let_def sameAt_def)

lemma saveWorkspaces_other:
  "key \<notin> set (concat (map (\<lambda>w. concat (map tabKeys (ws_tabs w))) ws)) \<Longrightarrow> sameAt (foldl saveRecordsOf sv ws) sv key"
proof (induction ws arbitrary: sv)
  case (Cons w ws)
  then have "sameAt (saveRecordsOf sv w) sv key" by (intro saveWorkspace_other) simp
  with Cons.IH [of "saveRecordsOf sv w"] Cons.prems show ?case by (auto intro: sameAt_trans)
qed (simp add: sameAt_def)

lemma saveLeaves_at:
  assumes d: "distinct ls" "l \<in> set ls" and f: "freeAt (stored sv) (paneKeyOf e l)"
  shows "recordsAt (stored (foldl (saveLeafRecords w e) sv ls)) (paneKeyOf e l) (orElse (leafAt w l) emptyLeaf)"
proof -
  from d obtain as bs where ls: "ls = as @ l # bs" by (meson split_list)
  with d(1) have n: "l \<notin> set as" "l \<notin> set bs" by auto
  have k: "paneKeyOf e l \<notin> paneKeyOf e ` set xs" if "l \<notin> set xs" for xs using that by (auto simp: paneKeyOf_def)
  have "freeAt (stored (foldl (saveLeafRecords w e) sv as)) (paneKeyOf e l)"
    using f sameAt_records(2) [OF saveLeaves_other [OF k [OF n(1)], of w sv]] by simp
  from saveLeafRecords_at [OF this] sameAt_records(1) [OF saveLeaves_other [OF k [OF n(2)], of w]]
  show ?thesis unfolding ls by simp
qed

lemma saveTabs_at:
  assumes d: "distinct (concat (map tabKeys ts))" "t \<in> set ts" "l \<in> set (leafIdsOf t)"
    and f: "freeAt (stored sv) (paneKeyOf (tb_entityId t) l)"
  shows "recordsAt (stored (foldl (\<lambda>s t. foldl (saveLeafRecords w (tb_entityId t)) s (leafIdsOf t)) sv ts))
     (paneKeyOf (tb_entityId t) l) (orElse (leafAt w l) emptyLeaf)"
proof -
  let ?f = "\<lambda>s t. foldl (saveLeafRecords w (tb_entityId t)) s (leafIdsOf t)" and ?key = "paneKeyOf (tb_entityId t) l"
  from d(2) obtain as bs where ts: "ts = as @ t # bs" by (meson split_list)
  have mem: "?key \<in> set (tabKeys t)" using d(3) by (simp add: tabKeys_def)
  have n: "?key \<notin> set (concat (map tabKeys as))" "?key \<notin> set (concat (map tabKeys bs))"
    using d(1) mem unfolding ts by auto
  have dl: "distinct (leafIdsOf t)" using d(1) unfolding ts by (auto simp: tabKeys_def distinct_map)
  have "freeAt (stored (foldl ?f sv as)) ?key" using f sameAt_records(2) [OF saveTabs_other [OF n(1), of w sv]] by simp
  from saveLeaves_at [OF dl d(3) this] sameAt_records(1) [OF saveTabs_other [OF n(2), of w]]
  show ?thesis unfolding ts by simp
qed

lemma distinct_concat_split:
  assumes "distinct (concat (map g (as @ w # bs)))" "key \<in> set (g w)"
  shows "key \<notin> set (concat (map g as))" "key \<notin> set (concat (map g bs))"
  using assms by auto

lemma saveWorkspaceRecords_at:
  assumes d: "distinct (concat (map (\<lambda>w. concat (map tabKeys (ws_tabs w))) ws))" "w \<in> set ws" "t \<in> set (ws_tabs w)" "l \<in> set (leafIdsOf t)"
    and f: "freeAt (stored sv) (paneKeyOf (tb_entityId t) l)"
  shows "recordsAt (stored (foldl saveRecordsOf sv ws)) (paneKeyOf (tb_entityId t) l) (orElse (leafAt w l) emptyLeaf)"
proof -
  let ?g = "\<lambda>w. concat (map tabKeys (ws_tabs w))" and ?key = "paneKeyOf (tb_entityId t) l"
  from d(2) obtain as bs where ws: "ws = as @ w # bs" by (meson split_list)
  have mem: "?key \<in> set (?g w)" using d(3,4) by (auto simp: tabKeys_def)
  note n = distinct_concat_split [OF d(1) [unfolded ws] mem]
  have dw: "distinct (?g w)" using d(1) unfolding ws by simp
  have "freeAt (stored (foldl saveRecordsOf sv as)) ?key"
    using f sameAt_records(2) [OF saveWorkspaces_other [OF n(1), of sv]] by simp
  from saveTabs_at [OF dw d(3,4) this, of w]
  have "recordsAt (stored (saveRecordsOf (foldl saveRecordsOf sv as) w)) ?key (orElse (leafAt w l) emptyLeaf)"
    by (simp add: saveRecordsOf_def Let_def stored_def)
  with sameAt_records(1) [OF saveWorkspaces_other [OF n(2)]] show ?thesis unfolding ws by simp
qed

end
