(* ===== verification/Saved_Session.thy ===== *)
theory Saved_Session
  imports Saved_Panes Layout_Rules
begin

text \<open>
  The saved session of a whole partition: what it says of each workspace, and that every workspace
  loads from it as it was, before its pane data.
\<close>

section \<open>What the session says of each workspace\<close>

lemma fold_own:
  assumes own: "\<And>s k w k'. f (step s (k, w)) k' = (if k' = k \<and> P k w then new k w else f s k')"
    and d: "distinct (map fst W)"
  shows "(k, w) \<in> set W \<Longrightarrow> f (foldl step s W) k = (if P k w then new k w else f s k)"
    and "k \<notin> fst ` set W \<Longrightarrow> f (foldl step s W) k = f s k"
proof -
  have other: "f (foldl step s V) k = f s k" if "k \<notin> fst ` set V" for V s
    using that
  proof (induction V arbitrary: s)
    case (Cons x V)
    obtain i v where x: "x = (i, v)" by force
    have "f (step s x) k = f s k" using Cons.prems x own [of s i v k] by simp
    with Cons.IH [of "step s x"] Cons.prems show ?case by simp
  qed simp
  show "f (foldl step s W) k = f s k" if "k \<notin> fst ` set W" using other that .
  show "f (foldl step s W) k = (if P k w then new k w else f s k)" if "(k, w) \<in> set W"
  proof -
    from that obtain as bs where W: "W = as @ (k, w) # bs" by (meson split_list)
    with d have "k \<notin> fst ` set as" "k \<notin> fst ` set bs" by auto
    with other [of bs] other [of as] own [of _ k w k] show ?thesis unfolding W by simp
  qed
qed

lemma saved_lookups_at:
  fixes own loaded W s
  defines "maps \<equiv> foldl (saveWorkspace own loaded) s W"
  assumes d: "distinct (map fst W)" and mem: "(k, w) \<in> set W"
  shows "map_of (wm_unifiedTabs maps) k = (if savedGroupsOf loaded k w \<noteq> []
      then Some (savedEntries own (savedTabs w) (ws_groups w) (scopeOf k w loaded)) else map_of (wm_unifiedTabs s) k)"
    and "map_of (wm_tabGroups maps) k = (if savedGroupsOf loaded k w \<noteq> []
      then Some (savedGroupsOf loaded k w) else map_of (wm_tabGroups s) k)"
    and "map_of (wm_tabGroupLayouts maps) k = (if savedGroupsOf loaded k w \<noteq> []
      then Some (orElse (Option.bind (ws_groupLayout w) (\<lambda>n. pruneGroupTree n (map sg_id (savedGroupsOf loaded k w))))
               (Leaf (sg_id (hd (savedGroupsOf loaded k w))))) else map_of (wm_tabGroupLayouts s) k)"
    and "map_of (wm_openFilesByWorktree maps) k = (if ws_editorFiles w \<noteq> None
      then map_option (map (savedFile own k w (ld_desktopView loaded))) (ws_editorFiles w) else map_of (wm_openFilesByWorktree s) k)"
    and "map_of (wm_browserTabsByWorktree maps) k = (if ws_browserTabs w \<noteq> None
      then map_option (map (savedBrowserTab k (ws_worktreeId w) (ld_facts loaded))) (ws_browserTabs w) else map_of (wm_browserTabsByWorktree s) k)"
  unfolding maps_def
  by (rule fold_own(1) [OF _ d mem], rule saveWorkspace_maps)+

lemma saved_keys_at:
  assumes d: "distinct (map fst W)" and no: "k \<notin> fst ` set W"
  shows "map_of (wm_unifiedTabs (foldl (saveWorkspace own loaded) s W)) k = map_of (wm_unifiedTabs s) k"
    "map_of (wm_tabGroups (foldl (saveWorkspace own loaded) s W)) k = map_of (wm_tabGroups s) k"
    "map_of (wm_tabGroupLayouts (foldl (saveWorkspace own loaded) s W)) k = map_of (wm_tabGroupLayouts s) k"
    "map_of (wm_openFilesByWorktree (foldl (saveWorkspace own loaded) s W)) k = map_of (wm_openFilesByWorktree s) k"
    "map_of (wm_browserTabsByWorktree (foldl (saveWorkspace own loaded) s W)) k = map_of (wm_browserTabsByWorktree s) k"
  by (rule fold_own(2) [OF _ d no], rule saveWorkspace_maps)+

lemma saved_rows:
  assumes d: "distinct (map fst W)" "fst ` set (wm_tabsByWorktree s) \<inter> fst ` set W = {}"
  shows "wm_tabsByWorktree (foldl (saveWorkspace own loaded) s W) = wm_tabsByWorktree s
     @ map (\<lambda>(k, w). (k, savedRows (savedTabs w) (scopeOf k w loaded))) (filter (rowsKept loaded) W)"
  using d
proof (induction W arbitrary: s)
  case (Cons x W)
  obtain k w where x: "x = (k, w)" by force
  let ?s = "saveWorkspace own loaded s (k, w)"
  have n: "k \<notin> fst ` set (wm_tabsByWorktree s)" using Cons.prems(2) x by auto
  have s: "wm_tabsByWorktree ?s = wm_tabsByWorktree s @ (if rowsKept loaded (k, w) then [(k, savedRows (savedTabs w) (scopeOf k w loaded))] else [])"
    unfolding saveWorkspace_maps(1) using map_snd_update_new [OF n] by simp
  have "fst ` set (wm_tabsByWorktree ?s) \<subseteq> insert k (fst ` set (wm_tabsByWorktree s))" unfolding s by auto
  moreover have "k \<notin> fst ` set W" "fst ` set (wm_tabsByWorktree s) \<inter> fst ` set W = {}" using Cons.prems x by auto
  ultimately have "fst ` set (wm_tabsByWorktree ?s) \<inter> fst ` set W = {}" by blast
  from Cons.IH [OF _ this] Cons.prems(1) x show ?case unfolding s by simp
qed simp

text \<open>The pane layouts of all terminals.\<close>

lemma fold_updates:
  "map_of (fold (\<lambda>(t, creation, panes). AList.update (tb_entityId t) (f t panes)) ps r) e
     = (case List.find (\<lambda>(t, _). tb_entityId t = e) (rev ps) of Some (t, creation, panes) \<Rightarrow> Some (f t panes) | None \<Rightarrow> map_of r e)"
  by (induction ps arbitrary: r rule: rev_induct) (auto simp: update_conv' split: option.split)

lemma terminalParts_at:
  assumes t: "t \<in> set ts" "tb_body t = TerminalBody creation panes" and d: "distinct (map tb_entityId (filter isTerminal ts))"
  shows "map_of (fold (\<lambda>(t, creation, panes). AList.update (tb_entityId t) (f t panes)) (terminalParts ts) r) (tb_entityId t) = Some (f t panes)"
proof -
  have mem: "(t, creation, panes) \<in> set (rev (terminalParts ts))" using t by (simp add: terminalParts_body)
  then obtain u where u: "List.find (\<lambda>(u, _). tb_entityId u = tb_entityId t) (rev (terminalParts ts)) = Some u"
    by (cases "List.find (\<lambda>(u, _). tb_entityId u = tb_entityId t) (rev (terminalParts ts))") (auto simp: find_None_iff)
  obtain t' creation' panes' where ueq: "u = (t', creation', panes')" by (metis prod_cases3)
  from find_SomeD [OF u] ueq have b: "t' \<in> set ts" "tb_body t' = TerminalBody creation' panes'" "tb_entityId t' = tb_entityId t"
    by (simp_all add: terminalParts_body)
  have "t' \<in> set (filter isTerminal ts)" "t \<in> set (filter isTerminal ts)" using b t by (simp_all add: isTerminal_def)
  with d b(3) have "t' = t" by (auto simp: distinct_map dest: inj_onD)
  with b t have "u = (t, creation, panes)" unfolding ueq by simp
  with u show ?thesis unfolding fold_updates by simp
qed

lemma terminalParts_not:
  assumes "e \<notin> set (map tb_entityId (filter isTerminal ts))"
  shows "map_of (fold (\<lambda>(t, creation, panes). AList.update (tb_entityId t) (f t panes)) (terminalParts ts) r) e = map_of r e"
proof -
  have "List.find (\<lambda>(t, _). tb_entityId t = e) (rev (terminalParts ts)) = None"
    using assms by (auto simp: find_None_iff terminalParts_body isTerminal_def)
  then show ?thesis unfolding fold_updates by simp
qed

definition entitiesOf :: "workspaceLayout \<Rightarrow> string list" where
  "entitiesOf w = map tb_entityId (filter isTerminal (ws_tabs w))"

lemma saved_layouts:
  assumes d: "distinct (concat (map (entitiesOf \<circ> snd) W))" "(k, w) \<in> set W" "t \<in> set (ws_tabs w)" "tb_body t = TerminalBody creation panes"
    and ts: "\<And>k w. (k, w) \<in> set W \<Longrightarrow> mset (savedTabs w) = mset (ws_tabs w)"
  shows "map_of (wm_terminalLayoutsByTabId (foldl (saveWorkspace own loaded) s W)) (tb_entityId t) = Some (saveTerminalLayout t panes (scopeOf k w loaded))"
proof -
  have ids: "mset (map tb_entityId (filter isTerminal (savedTabs v))) = mset (entitiesOf v)" if "(i, v) \<in> set W" for i v
    using ts [OF that] unfolding entitiesOf_def by (metis mset_filter mset_map)
  from d(2) obtain as bs where W: "W = as @ (k, w) # bs" by (meson split_list)
  have e: "tb_entityId t \<in> set (entitiesOf w)" using d(3,4) by (auto simp: entitiesOf_def isTerminal_def)
  then have n: "tb_entityId t \<notin> set (concat (map (entitiesOf \<circ> snd) bs))" and dw: "distinct (entitiesOf w)" using d(1) unfolding W by auto
  have later: "map_of (wm_terminalLayoutsByTabId (foldl (saveWorkspace own loaded) s V)) (tb_entityId t) = map_of (wm_terminalLayoutsByTabId s) (tb_entityId t)"
    if "tb_entityId t \<notin> set (concat (map (entitiesOf \<circ> snd) V))" "set V \<subseteq> set W" for V s
    using that
  proof (induction V arbitrary: s)
    case (Cons x V)
    obtain i v where x: "x = (i, v)" by force
    have "tb_entityId t \<notin> set (map tb_entityId (filter isTerminal (savedTabs v)))"
      using Cons.prems x mset_eq_setD [OF ids [of i v]] by simp
    from terminalParts_not [OF this] Cons.IH [of "saveWorkspace own loaded s (i, v)"] Cons.prems x
    show ?case by (simp add: saveWorkspace_maps(7))
  qed simp
  have dts: "distinct (map tb_entityId (filter isTerminal (savedTabs w)))"
    using dw mset_eq_imp_distinct_iff [OF ids [OF d(2)]] by simp
  have mem: "t \<in> set (savedTabs w)" using d(3) mset_eq_setD [OF ts [OF d(2)]] by simp
  have "set bs \<subseteq> set W" unfolding W by auto
  from later [OF n this] terminalParts_at [OF mem d(4) dts] show ?thesis
    unfolding W by (simp add: saveWorkspace_maps(7))
qed

section \<open>Which layouts can be stored\<close>

text \<open>
  The layouts that this build writes: every rule of the structure, terminal tabs and pane keys that
  are unique, pane records of their kind, and no terminal in two panes.
\<close>

definition storable :: "loadedLayout \<Rightarrow> bool" where
  "storable loaded \<longleftrightarrow> (let m = ld_layout loaded; W = md_workspaces m in
     wf_layout m \<and> distinct (concat (map (entitiesOf \<circ> snd) W))
     \<and> distinct (concat (map (\<lambda>w. concat (map tabKeys (ws_tabs w))) (map snd W)))
     \<and> (\<forall>(k, w)\<in>set W. \<forall>t\<in>set (ws_tabs w). \<forall>key\<in>set (tabKeys t).
          map_of (ca_unplacedSleepingRecords (ld_carried loaded)) key = None
          \<and> map_of (ca_unplacedIncarnations (ld_carried loaded)) key = None)
     \<and> (\<forall>(k, w)\<in>set W. \<forall>(l, leaf)\<in>set (orElse (ws_leaves w) []). storableLeaf leaf)
     \<and> (\<forall>x\<in>pendingPanes (terminalsOf W). \<forall>y\<in>pendingPanes (terminalsOf W).
          x \<noteq> y \<longrightarrow> \<not> isSameTerminal (bindingOfLeaf (paneOr m x)) (bindingOfLeaf (paneOr m y))))"

lemma storableD:
  assumes "storable loaded"
  shows "wf_layout (ld_layout loaded)" "distinct (concat (map (entitiesOf \<circ> snd) (md_workspaces (ld_layout loaded))))"
    "distinct (concat (map (\<lambda>w. concat (map tabKeys (ws_tabs w))) (map snd (md_workspaces (ld_layout loaded)))))"
    "(k, w) \<in> set (md_workspaces (ld_layout loaded)) \<Longrightarrow> t \<in> set (ws_tabs w) \<Longrightarrow> key \<in> set (tabKeys t)
      \<Longrightarrow> map_of (ca_unplacedSleepingRecords (ld_carried loaded)) key = None \<and> map_of (ca_unplacedIncarnations (ld_carried loaded)) key = None"
    "(k, w) \<in> set (md_workspaces (ld_layout loaded)) \<Longrightarrow> (l, leaf) \<in> set (orElse (ws_leaves w) []) \<Longrightarrow> storableLeaf leaf"
    "x \<in> pendingPanes (terminalsOf (md_workspaces (ld_layout loaded))) \<Longrightarrow> y \<in> pendingPanes (terminalsOf (md_workspaces (ld_layout loaded)))
      \<Longrightarrow> x \<noteq> y \<Longrightarrow> \<not> isSameTerminal (bindingOfLeaf (paneOr (ld_layout loaded) x)) (bindingOfLeaf (paneOr (ld_layout loaded) y))"
proof -
  note c = assms [unfolded storable_def Let_def]
  show "wf_layout (ld_layout loaded)" "distinct (concat (map (entitiesOf \<circ> snd) (md_workspaces (ld_layout loaded))))"
    "distinct (concat (map (\<lambda>w. concat (map tabKeys (ws_tabs w))) (map snd (md_workspaces (ld_layout loaded)))))"
    using c by blast+
  have u: "\<forall>(k, w)\<in>set (md_workspaces (ld_layout loaded)). \<forall>t\<in>set (ws_tabs w). \<forall>key\<in>set (tabKeys t).
          map_of (ca_unplacedSleepingRecords (ld_carried loaded)) key = None
          \<and> map_of (ca_unplacedIncarnations (ld_carried loaded)) key = None"
    and l: "\<forall>(k, w)\<in>set (md_workspaces (ld_layout loaded)). \<forall>(l, leaf)\<in>set (orElse (ws_leaves w) []). storableLeaf leaf"
    and t: "\<forall>x\<in>pendingPanes (terminalsOf (md_workspaces (ld_layout loaded))). \<forall>y\<in>pendingPanes (terminalsOf (md_workspaces (ld_layout loaded))).
          x \<noteq> y \<longrightarrow> \<not> isSameTerminal (bindingOfLeaf (paneOr (ld_layout loaded) x)) (bindingOfLeaf (paneOr (ld_layout loaded) y))"
    using c by blast+
  show "map_of (ca_unplacedSleepingRecords (ld_carried loaded)) key = None \<and> map_of (ca_unplacedIncarnations (ld_carried loaded)) key = None"
    if "(k, w) \<in> set (md_workspaces (ld_layout loaded))" "t \<in> set (ws_tabs w)" "key \<in> set (tabKeys t)"
    using u that by fast
  show "storableLeaf leaf" if "(k, w) \<in> set (md_workspaces (ld_layout loaded))" "(l, leaf) \<in> set (orElse (ws_leaves w) [])"
    using l that by fast
  show "\<not> isSameTerminal (bindingOfLeaf (paneOr (ld_layout loaded) x)) (bindingOfLeaf (paneOr (ld_layout loaded) y))"
    if "x \<in> pendingPanes (terminalsOf (md_workspaces (ld_layout loaded)))" "y \<in> pendingPanes (terminalsOf (md_workspaces (ld_layout loaded)))" "x \<noteq> y"
    using t that by blast
qed

lemma storable_keys: "storable loaded \<Longrightarrow> distinct (map fst (md_workspaces (ld_layout loaded)))"
  "storable loaded \<Longrightarrow> (k, w) \<in> set (md_workspaces (ld_layout loaded)) \<Longrightarrow> wf_workspace {} w"
  using storableD(1) unfolding wf_model_def by fast+

lemma storable_leaf:
  assumes "storable loaded"
  shows "storableLeaf (paneOr (ld_layout loaded) x)"
proof -
  obtain k l where x: "x = (k, l)" by force
  have e: "storableLeaf emptyLeaf" by (simp add: storableLeaf_def emptyLeaf_def)
  show ?thesis
  proof (cases "paneAt (ld_layout loaded) x")
    case None
    with e show ?thesis by (simp add: paneOr_def)
  next
    case (Some leaf)
    then have "leafAt (workspaceOrEmpty (ld_layout loaded) k) l = Some leaf" by (simp add: x paneAt_def)
    then obtain w where w: "workspaceAt (ld_layout loaded) k = Some w" "leafAt w l = Some leaf"
      by (cases "workspaceAt (ld_layout loaded) k") (auto simp: emptyWorkspace_def)
    then have "(l, leaf) \<in> set (orElse (ws_leaves w) [])" by (cases "ws_leaves w") (auto dest: map_of_SomeD)
    from storableD(5) [OF assms map_of_SomeD [OF w(1)] this] Some show ?thesis by (simp add: paneOr_def)
  qed
qed

section \<open>The homes of the rows\<close>

lemma homes_walk:
  assumes "distinct (concat (map (map rw_id \<circ> snd) L))" "\<forall>i\<in>set (concat (map (map rw_id \<circ> snd) L)). map_of homes i = None"
  shows "(\<forall>(k, rows)\<in>set L. \<forall>r\<in>set rows. map_of (foldl (\<lambda>homes (key, rows). foldl (homeStep session key) homes rows) homes L) (rw_id r) = Some k)
     \<and> (\<forall>i. i \<notin> set (concat (map (map rw_id \<circ> snd) L)) \<longrightarrow> map_of (foldl (\<lambda>homes (key, rows). foldl (homeStep session key) homes rows) homes L) i = map_of homes i)"
  using assms
proof (induction L arbitrary: homes)
  case (Cons x L)
  obtain k rows where x: "x = (k, rows)" by force
  have rows: "(\<forall>r\<in>set rs. map_of (foldl (homeStep session k) h rs) (rw_id r) = Some k)
      \<and> (\<forall>i. i \<notin> rw_id ` set rs \<longrightarrow> map_of (foldl (homeStep session k) h rs) i = map_of h i)"
    if "distinct (map rw_id rs)" "\<forall>r\<in>set rs. map_of h (rw_id r) = None" for rs h
    using that
  proof (induction rs arbitrary: h)
    case (Cons r rs)
    have s: "homeStep session k h r = AList.update (rw_id r) k h" using Cons.prems(2) by (simp add: homeStep_def)
    have "\<forall>r'\<in>set rs. map_of (AList.update (rw_id r) k h) (rw_id r') = None"
    proof
      fix r' assume r': "r' \<in> set rs"
      then have "rw_id r' \<in> set (map rw_id rs)" by simp
      then have "rw_id r' \<noteq> rw_id r" using Cons.prems(1) by auto
      with r' Cons.prems(2) show "map_of (AList.update (rw_id r) k h) (rw_id r') = None" by (simp add: update_conv')
    qed
    from Cons.IH [OF _ this] Cons.prems(1) show ?case by (auto simp: s update_conv')
  qed simp
  let ?h = "foldl (homeStep session k) homes rows"
  have R: "\<forall>r\<in>set rows. map_of ?h (rw_id r) = Some k" "\<forall>i. i \<notin> rw_id ` set rows \<longrightarrow> map_of ?h i = map_of homes i"
    using rows [of rows homes] Cons.prems x by auto
  have "\<forall>i\<in>set (concat (map (map rw_id \<circ> snd) L)). map_of ?h i = None"
  proof
    fix i assume i: "i \<in> set (concat (map (map rw_id \<circ> snd) L))"
    then have "i \<notin> rw_id ` set rows" using Cons.prems(1) x by auto
    with R(2) i Cons.prems(2) show "map_of ?h i = None" by simp
  qed
  from Cons.IH [OF _ this] Cons.prems(1) have ih:
    "\<forall>(k, rows)\<in>set L. \<forall>r\<in>set rows. map_of (foldl (\<lambda>homes (key, rows). foldl (homeStep session key) homes rows) ?h L) (rw_id r) = Some k"
    "\<forall>i. i \<notin> set (concat (map (map rw_id \<circ> snd) L)) \<longrightarrow> map_of (foldl (\<lambda>homes (key, rows). foldl (homeStep session key) homes rows) ?h L) i = map_of ?h i"
    by simp_all
  have "\<forall>r\<in>set rows. rw_id r \<notin> set (concat (map (map rw_id \<circ> snd) L))" using Cons.prems(1) x by auto
  with ih R show ?case by (simp add: x)
qed simp

lemma takeRows_all:
  assumes "distinct (map rw_id (rowsOf session k))" "\<forall>r\<in>set (rowsOf session k). map_of homes (rw_id r) = Some k"
  shows "takeRows session k homes = rowsOf session k"
proof -
  have "foldl (takeRow homes k) acc rs = acc @ rs"
    if "distinct (map rw_id (acc @ rs))" "\<forall>r\<in>set rs. map_of homes (rw_id r) = Some k" for acc rs
    using that
  proof (induction rs arbitrary: acc)
    case (Cons r rs)
    then have "takeRow homes k acc r = acc @ [r]" by (auto simp: takeRow_def)
    with Cons.IH [of "acc @ [r]"] Cons.prems show ?case by simp
  qed simp
  from this [of "[]" "rowsOf session k"] assms show ?thesis by (simp add: takeRows_def)
qed

section \<open>The saved session of a storable layout\<close>

lemma saved_row_ids:
  assumes "distinct (concat (map (entitiesOf \<circ> snd) V))" "\<forall>x\<in>set V. mset (savedTabs (snd x)) = mset (ws_tabs (snd x))"
  shows "distinct (concat (map (map rw_id \<circ> snd) (map (\<lambda>(k, w). (k, savedRows (savedTabs w) (scopeOf k w loaded))) (filter P V))))
    \<and> set (concat (map (map rw_id \<circ> snd) (map (\<lambda>(k, w). (k, savedRows (savedTabs w) (scopeOf k w loaded))) (filter P V))))
       \<subseteq> set (concat (map (entitiesOf \<circ> snd) V))"
  using assms
proof (induction V)
  case (Cons x V)
  obtain i v where x: "x = (i, v)" by force
  have m: "mset (map tb_entityId (filter isTerminal (savedTabs v))) = mset (entitiesOf v)"
    using Cons.prems(2) x unfolding entitiesOf_def by (metis list.set_intros(1) mset_filter mset_map snd_conv)
  have "distinct (entitiesOf v)" using Cons.prems(1) x by simp
  with m have dv: "distinct (map tb_entityId (filter isTerminal (savedTabs v)))" by (metis mset_eq_imp_distinct_iff)
  have sv: "set (map tb_entityId (filter isTerminal (savedTabs v))) = set (entitiesOf v)" by (rule mset_eq_setD [OF m])
  have dV: "distinct (concat (map (entitiesOf \<circ> snd) V))" using Cons.prems(1) by (simp add: comp_def)
  have mV: "\<forall>x\<in>set V. mset (savedTabs (snd x)) = mset (ws_tabs (snd x))" using Cons.prems(2) by simp
  note ih0 = Cons.IH [OF dV mV]
  have ih: "distinct (concat (map (map rw_id \<circ> snd) (map (\<lambda>(k, w). (k, savedRows (savedTabs w) (scopeOf k w loaded))) (filter P V))))"
    "set (concat (map (map rw_id \<circ> snd) (map (\<lambda>(k, w). (k, savedRows (savedTabs w) (scopeOf k w loaded))) (filter P V))))
     \<subseteq> set (concat (map (entitiesOf \<circ> snd) V))" using conjunct1 [OF ih0] conjunct2 [OF ih0] .
  have apart: "set (entitiesOf v) \<inter> set (concat (map (entitiesOf \<circ> snd) V)) = {}" using Cons.prems(1) x by simp
  show ?case
  proof (cases "P x")
    case True
    have e: "concat (map (map rw_id \<circ> snd) (map (\<lambda>(k, w). (k, savedRows (savedTabs w) (scopeOf k w loaded))) (filter P (x # V))))
      = map tb_entityId (filter isTerminal (savedTabs v))
        @ concat (map (map rw_id \<circ> snd) (map (\<lambda>(k, w). (k, savedRows (savedTabs w) (scopeOf k w loaded))) (filter P V)))"
      using True x savedRows_ids by simp
    have c: "set (concat (map (entitiesOf \<circ> snd) (x # V))) = set (entitiesOf v) \<union> set (concat (map (entitiesOf \<circ> snd) V))"
      by (simp add: x)
    show ?thesis unfolding e c distinct_append set_append using ih dv apart unfolding sv by blast
  next
    case False
    then have e: "filter P (x # V) = filter P V" by simp
    have c: "set (concat (map (entitiesOf \<circ> snd) V)) \<subseteq> set (concat (map (entitiesOf \<circ> snd) (x # V)))" by auto
    show ?thesis unfolding e using ih(1) subset_trans [OF ih(2) c] by blast
  qed
qed simp

lemma saved_session:
  assumes st: "storable loaded" and w: "(k, w) \<in> set (md_workspaces (ld_layout loaded))"
    and s: "session = saveWorkspaceLayout False loaded"
  shows "ws_tabs w \<noteq> [] \<Longrightarrow> savedAt loaded session (resolveTerminalHomes session) k w"
    and "ws_tabs w \<noteq> [] \<Longrightarrow> k \<in> set (workspaceKeys session)"
    and "ws_tabs w = [] \<Longrightarrow> savedWorkspaceAt session k (resolveTerminalHomes session) [] (scopeOf k w loaded) []"
proof -
  let ?W = "md_workspaces (ld_layout loaded)"
  let ?maps = "foldl (saveWorkspace False loaded) (emptyMaps (ld_carried loaded)) ?W"
  let ?scope = "scopeOf k w loaded" and ?ts = "tabsInOrder w"
  note d = storable_keys(1) [OF st]
  note wf = storable_keys(2) [OF st]
  have fields: "sx_tabsByWorktree session = wm_tabsByWorktree ?maps" "sx_terminalLayoutsByTabId session = wm_terminalLayoutsByTabId ?maps"
    "sx_unifiedTabs session = Some (wm_unifiedTabs ?maps)" "sx_tabGroups session = Some (wm_tabGroups ?maps)"
    "sx_tabGroupLayouts session = Some (wm_tabGroupLayouts ?maps)" "sx_openFilesByWorktree session = Some (wm_openFilesByWorktree ?maps)"
    "sx_browserTabsByWorktree session = Some (wm_browserTabsByWorktree ?maps)"
    unfolding s saveWorkspaceLayout_def Let_def by simp_all
  have st_tabs: "savedTabs v = tabsInOrder v" "mset (savedTabs v) = mset (ws_tabs v)" if "(i, v) \<in> set ?W" for i v
    using savedTabs_wf [OF wf [OF that]] tabsInOrder_mset [OF wf [OF that]] by simp_all
  define L where "L = map (\<lambda>(k, w). (k, savedRows (savedTabs w) (scopeOf k w loaded))) (filter (rowsKept loaded) ?W)"
  have rows: "sx_tabsByWorktree session = L"
    unfolding fields(1) L_def using saved_rows [OF d, of "emptyMaps (ld_carried loaded)" False loaded] by (simp add: emptyMaps_def)
  have Lids: "distinct (concat (map (map rw_id \<circ> snd) L))"
  proof -
    have "\<forall>x\<in>set ?W. mset (savedTabs (snd x)) = mset (ws_tabs (snd x))" using st_tabs(2) by auto
    from saved_row_ids [OF storableD(2) [OF st] this, where P = "rowsKept loaded" and loaded = loaded] show ?thesis unfolding L_def by blast
  qed
  have homes: "map_of (resolveTerminalHomes session) (rw_id r) = Some i" if "(i, rs) \<in> set L" "r \<in> set rs" for i rs r
  proof -
    have "\<forall>(k, rows)\<in>set L. \<forall>r\<in>set rows. map_of (resolveTerminalHomes session) (rw_id r) = Some k"
      using homes_walk [OF Lids, of "[]" session] rows by (simp add: resolveTerminalHomes_def)
    with that show ?thesis by fast
  qed
  have dL: "distinct (map fst L)" using d unfolding L_def
    by (simp add: case_prod_unfold comp_def distinct_map_filter)
  have rowsAt: "rowsOf session k = savedRows (savedTabs w) ?scope"
  proof (cases "rowsKept loaded (k, w)")
    case True
    with w have "(k, savedRows (savedTabs w) ?scope) \<in> set L" unfolding L_def by force
    with dL show ?thesis by (simp add: rowsOf_def rows)
  next
    case False
    then have e: "savedRows (savedTabs w) ?scope = []" by (simp add: rowsKept_def)
    have "k \<notin> fst ` set L"
    proof
      assume "k \<in> fst ` set L"
      then obtain v where "(k, v) \<in> set ?W" "rowsKept loaded (k, v)" unfolding L_def by auto
      with w d have "v = w" by (metis eq_key_imp_eq_value)
      with False \<open>rowsKept loaded (k, v)\<close> show False by simp
    qed
    then have "map_of L k = None" by (simp add: map_of_eq_None_iff)
    with e show ?thesis by (simp add: rowsOf_def rows)
  qed
  have drows: "distinct (map rw_id (rowsOf session k))" "\<forall>r\<in>set (rowsOf session k). map_of (resolveTerminalHomes session) (rw_id r) = Some k"
  proof -
    have "rowsOf session k = [] \<or> (k, rowsOf session k) \<in> set L"
      by (cases "map_of L k") (auto simp: rowsOf_def rows dest: map_of_SomeD)
    then show "distinct (map rw_id (rowsOf session k))" "\<forall>r\<in>set (rowsOf session k). map_of (resolveTerminalHomes session) (rw_id r) = Some k"
      using Lids homes by (auto simp: distinct_concat_iff)
  qed
  note taken = takeRows_all [OF drows]
  note look = saved_lookups_at [OF d w, of False loaded "emptyMaps (ld_carried loaded)"]
  have wg: "wf_groups {} (tabIds w) (ws_groups w)" "distinct (tabIds w)" using wf [OF w] by (simp_all add: wf_workspace_def)
  note g = savedGroupsOf_wf [OF wf [OF w], of loaded k]
  have entities: "distinct (map tb_entityId (filter isTerminal ?ts))"
  proof -
    have "distinct (entitiesOf w)" using distinct_concat_split storableD(2) [OF st] w by (auto simp: distinct_concat_iff)
    moreover have "mset (map tb_entityId (filter isTerminal ?ts)) = mset (entitiesOf w)"
      using tabsInOrder_mset [OF wf [OF w]] unfolding entitiesOf_def by (metis mset_filter mset_map)
    ultimately show ?thesis by (metis mset_eq_imp_distinct_iff)
  qed
  show "savedAt loaded session (resolveTerminalHomes session) k w" "k \<in> set (workspaceKeys session)" if some: "ws_tabs w \<noteq> []"
  proof -
    have "ws_groups w \<noteq> []" using wg(1) some by (auto simp: wf_groups_def)
    then have gne: "savedGroupsOf loaded k w \<noteq> []" using g(1) by simp
    have placed: "set (map tb_id ?ts) \<subseteq> set (concat (map gr_tabOrder (ws_groups w)))"
      unfolding tabsInOrder_ids [OF wf [OF w]] by simp
    have "entriesOf session k = map (entryOf False (ws_groups w) ?scope) ?ts"
      using look(1) gne savedEntries_placed [OF placed] st_tabs(1) [OF w] by (simp add: entriesOf_def fields)
    moreover have "distinct (map tb_id ?ts)" using tabsInOrder_ids [OF wf [OF w]] wg by (simp add: wf_groups_def)
    moreover have "map_of (sx_terminalLayoutsByTabId session) (tb_entityId t) = Some (saveTerminalLayout t panes ?scope)"
      if "t \<in> set ?ts" "tb_body t = TerminalBody creation panes" for t creation panes
    proof -
      have "t \<in> set (ws_tabs w)" using that(1) mset_eq_setD [OF tabsInOrder_mset [OF wf [OF w]]] by simp
      from saved_layouts [OF storableD(2) [OF st] w this that(2) st_tabs(2)] show ?thesis unfolding fields .
    qed
    moreover have "takeRows session k (resolveTerminalHomes session) = savedRows ?ts ?scope"
      unfolding taken rowsAt st_tabs(1) [OF w] ..
    ultimately have "savedWorkspaceAt session k (resolveTerminalHomes session) (ws_groups w) ?scope ?ts"
      unfolding savedWorkspaceAt_def using entities by blast
    moreover have "groupsOf session k = savedGroupsOf loaded k w" using look(2) gne by (simp add: groupsOf_def fields)
    ultimately show "savedAt loaded session (resolveTerminalHomes session) k w"
      unfolding savedAt_def using look(3-5) gne rowsAt st_tabs(1) [OF w]
      by (auto simp: fields emptyMaps_def)
    have "lookupOpt (sx_tabGroups session) k = Some (savedGroupsOf loaded k w)" using look(2) gne by (simp add: fields)
    then have "k \<in> set (keysOf (sx_tabGroups session))" by (rule lookupOpt_SomeD)
    then show "k \<in> set (workspaceKeys session)" by (simp add: workspaceKeys_def)
  qed
  show "savedWorkspaceAt session k (resolveTerminalHomes session) [] ?scope []" if none: "ws_tabs w = []"
  proof -
    have "ws_groups w = []" using wg(1) none by (cases "ws_groups w") (auto simp: wf_groups_def)
    then have "savedGroupsOf loaded k w = []" using g(1) by simp
    then have "entriesOf session k = []" using look(1) by (simp add: entriesOf_def fields emptyMaps_def)
    moreover have "savedRows [] ?scope = []" by (simp add: savedRows_def terminalParts_def)
    moreover have "savedTabs w = []" using st_tabs(2) [OF w] none by simp
    ultimately show ?thesis unfolding savedWorkspaceAt_def taken rowsAt by simp
  qed
qed

lemma keys_sub: "(\<And>k. k \<notin> A \<Longrightarrow> map_of r k = None) \<Longrightarrow> fst ` set r \<subseteq> A"
  by (auto simp: map_of_eq_None_iff)

lemma saved_workspaceKeys:
  assumes st: "storable loaded" and s: "session = saveWorkspaceLayout False loaded"
  shows "set (workspaceKeys session) \<subseteq> fst ` set (md_workspaces (ld_layout loaded))"
proof -
  let ?W = "md_workspaces (ld_layout loaded)"
  let ?maps = "foldl (saveWorkspace False loaded) (emptyMaps (ld_carried loaded)) ?W"
  note d = storable_keys(1) [OF st]
  have fields: "sx_tabsByWorktree session = wm_tabsByWorktree ?maps"
    "sx_unifiedTabs session = Some (wm_unifiedTabs ?maps)" "sx_tabGroups session = Some (wm_tabGroups ?maps)"
    "sx_tabGroupLayouts session = Some (wm_tabGroupLayouts ?maps)" "sx_openFilesByWorktree session = Some (wm_openFilesByWorktree ?maps)"
    "sx_browserTabsByWorktree session = Some (wm_browserTabsByWorktree ?maps)"
    unfolding s saveWorkspaceLayout_def Let_def by simp_all
  note no = saved_keys_at [OF d, of _ False loaded "emptyMaps (ld_carried loaded)"]
  have rows: "fst ` set (wm_tabsByWorktree ?maps) \<subseteq> fst ` set ?W"
    using saved_rows [OF d, of "emptyMaps (ld_carried loaded)" False loaded] by (force simp: emptyMaps_def)
  have "fst ` set (wm_unifiedTabs ?maps) \<subseteq> fst ` set ?W" "fst ` set (wm_tabGroups ?maps) \<subseteq> fst ` set ?W"
    "fst ` set (wm_tabGroupLayouts ?maps) \<subseteq> fst ` set ?W" "fst ` set (wm_openFilesByWorktree ?maps) \<subseteq> fst ` set ?W"
    "fst ` set (wm_browserTabsByWorktree ?maps) \<subseteq> fst ` set ?W"
    by (rule keys_sub, use no in \<open>simp add: emptyMaps_def\<close>)+
  with rows show ?thesis by (auto simp: workspaceKeys_def fields keysOf_def)
qed

section \<open>Loading every workspace again\<close>

definition reloadedAs :: "workspaceLayout \<Rightarrow> workspaceLayout \<Rightarrow> bool" where
  "reloadedAs w v \<longleftrightarrow> (if ws_tabs w = [] then ws_tabs v = [] \<and> ws_leaves v = None else v = reloaded w)"

lemma loadWorkspace_empty:
  assumes saved: "savedWorkspaceAt session k homes [] scope []" and l: "loadWorkspace False session ctx homes s k = (w', s')"
  shows "ws_tabs w' = []" "ws_leaves w' = None" "map_of (lo_layouts s') e = map_of (lo_layouts s) e"
proof -
  let ?p = "loadTabs False session ctx k homes s"
  note p = walkedOkD [OF loadTabs_saved [OF saved, of s ctx]]
  define view1 where "view1 = foldl (viewGroup (duplicateEditorTabAliases False (entriesOf session k)) k) (lo_view (lt_state ?p)) (groupsOf session k)"
  obtain files tabs view2 where f: "loadEditorFiles False k (lookupOpt (sx_openFilesByWorktree session) k) (resolveWorktreeId session k) (lt_tabs ?p) view1
     = (files, tabs, view2)" by (metis prod_cases3)
  from loadEditorFiles_core [OF f] p(1) have t: "tabs = []" by simp
  show "ws_tabs w' = []" "ws_leaves w' = None" "map_of (lo_layouts s') e = map_of (lo_layouts s) e"
    using l f t p(7) [of e] unfolding loadWorkspace_def Let_def view1_def [symmetric] by (auto split: prod.splits)
qed

definition loadedAgain :: "loadedLayout \<Rightarrow> string list \<Rightarrow> (string \<times> workspaceLayout) list \<Rightarrow> (string \<times> layoutSnapshot) list \<Rightarrow> bool" where
  "loadedAgain loaded keys V layouts \<longleftrightarrow> map fst V = keys
     \<and> (\<forall>(k, v)\<in>set V. \<exists>w. (k, w) \<in> set (md_workspaces (ld_layout loaded)) \<and> reloadedAs w v
        \<and> (\<forall>t\<in>set (ws_tabs w). \<forall>creation panes. tb_body t = TerminalBody creation panes
             \<longrightarrow> map_of layouts (tb_entityId t) = Some (saveTerminalLayout t panes (scopeOf k w loaded))))"

lemma loadedAgainD:
  assumes "loadedAgain loaded keys V layouts" "(k, v) \<in> set V"
  obtains w where "(k, w) \<in> set (md_workspaces (ld_layout loaded))" "reloadedAs w v"
    "\<And>t creation panes. t \<in> set (ws_tabs w) \<Longrightarrow> tb_body t = TerminalBody creation panes
       \<Longrightarrow> map_of layouts (tb_entityId t) = Some (saveTerminalLayout t panes (scopeOf k w loaded))"
  using assms unfolding loadedAgain_def by fast

lemma entities_apart:
  assumes st: "storable loaded" and w: "(k, w) \<in> set (md_workspaces (ld_layout loaded))" "(i, v) \<in> set (md_workspaces (ld_layout loaded))"
    and t: "t \<in> set (ws_tabs w)" "isTerminal t" and ne: "i \<noteq> k"
  shows "tb_entityId t \<notin> set (map tb_entityId (filter isTerminal (ws_tabs v)))"
proof -
  have "(k, w) \<noteq> (i, v)" using ne by simp
  from distinct_concat_apart [OF storableD(2) [OF st] w this] t show ?thesis by (auto simp: entitiesOf_def)
qed

lemma loadedAgain_step:
  assumes st: "storable loaded" and s: "session = saveWorkspaceLayout False loaded"
    and views: "lx_editorViewsOf ctx = None"
    and ok: "loadedAgain loaded keys V (lo_layouts s0)" and new: "k \<notin> set keys" and w: "(k, w) \<in> set (md_workspaces (ld_layout loaded))"
    and l: "loadWorkspace False session ctx (resolveTerminalHomes session) s0 k = (v, s1)"
  shows "loadedAgain loaded (keys @ [k]) (AList.update k v V) (lo_layouts s1)"
proof -
  have keys: "map fst V = keys" using ok by (simp add: loadedAgain_def)
  then have ks: "fst ` set V = set keys" by (metis list.set_map)
  with new have upd: "AList.update k v V = V @ [(k, v)]" by (intro map_snd_update_new) simp
  have "reloadedAs w v \<and> (\<forall>t\<in>set (ws_tabs w). \<forall>creation panes. tb_body t = TerminalBody creation panes
             \<longrightarrow> map_of (lo_layouts s1) (tb_entityId t) = Some (saveTerminalLayout t panes (scopeOf k w loaded)))
     \<and> (\<forall>e. e \<notin> set (map tb_entityId (filter isTerminal (ws_tabs w))) \<longrightarrow> map_of (lo_layouts s1) e = map_of (lo_layouts s0) e)"
  proof (cases "ws_tabs w = []")
    case True
    note E = loadWorkspace_empty [OF saved_session(3) [OF st w s True] l]
    from E True show ?thesis by (simp add: reloadedAs_def)
  next
    case False
    note E = loadWorkspace_saved [OF storable_keys(2) [OF st w] False saved_session(1) [OF st w s False] views l]
    show ?thesis using E False by (simp add: reloadedAs_def)
  qed
  then have v: "reloadedAs w v" "\<And>t creation panes. t \<in> set (ws_tabs w) \<Longrightarrow> tb_body t = TerminalBody creation panes
             \<Longrightarrow> map_of (lo_layouts s1) (tb_entityId t) = Some (saveTerminalLayout t panes (scopeOf k w loaded))"
    "\<And>e. e \<notin> set (map tb_entityId (filter isTerminal (ws_tabs w))) \<Longrightarrow> map_of (lo_layouts s1) e = map_of (lo_layouts s0) e" by blast+
  have old: "\<exists>w'. (i, w') \<in> set (md_workspaces (ld_layout loaded)) \<and> reloadedAs w' u
        \<and> (\<forall>t\<in>set (ws_tabs w'). \<forall>creation panes. tb_body t = TerminalBody creation panes
             \<longrightarrow> map_of (lo_layouts s1) (tb_entityId t) = Some (saveTerminalLayout t panes (scopeOf i w' loaded)))"
    if u: "(i, u) \<in> set V" for i u
  proof -
    from loadedAgainD [OF ok u] obtain w' where w': "(i, w') \<in> set (md_workspaces (ld_layout loaded))" "reloadedAs w' u"
      "\<And>t creation panes. t \<in> set (ws_tabs w') \<Longrightarrow> tb_body t = TerminalBody creation panes
       \<Longrightarrow> map_of (lo_layouts s0) (tb_entityId t) = Some (saveTerminalLayout t panes (scopeOf i w' loaded))" by blast
    have ne: "k \<noteq> i" using u ks new by (metis fst_conv image_eqI)
    have "map_of (lo_layouts s1) (tb_entityId t) = Some (saveTerminalLayout t panes (scopeOf i w' loaded))"
      if "t \<in> set (ws_tabs w')" "tb_body t = TerminalBody creation panes" for t creation panes
    proof -
      have "isTerminal t" using that(2) by (simp add: isTerminal_def)
      from v(3) [OF entities_apart [OF st w'(1) w that(1) this ne]] w'(3) [OF that] show ?thesis by simp
    qed
    with w'(1,2) show ?thesis by blast
  qed
  have "\<exists>w'. (k, w') \<in> set (md_workspaces (ld_layout loaded)) \<and> reloadedAs w' v
        \<and> (\<forall>t\<in>set (ws_tabs w'). \<forall>creation panes. tb_body t = TerminalBody creation panes
             \<longrightarrow> map_of (lo_layouts s1) (tb_entityId t) = Some (saveTerminalLayout t panes (scopeOf k w' loaded)))"
    using w v(1,2) by blast
  with old keys show ?thesis unfolding loadedAgain_def upd by auto
qed

lemma loadedAgain_all:
  assumes st: "storable loaded" and s: "session = saveWorkspaceLayout False loaded" and views: "lx_editorViewsOf ctx = None"
    and l: "loadedWorkspaces False session ctx s0 = (V, s1)"
  shows "loadedAgain loaded (workspaceKeys session) V (lo_layouts s1)"
proof -
  let ?step = "\<lambda>(workspaces, s) key. let (ws, s') = loadWorkspace False session ctx (resolveTerminalHomes session) s key
         in (AList.update key ws workspaces, s')"
  have "loadedAgain loaded (done' @ keys) V (lo_layouts s1)"
    if "loadedAgain loaded done' V0 (lo_layouts s2)" "distinct (done' @ keys)"
      "set keys \<subseteq> fst ` set (md_workspaces (ld_layout loaded))" "foldl ?step (V0, s2) keys = (V, s1)" for done' keys V0 s2
    using that
  proof (induction keys arbitrary: done' V0 s2)
    case (Cons k keys)
    obtain v s3 where v: "loadWorkspace False session ctx (resolveTerminalHomes session) s2 k = (v, s3)" by force
    from Cons.prems(3) obtain w where w: "(k, w) \<in> set (md_workspaces (ld_layout loaded))" by auto
    have "k \<notin> set done'" using Cons.prems(2) by simp
    from Cons.IH [OF loadedAgain_step [OF st s views Cons.prems(1) this w v]] Cons.prems(2-4) v show ?case by simp
  qed simp
  from this [of "[]" "[]" s0 "workspaceKeys session"] saved_workspaceKeys [OF st s] l show ?thesis
    by (simp add: loadedWorkspaces_def loadedAgain_def workspaceKeys_def)
qed

section \<open>The round trip\<close>

lemma distinct_concat_sub:
  assumes "distinct (concat (map f ys))" "set xs \<subseteq> set ys" "distinct xs"
  shows "distinct (concat (map f xs))"
  using assms(2,3)
proof (induction xs)
  case (Cons x xs)
  have x: "x \<in> set ys" using Cons.prems(1) by simp
  then have "distinct (f x)" using assms(1) by (auto simp: distinct_concat_iff)
  moreover have "set (f x) \<inter> set (concat (map f xs)) = {}"
  proof -
    have "set (f x) \<inter> set (f y) = {}" if y: "y \<in> set xs" for y
    proof -
      have "y \<in> set ys" "x \<noteq> y" using y Cons.prems by auto
      then show ?thesis using distinct_concat_apart [OF assms(1) x] by simp
    qed
    then show ?thesis by auto
  qed
  ultimately show ?case using Cons by simp
qed simp

lemma tabsInOrder_reloaded:
  assumes wf: "wf_workspace {} w" and v: "ws_tabs v = tabsInOrder w" "ws_groups v = ws_groups w"
  shows "tabsInOrder v = tabsInOrder w" "distinct (tabIds v)"
proof -
  have m: "mset (ws_tabs v) = mset (ws_tabs w)" unfolding v by (rule tabsInOrder_mset [OF wf])
  show d: "distinct (tabIds v)"
    using wf tabsInOrder_ids [OF wf] unfolding v by (simp add: wf_workspace_def wf_groups_def)
  show "tabsInOrder v = tabsInOrder w" by (rule tabsInOrder_perm [OF d m]) (simp add: v)
qed

lemma set_tabsInOrder: "set (tabsInOrder w) \<subseteq> set (ws_tabs w)"
  by (auto simp: tabsInOrder_def Let_def split: option.splits dest!: map_of_SomeD [OF sym])

lemma distinct_terminals: "(\<And>k w. (k, w) \<in> set W \<Longrightarrow> distinct (tabsInOrder w)) \<Longrightarrow> distinct (map fst W)
  \<Longrightarrow> distinct (concat (map (\<lambda>(k, w). map (Pair k) (filter isTerminal (tabsInOrder w))) W))"
proof -
  assume d: "\<And>k w. (k, w) \<in> set W \<Longrightarrow> distinct (tabsInOrder w)" and k: "distinct (map fst W)"
  then have "\<forall>(k, w)\<in>set W. distinct (map id (filter isTerminal (tabsInOrder w)))" by auto
  from distinct_pairs [OF k this] show ?thesis by simp
qed

text \<open>The terminal tabs that the loader walks are those of the layout.\<close>

lemma reloaded_terminals:
  assumes st: "storable loaded" and again: "loadedAgain loaded (workspaceKeys session) V layouts"
    and s: "session = saveWorkspaceLayout False loaded" and closed: "map withoutClosed W = map withoutClosed V"
    and m1: "md_workspaces m1 = W"
  shows "set (terminalTabsInOrder m1) = set (terminalsOf (md_workspaces (ld_layout loaded)))" "distinct (terminalTabsInOrder m1)"
    and "(k, t) \<in> set (terminalTabsInOrder m1) \<Longrightarrow> storedTabAt loaded layouts W k t"
    and "(k, v) \<in> set W \<Longrightarrow> ws_leaves v = None"
proof -
  let ?W = "md_workspaces (ld_layout loaded)"
  have keys: "distinct (map fst W)"
  proof -
    have "map fst U = map fst (map withoutClosed U)" for U by (simp add: withoutClosed_def case_prod_unfold comp_def)
    then have "map fst W = map fst V" using closed by metis
    also have "\<dots> = workspaceKeys session" using again by (simp add: loadedAgain_def)
    finally show ?thesis by (simp add: workspaceKeys_def)
  qed
  have at: "\<exists>w. (k, w) \<in> set ?W \<and> (if ws_tabs w = [] then ws_tabs v = [] \<and> tabsInOrder v = []
        else ws_tabs v = tabsInOrder w \<and> tabsInOrder v = tabsInOrder w) \<and> ws_leaves v = None \<and> distinct (tabIds v)
      \<and> (\<forall>t\<in>set (ws_tabs w). \<forall>creation panes. tb_body t = TerminalBody creation panes
             \<longrightarrow> map_of layouts (tb_entityId t) = Some (saveTerminalLayout t panes (scopeOf k w loaded)))"
    if v: "(k, v) \<in> set W" for k v
  proof -
    obtain u where u: "(k, u) \<in> set V" "ws_tabs v = ws_tabs u" "ws_groups v = ws_groups u" "ws_leaves v = ws_leaves u"
      by (rule closed_at [OF closed v])
    from loadedAgainD [OF again u(1)] obtain w where w: "(k, w) \<in> set ?W" "reloadedAs w u"
      and lay: "\<And>t creation panes. t \<in> set (ws_tabs w) \<Longrightarrow> tb_body t = TerminalBody creation panes
       \<Longrightarrow> map_of layouts (tb_entityId t) = Some (saveTerminalLayout t panes (scopeOf k w loaded))" by blast
    have wf: "wf_workspace {} w" by (rule storable_keys(2) [OF st w(1)])
    show ?thesis
    proof (cases "ws_tabs w = []")
      case True
      then have "ws_tabs v = []" "ws_leaves v = None" using w(2) u by (simp_all add: reloadedAs_def)
      moreover have "tabsInOrder v = []" using set_tabsInOrder [of v] \<open>ws_tabs v = []\<close> by simp
      ultimately show ?thesis using w(1) True by (intro exI [of _ w]) simp
    next
      case False
      then have "u = reloaded w" using w(2) by (simp add: reloadedAs_def)
      then have e: "ws_tabs v = tabsInOrder w" "ws_groups v = ws_groups w" "ws_leaves v = None"
        using u by (simp_all add: reloaded_def)
      from tabsInOrder_reloaded [OF wf e(1,2)] e False w(1) lay show ?thesis by (intro exI [of _ w]) simp
    qed
  qed
  have xs: "set (terminalTabsInOrder m1) = {(k, t) | k v t. (k, v) \<in> set W \<and> t \<in> set (tabsInOrder v) \<and> isTerminal t}"
    unfolding terminalTabsInOrder_def m1 by (auto 4 4)
  show "distinct (terminalTabsInOrder m1)"
  proof -
    have "distinct (tabsInOrder v)" if v: "(k, v) \<in> set W" for k v
    proof -
      from at [OF v] obtain w where w: "(k, w) \<in> set ?W" "tabsInOrder v = [] \<or> tabsInOrder v = tabsInOrder w" by (auto split: if_splits)
      have "distinct (map tb_id (tabsInOrder w))"
        using tabsInOrder_ids [OF storable_keys(2) [OF st w(1)]] storable_keys(2) [OF st w(1)] by (simp add: wf_workspace_def wf_groups_def)
      then have "distinct (tabsInOrder w)" by (simp add: distinct_map)
      with w(2) show ?thesis by auto
    qed
    with keys show ?thesis unfolding terminalTabsInOrder_def m1 by (intro distinct_terminals)
  qed
  show "ws_leaves v = None" if "(k, v) \<in> set W" using at [OF that] by blast
  have fwd: "\<exists>w. (k, w) \<in> set ?W \<and> t \<in> set (ws_tabs w) \<and> isTerminal t \<and> storedTabAt loaded layouts W k t"
    if kt: "(k, t) \<in> set (terminalTabsInOrder m1)" for k t
  proof -
    from kt xs obtain v where v: "(k, v) \<in> set W" "t \<in> set (tabsInOrder v)" "isTerminal t" by blast
    from at [OF v(1)] obtain w where w: "(k, w) \<in> set ?W" "(if ws_tabs w = [] then ws_tabs v = [] \<and> tabsInOrder v = []
        else ws_tabs v = tabsInOrder w \<and> tabsInOrder v = tabsInOrder w)" "distinct (tabIds v)"
      "\<forall>t\<in>set (ws_tabs w). \<forall>creation panes. tb_body t = TerminalBody creation panes
             \<longrightarrow> map_of layouts (tb_entityId t) = Some (saveTerminalLayout t panes (scopeOf k w loaded))" by blast
    have ne: "ws_tabs w \<noteq> []" using w(2) v(2) by (auto split: if_splits)
    with w(2) have e: "ws_tabs v = tabsInOrder w" "tabsInOrder v = tabsInOrder w" by simp_all
    have t: "t \<in> set (ws_tabs w)" using v(2) e(2) set_tabsInOrder by auto
    obtain creation panes where body: "tb_body t = TerminalBody creation panes" using v(3) by (auto simp: isTerminal_def split: tab_body.splits)
    have "workspaceAt (ld_layout loaded) k = Some w" using w(1) storable_keys(1) [OF st] by simp
    moreover have "map_of W k = Some v" using v(1) keys by simp
    moreover have "t \<in> set (ws_tabs v)" using v(2) e by simp
    ultimately have "storedTabAt loaded layouts W k t"
      unfolding storedTabAt_def using body w(3,4) t storable_leaf [OF st] by blast
    with w(1) t v(3) show ?thesis by blast
  qed
  show "storedTabAt loaded layouts W k t" if "(k, t) \<in> set (terminalTabsInOrder m1)" using fwd [OF that] by blast
  have "(k, t) \<in> set (terminalTabsInOrder m1)" if kt: "(k, w) \<in> set ?W" "t \<in> set (ws_tabs w)" "isTerminal t" for k w t
  proof -
    have ne: "ws_tabs w \<noteq> []" using kt(2) by auto
    have "k \<in> set (workspaceKeys session)" by (rule saved_session(2) [OF st kt(1) s ne])
    moreover have "map fst V = workspaceKeys session" using again by (simp add: loadedAgain_def)
    moreover have "map fst W = map fst V"
    proof -
      have "map fst U = map fst (map withoutClosed U)" for U by (simp add: withoutClosed_def case_prod_unfold comp_def)
      then show ?thesis using closed by metis
    qed
    ultimately have "k \<in> fst ` set W" by (metis list.set_map)
    then obtain v where v: "(k, v) \<in> set W" by auto
    from at [OF v] obtain w' where w': "(k, w') \<in> set ?W" "(if ws_tabs w' = [] then ws_tabs v = [] \<and> tabsInOrder v = []
        else ws_tabs v = tabsInOrder w' \<and> tabsInOrder v = tabsInOrder w')" by blast
    have "w' = w" using w'(1) kt(1) storable_keys(1) [OF st] by (metis eq_key_imp_eq_value)
    with w'(2) ne have "tabsInOrder v = tabsInOrder w" by simp
    moreover have "t \<in> set (tabsInOrder w)"
      using kt(2) mset_eq_setD [OF tabsInOrder_mset [OF storable_keys(2) [OF st kt(1)]]] by simp
    ultimately show ?thesis unfolding xs using v kt(3) by auto
  qed
  then have "set (terminalsOf ?W) \<subseteq> set (terminalTabsInOrder m1)" unfolding set_terminalsOf by blast
  moreover have "set (terminalTabsInOrder m1) \<subseteq> set (terminalsOf ?W)"
  proof (rule subrelI)
    fix k t assume "(k, t) \<in> set (terminalTabsInOrder m1)"
    from fwd [OF this] show "(k, t) \<in> set (terminalsOf ?W)" unfolding set_terminalsOf by blast
  qed
  ultimately show "set (terminalTabsInOrder m1) = set (terminalsOf ?W)" by blast
qed

end
