(* ===== verification/Layout_Roundtrip.thy ===== *)
theory Layout_Roundtrip
  imports Saved_Session
begin

text \<open>
  A layout that is saved and loaded again is the layout that was saved: its tabs, groups, files,
  browser tabs and the data of its panes.
\<close>

section \<open>Panes of the walk and panes of the layout\<close>

lemma terminals_leafIds: "concat (map (leafIdsOf \<circ> snd) (terminalsOf W)) = concat (map (paneIds \<circ> snd) W)"
proof -
  have "concat (map leafIdsOf (filter isTerminal ts)) = concat (map leafIdsOf ts)" for ts
    by (induction ts) (auto simp: isTerminal_def split: tab_body.splits)
  then show ?thesis by (induction W) (auto simp: terminalsOf_def paneIds_def comp_def)
qed

lemma terminals_keys: "pendingKeys (terminalsOf W) = concat (map (\<lambda>w. concat (map tabKeys (ws_tabs w))) (map snd W))"
proof -
  have "concat (map tabKeys (filter isTerminal ts)) = concat (map tabKeys ts)" for ts
    by (induction ts) (auto simp: isTerminal_def tabKeys_def split: tab_body.splits)
  then show ?thesis
    by (induction W) (auto simp: terminalsOf_def pendingKeys_def comp_def tabKeys_def [symmetric])
qed

lemma pendingPanes_cong: "set xs = set ys \<Longrightarrow> pendingPanes xs = pendingPanes ys"
  by (simp add: pendingPanes_def)

lemma paneAt_at: "workspaceAt m k = Some w \<Longrightarrow> paneAt m (k, l) = leafAt w l"
  by (simp add: paneAt_def)

lemma paneAt_none: "workspaceAt m k = None \<Longrightarrow> paneAt m (k, l) = None"
  by (simp add: paneAt_def emptyWorkspace_def)

lemma unpending_pane:
  assumes st: "storable loaded" and x: "x \<notin> pendingPanes (terminalsOf (md_workspaces (ld_layout loaded)))"
  shows "paneAt (ld_layout loaded) x = None"
proof (rule ccontr)
  obtain k l where kl: "x = (k, l)" by force
  assume "paneAt (ld_layout loaded) x \<noteq> None"
  then obtain w leaf where w: "workspaceAt (ld_layout loaded) k = Some w" "leafAt w l = Some leaf"
    by (cases "workspaceAt (ld_layout loaded) k") (auto simp: kl paneAt_at paneAt_none)
  have mem: "(k, w) \<in> set (md_workspaces (ld_layout loaded))" using w(1) by (rule map_of_SomeD)
  have "l \<in> set (paneIds w)"
    using storable_keys(2) [OF st mem] lookupOpt_SomeD [OF w(2)] by (auto simp: wf_workspace_def wf_leaves_def)
  then obtain t where t: "t \<in> set (ws_tabs w)" "l \<in> set (leafIdsOf t)" by (auto simp: set_paneIds)
  then have "isTerminal t" by (cases "tb_body t") (simp_all add: isTerminal_def)
  with mem t x show False unfolding kl pendingPanes_def set_terminalsOf by blast
qed

lemma terminalTabs_withoutLeaves:
  assumes "map withoutLeaves (md_workspaces m) = map withoutLeaves (md_workspaces n)"
  shows "terminalTabsInOrder m = terminalTabsInOrder n"
proof -
  have e: "terminalTabsInOrder p = concat (map (\<lambda>(k, w). map (Pair k) (filter isTerminal (tabsInOrder w))) (map withoutLeaves (md_workspaces p)))" for p
    by (simp add: terminalTabsInOrder_def withoutLeaves_def case_prod_unfold comp_def tabsInOrder_def)
  show ?thesis unfolding e [of m] e [of n] assms ..
qed

lemma set_panesInOrder: "set (panesInOrder m) = pendingPanes (terminalTabsInOrder m)"
  by (auto simp: panesInOrder_def pendingPanes_def)

lemma distinct_panes:
  assumes "distinct (concat (map (leafIdsOf \<circ> snd) (terminalTabsInOrder m)))"
  shows "distinct (panesInOrder m)"
proof -
  have e: "map snd (concat (map (\<lambda>(k, t). map (Pair k) (leafIdsOf t)) xs)) = concat (map (leafIdsOf \<circ> snd) xs)" for xs
    by (induction xs) (auto simp: comp_def)
  have "distinct (map snd (panesInOrder m))" unfolding panesInOrder_def e by (rule assms)
  then show ?thesis by (simp add: distinct_map)
qed

section \<open>Nothing is unbound\<close>

lemma withoutLeaves_unbind:
  "map withoutLeaves (md_workspaces (snd (foldl unbindIfOwned (owners, m) xs))) = map withoutLeaves (md_workspaces m)"
proof (induction xs arbitrary: owners m)
  case (Cons x xs)
  obtain owners1 m1 where s: "unbindIfOwned (owners, m) x = (owners1, m1)" by force
  obtain k l where x: "x = (k, l)" by force
  have "map withoutLeaves (md_workspaces m1) = map withoutLeaves (md_workspaces m)"
  proof (cases "workspaceAt m k")
    case None
    then have "paneAt m x = None" by (simp add: x paneAt_none)
    with s show ?thesis by (simp add: unbindIfOwned_eq)
  next
    case (Some w)
    then have "workspaceAt m k \<noteq> None" by simp
    from withoutLeaves_write [OF this] s show ?thesis
      by (auto simp: unbindIfOwned_eq x split: option.splits if_splits)
  qed
  with Cons.IH [of owners1 m1] s show ?case by simp
qed simp

lemma bindingAt_paneOr: "bindingAt m x = bindingOfLeaf (paneOr m x)"
  by (cases "paneAt m x") (simp_all add: bindingAt_def bindingOfLeaf_def paneOr_def emptyLeaf_def)

lemma unbind_same:
  assumes panes: "distinct (panesInOrder m)"
    and apart: "\<And>x y. x \<in> set (panesInOrder m) \<Longrightarrow> y \<in> set (panesInOrder m) \<Longrightarrow> x \<noteq> y
      \<Longrightarrow> \<not> isSameTerminal (bindingAt m x) (bindingAt m y)"
    and outside: "\<And>x. x \<notin> set (panesInOrder m) \<Longrightarrow> bd_ptyId (bindingAt m x) = None"
  shows "paneAt (unbindDuplicateTerminals m) x = paneAt m x"
proof (rule ccontr)
  assume ne: "paneAt (unbindDuplicateTerminals m) x \<noteq> paneAt m x"
  with unbind_unique(2) [OF panes refl] obtain y where lost: "paneAt (unbindDuplicateTerminals m) x = map_option withoutPty (paneAt m x)"
    and y: "y \<in> set (panesInOrder m)" "bindingAt (unbindDuplicateTerminals m) y = bindingAt m y"
      "isSameTerminal (bindingAt (unbindDuplicateTerminals m) y) (bindingAt m x)" by blast
  from isSameTerminal_bound [OF y(3)] have bound: "bd_ptyId (bindingAt m x) \<noteq> None" by blast
  have mem: "x \<in> set (panesInOrder m)"
  proof (rule ccontr)
    assume "x \<notin> set (panesInOrder m)"
    from outside [OF this] bound show False by simp
  qed
  show False
  proof (cases "y = x")
    case True
    have "bd_ptyId (bindingAt (unbindDuplicateTerminals m) x) = None"
      using lost by (cases "paneAt m x") (simp_all add: bindingAt_def withoutPty_def)
    with y(2) bound True show False by simp
  next
    case False
    with apart [OF y(1) mem] y(2,3) show False by simp
  qed
qed

section \<open>The round trip\<close>

lemma read_back_start:
  assumes st: "storable loaded" and s: "session = saveWorkspaceLayout False loaded"
    and same: "set xs = set (terminalsOf (md_workspaces (ld_layout loaded)))" and d: "distinct xs"
    and none: "\<And>x. paneAt m1 x = None"
  shows "readBack (ld_layout loaded) (md_workspaces m1) xs
     \<lparr>lz_layout = m1, lz_view = view, lz_facts = facts,
      lz_records = \<lparr>pr_sleeping = orElse (sx_sleepingAgentSessions session) [],
        pr_incarnations = orElse (sx_terminalPtyIncarnations session) []\<rparr>, lz_seen = []\<rparr>"
proof -
  let ?W = "md_workspaces (ld_layout loaded)"
  have or: "orElse (nonEmptyRecord r) [] = r" for r :: "(string \<times> 'v) list" by (simp add: nonEmptyRecord_def)
  have recs: "\<lparr>pr_sleeping = orElse (sx_sleepingAgentSessions session) [],
        pr_incarnations = orElse (sx_terminalPtyIncarnations session) []\<rparr> = stored (saveWorkspaceRecords loaded)"
    unfolding s saveWorkspaceLayout_def Let_def stored_def by (simp add: nonEmptyRecord_def)
  have keys: "distinct (map fst ?W)" by (rule storable_keys(1) [OF st])
  have dk: "distinct (pendingKeys xs)"
  proof -
    have e: "pendingKeys ys = concat (map (\<lambda>(k, t). map (paneKeyOf (tb_entityId t)) (leafIdsOf t)) ys)" for ys
      by (simp add: pendingKeys_def)
    have "distinct (pendingKeys (terminalsOf ?W))" unfolding terminals_keys by (rule storableD(3) [OF st])
    from distinct_concat_sub [OF this [unfolded e] equalityD1 [OF same] d] show ?thesis unfolding e .
  qed
  have "distinct (allPaneIds (ld_layout loaded))"
    using distinct_across [OF keys, of paneIds, folded allPaneIds_def] storableD(1) [OF st] storable_keys(2) [OF st]
    unfolding wf_model_def apart_def wf_workspace_def by fast
  then have "distinct (concat (map (leafIdsOf \<circ> snd) (terminalsOf ?W)))" unfolding terminals_leafIds allPaneIds_def .
  from distinct_concat_sub [OF this equalityD1 [OF same] d] have dl: "distinct (concat (map (leafIdsOf \<circ> snd) xs))" .
  have at: "recordsAt (stored (saveWorkspaceRecords loaded)) (paneKeyOf (tb_entityId t) l) (paneOr (ld_layout loaded) (k, l))"
    if t: "(k, t) \<in> set xs" "l \<in> set (leafIdsOf t)" for k t l
  proof -
    from t(1) same obtain w where w: "(k, w) \<in> set ?W" "t \<in> set (ws_tabs w)" unfolding set_terminalsOf by blast
    have kw: "workspaceAt (ld_layout loaded) k = Some w" using w(1) keys by simp
    have key: "paneKeyOf (tb_entityId t) l \<in> set (tabKeys t)" using t(2) by (simp add: tabKeys_def)
    have free: "freeAt (stored \<lparr>sv_sleeping = ca_unplacedSleepingRecords (ld_carried loaded),
        sv_incarnations = ca_unplacedIncarnations (ld_carried loaded),
        sv_closed = ca_unplacedClosedTabs (ld_carried loaded)\<rparr>) (paneKeyOf (tb_entityId t) l)"
      using storableD(4) [OF st w key] by (simp add: freeAt_def stored_def)
    have "w \<in> set (map snd ?W)" using w(1) by force
    from saveWorkspaceRecords_at [OF storableD(3) [OF st] this w(2) t(2) free]
    show ?thesis unfolding saveWorkspaceRecords_def paneOr_def paneAt_at [OF kw] .
  qed
  have out: "paneOr m1 x = paneOr (ld_layout loaded) x" if "x \<notin> pendingPanes xs" for x
    using unpending_pane [OF st that [unfolded pendingPanes_cong [OF same]]] none [of x] by (simp add: paneOr_def)
  show ?thesis unfolding readBack_def recs using dk dl at out none by auto
qed

lemma loadedAgain_at:
  "loadedAgain loaded keys V layouts \<Longrightarrow> (k, v) \<in> set V
     \<Longrightarrow> \<exists>w. (k, w) \<in> set (md_workspaces (ld_layout loaded)) \<and> reloadedAs w v"
  unfolding loadedAgain_def by fast

lemma round_trip:
  assumes st: "storable loaded" and s: "session = saveWorkspaceLayout False loaded"
    and views: "lx_editorViewsOf ctx = None" and gen: "\<And>l. lx_ptyGenerationOf ctx l = None"
    and m': "m' = ld_layout (loadWorkspaceLayoutWithoutReport False hostId session ctx)"
    and w: "workspaceAt (ld_layout loaded) k = Some w" and some: "ws_tabs w \<noteq> []"
  shows "\<exists>v. workspaceAt m' k = Some v \<and> v\<lparr>ws_leaves := None, ws_closedTerminalTabs := None\<rparr> = reloaded w
     \<and> (\<forall>l. orElse (leafAt v l) emptyLeaf = orElse (leafAt w l) emptyLeaf)"
proof -
  let ?W = "md_workspaces (ld_layout loaded)"
  obtain V s1 where V: "loadedWorkspaces False session ctx (loadStart session) = (V, s1)" by force
  note again = loadedAgain_all [OF st s views V]
  let ?m = "\<lparr>md_hostId = hostId, md_workspaces = V, md_records = loadRecords session, md_legacy = loadLegacy session\<rparr>"
  let ?carried = "carriedFields.extend (sx_carried session)
            (carriedSessionFields.fields (filter (\<lambda>(tabId, _). map_of (resolveTerminalHomes session) tabId = None)
              (sx_terminalLayoutsByTabId session)) [] [] [])"
  obtain m1 c1 where c: "placeClosedTabs session ?m ?carried = (m1, c1)" by force
  have closed: "map withoutClosed (md_workspaces m1) = map withoutClosed V"
    using placeClosedTabs_frame [of session ?m ?carried] c by simp
  note R = reloaded_terminals [OF st again s closed refl]
  let ?xs = "terminalTabsInOrder m1" and ?view = "followSubsumedTabSelections (lo_view s1) (lo_canonical s1)"
  have none: "paneAt m1 x = None" for x
  proof -
    obtain k l where x: "x = (k, l)" by force
    show ?thesis
    proof (cases "workspaceAt m1 k")
      case (Some v)
      with R(4) [OF map_of_SomeD [OF Some]] show ?thesis by (simp add: x paneAt_at)
    qed (simp add: x paneAt_none)
  qed
  let ?z = "loadLeaves ctx (lo_layouts s1) session m1 ?view (lo_facts s1)"
  have "readBack (ld_layout loaded) (md_workspaces m1) [] ?z"
    unfolding loadLeaves_def
    by (rule readBack_walk [OF read_back_start [OF st s R(1,2) none] R(3) gen])
  note z = readBackD [OF this]
  have z6: "paneOr (lz_layout ?z) x = paneOr (ld_layout loaded) x" for x by (rule z(6)) (simp add: pendingPanes_def)
  note same = terminalTabs_withoutLeaves [OF z(1)]
  have start: "distinct (concat (map (leafIdsOf \<circ> snd) ?xs))"
    using readBackD(2) [OF read_back_start [OF st s R(1,2) none]] by simp
  have panes: "distinct (panesInOrder (lz_layout ?z))" by (rule distinct_panes) (simp only: same start)
  have set: "set (panesInOrder (lz_layout ?z)) = pendingPanes (terminalsOf ?W)"
    unfolding set_panesInOrder same by (rule pendingPanes_cong [OF R(1)])
  have unbound: "paneAt (unbindDuplicateTerminals (lz_layout ?z)) x = paneAt (lz_layout ?z) x" for x
  proof (rule unbind_same [OF panes])
    show "\<not> isSameTerminal (bindingAt (lz_layout ?z) x) (bindingAt (lz_layout ?z) y)"
      if "x \<in> set (panesInOrder (lz_layout ?z))" "y \<in> set (panesInOrder (lz_layout ?z))" "x \<noteq> y" for x y
      unfolding bindingAt_paneOr z6 by (rule storableD(6) [OF st that [unfolded set]])
    show "bd_ptyId (bindingAt (lz_layout ?z) x) = None" if "x \<notin> set (panesInOrder (lz_layout ?z))" for x
      using unpending_pane [OF st that [unfolded set]] unfolding bindingAt_paneOr z6
      by (simp add: paneOr_def bindingOfLeaf_def emptyLeaf_def)
  qed
  let ?m3 = "unbindDuplicateTerminals (lz_layout ?z)"
  have "md_workspaces m' = md_workspaces ?m3"
    unfolding m' using V c by (simp add: loadWorkspaceLayoutWithoutReport_def Let_def loadStart_def case_prod_unfold
      applyLegacySurfaceTombstones_def s saveWorkspaceLayout_def)
  then have at: "workspaceAt m' k = workspaceAt ?m3 k" by simp
  have wl: "map withoutLeaves (md_workspaces ?m3) = map withoutLeaves (md_workspaces m1)"
    unfolding unbindDuplicateTerminals_def withoutLeaves_unbind by (rule z(1))
  have mem: "(k, w) \<in> set ?W" using w by (rule map_of_SomeD)
  have "k \<in> set (workspaceKeys session)" by (rule saved_session(2) [OF st mem s some])
  moreover have keysV: "map fst V = workspaceKeys session" using again by (simp add: loadedAgain_def)
  ultimately have "k \<in> fst ` set V" by (metis list.set_map)
  then obtain u where u: "(k, u) \<in> set V" by auto
  from loadedAgain_at [OF again u] obtain w' where w': "(k, w') \<in> set ?W" "reloadedAs w' u" by blast
  have "w' = w" using w'(1) mem storable_keys(1) [OF st] by (metis eq_key_imp_eq_value)
  with w'(2) some have u': "u = reloaded w" by (simp add: reloadedAs_def)
  have "map fst (md_workspaces m1) = map fst V"
  proof -
    have "map fst U = map fst (map withoutClosed U)" for U by (simp add: withoutClosed_def case_prod_unfold comp_def)
    then show ?thesis using closed by metis
  qed
  then have "k \<in> fst ` set (md_workspaces m1)" using u by (metis fst_conv image_eqI list.set_map)
  then obtain v1 where v1: "workspaceAt m1 k = Some v1" by (cases "workspaceAt m1 k") (auto simp: map_of_eq_None_iff)
  obtain v where v: "workspaceAt ?m3 k = Some v" "v\<lparr>ws_leaves := None\<rparr> = v1\<lparr>ws_leaves := None\<rparr>"
    by (rule withoutLeaves_some [OF wl v1])
  have "withoutClosed (k, v1) = withoutClosed (k, u)"
  proof -
    from map_eq_at [OF closed map_of_SomeD [OF v1]] obtain k' u' where "(k', u') \<in> set V" "withoutClosed (k, v1) = withoutClosed (k', u')" by auto
    moreover from this(2) have "k' = k" by (simp add: withoutClosed_def)
    moreover have "distinct (map fst V)" unfolding keysV workspaceKeys_def by simp
    ultimately show ?thesis using u by (metis eq_key_imp_eq_value)
  qed
  then have "v1\<lparr>ws_closedTerminalTabs := None\<rparr> = u\<lparr>ws_closedTerminalTabs := None\<rparr>" by (simp add: withoutClosed_def)
  with v(2) have "v\<lparr>ws_leaves := None, ws_closedTerminalTabs := None\<rparr> = u\<lparr>ws_leaves := None, ws_closedTerminalTabs := None\<rparr>"
    by (cases v; cases v1; cases u) simp
  also have "\<dots> = reloaded w" by (simp add: u' reloaded_def)
  finally have core: "v\<lparr>ws_leaves := None, ws_closedTerminalTabs := None\<rparr> = reloaded w" .
  have "orElse (leafAt v l) emptyLeaf = orElse (leafAt w l) emptyLeaf" for l
  proof -
    have "paneOr ?m3 (k, l) = paneOr (ld_layout loaded) (k, l)" using z6 [of "(k, l)"] unbound [of "(k, l)"] by (simp add: paneOr_def)
    then show ?thesis by (simp add: paneOr_def paneAt_at [OF v(1)] paneAt_at [OF w])
  qed
  with core at v(1) show ?thesis by auto
qed

end
