(* ===== verification/Load_Samples.thy ===== *)
theory Load_Samples
  imports Layout_Roundtrip View_Samples
begin

text \<open>
  Sessions the properties of loading and saving are run on: the session written for the sample host,
  and a stored session whose second terminal repeats a pane id and a terminal of the first.
\<close>

definition plainContext :: loadContext where
  "plainContext = \<lparr>lx_mintId = (\<lambda>s. ''new-'' @ s), lx_mintLeafId = (\<lambda>s. ''new-'' @ s),
     lx_ptyGenerationOf = (\<lambda>_. None), lx_editorViewsOf = None\<rparr>"

section \<open>The sample host, as it is stored\<close>

definition sampleLoaded :: loadedLayout where
  "sampleLoaded = \<lparr>ld_layout = sampleLayout, ld_desktopView = viewShowing ''t1'',
     ld_facts = \<lparr>fc_localOnlyScrollbackByTabId = None, fc_browserPagesByWorkspace = None, fc_tabLabels = [],
       fc_terminalRows = [], fc_scrollback = [], fc_browserTabs = []\<rparr>,
     ld_carried = \<lparr>ca_activeWorktreeIdsOnShutdown = None, ca_browserCloseIntents = None,
       ca_terminalCloseIntents = None, ca_browserUrlHistory = None, ca_workspaceDocHistory = None,
       ca_activeConnectionIdsAtShutdown = None, ca_remoteSessionIdsByTabId = None,
       ca_unownedTerminalLayouts = [], ca_unplacedSleepingRecords = [], ca_unplacedIncarnations = [],
       ca_unplacedClosedTabs = []\<rparr>\<rparr>"

lemma pendingPanes_list: "pendingPanes xs = set (concat (map (\<lambda>(k, t). map (Pair k) (leafIdsOf t)) xs))"
  by (auto simp: pendingPanes_def)

lemma sample_panes:
  "pendingPanes (terminalsOf (md_workspaces sampleLayout))
     = set [(''repo::main'', ''a''), (''repo::main'', ''b''), (''repo::main'', ''c''), (''repo::topic'', ''d'')]"
proof -
  have "concat (map (\<lambda>(k, t). map (Pair k) (leafIdsOf t)) (terminalsOf (md_workspaces sampleLayout)))
     = [(''repo::main'', ''a''), (''repo::main'', ''b''), (''repo::main'', ''c''), (''repo::topic'', ''d'')]"
    by code_simp
  then show ?thesis unfolding pendingPanes_list by (rule arg_cong)
qed

lemma sample_bindings:
  "bindingOfLeaf (paneOr sampleLayout (''repo::main'', ''a'')) = \<lparr>bd_ptyId = Some ''p1'', bd_incarnationId = Some ''i1''\<rparr>"
  "bindingOfLeaf (paneOr sampleLayout (''repo::main'', ''b'')) = \<lparr>bd_ptyId = None, bd_incarnationId = None\<rparr>"
  "bindingOfLeaf (paneOr sampleLayout (''repo::main'', ''c'')) = \<lparr>bd_ptyId = None, bd_incarnationId = None\<rparr>"
  "bindingOfLeaf (paneOr sampleLayout (''repo::topic'', ''d'')) = \<lparr>bd_ptyId = Some ''p2'', bd_incarnationId = None\<rparr>"
  by (simp_all add: paneOr_def paneAt_def workspaceOrEmpty_def sampleLayout_workspaces sample_defs bindingOfLeaf_def)

lemma storable_sample: "storable sampleLoaded"
proof -
  have "distinct (concat (map (entitiesOf \<circ> snd) (md_workspaces sampleLayout)))"
    "distinct (concat (map (\<lambda>w. concat (map tabKeys (ws_tabs w))) (map snd (md_workspaces sampleLayout))))"
    "\<forall>(k, w)\<in>set (md_workspaces sampleLayout). \<forall>(l, leaf)\<in>set (orElse (ws_leaves w) []). storableLeaf leaf"
    by (simp_all add: sampleLayout_workspaces sample_defs entitiesOf_def isTerminal_def tabKeys_def leafIdsOf_def
      paneKeyOf_def storableLeaf_def)
  moreover have "\<forall>x\<in>pendingPanes (terminalsOf (md_workspaces sampleLayout)).
      \<forall>y\<in>pendingPanes (terminalsOf (md_workspaces sampleLayout)).
        x \<noteq> y \<longrightarrow> \<not> isSameTerminal (bindingOfLeaf (paneOr sampleLayout x)) (bindingOfLeaf (paneOr sampleLayout y))"
    unfolding sample_panes by (simp add: sample_bindings isSameTerminal_def)
  ultimately show ?thesis
    using wf_sampleLayout by (simp add: storable_def Let_def sampleLoaded_def)
qed

section \<open>A session with a repeated pane and terminal\<close>

definition storedRow :: "string \<Rightarrow> terminalRow" where
  "storedRow i = saveTerminalRow (sampleTerminal i (Leaf ''a'')) noCreation \<lparr>tp_root = Some (Leaf ''a''), tp_chatLeafId = None\<rparr> 0
     (scopeOf ''repo::main'' sampleMain sampleLoaded)"

definition storedEntry :: "string \<Rightarrow> tabEntry" where
  "storedEntry i = saveTabBarEntry False (sampleTerminal i (Leaf ''a'')) ''g1'' 0 (scopeOf ''repo::main'' sampleMain sampleLoaded)"

definition storedPanes :: "string \<Rightarrow> split_node \<Rightarrow> layoutSnapshot" where
  "storedPanes p n = \<lparr>sl_root = Some n, sl_activeLeafId = Some ''a'', sl_expandedLeafId = None, sl_chatLeafId = None,
     sl_ptyIdsByLeafId = Some [(''a'', p)], sl_buffersByLeafId = None, sl_scrollbackRefsByLeafId = None,
     sl_titlesByLeafId = None, sl_lastGridsByLeafId = None\<rparr>"

definition doubledSession :: sessionState where
  "doubledSession = (saveWorkspaceLayout False (sampleLoaded\<lparr>ld_layout := emptyLayout ''local''\<rparr>))\<lparr>
     sx_tabsByWorktree := [(''repo::main'', [storedRow ''t1'', storedRow ''t2''])],
     sx_terminalLayoutsByTabId := [(''t1'', storedPanes ''p1'' (Split Vertical (Leaf ''a'') (Leaf ''b'') None)),
       (''t2'', storedPanes ''p1'' (Leaf ''a''))],
     sx_unifiedTabs := Some [(''repo::main'', [storedEntry ''t1'', storedEntry ''t2''])],
     sx_tabGroups := Some [(''repo::main'', [\<lparr>sg_id = ''g1'', sg_worktreeId = ''repo::main'', sg_activeTabId = None,
       sg_tabOrder = [''t1'', ''t2''], sg_recentTabIds = None\<rparr>])],
     sx_tabGroupLayouts := Some [(''repo::main'', Leaf ''g1'')]\<rparr>"

lemma doubled_keys: "workspaceKeys doubledSession = [''repo::main'']" by code_simp

lemma doubled_workspaces:
  "map (\<lambda>(k, w). (k, map (\<lambda>t. (tb_entityId t, leafIdsOf t)) (filter isTerminal (ws_tabs w)), paneIds w))
     (fst (loadedWorkspaces False doubledSession plainContext (loadStart doubledSession)))
   = [(''repo::main'', [(''t1'', [''a'', ''b'']), (''t2'', [''a''])], [''a'', ''b'', ''a''])]"
  by code_simp


text \<open>Ids with a mark in front are new.\<close>

lemma plain_new:
  "lx_mintId plainContext = append ''new-''" "lx_mintLeafId plainContext = append ''new-''"
  by (simp_all add: plainContext_def fun_eq_iff)

lemma doubled_records:
  "entriesOf doubledSession ''repo::main'' = [storedEntry ''t1'', storedEntry ''t2'']"
  "rowsOf doubledSession ''repo::main'' = [storedRow ''t1'', storedRow ''t2'']"
  by (simp_all add: doubledSession_def entriesOf_def rowsOf_def lookupOpt_def)

lemma stored_ids [simp]: "te_id (storedEntry i) = i" "rw_id (storedRow i) = i"
  by (simp_all add: storedEntry_def storedRow_def saveTabBarEntry_def saveTerminalRow_def sampleTerminal_def sampleTab_def)

lemma doubled_panes:
  "loadedPaneIds (fst (loadedWorkspaces False doubledSession plainContext (loadStart doubledSession))) \<subseteq> {''a'', ''b''}"
proof -
  let ?W = "fst (loadedWorkspaces False doubledSession plainContext (loadStart doubledSession))"
  have "snd (snd x) = [''a'', ''b'', ''a'']"
    if "x \<in> set (map (\<lambda>(k, w). (k, map (\<lambda>t. (tb_entityId t, leafIdsOf t)) (filter isTerminal (ws_tabs w)), paneIds w)) ?W)" for x
    using that unfolding doubled_workspaces by simp
  then have "paneIds w = [''a'', ''b'', ''a'']" if "(k, w) \<in> set ?W" for k w using that by force
  then show ?thesis by (auto simp: loadedPaneIds_def)
qed

lemma loadable_doubled: "loadable False doubledSession plainContext"
proof -
  have mint: "mintsNewTabs plainContext doubledSession ''repo::main''"
    by (auto simp: mintsNewTabs_def plain_new storedTabIds_def doubled_records inj_on_def)
  have tree: "treeNamesGroups doubledSession ''repo::main''"
    by (simp add: treeNamesGroups_def doubledSession_def groupsOf_def lookupOpt_def)
  have "mintsNewLeaves plainContext (loadedTerminals (fst (loadedWorkspaces False doubledSession plainContext (loadStart doubledSession))))
      (loadedPaneIds (fst (loadedWorkspaces False doubledSession plainContext (loadStart doubledSession))))"
    using doubled_panes by (auto simp: mintsNewLeaves_def plain_new inj_on_def)
  with mint tree show ?thesis by (simp add: loadable_def Let_def doubled_keys)
qed

lemma doubled_loaded:
  "panesInOrder (ld_layout (loadWorkspaceLayoutWithoutReport False ''local'' doubledSession plainContext))
     = [(''repo::main'', ''a''), (''repo::main'', ''b''), (''repo::main'', ''new-leaf:t2:0'')]"
  by code_simp

section \<open>A layout whose panes share a terminal\<close>

definition sharedTerminal :: workspaceLayoutModel where
  "sharedTerminal = withWorkspace sampleLayout ''repo::topic''
     (sampleTopic\<lparr>ws_leaves := Some [(''d'', emptyLeaf\<lparr>lf_ptyId := Some ''p1''\<rparr>)]\<rparr>)"

lemma wf_sharedTerminal: "wf_layout sharedTerminal"
proof -
  have at: "workspaceOrEmpty sampleLayout ''repo::topic'' = sampleTopic"
    by (simp add: workspaceOrEmpty_def sampleLayout_workspaces)
  have "wf_workspace {} (sampleTopic\<lparr>ws_leaves := Some [(''d'', emptyLeaf\<lparr>lf_ptyId := Some ''p1''\<rparr>)]\<rparr>)"
    by (simp add: sample_defs wf_workspace_def wf_groups_def wf_tree_def wf_leaves_def paneIds_def leafIdsOf_def)
  then show ?thesis
    unfolding sharedTerminal_def
    by (rule wf_withWorkspace_fresh [OF wf_sampleLayout, where T = "{}" and P = "{}"]) (simp_all add: at paneIds_def)
qed

lemma shared_panes:
  "panesInOrder sharedTerminal = [(''repo::main'', ''a''), (''repo::main'', ''b''), (''repo::main'', ''c''), (''repo::topic'', ''d'')]"
  "bindingAt sharedTerminal (''repo::topic'', ''d'') = \<lparr>bd_ptyId = Some ''p1'', bd_incarnationId = None\<rparr>"
  by code_simp+

text \<open>Two panes of one tab that hold one terminal.\<close>

definition twicePanes :: layoutSnapshot where
  "twicePanes = (storedPanes ''p1'' (Split Vertical (Leaf ''a'') (Leaf ''b'') None))\<lparr>
     sl_ptyIdsByLeafId := Some [(''a'', ''p1''), (''b'', ''p1'')]\<rparr>"

section \<open>A row whose terminal a tab of the tab bar holds\<close>

definition staleSession :: sessionState where
  "staleSession = doubledSession\<lparr>
     sx_tabsByWorktree := [(''repo::main'', [storedRow ''t1'', (storedRow ''t9'')\<lparr>rw_ptyId := Some ''p1''\<rparr>])]\<rparr>"

lemma stale_row_subsumed:
  "resolveCanonicalPtyClaim staleSession ((storedRow ''t9'')\<lparr>rw_ptyId := Some ''p1''\<rparr>)
     (readCanonicalPtyOwners staleSession ''repo::main'' (rowsOf staleSession ''repo::main'')) = Subsumed ''t1''"
  by code_simp

section \<open>A session with one tab id in two workspaces\<close>

definition simulatorEntry :: "string \<Rightarrow> tabEntry" where
  "simulatorEntry i = saveTabBarEntry False (sampleTab i (ContentBody Simulator)) ''g1'' 0 (scopeOf ''repo::main'' sampleMain sampleLoaded)"

definition twoPlacesSession :: sessionState where
  "twoPlacesSession = doubledSession\<lparr>
     sx_tabsByWorktree := [], sx_terminalLayoutsByTabId := [],
     sx_unifiedTabs := Some (map (\<lambda>k. (k, [simulatorEntry ''s1''])) [''repo::main'', ''repo::topic'']),
     sx_tabGroups := Some (map (\<lambda>k. (k, [\<lparr>sg_id = ''g1'', sg_worktreeId = k, sg_activeTabId = None,
       sg_tabOrder = [''s1''], sg_recentTabIds = None\<rparr>])) [''repo::main'', ''repo::topic'']),
     sx_tabGroupLayouts := Some (map (\<lambda>k. (k, Leaf ''g1'')) [''repo::main'', ''repo::topic''])\<rparr>"

lemma two_places_loaded:
  "map vi_rule (checkWorkspaceLayoutModelRules
     [ld_layout (loadWorkspaceLayoutWithoutReport False ''local'' twoPlacesSession plainContext)] None) = [TabInTwoPlaces]"
  by code_simp

end
