(* ===== verification/Spec2Isabelle.thy ===== *)
theory Spec2Isabelle
  imports Split_Ratios Tab_Moves Closed_Records Terminal_Owners Layout_Samples Stream_Samples View_Samples Load_Samples
begin

text \<open>
  The workspace layout of OxeeUI: what is open, where, and who shows it.

  The program.  A host (the main process, or a server it is paired with) keeps, for every
  workspace, the tabs that are open, the groups they stand in, the split tree of the groups, the
  split tree of panes inside each terminal tab, and what each pane is bound to.  Clients (windows,
  the command line, a phone) change this only by commands; the runtime changes it by transitions
  when processes start, exit or are lost.  The host publishes every workspace, streams the changes
  of the publication to its windows, and each window keeps a copy.  The development models
  this, and how a partition is stored and read back, in \<open>src/src/shared/workspace-layout\<close>,
  \<open>src/src/main/runtime\<close> and \<open>src/src/renderer/src\<close>; file names below are under these directories.

  Part 1, trees, orders and identifiers.
  \<^item> \<open>Layout_Prelude\<close>: truthiness, optional values and fields that may be absent or null, objects as
    association lists in key order, and the generic lemmas on them.
  \<^item> \<open>Split_Tree\<close>, \<open>Pane_Tree\<close>, \<open>Group_Tree\<close>: one datatype of split trees for panes
    (\<open>terminal-pane-tree.ts\<close>) and groups (\<open>tab-group-layout-tree.ts\<close>, \<open>tab-group-moves.ts\<close>,
    \<open>pane-column-split-drop-no-op.ts\<close>).  The lemmas refine tree operations to operations on the
    list of ids and show that the two removals of the code agree.
  \<^item> \<open>Split_Ratios\<close> (\<open>split-ratio-intents.ts\<close>): divider changes named by path and identity.
  \<^item> \<open>Tab_Order\<close>, \<open>Tab_Moves\<close> (\<open>tab-order.ts\<close>, \<open>terminal-tab-ordinal.ts\<close>): pinned tabs first, the
    longest increasing chain behind a minimal list of moves, the next free ordinal.
  \<^item> \<open>Stable_Ids\<close>, \<open>Pane_Keys\<close> (\<open>execution-host.ts\<close>, \<open>ssh-pty-id.ts\<close>, \<open>stable-pane-id.ts\<close>,
    \<open>workspace-layout-minted-ids.ts\<close>): ids and their parsers, bytes and words at their width.

  Part 2, the layout of a host.
  \<^item> \<open>Layout_Model\<close> (\<open>workspace-layout-model.ts\<close>): the records, and the invariant \<open>wf_layout\<close>: ids
    distinct, every tab in one group, groups and group tree the same set, no group empty, pane data
    for panes only, no tab or pane in two workspaces.
  \<^item> \<open>Layout_Steps\<close>, \<open>Removal\<close>, \<open>Editor_Files\<close>, \<open>Tab_Commands\<close>, \<open>Content_Commands\<close>,
    \<open>Pane_Commands\<close>, \<open>Workspace_Move\<close>, \<open>Editor_Rekey\<close>, \<open>Group_Commands\<close>: the handlers of the 34
    commands, one definition per handler, refusals included, each with the lemma that it keeps the
    invariant.  \<open>Layout_Commands\<close> is the dispatcher of \<open>workspace-layout-commands.ts\<close>.
  \<^item> \<open>Transitions\<close> (\<open>workspace-layout-transitions.ts\<close>, \<open>-process-exit.ts\<close>, \<open>-owner-transitions.ts\<close>):
    process starts and exits, lost leases, renamed and removed workspaces.
  \<^item> \<open>Closed_Records\<close>, \<open>Dropped_Leaves\<close>, \<open>Legacy_Persistence\<close>, \<open>Terminal_Owners\<close>: the records of
    closed terminals, the panes a commit dropped, what older builds read, and binding conflicts.
  \<^item> \<open>Layout_Rules\<close>: the program's own checker.  It finds nothing structural exactly on well-formed
    layouts (C3).  Its one other rule, a terminal in two panes, is the subject of \<open>Terminals_Once\<close>.
  \<^item> \<open>Layout_Runs\<close>: the step relation of a host and its reachable layouts.  \<open>Panes_Survive\<close> says which
    panes steps keep, and \<open>Terminals_Once\<close> that they show no terminal twice, when adopted terminals, dragged
    panes and started processes bind as the clients mean to (\<open>bindsFree\<close>); C1 puts this together.
    \<open>Command_Effects\<close> says what single commands do: the tabs a close takes, the order a move leaves, the
    panes bound and unbound; \<open>Absent_Workspace\<close> what commands do on a workspace that is not there.

  \<^item> \<open>Layout_Views\<close>, \<open>View_Closes\<close> (\<open>workspace-layout-views.ts\<close>, \<open>-view-prune.ts\<close>,
    \<open>-view-tab-closes.ts\<close>): what a view has selected, how stale selections are read and pruned, and
    how they follow closes.

  Part 3, the layout stream.
  \<^item> \<open>Published_Layout\<close> (\<open>workspace-layout-published.ts\<close>, \<open>-from-published.ts\<close>, \<open>-tab-host.ts\<close>): what a
    host publishes of a workspace and how a reader rebuilds it.
  \<^item> \<open>Layout_Records\<close> (\<open>workspace-layout-records.ts\<close>): a publication as keyed records, the difference
    of two publications and its application.
  \<^item> \<open>Layout_Frames\<close>: the frames (\<open>workspace-layout-stream-frames.ts\<close>) and the copy they are applied
    to (\<open>workspace-layout-cache.ts\<close>).
  \<^item> \<open>Layout_Projection\<close> (\<open>workspace-layout-projection.ts\<close>): partitions loaded once and forgotten when
    written, and the routing of each workspace to its home partition.
  \<^item> \<open>Live_Facts\<close> (\<open>pane-live-facts.ts\<close>, \<open>pane-start-statuses.ts\<close>, \<open>published-pane-live-titles.ts\<close>):
    facts that hold while a pane keeps a binding, laid over the publication.
  \<^item> \<open>Layout_Stream\<close> (\<open>workspace-layout-stream.ts\<close>): the host's stream, one definition per method.
    \<open>Stream_Readers\<close> runs it with its subscribers: a reachable world is any sequence of writes,
    title changes, flushes, reads, subscriptions and their ends.
  \<^item> \<open>Stream_Client\<close> (\<open>runtime-layout-client.ts\<close>): the window's end, with its positions, epochs,
    resubscriptions and timers.  The locale \<open>frame_source\<close> states what a client needs of the frames
    it is sent; \<open>Stream_Delivery\<close> interprets it on the host of \<open>Layout_Stream\<close>.
  \<^item> \<open>Frame_Positions\<close> (\<open>layout-frame-position.ts\<close>): replies that wait for the frame that shows them.
  \<^item> \<open>Layout_Samples\<close>, \<open>Stream_Samples\<close>, \<open>View_Samples\<close>: the small host the properties are run on.

  Part 4, stored sessions.
  \<^item> \<open>Stored_Session\<close> (\<open>workspace-session-state-types.ts\<close>, \<open>workspace-layout-beside.ts\<close>): the document a
    partition is stored in, and what is kept beside the layout: the view of the desktop window, facts
    that views report, and fields that are only carried along.
  \<^item> \<open>Pty_Ownership\<close> (\<open>terminal-layout-pty-ownership.ts\<close>, \<open>terminal-pane-layout-tree.ts\<close>,
    \<open>terminal-pane-title-sanitization.ts\<close>): one pane for each terminal of a stored tab.  \<open>Row_Claims\<close>
    (\<open>legacy-terminal-row-claims.ts\<close>): which stored row owns a terminal.
  \<^item> \<open>Load_Order\<close>, \<open>Load_Tabs\<close>, \<open>Load_Workspace\<close>, \<open>Load_Bindings\<close>, \<open>Load_Layout\<close>
    (\<open>workspace-layout-load*.ts\<close>): the loader, in the order it works: groups and orders, tabs from rows
    and tab-bar entries, a workspace, the data of panes, the whole partition.  \<open>Loaded_Tabs\<close>,
    \<open>Loaded_Panes\<close>, \<open>Loaded_Bindings\<close> show that what it gives is well formed.
  \<^item> \<open>Save_Layout\<close> (\<open>workspace-layout-save.ts\<close>, \<open>-save-tabs.ts\<close>): the document written for a layout.
    \<open>Saved_Layout\<close>, \<open>Saved_Panes\<close>, \<open>Saved_Session\<close> and \<open>Layout_Roundtrip\<close> show that it loads back, tabs
    and groups first, then the data of panes, then the partition.  \<open>Load_Samples\<close> has the sessions the
    properties are run on.

  Conventions.  Objects and maps are association lists, since the code iterates over them; an
  optional property is an option, one that may also be null has three values.  Ratios are rational
  numbers, ids and times are unbounded.  Thrown errors are the left side of a sum, refusals a
  datatype.  A JSON text that is only compared stands for the value it was made from.  The parameter
  \<open>own\<close> is the build flag of main-owned layouts.  Ids made by the code are supplied by the context;
  that they are new is the hypothesis \<open>freshFor\<close>.  Loading a partition from the store and telling a
  workspace's home are parameters of the projection; that loaded layouts are well formed is the
  hypothesis \<open>envWf\<close> there, and Part 4 proves it for the loader under \<open>loadable\<close>: tab ids of their own in
  each workspace, group trees that name the groups, and new ids for what is repeated.  The network
  between host and client is any list of events.

  Bounds.  Loops recurse on their data.  The search for a free ordinal in \<open>terminal-tab-ordinal.ts\<close>
  takes as fuel the number of used ordinals; one of the next that many and one is free, so it always
  answers.  The walk from a removed pane to the one that stays, in \<open>terminal-layout-pty-ownership.ts\<close>,
  takes as fuel one more than the number of removed panes and is shown to need at most two steps.
  Decoding a URI component ends because each step shortens the text.

  What it found, with the lemmas at the end of this theory: the checker accepts a group tree that names
  one group twice and another not at all; adopting a terminal into a new group can drop the binding it
  reports; a terminal adopted in two workspaces shows twice; and a tab id that a stored session lists in
  two workspaces stays in both.

  Not modelled.  The report of what a load changes, the tables of field names per schema version and
  the check that runs load and save on live data (\<open>workspace-layout-load-report.ts\<close>,
  \<open>-disk-fields.ts\<close>, \<open>-round-trip-check.ts\<close>); the round trip is proved for builds in which windows own
  the layout.  The shape checks of untyped JSON in \<open>workspace-layout-stream-frames.ts\<close>.
  What a window draws from its copy.  Logging, and observers for tests.  Everything outside the
  layout: terminals and processes themselves, worktrees and version control, the cloud relay and its
  database, the mobile and command-line front ends.
\<close>

section \<open>Layouts stay well formed\<close>

text \<open>
  C1: every layout a host reaches from the empty one, by commands of clients with fresh ids and
  by transitions of the runtime in any order, breaks no rule of the program's own checker but
  possibly the one on terminals: no tab in two places or two groups, no empty group, a group
  tree that matches the groups, no pane in two tabs, no pane data without a pane.  The checker
  reports nothing at all, so no terminal shows in two panes either, along runs whose events bind
  panes as the clients mean to (\<open>bindsFree\<close>): a terminal that is adopted is not
  shown in another workspace, the terminal a dragged pane carries is shown by no other pane, and
  a started process whose relay may repeat its id says which execution it is.  The host itself
  keeps the other bindings apart; what happens when a client adopts without that care is shown
  in \<open>terminal_adopted_in_two_workspaces\<close> below.
\<close>

theorem reachable_layouts_pass_rules:
  assumes "reachable own host m"
  shows "(\<forall>v\<in>set (checkWorkspaceLayoutModelRules [m] None). vi_rule v = TerminalInTwoPanes)
     \<and> (reachableOnce own host m \<longrightarrow> checkWorkspaceLayoutModelRules [m] None = [])"
proof (intro conjI impI)
  have wf: "wf_layout m" by (rule reachable_wf [OF assms])
  then have "structural (checkWorkspaceLayoutModelRules [m] None) = []"
    using rules_characterised [OF groupsOnce_wf] by blast
  then show "\<forall>v\<in>set (checkWorkspaceLayoutModelRules [m] None). vi_rule v = TerminalInTwoPanes"
    by (simp add: filter_empty_conv)
  show "checkWorkspaceLayoutModelRules [m] None = []" if "reachableOnce own host m"
    by (rule rules_pass [OF wf reachableOnce_once [OF that]])
qed

lemma reachable_layouts_pass_rules_witness:
  "\<exists>m. reachableOnce False ''local'' m \<and> ptyAt (workspaceOrEmpty m ''repo::main'') ''a'' = Some ''p7''
     \<and> checkWorkspaceLayoutModelRules [m] None = []"
proof -
  let ?c = "adoptInto ''repo::main'' ''t1'' ''a''"
  obtain m r e oc where
    created: "applyLayoutCommand False (emptyLayout ''local'') ?c sampleContext = Applied m r e oc"
      "ptyAt (workspaceOrEmpty m ''repo::main'') ''a'' = Some ''p7''"
    using adoptInto_runs by (auto elim: yieldsE)
  have "layoutStep False (emptyLayout ''local'') (ClientCommand ?c sampleContext) m"
    by (rule layoutStep.commanded [OF created(1)])
      (simp add: adoptInto_def sample_defs allTabIds_def allPaneIds_def)
  moreover have "bindsFree (emptyLayout ''local'') (ClientCommand ?c sampleContext)"
    by (simp add: bindsFree_def adoptsFree_def adoptInto_def emptyLayout_def ptyAt_def emptyWorkspace_def)
  ultimately have "reachableOnce False ''local'' m" by (rule reachableOnce.step [OF reachableOnce.start])
  with created(2) reachable_layouts_pass_rules [OF reachableOnce_reachable [OF this]] show ?thesis by blast
qed

text \<open>
  C2: each of the 34 commands keeps a well-formed layout.  Groups in \<open>E\<close> may be
  empty, as they may be while a new group is filled; ids the command makes are fresh.
\<close>

theorem command_keeps_layout:
  "wf_model E m \<Longrightarrow> freshFor own m cx c \<Longrightarrow> ensures (wf_model E) (applyLayoutCommand own m c cx)"
  by (rule ensures_applyLayoutCommand)

lemma command_keeps_layout_witness:
  "ensures (wf_model (\<lambda>_. {})) (applyLayoutCommand True sampleLayout
     (SplitPane ''repo::main'' ''t1'' ''a'' Horizontal None None) sampleContext)"
  by (rule command_keeps_layout [OF wf_sampleLayout])
    (simp add: allPaneIds_def sampleLayout_workspaces sample_defs paneIds_def leafIdsOf_def)

text \<open>
  C3: on a layout whose workspaces, groups and pane records are listed once, the checker reports
  no structural breach exactly when the layout satisfies the invariant the commands keep.
\<close>

theorem rules_mean_well_formed:
  "groupsOnce m \<Longrightarrow> structural (checkWorkspaceLayoutModelRules [m] None) = [] \<longleftrightarrow> wf_layout m"
  by (rule rules_characterised)

lemma rules_mean_well_formed_witness:
  "structural (checkWorkspaceLayoutModelRules [sampleLayout] None) = []"
  using rules_mean_well_formed [OF groupsOnce_wf] wf_sampleLayout by blast

text \<open>
  C4: a started or exited process, a lost SSH lease, a removed owner and a renamed identity keep
  a well-formed layout.
\<close>

theorem transition_keeps_layout:
  "wf_layout m \<Longrightarrow> ensures wf_layout (applyLayoutTransition same m t)"
  by (rule ensures_applyLayoutTransition)

lemma transition_keeps_layout_witness:
  "ensures wf_layout (applyLayoutTransition (\<lambda>_. False) sampleLayout
     (IdentityRenamed ''repo::topic'' ''repo::done''))"
  by (rule transition_keeps_layout [OF wf_sampleLayout])

section \<open>Panes survive\<close>

text \<open>
  C5: only \<open>closePane\<close> and \<open>closeTabs\<close> take panes away: after any
  other command every workspace still has every pane it had.
\<close>

theorem panes_survive_commands:
  "wf_model E m \<Longrightarrow> freshFor own m cx c \<Longrightarrow> \<not> closesPanes c \<Longrightarrow>
     ensures (keepsPanes m) (applyLayoutCommand own m c cx)"
  by (rule keeps_applyLayoutCommand)

lemma panes_survive_commands_witness:
  "ensures (keepsPanes sampleLayout) (applyLayoutCommand True sampleLayout
     (MovePane ''repo::main'' ''t1'' ''a'' ''b'' SideRight) sampleContext)"
  by (rule panes_survive_commands [OF wf_sampleLayout]) (simp_all add: closesPanes_def)

text \<open>
  C6: an exit that is only a lost contact or a stop request, a negative code or an attach that
  found no process, takes no pane away; nor does a failed local process, whose pane must stay to
  be read.
\<close>

theorem unproven_exit_keeps_panes:
  assumes "wf_model E m"
    and "pe_exitCode facts < 0 \<or> pe_attachAbsent facts = Some True \<or> pe_local facts \<and> pe_exitCode facts \<noteq> 0"
  shows "ensures (keepsPanes m) (applyProcessExit same m surface facts)"
  using assms keeps_unprovenExit [OF assms(1)] keeps_failedExit by blast

lemma unproven_exit_keeps_panes_witness:
  "ensures (keepsPanes sampleLayout) (applyProcessExit (\<lambda>_. False) sampleLayout
     \<lparr>es_worktreeId = ''repo::main'', es_terminalTabId = ''t1'', es_leafId = ''a'', es_ptyId = ''p1'',
      es_incarnationId = None\<rparr>
     \<lparr>pe_exitCode = - 1, pe_local = True, pe_spawnedFresh = False, pe_tabHadPaneAtConnect = False,
      pe_restored = False, pe_inputWritten = True, pe_outputReceived = True, pe_attachAbsent = None\<rparr>)"
  by (rule unproven_exit_keeps_panes [OF wf_sampleLayout]) simp

text \<open>
  C7: a process exit takes at most one pane, the exited one, and takes it exactly when the pane
  is still there with the same terminal and the verdict is to retire it; the panes of every
  workspace are otherwise the same.
\<close>

theorem process_exit_takes_its_pane:
  assumes "wf_model E m" "applyProcessExit same m surface facts = Applied m' r e oc"
  shows "set (paneIds (workspaceOrEmpty m' k)) = set (paneIds (workspaceOrEmpty m k))
    - (if exitRetires m surface facts then {es_leafId surface} else {})"
  by (rule processExit_panes [OF assms])

lemma process_exit_takes_its_pane_witness:
  "\<exists>m' r e oc. applyProcessExit (\<lambda>_. False) sampleLayout sampleExit sampleFacts = Applied m' r e oc
     \<and> set (paneIds (workspaceOrEmpty m' ''repo::main'')) = {''b'', ''c''}"
proof -
  obtain m' r e oc where ok: "applyProcessExit (\<lambda>_. False) sampleLayout sampleExit sampleFacts = Applied m' r e oc"
    using sampleExit_runs by (auto elim: yieldsE)
  have "exitRetires sampleLayout sampleExit sampleFacts" by code_simp
  with process_exit_takes_its_pane [OF wf_sampleLayout ok, of "''repo::main''"]
  have "set (paneIds (workspaceOrEmpty m' ''repo::main'')) = {''b'', ''c''}"
    by (auto simp: sampleLayout_workspaces sample_defs workspaceOrEmpty_def paneIds_def leafIdsOf_def
        sampleExit_def)
  with ok show ?thesis by blast
qed

section \<open>What commands do\<close>

text \<open>
  C8: \<open>closeTabs\<close> goes through the requested tabs in order: a pinned tab (when
  asked to respect pins) or an unsaved editor is refused with its reason unless the close is
  forced, every other requested tab is closed, and the workspace keeps exactly the remaining
  tabs.
\<close>

theorem close_tabs_closes_unrefused:
  assumes "closeTabs own m c now = Applied m' r e oc"
  shows "rs_closed r = Some (filter (\<lambda>i. closeRefusal c (workspaceOrEmpty m (xt_workspace c)) i = None) (xt_tabIds c))
    \<and> rs_refused r = Some (concat (map (\<lambda>i. case closeRefusal c (workspaceOrEmpty m (xt_workspace c)) i of
         None \<Rightarrow> [] | Some why \<Rightarrow> [(i, why)]) (xt_tabIds c)))
    \<and> ws_tabs (workspaceOrEmpty m' (xt_workspace c)) = filter (\<lambda>t. tb_id t \<notin> set (xt_tabIds c)
         \<or> closeRefusal c (workspaceOrEmpty m (xt_workspace c)) (tb_id t) \<noteq> None)
       (ws_tabs (workspaceOrEmpty m (xt_workspace c)))"
  using closeTabs_effect [OF assms] by (intro conjI)

lemma close_tabs_closes_unrefused_witness:
  "\<exists>m' r e oc. closeTabs True sampleLayout sampleClose None = Applied m' r e oc
     \<and> rs_closed r = Some [''t2''] \<and> rs_refused r = Some [(''e1'', EditorTabHasUnsavedDraft)]"
proof -
  obtain m' r e oc where ok: "closeTabs True sampleLayout sampleClose None = Applied m' r e oc"
    by (cases "closeTabs True sampleLayout sampleClose None") (auto simp: closeTabs_def Let_def)
  have "closeRefusal sampleClose sampleMain ''t2'' = None"
    "closeRefusal sampleClose sampleMain ''e1'' = Some EditorTabHasUnsavedDraft"
    by (simp_all add: closeRefusal_def findTab_def sampleClose_def sample_defs)
  with close_tabs_closes_unrefused [OF ok] ok show ?thesis
    by (simp add: sampleClose_def workspaceOrEmpty_def sampleLayout_workspaces)
qed

text \<open>
  C9: closing a pane that is there takes that pane from the whole layout and no other, stops the
  terminal bound to it and nothing else, and says truthfully whether its tab went with it.
\<close>

theorem close_pane_takes_one_pane:
  assumes "wf_model E m" "closePane m key tabId leafId user = Applied m' r e oc" "rs_alreadyClosed r = None"
  shows "set (paneIds (workspaceOrEmpty m' k)) = set (paneIds (workspaceOrEmpty m k)) - {leafId}
    \<and> fx_stopPtyIds e = (case ptyAt (workspaceOrEmpty m key) leafId of
         Some p \<Rightarrow> if p \<noteq> [] then [p] else [] | None \<Rightarrow> [])
    \<and> rs_tabClosed r = Some (findTab (workspaceOrEmpty m' key) tabId = None)"
  using closePane_effect [OF assms] by (intro conjI)

lemma close_pane_takes_one_pane_witness:
  "\<exists>m' r e oc. closePane sampleLayout ''repo::main'' ''t1'' ''a'' True = Applied m' r e oc
     \<and> set (paneIds (workspaceOrEmpty m' ''repo::topic'')) = {''d''} \<and> fx_stopPtyIds e = [''p1'']"
proof -
  have "yields (\<lambda>m r e. rs_alreadyClosed r = None) (closePane sampleLayout ''repo::main'' ''t1'' ''a'' True)"
    by code_simp
  then obtain m' r e oc where
    ok: "closePane sampleLayout ''repo::main'' ''t1'' ''a'' True = Applied m' r e oc" "rs_alreadyClosed r = None"
    by (rule yieldsE)
  from close_pane_takes_one_pane [OF wf_sampleLayout ok, of "''repo::topic''"] ok show ?thesis
    by (simp add: workspaceOrEmpty_def sampleLayout_workspaces sample_defs paneIds_def leafIdsOf_def ptyAt_def)
qed



text \<open>
  The title of a new terminal is \<open>Terminal k\<close> for the least k from 1 that no
  default title in the workspace uses; the search for it always ends.
\<close>

theorem next_terminal_title_least:
  "\<exists>k\<ge>1. nextTerminalTitle tabs = terminalTitle k \<and> terminalTitle k \<notin> set (defaultTitles tabs)
     \<and> (\<forall>j\<in>{1..<k}. \<exists>t\<in>set (defaultTitles tabs). terminalOrdinal t = Some j)"
  using nextTerminalTitle_least [of tabs] by (metis atLeastLessThan_iff)

lemma next_terminal_title_least_witness:
  "nextTerminalTitle (ws_tabs sampleMain) = terminalTitle 1"
proof -
  have none: "set (defaultTitles (ws_tabs sampleMain)) = {[]}"
    by (simp add: defaultTitles_def sample_defs noCreation_def)
  have "terminalOrdinal [] = None" by (simp add: terminalOrdinal_def)
  from next_terminal_title_least [of "ws_tabs sampleMain"]
  obtain k where k: "k \<ge> 1" "nextTerminalTitle (ws_tabs sampleMain) = terminalTitle k"
    "\<forall>j\<in>{1..<k}. \<exists>t\<in>set (defaultTitles (ws_tabs sampleMain)). terminalOrdinal t = Some j" by blast
  have "\<not> 1 < k"
  proof
    assume "1 < k"
    then have "1 \<in> {1..<k}" by simp
    with k(3) \<open>terminalOrdinal [] = None\<close> show False unfolding none by force
  qed
  with k show ?thesis by simp
qed

section \<open>Terminals and panes\<close>

text \<open>
  C11: when a process start is accepted, the pane it names shows the new terminal, and no other
  pane of any workspace of the host shows the same terminal.
\<close>

theorem started_terminal_shows_once:
  assumes "processStarted m t = Applied m' r e oc"
  shows "\<exists>tab l. locatePane (workspaceOrEmpty m (ps_workspace t)) (ps_paneKey t) = Some (tab, l)
      \<and> ptyAt (workspaceOrEmpty m' (ps_workspace t)) l = Some (ps_ptyId t)
      \<and> (\<forall>k w l' leaf. workspaceAt m' k = Some w \<and> leafAt w l' = Some leaf \<and> l' \<noteq> l
           \<longrightarrow> \<not> isSameTerminal (bindingOfLeaf leaf)
                 \<lparr>bd_ptyId = Some (ps_ptyId t), bd_incarnationId = ps_incarnationId t\<rparr>)"
  by (rule processStarted_effect [OF assms])

lemma started_terminal_shows_once_witness:
  "\<exists>m' r e oc tab l. processStarted sampleLayout sampleStart = Applied m' r e oc
     \<and> locatePane sampleMain ''t1:b'' = Some (tab, l)
     \<and> ptyAt (workspaceOrEmpty m' ''repo::main'') l = Some ''p9''"
proof -
  have "yields (\<lambda>m r e. True) (processStarted sampleLayout sampleStart)" by code_simp
  then obtain m' r e oc where ok: "processStarted sampleLayout sampleStart = Applied m' r e oc" by (rule yieldsE)
  from started_terminal_shows_once [OF ok] ok show ?thesis
    by (auto simp: sampleStart_def workspaceOrEmpty_def sampleLayout_workspaces)
qed

text \<open>
  C12: losing an SSH lease unbinds exactly the panes bound to one of its terminals, in every
  workspace; every other binding and every tab is as before.
\<close>

theorem lost_lease_unbinds_its_panes:
  assumes "wf_model E m" "sshLeaseTerminated m ptyIds = Applied m' r e oc"
  shows "ptyAt (workspaceOrEmpty m' k) l = (case ptyAt (workspaceOrEmpty m k) l of
      None \<Rightarrow> None | Some p \<Rightarrow> if p \<in> set ptyIds then None else Some p)
    \<and> ws_tabs (workspaceOrEmpty m' k) = ws_tabs (workspaceOrEmpty m k)"
  using sshLeaseTerminated_effect [OF assms] by (intro conjI)

lemma lost_lease_unbinds_its_panes_witness:
  "\<exists>m' r e oc. sshLeaseTerminated sampleLayout [''p1''] = Applied m' r e oc
     \<and> ptyAt (workspaceOrEmpty m' ''repo::main'') ''a'' = None
     \<and> ptyAt (workspaceOrEmpty m' ''repo::topic'') ''d'' = Some ''p2''"
proof -
  obtain m' r e oc where ok: "sshLeaseTerminated sampleLayout [''p1''] = Applied m' r e oc"
    by (simp add: sshLeaseTerminated_def)
  have bound: "ptyAt (workspaceOrEmpty sampleLayout ''repo::main'') ''a'' = Some ''p1''"
    "ptyAt (workspaceOrEmpty sampleLayout ''repo::topic'') ''d'' = Some ''p2''"
    by (simp_all add: ptyAt_def workspaceOrEmpty_def sampleLayout_workspaces sample_defs)
  note lost = lost_lease_unbinds_its_panes [OF wf_sampleLayout ok]
  show ?thesis using ok lost [of "''repo::main''" "''a''"] lost [of "''repo::topic''" "''d''"] bound by simp
qed

text \<open>
  For a pane with a stable id, the conflict check answers none exactly when in every partition
  that may own terminals each entry of the same pane is in the same tab and no other pane shows
  the same terminal.
\<close>

theorem no_conflict_means_free:
  assumes "isStablePaneId (br_leafId b)"
  shows "findTerminalBindingConflict b h ps = None \<longleftrightarrow>
    (\<forall>p\<in>set ps. \<forall>q\<in>set (collectTerminalLeafOwners p). isTerminalOwnerPartition (sn_hostId p) \<longrightarrow>
       (if po_leafId q = br_leafId b then po_tabId q = br_tabId b
        else \<not> isSameTerminal (bindingOfOwner q)
               \<lparr>bd_ptyId = Some (br_ptyId b), bd_incarnationId = br_incarnationId b\<rparr>))"
  using assms by (simp add: findTerminalBindingConflict_def conflictAcross_None conflictIn_None)

lemma no_conflict_means_free_witness:
  "findTerminalBindingConflict \<lparr>br_tabId = ''t1'', br_leafId = ''0f0f0f0f-0000-4000-8000-00000000000a'',
      br_ptyId = ''p1'', br_incarnationId = None\<rparr> ''local'' [] = None"
proof -
  have "isStablePaneId (br_leafId \<lparr>br_tabId = ''t1'', br_leafId = ''0f0f0f0f-0000-4000-8000-00000000000a'',
      br_ptyId = ''p1'', br_incarnationId = None\<rparr>)" by code_simp
  from no_conflict_means_free [OF this] show ?thesis by simp
qed



text \<open>
  C14: no tab is stuck: from every reachable layout, whatever is pinned, whatever editors are
  unsaved and whatever the command asks about them, a forced close of tabs of a workspace that
  is there is applied.  It reports every id as closed and none as refused, takes exactly the
  tabs with these ids, stops exactly the terminals their panes are bound to, and leaves every
  other workspace as it was.
\<close>

theorem forced_close_always_closes:
  fixes cx :: layoutContext
  assumes "reachable own host m" "xt_force c" "workspaceAt m (xt_workspace c) = Some ws"
  shows "\<exists>m' r e oc. applyLayoutCommand own m (CloseTabs c) cx = Applied m' r e oc
     \<and> reachable own host m' \<and> rs_closed r = Some (xt_tabIds c) \<and> rs_refused r = Some []
     \<and> ws_tabs (workspaceOrEmpty m' (xt_workspace c)) = filter (\<lambda>t. tb_id t \<notin> set (xt_tabIds c)) (ws_tabs ws)
     \<and> set (fx_stopPtyIds e) = (\<Union>t\<in>{t\<in>set (ws_tabs ws). tb_id t \<in> set (xt_tabIds c)}. set (boundPtyIds ws t))
     \<and> (\<forall>k. k \<noteq> xt_workspace c \<longrightarrow> workspaceAt m' k = workspaceAt m k)"
  by (rule forced_close_step [OF assms, of cx]) blast

lemma forced_close_always_closes_witness:
  "\<exists>m m' r e oc. reachable False ''local'' m \<and> ptyAt (workspaceOrEmpty m ''repo::main'') ''a'' = Some ''p7''
     \<and> applyLayoutCommand False m (CloseTabs sampleForced) sampleContext = Applied m' r e oc
     \<and> rs_closed r = Some [''t1''] \<and> ws_tabs (workspaceOrEmpty m' ''repo::main'') = []"
proof -
  let ?c = "adoptInto ''repo::main'' ''t1'' ''a''"
  obtain m r e oc where
    created: "applyLayoutCommand False (emptyLayout ''local'') ?c sampleContext = Applied m r e oc"
      "tabIds (workspaceOrEmpty m ''repo::main'') = [''t1'']" "ptyAt (workspaceOrEmpty m ''repo::main'') ''a'' = Some ''p7''"
    using adoptInto_runs by (auto elim: yieldsE)
  have m: "reachable False ''local'' m"
    by (rule reachable.step [OF reachable.start layoutStep.commanded [OF created(1)]])
      (simp add: adoptInto_def sample_defs allTabIds_def allPaneIds_def)
  obtain ws where ws: "workspaceAt m ''repo::main'' = Some ws" "tabIds ws = [''t1'']"
    using created(2) by (cases "workspaceAt m ''repo::main''") (simp_all add: workspaceOrEmpty_def emptyWorkspace_def)
  have forced: "xt_force sampleForced" "xt_workspace sampleForced = ''repo::main''" "xt_tabIds sampleForced = [''t1'']"
    by (simp_all add: sampleForced_def)
  have gone: "filter (\<lambda>t. tb_id t \<notin> set [''t1'']) (ws_tabs ws) = []"
    using arg_cong [OF ws(2), of set] by (auto simp: filter_empty_conv)
  obtain m' r' e' oc' where "applyLayoutCommand False m (CloseTabs sampleForced) sampleContext = Applied m' r' e' oc'"
    "rs_closed r' = Some [''t1'']" "ws_tabs (workspaceOrEmpty m' ''repo::main'') = []"
    using forced_close_always_closes [OF m forced(1), unfolded forced(2,3), OF ws(1), of sampleContext, unfolded gone] by blast
  with m created(3) show ?thesis by (intro exI conjI)
qed

section \<open>Stored sessions\<close>

text \<open>
  C15: the session document written for a layout, loaded again, gives each workspace that has
  tabs back: the tabs in their canonical order, the same groups and the group tree, the same
  files and browser tabs, and the same data in every pane.  Views of editors are never saved;
  records of closed tabs go by worktree and are left out here.  The layout is well formed and
  could have been stored: its entities are its own, no two panes show one terminal, and no pane
  holds a live generation.
\<close>

theorem saved_layout_loads_back:
  assumes "storable loaded" "workspaceAt (ld_layout loaded) k = Some w" "ws_tabs w \<noteq> []"
    and "m = ld_layout (loadWorkspaceLayoutWithoutReport False hostId (saveWorkspaceLayout False loaded) nameBasedLoadContext)"
  shows "\<exists>v. workspaceAt m k = Some v
     \<and> v\<lparr>ws_leaves := None, ws_closedTerminalTabs := None\<rparr>
       = w\<lparr>ws_tabs := tabsInOrder w,
           ws_groupLayout := Some (orElse (ws_groupLayout w) (Leaf (gr_id (hd (ws_groups w))))),
           ws_editorViews := None, ws_leaves := None, ws_closedTerminalTabs := None\<rparr>
     \<and> (\<forall>l. orElse (leafAt v l) emptyLeaf = orElse (leafAt w l) emptyLeaf)"
  using round_trip [OF assms(1) refl _ _ assms(4,2,3)] by (simp add: nameBasedLoadContext_def reloaded_def)

lemma saved_layout_loads_back_witness:
  "\<exists>v. workspaceAt (ld_layout (loadWorkspaceLayoutWithoutReport False ''local''
       (saveWorkspaceLayout False sampleLoaded) nameBasedLoadContext)) ''repo::main'' = Some v
     \<and> ws_tabs v = tabsInOrder sampleMain \<and> ws_groups v = ws_groups sampleMain
     \<and> map_option lf_ptyId (leafAt v ''a'') = Some (Some ''p1'')"
proof -
  have "workspaceAt (ld_layout sampleLoaded) ''repo::main'' = Some sampleMain" "ws_tabs sampleMain \<noteq> []"
    by (simp_all add: sampleLoaded_def sampleLayout_workspaces sample_defs)
  from saved_layout_loads_back [OF storable_sample this refl, of "''local''"] obtain v where
    v: "workspaceAt (ld_layout (loadWorkspaceLayoutWithoutReport False ''local'' (saveWorkspaceLayout False sampleLoaded)
        nameBasedLoadContext)) ''repo::main'' = Some v"
    and same: "v\<lparr>ws_leaves := None, ws_closedTerminalTabs := None\<rparr>
       = sampleMain\<lparr>ws_tabs := tabsInOrder sampleMain,
           ws_groupLayout := Some (orElse (ws_groupLayout sampleMain) (Leaf (gr_id (hd (ws_groups sampleMain))))),
           ws_editorViews := None, ws_leaves := None, ws_closedTerminalTabs := None\<rparr>"
    and leaf: "orElse (leafAt v ''a'') emptyLeaf = orElse (leafAt sampleMain ''a'') emptyLeaf" by blast
  have "ws_tabs v = tabsInOrder sampleMain" "ws_groups v = ws_groups sampleMain"
    using arg_cong [OF same, of ws_tabs] arg_cong [OF same, of ws_groups] by simp_all
  moreover have "map_option lf_ptyId (leafAt v ''a'') = Some (Some ''p1'')"
    using leaf by (cases "leafAt v ''a''") (simp_all add: sample_defs)
  ultimately show ?thesis using v by blast
qed



text \<open>
  C17: when several stored panes name one terminal, the first in order keeps it.  Afterwards no
  two panes of the partition show one terminal, and each pane is as it was, or has lost its
  terminal, and no other data, to a pane that shows the same one.
\<close>

theorem terminals_shown_once:
  assumes "wf_layout m"
  shows "\<forall>x\<in>set (panesInOrder m). \<forall>y\<in>set (panesInOrder m). x \<noteq> y \<longrightarrow>
     \<not> isSameTerminal (bindingAt (unbindDuplicateTerminals m) x) (bindingAt (unbindDuplicateTerminals m) y)
   \<and> (paneAt (unbindDuplicateTerminals m) x = paneAt m x
      \<or> paneAt (unbindDuplicateTerminals m) x = map_option (\<lambda>leaf. leaf\<lparr>lf_ptyId := None\<rparr>) (paneAt m x)
        \<and> (\<exists>z\<in>set (panesInOrder m). bindingAt (unbindDuplicateTerminals m) z = bindingAt m z
             \<and> isSameTerminal (bindingAt m z) (bindingAt m x)))"
  using unbind_apart [OF distinct_panesInOrder [OF assms]] by blast

lemma terminals_shown_once_witness:
  "bindingAt sharedTerminal (''repo::topic'', ''d'') = \<lparr>bd_ptyId = Some ''p1'', bd_incarnationId = None\<rparr>
   \<and> \<not> isSameTerminal (bindingAt (unbindDuplicateTerminals sharedTerminal) (''repo::main'', ''a''))
       (bindingAt (unbindDuplicateTerminals sharedTerminal) (''repo::topic'', ''d''))"
  using terminals_shown_once [OF wf_sharedTerminal] shared_panes by simp

text \<open>
  C18: of the panes of a stored tab that hold one terminal exactly one is kept, no terminal is
  lost or given to a pane that did not hold it, and the pane tree keeps exactly the panes whose
  terminal did not move away, in order.
\<close>

theorem pane_ownership_normalized:
  assumes "plainIds snapshot" "after = normalizeTerminalLayoutPtyOwnership snapshot"
  shows "(\<forall>l p. lookupOpt (sl_ptyIdsByLeafId after) l = Some p \<longrightarrow> lookupOpt (sl_ptyIdsByLeafId snapshot) l = Some p)
   \<and> (\<forall>l p. lookupOpt (sl_ptyIdsByLeafId snapshot) l = Some p \<and> p \<noteq> [] \<longrightarrow> (\<exists>!kept. lookupOpt (sl_ptyIdsByLeafId after) kept = Some p))
   \<and> optIds (sl_root after)
     = filter (\<lambda>l. lookupOpt (sl_ptyIdsByLeafId after) l = lookupOpt (sl_ptyIdsByLeafId snapshot) l) (optIds (sl_root snapshot))"
  using normalized_ownership [OF assms(1)] unfolding assms(2) by blast

lemma pane_ownership_normalized_witness:
  "\<exists>!kept. lookupOpt (sl_ptyIdsByLeafId (normalizeTerminalLayoutPtyOwnership twicePanes)) kept = Some ''p1''"
proof -
  have "plainIds twicePanes" "lookupOpt (sl_ptyIdsByLeafId twicePanes) ''b'' = Some ''p1''"
    by (simp_all add: plainIds_def twicePanes_def storedPanes_def lookupOpt_def)
  with pane_ownership_normalized [OF this(1) refl] show ?thesis by simp
qed

text \<open>
  C19: a row is dropped as a stale copy only if the tab bar does not name it and it owns a
  terminal, and then every terminal it owns is claimed by a row of the workspace that the tab
  bar does name; so no terminal loses its last row.
\<close>

theorem dropped_row_loses_no_terminal:
  assumes "canonical = readCanonicalPtyOwners session key rows" "resolveCanonicalPtyClaim session row canonical = Subsumed t"
  shows "rw_id row \<notin> set (co_tabIds canonical) \<and> pi_owned (readPersistedTerminalPtyIds session row) \<noteq> []
   \<and> (\<exists>r\<in>set rows. rw_id r = t)
   \<and> (\<forall>p\<in>set (pi_owned (readPersistedTerminalPtyIds session row)).
        \<exists>r\<in>set rows. rw_id r \<in> set (co_tabIds canonical) \<and> p \<in> set (pi_claimable (readPersistedTerminalPtyIds session r)))"
  using subsumed_claimed [OF assms(2) [unfolded assms(1)]] unfolding assms(1) by blast

lemma dropped_row_loses_no_terminal_witness:
  "\<exists>r\<in>set (rowsOf staleSession ''repo::main''). rw_id r = ''t1''"
  using dropped_row_loses_no_terminal [OF refl stale_row_subsumed] by blast

section \<open>Views\<close>

text \<open>
  C20: a view reads stale selections with fallbacks and prunes them when it is saved.  For a
  well-formed layout in which every terminal has one tab, the pruned record resolves to exactly
  what the record did in every workspace.  Its group, tab, file and browser selections, focus
  times, drafts and pane selections refer only to what is there (\<open>refersOnlyTo\<close>),
  and of the focus times and drafts just those of tabs and files that are gone are dropped.  The
  one active tab of the whole window, \<open>activeTabId\<close>, the code does not prune.
\<close>

theorem pruned_view_shows_same:
  assumes "wf_layout m" "terminalsOnce m" "workspaceAt m key = Some ws"
    and "distinct (keysOf (lv_activeGroupIdByWorktree r))"
  shows "resolveWorkspaceSelection own (pruneViewRecord own r m) key ws = resolveWorkspaceSelection own r key ws
     \<and> refersOnlyTo own (pruneViewRecord own r m) m key ws
     \<and> (\<forall>i. entryIn (lv_lastFocusedAt (pruneViewRecord own r m)) key i
            = (if i \<in> set (tabIds ws) then entryIn (lv_lastFocusedAt r) key i else None))
     \<and> (\<forall>i. entryIn (lv_editorDrafts (pruneViewRecord own r m)) key i
            = (if i \<in> set (fileKeys own ws) then entryIn (lv_editorDrafts r) key i else None))"
  using resolve_prune [OF assms] prune_refersOnlyTo [OF assms(1,3,4)] prune_keepsEntries [OF assms(3)] by blast

lemma pruned_view_shows_same_witness:
  "resolveWorkspaceSelection True (pruneViewRecord True (viewShowing ''gone'') sampleLayout) ''repo::main'' sampleMain
     = resolveWorkspaceSelection True (viewShowing ''gone'') ''repo::main'' sampleMain
   \<and> refersOnlyTo True (pruneViewRecord True (viewShowing ''gone'') sampleLayout) sampleLayout ''repo::main'' sampleMain"
proof -
  have "workspaceAt sampleLayout ''repo::main'' = Some sampleMain" by (simp add: sampleLayout_workspaces)
  from pruned_view_shows_same [OF wf_sampleLayout sample_terminalsOnce this viewShowing_keys(1)]
  show ?thesis by blast
qed

text \<open>
  C21: when groups of a workspace are closed and some are left, however many close at once, the
  group a view has active there afterwards is one that is left.
\<close>

theorem active_group_survives_closes:
  assumes "wf_layout before" "workspaceAt before key = Some was" "workspaceAt after key = Some now"
    and "g \<in> set (groupIds was)" "g \<notin> set (groupIds now)" "ws_groups now \<noteq> []" "ws_groupLayout was \<noteq> None"
  shows "\<exists>s\<in>set (groupIds now). lookupOpt (lv_activeGroupIdByWorktree (followTabClosesInView r before after)) key = Some s"
  by (rule followed_group_survives [OF assms])

lemma active_group_survives_closes_witness:
  "lookupOpt (lv_activeGroupIdByWorktree (viewShowing ''t1'')) ''repo::main'' = Some ''g1''
   \<and> lookupOpt (lv_activeGroupIdByWorktree (followTabClosesInView (viewShowing ''t1'') sampleLayout (closing [''t1'', ''t2''])))
       ''repo::main'' = Some ''g2''"
proof -
  have now: "workspaceAt (closing [''t1'', ''t2'']) ''repo::main'' = Some (foldl removeTabFromWorkspace sampleMain [''t1'', ''t2''])"
    by (simp add: closing_def)
  have was: "workspaceAt sampleLayout ''repo::main'' = Some sampleMain" by (simp add: sampleLayout_workspaces)
  have "''g1'' \<in> set (groupIds sampleMain)" "ws_groupLayout sampleMain \<noteq> None" by (simp_all add: sampleMain_def)
  moreover have "''g1'' \<notin> set [''g2'']" by simp
  ultimately obtain s where s: "s \<in> set [''g2'']"
    "lookupOpt (lv_activeGroupIdByWorktree (followTabClosesInView (viewShowing ''t1'') sampleLayout (closing [''t1'', ''t2''])))
       ''repo::main'' = Some s"
    using active_group_survives_closes [OF wf_sampleLayout was now, of "''g1''" "viewShowing ''t1''"]
    unfolding closing_groups(1) by (metis closing_left)
  moreover have "s = ''g2''" using s(1) by simp
  moreover have "lookupOpt (lv_activeGroupIdByWorktree (viewShowing ''t1'')) ''repo::main'' = Some ''g1''"
    by (simp add: viewShowing_def)
  ultimately show ?thesis by (simp only: simp_thms)
qed

text \<open>
  C22: where a group stays and the tab a view showed in it is closed, the view shows one of the
  group's remaining tabs next, the most recently shown if there is one; every other selection is
  left as it was.
\<close>

theorem shown_tab_follows_closes:
  assumes "distinct (map fst (lv_groups r))" "\<forall>(k, byGroup)\<in>set (lv_groups r). distinct (map fst byGroup)"
    and "selectionAt (lv_groups r) key i = Some selection"
    and "groupAt before key i = Some was" "groupAt after key i = Some now" "gr_tabOrder now \<noteq> []"
  shows "\<exists>next'. selectionAt (lv_groups (followTabClosesInView r before after)) key i = Some next'
     \<and> (if truthy (gl_activeTabId selection) \<and> the (gl_activeTabId selection) \<notin> set (gr_tabOrder now)
        then (\<exists>t\<in>set (gr_tabOrder now). gl_activeTabId next' = Some t)
          \<and> (\<forall>older t newer. gl_recentTabIds selection = Some (older @ t # newer)
               \<and> t \<in> set (gr_tabOrder was) \<inter> set (gr_tabOrder now)
               \<and> set newer \<inter> (set (gr_tabOrder was) \<inter> set (gr_tabOrder now)) = {} \<longrightarrow> gl_activeTabId next' = Some t)
        else next' = selection)"
proof -
  have "selectionAt (lv_groups (followTabClosesInView r before after)) key i
      = Some (followedIn before after key i selection)"
    using selectionAt_followSelections [OF assms(1), of before after key i] assms(2,3)
    by (auto simp: followTabClosesInView_def)
  with followedSelection_shown [OF assms(6), of "gr_tabOrder was" selection]
    followedSelection_recent [of selection _ _ _ "gr_tabOrder was" "gr_tabOrder now"] show ?thesis
    by (auto simp: followedIn_def assms(4,5) disjoint_iff)
qed

lemma shown_tab_follows_closes_witness:
  "\<exists>next'. selectionAt (lv_groups (followTabClosesInView (viewShowing ''t1'') sampleLayout (closing [''t1'']))) ''repo::main'' ''g1''
       = Some next' \<and> gl_activeTabId next' = Some ''t2''"
  using shown_tab_follows_closes [OF viewShowing_keys(2,3) viewShowing_selection [of "''t1''"] closing_groups(3,2)] by auto

section \<open>The layout stream\<close>

text \<open>
  C23: a host goes through any actions (writes of its partitions, flushes, subscriptions); a
  client receives what was sent to its subscriptions in any order and any number of times,
  values it cannot read, errors and timeouts.  Whenever the client is live it stands at a
  position, and its copy of every workspace is the one the host showed that subscription at that
  position; once it has reached the host's position, it is what the host shows now.
\<close>

theorem live_client_shows_host:
  assumes "list_all (possibleEvent (hostSent uuid actions name)) events" "lc_state (clientRun events) = Live"
  defines "c \<equiv> clientRun events" and "host \<equiv> wd_stream (sv_world (servedRun uuid actions))"
  shows "\<exists>n. lc_lastSeq c = Some n
     \<and> (\<forall>k. map_of (lc_cache c) k = hostLayouts uuid actions name (lc_generation c) n k)
     \<and> (n = ls_seq host \<longrightarrow> name (lc_generation c) \<in> set (ls_listeners host) \<longrightarrow>
          (\<forall>k. map_of (lc_cache c) k = map_option sw_layout (map_of (ls_shown host) k)))"
proof -
  from hosted.client_shows [OF assms(1)] assms(2) obtain n where
    "lc_lastSeq c = Some n" "\<forall>k. map_of (lc_cache c) k = hostLayouts uuid actions name (lc_generation c) n k"
    by (auto simp: showsItsPosition_def showsLayouts_def c_def)
  with hostLayouts_now [of name "lc_generation c" uuid actions] show ?thesis by (simp add: host_def)
qed

lemma live_client_shows_host_witness:
  "hostSent ''u'' (take 2 sampleActions) (\<lambda>_. ''w'') 1 (SnapshotFrame sampleShown (Some ''u'') (Some 0))
   \<and> map fst sampleShown = [''repo::main'', ''repo::topic'']
   \<and> (\<forall>k. map_of (lc_cache (clientRun [Received 1 (FrameRead (SnapshotFrame sampleShown (Some ''u'') (Some 0)))])) k
        = hostLayouts ''u'' (take 2 sampleActions) (\<lambda>_. ''w'') 1 0 k)"
proof -
  let ?f = "SnapshotFrame sampleShown (Some ''u'') (Some 0)"
  have sent: "hostSent ''u'' (take 2 sampleActions) (\<lambda>_. ''w'') 1 ?f"
    using sample_served [of 2] by (simp add: hostSent_def sampleSent_frames)
  then have "list_all (possibleEvent (hostSent ''u'' (take 2 sampleActions) (\<lambda>_. ''w''))) [Received 1 (FrameRead ?f)]"
    by simp
  from live_client_shows_host [OF this sample_live(1)] sample_live(2,3) sent show ?thesis
    by (simp add: sampleShown_keys)
qed

text \<open>
  C24: the protocol makes progress: a live client that receives the host's records frame for the
  position after its own never falls back to a new subscription; it stays live, moves to that
  position and shows the host's layouts there.
\<close>

theorem next_frame_applies:
  assumes "list_all (possibleEvent (hostSent uuid actions name)) events"
    and "lc_state (clientRun events) = Live" "lc_lastSeq (clientRun events) = Some n"
    and "lc_epoch (clientRun events) = Some epoch"
    and "hostSent uuid actions name (lc_generation (clientRun events)) (RecordsFrame epoch (n + 1) cs)"
  defines "c \<equiv> clientRun (events @ [Received (lc_generation (clientRun events)) (FrameRead (RecordsFrame epoch (n + 1) cs))])"
  shows "lc_state c = Live \<and> lc_generation c = lc_generation (clientRun events) \<and> lc_lastSeq c = Some (n + 1)
     \<and> (\<forall>k. map_of (lc_cache c) k = hostLayouts uuid actions name (lc_generation c) (n + 1) k)"
  using hosted.receive_next [OF hosted.client_shows [OF assms(1)] assms(2-5)]
  by (simp add: c_def clientRun_snoc showsItsPosition_def showsLayouts_def)

lemma next_frame_applies_witness:
  "\<forall>k. map_of (lc_cache (clientRun ([Received 1 (FrameRead (SnapshotFrame sampleShown (Some ''u'') (Some 0)))]
         @ [Received 1 (FrameRead (RecordsFrame ''u'' (0 + 1) [ChangeRemoved ''repo::main'', ChangeRemoved ''repo::topic'']))]))) k
     = hostLayouts ''u'' (take 4 sampleActions) (\<lambda>_. ''w'') 1 (0 + 1) k"
proof -
  let ?f = "SnapshotFrame sampleShown (Some ''u'') (Some 0)"
  let ?g = "RecordsFrame ''u'' (0 + 1) [ChangeRemoved ''repo::main'', ChangeRemoved ''repo::topic'']"
  have sent: "hostSent ''u'' (take 4 sampleActions) (\<lambda>_. ''w'') 1 ?f"
    "hostSent ''u'' (take 4 sampleActions) (\<lambda>_. ''w'') (lc_generation (clientRun [Received 1 (FrameRead ?f)])) ?g"
    using sample_served [of 4] by (simp_all add: hostSent_def sampleSent_frames)
  then have "list_all (possibleEvent (hostSent ''u'' (take 4 sampleActions) (\<lambda>_. ''w''))) [Received 1 (FrameRead ?f)]"
    by simp
  from next_frame_applies [OF this sample_live(1,3,4) sent(2)] sample_live(2) show ?thesis by simp
qed

text \<open>
  C25: the stream never drifts from the store.  In every state reached by writes, title changes,
  flushes, reads, and windows that come and go, flushing the pending changes leaves every
  subscriber with exactly the layouts of a fresh load, at the stream's position, although each
  holds only what its frames told it.
\<close>

theorem subscribers_show_fresh_load:
  assumes "reachableWorld own uuid w" "ls_dirty (wd_stream w)"
    and "freshLayouts own (wd_env w) (wd_stream w) = Inr layouts" "l \<in> set (ls_listeners (wd_stream w))"
  defines "w' \<equiv> handedOut (flush own (wd_env w) (wd_stream w)) w"
  shows "\<exists>cache. map_of (wd_readers w') l = Some (Inr (cache, ls_seq (wd_stream w')))
     \<and> (\<forall>k. map_of cache k = map_of layouts k)"
  unfolding w'_def by (rule flushed_shows_fresh [OF assms(1-4)])

lemma subscribers_show_fresh_load_witness:
  "\<exists>cache. map_of (wd_readers (handedOut (flush True (wd_env (sampleWorld 3)) (wd_stream (sampleWorld 3))) (sampleWorld 3))) ''w''
       = Some (Inr (cache, ls_seq (wd_stream (handedOut (flush True (wd_env (sampleWorld 3)) (wd_stream (sampleWorld 3)))
           (sampleWorld 3)))))
     \<and> (\<forall>k. map_of cache k = None)"
  using subscribers_show_fresh_load [OF sampleWorld_reachable sample_dirty(1) sample_fresh, of "''w''"] sample_dirty(2)
  by simp

text \<open>
  C26: for layouts whose panes with one id have one binding, the record changes between two
  layouts rebuild the second from the first, addressed to their workspace; no change is produced
  exactly when the layouts are equal and no two of their records share a key.
\<close>

theorem record_changes_rebuild_layout:
  assumes "panesAgree a" "panesAgree b"
  shows "(case diffPublishedLayouts key (indexPublishedLayout a) (indexPublishedLayout b) b of
       None \<Rightarrow> a = b
     | Some change \<Rightarrow> changeKey change = key \<and> applyWorkspaceLayoutRecordChange (Some a) change = Inr (Some b))
   \<and> (diffPublishedLayouts key (indexPublishedLayout a) (indexPublishedLayout b) b = None
        \<longleftrightarrow> a = b \<and> indexPublishedLayout a \<noteq> None)"
proof (cases "diffPublishedLayouts key (indexPublishedLayout a) (indexPublishedLayout b) b")
  case None
  moreover from this have "indexPublishedLayout a \<noteq> None"
    by (auto simp: diffPublishedLayouts_def split: option.splits)
  ultimately show ?thesis using diff_None_same [OF _ assms] by simp
next
  case (Some change)
  moreover have "\<not> (a = b \<and> indexPublishedLayout a \<noteq> None)"
  proof
    assume "a = b \<and> indexPublishedLayout a \<noteq> None"
    with Some diff_same [of b key] show False by auto
  qed
  ultimately show ?thesis using apply_diff [OF Some assms(2)] by simp
qed

lemma record_changes_rebuild_layout_witness:
  "\<exists>change. diffPublishedLayouts ''repo::main'' (indexPublishedLayout shownBefore) (indexPublishedLayout shownAfter)
       shownAfter = Some change
     \<and> applyWorkspaceLayoutRecordChange (Some shownBefore) change = Inr (Some shownAfter)"
  using record_changes_rebuild_layout [OF shown_differ(1,2), of "''repo::main''"] shown_differ(3) by auto

text \<open>
  C27: the partition cache is transparent: from a coherent cache, a write that changes at most
  the partition it is reported for (any partition, when it is reported for none) leaves a
  projection that equals one built by loading every partition, and a coherent cache again.
\<close>

theorem cached_projection_is_fresh:
  assumes "coherentCache env pj" "\<forall>h. hostId \<noteq> None \<and> h \<noteq> the hostId \<longrightarrow> en_load env' h = en_load env h"
    and "project own env' (invalidate hostId pj) = (result, pj')"
  shows "result = projectFresh own env' (invalidate hostId pj) \<and> coherentCache env' pj'"
proof -
  have "coherentCache env' (invalidate hostId pj)" by (rule coherent_invalidate [OF assms(1)]) (use assms(2) in blast)
  from project_fresh [OF this assms(3)] show ?thesis by blast
qed

lemma cached_projection_is_fresh_witness:
  "fst (project True (se_projection (sampleEnv sampleLayout)) (invalidate (Some ''local'') freshProjection))
     = projectFresh True (se_projection (sampleEnv sampleLayout)) (invalidate (Some ''local'') freshProjection)"
proof -
  have "coherentCache (se_projection (sampleEnv (emptyLayout ''local''))) freshProjection"
    by (simp add: coherentCache_def freshProjection_def)
  moreover have "\<forall>h. Some ''local'' \<noteq> None \<and> h \<noteq> the (Some ''local'') \<longrightarrow>
      en_load (se_projection (sampleEnv sampleLayout)) h = en_load (se_projection (sampleEnv (emptyLayout ''local''))) h"
    by (simp add: sampleEnv_def)
  moreover obtain layouts pj where p: "project True (se_projection (sampleEnv sampleLayout))
      (invalidate (Some ''local'') freshProjection) = (layouts, pj)" by force
  ultimately have "layouts = projectFresh True (se_projection (sampleEnv sampleLayout))
      (invalidate (Some ''local'') freshProjection) \<and> coherentCache (se_projection (sampleEnv sampleLayout)) pj"
    by (rule cached_projection_is_fresh)
  then show ?thesis by (simp add: p)
qed

text \<open>
  C28: of the copies of a workspace that several partitions may hold, only the home partition's
  is ever published; a workspace whose home cannot be determined keeps its last publication and
  gets no other.
\<close>

theorem published_from_home:
  assumes "projectFresh own env pj = Inr layouts" "map_of layouts key = Some published"
  shows "(\<exists>h m ws. h \<in> set (en_hostIds env) \<and> en_homeHostId env key = Inr (Some h) \<and> en_load env h = Some m
       \<and> (key, ws) \<in> set (md_workspaces m) \<and> published = publishWorkspaceLayout own ws h)
     \<or> (\<exists>e. en_homeHostId env key = Inl e) \<and> map_of (pj_published pj) key = Some published"
  by (rule projectFresh_homed [OF assms])

lemma published_from_home_witness:
  "map_of sampleShown ''repo::main'' = Some (publishWorkspaceLayout True sampleMain ''local'')
   \<and> (\<exists>ws. (''repo::main'', ws) \<in> set (md_workspaces sampleLayout)
        \<and> publishWorkspaceLayout True sampleMain ''local'' = publishWorkspaceLayout True ws ''local'')"
  using published_from_home [OF sample_projected sampleShown_main] sampleShown_main by (simp add: sampleEnv_def)

text \<open>
  C29: what the host publishes is enough to rebuild the workspace.  The rebuilt one is well
  formed, lists the tabs in their canonical order, has the same groups, group tree and terminals
  in its panes, and publishes the same layout again, but for the binding generations, which only
  the host knows.
\<close>

theorem published_layout_rebuilds:
  fixes own :: bool and host :: string
  assumes "wf_workspace E ws"
  defines "ws' \<equiv> workspaceLayoutFromPublished (publishWorkspaceLayout own ws host)"
  shows "wf_workspace E ws' \<and> ws_tabs ws' = tabsInOrder ws \<and> ws_groups ws' = ws_groups ws
     \<and> ws_groupLayout ws' = ws_groupLayout ws
     \<and> (\<forall>leaf. ptyAt ws' leaf = (if leaf \<in> set (paneIds ws) then ptyAt ws leaf else None))
     \<and> publishWorkspaceLayout own ws' host = mapPanes withoutGeneration (publishWorkspaceLayout own ws host)"
  using rebuilt_wf [OF assms(1), of own host] ptyAt_rebuilt [OF assms(1), of own host]
    publish_rebuilt [OF assms(1), of own host] rebuilt_fields [of own ws host]
  by (simp add: ws'_def rebuilt_def)

lemma published_layout_rebuilds_witness:
  "ws_tabs (workspaceLayoutFromPublished (publishWorkspaceLayout True sampleMain ''local'')) = tabsInOrder sampleMain"
  using published_layout_rebuilds [OF wf_sampleMain, of True "''local''"] by blast

text \<open>
  C30: whatever a client has received, and whatever comes then in any order (frames of any kind,
  snapshots and other epochs included, broken values, ends and errors of the stream, timers), as
  long as no records frame applies it subscribes at most three times at once; and whenever it
  waits to subscribe, it waits at least one and at most thirty seconds.
\<close>

theorem client_waits_bounded:
  assumes "noneApply later (clientRun earlier)"
  shows "openedAtOnce later (clientRun earlier) \<le> 3
     \<and> (\<forall>d. lc_reopenTimer (clientRun (earlier @ later)) = Some d \<longrightarrow> 1000 \<le> d \<and> d \<le> 30000)"
  using openedAtOnce_bounded [OF assms] client_bounded [of "earlier @ later"]
  by (auto simp: clientBounded_def REOPEN_DELAY_MS_def REOPEN_DELAY_CAP_MS_def RESYNC_BUDGET_def)

lemma client_waits_bounded_witness:
  "openedAtOnce [brokenValue 1, brokenValue 3] (clientRun [sampleSnapshot]) = 1
   \<and> lc_reopenTimer (clientRun ([sampleSnapshot] @ [brokenValue 1, brokenValue 3])) = Some 1000
   \<and> openedAtOnce [brokenValue 1, brokenValue 3] (clientRun [sampleSnapshot]) \<le> 3 \<and> (1000 :: int) \<le> 30000"
  using client_waits_bounded [OF broken_run(1)] broken_run(2,3) by blast

text \<open>
  C31: a reply to a command runs once the frame that shows its effect has come.  Over any
  sequence of positions, epochs, stream starts and ends, no reply is lost and none runs twice;
  one that still waits is on a stream that is coming, for a position the stream has not reached.
\<close>

theorem replies_run_once:
  assumes "positionRun events [] = (table, fired)"
  shows "mset fired + mset (waiting table) = mset (concat (map repliesAsked events))
     \<and> (\<forall>key entry n reply. map_of table key = Some entry \<and> (n, reply) \<in> set (sp_waiters entry) \<longrightarrow>
          sp_stream entry = Coming \<and> (\<forall>p. sp_position entry = Some p \<longrightarrow> p < n))"
proof -
  have "tableOk []" by (simp add: tableOk_def)
  from positionRun_ok [OF this assms] have ok: "tableOk table"
    and "mset fired + mset (waiting table) = mset (concat (map repliesAsked events))" by (simp_all add: waiting_def)
  with waiter_ahead [OF ok] show ?thesis by blast
qed

lemma replies_run_once_witness:
  "\<exists>table fired. positionRun [StreamBegun ''local'', ReplyWaits (Some 2) ''a'' ''local'', ReplyWaits (Some 5) ''b'' ''local'',
       PositionNoted (Some 3) ''local''] [] = (table, fired)
     \<and> fired = [''a''] \<and> mset fired + mset (waiting table) = mset [''a'', ''b'']"
proof -
  obtain table fired where run: "positionRun [StreamBegun ''local'', ReplyWaits (Some 2) ''a'' ''local'',
      ReplyWaits (Some 5) ''b'' ''local'', PositionNoted (Some 3) ''local''] [] = (table, fired)" by force
  have "snd (positionRun [StreamBegun ''local'', ReplyWaits (Some 2) ''a'' ''local'',
      ReplyWaits (Some 5) ''b'' ''local'', PositionNoted (Some 3) ''local''] []) = [''a'']" by code_simp
  with replies_run_once [OF run] run show ?thesis by simp
qed

text \<open>
  C32: a fact set for a pane (its start status, the outcome of a resume) is published from the
  first binding it waits for, at once when it waits for none, as long as the pane keeps that
  binding, and never after: not even when the pane returns to it.
\<close>

theorem live_fact_until_rebind:
  "let waits = (\<lambda>b. case awaits of None \<Rightarrow> False | Some a \<Rightarrow> \<not> isAwaitedBind b a)
   in factsSeen paneKey bindings (fst (setFact paneKey datum awaits facts))
     = map (\<lambda>_. None) (takeWhile waits bindings)
       @ (case dropWhile waits bindings of [] \<Rightarrow> [] | b # rest \<Rightarrow>
            map (\<lambda>_. Some datum) (takeWhile (\<lambda>x. x = b) (b # rest))
            @ map (\<lambda>_. None) (dropWhile (\<lambda>x. x = b) (b # rest)))"
  using factsSeen_awaiting [of "fst (setFact paneKey datum awaits facts)" paneKey datum awaits bindings]
  by (simp add: setFact_def Let_def update_conv')

section \<open>Trees, ratios and orders\<close>

text \<open>
  C33: read through its panes in order, the pane tree is a list: removing a pane filters it out,
  inserting one puts it directly before or after its target, and equalizing the dividers changes
  nothing.
\<close>

theorem pane_tree_refines_list:
  "collectLayoutLeafIdsInOrder (removeLayoutLeaf t l) = filter (\<lambda>j. j \<noteq> l) (collectLayoutLeafIdsInOrder t)
   \<and> collectLayoutLeafIdsInOrder (Some (insertLeafBeside n target new side ratio)) =
      concat (map (\<lambda>i. if i = target then (if paneSideBefore side then [new, i] else [i, new]) else [i])
        (collectLayoutLeafIdsInOrder (Some n)))
   \<and> collectLayoutLeafIdsInOrder (Some (equalizeLayout n)) = collectLayoutLeafIdsInOrder (Some n)"
  by (simp add: ids_removeLayoutLeaf ids_insertLeafBeside)

text \<open>
  The code removes a group from the tree in two ways, one of which looks at direct children
  first; on a tree that lists each group once they give the same tree, which keeps the other
  groups in order.
\<close>

theorem group_removals_agree:
  assumes "distinct (leafIds t)"
  shows "removeGroupLayoutLeaf t g = removeTabGroupLayoutLeaf t g
    \<and> optIds (removeGroupLayoutLeaf t g) = filter (\<lambda>j. j \<noteq> g) (leafIds t)"
  using removals_agree [OF assms] ids_removeTabGroupLayoutLeaf by simp

lemma group_removals_agree_witness:
  "removeGroupLayoutLeaf (Split Vertical (Split Horizontal (Leaf ''a'') (Leaf ''b'') None) (Leaf ''c'') None) ''b''
     = Some (Split Vertical (Leaf ''a'') (Leaf ''c'') None)"
proof -
  have "distinct (leafIds (Split Vertical (Split Horizontal (Leaf ''a'') (Leaf ''b'') None) (Leaf ''c'') None))" by simp
  from group_removals_agree [OF this, of "''b''"] show ?thesis by simp
qed

text \<open>
  The test that calls a drop beside the target a no-op is right: moving the sibling it finds to
  that side of the target gives the same tree, dividers aside.
\<close>

theorem drop_on_sibling_is_noop:
  assumes "distinct (leafIds t)" "findLayoutSiblingOnSplitSide t target side = Some s"
  shows "sameIgnoringRatios (moveGroupLeafBeside t s target side) t"
  by (rule move_sibling_same [OF assms])

lemma drop_on_sibling_is_noop_witness:
  "sameIgnoringRatios (moveGroupLeafBeside (Split Horizontal (Leaf ''a'') (Leaf ''b'') (Some (1 / 3))) ''b'' ''a'' GRight)
     (Split Horizontal (Leaf ''a'') (Leaf ''b'') (Some (1 / 3)))"
  by (rule drop_on_sibling_is_noop)
    (simp_all add: getDirectLayoutSiblingOnSplitSide_def)

text \<open>
  C34: the divider intents collected from the difference of two trees of the same shape, applied
  to the first, are all accepted and give the ratios of the second: the same ones for groups,
  and within the tolerance at which a pane's ratio is saved as even for panes.
\<close>

theorem ratio_intents_round_trip:
  assumes "sameIgnoringRatios t t'"
  shows "(\<exists>n. withGroupSplitRatios t (changedSplitRatios t t' []) = Some n
        \<and> sameIgnoringRatios n t' \<and> ratiosOf n = ratiosOf t')
    \<and> (\<exists>n. withPaneSplitRatios t (changedSplitRatios t t' []) = Some n \<and> sameIgnoringRatios n t'
        \<and> list_all2 (\<lambda>x y. \<bar>x - y\<bar> \<le> SPLIT_RATIO_TOLERANCE) (ratiosOf n) (ratiosOf t'))"
  using groupRatios_round_trip [OF assms] paneRatios_round_trip [OF assms] by (rule conjI)

lemma ratio_intents_round_trip_witness:
  "\<exists>n. withGroupSplitRatios (Split Vertical (Leaf ''a'') (Leaf ''b'') None)
        (changedSplitRatios (Split Vertical (Leaf ''a'') (Leaf ''b'') None)
          (Split Vertical (Leaf ''a'') (Leaf ''b'') (Some (1 / 4))) []) = Some n \<and> ratiosOf n = [1 / 4]"
proof -
  have "sameIgnoringRatios (Split Vertical (Leaf ''a'') (Leaf ''b'') None)
      (Split Vertical (Leaf ''a'') (Leaf ''b'') (Some (1 / 4)))" by simp
  from ratio_intents_round_trip [OF this] show ?thesis by (auto simp: effectiveRatio_def)
qed


text \<open>
  C36: the single moves computed to get from one tab order to another give exactly that order
  when they are replayed one after the other, and none are computed when the tabs are not the
  same.
\<close>

theorem tab_moves_replay:
  assumes "distinct fromOrder"
  shows "(if mset fromOrder = mset to then applyTabOrderMoves fromOrder (tabOrderMoves fromOrder to) = to
    else tabOrderMoves fromOrder to = [])"
  using apply_tabOrderMoves [OF assms, of to] tabOrderMoves_refuses [OF assms, of to] by simp

lemma tab_moves_replay_witness:
  "applyTabOrderMoves [''a'', ''b'', ''c''] (tabOrderMoves [''a'', ''b'', ''c''] [''c'', ''a'', ''b'']) = [''c'', ''a'', ''b'']"
  using tab_moves_replay [of "[''a'', ''b'', ''c'']" "[''c'', ''a'', ''b'']"] by simp

text \<open>
  When a client that sees only some of the tabs asks for an order of them, the tabs it names
  come in exactly that order, the tabs it did not name keep theirs, and no tab is lost or
  doubled.
\<close>

theorem projected_reorder:
  fixes order requestedOrder :: "string list"
  assumes "distinct order" "distinct requestedOrder"
  shows "filter (\<lambda>i. i \<in> set requestedOrder \<inter> set order) (reorderProjectedTabOrder order requestedOrder t)
      = filter (\<lambda>i. i \<in> set order) requestedOrder
    \<and> filter (\<lambda>i. i \<notin> set requestedOrder \<inter> set order) (reorderProjectedTabOrder order requestedOrder t)
      = filter (\<lambda>i. i \<notin> set requestedOrder \<inter> set order) order
    \<and> distinct (reorderProjectedTabOrder order requestedOrder t)"
  using reorderProjected [OF assms, of t] by (simp add: conj_commute)

lemma projected_reorder_witness:
  "filter (\<lambda>i. i \<in> {''a'', ''c''}) (reorderProjectedTabOrder [''a'', ''b'', ''c''] [''c'', ''a''] ''c'') = [''c'', ''a'']"
  using projected_reorder [of "[''a'', ''b'', ''c'']" "[''c'', ''a'']" "''c''"] by (simp add: insert_commute Int_commute)

text \<open>
  Inserting a tab into an order whose pinned tabs come first keeps them first, adds exactly that
  tab, and leaves the other tabs in their order.
\<close>

theorem insertion_keeps_pins_first:
  assumes "pinnedFirst tabs order"
  shows "pinnedFirst tabs (insertTabIdIntoOrder order tabs t (isPinnedIn tabs t) anchor)
    \<and> set (insertTabIdIntoOrder order tabs t (isPinnedIn tabs t) anchor) = insert t (set order)
    \<and> filter (\<lambda>i. i \<noteq> t) (insertTabIdIntoOrder order tabs t (isPinnedIn tabs t) anchor)
      = filter (\<lambda>i. i \<noteq> t) (dedupeTabOrder order)"
  using pinnedFirst_insertTabIdIntoOrder [OF assms refl] by (simp add: set_insertTabIdIntoOrder insertTabIdIntoOrder_siblings)

lemma insertion_keeps_pins_first_witness:
  "pinnedFirst [\<lparr>pt_id = ''p'', pt_isPinned = Some True\<rparr>]
     (insertTabIdIntoOrder [''p'', ''a''] [\<lparr>pt_id = ''p'', pt_isPinned = Some True\<rparr>] ''n''
        (isPinnedIn [\<lparr>pt_id = ''p'', pt_isPinned = Some True\<rparr>] ''n'') (Some ''p''))"
proof -
  have "pinnedFirst [\<lparr>pt_id = ''p'', pt_isPinned = Some True\<rparr>] [''p'', ''a'']"
    by (simp add: pinnedFirst_def isPinnedIn_def)
  from insertion_keeps_pins_first [OF this] show ?thesis by blast
qed

section \<open>Identifiers\<close>

text \<open>
  A text parses as the key of a tab and a pane exactly when it is the key made from them; so
  parsing is the inverse of making, and no two panes share a key.
\<close>

theorem pane_key_round_trip: "parsePaneKey k = Some (t, l) \<longleftrightarrow> makePaneKey t l = Inr k"
  by (rule parse_makePaneKey)

text \<open>
  The host id made from an SSH target parses back to that target, whatever characters it
  contains.
\<close>

theorem ssh_host_id_round_trip:
  assumes "asciiText t" "t \<noteq> []"
  shows "parseExecutionHostId (Some (toSshExecutionHostId t)) = Some (SshHost (toSshExecutionHostId t) t)"
  by (rule parse_toSshExecutionHostId [OF assms])

lemma ssh_host_id_round_trip_witness:
  "parseExecutionHostId (Some (toSshExecutionHostId ''user@host:22''))
     = Some (SshHost (toSshExecutionHostId ''user@host:22'') ''user@host:22'')"
  by (rule ssh_host_id_round_trip) (simp_all add: asciiText_def)

text \<open>
  The id derived from a name is a UUID of the shape pane ids must have, for every name.
\<close>

theorem derived_ids_are_uuids: "isStablePaneId (nameBasedUuid name)"
  by (rule isStable_nameBasedUuid)

text \<open>
  Two editor files have the same owned id only when path, worktree and runtime agree.
\<close>

theorem owned_file_id_determines_file:
  assumes "ownedEditorFileId p w r = ownedEditorFileId p' w' r'"
  shows "p = p' \<and> w = w' \<and> runtimeKeyOf r = runtimeKeyOf r'"
  using ownedEditorFileId_inj [OF assms] by (intro conjI)

lemma owned_file_id_determines_file_witness:
  "runtimeKeyOf (Some ''env'') = runtimeKeyOf (Some ''env'')"
  using owned_file_id_determines_file [OF refl, of "''f''" "''w''" "Some ''env''"] by blast

text \<open>
  C37: the loop that looks for the next terminal ordinal ends for every list of titles: it needs
  at most as many rounds as there are titles, and finds the least ordinal none of them has.
\<close>

theorem next_ordinal_found:
  "\<exists>k. getNextTerminalOrdinal titles = Some k \<and> 1 \<le> k
     \<and> Some k \<notin> terminalOrdinal ` set titles
     \<and> Some ` {1..<k} \<subseteq> terminalOrdinal ` set titles"
  using getNextTerminalOrdinal_least [of titles] by (force simp: image_iff)

section \<open>Records and bookkeeping\<close>

text \<open>
  C38: pruning the records of closed terminals leaves at most 500, each of them a record that
  has not expired, and drops a live record only for ones closed no earlier.
\<close>

theorem pruned_records_bounded:
  fixes closedAt :: "'v \<Rightarrow> int" and r :: "(string \<times> 'v) list option"
  assumes "distinct (keysOf r)"
  shows "length (pruneClosedTerminalTabTombstones closedAt r now) \<le> MAX_CLOSED_TERMINAL_TAB_TOMBSTONES
    \<and> set (pruneClosedTerminalTabTombstones closedAt r now) \<subseteq> {(k, v) \<in> set (orElse r []). liveRecord now (closedAt v)}
    \<and> (\<forall>(k, v)\<in>set (pruneClosedTerminalTabTombstones closedAt r now). \<forall>(k', v')\<in>set (orElse r []).
         liveRecord now (closedAt v') \<and> (k', v') \<notin> set (pruneClosedTerminalTabTombstones closedAt r now)
           \<longrightarrow> closedAt v' \<le> closedAt v)"
  using prune_bounds [OF assms, where closedAt = closedAt and now = now] by blast

lemma pruned_records_bounded_witness:
  "length (pruneClosedTerminalTabTombstones id (Some [(''a'', 1), (''b'', 2)]) 3) \<le> MAX_CLOSED_TERMINAL_TAB_TOMBSTONES"
proof -
  have "distinct (keysOf (Some [(''a'', 1 :: int), (''b'', 2)]))" by simp
  from pruned_records_bounded [OF this] show ?thesis by blast
qed

text \<open>
  C39: the panes an edit dropped are exactly the panes of the layout before that showed a
  terminal p in a tab of a workspace, whose workspace, if still there, has no data for them any
  more, and whose terminal p under the same incarnation, or the same lack of one, no pane of any
  tab in any workspace after shows.  A dropped pane is named by its host, worktree, terminal and
  pane.
\<close>

theorem dropped_panes_exact:
  assumes "distinct (map fst (md_workspaces before))" "distinct (map fst (md_workspaces after))"
  shows "l \<in> set (droppedLeavesOf before after) \<longleftrightarrow>
     (\<exists>key ws t. workspaceAt before key = Some ws \<and> paneShows ws t (dl_leafId l) (dl_ptyId l) (dl_incarnationId l)
        \<and> dl_hostId l = md_hostId before \<and> dl_worktreeId l = ws_worktreeId ws \<and> dl_tabId l = tb_entityId t
        \<and> (\<forall>w. workspaceAt after key = Some w \<longrightarrow> leafAt w (dl_leafId l) = None)
        \<and> \<not> (\<exists>k w u i. workspaceAt after k = Some w \<and> paneShows w u i (dl_ptyId l) (dl_incarnationId l)))"
  using droppedLeavesOf_panes [OF assms] .

lemma dropped_panes_exact_witness:
  "\<exists>l. l \<in> set (droppedLeavesOf sampleLayout (emptyLayout ''local'')) \<and> dl_ptyId l = ''p1''"
proof -
  have keys: "distinct (map fst (md_workspaces sampleLayout))" "distinct (map fst (md_workspaces (emptyLayout ''local'')))"
    by (simp_all add: sampleLayout_workspaces emptyLayout_def)
  let ?l = "\<lparr>dl_hostId = ''local'', dl_worktreeId = ''repo::main'', dl_tabId = ''t1'', dl_leafId = ''a'',
    dl_ptyId = ''p1'', dl_incarnationId = Some ''i1''\<rparr>"
  let ?t = "sampleTerminal ''t1'' (Split Vertical (Leaf ''a'') (Leaf ''b'') None)"
  have "workspaceAt sampleLayout ''repo::main'' = Some sampleMain"
    and "paneShows sampleMain ?t ''a'' ''p1'' (Some ''i1'')"
    by (simp_all add: sampleLayout_workspaces paneShows_def sample_defs leafIdsOf_def)
  moreover have "md_hostId sampleLayout = ''local''" "ws_worktreeId sampleMain = ''repo::main''" "tb_entityId ?t = ''t1''"
    by (simp_all add: sample_defs)
  moreover have "workspaceAt (emptyLayout ''local'') k = None" for k by (simp add: emptyLayout_def)
  ultimately have "?l \<in> set (droppedLeavesOf sampleLayout (emptyLayout ''local''))"
    unfolding dropped_panes_exact [OF keys] by (intro exI [of _ "''repo::main''"] exI [of _ sampleMain] exI [of _ ?t]) simp
  moreover have "dl_ptyId ?l = ''p1''" by simp
  ultimately show ?thesis by blast
qed

text \<open>
  A commit advances the topology revision of a repository by exactly one when a worktree of that
  repository changed its terminal panes or retired one, and leaves every other revision as it
  was; a commit that keeps every workspace's panes changes none.
\<close>

theorem topology_revision_counts:
  "revisionOf (updateLegacyPersistence same before after retired) repo = revisionOf after repo
     + (if repo \<in> getRepoIdFromWorktreeId ` set (changedOf same before after retired) then 1 else 0)
   \<and> (set (map fst (md_workspaces before)) = set (map fst (md_workspaces after))
        \<and> (\<forall>k w. workspaceAt after k = Some w \<longrightarrow> set (paneKeys w) = set (paneKeys (workspaceOrEmpty before k)))
      \<longrightarrow> changedOf same before after [] = [])"
  using revision_bumped changedOf_none by blast

lemma topology_revision_counts_witness:
  "changedOf (\<lambda>_. False) sampleLayout sampleLayout [] = []"
  using topology_revision_counts [of "\<lambda>_. False" sampleLayout sampleLayout "[]"]
  by (auto simp: workspaceOrEmpty_def)



text \<open>
  A relay terminal id made into the application's id for a connection translates back, on that
  connection, to the relay's own id; an id that was an application id already is unwrapped once.
\<close>

theorem relay_id_round_trip:
  assumes "asciiText (normalizeConnectionId c)" "normalizeConnectionId c \<noteq> []" "r \<noteq> []"
    and "toAppSshPtyId c r = Inr p"
  shows "toRelaySshPtyId c p = Inr (case parseAppSshPtyId r of
           None \<Rightarrow> r | Some parsed \<Rightarrow> sp_relayPtyId parsed)"
  by (rule toRelay_toApp [OF assms])

lemma relay_id_round_trip_witness:
  "\<exists>p. toAppSshPtyId ''box'' ''pty-1'' = Inr p \<and> toRelaySshPtyId ''box'' p = Inr ''pty-1''"
proof -
  have none: "parseAppSshPtyId ''pty-1'' = None" by code_simp
  obtain p where p: "toAppSshPtyId ''box'' ''pty-1'' = Inr p" by (simp add: toAppSshPtyId_def none)
  have "asciiText (normalizeConnectionId ''box'')" "normalizeConnectionId ''box'' \<noteq> []" by code_simp+
  from relay_id_round_trip [OF this _ p] p none show ?thesis by simp
qed

text \<open>
  The checker's test of the group tree is too weak: a tree that names the first group twice and
  the second not at all has as many leaves as there are groups and no further ids, so the layout
  passes every rule although its tree does not show the second group.
\<close>

theorem checker_misses_doubled_group:
  "checkWorkspaceLayoutModelRules [doubledTree] None = []
   \<and> groupIds (workspaceOrEmpty doubledTree ''repo::main'') = [''g1'', ''g2'']
   \<and> groupTreeIds (ws_groupLayout (workspaceOrEmpty doubledTree ''repo::main'')) = [''g1'', ''g1'']
   \<and> \<not> wf_layout doubledTree"
  using doubledTree_passes doubledTree_tree doubledTree_broken by (intro conjI)

text \<open>
  A command that shows a running terminal in a new group, when the host already holds an unbound
  pane for it, replies with that pane but drops the binding it just made: the reply comes from a
  layout that is thrown away.  The same command without a new group binds the pane.
\<close>

theorem adoption_into_new_group_drops_binding:
  "(\<exists>m r e oc. applyLayoutCommand False sampleLayout (sampleAdopt True) sampleContext = Applied m r e oc
      \<and> rs_paneKey r = Some ''t2:c'' \<and> ptyAt (workspaceOrEmpty m ''repo::main'') ''c'' = None)
   \<and> (\<exists>m r e oc. applyLayoutCommand False sampleLayout (sampleAdopt False) sampleContext = Applied m r e oc
      \<and> rs_paneKey r = Some ''t2:c'' \<and> ptyAt (workspaceOrEmpty m ''repo::main'') ''c'' = Some ''p7'')"
  using sampleAdopt_dropped sampleAdopt_bound by (auto elim!: yieldsE)

text \<open>
  Adopting a running terminal looks for a pane that shows it in the workspace of the command
  only, so the same terminal adopted in a second workspace gets a second tab, and the checker
  reports it.
\<close>

lemma terminal_adopted_in_two_workspaces:
  "\<exists>m r e oc n r' e' oc'.
     applyLayoutCommand False (emptyLayout ''local'') (adoptInto ''repo::main'' ''t1'' ''a'') sampleContext = Applied m r e oc
   \<and> applyLayoutCommand False m (adoptInto ''repo::topic'' ''t2'' ''b'') sampleContext = Applied n r' e' oc'
   \<and> map vi_rule (checkWorkspaceLayoutModelRules [n] None) = [TerminalInTwoPanes]"
  using adopted_twice by (elim yieldsE) (intro exI conjI)

text \<open>
  The loader mints a new id for a tab id that repeats within a workspace, but not for one that a
  workspace loaded before has: the layout it gives has the tab in two places, and the checker
  reports it.
\<close>

lemma tab_id_in_two_workspaces_loads:
  "map vi_rule (checkWorkspaceLayoutModelRules
     [ld_layout (loadWorkspaceLayoutWithoutReport False ''local'' twoPlacesSession plainContext)] None) = [TabInTwoPlaces]"
  by (rule two_places_loaded)

end
